(* ===== verification/Prelude.thy ===== *)
theory Prelude
  imports Main "HOL-Library.List_Lexorder" "HOL-Library.Char_ord" "HOL-Library.Multiset"
    "HOL-Library.AList"
begin

text \<open>
  What every component shares: results that can fail, the JavaScript notions the source
  leans on (truthiness, \<open>Array.prototype.find\<close>, stable \<open>sort\<close>, insertion-ordered
  \<open>Map\<close> and \<open>Set\<close>), and the lemmas about them that the component theories use.
\<close>

named_theorems result_simps "equations and inversions of the result type"
named_theorems js_simps "JavaScript values: truthiness, maps, sets"

section \<open>Results\<close>

text \<open>
  The evaluator tells two exceptions apart: \<open>TimestampInvalidError\<close>, which several
  callers catch, and every other \<open>Error\<close>, which ends the evaluation.
\<close>

datatype js_error = Timestamp_Invalid string | Error_Msg string

type_synonym 'a res = "js_error + 'a"

definition bindR :: "'a res \<Rightarrow> ('a \<Rightarrow> 'b res) \<Rightarrow> 'b res" where
  "bindR m k = (case m of Inl e \<Rightarrow> Inl e | Inr x \<Rightarrow> k x)"

definition throw :: "string \<Rightarrow> 'a res" where
  "throw msg = Inl (Error_Msg msg)"

definition guardR :: "bool \<Rightarrow> string \<Rightarrow> 'a res \<Rightarrow> 'a res" where
  "guardR b msg k = (if b then k else throw msg)"

fun mapR :: "('a \<Rightarrow> 'b res) \<Rightarrow> 'a list \<Rightarrow> 'b list res" where
  "mapR f [] = Inr []"
| "mapR f (x # xs) = bindR (f x) (\<lambda>y. bindR (mapR f xs) (\<lambda>ys. Inr (y # ys)))"

fun filterR :: "('a \<Rightarrow> bool res) \<Rightarrow> 'a list \<Rightarrow> 'a list res" where
  "filterR f [] = Inr []"
| "filterR f (x # xs) =
     bindR (f x) (\<lambda>b. bindR (filterR f xs) (\<lambda>ys. Inr (if b then x # ys else ys)))"

fun foldR :: "('s \<Rightarrow> 'a \<Rightarrow> 's res) \<Rightarrow> 's \<Rightarrow> 'a list \<Rightarrow> 's res" where
  "foldR f s [] = Inr s"
| "foldR f s (x # xs) = bindR (f s x) (\<lambda>s'. foldR f s' xs)"

fun all_ok :: "('a \<Rightarrow> unit res) \<Rightarrow> 'a list \<Rightarrow> unit res" where
  "all_ok f [] = Inr ()"
| "all_ok f (x # xs) = bindR (f x) (\<lambda>_. all_ok f xs)"

lemma bindR_Inr [result_simps, simp]: "bindR (Inr x) k = k x"
  by (simp add: bindR_def)

lemma bindR_Inl [result_simps, simp]: "bindR (Inl e) k = Inl e"
  by (simp add: bindR_def)

lemma bindR_eq_Inr [result_simps]: "bindR m k = Inr y \<longleftrightarrow> (\<exists>x. m = Inr x \<and> k x = Inr y)"
  by (cases m) (auto simp: bindR_def)

lemma bindR_InrE:
  assumes "bindR m k = Inr y"
  obtains x where "m = Inr x" and "k x = Inr y"
  using assms by (auto simp: bindR_eq_Inr)

lemma bindR_eq_Inl [result_simps]:
  "bindR m k = Inl e \<longleftrightarrow> m = Inl e \<or> (\<exists>x. m = Inr x \<and> k x = Inl e)"
  by (cases m) (auto simp: bindR_def)

lemma guardR_eq_Inr [result_simps]: "guardR b msg k = Inr y \<longleftrightarrow> b \<and> k = Inr y"
  by (simp add: guardR_def throw_def)

lemma throw_neq_Inr [result_simps, simp]: "throw msg \<noteq> Inr y"
  by (simp add: throw_def)

lemma mapR_eq_Inr [result_simps]: "mapR f xs = Inr ys \<longleftrightarrow> list_all2 (\<lambda>x y. f x = Inr y) xs ys"
  by (induction xs arbitrary: ys)
    (auto simp: bindR_eq_Inr list_all2_Cons1)

lemma mapR_length: "mapR f xs = Inr ys \<Longrightarrow> length ys = length xs"
  by (simp add: mapR_eq_Inr list_all2_lengthD)

lemma mapR_total: "(\<And>x. x \<in> set xs \<Longrightarrow> f x = Inr (g x)) \<Longrightarrow> mapR f xs = Inr (map g xs)"
  by (induction xs) auto

lemma mapR_cong: "(\<And>x. x \<in> set xs \<Longrightarrow> f x = g x) \<Longrightarrow> mapR f xs = mapR g xs"
  by (induction xs) auto

lemma mapR_mem:
  assumes "mapR f xs = Inr ys" and "y \<in> set ys"
  shows "\<exists>x \<in> set xs. f x = Inr y"
  using assms by (fastforce simp: mapR_eq_Inr list_all2_conv_all_nth in_set_conv_nth)

lemma filterR_total: "(\<And>x. x \<in> set xs \<Longrightarrow> f x = Inr (g x)) \<Longrightarrow> filterR f xs = Inr (filter g xs)"
  by (induction xs) auto

lemma filterR_eq_Inr [result_simps]:
  "filterR f xs = Inr ys \<longleftrightarrow>
     (\<forall>x \<in> set xs. \<exists>b. f x = Inr b) \<and> ys = filter (\<lambda>x. f x = Inr True) xs"
proof (induction xs arbitrary: ys)
  case Nil
  then show ?case by auto
next
  case (Cons x xs)
  then show ?case by (cases "f x") (auto simp: bindR_eq_Inr)
qed

lemma all_ok_eq_Inr [result_simps]: "all_ok f xs = Inr u \<longleftrightarrow> (\<forall>x \<in> set xs. f x = Inr ())"
  by (induction xs) (auto simp: bindR_eq_Inr)

lemma foldR_invariant:
  assumes "foldR f s xs = Inr s'" and "P s"
    and "\<And>s x t. x \<in> set xs \<Longrightarrow> P s \<Longrightarrow> f s x = Inr t \<Longrightarrow> P t"
  shows "P s'"
  using assms by (induction xs arbitrary: s) (auto simp: bindR_eq_Inr)

section \<open>Optional values and truthiness\<close>

text \<open>
  An absent member and \<open>undefined\<close> are \<open>None\<close>. The records that reach the evaluator have
  passed the closed schemas, which admit no \<open>null\<close> in these members. A string is falsy
  when it is absent or empty, a boolean when it is absent or false.
\<close>

definition truthy :: "string option \<Rightarrow> bool" where
  "truthy s = (case s of None \<Rightarrow> False | Some v \<Rightarrow> v \<noteq> [])"

definition truthy_bool :: "bool option \<Rightarrow> bool" where
  "truthy_bool b = (b = Some True)"

definition the_or :: "'a \<Rightarrow> 'a option \<Rightarrow> 'a" where
  "the_or d v = (case v of None \<Rightarrow> d | Some x \<Rightarrow> x)"

definition or_else :: "'a option \<Rightarrow> 'a option \<Rightarrow> 'a option" where
  "or_else a b = (case a of None \<Rightarrow> b | Some x \<Rightarrow> Some x)"

text \<open>\<open>Number(a) < Number(b)\<close>: a comparison with \<open>undefined\<close> compares with NaN and fails.\<close>

definition num_less :: "int option \<Rightarrow> int option \<Rightarrow> bool" where
  "num_less a b = (case (a, b) of (Some x, Some y) \<Rightarrow> x < y | _ \<Rightarrow> False)"

lemma truthy_simps [simp, js_simps]: "\<not> truthy None" "truthy (Some v) \<longleftrightarrow> v \<noteq> []"
  by (simp_all add: truthy_def)

lemma the_or_simps [simp, js_simps]: "the_or d None = d" "the_or d (Some x) = x"
  by (simp_all add: the_or_def)

lemma or_else_simps [simp, js_simps]: "or_else None b = b" "or_else (Some x) b = Some x"
  by (simp_all add: or_else_def)

lemma num_less_simps [simp, js_simps]:
  "num_less (Some x) (Some y) \<longleftrightarrow> x < y" "\<not> num_less None b" "\<not> num_less a None"
  by (auto simp: num_less_def split: option.splits)

lemma truthyE: "truthy s \<Longrightarrow> (\<And>v. s = Some v \<Longrightarrow> v \<noteq> [] \<Longrightarrow> P) \<Longrightarrow> P"
  by (cases s) auto

section \<open>Lists as arrays\<close>

definition starts_with :: "string \<Rightarrow> string \<Rightarrow> bool" where
  "starts_with s p = (take (length p) s = p)"

lemma find_Some_iff2: "List.find P xs = Some x \<Longrightarrow> P x \<and> x \<in> set xs"
  by (auto simp: find_Some_iff)

lemma find_is_hd_filter: "List.find P xs = (case filter P xs of [] \<Rightarrow> None | x # _ \<Rightarrow> Some x)"
  by (induction xs) auto

lemma length_eq_1E:
  assumes "length xs = Suc 0" obtains x where "xs = [x]"
  using assms by (cases xs) auto

lemma sort_key_cong_mset:
  fixes f :: "'a \<Rightarrow> 'k::linorder"
  assumes "mset xs = mset ys" and "inj_on f (set xs)"
  shows "sort_key f xs = sort_key f ys"
proof (rule properties_for_sort_key [symmetric])
  show "mset (sort_key f xs) = mset ys" using assms(1) by simp
  show "sorted (map f (sort_key f xs))" by simp
  fix k
  assume k: "k \<in> set (sort_key f xs)"
  have one: "mset (filter (\<lambda>x. f k = f x) (sort_key f xs)) = mset (filter (\<lambda>x. f k = f x) ys)"
    using assms(1) by (simp add: mset_filter)
  have eq: "\<forall>x \<in> set (sort_key f xs). f k = f x \<longrightarrow> x = k"
    using assms(2) k by (auto simp: inj_on_def)
  have set_eq: "set ys = set xs" using assms(1) by (metis set_mset_mset)
  have "filter (\<lambda>x. f k = f x) (sort_key f xs)
      = replicate (length (filter (\<lambda>x. f k = f x) (sort_key f xs))) k"
    using eq by (intro replicate_eqI) auto
  moreover have "filter (\<lambda>x. f k = f x) ys = replicate (length (filter (\<lambda>x. f k = f x) ys)) k"
    using eq set_eq by (intro replicate_eqI) auto
  moreover have "length (filter (\<lambda>x. f k = f x) (sort_key f xs)) = length (filter (\<lambda>x. f k = f x) ys)"
    using one by (metis size_mset)
  ultimately show "filter (\<lambda>x. f k = f x) (sort_key f xs) = filter (\<lambda>x. f k = f x) ys"
    by simp
qed

section \<open>Insertion-ordered maps and sets\<close>

text \<open>
  A JavaScript \<open>Map\<close> iterates in insertion order and \<open>set\<close> on a present key keeps its
  place: this is \<^theory_text>\<open>AList.update\<close>. \<open>new Map(entries)\<close> sets the entries from the left.
\<close>

type_synonym ('k, 'v) jsmap = "('k \<times> 'v) list"

definition map_set :: "'k \<Rightarrow> 'v \<Rightarrow> ('k, 'v) jsmap \<Rightarrow> ('k, 'v) jsmap" where
  "map_set k v m = AList.update k v m"

definition map_get :: "('k, 'v) jsmap \<Rightarrow> 'k \<Rightarrow> 'v option" where
  "map_get m k = map_of m k"

definition map_has :: "('k, 'v) jsmap \<Rightarrow> 'k \<Rightarrow> bool" where
  "map_has m k = (k \<in> fst ` set m)"

definition map_values :: "('k, 'v) jsmap \<Rightarrow> 'v list" where
  "map_values m = map snd m"

definition map_from :: "('k \<times> 'v) list \<Rightarrow> ('k, 'v) jsmap" where
  "map_from es = fold (\<lambda>(k, v) m. map_set k v m) es []"

definition set_add :: "'a \<Rightarrow> 'a list \<Rightarrow> 'a list" where
  "set_add x xs = (if x \<in> set xs then xs else xs @ [x])"

lemma map_get_empty [simp, js_simps]: "map_get [] k = None"
  by (simp add: map_get_def)

lemma map_get_set [simp, js_simps]: "map_get (map_set k v m) k' = (if k' = k then Some v else map_get m k')"
  by (simp add: map_get_def map_set_def update_conv')

lemma map_has_iff [js_simps]: "map_has m k \<longleftrightarrow> map_get m k \<noteq> None"
  by (auto simp: map_has_def map_get_def map_of_eq_None_iff)

lemma map_get_from: "map_get (map_from es) k = map_of (rev es) k"
proof -
  have "map_get (fold (\<lambda>(k, v) m. map_set k v m) es m) k = (map_of m ++ map_of (rev es)) k" for m
    by (induction es arbitrary: m)
      (auto simp: map_get_def map_set_def update_conv' map_add_def split: option.splits)
  from this [of "[]"] show ?thesis by (simp add: map_from_def)
qed

lemma map_set_distinct: "distinct (map fst m) \<Longrightarrow> distinct (map fst (map_set k v m))"
  by (simp add: map_set_def distinct_update)

lemma map_set_values: "set (map_values (map_set k v m)) \<subseteq> insert v (set (map_values m))"
  unfolding map_values_def map_set_def by (induction m) auto

lemma map_get_value: "map_get m k = Some v \<Longrightarrow> v \<in> set (map_values m)"
  by (force simp: map_get_def map_values_def dest: map_of_SomeD)

lemma set_set_add [simp, js_simps]: "set (set_add x xs) = insert x (set xs)"
  by (auto simp: set_add_def)

lemma distinct_set_add [simp]: "distinct xs \<Longrightarrow> distinct (set_add x xs)"
  by (simp add: set_add_def)

section \<open>Texts\<close>

definition is_lower :: "char \<Rightarrow> bool" where "is_lower c \<longleftrightarrow> CHR ''a'' \<le> c \<and> c \<le> CHR ''z''"

definition is_upper :: "char \<Rightarrow> bool" where "is_upper c \<longleftrightarrow> CHR ''A'' \<le> c \<and> c \<le> CHR ''Z''"

definition is_digit :: "char \<Rightarrow> bool" where "is_digit c \<longleftrightarrow> CHR ''0'' \<le> c \<and> c \<le> CHR ''9''"

definition lower_ascii :: "char \<Rightarrow> char" where
  "lower_ascii c = (if CHR ''A'' \<le> c \<and> c \<le> CHR ''Z'' then char_of (of_char c + 32 :: nat) else c)"

text \<open>\<open>Array.prototype.join\<close> and \<open>String.prototype.split\<close> on a separator of one character.\<close>

fun join :: "string \<Rightarrow> string list \<Rightarrow> string" where
  "join separator [] = []"
| "join separator [s] = s"
| "join separator (s # t # ts) = s @ separator @ join separator (t # ts)"

fun split_on :: "char \<Rightarrow> string \<Rightarrow> string list" where
  "split_on c [] = [[]]"
| "split_on c (x # xs) = (if x = c then [] # split_on c xs
     else (case split_on c xs of [] \<Rightarrow> [[x]] | y # ys \<Rightarrow> (x # y) # ys))"

lemma split_on_absent: "c \<notin> set s \<Longrightarrow> split_on c s = [s]"
  by (induction s) auto

lemma split_on_prefix: "c \<notin> set s \<Longrightarrow> split_on c (s @ c # t) = s # split_on c t"
  by (induction s) auto

lemma split_join:
  "ps \<noteq> [] \<Longrightarrow> (\<And>p. p \<in> set ps \<Longrightarrow> c \<notin> set p) \<Longrightarrow> split_on c (join [c] ps) = ps"
  by (induction "[c]" ps rule: join.induct) (simp_all add: split_on_absent split_on_prefix)

lemma join_Cons_char: "join separator ((x # s) # ss) = x # join separator (s # ss)"
  by (cases ss) simp_all

lemma join_split: "join [c] (split_on c s) = s"
proof (induction s)
  case (Cons x s)
  then show ?case by (cases "split_on c s") (auto simp: join_Cons_char)
qed simp

end
