(* ===== verification/Composite_Key.thy ===== *)
theory Composite_Key
  imports Prelude
begin

text \<open>
  \<open>compositeKey\<close> of \<open>packages/attribution-core/src/evaluation-utils.ts\<close>: the evaluator indexes
  its maps and sets by \<open>JSON.stringify\<close> of a list of identifiers. The rendering is written out
  (RFC 8259 strings as ECMAScript's \<open>QuoteJSONString\<close> produces them, \<open>null\<close> for an absent
  member), and shown injective: two different identifier lists never share a key.
\<close>

definition hex_digit :: "nat \<Rightarrow> char" where
  "hex_digit n = ''0123456789abcdef'' ! n"

definition json_char :: "char \<Rightarrow> string" where
  "json_char c =
     (let n = of_char c :: nat in
      if n = 8 then [CHR 0x5C, CHR ''b'']
      else if n = 9 then [CHR 0x5C, CHR ''t'']
      else if n = 10 then [CHR 0x5C, CHR ''n'']
      else if n = 12 then [CHR 0x5C, CHR ''f'']
      else if n = 13 then [CHR 0x5C, CHR ''r'']
      else if n = 34 then [CHR 0x5C, CHR 0x22]
      else if n = 92 then [CHR 0x5C, CHR 0x5C]
      else if n < 32 then [CHR 0x5C, CHR ''u'', CHR ''0'', CHR ''0'', hex_digit (n div 16), hex_digit (n mod 16)]
      else [c])"

definition json_string :: "string \<Rightarrow> string" where
  "json_string s = [CHR 0x22] @ concat (map json_char s) @ [CHR 0x22]"

definition json_member :: "string option \<Rightarrow> string" where
  "json_member v = (case v of None \<Rightarrow> ''null'' | Some s \<Rightarrow> json_string s)"

fun json_members :: "string option list \<Rightarrow> string" where
  "json_members [] = ''''"
| "json_members [x] = json_member x"
| "json_members (x # y # r) = json_member x @ [CHR '',''] @ json_members (y # r)"

definition compositeKey :: "string option list \<Rightarrow> string" where
  "compositeKey parts = [CHR ''[''] @ json_members parts @ [CHR '']'']"

abbreviation keyOf :: "string list \<Rightarrow> string" where
  "keyOf parts \<equiv> compositeKey (map Some parts)"

section \<open>Reading a rendered string back\<close>

definition hex_value :: "char \<Rightarrow> nat" where
  "hex_value h = length (takeWhile (\<lambda>x. x \<noteq> h) ''0123456789abcdef'')"

text \<open>The class of a rendered character is fixed by its first two characters.\<close>

fun json_unchar :: "string \<Rightarrow> (char \<times> string) option" where
  "json_unchar [] = None"
| "json_unchar (c # r) =
     (if c = CHR 0x22 then None
      else if c \<noteq> CHR 0x5C then Some (c, r)
      else case r of
        [] \<Rightarrow> None
      | d # r' \<Rightarrow>
          if d = CHR ''b'' then Some (char_of (8::nat), r')
          else if d = CHR ''t'' then Some (char_of (9::nat), r')
          else if d = CHR ''n'' then Some (char_of (10::nat), r')
          else if d = CHR ''f'' then Some (char_of (12::nat), r')
          else if d = CHR ''r'' then Some (char_of (13::nat), r')
          else if d = CHR 0x22 then Some (CHR 0x22, r')
          else if d = CHR 0x5C then Some (CHR 0x5C, r')
          else (case r' of
             z1 # z2 # h1 # h2 # q \<Rightarrow>
               Some (char_of (16 * hex_value h1 + hex_value h2), q)
           | _ \<Rightarrow> None))"

lemma hex_value_digit: "n < 16 \<Longrightarrow> hex_value (hex_digit n) = n"
proof -
  assume "n < 16"
  then have "n \<in> set [0..<16]" by simp
  then show ?thesis by (auto simp: hex_digit_def hex_value_def upt_rec)
qed

lemma char_of_quotes: "char_of (34 :: nat) = CHR 0x22" "char_of (92 :: nat) = CHR 0x5C"
  by code_simp+

lemma json_unchar_char: "json_unchar (json_char c @ r) = Some (c, r)"
proof -
  define n where "n = (of_char c :: nat)"
  have c: "c = char_of n" by (simp add: n_def)
  have ne: "c \<noteq> CHR 0x22 \<and> c \<noteq> CHR 0x5C" if "n \<noteq> 34" "n \<noteq> 92"
    using that by (auto simp: n_def)
  show ?thesis
  proof (cases "n < 32 \<and> n \<notin> {8, 9, 10, 12, 13}")
    case True
    then have "n div 16 < 16" "n mod 16 < 16" by auto
    then have "hex_value (hex_digit (n div 16)) = n div 16" "hex_value (hex_digit (n mod 16)) = n mod 16"
      by (simp_all add: hex_value_digit)
    with True c show ?thesis
      by (simp add: json_char_def Let_def flip: n_def)
  next
    case False
    then consider "n \<in> {8, 9, 10, 12, 13}" | "n = 34" | "n = 92" | "32 \<le> n" "n \<noteq> 34" "n \<noteq> 92"
      by force
    then show ?thesis
    proof cases
      case 4
      with ne show ?thesis by (simp add: json_char_def Let_def flip: n_def)
    qed (use c in \<open>auto simp: json_char_def Let_def char_of_quotes simp flip: n_def\<close>)
  qed
qed

lemma json_chars_inj:
  "concat (map json_char s) @ CHR 0x22 # r = concat (map json_char t) @ CHR 0x22 # q \<Longrightarrow> s = t \<and> r = q"
proof (induction s arbitrary: t)
  case Nil
  show ?case
  proof (cases t)
    case (Cons d t')
    from Nil have "json_unchar (CHR 0x22 # r) = json_unchar (concat (map json_char t) @ CHR 0x22 # q)"
      by simp
    with Cons show ?thesis by (simp add: json_unchar_char)
  qed (use Nil in simp)
next
  case (Cons c s)
  show ?case
  proof (cases t)
    case Nil
    from Cons.prems have "json_unchar (concat (map json_char (c # s)) @ CHR 0x22 # r) = json_unchar (CHR 0x22 # q)"
      using Nil by simp
    then show ?thesis by (simp add: json_unchar_char)
  next
    case t: (Cons d t')
    from Cons.prems have "json_unchar (concat (map json_char (c # s)) @ CHR 0x22 # r)
        = json_unchar (concat (map json_char (d # t')) @ CHR 0x22 # q)"
      using t by (simp only:)
    then have "c = d" and "concat (map json_char s) @ CHR 0x22 # r = concat (map json_char t') @ CHR 0x22 # q"
      by (simp_all add: json_unchar_char)
    with Cons.IH t show ?thesis by blast
  qed
qed

lemma json_string_inj: "json_string s @ r = json_string t @ q \<Longrightarrow> s = t \<and> r = q"
  using json_chars_inj [of s r t q] by (simp add: json_string_def)

lemma json_member_inj: "json_member a @ r = json_member b @ q \<Longrightarrow> a = b \<and> r = q"
  by (auto simp: json_member_def json_string_def split: option.splits
      dest: json_string_inj [unfolded json_string_def, simplified])

section \<open>Injectivity of the key\<close>

lemma json_member_no_close: "json_member a @ r \<noteq> CHR '']'' # q"
  by (auto simp: json_member_def json_string_def split: option.splits)

lemma json_members_inj:
  "json_members xs @ CHR '']'' # r = json_members ys @ CHR '']'' # q \<Longrightarrow> xs = ys \<and> r = q"
proof (induction xs arbitrary: ys rule: json_members.induct)
  case 1
  then show ?case
    by (cases ys rule: json_members.cases) (auto simp: json_member_no_close [symmetric])
next
  case (2 x)
  show ?case
  proof (cases ys rule: json_members.cases)
    case 1
    with 2 show ?thesis by (simp add: json_member_no_close)
  next
    case (2 y)
    with \<open>json_members [x] @ _ = _\<close> show ?thesis by (auto dest: json_member_inj)
  next
    case (3 y z r')
    with \<open>json_members [x] @ _ = _\<close> show ?thesis by (auto dest: json_member_inj)
  qed
next
  case (3 x y r')
  show ?case
  proof (cases ys rule: json_members.cases)
    case 1
    with 3 show ?thesis by (simp add: json_member_no_close)
  next
    case (2 z)
    with 3 show ?thesis by (auto dest: json_member_inj)
  next
    case ys: (3 z w q')
    with "3.prems" have "x = z" and "json_members (y # r') @ CHR '']'' # r = json_members (w # q') @ CHR '']'' # q"
      by (auto dest: json_member_inj)
    with "3.IH" [of "w # q'"] ys show ?thesis by simp
  qed
qed

lemma compositeKey_inj [simp]: "compositeKey xs = compositeKey ys \<longleftrightarrow> xs = ys"
  using json_members_inj [of xs "[]" ys "[]"] by (auto simp: compositeKey_def)

lemma inj_Some_map [simp]: "map Some xs = map Some ys \<longleftrightarrow> xs = ys"
  by (simp add: inj_map_eq_map)

end
