(* ===== verification/Clock.thy ===== *)
theory Clock
  imports Prelude
begin

text \<open>
  Instants and their text. The code keeps every instant as the string
  \<open>Date.prototype.toISOString\<close> gives and reads it back with \<open>new Date\<close>; a value whose
  rendering is not the value itself is refused (\<open>time\<close> in
  \<open>packages/attribution-core/src/evaluation-utils.ts\<close>). The proleptic Gregorian calendar of
  ECMAScript's Date is written out, in milliseconds since 1970-01-01T00:00:00.000Z. Years
  outside 0..9999 have the signed six-digit form, and an instant further than \<open>8.64e15\<close> ms
  from the epoch is an invalid Date.
\<close>

section \<open>Days and civil dates\<close>

definition days_from_civil :: "int \<Rightarrow> int \<Rightarrow> int \<Rightarrow> int" where
  "days_from_civil y m d =
     (let y' = (if m \<le> 2 then y - 1 else y);
          mp = (m + 9) mod 12; doy = (153 * mp + 2) div 5 + d - 1
      in 365 * y' + y' div 4 - y' div 100 + y' div 400 + doy - 719468)"

text \<open>Years counted from 1 March, and the day inside such a year.\<close>

definition march_start :: "int \<Rightarrow> int" where
  "march_start y = 365 * y + y div 4 - y div 100 + y div 400"

definition march_parts :: "int \<Rightarrow> int \<times> int" where
  "march_parts z =
     (let era = z div 146097; doe = z mod 146097;
          c = min 3 (doe div 36524); doc = doe - 36524 * c;
          q = doc div 1461; doq = doc - 1461 * q;
          r = min 3 (doq div 365)
      in (400 * era + 100 * c + 4 * q + r, doq - 365 * r))"

definition month_parts :: "int \<Rightarrow> int \<Rightarrow> int \<times> int \<times> int" where
  "month_parts y doy =
     (let mp = (5 * doy + 2) div 153; m = (if mp < 10 then mp + 3 else mp - 9)
      in (y + (if m \<le> 2 then 1 else 0), m, doy - (153 * mp + 2) div 5 + 1))"

definition civil_from_days :: "int \<Rightarrow> int \<times> int \<times> int" where
  "civil_from_days n = (case march_parts (n + 719468) of (y, doy) \<Rightarrow> month_parts y doy)"

lemma march_parts_cycle:
  assumes "march_parts z = (y, doy)"
  obtains era c q r where "y = 400 * era + 100 * c + 4 * q + r" "0 \<le> c" "c \<le> 3" "0 \<le> q" "q \<le> 24"
    "0 \<le> r" "r \<le> 3" "z = 146097 * era + 36524 * c + 1461 * q + 365 * r + doy" "0 \<le> doy"
    "doy \<le> 365" "doy = 365 \<longrightarrow> r = 3 \<and> (q < 24 \<or> c = 3)"
proof -
  define era where "era = z div 146097"
  define doe where "doe = z mod 146097"
  define c where "c = min 3 (doe div 36524)"
  define doc where "doc = doe - 36524 * c"
  define q where "q = doc div 1461"
  define doq where "doq = doc - 1461 * q"
  define r where "r = min 3 (doq div 365)"
  note defs = era_def doe_def c_def doc_def q_def doq_def r_def
  from assms have "400 * era + 100 * c + 4 * q + r = y \<and> doq - 365 * r = doy"
    unfolding march_parts_def Let_def defs by (simp only: prod.inject)
  then have y: "y = 400 * era + 100 * c + 4 * q + r" and doy: "doy = doq - 365 * r" by blast+
  have doe: "0 \<le> doe" "doe \<le> 146096" by (simp_all add: doe_def)
  have c: "0 \<le> c" "c \<le> 3" using doe by (auto simp: c_def)
  have doc: "0 \<le> doc" "doc \<le> 36524" "c < 3 \<Longrightarrow> doc \<le> 36523"
    using doe unfolding doc_def c_def min_def by (auto split: if_splits)
  have q: "0 \<le> q" "q \<le> 24" using doc by (auto simp: q_def)
  have "doq = doc mod 1461" by (simp add: doq_def q_def minus_mult_div_eq_mod)
  then have doq: "0 \<le> doq" "doq \<le> 1460" by simp_all
  have doq': "doq \<le> 1459" if "q = 24" "c < 3"
    using doc(3) [OF that(2)] that(1) by (simp add: doq_def)
  have r: "0 \<le> r" "r \<le> 3" using doq by (auto simp: r_def)
  have bounds: "0 \<le> doy" "doy \<le> 365" "doy = 365 \<Longrightarrow> r = 3 \<and> doq = 1460"
    using doq unfolding doy r_def min_def by (auto split: if_splits)
  have z: "z = 146097 * era + 36524 * c + 1461 * q + 365 * r + doy"
    unfolding doy doq_def doc_def doe_def era_def by (simp add: algebra_simps)
  have leap: "doy = 365 \<longrightarrow> r = 3 \<and> (q < 24 \<or> c = 3)"
    using bounds(3) doq' q c by force
  show thesis using that [OF y c q r z bounds(1,2) leap] .
qed

lemma march_parts_days:
  assumes "march_parts z = (y, doy)"
  shows "z = march_start y + doy"
proof -
  from assms obtain era c q r where y: "y = 400 * era + 100 * c + 4 * q + r"
    and b: "0 \<le> c" "c \<le> 3" "0 \<le> q" "q \<le> 24" "0 \<le> r" "r \<le> 3"
    and z: "z = 146097 * era + 36524 * c + 1461 * q + 365 * r + doy"
    by (rule march_parts_cycle)
  have "y div 4 = 100 * era + 25 * c + q"
    by (rule int_div_pos_eq [where r = r]) (use y b in auto)
  moreover have "y div 100 = 4 * era + c"
    by (rule int_div_pos_eq [where r = "4 * q + r"]) (use y b in auto)
  moreover have "y div 400 = era"
    by (rule int_div_pos_eq [where r = "100 * c + 4 * q + r"]) (use y b in auto)
  ultimately show ?thesis using y z by (simp add: march_start_def)
qed

lemma march_start_step: "365 + march_start y \<le> march_start (y + 1)"
proof -
  define a where "a = y div 100"
  define b where "b = y mod 100"
  have y: "y = 100 * a + b" and b: "0 \<le> b" "b \<le> 99" by (simp_all add: a_def b_def)
  have y4: "y div 4 = 25 * a + b div 4" unfolding y by (simp add: div_add1_eq)
  have y4': "(y + 1) div 4 = 25 * a + (b + 1) div 4"
    using div_mult_self3 [of 4 "b + 1" "25 * a"] by (simp add: y algebra_simps)
  have y100: "(y + 1) div 100 = a + (b + 1) div 100"
    using div_mult_self3 [of 100 "b + 1" a] by (simp add: y algebra_simps)
  have "(b + 1) div 100 + b div 4 \<le> (b + 1) div 4"
    using b by (cases "b = 99") (auto intro: zdiv_mono1)
  then have "(y + 1) div 100 - y div 100 \<le> (y + 1) div 4 - y div 4"
    unfolding y4 y4' y100 a_def [symmetric] by (simp only: algebra_simps)
  moreover have "y div 400 \<le> (y + 1) div 400" by (intro zdiv_mono1) auto
  moreover have "365 + (365 * y + p - h + r) \<le> 365 * (y + 1) + p' - h' + r'"
    if "h' - h \<le> p' - p" "r \<le> r'" for p p' h h' r r' :: int
    using that by simp
  ultimately show ?thesis unfolding march_start_def by blast
qed

lemma march_parts_leap:
  assumes "march_parts z = (y, doy)"
  shows "0 \<le> doy" "doy \<le> 365" "march_start y + doy < march_start (y + 1)"
proof -
  from assms obtain era c q r where y: "y = 400 * era + 100 * c + 4 * q + r"
    and b: "0 \<le> c" "c \<le> 3" "0 \<le> q" "q \<le> 24" "0 \<le> r" "r \<le> 3"
    and z: "z = 146097 * era + 36524 * c + 1461 * q + 365 * r + doy"
    and d: "0 \<le> doy" "doy \<le> 365" "doy = 365 \<longrightarrow> r = 3 \<and> (q < 24 \<or> c = 3)"
    by (rule march_parts_cycle)
  show "0 \<le> doy" "doy \<le> 365" by fact+
  have "365 + march_start y \<le> march_start (y + 1)" by (rule march_start_step)
  moreover have "march_start (y + 1) = 366 + march_start y" if "doy = 365"
  proof -
    from d(3) that have "r = 3" and qc: "q < 24 \<or> c = 3" by auto
    have "y div 4 = 100 * era + 25 * c + q"
      by (rule int_div_pos_eq [where r = 3]) (use y \<open>r = 3\<close> in auto)
    moreover have "(y + 1) div 4 = 100 * era + 25 * c + q + 1"
      by (rule int_div_pos_eq [where r = 0]) (use y \<open>r = 3\<close> in auto)
    ultimately have 4: "(y + 1) div 4 = y div 4 + 1" by simp
    show ?thesis
    proof (cases "q < 24")
      case True
      have "(y + 1) div 100 = 4 * era + c"
        by (rule int_div_pos_eq [where r = "4 * q + 4"]) (use y b True \<open>r = 3\<close> in auto)
      moreover have "y div 100 = 4 * era + c"
        by (rule int_div_pos_eq [where r = "4 * q + 3"]) (use y b True \<open>r = 3\<close> in auto)
      moreover have "(y + 1) div 400 = era"
        by (rule int_div_pos_eq [where r = "100 * c + 4 * q + 4"]) (use y b True \<open>r = 3\<close> in auto)
      moreover have "y div 400 = era"
        by (rule int_div_pos_eq [where r = "100 * c + 4 * q + 3"]) (use y b True \<open>r = 3\<close> in auto)
      ultimately show ?thesis using 4 by (simp add: march_start_def)
    next
      case False
      with qc b have "q = 24" "c = 3" by auto
      with y \<open>r = 3\<close> have "y = 400 * era + 399" by simp
      then have "y div 100 = 4 * era + 3" "(y + 1) div 100 = 4 * era + 4"
        "y div 400 = era" "(y + 1) div 400 = era + 1" by simp_all
      then show ?thesis using 4 by (simp add: march_start_def)
    qed
  qed
  ultimately show "march_start y + doy < march_start (y + 1)" using d(2) by (cases "doy = 365") auto
qed

lemma month_parts_range:
  assumes "month_parts y doy = (y', m, d)" and "0 \<le> doy" "doy \<le> 365"
  shows "1 \<le> m" "m \<le> 12" "1 \<le> d" "d \<le> 31" "y \<le> y'" "y' \<le> y + 1"
proof -
  define mp where "mp = (5 * doy + 2) div 153"
  have y': "y' = y + (if m \<le> 2 then 1 else 0)" and m: "m = (if mp < 10 then mp + 3 else mp - 9)"
    and d: "d = doy - (153 * mp + 2) div 5 + 1"
    using assms(1) by (auto simp: month_parts_def Let_def mp_def)
  have "0 \<le> mp" "mp \<le> 11" using assms(2,3) by (auto simp: mp_def)
  with m show "1 \<le> m" "m \<le> 12" by auto
  have "153 * mp \<le> 5 * doy + 2" "5 * doy + 2 \<le> 153 * mp + 152" by (auto simp: mp_def)
  with d show "1 \<le> d" "d \<le> 31" by auto
  from y' show "y \<le> y'" "y' \<le> y + 1" by auto
qed

lemma month_parts_days:
  assumes "month_parts y doy = (y', m, d)" and "0 \<le> doy" "doy \<le> 365"
  shows "days_from_civil y' m d = march_start y + doy - 719468"
proof -
  define mp where "mp = (5 * doy + 2) div 153"
  have y': "y' = y + (if m \<le> 2 then 1 else 0)" and m: "m = (if mp < 10 then mp + 3 else mp - 9)"
    and d: "d = doy - (153 * mp + 2) div 5 + 1"
    using assms(1) by (auto simp: month_parts_def Let_def mp_def)
  have "0 \<le> mp" "mp \<le> 11" using assms(2,3) by (auto simp: mp_def)
  with m have "(m + 9) mod 12 = mp" by auto
  moreover have "(if m \<le> 2 then y' - 1 else y') = y" using y' by simp
  ultimately show ?thesis by (simp add: days_from_civil_def march_start_def Let_def d)
qed

lemma civil_roundtrip:
  assumes "civil_from_days n = (y, m, d)"
  shows "days_from_civil y m d = n"
proof -
  obtain y0 doy where mp: "march_parts (n + 719468) = (y0, doy)" by force
  with assms have "month_parts y0 doy = (y, m, d)" by (simp add: civil_from_days_def)
  from month_parts_days [OF this march_parts_leap(1,2) [OF mp]] march_parts_days [OF mp]
  show ?thesis by simp
qed

lemma civil_range:
  assumes "civil_from_days n = (y, m, d)"
  shows "1 \<le> m" "m \<le> 12" "1 \<le> d" "d \<le> 31"
proof -
  obtain y0 doy where mp: "march_parts (n + 719468) = (y0, doy)" by force
  with assms have "month_parts y0 doy = (y, m, d)" by (simp add: civil_from_days_def)
  from month_parts_range [OF this march_parts_leap(1,2) [OF mp]]
  show "1 \<le> m" "m \<le> 12" "1 \<le> d" "d \<le> 31" by auto
qed

section \<open>Order of civil dates\<close>

lemma march_start_mono: "a \<le> b \<Longrightarrow> march_start a \<le> march_start b"
proof -
  assume "a \<le> b"
  moreover have "march_start (a + int k) \<ge> march_start a" for k
  proof (induction k)
    case (Suc k)
    from march_start_step [of "a + int k"] Suc show ?case by (simp add: algebra_simps)
  qed simp
  from this [of "nat (b - a)"] \<open>a \<le> b\<close> show ?thesis by simp
qed

lemma march_parts_mono:
  assumes "march_parts a = (y1, d1)" "march_parts b = (y2, d2)" "a < b"
  shows "y1 < y2 \<or> (y1 = y2 \<and> d1 < d2)"
proof -
  have a: "a = march_start y1 + d1" and b: "b = march_start y2 + d2"
    using assms march_parts_days by blast+
  have "\<not> y2 < y1"
  proof
    assume "y2 < y1"
    then have "march_start (y2 + 1) \<le> march_start y1" by (intro march_start_mono) simp
    with a b assms(3) march_parts_leap(3) [OF assms(2)] march_parts_leap(1) [OF assms(1)]
    show False by linarith
  qed
  with a b assms(3) show ?thesis by (cases "y1 = y2") auto
qed

lemma month_partsE:
  assumes "month_parts y doy = (y', m, d)" and "0 \<le> doy" "doy \<le> 365"
  obtains mp where "mp = (5 * doy + 2) div 153" "0 \<le> mp" "mp \<le> 11"
    "d = doy - (153 * mp + 2) div 5 + 1"
    "mp < 10 \<and> m = mp + 3 \<and> y' = y \<or> 10 \<le> mp \<and> m = mp - 9 \<and> y' = y + 1"
proof -
  define mp where "mp = (5 * doy + 2) div 153"
  have mp: "0 \<le> mp" "mp \<le> 11" using assms(2,3) by (auto simp: mp_def)
  have *: "y' = y + (if m \<le> 2 then 1 else 0)" "m = (if mp < 10 then mp + 3 else mp - 9)"
    "d = doy - (153 * mp + 2) div 5 + 1"
    using assms(1) by (auto simp: month_parts_def Let_def mp_def)
  then have "mp < 10 \<and> m = mp + 3 \<and> y' = y \<or> 10 \<le> mp \<and> m = mp - 9 \<and> y' = y + 1"
    using mp by (cases "mp < 10") auto
  from that [OF mp_def mp *(3) this] show ?thesis .
qed

lemma month_parts_mono:
  assumes "month_parts y a = (y1, m1, d1)" "month_parts y b = (y2, m2, d2)" "0 \<le> a" "b \<le> 365" "a < b"
  shows "y1 < y2 \<or> (y1 = y2 \<and> (m1 < m2 \<or> (m1 = m2 \<and> d1 < d2)))"
proof -
  from assms have "a \<le> 365" "0 \<le> b" by auto
  from month_partsE [OF assms(1,3) this(1)] obtain p where p: "p = (5 * a + 2) div 153"
    "d1 = a - (153 * p + 2) div 5 + 1"
    "p < 10 \<and> m1 = p + 3 \<and> y1 = y \<or> 10 \<le> p \<and> m1 = p - 9 \<and> y1 = y + 1" by metis
  from month_partsE [OF assms(2) \<open>0 \<le> b\<close> assms(4)] obtain q where q: "q = (5 * b + 2) div 153"
    "d2 = b - (153 * q + 2) div 5 + 1"
    "q < 10 \<and> m2 = q + 3 \<and> y2 = y \<or> 10 \<le> q \<and> m2 = q - 9 \<and> y2 = y + 1" by metis
  have "p \<le> q" using assms(5) unfolding p(1) q(1) by (intro zdiv_mono1) auto
  show ?thesis
  proof (cases "p = q")
    case True
    with p(3) q(3) have "y1 = y2" "m1 = m2" by auto
    with True p(2) q(2) assms(5) show ?thesis by simp
  next
    case False
    with \<open>p \<le> q\<close> p(3) q(3) show ?thesis by auto
  qed
qed

lemma month_parts_year_mono:
  assumes "month_parts y a = (y1, m1, d1)" "month_parts z b = (y2, m2, d2)" "y < z"
    "0 \<le> a" "a \<le> 365" "0 \<le> b" "b \<le> 365"
  shows "y1 < y2 \<or> (y1 = y2 \<and> m1 < m2)"
proof -
  from month_partsE [OF assms(1,4,5)] obtain p where
    "0 \<le> p" "p \<le> 11" "p < 10 \<and> m1 = p + 3 \<and> y1 = y \<or> 10 \<le> p \<and> m1 = p - 9 \<and> y1 = y + 1" by metis
  moreover from month_partsE [OF assms(2,6,7)] obtain q where
    "0 \<le> q" "q < 10 \<and> m2 = q + 3 \<and> y2 = z \<or> 10 \<le> q \<and> m2 = q - 9 \<and> y2 = z + 1" by metis
  ultimately show ?thesis using assms(3) by auto
qed

lemma civil_mono:
  assumes "civil_from_days a = (y1, m1, d1)" "civil_from_days b = (y2, m2, d2)" "a < b"
  shows "y1 < y2 \<or> (y1 = y2 \<and> (m1 < m2 \<or> (m1 = m2 \<and> d1 < d2)))"
proof -
  obtain u1 e1 u2 e2 where mp: "march_parts (a + 719468) = (u1, e1)" "march_parts (b + 719468) = (u2, e2)"
    by force
  with assms have m: "month_parts u1 e1 = (y1, m1, d1)" "month_parts u2 e2 = (y2, m2, d2)"
    by (simp_all add: civil_from_days_def)
  from march_parts_mono [OF mp] assms(3) have "u1 < u2 \<or> (u1 = u2 \<and> e1 < e2)" by simp
  then show ?thesis
  proof (elim disjE conjE)
    assume "u1 < u2"
    with month_parts_year_mono [OF m this] march_parts_leap [OF mp(1)] march_parts_leap [OF mp(2)]
    show ?thesis by blast
  next
    assume u: "u1 = u2" "e1 < e2"
    from m(1) u(1) have "month_parts u2 e1 = (y1, m1, d1)" by simp
    from month_parts_mono [OF this m(2) march_parts_leap(1) [OF mp(1)] march_parts_leap(2) [OF mp(2)] u(2)]
    show ?thesis .
  qed
qed

end
