(* ===== verification/Instants.thy ===== *)
theory Instants
  imports Clock
begin

text \<open>
  Text of instants: \<open>toISOString\<close>, the reading of a canonical string, \<open>time\<close> and
  \<open>dateAt\<close> of \<open>packages/attribution-core/src/evaluation-utils.ts\<close>, and the two facts the
  evaluator relies on silently: every instant written by the server is read back exactly, and
  comparing two canonical strings as text compares the instants.
\<close>

section \<open>Fixed-width decimals\<close>

definition digit_char :: "nat \<Rightarrow> char" where
  "digit_char n = char_of (48 + n)"

definition digit_value :: "char \<Rightarrow> nat option" where
  "digit_value c = (let n = of_char c in if 48 \<le> n \<and> n \<le> 57 then Some (n - 48) else None)"

fun pad :: "nat \<Rightarrow> nat \<Rightarrow> string" where
  "pad 0 n = []"
| "pad (Suc k) n = pad k (n div 10) @ [digit_char (n mod 10)]"

fun dec_digits :: "nat \<Rightarrow> string \<Rightarrow> nat option" where
  "dec_digits acc [] = Some acc"
| "dec_digits acc (c # s) = (case digit_value c of None \<Rightarrow> None | Some d \<Rightarrow> dec_digits (10 * acc + d) s)"

definition dec_value :: "string \<Rightarrow> nat option" where
  "dec_value s = (if s = [] then None else dec_digits 0 s)"

function show_nat :: "nat \<Rightarrow> string" where
  "show_nat n = (if n < 10 then [digit_char n] else show_nat (n div 10) @ [digit_char (n mod 10)])"
  by pat_completeness auto
termination by (relation "measure id") auto

declare show_nat.simps [simp del]

definition show_int :: "int \<Rightarrow> string" where
  "show_int i = (if i < 0 then CHR ''-'' # show_nat (nat (- i)) else show_nat (nat i))"

lemma digit_value_char: "d < 10 \<Longrightarrow> digit_value (digit_char d) = Some d"
  by (simp add: digit_value_def digit_char_def)

lemma digit_char_less: "a < b \<Longrightarrow> b < 10 \<Longrightarrow> digit_char a < digit_char b"
  by (simp add: digit_char_def less_char_def)

lemma length_pad [simp]: "length (pad k n) = k"
  by (induction k arbitrary: n) auto

lemma dec_digits_append:
  "dec_digits acc (s @ t) = (case dec_digits acc s of None \<Rightarrow> None | Some v \<Rightarrow> dec_digits v t)"
  by (induction acc s rule: dec_digits.induct) (auto split: option.splits)

lemma dec_digits_pad: "n < 10 ^ k \<Longrightarrow> dec_digits acc (pad k n) = Some (acc * 10 ^ k + n)"
proof (induction k arbitrary: n)
  case (Suc k)
  then have "n div 10 < 10 ^ k" by (simp add: less_mult_imp_div_less mult.commute)
  from Suc.IH [OF this] show ?case
    by (simp add: dec_digits_append digit_value_char algebra_simps)
qed simp

lemma dec_value_pad: "n < 10 ^ k \<Longrightarrow> 0 < k \<Longrightarrow> dec_value (pad k n) = Some n"
  using dec_digits_pad [of n k 0] by (cases k) (auto simp: dec_value_def)

text \<open>Equal widths: text order is number order.\<close>

lemma append_less_append:
  fixes a b :: "'a::linorder list"
  assumes "a < b" "length a = length b"
  shows "a @ x < b @ y"
  using assms(2,1) by (induction a b rule: list_induct2) auto

lemma append_less_same: "(a @ x < a @ y) = (x < (y :: 'a::linorder list))"
  by (induction a) auto

lemma pad_less: "m < n \<Longrightarrow> n < 10 ^ k \<Longrightarrow> pad k m < pad k n"
proof (induction k arbitrary: m n)
  case (Suc k)
  show ?case
  proof (cases "m div 10 = n div 10")
    case True
    then have "m mod 10 < n mod 10" using Suc.prems(1) by (metis div_mult_mod_eq add_less_cancel_left)
    then show ?thesis by (simp add: True append_less_same digit_char_less)
  next
    case False
    then have "m div 10 < n div 10" using Suc.prems(1) by (simp add: div_le_mono le_neq_implies_less)
    moreover have "n div 10 < 10 ^ k" using Suc.prems(2) by (simp add: less_mult_imp_div_less mult.commute)
    ultimately show ?thesis by (simp add: append_less_append Suc.IH)
  qed
qed simp

section \<open>Rendering and reading instants\<close>

abbreviation DAY_MS :: int where "DAY_MS \<equiv> 86400000"

abbreviation max_time :: int where "max_time \<equiv> 8640000000000000"

definition year_text :: "int \<Rightarrow> string" where
  "year_text y =
     (if 0 \<le> y \<and> y \<le> 9999 then pad 4 (nat y)
      else if y < 0 then CHR ''-'' # pad 6 (nat (- y)) else CHR ''+'' # pad 6 (nat y))"

definition date_text :: "int \<Rightarrow> string" where
  "date_text day = (case civil_from_days day of (y, m, d) \<Rightarrow>
     year_text y @ ''-'' @ pad 2 (nat m) @ ''-'' @ pad 2 (nat d))"

definition clock_text :: "int \<Rightarrow> string" where
  "clock_text tod =
     pad 2 (nat (tod div 3600000)) @ '':'' @ pad 2 (nat (tod div 60000 mod 60)) @ '':''
     @ pad 2 (nat (tod div 1000 mod 60)) @ ''.'' @ pad 3 (nat (tod mod 1000)) @ ''Z''"

definition toISOString :: "int \<Rightarrow> string" where
  "toISOString t = date_text (t div DAY_MS) @ ''T'' @ clock_text (t mod DAY_MS)"

definition num_at :: "nat \<Rightarrow> nat \<Rightarrow> string \<Rightarrow> int option" where
  "num_at i n s = map_option int (dec_value (take n (drop i s)))"

definition year_value :: "string \<Rightarrow> (int \<times> string) option" where
  "year_value s = (case s of
     [] \<Rightarrow> None
   | c # r \<Rightarrow>
       if c = CHR ''-'' then map_option (\<lambda>n. (- int n, drop 6 r)) (dec_value (take 6 r))
       else if c = CHR ''+'' then map_option (\<lambda>n. (int n, drop 6 r)) (dec_value (take 6 r))
       else map_option (\<lambda>n. (int n, drop 4 s)) (dec_value (take 4 s)))"

definition parse_fields :: "string \<Rightarrow> int option" where
  "parse_fields s = (case year_value s of None \<Rightarrow> None | Some (y, r) \<Rightarrow>
     (case (num_at 1 2 r, num_at 4 2 r, num_at 7 2 r, num_at 10 2 r, num_at 13 2 r, num_at 16 3 r) of
        (Some m, Some d, Some h, Some mi, Some sec, Some ms) \<Rightarrow>
          Some (days_from_civil y m d * DAY_MS + h * 3600000 + mi * 60000 + sec * 1000 + ms)
      | _ \<Rightarrow> None))"

text \<open>
  \<open>new Date(v)\<close> followed by \<open>toISOString() !== v\<close>: whatever other formats Date parses, only
  the canonical string passes the comparison.
\<close>

definition canonical_instant :: "string \<Rightarrow> int option" where
  "canonical_instant v = (case parse_fields v of
     None \<Rightarrow> None
   | Some t \<Rightarrow> if \<bar>t\<bar> \<le> max_time \<and> toISOString t = v then Some t else None)"

definition time :: "string option \<Rightarrow> string \<Rightarrow> int res" where
  "time v field =
     (if \<not> truthy v then Inl (Timestamp_Invalid field)
      else case canonical_instant (the_or [] v) of
        None \<Rightarrow> Inl (Timestamp_Invalid field)
      | Some t \<Rightarrow> Inr t)"

text \<open>\<open>new Date(t).toISOString()\<close> throws a RangeError for an invalid Date.\<close>

definition iso_or_throw :: "int \<Rightarrow> string res" where
  "iso_or_throw t = (if \<bar>t\<bar> \<le> max_time then Inr (toISOString t) else throw ''Invalid time value'')"

section \<open>Round trip\<close>

lemma year_value_text:
  assumes "\<bar>y\<bar> < 1000000"
  shows "year_value (year_text y @ r) = Some (y, r)"
proof (cases "0 \<le> y \<and> y \<le> 9999")
  case True
  then have "nat y < 10 ^ 4" by (simp add: nat_less_iff)
  then have v: "dec_value (pad 4 (nat y)) = Some (nat y)" by (intro dec_value_pad) auto
  obtain c q where "pad 4 (nat y) = c # q"
    by (cases "pad 4 (nat y)") (use length_pad [of 4 "nat y"] in auto)
  moreover from this have "length q = 3" using length_pad [of 4 "nat y"] by simp
  ultimately have cq: "pad 4 (nat y) = c # q" "length q = 3" .
  have "digit_value c \<noteq> None"
    using v cq by (auto simp: dec_value_def split: option.splits)
  then have "c \<noteq> CHR ''-''" "c \<noteq> CHR ''+''" by (auto simp: digit_value_def)
  with True v cq show ?thesis by (simp add: year_text_def year_value_def)
next
  case False
  then have "nat \<bar>y\<bar> < 10 ^ 6" using assms by (simp add: nat_less_iff)
  then have "dec_value (pad 6 (nat \<bar>y\<bar>)) = Some (nat \<bar>y\<bar>)" by (intro dec_value_pad) auto
  with False show ?thesis by (auto simp: year_text_def year_value_def abs_if not_le)
qed

lemma num_at_pad:
  "n < 10 ^ k \<Longrightarrow> 0 < k \<Longrightarrow> length p = i \<Longrightarrow> num_at i k (p @ pad k n @ r) = Some (int n)"
  by (simp add: num_at_def dec_value_pad)

lemma civil_year_bound:
  assumes "civil_from_days n = (y, m, d)" "\<bar>n\<bar> \<le> 100000000"
  shows "\<bar>y\<bar> < 1000000"
proof -
  obtain y0 doy where mp: "march_parts (n + 719468) = (y0, doy)" by force
  with assms have mo: "month_parts y0 doy = (y, m, d)" by (simp add: civil_from_days_def)
  from mp obtain era c q r where y0: "y0 = 400 * era + 100 * c + 4 * q + r"
    and b: "0 \<le> c" "c \<le> 3" "0 \<le> q" "q \<le> 24" "0 \<le> r" "r \<le> 3"
    and z: "n + 719468 = 146097 * era + 36524 * c + 1461 * q + 365 * r + doy"
    and doy: "0 \<le> doy" "doy \<le> 365" "doy = 365 \<longrightarrow> r = 3 \<and> (q < 24 \<or> c = 3)"
    by (rule march_parts_cycle)
  have "y0 \<le> y" "y \<le> y0 + 1" using month_parts_range [OF mo doy(1,2)] by auto
  moreover have "- 700 \<le> era" "era \<le> 700" using z b doy(1,2) assms(2) by linarith+
  ultimately show ?thesis using y0 b by linarith
qed

lemma clock_fields:
  assumes "0 \<le> tod" "tod < DAY_MS"
  obtains h mi sec ms where "h = tod div 3600000" "mi = tod div 60000 mod 60" "sec = tod div 1000 mod 60"
    "ms = tod mod 1000" "0 \<le> h" "h < 24" "0 \<le> mi" "mi < 60" "0 \<le> sec" "sec < 60" "0 \<le> ms" "ms < 1000"
    "h * 3600000 + mi * 60000 + sec * 1000 + ms = tod"
proof -
  define h mi sec ms where d: "h = tod div 3600000" "mi = tod div 60000 mod 60"
    "sec = tod div 1000 mod 60" "ms = tod mod 1000"
  have "tod = 1000 * (tod div 1000) + ms" by (simp add: d)
  moreover have "tod div 1000 = 60 * (tod div 1000 div 60) + sec" by (simp add: d)
  moreover have "tod div 1000 div 60 = tod div 60000" by (simp add: zdiv_zmult2_eq [symmetric])
  moreover have "tod div 60000 = 60 * (tod div 60000 div 60) + mi" by (simp add: d)
  moreover have "tod div 60000 div 60 = h" by (simp add: zdiv_zmult2_eq [symmetric] d)
  ultimately have "h * 3600000 + mi * 60000 + sec * 1000 + ms = tod" by simp
  moreover have "0 \<le> h" "h < 24" using assms by (auto simp: d)
  moreover have "0 \<le> mi" "mi < 60" "0 \<le> sec" "sec < 60" "0 \<le> ms" "ms < 1000" by (simp_all add: d)
  ultimately show thesis using that [OF d] by blast
qed

lemma parse_fields_iso:
  assumes "\<bar>t\<bar> \<le> max_time"
  shows "parse_fields (toISOString t) = Some t"
proof -
  define day where "day = t div DAY_MS"
  define tod where "tod = t mod DAY_MS"
  obtain y m d where c: "civil_from_days day = (y, m, d)" by (metis prod_cases3)
  have "\<bar>day\<bar> \<le> 100000000" using assms unfolding day_def by linarith
  then have y: "\<bar>y\<bar> < 1000000" using civil_year_bound [OF c] by simp
  note r = civil_range [OF c]
  have tod: "0 \<le> tod" "tod < DAY_MS" by (simp_all add: tod_def)
  from clock_fields [OF tod] obtain h mi s ms where
    hms: "h = tod div 3600000" "mi = tod div 60000 mod 60" "s = tod div 1000 mod 60" "ms = tod mod 1000"
    and b: "0 \<le> h" "h < 24" "0 \<le> mi" "mi < 60" "0 \<le> s" "s < 60" "0 \<le> ms" "ms < 1000"
    and sum: "h * 3600000 + mi * 60000 + s * 1000 + ms = tod" .
  define r0 where "r0 = ''-'' @ pad 2 (nat m) @ ''-'' @ pad 2 (nat d) @ ''T'' @ pad 2 (nat h) @ '':'' @ pad 2 (nat mi)
    @ '':'' @ pad 2 (nat s) @ ''.'' @ pad 3 (nat ms) @ ''Z''"
  have iso: "toISOString t = year_text y @ r0"
    by (simp add: toISOString_def date_text_def clock_text_def c r0_def hms
        flip: day_def tod_def)
  have n1: "num_at 1 2 r0 = Some m"
    using num_at_pad [of "nat m" 2 "''-''" 1] r unfolding r0_def by simp
  have n2: "num_at 4 2 r0 = Some d"
    using num_at_pad [of "nat d" 2 "''-'' @ pad 2 (nat m) @ ''-''" 4] r unfolding r0_def by simp
  have n3: "num_at 7 2 r0 = Some h"
    using num_at_pad [of "nat h" 2 "''-'' @ pad 2 (nat m) @ ''-'' @ pad 2 (nat d) @ ''T''" 7] b
    unfolding r0_def by simp
  have n4: "num_at 10 2 r0 = Some mi"
    using num_at_pad [of "nat mi" 2 "''-'' @ pad 2 (nat m) @ ''-'' @ pad 2 (nat d) @ ''T''
      @ pad 2 (nat h) @ '':''" 10] b unfolding r0_def by simp
  have n5: "num_at 13 2 r0 = Some s"
    using num_at_pad [of "nat s" 2 "''-'' @ pad 2 (nat m) @ ''-'' @ pad 2 (nat d) @ ''T''
      @ pad 2 (nat h) @ '':'' @ pad 2 (nat mi) @ '':''" 13] b unfolding r0_def by simp
  have n6: "num_at 16 3 r0 = Some ms"
    using num_at_pad [of "nat ms" 3 "''-'' @ pad 2 (nat m) @ ''-'' @ pad 2 (nat d) @ ''T''
      @ pad 2 (nat h) @ '':'' @ pad 2 (nat mi) @ '':'' @ pad 2 (nat s) @ ''.''" 16] b
    unfolding r0_def by simp
  have "day * DAY_MS + tod = t" by (simp add: day_def tod_def)
  with sum show ?thesis
    by (simp add: iso parse_fields_def year_value_text [OF y] n1 [simplified] n2 n3 n4 n5 n6 civil_roundtrip [OF c])
qed

lemma canonical_instant_iso: "\<bar>t\<bar> \<le> max_time \<Longrightarrow> canonical_instant (toISOString t) = Some t"
  by (simp add: canonical_instant_def parse_fields_iso)

lemma canonical_instant_Some:
  "canonical_instant v = Some t \<longleftrightarrow> \<bar>t\<bar> \<le> max_time \<and> v = toISOString t"
  by (auto simp: canonical_instant_def parse_fields_iso split: option.splits if_splits)

lemma toISOString_nonempty [simp]: "toISOString t \<noteq> []"
  by (simp add: toISOString_def)

lemma toISOString_inj:
  "\<bar>a\<bar> \<le> max_time \<Longrightarrow> \<bar>b\<bar> \<le> max_time \<Longrightarrow> toISOString a = toISOString b \<longleftrightarrow> a = b"
  by (metis canonical_instant_iso option.inject)

lemma time_eq_Inr: "time v f = Inr t \<longleftrightarrow> v = Some (toISOString t) \<and> \<bar>t\<bar> \<le> max_time"
proof
  assume "time v f = Inr t"
  then show "v = Some (toISOString t) \<and> \<bar>t\<bar> \<le> max_time"
    by (cases v) (auto simp: time_def canonical_instant_Some split: option.splits if_splits)
next
  assume "v = Some (toISOString t) \<and> \<bar>t\<bar> \<le> max_time"
  then show "time v f = Inr t" by (simp add: time_def canonical_instant_iso)
qed

lemma time_eq_Inl: "time v f = Inl e \<Longrightarrow> e = Timestamp_Invalid f"
  by (auto simp: time_def split: if_splits option.splits)

section \<open>Text order is time order\<close>

text \<open>
  \<open>compareText(a.received_at, watermark)\<close>, \<open>decided_at <= cutoff\<close>: the source compares instants
  as strings. That is sound for the four-digit years, from 0000-01-01 to 9999-12-31.
\<close>

definition four_digit_year :: "int \<Rightarrow> bool" where
  "four_digit_year t \<longleftrightarrow> - 62167219200000 \<le> t \<and> t \<le> 253402300799999"

lemma four_digit_civil:
  assumes "four_digit_year t" "civil_from_days (t div DAY_MS) = (y, m, d)"
  shows "0 \<le> y" "y \<le> 9999"
proof -
  define day where "day = t div DAY_MS"
  have "- 719528 \<le> day" "day \<le> 2932896" using assms(1) unfolding day_def four_digit_year_def by linarith+
  moreover have lo: "civil_from_days (- 719528) = (0, 1, 1)"
    by (simp add: civil_from_days_def march_parts_def month_parts_def Let_def)
  moreover have hi: "civil_from_days 2932896 = (9999, 12, 31)"
    by (simp add: civil_from_days_def march_parts_def month_parts_def Let_def)
  moreover have c: "civil_from_days day = (y, m, d)" using assms(2) by (simp add: day_def)
  ultimately show "0 \<le> y" "y \<le> 9999"
    using civil_mono [OF lo c] civil_mono [OF c hi] by (cases "day = - 719528"; cases "day = 2932896"; force)+
qed

lemma pad_nat_less: "0 \<le> a \<Longrightarrow> a < b \<Longrightarrow> nat b < 10 ^ k \<Longrightarrow> pad k (nat a) < pad k (nat b)"
  by (rule pad_less) auto

lemma date_text_less:
  assumes "civil_from_days a = (y1, m1, d1)" "civil_from_days b = (y2, m2, d2)" "a < b"
    and "0 \<le> y1" "y1 \<le> 9999" "0 \<le> y2" "y2 \<le> 9999"
  shows "date_text a < date_text b" "length (date_text a) = length (date_text b)"
proof -
  note r1 = civil_range [OF assms(1)] and r2 = civil_range [OF assms(2)]
  from civil_mono [OF assms(1-3)] consider "y1 < y2" | "y1 = y2" "m1 < m2" | "y1 = y2" "m1 = m2" "d1 < d2"
    by blast
  then show "date_text a < date_text b"
  proof cases
    case 1
    then have "pad 4 (nat y1) < pad 4 (nat y2)" using assms by (intro pad_nat_less) (auto simp: nat_less_iff)
    then show ?thesis using assms by (simp add: date_text_def year_text_def append_less_append)
  next
    case 2
    then have "pad 2 (nat m1) < pad 2 (nat m2)" using r1 r2 by (intro pad_nat_less) (auto simp: nat_less_iff)
    then show ?thesis using 2 assms by (simp add: date_text_def append_less_same append_less_append)
  next
    case 3
    then have "pad 2 (nat d1) < pad 2 (nat d2)" using r1 r2 by (intro pad_nat_less) (auto simp: nat_less_iff)
    then show ?thesis using 3 assms by (simp add: date_text_def append_less_same)
  qed
  show "length (date_text a) = length (date_text b)"
    using assms by (simp add: date_text_def year_text_def)
qed

lemma clock_text_less:
  assumes "0 \<le> a" "a < b" "b < DAY_MS"
  shows "clock_text a < clock_text b"
proof -
  from assms have "0 \<le> b" "a < DAY_MS" by auto
  from clock_fields [OF assms(1) this(2)] obtain h1 m1 s1 u1 where
    1: "h1 = a div 3600000" "m1 = a div 60000 mod 60" "s1 = a div 1000 mod 60" "u1 = a mod 1000"
    "0 \<le> h1" "h1 < 24" "0 \<le> m1" "m1 < 60" "0 \<le> s1" "s1 < 60" "0 \<le> u1" "u1 < 1000"
    "h1 * 3600000 + m1 * 60000 + s1 * 1000 + u1 = a" .
  from clock_fields [OF \<open>0 \<le> b\<close> assms(3)] obtain h2 m2 s2 u2 where
    2: "h2 = b div 3600000" "m2 = b div 60000 mod 60" "s2 = b div 1000 mod 60" "u2 = b mod 1000"
    "0 \<le> h2" "h2 < 24" "0 \<le> m2" "m2 < 60" "0 \<le> s2" "s2 < 60" "0 \<le> u2" "u2 < 1000"
    "h2 * 3600000 + m2 * 60000 + s2 * 1000 + u2 = b" .
  have t1: "clock_text a = pad 2 (nat h1) @ '':'' @ pad 2 (nat m1) @ '':'' @ pad 2 (nat s1) @ ''.'' @ pad 3 (nat u1) @ ''Z''"
    and t2: "clock_text b = pad 2 (nat h2) @ '':'' @ pad 2 (nat m2) @ '':'' @ pad 2 (nat s2) @ ''.'' @ pad 3 (nat u2) @ ''Z''"
    unfolding clock_text_def 1(1-4) 2(1-4) by (rule refl)+
  have "h1 < h2 \<or> h1 = h2 \<and> (m1 < m2 \<or> m1 = m2 \<and> (s1 < s2 \<or> s1 = s2 \<and> u1 < u2))"
    using 1(5-) 2(5-) assms(2) by linarith
  then consider "h1 < h2" | "h1 = h2" "m1 < m2" | "h1 = h2" "m1 = m2" "s1 < s2"
    | "h1 = h2" "m1 = m2" "s1 = s2" "u1 < u2" by blast
  then show ?thesis
  proof cases
    case 1
    then have "pad 2 (nat h1) < pad 2 (nat h2)" using \<open>0 \<le> h1\<close> \<open>h2 < 24\<close> by (intro pad_nat_less) (auto simp: nat_less_iff)
    then show ?thesis unfolding t1 t2 by (simp add: append_less_append)
  next
    case 2
    then have "pad 2 (nat m1) < pad 2 (nat m2)" using \<open>0 \<le> m1\<close> \<open>m2 < 60\<close> by (intro pad_nat_less) (auto simp: nat_less_iff)
    then show ?thesis using 2 unfolding t1 t2 by (simp add: append_less_same append_less_append)
  next
    case 3
    then have "pad 2 (nat s1) < pad 2 (nat s2)" using \<open>0 \<le> s1\<close> \<open>s2 < 60\<close> by (intro pad_nat_less) (auto simp: nat_less_iff)
    then show ?thesis using 3 unfolding t1 t2 by (simp add: append_less_same append_less_append)
  next
    case 4
    then have "pad 3 (nat u1) < pad 3 (nat u2)" using \<open>0 \<le> u1\<close> \<open>u2 < 1000\<close> by (intro pad_nat_less) (auto simp: nat_less_iff)
    then show ?thesis using 4 unfolding t1 t2 by (simp add: append_less_same append_less_append)
  qed
qed

lemma toISOString_mono:
  assumes "four_digit_year a" "four_digit_year b" "a < b"
  shows "toISOString a < toISOString b"
proof -
  obtain y1 m1 d1 where c1: "civil_from_days (a div DAY_MS) = (y1, m1, d1)" by (metis prod_cases3)
  obtain y2 m2 d2 where c2: "civil_from_days (b div DAY_MS) = (y2, m2, d2)" by (metis prod_cases3)
  note r = four_digit_civil [OF assms(1) c1] four_digit_civil [OF assms(2) c2]
  have le: "a div DAY_MS \<le> b div DAY_MS" using assms(3) by (intro zdiv_mono1) auto
  show ?thesis
  proof (cases "a div DAY_MS = b div DAY_MS")
    case True
    have "DAY_MS * (a div DAY_MS) + a mod DAY_MS < DAY_MS * (b div DAY_MS) + b mod DAY_MS"
      unfolding mult_div_mod_eq using assms(3) .
    then have "a mod DAY_MS < b mod DAY_MS" unfolding True by (rule add_less_imp_less_left)
    then show ?thesis by (simp add: toISOString_def True append_less_same clock_text_less)
  next
    case False
    with le have "a div DAY_MS < b div DAY_MS" by simp
    from date_text_less [OF c1 c2 this r] show ?thesis
      by (simp add: toISOString_def append_less_append)
  qed
qed

lemma toISOString_less_iff:
  "four_digit_year a \<Longrightarrow> four_digit_year b \<Longrightarrow> toISOString a < toISOString b \<longleftrightarrow> a < b"
  by (metis less_asym linorder_neqE toISOString_mono)

end
