(* ===== verification/Eval_Utils.thy ===== *)
theory Eval_Utils
  imports Instants
begin

text \<open>
  The arithmetic and ordering helpers of \<open>packages/attribution-core/src/evaluation-utils.ts\<close>:
  \<open>compareText\<close>, \<open>sortByKey\<close> and \<open>roundHalfEven\<close>. BigInt values are \<open>int\<close>.
\<close>

section \<open>Ordering\<close>

definition compareText :: "string \<Rightarrow> string \<Rightarrow> int" where
  "compareText a b = (if a < b then - 1 else if b < a then 1 else 0)"

text \<open>
  The comparator walks the key parts and then the digest of the whole value, so it is the
  lexicographic order of the extended key; \<open>Array.prototype.sort\<close> is stable.
\<close>

fun compare_keys :: "string list \<Rightarrow> string list \<Rightarrow> int" where
  "compare_keys (a # as) (b # bs) = (if compareText a b \<noteq> 0 then compareText a b else compare_keys as bs)"
| "compare_keys _ _ = 0"

definition sortByKey :: "('a \<Rightarrow> string) \<Rightarrow> ('a \<Rightarrow> string list) \<Rightarrow> 'a list \<Rightarrow> 'a list" where
  "sortByKey sha key values = sort_key (\<lambda>a. key a @ [sha a]) values"

lemma compareText_zero [simp]: "compareText a b = 0 \<longleftrightarrow> a = b"
  by (auto simp: compareText_def)

lemma compare_keys_less:
  "length xs = length ys \<Longrightarrow> compare_keys xs ys < 0 \<longleftrightarrow> xs < ys"
  by (induction xs ys rule: list_induct2) (auto simp: compareText_def)

lemma compare_keys_zero:
  "length xs = length ys \<Longrightarrow> compare_keys xs ys = 0 \<longleftrightarrow> xs = ys"
  by (induction xs ys rule: list_induct2) (auto simp: compareText_def split: if_splits)

lemma mset_sortByKey [simp]: "mset (sortByKey sha key xs) = mset xs"
  by (simp add: sortByKey_def)

lemma set_sortByKey [simp]: "set (sortByKey sha key xs) = set xs"
  by (simp add: sortByKey_def)

lemma length_sortByKey [simp]: "length (sortByKey sha key xs) = length xs"
  by (simp add: sortByKey_def)

lemma distinct_sortByKey [simp]: "distinct (sortByKey sha key xs) = distinct xs"
  by (simp add: sortByKey_def)

lemma sorted_sortByKey: "sorted (map (\<lambda>a. key a @ [sha a]) (sortByKey sha key xs))"
  by (simp add: sortByKey_def)

lemma sortByKey_Nil [simp]: "sortByKey sha key [] = []"
  by (simp add: sortByKey_def)

lemma sortByKey_single [simp]: "sortByKey sha key [x] = [x]"
  by (simp add: sortByKey_def)

lemma sortByKey_perm:
  "mset xs = mset ys \<Longrightarrow> inj_on (\<lambda>a. key a @ [sha a]) (set xs) \<Longrightarrow> sortByKey sha key xs = sortByKey sha key ys"
  unfolding sortByKey_def by (rule sort_key_cong_mset)

section \<open>Rounding half to even\<close>

definition roundHalfEven :: "int \<Rightarrow> int \<Rightarrow> int res" where
  "roundHalfEven numerator denominator =
     (if denominator \<le> 0 then throw ''denominator must be positive''
      else
        let negative = numerator < 0;
            absolute = (if negative then - numerator else numerator);
            quotient = absolute div denominator;
            remainder = absolute mod denominator;
            twice = remainder * 2;
            quotient' = (if twice > denominator \<or> (twice = denominator \<and> quotient mod 2 = 1)
                         then quotient + 1 else quotient)
        in Inr (if negative then - quotient' else quotient'))"

text \<open>The specification: a nearest integer, and the even one of two nearest.\<close>

definition nearest_even :: "int \<Rightarrow> int \<Rightarrow> int \<Rightarrow> bool" where
  "nearest_even n d v \<longleftrightarrow> 2 * \<bar>v * d - n\<bar> \<le> d \<and> (2 * \<bar>v * d - n\<bar> = d \<longrightarrow> even v)"

lemma twice_abs_le: "2 * \<bar>x\<bar> \<le> d \<longleftrightarrow> 2 * x \<le> d \<and> - d \<le> 2 * (x :: int)"
  by (cases "0 \<le> x") auto

lemma nearest_even_unique:
  assumes "0 < d" "nearest_even n d v" "nearest_even n d w"
  shows "v = w"
proof (rule ccontr)
  assume "v \<noteq> w"
  have "2 * \<bar>v * d - n\<bar> \<le> d" "2 * \<bar>w * d - n\<bar> \<le> d" using assms(2,3) by (simp_all add: nearest_even_def)
  then have "2 * \<bar>v * d - w * d\<bar> \<le> 2 * d" unfolding twice_abs_le by (simp add: algebra_simps)
  then have "\<bar>v - w\<bar> * d \<le> 1 * d" using assms(1) by (simp add: abs_mult flip: left_diff_distrib)
  then have "\<bar>v - w\<bar> = 1" using \<open>v \<noteq> w\<close> assms(1) by simp
  then have one: "v = w + 1 \<or> w = v + 1" by auto
  define x y where "x = v * d" and "y = w * d"
  have "x = y + d \<or> y = x + d" using one by (auto simp: algebra_simps x_def y_def)
  moreover have "2 * (x - n) \<le> d" "- d \<le> 2 * (x - n)" "2 * (y - n) \<le> d" "- d \<le> 2 * (y - n)"
    using assms(2,3) by (simp_all add: nearest_even_def twice_abs_le x_def y_def)
  ultimately have "2 * (x - n) = d \<and> 2 * (y - n) = - d \<or> 2 * (x - n) = - d \<and> 2 * (y - n) = d" by auto
  then have "2 * \<bar>x - n\<bar> = d \<and> 2 * \<bar>y - n\<bar> = d" using assms(1) by (auto simp: abs_if)
  then have "2 * \<bar>v * d - n\<bar> = d \<and> 2 * \<bar>w * d - n\<bar> = d" by (simp add: x_def y_def)
  then show False using assms(2,3) one by (auto simp: nearest_even_def)
qed

lemma roundHalfEven_nonneg:
  assumes "0 < d" "0 \<le> n" "roundHalfEven n d = Inr v"
  shows "nearest_even n d v" "0 \<le> v"
proof -
  define q where "q = n div d"
  define r where "r = n mod d"
  have n: "n = q * d + r" and r: "0 \<le> r" "r < d" and q: "0 \<le> q"
    using assms(1,2) by (auto simp: q_def r_def pos_imp_zdiv_nonneg_iff)
  from assms have v: "v = (if 2 * r > d \<or> (2 * r = d \<and> q mod 2 = 1) then q + 1 else q)"
    unfolding roundHalfEven_def Let_def q_def r_def by (auto split: if_splits)
  show "nearest_even n d v"
    using r unfolding v n nearest_even_def by (auto simp: algebra_simps abs_if)
  show "0 \<le> v" using q v by auto
qed

lemma roundHalfEven_minus:
  "0 < d \<Longrightarrow> roundHalfEven (- n) d = map_sum id uminus (roundHalfEven n d)"
  by (auto simp: roundHalfEven_def Let_def)

lemma nearest_even_minus: "nearest_even (- n) d (- v) = nearest_even n d v"
  by (simp add: nearest_even_def abs_minus_commute)

lemma roundHalfEven_nearest:
  assumes "roundHalfEven n d = Inr v"
  shows "0 < d" "nearest_even n d v"
proof -
  show d: "0 < d" using assms by (auto simp: roundHalfEven_def split: if_splits)
  show "nearest_even n d v"
  proof (cases "0 \<le> n")
    case True
    then show ?thesis using roundHalfEven_nonneg d assms by blast
  next
    case False
    then have "roundHalfEven (- n) d = Inr (- v)" using roundHalfEven_minus [OF d, of n] assms by simp
    from roundHalfEven_nonneg(1) [OF d _ this] False show ?thesis by (simp add: nearest_even_minus)
  qed
qed

lemma roundHalfEven_total: "0 < d \<Longrightarrow> \<exists>v. roundHalfEven n d = Inr v"
  by (auto simp: roundHalfEven_def Let_def)

lemma roundHalfEven_eqI: "0 < d \<Longrightarrow> nearest_even n d v \<Longrightarrow> roundHalfEven n d = Inr v"
  using roundHalfEven_total roundHalfEven_nearest(2) nearest_even_unique by metis

lemma roundHalfEven_exact: "0 < d \<Longrightarrow> roundHalfEven (v * d) d = Inr v"
  by (rule roundHalfEven_eqI) (simp_all add: nearest_even_def)

lemma roundHalfEven_mono:
  assumes "m \<le> n" "roundHalfEven m d = Inr v" "roundHalfEven n d = Inr w"
  shows "v \<le> w"
proof (rule ccontr)
  assume "\<not> v \<le> w"
  then have "w + 1 \<le> v" by simp
  have d: "0 < d" using roundHalfEven_nearest(1) [OF assms(2)] .
  have nv: "nearest_even m d v" and nw: "nearest_even n d w"
    using assms(2,3) roundHalfEven_nearest by blast+
  have "(w + 1) * d \<le> v * d" using \<open>w + 1 \<le> v\<close> d by (intro mult_right_mono) auto
  define x y where "x = v * d" and "y = w * d"
  have "y + d \<le> x" using \<open>(w + 1) * d \<le> v * d\<close> by (simp add: algebra_simps x_def y_def)
  moreover have "2 * (x - m) \<le> d" "- d \<le> 2 * (y - n)"
    using nv nw by (simp_all add: nearest_even_def twice_abs_le x_def y_def)
  ultimately have "n \<le> m" by arith
  with assms(1) have "m = n" by simp
  then have "v = w" using nv nw nearest_even_unique [OF d] by blast
  with \<open>\<not> v \<le> w\<close> show False by simp
qed

end
