(* ===== verification/Calendar.thy ===== *)
theory Calendar
  imports Eval_Utils
begin

text \<open>
  Calendar days in the qualified cohort zones: \<open>packages/contracts/src/calendar-time.ts\<close> and
  \<open>dateAt\<close> of \<open>packages/attribution-core/src/evaluation-utils.ts\<close>. The offset of
  \<open>America/New_York\<close> at an instant comes from the IANA data of the runtime's ICU library,
  which is not in the repository: it is the parameter \<open>tz\<close> (milliseconds east of UTC).
  \<open>Intl.DateTimeFormat\<close> prints the year without padding, so the text that Date.parse reads
  back is the four-digit one: the model follows local years 1000 to 9999 and takes any other
  local year as unparsable (NaN).
\<close>

datatype zone = UTC | Asia_Tokyo | America_New_York

fun zone_offset :: "(int \<Rightarrow> int) \<Rightarrow> zone \<Rightarrow> int \<Rightarrow> int" where
  "zone_offset tz UTC t = 0"
| "zone_offset tz Asia_Tokyo t = 9 * 3600000"
| "zone_offset tz America_New_York t = tz t"

section \<open>Dates as text\<close>

definition slice10 :: "string \<Rightarrow> string" where
  "slice10 s = take 10 s"

text \<open>\<open>Date.parse(`${day}T00:00:00.000Z`)\<close> together with the check that the day is canonical.\<close>

definition exact_date :: "string \<Rightarrow> int option" where
  "exact_date day = (if length day = 10 then canonical_instant (day @ ''T00:00:00.000Z'') else None)"

definition addCalendarDays :: "string \<Rightarrow> int \<Rightarrow> string res" where
  "addCalendarDays day n =
     (case exact_date day of
        None \<Rightarrow> throw ''calendar_date_invalid''
      | Some epoch \<Rightarrow>
          guardR (\<bar>n\<bar> \<le> 9007199254740991) ''calendar_date_invalid''
            (bindR (iso_or_throw (epoch + n * DAY_MS)) (\<lambda>s. Inr (slice10 s))))"

section \<open>Local days\<close>

text \<open>\<open>parts\<close>: the local wall clock, in milliseconds, whole seconds only.\<close>

definition local_wall :: "(int \<Rightarrow> int) \<Rightarrow> zone \<Rightarrow> int \<Rightarrow> int res" where
  "local_wall tz z t =
     guardR (\<bar>t\<bar> \<le> max_time) ''calendar_time_invalid'' (Inr ((t + zone_offset tz z t) div 1000 * 1000))"

definition readable_year :: "int \<Rightarrow> bool" where
  "readable_year wall \<longleftrightarrow> (case civil_from_days (wall div DAY_MS) of (y, m, d) \<Rightarrow> 1000 \<le> y \<and> y \<le> 9999)"

definition numeric_date :: "int \<Rightarrow> string" where
  "numeric_date day = (case civil_from_days day of (y, m, d) \<Rightarrow>
     show_int y @ ''-'' @ pad 2 (nat m) @ ''-'' @ pad 2 (nat d))"

definition cohortLocalDate :: "(int \<Rightarrow> int) \<Rightarrow> int \<Rightarrow> zone \<Rightarrow> string res" where
  "cohortLocalDate tz t z = bindR (local_wall tz z t) (\<lambda>wall. Inr (numeric_date (wall div DAY_MS)))"

definition dateAt :: "(int \<Rightarrow> int) \<Rightarrow> string option \<Rightarrow> zone \<Rightarrow> string \<Rightarrow> string res" where
  "dateAt tz value z field =
     bindR (time value field) (\<lambda>t.
       if z = America_New_York then cohortLocalDate tz t z
       else bindR (iso_or_throw (t + (if z = Asia_Tokyo then 9 * 3600000 else 0))) (\<lambda>s. Inr (slice10 s)))"

text \<open>
  \<open>cohortDayStart\<close> corrects a first guess by the difference between the wanted and the local
  wall clock, at most four times. A NaN instant makes the next \<open>parts\<close> throw.
\<close>

fun day_start_loop :: "(int \<Rightarrow> int) \<Rightarrow> zone \<Rightarrow> int \<Rightarrow> nat \<Rightarrow> int option \<Rightarrow> string res" where
  "day_start_loop tz z target 0 instant = throw ''calendar_midnight_unresolvable''"
| "day_start_loop tz z target (Suc k) None = throw ''calendar_time_invalid''"
| "day_start_loop tz z target (Suc k) (Some instant) =
     bindR (local_wall tz z instant) (\<lambda>wall.
       if \<not> readable_year wall then day_start_loop tz z target k None
       else if target - wall = 0 then Inr (toISOString instant)
       else day_start_loop tz z target k (Some (instant + (target - wall))))"

definition cohortDayStart :: "(int \<Rightarrow> int) \<Rightarrow> string \<Rightarrow> zone \<Rightarrow> string res" where
  "cohortDayStart tz day z =
     bindR (addCalendarDays day 0) (\<lambda>_.
       case exact_date day of
         None \<Rightarrow> throw ''calendar_date_invalid''
       | Some target \<Rightarrow> day_start_loop tz z target 4 (Some target))"

text \<open>The difference of two local days; \<open>None\<close> is NaN.\<close>

definition local_day :: "(int \<Rightarrow> int) \<Rightarrow> int \<Rightarrow> zone \<Rightarrow> int option res" where
  "local_day tz t z = bindR (local_wall tz z t) (\<lambda>wall.
     Inr (if readable_year wall then Some (wall div DAY_MS) else None))"

definition cohortCalendarDayIndex :: "(int \<Rightarrow> int) \<Rightarrow> string \<Rightarrow> string \<Rightarrow> zone \<Rightarrow> int option res" where
  "cohortCalendarDayIndex tz install outcome z =
     (case (canonical_instant outcome, canonical_instant install) of
        (Some o', Some i) \<Rightarrow>
          bindR (local_day tz o' z) (\<lambda>a. bindR (local_day tz i z) (\<lambda>b.
            Inr (case (a, b) of (Some x, Some y) \<Rightarrow> Some (x - y) | _ \<Rightarrow> None)))
      | _ \<Rightarrow> throw ''calendar_time_invalid'')"

section \<open>Days\<close>

lemma date_text_length:
  assumes "four_digit_year (day * DAY_MS)"
  shows "length (date_text day) = 10"
proof -
  obtain y m d where c: "civil_from_days day = (y, m, d)" by (metis prod_cases3)
  from four_digit_civil [OF assms] c have "0 \<le> y" "y \<le> 9999" by simp_all
  with c show ?thesis by (simp add: date_text_def year_text_def)
qed

lemma clock_text_0: "clock_text 0 = ''00:00:00.000Z''"
  by code_simp

lemma midnight_text: "toISOString (day * DAY_MS) = date_text day @ ''T00:00:00.000Z''"
  by (simp add: toISOString_def clock_text_0)

lemma four_digit_max: "four_digit_year t \<Longrightarrow> \<bar>t\<bar> \<le> max_time"
  by (simp add: four_digit_year_def abs_le_iff)

lemma exact_date_text:
  assumes "four_digit_year (day * DAY_MS)"
  shows "exact_date (date_text day) = Some (day * DAY_MS)"
  using canonical_instant_iso [OF four_digit_max [OF assms]]
  by (simp add: exact_date_def date_text_length [OF assms] midnight_text)

lemma exact_date_Some:
  assumes "exact_date s = Some e"
  obtains day where "s = date_text day" "e = day * DAY_MS"
proof -
  from assms have l: "length s = 10" and e: "s @ ''T00:00:00.000Z'' = toISOString e"
    by (auto simp: exact_date_def canonical_instant_Some split: if_splits)
  have cl: "length (clock_text x) = 13" for x by (simp add: clock_text_def)
  from e l have "s @ ''T'' @ ''00:00:00.000Z'' = date_text (e div DAY_MS) @ ''T'' @ clock_text (e mod DAY_MS)"
    by (simp add: toISOString_def)
  moreover have "length (''T'' @ ''00:00:00.000Z'') = length (''T'' @ clock_text (e mod DAY_MS))"
    by (simp add: cl)
  ultimately have s: "s = date_text (e div DAY_MS)" and c: "clock_text (e mod DAY_MS) = ''00:00:00.000Z''"
    using append_eq_append_conv [of s] by auto
  have "\<not> 0 < e mod DAY_MS"
  proof
    assume "0 < e mod DAY_MS"
    from clock_text_less [OF _ this] have "clock_text 0 < clock_text (e mod DAY_MS)" by simp
    then show False using c clock_text_0 by simp
  qed
  moreover have "0 \<le> e mod DAY_MS" by simp
  ultimately have "e = e div DAY_MS * DAY_MS" by (metis div_mult_mod_eq add.right_neutral order_le_less)
  with s that show thesis by blast
qed

lemma slice10_midnight:
  assumes "four_digit_year (day * DAY_MS)"
  shows "slice10 (toISOString (day * DAY_MS)) = date_text day"
  using date_text_length [OF assms] by (simp add: slice10_def midnight_text)

lemma addCalendarDays_text:
  assumes "four_digit_year (day * DAY_MS)" "four_digit_year ((day + n) * DAY_MS)"
  shows "addCalendarDays (date_text day) n = Inr (date_text (day + n))"
proof -
  have "\<bar>n\<bar> \<le> 9007199254740991" using assms by (auto simp: four_digit_year_def abs_le_iff)
  moreover have "day * DAY_MS + n * DAY_MS = (day + n) * DAY_MS" by (simp add: algebra_simps)
  ultimately show ?thesis using four_digit_max [OF assms(2)] slice10_midnight [OF assms(2)]
    by (simp only: addCalendarDays_def exact_date_text [OF assms(1)] guardR_def iso_or_throw_def
        option.case if_True bindR_Inr)
qed

section \<open>Local midnights\<close>

text \<open>A returned instant shows the wanted wall clock in the zone, whatever the zone data.\<close>

lemma day_start_loop_sound:
  "day_start_loop tz z target k i = Inr s \<Longrightarrow>
     \<exists>t. s = toISOString t \<and> \<bar>t\<bar> \<le> max_time \<and> (t + zone_offset tz z t) div 1000 * 1000 = target"
  by (induction tz z target k i rule: day_start_loop.induct)
    (auto simp: result_simps local_wall_def split: if_splits)

text \<open>Where the offset does not change between the guess and its correction, two rounds suffice.\<close>

lemma day_start_loop_constant:
  assumes o: "zone_offset tz z target = off" "zone_offset tz z (target - off) = off"
    and sec: "1000 dvd off" "1000 dvd target"
    and range: "\<bar>target\<bar> \<le> max_time" "\<bar>target - off\<bar> \<le> max_time"
    and yr: "readable_year (target + off)" "readable_year target"
  shows "day_start_loop tz z target (Suc (Suc k)) (Some target) = Inr (toISOString (target - off))"
proof -
  have w1: "local_wall tz z target = Inr (target + off)"
    using o(1) sec range(1) by (simp add: local_wall_def guardR_def dvd_div_mult_self)
  have w2: "local_wall tz z (target - off) = Inr target"
    using o(2) sec range(2) by (simp add: local_wall_def guardR_def dvd_div_mult_self)
  show ?thesis by (cases "off = 0") (simp_all add: w1 w2 [simplified] w2 yr)
qed

lemma readable_range:
  assumes "- 354285 \<le> day" "day \<le> 2932896" "civil_from_days day = (y, m, d)"
  shows "1000 \<le> y" "y \<le> 9999"
proof -
  have lo: "civil_from_days (- 354285) = (1000, 1, 1)" and hi: "civil_from_days 2932896 = (9999, 12, 31)" by code_simp+
  show "1000 \<le> y"
    using civil_mono [OF lo assms(3)] assms(1) by (cases "day = - 354285") (use lo assms(3) in auto)
  show "y \<le> 9999"
    using civil_mono [OF assms(3) hi] assms(2) by (cases "day = 2932896") (use hi assms(3) in auto)
qed

lemma readable_day: "- 354285 \<le> w div DAY_MS \<Longrightarrow> w div DAY_MS \<le> 2932896 \<Longrightarrow> readable_year w"
  using readable_range [of "w div DAY_MS"] by (cases "civil_from_days (w div DAY_MS)") (auto simp: readable_year_def)

lemma show_year:
  assumes "1000 \<le> n" "n \<le> 9999"
  shows "show_nat n = pad 4 n"
proof -
  define a b c where "a = n div 10" and "b = a div 10" and "c = b div 10"
  have r: "100 \<le> a" "10 \<le> b" "1 \<le> c" "c < 10" using assms by (auto simp: a_def b_def c_def)
  have "show_nat c = [digit_char c]" using r by (subst show_nat.simps) simp
  moreover have "show_nat b = show_nat c @ [digit_char (b mod 10)]" using r by (subst show_nat.simps) (simp add: c_def)
  moreover have "show_nat a = show_nat b @ [digit_char (a mod 10)]" using r by (subst show_nat.simps) (simp add: b_def)
  moreover have "show_nat n = show_nat a @ [digit_char (n mod 10)]" using assms by (subst show_nat.simps) (simp add: a_def)
  moreover have "pad (Suc (Suc (Suc (Suc 0)))) n = [digit_char (c mod 10), digit_char (b mod 10), digit_char (a mod 10), digit_char (n mod 10)]"
    by (simp add: a_def b_def c_def)
  moreover have "Suc (Suc (Suc (Suc 0))) = 4" by simp
  ultimately show ?thesis using r by simp
qed

lemma numeric_date_text:
  assumes "- 354285 \<le> day" "day \<le> 2932896"
  shows "numeric_date day = date_text day"
proof -
  obtain y m d where c: "civil_from_days day = (y, m, d)" by (metis prod_cases3)
  have y: "1000 \<le> y" "y \<le> 9999" using readable_range [OF assms c] .
  have "show_int y = pad 4 (nat y)" using y show_year [of "nat y"] by (simp add: show_int_def)
  with y show ?thesis by (simp add: numeric_date_def date_text_def c year_text_def)
qed

text \<open>C39. Resolving a local midnight always ends: for every day from 1000-01-02 to 9999-12-30 (the days whose neighbours also
  have years of four digits) and every zone whose offset is a whole number of seconds of at most a day that is the same at the
  first guess, midnight in UTC, and at its correction, the loop returns within its four rounds, the result is the instant that
  many milliseconds from the UTC midnight, and its local date is the day that was asked for.\<close>

theorem local_midnight_resolved:
  assumes "- 354284 \<le> day" "day < 2932896"
    and "zone_offset tz z (day * DAY_MS) = off" "zone_offset tz z (day * DAY_MS - off) = off" "1000 dvd off" "\<bar>off\<bar> \<le> DAY_MS"
  shows "cohortDayStart tz (date_text day) z = Inr (toISOString (day * DAY_MS - off))
    \<and> cohortLocalDate tz (day * DAY_MS - off) z = Inr (date_text day)"
proof -
  have y: "four_digit_year (day * DAY_MS)" using assms(1,2) by (simp add: four_digit_year_def)
  have range: "\<bar>day * DAY_MS\<bar> \<le> max_time" "\<bar>day * DAY_MS - off\<bar> \<le> max_time" using assms(1,2,6) by (auto simp: abs_le_iff)
  have sec: "1000 dvd day * DAY_MS" by simp
  have "(day * DAY_MS + off) div DAY_MS = day + off div DAY_MS" by simp
  moreover have "- 1 \<le> off div DAY_MS" "off div DAY_MS \<le> 1" using assms(6) by (auto simp: abs_le_iff)
  ultimately have "readable_year (day * DAY_MS + off)" "readable_year (day * DAY_MS)"
    using assms(1,2) by (auto intro!: readable_day)
  from day_start_loop_constant [OF assms(3,4,5) sec range this, of 2]
  have "day_start_loop tz z (day * DAY_MS) 4 (Some (day * DAY_MS)) = Inr (toISOString (day * DAY_MS - off))" by (simp add: eval_nat_numeral)
  moreover have "addCalendarDays (date_text day) 0 = Inr (date_text day)" using addCalendarDays_text [OF y, of 0] y by simp
  moreover have "cohortLocalDate tz (day * DAY_MS - off) z = Inr (date_text day)"
    using range assms(1,2,4) sec numeric_date_text [of day] by (simp add: cohortLocalDate_def local_wall_def guardR_def dvd_div_mult_self)
  ultimately show ?thesis by (simp add: cohortDayStart_def exact_date_text [OF y])
qed

theorem local_midnight_resolved_witness:
  "cohortDayStart (\<lambda>t. if t < 1772953200000 then - 5 * 3600000 else - 4 * 3600000) (date_text 20520) America_New_York
     = Inr (toISOString (20520 * DAY_MS + 5 * 3600000))"
  using local_midnight_resolved [of 20520 "\<lambda>t. if t < 1772953200000 then - 5 * 3600000 else - 4 * 3600000" America_New_York "- 5 * 3600000"]
  by simp

end
