(* ===== verification/Doubles.thy ===== *)
theory Doubles
  imports Eval_Utils Complex_Main "HOL-Library.Log_Nat"
begin

text \<open>
  JavaScript numbers where the fraud rules divide and multiply them: an IEEE 754 double is the
  rational it denotes, and every operation rounds its exact result to the nearest double, ties
  to even. Results beyond the largest double do not occur in the modelled code and are not
  represented; below the smallest normal the exponent is clamped, as in the standard.
\<close>

definition binary_exponent :: "int \<Rightarrow> int \<Rightarrow> int" where
  "binary_exponent n d =
     (let k = bitlen n - bitlen d in
      if 0 \<le> k then (if d * 2 ^ nat k \<le> n then k else k - 1)
      else (if d \<le> n * 2 ^ nat (- k) then k else k - 1))"

definition round_int :: "int \<Rightarrow> int \<Rightarrow> int" where
  "round_int n d = (case roundHalfEven n d of Inr v \<Rightarrow> v | Inl _ \<Rightarrow> 0)"

definition double_round :: "rat \<Rightarrow> rat" where
  "double_round x =
     (if x = 0 then 0
      else case quotient_of x of (n, d) \<Rightarrow>
        let e = max (binary_exponent \<bar>n\<bar> d - 52) (- 1074) in
        if 0 \<le> e then of_int (round_int n (d * 2 ^ nat e)) * 2 ^ nat e
        else of_int (round_int (n * 2 ^ nat (- e)) d) / 2 ^ nat (- e))"

definition dmul :: "rat \<Rightarrow> rat \<Rightarrow> rat" where "dmul x y = double_round (x * y)"

definition dadd :: "rat \<Rightarrow> rat \<Rightarrow> rat" where "dadd x y = double_round (x + y)"

text \<open>\<open>x / y > z\<close>: a division by zero is an infinity of the sign of \<open>x\<close>, or NaN when \<open>x\<close> is zero.\<close>

definition quotient_exceeds :: "rat \<Rightarrow> rat \<Rightarrow> rat \<Rightarrow> bool" where
  "quotient_exceeds x y z = (if y = 0 then 0 < x else z < double_round (x / y))"

section \<open>Integers are exact\<close>

lemma round_int_exact: "0 < d \<Longrightarrow> round_int (n * d) d = n"
  by (simp add: round_int_def roundHalfEven_exact)

lemma double_round_int:
  assumes "\<bar>n\<bar> < 2 ^ 53"
  shows "double_round (of_int n) = of_int n"
proof (cases "n = 0")
  case False
  have q: "quotient_of (of_int n) = (n, 1)" by (simp add: quotient_of_int)
  have "bitlen \<bar>n\<bar> \<le> 53" using assms by (simp add: bitlen_le_iff_power)
  moreover have "bitlen 1 = 1" by (simp add: compute_bitlen)
  ultimately have "binary_exponent \<bar>n\<bar> 1 - 52 \<le> 0" by (simp add: binary_exponent_def Let_def)
  then have e: "max (binary_exponent \<bar>n\<bar> 1 - 52) (- 1074) \<le> 0" by simp
  show ?thesis
  proof (cases "max (binary_exponent \<bar>n\<bar> 1 - 52) (- 1074) = 0")
    case True
    then show ?thesis using False round_int_exact [of 1 n] by (simp add: double_round_def q Let_def)
  next
    case neg: False
    define e where "e = max (binary_exponent \<bar>n\<bar> 1 - 52) (- 1074)"
    have "e < 0" using e neg by (simp add: e_def)
    then show ?thesis using False round_int_exact [of 1 "n * 2 ^ nat (- e)"]
      by (simp add: double_round_def q Let_def e_def [symmetric])
  qed
qed (simp add: double_round_def)

lemma double_round_numeral [simp]: "numeral k < (2 :: int) ^ 53 \<Longrightarrow> double_round (numeral k) = numeral k"
  using double_round_int [of "numeral k"] by simp

lemma double_round_0 [simp]: "double_round 0 = 0" by (simp add: double_round_def)

lemma double_round_1 [simp]: "double_round 1 = 1" using double_round_int [of 1] by simp

text \<open>A tenth and a fifth are not doubles: the literals of the source denote their roundings.\<close>

lemma double_round_example: "double_round (1/4) = 1/4" "double_round (1/5) \<noteq> 1/5" by code_simp+

end
