(* ===== verification/Model.thy ===== *)
theory Model
  imports Eval_Utils Composite_Key Complex_Main
begin

text \<open>
  The values the evaluator works on (\<open>packages/attribution-core/src/evaluation-model.ts\<close>). The
  source types \<open>server\<close>, \<open>record\<close> and \<open>record.payload\<close> as \<open>Any\<close>; the records below hold
  every member the modelled code reads, optional where the code tests for absence. A member
  \<open>m\<close> of the source is \<open>sv_m\<close> in the server context, \<open>r_m\<close> in the record, \<open>p_m\<close> in the
  payload, \<open>ic_m\<close> in an import context, \<open>at_m\<close> in an attempt, \<open>hs_m\<close> in a history state.
  \<open>p_rest\<close> and \<open>r_rest\<close> stand for the members no modelled code reads, which still count in
  the digests. Amounts, scales, sequences and revisions are the integers their texts denote.
\<close>

section \<open>Records received\<close>

record import_context =
  ic_provider :: string
  ic_provider_click_ref :: "string option"
  ic_provider_install_ref :: "string option"
  ic_provider_attributed :: bool
  ic_provider_attribution_strategy :: "string option"
  ic_provider_confirmed_at :: "string option"
  ic_provider_country :: "string option"
  ic_provider_campaign_ref :: "string option"
  ic_provider_adgroup_ref :: "string option"
  ic_provider_network :: "string option"

record meta_context =
  mc_attribution_model :: string
  mc_campaign_id :: "string option"
  mc_adgroup_id :: "string option"

record payload =
  p_installation_id :: "string option"
  p_click_id :: "string option"
  p_install_type :: "string option"
  p_prior_installation_id :: "string option"
  p_import_context :: "import_context option"
  p_anchor_source :: "string option"
  p_subject_scope :: "string option"
  p_event_key :: "string option"
  p_open_source :: "string option"
  p_transaction_id :: "string option"
  p_original_transaction_id :: "string option"
  p_correction_target_record_id :: "string option"
  p_reverses_refund_record_id :: "string option"
  p_financial_status :: "string option"
  p_amount_unscaled :: int
  p_amount_scale :: nat
  p_currency :: "string option"
  p_referrer_status :: "string option"
  p_third_party_referrer_classification :: "string option"
  p_referrer_click_at_server :: "string option"
  p_referrer_click_at_server_status :: "string option"
  p_meta_referrer_status :: "string option"
  p_meta_referrer_context :: "meta_context option"
  p_meta_decryption_key_id :: "string option"
  p_protected_referrer_evidence_ref :: "string option"
  p_adservices_status :: "string option"
  p_install_begin_at_server :: "string option"
  p_install_begin_at_server_status :: "string option"
  p_redirector_click_at :: "string option"
  p_redirector_time_status :: "string option"
  p_remote_click_ref :: "string option"
  p_bot_prefetch :: bool
  p_replay_suspected :: bool
  p_signature_verified :: bool
  p_did_win :: bool
  p_source_identifier :: "string option"
  p_conversion_value :: "int option"
  p_coarse_conversion_value :: "string option"
  p_conversion_type :: "string option"
  p_campaign_id :: "string option"
  p_network :: "string option"
  p_ad_network :: "string option"
  p_country :: "string option"
  p_ad_group_id :: "string option"
  p_creative_id :: "string option"
  p_rest :: string

record event_record =
  r_record_id :: string
  r_delivery_id :: string
  r_tenant_id :: string
  r_app_id :: string
  r_producer :: string
  r_event_id :: string
  r_event_name :: string
  r_schema_version :: string
  r_occurred_at :: string
  r_received_at :: string
  r_processing_purpose_id :: "string option"
  r_processing_sequence :: "int option"
  r_consent_revision :: "int option"
  r_alternative_legal_basis_id :: "string option"
  r_subject_scope :: "string option"
  r_late :: bool
  r_payload :: payload
  r_rest :: string

section \<open>The authenticated server context\<close>

record processing_purpose =
  pp_id :: string
  pp_policy_version :: string
  pp_consent_required :: bool

record withdrawal =
  wd_purpose_id :: string
  wd_recognized_at :: "string option"
  wd_recognized_sequence :: "int option"

record legal_basis =
  lb_id :: string
  lb_purpose_id :: string
  lb_effective_at :: "string option"
  lb_policy_version :: string

datatype consent_state = Granted | Denied | Withdrawn | Not_Required | Unknown

record consent_control =
  cc_purpose :: "string option"
  cc_state :: consent_state
  cc_revision :: "int option"
  cc_sequence :: int
  cc_at :: string

record stale_policy =
  sp_before :: string
  sp_authority :: string
  sp_policy_version :: string
  sp_policy_digest :: string

record injection_policy =
  ip_threshold_seconds :: rat
  ip_authority :: string
  ip_policy_version :: string
  ip_policy_digest :: string

record deep_link_resolution =
  dl_status :: string
  dl_campaign_id :: "string option"
  dl_tracking_link_id :: "string option"
  dl_install_attribution_click_id :: "string option"

record window_definition =
  wn_id :: string
  wn_version :: string
  wn_kind :: string
  wn_implementation :: string
  wn_lookback_days :: int
  wn_rules :: "string list"

record bound_bundle =
  bb_id :: string
  bb_version :: string
  bb_hash :: string
  bb_definition_digest :: string

datatype fraud_action = Allow | Flag | Exclude | Quarantine

text \<open>A parameter of the base layer is a number or something else; \<open>None\<close> stands for the latter.\<close>

record fraud_rule =
  fr_id :: string
  fr_inputs :: "string list"
  fr_action :: fraud_action

record fraud_bundle =
  fb_id :: string
  fb_version :: string
  fb_base :: "(string \<times> rat option) list"
  fb_private :: "(string \<times> string) list option"
  fb_rules :: "fraud_rule list"
  fb_rest :: string

record server =
  sv_tenant_id :: string
  sv_app_id :: string
  sv_received_at :: string
  sv_policy_digest :: string
  sv_processing_purposes :: "processing_purpose list"
  sv_withdrawals :: "withdrawal list"
  sv_purpose_consent_controls :: "consent_control list option"
  sv_alternative_legal_bases :: "legal_basis list"
  sv_timestamp_stale_policy :: "stale_policy option"
  sv_click_injection_policy :: "injection_policy option"
  sv_refund_target_ineligible_record_ids :: "string list"
  sv_deep_link_resolution :: "deep_link_resolution option"
  sv_first_party_bundle :: "(bound_bundle \<times> window_definition) option"
  sv_non_fraud_rule_bundles :: "(string \<times> bound_bundle) list"
  sv_fraud_enabled :: "bool option"
  sv_fraud_actions_enabled :: bool
  sv_fraud_rule_bundle :: "(bound_bundle \<times> fraud_bundle) option"

section \<open>Attempts\<close>

record history_state =
  hs_payload_sha256 :: string
  hs_semantic_available :: bool
  hs_ledger_position :: string
  hs_fraud_exclusion_id :: "string option"

record attempt =
  at_server :: server
  at_record :: event_record
  at_batch_id :: string
  at_history :: "history_state option"

text \<open>
  The digest functions \<open>sha256(jcs(v))\<close> come from \<open>node:crypto\<close> and \<open>json-canonicalize\<close>:
  they are parameters, one per type of value they are applied to here.
\<close>

record digests =
  sha_payload :: "payload \<Rightarrow> string"
  sha_record :: "event_record \<Rightarrow> string"
  sha_strings :: "string list \<Rightarrow> string"
  sha_window :: "window_definition \<Rightarrow> string"
  sha_non_fraud :: "string \<Rightarrow> string"
  sha_fraud_definition :: "fraud_bundle \<Rightarrow> string"
  sha_fraud_identity :: "fraud_bundle \<Rightarrow> string"
  sha_stale :: "string \<Rightarrow> string \<Rightarrow> string \<Rightarrow> string"
  sha_injection :: "rat \<Rightarrow> string \<Rightarrow> string \<Rightarrow> string"

section \<open>Decisions\<close>

datatype ingestion_status = Accepted | Rejected

datatype duplicate_resolution = Unique | Duplicate_Delivery | Event_Id_Conflict | Record_Id_Collision

datatype lifecycle_status = Available | Redacted | Purged

datatype payload_disposition = Protected | Discarded

text \<open>\<open>ConsentDecision\<close> without \<open>allowed\<close>, which the source spreads into every decision.\<close>

record consent_info =
  ci_purpose_id :: "string option"
  ci_policy_version :: string
  ci_reason_code :: string
  ci_withdrawal_recognized_at :: "string option"
  ci_revision :: "int option"
  ci_recognized_revision :: "int option"
  ci_basis_id :: "string option"
  ci_basis_policy_version :: "string option"

record ingestion_decision =
  id_record_id :: string
  id_canonical_record_id :: "string option"
  id_delivery_id :: string
  id_event_name :: "string option"
  id_tenant_id :: string
  id_app_id :: string
  id_received_at :: "string option"
  id_ingestion_status :: ingestion_status
  id_duplicate_resolution :: duplicate_resolution
  id_late :: bool
  id_clock_skew_suspected :: bool
  id_payload_disposition :: payload_disposition
  id_allowed :: "bool option"
  id_consent :: consent_info
  id_staleness :: "stale_policy option"
  id_reason_code :: "string option"

text \<open>
  \<open>CandidateDecision\<close>: the statuses, and the whole decision when it is one of this evaluation.
  Canonical history has the statuses only.
\<close>

record candidate_decision =
  cd_ingestion_status :: ingestion_status
  cd_duplicate_resolution :: duplicate_resolution
  cd_decision :: "ingestion_decision option"

type_synonym decisions = "(string, ingestion_decision) jsmap"

text \<open>Short names for the members most conditions read.\<close>

abbreviation tenant :: "attempt \<Rightarrow> string" where "tenant a \<equiv> sv_tenant_id (at_server a)"
abbreviation app :: "attempt \<Rightarrow> string" where "app a \<equiv> sv_app_id (at_server a)"
abbreviation record_id :: "attempt \<Rightarrow> string" where "record_id a \<equiv> r_record_id (at_record a)"
abbreviation event_name :: "attempt \<Rightarrow> string" where "event_name a \<equiv> r_event_name (at_record a)"
abbreviation payload_of :: "attempt \<Rightarrow> payload" where "payload_of a \<equiv> r_payload (at_record a)"
abbreviation installation :: "attempt \<Rightarrow> string option" where
  "installation a \<equiv> p_installation_id (r_payload (at_record a))"

section \<open>Blank values\<close>

text \<open>Starting points for concrete inputs: every optional member absent.\<close>

definition blank_payload :: payload where
  "blank_payload =
     \<lparr> p_installation_id = None, p_click_id = None, p_install_type = None, p_prior_installation_id = None,
       p_import_context = None, p_anchor_source = None, p_subject_scope = None, p_event_key = None,
       p_open_source = None, p_transaction_id = None, p_original_transaction_id = None,
       p_correction_target_record_id = None, p_reverses_refund_record_id = None, p_financial_status = None,
       p_amount_unscaled = 0, p_amount_scale = 0, p_currency = None, p_referrer_status = None,
       p_third_party_referrer_classification = None, p_referrer_click_at_server = None,
       p_referrer_click_at_server_status = None, p_meta_referrer_status = None, p_meta_referrer_context = None,
       p_meta_decryption_key_id = None, p_protected_referrer_evidence_ref = None, p_adservices_status = None,
       p_install_begin_at_server = None, p_install_begin_at_server_status = None, p_redirector_click_at = None,
       p_redirector_time_status = None, p_remote_click_ref = None, p_bot_prefetch = False,
       p_replay_suspected = False, p_signature_verified = False, p_did_win = False, p_source_identifier = None,
       p_conversion_value = None, p_coarse_conversion_value = None, p_conversion_type = None,
       p_campaign_id = None, p_network = None, p_ad_network = None, p_country = None, p_ad_group_id = None,
       p_creative_id = None, p_rest = [] \<rparr>"

definition blank_server :: "string \<Rightarrow> string \<Rightarrow> server" where
  "blank_server t a =
     \<lparr> sv_tenant_id = t, sv_app_id = a, sv_received_at = ''2026-01-10T00:00:00.000Z'', sv_policy_digest = [],
       sv_processing_purposes = [], sv_withdrawals = [], sv_purpose_consent_controls = None,
       sv_alternative_legal_bases = [], sv_timestamp_stale_policy = None, sv_click_injection_policy = None,
       sv_refund_target_ineligible_record_ids = [], sv_deep_link_resolution = None, sv_first_party_bundle = None,
       sv_non_fraud_rule_bundles = [], sv_fraud_enabled = None, sv_fraud_actions_enabled = False,
       sv_fraud_rule_bundle = None \<rparr>"

definition blank_record :: "string \<Rightarrow> string \<Rightarrow> string \<Rightarrow> string \<Rightarrow> payload \<Rightarrow> event_record" where
  "blank_record t a rid name p =
     \<lparr> r_record_id = rid, r_delivery_id = rid, r_tenant_id = t, r_app_id = a, r_producer = ''sdk-android'',
       r_event_id = rid, r_event_name = name, r_schema_version = ''1'',
       r_occurred_at = ''2026-01-10T00:00:00.000Z'', r_received_at = ''2026-01-10T00:00:00.000Z'',
       r_processing_purpose_id = None, r_processing_sequence = None, r_consent_revision = None,
       r_alternative_legal_basis_id = None, r_subject_scope = None, r_late = False, r_payload = p, r_rest = [] \<rparr>"

definition blank_attempt :: "string \<Rightarrow> string \<Rightarrow> string \<Rightarrow> string \<Rightarrow> payload \<Rightarrow> attempt" where
  "blank_attempt t a rid name p =
     \<lparr> at_server = blank_server t a, at_record = blank_record t a rid name p, at_batch_id = ''batch-default'',
       at_history = None \<rparr>"

text \<open>A digest that is injective on the record identity, for closed examples.\<close>

definition sample_digests :: digests where
  "sample_digests = \<lparr> sha_payload = (\<lambda>p. p_rest p), sha_record = (\<lambda>r. r_record_id r), sha_strings = concat, sha_window = wn_version, sha_non_fraud = id,
     sha_fraud_definition = fb_version, sha_fraud_identity = fb_id,
     sha_stale = (\<lambda>before authority version. concat [before, authority, version]),
     sha_injection = (\<lambda>seconds authority version. concat [authority, version]) \<rparr>"

text \<open>An attempt as the ledger supplies it: admitted, available, identified by its payload digest.\<close>

definition ledger_attempt :: "string \<Rightarrow> attempt \<Rightarrow> attempt" where
  "ledger_attempt digest a = a\<lparr>at_history := Some \<lparr> hs_payload_sha256 = digest, hs_semantic_available = True,
     hs_ledger_position = ''1'', hs_fraud_exclusion_id = None \<rparr>\<rparr>"

lemmas blank_defs = blank_payload_def blank_server_def blank_record_def blank_attempt_def sample_digests_def
  ledger_attempt_def

lemma sample_instants [simp]:
  "canonical_instant ''2026-01-10T00:00:00.000Z'' = Some 1768003200000"
  "canonical_instant ''2026-01-10T00:00:05.000Z'' = Some 1768003205000"
  "canonical_instant ''2026-01-11T00:00:00.000Z'' = Some 1768089600000"
  by code_simp+

lemma sample_time [simp]:
  "time (Some ''2026-01-10T00:00:00.000Z'') field = Inr 1768003200000"
  "time (Some ''2026-01-10T00:00:05.000Z'') field = Inr 1768003205000"
  "time (Some ''2026-01-11T00:00:00.000Z'') field = Inr 1768089600000"
  by (simp_all add: time_def)

end
