(* ===== verification/Candidates.thy ===== *)
theory Candidates
  imports Model
begin

text \<open>
  \<open>packages/attribution-core/src/candidates.ts\<close>: the order of attempts, their keys, and the
  candidate provider, an interface with two implementations. \<open>FixtureArrayCandidateProvider\<close>
  scans the array; \<open>IndexedCandidateProvider\<close> builds three maps keyed by \<open>compositeKey\<close>. The
  locale \<open>candidate_source\<close> holds what the evaluator relies on; both implementations
  interpret it.
\<close>

section \<open>Attempts and their keys\<close>

definition candidatePayloadDigest :: "digests \<Rightarrow> attempt \<Rightarrow> string" where
  "candidatePayloadDigest D a =
     (case at_history a of Some h \<Rightarrow> hs_payload_sha256 h | None \<Rightarrow> sha_payload D (payload_of a))"

definition semanticCandidate :: "attempt \<Rightarrow> bool" where
  "semanticCandidate a = (case at_history a of None \<Rightarrow> True | Some h \<Rightarrow> hs_semantic_available h)"

record batch =
  bt_server :: server
  bt_records :: "event_record list"
  bt_batch_id :: string

definition attempts :: "batch list option \<Rightarrow> server \<Rightarrow> event_record list \<Rightarrow> attempt list" where
  "attempts batches srv records =
     (case batches of
        Some bs \<Rightarrow> concat (map (\<lambda>b. map (\<lambda>r. \<lparr> at_server = bt_server b, at_record = r,
                     at_batch_id = bt_batch_id b, at_history = None \<rparr>) (bt_records b)) bs)
      | None \<Rightarrow> map (\<lambda>r. \<lparr> at_server = srv, at_record = r, at_batch_id = ''batch-default'',
                     at_history = None \<rparr>) records)"

definition candidateAttemptSortKey :: "digests \<Rightarrow> attempt \<Rightarrow> string list" where
  "candidateAttemptSortKey D a =
     [(if at_history a \<noteq> None then ''0'' else ''1''),
      r_received_at (at_record a), record_id a, r_delivery_id (at_record a),
      tenant a, app a, r_schema_version (at_record a),
      (if at_history a \<noteq> None then candidatePayloadDigest D a else sha_record D (at_record a))]"

definition compareCandidateAttempts :: "digests \<Rightarrow> attempt \<Rightarrow> attempt \<Rightarrow> int" where
  "compareCandidateAttempts D a b = compare_keys (candidateAttemptSortKey D a) (candidateAttemptSortKey D b)"

definition sortCandidateAttempts :: "digests \<Rightarrow> attempt list \<Rightarrow> attempt list" where
  "sortCandidateAttempts D values = sort_key (candidateAttemptSortKey D) values"

definition scopeKey :: "attempt \<Rightarrow> string" where
  "scopeKey a = keyOf [tenant a, app a, r_producer (at_record a), r_event_id (at_record a)]"

definition clickKey :: "string \<Rightarrow> string \<Rightarrow> string option \<Rightarrow> string" where
  "clickKey t a c = compositeKey [Some t, Some a, c]"

definition evidenceKey :: "string \<Rightarrow> string \<Rightarrow> string \<Rightarrow> string" where
  "evidenceKey t a rid = keyOf [t, a, rid]"

definition attemptEvidenceKey :: "attempt \<Rightarrow> string" where
  "attemptEvidenceKey a = evidenceKey (tenant a) (app a) (record_id a)"

definition attemptDecisionKey :: "digests \<Rightarrow> attempt \<Rightarrow> string" where
  "attemptDecisionKey D a =
     keyOf [at_batch_id a, tenant a, app a, r_delivery_id (at_record a), record_id a,
            r_schema_version (at_record a),
            (if at_history a \<noteq> None then candidatePayloadDigest D a else sha_record D (at_record a))]"

definition decisionFor :: "digests \<Rightarrow> decisions \<Rightarrow> attempt \<Rightarrow> candidate_decision res" where
  "decisionFor D ds a =
     (case map_get ds (attemptDecisionKey D a) of
        Some d \<Rightarrow> Inr \<lparr> cd_ingestion_status = id_ingestion_status d,
                        cd_duplicate_resolution = id_duplicate_resolution d, cd_decision = Some d \<rparr>
      | None \<Rightarrow>
          if at_history a \<noteq> None
          then Inr \<lparr> cd_ingestion_status = Accepted, cd_duplicate_resolution = Unique, cd_decision = None \<rparr>
          else throw (''missing decision: '' @ r_delivery_id (at_record a)))"

definition is_accepted_unique :: "candidate_decision \<Rightarrow> bool" where
  "is_accepted_unique d \<longleftrightarrow> cd_ingestion_status d = Accepted \<and> cd_duplicate_resolution d = Unique"

definition accepted_unique :: "digests \<Rightarrow> decisions \<Rightarrow> attempt \<Rightarrow> bool res" where
  "accepted_unique D ds a = bindR (decisionFor D ds a) (\<lambda>d. Inr (is_accepted_unique d))"

section \<open>Candidate providers\<close>

record candidate_provider =
  cp_all :: "attempt list"
  cp_byRecordId :: "string \<Rightarrow> attempt list"
  cp_byLogicalScope :: "attempt \<Rightarrow> attempt list"
  cp_clickCandidates :: "string \<Rightarrow> string \<Rightarrow> string option \<Rightarrow> attempt list"

definition FixtureArrayCandidateProvider :: "attempt list \<Rightarrow> candidate_provider" where
  "FixtureArrayCandidateProvider ordered =
     \<lparr> cp_all = ordered,
       cp_byRecordId = (\<lambda>rid. filter (\<lambda>c. record_id c = rid) ordered),
       cp_byLogicalScope = (\<lambda>a. filter (\<lambda>c. scopeKey c = scopeKey a) ordered),
       cp_clickCandidates = (\<lambda>t a cid. filter (\<lambda>c. tenant c = t \<and> app c = a
          \<and> event_name c = ''click'' \<and> p_click_id (payload_of c) = cid) ordered) \<rparr>"

record candidate_index =
  ix_records :: "(string, attempt list) jsmap"
  ix_logicalScopes :: "(string, attempt list) jsmap"
  ix_clicks :: "(string, attempt list) jsmap"

definition index_add :: "(string, attempt list) jsmap \<Rightarrow> string \<Rightarrow> attempt \<Rightarrow> (string, attempt list) jsmap" where
  "index_add index key a = map_set key (the_or [] (map_get index key) @ [a]) index"

definition index_attempt :: "candidate_index \<Rightarrow> attempt \<Rightarrow> candidate_index" where
  "index_attempt ix a =
     \<lparr> ix_records = index_add (ix_records ix) (record_id a) a,
       ix_logicalScopes = index_add (ix_logicalScopes ix) (scopeKey a) a,
       ix_clicks = (if event_name a = ''click''
          then index_add (ix_clicks ix) (clickKey (tenant a) (app a) (p_click_id (payload_of a))) a
          else ix_clicks ix) \<rparr>"

definition build_index :: "attempt list \<Rightarrow> candidate_index" where
  "build_index ordered =
     foldl index_attempt \<lparr> ix_records = [], ix_logicalScopes = [], ix_clicks = [] \<rparr> ordered"

definition IndexedCandidateProvider :: "attempt list \<Rightarrow> candidate_provider" where
  "IndexedCandidateProvider ordered =
     (let ix = build_index ordered in
     \<lparr> cp_all = ordered,
       cp_byRecordId = (\<lambda>rid. the_or [] (map_get (ix_records ix) rid)),
       cp_byLogicalScope = (\<lambda>a. the_or [] (map_get (ix_logicalScopes ix) (scopeKey a))),
       cp_clickCandidates = (\<lambda>t a cid. the_or [] (map_get (ix_clicks ix) (clickKey t a cid))) \<rparr>)"

section \<open>The interface\<close>

locale candidate_source =
  fixes provider :: candidate_provider and ordered :: "attempt list"
  assumes all_ordered: "cp_all provider = ordered"
    and by_record_id: "cp_byRecordId provider rid = filter (\<lambda>c. record_id c = rid) ordered"
    and by_scope: "cp_byLogicalScope provider a = filter (\<lambda>c. scopeKey c = scopeKey a) ordered"
    and clicks: "cp_clickCandidates provider t s cid =
      filter (\<lambda>c. tenant c = t \<and> app c = s \<and> event_name c = ''click'' \<and> p_click_id (payload_of c) = cid) ordered"
begin

lemma scope_first:
  assumes "a \<in> set ordered"
  obtains f rest where "cp_byLogicalScope provider a = f # rest" "f \<in> set ordered" "scopeKey f = scopeKey a"
proof (cases "cp_byLogicalScope provider a")
  case Nil
  with assms show ?thesis by (auto simp: by_scope filter_empty_conv)
next
  case (Cons f rest)
  then have "f \<in> set (cp_byLogicalScope provider a)" by simp
  then have "f \<in> set ordered" "scopeKey f = scopeKey a" by (simp_all add: by_scope)
  with Cons that show ?thesis by blast
qed

lemma scope_first_shared:
  "scopeKey a = scopeKey b \<Longrightarrow> cp_byLogicalScope provider a = cp_byLogicalScope provider b"
  by (simp add: by_scope)

lemma record_id_member: "a \<in> set ordered \<Longrightarrow> a \<in> set (cp_byRecordId provider (record_id a))"
  by (simp add: by_record_id)

lemma clicks_scoped:
  "c \<in> set (cp_clickCandidates provider t s cid) \<Longrightarrow>
     tenant c = t \<and> app c = s \<and> event_name c = ''click'' \<and> p_click_id (payload_of c) = cid \<and> c \<in> set ordered"
  by (auto simp: clicks)

lemma provider_determined:
  assumes "candidate_source p ordered"
  shows "p = provider"
  using assms
  by (intro candidate_provider.equality)
    (auto simp: fun_eq_iff all_ordered by_record_id by_scope clicks candidate_source_def)

end

section \<open>Both providers implement it\<close>

interpretation fixture: candidate_source "FixtureArrayCandidateProvider ordered" ordered for ordered
  by unfold_locales (simp_all add: FixtureArrayCandidateProvider_def)

text \<open>An index lookup is the subsequence of indexed attempts with that key.\<close>

lemma map_get_index_add:
  "the_or [] (map_get (index_add m key a) k) = the_or [] (map_get m k) @ (if k = key then [a] else [])"
  by (simp add: index_add_def)

lemma build_index_lookup:
  "the_or [] (map_get (ix_records (foldl index_attempt ix xs)) k)
     = the_or [] (map_get (ix_records ix) k) @ filter (\<lambda>c. record_id c = k) xs"
  "the_or [] (map_get (ix_logicalScopes (foldl index_attempt ix xs)) k)
     = the_or [] (map_get (ix_logicalScopes ix) k) @ filter (\<lambda>c. scopeKey c = k) xs"
  "the_or [] (map_get (ix_clicks (foldl index_attempt ix xs)) k)
     = the_or [] (map_get (ix_clicks ix) k)
       @ filter (\<lambda>c. event_name c = ''click'' \<and> clickKey (tenant c) (app c) (p_click_id (payload_of c)) = k) xs"
  by (induction xs arbitrary: ix)
    (auto simp: index_attempt_def map_get_index_add)

lemma clickKey_eq [simp]: "clickKey t a c = clickKey t' a' c' \<longleftrightarrow> t = t' \<and> a = a' \<and> c = c'"
  by (simp add: clickKey_def)

interpretation indexed: candidate_source "IndexedCandidateProvider ordered" ordered for ordered
  by unfold_locales
    (auto simp: IndexedCandidateProvider_def Let_def build_index_def build_index_lookup intro!: filter_cong)

lemma providers_agree: "IndexedCandidateProvider ordered = FixtureArrayCandidateProvider ordered"
  by (rule fixture.provider_determined) (rule indexed.candidate_source_axioms)

section \<open>Keys identify\<close>

lemma scopeKey_eq:
  "scopeKey a = scopeKey b \<longleftrightarrow>
     tenant a = tenant b \<and> app a = app b \<and> r_producer (at_record a) = r_producer (at_record b)
     \<and> r_event_id (at_record a) = r_event_id (at_record b)"
  by (simp add: scopeKey_def)

lemma evidenceKey_eq [simp]: "evidenceKey t a r = evidenceKey t' a' r' \<longleftrightarrow> t = t' \<and> a = a' \<and> r = r'"
  by (simp add: evidenceKey_def)

lemma decisionKey_record:
  assumes "attemptDecisionKey D a = attemptDecisionKey D b"
  shows "record_id a = record_id b" "tenant a = tenant b" "app a = app b"
  using assms by (simp_all add: attemptDecisionKey_def)

text \<open>C1. The index finds what a scan finds: after any sequence of attempts has been indexed, the lookup by record, by logical scope
  and by click returns exactly the delivered attempts with that record identifier, with that tenant, application, producer and event,
  and the clicks of that tenant and application with that click identifier or with none, each as often and in the order in which they
  were delivered; keys of different texts never collide.\<close>

theorem indexed_lookups_exact:
  "cp_all (IndexedCandidateProvider ordered) = ordered
    \<and> cp_byRecordId (IndexedCandidateProvider ordered) rid = filter (\<lambda>c. record_id c = rid) ordered
    \<and> cp_byLogicalScope (IndexedCandidateProvider ordered) a = filter (\<lambda>c. tenant c = tenant a \<and> app c = app a
        \<and> r_producer (at_record c) = r_producer (at_record a) \<and> r_event_id (at_record c) = r_event_id (at_record a)) ordered
    \<and> cp_clickCandidates (IndexedCandidateProvider ordered) t s cid = filter (\<lambda>c. tenant c = t \<and> app c = s \<and> event_name c = ''click''
        \<and> p_click_id (payload_of c) = cid) ordered"
  by (simp add: indexed.all_ordered indexed.by_record_id indexed.by_scope indexed.clicks scopeKey_eq)

section \<open>Order of attempts\<close>

lemma mset_sortCandidateAttempts [simp]: "mset (sortCandidateAttempts D xs) = mset xs"
  by (simp add: sortCandidateAttempts_def)

lemma set_sortCandidateAttempts [simp]: "set (sortCandidateAttempts D xs) = set xs"
  by (simp add: sortCandidateAttempts_def)

lemma sortCandidateAttempts_perm:
  "mset xs = mset ys \<Longrightarrow> inj_on (candidateAttemptSortKey D) (set xs) \<Longrightarrow>
     sortCandidateAttempts D xs = sortCandidateAttempts D ys"
  unfolding sortCandidateAttempts_def by (rule sort_key_cong_mset)

lemma sortKey_length [simp]: "length (candidateAttemptSortKey D a) = 8"
  by (simp add: candidateAttemptSortKey_def)

lemma compareCandidateAttempts_less:
  "compareCandidateAttempts D a b < 0 \<longleftrightarrow> candidateAttemptSortKey D a < candidateAttemptSortKey D b"
  by (simp add: compareCandidateAttempts_def compare_keys_less)

end
