(* ===== verification/Purpose_Consent.thy ===== *)
theory Purpose_Consent
  imports Model "HOL-Library.Product_Lexorder"
begin

text \<open>
  \<open>packages/contracts/src/purpose-consent.ts\<close>: the consent state of a purpose at an
  authoritative receipt sequence, and the admission of a declared revision. The snapshot does
  not depend on the order in which the controls are supplied, a later control cannot change an
  earlier decision, and a denial or withdrawal at the current revision can never be admitted.
\<close>

section \<open>Controls\<close>

definition CONSENT_PURPOSES :: "string list" where
  "CONSENT_PURPOSES = [''attribution'', ''analytics'', ''revenue_measurement'']"

fun state_text :: "consent_state \<Rightarrow> string" where
  "state_text Granted = ''granted''"
| "state_text Denied = ''denied''"
| "state_text Withdrawn = ''withdrawn''"
| "state_text Not_Required = ''not_required''"
| "state_text Unknown = ''unknown''"

definition stopped :: "consent_state \<Rightarrow> bool" where
  "stopped s \<longleftrightarrow> s = Denied \<or> s = Withdrawn"

definition validSequence :: "int \<Rightarrow> bool" where
  "validSequence v \<longleftrightarrow> 0 \<le> v \<and> v \<le> 9007199254740991"

text \<open>The pattern \<open>\d{4}-\d{2}-\d{2}T...\<close> admits the canonical texts of length 24 only.\<close>

definition four_digit_instant :: "string \<Rightarrow> bool" where
  "four_digit_instant v \<longleftrightarrow> length v = 24 \<and> canonical_instant v \<noteq> None"

definition validateControl :: "consent_control \<Rightarrow> unit res" where
  "validateControl c =
     (if \<not> validSequence (cc_sequence c) \<or> \<not> four_digit_instant (cc_at c)
        \<or> (cc_purpose c \<noteq> None \<and> the_or [] (cc_purpose c) \<notin> set CONSENT_PURPOSES)
        \<or> (case cc_revision c of None \<Rightarrow> False | Some r \<Rightarrow> \<not> validSequence r \<or> r = 0)
        \<or> (cc_purpose c \<noteq> None \<and> cc_revision c = None)
      then throw ''purpose_consent_control_invalid'' else Inr ())"

section \<open>The snapshot\<close>

record consent_snapshot =
  sn_purpose :: string
  sn_state :: consent_state
  sn_revision :: int
  sn_sequence :: int
  sn_at :: string
  sn_conflicting :: bool
  sn_unversioned_withdrawal :: "(int \<times> string) option"

definition control_order :: "consent_control \<Rightarrow> int \<times> string \<times> string" where
  "control_order c = (cc_sequence c, cc_at c, state_text (cc_state c))"

definition at_last :: "'a list \<Rightarrow> 'a option" where
  "at_last xs = (if xs = [] then None else Some (last xs))"

definition at_first :: "'a list \<Rightarrow> 'a option" where
  "at_first xs = (case xs of [] \<Rightarrow> None | x # _ \<Rightarrow> Some x)"

definition eligible_control :: "int \<Rightarrow> consent_control \<Rightarrow> bool" where
  "eligible_control sequence c \<longleftrightarrow> cc_sequence c \<le> sequence \<and> cc_state c \<noteq> Unknown"

definition scoped_control :: "string \<Rightarrow> consent_control \<Rightarrow> bool" where
  "scoped_control purpose c \<longleftrightarrow> cc_purpose c = None \<or> cc_purpose c = Some purpose"

definition legacy_control :: "consent_control \<Rightarrow> bool" where
  "legacy_control c \<longleftrightarrow> cc_revision c = None \<and> stopped (cc_state c)"

definition purpose_snapshot :: "consent_control list \<Rightarrow> string \<Rightarrow> consent_snapshot option" where
  "purpose_snapshot eligible purpose =
     (let scoped = filter (scoped_control purpose) eligible;
          legacy = at_last (sort_key control_order (filter legacy_control scoped));
          versioned = filter (\<lambda>c. cc_revision c \<noteq> None) scoped;
          revision = foldl (\<lambda>m c. max m (the_or 0 (cc_revision c))) 0 versioned;
          latest = sort_key control_order (filter (\<lambda>c. cc_revision c = Some revision) versioned)
      in case or_else (at_first latest) legacy of
           None \<Rightarrow> None
         | Some selected \<Rightarrow> Some
             \<lparr> sn_purpose = purpose, sn_state = cc_state selected, sn_revision = revision,
               sn_sequence = cc_sequence selected, sn_at = cc_at selected,
               sn_conflicting = 1 < card (set (map cc_state latest)),
               sn_unversioned_withdrawal = map_option (\<lambda>l. (cc_sequence l, cc_at l)) legacy \<rparr>)"

definition purposeConsentAt :: "consent_control list \<Rightarrow> int option \<Rightarrow> consent_snapshot list res" where
  "purposeConsentAt controls sequence =
     (case sequence of
        None \<Rightarrow> throw ''purpose_consent_sequence_invalid''
      | Some s \<Rightarrow>
          guardR (validSequence s) ''purpose_consent_sequence_invalid''
            (bindR (all_ok validateControl controls) (\<lambda>_.
               Inr (List.map_filter (purpose_snapshot (filter (eligible_control s) controls)) CONSENT_PURPOSES))))"

section \<open>Admission\<close>

datatype consent_admission = Legacy | Allowed | Not_Required_Admission | Withdrawn_Admission | Revision_Unconfirmed

definition withdrawal_pending :: "consent_snapshot \<Rightarrow> bool" where
  "withdrawal_pending sn \<longleftrightarrow>
     (case sn_unversioned_withdrawal sn of None \<Rightarrow> False | Some (q, _) \<Rightarrow> sn_sequence sn \<le> q)"

definition purposeConsentAdmission :: "consent_snapshot option \<Rightarrow> int option \<Rightarrow> consent_admission" where
  "purposeConsentAdmission snapshot declared =
     (if (case declared of None \<Rightarrow> False | Some r \<Rightarrow> \<not> validSequence r) then Revision_Unconfirmed
      else case snapshot of
        None \<Rightarrow> if declared = None \<or> declared = Some 0 then Legacy else Revision_Unconfirmed
      | Some sn \<Rightarrow>
          if sn_conflicting sn then Revision_Unconfirmed
          else if stopped (sn_state sn) \<or> withdrawal_pending sn then Withdrawn_Admission
          else if declared \<noteq> Some (sn_revision sn) then Revision_Unconfirmed
          else if sn_state sn = Not_Required then Not_Required_Admission else Allowed)"

section \<open>The snapshot as a function of the set of declarations\<close>

lemma map_sort_key: "map f (sort_key f xs) = sort (map f xs)"
  by (rule properties_for_sort [symmetric]) (simp_all add: mset_map)

lemma map_sort_key_cong:
  "mset xs = mset ys \<Longrightarrow> map f (sort_key f xs) = map f (sort_key f ys)"
  unfolding map_sort_key by (rule properties_for_sort) (simp_all add: mset_map)

lemma state_text_inj: "state_text a = state_text b \<longleftrightarrow> a = b"
  by (cases a; cases b) simp_all

lemma control_order_fields:
  "control_order a = control_order b \<longleftrightarrow>
     cc_sequence a = cc_sequence b \<and> cc_at a = cc_at b \<and> cc_state a = cc_state b"
  by (auto simp: control_order_def state_text_inj)

lemma at_first_map: "at_first (map f xs) = map_option f (at_first xs)"
  by (cases xs) (simp_all add: at_first_def)

lemma at_last_map: "at_last (map f xs) = map_option f (at_last xs)"
  by (simp add: at_last_def last_map)

lemma max_revision_mset:
  "foldl (\<lambda>m c. max m (the_or 0 (cc_revision c))) k xs = Max (insert k ((\<lambda>c. the_or 0 (cc_revision c)) ` set xs))"
proof (induction xs arbitrary: k)
  case (Cons x xs)
  then show ?case by (simp add: insert_commute Max_insert [symmetric] del: Max_insert)
    (cases "xs = []", simp_all add: max.assoc)
qed simp

text \<open>The three components a snapshot reads from a control.\<close>

definition control_view :: "consent_control \<Rightarrow> int \<times> string \<times> consent_state" where
  "control_view c = (cc_sequence c, cc_at c, cc_state c)"

lemma view_of_sorted:
  assumes "mset xs = mset ys"
  shows "map control_view (sort_key control_order xs) = map control_view (sort_key control_order ys)"
proof -
  have l: "length (sort_key control_order xs) = length (sort_key control_order ys)"
    using assms by (metis length_sort mset_eq_length)
  have "map control_order (sort_key control_order xs) = map control_order (sort_key control_order ys)"
    by (rule map_sort_key_cong [OF assms])
  then show ?thesis
    by (auto simp: list_eq_iff_nth_eq l control_order_fields control_view_def)
qed

lemma purpose_snapshot_perm:
  assumes "mset xs = mset ys"
  shows "purpose_snapshot xs p = purpose_snapshot ys p"
proof -
  define sx sy where "sx = filter (scoped_control p) xs" and "sy = filter (scoped_control p) ys"
  have s: "mset sx = mset sy" using assms by (simp add: sx_def sy_def)
  define vx vy where "vx = filter (\<lambda>c. cc_revision c \<noteq> None) sx" and "vy = filter (\<lambda>c. cc_revision c \<noteq> None) sy"
  have v: "mset vx = mset vy" using s by (simp add: vx_def vy_def)
  define r where "r = foldl (\<lambda>m c. max m (the_or 0 (cc_revision c))) 0 vx"
  have r': "foldl (\<lambda>m c. max m (the_or 0 (cc_revision c))) 0 vy = r"
    unfolding r_def max_revision_mset using v by (metis set_mset_mset)
  define lx ly where "lx = sort_key control_order (filter (\<lambda>c. cc_revision c = Some r) vx)"
    and "ly = sort_key control_order (filter (\<lambda>c. cc_revision c = Some r) vy)"
  define ox oy where "ox = at_last (sort_key control_order (filter legacy_control sx))"
    and "oy = at_last (sort_key control_order (filter legacy_control sy))"
  have views: "map control_view lx = map control_view ly"
    unfolding lx_def ly_def using v by (intro view_of_sorted) simp
  have "map control_view (sort_key control_order (filter legacy_control sx))
      = map control_view (sort_key control_order (filter legacy_control sy))"
    using s by (intro view_of_sorted) simp
  then have legacy: "map_option control_view ox = map_option control_view oy"
    unfolding ox_def oy_def by (metis at_last_map)
  have first: "map_option control_view (at_first lx) = map_option control_view (at_first ly)"
    using views by (metis at_first_map)
  have states: "map cc_state lx = map cc_state ly"
    using arg_cong [OF views, of "map (\<lambda>(s, t, u). u)"] by (simp add: control_view_def comp_def)
  have sel: "map_option control_view (or_else (at_first lx) ox) = map_option control_view (or_else (at_first ly) oy)"
    using legacy first by (cases "at_first lx"; cases "at_first ly") auto
  have ow: "map_option (\<lambda>l. (cc_sequence l, cc_at l)) ox = map_option (\<lambda>l. (cc_sequence l, cc_at l)) oy"
    using legacy by (cases ox; cases oy) (auto simp: control_view_def)
  show ?thesis
    unfolding purpose_snapshot_def Let_def
    unfolding sx_def [symmetric] sy_def [symmetric] vx_def [symmetric] vy_def [symmetric]
    unfolding r' r_def [symmetric]
    unfolding lx_def [symmetric] ly_def [symmetric] ox_def [symmetric] oy_def [symmetric]
    using sel ow states
    by (cases "or_else (at_first lx) ox"; cases "or_else (at_first ly) oy") (auto simp: control_view_def)
qed

lemma all_ok_perm: "mset xs = mset ys \<Longrightarrow> all_ok validateControl xs = all_ok validateControl ys"
proof -
  assume "mset xs = mset ys"
  then have "set xs = set ys" by (metis set_mset_mset)
  moreover have "all_ok validateControl zs =
      (if \<forall>c \<in> set zs. validateControl c = Inr () then Inr () else throw ''purpose_consent_control_invalid'')" for zs
    by (induction zs) (auto simp: validateControl_def throw_def)
  ultimately show ?thesis by simp
qed

section \<open>What a snapshot says\<close>

lemma purpose_snapshot_revision:
  assumes "purpose_snapshot eligible p = Some sn" "c \<in> set eligible" "scoped_control p c" "cc_revision c = Some r"
  shows "r \<le> sn_revision sn"
proof -
  let ?v = "filter (\<lambda>c. cc_revision c \<noteq> None) (filter (scoped_control p) eligible)"
  have "sn_revision sn = Max (insert 0 ((\<lambda>c. the_or 0 (cc_revision c)) ` set ?v))"
    using assms(1) by (auto simp: purpose_snapshot_def Let_def max_revision_mset split: option.splits)
  moreover have "r \<in> insert 0 ((\<lambda>c. the_or 0 (cc_revision c)) ` set ?v)"
    using assms(2-4) by (auto simp: image_iff intro!: bexI [of _ c])
  ultimately show ?thesis by (auto intro: Max_ge)
qed

text \<open>A control at the recognised revision is the selected one, or makes the snapshot conflicting.\<close>

lemma purpose_snapshot_current:
  assumes sn: "purpose_snapshot eligible p = Some sn"
    and c: "c \<in> set eligible" "scoped_control p c" "cc_revision c = Some (sn_revision sn)"
  shows "sn_conflicting sn \<or> sn_state sn = cc_state c"
proof -
  define l where "l = sort_key control_order (filter (\<lambda>c. cc_revision c = Some (sn_revision sn))
    (filter (\<lambda>c. cc_revision c \<noteq> None) (filter (scoped_control p) eligible)))"
  from c have cl: "c \<in> set l" by (simp add: l_def)
  then obtain f where f: "at_first l = Some f" "f \<in> set l" by (cases l) (auto simp: at_first_def)
  have st: "sn_state sn = cc_state f" and co: "sn_conflicting sn \<longleftrightarrow> 1 < card (cc_state ` set l)"
    using sn f unfolding purpose_snapshot_def Let_def l_def
    by (auto split: option.splits)
  show ?thesis
  proof (cases "cc_state f = cc_state c")
    case False
    have "card {cc_state f, cc_state c} \<le> card (cc_state ` set l)"
      using cl f(2) by (intro card_mono) auto
    with False co show ?thesis by simp
  qed (simp add: st)
qed

lemma sort_key_Nil_iff: "sort_key f xs = [] \<longleftrightarrow> xs = []"
  by (metis length_0_conv length_sort)

lemma or_else_None: "or_else a b = None \<longleftrightarrow> a = None \<and> b = None"
  by (cases a) auto

lemma sort_last_max:
  assumes "x \<in> set xs"
  shows "\<exists>l. at_last (sort_key f xs) = Some l \<and> f x \<le> f l"
proof -
  have "sorted (map f (sort_key f xs))" by simp
  moreover have "x \<in> set (sort_key f xs)" using assms by simp
  moreover have "ys \<noteq> [] \<Longrightarrow> sorted (map f ys) \<Longrightarrow> y \<in> set ys \<Longrightarrow> f y \<le> f (last ys)" for ys y
    by (induction ys) (auto split: if_splits)
  ultimately have "f x \<le> f (last (sort_key f xs))" by (metis empty_iff list.set(1))
  moreover have "sort_key f xs \<noteq> []" using \<open>x \<in> set (sort_key f xs)\<close> by (metis empty_iff list.set(1))
  ultimately show ?thesis by (simp add: at_last_def)
qed

lemma purpose_snapshot_legacy:
  assumes sn: "purpose_snapshot eligible p = Some sn"
    and c: "c \<in> set eligible" "scoped_control p c" "legacy_control c"
  shows "\<exists>q t. sn_unversioned_withdrawal sn = Some (q, t) \<and> cc_sequence c \<le> q"
proof -
  have "c \<in> set (filter legacy_control (filter (scoped_control p) eligible))" using c by simp
  from sort_last_max [OF this, of control_order] obtain l where
    "at_last (sort_key control_order (filter legacy_control (filter (scoped_control p) eligible))) = Some l"
    and le: "control_order c \<le> control_order l" by blast
  with sn have "sn_unversioned_withdrawal sn = Some (cc_sequence l, cc_at l)"
    by (auto simp: purpose_snapshot_def Let_def split: option.splits)
  moreover have "cc_sequence c \<le> cc_sequence l" using le by (auto simp: control_order_def)
  ultimately show ?thesis by blast
qed

lemma purpose_snapshot_none:
  "purpose_snapshot eligible p = None \<Longrightarrow> c \<in> set eligible \<Longrightarrow> scoped_control p c \<Longrightarrow> \<not> legacy_control c"
  by (auto simp: purpose_snapshot_def Let_def at_last_def sort_key_Nil_iff filter_empty_conv or_else_None
      split: option.splits if_splits)

text \<open>Reading the snapshots: one per known purpose, over the eligible controls.\<close>

lemma find_map_filter_purpose:
  "distinct ps \<Longrightarrow> p \<in> set ps \<Longrightarrow>
     List.find (\<lambda>e. sn_purpose e = p) (List.map_filter (purpose_snapshot eligible) ps) = purpose_snapshot eligible p"
proof (induction ps)
  case (Cons q ps)
  have name: "purpose_snapshot eligible q = Some sn \<Longrightarrow> sn_purpose sn = q" for q sn
    by (auto simp: purpose_snapshot_def Let_def split: option.splits)
  have none: "p \<notin> set qs \<Longrightarrow> List.find (\<lambda>e. sn_purpose e = p) (List.map_filter (purpose_snapshot eligible) qs) = None" for qs
  proof (induction qs)
    case (Cons r qs)
    then show ?case using name [of r]
      by (cases "purpose_snapshot eligible r") (auto simp: List.map_filter_simps)
  qed (simp add: List.map_filter_simps)
  show ?case
  proof (cases "q = p")
    case True
    with Cons.prems none [of ps] name [of q] show ?thesis
      by (cases "purpose_snapshot eligible q") (auto simp: List.map_filter_simps)
  next
    case False
    with Cons name [of q] show ?thesis
      by (cases "purpose_snapshot eligible q") (auto simp: List.map_filter_simps)
  qed
qed simp

lemma purposeConsentAt_find:
  assumes "purposeConsentAt controls (Some s) = Inr sns" "p \<in> set CONSENT_PURPOSES"
  shows "List.find (\<lambda>e. sn_purpose e = p) sns = purpose_snapshot (filter (eligible_control s) controls) p"
proof -
  have "sns = List.map_filter (purpose_snapshot (filter (eligible_control s) controls)) CONSENT_PURPOSES"
    using assms(1) by (auto simp: purposeConsentAt_def guardR_eq_Inr bindR_eq_Inr)
  moreover have "distinct CONSENT_PURPOSES" by (simp add: CONSENT_PURPOSES_def)
  ultimately show ?thesis using find_map_filter_purpose assms(2) by simp
qed

text \<open>A stop that nothing later supersedes is not admitted.\<close>

lemma stopped_not_admitted:
  assumes c: "c \<in> set eligible" "scoped_control p c" "stopped (cc_state c)" "cc_revision c = Some r"
    and top: "\<And>c' r'. c' \<in> set eligible \<Longrightarrow> scoped_control p c' \<Longrightarrow> cc_revision c' = Some r' \<Longrightarrow> r' \<le> r"
    and r: "0 \<le> r"
  shows "purposeConsentAdmission (purpose_snapshot eligible p) declared \<in> {Withdrawn_Admission, Revision_Unconfirmed}"
proof -
  define vs where "vs = filter (\<lambda>c. cc_revision c \<noteq> None) (filter (scoped_control p) eligible)"
  have mx: "foldl (\<lambda>m c. max m (the_or 0 (cc_revision c))) 0 vs = r"
    unfolding max_revision_mset
  proof (rule Max_eqI)
    show "finite (insert 0 ((\<lambda>c. the_or 0 (cc_revision c)) ` set vs))" by simp
    show "y \<le> r" if "y \<in> insert 0 ((\<lambda>c. the_or 0 (cc_revision c)) ` set vs)" for y
      using that r top by (auto simp: vs_def)
    show "r \<in> insert 0 ((\<lambda>c. the_or 0 (cc_revision c)) ` set vs)"
      using c by (auto simp: vs_def image_iff intro!: bexI [of _ c])
  qed
  have "c \<in> set (sort_key control_order (filter (\<lambda>c. cc_revision c = Some r) vs))" using c by (simp add: vs_def)
  then obtain f where "at_first (sort_key control_order (filter (\<lambda>c. cc_revision c = Some r) vs)) = Some f"
    by (cases "sort_key control_order (filter (\<lambda>c. cc_revision c = Some r) vs)") (auto simp: at_first_def)
  then have "\<exists>sn. purpose_snapshot eligible p = Some sn \<and> sn_revision sn = r"
    unfolding purpose_snapshot_def Let_def vs_def [symmetric] mx by simp
  then obtain sn where sn: "purpose_snapshot eligible p = Some sn" "sn_revision sn = r" by blast
  have "sn_conflicting sn \<or> sn_state sn = cc_state c"
    using purpose_snapshot_current [OF sn(1) c(1,2)] c(4) sn(2) by simp
  with sn(1) c(3) show ?thesis by (auto simp: purposeConsentAdmission_def)
qed

text \<open>The snapshots depend on the declarations received, not on the order they are supplied in.\<close>

theorem purposeConsentAt_order_independent:
  assumes "mset xs = mset ys"
  shows "purposeConsentAt xs sequence = purposeConsentAt ys sequence"
proof -
  have "purpose_snapshot (filter P xs) = purpose_snapshot (filter P ys)" for P
    using assms by (intro ext purpose_snapshot_perm) simp
  with all_ok_perm [OF assms] show ?thesis by (simp add: purposeConsentAt_def cong: option.case_cong)
qed

theorem purposeConsentAt_order_independent_witness:
  "purposeConsentAt [\<lparr>cc_purpose = Some ''analytics'', cc_state = Granted, cc_revision = Some 1, cc_sequence = 3, cc_at = ''x''\<rparr>,
     \<lparr>cc_purpose = None, cc_state = Denied, cc_revision = None, cc_sequence = 4, cc_at = ''y''\<rparr>] (Some 5)
   = purposeConsentAt [\<lparr>cc_purpose = None, cc_state = Denied, cc_revision = None, cc_sequence = 4, cc_at = ''y''\<rparr>,
     \<lparr>cc_purpose = Some ''analytics'', cc_state = Granted, cc_revision = Some 1, cc_sequence = 3, cc_at = ''x''\<rparr>] (Some 5)"
  by (rule purposeConsentAt_order_independent) simp

text \<open>A control received after the authoritative sequence changes nothing at that sequence: a later
  grant or withdrawal never rewrites an earlier decision.\<close>

theorem later_control_ignored:
  assumes "validateControl c = Inr ()" and "sequence < cc_sequence c"
  shows "purposeConsentAt (c # controls) (Some sequence) = purposeConsentAt controls (Some sequence)"
  using assms by (simp add: purposeConsentAt_def eligible_control_def)

theorem later_control_ignored_witness:
  "purposeConsentAt [\<lparr>cc_purpose = None, cc_state = Denied, cc_revision = None, cc_sequence = 4,
     cc_at = ''2026-01-10T00:00:00.000Z''\<rparr>] (Some 3) = purposeConsentAt [] (Some 3)"
proof (rule later_control_ignored)
  show "validateControl \<lparr>cc_purpose = None, cc_state = Denied, cc_revision = None, cc_sequence = 4,
     cc_at = ''2026-01-10T00:00:00.000Z''\<rparr> = Inr ()"
    by (simp add: validateControl_def validSequence_def four_digit_instant_def)
qed simp

end
