(* ===== verification/Ingestion.thy ===== *)
theory Ingestion
  imports Candidates Purpose_Consent
begin

text \<open>
  \<open>packages/attribution-core/src/ingestion-decisions.ts\<close>: the consent decision of a delivery,
  the decision for a delivery whose times are invalid, and \<open>decide\<close> with its duplicate
  resolution and its checks in the order of the source. The refund admission it calls is in
  \<open>Refunds\<close>; the scope assertions of the same file are in \<open>Assertions\<close>.
\<close>

section \<open>Consent\<close>

fun findR :: "('a \<Rightarrow> bool res) \<Rightarrow> 'a list \<Rightarrow> 'a option res" where
  "findR p [] = Inr None"
| "findR p (x # xs) = bindR (p x) (\<lambda>b. if b then Inr (Some x) else findR p xs)"

lemma findR_Some: "findR p xs = Inr (Some x) \<Longrightarrow> x \<in> set xs \<and> p x = Inr True"
  by (induction xs) (auto simp: bindR_eq_Inr split: if_splits)

definition isControlEvent :: "event_record \<Rightarrow> bool" where
  "isControlEvent r \<longleftrightarrow> r_event_name r = ''consent_changed'' \<or> r_event_name r = ''privacy_control''"

definition purpose_of :: "attempt \<Rightarrow> processing_purpose option" where
  "purpose_of a = List.find (\<lambda>e. Some (pp_id e) = r_processing_purpose_id (at_record a)) (sv_processing_purposes (at_server a))"

definition withdrawal_of :: "attempt \<Rightarrow> withdrawal option" where
  "withdrawal_of a = List.find (\<lambda>e. Some (wd_purpose_id e) = r_processing_purpose_id (at_record a)) (sv_withdrawals (at_server a))"

definition policy_version_of :: "attempt \<Rightarrow> string" where
  "policy_version_of a = (case purpose_of a of None \<Rightarrow> ''not-applicable'' | Some p \<Rightarrow> pp_policy_version p)"

definition withdrawal_at_of :: "attempt \<Rightarrow> string option" where
  "withdrawal_at_of a = (case withdrawal_of a of None \<Rightarrow> None | Some w \<Rightarrow> wd_recognized_at w)"

definition consent_base :: "attempt \<Rightarrow> consent_info" where
  "consent_base a =
     \<lparr> ci_purpose_id = r_processing_purpose_id (at_record a), ci_policy_version = policy_version_of a,
       ci_reason_code = [], ci_withdrawal_recognized_at = withdrawal_at_of a,
       ci_revision = r_consent_revision (at_record a), ci_recognized_revision = None,
       ci_basis_id = None, ci_basis_policy_version = None \<rparr>"

definition needs_consent :: "attempt \<Rightarrow> bool" where
  "needs_consent a \<longleftrightarrow> truthy (r_processing_purpose_id (at_record a))
     \<and> (case purpose_of a of None \<Rightarrow> False | Some p \<Rightarrow> pp_consent_required p) \<and> \<not> isControlEvent (at_record a)"

definition before_withdrawal :: "attempt \<Rightarrow> bool" where
  "before_withdrawal a \<longleftrightarrow> (case withdrawal_of a of None \<Rightarrow> True
     | Some w \<Rightarrow> num_less (r_processing_sequence (at_record a)) (wd_recognized_sequence w))"

text \<open>The branches after the revision block: the withdrawal list and the documented basis.\<close>

definition consent_without_revision :: "attempt \<Rightarrow> consent_info \<Rightarrow> (bool \<times> consent_info) res" where
  "consent_without_revision a base =
     (if before_withdrawal a then Inr (True, base\<lparr>ci_reason_code := ''consent_valid_before_withdrawal''\<rparr>)
      else bindR (findR (\<lambda>e.
               if Some (lb_id e) = r_alternative_legal_basis_id (at_record a)
                  \<and> Some (lb_purpose_id e) = r_processing_purpose_id (at_record a)
               then bindR (time (lb_effective_at e) ''effective_at'') (\<lambda>t.
                    bindR (time (Some (r_received_at (at_record a))) ''received_at'') (\<lambda>u. Inr (t \<le> u)))
               else Inr False) (sv_alternative_legal_bases (at_server a)))
        (\<lambda>basis. case basis of
            Some b \<Rightarrow> Inr (True, base\<lparr>ci_reason_code := ''documented_alternative_legal_basis'',
                                   ci_basis_id := Some (lb_id b), ci_basis_policy_version := Some (lb_policy_version b)\<rparr>)
          | None \<Rightarrow> Inr (False, base\<lparr>ci_reason_code := ''consent_withdrawn''\<rparr>)))"

definition revision_consent :: "attempt \<Rightarrow> bool" where
  "revision_consent a \<longleftrightarrow> sv_purpose_consent_controls (at_server a) \<noteq> None \<or> r_consent_revision (at_record a) \<noteq> None"

definition snapshot_of :: "attempt \<Rightarrow> consent_snapshot option res" where
  "snapshot_of a =
     bindR (purposeConsentAt (the_or [] (sv_purpose_consent_controls (at_server a))) (r_processing_sequence (at_record a)))
       (\<lambda>sns. Inr (List.find (\<lambda>e. Some (sn_purpose e) = r_processing_purpose_id (at_record a)) sns))"

definition withdrawn_at :: "consent_snapshot option \<Rightarrow> string option" where
  "withdrawn_at snapshot = (case snapshot of None \<Rightarrow> None
     | Some sn \<Rightarrow> (case sn_unversioned_withdrawal sn of
          Some (q, t) \<Rightarrow> if sn_sequence sn \<le> q then Some t else Some (sn_at sn)
        | None \<Rightarrow> Some (sn_at sn)))"

definition consentDecision :: "attempt \<Rightarrow> (bool \<times> consent_info) res" where
  "consentDecision a =
     (let base = consent_base a in
      if \<not> needs_consent a then Inr (True, base\<lparr>ci_reason_code := ''consent_not_required''\<rparr>)
      else if revision_consent a then
        bindR (snapshot_of a) (\<lambda>snapshot.
          let admission = purposeConsentAdmission snapshot (r_consent_revision (at_record a));
              base' = (case snapshot of None \<Rightarrow> base
                       | Some sn \<Rightarrow> base\<lparr>ci_recognized_revision := Some (sn_revision sn)\<rparr>)
          in if admission = Revision_Unconfirmed then Inr (False, base'\<lparr>ci_reason_code := ''consent_revision_unconfirmed''\<rparr>)
             else if admission = Withdrawn_Admission
             then Inr (False, base'\<lparr>ci_withdrawal_recognized_at := withdrawn_at snapshot,
                                    ci_reason_code := ''consent_withdrawn''\<rparr>)
             else if before_withdrawal a \<and> (admission = Allowed \<or> admission = Not_Required_Admission)
             then Inr (True, base'\<lparr>ci_reason_code := (if admission = Not_Required_Admission
                                       then ''consent_not_required'' else ''consent_valid_for_revision'')\<rparr>)
             else consent_without_revision a base')
      else consent_without_revision a base)"

section \<open>Decisions without admission\<close>

definition timestampInvalidDecision :: "attempt \<Rightarrow> ingestion_decision res" where
  "timestampInvalidDecision a =
     (let plain = (consent_base a)\<lparr>
            ci_reason_code := (if \<not> needs_consent a then ''consent_not_required''
               else if before_withdrawal a then ''consent_valid_before_withdrawal'' else ''consent_withdrawn''),
            ci_withdrawal_recognized_at := (if truthy (withdrawal_at_of a) then withdrawal_at_of a else None),
            ci_revision := None\<rparr>
      in bindR (if revision_consent a
                then bindR (consentDecision (a\<lparr>at_server := (at_server a)\<lparr>sv_alternative_legal_bases := []\<rparr>\<rparr>))
                       (\<lambda>(ok, c). Inr (Some ok, c))
                else Inr (None, plain))
        (\<lambda>(allowed, consent). Inr
          \<lparr> id_record_id = record_id a, id_canonical_record_id = None, id_delivery_id = r_delivery_id (at_record a),
            id_event_name = Some (event_name a), id_tenant_id = tenant a, id_app_id = app a,
            id_received_at = None, id_ingestion_status = Rejected, id_duplicate_resolution = Unique,
            id_late = False, id_clock_skew_suspected = False, id_payload_disposition = Discarded,
            id_allowed = allowed, id_consent = consent, id_staleness = None,
            id_reason_code = Some ''timestamp_invalid'' \<rparr>))"

record pre_ingestion_item =
  pi_record_id :: string
  pi_delivery_id :: string
  pi_tenant_id :: string
  pi_app_id :: string
  pi_received_at :: string
  pi_reason_code :: string
  pi_processing_purpose_id :: "string option"
  pi_consent_evaluation_policy_version :: string
  pi_consent_decision_reason_code :: string

definition preIngestionDecision :: "pre_ingestion_item \<Rightarrow> ingestion_decision" where
  "preIngestionDecision i =
     \<lparr> id_record_id = pi_record_id i, id_canonical_record_id = None, id_delivery_id = pi_delivery_id i,
       id_event_name = None, id_tenant_id = pi_tenant_id i, id_app_id = pi_app_id i,
       id_received_at = Some (pi_received_at i), id_ingestion_status = Rejected, id_duplicate_resolution = Unique,
       id_late = False, id_clock_skew_suspected = False, id_payload_disposition = Discarded, id_allowed = None,
       id_consent = \<lparr> ci_purpose_id = pi_processing_purpose_id i,
                      ci_policy_version = pi_consent_evaluation_policy_version i,
                      ci_reason_code = pi_consent_decision_reason_code i, ci_withdrawal_recognized_at = None,
                      ci_revision = None, ci_recognized_revision = None, ci_basis_id = None,
                      ci_basis_policy_version = None \<rparr>,
       id_staleness = None, id_reason_code = Some (pi_reason_code i) \<rparr>"

section \<open>Facts about the consent decision\<close>

lemma consent_without_revision_denied:
  "consent_without_revision a base = Inr (False, c) \<Longrightarrow> ci_reason_code c = ''consent_withdrawn''"
  by (auto simp: consent_without_revision_def bindR_eq_Inr split: if_splits option.splits)

lemma consentDecision_denied_reason:
  "consentDecision a = Inr (False, c) \<Longrightarrow>
     ci_reason_code c \<in> {''consent_revision_unconfirmed'', ''consent_withdrawn''}"
  by (auto simp: consentDecision_def Let_def bindR_eq_Inr split: if_splits dest: consent_without_revision_denied)

lemma consentDecision_not_needed: "\<not> needs_consent a \<Longrightarrow> consentDecision a = Inr (True, (consent_base a)\<lparr>ci_reason_code := ''consent_not_required''\<rparr>)"
  by (simp add: consentDecision_def)

lemma consentDecision_stopped:
  assumes "needs_consent a" "revision_consent a" "snapshot_of a = Inr sn"
    and "purposeConsentAdmission sn (r_consent_revision (at_record a)) \<in> {Withdrawn_Admission, Revision_Unconfirmed}"
  shows "\<exists>c. consentDecision a = Inr (False, c)"
  using assms by (auto simp: consentDecision_def Let_def)

lemma consent_without_revision_allowed:
  assumes "consent_without_revision a base = Inr (True, c)" "\<not> before_withdrawal a"
  shows "\<exists>b \<in> set (sv_alternative_legal_bases (at_server a)).
    Some (lb_purpose_id b) = r_processing_purpose_id (at_record a) \<and> ci_basis_id c = Some (lb_id b)"
proof -
  from assms obtain b where "findR (\<lambda>e.
               if Some (lb_id e) = r_alternative_legal_basis_id (at_record a)
                  \<and> Some (lb_purpose_id e) = r_processing_purpose_id (at_record a)
               then bindR (time (lb_effective_at e) ''effective_at'') (\<lambda>t.
                    bindR (time (Some (r_received_at (at_record a))) ''received_at'') (\<lambda>u. Inr (t \<le> u)))
               else Inr False) (sv_alternative_legal_bases (at_server a)) = Inr (Some b)"
    and c: "c = base\<lparr>ci_reason_code := ''documented_alternative_legal_basis'',
                                   ci_basis_id := Some (lb_id b), ci_basis_policy_version := Some (lb_policy_version b)\<rparr>"
    by (auto simp: consent_without_revision_def bindR_eq_Inr split: option.splits)
  from findR_Some [OF this(1)] show ?thesis by (auto simp: c split: if_splits)
qed

end
