(* ===== verification/Refunds.thy ===== *)
theory Refunds
  imports Ingestion
begin

text \<open>
  The refund admission of \<open>packages/attribution-core/src/ingestion-decisions.ts\<close>: the base
  acceptance of a candidate, the canonical purchase of a transaction, the purchase a refund
  resolves to, and \<open>admittedRefunds\<close>, the loop that admits refunds in the canonical order. The
  main fact is the invariant of the loop: the settled refunds admitted for a purchase never
  exceed it.
\<close>

section \<open>Candidates\<close>

definition canonicalPurchaseOriginalTransactionId :: "attempt \<Rightarrow> string option" where
  "canonicalPurchaseOriginalTransactionId a =
     (if event_name a \<noteq> ''purchase'' then None
      else or_else (p_original_transaction_id (payload_of a)) (p_transaction_id (payload_of a)))"

definition no_later :: "string \<Rightarrow> string \<Rightarrow> string \<Rightarrow> bool" where
  "no_later x y field =
     (case bindR (time (Some x) field) (\<lambda>t. bindR (time (Some y) field) (\<lambda>u. Inr (t \<le> u))) of
        Inl _ \<Rightarrow> False | Inr b \<Rightarrow> b)"

definition receivedNoLaterThan :: "attempt \<Rightarrow> attempt \<Rightarrow> bool" where
  "receivedNoLaterThan c r = no_later (r_received_at (at_record c)) (r_received_at (at_record r)) ''received_at''"

definition occurredNoLaterThan :: "attempt \<Rightarrow> attempt \<Rightarrow> bool" where
  "occurredNoLaterThan c r = no_later (r_occurred_at (at_record c)) (r_occurred_at (at_record r)) ''occurred_at''"

definition scope_matches :: "attempt \<Rightarrow> bool" where
  "scope_matches a \<longleftrightarrow> r_tenant_id (at_record a) = tenant a \<and> r_app_id (at_record a) = app a"

definition is_stale :: "attempt \<Rightarrow> bool res" where
  "is_stale a =
     (case sv_timestamp_stale_policy (at_server a) of None \<Rightarrow> Inr False
      | Some p \<Rightarrow> bindR (time (Some (r_occurred_at (at_record a))) ''occurred_at'') (\<lambda>t.
                   bindR (time (Some (sp_before p)) ''timestamp_stale_policy.before'') (\<lambda>u. Inr (t < u))))"

definition aggregate_join :: "attempt \<Rightarrow> bool" where
  "aggregate_join a \<longleftrightarrow> r_subject_scope (at_record a) = Some ''aggregate'' \<and> truthy (installation a)"

text \<open>Any error of the checks makes the candidate ineligible.\<close>

definition isBaseAcceptedCandidate :: "attempt \<Rightarrow> attempt list \<Rightarrow> bool" where
  "isBaseAcceptedCandidate a candidates =
     (case at_history a of
        Some h \<Rightarrow> hs_semantic_available h
      | None \<Rightarrow>
          (case (bindR (time (Some (r_received_at (at_record a))) ''received_at'') (\<lambda>_.
                 bindR (time (Some (r_occurred_at (at_record a))) ''occurred_at'') (\<lambda>_.
                   if \<not> scope_matches a then Inr False
                   else if length (filter (\<lambda>c. record_id c = record_id a) candidates) \<noteq> 1 then Inr False
                   else if List.find (\<lambda>c. scopeKey c = scopeKey a) candidates \<noteq> Some a then Inr False
                   else bindR (consentDecision a) (\<lambda>(allowed, _).
                     if \<not> allowed then Inr False
                     else bindR (is_stale a) (\<lambda>stale.
                       if stale then Inr False else if aggregate_join a then Inr False else Inr True))))) of
             Inl _ \<Rightarrow> False | Inr b \<Rightarrow> b))"

definition isAnchoredCommerce :: "attempt \<Rightarrow> bool" where
  "isAnchoredCommerce a \<longleftrightarrow> event_name a \<in> {''purchase'', ''refund''} \<and> installation a \<noteq> None"

definition isLegacyExplicitRefund :: "attempt \<Rightarrow> bool" where
  "isLegacyExplicitRefund a \<longleftrightarrow> event_name a = ''refund'' \<and> installation a = None
     \<and> p_correction_target_record_id (payload_of a) \<noteq> None"

definition same_scope :: "attempt \<Rightarrow> attempt \<Rightarrow> bool" where
  "same_scope a b \<longleftrightarrow> tenant a = tenant b \<and> app a = app b"

definition legacyRefundTarget :: "attempt \<Rightarrow> attempt list \<Rightarrow> attempt option" where
  "legacyRefundTarget r candidates =
     (if \<not> isLegacyExplicitRefund r then None
      else List.find (\<lambda>c. same_scope c r
             \<and> Some (record_id c) = p_correction_target_record_id (payload_of r)) candidates)"

definition canonicalPurchaseBusinessAttempts :: "attempt \<Rightarrow> attempt list \<Rightarrow> attempt list" where
  "canonicalPurchaseBusinessAttempts a candidates =
     (if event_name a \<noteq> ''purchase'' \<or> \<not> isAnchoredCommerce a \<or> p_transaction_id (payload_of a) = None then [a]
      else filter (\<lambda>c. event_name c = ''purchase'' \<and> isAnchoredCommerce c \<and> same_scope c a \<and> scope_matches c
             \<and> p_transaction_id (payload_of c) = p_transaction_id (payload_of a)
             \<and> isBaseAcceptedCandidate c candidates) candidates)"

definition canonicalPurchaseBusinessAttempt :: "attempt \<Rightarrow> attempt list \<Rightarrow> attempt option" where
  "canonicalPurchaseBusinessAttempt a candidates = at_first (canonicalPurchaseBusinessAttempts a candidates)"

section \<open>The purchase a refund resolves to\<close>

definition refund_matches :: "attempt \<Rightarrow> attempt list \<Rightarrow> attempt \<Rightarrow> bool" where
  "refund_matches r candidates c \<longleftrightarrow>
     event_name c = ''purchase'' \<and> p_financial_status (payload_of c) = Some ''settled''
     \<and> same_scope c r \<and> scope_matches c
     \<and> record_id c \<notin> set (sv_refund_target_ineligible_record_ids (at_server r))
     \<and> receivedNoLaterThan c r \<and> occurredNoLaterThan c r
     \<and> installation c = installation r
     \<and> canonicalPurchaseOriginalTransactionId c = p_original_transaction_id (payload_of r)
     \<and> p_currency (payload_of c) = p_currency (payload_of r)
     \<and> isBaseAcceptedCandidate c candidates
     \<and> canonicalPurchaseBusinessAttempt c candidates = Some c"

definition strictRefundTargetCandidates :: "attempt \<Rightarrow> attempt list \<Rightarrow> attempt list" where
  "strictRefundTargetCandidates r candidates =
     (if event_name r \<noteq> ''refund'' \<or> installation r = None then [] else filter (refund_matches r candidates) candidates)"

definition resolveRefundTargetIdentity :: "attempt \<Rightarrow> attempt list \<Rightarrow> attempt option" where
  "resolveRefundTargetIdentity r candidates =
     (case strictRefundTargetCandidates r candidates of
        [m] \<Rightarrow> (case p_correction_target_record_id (payload_of r) of
                  Some t \<Rightarrow> if record_id m \<noteq> t then None else Some m
                | None \<Rightarrow> Some m)
      | _ \<Rightarrow> None)"

text \<open>Every caller passes a scale at least that of the payload, so the exponent is a natural number.\<close>

definition exactMoneyAtScale :: "payload \<Rightarrow> nat \<Rightarrow> int" where
  "exactMoneyAtScale p scale = p_amount_unscaled p * 10 ^ (scale - p_amount_scale p)"

definition refundBusinessKey :: "attempt \<Rightarrow> string" where
  "refundBusinessKey r = compositeKey [Some (tenant r), Some (app r), Some (event_name r), p_transaction_id (payload_of r)]"

section \<open>Admission in the canonical order\<close>

record refund_state =
  rs_targets :: "(string, attempt) jsmap"
  rs_winners :: "(string, attempt) jsmap"
  rs_settled :: "(string, attempt list) jsmap"

definition reversal_valid :: "digests \<Rightarrow> refund_state \<Rightarrow> attempt \<Rightarrow> attempt \<Rightarrow> string \<Rightarrow> bool" where
  "reversal_valid D st c target rid =
     (case List.find (\<lambda>r. record_id r = rid \<and> same_scope r c) (map_values (rs_winners st)) of
        None \<Rightarrow> False
      | Some prior \<Rightarrow>
          p_financial_status (payload_of c) = Some ''reversed''
          \<and> p_financial_status (payload_of prior) = Some ''settled''
          \<and> map_get (rs_targets st) (attemptDecisionKey D prior) = Some target
          \<and> receivedNoLaterThan prior c \<and> occurredNoLaterThan prior c
          \<and> (let scale = max (p_amount_scale (payload_of prior)) (p_amount_scale (payload_of c))
             in exactMoneyAtScale (payload_of prior) scale = exactMoneyAtScale (payload_of c) scale))"

definition refund_scale :: "attempt \<Rightarrow> attempt \<Rightarrow> attempt list \<Rightarrow> nat" where
  "refund_scale target c prior =
     foldl (\<lambda>m r. max m (p_amount_scale (payload_of r)))
       (max (p_amount_scale (payload_of target)) (p_amount_scale (payload_of c))) prior"

definition refund_exceeds :: "attempt \<Rightarrow> attempt \<Rightarrow> attempt list \<Rightarrow> bool" where
  "refund_exceeds target c prior =
     (let scale = refund_scale target c prior;
          refunded = foldl (\<lambda>sum r. sum + exactMoneyAtScale (payload_of r) scale) 0 prior
      in exactMoneyAtScale (payload_of target) scale < refunded + exactMoneyAtScale (payload_of c) scale)"

definition admit :: "digests \<Rightarrow> refund_state \<Rightarrow> attempt \<Rightarrow> attempt \<Rightarrow> refund_state" where
  "admit D st c target =
     st\<lparr> rs_winners := map_set (refundBusinessKey c) c (rs_winners st),
         rs_targets := map_set (attemptDecisionKey D c) target (rs_targets st) \<rparr>"

definition refund_step :: "digests \<Rightarrow> attempt list \<Rightarrow> refund_state \<Rightarrow> attempt \<Rightarrow> refund_state" where
  "refund_step D candidates st c =
     (if map_has (rs_winners st) (refundBusinessKey c) then st
      else case resolveRefundTargetIdentity c candidates of
        None \<Rightarrow> st
      | Some target \<Rightarrow>
          if (case p_reverses_refund_record_id (payload_of c) of None \<Rightarrow> False
              | Some rid \<Rightarrow> \<not> reversal_valid D st c target rid) then st
          else if p_financial_status (payload_of c) = Some ''settled'' then
            (let targetKey = attemptDecisionKey D target;
                 prior = the_or [] (map_get (rs_settled st) targetKey)
             in if refund_exceeds target c prior then st
                else admit D (st\<lparr>rs_settled := map_set targetKey (prior @ [c]) (rs_settled st)\<rparr>) c target)
          else admit D st c target)"

definition refund_candidates :: "digests \<Rightarrow> attempt list \<Rightarrow> attempt list" where
  "refund_candidates D candidates =
     sortCandidateAttempts D (filter (\<lambda>c. event_name c = ''refund'' \<and> isAnchoredCommerce c
        \<and> p_transaction_id (payload_of c) \<noteq> None \<and> isBaseAcceptedCandidate c candidates) candidates)"

definition admittedRefunds :: "digests \<Rightarrow> attempt list \<Rightarrow> refund_state" where
  "admittedRefunds D candidates =
     foldl (refund_step D candidates) \<lparr> rs_targets = [], rs_winners = [], rs_settled = [] \<rparr>
       (refund_candidates D candidates)"

definition resolveRefundTarget :: "digests \<Rightarrow> attempt \<Rightarrow> attempt list \<Rightarrow> attempt option" where
  "resolveRefundTarget D r candidates =
     (if \<not> isAnchoredCommerce r then None
      else map_get (rs_targets (admittedRefunds D candidates)) (attemptDecisionKey D r))"

section \<open>Exact amounts\<close>

definition money :: "payload \<Rightarrow> rat" where
  "money p = of_int (p_amount_unscaled p) / 10 ^ p_amount_scale p"

lemma exactMoneyAtScale_money:
  assumes "p_amount_scale p \<le> scale"
  shows "of_int (exactMoneyAtScale p scale) = money p * 10 ^ scale"
proof -
  have "(10::rat) ^ scale = 10 ^ (scale - p_amount_scale p) * 10 ^ p_amount_scale p"
    using assms by (simp flip: power_add)
  then show ?thesis by (simp add: exactMoneyAtScale_def money_def)
qed

lemma exactMoney_eq:
  assumes "p_amount_scale p \<le> scale" "p_amount_scale q \<le> scale"
  shows "exactMoneyAtScale p scale = exactMoneyAtScale q scale \<longleftrightarrow> money p = money q"
proof -
  have "exactMoneyAtScale p scale = exactMoneyAtScale q scale
      \<longleftrightarrow> (of_int (exactMoneyAtScale p scale) :: rat) = of_int (exactMoneyAtScale q scale)" by simp
  also have "\<dots> \<longleftrightarrow> money p = money q" using assms by (simp add: exactMoneyAtScale_money)
  finally show ?thesis .
qed

lemma refund_scale_ge:
  "p_amount_scale (payload_of target) \<le> refund_scale target c prior"
  "p_amount_scale (payload_of c) \<le> refund_scale target c prior"
  "r \<in> set prior \<Longrightarrow> p_amount_scale (payload_of r) \<le> refund_scale target c prior"
proof -
  have ge: "m \<le> foldl (\<lambda>m r. max m (p_amount_scale (payload_of r))) m rs" for m rs
  proof (induction rs arbitrary: m)
    case (Cons a rs)
    from Cons [of "max m (p_amount_scale (payload_of a))"] show ?case by simp
  qed simp
  have mem: "r \<in> set rs \<Longrightarrow> p_amount_scale (payload_of r) \<le> foldl (\<lambda>m r. max m (p_amount_scale (payload_of r))) m rs" for m rs
  proof (induction rs arbitrary: m)
    case (Cons a rs)
    show ?case
    proof (cases "r = a")
      case True
      have "max m (p_amount_scale (payload_of a)) \<le> foldl (\<lambda>m r. max m (p_amount_scale (payload_of r))) (max m (p_amount_scale (payload_of a))) rs"
        by (rule ge)
      with True show ?thesis by simp
    qed (use Cons in simp)
  qed simp
  show "p_amount_scale (payload_of target) \<le> refund_scale target c prior"
    "p_amount_scale (payload_of c) \<le> refund_scale target c prior"
    unfolding refund_scale_def by (rule order_trans [OF _ ge], simp)+
  show "r \<in> set prior \<Longrightarrow> p_amount_scale (payload_of r) \<le> refund_scale target c prior"
    unfolding refund_scale_def by (rule mem)
qed

text \<open>The scaled comparison is the comparison of the exact amounts.\<close>

lemma refund_exceeds_money:
  "refund_exceeds target c prior \<longleftrightarrow>
     money (payload_of target) < sum_list (map (\<lambda>r. money (payload_of r)) (prior @ [c]))"
proof -
  define s where "s = refund_scale target c prior"
  have sum: "of_int (foldl (\<lambda>sum r. sum + exactMoneyAtScale (payload_of r) s) k rs)
      = of_int k + sum_list (map (\<lambda>r. money (payload_of r)) rs) * 10 ^ s"
    if "\<forall>r \<in> set rs. p_amount_scale (payload_of r) \<le> s" for k rs
    using that by (induction rs arbitrary: k) (simp_all add: exactMoneyAtScale_money algebra_simps)
  have "refund_exceeds target c prior \<longleftrightarrow>
      (of_int (exactMoneyAtScale (payload_of target) s) :: rat)
        < of_int (foldl (\<lambda>sum r. sum + exactMoneyAtScale (payload_of r) s) 0 prior + exactMoneyAtScale (payload_of c) s)"
    by (simp only: refund_exceeds_def Let_def s_def [symmetric] of_int_less_iff)
  also have "\<dots> \<longleftrightarrow> money (payload_of target) * 10 ^ s
      < sum_list (map (\<lambda>r. money (payload_of r)) (prior @ [c])) * 10 ^ s"
    using refund_scale_ge [where target=target and c=c and prior=prior]
    by (simp add: sum exactMoneyAtScale_money s_def [symmetric] algebra_simps)
  also have "\<dots> \<longleftrightarrow> money (payload_of target) < sum_list (map (\<lambda>r. money (payload_of r)) (prior @ [c]))"
    by simp
  finally show ?thesis .
qed

section \<open>The loop invariant\<close>

lemma map_values_set_new: "\<not> map_has m k \<Longrightarrow> map_values (map_set k v m) = map_values m @ [v]"
  unfolding map_values_def map_set_def map_has_def by (induction m) auto

abbreviation is_settled :: "attempt \<Rightarrow> bool" where
  "is_settled r \<equiv> p_financial_status (payload_of r) = Some ''settled''"

definition settled_for :: "digests \<Rightarrow> refund_state \<Rightarrow> attempt \<Rightarrow> attempt list" where
  "settled_for D st t =
     filter (\<lambda>r. is_settled r \<and> map_get (rs_targets st) (attemptDecisionKey D r) = Some t) (map_values (rs_winners st))"

definition reversal_ok :: "digests \<Rightarrow> refund_state \<Rightarrow> attempt \<Rightarrow> attempt \<Rightarrow> bool" where
  "reversal_ok D st c t \<longleftrightarrow> (\<forall>rid. p_reverses_refund_record_id (payload_of c) = Some rid \<longrightarrow>
     (\<exists>prior \<in> set (map_values (rs_winners st)). record_id prior = rid \<and> same_scope prior c \<and> is_settled prior
        \<and> p_financial_status (payload_of c) = Some ''reversed'' \<and> money (payload_of prior) = money (payload_of c)
        \<and> map_get (rs_targets st) (attemptDecisionKey D prior) = Some t))"

definition refund_inv :: "digests \<Rightarrow> attempt list \<Rightarrow> attempt list \<Rightarrow> refund_state \<Rightarrow> bool" where
  "refund_inv D candidates done st \<longleftrightarrow>
     set (map_values (rs_winners st)) \<subseteq> set done \<and> distinct (map_values (rs_winners st))
     \<and> (\<forall>k. map_has (rs_targets st) k \<longleftrightarrow> k \<in> attemptDecisionKey D ` set (map_values (rs_winners st)))
     \<and> (\<forall>w \<in> set (map_values (rs_winners st)). \<exists>t. map_get (rs_targets st) (attemptDecisionKey D w) = Some t
            \<and> resolveRefundTargetIdentity w candidates = Some t \<and> reversal_ok D st w t)
     \<and> (\<forall>t \<in> set candidates. the_or [] (map_get (rs_settled st) (attemptDecisionKey D t)) = settled_for D st t
            \<and> sum_list (map (\<lambda>r. money (payload_of r)) (settled_for D st t)) \<le> max 0 (money (payload_of t)))"

lemma resolveRefundTargetIdentity_Some:
  assumes "resolveRefundTargetIdentity r candidates = Some t"
  shows "t \<in> set candidates" "refund_matches r candidates t" "event_name r = ''refund''" "installation r \<noteq> None"
    "p_correction_target_record_id (payload_of r) = Some x \<Longrightarrow> record_id t = x"
proof -
  from assms have "t \<in> set (strictRefundTargetCandidates r candidates)"
    by (auto simp: resolveRefundTargetIdentity_def split: list.splits option.splits if_splits)
  then show "t \<in> set candidates" "refund_matches r candidates t" "event_name r = ''refund''" "installation r \<noteq> None"
    by (auto simp: strictRefundTargetCandidates_def split: if_splits)
  show "p_correction_target_record_id (payload_of r) = Some x \<Longrightarrow> record_id t = x"
    using assms by (auto simp: resolveRefundTargetIdentity_def split: list.splits option.splits if_splits)
qed

text \<open>What admitting a new refund does to the state.\<close>

lemma admit_winners:
  "\<not> map_has (rs_winners st) (refundBusinessKey c) \<Longrightarrow>
     map_values (rs_winners (admit D st c t)) = map_values (rs_winners st) @ [c]"
  by (simp add: admit_def map_values_set_new)

lemma admit_targets:
  "map_get (rs_targets (admit D st c t)) k = (if k = attemptDecisionKey D c then Some t else map_get (rs_targets st) k)"
  by (simp add: admit_def)

lemma settled_for_admit:
  assumes "\<not> map_has (rs_winners st) (refundBusinessKey c)"
    and "\<forall>w \<in> set (map_values (rs_winners st)). attemptDecisionKey D w \<noteq> attemptDecisionKey D c"
  shows "settled_for D (admit D st c u) t = settled_for D st t @ (if is_settled c \<and> u = t then [c] else [])"
proof -
  have "filter (\<lambda>r. is_settled r \<and> map_get (rs_targets (admit D st c u)) (attemptDecisionKey D r) = Some t) (map_values (rs_winners st))
      = settled_for D st t"
    unfolding settled_for_def using assms(2) by (intro filter_cong) (auto simp: admit_targets)
  then show ?thesis unfolding settled_for_def admit_winners [OF assms(1)] by (simp add: admit_targets)
qed

lemma reversal_ok_admit:
  assumes "reversal_ok D st w t" "\<not> map_has (rs_winners st) (refundBusinessKey c)"
    and "\<forall>w \<in> set (map_values (rs_winners st)). attemptDecisionKey D w \<noteq> attemptDecisionKey D c"
  shows "reversal_ok D (admit D st c u) w t"
  unfolding reversal_ok_def
proof (intro allI impI)
  fix rid assume "p_reverses_refund_record_id (payload_of w) = Some rid"
  with assms(1) obtain prior where p: "prior \<in> set (map_values (rs_winners st))" and
    q: "record_id prior = rid" "same_scope prior w" "is_settled prior"
      "p_financial_status (payload_of w) = Some ''reversed''" "money (payload_of prior) = money (payload_of w)"
      "map_get (rs_targets st) (attemptDecisionKey D prior) = Some t"
    unfolding reversal_ok_def by blast
  from p assms(3) have "attemptDecisionKey D prior \<noteq> attemptDecisionKey D c" by blast
  with p q show "\<exists>prior \<in> set (map_values (rs_winners (admit D st c u))). record_id prior = rid \<and> same_scope prior w
      \<and> is_settled prior \<and> p_financial_status (payload_of w) = Some ''reversed''
      \<and> money (payload_of prior) = money (payload_of w)
      \<and> map_get (rs_targets (admit D st c u)) (attemptDecisionKey D prior) = Some t"
    by (intro bexI [of _ prior]) (simp_all add: admit_winners [OF assms(2)] admit_targets)
qed

lemma reversal_valid_ok:
  assumes "case p_reverses_refund_record_id (payload_of c) of None \<Rightarrow> True | Some rid \<Rightarrow> reversal_valid D st c t rid"
  shows "reversal_ok D st c t"
  using assms
  by (auto simp: reversal_ok_def reversal_valid_def Let_def exactMoney_eq split: option.splits
      dest!: find_Some_iff2)

lemma refund_inv_admit:
  assumes inv: "refund_inv D candidates done st" and dist: "distinct (map (attemptDecisionKey D) candidates)"
    and new: "\<not> map_has (rs_winners st) (refundBusinessKey c)"
    and key: "attemptDecisionKey D c \<notin> attemptDecisionKey D ` set done"
    and t: "resolveRefundTargetIdentity c candidates = Some t" and rev: "reversal_ok D st c t"
    and settled: "rs_settled st' = (if is_settled c then map_set (attemptDecisionKey D t) (settled_for D st t @ [c]) (rs_settled st)
                   else rs_settled st)" "rs_winners st' = rs_winners st" "rs_targets st' = rs_targets st"
    and bound: "is_settled c \<Longrightarrow> sum_list (map (\<lambda>r. money (payload_of r)) (settled_for D st t @ [c])) \<le> money (payload_of t)"
  shows "refund_inv D candidates (done @ [c]) (admit D st' c t)"
proof -
  have new': "\<not> map_has (rs_winners st') (refundBusinessKey c)" using new settled by simp
  have same: "settled_for D st' = settled_for D st" "reversal_ok D st' = reversal_ok D st"
    by (simp_all add: settled_for_def reversal_ok_def settled fun_eq_iff)
  have kw: "\<forall>w \<in> set (map_values (rs_winners st')). attemptDecisionKey D w \<noteq> attemptDecisionKey D c"
  proof
    fix w assume "w \<in> set (map_values (rs_winners st'))"
    with inv have "w \<in> set done" by (auto simp: refund_inv_def settled)
    with key show "attemptDecisionKey D w \<noteq> attemptDecisionKey D c" by (metis imageI)
  qed
  have W: "map_values (rs_winners (admit D st' c t)) = map_values (rs_winners st) @ [c]"
    using admit_winners [OF new'] settled by simp
  have S: "settled_for D (admit D st' c t) u = settled_for D st u @ (if is_settled c \<and> t = u then [c] else [])" for u
    using settled_for_admit [OF new' kw] same by simp
  have tc: "t \<in> set candidates" using resolveRefundTargetIdentity_Some(1) [OF t] .
  have inj: "inj_on (attemptDecisionKey D) (set candidates)" using dist by (simp add: distinct_map)
  have R: "reversal_ok D (admit D st' c t) w u" if "reversal_ok D st w u" for w u
    using reversal_ok_admit [OF _ new' kw] that same by simp
  show ?thesis
    unfolding refund_inv_def
  proof (intro conjI ballI allI)
    show "set (map_values (rs_winners (admit D st' c t))) \<subseteq> set (done @ [c])"
      using inv by (auto simp: W refund_inv_def)
    show "distinct (map_values (rs_winners (admit D st' c t)))"
      using inv kw by (auto simp: W refund_inv_def settled)
    show "map_has (rs_targets (admit D st' c t)) k
        \<longleftrightarrow> k \<in> attemptDecisionKey D ` set (map_values (rs_winners (admit D st' c t)))" for k
      using inv by (auto simp: W refund_inv_def map_has_iff admit_targets settled)
    show "\<exists>u. map_get (rs_targets (admit D st' c t)) (attemptDecisionKey D w) = Some u
        \<and> resolveRefundTargetIdentity w candidates = Some u \<and> reversal_ok D (admit D st' c t) w u"
      if "w \<in> set (map_values (rs_winners (admit D st' c t)))" for w
    proof (cases "w = c")
      case True
      then show ?thesis using t R [OF rev] by (simp add: admit_targets)
    next
      case False
      then have "w \<in> set (map_values (rs_winners st))" using that by (simp add: W)
      moreover from this kw have "attemptDecisionKey D w \<noteq> attemptDecisionKey D c" by (auto simp: settled)
      ultimately show ?thesis using inv R by (fastforce simp: refund_inv_def admit_targets settled)
    qed
    fix u assume u: "u \<in> set candidates"
    have old: "the_or [] (map_get (rs_settled st) (attemptDecisionKey D u)) = settled_for D st u"
      "sum_list (map (\<lambda>r. money (payload_of r)) (settled_for D st u)) \<le> max 0 (money (payload_of u))"
      using inv u by (auto simp: refund_inv_def)
    have eq: "attemptDecisionKey D u = attemptDecisionKey D t \<longleftrightarrow> u = t"
      using inj u tc by (auto simp: inj_on_def)
    show "the_or [] (map_get (rs_settled (admit D st' c t)) (attemptDecisionKey D u)) = settled_for D (admit D st' c t) u"
      unfolding S using old(1) eq by (auto simp: admit_def settled)
    show "sum_list (map (\<lambda>r. money (payload_of r)) (settled_for D (admit D st' c t) u)) \<le> max 0 (money (payload_of u))"
      unfolding S using old(2) bound by auto
  qed
qed

lemma refund_inv_mono: "refund_inv D candidates done st \<Longrightarrow> refund_inv D candidates (done @ [c]) st"
  by (auto simp: refund_inv_def)

lemma refund_step_inv:
  assumes inv: "refund_inv D candidates done st" and dist: "distinct (map (attemptDecisionKey D) candidates)"
    and key: "attemptDecisionKey D c \<notin> attemptDecisionKey D ` set done"
  shows "refund_inv D candidates (done @ [c]) (refund_step D candidates st c)"
proof (cases "map_has (rs_winners st) (refundBusinessKey c)")
  case True
  then show ?thesis using refund_inv_mono [OF inv] by (simp add: refund_step_def)
next
  case new: False
  show ?thesis
  proof (cases "resolveRefundTargetIdentity c candidates")
    case None
    with new show ?thesis using refund_inv_mono [OF inv] by (simp add: refund_step_def)
  next
    case (Some t)
    have tc: "t \<in> set candidates" by (rule resolveRefundTargetIdentity_Some(1) [OF Some])
    have prior: "the_or [] (map_get (rs_settled st) (attemptDecisionKey D t)) = settled_for D st t"
      using inv tc by (simp add: refund_inv_def)
    show ?thesis
    proof (cases "case p_reverses_refund_record_id (payload_of c) of None \<Rightarrow> True | Some rid \<Rightarrow> reversal_valid D st c t rid")
      case False
      with new Some show ?thesis using refund_inv_mono [OF inv]
        by (auto simp: refund_step_def split: option.splits)
    next
      case True
      have rev: "reversal_ok D st c t" by (rule reversal_valid_ok [OF True])
      from True have notbad: "\<not> (case p_reverses_refund_record_id (payload_of c) of None \<Rightarrow> False | Some rid \<Rightarrow> \<not> reversal_valid D st c t rid)"
        by (auto split: option.splits)
      note adm = refund_inv_admit [OF inv dist new key Some rev]
      consider "is_settled c" "refund_exceeds t c (settled_for D st t)"
        | "is_settled c" "\<not> refund_exceeds t c (settled_for D st t)" | "\<not> is_settled c" by blast
      then show ?thesis
      proof cases
        case 1
        then have "refund_step D candidates st c = st" using new Some notbad by (simp add: refund_step_def Let_def prior)
        then show ?thesis using refund_inv_mono [OF inv] by simp
      next
        case 2
        define st' where "st' = st\<lparr>rs_settled := map_set (attemptDecisionKey D t) (settled_for D st t @ [c]) (rs_settled st)\<rparr>"
        have "refund_step D candidates st c = admit D st' c t"
          using 2 new Some notbad by (simp add: refund_step_def Let_def prior st'_def)
        moreover have "refund_inv D candidates (done @ [c]) (admit D st' c t)"
          using 2 by (intro adm) (simp_all add: st'_def refund_exceeds_money)
        ultimately show ?thesis by simp
      next
        case 3
        then have "refund_step D candidates st c = admit D st c t" using new Some notbad by (simp add: refund_step_def)
        moreover have "refund_inv D candidates (done @ [c]) (admit D st c t)" using 3 by (intro adm) simp_all
        ultimately show ?thesis by simp
      qed
    qed
  qed
qed

lemma admittedRefunds_inv:
  assumes dist: "distinct (map (attemptDecisionKey D) candidates)"
  shows "refund_inv D candidates (refund_candidates D candidates) (admittedRefunds D candidates)"
proof -
  define cs where "cs = refund_candidates D candidates"
  have "distinct candidates" "inj_on (attemptDecisionKey D) (set candidates)" using dist by (auto simp: distinct_map)
  then have "distinct cs" "set cs \<subseteq> set candidates"
    by (auto simp: cs_def refund_candidates_def sortCandidateAttempts_def)
  then have d: "distinct (map (attemptDecisionKey D) cs)"
    using \<open>inj_on (attemptDecisionKey D) (set candidates)\<close> by (auto simp: distinct_map intro: inj_on_subset)
  have step: "distinct (map (attemptDecisionKey D) (pre @ xs)) \<Longrightarrow> refund_inv D candidates pre st \<Longrightarrow>
      refund_inv D candidates (pre @ xs) (foldl (refund_step D candidates) st xs)" for pre xs st
  proof (induction xs arbitrary: pre st)
    case (Cons x xs)
    have "attemptDecisionKey D x \<notin> attemptDecisionKey D ` set pre" using Cons.prems(1) by auto
    from refund_step_inv [OF Cons.prems(2) dist this]
    show ?case using Cons.IH [of "pre @ [x]"] Cons.prems(1) by simp
  qed simp
  have "refund_inv D candidates [] \<lparr> rs_targets = [], rs_winners = [], rs_settled = [] \<rparr>"
    by (simp add: refund_inv_def map_values_def map_has_def settled_for_def)
  from step [of "[]" cs, OF _ this] d show ?thesis by (simp add: cs_def admittedRefunds_def)
qed

section \<open>What admission guarantees\<close>

text \<open>The winners are kept under their own business keys, one each.\<close>

definition winners_keyed :: "refund_state \<Rightarrow> bool" where
  "winners_keyed st \<longleftrightarrow> distinct (map fst (rs_winners st)) \<and> (\<forall>(k, v) \<in> set (rs_winners st). k = refundBusinessKey v)"

lemma map_set_entries: "set (map_set k v m) \<subseteq> insert (k, v) (set m)"
  unfolding map_set_def by (induction m) auto

lemma refund_step_keyed: "winners_keyed st \<Longrightarrow> winners_keyed (refund_step D candidates st c)"
proof -
  have adm: "winners_keyed st \<Longrightarrow> winners_keyed (admit D st c t)" for st t
    using map_set_entries [of "refundBusinessKey c" c "rs_winners st"] map_set_distinct
    by (fastforce simp: winners_keyed_def admit_def)
  have set: "winners_keyed (st\<lparr>rs_settled := s\<rparr>) = winners_keyed st" for st s by (simp add: winners_keyed_def)
  show "winners_keyed st \<Longrightarrow> winners_keyed (refund_step D candidates st c)"
    by (auto simp: refund_step_def Let_def set intro!: adm split: option.splits)
qed

lemma admittedRefunds_keyed: "winners_keyed (admittedRefunds D candidates)"
proof -
  have "winners_keyed st \<Longrightarrow> winners_keyed (foldl (refund_step D candidates) st xs)" for st xs
    by (induction xs arbitrary: st) (simp_all add: refund_step_keyed)
  moreover have "winners_keyed \<lparr> rs_targets = [], rs_winners = [], rs_settled = [] \<rparr>" by (simp add: winners_keyed_def)
  ultimately show ?thesis unfolding admittedRefunds_def .
qed

lemma winners_unique:
  assumes "a \<in> set (map_values (rs_winners (admittedRefunds D candidates)))"
    and "b \<in> set (map_values (rs_winners (admittedRefunds D candidates)))"
    and "refundBusinessKey a = refundBusinessKey b"
  shows "a = b"
proof -
  let ?w = "rs_winners (admittedRefunds D candidates)"
  have k: "winners_keyed (admittedRefunds D candidates)" by (rule admittedRefunds_keyed)
  from assms(1,2) obtain ka kb where m: "(ka, a) \<in> set ?w" "(kb, b) \<in> set ?w" by (auto simp: map_values_def)
  with k have "ka = refundBusinessKey a" "kb = refundBusinessKey b" by (auto simp: winners_keyed_def)
  with m k assms(3) show ?thesis unfolding winners_keyed_def by (metis eq_key_imp_eq_value)
qed

lemma resolveRefundTarget_winner:
  assumes dist: "distinct (map (attemptDecisionKey D) candidates)" and r: "r \<in> set candidates"
    and t: "resolveRefundTarget D r candidates = Some t"
  shows "r \<in> set (map_values (rs_winners (admittedRefunds D candidates)))"
    "resolveRefundTargetIdentity r candidates = Some t" "reversal_ok D (admittedRefunds D candidates) r t"
proof -
  let ?st = "admittedRefunds D candidates"
  have inv: "refund_inv D candidates (refund_candidates D candidates) ?st" by (rule admittedRefunds_inv [OF dist])
  have get: "map_get (rs_targets ?st) (attemptDecisionKey D r) = Some t"
    using t by (simp add: resolveRefundTarget_def split: if_splits)
  then have "map_has (rs_targets ?st) (attemptDecisionKey D r)" by (simp add: map_has_iff)
  with inv have "attemptDecisionKey D r \<in> attemptDecisionKey D ` set (map_values (rs_winners ?st))"
    by (simp add: refund_inv_def)
  then obtain w where w: "w \<in> set (map_values (rs_winners ?st))" "attemptDecisionKey D r = attemptDecisionKey D w" by auto
  have "w \<in> set candidates" using inv w(1) by (auto simp: refund_inv_def refund_candidates_def)
  with w(2) r dist have "w = r" by (auto simp: distinct_map dest: inj_onD)
  with w show m: "r \<in> set (map_values (rs_winners ?st))" by simp
  with inv obtain u where u: "map_get (rs_targets ?st) (attemptDecisionKey D r) = Some u"
    "resolveRefundTargetIdentity r candidates = Some u" "reversal_ok D ?st r u"
    by (auto simp: refund_inv_def)
  with get show "resolveRefundTargetIdentity r candidates = Some t" "reversal_ok D ?st r t" by simp_all
qed

lemma winners_candidates:
  assumes "distinct (map (attemptDecisionKey D) candidates)"
    and "w \<in> set (map_values (rs_winners (admittedRefunds D candidates)))"
  shows "w \<in> set candidates" "isAnchoredCommerce w" "event_name w = ''refund''" "isBaseAcceptedCandidate w candidates"
  using admittedRefunds_inv [OF assms(1)] assms(2)
  by (auto simp: refund_inv_def refund_candidates_def dest!: subsetD)

lemma resolve_winner:
  assumes dist: "distinct (map (attemptDecisionKey D) candidates)"
    and w: "w \<in> set (map_values (rs_winners (admittedRefunds D candidates)))"
  shows "resolveRefundTarget D w candidates = map_get (rs_targets (admittedRefunds D candidates)) (attemptDecisionKey D w)"
  using winners_candidates [OF dist w] by (simp add: resolveRefundTarget_def)

lemma settled_refunds_of_target:
  assumes dist: "distinct (map (attemptDecisionKey D) candidates)"
  shows "mset (filter (\<lambda>r. is_settled r \<and> resolveRefundTarget D r candidates = Some t) candidates)
    = mset (settled_for D (admittedRefunds D candidates) t)"
proof (rule set_eq_iff_mset_eq_distinct [THEN iffD1])
  have "distinct candidates" using dist by (simp add: distinct_map)
  then show "distinct (filter (\<lambda>r. is_settled r \<and> resolveRefundTarget D r candidates = Some t) candidates)" by simp
  show "distinct (settled_for D (admittedRefunds D candidates) t)"
    using admittedRefunds_inv [OF dist] by (simp add: settled_for_def refund_inv_def)
  show "set (filter (\<lambda>r. is_settled r \<and> resolveRefundTarget D r candidates = Some t) candidates)
      = set (settled_for D (admittedRefunds D candidates) t)"
    unfolding settled_for_def
    using resolveRefundTarget_winner(1) [OF dist] winners_candidates(1) [OF dist] resolve_winner [OF dist]
    by (fastforce simp del: map_get_set)
qed

text \<open>C30. The settled refunds admitted for a purchase never exceed it: their exact amounts sum to at most
  the amount of the purchase, whatever their scales and their order.\<close>

theorem refunds_within_purchase:
  assumes "distinct (map (attemptDecisionKey D) candidates)" and "t \<in> set candidates"
  shows "sum_list (map (\<lambda>r. money (payload_of r))
      (filter (\<lambda>r. is_settled r \<and> resolveRefundTarget D r candidates = Some t) candidates))
    \<le> max 0 (money (payload_of t))"
proof -
  have "mset (map (\<lambda>r. money (payload_of r)) (filter (\<lambda>r. is_settled r \<and> resolveRefundTarget D r candidates = Some t) candidates))
      = mset (map (\<lambda>r. money (payload_of r)) (settled_for D (admittedRefunds D candidates) t))"
    using settled_refunds_of_target [OF assms(1)] by simp
  then have eq: "sum_list (map (\<lambda>r. money (payload_of r)) (filter (\<lambda>r. is_settled r \<and> resolveRefundTarget D r candidates = Some t) candidates))
      = sum_list (map (\<lambda>r. money (payload_of r)) (settled_for D (admittedRefunds D candidates) t))"
    unfolding sum_mset_sum_list [symmetric] by (rule arg_cong)
  have "\<forall>t \<in> set candidates. sum_list (map (\<lambda>r. money (payload_of r)) (settled_for D (admittedRefunds D candidates) t))
      \<le> max 0 (money (payload_of t))"
    using admittedRefunds_inv [OF assms(1)] unfolding refund_inv_def by blast
  with assms(2) show ?thesis unfolding eq by blast
qed

text \<open>An admitted refund resolves to one settled purchase of the same tenant, app, installation,
  currency and transaction, which the refund does not precede and which is base-accepted.\<close>

theorem refund_target_scoped:
  assumes "distinct (map (attemptDecisionKey D) candidates)" and "r \<in> set candidates"
    and "resolveRefundTarget D r candidates = Some t"
  shows "t \<in> set candidates \<and> event_name t = ''purchase'' \<and> is_settled t
    \<and> tenant t = tenant r \<and> app t = app r \<and> installation t = installation r \<and> installation r \<noteq> None
    \<and> p_currency (payload_of t) = p_currency (payload_of r)
    \<and> canonicalPurchaseOriginalTransactionId t = p_original_transaction_id (payload_of r)
    \<and> receivedNoLaterThan t r \<and> occurredNoLaterThan t r \<and> isBaseAcceptedCandidate t candidates
    \<and> record_id t \<notin> set (sv_refund_target_ineligible_record_ids (at_server r))
    \<and> p_correction_target_record_id (payload_of r) \<in> {None, Some (record_id t)}"
  using resolveRefundTargetIdentity_Some [OF resolveRefundTarget_winner(2) [OF assms]]
  by (cases "p_correction_target_record_id (payload_of r)") (auto simp: refund_matches_def same_scope_def)

text \<open>A refund that reverses another is admitted only against an admitted settled refund of the same
  purchase and scope, named by its record id, and for exactly its amount.\<close>

theorem reversal_exact:
  assumes "distinct (map (attemptDecisionKey D) candidates)" and "r \<in> set candidates"
    and "resolveRefundTarget D r candidates = Some t" and "p_reverses_refund_record_id (payload_of r) = Some rid"
  shows "p_financial_status (payload_of r) = Some ''reversed''
    \<and> (\<exists>prior \<in> set candidates. record_id prior = rid \<and> tenant prior = tenant r \<and> app prior = app r \<and> is_settled prior
         \<and> resolveRefundTarget D prior candidates = Some t \<and> money (payload_of prior) = money (payload_of r))"
proof -
  from resolveRefundTarget_winner(3) [OF assms(1-3)] assms(4) obtain prior where
    p: "prior \<in> set (map_values (rs_winners (admittedRefunds D candidates)))" and
    q: "record_id prior = rid" "same_scope prior r" "is_settled prior"
      "p_financial_status (payload_of r) = Some ''reversed''" "money (payload_of prior) = money (payload_of r)"
      "map_get (rs_targets (admittedRefunds D candidates)) (attemptDecisionKey D prior) = Some t"
    unfolding reversal_ok_def by blast
  have "prior \<in> set candidates" "resolveRefundTarget D prior candidates = Some t"
    using winners_candidates(1) [OF assms(1) p] resolve_winner [OF assms(1) p] q(6) by simp_all
  with q show ?thesis by (auto simp: same_scope_def)
qed

section \<open>A concrete ledger\<close>

definition ex_purchase :: attempt where
  "ex_purchase = ledger_attempt ''dp'' (blank_attempt ''t'' ''a'' ''p1'' ''purchase''
     (blank_payload\<lparr>p_installation_id := Some ''i'', p_transaction_id := Some ''tx'',
        p_financial_status := Some ''settled'', p_amount_unscaled := 100, p_amount_scale := 1,
        p_currency := Some ''USD''\<rparr>))"

definition ex_refund :: "string \<Rightarrow> int \<Rightarrow> attempt" where
  "ex_refund rid amount = ledger_attempt rid (blank_attempt ''t'' ''a'' rid ''refund''
     (blank_payload\<lparr>p_installation_id := Some ''i'', p_transaction_id := Some rid,
        p_original_transaction_id := Some ''tx'', p_financial_status := Some ''settled'',
        p_amount_unscaled := amount, p_currency := Some ''USD''\<rparr>))"

definition ex_reversal :: attempt where
  "ex_reversal = ledger_attempt ''r2'' (blank_attempt ''t'' ''a'' ''r2'' ''refund''
     (blank_payload\<lparr>p_installation_id := Some ''i'', p_transaction_id := Some ''r2'',
        p_original_transaction_id := Some ''tx'', p_financial_status := Some ''reversed'',
        p_amount_unscaled := 60, p_amount_scale := 1, p_currency := Some ''USD'',
        p_reverses_refund_record_id := Some ''r1''\<rparr>))"

lemmas refund_eval = admittedRefunds_def refund_candidates_def sortCandidateAttempts_def candidateAttemptSortKey_def
  candidatePayloadDigest_def isBaseAcceptedCandidate_def isAnchoredCommerce_def refund_step_def resolveRefundTargetIdentity_def
  strictRefundTargetCandidates_def refund_matches_def same_scope_def scope_matches_def receivedNoLaterThan_def
  occurredNoLaterThan_def no_later_def canonicalPurchaseOriginalTransactionId_def canonicalPurchaseBusinessAttempt_def
  canonicalPurchaseBusinessAttempts_def at_first_def admit_def reversal_valid_def refund_exceeds_def refund_scale_def
  exactMoneyAtScale_def map_values_def map_has_iff map_set_def map_get_def refundBusinessKey_def attemptDecisionKey_def
  resolveRefundTarget_def Let_def ex_purchase_def ex_refund_def ex_reversal_def blank_defs

lemma ex_reversal_admitted:
  "resolveRefundTarget sample_digests ex_reversal [ex_purchase, ex_refund ''r1'' 6, ex_reversal] = Some ex_purchase"
  by (simp add: refund_eval)

lemma ex_refunds_bounded:
  "filter (\<lambda>r. is_settled r \<and> resolveRefundTarget sample_digests r [ex_purchase, ex_refund ''r1'' 6, ex_refund ''r2'' 6] = Some ex_purchase)
     [ex_purchase, ex_refund ''r1'' 6, ex_refund ''r2'' 6] = [ex_refund ''r1'' 6]"
  by (simp add: refund_eval)

theorem refunds_within_purchase_witness:
  "sum_list (map (\<lambda>r. money (payload_of r)) [ex_refund ''r1'' 6]) \<le> max 0 (money (payload_of ex_purchase))"
  using refunds_within_purchase [of sample_digests "[ex_purchase, ex_refund ''r1'' 6, ex_refund ''r2'' 6]" ex_purchase]
  unfolding ex_refunds_bounded by (simp add: refund_eval)

theorem refund_target_scoped_witness:
  "tenant ex_purchase = tenant ex_reversal \<and> p_currency (payload_of ex_purchase) = p_currency (payload_of ex_reversal)"
  using refund_target_scoped [of sample_digests "[ex_purchase, ex_refund ''r1'' 6, ex_reversal]" ex_reversal ex_purchase]
    ex_reversal_admitted by (simp add: refund_eval)

theorem reversal_exact_witness:
  "p_financial_status (payload_of ex_reversal) = Some ''reversed''"
  using reversal_exact [of sample_digests "[ex_purchase, ex_refund ''r1'' 6, ex_reversal]" ex_reversal ex_purchase "''r1''"]
    ex_reversal_admitted by (simp add: refund_eval)

end
