(* ===== verification/Decide.thy ===== *)
theory Decide
  imports Refunds
begin

text \<open>
  \<open>decide\<close> of \<open>packages/attribution-core/src/ingestion-decisions.ts\<close>: the policy digests, the
  duplicate resolution, the first failing check, and the decision. The theorems say that an
  accepted delivery passed every check, and that at most one accepted delivery per logical
  scope and per purchase transaction is unique.
\<close>

section \<open>Policy digests\<close>

definition check_policies :: "digests \<Rightarrow> server \<Rightarrow> unit res" where
  "check_policies D s =
     bindR (case sv_timestamp_stale_policy s of None \<Rightarrow> Inr ()
            | Some p \<Rightarrow> guardR (sp_policy_digest p = sha_stale D (sp_before p) (sp_authority p) (sp_policy_version p))
                ''timestamp_stale_policy.policy_digest does not match its canonical policy fields'' (Inr ()))
       (\<lambda>_. case sv_click_injection_policy s of None \<Rightarrow> Inr ()
            | Some p \<Rightarrow> guardR (ip_policy_digest p = sha_injection D (ip_threshold_seconds p) (ip_authority p) (ip_policy_version p))
                ''click_injection_policy.policy_digest does not match its canonical policy fields'' (Inr ()))"

section \<open>Duplicate resolution\<close>

definition payload_resolution :: "digests \<Rightarrow> attempt \<Rightarrow> attempt \<Rightarrow> duplicate_resolution" where
  "payload_resolution D first a =
     (if candidatePayloadDigest D first = candidatePayloadDigest D a then Duplicate_Delivery else Event_Id_Conflict)"

definition scope_resolution :: "digests \<Rightarrow> attempt \<Rightarrow> candidate_provider \<Rightarrow> (duplicate_resolution \<times> attempt option) res" where
  "scope_resolution D a candidates =
     (let first = at_first (cp_byLogicalScope candidates a) in
      if 1 < length (cp_byRecordId candidates (record_id a)) then Inr (Record_Id_Collision, first)
      else case first of
        None \<Rightarrow> throw ''TypeError''
      | Some f \<Rightarrow> if attemptDecisionKey D f = attemptDecisionKey D a then Inr (Unique, first)
                  else Inr (payload_resolution D f a, first))"

definition purchase_resolution :: "digests \<Rightarrow> attempt \<Rightarrow> candidate_provider \<Rightarrow>
    duplicate_resolution \<times> attempt option \<Rightarrow> duplicate_resolution \<times> attempt option" where
  "purchase_resolution D a candidates d =
     (if fst d = Unique \<and> event_name a = ''purchase'' \<and> isAnchoredCommerce a then
        (case at_first (canonicalPurchaseBusinessAttempts a (cp_all candidates)) of
           None \<Rightarrow> d
         | Some b \<Rightarrow> if attemptDecisionKey D b \<noteq> attemptDecisionKey D a then (payload_resolution D b a, Some b) else d)
      else d)"

definition refund_resolution :: "digests \<Rightarrow> attempt \<Rightarrow> candidate_provider \<Rightarrow>
    duplicate_resolution \<times> attempt option \<Rightarrow> duplicate_resolution \<times> attempt option" where
  "refund_resolution D a candidates d =
     (if fst d = Unique \<and> event_name a = ''refund'' \<and> isAnchoredCommerce a then
        (case map_get (rs_winners (admittedRefunds D (cp_all candidates))) (refundBusinessKey a) of
           None \<Rightarrow> d
         | Some b \<Rightarrow> if compareCandidateAttempts D b a < 0 then (payload_resolution D b a, Some b) else d)
      else d)"

definition duplicate_resolution_of :: "digests \<Rightarrow> attempt \<Rightarrow> candidate_provider \<Rightarrow> (duplicate_resolution \<times> attempt option) res" where
  "duplicate_resolution_of D a candidates =
     bindR (scope_resolution D a candidates) (\<lambda>d. Inr (refund_resolution D a candidates (purchase_resolution D a candidates d)))"

section \<open>The first failing check\<close>

definition refund_has_target :: "digests \<Rightarrow> attempt \<Rightarrow> candidate_provider \<Rightarrow> bool" where
  "refund_has_target D a candidates \<longleftrightarrow>
     (if isLegacyExplicitRefund a then legacyRefundTarget a (cp_all candidates)
      else resolveRefundTarget D a (cp_all candidates)) \<noteq> None"

definition rejection_reason :: "digests \<Rightarrow> attempt \<Rightarrow> candidate_provider \<Rightarrow> duplicate_resolution \<Rightarrow> bool \<times> consent_info \<Rightarrow>
    string option res" where
  "rejection_reason D a candidates dup consent =
     (if \<not> scope_matches a then Inr (Some ''client_scope_mismatch'')
      else if dup = Record_Id_Collision then Inr (Some ''record_id_collision'')
      else if \<not> fst consent then
        Inr (Some (if ci_reason_code (snd consent) = ''consent_revision_unconfirmed''
                   then ''consent_revision_unconfirmed'' else ''consent_withdrawn''))
      else bindR (is_stale a) (\<lambda>stale.
        if stale then Inr (Some ''timestamp_stale'')
        else if aggregate_join a then Inr (Some ''aggregate_installation_join_forbidden'')
        else if dup = Event_Id_Conflict then Inr (Some ''event_id_conflict'')
        else if event_name a = ''refund'' \<and> dup = Unique \<and> \<not> refund_has_target D a candidates
        then Inr (Some ''refund_target_invalid'')
        else Inr None))"

definition canonical_record_id :: "attempt \<Rightarrow> duplicate_resolution \<times> attempt option \<Rightarrow> string option" where
  "canonical_record_id a d =
     (if fst d = Record_Id_Collision then None
      else let rid = (if fst d = Unique then record_id a else record_id (the_or a (snd d)))
           in if rid = [] then None else Some rid)"

definition decide :: "digests \<Rightarrow> attempt \<Rightarrow> candidate_provider \<Rightarrow> ingestion_decision res" where
  "decide D a candidates =
     bindR (check_policies D (at_server a)) (\<lambda>_.
     bindR (duplicate_resolution_of D a candidates) (\<lambda>d.
     bindR (consentDecision a) (\<lambda>consent.
     bindR (rejection_reason D a candidates (fst d) consent) (\<lambda>reason.
     bindR (time (Some (r_occurred_at (at_record a))) ''occurred_at'') (\<lambda>occurred.
     bindR (time (Some (r_received_at (at_record a))) ''received_at'') (\<lambda>received.
       Inr \<lparr> id_record_id = record_id a, id_canonical_record_id = canonical_record_id a d,
             id_delivery_id = r_delivery_id (at_record a), id_event_name = Some (event_name a),
             id_tenant_id = tenant a, id_app_id = app a, id_received_at = None,
             id_ingestion_status = (if reason = None then Accepted else Rejected),
             id_duplicate_resolution = fst d, id_late = r_late (at_record a),
             id_clock_skew_suspected = (received + 300000 < occurred),
             id_payload_disposition = (if reason \<noteq> None \<and> reason \<noteq> Some ''event_id_conflict'' then Discarded else Protected),
             id_allowed = Some (fst consent), id_consent = snd consent,
             id_staleness = (if reason = Some ''timestamp_stale'' then sv_timestamp_stale_policy (at_server a) else None),
             id_reason_code = reason \<rparr>))))))"

section \<open>What acceptance means\<close>

lemma decide_Inr:
  assumes "decide D a candidates = Inr d"
  obtains dup consent reason t u where "duplicate_resolution_of D a candidates = Inr dup"
    "consentDecision a = Inr consent" "rejection_reason D a candidates (fst dup) consent = Inr reason"
    "time (Some (r_occurred_at (at_record a))) ''occurred_at'' = Inr t"
    "time (Some (r_received_at (at_record a))) ''received_at'' = Inr u"
    "id_ingestion_status d = (if reason = None then Accepted else Rejected)" "id_duplicate_resolution d = fst dup"
    "id_reason_code d = reason" "id_clock_skew_suspected d \<longleftrightarrow> u + 300000 < t" "id_record_id d = record_id a"
    "id_tenant_id d = tenant a" "id_app_id d = app a" "check_policies D (at_server a) = Inr ()"
    "id_payload_disposition d = (if reason \<noteq> None \<and> reason \<noteq> Some ''event_id_conflict'' then Discarded else Protected)"
  using assms by (auto simp: decide_def bindR_eq_Inr)

lemma rejection_reason_None:
  assumes "rejection_reason D a candidates dup consent = Inr None"
  shows "scope_matches a" "dup \<noteq> Record_Id_Collision" "dup \<noteq> Event_Id_Conflict" "fst consent"
    "is_stale a = Inr False" "\<not> aggregate_join a"
    "event_name a = ''refund'' \<Longrightarrow> dup = Unique \<Longrightarrow> refund_has_target D a candidates"
  using assms by (auto simp: rejection_reason_def bindR_eq_Inr split: if_splits)

lemma scope_resolution_unique:
  assumes "scope_resolution D a candidates = Inr (Unique, f)"
  shows "length (cp_byRecordId candidates (record_id a)) \<le> 1"
    "\<exists>g. at_first (cp_byLogicalScope candidates a) = Some g \<and> attemptDecisionKey D g = attemptDecisionKey D a"
  using assms by (auto simp: scope_resolution_def Let_def payload_resolution_def throw_def split: option.splits if_splits)

lemma payload_resolution_not_unique [simp]: "payload_resolution D b a \<noteq> Unique"
  by (simp add: payload_resolution_def)

lemma refund_resolution_unique:
  "fst (refund_resolution D a candidates d) = Unique \<Longrightarrow> refund_resolution D a candidates d = d \<and> fst d = Unique"
  by (auto simp: refund_resolution_def split: option.splits if_splits)

lemma purchase_resolution_unique:
  "fst (purchase_resolution D a candidates d) = Unique \<Longrightarrow> purchase_resolution D a candidates d = d \<and> fst d = Unique"
  by (auto simp: purchase_resolution_def split: option.splits if_splits)

lemma duplicate_resolution_unique:
  assumes "duplicate_resolution_of D a candidates = Inr d" "fst d = Unique"
  shows "\<exists>f. scope_resolution D a candidates = Inr (Unique, f)" "purchase_resolution D a candidates d = d"
    "refund_resolution D a candidates d = d"
proof -
  from assms(1) obtain e where e: "scope_resolution D a candidates = Inr e"
    "d = refund_resolution D a candidates (purchase_resolution D a candidates e)"
    by (auto simp: duplicate_resolution_of_def bindR_eq_Inr)
  from refund_resolution_unique [of D a candidates "purchase_resolution D a candidates e"] e(2) assms(2)
  have d: "d = purchase_resolution D a candidates e" and "fst (purchase_resolution D a candidates e) = Unique" by simp_all
  with purchase_resolution_unique have pe: "purchase_resolution D a candidates e = e" "fst e = Unique" by auto
  with d have "d = e" by simp
  then show "\<exists>f. scope_resolution D a candidates = Inr (Unique, f)" "purchase_resolution D a candidates d = d"
    using e(1) pe by (metis prod.collapse, simp)
  show "refund_resolution D a candidates d = d" using e(2) pe \<open>d = e\<close> by simp
qed

lemma unique_first:
  assumes "candidate_source candidates ordered" "a \<in> set ordered"
    and "duplicate_resolution_of D a candidates = Inr d" "fst d = Unique"
  shows "List.find (\<lambda>c. scopeKey c = scopeKey a) ordered = Some a"
    "filter (\<lambda>c. record_id c = record_id a) ordered = [a]"
proof -
  obtain f where s: "scope_resolution D a candidates = Inr (Unique, f)"
    using duplicate_resolution_unique(1) [OF assms(3,4)] by blast
  have "length (filter (\<lambda>c. record_id c = record_id a) ordered) \<le> 1"
    using scope_resolution_unique(1) [OF s] assms(1) by (simp add: candidate_source_def)
  moreover have "a \<in> set (filter (\<lambda>c. record_id c = record_id a) ordered)" using assms(2) by simp
  ultimately show one: "filter (\<lambda>c. record_id c = record_id a) ordered = [a]"
    by (cases "filter (\<lambda>c. record_id c = record_id a) ordered") auto
  obtain g where g: "at_first (filter (\<lambda>c. scopeKey c = scopeKey a) ordered) = Some g"
    "attemptDecisionKey D g = attemptDecisionKey D a"
    using scope_resolution_unique(2) [OF s] assms(1) by (auto simp: candidate_source_def)
  then have "g \<in> set ordered" by (auto simp: at_first_def filter_eq_Cons_iff split: list.splits)
  moreover have "record_id g = record_id a" by (rule decisionKey_record(1) [OF g(2)])
  ultimately have "g \<in> set (filter (\<lambda>c. record_id c = record_id a) ordered)" by simp
  with one have "g = a" by simp
  with g(1) show "List.find (\<lambda>c. scopeKey c = scopeKey a) ordered = Some a"
    by (simp add: find_is_hd_filter at_first_def)
qed

lemma accepted_unique_base:
  assumes "candidate_source candidates ordered" "a \<in> set ordered" "at_history a = None"
    and "decide D a candidates = Inr d" "id_ingestion_status d = Accepted" "id_duplicate_resolution d = Unique"
  shows "isBaseAcceptedCandidate a ordered"
proof -
  from assms(4) obtain dup consent reason t u where *: "duplicate_resolution_of D a candidates = Inr dup"
    "consentDecision a = Inr consent" "rejection_reason D a candidates (fst dup) consent = Inr reason"
    "time (Some (r_occurred_at (at_record a))) ''occurred_at'' = Inr t"
    "time (Some (r_received_at (at_record a))) ''received_at'' = Inr u"
    "id_ingestion_status d = (if reason = None then Accepted else Rejected)" "id_duplicate_resolution d = fst dup"
    by (blast elim: decide_Inr)
  with assms(5,6) have r: "reason = None" "fst dup = Unique" by (simp_all split: if_splits)
  note n = rejection_reason_None [OF *(3) [unfolded r(1)]]
  show ?thesis
    using unique_first [OF assms(1,2) *(1) r(2)] n *(2,4,5) assms(3)
    by (cases consent) (simp add: isBaseAcceptedCandidate_def)
qed

lemma accepted_checks:
  assumes "decide D a candidates = Inr d" and "id_ingestion_status d = Accepted"
  shows "scope_matches a \<and> (\<exists>c. consentDecision a = Inr (True, c)) \<and> is_stale a = Inr False \<and> \<not> aggregate_join a
    \<and> id_duplicate_resolution d \<in> {Unique, Duplicate_Delivery} \<and> id_reason_code d = None
    \<and> (event_name a = ''refund'' \<longrightarrow> id_duplicate_resolution d = Unique \<longrightarrow> refund_has_target D a candidates)"
proof -
  from assms(1) obtain dup consent reason t u where *: "duplicate_resolution_of D a candidates = Inr dup"
    "consentDecision a = Inr consent" "rejection_reason D a candidates (fst dup) consent = Inr reason"
    "time (Some (r_occurred_at (at_record a))) ''occurred_at'' = Inr t"
    "time (Some (r_received_at (at_record a))) ''received_at'' = Inr u"
    "id_ingestion_status d = (if reason = None then Accepted else Rejected)" "id_duplicate_resolution d = fst dup"
    "id_reason_code d = reason"
    by (blast elim: decide_Inr)
  with assms(2) have r: "reason = None" by (simp split: if_splits)
  note n = rejection_reason_None [OF *(3) [unfolded r]]
  have "id_duplicate_resolution d \<in> {Unique, Duplicate_Delivery}" using n(2,3) *(7) by (cases "fst dup") auto
  moreover have "consentDecision a = Inr (True, snd consent)" using n(4) *(2) by (cases consent) auto
  moreover have "id_reason_code d = None" using *(8) r by simp
  ultimately show ?thesis using n(1,5,6,7) *(7) by auto
qed

section \<open>Properties\<close>

text \<open>C29. An accepted delivery passed every check: its claimed scope is the authenticated one, consent
  allows it, it is neither stale nor a forbidden aggregate join, it collides with nothing, and a
  unique refund has its purchase.\<close>

theorem accepted_passed_checks:
  assumes "decide D a candidates = Inr d" and "id_ingestion_status d = Accepted"
  shows "scope_matches a \<and> (\<exists>c. consentDecision a = Inr (True, c)) \<and> is_stale a = Inr False \<and> \<not> aggregate_join a
    \<and> id_duplicate_resolution d \<in> {Unique, Duplicate_Delivery} \<and> id_reason_code d = None
    \<and> (event_name a = ''refund'' \<longrightarrow> id_duplicate_resolution d = Unique \<longrightarrow> refund_has_target D a candidates)"
  using assms by (rule accepted_checks)

text \<open>One accepted delivery per logical scope (tenant, app, producer, event id) is unique: two unique
  deliveries of the same scope are the same attempt.\<close>

theorem unique_per_scope:
  assumes "a \<in> set ordered" and "b \<in> set ordered" and "scopeKey a = scopeKey b"
    and "decide D a (IndexedCandidateProvider ordered) = Inr d" and "id_duplicate_resolution d = Unique"
    and "decide D b (IndexedCandidateProvider ordered) = Inr e" and "id_duplicate_resolution e = Unique"
  shows "a = b"
proof -
  note src = indexed.candidate_source_axioms [of ordered]
  from assms(4) obtain x where x: "duplicate_resolution_of D a (IndexedCandidateProvider ordered) = Inr x" "id_duplicate_resolution d = fst x"
    by (blast elim: decide_Inr)
  from assms(6) obtain y where y: "duplicate_resolution_of D b (IndexedCandidateProvider ordered) = Inr y" "id_duplicate_resolution e = fst y"
    by (blast elim: decide_Inr)
  have "List.find (\<lambda>c. scopeKey c = scopeKey a) ordered = Some a"
    using unique_first(1) [OF src assms(1) x(1)] x(2) assms(5) by simp
  moreover have "List.find (\<lambda>c. scopeKey c = scopeKey b) ordered = Some b"
    using unique_first(1) [OF src assms(2) y(1)] y(2) assms(7) by simp
  ultimately have "Some a = Some b" unfolding assms(3) by (rule trans [OF sym])
  then show ?thesis by simp
qed

lemma purchase_winner:
  assumes src: "candidate_source candidates ordered" and a: "a \<in> set ordered" "at_history a = None"
    and d: "decide D a candidates = Inr d" "id_ingestion_status d = Accepted" "id_duplicate_resolution d = Unique"
    and p: "event_name a = ''purchase''" "installation a \<noteq> None" "p_transaction_id (payload_of a) \<noteq> None"
  shows "\<exists>b. at_first (canonicalPurchaseBusinessAttempts a ordered) = Some b \<and> attemptDecisionKey D b = attemptDecisionKey D a"
proof -
  from d(1) obtain x where x: "duplicate_resolution_of D a candidates = Inr x" "id_duplicate_resolution d = fst x"
    by (blast elim: decide_Inr)
  have anch: "isAnchoredCommerce a" using p by (simp add: isAnchoredCommerce_def)
  have "scope_matches a" using accepted_checks [OF d(1,2)] by simp
  with accepted_unique_base [OF src a d] a anch p
  have "a \<in> set (canonicalPurchaseBusinessAttempts a ordered)"
    by (simp add: canonicalPurchaseBusinessAttempts_def same_scope_def)
  then obtain b where b: "at_first (canonicalPurchaseBusinessAttempts a ordered) = Some b"
    by (cases "canonicalPurchaseBusinessAttempts a ordered") (auto simp: at_first_def)
  have all: "cp_all candidates = ordered" using src by (simp add: candidate_source_def)
  have "purchase_resolution D a candidates x = x" "fst x = Unique"
    using duplicate_resolution_unique(2) [OF x(1)] x(2) d(3) by simp_all
  then have "attemptDecisionKey D b = attemptDecisionKey D a"
    using b anch p(1) all by (auto simp: purchase_resolution_def split: if_splits)
  with b show ?thesis by blast
qed

text \<open>A purchase transaction counts once: of the accepted deliveries of an anchored purchase of one tenant,
  app and transaction, received from any producers, exactly one is unique.\<close>

theorem unique_per_transaction:
  assumes "a \<in> set ordered" and "b \<in> set ordered" and "at_history a = None" and "at_history b = None"
    and "decide D a (IndexedCandidateProvider ordered) = Inr d" and "id_ingestion_status d = Accepted"
    and "id_duplicate_resolution d = Unique"
    and "decide D b (IndexedCandidateProvider ordered) = Inr e" and "id_ingestion_status e = Accepted"
    and "id_duplicate_resolution e = Unique"
    and "event_name a = ''purchase''" and "event_name b = ''purchase''"
    and "installation a \<noteq> None" and "installation b \<noteq> None"
    and "tenant a = tenant b" and "app a = app b"
    and "p_transaction_id (payload_of a) = Some tx" and "p_transaction_id (payload_of b) = Some tx"
  shows "a = b"
proof -
  note src = indexed.candidate_source_axioms [of ordered]
  from purchase_winner [OF src assms(1,3,5,6,7,11,13)] assms(17) obtain x where
    x: "at_first (canonicalPurchaseBusinessAttempts a ordered) = Some x" "attemptDecisionKey D x = attemptDecisionKey D a" by auto
  from purchase_winner [OF src assms(2,4,8,9,10,12,14)] assms(18) obtain y where
    y: "at_first (canonicalPurchaseBusinessAttempts b ordered) = Some y" "attemptDecisionKey D y = attemptDecisionKey D b" by auto
  have "canonicalPurchaseBusinessAttempts a ordered = canonicalPurchaseBusinessAttempts b ordered"
    using assms(11-18) by (simp add: canonicalPurchaseBusinessAttempts_def isAnchoredCommerce_def same_scope_def)
  with x y have "attemptDecisionKey D a = attemptDecisionKey D b" by simp
  then have rid: "record_id b = record_id a" by (metis decisionKey_record(1))
  from assms(5) obtain z where z: "duplicate_resolution_of D a (IndexedCandidateProvider ordered) = Inr z" "id_duplicate_resolution d = fst z"
    by (blast elim: decide_Inr)
  have "filter (\<lambda>c. record_id c = record_id a) ordered = [a]"
    using unique_first(2) [OF src assms(1) z(1)] z(2) assms(7) by simp
  moreover have "b \<in> set (filter (\<lambda>c. record_id c = record_id a) ordered)" using assms(2) rid by simp
  ultimately show ?thesis by simp
qed

text \<open>A refund transaction counts once: two accepted unique refunds of one business key are the same attempt.\<close>

theorem unique_refund_per_key:
  assumes "distinct (map (attemptDecisionKey D) ordered)" and "a \<in> set ordered" and "b \<in> set ordered"
    and "decide D a (IndexedCandidateProvider ordered) = Inr d" and "id_ingestion_status d = Accepted"
    and "id_duplicate_resolution d = Unique"
    and "decide D b (IndexedCandidateProvider ordered) = Inr e" and "id_ingestion_status e = Accepted"
    and "id_duplicate_resolution e = Unique"
    and "event_name a = ''refund''" and "event_name b = ''refund''"
    and "installation a \<noteq> None" and "installation b \<noteq> None"
    and "refundBusinessKey a = refundBusinessKey b"
  shows "a = b"
proof -
  have win: "x \<in> set (map_values (rs_winners (admittedRefunds D ordered)))"
    if x: "x \<in> set ordered" "decide D x (IndexedCandidateProvider ordered) = Inr f" "id_ingestion_status f = Accepted"
      "id_duplicate_resolution f = Unique" "event_name x = ''refund''" "installation x \<noteq> None" for x f
  proof -
    have "refund_has_target D x (IndexedCandidateProvider ordered)"
      using accepted_checks [OF x(2,3)] x(4,5) by simp
    then obtain t where "resolveRefundTarget D x ordered = Some t"
      using x(6) indexed.all_ordered [of ordered] by (auto simp: refund_has_target_def isLegacyExplicitRefund_def)
    then show ?thesis by (rule resolveRefundTarget_winner(1) [OF assms(1) x(1)])
  qed
  show ?thesis
    by (rule winners_unique [OF win [OF assms(2,4,5,6,10,12)] win [OF assms(3,7,8,9,11,13)] assms(14)])
qed

lemma rejection_not_allowed:
  assumes "decide D a candidates = Inr d" "consentDecision a = Inr (False, c)"
  shows "id_ingestion_status d = Rejected"
proof (rule ccontr)
  assume "id_ingestion_status d \<noteq> Rejected"
  then have "id_ingestion_status d = Accepted" by (cases "id_ingestion_status d") auto
  from accepted_checks [OF assms(1) this] assms(2) show False by simp
qed

text \<open>A stop is final until it is superseded: with a control for the purpose that denies or withdraws
  consent at the highest revision recognised by the receipt sequence, no delivery that needs
  consent is accepted, whatever revision the client declares.\<close>

theorem stopped_never_accepted:
  assumes "needs_consent a" and "r_processing_purpose_id (at_record a) = Some p" and "p \<in> set CONSENT_PURPOSES"
    and "sv_purpose_consent_controls (at_server a) = Some controls"
    and "r_processing_sequence (at_record a) = Some s"
    and "c \<in> set controls" and "cc_sequence c \<le> s" and "scoped_control p c"
    and "stopped (cc_state c)" and "cc_revision c = Some r"
    and "\<forall>c' \<in> set controls. \<forall>r'. cc_revision c' = Some r' \<longrightarrow> r' \<le> r"
    and "decide D a candidates = Inr d"
  shows "id_ingestion_status d = Rejected"
proof -
  from assms(12) obtain consent where cd: "consentDecision a = Inr consent" by (blast elim: decide_Inr)
  have rev: "revision_consent a" using assms(4) by (simp add: revision_consent_def)
  from cd assms(1) rev obtain sn where sn: "snapshot_of a = Inr sn"
    by (cases "snapshot_of a") (auto simp: consentDecision_def Let_def)
  then obtain sns where sns: "purposeConsentAt controls (Some s) = Inr sns" "sn = List.find (\<lambda>e. sn_purpose e = p) sns"
    using assms(2,4,5) by (auto simp: snapshot_of_def bindR_eq_Inr)
  then have snap: "sn = purpose_snapshot (filter (eligible_control s) controls) p"
    using purposeConsentAt_find [OF sns(1) assms(3)] by simp
  have "validateControl c = Inr ()"
    using sns(1) assms(6) by (auto simp: purposeConsentAt_def guardR_eq_Inr bindR_eq_Inr all_ok_eq_Inr)
  then have "0 \<le> r" using assms(10) by (auto simp: validateControl_def validSequence_def split: if_splits)
  then have "purposeConsentAdmission sn (r_consent_revision (at_record a)) \<in> {Withdrawn_Admission, Revision_Unconfirmed}"
    unfolding snap using assms(6-11)
    by (intro stopped_not_admitted [where c=c and r=r]) (auto simp: eligible_control_def stopped_def)
  from consentDecision_stopped [OF assms(1) rev sn this] show ?thesis
    using rejection_not_allowed [OF assms(12)] by blast
qed

text \<open>A rejected delivery has a reason, an accepted one has none; a claimed scope other than the authenticated
  one is always reported as such, first of all reasons, and its payload is discarded.\<close>

theorem scope_mismatch_first:
  assumes "decide D a candidates = Inr d"
  shows "(id_ingestion_status d = Rejected \<longleftrightarrow> id_reason_code d \<noteq> None)
    \<and> (id_reason_code d = Some ''client_scope_mismatch'' \<longleftrightarrow> \<not> scope_matches a)
    \<and> (id_payload_disposition d = Discarded \<longleftrightarrow> id_reason_code d \<notin> {None, Some ''event_id_conflict''})
    \<and> id_tenant_id d = tenant a \<and> id_app_id d = app a"
proof -
  from assms obtain dup consent reason t u where "duplicate_resolution_of D a candidates = Inr dup"
    "consentDecision a = Inr consent" and *: "rejection_reason D a candidates (fst dup) consent = Inr reason"
    and "time (Some (r_occurred_at (at_record a))) ''occurred_at'' = Inr t"
    "time (Some (r_received_at (at_record a))) ''received_at'' = Inr u"
    and st: "id_ingestion_status d = (if reason = None then Accepted else Rejected)" and "id_duplicate_resolution d = fst dup"
    and r: "id_reason_code d = reason" and "id_clock_skew_suspected d \<longleftrightarrow> u + 300000 < t" "id_record_id d = record_id a"
    and t: "id_tenant_id d = tenant a" "id_app_id d = app a" and "check_policies D (at_server a) = Inr ()"
    and disp: "id_payload_disposition d = (if reason \<noteq> None \<and> reason \<noteq> Some ''event_id_conflict'' then Discarded else Protected)"
    by (rule decide_Inr)
  have "reason = Some ''client_scope_mismatch'' \<longleftrightarrow> \<not> scope_matches a"
    using * by (auto simp: rejection_reason_def bindR_eq_Inr split: if_splits)
  moreover have "id_payload_disposition d = Discarded \<longleftrightarrow> id_reason_code d \<notin> {None, Some ''event_id_conflict''}"
    unfolding disp r by simp
  moreover have "id_ingestion_status d = Rejected \<longleftrightarrow> id_reason_code d \<noteq> None" unfolding st r by simp
  ultimately show ?thesis using r t by simp
qed

section \<open>Concrete deliveries\<close>

definition ex_click :: attempt where
  "ex_click = blank_attempt ''t'' ''a'' ''c1'' ''click'' (blank_payload\<lparr>p_click_id := Some ''k''\<rparr>)"

definition ex_sale :: attempt where
  "ex_sale = blank_attempt ''t'' ''a'' ''p1'' ''purchase'' (blank_payload\<lparr>p_installation_id := Some ''i'',
     p_transaction_id := Some ''tx''\<rparr>)"

definition ex_stopped :: attempt where
  "ex_stopped = (blank_attempt ''t'' ''a'' ''e1'' ''session'' blank_payload)
     \<lparr> at_server := (blank_server ''t'' ''a'')\<lparr>
         sv_processing_purposes := [\<lparr> pp_id = ''analytics'', pp_policy_version = ''1'', pp_consent_required = True \<rparr>],
         sv_purpose_consent_controls := Some [\<lparr> cc_purpose = Some ''analytics'', cc_state = Denied, cc_revision = Some 2,
           cc_sequence = 4, cc_at = ''2026-01-10T00:00:00.000Z'' \<rparr>]\<rparr>,
       at_record := (blank_record ''t'' ''a'' ''e1'' ''session'' blank_payload)\<lparr>r_processing_purpose_id := Some ''analytics'',
         r_processing_sequence := Some 9, r_consent_revision := Some 2\<rparr> \<rparr>"

lemmas decide_eval = decide_def check_policies_def duplicate_resolution_of_def scope_resolution_def purchase_resolution_def
  refund_resolution_def rejection_reason_def is_stale_def aggregate_join_def scope_matches_def consentDecision_def
  needs_consent_def purpose_of_def consent_base_def policy_version_of_def withdrawal_at_of_def withdrawal_of_def
  FixtureArrayCandidateProvider_def providers_agree at_first_def canonicalPurchaseBusinessAttempts_def isAnchoredCommerce_def
  same_scope_def isBaseAcceptedCandidate_def Let_def scopeKey_eq

lemma ex_click_accepted:
  "\<exists>d. decide sample_digests ex_click (IndexedCandidateProvider [ex_click]) = Inr d
     \<and> id_ingestion_status d = Accepted \<and> id_duplicate_resolution d = Unique"
  by (simp add: decide_eval ex_click_def blank_defs)

lemma ex_sale_accepted:
  "\<exists>d. decide sample_digests ex_sale (IndexedCandidateProvider [ex_sale]) = Inr d
     \<and> id_ingestion_status d = Accepted \<and> id_duplicate_resolution d = Unique"
  by (simp add: decide_eval ex_sale_def blank_defs)

theorem accepted_passed_checks_witness: "scope_matches ex_sale \<and> \<not> aggregate_join ex_sale"
  using accepted_passed_checks [of sample_digests ex_sale "IndexedCandidateProvider [ex_sale]"] ex_sale_accepted by blast

theorem unique_per_scope_witness: "ex_click = blank_attempt ''t'' ''a'' ''c1'' ''click'' (blank_payload\<lparr>p_click_id := Some ''k''\<rparr>)"
  using unique_per_scope [of ex_click "[ex_click]" "blank_attempt ''t'' ''a'' ''c1'' ''click'' (blank_payload\<lparr>p_click_id := Some ''k''\<rparr>)" sample_digests]
    ex_click_accepted by (auto simp: ex_click_def)

theorem unique_per_transaction_witness:
  "ex_sale = blank_attempt ''t'' ''a'' ''p1'' ''purchase'' (blank_payload\<lparr>p_installation_id := Some ''i'', p_transaction_id := Some ''tx''\<rparr>)"
proof -
  obtain d where d: "decide sample_digests ex_sale (IndexedCandidateProvider [ex_sale]) = Inr d"
     "id_ingestion_status d = Accepted" "id_duplicate_resolution d = Unique" using ex_sale_accepted by blast
  have *: "at_history ex_sale = None" "event_name ex_sale = ''purchase''" "installation ex_sale \<noteq> None"
    "p_transaction_id (payload_of ex_sale) = Some ''tx''" by (simp_all add: ex_sale_def blank_defs)
  have "ex_sale = ex_sale"
    by (rule unique_per_transaction [of ex_sale "[ex_sale]" ex_sale sample_digests d d "''tx''"]) (simp_all add: d *)
  then show ?thesis by (simp add: ex_sale_def)
qed

lemma ex_refund_accepted:
  "\<exists>d. decide sample_digests (ex_refund ''r1'' 6) (IndexedCandidateProvider [ex_purchase, ex_refund ''r1'' 6]) = Inr d
     \<and> id_ingestion_status d = Accepted \<and> id_duplicate_resolution d = Unique"
  by (simp add: decide_eval refund_eval compareCandidateAttempts_less refund_has_target_def isLegacyExplicitRefund_def)

theorem unique_refund_per_key_witness: "event_name (ex_refund ''r1'' 6) = ''refund'' \<and> ex_refund ''r1'' 6 = ex_refund ''r1'' 6"
proof -
  obtain d where d: "decide sample_digests (ex_refund ''r1'' 6) (IndexedCandidateProvider [ex_purchase, ex_refund ''r1'' 6]) = Inr d"
     "id_ingestion_status d = Accepted" "id_duplicate_resolution d = Unique" using ex_refund_accepted by blast
  have *: "event_name (ex_refund ''r1'' 6) = ''refund''" "installation (ex_refund ''r1'' 6) \<noteq> None"
    "distinct (map (attemptDecisionKey sample_digests) [ex_purchase, ex_refund ''r1'' 6])"
    by (simp_all add: refund_eval)
  have "ex_refund ''r1'' 6 = ex_refund ''r1'' 6"
    by (rule unique_refund_per_key [of sample_digests "[ex_purchase, ex_refund ''r1'' 6]" _ _ d d]) (use d * in simp_all)
  with * show ?thesis by simp
qed

lemma ex_control_valid: "validateControl \<lparr> cc_purpose = Some ''analytics'', cc_state = Denied, cc_revision = Some 2,
           cc_sequence = 4, cc_at = ''2026-01-10T00:00:00.000Z'' \<rparr> = Inr ()"
  by (simp add: validateControl_def validSequence_def four_digit_instant_def CONSENT_PURPOSES_def)

theorem stopped_never_accepted_witness:
  "\<exists>d. decide sample_digests ex_stopped (IndexedCandidateProvider [ex_stopped]) = Inr d \<and> id_ingestion_status d = Rejected"
proof -
  have "\<exists>d. decide sample_digests ex_stopped (IndexedCandidateProvider [ex_stopped]) = Inr d"
    using ex_control_valid
    by (simp add: decide_eval ex_stopped_def blank_defs revision_consent_def snapshot_of_def purposeConsentAt_def guardR_def
      validSequence_def CONSENT_PURPOSES_def eligible_control_def List.map_filter_simps purpose_snapshot_def scoped_control_def legacy_control_def
      stopped_def at_last_def purposeConsentAdmission_def withdrawal_pending_def isControlEvent_def)
  then obtain d where d: "decide sample_digests ex_stopped (IndexedCandidateProvider [ex_stopped]) = Inr d" by blast
  have "id_ingestion_status d = Rejected"
    by (rule stopped_never_accepted [OF _ _ _ _ _ _ _ _ _ _ _ d, where p="''analytics''" and s=9 and controls="[\<lparr> cc_purpose = Some ''analytics'', cc_state = Denied, cc_revision = Some 2, cc_sequence = 4, cc_at = ''2026-01-10T00:00:00.000Z'' \<rparr>]" and r=2
        and c="\<lparr> cc_purpose = Some ''analytics'', cc_state = Denied, cc_revision = Some 2, cc_sequence = 4, cc_at = ''2026-01-10T00:00:00.000Z'' \<rparr>"])
      (simp_all add: needs_consent_def purpose_of_def ex_stopped_def blank_defs CONSENT_PURPOSES_def isControlEvent_def
        scoped_control_def stopped_def)
  with d show ?thesis by blast
qed

theorem scope_mismatch_first_witness:
  "\<exists>d. decide sample_digests ex_click (IndexedCandidateProvider [ex_click]) = Inr d \<and> id_reason_code d \<noteq> Some ''client_scope_mismatch''"
  using scope_mismatch_first [of sample_digests ex_click "IndexedCandidateProvider [ex_click]"] ex_click_accepted
  by (auto simp: ex_click_def blank_defs scope_matches_def)

end
