(* ===== verification/Assertions.thy ===== *)
theory Assertions
  imports Decide
begin

text \<open>
  The scope assertions of \<open>packages/attribution-core/src/ingestion-decisions.ts\<close> and
  \<open>privacyIndex\<close>: what ends an evaluation before anything is emitted. The theorems say that an
  evaluation that passes has one install anchor per installation, that every reference of the
  input stays inside its tenant and app, and what the lifecycle index holds.
\<close>

section \<open>Inputs\<close>

record privacy_request =
  pr_tenant_id :: string
  pr_app_id :: string
  pr_id :: string
  pr_deletion_subject_ref :: "string option"
  pr_deletion_subject_digest :: "string option"
  pr_deletion_scope :: string
  pr_requested_via :: string
  pr_requester_auth_ref :: string
  pr_requested_at :: string
  pr_status :: string
  pr_reason_code :: string
  pr_policy_version :: string
  pr_affected_records :: "(string \<times> lifecycle_status) list"
  pr_completed_at :: "string option"

record correction =
  co_tenant_id :: string
  co_app_id :: string
  co_id :: string
  co_corrects_record_id :: string
  co_type :: string
  co_reason :: string
  co_effective_at :: "string option"

record retention_expiration =
  re_tenant_id :: string
  re_app_id :: string
  re_record_id :: string

type_synonym lifecycle_index = "(string, lifecycle_status) jsmap"

section \<open>Producers\<close>

definition assertImportProviderContexts :: "attempt list \<Rightarrow> unit res" where
  "assertImportProviderContexts all = all_ok (\<lambda>a.
     if \<not> starts_with (r_producer (at_record a)) ''import:'' then Inr ()
     else case p_import_context (payload_of a) of
       None \<Rightarrow> Inr ()
     | Some c \<Rightarrow> guardR (r_producer (at_record a) = ''import:'' @ ic_provider c)
         ''import_context.provider must match the authenticated import producer'' (Inr ())) all"

definition assertRevenueAnchorSources :: "attempt list \<Rightarrow> unit res" where
  "assertRevenueAnchorSources all = all_ok (\<lambda>a.
     if event_name a \<noteq> ''ad_revenue'' \<or> p_anchor_source (payload_of a) = None then Inr ()
     else guardR (starts_with (r_producer (at_record a)) ''postback:'')
       ''ad_revenue.anchor_source is limited to authenticated S2S postback producers'' (Inr ())) all"

section \<open>Installation anchors\<close>

definition installation_key :: "attempt \<Rightarrow> string option \<Rightarrow> string" where
  "installation_key a i = compositeKey [Some (tenant a), Some (app a), i]"

definition accepted_install :: "digests \<Rightarrow> decisions \<Rightarrow> attempt \<Rightarrow> bool res" where
  "accepted_install D ds a =
     (if semanticCandidate a \<and> event_name a = ''install'' then accepted_unique D ds a else Inr False)"

definition anchor_step :: "attempt list \<Rightarrow> string list \<Rightarrow> attempt \<Rightarrow> string list res" where
  "anchor_step accepted anchors a =
     (let p = payload_of a; key = installation_key a (p_installation_id p) in
      guardR (key \<notin> set anchors) (''ambiguous installation anchor: '' @ the_or ''undefined'' (p_installation_id p))
        (if p_install_type p = Some ''reinstall'' \<or> p_install_type p = Some ''redownload'' then
           guardR (truthy (p_prior_installation_id p) \<and> p_prior_installation_id p \<noteq> p_installation_id p)
             (''invalid reinstall installation anchor: '' @ record_id a)
             (guardR (\<exists>c \<in> set accepted. installation_key c (installation c) = installation_key a (p_prior_installation_id p))
               (''missing prior installation anchor: '' @ record_id a) (Inr (set_add key anchors)))
         else guardR (\<not> truthy (p_prior_installation_id p))
             (''first install must not name a prior installation: '' @ record_id a) (Inr (set_add key anchors))))"

definition assertInstallationAnchors :: "digests \<Rightarrow> attempt list \<Rightarrow> decisions \<Rightarrow> unit res" where
  "assertInstallationAnchors D all ds =
     bindR (filterR (accepted_install D ds) all) (\<lambda>accepted.
     bindR (foldR (anchor_step accepted) [] accepted) (\<lambda>_. Inr ()))"

section \<open>Scoped references\<close>

definition scoped_exists :: "attempt list \<Rightarrow> string \<Rightarrow> string \<Rightarrow> string \<Rightarrow> bool" where
  "scoped_exists all t a rid \<longleftrightarrow> (\<exists>x \<in> set all. tenant x = t \<and> app x = a \<and> record_id x = rid)"

definition check_affected :: "attempt list \<Rightarrow> privacy_request \<Rightarrow> string \<times> lifecycle_status \<Rightarrow> unit res" where
  "check_affected all rq aff =
     (case List.find (\<lambda>x. tenant x = pr_tenant_id rq \<and> app x = pr_app_id rq \<and> record_id x = fst aff) all of
        None \<Rightarrow> throw (''cross-scope or missing privacy reference: '' @ pr_id rq @ ''/'' @ fst aff)
      | Some target \<Rightarrow>
          guardR (\<not> (pr_requested_via rq = ''on_device_sdk'' \<and> installation target \<noteq> pr_deletion_subject_ref rq))
            (''on-device privacy request targets another installation: '' @ pr_id rq @ ''/'' @ fst aff) (Inr ()))"

definition assertScopedReferences ::
    "privacy_request list \<Rightarrow> correction list \<Rightarrow> retention_expiration list \<Rightarrow> attempt list \<Rightarrow> unit res" where
  "assertScopedReferences requests corrections expirations all =
     bindR (all_ok (\<lambda>rq. all_ok (check_affected all rq) (pr_affected_records rq)) requests) (\<lambda>_.
     bindR (all_ok (\<lambda>c. guardR (scoped_exists all (co_tenant_id c) (co_app_id c) (co_corrects_record_id c))
              (''cross-scope or missing correction reference: '' @ co_id c) (Inr ())) corrections) (\<lambda>_.
     bindR (all_ok (\<lambda>e. guardR (scoped_exists all (re_tenant_id e) (re_app_id e) (re_record_id e))
              (''cross-scope or missing retention reference: '' @ re_record_id e) (Inr ())) expirations) (\<lambda>_.
       all_ok (\<lambda>a. guardR (case p_correction_target_record_id (payload_of a) of None \<Rightarrow> False
                            | Some t \<Rightarrow> scoped_exists all (tenant a) (app a) t)
              (''cross-scope or missing refund target: '' @ record_id a) (Inr ()))
         (filter isLegacyExplicitRefund all))))"

section \<open>The lifecycle index\<close>

definition privacyIndex :: "privacy_request list \<Rightarrow> retention_expiration list \<Rightarrow> lifecycle_index" where
  "privacyIndex requests expirations =
     (let redactions = fold (\<lambda>rq m.
            if pr_status rq \<noteq> ''completed'' then m
            else fold (\<lambda>(rid, st) m. map_set (evidenceKey (pr_tenant_id rq) (pr_app_id rq) rid) st m) (pr_affected_records rq) m)
          requests []
      in fold (\<lambda>e m. map_set (evidenceKey (re_tenant_id e) (re_app_id e) (re_record_id e)) Purged m) expirations redactions)"

section \<open>What passing means\<close>

lemma installation_key_eq: "installation_key a i = installation_key b j \<longleftrightarrow> tenant a = tenant b \<and> app a = app b \<and> i = j"
  by (auto simp: installation_key_def)

lemma anchor_step_Inr:
  assumes "anchor_step accepted anchors a = Inr anchors'"
  shows "installation_key a (installation a) \<notin> set anchors"
    "set anchors' = insert (installation_key a (installation a)) (set anchors)"
    "p_install_type (payload_of a) \<in> {Some ''reinstall'', Some ''redownload''} \<Longrightarrow>
       \<exists>c \<in> set accepted. tenant c = tenant a \<and> app c = app a \<and> installation c = p_prior_installation_id (payload_of a)
         \<and> installation c \<noteq> installation a"
  using assms by (auto simp: anchor_step_def Let_def guardR_eq_Inr installation_key_eq split: if_splits)

lemma anchors_distinct:
  "foldR (anchor_step accepted) anchors xs = Inr anchors' \<Longrightarrow>
     distinct (map (\<lambda>a. installation_key a (installation a)) xs)
     \<and> (\<forall>a \<in> set xs. installation_key a (installation a) \<notin> set anchors)
     \<and> (\<forall>a \<in> set xs. p_install_type (payload_of a) \<in> {Some ''reinstall'', Some ''redownload''} \<longrightarrow>
       (\<exists>c \<in> set accepted. tenant c = tenant a \<and> app c = app a \<and> installation c = p_prior_installation_id (payload_of a)
         \<and> installation c \<noteq> installation a))"
proof (induction xs arbitrary: anchors)
  case (Cons x xs)
  then obtain s where s: "anchor_step accepted anchors x = Inr s" "foldR (anchor_step accepted) s xs = Inr anchors'"
    by (auto simp: bindR_eq_Inr)
  from Cons.IH [OF s(2)] anchor_step_Inr [OF s(1)] show ?case by fastforce
qed simp

text \<open>An evaluation that passes the anchor check has at most one accepted install per tenant, app and
  installation, and every reinstall names a different installation that is also accepted in its scope.\<close>

theorem installation_anchors_unique:
  assumes "assertInstallationAnchors D all ds = Inr ()"
  shows "distinct (map (\<lambda>a. (tenant a, app a, installation a)) (filter (\<lambda>a. accepted_install D ds a = Inr True) all))
    \<and> (\<forall>a \<in> set all. accepted_install D ds a = Inr True \<longrightarrow>
         p_install_type (payload_of a) \<in> {Some ''reinstall'', Some ''redownload''} \<longrightarrow>
         (\<exists>c \<in> set all. accepted_install D ds c = Inr True \<and> tenant c = tenant a \<and> app c = app a
            \<and> installation c = p_prior_installation_id (payload_of a) \<and> installation c \<noteq> installation a))"
proof -
  define acc where "acc = filter (\<lambda>a. accepted_install D ds a = Inr True) all"
  from assms obtain s where s: "foldR (anchor_step acc) [] acc = Inr s"
    by (auto simp: assertInstallationAnchors_def bindR_eq_Inr filterR_eq_Inr acc_def)
  note a = anchors_distinct [OF s]
  have "inj_on (\<lambda>(t, p, i). compositeKey [Some t, Some p, i]) UNIV" by (auto simp: inj_on_def)
  moreover have "map (\<lambda>a. installation_key a (installation a)) acc
      = map (\<lambda>(t, p, i). compositeKey [Some t, Some p, i]) (map (\<lambda>a. (tenant a, app a, installation a)) acc)"
    by (simp add: installation_key_def)
  ultimately have "distinct (map (\<lambda>a. (tenant a, app a, installation a)) acc)"
    using conjunct1 [OF a] by (simp only: distinct_map)
  moreover have "\<forall>a \<in> set acc. p_install_type (payload_of a) \<in> {Some ''reinstall'', Some ''redownload''} \<longrightarrow>
       (\<exists>c \<in> set acc. tenant c = tenant a \<and> app c = app a \<and> installation c = p_prior_installation_id (payload_of a)
         \<and> installation c \<noteq> installation a)" using a by blast
  then have "\<forall>a \<in> set all. accepted_install D ds a = Inr True \<longrightarrow>
         p_install_type (payload_of a) \<in> {Some ''reinstall'', Some ''redownload''} \<longrightarrow>
         (\<exists>c \<in> set all. accepted_install D ds c = Inr True \<and> tenant c = tenant a \<and> app c = app a
            \<and> installation c = p_prior_installation_id (payload_of a) \<and> installation c \<noteq> installation a)"
    unfolding acc_def set_filter by blast
  ultimately show ?thesis unfolding acc_def by blast
qed

text \<open>An evaluation that passes the reference check names only records of the same tenant and app: every record a
  privacy request affects, a correction corrects, a retention expires or a legacy refund targets; a
  request made on a device affects only that installation's records.\<close>

theorem references_scoped:
  assumes "assertScopedReferences requests corrections expirations all = Inr ()"
  shows "(\<forall>rq \<in> set requests. \<forall>(rid, st) \<in> set (pr_affected_records rq). scoped_exists all (pr_tenant_id rq) (pr_app_id rq) rid
            \<and> (pr_requested_via rq = ''on_device_sdk'' \<longrightarrow> (\<exists>x \<in> set all. tenant x = pr_tenant_id rq \<and> app x = pr_app_id rq
                 \<and> record_id x = rid \<and> installation x = pr_deletion_subject_ref rq)))
    \<and> (\<forall>c \<in> set corrections. scoped_exists all (co_tenant_id c) (co_app_id c) (co_corrects_record_id c))
    \<and> (\<forall>e \<in> set expirations. scoped_exists all (re_tenant_id e) (re_app_id e) (re_record_id e))
    \<and> (\<forall>a \<in> set all. isLegacyExplicitRefund a \<longrightarrow> (\<exists>x. legacyRefundTarget a all = Some x))"
proof -
  have aff: "check_affected all rq aff = Inr () \<Longrightarrow> \<exists>x \<in> set all. tenant x = pr_tenant_id rq \<and> app x = pr_app_id rq
      \<and> record_id x = fst aff \<and> (pr_requested_via rq = ''on_device_sdk'' \<longrightarrow> installation x = pr_deletion_subject_ref rq)" for rq aff
    by (auto simp: check_affected_def guardR_eq_Inr split: option.splits dest!: find_Some_iff2)
  have leg: "isLegacyExplicitRefund a \<Longrightarrow> p_correction_target_record_id (payload_of a) = Some t \<Longrightarrow>
      scoped_exists all (tenant a) (app a) t \<Longrightarrow> \<exists>x. legacyRefundTarget a all = Some x" for a t
    by (cases "legacyRefundTarget a all")
      (auto simp: legacyRefundTarget_def scoped_exists_def same_scope_def find_None_iff)
  from assms have
    r: "\<forall>rq \<in> set requests. \<forall>aff \<in> set (pr_affected_records rq). check_affected all rq aff = Inr ()" and
    c: "\<forall>c \<in> set corrections. scoped_exists all (co_tenant_id c) (co_app_id c) (co_corrects_record_id c)" and
    e: "\<forall>e \<in> set expirations. scoped_exists all (re_tenant_id e) (re_app_id e) (re_record_id e)" and
    l: "\<forall>a \<in> set all. isLegacyExplicitRefund a \<longrightarrow> (\<exists>t. p_correction_target_record_id (payload_of a) = Some t
          \<and> scoped_exists all (tenant a) (app a) t)"
    by (auto simp: assertScopedReferences_def bindR_eq_Inr all_ok_eq_Inr guardR_eq_Inr isLegacyExplicitRefund_def split: option.splits)
  have "\<forall>rq \<in> set requests. \<forall>(rid, st) \<in> set (pr_affected_records rq). scoped_exists all (pr_tenant_id rq) (pr_app_id rq) rid
            \<and> (pr_requested_via rq = ''on_device_sdk'' \<longrightarrow> (\<exists>x \<in> set all. tenant x = pr_tenant_id rq \<and> app x = pr_app_id rq
                 \<and> record_id x = rid \<and> installation x = pr_deletion_subject_ref rq))"
    using r aff by (fastforce simp: scoped_exists_def)
  with c e l leg show ?thesis by blast
qed

section \<open>Reading the lifecycle index\<close>

definition affected_keys :: "privacy_request list \<Rightarrow> string set" where
  "affected_keys requests = {evidenceKey (pr_tenant_id rq) (pr_app_id rq) rid |rq rid st.
     rq \<in> set requests \<and> pr_status rq = ''completed'' \<and> (rid, st) \<in> set (pr_affected_records rq)}"

definition expired_keys :: "retention_expiration list \<Rightarrow> string set" where
  "expired_keys expirations = (\<lambda>e. evidenceKey (re_tenant_id e) (re_app_id e) (re_record_id e)) ` set expirations"

lemma fold_affected_has:
  "map_has (fold (\<lambda>(rid, st) m. map_set (evidenceKey t a rid) st m) affs m) k
     \<longleftrightarrow> map_has m k \<or> (\<exists>(rid, st) \<in> set affs. k = evidenceKey t a rid)"
  by (induction affs arbitrary: m) (auto simp: map_has_iff split: if_splits)

lemma fold_requests_has:
  "map_has (fold (\<lambda>rq m. if pr_status rq \<noteq> ''completed'' then m
            else fold (\<lambda>(rid, st) m. map_set (evidenceKey (pr_tenant_id rq) (pr_app_id rq) rid) st m) (pr_affected_records rq) m)
          requests m) k \<longleftrightarrow> map_has m k \<or> k \<in> affected_keys requests"
proof (induction requests arbitrary: m)
  case Nil
  show ?case by (simp add: affected_keys_def)
next
  case (Cons rq requests)
  have "k \<in> affected_keys (rq # requests) \<longleftrightarrow>
      (pr_status rq = ''completed'' \<and> (\<exists>(rid, st) \<in> set (pr_affected_records rq). k = evidenceKey (pr_tenant_id rq) (pr_app_id rq) rid))
      \<or> k \<in> affected_keys requests" by (auto simp: affected_keys_def)
  with Cons show ?case by (auto simp: fold_affected_has)
qed

lemma fold_expirations_get:
  "map_get (fold (\<lambda>e m. map_set (evidenceKey (re_tenant_id e) (re_app_id e) (re_record_id e)) Purged m) expirations m) k
     = (if k \<in> expired_keys expirations then Some Purged else map_get m k)"
  by (induction expirations arbitrary: m) (auto simp: expired_keys_def)

text \<open>The lifecycle index has an entry for a record exactly when a completed privacy request affects it or its
  retention expired, in its own tenant and app; expiry always reads as purged.\<close>

theorem privacyIndex_entries:
  "(map_has (privacyIndex requests expirations) k \<longleftrightarrow> k \<in> affected_keys requests \<union> expired_keys expirations)
   \<and> map_get (privacyIndex requests expirations) k
      = (if k \<in> expired_keys expirations then Some Purged else map_get (privacyIndex requests []) k)"
proof -
  have "map_has (privacyIndex requests []) k \<longleftrightarrow> k \<in> affected_keys requests"
    using fold_requests_has [of requests "[]" k] by (simp add: privacyIndex_def map_has_def)
  then show ?thesis
    by (auto simp: privacyIndex_def Let_def fold_expirations_get map_has_iff)
qed

definition ex_install :: attempt where
  "ex_install = ledger_attempt ''d'' (blank_attempt ''t'' ''a'' ''r'' ''install'' (blank_payload\<lparr>p_installation_id := Some ''i''\<rparr>))"

theorem installation_anchors_unique_witness:
  "distinct (map (\<lambda>a. (tenant a, app a, installation a))
     (filter (\<lambda>a. accepted_install sample_digests [] a = Inr True) [ex_install]))"
proof -
  have "assertInstallationAnchors sample_digests [ex_install] [] = Inr ()"
    by (simp add: assertInstallationAnchors_def accepted_install_def semanticCandidate_def accepted_unique_def decisionFor_def
        is_accepted_unique_def anchor_step_def guardR_def Let_def ex_install_def blank_defs)
  from installation_anchors_unique [OF this] show ?thesis by blast
qed

theorem references_scoped_witness: "scoped_exists [ex_click] ''t'' ''a'' ''c1''"
proof -
  have "assertScopedReferences [] [] [\<lparr> re_tenant_id = ''t'', re_app_id = ''a'', re_record_id = ''c1'' \<rparr>] [ex_click] = Inr ()"
    by (simp add: assertScopedReferences_def scoped_exists_def guardR_def isLegacyExplicitRefund_def ex_click_def blank_defs)
  from references_scoped [OF this] show ?thesis by simp
qed

end
