(* ===== verification/Fraud_Rules.thy ===== *)
theory Fraud_Rules
  imports Model Doubles
begin

text \<open>
  \<open>packages/fraud-rules/src/index.ts\<close> (the bundle checks, the install rules, the source-day rule),
  \<open>packages/attribution-core/src/rule-bundles.ts\<close> (the bindings of a server context to its rule
  bundles) and the first-party window of \<open>packages/contracts/src/rule-bundle-provenance.ts\<close>. The
  digests of the definitions are parameters (\<open>digests\<close>).
\<close>

section \<open>Bundles\<close>

definition DEFAULT_FRAUD_BUNDLE :: fraud_bundle where
  "DEFAULT_FRAUD_BUNDLE =
     \<lparr> fb_id = ''fraud-conservative'', fb_version = ''1.0.0'',
       fb_base = [(''ctit_lower_bound_seconds'', Some 10),
                  (''ctit_negative_rate_threshold'', Some (double_round (5/100))),
                  (''referrer_redirector_divergence_seconds'', Some 300),
                  (''source_day_min_clicks'', Some 1000),
                  (''source_day_cvr_median_multiplier'', Some (double_round (2/10))),
                  (''source_day_ctit_p50_min_seconds'', Some 86400),
                  (''source_day_ctit_p95_p50_max_ratio'', Some 3),
                  (''quarantine_hours'', Some 72)],
       fb_private = None,
       fb_rules =
         [\<lparr> fr_id = ''transport-bot-prefetch-v1'', fr_inputs = [''prefetch_signal''], fr_action = Exclude \<rparr>,
          \<lparr> fr_id = ''transport-replay-v1'', fr_inputs = [''replay_signal''], fr_action = Exclude \<rparr>,
          \<lparr> fr_id = ''referrer-server-order-v1'', fr_inputs = [''referrer_click_at_server'', ''install_begin_at_server''], fr_action = Flag \<rparr>,
          \<lparr> fr_id = ''ctit-lower-bound-v1'', fr_inputs = [''redirector_click_at'', ''install_begin_at_server''], fr_action = Flag \<rparr>,
          \<lparr> fr_id = ''ctit-clock-anomaly-v1'', fr_inputs = [''redirector_click_at'', ''install_begin_at_server''], fr_action = Allow \<rparr>,
          \<lparr> fr_id = ''referrer-redirector-divergence-v1'', fr_inputs = [''referrer_click_at_server'', ''redirector_click_at''], fr_action = Flag \<rparr>,
          \<lparr> fr_id = ''source-day-click-flooding-v1'', fr_inputs = [''source_day_aggregate''], fr_action = Flag \<rparr>,
          \<lparr> fr_id = ''device-integrity-combination-v1'', fr_inputs = [''integrity_verdict'', ''ctit''], fr_action = Flag \<rparr>],
       fb_rest = [] \<rparr>"

definition bundle_id_ok :: "string \<Rightarrow> bool" where
  "bundle_id_ok s \<longleftrightarrow> 1 \<le> length s \<and> length s \<le> 128
     \<and> list_all (\<lambda>c. is_lower c \<or> is_upper c \<or> is_digit c \<or> c \<in> set ''._:-'') s"

definition rule_id_ok :: "string \<Rightarrow> bool" where
  "rule_id_ok s \<longleftrightarrow> (case s of [] \<Rightarrow> False
     | c # cs \<Rightarrow> is_lower c \<and> 2 \<le> length cs \<and> length cs \<le> 127
                 \<and> list_all (\<lambda>c. is_lower c \<or> is_digit c \<or> c = CHR ''-'') cs)"

definition hex_digest_ok :: "string \<Rightarrow> bool" where
  "hex_digest_ok s \<longleftrightarrow> length s = 64 \<and> list_all (\<lambda>c. is_digit c \<or> (CHR ''a'' \<le> c \<and> c \<le> CHR ''f'')) s"

definition private_layer_ok :: "(string \<times> string) list \<Rightarrow> bool" where
  "private_layer_ok p \<longleftrightarrow> (case p of [(k, v)] \<Rightarrow> k = ''digest'' \<and> hex_digest_ok v | _ \<Rightarrow> False)"

definition assertFraudBundle :: "fraud_bundle \<Rightarrow> unit res" where
  "assertFraudBundle b =
     guardR (bundle_id_ok (fb_id b)) ''fraud_bundle_id_invalid''
     (guardR (1 \<le> length (fb_version b) \<and> length (fb_version b) \<le> 128) ''fraud_bundle_version_invalid''
     (guardR (fb_rules b \<noteq> []) ''fraud_bundle_rules_invalid''
     (guardR (case fb_private b of None \<Rightarrow> True | Some p \<Rightarrow> private_layer_ok p) ''fraud_bundle_private_layer_must_be_digest_only''
     (all_ok (\<lambda>r.
        guardR (rule_id_ok (fr_id r)) (''fraud_bundle_rule_invalid:'' @ fr_id r)
        (guardR (\<not> (fr_inputs r \<noteq> [] \<and> list_all (\<lambda>i. i = ''integrity_verdict'') (fr_inputs r)))
          (''integrity_only_rule_forbidden:'' @ fr_id r) (Inr ()))) (fb_rules b)))))"

definition fraudBundleHash :: "digests \<Rightarrow> fraud_bundle \<Rightarrow> string res" where
  "fraudBundleHash D b = bindR (assertFraudBundle b) (\<lambda>_. Inr (sha_fraud_identity D b))"

record bundle_provenance =
  bp_id :: string
  bp_version :: string
  bp_hash :: string
  bp_private_layer_digest :: "string option"

definition publicBundleProvenance :: "digests \<Rightarrow> fraud_bundle \<Rightarrow> bundle_provenance res" where
  "publicBundleProvenance D b = bindR (fraudBundleHash D b) (\<lambda>h.
     Inr \<lparr> bp_id = fb_id b, bp_version = fb_version b, bp_hash = h,
           bp_private_layer_digest = (case fb_private b of None \<Rightarrow> None
             | Some p \<Rightarrow> Some (the_or ''undefined'' (map_of p ''digest''))) \<rparr>)"

definition fraudNumberParameter :: "fraud_bundle \<Rightarrow> string \<Rightarrow> rat \<Rightarrow> rat" where
  "fraudNumberParameter b name fallback =
     (case map_of (fb_base b) name of Some (Some v) \<Rightarrow> v | _ \<Rightarrow> fallback)"

definition fraudRuleAction :: "fraud_bundle \<Rightarrow> string \<Rightarrow> fraud_action \<Rightarrow> fraud_action" where
  "fraudRuleAction b rid fallback =
     (case List.find (\<lambda>r. fr_id r = rid) (fb_rules b) of None \<Rightarrow> fallback | Some r \<Rightarrow> fr_action r)"

section \<open>Install rules\<close>

datatype fraud_verdict = Clear | Suspected | Confirmed

record fraud_rule_hit =
  fh_ruleId :: string
  fh_decision :: fraud_verdict
  fh_action :: fraud_action
  fh_reasonCode :: string
  fh_evidenceType :: string

record install_rule_input =
  ii_installBeginAtServer :: "string option"
  ii_referrerClickAtServer :: "string option"
  ii_referrerClickAtServerStatus :: "string option"
  ii_redirectorClickAt :: "string option"
  ii_policy :: injection_policy
  ii_bundle :: "fraud_bundle option"

definition assertClickInjectionPolicy :: "digests \<Rightarrow> injection_policy \<Rightarrow> unit res" where
  "assertClickInjectionPolicy D p =
     guardR (ip_policy_digest p = sha_injection D (ip_threshold_seconds p) (ip_authority p) (ip_policy_version p))
       ''click_injection_policy.policy_digest does not match its canonical policy fields'' (Inr ())"

text \<open>\<open>instant\<close>: \<open>None\<close> is NaN, and every comparison with it fails.\<close>

definition instant_of :: "string option \<Rightarrow> int option" where
  "instant_of v = (case v of None \<Rightarrow> None | Some s \<Rightarrow> canonical_instant s)"

definition nan_test :: "(int \<Rightarrow> int \<Rightarrow> bool) \<Rightarrow> int option \<Rightarrow> int option \<Rightarrow> bool" where
  "nan_test P a b = (case (a, b) of (Some x, Some y) \<Rightarrow> P x y | _ \<Rightarrow> False)"

definition server_order_hits :: "install_rule_input \<Rightarrow> fraud_bundle \<Rightarrow> fraud_rule_hit list" where
  "server_order_hits i b =
     (if ii_referrerClickAtServerStatus i = Some ''available'' \<and> truthy (ii_referrerClickAtServer i)
         \<and> truthy (ii_installBeginAtServer i)
         \<and> nan_test (\<lambda>r s. s + 1000 \<le> r) (instant_of (ii_referrerClickAtServer i)) (instant_of (ii_installBeginAtServer i))
      then [\<lparr> fh_ruleId = ''referrer-server-order-v1'', fh_decision = Confirmed,
              fh_action = fraudRuleAction b ''referrer-server-order-v1'' Flag,
              fh_reasonCode = ''referrer_time_inconsistent'', fh_evidenceType = ''server_clock_order'' \<rparr>]
      else [])"

definition clock_anomaly_hit :: fraud_rule_hit where
  "clock_anomaly_hit = \<lparr> fh_ruleId = ''ctit-clock-anomaly-v1'', fh_decision = Clear, fh_action = Allow,
     fh_reasonCode = ''ctit_clock_anomaly'', fh_evidenceType = ''ctit_clock_diagnostic'' \<rparr>"

definition ctit_hits :: "install_rule_input \<Rightarrow> fraud_bundle \<Rightarrow> fraud_rule_hit list" where
  "ctit_hits i b =
     (let delta = (\<lambda>P. nan_test (\<lambda>s c. P (s - c)) (instant_of (ii_installBeginAtServer i)) (instant_of (ii_redirectorClickAt i)));
          divergence = dmul (fraudNumberParameter b ''referrer_redirector_divergence_seconds'' 300) 1000
      in (if delta (\<lambda>d. of_int d < dmul (ip_threshold_seconds (ii_policy i)) 1000)
          then [\<lparr> fh_ruleId = ''ctit-lower-bound-v1'', fh_decision = Suspected,
                  fh_action = fraudRuleAction b ''ctit-lower-bound-v1'' Flag,
                  fh_reasonCode = ''click_injection_suspected'', fh_evidenceType = ''ctit_category'' \<rparr>] else [])
       @ (if truthy (ii_referrerClickAtServer i)
             \<and> nan_test (\<lambda>r c. divergence < of_int \<bar>r - c\<bar>) (instant_of (ii_referrerClickAtServer i)) (instant_of (ii_redirectorClickAt i))
          then [\<lparr> fh_ruleId = ''referrer-redirector-divergence-v1'', fh_decision = Suspected,
                  fh_action = fraudRuleAction b ''referrer-redirector-divergence-v1'' Flag,
                  fh_reasonCode = ''referrer_time_inconsistent'', fh_evidenceType = ''server_clock_order'' \<rparr>] else []))"

definition evaluateInstallRules :: "digests \<Rightarrow> install_rule_input \<Rightarrow> fraud_rule_hit list res" where
  "evaluateInstallRules D i =
     bindR (assertClickInjectionPolicy D (ii_policy i)) (\<lambda>_.
       let b = the_or DEFAULT_FRAUD_BUNDLE (ii_bundle i); order = server_order_hits i b in
       if truthy (ii_redirectorClickAt i) \<and> truthy (ii_installBeginAtServer i) then
         (if nan_test (\<lambda>s c. s - c < 0) (instant_of (ii_installBeginAtServer i)) (instant_of (ii_redirectorClickAt i))
          then Inr (order @ [clock_anomaly_hit])
          else Inr (order @ ctit_hits i b))
       else Inr order)"

section \<open>The source-day rule\<close>

record source_day_input =
  si_clicks :: rat
  si_installs :: rat
  si_medianCvr :: rat
  si_ctitP50Ms :: "rat option"
  si_ctitP95Ms :: "rat option"

definition evaluateSourceDayWithBundle :: "source_day_input \<Rightarrow> fraud_bundle \<Rightarrow> fraud_rule_hit option" where
  "evaluateSourceDayWithBundle i b =
     (let minimumClicks = fraudNumberParameter b ''source_day_min_clicks'' 1000;
          cvrMultiplier = fraudNumberParameter b ''source_day_cvr_median_multiplier'' (double_round (2/10));
          p50MinimumMs = dmul (fraudNumberParameter b ''source_day_ctit_p50_min_seconds'' 86400) 1000;
          maximumRatio = fraudNumberParameter b ''source_day_ctit_p95_p50_max_ratio'' 3
      in case (si_ctitP50Ms i, si_ctitP95Ms i) of
           (Some p50, Some p95) \<Rightarrow>
             if si_clicks i < minimumClicks \<or> quotient_exceeds (si_installs i) (si_clicks i) (dmul (si_medianCvr i) cvrMultiplier)
                \<or> p50 < p50MinimumMs \<or> quotient_exceeds p95 p50 maximumRatio
             then None
             else Some \<lparr> fh_ruleId = ''source-day-click-flooding-v1'', fh_decision = Suspected,
                         fh_action = fraudRuleAction b ''source-day-click-flooding-v1'' Flag,
                         fh_reasonCode = ''click_flooding_suspected'', fh_evidenceType = ''source_day_distribution'' \<rparr>
         | _ \<Rightarrow> None)"

definition evaluateSourceDay :: "source_day_input \<Rightarrow> fraud_rule_hit option" where
  "evaluateSourceDay i = evaluateSourceDayWithBundle i DEFAULT_FRAUD_BUNDLE"

section \<open>Bindings of a server context\<close>

definition FIRST_PARTY_WINDOW_DAYS :: "int list" where "FIRST_PARTY_WINDOW_DAYS = [1, 7, 30]"

definition firstPartyWindowDefinition :: "int \<Rightarrow> window_definition res" where
  "firstPartyWindowDefinition days =
     guardR (days \<in> set FIRST_PARTY_WINDOW_DAYS) ''attribution_window_days_invalid''
       (Inr \<lparr> wn_id = ''attribution-first-party-window'', wn_version = ''0.4.29'', wn_kind = ''attribution'',
             wn_implementation = ''first-party-install-referrer-v0.4.29'', wn_lookback_days = days,
             wn_rules = [''accepted-unique-exact-click-reference'', ''redirector-to-play-server-half-open-window'',
               ''install-original-receipt-revision'', ''never-reinterpret-imported-platform-or-engagement''] \<rparr>)"

definition validateFirstPartyWindowDefinition :: "window_definition \<Rightarrow> window_definition res" where
  "validateFirstPartyWindowDefinition v =
     bindR (firstPartyWindowDefinition (wn_lookback_days v)) (\<lambda>expected.
       guardR (v = expected) ''attribution_window_definition_invalid'' (Inr expected))"

definition firstPartyWindowHash :: "digests \<Rightarrow> window_definition \<Rightarrow> string res" where
  "firstPartyWindowHash D d = bindR (validateFirstPartyWindowDefinition d) (\<lambda>v. Inr (sha_window D v))"

record bound_window =
  bw_days :: int
  bw_rule_bundle_id :: string
  bw_rule_bundle_version :: string
  bw_rule_bundle_hash :: string

definition boundFirstPartyWindow :: "digests \<Rightarrow> server \<Rightarrow> bound_window option res" where
  "boundFirstPartyWindow D s =
     (case sv_first_party_bundle s of None \<Rightarrow> Inr None
      | Some (b, d) \<Rightarrow>
          bindR (validateFirstPartyWindowDefinition d) (\<lambda>v.
          bindR (firstPartyWindowHash D v) (\<lambda>h.
            guardR (bb_id b = wn_id v \<and> bb_version b = wn_version v \<and> bb_definition_digest b = h \<and> bb_hash b = h)
              ''attribution_window_binding_mismatch''
              (Inr (Some \<lparr> bw_days = wn_lookback_days v, bw_rule_bundle_id = wn_id v,
                          bw_rule_bundle_version = wn_version v, bw_rule_bundle_hash = h \<rparr>)))))"

record rule_bundle =
  rb_id :: string
  rb_version :: string
  rb_hash :: string

definition REFERENCE_RULE_VERSION :: string where "REFERENCE_RULE_VERSION = ''0.3.0''"

definition boundNonFraudBundle :: "digests \<Rightarrow> server \<Rightarrow> string \<Rightarrow> rule_bundle res" where
  "boundNonFraudBundle D s i =
     (let h = sha_non_fraud D i; r = \<lparr> rb_id = i, rb_version = REFERENCE_RULE_VERSION, rb_hash = h \<rparr> in
      case map_of (sv_non_fraud_rule_bundles s) i of
        None \<Rightarrow> Inr r
      | Some b \<Rightarrow> guardR (bb_id b = i \<and> bb_version b = REFERENCE_RULE_VERSION \<and> bb_hash b = h \<and> bb_definition_digest b = h)
          ''non_fraud_rule_bundle_binding_mismatch'' (Inr r))"

record bound_fraud =
  bf_definition :: fraud_bundle
  bf_hash :: string

definition boundFraudBundle :: "digests \<Rightarrow> server \<Rightarrow> bound_fraud option res" where
  "boundFraudBundle D s =
     (if sv_fraud_enabled s = Some False then Inr None
      else case sv_fraud_rule_bundle s of
        None \<Rightarrow> Inr (Some \<lparr> bf_definition = DEFAULT_FRAUD_BUNDLE, bf_hash = sha_fraud_identity D DEFAULT_FRAUD_BUNDLE \<rparr>)
      | Some (b, d) \<Rightarrow>
          bindR (fraudBundleHash D d) (\<lambda>h.
            guardR (bb_id b = fb_id d \<and> bb_version b = fb_version d) ''fraud_rule_bundle_identity_mismatch''
            (guardR (bb_definition_digest b = sha_fraud_definition D d) ''fraud_rule_bundle_definition_digest_mismatch''
            (guardR (bb_hash b = h) ''fraud_rule_bundle_hash_mismatch''
              (Inr (Some \<lparr> bf_definition = d, bf_hash = h \<rparr>))))))"

text \<open>\<open>new Date\<close> of a fractional number of milliseconds truncates towards zero.\<close>

definition truncate_rat :: "rat \<Rightarrow> int" where
  "truncate_rat x = (if 0 \<le> x then \<lfloor>x\<rfloor> else \<lceil>x\<rceil>)"

definition quarantineDeadline :: "fraud_action \<Rightarrow> string \<Rightarrow> fraud_bundle \<Rightarrow> string option res" where
  "quarantineDeadline action evaluatedAt b =
     (if action \<noteq> Quarantine then Inr None
      else bindR (time (Some evaluatedAt) ''evaluated_at'') (\<lambda>t.
        bindR (iso_or_throw (truncate_rat (dadd (of_int t) (dmul (fraudNumberParameter b ''quarantine_hours'' 72) 3600000))))
          (\<lambda>s. Inr (Some s))))"

section \<open>Properties\<close>

lemma instant_truthy: "instant_of v = Some t \<Longrightarrow> truthy v"
  by (auto simp: instant_of_def canonical_instant_Some toISOString_def split: option.splits)

text \<open>The default bundle passes its own check, so the evaluator's hash of it exists.\<close>

theorem default_bundle_valid: "fraudBundleHash D DEFAULT_FRAUD_BUNDLE = Inr (sha_fraud_identity D DEFAULT_FRAUD_BUNDLE)"
proof -
  have "assertFraudBundle DEFAULT_FRAUD_BUNDLE = Inr ()" by code_simp
  then show ?thesis by (simp add: fraudBundleHash_def)
qed

lemma private_layer_digest: "private_layer_ok p \<Longrightarrow> \<exists>v. p = [(''digest'', v)] \<and> length v = 64"
  by (cases p rule: remdups_adj.cases) (auto simp: private_layer_ok_def hex_digest_ok_def split: prod.splits)

lemma bex_if_single: "(\<exists>h \<in> set (if C then [x] else []). P h) \<longleftrightarrow> C \<and> P x"
  by (cases C) auto

text \<open>A bundle that passes the check has no rule that decides on a device integrity verdict alone, and its private
  layer, when it has one, holds nothing but a SHA-256 digest.\<close>

theorem fraud_bundle_safe:
  assumes "assertFraudBundle b = Inr ()"
  shows "(\<forall>r \<in> set (fb_rules b). fr_inputs r = [] \<or> (\<exists>i \<in> set (fr_inputs r). i \<noteq> ''integrity_verdict''))
    \<and> fb_rules b \<noteq> []
    \<and> (\<forall>p. fb_private b = Some p \<longrightarrow> (\<exists>v. p = [(''digest'', v)] \<and> length v = 64))"
  using assms private_layer_digest
  by (auto simp: assertFraudBundle_def guardR_eq_Inr all_ok_eq_Inr list_all_iff)

theorem fraud_bundle_safe_witness: "fb_rules DEFAULT_FRAUD_BUNDLE \<noteq> []"
proof -
  have "assertFraudBundle DEFAULT_FRAUD_BUNDLE = Inr ()" by code_simp
  from fraud_bundle_safe [OF this] show ?thesis by blast
qed

text \<open>An install is suspected of click injection exactly when its begin time and the redirector's click are both
  canonical and less than the policy's threshold apart, the click not being later; a click later
  than the install is a clock anomaly, which clears and never punishes.\<close>

theorem click_injection_rule:
  assumes "evaluateInstallRules D i = Inr hits" and "dmul (ip_threshold_seconds (ii_policy i)) 1000 = of_int bound"
  shows "((\<exists>h \<in> set hits. fh_ruleId h = ''ctit-lower-bound-v1'') \<longleftrightarrow>
           (\<exists>s c. instant_of (ii_installBeginAtServer i) = Some s \<and> instant_of (ii_redirectorClickAt i) = Some c
              \<and> c \<le> s \<and> s < c + bound))
    \<and> (\<forall>h \<in> set hits. fh_ruleId h = ''ctit-clock-anomaly-v1'' \<longrightarrow> fh_decision h = Clear \<and> fh_action h = Allow
         \<and> (\<exists>s c. instant_of (ii_installBeginAtServer i) = Some s \<and> instant_of (ii_redirectorClickAt i) = Some c \<and> s < c))"
proof -
  have order: "fh_ruleId h = ''referrer-server-order-v1''" if "h \<in> set (server_order_hits i b)" for h b
    using that by (auto simp: server_order_hits_def split: if_splits)
  have ctit: "fh_ruleId h \<in> {''ctit-lower-bound-v1'', ''referrer-redirector-divergence-v1''}" if "h \<in> set (ctit_hits i b)" for h b
    using that by (auto simp: ctit_hits_def Let_def split: if_splits)
  have lower: "(\<exists>h \<in> set (ctit_hits i b). fh_ruleId h = ''ctit-lower-bound-v1'') \<longleftrightarrow>
      nan_test (\<lambda>s c. of_int (s - c) < (of_int bound :: rat)) (instant_of (ii_installBeginAtServer i)) (instant_of (ii_redirectorClickAt i))" for b
    unfolding ctit_hits_def Let_def assms(2) set_append bex_Un bex_if_single by simp
  obtain b where hits: "hits = server_order_hits i b @
      (if truthy (ii_redirectorClickAt i) \<and> truthy (ii_installBeginAtServer i) then
         (if nan_test (\<lambda>s c. s - c < 0) (instant_of (ii_installBeginAtServer i)) (instant_of (ii_redirectorClickAt i))
          then [clock_anomaly_hit] else ctit_hits i b) else [])"
    using assms(1) by (auto simp: evaluateInstallRules_def bindR_eq_Inr Let_def split: if_splits)
  have or: "\<not> (\<exists>h \<in> set (server_order_hits i b). fh_ruleId h = ''ctit-lower-bound-v1'')" using order by fastforce
  show ?thesis
  proof (intro conjI ballI impI)
    show "(\<exists>h \<in> set hits. fh_ruleId h = ''ctit-lower-bound-v1'') \<longleftrightarrow>
           (\<exists>s c. instant_of (ii_installBeginAtServer i) = Some s \<and> instant_of (ii_redirectorClickAt i) = Some c
              \<and> c \<le> s \<and> s < c + bound)"
      using or lower [of b] unfolding hits
      by (cases "instant_of (ii_installBeginAtServer i)"; cases "instant_of (ii_redirectorClickAt i)")
        (auto simp: nan_test_def bex_Un clock_anomaly_hit_def dest: instant_truthy)
    fix h assume h: "h \<in> set hits" "fh_ruleId h = ''ctit-clock-anomaly-v1''"
    then have "h = clock_anomaly_hit \<and> nan_test (\<lambda>s c. s - c < 0) (instant_of (ii_installBeginAtServer i)) (instant_of (ii_redirectorClickAt i))"
      unfolding hits using order ctit by (fastforce split: if_splits)
    then show "fh_decision h = Clear" "fh_action h = Allow"
      "\<exists>s c. instant_of (ii_installBeginAtServer i) = Some s \<and> instant_of (ii_redirectorClickAt i) = Some c \<and> s < c"
      by (auto simp: clock_anomaly_hit_def nan_test_def split: option.splits)
  qed
qed

lemma boundFirstPartyWindow_days:
  "boundFirstPartyWindow D s = Inr (Some w) \<Longrightarrow> bw_days w \<in> {1, 7, 30}"
  by (auto simp: boundFirstPartyWindow_def bindR_eq_Inr guardR_eq_Inr validateFirstPartyWindowDefinition_def
      firstPartyWindowDefinition_def FIRST_PARTY_WINDOW_DAYS_def split: option.splits)

definition ex_install_input :: install_rule_input where
  "ex_install_input = \<lparr> ii_installBeginAtServer = Some ''2026-01-10T00:00:05.000Z'', ii_referrerClickAtServer = None,
     ii_referrerClickAtServerStatus = None, ii_redirectorClickAt = Some ''2026-01-10T00:00:00.000Z'',
     ii_policy = \<lparr> ip_threshold_seconds = 10, ip_authority = ''server'', ip_policy_version = ''1'', ip_policy_digest = ''server1'' \<rparr>,
     ii_bundle = None \<rparr>"

theorem click_injection_rule_witness:
  "\<exists>hits. evaluateInstallRules sample_digests ex_install_input = Inr hits \<and> (\<exists>h \<in> set hits. fh_ruleId h = ''ctit-lower-bound-v1'')"
proof -
  obtain hits where h: "evaluateInstallRules sample_digests ex_install_input = Inr hits"
    by (cases "nan_test (\<lambda>s c. s - c < 0) (instant_of (ii_installBeginAtServer ex_install_input)) (instant_of (ii_redirectorClickAt ex_install_input))")
      (simp_all add: evaluateInstallRules_def assertClickInjectionPolicy_def guardR_def ex_install_input_def sample_digests_def Let_def)
  have "dmul (ip_threshold_seconds (ii_policy ex_install_input)) 1000 = of_int 10000"
    by (simp add: ex_install_input_def dmul_def)
  from conjunct1 [OF click_injection_rule [OF h this]] h show ?thesis
    by (simp add: ex_install_input_def instant_of_def)
qed

end
