(* ===== verification/Attribution.thy ===== *)
theory Attribution
  imports Assertions Fraud_Rules
begin

text \<open>
  \<open>packages/attribution-core/src/attribution.ts\<close>: the attribution of an install, of an aggregate
  Apple postback and of a deep-link open, the read-only preview, and the initial artifacts of an
  evaluation. The theorems say when a first-party click gets the credit, that an imported install
  never gets a first-party method, and what happens when evidence is no longer available.
\<close>

section \<open>Attributions\<close>

record evidence_ref =
  ev_tenant_id :: string
  ev_app_id :: string
  ev_ref :: string
  ev_lifecycle_status :: lifecycle_status

datatype subject_scope = Installation_Level | Aggregate | Engagement_Level

datatype attribution_status = Non_Organic | Organic | Unattributed

datatype finality = Final | Provisional | Superseded

record attribution =
  an_id :: string
  an_tenant_id :: string
  an_app_id :: string
  an_subject_scope :: subject_scope
  an_subject_ref :: "string option"
  an_status :: attribution_status
  an_method :: string
  an_model :: string
  an_reason_code :: string
  an_evidence_refs :: "evidence_ref list"
  an_effective_at :: string
  an_decided_at :: string
  an_input_cutoff_at :: string
  an_finality :: finality
  an_rule_bundle :: rule_bundle
  an_supersedes :: "string option"
  an_fraud_decision_ref :: "string option"

definition lifecycle_of :: "lifecycle_index \<Rightarrow> string \<Rightarrow> string \<Rightarrow> string \<Rightarrow> lifecycle_status" where
  "lifecycle_of lc t a ref = the_or Available (map_get lc (evidenceKey t a ref))"

definition evidence_of :: "lifecycle_index \<Rightarrow> attempt \<Rightarrow> string \<Rightarrow> evidence_ref" where
  "evidence_of lc a ref = \<lparr> ev_tenant_id = tenant a, ev_app_id = app a, ev_ref = ref,
     ev_lifecycle_status = lifecycle_of lc (tenant a) (app a) ref \<rparr>"

section \<open>Installs\<close>

definition attribution_base :: "lifecycle_index \<Rightarrow> attempt \<Rightarrow> rule_bundle \<Rightarrow> attribution" where
  "attribution_base lc a bundle =
     \<lparr> an_id = ''attr:'' @ record_id a, an_tenant_id = tenant a, an_app_id = app a,
       an_subject_scope = Installation_Level, an_subject_ref = installation a, an_status = Unattributed,
       an_method = ''none'', an_model = ''none'', an_reason_code = [],
       an_evidence_refs = [evidence_of lc a (record_id a)], an_effective_at = r_occurred_at (at_record a),
       an_decided_at = sv_received_at (at_server a), an_input_cutoff_at = sv_received_at (at_server a),
       an_finality = Final, an_rule_bundle = bundle, an_supersedes = None, an_fraud_decision_ref = None \<rparr>"

definition attribution_result :: "attribution \<Rightarrow> attribution_status \<Rightarrow> string \<Rightarrow> string \<Rightarrow> string \<Rightarrow>
    evidence_ref list option \<Rightarrow> attribution" where
  "attribution_result base status method model reason evidence =
     (let an = base\<lparr> an_status := status, an_method := method, an_model := model, an_reason_code := reason,
                     an_evidence_refs := the_or (an_evidence_refs base) evidence \<rparr>
      in if \<not> (\<exists>e \<in> set (an_evidence_refs an). ev_lifecycle_status e \<noteq> Available) then an
         else an\<lparr> an_id := an_id base @ '':recalculated'', an_finality := Superseded, an_supersedes := Some (an_id base) \<rparr>)"

definition imported_attribution :: "digests \<Rightarrow> attempt \<Rightarrow> candidate_provider \<Rightarrow> decisions \<Rightarrow> lifecycle_index \<Rightarrow>
    attribution \<Rightarrow> attribution res" where
  "imported_attribution D a candidates ds lc base =
     (let result = attribution_result base in
      case p_import_context (payload_of a) of
        None \<Rightarrow> Inr (result Unattributed ''imported'' ''provider_reported'' ''provider_unattributed'' None)
      | Some ctx \<Rightarrow>
          bindR (if truthy (ic_provider_click_ref ctx)
                 then filterR (\<lambda>c. if tenant c = tenant a \<and> app c = app a \<and> event_name c = ''click''
                          \<and> r_producer (at_record c) = ''redirector''
                          \<and> p_remote_click_ref (payload_of c) = ic_provider_click_ref ctx
                        then accepted_unique D ds c else Inr False) (cp_all candidates)
                 else Inr [])
            (\<lambda>clicks.
              let evidence = (case clicks of [c] \<Rightarrow> Some [evidence_of lc a (record_id c), evidence_of lc a (record_id a)] | _ \<Rightarrow> None)
              in Inr (if ic_provider_attributed ctx then
                   (if ic_provider_attribution_strategy ctx = Some ''modeled''
                    then result Non_Organic ''imported'' ''provider_reported'' ''provider_modeled_conversion'' evidence
                    else if \<not> truthy (ic_provider_confirmed_at ctx)
                    then result Non_Organic ''imported'' ''provider_reported'' ''provider_time_authority_unavailable'' evidence
                    else result Non_Organic ''imported'' ''provider_reported'' ''provider_attributed'' evidence)
                 else if ic_provider_attribution_strategy ctx = Some ''organic''
                 then result Organic ''imported'' ''provider_reported'' ''provider_organic'' None
                 else result Unattributed ''imported'' ''provider_reported'' ''provider_unattributed'' None)))"

text \<open>The platform results that precede the first-party path; \<open>None\<close> when the code falls through.\<close>

definition platform_attribution :: "payload \<Rightarrow> attribution \<Rightarrow> attribution option res" where
  "platform_attribution p base =
     (let result = (\<lambda>s m mo r. Inr (Some (attribution_result base s m mo r None))) in
      if p_meta_referrer_status p = Some ''decrypted'' then
        (case p_meta_referrer_context p of
           None \<Rightarrow> throw ''TypeError''
         | Some c \<Rightarrow> result Non_Organic ''meta_install_referrer'' (mc_attribution_model c) ''meta_referrer_decrypted'')
      else if p_meta_referrer_status p \<in> {Some ''decrypt_failed'', Some ''auth_failed''} then
        result Unattributed ''meta_install_referrer''
          (case p_meta_referrer_context p of None \<Rightarrow> ''last_click'' | Some c \<Rightarrow> mc_attribution_model c)
          ''meta_referrer_decrypt_failed''
      else if p_adservices_status p = Some ''attributed''
        then result Non_Organic ''apple_adservices'' ''last_click'' ''adservices_attributed''
      else if p_adservices_status p = Some ''token_expired''
        then result Unattributed ''apple_adservices'' ''last_click'' ''adservices_token_expired''
      else if p_adservices_status p = Some ''not_attributed''
        then result Unattributed ''apple_adservices'' ''last_click'' ''adservices_not_attributed''
      else if p_adservices_status p = Some ''lookup_unavailable''
        then result Unattributed ''apple_adservices'' ''last_click'' ''adservices_lookup_unavailable''
      else if p_referrer_status p = Some ''none'' then result Organic ''none'' ''none'' ''no_referrer''
      else if p_referrer_status p = Some ''third_party'' then
        (if p_third_party_referrer_classification p = Some ''play_organic_marker''
         then result Organic ''none'' ''none'' ''no_first_party_referrer''
         else result Unattributed ''none'' ''none'' ''foreign_referrer_unresolved'')
      else if p_referrer_status p = Some ''unsupported'' then result Unattributed ''none'' ''none'' ''install_referrer_unsupported''
      else if p_referrer_status p = Some ''unavailable'' then result Unattributed ''none'' ''none'' ''install_referrer_unavailable''
      else if p_referrer_status p = Some ''not_applicable'' then result Unattributed ''none'' ''none'' ''platform_referrer_not_available''
      else Inr None)"

definition window_base :: "digests \<Rightarrow> attempt \<Rightarrow> bound_window option \<Rightarrow> attribution \<Rightarrow> attribution" where
  "window_base D a w base =
     (case w of None \<Rightarrow> base
      | Some b \<Rightarrow> base\<lparr> an_rule_bundle := \<lparr> rb_id = bw_rule_bundle_id b, rb_version = bw_rule_bundle_version b,
                                            rb_hash = bw_rule_bundle_hash b \<rparr>,
          an_id := ''attr:window:'' @ sha_strings D [tenant a, app a, record_id a, bw_rule_bundle_hash b] \<rparr>)"

definition window_days :: "bound_window option \<Rightarrow> int" where
  "window_days w = (case w of None \<Rightarrow> 7 | Some b \<Rightarrow> bw_days b)"

definition click_attribution :: "attempt \<Rightarrow> attempt \<Rightarrow> lifecycle_index \<Rightarrow> bound_window option \<Rightarrow> attribution \<Rightarrow> attribution res" where
  "click_attribution a click lc w base =
     (let result = attribution_result base; p = payload_of a; q = payload_of click;
          both = Some [evidence_of lc a (record_id click), evidence_of lc a (record_id a)];
          clickStatus = the_or ''available'' (p_redirector_time_status q);
          installStatus = the_or (if truthy (p_install_begin_at_server p) then ''available'' else ''missing'')
                            (p_install_begin_at_server_status p)
      in if p_bot_prefetch q then Inr (result Unattributed ''none'' ''none'' ''bot_prefetch'' both)
         else if clickStatus = ''invalid'' \<or> installStatus = ''invalid''
         then Inr (result Unattributed ''none'' ''none'' ''authoritative_time_invalid'' None)
         else if clickStatus \<noteq> ''available'' \<or> installStatus \<noteq> ''available''
                 \<or> \<not> truthy (p_redirector_click_at q) \<or> \<not> truthy (p_install_begin_at_server p)
         then Inr (result Unattributed ''none'' ''none'' ''authoritative_time_missing'' None)
         else bindR (time (p_install_begin_at_server p) ''install_begin_at_server'') (\<lambda>begin_at.
              bindR (time (p_redirector_click_at q) ''redirector_click_at'') (\<lambda>click_at.
                if begin_at - click_at < 0 \<or> window_days w * DAY_MS \<le> begin_at - click_at
                then Inr (result Unattributed ''none'' ''none'' ''window_expired'' None)
                else Inr (result Non_Organic ''install_referrer'' ''last_click'' ''valid_install_referrer'' both))))"

definition first_party_attribution :: "digests \<Rightarrow> attempt \<Rightarrow> candidate_provider \<Rightarrow> decisions \<Rightarrow> lifecycle_index \<Rightarrow>
    attribution \<Rightarrow> attribution res" where
  "first_party_attribution D a candidates ds lc base0 =
     bindR (if r_producer (at_record a) \<in> {''sdk-android'', ''sdk-ios''} then boundFirstPartyWindow D (at_server a) else Inr None) (\<lambda>w.
       let base = window_base D a w base0 in
       bindR (filterR (accepted_unique D ds) (cp_clickCandidates candidates (tenant a) (app a) (p_click_id (payload_of a)))) (\<lambda>clicks.
         case clicks of
           [] \<Rightarrow> Inr (attribution_result base Unattributed ''none'' ''none'' ''unknown_click_id'' None)
         | [click] \<Rightarrow> click_attribution a click lc w base
         | _ \<Rightarrow> Inr (attribution_result base Unattributed ''none'' ''none'' ''ambiguous_click_id'' None)))"

definition is_imported :: "attempt \<Rightarrow> bool" where
  "is_imported a \<longleftrightarrow> starts_with (r_producer (at_record a)) ''import:''"

definition makeAttribution :: "digests \<Rightarrow> attempt \<Rightarrow> candidate_provider \<Rightarrow> decisions \<Rightarrow> lifecycle_index \<Rightarrow> attribution res" where
  "makeAttribution D a candidates ds lc =
     bindR (boundNonFraudBundle D (at_server a) ''attribution-default'') (\<lambda>bundle.
       let base = attribution_base lc a bundle in
       if is_imported a then imported_attribution D a candidates ds lc base
       else bindR (platform_attribution (payload_of a) base) (\<lambda>platform.
         case platform of Some an \<Rightarrow> Inr an
         | None \<Rightarrow> first_party_attribution D a candidates ds lc base))"

definition previewAcceptedFirstPartyAttribution :: "digests \<Rightarrow> (attribution \<Rightarrow> string) \<Rightarrow> attempt list \<Rightarrow> attribution list res" where
  "previewAcceptedFirstPartyAttribution D sha evidence =
     guardR (\<not> (1 < length (remdups (map (\<lambda>a. tenant a @ [CHR 0x00] @ app a) evidence))
              \<or> \<not> distinct (map record_id evidence)
              \<or> (\<exists>a \<in> set evidence. case at_history a of None \<Rightarrow> True | Some h \<Rightarrow> \<not> hs_semantic_available h)))
       ''attribution_preview_evidence_invalid''
       (bindR (mapR (\<lambda>a. makeAttribution D a (IndexedCandidateProvider evidence) [] [])
                (filter (\<lambda>a. event_name a = ''install'') evidence))
         (\<lambda>ans. Inr (sortByKey sha (\<lambda>an. [the_or [] (an_subject_ref an), an_id an]) ans)))"

section \<open>Postbacks and deep links\<close>

definition makeAggregatePostbackAttribution :: "digests \<Rightarrow> attempt \<Rightarrow> lifecycle_index \<Rightarrow> attribution res" where
  "makeAggregatePostbackAttribution D a lc =
     bindR (boundNonFraudBundle D (at_server a) ''apple-postback-default'') (\<lambda>bundle.
       let p = payload_of a;
           method = (if event_name a = ''skan_postback'' then ''skadnetwork'' else ''adattributionkit'');
           outcome = (if \<not> p_signature_verified p then (Unattributed, ''skan_signature_invalid'')
                      else if \<not> p_did_win p then (Unattributed, ''postback_not_winner'')
                      else if p_source_identifier p = None then (Unattributed, ''crowd_anonymity_suppressed'')
                      else if p_conversion_value p = None \<and> p_coarse_conversion_value p = None
                      then (Unattributed, ''conversion_value_null'')
                      else (Non_Organic, ''skan_postback_verified''))
       in Inr ((attribution_base lc a bundle)
            \<lparr> an_subject_scope := Aggregate, an_subject_ref := Some (''aggregate:'' @ method @ '':'' @ record_id a),
              an_status := fst outcome, an_method := method, an_model := ''aggregate'', an_reason_code := snd outcome \<rparr>))"

definition makeDeepLinkAttribution :: "digests \<Rightarrow> attempt \<Rightarrow> lifecycle_index \<Rightarrow> attribution res" where
  "makeDeepLinkAttribution D a lc =
     bindR (boundNonFraudBundle D (at_server a) ''attribution-default'') (\<lambda>bundle.
       let resolution = the_or \<lparr> dl_status = ''unknown'', dl_campaign_id = None, dl_tracking_link_id = None,
                                 dl_install_attribution_click_id = None \<rparr> (sv_deep_link_resolution (at_server a));
           reused = p_open_source (payload_of a) = Some ''android_deferred_referrer''
                    \<and> dl_install_attribution_click_id resolution = p_click_id (payload_of a)
       in Inr ((attribution_base lc a bundle)
            \<lparr> an_id := ''attr:engagement:'' @ record_id a, an_subject_scope := Engagement_Level,
              an_subject_ref := Some (''engagement:'' @ record_id a),
              an_status := (if dl_status resolution = ''active'' \<and> \<not> reused then Non_Organic else Unattributed),
              an_method := ''deep_link'', an_model := ''last_click'',
              an_reason_code := (if reused then ''deep_link_install_click_reused''
                else if dl_status resolution = ''active'' then ''deep_link_open_attributed''
                else if dl_status resolution = ''inactive'' then ''deep_link_link_inactive''
                else ''deep_link_unknown_link'') \<rparr>))"

section \<open>The initial artifacts\<close>

definition attribution_installs :: "attempt list \<Rightarrow> attempt list \<Rightarrow> attempt list" where
  "attribution_installs acceptedUnique acceptedCandidates =
     (let clickIds = map (\<lambda>a. p_click_id (payload_of a)) (filter (\<lambda>a. event_name a = ''click'') acceptedUnique) in
      filter (\<lambda>a. event_name a = ''install'') acceptedUnique
      @ filter (\<lambda>a. at_history a \<noteq> None \<and> event_name a = ''install'' \<and> truthy (p_click_id (payload_of a))
                 \<and> p_click_id (payload_of a) \<in> set clickIds) acceptedCandidates)"

definition attribution_key :: "attribution \<Rightarrow> string list" where
  "attribution_key an = [an_id an, an_tenant_id an, an_app_id an]"

definition initialAttributionArtifacts :: "digests \<Rightarrow> (attribution \<Rightarrow> string) \<Rightarrow> attempt list \<Rightarrow> attempt list \<Rightarrow>
    candidate_provider \<Rightarrow> decisions \<Rightarrow> lifecycle_index \<Rightarrow> (attempt list \<times> attribution list) res" where
  "initialAttributionArtifacts D sha acceptedUnique acceptedCandidates candidates ds lc =
     (let installs = attribution_installs acceptedUnique acceptedCandidates in
      bindR (mapR (\<lambda>a. makeAttribution D a candidates ds lc) installs) (\<lambda>xs.
      bindR (mapR (\<lambda>a. makeAggregatePostbackAttribution D a lc)
               (filter (\<lambda>a. event_name a \<in> {''skan_postback'', ''adattributionkit_postback''}) acceptedUnique)) (\<lambda>ys.
      bindR (mapR (\<lambda>a. makeDeepLinkAttribution D a lc) (filter (\<lambda>a. event_name a = ''deep_link_open'') acceptedUnique)) (\<lambda>zs.
        Inr (installs, sortByKey sha attribution_key (xs @ ys @ zs))))))"

section \<open>Lemmas\<close>

lemma attribution_result_fields [simp]:
  "an_status (attribution_result base s m mo r ev) = s" "an_method (attribution_result base s m mo r ev) = m"
  "an_model (attribution_result base s m mo r ev) = mo" "an_reason_code (attribution_result base s m mo r ev) = r"
  "an_evidence_refs (attribution_result base s m mo r ev) = the_or (an_evidence_refs base) ev"
  "an_tenant_id (attribution_result base s m mo r ev) = an_tenant_id base"
  "an_app_id (attribution_result base s m mo r ev) = an_app_id base"
  "an_subject_scope (attribution_result base s m mo r ev) = an_subject_scope base"
  "an_subject_ref (attribution_result base s m mo r ev) = an_subject_ref base"
  "an_fraud_decision_ref (attribution_result base s m mo r ev) = an_fraud_decision_ref base"
  by (simp_all add: attribution_result_def Let_def)

lemma window_base_fields [simp]:
  "an_evidence_refs (window_base D a w base) = an_evidence_refs base"
  "an_tenant_id (window_base D a w base) = an_tenant_id base" "an_app_id (window_base D a w base) = an_app_id base"
  "an_subject_ref (window_base D a w base) = an_subject_ref base"
  "an_subject_scope (window_base D a w base) = an_subject_scope base"
  "an_finality (window_base D a w base) = an_finality base" "an_supersedes (window_base D a w base) = an_supersedes base"
  by (simp_all add: window_base_def split: option.splits)

lemma attribution_base_fields [simp]:
  "an_evidence_refs (attribution_base lc a b) = [evidence_of lc a (record_id a)]"
  "an_tenant_id (attribution_base lc a b) = tenant a" "an_app_id (attribution_base lc a b) = app a"
  "an_subject_ref (attribution_base lc a b) = installation a"
  "an_subject_scope (attribution_base lc a b) = Installation_Level"
  "an_finality (attribution_base lc a b) = Final" "an_supersedes (attribution_base lc a b) = None"
  by (simp_all add: attribution_base_def)

lemma imported_attribution_method:
  "imported_attribution D a candidates ds lc base = Inr an \<Longrightarrow> an_method an = ''imported'' \<and> an_model an = ''provider_reported''"
  by (auto simp: imported_attribution_def Let_def bindR_eq_Inr split: option.splits if_splits)

lemma platform_attribution_Some:
  "platform_attribution p base = Inr (Some an) \<Longrightarrow> \<exists>s m mo r. an = attribution_result base s m mo r None
     \<and> m \<in> {''none'', ''apple_adservices'', ''meta_install_referrer''} \<and> r \<noteq> ''valid_install_referrer''"
  by (auto simp: platform_attribution_def Let_def throw_def split: if_splits option.splits)

lemma click_attribution_shape:
  assumes "click_attribution a click lc w base = Inr an"
  shows "\<exists>s m mo r ev. an = attribution_result base s m mo r ev
     \<and> ev \<in> {None, Some [evidence_of lc a (record_id click), evidence_of lc a (record_id a)]}"
  using assms by (fastforce simp: click_attribution_def Let_def bindR_eq_Inr split: if_splits)

lemma click_attribution_credit:
  assumes "click_attribution a click lc w base = Inr an" "an_status an = Non_Organic"
  shows "an_reason_code an = ''valid_install_referrer''" "an_method an = ''install_referrer''"
    "an_evidence_refs an = [evidence_of lc a (record_id click), evidence_of lc a (record_id a)]"
    "\<not> p_bot_prefetch (payload_of click)"
    "\<exists>t u. time (p_install_begin_at_server (payload_of a)) ''install_begin_at_server'' = Inr t
       \<and> time (p_redirector_click_at (payload_of click)) ''redirector_click_at'' = Inr u \<and> u \<le> t \<and> t < u + window_days w * DAY_MS"
  using assms by (auto simp: click_attribution_def Let_def bindR_eq_Inr split: if_splits)

lemma first_party_Inr:
  assumes "first_party_attribution D a candidates ds lc base = Inr an"
  obtains (missing) w r where "an = attribution_result (window_base D a w base) Unattributed ''none'' ''none'' r None"
      "r \<in> {''unknown_click_id'', ''ambiguous_click_id''}"
  | (click) w c where "filterR (accepted_unique D ds) (cp_clickCandidates candidates (tenant a) (app a) (p_click_id (payload_of a))) = Inr [c]"
      "click_attribution a c lc w (window_base D a w base) = Inr an"
      "(if r_producer (at_record a) \<in> {''sdk-android'', ''sdk-ios''} then boundFirstPartyWindow D (at_server a) else Inr None) = Inr w"
proof -
  let ?cs = "cp_clickCandidates candidates (tenant a) (app a) (p_click_id (payload_of a))"
  from assms obtain w clicks
    where w: "(if r_producer (at_record a) \<in> {''sdk-android'', ''sdk-ios''} then boundFirstPartyWindow D (at_server a) else Inr None) = Inr w"
    and c: "filterR (accepted_unique D ds) ?cs = Inr clicks"
    and an: "(case clicks of [] \<Rightarrow> Inr (attribution_result (window_base D a w base) Unattributed ''none'' ''none'' ''unknown_click_id'' None)
         | [click] \<Rightarrow> click_attribution a click lc w (window_base D a w base)
         | _ \<Rightarrow> Inr (attribution_result (window_base D a w base) Unattributed ''none'' ''none'' ''ambiguous_click_id'' None)) = Inr an"
    unfolding first_party_attribution_def bindR_eq_Inr Let_def by blast
  show thesis
  proof (cases clicks rule: remdups_adj.cases)
    case 1
    with an show thesis by (intro missing) auto
  next
    case (2 x)
    with an c w show thesis by (intro click) auto
  next
    case (3 x y xs)
    with an show thesis by (intro missing) auto
  qed
qed

lemma filterR_member: "filterR p xs = Inr ys \<Longrightarrow> y \<in> set ys \<Longrightarrow> y \<in> set xs \<and> p y = Inr True"
  by (auto simp: filterR_eq_Inr)

lemma imported_shape:
  assumes "imported_attribution D a candidates ds lc base = Inr an"
  shows "\<exists>s r ev. an = attribution_result base s ''imported'' ''provider_reported'' r ev
     \<and> (ev = None \<or> (\<exists>c. ev = Some [evidence_of lc a (record_id c), evidence_of lc a (record_id a)]))"
proof (cases "p_import_context (payload_of a)")
  case None
  with assms show ?thesis by (auto simp: imported_attribution_def Let_def)
next
  case (Some ctx)
  with assms obtain clicks where an: "an =
     (let evidence = (case clicks of [c] \<Rightarrow> Some [evidence_of lc a (record_id c), evidence_of lc a (record_id a)] | _ \<Rightarrow> None);
          result = attribution_result base
      in if ic_provider_attributed ctx then
                   (if ic_provider_attribution_strategy ctx = Some ''modeled''
                    then result Non_Organic ''imported'' ''provider_reported'' ''provider_modeled_conversion'' evidence
                    else if \<not> truthy (ic_provider_confirmed_at ctx)
                    then result Non_Organic ''imported'' ''provider_reported'' ''provider_time_authority_unavailable'' evidence
                    else result Non_Organic ''imported'' ''provider_reported'' ''provider_attributed'' evidence)
                 else if ic_provider_attribution_strategy ctx = Some ''organic''
                 then result Organic ''imported'' ''provider_reported'' ''provider_organic'' None
                 else result Unattributed ''imported'' ''provider_reported'' ''provider_unattributed'' None)"
    by (auto simp: imported_attribution_def Let_def bindR_eq_Inr)
  define ev where "ev = (case clicks of [c] \<Rightarrow> Some [evidence_of lc a (record_id c), evidence_of lc a (record_id a)] | _ \<Rightarrow> None)"
  have "ev = None \<or> (\<exists>c. ev = Some [evidence_of lc a (record_id c), evidence_of lc a (record_id a)])"
    unfolding ev_def by (cases clicks rule: remdups_adj.cases) auto
  with an show ?thesis unfolding Let_def ev_def [symmetric] by (fastforce split: if_splits)
qed

lemma makeAttribution_cases:
  assumes "makeAttribution D a candidates ds lc = Inr an"
  obtains (imported) b where "is_imported a" "imported_attribution D a candidates ds lc (attribution_base lc a b) = Inr an"
  | (platform) b where "\<not> is_imported a" "platform_attribution (payload_of a) (attribution_base lc a b) = Inr (Some an)"
  | (first) b where "\<not> is_imported a" "first_party_attribution D a candidates ds lc (attribution_base lc a b) = Inr an"
  using assms by (auto simp: makeAttribution_def bindR_eq_Inr Let_def split: if_splits option.splits)

lemma makeAttribution_shape:
  assumes "makeAttribution D a candidates ds lc = Inr an"
  shows "\<exists>b w s m mo r ev. an = attribution_result (window_base D a w (attribution_base lc a b)) s m mo r ev
     \<and> (ev = None \<or> (\<exists>c. ev = Some [evidence_of lc a (record_id c), evidence_of lc a (record_id a)]))"
proof -
  have id: "window_base D a None base = base" for base by (simp add: window_base_def)
  from assms show ?thesis
  proof (cases rule: makeAttribution_cases)
    case (imported b)
    from imported_shape [OF imported(2)] show ?thesis by (metis id)
  next
    case (platform b)
    from platform_attribution_Some [OF platform(2)] show ?thesis by (metis id)
  next
    case (first b)
    from first(2) show ?thesis
    proof (cases rule: first_party_Inr)
      case (missing w r)
      then show ?thesis by blast
    next
      case (click w c)
      from click_attribution_shape [OF click(2)] show ?thesis by blast
    qed
  qed
qed

section \<open>Properties\<close>

text \<open>The window in days that applies to an install: that of the definition its server context binds, when an SDK reported
  it, and 7 without one or for another producer.\<close>

definition applied_days :: "attempt \<Rightarrow> int" where
  "applied_days a =
     (if r_producer (at_record a) \<in> {''sdk-android'', ''sdk-ios''}
      then (case sv_first_party_bundle (at_server a) of None \<Rightarrow> 7 | Some (binding, definition) \<Rightarrow> wn_lookback_days definition) else 7)"

lemma applied_window:
  assumes "(if r_producer (at_record a) \<in> {''sdk-android'', ''sdk-ios''} then boundFirstPartyWindow D (at_server a) else Inr None) = Inr w"
  shows "window_days w = applied_days a \<and> applied_days a \<in> {1, 7, 30}"
  using assms
  by (auto simp: applied_days_def window_days_def boundFirstPartyWindow_def bindR_eq_Inr guardR_eq_Inr validateFirstPartyWindowDefinition_def
      firstPartyWindowDefinition_def FIRST_PARTY_WINDOW_DAYS_def split: option.splits if_splits)

text \<open>C31. First-party credit is earned: an install credited to the install referrer is not imported, and
  exactly one accepted, unique click of its tenant and app carries its click id; that click is no
  prefetch, and the authoritative install begin follows it by less than the window, which is that of the window
  definition bound to the server context of an SDK install (1, 7 or 30 days), and 7 days without a bound definition or
  for another producer. The click and the install are the evidence.\<close>

theorem first_party_credit:
  assumes "makeAttribution D a (IndexedCandidateProvider ordered) ds lc = Inr an" and "an_method an = ''install_referrer''"
  shows "\<not> is_imported a \<and> an_status an = Non_Organic
    \<and> (\<exists>c t u. c \<in> set ordered \<and> event_name c = ''click'' \<and> tenant c = tenant a \<and> app c = app a
         \<and> p_click_id (payload_of c) = p_click_id (payload_of a) \<and> accepted_unique D ds c = Inr True
         \<and> (\<forall>c' \<in> set ordered. event_name c' = ''click'' \<and> tenant c' = tenant a \<and> app c' = app a
              \<and> p_click_id (payload_of c') = p_click_id (payload_of a) \<and> accepted_unique D ds c' = Inr True \<longrightarrow> c' = c)
         \<and> \<not> p_bot_prefetch (payload_of c)
         \<and> time (p_install_begin_at_server (payload_of a)) ''install_begin_at_server'' = Inr t
         \<and> time (p_redirector_click_at (payload_of c)) ''redirector_click_at'' = Inr u
         \<and> u \<le> t \<and> t < u + applied_days a * DAY_MS \<and> applied_days a \<in> {1, 7, 30}
         \<and> map ev_ref (an_evidence_refs an) = [record_id c, record_id a])"
  using assms(1)
proof (cases rule: makeAttribution_cases)
  case (imported b)
  from imported_shape [OF imported(2)] assms(2) show ?thesis by auto
next
  case (platform b)
  from platform_attribution_Some [OF platform(2)] assms(2) show ?thesis by auto
next
  case (first b)
  from first(2) show ?thesis
  proof (cases rule: first_party_Inr)
    case (missing w r)
    with assms(2) show ?thesis by simp
  next
    case (click w c)
    have "an_status an = Non_Organic"
      using click(2) assms(2) by (auto simp: click_attribution_def Let_def bindR_eq_Inr split: if_splits)
    note credit = click_attribution_credit [OF click(2) this]
    from credit(5) obtain t u where tu: "time (p_install_begin_at_server (payload_of a)) ''install_begin_at_server'' = Inr t"
      "time (p_redirector_click_at (payload_of c)) ''redirector_click_at'' = Inr u" "u \<le> t" "t < u + applied_days a * DAY_MS"
      using applied_window [OF click(3)] by auto
    have days: "applied_days a \<in> {1, 7, 30}" using applied_window [OF click(3)] by blast
    have clicks: "filter (\<lambda>x. accepted_unique D ds x = Inr True) (filter (\<lambda>c. tenant c = tenant a \<and> app c = app a
        \<and> event_name c = ''click'' \<and> p_click_id (payload_of c) = p_click_id (payload_of a)) ordered) = [c]"
      using click(1) by (simp add: filterR_eq_Inr indexed.clicks)
    then have "c \<in> set (filter (\<lambda>x. accepted_unique D ds x = Inr True) (filter (\<lambda>c. tenant c = tenant a \<and> app c = app a
        \<and> event_name c = ''click'' \<and> p_click_id (payload_of c) = p_click_id (payload_of a)) ordered))" by simp
    then have c: "c \<in> set ordered" "event_name c = ''click''" "tenant c = tenant a" "app c = app a"
      "p_click_id (payload_of c) = p_click_id (payload_of a)" "accepted_unique D ds c = Inr True" by simp_all
    have one: "c' = c" if "c' \<in> set ordered" "event_name c' = ''click''" "tenant c' = tenant a" "app c' = app a"
        "p_click_id (payload_of c') = p_click_id (payload_of a)" "accepted_unique D ds c' = Inr True" for c'
    proof -
      have "c' \<in> set (filter (\<lambda>x. accepted_unique D ds x = Inr True) (filter (\<lambda>c. tenant c = tenant a \<and> app c = app a
        \<and> event_name c = ''click'' \<and> p_click_id (payload_of c) = p_click_id (payload_of a)) ordered))" using that by simp
      with clicks show ?thesis by simp
    qed
    have "map ev_ref (an_evidence_refs an) = [record_id c, record_id a]" by (simp add: credit(3) evidence_of_def)
    note all = c credit(4) tu days this
    show ?thesis
      by (rule conjI [OF first(1)], rule conjI [OF \<open>an_status an = Non_Organic\<close>], rule exI [of _ c], rule exI [of _ t],
          rule exI [of _ u])
        (intro conjI ballI impI all; elim conjE; rule one; assumption)
  qed
qed

text \<open>An install reported by an import keeps the provider's word: its method is \<open>imported\<close> and its model
  \<open>provider_reported\<close>, whatever the payload says of referrers and clicks.\<close>

theorem imported_never_first_party:
  assumes "makeAttribution D a candidates ds lc = Inr an" and "starts_with (r_producer (at_record a)) ''import:''"
  shows "an_method an = ''imported'' \<and> an_model an = ''provider_reported'' \<and> an_status an \<in> {Non_Organic, Organic, Unattributed}
    \<and> (an_status an = Non_Organic \<longrightarrow> (\<exists>ctx. p_import_context (payload_of a) = Some ctx \<and> ic_provider_attributed ctx))"
  using assms(1)
proof (cases rule: makeAttribution_cases)
  case (imported b)
  have "an_status an = Non_Organic \<Longrightarrow> \<exists>ctx. p_import_context (payload_of a) = Some ctx \<and> ic_provider_attributed ctx"
    using imported(2) by (auto simp: imported_attribution_def Let_def bindR_eq_Inr split: option.splits if_splits)
  with imported_attribution_method [OF imported(2)] show ?thesis by (cases "an_status an") auto
qed (use assms(2) in \<open>simp_all add: is_imported_def\<close>)

text \<open>The evidence of an install's attribution is in its own tenant and app and includes the install. The
  attribution is superseded, with a new id that names the one it replaces, exactly when some of its
  evidence was redacted or purged; otherwise it is final.\<close>

theorem attribution_evidence:
  assumes "makeAttribution D a candidates ds lc = Inr an"
  shows "an_tenant_id an = tenant a \<and> an_app_id an = app a \<and> an_subject_ref an = installation a
    \<and> (\<forall>e \<in> set (an_evidence_refs an). ev_tenant_id e = tenant a \<and> ev_app_id e = app a
         \<and> ev_lifecycle_status e = lifecycle_of lc (tenant a) (app a) (ev_ref e))
    \<and> record_id a \<in> ev_ref ` set (an_evidence_refs an)
    \<and> (if \<forall>e \<in> set (an_evidence_refs an). ev_lifecycle_status e = Available
       then an_finality an = Final \<and> an_supersedes an = None
       else an_finality an = Superseded \<and> (\<exists>i. an_supersedes an = Some i \<and> an_id an = i @ '':recalculated''))"
proof -
  from makeAttribution_shape [OF assms] obtain b w s m mo r ev where
    an: "an = attribution_result (window_base D a w (attribution_base lc a b)) s m mo r ev" and
    ev: "ev = None \<or> (\<exists>c. ev = Some [evidence_of lc a (record_id c), evidence_of lc a (record_id a)])" by blast
  have refs: "an_evidence_refs an = the_or [evidence_of lc a (record_id a)] ev" by (simp add: an)
  have fin: "if \<forall>e \<in> set (an_evidence_refs an). ev_lifecycle_status e = Available
       then an_finality an = Final \<and> an_supersedes an = None
       else an_finality an = Superseded \<and> (\<exists>i. an_supersedes an = Some i \<and> an_id an = i @ '':recalculated'')"
    unfolding refs by (simp add: an attribution_result_def Let_def)
  have "\<forall>e \<in> set (an_evidence_refs an). ev_tenant_id e = tenant a \<and> ev_app_id e = app a
         \<and> ev_lifecycle_status e = lifecycle_of lc (tenant a) (app a) (ev_ref e)"
    "record_id a \<in> ev_ref ` set (an_evidence_refs an)"
    using ev by (auto simp: refs evidence_of_def)
  with fin show ?thesis by (simp add: an)
qed

section \<open>A concrete install\<close>

definition ex_ref_click :: attempt where
  "ex_ref_click = ledger_attempt ''dc'' (blank_attempt ''t'' ''a'' ''c1'' ''click'' (blank_payload\<lparr>p_click_id := Some ''k'',
     p_redirector_click_at := Some ''2026-01-10T00:00:00.000Z''\<rparr>))"

definition ex_ref_install :: attempt where
  "ex_ref_install = ledger_attempt ''di'' (blank_attempt ''t'' ''a'' ''i1'' ''install'' (blank_payload\<lparr>p_click_id := Some ''k'',
     p_installation_id := Some ''i'', p_referrer_status := Some ''available'',
     p_install_begin_at_server := Some ''2026-01-10T00:00:00.000Z''\<rparr>))"

definition ex_imported_install :: attempt where
  "ex_imported_install = (blank_attempt ''t'' ''a'' ''i2'' ''install'' blank_payload)
     \<lparr>at_record := (blank_record ''t'' ''a'' ''i2'' ''install'' blank_payload)\<lparr>r_producer := ''import:x''\<rparr>\<rparr>"

lemmas attribution_eval = makeAttribution_def boundNonFraudBundle_def Let_def is_imported_def platform_attribution_def
  first_party_attribution_def boundFirstPartyWindow_def FixtureArrayCandidateProvider_def providers_agree
  accepted_unique_def decisionFor_def is_accepted_unique_def click_attribution_def attribution_result_def attribution_base_def
  window_base_def window_days_def evidence_of_def lifecycle_of_def ex_ref_click_def ex_ref_install_def blank_defs starts_with_def

lemma ex_credit:
  "\<exists>an. makeAttribution sample_digests ex_ref_install (IndexedCandidateProvider [ex_ref_click, ex_ref_install]) [] [] = Inr an
     \<and> an_method an = ''install_referrer'' \<and> map ev_ref (an_evidence_refs an) = [''c1'', ''i1'']"
  by (simp add: attribution_eval)

theorem first_party_credit_witness:
  "\<exists>c \<in> set [ex_ref_click, ex_ref_install]. event_name c = ''click'' \<and> p_click_id (payload_of c) = Some ''k''
     \<and> \<not> p_bot_prefetch (payload_of c)"
proof -
  obtain an where an: "makeAttribution sample_digests ex_ref_install (IndexedCandidateProvider [ex_ref_click, ex_ref_install]) [] [] = Inr an"
    "an_method an = ''install_referrer''" using ex_credit by blast
  have "p_click_id (payload_of ex_ref_install) = Some ''k''" by (simp add: ex_ref_install_def blank_defs)
  with first_party_credit [OF an] show ?thesis by metis
qed

theorem imported_never_first_party_witness:
  "\<exists>an. makeAttribution sample_digests ex_imported_install (IndexedCandidateProvider []) [] [] = Inr an \<and> an_method an = ''imported''"
proof -
  have "\<exists>an. makeAttribution sample_digests ex_imported_install (IndexedCandidateProvider []) [] [] = Inr an"
    by (simp add: attribution_eval imported_attribution_def ex_imported_install_def)
  then obtain an where an: "makeAttribution sample_digests ex_imported_install (IndexedCandidateProvider []) [] [] = Inr an" by blast
  with imported_never_first_party [OF an] show ?thesis by (simp add: ex_imported_install_def starts_with_def)
qed

theorem attribution_evidence_witness:
  "\<exists>an. makeAttribution sample_digests ex_ref_install (IndexedCandidateProvider [ex_ref_click, ex_ref_install]) [] [] = Inr an
     \<and> an_tenant_id an = ''t'' \<and> ''i1'' \<in> ev_ref ` set (an_evidence_refs an)"
proof -
  obtain an where an: "makeAttribution sample_digests ex_ref_install (IndexedCandidateProvider [ex_ref_click, ex_ref_install]) [] [] = Inr an"
    using ex_credit by blast
  from attribution_evidence [OF an] an show ?thesis by (simp add: ex_ref_install_def blank_defs)
qed

end
