(* ===== verification/Fraud_Artifacts.thy ===== *)
theory Fraud_Artifacts
  imports Attribution
begin

text \<open>
  \<open>packages/attribution-core/src/fraud-artifacts.ts\<close>: the fraud decisions on clicks, installs and
  source days, the provisional attributions of a day with too many negative click-to-install
  times, and the attributions that a fraud exclusion supersedes. The theorems say that fraud
  never erases an attribution, and that only an exclusion with actions enabled changes credit.
\<close>

section \<open>Decisions\<close>

record fraud_decision =
  fd_id :: string
  fd_source_scope :: bool
  fd_subject_ref :: string
  fd_decision :: fraud_verdict
  fd_action :: fraud_action
  fd_reason_code :: string
  fd_evidence_type :: string
  fd_captured_at :: string
  fd_digest :: string
  fd_rule_bundle :: rule_bundle
  fd_rule_id :: string
  fd_evaluated_at :: string
  fd_resolution_deadline_at :: "string option"

record source_day_aggregate =
  sa_tenant_id :: string
  sa_app_id :: string
  sa_metric_date :: string
  sa_campaign_id :: string
  sa_network :: string
  sa_site_id :: string
  sa_clicks :: rat
  sa_installs :: rat
  sa_medianCvr :: rat
  sa_ctitP50Ms :: "rat option"
  sa_ctitP95Ms :: "rat option"
  sa_ctitNegativeCount :: "rat option"
  sa_input_snapshot_id :: string
  sa_computed_at :: string

definition flatMapR :: "('a \<Rightarrow> 'b list res) \<Rightarrow> 'a list \<Rightarrow> 'b list res" where
  "flatMapR f xs = bindR (mapR f xs) (\<lambda>ys. Inr (concat ys))"

definition bundle_of :: "bound_fraud \<Rightarrow> rule_bundle" where
  "bundle_of b = \<lparr> rb_id = fb_id (bf_definition b), rb_version = fb_version (bf_definition b), rb_hash = bf_hash b \<rparr>"

definition transport_fraud :: "digests \<Rightarrow> attempt \<Rightarrow> fraud_decision list res" where
  "transport_fraud D a =
     (let p = payload_of a in
      if event_name a \<noteq> ''click'' \<or> (\<not> p_bot_prefetch p \<and> \<not> p_replay_suspected p) then Inr []
      else bindR (boundFraudBundle D (at_server a)) (\<lambda>bound.
        case bound of None \<Rightarrow> Inr []
        | Some b \<Rightarrow>
            let replay = p_replay_suspected p;
                reason = (if replay then ''replay_suspected'' else ''bot_prefetch'');
                rule = (if replay then ''transport-replay-v1'' else ''transport-bot-prefetch-v1'');
                action = fraudRuleAction (bf_definition b) rule Exclude;
                received = r_received_at (at_record a)
            in bindR (quarantineDeadline action received (bf_definition b)) (\<lambda>deadline.
                 Inr [\<lparr> fd_id = ''fraud:'' @ record_id a, fd_source_scope = False, fd_subject_ref = record_id a,
                        fd_decision = Suspected, fd_action = action, fd_reason_code = reason,
                        fd_evidence_type = (if replay then ''replay_category'' else ''link_prefetch_category''),
                        fd_captured_at = received, fd_digest = sha_strings D [reason, record_id a],
                        fd_rule_bundle = bundle_of b, fd_rule_id = rule, fd_evaluated_at = received,
                        fd_resolution_deadline_at = deadline \<rparr>])))"

definition matching_click :: "attempt list \<Rightarrow> attempt \<Rightarrow> attempt option" where
  "matching_click acceptedCandidates a =
     (let p = payload_of a;
          clicks = (if truthy (p_click_id p) then filter (\<lambda>c. tenant c = tenant a \<and> app c = app a \<and> event_name c = ''click''
                       \<and> p_click_id (payload_of c) = p_click_id p
                       \<and> p_redirector_time_status (payload_of c) \<noteq> Some ''invalid''
                       \<and> truthy (p_redirector_click_at (payload_of c))) acceptedCandidates else [])
      in case clicks of [c] \<Rightarrow> Some c | _ \<Rightarrow> None)"

definition configured_policy :: "digests \<Rightarrow> attempt \<Rightarrow> fraud_bundle \<Rightarrow> injection_policy" where
  "configured_policy D a b =
     (let threshold = fraudNumberParameter b ''ctit_lower_bound_seconds'' 10;
          version = fb_id b @ '':'' @ fb_version b
      in the_or \<lparr> ip_threshold_seconds = threshold, ip_authority = ''server'', ip_policy_version = version,
                  ip_policy_digest = sha_injection D threshold ''server'' version \<rparr> (sv_click_injection_policy (at_server a)))"

definition install_fraud :: "digests \<Rightarrow> attempt list \<Rightarrow> attempt \<Rightarrow> fraud_decision list res" where
  "install_fraud D acceptedCandidates a =
     (if event_name a \<noteq> ''install'' then Inr []
      else bindR (boundFraudBundle D (at_server a)) (\<lambda>bound.
        case bound of None \<Rightarrow> Inr []
        | Some b \<Rightarrow>
            let p = payload_of a; click = matching_click acceptedCandidates a; received = r_received_at (at_record a)
            in bindR (evaluateInstallRules D
                 \<lparr> ii_installBeginAtServer = p_install_begin_at_server p,
                   ii_referrerClickAtServer = p_referrer_click_at_server p,
                   ii_referrerClickAtServerStatus = p_referrer_click_at_server_status p,
                   ii_redirectorClickAt = (case click of None \<Rightarrow> None | Some c \<Rightarrow> p_redirector_click_at (payload_of c)),
                   ii_policy = configured_policy D a (bf_definition b), ii_bundle = Some (bf_definition b) \<rparr>)
               (mapR (\<lambda>hit. bindR (quarantineDeadline (fh_action hit) received (bf_definition b)) (\<lambda>deadline.
                  Inr \<lparr> fd_id = (if fh_ruleId hit = ''ctit-lower-bound-v1'' then ''fraud:'' @ record_id a @ '':click-injection''
                                 else ''fraud:'' @ record_id a @ '':'' @ fh_ruleId hit),
                        fd_source_scope = False, fd_subject_ref = record_id a, fd_decision = fh_decision hit,
                        fd_action = fh_action hit, fd_reason_code = fh_reasonCode hit, fd_evidence_type = fh_evidenceType hit,
                        fd_captured_at = received,
                        fd_digest = sha_strings D [fh_ruleId hit,
                          (case click of None \<Rightarrow> ''no-redirector-click'' | Some c \<Rightarrow> record_id c), record_id a],
                        fd_rule_bundle = bundle_of b, fd_rule_id = fh_ruleId hit, fd_evaluated_at = received,
                        fd_resolution_deadline_at = deadline \<rparr>)))))"

definition source_bundle :: "digests \<Rightarrow> attempt list \<Rightarrow> bound_fraud \<Rightarrow> source_day_aggregate \<Rightarrow> bound_fraud option res" where
  "source_bundle D acceptedUnique sourceOnly g =
     (case List.find (\<lambda>a. tenant a = sa_tenant_id g \<and> app a = sa_app_id g) acceptedUnique of
        Some a \<Rightarrow> boundFraudBundle D (at_server a) | None \<Rightarrow> Inr (Some sourceOnly))"

definition source_day_fraud :: "digests \<Rightarrow> attempt list \<Rightarrow> bound_fraud \<Rightarrow> source_day_aggregate \<Rightarrow> fraud_decision list res" where
  "source_day_fraud D acceptedUnique sourceOnly g =
     bindR (source_bundle D acceptedUnique sourceOnly g) (\<lambda>bound.
       case bound of None \<Rightarrow> Inr []
       | Some b \<Rightarrow>
           (case evaluateSourceDayWithBundle \<lparr> si_clicks = sa_clicks g, si_installs = sa_installs g, si_medianCvr = sa_medianCvr g,
                si_ctitP50Ms = sa_ctitP50Ms g, si_ctitP95Ms = sa_ctitP95Ms g \<rparr> (bf_definition b) of
              None \<Rightarrow> Inr []
            | Some hit \<Rightarrow>
                bindR (quarantineDeadline (fh_action hit) (sa_computed_at g) (bf_definition b)) (\<lambda>deadline.
                  Inr [\<lparr> fd_id = ''fraud:'' @ sa_input_snapshot_id g, fd_source_scope = True,
                         fd_subject_ref = ''source:'' @ sa_tenant_id g @ '':'' @ sa_app_id g @ '':'' @ sa_metric_date g @ '':''
                           @ sa_campaign_id g @ '':'' @ sa_network g @ '':'' @ sa_site_id g,
                         fd_decision = fh_decision hit, fd_action = fh_action hit, fd_reason_code = fh_reasonCode hit,
                         fd_evidence_type = fh_evidenceType hit, fd_captured_at = sa_computed_at g,
                         fd_digest = sa_input_snapshot_id g, fd_rule_bundle = bundle_of b, fd_rule_id = fh_ruleId hit,
                         fd_evaluated_at = sa_computed_at g, fd_resolution_deadline_at = deadline \<rparr>])))"

section \<open>Provisional attributions\<close>

definition source_days :: "source_day_aggregate list \<Rightarrow> (string, source_day_aggregate list) jsmap" where
  "source_days gs = foldl (\<lambda>m g. let key = keyOf [sa_tenant_id g, sa_app_id g, sa_metric_date g]
     in map_set key (the_or [] (map_get m key) @ [g]) m) [] gs"

definition prior_of :: "attribution list \<Rightarrow> attempt \<Rightarrow> attribution option" where
  "prior_of initial a = List.find (\<lambda>an. an_subject_ref an = installation a) initial"

definition provisional_of :: "digests \<Rightarrow> attempt list \<Rightarrow> attribution list \<Rightarrow> source_day_aggregate list \<Rightarrow> attempt \<Rightarrow> attribution list" where
  "provisional_of D acceptedUnique initial gs install =
     (let g = hd gs; daily = sha_strings D (sort (map sa_input_snapshot_id gs)); computed = last (sort (map sa_computed_at gs)) in
      case List.find (\<lambda>c. tenant c = sa_tenant_id g \<and> app c = sa_app_id g \<and> event_name c = ''click''
             \<and> p_click_id (payload_of c) = p_click_id (payload_of install)
             \<and> take 10 (the_or [] (p_redirector_click_at (payload_of c))) = sa_metric_date g) acceptedUnique of
        None \<Rightarrow> []
      | Some click \<Rightarrow>
          (case prior_of initial install of None \<Rightarrow> []
           | Some prior \<Rightarrow>
               if an_reason_code prior \<noteq> ''valid_install_referrer'' then []
               else [prior\<lparr> an_id := an_id prior @ '':ctit-clock-provisional:'' @ take 12 daily, an_decided_at := computed,
                            an_input_cutoff_at := computed, an_finality := Provisional, an_supersedes := Some (an_id prior) \<rparr>]))"

definition provisional_day :: "digests \<Rightarrow> attempt list \<Rightarrow> attribution list \<Rightarrow> bound_fraud \<Rightarrow> source_day_aggregate list \<Rightarrow>
    attribution list res" where
  "provisional_day D acceptedUnique initial sourceOnly gs =
     (let g = hd gs; installCount = foldl (\<lambda>sum x. dadd sum (sa_installs x)) 0 gs;
          negativeCount = foldl (\<lambda>sum x. dadd sum (the_or 0 (sa_ctitNegativeCount x))) 0 gs in
      bindR (source_bundle D acceptedUnique sourceOnly g) (\<lambda>bound.
        case bound of None \<Rightarrow> Inr []
        | Some b \<Rightarrow>
            if installCount = 0
               \<or> double_round (negativeCount / installCount)
                   \<le> fraudNumberParameter (bf_definition b) ''ctit_negative_rate_threshold'' (double_round (5/100))
            then Inr []
            else Inr (concat (map (provisional_of D acceptedUnique initial gs)
                   (filter (\<lambda>a. tenant a = sa_tenant_id g \<and> app a = sa_app_id g \<and> event_name a = ''install''
                       \<and> truthy (p_click_id (payload_of a))) acceptedUnique)))))"

section \<open>Exclusions\<close>

definition history_exclusions :: "attempt list \<Rightarrow> (string option, string) jsmap" where
  "history_exclusions acceptedCandidates =
     foldl (\<lambda>m c. if \<not> sv_fraud_actions_enabled (at_server c) \<or> \<not> truthy (p_click_id (payload_of c)) then m
                  else map_set (p_click_id (payload_of c))
                         (case at_history c of Some h \<Rightarrow> the_or [] (hs_fraud_exclusion_id h) | None \<Rightarrow> []) m) []
       (filter (\<lambda>c. event_name c = ''click'' \<and> (case at_history c of Some h \<Rightarrow> truthy (hs_fraud_exclusion_id h) | None \<Rightarrow> False))
         acceptedCandidates)"

definition excluded_click_ids :: "attempt list \<Rightarrow> fraud_decision list \<Rightarrow> (string option, string) jsmap" where
  "excluded_click_ids acceptedCandidates decisions =
     foldl (\<lambda>m d. case List.find (\<lambda>c. record_id c = fd_subject_ref d \<and> event_name c = ''click'') acceptedCandidates of
              None \<Rightarrow> m
            | Some c \<Rightarrow> if sv_fraud_actions_enabled (at_server c) \<and> truthy (p_click_id (payload_of c))
                then map_set (p_click_id (payload_of c)) (fd_id d) m else m)
       (history_exclusions acceptedCandidates)
       (filter (\<lambda>d. fd_action d = Exclude \<and> \<not> fd_source_scope d) decisions)"

definition excluded_installs :: "(string option, string) jsmap \<Rightarrow> attempt list \<Rightarrow> attempt list" where
  "excluded_installs excluded installs = filter (\<lambda>a. map_get excluded (p_click_id (payload_of a)) \<noteq> None) installs"

definition fraud_attribution :: "(string option, string) jsmap \<Rightarrow> attribution list \<Rightarrow> attempt \<Rightarrow> attribution list" where
  "fraud_attribution excluded initial a =
     (case (map_get excluded (p_click_id (payload_of a)), prior_of initial a) of
        (Some decision, Some prior) \<Rightarrow>
          [prior\<lparr> an_id := an_id prior @ '':fraud'', an_status := Unattributed, an_method := ''none'', an_model := ''none'',
                  an_reason_code := ''fraud_excluded'', an_finality := Final, an_fraud_decision_ref := Some decision,
                  an_supersedes := Some (an_id prior) \<rparr>]
      | _ \<Rightarrow> [])"

record fraud_output =
  fo_attributions :: "attribution list"
  fo_fraud_decisions :: "fraud_decision list"
  fo_excludedInstallationIds :: "string option list"

definition fraudArtifacts :: "digests \<Rightarrow> (attribution \<Rightarrow> string) \<Rightarrow> (fraud_decision \<Rightarrow> string) \<Rightarrow> source_day_aggregate list \<Rightarrow>
    attempt list \<Rightarrow> attempt list \<Rightarrow> attempt list \<Rightarrow> attribution list \<Rightarrow> bound_fraud \<Rightarrow> fraud_output res" where
  "fraudArtifacts D sha shaf aggregates acceptedUnique acceptedCandidates installs initial sourceOnly =
     bindR (flatMapR (transport_fraud D) acceptedUnique) (\<lambda>transport.
     bindR (flatMapR (install_fraud D acceptedCandidates) acceptedUnique) (\<lambda>install.
     bindR (flatMapR (source_day_fraud D acceptedUnique sourceOnly) aggregates) (\<lambda>source.
     let decisions = sortByKey shaf (\<lambda>d. [fd_id d]) (transport @ install @ source) in
     bindR (flatMapR (provisional_day D acceptedUnique initial sourceOnly) (map_values (source_days aggregates))) (\<lambda>provisional.
     let excluded = excluded_click_ids acceptedCandidates decisions;
         ids = foldl (\<lambda>s a. set_add (installation a) s) [] (excluded_installs excluded installs);
         fraud = concat (map (fraud_attribution excluded initial) installs)
     in Inr \<lparr> fo_attributions = sortByKey sha attribution_key (initial @ provisional @ fraud),
              fo_fraud_decisions = decisions, fo_excludedInstallationIds = ids \<rparr>))))"

section \<open>Lemmas\<close>

lemma set_foldl_set_add: "set (foldl (\<lambda>s a. set_add (f a) s) acc xs) = set acc \<union> f ` set xs"
  by (induction xs arbitrary: acc) auto

lemma history_exclusions_get:
  assumes "map_get (history_exclusions cs) k = Some d"
  shows "\<exists>c \<in> set cs. event_name c = ''click'' \<and> p_click_id (payload_of c) = k \<and> truthy k
    \<and> sv_fraud_actions_enabled (at_server c) \<and> (\<exists>h. at_history c = Some h \<and> hs_fraud_exclusion_id h = Some d)"
proof -
  define step where "step = (\<lambda>(m :: (string option, string) jsmap) c. if \<not> sv_fraud_actions_enabled (at_server c) \<or> \<not> truthy (p_click_id (payload_of c)) then m
                  else map_set (p_click_id (payload_of c))
                         (case at_history c of Some h \<Rightarrow> the_or [] (hs_fraud_exclusion_id h) | None \<Rightarrow> []) m)"
  define good where "good = (\<lambda>c. event_name c = ''click'' \<and> (case at_history c of Some h \<Rightarrow> truthy (hs_fraud_exclusion_id h) | None \<Rightarrow> False))"
  have "\<forall>c \<in> set xs. good c \<and> c \<in> set cs \<Longrightarrow> map_get (foldl step m xs) k = Some d \<Longrightarrow> map_get m k = Some d
      \<or> (\<exists>c \<in> set cs. event_name c = ''click'' \<and> p_click_id (payload_of c) = k \<and> truthy k
          \<and> sv_fraud_actions_enabled (at_server c) \<and> (\<exists>h. at_history c = Some h \<and> hs_fraud_exclusion_id h = Some d))" for xs m
  proof (induction xs arbitrary: m)
    case (Cons x xs)
    then have "map_get (step m x) k = Some d \<or> (\<exists>c \<in> set cs. event_name c = ''click'' \<and> p_click_id (payload_of c) = k \<and> truthy k
          \<and> sv_fraud_actions_enabled (at_server c) \<and> (\<exists>h. at_history c = Some h \<and> hs_fraud_exclusion_id h = Some d))" by simp
    moreover have "good x" "x \<in> set cs" using Cons.prems(1) by simp_all
    ultimately show ?case
      by (auto simp: step_def good_def truthy_def split: if_splits option.splits)
  qed simp
  from this [of "filter good cs" "[]"] assms show ?thesis
    unfolding history_exclusions_def good_def [symmetric] step_def [symmetric] by simp
qed

definition exclusion_of :: "attempt list \<Rightarrow> fraud_decision list \<Rightarrow> string option \<Rightarrow> string \<Rightarrow> attempt \<Rightarrow> bool" where
  "exclusion_of cs decisions k d c \<longleftrightarrow> c \<in> set cs \<and> event_name c = ''click'' \<and> p_click_id (payload_of c) = k \<and> truthy k
     \<and> sv_fraud_actions_enabled (at_server c)
     \<and> ((\<exists>h. at_history c = Some h \<and> hs_fraud_exclusion_id h = Some d)
        \<or> (\<exists>e \<in> set decisions. fd_id e = d \<and> fd_action e = Exclude \<and> \<not> fd_source_scope e \<and> fd_subject_ref e = record_id c))"

lemma excluded_click_ids_get:
  assumes "map_get (excluded_click_ids cs decisions) k = Some d"
  shows "\<exists>c. exclusion_of cs decisions k d c"
proof -
  define step where "step = (\<lambda>(m :: (string option, string) jsmap) (d :: fraud_decision). case List.find (\<lambda>c. record_id c = fd_subject_ref d \<and> event_name c = ''click'') cs of
              None \<Rightarrow> m
            | Some c \<Rightarrow> if sv_fraud_actions_enabled (at_server c) \<and> truthy (p_click_id (payload_of c))
                then map_set (p_click_id (payload_of c)) (fd_id d) m else m)"
  have st: "map_get (step m e) k = Some d \<Longrightarrow> map_get m k = Some d \<or> (fd_id e = d \<and> (\<exists>c \<in> set cs. event_name c = ''click''
      \<and> record_id c = fd_subject_ref e \<and> p_click_id (payload_of c) = k \<and> truthy k \<and> sv_fraud_actions_enabled (at_server c)))" for m e
    by (auto simp: step_def split: option.splits if_splits dest!: find_Some_iff2)
  have "\<forall>e \<in> set es. e \<in> set decisions \<and> fd_action e = Exclude \<and> \<not> fd_source_scope e \<Longrightarrow>
      map_get (foldl step m es) k = Some d \<Longrightarrow> map_get m k = Some d \<or> (\<exists>c. exclusion_of cs decisions k d c)" for es m
  proof (induction es arbitrary: m)
    case (Cons e es)
    then have "map_get (step m e) k = Some d \<or> (\<exists>c. exclusion_of cs decisions k d c)" by simp
    then show ?case
    proof
      assume "map_get (step m e) k = Some d"
      from st [OF this] show ?thesis
        using Cons.prems(1) by (auto simp: exclusion_of_def intro!: bexI [of _ e])
    qed simp
  qed simp
  from this [of "filter (\<lambda>d. fd_action d = Exclude \<and> \<not> fd_source_scope d) decisions" "history_exclusions cs"] assms
  have "map_get (history_exclusions cs) k = Some d \<or> (\<exists>c. exclusion_of cs decisions k d c)"
    unfolding excluded_click_ids_def step_def [symmetric] by simp
  then show ?thesis using history_exclusions_get [of cs k d] by (auto simp: exclusion_of_def)
qed

lemma flatMapR_mem: "flatMapR f xs = Inr ys \<Longrightarrow> y \<in> set ys \<Longrightarrow> \<exists>x \<in> set xs. \<exists>zs. f x = Inr zs \<and> y \<in> set zs"
  by (fastforce simp: flatMapR_def bindR_eq_Inr dest: mapR_mem)

lemma provisional_of_shape:
  assumes "an \<in> set (provisional_of D acceptedUnique initial gs install)"
  shows "\<exists>prior \<in> set initial. an_reason_code prior = ''valid_install_referrer'' \<and> an_supersedes an = Some (an_id prior)
    \<and> an_status an = an_status prior \<and> an_method an = an_method prior \<and> an_reason_code an = an_reason_code prior
    \<and> an_subject_ref an = an_subject_ref prior \<and> an_finality an = Provisional"
proof -
  from assms obtain prior where prior: "prior_of initial install = Some prior"
    by (cases "prior_of initial install") (auto simp: provisional_of_def Let_def split: option.splits)
  then have "prior \<in> set initial" by (auto simp: prior_of_def dest: find_Some_iff2)
  with assms prior show ?thesis
    by (auto simp: provisional_of_def Let_def split: option.splits if_splits intro!: bexI [of _ prior])
qed

lemma provisional_day_shape:
  assumes "provisional_day D acceptedUnique initial sourceOnly gs = Inr ans" "an \<in> set ans"
  shows "\<exists>install. an \<in> set (provisional_of D acceptedUnique initial gs install)"
proof -
  from assms(1) obtain b where "ans = [] \<or> ans = concat (map (provisional_of D acceptedUnique initial gs)
      (filter (\<lambda>a. tenant a = sa_tenant_id (hd gs) \<and> app a = sa_app_id (hd gs) \<and> event_name a = ''install''
                       \<and> truthy (p_click_id (payload_of a))) acceptedUnique))"
    unfolding provisional_day_def Let_def bindR_eq_Inr by (force split: option.splits if_splits)
  with assms(2) show ?thesis by auto
qed

lemma fraud_attribution_shape:
  assumes "an \<in> set (fraud_attribution excluded initial a)"
  shows "\<exists>prior \<in> set initial. \<exists>d. map_get excluded (p_click_id (payload_of a)) = Some d
    \<and> an_subject_ref prior = installation a
    \<and> an = prior\<lparr> an_id := an_id prior @ '':fraud'', an_status := Unattributed, an_method := ''none'', an_model := ''none'',
                  an_reason_code := ''fraud_excluded'', an_finality := Final, an_fraud_decision_ref := Some d,
                  an_supersedes := Some (an_id prior) \<rparr>"
proof -
  from assms obtain d where d: "map_get excluded (p_click_id (payload_of a)) = Some d"
    by (cases "map_get excluded (p_click_id (payload_of a))") (auto simp: fraud_attribution_def)
  from assms obtain prior where p: "prior_of initial a = Some prior"
    by (cases "prior_of initial a") (auto simp: fraud_attribution_def split: option.splits)
  then have "prior \<in> set initial" "an_subject_ref prior = installation a"
    by (auto simp: prior_of_def dest: find_Some_iff2)
  with assms d p show ?thesis by (intro bexI [of _ prior] exI [of _ d]) (simp_all add: fraud_attribution_def)
qed

lemma fraudArtifacts_Inr:
  assumes "fraudArtifacts D sha shaf aggregates acceptedUnique acceptedCandidates installs initial sourceOnly = Inr out"
  obtains provisional where
    "flatMapR (provisional_day D acceptedUnique initial sourceOnly) (map_values (source_days aggregates)) = Inr provisional"
    "fo_attributions out = sortByKey sha attribution_key (initial @ provisional
       @ concat (map (fraud_attribution (excluded_click_ids acceptedCandidates (fo_fraud_decisions out)) initial) installs))"
    "set (fo_excludedInstallationIds out) = installation ` set (excluded_installs (excluded_click_ids acceptedCandidates (fo_fraud_decisions out)) installs)"
  using assms by (auto simp: fraudArtifacts_def bindR_eq_Inr Let_def set_foldl_set_add)

section \<open>Properties\<close>

text \<open>Fraud handling only adds: every initial attribution is still there, and an added one supersedes an initial
  one of the same subject, either provisionally with its credit unchanged, or as a fraud exclusion
  that leaves the subject unattributed.\<close>

theorem fraud_only_adds:
  assumes "fraudArtifacts D sha shaf aggregates acceptedUnique acceptedCandidates installs initial sourceOnly = Inr out"
  shows "mset initial \<subseteq># mset (fo_attributions out)
    \<and> (\<forall>an \<in> set (fo_attributions out). an \<in> set initial \<or>
         (\<exists>prior \<in> set initial. an_supersedes an = Some (an_id prior) \<and> an_subject_ref an = an_subject_ref prior
            \<and> (an_finality an = Provisional \<and> an_status an = an_status prior \<and> an_method an = an_method prior
               \<or> an_reason_code an = ''fraud_excluded'' \<and> an_status an = Unattributed)))"
proof -
  from assms obtain provisional where
    p: "flatMapR (provisional_day D acceptedUnique initial sourceOnly) (map_values (source_days aggregates)) = Inr provisional" and
    a: "fo_attributions out = sortByKey sha attribution_key (initial @ provisional
       @ concat (map (fraud_attribution (excluded_click_ids acceptedCandidates (fo_fraud_decisions out)) initial) installs))"
    by (rule fraudArtifacts_Inr)
  have prov: "\<exists>prior \<in> set initial. an_supersedes an = Some (an_id prior) \<and> an_subject_ref an = an_subject_ref prior
            \<and> an_finality an = Provisional \<and> an_status an = an_status prior \<and> an_method an = an_method prior"
    if "an \<in> set provisional" for an
  proof -
    from flatMapR_mem [OF p that] obtain gs zs where "provisional_day D acceptedUnique initial sourceOnly gs = Inr zs" "an \<in> set zs"
      by blast
    from provisional_day_shape [OF this] obtain install where "an \<in> set (provisional_of D acceptedUnique initial gs install)" by blast
    from provisional_of_shape [OF this] show ?thesis by blast
  qed
  have fraud: "\<exists>prior \<in> set initial. an_supersedes an = Some (an_id prior) \<and> an_subject_ref an = an_subject_ref prior
            \<and> an_reason_code an = ''fraud_excluded'' \<and> an_status an = Unattributed"
    if "an \<in> set (fraud_attribution m initial i)" for an m i
    using fraud_attribution_shape [OF that] by force
  have "set (fo_attributions out) = set initial \<union> set provisional
      \<union> (\<Union>i \<in> set installs. set (fraud_attribution (excluded_click_ids acceptedCandidates (fo_fraud_decisions out)) initial i))"
    by (auto simp: a)
  with prov fraud have "\<forall>an \<in> set (fo_attributions out). an \<in> set initial \<or>
         (\<exists>prior \<in> set initial. an_supersedes an = Some (an_id prior) \<and> an_subject_ref an = an_subject_ref prior
            \<and> (an_finality an = Provisional \<and> an_status an = an_status prior \<and> an_method an = an_method prior
               \<or> an_reason_code an = ''fraud_excluded'' \<and> an_status an = Unattributed))" by blast
  then show ?thesis by (simp add: a)
qed

text \<open>Only an exclusion takes credit away: an excluded installation has an install whose click id belongs to a click
  of the accepted evidence, whose server has fraud actions enabled, and which a fraud decision with
  action \<open>exclude\<close>, of this evaluation or of the ledger, is about. Flags and quarantines exclude nothing.\<close>

theorem exclusion_has_decision:
  assumes "fraudArtifacts D sha shaf aggregates acceptedUnique acceptedCandidates installs initial sourceOnly = Inr out"
    and "i \<in> set (fo_excludedInstallationIds out)"
  shows "\<exists>a \<in> set installs. \<exists>c \<in> set acceptedCandidates. installation a = i \<and> event_name c = ''click''
    \<and> p_click_id (payload_of c) = p_click_id (payload_of a) \<and> truthy (p_click_id (payload_of a))
    \<and> sv_fraud_actions_enabled (at_server c)
    \<and> ((\<exists>h d. at_history c = Some h \<and> hs_fraud_exclusion_id h = Some d)
       \<or> (\<exists>e \<in> set (fo_fraud_decisions out). fd_action e = Exclude \<and> \<not> fd_source_scope e \<and> fd_subject_ref e = record_id c))"
proof -
  from assms(1) obtain provisional where
    "flatMapR (provisional_day D acceptedUnique initial sourceOnly) (map_values (source_days aggregates)) = Inr provisional" and
    "fo_attributions out = sortByKey sha attribution_key (initial @ provisional
       @ concat (map (fraud_attribution (excluded_click_ids acceptedCandidates (fo_fraud_decisions out)) initial) installs))" and
    x: "set (fo_excludedInstallationIds out) = installation ` set (excluded_installs (excluded_click_ids acceptedCandidates (fo_fraud_decisions out)) installs)"
    by (rule fraudArtifacts_Inr)
  with assms(2) obtain a d where a: "a \<in> set installs" "installation a = i"
    "map_get (excluded_click_ids acceptedCandidates (fo_fraud_decisions out)) (p_click_id (payload_of a)) = Some d"
    by (auto simp: excluded_installs_def)
  from excluded_click_ids_get [OF a(3)] obtain c where "exclusion_of acceptedCandidates (fo_fraud_decisions out) (p_click_id (payload_of a)) d c"
    by blast
  with a(1,2) show ?thesis
    unfolding exclusion_of_def by (intro bexI [of _ a] bexI [of _ c]) blast+
qed

section \<open>A concrete exclusion\<close>

definition ex_excluded_click :: attempt where
  "ex_excluded_click = ex_ref_click
     \<lparr> at_server := (blank_server ''t'' ''a'')\<lparr>sv_fraud_actions_enabled := True\<rparr>,
       at_history := Some \<lparr> hs_payload_sha256 = ''dc'', hs_semantic_available = True, hs_ledger_position = ''1'',
         hs_fraud_exclusion_id = Some ''f'' \<rparr> \<rparr>"

definition ex_prior :: attribution where
  "ex_prior = attribution_result (attribution_base [] ex_ref_install \<lparr> rb_id = [], rb_version = [], rb_hash = [] \<rparr>)
     Non_Organic ''install_referrer'' ''last_click'' ''valid_install_referrer'' None"

definition ex_bound :: bound_fraud where
  "ex_bound = \<lparr> bf_definition = DEFAULT_FRAUD_BUNDLE, bf_hash = [] \<rparr>"

lemma ex_fraud:
  "\<exists>out. fraudArtifacts sample_digests an_id fd_id [] [] [ex_excluded_click] [ex_ref_install] [ex_prior] ex_bound = Inr out
     \<and> fo_excludedInstallationIds out = [Some ''i'']"
  by (simp add: fraudArtifacts_def flatMapR_def source_days_def map_values_def Let_def excluded_click_ids_def history_exclusions_def
      excluded_installs_def set_add_def ex_excluded_click_def ex_ref_click_def ex_ref_install_def blank_defs)

theorem fraud_only_adds_witness:
  "\<exists>out. fraudArtifacts sample_digests an_id fd_id [] [] [ex_excluded_click] [ex_ref_install] [ex_prior] ex_bound = Inr out
     \<and> ex_prior \<in> set (fo_attributions out)"
proof -
  obtain out where o: "fraudArtifacts sample_digests an_id fd_id [] [] [ex_excluded_click] [ex_ref_install] [ex_prior] ex_bound = Inr out"
    using ex_fraud by blast
  from conjunct1 [OF fraud_only_adds [OF o]] o show ?thesis by (auto dest: mset_subset_eqD)
qed

theorem exclusion_has_decision_witness:
  "\<exists>a \<in> set [ex_ref_install]. \<exists>c \<in> set [ex_excluded_click]. installation a = Some ''i'' \<and> event_name c = ''click''
     \<and> sv_fraud_actions_enabled (at_server c)"
proof -
  obtain out where o: "fraudArtifacts sample_digests an_id fd_id [] [] [ex_excluded_click] [ex_ref_install] [ex_prior] ex_bound = Inr out"
    "fo_excludedInstallationIds out = [Some ''i'']" using ex_fraud by blast
  from exclusion_has_decision [OF o(1), of "Some ''i''"] o(2) show ?thesis by auto
qed

end
