(* ===== verification/Evidence_Artifacts.thy ===== *)
theory Evidence_Artifacts
  imports Assertions
begin

text \<open>
  \<open>packages/attribution-core/src/evidence-artifacts.ts\<close>: the raw records, deliveries and logical
  events of an evaluation, the privacy artifacts, and the rejections. The theorems say which
  attempts have a raw record and that removed evidence has none, that every delivery and every
  rejection is accounted for, and which tombstones a privacy request leaves.
\<close>

section \<open>Emitted records\<close>

record raw_record =
  rr_record_id :: string
  rr_tenant_id :: string
  rr_app_id :: string
  rr_producer :: string
  rr_event_id :: string
  rr_delivery_id :: string
  rr_event_name :: string
  rr_schema_version :: string
  rr_payload_sha256 :: string
  rr_occurred_at :: string
  rr_received_at :: string
  rr_payload_lifecycle_status :: lifecycle_status
  rr_raw_payload_ref :: string
  rr_consent :: consent_info
  rr_rest :: string

record delivery =
  dv_delivery_id :: string
  dv_record_id :: string
  dv_canonical_record_id :: "string option"
  dv_tenant_id :: string
  dv_app_id :: string
  dv_received_at :: string
  dv_ingestion_status :: ingestion_status
  dv_duplicate_resolution :: duplicate_resolution
  dv_late :: bool
  dv_clock_skew_suspected :: bool
  dv_payload_disposition :: payload_disposition
  dv_consent :: consent_info
  dv_reason_code :: "string option"
  dv_staleness :: "stale_policy option"

record logical_event =
  le_id :: string
  le_record_id :: string
  le_tenant_id :: string
  le_app_id :: string
  le_producer :: string
  le_event_id :: string
  le_event_name :: string
  le_late :: bool

record privacy_tombstone =
  pt_tenant_id :: string
  pt_app_id :: string
  pt_privacy_request_id :: string
  pt_record_id :: string
  pt_lifecycle_status :: lifecycle_status
  pt_reason_code :: string
  pt_policy_version :: string
  pt_provenance_digest :: string
  pt_created_at :: "string option"

record rejection =
  rj_delivery_id :: string
  rj_record_id :: string
  rj_tenant_id :: string
  rj_app_id :: string
  rj_reason_code :: string
  rj_payload_disposition :: payload_disposition
  rj_retained :: string
  rj_consent :: consent_info
  rj_staleness :: "stale_policy option"

record artifact_digests =
  ad_raw :: "raw_record \<Rightarrow> string"
  ad_delivery :: "delivery \<Rightarrow> string"
  ad_logical :: "logical_event \<Rightarrow> string"
  ad_privacy_request :: "privacy_request \<Rightarrow> string"
  ad_tombstone :: "privacy_tombstone \<Rightarrow> string"
  ad_correction :: "correction \<Rightarrow> string"
  ad_rejection :: "rejection \<Rightarrow> string"

text \<open>Empty texts are dropped where the source spreads them on a truthiness test.\<close>

definition drop_empty :: "string option \<Rightarrow> string option" where
  "drop_empty s = (if truthy s then s else None)"

definition emitted_consent :: "consent_info \<Rightarrow> consent_info" where
  "emitted_consent c = c\<lparr> ci_withdrawal_recognized_at := drop_empty (ci_withdrawal_recognized_at c),
     ci_basis_id := drop_empty (ci_basis_id c),
     ci_basis_policy_version := (if truthy (ci_basis_id c) then ci_basis_policy_version c else None) \<rparr>"

definition makeRawRecord :: "digests \<Rightarrow> attempt \<Rightarrow> lifecycle_status \<Rightarrow> raw_record res" where
  "makeRawRecord D a lifecycle =
     bindR (consentDecision a) (\<lambda>(_, consent). let r = at_record a in
       Inr \<lparr> rr_record_id = r_record_id r, rr_tenant_id = tenant a, rr_app_id = app a, rr_producer = r_producer r,
             rr_event_id = r_event_id r, rr_delivery_id = r_delivery_id r, rr_event_name = r_event_name r,
             rr_schema_version = r_schema_version r, rr_payload_sha256 = sha_payload D (r_payload r),
             rr_occurred_at = r_occurred_at r, rr_received_at = r_received_at r, rr_payload_lifecycle_status = lifecycle,
             rr_raw_payload_ref = (if lifecycle = Available then ''protected:'' @ r_record_id r else ''tombstone:'' @ r_record_id r),
             rr_consent = emitted_consent consent, rr_rest = r_rest r \<rparr>)"

definition attempt_delivery :: "attempt \<Rightarrow> ingestion_decision \<Rightarrow> delivery" where
  "attempt_delivery a d =
     \<lparr> dv_delivery_id = r_delivery_id (at_record a), dv_record_id = record_id a,
       dv_canonical_record_id = drop_empty (id_canonical_record_id d), dv_tenant_id = tenant a, dv_app_id = app a,
       dv_received_at = r_received_at (at_record a), dv_ingestion_status = id_ingestion_status d,
       dv_duplicate_resolution = id_duplicate_resolution d, dv_late = id_late d,
       dv_clock_skew_suspected = id_clock_skew_suspected d, dv_payload_disposition = id_payload_disposition d,
       dv_consent = emitted_consent (id_consent d), dv_reason_code = drop_empty (id_reason_code d),
       dv_staleness = (if id_reason_code d = Some ''timestamp_stale'' then id_staleness d else None) \<rparr>"

definition pre_ingestion_delivery :: "ingestion_decision \<Rightarrow> delivery" where
  "pre_ingestion_delivery d =
     \<lparr> dv_delivery_id = id_delivery_id d, dv_record_id = id_record_id d, dv_canonical_record_id = None,
       dv_tenant_id = id_tenant_id d, dv_app_id = id_app_id d, dv_received_at = the_or [] (id_received_at d),
       dv_ingestion_status = id_ingestion_status d, dv_duplicate_resolution = id_duplicate_resolution d,
       dv_late = id_late d, dv_clock_skew_suspected = id_clock_skew_suspected d,
       dv_payload_disposition = id_payload_disposition d,
       dv_consent = \<lparr> ci_purpose_id = drop_empty (ci_purpose_id (id_consent d)), ci_policy_version = ci_policy_version (id_consent d),
         ci_reason_code = ci_reason_code (id_consent d), ci_withdrawal_recognized_at = None, ci_revision = None,
         ci_recognized_revision = None, ci_basis_id = None, ci_basis_policy_version = None \<rparr>,
       dv_reason_code = id_reason_code d, dv_staleness = None \<rparr>"

definition logical_event_of :: "attempt \<Rightarrow> logical_event" where
  "logical_event_of a =
     \<lparr> le_id = ''logical:'' @ tenant a @ '':'' @ app a @ '':'' @ r_producer (at_record a) @ '':'' @ r_event_id (at_record a),
       le_record_id = record_id a, le_tenant_id = tenant a, le_app_id = app a, le_producer = r_producer (at_record a),
       le_event_id = r_event_id (at_record a), le_event_name = event_name a, le_late = r_late (at_record a) \<rparr>"

definition reason_of :: "candidate_decision \<Rightarrow> string option" where
  "reason_of d = (case cd_decision d of None \<Rightarrow> None | Some e \<Rightarrow> id_reason_code e)"

text \<open>A history candidate never reaches this loop, so the whole decision is there.\<close>

definition current_decision :: "digests \<Rightarrow> decisions \<Rightarrow> attempt \<Rightarrow> ingestion_decision res" where
  "current_decision D ds a = bindR (decisionFor D ds a) (\<lambda>d.
     case cd_decision d of Some e \<Rightarrow> Inr e | None \<Rightarrow> throw ''history attempt emitted'')"

record ingestion_output =
  io_raw_records :: "raw_record list"
  io_deliveries :: "delivery list"
  io_logical_events :: "logical_event list"

definition ingestionArtifacts :: "digests \<Rightarrow> artifact_digests \<Rightarrow> attempt list \<Rightarrow> decisions \<Rightarrow> ingestion_decision list \<Rightarrow>
    attempt list \<Rightarrow> lifecycle_index \<Rightarrow> ingestion_output res" where
  "ingestionArtifacts D A all ds pre acceptedUnique lc =
     bindR (filterR (\<lambda>a. bindR (decisionFor D ds a) (\<lambda>d. Inr (reason_of d = Some ''event_id_conflict''))) all) (\<lambda>conflicts.
     let keep = filter (\<lambda>a. \<not> map_has lc (attemptEvidenceKey a)) in
     bindR (mapR (\<lambda>a. makeRawRecord D a Available) (keep (acceptedUnique @ conflicts))) (\<lambda>raws.
     bindR (mapR (\<lambda>a. bindR (current_decision D ds a) (\<lambda>d. Inr (attempt_delivery a d))) all) (\<lambda>dvs.
       Inr \<lparr> io_raw_records = sortByKey (ad_raw A) (\<lambda>r. [rr_record_id r, rr_tenant_id r, rr_app_id r, rr_delivery_id r]) raws,
             io_deliveries = sortByKey (ad_delivery A) (\<lambda>d. [dv_delivery_id d, dv_record_id d, dv_tenant_id d, dv_app_id d])
                (dvs @ map pre_ingestion_delivery pre),
             io_logical_events = sortByKey (ad_logical A) (\<lambda>e. [le_id e, le_tenant_id e, le_app_id e])
                (map logical_event_of (keep acceptedUnique)) \<rparr>)))"

section \<open>Privacy\<close>

definition refund_correction :: "digests \<Rightarrow> attempt list \<Rightarrow> attempt \<Rightarrow> correction list" where
  "refund_correction D acceptedCandidates a =
     (let legacy = isLegacyExplicitRefund a in
      if \<not> legacy \<and> p_financial_status (payload_of a) \<noteq> Some ''settled'' then []
      else case (if legacy then p_correction_target_record_id (payload_of a)
                 else map_option record_id (resolveRefundTarget D a acceptedCandidates)) of
        None \<Rightarrow> []
      | Some rid \<Rightarrow>
          [\<lparr> co_tenant_id = tenant a, co_app_id = app a, co_id = ''correction:'' @ record_id a, co_corrects_record_id = rid,
             co_type = ''correction'', co_reason = ''refund'', co_effective_at = Some (r_occurred_at (at_record a)) \<rparr>])"

definition redaction_corrections :: "privacy_request \<Rightarrow> correction list" where
  "redaction_corrections rq =
     (if pr_status rq \<noteq> ''completed'' then []
      else map (\<lambda>(rid, st). \<lparr> co_tenant_id = pr_tenant_id rq, co_app_id = pr_app_id rq,
             co_id = ''correction:'' @ pr_id rq @ '':'' @ rid, co_corrects_record_id = rid, co_type = ''redaction'',
             co_reason = pr_reason_code rq, co_effective_at = pr_completed_at rq \<rparr>) (pr_affected_records rq))"

definition emitted_request :: "privacy_request \<Rightarrow> privacy_request" where
  "emitted_request rq = rq\<lparr> pr_deletion_subject_ref := drop_empty (pr_deletion_subject_ref rq),
     pr_deletion_subject_digest := drop_empty (pr_deletion_subject_digest rq), pr_completed_at := drop_empty (pr_completed_at rq) \<rparr>"

definition tombstones_of :: "digests \<Rightarrow> privacy_request \<Rightarrow> privacy_tombstone list" where
  "tombstones_of D rq =
     (if pr_status rq \<noteq> ''completed'' then []
      else map (\<lambda>(rid, st). \<lparr> pt_tenant_id = pr_tenant_id rq, pt_app_id = pr_app_id rq, pt_privacy_request_id = pr_id rq,
             pt_record_id = rid, pt_lifecycle_status = st, pt_reason_code = pr_reason_code rq,
             pt_policy_version = pr_policy_version rq,
             pt_provenance_digest = sha_strings D [pr_tenant_id rq, pr_app_id rq, pr_id rq, rid, the_or [] (pr_completed_at rq)],
             pt_created_at = pr_completed_at rq \<rparr>) (pr_affected_records rq))"

record privacy_output =
  po_corrections :: "correction list"
  po_privacy_requests :: "privacy_request list"
  po_privacy_tombstones :: "privacy_tombstone list"

definition privacyArtifacts :: "digests \<Rightarrow> artifact_digests \<Rightarrow> correction list \<Rightarrow> privacy_request list \<Rightarrow> attempt list \<Rightarrow>
    attempt list \<Rightarrow> privacy_output" where
  "privacyArtifacts D A corrections requests acceptedUnique acceptedCandidates =
     \<lparr> po_corrections = corrections
         @ concat (map (refund_correction D acceptedCandidates) (filter (\<lambda>a. event_name a = ''refund'') acceptedUnique))
         @ concat (map redaction_corrections requests),
       po_privacy_requests = sortByKey (ad_privacy_request A) (\<lambda>rq. [pr_id rq, pr_tenant_id rq, pr_app_id rq]) (map emitted_request requests),
       po_privacy_tombstones = sortByKey (ad_tombstone A)
         (\<lambda>t. [pt_privacy_request_id t, pt_record_id t, pt_tenant_id t, pt_app_id t]) (concat (map (tombstones_of D) requests)) \<rparr>"

section \<open>Rejections\<close>

definition rejection_of :: "ingestion_decision \<Rightarrow> rejection" where
  "rejection_of d =
     \<lparr> rj_delivery_id = id_delivery_id d, rj_record_id = id_record_id d, rj_tenant_id = id_tenant_id d, rj_app_id = id_app_id d,
       rj_reason_code = the_or [] (id_reason_code d), rj_payload_disposition = id_payload_disposition d,
       rj_retained = (if id_reason_code d = Some ''event_id_conflict'' then ''protected_conflict_evidence'' else ''non_identifying_metadata''),
       rj_consent = (id_consent d)\<lparr> ci_withdrawal_recognized_at := drop_empty (ci_withdrawal_recognized_at (id_consent d)),
         ci_basis_id := None, ci_basis_policy_version := None \<rparr>,
       rj_staleness = (if id_reason_code d = Some ''timestamp_stale'' then id_staleness d else None) \<rparr>"

definition rejectionArtifacts :: "artifact_digests \<Rightarrow> ingestion_decision list \<Rightarrow> ingestion_decision list \<Rightarrow> rejection list" where
  "rejectionArtifacts A decisionsList pre =
     sortByKey (ad_rejection A) (\<lambda>r. [rj_delivery_id r, rj_record_id r, rj_tenant_id r, rj_app_id r])
       (map rejection_of (filter (\<lambda>d. id_ingestion_status d = Rejected) (decisionsList @ pre)))"

section \<open>Properties\<close>

lemma mapR_image:
  assumes "mapR f xs = Inr ys" and "\<And>x y. f x = Inr y \<Longrightarrow> g y = h x"
  shows "map g ys = map h xs"
  using assms by (induction xs arbitrary: ys) (auto simp: bindR_eq_Inr)

lemma ingestionArtifacts_Inr:
  assumes "ingestionArtifacts D A all ds pre acceptedUnique lc = Inr out"
  obtains conflicts raws dvs where
    "conflicts = filter (\<lambda>a. bindR (decisionFor D ds a) (\<lambda>d. Inr (reason_of d = Some ''event_id_conflict'')) = Inr True) all"
    "mapR (\<lambda>a. makeRawRecord D a Available) (filter (\<lambda>a. \<not> map_has lc (attemptEvidenceKey a)) (acceptedUnique @ conflicts)) = Inr raws"
    "mapR (\<lambda>a. bindR (current_decision D ds a) (\<lambda>d. Inr (attempt_delivery a d))) all = Inr dvs"
    "mset (io_raw_records out) = mset raws" "mset (io_deliveries out) = mset (dvs @ map pre_ingestion_delivery pre)"
    "mset (io_logical_events out) = mset (map logical_event_of (filter (\<lambda>a. \<not> map_has lc (attemptEvidenceKey a)) acceptedUnique))"
proof -
  from assms obtain conflicts raws dvs where
    1: "filterR (\<lambda>a. bindR (decisionFor D ds a) (\<lambda>d. Inr (reason_of d = Some ''event_id_conflict''))) all = Inr conflicts" and
    2: "mapR (\<lambda>a. makeRawRecord D a Available) (filter (\<lambda>a. \<not> map_has lc (attemptEvidenceKey a)) (acceptedUnique @ conflicts)) = Inr raws"
    "mapR (\<lambda>a. bindR (current_decision D ds a) (\<lambda>d. Inr (attempt_delivery a d))) all = Inr dvs" and
    3: "mset (io_raw_records out) = mset raws" "mset (io_deliveries out) = mset (dvs @ map pre_ingestion_delivery pre)"
    "mset (io_logical_events out) = mset (map logical_event_of (filter (\<lambda>a. \<not> map_has lc (attemptEvidenceKey a)) acceptedUnique))"
    unfolding ingestionArtifacts_def Let_def bindR_eq_Inr by auto
  have "conflicts = filter (\<lambda>a. bindR (decisionFor D ds a) (\<lambda>d. Inr (reason_of d = Some ''event_id_conflict'')) = Inr True) all"
    using 1 by (simp only: filterR_eq_Inr)
  from that [OF this 2 3] show thesis .
qed

lemma removed_not_emitted:
  assumes "ingestionArtifacts D A all ds pre acceptedUnique lc = Inr out"
  shows "(\<forall>r \<in> set (io_raw_records out). \<not> map_has lc (evidenceKey (rr_tenant_id r) (rr_app_id r) (rr_record_id r)))
    \<and> (\<forall>e \<in> set (io_logical_events out). \<not> map_has lc (evidenceKey (le_tenant_id e) (le_app_id e) (le_record_id e)))
    \<and> (\<forall>a \<in> set acceptedUnique. \<not> map_has lc (attemptEvidenceKey a) \<longrightarrow>
         (\<exists>r \<in> set (io_raw_records out). rr_record_id r = record_id a \<and> rr_tenant_id r = tenant a \<and> rr_app_id r = app a)
         \<and> logical_event_of a \<in> set (io_logical_events out))"
proof -
  from assms obtain conflicts raws dvs where
    "conflicts = filter (\<lambda>a. bindR (decisionFor D ds a) (\<lambda>d. Inr (reason_of d = Some ''event_id_conflict'')) = Inr True) all" and
    r: "mapR (\<lambda>a. makeRawRecord D a Available) (filter (\<lambda>a. \<not> map_has lc (attemptEvidenceKey a)) (acceptedUnique @ conflicts)) = Inr raws" and
    "mapR (\<lambda>a. bindR (current_decision D ds a) (\<lambda>d. Inr (attempt_delivery a d))) all = Inr dvs" and
    m: "mset (io_raw_records out) = mset raws" and "mset (io_deliveries out) = mset (dvs @ map pre_ingestion_delivery pre)" and
    l: "mset (io_logical_events out) = mset (map logical_event_of (filter (\<lambda>a. \<not> map_has lc (attemptEvidenceKey a)) acceptedUnique))"
    by (rule ingestionArtifacts_Inr)
  let ?xs = "filter (\<lambda>a. \<not> map_has lc (attemptEvidenceKey a)) (acceptedUnique @ conflicts)"
  have key: "map (\<lambda>r. (rr_record_id r, rr_tenant_id r, rr_app_id r)) raws = map (\<lambda>a. (record_id a, tenant a, app a)) ?xs"
    by (rule mapR_image [OF r]) (auto simp: makeRawRecord_def bindR_eq_Inr Let_def)
  have sets: "set (io_raw_records out) = set raws"
    "set (io_logical_events out) = logical_event_of ` set (filter (\<lambda>a. \<not> map_has lc (attemptEvidenceKey a)) acceptedUnique)"
    using m l by (metis set_mset_mset, metis set_map set_mset_mset)
  have img: "(\<lambda>r. (rr_record_id r, rr_tenant_id r, rr_app_id r)) ` set raws = (\<lambda>a. (record_id a, tenant a, app a)) ` set ?xs"
    using arg_cong [OF key, of set] unfolding set_map .
  have 1: "\<not> map_has lc (evidenceKey (rr_tenant_id r) (rr_app_id r) (rr_record_id r))" if "r \<in> set raws" for r
  proof -
    have "(rr_record_id r, rr_tenant_id r, rr_app_id r) \<in> (\<lambda>a. (record_id a, tenant a, app a)) ` set ?xs"
      using that img by blast
    then obtain a where "a \<in> set ?xs" "rr_record_id r = record_id a" "rr_tenant_id r = tenant a" "rr_app_id r = app a" by blast
    then show ?thesis by (auto simp: attemptEvidenceKey_def)
  qed
  have 2: "\<exists>r \<in> set raws. rr_record_id r = record_id a \<and> rr_tenant_id r = tenant a \<and> rr_app_id r = app a"
    if "a \<in> set acceptedUnique" "\<not> map_has lc (attemptEvidenceKey a)" for a
  proof -
    have "a \<in> set ?xs" using that by simp
    then have "(record_id a, tenant a, app a) \<in> (\<lambda>r. (rr_record_id r, rr_tenant_id r, rr_app_id r)) ` set raws"
      unfolding img by blast
    then show ?thesis by auto
  qed
  from 1 2 show ?thesis
    by (auto simp: sets logical_event_of_def attemptEvidenceKey_def)
qed

text \<open>Removed evidence is gone: no raw record or logical event names a record whose evidence the lifecycle index
  redacts or purges in its tenant and app, and every other accepted record has its raw record.\<close>

theorem removed_evidence_not_emitted:
  assumes "ingestionArtifacts D A all ds pre acceptedUnique lc = Inr out"
  shows "(\<forall>r \<in> set (io_raw_records out). \<not> map_has lc (evidenceKey (rr_tenant_id r) (rr_app_id r) (rr_record_id r)))
    \<and> (\<forall>e \<in> set (io_logical_events out). \<not> map_has lc (evidenceKey (le_tenant_id e) (le_app_id e) (le_record_id e)))
    \<and> (\<forall>a \<in> set acceptedUnique. \<not> map_has lc (attemptEvidenceKey a) \<longrightarrow>
         (\<exists>r \<in> set (io_raw_records out). rr_record_id r = record_id a \<and> rr_tenant_id r = tenant a \<and> rr_app_id r = app a)
         \<and> logical_event_of a \<in> set (io_logical_events out))"
  using assms by (rule removed_not_emitted)

text \<open>Every delivery is answered once: the emitted deliveries are the attempts of the evaluation and the
  pre-ingestion rejections, each with its own delivery id, record id, tenant and app.\<close>

theorem deliveries_account:
  assumes "ingestionArtifacts D A all ds pre acceptedUnique lc = Inr out"
  shows "mset (map (\<lambda>d. (dv_delivery_id d, dv_record_id d, dv_tenant_id d, dv_app_id d)) (io_deliveries out))
    = mset (map (\<lambda>a. (r_delivery_id (at_record a), record_id a, tenant a, app a)) all)
      + mset (map (\<lambda>d. (id_delivery_id d, id_record_id d, id_tenant_id d, id_app_id d)) pre)"
proof -
  from assms obtain conflicts raws dvs where
    "conflicts = filter (\<lambda>a. bindR (decisionFor D ds a) (\<lambda>d. Inr (reason_of d = Some ''event_id_conflict'')) = Inr True) all" and
    "mapR (\<lambda>a. makeRawRecord D a Available) (filter (\<lambda>a. \<not> map_has lc (attemptEvidenceKey a)) (acceptedUnique @ conflicts)) = Inr raws" and
    d: "mapR (\<lambda>a. bindR (current_decision D ds a) (\<lambda>d. Inr (attempt_delivery a d))) all = Inr dvs" and
    "mset (io_raw_records out) = mset raws" and m: "mset (io_deliveries out) = mset (dvs @ map pre_ingestion_delivery pre)"
    by (rule ingestionArtifacts_Inr)
  have "mset (map (\<lambda>d. (dv_delivery_id d, dv_record_id d, dv_tenant_id d, dv_app_id d)) (io_deliveries out))
      = mset (map (\<lambda>d. (dv_delivery_id d, dv_record_id d, dv_tenant_id d, dv_app_id d)) (dvs @ map pre_ingestion_delivery pre))"
    by (simp only: mset_map m)
  moreover have "map (\<lambda>d. (dv_delivery_id d, dv_record_id d, dv_tenant_id d, dv_app_id d)) dvs
      = map (\<lambda>a. (r_delivery_id (at_record a), record_id a, tenant a, app a)) all"
    by (rule mapR_image [OF d]) (auto simp: bindR_eq_Inr attempt_delivery_def)
  moreover have "map (\<lambda>d. (dv_delivery_id d, dv_record_id d, dv_tenant_id d, dv_app_id d)) (map pre_ingestion_delivery pre)
      = map (\<lambda>d. (id_delivery_id d, id_record_id d, id_tenant_id d, id_app_id d)) pre"
    by (simp add: pre_ingestion_delivery_def)
  ultimately show ?thesis by (simp only: map_append mset_append)
qed

text \<open>The rejections are exactly the rejected decisions, of deliveries and of pre-ingestion items, one each; only a
  conflict keeps protected evidence, the others keep metadata that identifies nobody.\<close>

theorem rejections_account:
  "mset (rejectionArtifacts A ds pre) = mset (map rejection_of (filter (\<lambda>d. id_ingestion_status d = Rejected) (ds @ pre)))
   \<and> (\<forall>r \<in> set (rejectionArtifacts A ds pre). rj_retained r = ''protected_conflict_evidence''
        \<longleftrightarrow> rj_reason_code r = ''event_id_conflict'')"
proof -
  have "rj_retained (rejection_of d) = ''protected_conflict_evidence'' \<longleftrightarrow> rj_reason_code (rejection_of d) = ''event_id_conflict''" for d
    by (cases "id_reason_code d") (auto simp: rejection_of_def)
  then show ?thesis by (auto simp: rejectionArtifacts_def)
qed

text \<open>A completed privacy request leaves one tombstone per record it affects, and its redaction entry in the
  corrections; an uncompleted request leaves neither.\<close>

theorem tombstones_exact:
  "(\<exists>t \<in> set (po_privacy_tombstones (privacyArtifacts D A corrections requests acceptedUnique acceptedCandidates)).
      pt_privacy_request_id t = i \<and> pt_tenant_id t = tn \<and> pt_app_id t = ap \<and> pt_record_id t = rid \<and> pt_lifecycle_status t = st)
   \<longleftrightarrow> (\<exists>rq \<in> set requests. pr_status rq = ''completed'' \<and> pr_id rq = i \<and> pr_tenant_id rq = tn \<and> pr_app_id rq = ap
          \<and> (rid, st) \<in> set (pr_affected_records rq))"
proof -
  have "(\<exists>t \<in> set (tombstones_of D rq). pt_privacy_request_id t = i \<and> pt_tenant_id t = tn \<and> pt_app_id t = ap
          \<and> pt_record_id t = rid \<and> pt_lifecycle_status t = st)
      \<longleftrightarrow> pr_status rq = ''completed'' \<and> pr_id rq = i \<and> pr_tenant_id rq = tn \<and> pr_app_id rq = ap \<and> (rid, st) \<in> set (pr_affected_records rq)" for rq
    by (force simp: tombstones_of_def split: prod.splits)
  then show ?thesis by (auto simp: privacyArtifacts_def)
qed

definition ex_digests :: artifact_digests where
  "ex_digests = \<lparr> ad_raw = rr_record_id, ad_delivery = dv_record_id, ad_logical = le_id, ad_privacy_request = pr_id,
     ad_tombstone = pt_record_id, ad_correction = co_id, ad_rejection = rj_record_id \<rparr>"

lemma ex_artifacts: "\<exists>out. ingestionArtifacts sample_digests ex_digests [] [] [] [ex_click] [] = Inr out"
  by (simp add: ingestionArtifacts_def Let_def map_has_def makeRawRecord_def consentDecision_def needs_consent_def ex_click_def blank_defs)

theorem removed_evidence_not_emitted_witness:
  "\<exists>out. ingestionArtifacts sample_digests ex_digests [] [] [] [ex_click] [] = Inr out
     \<and> logical_event_of ex_click \<in> set (io_logical_events out)"
proof -
  obtain out where o: "ingestionArtifacts sample_digests ex_digests [] [] [] [ex_click] [] = Inr out" using ex_artifacts by blast
  from removed_evidence_not_emitted [OF o] o show ?thesis by (auto simp: map_has_def)
qed

definition ex_pre :: ingestion_decision where
  "ex_pre = preIngestionDecision \<lparr> pi_record_id = ''r'', pi_delivery_id = ''d'', pi_tenant_id = ''t'', pi_app_id = ''a'',
     pi_received_at = ''2026-01-10T00:00:00.000Z'', pi_reason_code = ''schema_invalid'', pi_processing_purpose_id = None,
     pi_consent_evaluation_policy_version = ''1'', pi_consent_decision_reason_code = ''consent_not_required'' \<rparr>"

theorem deliveries_account_witness:
  "\<exists>out. ingestionArtifacts sample_digests ex_digests [] [] [ex_pre] [] [] = Inr out \<and> length (io_deliveries out) = 1"
proof -
  obtain out where o: "ingestionArtifacts sample_digests ex_digests [] [] [ex_pre] [] [] = Inr out"
    by (simp add: ingestionArtifacts_def Let_def)
  from arg_cong [OF deliveries_account [OF o], of size] o show ?thesis by auto
qed

theorem rejections_account_witness:
  "rj_retained (rejection_of ex_pre) \<noteq> ''protected_conflict_evidence''"
proof -
  have "rejection_of ex_pre \<in> set (rejectionArtifacts ex_digests [] [ex_pre])"
    by (simp add: rejectionArtifacts_def ex_pre_def preIngestionDecision_def)
  with rejections_account [of ex_digests "[]" "[ex_pre]"] show ?thesis
    by (simp add: rejection_of_def ex_pre_def preIngestionDecision_def)
qed

end
