(* ===== verification/Cost_Selection.thy ===== *)
theory Cost_Selection
  imports Candidates "HOL-Library.Product_Lexorder"
begin

unbundle bit_operations_syntax

text \<open>
  \<open>packages/attribution-core/src/cost-selection.ts\<close>: which cost rows can be summed. The overlap
  check of the source keeps, per cell and per mask of known dimensions, the projections of the
  rows seen so far onto every subset of their known dimensions. The theorem says that it finds
  an overlap exactly when two rows of a cell agree on every dimension both of them know.
\<close>

section \<open>Cost rows\<close>

record cost_record =
  cs_tenant_id :: string
  cs_app_id :: string
  cs_network :: string
  cs_campaign_id :: "string option"
  cs_ad_group_id :: "string option"
  cs_creative_id :: "string option"
  cs_coverage_scope :: "string option"
  cs_country :: "string option"
  cs_date :: string
  cs_id :: string
  cs_as_of :: string
  cs_currency :: string
  cs_amount_unscaled :: int
  cs_amount_scale :: nat
  cs_reporting_time_zone :: "string option"
  cs_dimension_digest :: string
  cs_report_snapshot_digest :: string
  cs_rest :: string

type_synonym grouping = "(string \<times> string) list"

definition group_value :: "grouping option \<Rightarrow> string \<Rightarrow> string option" where
  "group_value g field = (case g of None \<Rightarrow> None | Some m \<Rightarrow> map_of m field)"

definition costCoverageMatchesGrouping :: "cost_record \<Rightarrow> grouping option \<Rightarrow> bool \<Rightarrow> bool" where
  "costCoverageMatchesGrouping c g detail \<longleftrightarrow>
     cs_coverage_scope c = None
     \<or> (detail \<and> cs_coverage_scope c = Some ''matching_detail_only'' \<and> truthy (cs_ad_group_id c)
        \<and> group_value g ''ad_group_id'' = cs_ad_group_id c
        \<and> (\<not> truthy (cs_creative_id c) \<or> group_value g ''creative_id'' = cs_creative_id c))"

section \<open>Latest revisions\<close>

definition dimensions :: "bool \<Rightarrow> cost_record \<Rightarrow> string option list" where
  "dimensions includeCreative c =
     [cs_campaign_id c, cs_ad_group_id c, cs_country c] @ (if includeCreative then [cs_creative_id c] else [])"

definition revision_order :: "cost_record \<Rightarrow> string \<times> string" where
  "revision_order c = (cs_as_of c, cs_id c)"

definition revision_key :: "bool \<Rightarrow> cost_record \<Rightarrow> string" where
  "revision_key includeCreative c =
     compositeKey ([Some (cs_tenant_id c), Some (cs_app_id c), Some (cs_network c), Some (cs_date c)] @ dimensions includeCreative c)"

definition keep_revision :: "bool \<Rightarrow> (string, cost_record) jsmap \<Rightarrow> cost_record \<Rightarrow> (string, cost_record) jsmap" where
  "keep_revision includeCreative m c =
     (let key = revision_key includeCreative c in
      case map_get m key of
        None \<Rightarrow> map_set key c m
      | Some previous \<Rightarrow> if revision_order previous < revision_order c then map_set key c m else m)"

definition latest_revisions :: "bool \<Rightarrow> cost_record list \<Rightarrow> cost_record list" where
  "latest_revisions includeCreative input = map_values (foldl (keep_revision includeCreative) [] input)"

section \<open>The overlap check\<close>

definition mask_of :: "string option list \<Rightarrow> nat" where
  "mask_of dims = foldl (\<lambda>v (i, d). v OR (if d = None then 0 else push_bit i 1)) 0 (enumerate 0 dims)"

definition project :: "string option list \<Rightarrow> nat \<Rightarrow> string" where
  "project dims sub = compositeKey (map (\<lambda>i. dims ! i) (filter (\<lambda>i. bit sub i) [0..<length dims]))"

text \<open>The loop \<open>for (let subset = mask; ; subset = (subset - 1) & mask)\<close>, which stops after 0.\<close>

function subset_masks :: "nat \<Rightarrow> nat \<Rightarrow> nat list" where
  "subset_masks msk sub = sub # (if sub = 0 then [] else subset_masks msk ((sub - 1) AND msk))"
  by auto
termination
proof (relation "measure snd")
  show "wf (measure (snd :: nat \<times> nat \<Rightarrow> nat))" by simp
  fix msk sub :: nat assume "sub \<noteq> 0"
  have "(sub - 1) AND msk \<le> sub - 1"
    by (metis and.commute and_nat_def nat_int of_nat_0_le_iff AND_upper2 nat_le_iff)
  with \<open>sub \<noteq> 0\<close> show "((msk, (sub - 1) AND msk), msk, sub) \<in> measure snd" by simp
qed

declare subset_masks.simps [simp del]

type_synonym projections = "(nat, string list) jsmap"

type_synonym cells = "(string, (nat, projections) jsmap) jsmap"

definition cell_key :: "cost_record \<Rightarrow> string" where
  "cell_key c = keyOf [cs_tenant_id c, cs_app_id c, cs_network c, cs_date c]"

definition add_projection :: "string option list \<Rightarrow> projections \<Rightarrow> nat \<Rightarrow> projections" where
  "add_projection dims ps sub = map_set sub (set_add (project dims sub) (the_or [] (map_get ps sub))) ps"

definition index_row :: "bool \<Rightarrow> cells \<times> bool \<Rightarrow> cost_record \<Rightarrow> cells \<times> bool" where
  "index_row includeCreative st row =
     (let dims = dimensions includeCreative row; msk = mask_of dims; key = cell_key row;
          cell = the_or [] (map_get (fst st) key);
          overlap = (\<exists>(previousMask, ps) \<in> set cell.
             project dims (previousMask AND msk) \<in> set (the_or [] (map_get ps (previousMask AND msk))));
          ps = foldl (add_projection dims) (the_or [] (map_get cell msk)) (subset_masks msk msk)
      in (map_set key (map_set msk ps cell) (fst st), snd st \<or> overlap))"

definition overlapping_rows :: "bool \<Rightarrow> cost_record list \<Rightarrow> bool" where
  "overlapping_rows includeCreative rows = snd (foldl (index_row includeCreative) ([], False) rows)"

definition selectDisjointCosts :: "cost_record list \<Rightarrow> bool \<Rightarrow> (cost_record \<Rightarrow> bool) \<Rightarrow> cost_record list \<times> bool" where
  "selectDisjointCosts input includeCreative eligible =
     (let rows = sort_key revision_order (filter eligible (latest_revisions includeCreative input))
      in (rows, overlapping_rows includeCreative rows))"

section \<open>Masks\<close>

lemma mask_of_bit_aux:
  "bit (foldl (\<lambda>v (i, d). v OR (if d = None then 0 else push_bit i 1)) v (enumerate n dims)) i
     \<longleftrightarrow> bit v i \<or> (n \<le> i \<and> i < n + length dims \<and> dims ! (i - n) \<noteq> None)" for v :: nat
proof (induction dims arbitrary: n v i)
  case (Cons d dims)
  show ?case
    by (cases "i = n") (auto simp: Cons.IH bit_or_iff bit_exp_iff Suc_le_eq nth_Cons')
qed auto

lemma bit_mask_of: "bit (mask_of dims) i \<longleftrightarrow> i < length dims \<and> dims ! i \<noteq> None"
  using mask_of_bit_aux [of 0 0 dims i] by (simp add: mask_of_def)

lemma mask_of_less: "mask_of dims < 2 ^ length dims"
proof -
  have "take_bit (length dims) (mask_of dims) = mask_of dims"
    by (rule bit_eqI) (auto simp: bit_take_bit_iff bit_mask_of)
  then show ?thesis by (metis take_bit_nat_less_exp)
qed

lemma subset_masks_16:
  "\<forall>msk \<in> set [0..<16]. \<forall>s \<in> set [0..<16]. s \<in> set (subset_masks msk msk) \<longleftrightarrow> s AND msk = s"
  by code_simp

lemma and_nat_less: "(a :: nat) < 2 ^ n \<Longrightarrow> a AND b < 2 ^ n"
  by (metis AND_upper1 and_nat_def le_less_trans nat_int nat_le_iff of_nat_0_le_iff)

lemma subset_masks_iff:
  assumes "msk < 16"
  shows "s \<in> set (subset_masks msk msk) \<longleftrightarrow> s AND msk = s"
proof
  assume s: "s \<in> set (subset_masks msk msk)"
  have le: "s \<in> set (subset_masks m t) \<Longrightarrow> t < 16 \<Longrightarrow> s < 16" for m t
  proof (induction m t rule: subset_masks.induct)
    case (1 m t)
    show ?case
    proof (cases "s = t")
      case False
      with "1.prems"(1) have "t \<noteq> 0" "s \<in> set (subset_masks m ((t - 1) AND m))"
        by (simp_all add: subset_masks.simps [of m t] split: if_splits)
      moreover have "(t - 1) AND m < 16" using and_nat_less [of "t - 1" 4 m] "1.prems"(2) by simp
      ultimately show ?thesis by (rule "1.IH")
    qed (use "1.prems" in simp)
  qed
  from le [OF s assms] subset_masks_16 s assms show "s AND msk = s" by (metis atLeastLessThan_iff le0 set_upt)
next
  assume s: "s AND msk = s"
  then have "s < 16" using and_nat_less [of msk 4 s] assms by (simp add: and.commute)
  with s subset_masks_16 assms show "s \<in> set (subset_masks msk msk)" by (metis atLeastLessThan_iff le0 set_upt)
qed

section \<open>The index and the pairwise specification\<close>

text \<open>Two rows overlap when they lie in one cell and agree on every dimension both know.\<close>

definition compatible_dims :: "string option list \<Rightarrow> string option list \<Rightarrow> bool" where
  "compatible_dims xs ys \<longleftrightarrow> (\<forall>i < length xs. xs ! i \<noteq> None \<longrightarrow> ys ! i \<noteq> None \<longrightarrow> xs ! i = ys ! i)"

definition rows_overlap :: "bool \<Rightarrow> cost_record \<Rightarrow> cost_record \<Rightarrow> bool" where
  "rows_overlap includeCreative a b \<longleftrightarrow>
     cs_tenant_id a = cs_tenant_id b \<and> cs_app_id a = cs_app_id b \<and> cs_network a = cs_network b \<and> cs_date a = cs_date b
     \<and> compatible_dims (dimensions includeCreative a) (dimensions includeCreative b)"

lemma length_dimensions: "length (dimensions ic a) = (if ic then 4 else 3)"
  by (simp add: dimensions_def)

lemma mask_less_16: "mask_of (dimensions ic a) < 16"
  using mask_of_less [of "dimensions ic a"] by (auto simp: length_dimensions split: if_splits)

lemma project_common:
  assumes "length xs = length ys"
  shows "project xs (mask_of xs AND mask_of ys) = project ys (mask_of xs AND mask_of ys) \<longleftrightarrow> compatible_dims xs ys"
proof -
  have "project xs (mask_of xs AND mask_of ys) = project ys (mask_of xs AND mask_of ys)
      \<longleftrightarrow> (\<forall>i \<in> set (filter (\<lambda>i. bit (mask_of xs AND mask_of ys) i) [0..<length xs]). xs ! i = ys ! i)"
    by (simp add: project_def assms)
  also have "\<dots> \<longleftrightarrow> compatible_dims xs ys"
    using assms by (auto simp: compatible_dims_def bit_and_iff bit_mask_of)
  finally show ?thesis .
qed

text \<open>A lookup of the index: the projections seen for a cell, a mask and a subset of it.\<close>

definition seen :: "cells \<Rightarrow> string \<Rightarrow> nat \<Rightarrow> nat \<Rightarrow> string set" where
  "seen cs k m s = set (the_or [] (map_get (the_or [] (map_get (the_or [] (map_get cs k)) m)) s))"

definition cells_ok :: "cells \<Rightarrow> bool" where
  "cells_ok cs \<longleftrightarrow> (\<forall>k cell. map_get cs k = Some cell \<longrightarrow> distinct (map fst cell))"

lemma add_projections_seen:
  "set (the_or [] (map_get (foldl (add_projection dims) ps ms) s))
     = set (the_or [] (map_get ps s)) \<union> (if s \<in> set ms then {project dims s} else {})"
  by (induction ms arbitrary: ps) (auto simp: add_projection_def)

lemma index_row_cells:
  assumes "cells_ok cs"
  shows "cells_ok (fst (index_row ic (cs, b) row))"
    "seen (fst (index_row ic (cs, b) row)) k m s = seen cs k m s
       \<union> (if k = cell_key row \<and> m = mask_of (dimensions ic row) \<and> s AND m = s then {project (dimensions ic row) s} else {})"
proof -
  have "distinct (map fst (the_or [] (map_get cs (cell_key row))))"
    using assms by (cases "map_get cs (cell_key row)") (auto simp: cells_ok_def)
  then show "cells_ok (fst (index_row ic (cs, b) row))"
    using assms by (auto simp: cells_ok_def index_row_def Let_def map_set_distinct)
  show "seen (fst (index_row ic (cs, b) row)) k m s = seen cs k m s
       \<union> (if k = cell_key row \<and> m = mask_of (dimensions ic row) \<and> s AND m = s then {project (dimensions ic row) s} else {})"
    by (auto simp: seen_def index_row_def Let_def add_projections_seen subset_masks_iff [OF mask_less_16])
qed

lemma index_row_overlap:
  assumes "cells_ok cs"
  shows "snd (index_row ic (cs, b) row) \<longleftrightarrow> b \<or> (\<exists>pm. project (dimensions ic row) (pm AND mask_of (dimensions ic row))
      \<in> seen cs (cell_key row) pm (pm AND mask_of (dimensions ic row)))"
proof -
  define cell where "cell = the_or [] (map_get cs (cell_key row))"
  have d: "distinct (map fst cell)"
    using assms by (cases "map_get cs (cell_key row)") (auto simp: cells_ok_def cell_def)
  have "(\<exists>(pm, ps) \<in> set cell. P pm (the_or [] (map_get ps (Q pm)))) \<longleftrightarrow> (\<exists>pm. P pm (the_or [] (map_get (the_or [] (map_get cell pm)) (Q pm))))"
    if "\<And>pm. \<not> P pm []" for P :: "nat \<Rightarrow> string list \<Rightarrow> bool" and Q
  proof
    assume "\<exists>(pm, ps) \<in> set cell. P pm (the_or [] (map_get ps (Q pm)))"
    then obtain pm ps where "(pm, ps) \<in> set cell" "P pm (the_or [] (map_get ps (Q pm)))" by blast
    moreover from this d have "map_get cell pm = Some ps" by (simp add: map_get_def)
    ultimately show "\<exists>pm. P pm (the_or [] (map_get (the_or [] (map_get cell pm)) (Q pm)))" by (auto intro!: exI [of _ pm])
  next
    assume "\<exists>pm. P pm (the_or [] (map_get (the_or [] (map_get cell pm)) (Q pm)))"
    then obtain pm where p: "P pm (the_or [] (map_get (the_or [] (map_get cell pm)) (Q pm)))" by blast
    with that obtain ps where "map_get cell pm = Some ps" by (cases "map_get cell pm") auto
    moreover from this have "(pm, ps) \<in> set cell" by (simp add: map_get_def map_of_SomeD)
    ultimately show "\<exists>(pm, ps) \<in> set cell. P pm (the_or [] (map_get ps (Q pm)))" using p by force
  qed
  from this [of "\<lambda>pm vs. project (dimensions ic row) (pm AND mask_of (dimensions ic row)) \<in> set vs" "\<lambda>pm. pm AND mask_of (dimensions ic row)"]
  show ?thesis by (simp add: index_row_def Let_def seen_def cell_def [symmetric])
qed

lemma cell_key_eq: "cell_key a = cell_key b \<longleftrightarrow>
    cs_tenant_id a = cs_tenant_id b \<and> cs_app_id a = cs_app_id b \<and> cs_network a = cs_network b \<and> cs_date a = cs_date b"
  by (simp add: cell_key_def)

lemma and_idem_left: "(a AND b) AND a = (a AND b :: nat)"
  by (simp add: and.commute and.left_commute)

text \<open>The index after some rows: their own projections onto the subsets of their masks, and nothing else.\<close>

definition indexed_rows :: "bool \<Rightarrow> cost_record list \<Rightarrow> cells \<Rightarrow> bool" where
  "indexed_rows ic rows cs \<longleftrightarrow> cells_ok cs \<and> (\<forall>k m s v. v \<in> seen cs k m s \<longleftrightarrow>
     (\<exists>r \<in> set rows. k = cell_key r \<and> m = mask_of (dimensions ic r) \<and> s AND m = s \<and> v = project (dimensions ic r) s))"

lemma indexed_overlap:
  assumes "indexed_rows ic rows cs"
  shows "snd (index_row ic (cs, b) row) \<longleftrightarrow> b \<or> (\<exists>r \<in> set rows. rows_overlap ic r row)"
proof -
  have ok: "cells_ok cs" using assms by (simp add: indexed_rows_def)
  have "(\<exists>pm. project (dimensions ic row) (pm AND mask_of (dimensions ic row))
      \<in> seen cs (cell_key row) pm (pm AND mask_of (dimensions ic row)))
      \<longleftrightarrow> (\<exists>r \<in> set rows. cell_key row = cell_key r
            \<and> project (dimensions ic r) (mask_of (dimensions ic r) AND mask_of (dimensions ic row))
              = project (dimensions ic row) (mask_of (dimensions ic r) AND mask_of (dimensions ic row)))"
    using assms by (simp add: indexed_rows_def and_idem_left bex_simps(6)) (metis (no_types, lifting))
  also have "\<dots> \<longleftrightarrow> (\<exists>r \<in> set rows. rows_overlap ic r row)"
    by (intro bex_cong refl) (auto simp: project_common length_dimensions rows_overlap_def cell_key_eq)
  finally show ?thesis by (simp add: index_row_overlap [OF ok])
qed

lemma indexed_step:
  assumes "indexed_rows ic rows cs"
  shows "indexed_rows ic (rows @ [row]) (fst (index_row ic (cs, b) row))"
  using index_row_cells [of cs ic b row] assms by (auto simp: indexed_rows_def)

lemma fold_overlap:
  "indexed_rows ic pre cs \<Longrightarrow>
     snd (foldl (index_row ic) (cs, b) rows) \<longleftrightarrow>
       b \<or> (\<exists>i j. i < j \<and> j < length (pre @ rows) \<and> length pre \<le> j \<and> rows_overlap ic ((pre @ rows) ! i) ((pre @ rows) ! j))"
proof (induction rows arbitrary: pre cs b)
  case Nil
  then show ?case by auto
next
  case (Cons row rows)
  obtain cs' b' where st: "index_row ic (cs, b) row = (cs', b')" by (cases "index_row ic (cs, b) row")
  have b': "b' \<longleftrightarrow> b \<or> (\<exists>r \<in> set pre. rows_overlap ic r row)"
    using indexed_overlap [OF Cons.prems, of b row] st by simp
  have inv: "indexed_rows ic (pre @ [row]) cs'" using indexed_step [OF Cons.prems, of row b] st by simp
  let ?all = "pre @ row # rows"
  have "snd (foldl (index_row ic) (cs, b) (row # rows)) \<longleftrightarrow>
      b' \<or> (\<exists>i j. i < j \<and> j < length ?all \<and> length (pre @ [row]) \<le> j \<and> rows_overlap ic (?all ! i) (?all ! j))"
    using Cons.IH [OF inv, of b'] st by simp
  moreover have "(\<exists>r \<in> set pre. rows_overlap ic r row) \<longleftrightarrow> (\<exists>i. i < length pre \<and> rows_overlap ic (?all ! i) (?all ! length pre))"
  proof -
    have "(\<exists>r \<in> set pre. rows_overlap ic r row) \<longleftrightarrow> (\<exists>i. i < length pre \<and> rows_overlap ic (pre ! i) row)"
      unfolding set_conv_nth by blast
    then show ?thesis by (simp add: nth_append cong: conj_cong)
  qed
  moreover have "(\<exists>i j. i < j \<and> j < length ?all \<and> length pre \<le> j \<and> rows_overlap ic (?all ! i) (?all ! j)) \<longleftrightarrow>
      (\<exists>i. i < length pre \<and> rows_overlap ic (?all ! i) (?all ! length pre))
      \<or> (\<exists>i j. i < j \<and> j < length ?all \<and> length (pre @ [row]) \<le> j \<and> rows_overlap ic (?all ! i) (?all ! j))"
  proof -
    have eq: "length pre \<le> j \<longleftrightarrow> j = length pre \<or> length (pre @ [row]) \<le> j" for j by auto
    have "length pre < length ?all" by simp
    then show ?thesis unfolding eq by blast
  qed
  ultimately show ?case using b' by blast
qed

text \<open>C32. The subset-mask check finds an overlap exactly when two of the rows lie in the same tenant, app, network and
  date and agree on every dimension both of them know: a missing dimension means unknown coverage.\<close>

theorem overlap_is_pairwise:
  "overlapping_rows includeCreative rows \<longleftrightarrow>
     (\<exists>i j. i < j \<and> j < length rows \<and> rows_overlap includeCreative (rows ! i) (rows ! j))"
proof -
  have "indexed_rows includeCreative [] []"
    by (simp add: indexed_rows_def cells_ok_def seen_def)
  from fold_overlap [OF this, of False rows] show ?thesis by (simp add: overlapping_rows_def)
qed

section \<open>The latest revision\<close>

definition revisions_inv :: "bool \<Rightarrow> cost_record list \<Rightarrow> (string, cost_record) jsmap \<Rightarrow> bool" where
  "revisions_inv ic rows m \<longleftrightarrow> distinct (map fst m)
     \<and> (\<forall>(k, c) \<in> set m. k = revision_key ic c \<and> c \<in> set rows)
     \<and> (\<forall>r \<in> set rows. \<exists>c. map_get m (revision_key ic r) = Some c \<and> revision_order r \<le> revision_order c)"

lemma map_set_members: "distinct (map fst m) \<Longrightarrow> set (map_set k v m) = insert (k, v) {(k', v') \<in> set m. k' \<noteq> k}"
  unfolding map_set_def by (induction m) (auto simp: image_iff)

lemma keep_revision_inv:
  assumes "revisions_inv ic rows m"
  shows "revisions_inv ic (rows @ [c]) (keep_revision ic m c)"
proof -
  let ?k = "revision_key ic c"
  have set: "revisions_inv ic (rows @ [c]) (map_set ?k c m)"
    if newer: "\<And>p. map_get m ?k = Some p \<Longrightarrow> revision_order p \<le> revision_order c"
  proof -
    have "\<exists>d. map_get (map_set ?k c m) (revision_key ic r) = Some d \<and> revision_order r \<le> revision_order d"
      if r: "r \<in> set (rows @ [c])" for r
    proof (cases "revision_key ic r = ?k")
      case True
      have "revision_order r \<le> revision_order c"
      proof (cases "r = c")
        case False
        with r assms True obtain p where "map_get m ?k = Some p" "revision_order r \<le> revision_order p"
          by (auto simp: revisions_inv_def)
        from this(2) newer [OF this(1)] show ?thesis by (rule order_trans)
      qed simp
      with True show ?thesis by simp
    next
      case False
      with r assms show ?thesis by (auto simp: revisions_inv_def)
    qed
    with assms show ?thesis by (auto simp: revisions_inv_def map_set_members map_set_distinct)
  qed
  show ?thesis
  proof (cases "map_get m ?k")
    case None
    with set show ?thesis by (simp add: keep_revision_def Let_def)
  next
    case (Some p)
    show ?thesis
    proof (cases "revision_order p < revision_order c")
      case True
      with Some set show ?thesis by (simp add: keep_revision_def Let_def)
    next
      case False
      then have "revision_order c \<le> revision_order p" by simp
      with Some assms show ?thesis by (auto simp: keep_revision_def Let_def revisions_inv_def False)
    qed
  qed
qed

lemma latest_revisions_inv: "revisions_inv ic input (foldl (keep_revision ic) [] input)"
proof -
  have "revisions_inv ic pre m \<Longrightarrow> revisions_inv ic (pre @ rows) (foldl (keep_revision ic) m rows)" for pre rows m
  proof (induction rows arbitrary: pre m)
    case (Cons r rows)
    from Cons.IH [OF keep_revision_inv [OF Cons.prems, of r]] show ?case by simp
  qed simp
  from this [of "[]" "[]" input] show ?thesis by (simp add: revisions_inv_def)
qed

text \<open>The rows kept are the latest revisions: each comes from the input, no input row of the same scope, date and
  dimensions is newer, every such group keeps one, and none keeps two.\<close>

theorem latest_revisions_maximal:
  "set (latest_revisions ic input) \<subseteq> set input
   \<and> (\<forall>r \<in> set input. \<exists>l \<in> set (latest_revisions ic input). revision_key ic l = revision_key ic r \<and> revision_order r \<le> revision_order l)
   \<and> distinct (map (revision_key ic) (latest_revisions ic input))"
proof -
  define m where "m = foldl (keep_revision ic) [] input"
  have inv: "revisions_inv ic input m" unfolding m_def by (rule latest_revisions_inv)
  have vals: "latest_revisions ic input = map snd m" by (simp add: latest_revisions_def map_values_def m_def)
  have keys: "map (revision_key ic) (map snd m) = map fst m" using inv by (auto simp: revisions_inv_def)
  have "\<exists>l \<in> set (map snd m). revision_key ic l = revision_key ic r \<and> revision_order r \<le> revision_order l"
    if "r \<in> set input" for r
  proof -
    from inv that obtain c where c: "map_get m (revision_key ic r) = Some c" "revision_order r \<le> revision_order c"
      by (auto simp: revisions_inv_def)
    from c(1) have "(revision_key ic r, c) \<in> set m" by (simp add: map_get_def map_of_SomeD)
    moreover from this inv have "revision_key ic r = revision_key ic c" by (auto simp: revisions_inv_def)
    ultimately show ?thesis using c(2) by (intro bexI [of _ c]) force+
  qed
  moreover have "set (map snd m) \<subseteq> set input" using inv by (auto simp: revisions_inv_def)
  moreover have "distinct (map (revision_key ic) (map snd m))" using inv unfolding keys by (simp add: revisions_inv_def)
  ultimately show ?thesis unfolding vals by blast
qed

definition ex_cost :: "string \<Rightarrow> cost_record" where
  "ex_cost revision = \<lparr> cs_tenant_id = ''t'', cs_app_id = ''a'', cs_network = ''n'', cs_campaign_id = Some ''c'', cs_ad_group_id = None,
     cs_creative_id = None, cs_coverage_scope = None, cs_country = None, cs_date = ''2026-01-10'', cs_id = ''cost'', cs_as_of = revision,
     cs_currency = ''USD'', cs_amount_unscaled = 1, cs_amount_scale = 0, cs_reporting_time_zone = None, cs_dimension_digest = [],
     cs_report_snapshot_digest = [], cs_rest = [] \<rparr>"

theorem latest_revisions_maximal_witness:
  "\<exists>l \<in> set (latest_revisions False [ex_cost ''2'', ex_cost ''1'']). revision_key False l = revision_key False (ex_cost ''2'')
     \<and> revision_order (ex_cost ''2'') \<le> revision_order l"
  using latest_revisions_maximal [of False "[ex_cost ''2'', ex_cost ''1'']"] by simp

end
