(* ===== verification/Platform_Acquisition.thy ===== *)
theory Platform_Acquisition
  imports Attribution
begin

text \<open>
  \<open>packages/attribution-core/src/platform-acquisition.ts\<close>: the attributions a metric may read and the
  server proofs that back the platform ones. The theorems say that a proof is admitted only for
  an install of its own scope and by its watermark, and that the selected attribution of a
  subject is never a superseded one and never decided after the watermark.
\<close>

record platform_input =
  pq_attribution :: attribution
  pq_source :: string
  pq_install_record_id :: string
  pq_evidence_ref :: "string option"
  pq_evidence_digest :: string
  pq_lifecycle_status :: lifecycle_status
  pq_campaign_id :: "string option"
  pq_ad_group_id :: "string option"

record platform_selection =
  pl_attributions :: "(string, attribution) jsmap"
  pl_proofs :: "(string, platform_input) jsmap"

definition an_key :: "attribution \<Rightarrow> string" where
  "an_key an = keyOf [an_tenant_id an, an_app_id an, an_id an]"

definition subject_key :: "attribution \<Rightarrow> string" where
  "subject_key an = compositeKey [Some (an_tenant_id an), Some (an_app_id an), an_subject_ref an]"

definition decided_by :: "attribution \<Rightarrow> string \<Rightarrow> bool" where
  "decided_by an watermark \<longleftrightarrow> an_decided_at an \<le> watermark \<and> an_input_cutoff_at an \<le> watermark"

definition native_installs :: "attempt list \<Rightarrow> attempt list" where
  "native_installs included = filter (\<lambda>a. event_name a = ''install'' \<and> \<not> is_imported a) included"

definition evidence_named :: "attribution \<Rightarrow> string option \<Rightarrow> bool" where
  "evidence_named an ref \<longleftrightarrow> (\<exists>e \<in> set (an_evidence_refs an). Some (ev_ref e) = ref)"

definition proof_scoped :: "attempt list \<Rightarrow> string \<Rightarrow> platform_input \<Rightarrow> bool" where
  "proof_scoped installs watermark i \<longleftrightarrow>
     (let an = pq_attribution i in
      an_subject_scope an = Installation_Level \<and> an_method an = pq_source i \<and> decided_by an watermark
      \<and> (\<exists>x \<in> set installs. record_id x = pq_install_record_id i \<and> tenant x = an_tenant_id an \<and> app x = an_app_id an
            \<and> installation x = an_subject_ref an)
      \<and> (\<exists>e \<in> set (an_evidence_refs an). ev_ref e = pq_install_record_id i \<and> ev_tenant_id e = an_tenant_id an
            \<and> ev_app_id e = an_app_id an))"

definition proof_evidenced :: "digests \<Rightarrow> attempt list \<Rightarrow> platform_input \<Rightarrow> bool" where
  "proof_evidenced D installs i \<longleftrightarrow>
     (let an = pq_attribution i in
      if pq_source i = ''meta_install_referrer'' then
        (case List.find (\<lambda>x. record_id x = pq_install_record_id i \<and> tenant x = an_tenant_id an \<and> app x = an_app_id an) installs of
           None \<Rightarrow> False
         | Some x \<Rightarrow>
             let p = payload_of x in
             p_meta_referrer_status p = Some ''decrypted'' \<and> truthy (p_meta_decryption_key_id p)
             \<and> pq_evidence_ref i = p_protected_referrer_evidence_ref p \<and> pq_evidence_digest i = sha_payload D p
             \<and> pq_campaign_id i = (case p_meta_referrer_context p of None \<Rightarrow> None | Some c \<Rightarrow> mc_campaign_id c)
             \<and> pq_ad_group_id i = (case p_meta_referrer_context p of None \<Rightarrow> None | Some c \<Rightarrow> mc_adgroup_id c))
      else evidence_named an (pq_evidence_ref i))"

text \<open>Two admitted proofs of one attribution conflict, and neither counts.\<close>

definition admit_proof :: "digests \<Rightarrow> attempt list \<Rightarrow> string \<Rightarrow> (string, platform_input) jsmap \<times> string list \<Rightarrow> platform_input \<Rightarrow>
    (string, platform_input) jsmap \<times> string list" where
  "admit_proof D installs watermark st i =
     (if \<not> proof_scoped installs watermark i \<or> \<not> proof_evidenced D installs i then st
      else let k = an_key (pq_attribution i)
           in (map_set k i (fst st), if map_has (fst st) k then set_add k (snd st) else snd st))"

definition admitted_proofs :: "digests \<Rightarrow> attempt list \<Rightarrow> platform_input list \<Rightarrow> string \<Rightarrow> (string, platform_input) jsmap" where
  "admitted_proofs D included inputs watermark =
     (let st = foldl (admit_proof D (native_installs included) watermark) ([], []) inputs
      in filter (\<lambda>(k, i). k \<notin> set (snd st)) (fst st))"

definition platform_eligible :: "attempt list \<Rightarrow> (string, platform_input) jsmap \<Rightarrow> string \<Rightarrow> attribution \<Rightarrow> bool" where
  "platform_eligible included proofs watermark an \<longleftrightarrow>
     an_subject_scope an = Installation_Level
     \<and> subject_key an \<in> set (map (\<lambda>x. compositeKey [Some (tenant x), Some (app x), installation x]) (native_installs included))
     \<and> decided_by an watermark
     \<and> list_all (\<lambda>e. ev_tenant_id e = an_tenant_id an \<and> ev_app_id e = an_app_id an
          \<and> (evidenceKey (ev_tenant_id e) (ev_app_id e) (ev_ref e) \<in> set (map attemptEvidenceKey included)
             \<or> (case map_get proofs (an_key an) of None \<Rightarrow> False | Some p \<Rightarrow> pq_evidence_ref p = Some (ev_ref e))))
        (an_evidence_refs an)"

definition superseding :: "attribution \<Rightarrow> attribution \<Rightarrow> bool" where
  "superseding an old \<longleftrightarrow> truthy (an_supersedes an) \<and> an_supersedes an = Some (an_id old)
     \<and> an_tenant_id an = an_tenant_id old \<and> an_app_id an = an_app_id old \<and> an_subject_ref an = an_subject_ref old"

definition selectPlatformAcquisition :: "digests \<Rightarrow> (attribution \<Rightarrow> string) \<Rightarrow> attribution list \<Rightarrow> attempt list \<Rightarrow>
    platform_input list \<Rightarrow> string \<Rightarrow> platform_selection" where
  "selectPlatformAcquisition D sha attributions included inputs watermark =
     (let proofs = admitted_proofs D included inputs watermark;
          candidates = foldl (\<lambda>m p. map_set (an_key (pq_attribution p)) (pq_attribution p) m)
             (map_from (map (\<lambda>an. (an_key an, an)) attributions)) (map_values proofs);
          eligible = filter (platform_eligible included proofs watermark) (map_values candidates);
          current = filter (\<lambda>an. \<not> (\<exists>x \<in> set eligible. superseding x an)) eligible
      in \<lparr> pl_attributions = map_from (map (\<lambda>an. (subject_key an, an)) (sortByKey sha (\<lambda>an. [an_decided_at an, an_id an]) current)),
           pl_proofs = proofs \<rparr>)"

record acquisition_dimensions =
  dm_campaign_id :: "string option"
  dm_ad_group_id :: "string option"
  dm_creative_id :: "string option"
  dm_network :: "string option"
  dm_country :: "string option"

definition no_dimensions :: acquisition_dimensions where
  "no_dimensions = \<lparr> dm_campaign_id = None, dm_ad_group_id = None, dm_creative_id = None, dm_network = None, dm_country = None \<rparr>"

definition platformAcquisitionDimensions :: "attempt \<Rightarrow> platform_selection \<Rightarrow> acquisition_dimensions option" where
  "platformAcquisitionDimensions install sel =
     (case map_get (pl_attributions sel) (compositeKey [Some (tenant install), Some (app install), installation install]) of
        None \<Rightarrow> None
      | Some an \<Rightarrow>
          (case map_get (pl_proofs sel) (an_key an) of
             None \<Rightarrow> None
           | Some p \<Rightarrow>
               if pq_lifecycle_status p \<noteq> Available then None
               else Some (no_dimensions\<lparr> dm_campaign_id := (if an_status an = Non_Organic then pq_campaign_id p else None),
                            dm_ad_group_id := (if an_status an = Non_Organic then pq_ad_group_id p else None),
                            dm_network := Some (pq_source p) \<rparr>)))"

definition selectedPlatformProofRows :: "(attribution \<Rightarrow> string) \<Rightarrow> (platform_input \<Rightarrow> string) \<Rightarrow> platform_selection \<Rightarrow> string list list" where
  "selectedPlatformProofRows sha digest sel =
     concat (map (\<lambda>an. case map_get (pl_proofs sel) (an_key an) of None \<Rightarrow> []
         | Some p \<Rightarrow> [[an_tenant_id an, an_app_id an, an_id an, digest p]])
       (sortByKey sha (\<lambda>an. [an_tenant_id an, an_app_id an, an_id an]) (map_values (pl_attributions sel))))"

section \<open>Properties\<close>

lemma map_from_values: "set (map_values (map_from es)) \<subseteq> snd ` set es"
proof -
  have "set (map_values (fold (\<lambda>(k, v) m. map_set k v m) es m)) \<subseteq> set (map_values m) \<union> snd ` set es" for m
  proof (induction es arbitrary: m)
    case (Cons e es)
    obtain k v where e: "e = (k, v)" by (cases e)
    have "set (map_values (fold (\<lambda>(k, v) m. map_set k v m) es (map_set k v m)))
        \<subseteq> set (map_values (map_set k v m)) \<union> snd ` set es" by (rule Cons.IH)
    also have "\<dots> \<subseteq> insert v (set (map_values m)) \<union> snd ` set es" using map_set_values [of k v m] by blast
    finally show ?case by (simp add: e)
  qed simp
  from this [of "[]"] show ?thesis by (simp add: map_from_def map_values_def)
qed

lemma admitted_proofs_sound:
  "p \<in> set (map_values (admitted_proofs D included inputs watermark)) \<Longrightarrow>
     p \<in> set inputs \<and> proof_scoped (native_installs included) watermark p \<and> proof_evidenced D (native_installs included) p"
proof -
  let ?ok = "\<lambda>p. p \<in> set inputs \<and> proof_scoped (native_installs included) watermark p \<and> proof_evidenced D (native_installs included) p"
  have "set xs \<subseteq> set inputs \<Longrightarrow> \<forall>p \<in> set (map_values (fst st)). ?ok p \<Longrightarrow>
      \<forall>p \<in> set (map_values (fst (foldl (admit_proof D (native_installs included) watermark) st xs))). ?ok p" for xs st
  proof (induction xs arbitrary: st)
    case (Cons x xs)
    have "?ok p" if "p \<in> set (map_values (fst (admit_proof D (native_installs included) watermark st x)))" for p
    proof (cases "p \<in> set (map_values (fst st))")
      case True
      with Cons.prems(2) show ?thesis by blast
    next
      case False
      with that have a: "proof_scoped (native_installs included) watermark x" "proof_evidenced D (native_installs included) x"
        by (auto simp: admit_proof_def split: if_splits)
      with that have "p \<in> set (map_values (map_set (an_key (pq_attribution x)) x (fst st)))" by (simp add: admit_proof_def Let_def)
      then have "p \<in> insert x (set (map_values (fst st)))" by (rule subsetD [OF map_set_values])
      with False have "p = x" by simp
      with a Cons.prems(1) show ?thesis by simp
    qed
    then have "\<forall>p \<in> set (map_values (fst (admit_proof D (native_installs included) watermark st x))). ?ok p" by blast
    from Cons.IH [OF _ this] Cons.prems(1) show ?case by simp
  qed simp
  from this [of inputs "([], [])"] show "p \<in> set (map_values (admitted_proofs D included inputs watermark)) \<Longrightarrow> ?ok p"
    by (auto simp: admitted_proofs_def Let_def map_values_def)
qed

text \<open>A platform proof counts only for an install of the included records: it names the install by record id in the
  attribution's own tenant, app and installation, its method is its source, and it was decided by
  the watermark. A Meta proof repeats the decrypted context and the digest of the install's payload.\<close>

theorem platform_proof_sound:
  assumes "p \<in> set (map_values (pl_proofs (selectPlatformAcquisition D sha attributions included inputs watermark)))"
  shows "p \<in> set inputs \<and> an_method (pq_attribution p) = pq_source p \<and> decided_by (pq_attribution p) watermark
    \<and> (\<exists>x \<in> set included. event_name x = ''install'' \<and> \<not> is_imported x \<and> record_id x = pq_install_record_id p
         \<and> tenant x = an_tenant_id (pq_attribution p) \<and> app x = an_app_id (pq_attribution p)
         \<and> (pq_source p = ''meta_install_referrer'' \<longrightarrow> pq_evidence_digest p = sha_payload D (payload_of x)
              \<and> p_meta_referrer_status (payload_of x) = Some ''decrypted''))"
proof -
  have "p \<in> set (map_values (admitted_proofs D included inputs watermark))"
    using assms by (simp add: selectPlatformAcquisition_def Let_def)
  from admitted_proofs_sound [OF this] have p: "p \<in> set inputs" "proof_scoped (native_installs included) watermark p"
    "proof_evidenced D (native_installs included) p" by blast+
  have "\<exists>x \<in> set included. event_name x = ''install'' \<and> \<not> is_imported x \<and> record_id x = pq_install_record_id p
         \<and> tenant x = an_tenant_id (pq_attribution p) \<and> app x = an_app_id (pq_attribution p)
         \<and> (pq_source p = ''meta_install_referrer'' \<longrightarrow> pq_evidence_digest p = sha_payload D (payload_of x)
              \<and> p_meta_referrer_status (payload_of x) = Some ''decrypted'')"
  proof (cases "pq_source p = ''meta_install_referrer''")
    case True
    with p(3) obtain x where
      "List.find (\<lambda>x. record_id x = pq_install_record_id p \<and> tenant x = an_tenant_id (pq_attribution p)
         \<and> app x = an_app_id (pq_attribution p)) (native_installs included) = Some x"
      "pq_evidence_digest p = sha_payload D (payload_of x)" "p_meta_referrer_status (payload_of x) = Some ''decrypted''"
      by (auto simp: proof_evidenced_def Let_def split: option.splits)
    then show ?thesis by (auto simp: native_installs_def dest!: find_Some_iff2)
  next
    case False
    with p(2) show ?thesis by (auto simp: proof_scoped_def Let_def native_installs_def)
  qed
  with p(1,2) show ?thesis by (auto simp: proof_scoped_def Let_def)
qed

text \<open>The attribution selected for a subject is one of the candidates, decided by the watermark, and no eligible
  attribution of the same subject supersedes it.\<close>

theorem platform_selection_current:
  assumes "an \<in> set (map_values (pl_attributions (selectPlatformAcquisition D sha attributions included inputs watermark)))"
  shows "decided_by an watermark \<and> an_subject_scope an = Installation_Level
    \<and> (\<exists>x \<in> set included. event_name x = ''install'' \<and> \<not> is_imported x \<and> tenant x = an_tenant_id an \<and> app x = an_app_id an
         \<and> installation x = an_subject_ref an)
    \<and> \<not> (\<exists>other \<in> set (map_values (pl_attributions (selectPlatformAcquisition D sha attributions included inputs watermark))). superseding other an)"
proof -
  define proofs where "proofs = admitted_proofs D included inputs watermark"
  define eligible where "eligible = filter (platform_eligible included proofs watermark)
    (map_values (foldl (\<lambda>m p. map_set (an_key (pq_attribution p)) (pq_attribution p) m)
             (map_from (map (\<lambda>an. (an_key an, an)) attributions)) (map_values proofs)))"
  define current where "current = filter (\<lambda>an. \<not> (\<exists>x \<in> set eligible. superseding x an)) eligible"
  have sel: "pl_attributions (selectPlatformAcquisition D sha attributions included inputs watermark)
      = map_from (map (\<lambda>an. (subject_key an, an)) (sortByKey sha (\<lambda>an. [an_decided_at an, an_id an]) current))"
    unfolding selectPlatformAcquisition_def Let_def proofs_def [symmetric] eligible_def [symmetric] current_def [symmetric] by simp
  have sub: "set (map_values (pl_attributions (selectPlatformAcquisition D sha attributions included inputs watermark))) \<subseteq> set current"
    unfolding sel by (rule order_trans [OF map_from_values]) auto
  with assms have "an \<in> set current" by blast
  then have an: "platform_eligible included proofs watermark an" "\<not> (\<exists>x \<in> set eligible. superseding x an)"
    by (auto simp: current_def eligible_def)
  have "set current \<subseteq> set eligible" by (auto simp: current_def)
  with sub an(2) have "\<not> (\<exists>other \<in> set (map_values (pl_attributions (selectPlatformAcquisition D sha attributions included inputs watermark))). superseding other an)"
    by blast
  with an(1) show ?thesis by (auto simp: platform_eligible_def subject_key_def native_installs_def)
qed

section \<open>A concrete proof\<close>

definition ex_platform_an :: attribution where
  "ex_platform_an = attribution_result (attribution_base [] ex_ref_install \<lparr> rb_id = [], rb_version = [], rb_hash = [] \<rparr>)
     Non_Organic ''apple_adservices'' ''last_click'' ''adservices_attributed'' None"

definition ex_platform_input :: platform_input where
  "ex_platform_input = \<lparr> pq_attribution = ex_platform_an, pq_source = ''apple_adservices'', pq_install_record_id = ''i1'',
     pq_evidence_ref = Some ''i1'', pq_evidence_digest = [], pq_lifecycle_status = Available, pq_campaign_id = Some ''c'',
     pq_ad_group_id = None \<rparr>"

lemmas platform_eval = selectPlatformAcquisition_def Let_def admitted_proofs_def admit_proof_def proof_scoped_def proof_evidenced_def
  evidence_named_def decided_by_def native_installs_def is_imported_def starts_with_def map_from_def map_values_def map_set_def
  map_get_def map_has_def platform_eligible_def superseding_def attemptEvidenceKey_def ex_platform_input_def ex_platform_an_def
  attribution_result_def attribution_base_def evidence_of_def lifecycle_of_def ex_ref_install_def blank_defs subject_key_def an_key_def

lemma ex_platform_proof:
  "ex_platform_input \<in> set (map_values (pl_proofs (selectPlatformAcquisition sample_digests an_id [] [ex_ref_install] [ex_platform_input] ''3'')))"
  by (simp add: platform_eval)

lemma ex_platform_selected:
  "ex_platform_an \<in> set (map_values (pl_attributions (selectPlatformAcquisition sample_digests an_id [ex_platform_an] [ex_ref_install] [] ''3'')))"
  by (simp add: platform_eval)

theorem platform_proof_sound_witness:
  "\<exists>x \<in> set [ex_ref_install]. record_id x = ''i1'' \<and> tenant x = an_tenant_id ex_platform_an"
  using platform_proof_sound [OF ex_platform_proof] by (simp add: ex_platform_input_def)

theorem platform_selection_current_witness:
  "decided_by ex_platform_an ''3'' \<and> an_subject_scope ex_platform_an = Installation_Level"
  using platform_selection_current [OF ex_platform_selected] by blast

end
