(* ===== verification/Fx_Policy.thy ===== *)
theory Fx_Policy
  imports Purpose_Consent Calendar Fraud_Rules
begin

text \<open>
  \<open>packages/contracts/src/fx-policy.ts\<close>: the dated exchange-rate policy. The keys of an object other
  than the named ones are the field \<open>other_keys\<close>. The theorems say that the canonical policy does
  not depend on the order of the rates, and that a selected rate is the only one for its currency
  and day and was known by the watermark.
\<close>

record fx_rate =
  fx_currency :: string
  fx_effective_date :: string
  fx_rate_unscaled :: int
  fx_rate_scale :: int
  fx_source :: string
  fx_as_of :: string
  fx_other_keys :: "string list"

record fx_policy =
  fp_policy_version :: string
  fp_target_currency :: string
  fp_target_scale :: int
  fp_rounding_mode :: string
  fp_rate_selection :: "string option"
  fp_rates :: "fx_rate list"
  fp_other_keys :: "string list"

definition DATED_FX_POLICY_VERSION :: string where "DATED_FX_POLICY_VERSION = ''0.4.22''"

definition DATED_FX_RATE_SELECTION :: string where "DATED_FX_RATE_SELECTION = ''utc_event_date_and_cost_date''"

definition currency_ok :: "string \<Rightarrow> bool" where
  "currency_ok s \<longleftrightarrow> length s = 3 \<and> list_all is_upper s"

definition fx_date_ok :: "string \<Rightarrow> bool" where
  "fx_date_ok s \<longleftrightarrow> exact_date s \<noteq> None \<and> \<not> starts_with s ''0000-''"

definition fx_timestamp_ok :: "string \<Rightarrow> bool" where
  "fx_timestamp_ok s \<longleftrightarrow> \<not> starts_with s ''0000-'' \<and> four_digit_instant s"

definition scale_ok :: "int \<Rightarrow> bool" where "scale_ok n \<longleftrightarrow> 0 \<le> n \<and> n \<le> 18"

definition rate_key :: "fx_rate \<Rightarrow> string" where
  "rate_key r = fx_currency r @ '':'' @ fx_effective_date r"

definition rate_ok :: "string \<Rightarrow> fx_rate \<Rightarrow> bool" where
  "rate_ok target r \<longleftrightarrow>
     fx_other_keys r = [] \<and> currency_ok (fx_currency r) \<and> fx_date_ok (fx_effective_date r)
     \<and> 1 \<le> fx_rate_unscaled r \<and> fx_rate_unscaled r < 10 ^ 78 \<and> scale_ok (fx_rate_scale r)
     \<and> 1 \<le> length (fx_source r) \<and> length (fx_source r) \<le> 128 \<and> fx_timestamp_ok (fx_as_of r)
     \<and> (fx_currency r = target \<longrightarrow> fx_rate_unscaled r = 10 ^ nat (fx_rate_scale r))"

fun rates_ok :: "string \<Rightarrow> string list \<Rightarrow> fx_rate list \<Rightarrow> bool" where
  "rates_ok target keys [] = True"
| "rates_ok target keys (r # rs) = (rate_ok target r \<and> rate_key r \<notin> set keys \<and> rates_ok target (rate_key r # keys) rs)"

definition validDatedFxPolicy :: "fx_policy \<Rightarrow> bool" where
  "validDatedFxPolicy v \<longleftrightarrow>
     fp_other_keys v = [] \<and> fp_policy_version v = DATED_FX_POLICY_VERSION
     \<and> fp_rate_selection v = Some DATED_FX_RATE_SELECTION \<and> fp_rounding_mode v = ''half_even''
     \<and> currency_ok (fp_target_currency v) \<and> scale_ok (fp_target_scale v)
     \<and> 1 \<le> length (fp_rates v) \<and> length (fp_rates v) \<le> 128 \<and> rates_ok (fp_target_currency v) [] (fp_rates v)"

definition rate_order :: "fx_rate \<Rightarrow> string \<times> string" where
  "rate_order r = (fx_currency r, fx_effective_date r)"

definition canonicalDatedFxPolicy :: "fx_policy \<Rightarrow> fx_policy res" where
  "canonicalDatedFxPolicy v =
     guardR (validDatedFxPolicy v) ''dated_fx_policy_invalid''
       (Inr (v\<lparr> fp_rates := sort_key rate_order (map (\<lambda>r. r\<lparr>fx_other_keys := []\<rparr>) (fp_rates v)) \<rparr>))"

text \<open>\<open>Date.parse(as_of) <= Date.parse(watermark)\<close> on canonical instants.\<close>

definition parsed_le :: "string \<Rightarrow> string \<Rightarrow> bool" where
  "parsed_le a b = nan_test (\<le>) (canonical_instant a) (canonical_instant b)"

definition selectDatedFxRate :: "fx_policy \<Rightarrow> string \<Rightarrow> string \<Rightarrow> string \<Rightarrow> fx_rate option" where
  "selectDatedFxRate policy currency date watermark =
     List.find (\<lambda>r. fx_currency r = currency \<and> fx_effective_date r = date \<and> parsed_le (fx_as_of r) watermark) (fp_rates policy)"

definition projectDatedFxSnapshot :: "fx_policy \<Rightarrow> string \<Rightarrow> (fx_policy \<times> string) option" where
  "projectDatedFxSnapshot policy snapshot_id =
     (if \<not> hex_digest_ok snapshot_id \<or> \<not> validDatedFxPolicy policy then None
      else case canonicalDatedFxPolicy policy of Inl _ \<Rightarrow> None | Inr p \<Rightarrow> Some (p, snapshot_id))"

section \<open>Properties\<close>

lemma rates_ok_iff:
  "rates_ok target keys rs \<longleftrightarrow>
     (\<forall>r \<in> set rs. rate_ok target r \<and> rate_key r \<notin> set keys) \<and> distinct (map rate_key rs)"
  by (induction rs arbitrary: keys) (auto simp: image_iff)

lemma rate_order_key:
  assumes "rate_ok t r" "rate_ok t s" "rate_order r = rate_order s" shows "rate_key r = rate_key s"
  using assms by (simp add: rate_order_def rate_key_def)

lemma rate_order_inj:
  assumes "validDatedFxPolicy v"
  shows "inj_on rate_order (set (map (\<lambda>r. r\<lparr>fx_other_keys := []\<rparr>) (fp_rates v)))"
    "map (\<lambda>r. r\<lparr>fx_other_keys := []\<rparr>) (fp_rates v) = fp_rates v"
proof -
  have ok: "\<forall>r \<in> set (fp_rates v). rate_ok (fp_target_currency v) r" "distinct (map rate_key (fp_rates v))"
    using assms by (auto simp: validDatedFxPolicy_def rates_ok_iff)
  then show eq: "map (\<lambda>r. r\<lparr>fx_other_keys := []\<rparr>) (fp_rates v) = fp_rates v"
    by (intro map_idI) (auto simp: rate_ok_def)
  show "inj_on rate_order (set (map (\<lambda>r. r\<lparr>fx_other_keys := []\<rparr>) (fp_rates v)))"
    unfolding eq
  proof (rule inj_onI)
    fix r s assume m: "r \<in> set (fp_rates v)" "s \<in> set (fp_rates v)" "rate_order r = rate_order s"
    from m ok(1) have "rate_key r = rate_key s" by (intro rate_order_key [of "fp_target_currency v"]) auto
    with m ok(2) show "r = s" by (auto simp: distinct_map dest: inj_onD)
  qed
qed

text \<open>Two valid policies that differ in the order of their rates only have the same canonical policy, which is valid
  and canonical itself.\<close>

theorem canonical_fx_order_independent:
  assumes "validDatedFxPolicy v" and "mset (fp_rates w) = mset (fp_rates v)" and "w = v\<lparr>fp_rates := fp_rates w\<rparr>"
  shows "canonicalDatedFxPolicy w = canonicalDatedFxPolicy v
    \<and> (\<exists>c. canonicalDatedFxPolicy v = Inr c \<and> canonicalDatedFxPolicy c = Inr c \<and> mset (fp_rates c) = mset (fp_rates v))"
proof -
  have valid: "validDatedFxPolicy (v\<lparr>fp_rates := rs\<rparr>)" if "mset rs = mset (fp_rates v)" for rs
  proof -
    have "mset (map rate_key rs) = mset (map rate_key (fp_rates v))" using that by simp
    then have "distinct (map rate_key rs) = distinct (map rate_key (fp_rates v))" by (rule mset_eq_imp_distinct_iff)
    moreover have "set rs = set (fp_rates v)" "length rs = length (fp_rates v)" using that by (metis set_mset_mset, metis size_mset)
    ultimately show ?thesis using assms(1) by (simp add: validDatedFxPolicy_def rates_ok_iff)
  qed
  note inj = rate_order_inj [OF assms(1)]
  have cw: "canonicalDatedFxPolicy (v\<lparr>fp_rates := rs\<rparr>) = Inr (v\<lparr>fp_rates := sort_key rate_order (fp_rates v)\<rparr>)"
    if "mset rs = mset (fp_rates v)" for rs
  proof -
    have eq: "map (\<lambda>r. r\<lparr>fx_other_keys := []\<rparr>) rs = rs" using rate_order_inj(2) [OF valid [OF that]] by simp
    have "sort_key rate_order rs = sort_key rate_order (fp_rates v)"
      using that inj by (intro sort_key_cong_mset) (metis set_mset_mset)+
    then show ?thesis by (simp add: canonicalDatedFxPolicy_def guardR_def valid [OF that] eq)
  qed
  have "canonicalDatedFxPolicy v = Inr (v\<lparr>fp_rates := sort_key rate_order (fp_rates v)\<rparr>)" using cw [of "fp_rates v"] by simp
  moreover have "canonicalDatedFxPolicy w = Inr (v\<lparr>fp_rates := sort_key rate_order (fp_rates v)\<rparr>)"
    using cw [OF assms(2)] assms(3) by metis
  moreover have "canonicalDatedFxPolicy (v\<lparr>fp_rates := sort_key rate_order (fp_rates v)\<rparr>)
      = Inr (v\<lparr>fp_rates := sort_key rate_order (fp_rates v)\<rparr>)" by (rule cw) simp
  ultimately show ?thesis by simp
qed

text \<open>A selected rate is the only one of the policy for its currency and day, and its evidence is no later than the
  watermark; a conversion inside the target currency never changes the amount.\<close>

theorem selected_rate_unique:
  assumes "validDatedFxPolicy v" and "selectDatedFxRate v currency date watermark = Some r"
  shows "r \<in> set (fp_rates v) \<and> fx_currency r = currency \<and> fx_effective_date r = date
    \<and> (\<exists>t u. canonical_instant (fx_as_of r) = Some t \<and> canonical_instant watermark = Some u \<and> t \<le> u)
    \<and> (\<forall>s \<in> set (fp_rates v). fx_currency s = currency \<and> fx_effective_date s = date \<longrightarrow> s = r)
    \<and> (currency = fp_target_currency v \<longrightarrow> fx_rate_unscaled r = 10 ^ nat (fx_rate_scale r))"
proof -
  from assms(2) have r: "r \<in> set (fp_rates v)" "fx_currency r = currency" "fx_effective_date r = date" "parsed_le (fx_as_of r) watermark"
    by (auto simp: selectDatedFxRate_def dest: find_Some_iff2)
  have ok: "rate_ok (fp_target_currency v) r" using assms(1) r(1) by (auto simp: validDatedFxPolicy_def rates_ok_iff)
  have "s = r" if "s \<in> set (fp_rates v)" "fx_currency s = currency" "fx_effective_date s = date" for s
    using rate_order_inj [OF assms(1)] that r by (auto simp: inj_on_def rate_order_def)
  moreover have "\<exists>t u. canonical_instant (fx_as_of r) = Some t \<and> canonical_instant watermark = Some u \<and> t \<le> u"
    using r(4) by (auto simp: parsed_le_def nan_test_def split: option.splits)
  ultimately show ?thesis using r ok unfolding rate_ok_def by blast
qed

section \<open>A concrete policy\<close>

definition ex_rate :: "string \<Rightarrow> fx_rate" where
  "ex_rate date = \<lparr> fx_currency = ''EUR'', fx_effective_date = date, fx_rate_unscaled = 11, fx_rate_scale = 1, fx_source = ''s'',
     fx_as_of = ''2026-01-10T00:00:00.000Z'', fx_other_keys = [] \<rparr>"

definition ex_policy :: "fx_rate list \<Rightarrow> fx_policy" where
  "ex_policy rs = \<lparr> fp_policy_version = ''0.4.22'', fp_target_currency = ''USD'', fp_target_scale = 6, fp_rounding_mode = ''half_even'',
     fp_rate_selection = Some ''utc_event_date_and_cost_date'', fp_rates = rs, fp_other_keys = [] \<rparr>"

lemma ex_policy_valid: "validDatedFxPolicy (ex_policy [ex_rate ''2026-01-10'', ex_rate ''2026-01-11''])"
proof -
  have up: "list_all is_upper ''EUR''" "list_all is_upper ''USD''" by code_simp+
  from up show ?thesis
    by (simp add: validDatedFxPolicy_def ex_policy_def ex_rate_def DATED_FX_POLICY_VERSION_def DATED_FX_RATE_SELECTION_def currency_ok_def
      scale_ok_def rate_ok_def fx_date_ok_def exact_date_def starts_with_def fx_timestamp_ok_def four_digit_instant_def rate_key_def)
qed

theorem canonical_fx_order_independent_witness:
  "canonicalDatedFxPolicy (ex_policy [ex_rate ''2026-01-11'', ex_rate ''2026-01-10''])
     = canonicalDatedFxPolicy (ex_policy [ex_rate ''2026-01-10'', ex_rate ''2026-01-11''])"
  by (rule conjunct1 [OF canonical_fx_order_independent [OF ex_policy_valid]]) (simp_all add: ex_policy_def add_mset_commute)

theorem selected_rate_unique_witness:
  "ex_rate ''2026-01-10'' \<in> set (fp_rates (ex_policy [ex_rate ''2026-01-10'', ex_rate ''2026-01-11'']))
    \<and> (\<exists>t u. canonical_instant ''2026-01-10T00:00:00.000Z'' = Some t \<and> canonical_instant ''2026-01-11T00:00:00.000Z'' = Some u \<and> t \<le> u)"
proof -
  have "selectDatedFxRate (ex_policy [ex_rate ''2026-01-10'', ex_rate ''2026-01-11'']) ''EUR'' ''2026-01-10'' ''2026-01-11T00:00:00.000Z''
      = Some (ex_rate ''2026-01-10'')"
    by (simp add: selectDatedFxRate_def ex_policy_def ex_rate_def parsed_le_def nan_test_def)
  from selected_rate_unique [OF ex_policy_valid this] show ?thesis by (simp add: ex_rate_def)
qed

end
