(* ===== verification/Metric_Model.thy ===== *)
theory Metric_Model
  imports Platform_Acquisition Cost_Selection Fx_Policy Fraud_Artifacts
begin

text \<open>
  The inputs of \<open>packages/attribution-core/src/metric-runs.ts\<close> and the helpers around its main loop:
  metric definitions, cost records, currency conversion, the attributions a cohort is grouped by,
  group matching and the window of an outcome. A member \<open>m\<close> of a metric definition is \<open>md_m\<close> (the
  nested \<open>definition\<close> object is flattened), of an evaluation \<open>me_m\<close>. The digests of metric evidence are
  parameters, as is the profile check \<open>assertMetricDefinitionSeries\<close>, which rests on the generated JSON
  schema. Instants are those of accepted records, hence canonical.
\<close>

section \<open>Definitions and evaluations\<close>

record metric_definition =
  md_metric_name :: string
  md_version :: string
  md_time_zone :: zone
  md_value_type :: string
  md_currency :: "string option"
  md_amount_scale :: "int option"
  md_ratio_scale :: "nat option"
  md_calculation :: string
  md_window_type :: string
  md_window_day :: int
  md_numerator :: string
  md_denominator :: "string option"
  md_activity_events :: "string list option"
  md_event_names :: "string list option"
  md_grouping_dimensions :: "string list option"
  md_fraud_policy :: "string option"
  md_acquisition_basis :: "string option"
  md_acquisition_dimension_policy :: "string option"
  md_import_provider :: "string option"
  md_conversion_event_key :: "string option"
  md_cost_selection_policy :: "string option"
  md_refund_reversal_policy :: "string option"
  md_calendar_cohort_policy :: "string option"
  md_engagement_credit_policy :: "string option"
  md_engagement_inactivity_days :: "int option"
  md_retention_maturity_policy :: "string option"
  md_rule_bundle :: rule_bundle
  md_rest :: string

record metric_evaluation =
  me_metric_run_id_prefix :: string
  me_watermark :: string
  me_privacy_after :: bool
  me_grouping :: "grouping option"
  me_metric_names :: "string list option"
  me_computed_at :: string
  me_data_freshness :: string
  me_supersedes_prefix :: "string option"

record metric_input =
  mi_metric_definitions :: "metric_definition list"
  mi_metric_evaluations :: "metric_evaluation list"
  mi_fx_policy :: "fx_policy option"
  mi_cost_records :: "cost_record list"
  mi_platform_inputs :: "platform_input list"

record metric_digests =
  xd_definition :: "metric_definition \<Rightarrow> string"
  xd_cost :: "cost_record \<Rightarrow> string"
  xd_cost_dimensions :: "(string \<times> string) list \<Rightarrow> string"
  xd_attribution :: "attribution \<Rightarrow> string"
  xd_import_context :: "import_context option \<Rightarrow> string"
  xd_platform_input :: "platform_input \<Rightarrow> string"
  xd_evidence :: "evidence_ref \<Rightarrow> string"
  xd_rows :: "string list list \<Rightarrow> string"
  xd_engagement :: "string \<Rightarrow> string option list list \<Rightarrow> string option \<Rightarrow> string"
  xd_acquisition :: "string \<Rightarrow> string list list \<Rightarrow> string"
  xd_imported :: "string \<Rightarrow> string list list \<Rightarrow> string list list \<Rightarrow> string"
  xd_platform :: "string \<Rightarrow> string list list \<Rightarrow> string list list \<Rightarrow> string"
  xd_rates :: "fx_rate list \<Rightarrow> string"
  xd_fx :: "fx_policy \<Rightarrow> string"
  xd_grouping :: "grouping \<Rightarrow> string"

definition group :: "metric_evaluation \<Rightarrow> string \<Rightarrow> string option" where
  "group e field = group_value (me_grouping e) field"

definition referenceAdRevenue :: "digests \<Rightarrow> string \<Rightarrow> zone \<Rightarrow> string \<Rightarrow> metric_definition" where
  "referenceAdRevenue D metricName z windowType =
     \<lparr> md_metric_name = metricName, md_version = ''0.3.0'', md_time_zone = z, md_value_type = ''money'',
       md_currency = Some ''USD'', md_amount_scale = Some 6, md_ratio_scale = None, md_calculation = ''revenue_sum'',
       md_window_type = windowType, md_window_day = 0, md_numerator = ''revenue'', md_denominator = None,
       md_activity_events = None, md_event_names = None, md_grouping_dimensions = None, md_fraud_policy = None,
       md_acquisition_basis = None, md_acquisition_dimension_policy = None, md_import_provider = None,
       md_conversion_event_key = None, md_cost_selection_policy = None, md_refund_reversal_policy = None,
       md_calendar_cohort_policy = None, md_engagement_credit_policy = None, md_engagement_inactivity_days = None,
       md_retention_maturity_policy = None,
       md_rule_bundle = \<lparr> rb_id = ''metric-default'', rb_version = ''0.3.0'', rb_hash = sha_non_fraud D ''metric-default'' \<rparr>,
       md_rest = [] \<rparr>"

definition REFERENCE_AD_REVENUE_METRIC_DEFINITIONS :: "digests \<Rightarrow> metric_definition list" where
  "REFERENCE_AD_REVENUE_METRIC_DEFINITIONS D =
     [referenceAdRevenue D ''d0_install_to_24h_ad_revenue_usd'' UTC ''elapsed'',
      referenceAdRevenue D ''d0_utc_install_calendar_ad_revenue_usd'' UTC ''calendar_day'',
      referenceAdRevenue D ''d0_jst_install_calendar_ad_revenue_usd'' Asia_Tokyo ''calendar_day'']"

definition baseMetricDefinitions :: "digests \<Rightarrow> metric_definition list" where
  "baseMetricDefinitions D = REFERENCE_AD_REVENUE_METRIC_DEFINITIONS D"

definition add_definition :: "(metric_definition \<Rightarrow> unit res) \<Rightarrow> string list \<Rightarrow> metric_definition \<Rightarrow> string list res" where
  "add_definition series names d =
     guardR (md_metric_name d \<notin> set names) (''duplicate metric definition: '' @ md_metric_name d)
       (bindR (series d) (\<lambda>_. Inr (set_add (md_metric_name d) names)))"

definition metricDefinitions :: "digests \<Rightarrow> metric_digests \<Rightarrow> (metric_definition \<Rightarrow> unit res) \<Rightarrow> metric_input \<Rightarrow>
    metric_definition list res" where
  "metricDefinitions D X series input =
     (let definitions = baseMetricDefinitions D @ mi_metric_definitions input in
      bindR (foldR (add_definition series) [] definitions)
        (\<lambda>_. Inr (sortByKey (xd_definition X) (\<lambda>d. [md_metric_name d, md_version d]) definitions)))"

section \<open>Costs\<close>

definition cost_dimensions :: "cost_record \<Rightarrow> (string \<times> string) list" where
  "cost_dimensions c = concat (map (\<lambda>(field, v). case v of None \<Rightarrow> [] | Some x \<Rightarrow> [(field, x)])
     [(''network'', Some (cs_network c)), (''campaign_id'', cs_campaign_id c), (''ad_group_id'', cs_ad_group_id c),
      (''creative_id'', cs_creative_id c), (''country'', cs_country c), (''reporting_time_zone'', cs_reporting_time_zone c)])"

definition check_cost :: "metric_digests \<Rightarrow> cost_record \<Rightarrow> cost_record res" where
  "check_cost X c = guardR (cs_dimension_digest c = xd_cost_dimensions X (cost_dimensions c))
     (''cost dimension_digest mismatch: '' @ cs_id c) (Inr c)"

definition costRecords :: "metric_digests \<Rightarrow> metric_input \<Rightarrow> cost_record list res" where
  "costRecords X input = bindR (mapR (check_cost X) (mi_cost_records input)) (\<lambda>records.
     Inr (sortByKey (xd_cost X) (\<lambda>c. [cs_id c, cs_tenant_id c, cs_app_id c, cs_as_of c]) records))"

section \<open>Money\<close>

record amount =
  am_currency :: "string option"
  am_unscaled :: int
  am_scale :: nat

definition payload_amount :: "payload \<Rightarrow> amount" where
  "payload_amount p = \<lparr> am_currency = p_currency p, am_unscaled = p_amount_unscaled p, am_scale = p_amount_scale p \<rparr>"

definition cost_amount :: "cost_record \<Rightarrow> amount" where
  "cost_amount c = \<lparr> am_currency = Some (cs_currency c), am_unscaled = cs_amount_unscaled c, am_scale = cs_amount_scale c \<rparr>"

definition dated :: "fx_policy \<Rightarrow> bool" where "dated fx = truthy (fp_rate_selection fx)"

definition rate_for :: "amount \<Rightarrow> fx_policy \<Rightarrow> string \<Rightarrow> string \<Rightarrow> fx_rate option" where
  "rate_for a fx date watermark =
     (if dated fx then (case am_currency a of None \<Rightarrow> None | Some c \<Rightarrow> selectDatedFxRate fx c date watermark)
      else List.find (\<lambda>r. Some (fx_currency r) = am_currency a) (fp_rates fx))"

text \<open>A negative BigInt exponent throws a RangeError.\<close>

definition convertMoney :: "amount \<Rightarrow> fx_policy \<Rightarrow> string \<Rightarrow> string \<Rightarrow> int option res" where
  "convertMoney a fx date watermark =
     (case rate_for a fx date watermark of
        None \<Rightarrow> if dated fx then Inr None else throw (''missing FX rate for '' @ the_or ''undefined'' (am_currency a))
      | Some r \<Rightarrow>
          guardR (0 \<le> fp_target_scale fx \<and> 0 \<le> int (am_scale a) + fx_rate_scale r) ''Exponent must be non-negative''
            (bindR (roundHalfEven (am_unscaled a * fx_rate_unscaled r * 10 ^ nat (fp_target_scale fx))
                (10 ^ nat (int (am_scale a) + fx_rate_scale r)))
              (\<lambda>v. Inr (Some v))))"

definition scaleMoney :: "amount \<Rightarrow> int \<Rightarrow> int res" where
  "scaleMoney a targetScale =
     (let difference = targetScale - int (am_scale a) in
      if difference \<ge> 0 then Inr (am_unscaled a * 10 ^ nat difference)
      else roundHalfEven (am_unscaled a) (10 ^ nat (- difference)))"

text \<open>
  \<open>money\<close> of the loop: a missing dated rate counts as zero and raises the flag \<open>missingFx\<close>. A sum
  carries the flag beside the amount.
\<close>

definition add_money :: "fx_policy \<Rightarrow> string \<Rightarrow> int \<times> bool \<Rightarrow> amount \<Rightarrow> string \<Rightarrow> (int \<times> bool) res" where
  "add_money fx watermark acc a date = bindR (convertMoney a fx date watermark) (\<lambda>v.
     Inr (case v of None \<Rightarrow> (fst acc, True) | Some x \<Rightarrow> (fst acc + x, snd acc)))"

section \<open>Attributions a cohort is grouped by\<close>

definition attempt_subject :: "attempt \<Rightarrow> string" where
  "attempt_subject a = compositeKey [Some (tenant a), Some (app a), installation a]"

definition attribution_eligible :: "attempt list \<Rightarrow> string \<Rightarrow> attribution \<Rightarrow> bool" where
  "attribution_eligible included watermark an \<longleftrightarrow>
     an_subject_scope an = Installation_Level
     \<and> subject_key an \<in> set (map attempt_subject (filter (\<lambda>a. event_name a = ''install'') included))
     \<and> decided_by an watermark
     \<and> list_all (\<lambda>e. ev_tenant_id e = an_tenant_id an \<and> ev_app_id e = an_app_id an
          \<and> evidenceKey (ev_tenant_id e) (ev_app_id e) (ev_ref e) \<in> set (map attemptEvidenceKey included)) (an_evidence_refs an)"

definition selectedAcquisitionAttributions :: "metric_digests \<Rightarrow> attribution list \<Rightarrow> attempt list \<Rightarrow> string \<Rightarrow>
    (string, attribution) jsmap" where
  "selectedAcquisitionAttributions X attributions included watermark =
     (let eligible = filter (attribution_eligible included watermark) attributions;
          superseded = map (\<lambda>an. compositeKey [Some (an_tenant_id an), Some (an_app_id an), an_supersedes an])
            (filter (\<lambda>an. truthy (an_supersedes an)) eligible)
      in map_from (map (\<lambda>an. (subject_key an, an))
           (sortByKey (xd_attribution X) (\<lambda>an. [an_decided_at an, an_id an])
             (filter (\<lambda>an. an_key an \<notin> set superseded) eligible))))"

definition acquisitionAttributionRows :: "metric_digests \<Rightarrow> attribution list \<Rightarrow> string list list" where
  "acquisitionAttributionRows X attributions =
     map (\<lambda>an. [an_tenant_id an, an_app_id an, an_id an, xd_attribution X an])
       (sortByKey (xd_attribution X) (\<lambda>an. [an_tenant_id an, an_app_id an, an_id an]) attributions)"

definition importedInstall :: "attempt \<Rightarrow> string \<Rightarrow> bool" where
  "importedInstall a provider \<longleftrightarrow> event_name a = ''install'' \<and> r_producer (at_record a) = ''import:'' @ provider
     \<and> (case p_import_context (payload_of a) of None \<Rightarrow> False | Some c \<Rightarrow> ic_provider c = provider)"

definition importedAcquisitionAttributions :: "metric_digests \<Rightarrow> attribution list \<Rightarrow> attempt list \<Rightarrow> string \<Rightarrow> string \<Rightarrow>
    (string, attribution) jsmap" where
  "importedAcquisitionAttributions X attributions included provider watermark =
     (let anchors = filter (\<lambda>a. importedInstall a provider) included in
      selectedAcquisitionAttributions X
        (filter (\<lambda>an. an_method an = ''imported'' \<and> an_model an = ''provider_reported''
           \<and> list_ex (\<lambda>i. tenant i = an_tenant_id an \<and> app i = an_app_id an \<and> installation i = an_subject_ref an
               \<and> list_ex (\<lambda>e. ev_tenant_id e = tenant i \<and> ev_app_id e = app i \<and> ev_ref e = record_id i) (an_evidence_refs an))
             anchors) attributions) included watermark)"

definition importedContextRows :: "metric_digests \<Rightarrow> (attempt \<Rightarrow> string) \<Rightarrow> attempt list \<Rightarrow> string \<Rightarrow> string list list" where
  "importedContextRows X sha included provider =
     map (\<lambda>a. [tenant a, app a, record_id a, r_producer (at_record a), xd_import_context X (p_import_context (payload_of a))])
       (sortByKey sha (\<lambda>a. [tenant a, app a, record_id a]) (filter (\<lambda>a. importedInstall a provider) included))"

text \<open>Called on an imported install only, whose context is present.\<close>

definition importedDimensions :: "attempt \<Rightarrow> (string, attribution) jsmap \<Rightarrow> acquisition_dimensions" where
  "importedDimensions install attributions =
     (case p_import_context (payload_of install) of
        None \<Rightarrow> no_dimensions
      | Some c \<Rightarrow>
          (let dims = no_dimensions\<lparr> dm_country := ic_provider_country c \<rparr> in
           case map_get attributions (attempt_subject install) of
             None \<Rightarrow> dims
           | Some an \<Rightarrow> if an_status an = Non_Organic
               then dims\<lparr> dm_campaign_id := ic_provider_campaign_ref c, dm_network := ic_provider_network c,
                          dm_ad_group_id := ic_provider_adgroup_ref c \<rparr>
               else dims))"

definition click_backs :: "attribution \<Rightarrow> attempt \<Rightarrow> attempt \<Rightarrow> bool" where
  "click_backs an install c \<longleftrightarrow> event_name c = ''click'' \<and> tenant c = tenant install \<and> app c = app install
     \<and> p_click_id (payload_of c) = p_click_id (payload_of install)
     \<and> list_ex (\<lambda>e. ev_ref e = record_id c \<and> ev_tenant_id e = tenant c \<and> ev_app_id e = app c) (an_evidence_refs an)"

definition selectedAcquisitionDimensions :: "attempt \<Rightarrow> attempt list \<Rightarrow> (string, attribution) jsmap \<Rightarrow> acquisition_dimensions" where
  "selectedAcquisitionDimensions install visible attributions =
     (if is_imported install then no_dimensions
      else case map_get attributions (attempt_subject install) of
        None \<Rightarrow> no_dimensions
      | Some an \<Rightarrow>
          if an_status an \<noteq> Non_Organic \<or> an_method an \<noteq> ''install_referrer'' \<or> an_reason_code an \<noteq> ''valid_install_referrer''
          then no_dimensions
          else (case filter (click_backs an install) visible of
                  [c] \<Rightarrow> \<lparr> dm_campaign_id = p_campaign_id (payload_of c), dm_ad_group_id = p_ad_group_id (payload_of c),
                          dm_creative_id = p_creative_id (payload_of c), dm_network = p_network (payload_of c), dm_country = None \<rparr>
                | _ \<Rightarrow> no_dimensions))"

section \<open>Groups and windows\<close>

fun status_text :: "attribution_status \<Rightarrow> string" where
  "status_text Non_Organic = ''non_organic''"
| "status_text Organic = ''organic''"
| "status_text Unattributed = ''unattributed''"

fun zone_name :: "zone \<Rightarrow> string" where
  "zone_name UTC = ''UTC''"
| "zone_name Asia_Tokyo = ''Asia/Tokyo''"
| "zone_name America_New_York = ''America/New_York''"

definition context_field :: "attempt \<Rightarrow> (import_context \<Rightarrow> string option) \<Rightarrow> string option" where
  "context_field a f = (case p_import_context (payload_of a) of None \<Rightarrow> None | Some c \<Rightarrow> f c)"

definition group_campaign :: "bool \<Rightarrow> attempt \<Rightarrow> acquisition_dimensions \<Rightarrow> string option" where
  "group_campaign authoritative a dims =
     (if authoritative then dm_campaign_id dims
      else or_else (p_campaign_id (payload_of a))
        (or_else (case sv_deep_link_resolution (at_server a) of None \<Rightarrow> None | Some r \<Rightarrow> dl_campaign_id r)
          (or_else (context_field a ic_provider_campaign_ref) (dm_campaign_id dims))))"

definition group_network :: "bool \<Rightarrow> attempt \<Rightarrow> acquisition_dimensions \<Rightarrow> string option" where
  "group_network authoritative a dims =
     (if authoritative then dm_network dims
      else or_else (p_network (payload_of a)) (or_else (p_ad_network (payload_of a))
        (or_else (context_field a ic_provider_network) (dm_network dims))))"

definition group_country :: "bool \<Rightarrow> attempt \<Rightarrow> acquisition_dimensions \<Rightarrow> string option" where
  "group_country authoritative a dims =
     (if authoritative then dm_country dims
      else or_else (p_country (payload_of a)) (context_field a ic_provider_country))"

definition group_agrees :: "grouping option \<Rightarrow> string \<Rightarrow> string option \<Rightarrow> bool" where
  "group_agrees g field v \<longleftrightarrow> (group_value g field = None \<or> v = group_value g field)"

definition matchesGrouping :: "(int \<Rightarrow> int) \<Rightarrow> attempt \<Rightarrow> grouping option \<Rightarrow> (string, attribution_status) jsmap \<Rightarrow>
    acquisition_dimensions \<Rightarrow> bool \<Rightarrow> bool \<Rightarrow> zone \<Rightarrow> bool res" where
  "matchesGrouping tz a g statuses dims authoritativeAcquisition authoritativeCountry cohortZone =
     (if g = None then Inr True
      else if \<not> group_agrees g ''campaign_id'' (group_campaign authoritativeAcquisition a dims)
        \<or> \<not> group_agrees g ''network'' (group_network authoritativeAcquisition a dims)
        \<or> \<not> group_agrees g ''ad_group_id'' (dm_ad_group_id dims)
        \<or> \<not> group_agrees g ''creative_id'' (dm_creative_id dims)
        \<or> \<not> group_agrees g ''country'' (group_country authoritativeCountry a dims) then Inr False
      else
        bindR (if group_value g ''cohort_date'' \<noteq> None \<and> event_name a = ''install''
               then bindR (dateAt tz (Some (r_occurred_at (at_record a))) cohortZone ''occurred_at'')
                 (\<lambda>d. Inr (Some d = group_value g ''cohort_date''))
               else Inr True) (\<lambda>cohort.
        if \<not> cohort then Inr False
        else if group_value g ''attribution_status'' \<noteq> None \<and> event_name a \<in> {''install'', ''deep_link_open''}
        then Inr (map_option status_text (map_get statuses
               (if event_name a = ''install'' then attempt_subject a
                else keyOf [tenant a, app a, ''engagement:'' @ record_id a])) = group_value g ''attribution_status'')
        else Inr True))"

definition eligibleRevenue :: "(int \<Rightarrow> int) \<Rightarrow> metric_definition \<Rightarrow> event_record \<Rightarrow> event_record \<Rightarrow> bool res" where
  "eligibleRevenue tz def install revenue =
     (let dayIndex = md_window_day def; stamp = (\<lambda>r. time (Some (r_occurred_at r)) ''occurred_at'') in
      if truthy (md_calendar_cohort_policy def) then
        bindR (cohortCalendarDayIndex tz (r_occurred_at install) (r_occurred_at revenue) (md_time_zone def)) (\<lambda>delta.
        bindR (stamp revenue) (\<lambda>r. bindR (stamp install) (\<lambda>i.
          Inr (r \<ge> i \<and> nan_test (\<le>) (Some 0) delta \<and> nan_test (\<le>) delta (Some dayIndex)))))
      else if md_window_type def = ''calendar_day'' then
        bindR (dateAt tz (Some (r_occurred_at revenue)) (md_time_zone def) ''occurred_at'') (\<lambda>d.
        bindR (stamp install) (\<lambda>i.
        bindR (iso_or_throw (i + dayIndex * DAY_MS)) (\<lambda>s.
        bindR (dateAt tz (Some s) (md_time_zone def) ''occurred_at'') (\<lambda>e. Inr (d = e)))))
      else
        bindR (stamp revenue) (\<lambda>r. bindR (stamp install) (\<lambda>i.
          Inr (r - i \<ge> 0 \<and> r - i < (dayIndex + 1) * DAY_MS))))"

text \<open>\<open>isVerifiedPurchaseProjection\<close>, \<open>outcomeCostClosesAt\<close>, \<open>horizonAcquisitionKpiClosesAt\<close> and
  \<open>standardRetentionClosesAt\<close> of the contracts package. The date check of the last three is the same.\<close>

definition isVerifiedPurchaseProjection :: "string \<Rightarrow> string \<Rightarrow> bool" where
  "isVerifiedPurchaseProjection producer policyDigest \<longleftrightarrow> starts_with producer ''adapter:''
     \<and> policyDigest \<in> {''google-play-product-verification-v1'', ''verified-commerce-v1''}"

definition closes_after :: "string option \<Rightarrow> string \<Rightarrow> int \<Rightarrow> string option res" where
  "closes_after cohortDate message days =
     (case cohortDate of
        None \<Rightarrow> throw message
      | Some d \<Rightarrow> (case exact_date d of
            None \<Rightarrow> throw message
          | Some t \<Rightarrow> bindR (iso_or_throw (t + days * DAY_MS)) (\<lambda>s. Inr (Some s))))"

definition outcomeCostClosesAt :: "metric_definition \<Rightarrow> string option \<Rightarrow> string option res" where
  "outcomeCostClosesAt def cohortDate =
     (if rb_id (md_rule_bundle def) \<noteq> ''metric-outcome-acquisition-cost'' then Inr None
      else closes_after cohortDate ''outcome_cost_cohort_date_required'' 9)"

definition horizonAcquisitionKpiClosesAt :: "metric_definition \<Rightarrow> string option \<Rightarrow> string option res" where
  "horizonAcquisitionKpiClosesAt def cohortDate =
     (if rb_id (md_rule_bundle def) \<noteq> ''metric-horizon-acquisition-kpis'' then Inr None
      else closes_after cohortDate ''acquisition_kpi_cohort_date_required'' (md_window_day def + 2))"

definition standardRetentionClosesAt :: "metric_definition \<Rightarrow> string option \<Rightarrow> string option res" where
  "standardRetentionClosesAt def cohortDate =
     (if \<not> truthy (md_retention_maturity_policy def) then Inr None
      else closes_after cohortDate ''standard_retention_cohort_date_required'' (md_window_day def + 2))"

definition horizon_closes_at :: "metric_definition \<Rightarrow> string option \<Rightarrow> string option res" where
  "horizon_closes_at def cohortDate = bindR (outcomeCostClosesAt def cohortDate) (\<lambda>a.
     case a of Some s \<Rightarrow> Inr (Some s) | None \<Rightarrow> horizonAcquisitionKpiClosesAt def cohortDate)"

definition immature :: "string \<Rightarrow> string option \<Rightarrow> bool" where
  "immature watermark closesAt \<longleftrightarrow> truthy closesAt
     \<and> nan_test (<) (canonical_instant watermark) (canonical_instant (the_or [] closesAt))"

section \<open>Conversion is the nearest amount\<close>

lemma convertMoney_Inr:
  assumes "convertMoney a fx date watermark = Inr (Some v)"
  obtains r where "rate_for a fx date watermark = Some r"
    "nearest_even (am_unscaled a * fx_rate_unscaled r * 10 ^ nat (fp_target_scale fx)) (10 ^ nat (int (am_scale a) + fx_rate_scale r)) v"
  using assms roundHalfEven_nearest(2) by (auto simp: convertMoney_def result_simps split: option.splits if_splits)

section \<open>Values\<close>

text \<open>
  What a calculation leaves behind: \<open>value\<close>, \<open>undefined_reason\<close>, \<open>outcome_cost_operands\<close> (the count
  and the cost) and the flag \<open>missingFx\<close>.
\<close>

record metric_value =
  mv_value :: "int option"
  mv_reason :: "string option"
  mv_operands :: "(int \<times> int option) option"
  mv_missing :: bool

definition defined_value :: "int \<Rightarrow> bool \<Rightarrow> metric_value" where
  "defined_value v missing = \<lparr> mv_value = Some v, mv_reason = None, mv_operands = None, mv_missing = missing \<rparr>"

definition undefined_value :: "string \<Rightarrow> bool \<Rightarrow> metric_value" where
  "undefined_value reason missing = \<lparr> mv_value = None, mv_reason = Some reason, mv_operands = None, mv_missing = missing \<rparr>"

text \<open>Exactly one of value and reason.\<close>

definition one_of :: "metric_value \<Rightarrow> bool" where
  "one_of m \<longleftrightarrow> (mv_value m = None \<longleftrightarrow> mv_reason m \<noteq> None)"

lemma one_of_values [simp]: "one_of (defined_value v b)" "one_of (undefined_value r b)"
  by (simp_all add: one_of_def defined_value_def undefined_value_def)

lemma metric_value_simps [simp]:
  "mv_value (defined_value v b) = Some v" "mv_reason (defined_value v b) = None" "mv_missing (defined_value v b) = b"
  "mv_value (undefined_value r b) = None" "mv_reason (undefined_value r b) = Some r" "mv_missing (undefined_value r b) = b"
  by (simp_all add: defined_value_def undefined_value_def)

text \<open>\<open>values.some(test)\<close> stops at the first value that passes.\<close>

fun someR :: "('a \<Rightarrow> bool res) \<Rightarrow> 'a list \<Rightarrow> bool res" where
  "someR f [] = Inr False"
| "someR f (x # xs) = bindR (f x) (\<lambda>b. if b then Inr True else someR f xs)"

text \<open>A stable sort by descending key.\<close>

definition sort_desc :: "('a \<Rightarrow> 'k::linorder) \<Rightarrow> 'a list \<Rightarrow> 'a list" where
  "sort_desc f xs = rev (sort_key f (rev xs))"

lemma set_sort_desc [simp]: "set (sort_desc f xs) = set xs"
  by (simp add: sort_desc_def)

lemma sorted_sort_desc: "sorted_wrt (\<lambda>x y. f y \<le> f x) (sort_desc f xs)"
  using sorted_sort_key [of f "rev xs"] by (simp add: sort_desc_def sorted_wrt_rev sorted_map)

definition instant :: "attempt \<Rightarrow> int option" where
  "instant a = canonical_instant (r_occurred_at (at_record a))"

end
