(* ===== verification/Engagement.thy ===== *)
theory Engagement
  imports Metric_Model
begin

text \<open>
  \<open>packages/attribution-core/src/engagement-metrics.ts\<close>: which deep-link open an outcome is credited to,
  and the two engagement calculations. An outcome belongs to the latest open of its installation
  at or before it; the choice is made before grouping and availability, so a removed open takes
  its credit with it. Opens and outcomes are accepted records: their instants are canonical.
\<close>

record engagement_input =
  en_attempt :: attempt
  en_attribution :: attribution
  en_campaign :: string
  en_link :: "string option"

definition open_attribution :: "attribution list \<Rightarrow> string \<Rightarrow> attempt \<Rightarrow> attribution option" where
  "open_attribution attributions cutoff a =
     at_first (sort_desc an_decided_at (sort_key an_id (filter (\<lambda>an. an_tenant_id an = tenant a \<and> an_app_id an = app a
       \<and> an_subject_scope an = Engagement_Level \<and> an_subject_ref an = Some (''engagement:'' @ record_id a)
       \<and> decided_by an cutoff) attributions)))"

definition engagement_input_of :: "attribution list \<Rightarrow> string \<Rightarrow> attempt \<Rightarrow> engagement_input list" where
  "engagement_input_of attributions cutoff a =
     (case sv_deep_link_resolution (at_server a) of
        None \<Rightarrow> []
      | Some r \<Rightarrow>
          if dl_status r \<noteq> ''active'' \<or> \<not> truthy (dl_campaign_id r) then []
          else (case open_attribution attributions cutoff a of
              None \<Rightarrow> []
            | Some an \<Rightarrow>
                if an_status an \<noteq> Non_Organic \<or> an_method an \<noteq> ''deep_link'' then []
                else [\<lparr> en_attempt = a, en_attribution = an, en_campaign = the_or [] (dl_campaign_id r),
                        en_link = dl_tracking_link_id r \<rparr>]))"

definition engagementInputs :: "attempt list \<Rightarrow> attribution list \<Rightarrow> string \<Rightarrow> engagement_input list" where
  "engagementInputs included attributions cutoff =
     sort_key (\<lambda>i. [tenant (en_attempt i), app (en_attempt i), record_id (en_attempt i)])
       (concat (map (engagement_input_of attributions cutoff) (filter (\<lambda>a. event_name a = ''deep_link_open'') included)))"

definition engagementSnapshotRows :: "(attribution \<Rightarrow> string) \<Rightarrow> engagement_input list \<Rightarrow> string option list list" where
  "engagementSnapshotRows digest inputs =
     map (\<lambda>i. [Some (tenant (en_attempt i)), Some (app (en_attempt i)), Some (record_id (en_attempt i)), en_link i,
       Some (en_campaign i), Some (an_id (en_attribution i)), Some (digest (en_attribution i))]) inputs"

definition engagement_grouping_ok :: "grouping option \<Rightarrow> bool" where
  "engagement_grouping_ok g \<longleftrightarrow> group_value g ''metric_date'' \<noteq> None
     \<and> list_all (\<lambda>k. k \<in> {''metric_date'', ''campaign_id''}) (map fst (the_or [] g))"

definition in_group :: "grouping option \<Rightarrow> engagement_input \<Rightarrow> bool" where
  "in_group g i \<longleftrightarrow> Some (slice10 (r_occurred_at (at_record (en_attempt i)))) = group_value g ''metric_date''
     \<and> group_agrees g ''campaign_id'' (Some (en_campaign i))"

text \<open>\<open>new Date(occurred_at).toISOString()\<close> throws for an invalid date, and is the text itself for a canonical one.\<close>

definition selected_open :: "(attempt \<Rightarrow> bool) \<Rightarrow> grouping option \<Rightarrow> engagement_input \<Rightarrow> bool res" where
  "selected_open available g i =
     (if \<not> available (en_attempt i) then Inr False
      else if instant (en_attempt i) = None then throw ''Invalid time value''
      else Inr (in_group g i))"

definition open_order :: "engagement_input list \<Rightarrow> engagement_input list" where
  "open_order opens = sort_desc (\<lambda>i. the_or 0 (instant (en_attempt i))) (sort_key (\<lambda>i. record_id (en_attempt i)) opens)"

definition winner :: "engagement_input list \<Rightarrow> attempt \<Rightarrow> engagement_input option" where
  "winner opens a = List.find (\<lambda>i. attempt_subject (en_attempt i) = attempt_subject a
     \<and> nan_test (\<le>) (instant (en_attempt i)) (instant a)) (open_order opens)"

definition in_window :: "int \<Rightarrow> engagement_input \<Rightarrow> attempt \<Rightarrow> bool" where
  "in_window days i a \<longleftrightarrow> nan_test (\<lambda>x y. x < y + days * DAY_MS) (instant a) (instant (en_attempt i))"

definition credit_money :: "(int \<Rightarrow> int) \<Rightarrow> fx_policy \<Rightarrow> string \<Rightarrow> int \<times> bool \<Rightarrow> attempt \<Rightarrow> (int \<times> bool) res" where
  "credit_money tz fx watermark acc a =
     bindR (dateAt tz (Some (r_occurred_at (at_record a))) UTC ''occurred_at'') (\<lambda>d.
       add_money fx watermark acc (payload_amount (payload_of a)) d)"

definition relevant_outcome :: "metric_definition \<Rightarrow> attempt \<Rightarrow> bool" where
  "relevant_outcome def a \<longleftrightarrow>
     (if md_calculation def = ''converted_installations''
      then event_name a = ''custom_event'' \<and> p_event_key (payload_of a) = md_conversion_event_key def
      else event_name a = ''ad_revenue'' \<and> p_subject_scope (payload_of a) = Some ''installation_level'')"

definition credit_outcome :: "(attempt \<Rightarrow> (int \<times> bool) \<Rightarrow> (int \<times> bool) res) \<Rightarrow> metric_definition \<Rightarrow> string list \<times> int \<times> bool \<Rightarrow>
    attempt \<Rightarrow> (string list \<times> int \<times> bool) res" where
  "credit_outcome pay def acc a =
     (if md_calculation def = ''converted_installations'' then Inr (set_add (attempt_subject a) (fst acc), snd acc)
      else bindR (pay a (snd acc)) (\<lambda>s. Inr (fst acc, s)))"

definition credited_total :: "metric_definition \<Rightarrow> string list \<times> int \<times> bool \<Rightarrow> metric_value" where
  "credited_total def acc =
     (if md_calculation def = ''converted_installations'' then defined_value (int (length (fst acc))) (snd (snd acc))
      else defined_value (fst (snd acc)) (snd (snd acc)))"

section \<open>The 24-hour calculation\<close>

definition engagement_step :: "(attempt \<Rightarrow> (int \<times> bool) \<Rightarrow> (int \<times> bool) res) \<Rightarrow> (attempt \<Rightarrow> bool) \<Rightarrow> metric_definition \<Rightarrow>
    grouping option \<Rightarrow> engagement_input list \<Rightarrow> string list \<times> int \<times> bool \<Rightarrow> attempt \<Rightarrow> (string list \<times> int \<times> bool) res" where
  "engagement_step pay available def g opens acc a =
     (if \<not> relevant_outcome def a then Inr acc
      else case winner opens a of
        None \<Rightarrow> Inr acc
      | Some i \<Rightarrow>
          if \<not> in_window 1 i a then Inr acc
          else bindR (selected_open available g i) (\<lambda>s. if s then credit_outcome pay def acc a else Inr acc))"

definition engagementValue :: "(attempt \<Rightarrow> (int \<times> bool) \<Rightarrow> (int \<times> bool) res) \<Rightarrow> (attempt \<Rightarrow> bool) \<Rightarrow> metric_definition \<Rightarrow>
    grouping option \<Rightarrow> engagement_input list \<Rightarrow> attempt list \<Rightarrow> metric_value option res" where
  "engagementValue pay available def g opens visible =
     guardR (engagement_grouping_ok g) ''engagement_metric_requires_anchor_date''
       (bindR (someR (selected_open available g) opens) (\<lambda>any.
          if \<not> any then Inr None
          else bindR (foldR (engagement_step pay available def g opens) ([], 0, False) visible)
            (\<lambda>acc. Inr (Some (credited_total def acc)))))"

section \<open>The policy calculation\<close>

datatype open_state = Eligible_Open | Active_Open | Unknown_Open

definition history_before :: "attempt list \<Rightarrow> engagement_input \<Rightarrow> attempt list" where
  "history_before included i = filter (\<lambda>a. attempt_subject a = attempt_subject (en_attempt i)
     \<and> r_producer (at_record a) \<in> {''sdk-android'', ''sdk-ios''} \<and> nan_test (<) (instant a) (instant (en_attempt i))) included"

definition state_of_open :: "(attempt \<Rightarrow> bool) \<Rightarrow> attempt list \<Rightarrow> int \<Rightarrow> engagement_input \<Rightarrow> open_state" where
  "state_of_open available included inactivityDays i =
     (if inactivityDays = 0 then Eligible_Open
      else let start = map_option (\<lambda>t. t - inactivityDays * DAY_MS) (instant (en_attempt i));
               history = history_before included i;
               activity = filter (\<lambda>a. nan_test (\<ge>) (instant a) start
                 \<and> event_name a \<in> {''session_start'', ''custom_event'', ''deep_link_open''}) history
           in if list_ex available activity then Active_Open
              else if list_ex (\<lambda>a. \<not> available a) activity
                \<or> \<not> list_ex (\<lambda>a. event_name a = ''install'' \<and> nan_test (\<le>) (instant a) start \<and> available a) history
              then Unknown_Open
              else Eligible_Open)"

definition policy_selected :: "(attempt \<Rightarrow> bool) \<Rightarrow> grouping option \<Rightarrow> engagement_input \<Rightarrow> bool" where
  "policy_selected available g i \<longleftrightarrow> available (en_attempt i) \<and> in_group g i"

record engagement_policy =
  ep_available :: "attempt \<Rightarrow> bool"
  ep_included :: "attempt list"
  ep_opens :: "engagement_input list"
  ep_grouping :: "grouping option"
  ep_inactivity_days :: int
  ep_window_days :: int

definition credited :: "engagement_policy \<Rightarrow> engagement_input option \<Rightarrow> attempt \<Rightarrow> bool" where
  "credited e credit a = (case credit of
     None \<Rightarrow> False
   | Some i \<Rightarrow> policy_selected (ep_available e) (ep_grouping e) i
       \<and> state_of_open (ep_available e) (ep_included e) (ep_inactivity_days e) i = Eligible_Open
       \<and> in_window (ep_window_days e) i a)"

definition verified_purchase :: "attempt \<Rightarrow> bool" where
  "verified_purchase a \<longleftrightarrow> isVerifiedPurchaseProjection (r_producer (at_record a)) (sv_policy_digest (at_server a))"

definition policy_purchases :: "(attempt \<Rightarrow> (int \<times> bool) \<Rightarrow> (int \<times> bool) res) \<Rightarrow> engagement_policy \<Rightarrow> attempt list \<Rightarrow>
    ((string, attempt \<times> engagement_input) jsmap \<times> int \<times> bool) res" where
  "policy_purchases pay e visible =
     foldR (\<lambda>acc a.
       if event_name a \<noteq> ''purchase'' \<or> p_financial_status (payload_of a) \<noteq> Some ''settled'' \<or> \<not> verified_purchase a then Inr acc
       else case winner (ep_opens e) a of
         None \<Rightarrow> Inr acc
       | Some i \<Rightarrow> if \<not> credited e (Some i) a then Inr acc
           else bindR (pay a (snd acc)) (\<lambda>s. Inr (map_set (attemptEvidenceKey a) (a, i) (fst acc), s)))
       ([], 0, False) visible"

definition reversed_by :: "attempt list \<Rightarrow> attempt \<Rightarrow> bool" where
  "reversed_by visible refund \<longleftrightarrow> list_ex (\<lambda>r. event_name r = ''refund'' \<and> p_financial_status (payload_of r) = Some ''reversed''
     \<and> verified_purchase r \<and> tenant r = tenant refund \<and> app r = app refund
     \<and> p_reverses_refund_record_id (payload_of r) = Some (record_id refund)) visible"

text \<open>A refund is subtracted: the sum of the amounts taken off is carried in the same way.\<close>

definition subtract_money :: "(attempt \<Rightarrow> (int \<times> bool) \<Rightarrow> (int \<times> bool) res) \<Rightarrow> int \<times> bool \<Rightarrow> attempt \<Rightarrow> (int \<times> bool) res" where
  "subtract_money pay acc a = bindR (pay a (0, snd acc)) (\<lambda>s. Inr (fst acc - fst s, snd s))"

definition policy_refunds :: "(attempt \<Rightarrow> (int \<times> bool) \<Rightarrow> (int \<times> bool) res) \<Rightarrow> (attempt \<Rightarrow> attempt option) \<Rightarrow> engagement_policy \<Rightarrow>
    attempt list \<Rightarrow> (string, attempt \<times> engagement_input) jsmap \<Rightarrow> int \<times> bool \<Rightarrow> (int \<times> bool) res" where
  "policy_refunds pay refundTarget e visible purchases gross =
     foldR (\<lambda>acc a.
       if event_name a \<noteq> ''refund'' \<or> p_financial_status (payload_of a) \<noteq> Some ''settled'' \<or> \<not> verified_purchase a then Inr acc
       else case (case refundTarget a of None \<Rightarrow> None | Some t \<Rightarrow> map_get purchases (attemptEvidenceKey t)) of
         None \<Rightarrow> Inr acc
       | Some (purchase, i) \<Rightarrow>
           if nan_test (<) (instant a) (instant purchase) \<or> \<not> credited e (Some i) a \<or> reversed_by visible a then Inr acc
           else subtract_money pay acc a) gross visible"

definition policy_outcome_step :: "(attempt \<Rightarrow> (int \<times> bool) \<Rightarrow> (int \<times> bool) res) \<Rightarrow> metric_definition \<Rightarrow> engagement_policy \<Rightarrow>
    string list \<times> int \<times> bool \<Rightarrow> attempt \<Rightarrow> (string list \<times> int \<times> bool) res" where
  "policy_outcome_step pay def e acc a =
     (if \<not> relevant_outcome def a \<or> \<not> credited e (winner (ep_opens e) a) a then Inr acc
      else credit_outcome pay def acc a)"

definition engagementPolicyValue :: "(attempt \<Rightarrow> (int \<times> bool) \<Rightarrow> (int \<times> bool) res) \<Rightarrow> (attempt \<Rightarrow> bool) \<Rightarrow> (attempt \<Rightarrow> attempt option) \<Rightarrow>
    metric_definition \<Rightarrow> grouping option \<Rightarrow> engagement_input list \<Rightarrow> attempt list \<Rightarrow> attempt list \<Rightarrow> metric_value res" where
  "engagementPolicyValue pay available refundTarget def g opens included visible =
     guardR (engagement_grouping_ok g) ''engagement_metric_requires_anchor_date''
       (let windowDays = md_window_day def + 1 in
        case md_engagement_inactivity_days def of
          None \<Rightarrow> throw ''engagement_policy_window_invalid''
        | Some days \<Rightarrow>
            guardR (0 \<le> days \<and> days \<le> 90 \<and> 1 \<le> windowDays \<and> windowDays \<le> 30) ''engagement_policy_window_invalid''
              (let e = \<lparr> ep_available = available, ep_included = included, ep_opens = opens, ep_grouping = g,
                         ep_inactivity_days = days, ep_window_days = windowDays \<rparr>;
                   population = filter (policy_selected available g) opens;
                   states = map (state_of_open available included days) population
               in if Unknown_Open \<in> set states then Inr (undefined_value ''insufficient_activity_history'' False)
                  else if Eligible_Open \<notin> set states then Inr (undefined_value ''empty_cohort'' False)
                  else if md_numerator def = ''purchase_net_revenue''
                  then bindR (policy_purchases pay e visible) (\<lambda>p.
                    bindR (policy_refunds pay refundTarget e visible (fst p) (snd p)) (\<lambda>t.
                      Inr (defined_value (fst t) (snd t))))
                  else bindR (foldR (policy_outcome_step pay def e) ([], 0, False) visible)
                    (\<lambda>acc. Inr (credited_total def acc))))"

section \<open>Properties\<close>

lemma sort_desc_find_max:
  assumes "List.find P (sort_desc f xs) = Some x" and "y \<in> set xs" and "P y"
  shows "f y \<le> f x"
proof -
  obtain i where i: "i < length (sort_desc f xs)" "x = sort_desc f xs ! i" and before: "\<forall>j < i. \<not> P (sort_desc f xs ! j)"
    using assms(1) by (auto simp: find_Some_iff)
  from assms(2) obtain j where j: "j < length (sort_desc f xs)" "y = sort_desc f xs ! j"
    by (metis in_set_conv_nth set_sort_desc)
  with before assms(3) have "i \<le> j" by (meson leI)
  with i j sorted_sort_desc [of f xs] show ?thesis
    by (cases "i = j") (auto simp: sorted_wrt_iff_nth_less)
qed

lemma winner_latest:
  assumes "winner opens a = Some i"
  shows "i \<in> set opens" "attempt_subject (en_attempt i) = attempt_subject a"
    and "\<exists>t u. instant (en_attempt i) = Some t \<and> instant a = Some u \<and> t \<le> u
      \<and> (\<forall>j \<in> set opens. \<forall>s. attempt_subject (en_attempt j) = attempt_subject a \<longrightarrow> instant (en_attempt j) = Some s \<longrightarrow> s \<le> u \<longrightarrow> s \<le> t)"
proof -
  from find_Some_iff2 [OF assms [unfolded winner_def]]
  have i: "i \<in> set (open_order opens)" "attempt_subject (en_attempt i) = attempt_subject a"
    "nan_test (\<le>) (instant (en_attempt i)) (instant a)" by simp_all
  then show "i \<in> set opens" "attempt_subject (en_attempt i) = attempt_subject a" by (simp_all add: open_order_def)
  from i(3) obtain t u where tu: "instant (en_attempt i) = Some t" "instant a = Some u" "t \<le> u"
    by (auto simp: nan_test_def split: option.splits)
  have "s \<le> t" if j: "j \<in> set opens" "attempt_subject (en_attempt j) = attempt_subject a" "instant (en_attempt j) = Some s" "s \<le> u" for j s
    using sort_desc_find_max [OF assms [unfolded winner_def open_order_def], of j] j tu by (simp add: nan_test_def)
  with tu show "\<exists>t u. instant (en_attempt i) = Some t \<and> instant a = Some u \<and> t \<le> u
      \<and> (\<forall>j \<in> set opens. \<forall>s. attempt_subject (en_attempt j) = attempt_subject a \<longrightarrow> instant (en_attempt j) = Some s \<longrightarrow> s \<le> u \<longrightarrow> s \<le> t)"
    by blast
qed

text \<open>Counting distinct subjects with a set that keeps insertion order.\<close>

lemma count_subjects:
  assumes "foldR f (xs, s) as = Inr (ys, t)" and "distinct xs"
    and "\<And>acc a r. a \<in> set as \<Longrightarrow> f acc a = Inr r \<Longrightarrow>
      r = (if P a then (set_add (attempt_subject a) (fst acc), snd acc) else acc)"
  shows "distinct ys \<and> set ys = set xs \<union> attempt_subject ` {a \<in> set as. P a}"
  using assms
proof (induction as arbitrary: xs s)
  case (Cons a as)
  then obtain r where r: "f (xs, s) a = Inr r" "foldR f r as = Inr (ys, t)" by (auto simp: bindR_eq_Inr)
  have "r = (if P a then (set_add (attempt_subject a) xs, s) else (xs, s))" using Cons.prems(3) [OF _ r(1)] by simp
  with Cons.IH [of "fst r" "snd r"] Cons.prems r(2) show ?case by (auto split: if_splits)
qed simp

lemma engagement_step_count:
  assumes "md_calculation def = ''converted_installations''" and "engagement_step pay available def g opens acc a = Inr r"
  shows "r = (if relevant_outcome def a \<and> (\<exists>i. winner opens a = Some i \<and> in_window 1 i a \<and> selected_open available g i = Inr True)
    then (set_add (attempt_subject a) (fst acc), snd acc) else acc)"
  using assms by (auto simp: engagement_step_def credit_outcome_def bindR_eq_Inr split: if_splits option.splits)

lemma policy_step_count:
  assumes "md_calculation def = ''converted_installations''" and "policy_outcome_step pay def e acc a = Inr r"
  shows "r = (if relevant_outcome def a \<and> credited e (winner (ep_opens e) a) a
    then (set_add (attempt_subject a) (fst acc), snd acc) else acc)"
  using assms by (auto simp: policy_outcome_step_def credit_outcome_def split: if_splits)

lemma credited_total_count:
  assumes "md_calculation def = ''converted_installations''" and "distinct ys" and "set ys = A"
  shows "mv_value (credited_total def (ys, t)) = Some (int (card A))"
  using assms by (auto simp: credited_total_def distinct_card)

text \<open>An outcome belongs to the latest open: the open it is credited to is one of its own installation, at or
  before it, and no other open of that installation lies between them.\<close>

theorem credit_to_latest_open:
  assumes "winner opens a = Some i"
  shows "i \<in> set opens \<and> attempt_subject (en_attempt i) = attempt_subject a
    \<and> (\<exists>t u. instant (en_attempt i) = Some t \<and> instant a = Some u \<and> t \<le> u
        \<and> \<not> (\<exists>j \<in> set opens. \<exists>s. attempt_subject (en_attempt j) = attempt_subject a \<and> instant (en_attempt j) = Some s \<and> t < s \<and> s \<le> u))"
  using winner_latest [OF assms] by (meson not_less)

text \<open>The number of converters is exact: it is the number of installations with a matching custom event less
  than 24 hours after the latest open at or before it, when that very open is available and in the
  group. A removed or differently grouped open keeps its outcomes from any older open.\<close>

theorem engagement_converters:
  assumes "engagementValue pay available def g opens visible = Inr (Some v)"
    and "md_calculation def = ''converted_installations''"
  shows "mv_value v = Some (int (card (attempt_subject ` {a \<in> set visible. relevant_outcome def a
    \<and> (\<exists>i. winner opens a = Some i \<and> in_window 1 i a \<and> selected_open available g i = Inr True)})))"
proof -
  from assms(1) obtain acc where acc: "foldR (engagement_step pay available def g opens) ([], 0, False) visible = Inr acc"
    "v = credited_total def acc"
    by (auto simp: engagementValue_def guardR_eq_Inr bindR_eq_Inr split: if_splits)
  obtain ys t where a: "acc = (ys, t)" by (cases acc)
  from count_subjects [OF acc(1) [unfolded a], where P="\<lambda>a. relevant_outcome def a
      \<and> (\<exists>i. winner opens a = Some i \<and> in_window 1 i a \<and> selected_open available g i = Inr True)"]
    engagement_step_count [OF assms(2)]
  show ?thesis unfolding acc(2) a by (intro credited_total_count [OF assms(2)]) simp_all
qed

text \<open>The policy calculation answers only on sufficient history: a value means that no available open of the
  group has an unknown past and at least one is eligible, and the converters it counts are the
  installations credited to an eligible open of the group within the configured window.\<close>

theorem engagement_policy_converters:
  assumes "engagementPolicyValue pay available refundTarget def g opens included visible = Inr v" and "mv_value v \<noteq> None"
    and "md_calculation def = ''converted_installations''" and "md_numerator def = ''converted_installations''"
  shows "\<exists>days. md_engagement_inactivity_days def = Some days
    \<and> (\<forall>i \<in> set opens. policy_selected available g i \<longrightarrow> state_of_open available included days i \<noteq> Unknown_Open)
    \<and> (\<exists>i \<in> set opens. policy_selected available g i \<and> state_of_open available included days i = Eligible_Open)
    \<and> mv_value v = Some (int (card (attempt_subject ` {a \<in> set visible. relevant_outcome def a
        \<and> credited \<lparr> ep_available = available, ep_included = included, ep_opens = opens, ep_grouping = g,
            ep_inactivity_days = days, ep_window_days = md_window_day def + 1 \<rparr> (winner opens a) a})))"
proof -
  from assms(1) obtain days where days: "md_engagement_inactivity_days def = Some days"
    by (auto simp: engagementPolicyValue_def Let_def guardR_eq_Inr split: option.splits)
  define e where "e = \<lparr> ep_available = available, ep_included = included, ep_opens = opens, ep_grouping = g,
      ep_inactivity_days = days, ep_window_days = md_window_day def + 1 \<rparr>"
  have opens: "ep_opens e = opens" by (simp add: e_def)
  define states where "states = map (state_of_open available included days) (filter (policy_selected available g) opens)"
  have known: "Unknown_Open \<notin> set states" "Eligible_Open \<in> set states"
    using assms(1,2) days unfolding engagementPolicyValue_def states_def
    by (auto simp: guardR_eq_Inr Let_def simp del: set_map split: if_splits)
  obtain acc where acc: "foldR (policy_outcome_step pay def e) ([], 0, False) visible = Inr acc" "v = credited_total def acc"
    using assms(1,4) days known unfolding engagementPolicyValue_def Let_def e_def [symmetric] states_def [symmetric]
    by (simp add: guardR_eq_Inr Let_def states_def [symmetric] e_def [symmetric]) (auto simp: bindR_eq_Inr)
  obtain ys t where a: "acc = (ys, t)" by (cases acc)
  from count_subjects [OF acc(1) [unfolded a], where P="\<lambda>a. relevant_outcome def a \<and> credited e (winner opens a) a"]
    policy_step_count [OF assms(3), of pay e, unfolded opens]
  have "mv_value v = Some (int (card (attempt_subject ` {a \<in> set visible. relevant_outcome def a \<and> credited e (winner opens a) a})))"
    unfolding acc(2) a by (intro credited_total_count [OF assms(3)]) simp_all
  moreover from known have "\<forall>i \<in> set opens. policy_selected available g i \<longrightarrow> state_of_open available included days i \<noteq> Unknown_Open"
    "\<exists>i \<in> set opens. policy_selected available g i \<and> state_of_open available included days i = Eligible_Open"
    unfolding states_def by (force, force)
  ultimately show ?thesis using days unfolding e_def by blast
qed

section \<open>A concrete engagement\<close>

definition ex_open :: engagement_input where
  "ex_open = \<lparr> en_attempt = blank_attempt ''t'' ''a'' ''o'' ''deep_link_open'' (blank_payload\<lparr>p_installation_id := Some ''i''\<rparr>),
     en_attribution = \<lparr> an_id = ''n'', an_tenant_id = ''t'', an_app_id = ''a'', an_subject_scope = Engagement_Level,
       an_subject_ref = Some ''engagement:o'', an_status = Non_Organic, an_method = ''deep_link'', an_model = ''last_click'',
       an_reason_code = [], an_evidence_refs = [], an_effective_at = [], an_decided_at = [], an_input_cutoff_at = [], an_finality = Final,
       an_rule_bundle = \<lparr> rb_id = [], rb_version = [], rb_hash = [] \<rparr>, an_supersedes = None, an_fraud_decision_ref = None \<rparr>,
     en_campaign = ''c'', en_link = None \<rparr>"

definition ex_conversion :: attempt where
  "ex_conversion = (blank_attempt ''t'' ''a'' ''e'' ''custom_event''
     (blank_payload\<lparr>p_installation_id := Some ''i'', p_event_key := Some ''buy''\<rparr>))
     \<lparr>at_record := (blank_record ''t'' ''a'' ''e'' ''custom_event'' (blank_payload\<lparr>p_installation_id := Some ''i'', p_event_key := Some ''buy''\<rparr>))
       \<lparr>r_occurred_at := ''2026-01-10T00:00:05.000Z''\<rparr>\<rparr>"

definition ex_conversion_metric :: metric_definition where
  "ex_conversion_metric = (referenceAdRevenue sample_digests ''m'' UTC ''elapsed'')
     \<lparr>md_calculation := ''converted_installations'', md_numerator := ''converted_installations'',
      md_conversion_event_key := Some ''buy'', md_engagement_inactivity_days := Some 0\<rparr>"

lemma ex_instants: "instant (en_attempt ex_open) = Some 1768003200000" "instant ex_conversion = Some 1768003205000"
  by (simp_all add: instant_def ex_open_def ex_conversion_def blank_defs)

lemma ex_winner: "winner [ex_open] ex_conversion = Some ex_open"
  using ex_instants
  by (simp add: winner_def open_order_def sort_desc_def nan_test_def attempt_subject_def)
    (simp add: ex_open_def ex_conversion_def blank_defs)

theorem credit_to_latest_open_witness: "\<exists>t. instant (en_attempt ex_open) = Some t \<and> t \<le> 1768003205000"
  using credit_to_latest_open [OF ex_winner] ex_instants by auto

lemma ex_selected: "in_group (Some [(''metric_date'', ''2026-01-10'')]) ex_open"
  by (simp add: in_group_def group_value_def group_agrees_def slice10_def ex_open_def blank_defs)

lemma ex_relevant: "relevant_outcome ex_conversion_metric ex_conversion"
  by (simp add: relevant_outcome_def ex_conversion_metric_def referenceAdRevenue_def ex_conversion_def blank_defs)

lemma ex_calculation: "md_calculation ex_conversion_metric = ''converted_installations''"
  "md_numerator ex_conversion_metric = ''converted_installations''" "md_engagement_inactivity_days ex_conversion_metric = Some 0"
  "md_window_day ex_conversion_metric = 0"
  by (simp_all add: ex_conversion_metric_def referenceAdRevenue_def)

theorem engagement_converters_witness:
  "\<exists>v. engagementValue (\<lambda>a s. Inr s) (\<lambda>_. True) ex_conversion_metric (Some [(''metric_date'', ''2026-01-10'')]) [ex_open] [ex_conversion]
      = Inr (Some v) \<and> mv_value v = Some 1"
proof -
  have win: "in_window 1 ex_open ex_conversion" by (simp add: in_window_def ex_instants nan_test_def)
  obtain v where v: "engagementValue (\<lambda>a s. Inr s) (\<lambda>_. True) ex_conversion_metric (Some [(''metric_date'', ''2026-01-10'')]) [ex_open]
      [ex_conversion] = Inr (Some v)"
    by (simp add: engagementValue_def engagement_grouping_ok_def guardR_def group_value_def selected_open_def ex_instants ex_selected
      engagement_step_def ex_relevant ex_winner win credit_outcome_def ex_calculation)
  have "{a \<in> set [ex_conversion]. relevant_outcome ex_conversion_metric a \<and> (\<exists>i. winner [ex_open] a = Some i \<and> in_window 1 i a
      \<and> selected_open (\<lambda>_. True) (Some [(''metric_date'', ''2026-01-10'')]) i = Inr True)} = {ex_conversion}"
    using win by (auto simp: ex_relevant ex_winner selected_open_def ex_instants ex_selected intro!: exI [of _ ex_open])
  with engagement_converters [OF v ex_calculation(1)] v show ?thesis by simp
qed

theorem engagement_policy_converters_witness:
  "\<exists>v. engagementPolicyValue (\<lambda>a s. Inr s) (\<lambda>_. True) (\<lambda>_. None) ex_conversion_metric (Some [(''metric_date'', ''2026-01-10'')])
      [ex_open] [] [ex_conversion] = Inr v \<and> mv_value v = Some 1"
proof -
  have sel: "policy_selected (\<lambda>_. True) (Some [(''metric_date'', ''2026-01-10'')]) ex_open" by (simp add: policy_selected_def ex_selected)
  have st: "state_of_open (\<lambda>_. True) [] 0 ex_open = Eligible_Open" by (simp add: state_of_open_def)
  have win: "in_window 1 ex_open ex_conversion" by (simp add: in_window_def ex_instants nan_test_def)
  obtain v where v: "engagementPolicyValue (\<lambda>a s. Inr s) (\<lambda>_. True) (\<lambda>_. None) ex_conversion_metric (Some [(''metric_date'', ''2026-01-10'')])
      [ex_open] [] [ex_conversion] = Inr v" "mv_value v \<noteq> None"
    by (simp add: engagementPolicyValue_def engagement_grouping_ok_def guardR_def group_value_def ex_calculation sel st
      policy_outcome_step_def ex_relevant ex_winner credited_def win credit_outcome_def credited_total_def)
  have "{a \<in> set [ex_conversion]. relevant_outcome ex_conversion_metric a
      \<and> credited \<lparr> ep_available = \<lambda>_. True, ep_included = [], ep_opens = [ex_open], ep_grouping = Some [(''metric_date'', ''2026-01-10'')],
          ep_inactivity_days = 0, ep_window_days = 1 \<rparr> (winner [ex_open] a) a} = {ex_conversion}"
    using win sel st by (auto simp: ex_relevant ex_winner credited_def)
  with engagement_policy_converters [OF v ex_calculation(1,2)] v show ?thesis by (auto simp: ex_calculation)
qed

end
