(* ===== verification/Metric_Cohorts.thy ===== *)
theory Metric_Cohorts
  imports Engagement
begin

text \<open>
  The first half of the loop of \<open>packages/attribution-core/src/metric-runs.ts\<close>: what an evaluation sees
  (the records received by its watermark, those still visible, the attributions current then),
  which installs a definition selects, the costs of their group, and the money that falls in the
  window of those installs.
\<close>

text \<open>What all runs of one evaluation input share.\<close>

record metric_env =
  nv_digests :: digests
  nv_x :: metric_digests
  nv_sha_attempt :: "attempt \<Rightarrow> string"
  nv_tz :: "int \<Rightarrow> int"
  nv_decisions :: decisions
  nv_lifecycle :: lifecycle_index
  nv_attributions :: "attribution list"
  nv_excluded :: "string option list"
  nv_fx :: fx_policy
  nv_costs :: "cost_record list"
  nv_platform_inputs :: "platform_input list"

section \<open>The view of an evaluation\<close>

fun lifecycle_text :: "lifecycle_status \<Rightarrow> string" where
  "lifecycle_text Available = ''available''"
| "lifecycle_text Redacted = ''redacted''"
| "lifecycle_text Purged = ''purged''"

definition included_in :: "metric_env \<Rightarrow> metric_evaluation \<Rightarrow> attempt \<Rightarrow> bool res" where
  "included_in N e a = bindR (accepted_unique (nv_digests N) (nv_decisions N) a)
     (\<lambda>b. Inr (b \<and> r_received_at (at_record a) \<le> me_watermark e))"

definition state_at :: "metric_env \<Rightarrow> metric_evaluation \<Rightarrow> attempt \<Rightarrow> lifecycle_status" where
  "state_at N e a = (if me_privacy_after e then the_or Available (map_get (nv_lifecycle N) (attemptEvidenceKey a)) else Available)"

definition available_at :: "metric_env \<Rightarrow> metric_evaluation \<Rightarrow> attempt \<Rightarrow> bool" where
  "available_at N e a \<longleftrightarrow> \<not> me_privacy_after e \<or> \<not> map_has (nv_lifecycle N) (attemptEvidenceKey a)"

definition record_rows :: "metric_env \<Rightarrow> metric_evaluation \<Rightarrow> attempt list \<Rightarrow> string list list" where
  "record_rows N e included =
     map (\<lambda>a. [r_received_at (at_record a), record_id a, lifecycle_text (state_at N e a), sv_policy_digest (at_server a)])
       (sortCandidateAttempts (nv_digests N) included)"

definition record_evidence :: "metric_env \<Rightarrow> metric_evaluation \<Rightarrow> attempt list \<Rightarrow> evidence_ref list" where
  "record_evidence N e included =
     map (\<lambda>a. \<lparr> ev_tenant_id = tenant a, ev_app_id = app a, ev_ref = record_id a, ev_lifecycle_status = state_at N e a \<rparr>)
       (sortCandidateAttempts (nv_digests N) included)"

definition reproducibility :: "metric_env \<Rightarrow> metric_evaluation \<Rightarrow> attempt list \<Rightarrow> string" where
  "reproducibility N e included =
     (let states = (if me_privacy_after e
          then concat (map (\<lambda>a. case map_get (nv_lifecycle N) (attemptEvidenceKey a) of None \<Rightarrow> [] | Some s \<Rightarrow> [s]) included)
          else [])
      in if Redacted \<in> set states then ''redaction_affected''
         else if Purged \<in> set states then ''retention_affected''
         else ''fully_reproducible'')"

definition attribution_statuses :: "attribution list \<Rightarrow> (string, attribution_status) jsmap" where
  "attribution_statuses attributions =
     map_from (map (\<lambda>an. (subject_key an, an_status an))
       (filter (\<lambda>an. an_subject_scope an \<in> {Installation_Level, Engagement_Level}) attributions))"

text \<open>Every attribution by its id, the server proofs last.\<close>

definition historical_candidates :: "attribution list \<Rightarrow> platform_selection \<Rightarrow> attribution list" where
  "historical_candidates attributions platform =
     map_values (foldl (\<lambda>m p. map_set (an_key (pq_attribution p)) (pq_attribution p) m)
       (map_from (map (\<lambda>an. (an_key an, an)) attributions)) (map_values (pl_proofs platform)))"

definition acquisition_statuses :: "attempt list \<Rightarrow> (string, attribution) jsmap \<Rightarrow> (string, attribution_status) jsmap" where
  "acquisition_statuses included selected =
     foldl (\<lambda>m (k, an). map_set k (an_status an) m)
       (map_from (map (\<lambda>a. (attempt_subject a, Unattributed)) (filter (\<lambda>a. event_name a = ''install'') included))) selected"

definition platform_states :: "platform_selection \<Rightarrow> lifecycle_status list" where
  "platform_states platform =
     concat (map (\<lambda>an. case map_get (pl_proofs platform) (an_key an) of None \<Rightarrow> [] | Some p \<Rightarrow> [pq_lifecycle_status p])
       (map_values (pl_attributions platform)))"

definition status_map :: "(string, attribution) jsmap \<Rightarrow> (string, attribution_status) jsmap" where
  "status_map m = map (\<lambda>(k, an). (k, an_status an)) m"

record evidence_view =
  ew_included :: "attempt list"
  ew_visible :: "attempt list"
  ew_engagement :: "engagement_input list"
  ew_platform :: platform_selection
  ew_acquisition :: "(string, attribution) jsmap"
  ew_acquisition_statuses :: "(string, attribution_status) jsmap"
  ew_platform_installs :: "attempt list"
  ew_acquisition_installs :: "attempt list"
  ew_installs :: "attempt list"

definition platform_install :: "metric_env \<Rightarrow> metric_evaluation \<Rightarrow> platform_selection \<Rightarrow> zone \<Rightarrow> attempt \<Rightarrow> bool res" where
  "platform_install N e platform z a =
     (case platformAcquisitionDimensions a platform of
        None \<Rightarrow> Inr False
      | Some dims \<Rightarrow> matchesGrouping (nv_tz N) a (me_grouping e) (status_map (pl_attributions platform)) dims True False z)"

definition acquisition_install :: "metric_env \<Rightarrow> metric_evaluation \<Rightarrow> attempt list \<Rightarrow> (string, attribution) jsmap \<Rightarrow>
    (string, attribution_status) jsmap \<Rightarrow> zone \<Rightarrow> attempt \<Rightarrow> bool res" where
  "acquisition_install N e visible selected statuses z a =
     matchesGrouping (nv_tz N) a (me_grouping e) statuses (selectedAcquisitionDimensions a visible selected) False False z"

definition evaluation_view :: "metric_env \<Rightarrow> attempt list \<Rightarrow> metric_evaluation \<Rightarrow> evidence_view res" where
  "evaluation_view N all e =
     bindR (filterR (included_in N e) all) (\<lambda>included.
     let visible = filter (available_at N e) included;
         engagement = engagementInputs included (nv_attributions N) (me_watermark e);
         platform = selectPlatformAcquisition (nv_digests N) (xd_attribution (nv_x N)) (nv_attributions N) included
           (nv_platform_inputs N) (me_watermark e);
         selected = selectedAcquisitionAttributions (nv_x N) (historical_candidates (nv_attributions N) platform) included (me_watermark e);
         statuses = acquisition_statuses included selected;
         is_install = (\<lambda>a. event_name a = ''install'') in
     bindR (filterR (platform_install N e platform UTC) (filter is_install visible)) (\<lambda>platform_installs.
     bindR (filterR (acquisition_install N e visible selected statuses UTC) (filter (\<lambda>a. is_install a \<and> \<not> is_imported a) visible))
       (\<lambda>acquisition_installs.
     bindR (filterR (\<lambda>a. matchesGrouping (nv_tz N) a (me_grouping e) (attribution_statuses (nv_attributions N)) no_dimensions False False UTC)
       (filter is_install visible)) (\<lambda>installs.
     Inr \<lparr> ew_included = included, ew_visible = visible, ew_engagement = engagement, ew_platform = platform,
       ew_acquisition = selected, ew_acquisition_statuses = statuses, ew_platform_installs = platform_installs,
       ew_acquisition_installs = acquisition_installs, ew_installs = installs \<rparr>))))"

section \<open>The installs of a definition\<close>

definition bundle_id :: "metric_definition \<Rightarrow> string" where "bundle_id def = rb_id (md_rule_bundle def)"

definition not_fraud_excluded :: "metric_definition \<Rightarrow> (string, attribution) jsmap \<Rightarrow> attempt \<Rightarrow> bool" where
  "not_fraud_excluded def selected a \<longleftrightarrow> md_fraud_policy def \<noteq> Some ''net''
     \<or> map_option an_reason_code (map_get selected (attempt_subject a)) \<noteq> Some ''fraud_excluded''"

definition imported_selection :: "metric_env \<Rightarrow> metric_evaluation \<Rightarrow> evidence_view \<Rightarrow> metric_definition \<Rightarrow>
    (string, attribution) jsmap option" where
  "imported_selection N e w def =
     (case md_import_provider def of
        None \<Rightarrow> None
      | Some p \<Rightarrow> if p = [] then None
          else Some (importedAcquisitionAttributions (nv_x N) (nv_attributions N) (ew_included w) p (me_watermark e)))"

definition imported_statuses :: "evidence_view \<Rightarrow> string \<Rightarrow> (string, attribution) jsmap \<Rightarrow> (string, attribution_status) jsmap" where
  "imported_statuses w provider selected =
     foldl (\<lambda>m a. if map_has m (attempt_subject a) then m else map_set (attempt_subject a) Unattributed m)
       (status_map selected) (filter (\<lambda>a. importedInstall a provider) (ew_included w))"

definition calendar_zone :: "metric_definition \<Rightarrow> zone" where
  "calendar_zone def = (if truthy (md_calendar_cohort_policy def) then md_time_zone def else UTC)"

definition calendar_installs :: "metric_env \<Rightarrow> metric_evaluation \<Rightarrow> evidence_view \<Rightarrow> metric_definition \<Rightarrow> attempt list res" where
  "calendar_installs N e w def =
     filterR (if md_acquisition_basis def = Some ''selected_verified_platform''
         then platform_install N e (ew_platform w) (calendar_zone def)
         else acquisition_install N e (ew_visible w) (ew_acquisition w) (ew_acquisition_statuses w) (calendar_zone def))
       (filter (\<lambda>a. event_name a = ''install'' \<and> \<not> is_imported a) (ew_visible w))"

definition imported_installs :: "metric_env \<Rightarrow> metric_evaluation \<Rightarrow> evidence_view \<Rightarrow> metric_definition \<Rightarrow>
    (string, attribution) jsmap \<Rightarrow> attempt list res" where
  "imported_installs N e w def selected =
     (let provider = the_or [] (md_import_provider def) in
      bindR (filterR (\<lambda>a. matchesGrouping (nv_tz N) a (me_grouping e) (imported_statuses w provider selected)
           (importedDimensions a selected) True True (calendar_zone def))
         (filter (\<lambda>a. importedInstall a provider) (ew_visible w)))
       (\<lambda>xs. Inr (filter (not_fraud_excluded def selected) xs)))"

definition selected_installs :: "metric_env \<Rightarrow> metric_evaluation \<Rightarrow> evidence_view \<Rightarrow> metric_definition \<Rightarrow> attempt list res" where
  "selected_installs N e w def =
     (case imported_selection N e w def of
        Some selected \<Rightarrow> imported_installs N e w def selected
      | None \<Rightarrow>
          bindR (if truthy (md_calendar_cohort_policy def) then bindR (calendar_installs N e w def) (\<lambda>xs. Inr (Some xs)) else Inr None)
            (\<lambda>calendar. Inr (if md_acquisition_basis def = Some ''selected_verified_platform''
               then filter (not_fraud_excluded def (pl_attributions (ew_platform w))) (the_or (ew_platform_installs w) calendar)
               else if truthy (md_acquisition_basis def) then the_or (ew_acquisition_installs w) calendar
               else ew_installs w)))"

definition eligible_installs :: "metric_env \<Rightarrow> metric_definition \<Rightarrow> attempt list \<Rightarrow> attempt list" where
  "eligible_installs N def selected =
     (if md_fraud_policy def = Some ''net'' then filter (\<lambda>a. installation a \<notin> set (nv_excluded N)) selected else selected)"

definition cohort_size :: "attempt list \<Rightarrow> int" where
  "cohort_size installs = int (length (remdups (map installation installs)))"

section \<open>Guards\<close>

definition cost_calculation :: "metric_definition \<Rightarrow> bool" where
  "cost_calculation def \<longleftrightarrow> md_calculation def \<in> {''cost_sum'', ''cost_over_cohort'', ''cost_over_outcome''}"

definition outcome_cost_profile :: "metric_definition \<Rightarrow> bool" where
  "outcome_cost_profile def \<longleftrightarrow> bundle_id def = ''metric-outcome-acquisition-cost''"

definition payer_profile :: "metric_definition \<Rightarrow> bool" where
  "payer_profile def \<longleftrightarrow> bundle_id def = ''metric-verified-payers''"

definition selected_daily :: "metric_definition \<Rightarrow> bool" where
  "selected_daily def \<longleftrightarrow> bundle_id def = ''metric-selected-daily-acquisition''"

definition uses_fx :: "metric_definition \<Rightarrow> bool" where
  "uses_fx def \<longleftrightarrow> cost_calculation def
     \<or> md_calculation def \<in> {''revenue_sum'', ''revenue_over_cost'', ''revenue_over_cohort'', ''revenue_over_paying_installations''}"

definition ungrouped_keys :: "metric_definition \<Rightarrow> metric_evaluation \<Rightarrow> string list" where
  "ungrouped_keys def e = filter (\<lambda>k. k \<notin> set (the_or [] (md_grouping_dimensions def))) (map fst (the_or [] (me_grouping e)))"

definition metric_guards :: "fx_policy \<Rightarrow> metric_evaluation \<Rightarrow> metric_definition \<Rightarrow> unit res" where
  "metric_guards fx e def =
     guardR (\<not> (bundle_id def \<in> {''metric-basis-acquisition-kpis'', ''metric-horizon-acquisition-kpis'', ''metric-outcome-acquisition-cost''}
         \<and> (\<not> truthy (group e ''cohort_date'') \<or> ungrouped_keys def e \<noteq> []))) ''acquisition_kpi_grouping_invalid''
     (guardR (\<not> ((dated fx \<or> payer_profile def \<or> outcome_cost_profile def) \<and> md_value_type def = ''money''
         \<and> (md_currency def \<noteq> Some (fp_target_currency fx) \<or> md_amount_scale def \<noteq> Some (fp_target_scale fx)))) ''dated_fx_target_mismatch''
     (guardR (\<not> (md_acquisition_basis def = Some ''selected_verified_platform''
         \<and> (truthy (group e ''campaign_id'') \<or> truthy (group e ''ad_group_id'')) \<and> \<not> truthy (group e ''network'')))
       ''platform_acquisition_source_required''
     (guardR (\<not> (\<not> truthy (md_acquisition_dimension_policy def)
         \<and> \<not> (md_acquisition_basis def \<in> {Some ''selected_verified_platform'', Some ''selected_imported_provider''}
                \<and> group e ''creative_id'' = None)
         \<and> (group e ''ad_group_id'' \<noteq> None \<or> group e ''creative_id'' \<noteq> None)))
       (''unsupported detail grouping for '' @ md_metric_name def)
     (guardR (\<not> (truthy (md_calendar_cohort_policy def) \<and> \<not> truthy (group e ''cohort_date''))) ''calendar_cohort_date_required''
       (Inr ())))))"

definition campaign_state_guards :: "metric_evaluation \<Rightarrow> metric_definition \<Rightarrow> unit res" where
  "campaign_state_guards e def =
     guardR (\<not> (selected_daily def \<and> group e ''acquisition_campaign_state'' \<notin> {None, Some ''known'', Some ''unknown''}))
       ''daily_acquisition_campaign_state_invalid''
     (guardR (selected_daily def \<or> group e ''acquisition_campaign_state'' = None)
       (''unsupported acquisition campaign state for '' @ md_metric_name def)
       (Inr ()))"

definition grouping_guard :: "metric_evaluation \<Rightarrow> metric_definition \<Rightarrow> unit res" where
  "grouping_guard e def =
     guardR (md_grouping_dimensions def = None \<or> ungrouped_keys def e = [])
       (''unsupported grouping for '' @ md_metric_name def @ '': '' @ join '','' (ungrouped_keys def e)) (Inr ())"

section \<open>Costs of a group\<close>

definition cost_field :: "cost_record \<Rightarrow> string \<Rightarrow> string option" where
  "cost_field c field =
     (if field = ''campaign_id'' then cs_campaign_id c else if field = ''ad_group_id'' then cs_ad_group_id c
      else if field = ''creative_id'' then cs_creative_id c else if field = ''network'' then Some (cs_network c)
      else if field = ''country'' then cs_country c else None)"

definition grouped_cost :: "metric_evaluation \<Rightarrow> metric_definition \<Rightarrow> string list \<Rightarrow> cost_record \<Rightarrow> bool" where
  "grouped_cost e def scopes c \<longleftrightarrow>
     \<not> (truthy (md_engagement_credit_policy def) \<or> selected_daily def)
     \<and> \<not> (truthy (md_calendar_cohort_policy def) \<and> cs_reporting_time_zone c \<noteq> Some (zone_name (md_time_zone def)))
     \<and> \<not> (cs_creative_id c \<noteq> None \<and> \<not> truthy (md_acquisition_dimension_policy def))
     \<and> group e ''attribution_status'' \<in> {None, Some ''non_organic''}
     \<and> cs_as_of c \<le> me_watermark e
     \<and> (scopes = [] \<or> keyOf [cs_tenant_id c, cs_app_id c] \<in> set scopes)
     \<and> list_all (\<lambda>field. group_agrees (me_grouping e) field (cost_field c field))
         [''campaign_id'', ''ad_group_id'', ''creative_id'', ''network'', ''country'']
     \<and> group_agrees (me_grouping e) ''cohort_date'' (Some (cs_date c))"

text \<open>The rows, and whether they overlap; without a disjointness policy the last row of a digest counts.\<close>

definition current_costs :: "metric_env \<Rightarrow> metric_evaluation \<Rightarrow> metric_definition \<Rightarrow> attempt list \<Rightarrow> cost_record list \<times> bool" where
  "current_costs N e def selected =
     (let scopes = remdups (map (\<lambda>a. keyOf [tenant a, app a]) selected);
          grouped = filter (grouped_cost e def scopes) (nv_costs N);
          detail = truthy (md_acquisition_dimension_policy def)
      in if truthy (md_cost_selection_policy def) \<or> detail
         then selectDisjointCosts grouped detail (\<lambda>c. costCoverageMatchesGrouping c (me_grouping e) detail)
         else (filter (\<lambda>c. costCoverageMatchesGrouping c (me_grouping e) False)
                (map_values (map_from (map (\<lambda>c. (keyOf [cs_tenant_id c, cs_app_id c, cs_dimension_digest c], c))
                  (sort_key (\<lambda>c. (cs_as_of c, cs_id c)) grouped)))), False))"

definition cost_rows :: "metric_digests \<Rightarrow> cost_record list \<Rightarrow> string list list" where
  "cost_rows X costs = map (\<lambda>c. [''cost'', cs_as_of c, cs_id c, cs_report_snapshot_digest c, cs_dimension_digest c])
     (sortByKey (xd_cost X) (\<lambda>c. [cs_as_of c, cs_id c]) costs)"

definition cost_evidence :: "cost_record list \<Rightarrow> evidence_ref list" where
  "cost_evidence costs = map (\<lambda>c. \<lparr> ev_tenant_id = cs_tenant_id c, ev_app_id = cs_app_id c, ev_ref = cs_id c,
     ev_lifecycle_status = Available \<rparr>) costs"

section \<open>Money of a cohort\<close>

definition anchor_of :: "attempt list \<Rightarrow> attempt \<Rightarrow> attempt option" where
  "anchor_of installs a = List.find (\<lambda>i. tenant i = tenant a \<and> app i = app a \<and> installation i = installation a) installs"

definition foreign_import :: "metric_definition \<Rightarrow> attempt \<Rightarrow> bool" where
  "foreign_import def a \<longleftrightarrow> truthy (md_import_provider def)
     \<and> r_producer (at_record a) \<noteq> ''import:'' @ the_or [] (md_import_provider def)"

definition metric_money :: "metric_env \<Rightarrow> metric_evaluation \<Rightarrow> attempt \<Rightarrow> int \<times> bool \<Rightarrow> (int \<times> bool) res" where
  "metric_money N e a acc = credit_money (nv_tz N) (nv_fx N) (me_watermark e) acc a"

text \<open>Adds an outcome when the installation of \<open>owner\<close> is in the cohort and the outcome is in its window.\<close>

definition add_outcome :: "metric_env \<Rightarrow> metric_evaluation \<Rightarrow> metric_definition \<Rightarrow> attempt list \<Rightarrow> attempt \<Rightarrow> attempt \<Rightarrow>
    int \<times> bool \<Rightarrow> (int \<times> bool) res" where
  "add_outcome N e def installs owner a acc =
     (case anchor_of installs owner of
        None \<Rightarrow> Inr acc
      | Some i \<Rightarrow> bindR (eligibleRevenue (nv_tz N) def (at_record i) (at_record a))
          (\<lambda>ok. if ok then metric_money N e a acc else Inr acc))"

definition own_outcome :: "metric_env \<Rightarrow> metric_evaluation \<Rightarrow> metric_definition \<Rightarrow> attempt list \<Rightarrow> int \<times> bool \<Rightarrow> attempt \<Rightarrow>
    (int \<times> bool) res" where
  "own_outcome N e def installs acc a =
     (if foreign_import def a then Inr acc else add_outcome N e def installs a a acc)"

definition revenue_value :: "metric_env \<Rightarrow> metric_evaluation \<Rightarrow> metric_definition \<Rightarrow> attempt list \<Rightarrow> attempt list \<Rightarrow> (int \<times> bool) res" where
  "revenue_value N e def installs visible =
     (if payer_profile def \<or> truthy (md_engagement_credit_policy def) \<or> md_conversion_event_key def \<noteq> None \<or> cost_calculation def
        \<or> (dated (nv_fx N) \<and> (\<not> uses_fx def \<or> md_numerator def = ''purchase_net_revenue''))
      then Inr (0, False)
      else foldR (own_outcome N e def installs) (0, False)
        (filter (\<lambda>a. event_name a = ''ad_revenue'' \<and> p_subject_scope (payload_of a) = Some ''installation_level'') visible))"

definition settled :: "string \<Rightarrow> attempt list \<Rightarrow> attempt list" where
  "settled name visible = filter (\<lambda>a. event_name a = name \<and> p_financial_status (payload_of a) = Some ''settled'') visible"

definition payer_purchases :: "metric_env \<Rightarrow> metric_definition \<Rightarrow> attempt list \<Rightarrow> attempt list \<Rightarrow> attempt list res" where
  "payer_purchases N def installs visible =
     (if payer_profile def \<or> outcome_cost_profile def
      then filterR (\<lambda>a. if \<not> verified_purchase a then Inr False
             else someR (\<lambda>i. if tenant i = tenant a \<and> app i = app a \<and> installation i = installation a
               then eligibleRevenue (nv_tz N) def (at_record i) (at_record a) else Inr False) installs)
           (settled ''purchase'' visible)
      else Inr [])"

definition refund_cancelled :: "metric_definition \<Rightarrow> attempt list \<Rightarrow> attempt \<Rightarrow> bool" where
  "refund_cancelled def visible a \<longleftrightarrow> truthy (md_refund_reversal_policy def)
     \<and> list_ex (\<lambda>r. event_name r = ''refund'' \<and> p_financial_status (payload_of r) = Some ''reversed'' \<and> tenant r = tenant a
          \<and> app r = app a \<and> p_reverses_refund_record_id (payload_of r) = Some (record_id a)
          \<and> (\<not> payer_profile def \<or> verified_purchase r)) visible"

definition refund_counts :: "metric_definition \<Rightarrow> attempt list \<Rightarrow> attempt list \<Rightarrow> attempt \<Rightarrow> attempt \<Rightarrow> bool" where
  "refund_counts def payers visible a target \<longleftrightarrow> p_financial_status (payload_of target) = Some ''settled''
     \<and> \<not> (truthy (md_import_provider def) \<and> (foreign_import def a \<or> foreign_import def target))
     \<and> \<not> (payer_profile def \<and> (\<not> verified_purchase a \<or> target \<notin> set payers))
     \<and> \<not> refund_cancelled def visible a"

definition refund_outcome :: "metric_env \<Rightarrow> metric_evaluation \<Rightarrow> metric_definition \<Rightarrow> attempt list \<Rightarrow> attempt list \<Rightarrow> attempt list \<Rightarrow>
    int \<times> bool \<Rightarrow> attempt \<Rightarrow> (int \<times> bool) res" where
  "refund_outcome N e def installs payers visible acc a =
     (case resolveRefundTarget (nv_digests N) a visible of
        None \<Rightarrow> Inr acc
      | Some target \<Rightarrow> if \<not> refund_counts def payers visible a target then Inr acc
          else add_outcome N e def installs target a acc)"

definition purchase_net_value :: "metric_env \<Rightarrow> metric_evaluation \<Rightarrow> metric_definition \<Rightarrow> attempt list \<Rightarrow> attempt list \<Rightarrow> attempt list \<Rightarrow>
    (int \<times> bool) res" where
  "purchase_net_value N e def installs payers visible =
     (if truthy (md_engagement_credit_policy def) \<or> md_numerator def \<notin> {''purchase_net_revenue'', ''total_net_revenue''}
      then Inr (0, False)
      else bindR (foldR (own_outcome N e def installs) (0, False)
             (if payer_profile def then payers else settled ''purchase'' visible)) (\<lambda>gross.
        bindR (foldR (refund_outcome N e def installs payers visible) (0, snd gross) (settled ''refund'' visible)) (\<lambda>refunds.
          Inr (fst gross - fst refunds, snd refunds))))"

definition selected_revenue :: "metric_definition \<Rightarrow> int \<Rightarrow> int \<Rightarrow> int" where
  "selected_revenue def revenue purchase_net =
     (if md_numerator def = ''purchase_net_revenue'' then purchase_net
      else if md_numerator def = ''total_net_revenue'' then revenue + purchase_net
      else revenue)"

end
