(* ===== verification/Metric_Values.thy ===== *)
theory Metric_Values
  imports Metric_Cohorts
begin

text \<open>
  The calculations of \<open>packages/attribution-core/src/metric-runs.ts\<close>, one definition per branch of the
  chain in \<open>metricRuns\<close>, and their selection by the metric definition. Every branch leaves a value or
  a reason for having none, never both and never neither.
\<close>

record metric_cohort =
  mh_installs :: "attempt list"
  mh_payers :: "attempt list"
  mh_costs :: "cost_record list"
  mh_overlapping :: bool
  mh_revenue :: int
  mh_purchase_net :: int
  mh_missing :: bool

definition size_of :: "'a list \<Rightarrow> int" where "size_of xs = int (length (remdups xs))"

definition ratio :: "int \<Rightarrow> int \<Rightarrow> bool \<Rightarrow> metric_value res" where
  "ratio numerator denominator missing = bindR (roundHalfEven numerator denominator) (\<lambda>v. Inr (defined_value v missing))"

definition payer_value :: "metric_definition \<Rightarrow> metric_cohort \<Rightarrow> metric_value res" where
  "payer_value def h =
     (let payers = size_of (map attempt_subject (mh_payers h));
          population = size_of (map attempt_subject (mh_installs h)); m = mh_missing h in
      if md_calculation def = ''purchase_count'' then Inr (defined_value (int (length (mh_payers h))) m)
      else if md_calculation def = ''paying_installations'' then Inr (defined_value payers m)
      else if md_calculation def = ''paying_installations_over_cohort''
      then (if population = 0 then Inr (undefined_value ''empty_cohort'' m) else ratio (payers * 1000000) population m)
      else if md_calculation def = ''revenue_over_paying_installations''
      then (if payers = 0 then Inr (undefined_value ''no_paying_installations'' m) else ratio (mh_purchase_net h) payers m)
      else throw (''unsupported payer calculation: '' @ md_metric_name def))"

definition utc_day :: "metric_env \<Rightarrow> string \<Rightarrow> string \<Rightarrow> string res" where
  "utc_day N stamp field = dateAt (nv_tz N) (Some stamp) UTC field"

definition calendar_activity_value :: "metric_env \<Rightarrow> metric_evaluation \<Rightarrow> evidence_view \<Rightarrow> metric_definition \<Rightarrow> bool \<Rightarrow>
    metric_value res" where
  "calendar_activity_value N e w def missing =
     (case group e ''metric_date'' of
        None \<Rightarrow> throw (''calendar_activity requires only metric_date grouping: '' @ md_metric_name def)
      | Some date \<Rightarrow>
          guardR (list_all (\<lambda>k. k = ''metric_date'') (map fst (the_or [] (me_grouping e))))
            (''calendar_activity requires only metric_date grouping: '' @ md_metric_name def)
          (bindR (utc_day N (date @ ''T00:00:00.000Z'') ''metric_date'') (\<lambda>_.
           bindR (filterR (\<lambda>a. if event_name a \<in> set (the_or [] (md_event_names def))
                \<and> (md_conversion_event_key def = None \<or> p_event_key (payload_of a) = md_conversion_event_key def)
              then bindR (utc_day N (r_occurred_at (at_record a)) ''occurred_at'') (\<lambda>d. Inr (d = date)) else Inr False) (ew_visible w))
            (\<lambda>events. Inr (defined_value
               (if md_calculation def = ''active_installations_count'' then size_of (map attempt_subject events)
                else int (length events)) missing)))))"

definition engagement_branch :: "metric_env \<Rightarrow> metric_evaluation \<Rightarrow> evidence_view \<Rightarrow> metric_definition \<Rightarrow> bool \<Rightarrow> metric_value res" where
  "engagement_branch N e w def missing =
     guardR (md_value_type def \<noteq> ''money'' \<or> (md_currency def = Some (fp_target_currency (nv_fx N))
         \<and> md_amount_scale def = Some (fp_target_scale (nv_fx N)))) ''engagement_metric_fx_target_mismatch''
       (if bundle_id def = ''metric-engagement-policy''
        then bindR (engagementPolicyValue (metric_money N e) (available_at N e)
               (\<lambda>a. resolveRefundTarget (nv_digests N) a (ew_visible w)) def (me_grouping e) (ew_engagement w) (ew_included w) (ew_visible w))
             (\<lambda>v. Inr (v\<lparr>mv_missing := missing \<or> mv_missing v\<rparr>))
        else bindR (engagementValue (metric_money N e) (available_at N e) def (me_grouping e) (ew_engagement w) (ew_visible w))
             (\<lambda>r. Inr (case r of None \<Rightarrow> undefined_value ''empty_cohort'' missing
                 | Some v \<Rightarrow> v\<lparr>mv_missing := missing \<or> mv_missing v\<rparr>)))"

section \<open>Costs\<close>

definition add_cost :: "metric_env \<Rightarrow> metric_evaluation \<Rightarrow> int \<times> bool \<Rightarrow> cost_record \<Rightarrow> (int \<times> bool) res" where
  "add_cost N e acc c =
     (if dated (nv_fx N) then add_money (nv_fx N) (me_watermark e) acc (cost_amount c) (cs_date c)
      else guardR (cs_currency c = fp_target_currency (nv_fx N)) (''cost currency mismatch: '' @ cs_id c)
        (bindR (scaleMoney (cost_amount c) (fp_target_scale (nv_fx N))) (\<lambda>v. Inr (fst acc + v, snd acc))))"

definition outcome_events :: "metric_env \<Rightarrow> evidence_view \<Rightarrow> metric_definition \<Rightarrow> metric_cohort \<Rightarrow> attempt list res" where
  "outcome_events N w def h =
     (if md_denominator def = Some ''paying_installations'' then Inr (mh_payers h)
      else filterR (\<lambda>a. if event_name a = ''custom_event'' \<and> p_event_key (payload_of a) = md_conversion_event_key def
             then someR (\<lambda>i. if tenant i = tenant a \<and> app i = app a \<and> installation i = installation a
               then eligibleRevenue (nv_tz N) def (at_record i) (at_record a) else Inr False) (mh_installs h)
             else Inr False) (ew_visible w))"

definition outcome_cost_value :: "metric_definition \<Rightarrow> metric_cohort \<Rightarrow> int \<times> bool \<Rightarrow> int \<Rightarrow> metric_value res" where
  "outcome_cost_value def h cost outcomes =
     bindR (if mh_overlapping h then Inr (undefined_value ''overlapping_cost_grains'' (snd cost))
        else if cohort_size (mh_installs h) = 0 then Inr (undefined_value ''empty_cohort'' (snd cost))
        else if mh_costs h = [] then Inr (undefined_value ''no_attributed_cost'' (snd cost))
        else if outcomes = 0 then Inr (undefined_value (if md_denominator def = Some ''paying_installations''
          then ''no_paying_installations'' else ''no_converted_installations'') (snd cost))
        else ratio (fst cost) outcomes (snd cost))
       (\<lambda>v. Inr (v\<lparr>mv_operands := Some (outcomes,
          if \<not> mh_overlapping h \<and> \<not> snd cost \<and> mh_costs h \<noteq> [] then Some (fst cost) else None)\<rparr>))"

definition cost_value :: "metric_env \<Rightarrow> metric_evaluation \<Rightarrow> evidence_view \<Rightarrow> metric_definition \<Rightarrow> metric_cohort \<Rightarrow> metric_value res" where
  "cost_value N e w def h =
     bindR (foldR (add_cost N e) (0, mh_missing h) (mh_costs h)) (\<lambda>cost.
       if outcome_cost_profile def
       then bindR (outcome_events N w def h) (\<lambda>events. outcome_cost_value def h cost (size_of (map attempt_subject events)))
       else if mh_overlapping h then Inr (undefined_value ''overlapping_cost_grains'' (snd cost))
       else if md_calculation def = ''cost_over_cohort'' \<and> cohort_size (mh_installs h) = 0 then Inr (undefined_value ''empty_cohort'' (snd cost))
       else if md_calculation def = ''cost_sum''
       then Inr (if mh_costs h = [] then undefined_value ''no_attributed_cost'' (snd cost) else defined_value (fst cost) (snd cost))
       else if md_calculation def = ''cost_over_cohort''
       then (if mh_costs h = [] then Inr (undefined_value ''no_attributed_cost'' (snd cost))
             else ratio (fst cost) (cohort_size (mh_installs h)) (snd cost))
       else if fst cost = 0 then Inr (undefined_value ''no_attributed_cost'' (snd cost))
       else ratio (mh_revenue h * 10 ^ the_or 6 (md_ratio_scale def)) (fst cost) (snd cost))"

section \<open>Conversion and retention\<close>

definition convert_step :: "metric_env \<Rightarrow> metric_definition \<Rightarrow> attempt list \<Rightarrow> string option list \<Rightarrow> attempt \<Rightarrow> string option list res" where
  "convert_step N def installs converted a =
     (case anchor_of installs a of
        None \<Rightarrow> Inr converted
      | Some i \<Rightarrow> bindR (eligibleRevenue (nv_tz N) def (at_record i) (at_record a))
          (\<lambda>ok. Inr (if ok then set_add (installation i) converted else converted)))"

definition conversion_value :: "metric_env \<Rightarrow> evidence_view \<Rightarrow> metric_definition \<Rightarrow> metric_cohort \<Rightarrow> metric_value res" where
  "conversion_value N w def h =
     (if cohort_size (mh_installs h) = 0 then Inr (undefined_value ''empty_cohort'' (mh_missing h))
      else bindR (foldR (convert_step N def (mh_installs h)) []
             (filter (\<lambda>a. event_name a = ''custom_event'' \<and> p_event_key (payload_of a) = md_conversion_event_key def) (ew_visible w)))
        (\<lambda>converted. if md_calculation def = ''converted_installations''
           then Inr (defined_value (int (length converted)) (mh_missing h))
           else ratio (int (length converted) * 1000000) (cohort_size (mh_installs h)) (mh_missing h)))"

definition activity_day :: "metric_env \<Rightarrow> metric_definition \<Rightarrow> attempt \<Rightarrow> attempt \<Rightarrow> int option res" where
  "activity_day N def i a =
     (let stamp = (\<lambda>x. time (Some (r_occurred_at (at_record x))) ''occurred_at'') in
      bindR (stamp a) (\<lambda>t. bindR (stamp i) (\<lambda>s.
        if truthy (md_calendar_cohort_policy def)
        then (if t < s then Inr None
              else cohortCalendarDayIndex (nv_tz N) (r_occurred_at (at_record i)) (r_occurred_at (at_record a)) (md_time_zone def))
        else Inr (Some ((t - s) div DAY_MS)))))"

definition retention_step :: "metric_env \<Rightarrow> metric_definition \<Rightarrow> attempt list \<Rightarrow> string option list \<Rightarrow> attempt \<Rightarrow> string option list res" where
  "retention_step N def installs active a =
     (if foreign_import def a then Inr active
      else case anchor_of installs a of
        None \<Rightarrow> Inr active
      | Some i \<Rightarrow> bindR (activity_day N def i a)
          (\<lambda>day. Inr (if day = Some (md_window_day def) then set_add (installation i) active else active)))"

definition retention_value :: "metric_env \<Rightarrow> metric_evaluation \<Rightarrow> evidence_view \<Rightarrow> metric_definition \<Rightarrow> metric_cohort \<Rightarrow> metric_value res" where
  "retention_value N e w def h =
     bindR (standardRetentionClosesAt def (group e ''cohort_date'')) (\<lambda>closesAt.
       if truthy closesAt \<and> me_watermark e < the_or [] closesAt then Inr (undefined_value ''observation_window_not_elapsed'' (mh_missing h))
       else if cohort_size (mh_installs h) = 0 then Inr (undefined_value ''empty_cohort'' (mh_missing h))
       else bindR (foldR (retention_step N def (mh_installs h)) []
              (filter (\<lambda>a. event_name a \<in> set (the_or [''session_start''] (md_activity_events def))) (ew_visible w)))
         (\<lambda>active. ratio (int (length active) * 10 ^ the_or 6 (md_ratio_scale def)) (cohort_size (mh_installs h)) (mh_missing h)))"

section \<open>Event counts\<close>

definition daily_count :: "metric_env \<Rightarrow> metric_evaluation \<Rightarrow> evidence_view \<Rightarrow> attempt list \<Rightarrow> string \<Rightarrow> attempt list res" where
  "daily_count N e w installs date =
     filterR (\<lambda>a. if is_imported a then Inr False
       else bindR (utc_day N (r_occurred_at (at_record a)) ''occurred_at'') (\<lambda>d. Inr (d = date
         \<and> (let state = (if dm_campaign_id (selectedAcquisitionDimensions a (ew_visible w) (ew_acquisition w)) = None
                then ''unknown'' else ''known'')
            in group_agrees (me_grouping e) ''acquisition_campaign_state'' (Some state))))) installs"

definition conversion_bucket :: "payload \<Rightarrow> string option" where
  "conversion_bucket p =
     (case p_conversion_value p of Some v \<Rightarrow> Some (''fine:'' @ show_int v)
      | None \<Rightarrow> (case p_coarse_conversion_value p of Some c \<Rightarrow> Some (''coarse:'' @ c) | None \<Rightarrow> None))"

definition aggregate_attributed :: "attribution list \<Rightarrow> attempt \<Rightarrow> bool" where
  "aggregate_attributed attributions a \<longleftrightarrow> list_ex (\<lambda>an. an_tenant_id an = tenant a \<and> an_app_id an = app a
     \<and> an_subject_scope an = Aggregate \<and> an_status an = Non_Organic
     \<and> list_ex (\<lambda>e. ev_ref e = record_id a) (an_evidence_refs an)) attributions"

definition postback_counts :: "metric_env \<Rightarrow> metric_evaluation \<Rightarrow> metric_definition \<Rightarrow> attempt \<Rightarrow> bool" where
  "postback_counts N e def a \<longleftrightarrow>
     \<not> (md_metric_name def = ''aak_attributed_installs''
        \<and> p_conversion_type (payload_of a) \<notin> {Some ''download'', Some ''redownload''})
     \<and> \<not> (md_metric_name def = ''aak_attributed_reengagements'' \<and> p_conversion_type (payload_of a) \<noteq> Some ''re-engagement'')
     \<and> aggregate_attributed (nv_attributions N) a
     \<and> (group e ''apple_conversion_bucket'' = None \<or> conversion_bucket (payload_of a) = group e ''apple_conversion_bucket'')"

definition aggregate_count :: "metric_env \<Rightarrow> metric_evaluation \<Rightarrow> evidence_view \<Rightarrow> metric_definition \<Rightarrow> string \<Rightarrow> string \<Rightarrow>
    attempt list res" where
  "aggregate_count N e w def name date =
     (let metric = md_metric_name def; distribution = (metric = ''skan_conversion_value_distribution'') in
      guardR (md_time_zone def = UTC) (''aggregate event_count requires UTC aggregation: '' @ metric)
      (guardR (group e ''attribution_status'' = None) (''aggregate event_count forbids attribution_status: '' @ metric)
      (guardR (metric \<in> {''skan_attributed_installs'', ''skan_conversion_value_distribution'', ''aak_attributed_installs'',
            ''aak_attributed_reengagements''}
          \<and> name = (if starts_with metric ''aak_attributed_'' then ''adattributionkit_postback'' else ''skan_postback''))
        (''aggregate event_count metric and event mismatch: '' @ metric)
      (guardR (\<not> (distribution \<and> group e ''apple_conversion_bucket'' = None))
        (''SKAN conversion distribution requires apple_conversion_bucket: '' @ metric)
      (guardR (distribution \<or> group e ''apple_conversion_bucket'' = None)
        (''apple_conversion_bucket is reserved for SKAN conversion distribution: '' @ metric)
      (filterR (\<lambda>a. if event_name a \<noteq> name then Inr False
         else bindR (utc_day N (r_received_at (at_record a)) ''received_at'')
           (\<lambda>d. Inr (d = date \<and> postback_counts N e def a))) (ew_visible w)))))))"

definition plain_count :: "metric_env \<Rightarrow> metric_evaluation \<Rightarrow> evidence_view \<Rightarrow> metric_definition \<Rightarrow> string \<Rightarrow> string \<Rightarrow>
    attempt list res" where
  "plain_count N e w def name date =
     guardR (group e ''apple_conversion_bucket'' = None) (''apple_conversion_bucket requires aggregate SKAN events: '' @ md_metric_name def)
     (guardR (group e ''attribution_status'' = None \<or> name \<in> {''install'', ''deep_link_open''})
       (''attribution_status event_count requires install or deep_link_open events: '' @ md_metric_name def)
     (filterR (\<lambda>a. if event_name a \<noteq> name
          \<or> (md_fraud_policy def = Some ''net'' \<and> event_name a = ''install'' \<and> installation a \<in> set (nv_excluded N)) then Inr False
        else bindR (matchesGrouping (nv_tz N) a (me_grouping e) (attribution_statuses (nv_attributions N)) no_dimensions False False UTC)
          (\<lambda>ok. if \<not> ok then Inr False
             else bindR (dateAt (nv_tz N) (Some (r_occurred_at (at_record a))) (md_time_zone def) ''occurred_at'') (\<lambda>d. Inr (d = date))))
       (ew_visible w)))"

definition event_count_value :: "metric_env \<Rightarrow> metric_evaluation \<Rightarrow> evidence_view \<Rightarrow> metric_definition \<Rightarrow> metric_cohort \<Rightarrow>
    metric_value res" where
  "event_count_value N e w def h =
     (case group e ''metric_date'' of
        None \<Rightarrow> throw (''event_count requires metric_date grouping: '' @ md_metric_name def)
      | Some date \<Rightarrow>
          (case remdups (the_or [] (md_event_names def)) of
             [name] \<Rightarrow>
               guardR (name \<in> {''click'', ''install'', ''deep_link_open'', ''skan_postback'', ''adattributionkit_postback''})
                 (''event_count requires exactly one supported event name: '' @ md_metric_name def)
                 (bindR (if selected_daily def then daily_count N e w (mh_installs h) date
                    else if name \<in> {''skan_postback'', ''adattributionkit_postback''} then aggregate_count N e w def name date
                    else plain_count N e w def name date)
                   (\<lambda>events. Inr (defined_value (int (length events)) (mh_missing h))))
           | _ \<Rightarrow> throw (''event_count requires exactly one supported event name: '' @ md_metric_name def)))"

section \<open>The chain\<close>

definition metric_value_of :: "metric_env \<Rightarrow> metric_evaluation \<Rightarrow> evidence_view \<Rightarrow> metric_definition \<Rightarrow> metric_cohort \<Rightarrow> bool \<Rightarrow>
    metric_value res" where
  "metric_value_of N e w def h immatureHorizon =
     (let calculation = md_calculation def; m = mh_missing h in
      if immatureHorizon then Inr (undefined_value ''observation_window_not_elapsed'' m)
      else if payer_profile def then payer_value def h
      else if bundle_id def = ''metric-calendar-activity'' then calendar_activity_value N e w def m
      else if truthy (md_engagement_credit_policy def) then engagement_branch N e w def m
      else if calculation = ''revenue_sum'' then Inr (defined_value (mh_revenue h) m)
      else if cost_calculation def \<or> calculation = ''revenue_over_cost'' then cost_value N e w def h
      else if calculation \<in> {''converted_installations'', ''converted_installations_over_cohort''} then conversion_value N w def h
      else if calculation = ''active_installations_over_cohort'' then retention_value N e w def h
      else if calculation = ''revenue_over_cohort''
      then (if cohort_size (mh_installs h) = 0 then Inr (undefined_value ''empty_cohort'' m)
            else ratio (mh_revenue h) (cohort_size (mh_installs h)) m)
      else if calculation = ''cohort_size'' then Inr (defined_value (cohort_size (mh_installs h)) m)
      else if calculation = ''event_count'' then event_count_value N e w def h
      else throw (''unsupported metric calculation: '' @ calculation))"

text \<open>A missing dated rate leaves a metric that converts money without a value.\<close>

definition settle_missing :: "metric_definition \<Rightarrow> bool \<Rightarrow> metric_value \<Rightarrow> metric_value" where
  "settle_missing def immatureHorizon v =
     (let v1 = (if mv_missing v \<and> uses_fx def \<and> mv_reason v \<noteq> Some ''overlapping_cost_grains''
          then v\<lparr>mv_value := None, mv_reason := Some ''missing_fx_rate''\<rparr> else v)
      in if immatureHorizon then v1\<lparr>mv_value := None, mv_reason := Some ''observation_window_not_elapsed''\<rparr> else v1)"

section \<open>A value or a reason\<close>

text \<open>A calculation that, if it returns, returns exactly one of value and reason.\<close>

definition yields_one :: "metric_value res \<Rightarrow> bool" where
  "yields_one r \<longleftrightarrow> (\<forall>v. r = Inr v \<longrightarrow> one_of v)"

named_theorems yields_intro "every construct of a calculation keeps the result a value or a reason"

lemma yields_Inr [yields_intro]: "one_of v \<Longrightarrow> yields_one (Inr v)"
  by (simp add: yields_one_def)

lemma yields_throw [yields_intro]: "yields_one (throw msg)"
  by (simp add: yields_one_def)

lemma yields_guard [yields_intro]: "yields_one k \<Longrightarrow> yields_one (guardR b msg k)"
  by (auto simp: yields_one_def guardR_eq_Inr)

lemma yields_bind [yields_intro]: "(\<And>x. m = Inr x \<Longrightarrow> yields_one (k x)) \<Longrightarrow> yields_one (bindR m k)"
  by (auto simp: yields_one_def bindR_eq_Inr)

lemma yields_if [yields_intro]: "yields_one x \<Longrightarrow> yields_one y \<Longrightarrow> yields_one (if b then x else y)"
  by simp

lemma yields_option [yields_intro]:
  "yields_one n \<Longrightarrow> (\<And>x. yields_one (s x)) \<Longrightarrow> yields_one (case v of None \<Rightarrow> n | Some x \<Rightarrow> s x)"
  by (cases v) simp_all

lemma yields_list [yields_intro]:
  "yields_one n \<Longrightarrow> (\<And>x xs. yields_one (c x xs)) \<Longrightarrow> yields_one (case v of [] \<Rightarrow> n | x # xs \<Rightarrow> c x xs)"
  by (cases v) simp_all

lemma one_of_if [yields_intro]: "one_of x \<Longrightarrow> one_of y \<Longrightarrow> one_of (if b then x else y)"
  by simp

lemma one_of_update [simp]: "one_of (v\<lparr>mv_missing := m\<rparr>) = one_of v" "one_of (v\<lparr>mv_operands := q\<rparr>) = one_of v"
  by (simp_all add: one_of_def)

lemma credited_total_one_of [yields_intro]: "one_of (credited_total def acc)"
  by (simp add: credited_total_def)

lemmas [yields_intro] = one_of_values

lemma ratio_yields [yields_intro]: "yields_one (ratio n d m)"
  unfolding ratio_def by (intro yields_intro)

lemma payer_value_yields [yields_intro]: "yields_one (payer_value def h)"
  unfolding payer_value_def Let_def by (intro yields_intro)

lemma calendar_activity_yields [yields_intro]: "yields_one (calendar_activity_value N e w def m)"
  unfolding calendar_activity_value_def by (intro yields_intro)

lemma engagementPolicy_yields: "yields_one (engagementPolicyValue pay available refundTarget def g opens included visible)"
  unfolding engagementPolicyValue_def Let_def by (intro yields_intro)

lemma engagementValue_one_of: "engagementValue pay available def g opens visible = Inr (Some v) \<Longrightarrow> one_of v"
  by (auto simp: engagementValue_def guardR_eq_Inr bindR_eq_Inr credited_total_one_of split: if_splits)

lemma engagement_branch_yields [yields_intro]: "yields_one (engagement_branch N e w def m)"
  unfolding engagement_branch_def
proof (intro yields_intro)
  fix v assume "engagementPolicyValue (metric_money N e) (available_at N e) (\<lambda>a. resolveRefundTarget (nv_digests N) a (ew_visible w))
    def (me_grouping e) (ew_engagement w) (ew_included w) (ew_visible w) = Inr v"
  then show "one_of (v\<lparr>mv_missing := m \<or> mv_missing v\<rparr>)" using engagementPolicy_yields by (simp add: yields_one_def)
next
  fix r assume "engagementValue (metric_money N e) (available_at N e) def (me_grouping e) (ew_engagement w) (ew_visible w) = Inr r"
  then show "one_of (case r of None \<Rightarrow> undefined_value ''empty_cohort'' m | Some v \<Rightarrow> v\<lparr>mv_missing := m \<or> mv_missing v\<rparr>)"
    using engagementValue_one_of by (cases r) auto
qed

lemma outcome_cost_yields [yields_intro]: "yields_one (outcome_cost_value def h cost n)"
proof -
  have ratio: "ratio a b c = Inr v \<Longrightarrow> one_of v" for a b c v using ratio_yields by (simp add: yields_one_def)
  show ?thesis unfolding outcome_cost_value_def by (intro yields_bind yields_Inr) (auto dest: ratio split: if_splits)
qed

lemma cost_value_yields [yields_intro]: "yields_one (cost_value N e w def h)"
  unfolding cost_value_def by (intro yields_intro)

lemma conversion_yields [yields_intro]: "yields_one (conversion_value N w def h)"
  unfolding conversion_value_def by (intro yields_intro)

lemma retention_yields [yields_intro]: "yields_one (retention_value N e w def h)"
  unfolding retention_value_def by (intro yields_intro)

lemma event_count_yields [yields_intro]: "yields_one (event_count_value N e w def h)"
  unfolding event_count_value_def by (intro yields_intro)

lemma metric_value_yields: "yields_one (metric_value_of N e w def h b)"
  unfolding metric_value_of_def Let_def by (intro yields_intro)

lemma settle_missing_one_of: "one_of v \<Longrightarrow> one_of (settle_missing def b v)"
  by (simp add: settle_missing_def one_of_def)

end
