(* ===== verification/Metric_Runs.thy ===== *)
theory Metric_Runs
  imports Metric_Values
begin

text \<open>
  \<open>metricRuns\<close> of \<open>packages/attribution-core/src/metric-runs.ts\<close>: for every evaluation and every metric it
  names, the guards, the cohort, the calculation and the emitted run with its provenance. The
  theorems say that a run has exactly one of value and reason, that records received after the
  watermark, and the decisions on them, cannot change it, and that its evidence is the evidence it was computed from.
\<close>

record money_fields =
  mf_fx_rate :: "(fx_rate \<times> string \<times> string) option"
  mf_amount_scale :: "int option"
  mf_currency :: "string option"

record run_output =
  rn_id :: string
  rn_metric_name :: string
  rn_version :: string
  rn_input_snapshot_id :: string
  rn_watermark :: string
  rn_ledger_position :: string
  rn_computed_at :: string
  rn_data_freshness :: string
  rn_time_zone :: zone
  rn_rule_bundle :: rule_bundle
  rn_rounding_mode :: string
  rn_reproducibility :: string
  rn_value_type :: string
  rn_fraud_policy :: "string option"
  rn_value :: "int option"
  rn_undefined_reason :: "string option"
  rn_money :: "money_fields option"
  rn_operands :: "(int \<times> int option) option"
  rn_fx_snapshot :: "(fx_policy \<times> string) option"
  rn_ratio_scale :: "nat option"
  rn_grouping :: "(grouping \<times> string) option"
  rn_evidence_refs :: "evidence_ref list"
  rn_supersedes :: "string option"

section \<open>Provenance of a run\<close>

definition snapshot_id :: "metric_env \<Rightarrow> metric_evaluation \<Rightarrow> evidence_view \<Rightarrow> metric_definition \<Rightarrow> cost_record list \<Rightarrow> string" where
  "snapshot_id N e w def costs =
     (let X = nv_x N; rows = xd_rows X (record_rows N e (ew_included w) @ cost_rows X costs) in
      if truthy (md_engagement_credit_policy def)
      then xd_engagement X rows (engagementSnapshotRows (xd_attribution X) (ew_engagement w))
        (if bundle_id def = ''metric-engagement-policy'' then Some (xd_definition X def) else None)
      else case imported_selection N e w def of
        Some selected \<Rightarrow> xd_imported X rows (acquisitionAttributionRows X (map_values selected))
          (importedContextRows X (nv_sha_attempt N) (ew_included w) (the_or [] (md_import_provider def)))
      | None \<Rightarrow>
          if md_acquisition_basis def = Some ''selected_verified_platform''
          then xd_platform X rows (acquisitionAttributionRows X (map_values (pl_attributions (ew_platform w))))
            (selectedPlatformProofRows (xd_attribution X) (xd_platform_input X) (ew_platform w))
          else if truthy (md_acquisition_basis def)
          then xd_acquisition X rows (acquisitionAttributionRows X (map_values (ew_acquisition w)))
          else rows)"

definition ledger_position :: "metric_env \<Rightarrow> metric_evaluation \<Rightarrow> evidence_view \<Rightarrow> string" where
  "ledger_position N e w =
     (case at_last (sortCandidateAttempts (nv_digests N) (ew_included w)) of
        None \<Rightarrow> ''empty''
      | Some a \<Rightarrow> r_received_at (at_record a) @ ''|'' @ record_id a)"

definition run_reproducibility :: "metric_env \<Rightarrow> metric_evaluation \<Rightarrow> evidence_view \<Rightarrow> metric_definition \<Rightarrow> string" where
  "run_reproducibility N e w def =
     (let status = reproducibility N e (ew_included w); states = platform_states (ew_platform w) in
      if md_acquisition_basis def \<noteq> Some ''selected_verified_platform'' then status
      else if status = ''redaction_affected'' \<or> Redacted \<in> set states then ''redaction_affected''
      else if status = ''retention_affected'' \<or> Purged \<in> set states then ''retention_affected''
      else ''fully_reproducible'')"

definition money_of_run :: "metric_env \<Rightarrow> metric_definition \<Rightarrow> metric_value \<Rightarrow> money_fields option" where
  "money_of_run N def v =
     (if md_value_type def \<noteq> ''money'' \<or> mv_value v = None then None
      else Some \<lparr> mf_fx_rate = (if dated (nv_fx N) then None
                    else map_option (\<lambda>r. (r, xd_rates (nv_x N) (fp_rates (nv_fx N)), fp_policy_version (nv_fx N)))
                      (at_first (fp_rates (nv_fx N)))),
                  mf_amount_scale = md_amount_scale def, mf_currency = md_currency def \<rparr>)"

definition emit_run :: "metric_env \<Rightarrow> metric_evaluation \<Rightarrow> evidence_view \<Rightarrow> metric_definition \<Rightarrow> cost_record list \<Rightarrow>
    metric_value \<Rightarrow> run_output" where
  "emit_run N e w def costs v =
     \<lparr> rn_id = me_metric_run_id_prefix e @ '':'' @ md_metric_name def, rn_metric_name = md_metric_name def,
       rn_version = md_version def, rn_input_snapshot_id = snapshot_id N e w def costs, rn_watermark = me_watermark e,
       rn_ledger_position = ledger_position N e w, rn_computed_at = me_computed_at e, rn_data_freshness = me_data_freshness e,
       rn_time_zone = md_time_zone def, rn_rule_bundle = md_rule_bundle def, rn_rounding_mode = fp_rounding_mode (nv_fx N),
       rn_reproducibility = run_reproducibility N e w def, rn_value_type = md_value_type def,
       rn_fraud_policy = (if truthy (md_fraud_policy def) then md_fraud_policy def else None),
       rn_value = mv_value v, rn_undefined_reason = (if mv_value v = None then mv_reason v else None),
       rn_money = money_of_run N def v, rn_operands = mv_operands v,
       rn_fx_snapshot = (if dated (nv_fx N) \<and> uses_fx def then Some (nv_fx N, xd_fx (nv_x N) (nv_fx N)) else None),
       rn_ratio_scale = (if md_value_type def = ''ratio'' then md_ratio_scale def else None),
       rn_grouping = map_option (\<lambda>g. (g, xd_grouping (nv_x N) g)) (me_grouping e),
       rn_evidence_refs = sortByKey (xd_evidence (nv_x N)) (\<lambda>v. [ev_ref v, ev_tenant_id v, ev_app_id v])
         (record_evidence N e (ew_included w) @ cost_evidence costs),
       rn_supersedes = (if truthy (me_supersedes_prefix e)
         then Some (the_or [] (me_supersedes_prefix e) @ '':'' @ md_metric_name def) else None) \<rparr>"

section \<open>Runs\<close>

definition metric_date_guard :: "metric_evaluation \<Rightarrow> metric_definition \<Rightarrow> bool" where
  "metric_date_guard e def \<longleftrightarrow> bundle_id def = ''metric-calendar-activity'' \<or> truthy (md_engagement_credit_policy def)
     \<or> md_calculation def = ''event_count'' \<or> group e ''metric_date'' = None"

definition cohort_of :: "metric_env \<Rightarrow> metric_evaluation \<Rightarrow> evidence_view \<Rightarrow> metric_definition \<Rightarrow> attempt list \<Rightarrow>
    cost_record list \<times> bool \<Rightarrow> metric_cohort res" where
  "cohort_of N e w def selected costs =
     (let installs = eligible_installs N def selected in
      bindR (revenue_value N e def installs (ew_visible w)) (\<lambda>revenue.
      bindR (payer_purchases N def installs (ew_visible w)) (\<lambda>payers.
      bindR (purchase_net_value N e def installs payers (ew_visible w)) (\<lambda>net.
      Inr \<lparr> mh_installs = installs, mh_payers = payers, mh_costs = fst costs, mh_overlapping = snd costs,
        mh_revenue = selected_revenue def (fst revenue) (fst net), mh_purchase_net = fst net,
        mh_missing = snd revenue \<or> snd net \<rparr>))))"

definition metric_run :: "metric_env \<Rightarrow> metric_evaluation \<Rightarrow> evidence_view \<Rightarrow> metric_definition \<Rightarrow> run_output res" where
  "metric_run N e w def =
     bindR (metric_guards (nv_fx N) e def) (\<lambda>_.
     bindR (selected_installs N e w def) (\<lambda>selected.
     bindR (campaign_state_guards e def) (\<lambda>_.
     bindR (grouping_guard e def) (\<lambda>_.
     let costs = current_costs N e def selected in
     bindR (cohort_of N e w def selected costs) (\<lambda>h.
     bindR (horizon_closes_at def (group e ''cohort_date'')) (\<lambda>closesAt.
     let immatureHorizon = immature (me_watermark e) closesAt in
     bindR (metric_value_of N e w def h immatureHorizon) (\<lambda>v.
     guardR (metric_date_guard e def) (''metric_date grouping is reserved for event_count: '' @ md_metric_name def)
       (Inr (emit_run N e w def (fst costs) (settle_missing def immatureHorizon v))))))))))"

definition default_metric_names :: "string list" where
  "default_metric_names = [''d0_install_to_24h_ad_revenue_usd'', ''d0_utc_install_calendar_ad_revenue_usd'',
     ''d0_jst_install_calendar_ad_revenue_usd'']"

definition named_run :: "metric_env \<Rightarrow> metric_evaluation \<Rightarrow> evidence_view \<Rightarrow> metric_definition list \<Rightarrow> string \<Rightarrow> run_output res" where
  "named_run N e w definitions name =
     (case map_get (map_from (map (\<lambda>d. (md_metric_name d, d)) definitions)) name of
        None \<Rightarrow> throw (''unknown metric definition: '' @ name)
      | Some def \<Rightarrow> metric_run N e w def)"

definition evaluation_runs :: "metric_env \<Rightarrow> attempt list \<Rightarrow> fx_policy option \<Rightarrow> metric_definition list \<Rightarrow> metric_evaluation \<Rightarrow> run_output list res" where
  "evaluation_runs N all fx definitions e =
     bindR (evaluation_view N all e) (\<lambda>w.
     case fx of
       None \<Rightarrow> throw ''Cannot read properties of undefined''
     | Some policy \<Rightarrow>
         guardR (dated policy \<or> length (fp_rates policy) = 1) ''v0.2 metric runs require exactly one structured FX rate''
           (mapR (named_run N e w definitions) (the_or default_metric_names (me_metric_names e))))"

definition fx_policy_of :: "metric_input \<Rightarrow> fx_policy option res" where
  "fx_policy_of input =
     (case mi_fx_policy input of
        None \<Rightarrow> Inr None
      | Some p \<Rightarrow> if fp_rate_selection p \<noteq> None then bindR (canonicalDatedFxPolicy p) (\<lambda>c. Inr (Some c)) else Inr (Some p))"

text \<open>Stands in for an absent policy, which \<open>evaluation_runs\<close> rejects before any amount is converted.\<close>

definition absent_fx :: fx_policy where
  "absent_fx = \<lparr> fp_policy_version = [], fp_target_currency = [], fp_target_scale = 0, fp_rounding_mode = [],
     fp_rate_selection = None, fp_rates = [], fp_other_keys = [] \<rparr>"

record metric_params =
  mp_digests :: digests
  mp_x :: metric_digests
  mp_sha_attempt :: "attempt \<Rightarrow> string"
  mp_sha_run :: "run_output \<Rightarrow> string"
  mp_tz :: "int \<Rightarrow> int"
  mp_series :: "metric_definition \<Rightarrow> unit res"

definition metric_env_of :: "metric_params \<Rightarrow> metric_input \<Rightarrow> decisions \<Rightarrow> lifecycle_index \<Rightarrow> attribution list \<Rightarrow>
    string option list \<Rightarrow> fx_policy option \<Rightarrow> cost_record list \<Rightarrow> metric_env" where
  "metric_env_of P input ds lc attributions excluded fx costs =
     \<lparr> nv_digests = mp_digests P, nv_x = mp_x P, nv_sha_attempt = mp_sha_attempt P, nv_tz = mp_tz P,
       nv_decisions = ds, nv_lifecycle = lc, nv_attributions = attributions, nv_excluded = excluded, nv_fx = the_or absent_fx fx,
       nv_costs = costs, nv_platform_inputs = mi_platform_inputs input \<rparr>"

definition metricRuns :: "metric_params \<Rightarrow> metric_input \<Rightarrow> attempt list \<Rightarrow> decisions \<Rightarrow> lifecycle_index \<Rightarrow> attribution list \<Rightarrow>
    string option list \<Rightarrow> run_output list res" where
  "metricRuns P input all ds lc attributions excluded =
     bindR (fx_policy_of input) (\<lambda>fx.
     if mi_metric_evaluations input = [] then Inr []
     else
       bindR (metricDefinitions (mp_digests P) (mp_x P) (mp_series P) input) (\<lambda>definitions.
       bindR (costRecords (mp_x P) input) (\<lambda>costs.
       bindR (flatMapR (evaluation_runs (metric_env_of P input ds lc attributions excluded fx costs) all fx definitions)
           (mi_metric_evaluations input))
         (\<lambda>runs. Inr (sortByKey (mp_sha_run P) (\<lambda>r. [rn_id r]) runs)))))"

section \<open>Elimination\<close>

lemma metric_run_Inr:
  assumes "metric_run N e w def = Inr r"
  obtains selected h closesAt v where "selected_installs N e w def = Inr selected"
    and "cohort_of N e w def selected (current_costs N e def selected) = Inr h"
    and "horizon_closes_at def (group e ''cohort_date'') = Inr closesAt"
    and "metric_value_of N e w def h (immature (me_watermark e) closesAt) = Inr v"
    and "r = emit_run N e w def (fst (current_costs N e def selected)) (settle_missing def (immature (me_watermark e) closesAt) v)"
  using assms unfolding metric_run_def Let_def by (auto simp only: bindR_eq_Inr guardR_eq_Inr sum.inject)

lemma evaluation_view_Inr:
  assumes "evaluation_view N all e = Inr w"
  shows "ew_visible w = filter (available_at N e) (ew_included w)"
    and "ew_included w = filter (\<lambda>a. included_in N e a = Inr True) all"
  using assms by (auto simp: evaluation_view_def bindR_eq_Inr Let_def filterR_eq_Inr)

lemma metricRuns_mem:
  assumes "metricRuns P input all ds lc attributions excluded = Inr runs" and "r \<in> set runs"
  obtains N e w def where "e \<in> set (mi_metric_evaluations input)" and "evaluation_view N all e = Inr w"
    and "metric_run N e w def = Inr r" and "nv_lifecycle N = lc" and "nv_excluded N = excluded"
proof -
  from assms(1) obtain fx definitions costs rs where "mi_metric_evaluations input = [] \<longrightarrow> runs = []"
    and rs: "mi_metric_evaluations input \<noteq> [] \<longrightarrow>
      flatMapR (evaluation_runs (metric_env_of P input ds lc attributions excluded fx costs) all fx definitions)
        (mi_metric_evaluations input) = Inr rs \<and> runs = sortByKey (mp_sha_run P) (\<lambda>r. [rn_id r]) rs"
    by (cases "mi_metric_evaluations input = []") (auto simp: metricRuns_def bindR_eq_Inr)
  then have "r \<in> set rs" "mi_metric_evaluations input \<noteq> []" using assms(2) by auto
  with rs obtain e ys where e: "e \<in> set (mi_metric_evaluations input)" "r \<in> set ys"
    "evaluation_runs (metric_env_of P input ds lc attributions excluded fx costs) all fx definitions e = Inr ys"
    by (auto dest: flatMapR_mem)
  then obtain w policy where w: "evaluation_view (metric_env_of P input ds lc attributions excluded fx costs) all e = Inr w"
    "mapR (named_run (metric_env_of P input ds lc attributions excluded fx costs) e w definitions)
       (the_or default_metric_names (me_metric_names e)) = Inr ys"
    by (auto simp: evaluation_runs_def bindR_eq_Inr guardR_eq_Inr split: option.splits)
  from mapR_mem [OF w(2) e(2)] obtain def where "metric_run (metric_env_of P input ds lc attributions excluded fx costs) e w def = Inr r"
    by (auto simp: named_run_def split: option.splits)
  from that [OF e(1) w(1) this] show ?thesis by (simp add: metric_env_of_def)
qed

section \<open>Properties\<close>

text \<open>C33. A metric run always says something and never two things: it carries a value or a reason for having
  none, for every calculation, currency policy and privacy state.\<close>

theorem run_value_or_reason:
  assumes "metricRuns P input all ds lc attributions excluded = Inr runs" and "r \<in> set runs"
  shows "rn_value r = None \<longleftrightarrow> rn_undefined_reason r \<noteq> None"
proof -
  obtain N e w def where r: "metric_run N e w def = Inr r" by (rule metricRuns_mem [OF assms])
  obtain costs b h v where v: "metric_value_of N e w def h b = Inr v" "r = emit_run N e w def costs (settle_missing def b v)"
    by (rule metric_run_Inr [OF r])
  from metric_value_yields v(1) have "one_of (settle_missing def b v)" by (auto simp: yields_one_def intro: settle_missing_one_of)
  with v(2) show ?thesis by (auto simp: emit_run_def one_of_def)
qed

lemma filterR_filter: "(\<And>x. x \<in> set xs \<Longrightarrow> \<not> P x \<Longrightarrow> f x = Inr False) \<Longrightarrow> filterR f (filter P xs) = filterR f xs"
proof (induction xs)
  case (Cons x xs)
  then have "filterR f (filter P xs) = filterR f xs" by simp
  with Cons.prems [of x] show ?case by (cases "filterR f xs") auto
qed simp

subsection \<open>Where the decisions are read\<close>

text \<open>
  Past the records an evaluation includes, no part of a run reads the decisions: every function of the evaluation is the same
  in an environment with other decisions.
\<close>

named_theorems redecided

lemma others_redecided [redecided]:
  "nv_digests (N\<lparr>nv_decisions := ds\<rparr>) = nv_digests N"
  "nv_x (N\<lparr>nv_decisions := ds\<rparr>) = nv_x N"
  "nv_sha_attempt (N\<lparr>nv_decisions := ds\<rparr>) = nv_sha_attempt N"
  "nv_tz (N\<lparr>nv_decisions := ds\<rparr>) = nv_tz N"
  "nv_lifecycle (N\<lparr>nv_decisions := ds\<rparr>) = nv_lifecycle N"
  "nv_attributions (N\<lparr>nv_decisions := ds\<rparr>) = nv_attributions N"
  "nv_excluded (N\<lparr>nv_decisions := ds\<rparr>) = nv_excluded N"
  "nv_fx (N\<lparr>nv_decisions := ds\<rparr>) = nv_fx N"
  "nv_costs (N\<lparr>nv_decisions := ds\<rparr>) = nv_costs N"
  "nv_platform_inputs (N\<lparr>nv_decisions := ds\<rparr>) = nv_platform_inputs N"
  by simp_all

lemma state_at_redecided [redecided]: "state_at (N\<lparr>nv_decisions := ds\<rparr>) = state_at N"
  by (intro ext) (simp only: state_at_def redecided)

lemma available_at_redecided [redecided]: "available_at (N\<lparr>nv_decisions := ds\<rparr>) = available_at N"
  by (intro ext) (simp only: available_at_def redecided)

lemma record_rows_redecided [redecided]: "record_rows (N\<lparr>nv_decisions := ds\<rparr>) = record_rows N"
  by (intro ext) (simp only: record_rows_def redecided)

lemma record_evidence_redecided [redecided]: "record_evidence (N\<lparr>nv_decisions := ds\<rparr>) = record_evidence N"
  by (intro ext) (simp only: record_evidence_def redecided)

lemma reproducibility_redecided [redecided]: "reproducibility (N\<lparr>nv_decisions := ds\<rparr>) = reproducibility N"
  by (intro ext) (simp only: reproducibility_def redecided)

lemma platform_install_redecided [redecided]: "platform_install (N\<lparr>nv_decisions := ds\<rparr>) = platform_install N"
  by (intro ext) (simp only: platform_install_def redecided)

lemma acquisition_install_redecided [redecided]: "acquisition_install (N\<lparr>nv_decisions := ds\<rparr>) = acquisition_install N"
  by (intro ext) (simp only: acquisition_install_def redecided)

lemma imported_selection_redecided [redecided]: "imported_selection (N\<lparr>nv_decisions := ds\<rparr>) = imported_selection N"
  by (intro ext) (simp only: imported_selection_def redecided)

lemma calendar_installs_redecided [redecided]: "calendar_installs (N\<lparr>nv_decisions := ds\<rparr>) = calendar_installs N"
  by (intro ext) (simp only: calendar_installs_def redecided)

lemma imported_installs_redecided [redecided]: "imported_installs (N\<lparr>nv_decisions := ds\<rparr>) = imported_installs N"
  by (intro ext) (simp only: imported_installs_def redecided)

lemma selected_installs_redecided [redecided]: "selected_installs (N\<lparr>nv_decisions := ds\<rparr>) = selected_installs N"
  by (intro ext) (simp only: selected_installs_def redecided)

lemma eligible_installs_redecided [redecided]: "eligible_installs (N\<lparr>nv_decisions := ds\<rparr>) = eligible_installs N"
  by (intro ext) (simp only: eligible_installs_def redecided)

lemma current_costs_redecided [redecided]: "current_costs (N\<lparr>nv_decisions := ds\<rparr>) = current_costs N"
  by (intro ext) (simp only: current_costs_def redecided)

lemma metric_money_redecided [redecided]: "metric_money (N\<lparr>nv_decisions := ds\<rparr>) = metric_money N"
  by (intro ext) (simp only: metric_money_def redecided)

lemma add_outcome_redecided [redecided]: "add_outcome (N\<lparr>nv_decisions := ds\<rparr>) = add_outcome N"
  by (intro ext) (simp only: add_outcome_def redecided)

lemma own_outcome_redecided [redecided]: "own_outcome (N\<lparr>nv_decisions := ds\<rparr>) = own_outcome N"
  by (intro ext) (simp only: own_outcome_def redecided)

lemma revenue_value_redecided [redecided]: "revenue_value (N\<lparr>nv_decisions := ds\<rparr>) = revenue_value N"
  by (intro ext) (simp only: revenue_value_def redecided)

lemma payer_purchases_redecided [redecided]: "payer_purchases (N\<lparr>nv_decisions := ds\<rparr>) = payer_purchases N"
  by (intro ext) (simp only: payer_purchases_def redecided)

lemma refund_outcome_redecided [redecided]: "refund_outcome (N\<lparr>nv_decisions := ds\<rparr>) = refund_outcome N"
  by (intro ext) (simp only: refund_outcome_def redecided)

lemma purchase_net_value_redecided [redecided]: "purchase_net_value (N\<lparr>nv_decisions := ds\<rparr>) = purchase_net_value N"
  by (intro ext) (simp only: purchase_net_value_def redecided)

lemma utc_day_redecided [redecided]: "utc_day (N\<lparr>nv_decisions := ds\<rparr>) = utc_day N"
  by (intro ext) (simp only: utc_day_def redecided)

lemma calendar_activity_value_redecided [redecided]: "calendar_activity_value (N\<lparr>nv_decisions := ds\<rparr>) = calendar_activity_value N"
  by (intro ext) (simp only: calendar_activity_value_def redecided)

lemma engagement_branch_redecided [redecided]: "engagement_branch (N\<lparr>nv_decisions := ds\<rparr>) = engagement_branch N"
  by (intro ext) (simp only: engagement_branch_def redecided)

lemma add_cost_redecided [redecided]: "add_cost (N\<lparr>nv_decisions := ds\<rparr>) = add_cost N"
  by (intro ext) (simp only: add_cost_def redecided)

lemma outcome_events_redecided [redecided]: "outcome_events (N\<lparr>nv_decisions := ds\<rparr>) = outcome_events N"
  by (intro ext) (simp only: outcome_events_def redecided)

lemma cost_value_redecided [redecided]: "cost_value (N\<lparr>nv_decisions := ds\<rparr>) = cost_value N"
  by (intro ext) (simp only: cost_value_def redecided)

lemma convert_step_redecided [redecided]: "convert_step (N\<lparr>nv_decisions := ds\<rparr>) = convert_step N"
  by (intro ext) (simp only: convert_step_def redecided)

lemma conversion_value_redecided [redecided]: "conversion_value (N\<lparr>nv_decisions := ds\<rparr>) = conversion_value N"
  by (intro ext) (simp only: conversion_value_def redecided)

lemma activity_day_redecided [redecided]: "activity_day (N\<lparr>nv_decisions := ds\<rparr>) = activity_day N"
  by (intro ext) (simp only: activity_day_def redecided)

lemma retention_step_redecided [redecided]: "retention_step (N\<lparr>nv_decisions := ds\<rparr>) = retention_step N"
  by (intro ext) (simp only: retention_step_def redecided)

lemma retention_value_redecided [redecided]: "retention_value (N\<lparr>nv_decisions := ds\<rparr>) = retention_value N"
  by (intro ext) (simp only: retention_value_def redecided)

lemma daily_count_redecided [redecided]: "daily_count (N\<lparr>nv_decisions := ds\<rparr>) = daily_count N"
  by (intro ext) (simp only: daily_count_def redecided)

lemma postback_counts_redecided [redecided]: "postback_counts (N\<lparr>nv_decisions := ds\<rparr>) = postback_counts N"
  by (intro ext) (simp only: postback_counts_def redecided)

lemma aggregate_count_redecided [redecided]: "aggregate_count (N\<lparr>nv_decisions := ds\<rparr>) = aggregate_count N"
  by (intro ext) (simp only: aggregate_count_def redecided)

lemma plain_count_redecided [redecided]: "plain_count (N\<lparr>nv_decisions := ds\<rparr>) = plain_count N"
  by (intro ext) (simp only: plain_count_def redecided)

lemma event_count_value_redecided [redecided]: "event_count_value (N\<lparr>nv_decisions := ds\<rparr>) = event_count_value N"
  by (intro ext) (simp only: event_count_value_def redecided)

lemma metric_value_of_redecided [redecided]: "metric_value_of (N\<lparr>nv_decisions := ds\<rparr>) = metric_value_of N"
  by (intro ext) (simp only: metric_value_of_def redecided)

lemma snapshot_id_redecided [redecided]: "snapshot_id (N\<lparr>nv_decisions := ds\<rparr>) = snapshot_id N"
  by (intro ext) (simp only: snapshot_id_def redecided)

lemma ledger_position_redecided [redecided]: "ledger_position (N\<lparr>nv_decisions := ds\<rparr>) = ledger_position N"
  by (intro ext) (simp only: ledger_position_def redecided)

lemma run_reproducibility_redecided [redecided]: "run_reproducibility (N\<lparr>nv_decisions := ds\<rparr>) = run_reproducibility N"
  by (intro ext) (simp only: run_reproducibility_def redecided)

lemma money_of_run_redecided [redecided]: "money_of_run (N\<lparr>nv_decisions := ds\<rparr>) = money_of_run N"
  by (intro ext) (simp only: money_of_run_def redecided)

lemma emit_run_redecided [redecided]: "emit_run (N\<lparr>nv_decisions := ds\<rparr>) = emit_run N"
  by (intro ext) (simp only: emit_run_def redecided)

lemma cohort_of_redecided [redecided]: "cohort_of (N\<lparr>nv_decisions := ds\<rparr>) = cohort_of N"
  by (intro ext) (simp only: cohort_of_def redecided)

lemma metric_run_redecided [redecided]: "metric_run (N\<lparr>nv_decisions := ds\<rparr>) = metric_run N"
  by (intro ext) (simp only: metric_run_def redecided)

lemma named_run_redecided [redecided]: "named_run (N\<lparr>nv_decisions := ds\<rparr>) = named_run N"
  by (intro ext) (simp only: named_run_def redecided)

lemma evaluation_view_redecided:
  assumes "filterR (included_in (N\<lparr>nv_decisions := ds\<rparr>) e) all' = filterR (included_in N e) all"
  shows "evaluation_view (N\<lparr>nv_decisions := ds\<rparr>) all' e = evaluation_view N all e"
  by (simp only: evaluation_view_def assms redecided)

lemma evaluation_runs_redecided:
  assumes "filterR (included_in (N\<lparr>nv_decisions := ds\<rparr>) e) all' = filterR (included_in N e) all"
  shows "evaluation_runs (N\<lparr>nv_decisions := ds\<rparr>) all' fx definitions e = evaluation_runs N all fx definitions e"
  by (simp only: evaluation_runs_def evaluation_view_redecided [OF assms] redecided)

definition timely :: "metric_input \<Rightarrow> attempt \<Rightarrow> bool" where
  "timely input a \<longleftrightarrow> (\<exists>e \<in> set (mi_metric_evaluations input). r_received_at (at_record a) \<le> me_watermark e)"

definition decided :: "metric_params \<Rightarrow> decisions \<Rightarrow> attempt list \<Rightarrow> bool" where
  "decided P ds all \<longleftrightarrow> (\<forall>a \<in> set all. \<exists>d. decisionFor (mp_digests P) ds a = Inr d)"

lemma included_timely:
  assumes "decided P ds all" and "e \<in> set (mi_metric_evaluations input)"
  shows "filterR (included_in (metric_env_of P input ds lc attributions excluded fx costs) e) all
    = filterR (included_in (metric_env_of P input ds lc attributions excluded fx costs) e) (filter (timely input) all)"
  using assms by (intro filterR_filter [symmetric])
    (auto simp: included_in_def accepted_unique_def metric_env_of_def bindR_def decided_def timely_def)

lemma included_same_decisions:
  assumes "\<And>a. a \<in> set as \<Longrightarrow> decisionFor (nv_digests N) ds a = decisionFor (nv_digests N) (nv_decisions N) a"
  shows "filterR (included_in (N\<lparr>nv_decisions := ds\<rparr>) e) as = filterR (included_in N e) as"
  using assms by (induction as) (simp_all add: included_in_def accepted_unique_def)

text \<open>C34. Late data cannot change a run, with the attributions, the privacy states and the exclusions held fixed: of the record
  list and the decisions, a run depends only on the records received by the watermark of some evaluation and on the decisions
  on those. Two inputs with the same such records, and the same decisions on them, give the same runs, whatever came later and
  however it was decided, as long as every record is decided.\<close>

theorem late_records_ignored:
  assumes "filter (timely input) all' = filter (timely input) all"
    and "\<forall>a \<in> set (filter (timely input) all). decisionFor (mp_digests P) ds' a = decisionFor (mp_digests P) ds a"
    and "decided P ds all" "decided P ds' all'"
  shows "metricRuns P input all' ds' lc attributions excluded = metricRuns P input all ds lc attributions excluded"
proof -
  have "evaluation_runs (metric_env_of P input ds' lc attributions excluded fx costs) all' fx definitions e
      = evaluation_runs (metric_env_of P input ds lc attributions excluded fx costs) all fx definitions e"
    if e: "e \<in> set (mi_metric_evaluations input)" for fx costs definitions e
  proof -
    let ?N = "metric_env_of P input ds lc attributions excluded fx costs"
    have N': "metric_env_of P input ds' lc attributions excluded fx costs = ?N\<lparr>nv_decisions := ds'\<rparr>" by (simp add: metric_env_of_def)
    have "filterR (included_in (?N\<lparr>nv_decisions := ds'\<rparr>) e) (filter (timely input) all)
        = filterR (included_in ?N e) (filter (timely input) all)"
      by (rule included_same_decisions) (use assms(2) in \<open>simp add: metric_env_of_def\<close>)
    moreover have "filterR (included_in (?N\<lparr>nv_decisions := ds'\<rparr>) e) all'
        = filterR (included_in (?N\<lparr>nv_decisions := ds'\<rparr>) e) (filter (timely input) all)"
      using included_timely [OF assms(4) e, of lc attributions excluded fx costs] unfolding N' assms(1) .
    ultimately have "filterR (included_in (?N\<lparr>nv_decisions := ds'\<rparr>) e) all' = filterR (included_in ?N e) all"
      using included_timely [OF assms(3) e, of lc attributions excluded fx costs] by (simp only:)
    then show ?thesis unfolding N' by (rule evaluation_runs_redecided)
  qed
  then have "flatMapR (evaluation_runs (metric_env_of P input ds' lc attributions excluded fx costs) all' fx definitions) (mi_metric_evaluations input)
      = flatMapR (evaluation_runs (metric_env_of P input ds lc attributions excluded fx costs) all fx definitions) (mi_metric_evaluations input)"
    for fx costs definitions unfolding flatMapR_def by (simp cong: mapR_cong)
  note runs = this
  show ?thesis unfolding metricRuns_def by (simp only: runs)
qed

text \<open>A run called fully reproducible used every record it stands on: none of the records received by its
  watermark was hidden from it.\<close>

theorem reproducible_run_complete:
  assumes "metricRuns P input all ds lc attributions excluded = Inr runs" and "r \<in> set runs"
    and "rn_reproducibility r = ''fully_reproducible''" and "Available \<notin> set (map_values lc)"
  shows "\<exists>N e w def. e \<in> set (mi_metric_evaluations input) \<and> evaluation_view N all e = Inr w \<and> metric_run N e w def = Inr r
    \<and> ew_visible w = ew_included w"
proof -
  obtain N e w def where e: "e \<in> set (mi_metric_evaluations input)" and w: "evaluation_view N all e = Inr w"
    and r: "metric_run N e w def = Inr r" and lc: "nv_lifecycle N = lc"
    by (rule metricRuns_mem [OF assms(1,2)])
  obtain costs v where "r = emit_run N e w def costs v" by (rule metric_run_Inr [OF r])
  with assms(3) have rep: "reproducibility N e (ew_included w) = ''fully_reproducible''"
    by (auto simp: emit_run_def run_reproducibility_def reproducibility_def Let_def split: if_splits)
  have "available_at N e a" if "a \<in> set (ew_included w)" for a
  proof (rule ccontr)
    assume "\<not> available_at N e a"
    then obtain s where s: "me_privacy_after e" "map_get lc (attemptEvidenceKey a) = Some s"
      by (auto simp: available_at_def map_has_iff lc)
    with assms(4) have "s \<noteq> Available" using map_get_value by metis
    with s that rep show False by (cases s) (force simp: reproducibility_def Let_def lc split: if_splits)+
  qed
  with evaluation_view_Inr(1) [OF w] have "ew_visible w = ew_included w" by simp
  with e w r show ?thesis by blast
qed

text \<open>A net cohort leaves out every installation whose click was excluded: the cohort size of a net definition is
  the number of selected installations that are not excluded, each counted once.\<close>

theorem net_cohort_size:
  assumes "metric_run N e w def = Inr r" and "rn_value r = Some v"
    and "md_calculation def = ''cohort_size''" and "md_fraud_policy def = Some ''net''"
    and "\<not> payer_profile def" and "bundle_id def \<noteq> ''metric-calendar-activity''" and "\<not> truthy (md_engagement_credit_policy def)"
  shows "\<exists>selected. selected_installs N e w def = Inr selected
    \<and> v = int (card (installation ` {a \<in> set selected. installation a \<notin> set (nv_excluded N)}))"
proof -
  obtain selected h b u where s: "selected_installs N e w def = Inr selected"
    and h: "cohort_of N e w def selected (current_costs N e def selected) = Inr h"
    and u: "metric_value_of N e w def h b = Inr u" and r: "r = emit_run N e w def (fst (current_costs N e def selected)) (settle_missing def b u)"
    by (rule metric_run_Inr [OF assms(1)])
  have "mv_value (settle_missing def b u) = Some v" using assms(2) r by (simp add: emit_run_def)
  then have v: "\<not> b" "mv_value u = Some v" by (auto simp: settle_missing_def Let_def split: if_splits)
  have "mh_installs h = eligible_installs N def selected" using h by (auto simp: cohort_of_def Let_def bindR_eq_Inr)
  with u v assms(3-7) have "v = cohort_size (eligible_installs N def selected)"
    by (auto simp: metric_value_of_def Let_def cost_calculation_def)
  then have "v = int (card (installation ` {a \<in> set selected. installation a \<notin> set (nv_excluded N)}))"
    by (simp add: cohort_size_def eligible_installs_def assms(4) length_remdups_card_conv)
  with s show ?thesis by blast
qed

section \<open>Rates\<close>

lemma anchor_of_mem: "anchor_of installs a = Some i \<Longrightarrow> i \<in> set installs \<and> installation i \<in> installation ` set installs"
  by (auto simp: anchor_of_def find_Some_iff split: if_splits)

lemma foldR_converted:
  assumes "foldR (convert_step N def installs) xs as = Inr ys" and "distinct xs" and "set xs \<subseteq> installation ` set installs"
  shows "distinct ys \<and> set ys \<subseteq> installation ` set installs"
  using assms
proof (induction as arbitrary: xs)
  case (Cons a as)
  then obtain zs where zs: "convert_step N def installs xs a = Inr zs" "foldR (convert_step N def installs) zs as = Inr ys"
    by (auto simp: bindR_eq_Inr)
  have "distinct zs \<and> set zs \<subseteq> installation ` set installs"
    using zs(1) Cons.prems(2,3) by (auto simp: convert_step_def bindR_eq_Inr dest: anchor_of_mem split: option.splits if_splits)
  with Cons.IH [OF zs(2)] show ?case by blast
qed simp

lemma foldR_retained:
  assumes "foldR (retention_step N def installs) xs as = Inr ys" and "distinct xs" and "set xs \<subseteq> installation ` set installs"
  shows "distinct ys \<and> set ys \<subseteq> installation ` set installs"
  using assms
proof (induction as arbitrary: xs)
  case (Cons a as)
  then obtain zs where zs: "retention_step N def installs xs a = Inr zs" "foldR (retention_step N def installs) zs as = Inr ys"
    by (auto simp: bindR_eq_Inr)
  have "distinct zs \<and> set zs \<subseteq> installation ` set installs"
    using zs(1) Cons.prems(2,3) by (auto simp: retention_step_def bindR_eq_Inr dest: anchor_of_mem split: option.splits if_splits)
  with Cons.IH [OF zs(2)] show ?case by blast
qed simp

lemma rate_bounds:
  assumes "distinct ys" and "set ys \<subseteq> installation ` set installs" and "ratio (int (length ys) * s) (cohort_size installs) m = Inr v"
    and "0 \<le> s"
  shows "\<exists>x. mv_value v = Some x \<and> 0 \<le> x \<and> x \<le> s"
proof -
  have le: "int (length ys) \<le> cohort_size installs"
    using card_mono [OF _ assms(2)] by (simp add: cohort_size_def length_remdups_card_conv distinct_card [OF assms(1), symmetric])
  from assms(3) obtain x where x: "roundHalfEven (int (length ys) * s) (cohort_size installs) = Inr x" "mv_value v = Some x"
    by (auto simp: ratio_def bindR_eq_Inr)
  note pos = roundHalfEven_nearest(1) [OF x(1)]
  have "x \<le> s"
    using roundHalfEven_mono [OF _ x(1) roundHalfEven_exact [OF pos, of s]] mult_left_mono [OF le assms(4)] by (simp add: mult.commute)
  moreover have "0 \<le> x"
    using roundHalfEven_mono [OF _ roundHalfEven_exact [OF pos, of 0] x(1)] assms(4) by simp
  ultimately show ?thesis using x(2) by blast
qed

text \<open>A rate is a rate: conversion and retention never exceed one (a million, or the scale of the definition)
  and are never negative, and the conversion count never exceeds the cohort.\<close>

theorem rates_bounded:
  assumes "mv_value v = Some x"
  shows "(conversion_value N w def h = Inr v \<longrightarrow> 0 \<le> x
      \<and> x \<le> (if md_calculation def = ''converted_installations'' then cohort_size (mh_installs h) else 1000000))
    \<and> (retention_value N e w def h = Inr v \<longrightarrow> 0 \<le> x \<and> x \<le> 10 ^ the_or 6 (md_ratio_scale def))"
proof (intro conjI impI)
  assume c: "conversion_value N w def h = Inr v"
  then obtain ys where ys: "foldR (convert_step N def (mh_installs h)) []
      (filter (\<lambda>a. event_name a = ''custom_event'' \<and> p_event_key (payload_of a) = md_conversion_event_key def) (ew_visible w)) = Inr ys"
    "(if md_calculation def = ''converted_installations'' then Inr (defined_value (int (length ys)) (mh_missing h))
      else ratio (int (length ys) * 1000000) (cohort_size (mh_installs h)) (mh_missing h)) = Inr v"
    using assms by (auto simp: conversion_value_def bindR_eq_Inr split: if_splits)
  note d = foldR_converted [OF ys(1), simplified]
  have "0 \<le> x \<and> x \<le> (if md_calculation def = ''converted_installations'' then cohort_size (mh_installs h) else 1000000)"
  proof (cases "md_calculation def = ''converted_installations''")
    case True
    with ys(2) assms have "x = int (length ys)" by auto
    with True d card_mono [of "installation ` set (mh_installs h)" "set ys"] show ?thesis
      by (simp add: cohort_size_def length_remdups_card_conv distinct_card)
  next
    case False
    with ys(2) rate_bounds [of ys "mh_installs h" 1000000] d assms show ?thesis by fastforce
  qed
  then show "0 \<le> x" "x \<le> (if md_calculation def = ''converted_installations'' then cohort_size (mh_installs h) else 1000000)" by blast+
next
  assume c: "retention_value N e w def h = Inr v"
  then obtain as ys where ys: "foldR (retention_step N def (mh_installs h)) [] as = Inr ys"
    "ratio (int (length ys) * 10 ^ the_or 6 (md_ratio_scale def)) (cohort_size (mh_installs h)) (mh_missing h) = Inr v"
    using assms by (auto simp: retention_value_def bindR_eq_Inr split: if_splits)
  from rate_bounds [OF _ _ ys(2)] foldR_retained [OF ys(1)] assms show "0 \<le> x" "x \<le> 10 ^ the_or 6 (md_ratio_scale def)" by auto
qed

section \<open>A concrete evaluation\<close>

definition sample_metric_digests :: metric_digests where
  "sample_metric_digests = \<lparr> xd_definition = md_metric_name, xd_cost = cs_id, xd_cost_dimensions = (\<lambda>ds. concat (map snd ds)),
     xd_attribution = an_id, xd_import_context = (\<lambda>c. []), xd_platform_input = (\<lambda>p. []), xd_evidence = ev_ref,
     xd_rows = (\<lambda>rows. concat (concat rows)), xd_engagement = (\<lambda>s rows b. s), xd_acquisition = (\<lambda>s rows. s),
     xd_imported = (\<lambda>s rows ctx. s), xd_platform = (\<lambda>s rows proofs. s), xd_rates = (\<lambda>rates. []), xd_fx = fp_policy_version,
     xd_grouping = (\<lambda>g. concat (map snd g)) \<rparr>"

definition sample_params :: metric_params where
  "sample_params = \<lparr> mp_digests = sample_digests, mp_x = sample_metric_digests, mp_sha_attempt = (\<lambda>a. record_id a),
     mp_sha_run = rn_id, mp_tz = (\<lambda>t. 9 * 3600000), mp_series = (\<lambda>d. Inr ()) \<rparr>"

definition sample_fx :: fx_policy where
  "sample_fx = absent_fx\<lparr>fp_policy_version := ''1'', fp_target_currency := ''USD'', fp_target_scale := 6,
     fp_rates := [\<lparr> fx_currency = ''USD'', fx_effective_date = [], fx_rate_unscaled = 1, fx_rate_scale = 0, fx_source = [],
       fx_as_of = [], fx_other_keys = [] \<rparr>]\<rparr>"

definition sample_size_metric :: metric_definition where
  "sample_size_metric = (referenceAdRevenue sample_digests ''cohort'' UTC ''elapsed'')
     \<lparr>md_value_type := ''count'', md_calculation := ''cohort_size'', md_fraud_policy := Some ''net''\<rparr>"

definition sample_evaluation :: "string \<Rightarrow> metric_evaluation" where
  "sample_evaluation watermark = \<lparr> me_metric_run_id_prefix = ''run'', me_watermark = watermark,
     me_privacy_after = True, me_grouping = None, me_metric_names = Some [''cohort''],
     me_computed_at = watermark, me_data_freshness = ''complete'', me_supersedes_prefix = None \<rparr>"

definition sample_metric_input :: "string \<Rightarrow> metric_input" where
  "sample_metric_input watermark = \<lparr> mi_metric_definitions = [sample_size_metric],
     mi_metric_evaluations = [sample_evaluation watermark], mi_fx_policy = Some sample_fx, mi_cost_records = [], mi_platform_inputs = [] \<rparr>"

definition sample_install :: "string \<Rightarrow> attempt" where
  "sample_install i = ledger_attempt i (blank_attempt ''t'' ''a'' i ''install'' (blank_payload\<lparr>p_installation_id := Some i\<rparr>))"

definition sample_runs :: "string \<Rightarrow> run_output list res" where
  "sample_runs watermark = metricRuns sample_params (sample_metric_input watermark) [sample_install ''i'', sample_install ''j'']
     [] [] [] [Some ''j'']"

definition sample_env :: metric_env where
  "sample_env = metric_env_of sample_params (sample_metric_input ''2026-01-11T00:00:00.000Z'') [] [] [] [Some ''j''] (Some sample_fx) []"

lemma sample_runs_emitted:
  "case sample_runs ''2026-01-11T00:00:00.000Z'' of
     Inr [r] \<Rightarrow> rn_value r = Some 1 \<and> rn_reproducibility r = ''fully_reproducible'' | _ \<Rightarrow> False"
  by code_simp

lemma sample_run:
  obtains r where "sample_runs ''2026-01-11T00:00:00.000Z'' = Inr [r]" "rn_value r = Some 1"
    "rn_reproducibility r = ''fully_reproducible''"
  using sample_runs_emitted by (auto split: sum.splits list.splits)

lemma sample_view_runs:
  "case evaluation_view sample_env [sample_install ''i'', sample_install ''j''] (sample_evaluation ''2026-01-11T00:00:00.000Z'') of
     Inr w \<Rightarrow> (case metric_run sample_env (sample_evaluation ''2026-01-11T00:00:00.000Z'') w sample_size_metric of
       Inr r \<Rightarrow> rn_value r = Some 1 | Inl m \<Rightarrow> False)
   | Inl m \<Rightarrow> False"
  by code_simp

lemma sample_late: "filter (\<lambda>a. r_received_at (at_record a) \<le> ''2026-01-09T00:00:00.000Z'') [sample_install ''i''] = []"
  by code_simp

definition sample_conversion_metric :: metric_definition where
  "sample_conversion_metric = sample_size_metric\<lparr>md_calculation := ''converted_installations_over_cohort'',
     md_window_type := ''elapsed'', md_conversion_event_key := Some ''buy''\<rparr>"

definition sample_view :: evidence_view where
  "sample_view = \<lparr> ew_included = [], ew_visible = [ledger_attempt ''e'' (blank_attempt ''t'' ''a'' ''e'' ''custom_event''
       (blank_payload\<lparr>p_installation_id := Some ''i'', p_event_key := Some ''buy''\<rparr>))],
     ew_engagement = [], ew_platform = \<lparr> pl_attributions = [], pl_proofs = [] \<rparr>, ew_acquisition = [], ew_acquisition_statuses = [],
     ew_platform_installs = [], ew_acquisition_installs = [], ew_installs = [] \<rparr>"

definition sample_cohort :: metric_cohort where
  "sample_cohort = \<lparr> mh_installs = [sample_install ''i'', sample_install ''j''], mh_payers = [], mh_costs = [], mh_overlapping = False,
     mh_revenue = 0, mh_purchase_net = 0, mh_missing = False \<rparr>"

lemma sample_conversion:
  "case conversion_value sample_env sample_view sample_conversion_metric sample_cohort of
     Inr v \<Rightarrow> mv_value v = Some 500000 | Inl m \<Rightarrow> False"
  by code_simp

theorem run_value_or_reason_witness:
  "\<exists>r. sample_runs ''2026-01-11T00:00:00.000Z'' = Inr [r] \<and> rn_value r = Some 1 \<and> rn_undefined_reason r = None"
proof -
  obtain r where r: "sample_runs ''2026-01-11T00:00:00.000Z'' = Inr [r]" "rn_value r = Some 1" by (rule sample_run)
  with run_value_or_reason [OF r(1) [unfolded sample_runs_def], of r] show ?thesis by simp
qed

theorem late_records_ignored_witness:
  "metricRuns sample_params (sample_metric_input ''2026-01-09T00:00:00.000Z'') [sample_install ''i''] [] [] [] []
     = metricRuns sample_params (sample_metric_input ''2026-01-09T00:00:00.000Z'') [] [] [] [] []"
proof -
  let ?i = "sample_metric_input ''2026-01-09T00:00:00.000Z''"
  have late: "filter (timely ?i) [sample_install ''i''] = []"
    using sample_late by (simp add: sample_metric_input_def sample_evaluation_def timely_def [abs_def] del: filter.simps)
  have "decided sample_params [] [sample_install ''i'']"
    by (simp add: decided_def decisionFor_def sample_install_def ledger_attempt_def)
  from late_records_ignored [of ?i "[sample_install ''i'']" "[]" sample_params "[]" "[]", OF _ _ _ this] late
  show ?thesis by (simp add: decided_def)
qed

theorem reproducible_run_complete_witness:
  "\<exists>N e w def r. evaluation_view N [sample_install ''i'', sample_install ''j''] e = Inr w \<and> metric_run N e w def = Inr r
    \<and> ew_visible w = ew_included w"
proof -
  obtain r where r: "sample_runs ''2026-01-11T00:00:00.000Z'' = Inr [r]" "rn_reproducibility r = ''fully_reproducible''"
    by (rule sample_run)
  from reproducible_run_complete [OF r(1) [unfolded sample_runs_def] _ r(2)] show ?thesis by (simp add: map_values_def) blast
qed

theorem net_cohort_size_witness:
  "\<exists>w selected. selected_installs sample_env (sample_evaluation ''2026-01-11T00:00:00.000Z'') w sample_size_metric = Inr selected
    \<and> card (installation ` {a \<in> set selected. installation a \<notin> set (nv_excluded sample_env)}) = 1"
proof -
  obtain w r where r: "metric_run sample_env (sample_evaluation ''2026-01-11T00:00:00.000Z'') w sample_size_metric = Inr r" "rn_value r = Some 1"
    using sample_view_runs by (auto split: sum.splits)
  from net_cohort_size [OF r] show ?thesis
    by (fastforce simp: sample_size_metric_def referenceAdRevenue_def payer_profile_def bundle_id_def truthy_def)
qed

theorem rates_bounded_witness:
  "\<exists>v. conversion_value sample_env sample_view sample_conversion_metric sample_cohort = Inr v \<and> mv_value v = Some 500000
    \<and> (500000 :: int) \<le> 1000000"
proof -
  obtain v where v: "conversion_value sample_env sample_view sample_conversion_metric sample_cohort = Inr v" "mv_value v = Some 500000"
    using sample_conversion by (auto split: sum.splits)
  from rates_bounded [OF v(2), of sample_env sample_view sample_conversion_metric sample_cohort undefined] v show ?thesis
    by (auto simp: sample_conversion_metric_def)
qed

end
