(* ===== verification/Evaluator.thy ===== *)
theory Evaluator
  imports Metric_Runs Evidence_Artifacts Reconciliation Decide Assertions
begin

text \<open>
  \<open>evaluate\<close> of \<open>packages/attribution-core/src/evaluator.ts\<close>: the pure orchestration of the components, from the
  delivered batches to the output. The factory of the candidate provider is an argument, as in the
  source. The lemmas state what holds end to end: the indexed provider and the order of delivery do not matter,
  each logical scope has one logical event, and removed evidence is not emitted.
\<close>

record evaluation_input =
  ei_batches :: "batch list option"
  ei_server :: server
  ei_records :: "event_record list"
  ei_pre_ingestion_rejections :: "pre_ingestion_item list"
  ei_privacy_requests :: "privacy_request list"
  ei_corrections :: "correction list"
  ei_retention_expirations :: "retention_expiration list"
  ei_source_days :: "source_day_aggregate list"
  ei_metrics :: metric_input
  ei_reconciliations :: "reconciliation_input list"

record evaluation_params =
  vp_metric :: metric_params
  vp_artifact :: artifact_digests
  vp_fraud :: "fraud_decision \<Rightarrow> string"
  vp_matching_key :: "string \<Rightarrow> string \<Rightarrow> string \<Rightarrow> string"
  vp_reconciliation :: "reconciliation \<Rightarrow> string"

record evaluation_output =
  eo_ingestion :: ingestion_output
  eo_corrections :: "correction list"
  eo_privacy_requests :: "privacy_request list"
  eo_privacy_tombstones :: "privacy_tombstone list"
  eo_attributions :: "attribution list"
  eo_cost_records :: "cost_record list"
  eo_metric_definitions :: "metric_definition list"
  eo_metric_runs :: "run_output list"
  eo_fraud_decisions :: "fraud_decision list"
  eo_rejections :: "rejection list"
  eo_reconciliation :: "reconciliation list"

abbreviation vp_digests :: "evaluation_params \<Rightarrow> digests" where "vp_digests P \<equiv> mp_digests (vp_metric P)"

text \<open>A timestamp that does not parse becomes a rejection; every other error ends the evaluation.\<close>

definition decide_or_invalid :: "digests \<Rightarrow> candidate_provider \<Rightarrow> attempt \<Rightarrow> ingestion_decision res" where
  "decide_or_invalid D candidates a =
     (case decide D a candidates of
        Inl (Timestamp_Invalid field) \<Rightarrow> timestampInvalidDecision a
      | r \<Rightarrow> r)"

definition decisions_of :: "digests \<Rightarrow> attempt list \<Rightarrow> ingestion_decision list \<Rightarrow> decisions" where
  "decisions_of D all ds = map_from (zip (map (attemptDecisionKey D) all) ds)"

definition accepted_candidate :: "digests \<Rightarrow> decisions \<Rightarrow> attempt \<Rightarrow> bool res" where
  "accepted_candidate D ds a = (if semanticCandidate a then accepted_unique D ds a else Inr False)"

definition source_only_bundle :: "digests \<Rightarrow> bound_fraud" where
  "source_only_bundle D = \<lparr> bf_definition = DEFAULT_FRAUD_BUNDLE, bf_hash = sha_fraud_identity D DEFAULT_FRAUD_BUNDLE \<rparr>"

definition delivered :: "evaluation_params \<Rightarrow> evaluation_input \<Rightarrow> attempt list" where
  "delivered P i = sortCandidateAttempts (vp_digests P) (attempts (ei_batches i) (ei_server i) (ei_records i))"

definition output_of :: "evaluation_params \<Rightarrow> evaluation_input \<Rightarrow> attempt list \<Rightarrow> candidate_provider \<Rightarrow> ingestion_decision list \<Rightarrow>
    attempt list \<Rightarrow> attempt list \<Rightarrow> evaluation_output res" where
  "output_of P i all candidates decisionsList acceptedCandidates acceptedUnique =
     (let D = vp_digests P; X = mp_x (vp_metric P); ds = decisions_of D all decisionsList;
          pre = map preIngestionDecision (ei_pre_ingestion_rejections i);
          lc = privacyIndex (ei_privacy_requests i) (ei_retention_expirations i);
          privacy = privacyArtifacts D (vp_artifact P) (ei_corrections i) (ei_privacy_requests i) acceptedUnique acceptedCandidates in
      bindR (ingestionArtifacts D (vp_artifact P) all ds pre acceptedUnique lc) (\<lambda>ingestion.
      bindR (initialAttributionArtifacts D (xd_attribution X) acceptedUnique acceptedCandidates candidates ds lc) (\<lambda>initial.
      bindR (fraudArtifacts D (xd_attribution X) (vp_fraud P) (ei_source_days i) acceptedUnique acceptedCandidates
          (fst initial) (snd initial) (source_only_bundle D)) (\<lambda>fraud.
      bindR (costRecords X (ei_metrics i)) (\<lambda>costs.
      bindR (metricDefinitions D X (mp_series (vp_metric P)) (ei_metrics i)) (\<lambda>definitions.
      bindR (metricRuns (vp_metric P) (ei_metrics i) all ds lc (fo_attributions fraud) (fo_excludedInstallationIds fraud)) (\<lambda>runs.
      bindR (reconciliationResults (vp_matching_key P) (vp_reconciliation P) (ei_reconciliations i) acceptedUnique) (\<lambda>reconciliation.
        Inr \<lparr> eo_ingestion = ingestion,
          eo_corrections = sortByKey (ad_correction (vp_artifact P)) (\<lambda>c. [co_id c, co_tenant_id c, co_app_id c]) (po_corrections privacy),
          eo_privacy_requests = po_privacy_requests privacy, eo_privacy_tombstones = po_privacy_tombstones privacy,
          eo_attributions = fo_attributions fraud, eo_cost_records = costs, eo_metric_definitions = definitions,
          eo_metric_runs = runs, eo_fraud_decisions = fo_fraud_decisions fraud,
          eo_rejections = rejectionArtifacts (vp_artifact P) decisionsList pre, eo_reconciliation = reconciliation \<rparr>))))))))"

definition evaluate :: "evaluation_params \<Rightarrow> (attempt list \<Rightarrow> candidate_provider) \<Rightarrow> evaluation_input \<Rightarrow> evaluation_output res" where
  "evaluate P factory i =
     (let D = vp_digests P; all = delivered P i; candidates = factory all in
      bindR (assertImportProviderContexts all) (\<lambda>_.
      bindR (assertRevenueAnchorSources all) (\<lambda>_.
      bindR (assertScopedReferences (ei_privacy_requests i) (ei_corrections i) (ei_retention_expirations i) (cp_all candidates)) (\<lambda>_.
      bindR (mapR (decide_or_invalid D candidates) all) (\<lambda>decisionsList.
      let ds = decisions_of D all decisionsList in
      bindR (filterR (accepted_candidate D ds) (cp_all candidates)) (\<lambda>acceptedCandidates.
      bindR (assertInstallationAnchors D acceptedCandidates ds) (\<lambda>_.
      bindR (filterR (accepted_unique D ds) all) (\<lambda>acceptedUnique.
        output_of P i all candidates decisionsList acceptedCandidates acceptedUnique))))))))"

section \<open>The provider and the order of delivery\<close>

lemma evaluation_with_index: "evaluate P IndexedCandidateProvider i = evaluate P FixtureArrayCandidateProvider i"
proof -
  have "IndexedCandidateProvider = FixtureArrayCandidateProvider" by (rule ext) (rule providers_agree)
  then show ?thesis by simp
qed

text \<open>C2. The order of delivery does not matter: inputs that deliver the same attempts, no two with the same sort key,
  evaluate to the same output.\<close>

theorem evaluation_order_independent:
  assumes "mset (attempts bs s rs) = mset (attempts (ei_batches i) (ei_server i) (ei_records i))"
    and "inj_on (candidateAttemptSortKey (vp_digests P)) (set (attempts bs s rs))"
  shows "evaluate P factory (i\<lparr>ei_batches := bs, ei_server := s, ei_records := rs\<rparr>) = evaluate P factory i"
proof -
  have "delivered P (i\<lparr>ei_batches := bs, ei_server := s, ei_records := rs\<rparr>) = delivered P i"
    unfolding delivered_def using sortCandidateAttempts_perm [OF assms] by simp
  then show ?thesis by (simp add: evaluate_def output_of_def)
qed

section \<open>Accepted attempts\<close>

lemma output_of_Inr:
  "output_of P i all candidates dl cs us = Inr out \<Longrightarrow>
    ingestionArtifacts (vp_digests P) (vp_artifact P) all (decisions_of (vp_digests P) all dl)
      (map preIngestionDecision (ei_pre_ingestion_rejections i)) us
      (privacyIndex (ei_privacy_requests i) (ei_retention_expirations i)) = Inr (eo_ingestion out)
    \<and> (\<exists>fraud :: fraud_output. metricRuns (vp_metric P) (ei_metrics i) all (decisions_of (vp_digests P) all dl)
      (privacyIndex (ei_privacy_requests i) (ei_retention_expirations i)) (eo_attributions out) (fo_excludedInstallationIds fraud)
      = Inr (eo_metric_runs out))"
  unfolding output_of_def Let_def by (auto simp: bindR_eq_Inr)

lemma evaluate_Inr:
  assumes "evaluate P factory i = Inr out"
  obtains dl cs us and fraud :: fraud_output where "mapR (decide_or_invalid (vp_digests P) (factory (delivered P i))) (delivered P i) = Inr dl"
    and "filterR (accepted_candidate (vp_digests P) (decisions_of (vp_digests P) (delivered P i) dl)) (cp_all (factory (delivered P i))) = Inr cs"
    and "filterR (accepted_unique (vp_digests P) (decisions_of (vp_digests P) (delivered P i) dl)) (delivered P i) = Inr us"
    and "ingestionArtifacts (vp_digests P) (vp_artifact P) (delivered P i) (decisions_of (vp_digests P) (delivered P i) dl)
      (map preIngestionDecision (ei_pre_ingestion_rejections i)) us
      (privacyIndex (ei_privacy_requests i) (ei_retention_expirations i)) = Inr (eo_ingestion out)"
    and "assertInstallationAnchors (vp_digests P) cs (decisions_of (vp_digests P) (delivered P i) dl) = Inr ()"
    and "metricRuns (vp_metric P) (ei_metrics i) (delivered P i) (decisions_of (vp_digests P) (delivered P i) dl)
      (privacyIndex (ei_privacy_requests i) (ei_retention_expirations i)) (eo_attributions out) (fo_excludedInstallationIds fraud)
      = Inr (eo_metric_runs out)"
proof -
  from assms obtain dl cs us where
    "mapR (decide_or_invalid (vp_digests P) (factory (delivered P i))) (delivered P i) = Inr dl"
    "filterR (accepted_candidate (vp_digests P) (decisions_of (vp_digests P) (delivered P i) dl)) (cp_all (factory (delivered P i))) = Inr cs"
    "assertInstallationAnchors (vp_digests P) cs (decisions_of (vp_digests P) (delivered P i) dl) = Inr ()"
    "filterR (accepted_unique (vp_digests P) (decisions_of (vp_digests P) (delivered P i) dl)) (delivered P i) = Inr us"
    and out: "output_of P i (delivered P i) (factory (delivered P i)) dl cs us = Inr out"
    unfolding evaluate_def Let_def by (auto simp: bindR_eq_Inr)
  moreover note output_of_Inr [OF out]
  ultimately show thesis using that by blast
qed

lemma decisions_of_get:
  assumes "mapR f all = Inr dl" and "a \<in> set all"
  shows "\<exists>b d. b \<in> set all \<and> attemptDecisionKey D b = attemptDecisionKey D a \<and> f b = Inr d
    \<and> map_get (decisions_of D all dl) (attemptDecisionKey D a) = Some d"
proof -
  have len: "length dl = length all" by (rule mapR_length [OF assms(1)])
  have "attemptDecisionKey D a \<in> set (map fst (rev (zip (map (attemptDecisionKey D) all) dl)))"
    using assms(2) len by (simp add: rev_map [symmetric] map_fst_zip)
  then obtain d where d: "map_of (rev (zip (map (attemptDecisionKey D) all) dl)) (attemptDecisionKey D a) = Some d"
    by (metis map_of_eq_None_iff not_None_eq list.set_map)
  then have "(attemptDecisionKey D a, d) \<in> set (zip (map (attemptDecisionKey D) all) dl)" using map_of_SomeD by fastforce
  then obtain n where n: "n < length all" "attemptDecisionKey D (all ! n) = attemptDecisionKey D a" "dl ! n = d"
    using len by (auto simp: set_zip)
  with assms(1) have "f (all ! n) = Inr d" by (auto simp: mapR_eq_Inr list_all2_conv_all_nth)
  with n d show ?thesis unfolding decisions_of_def map_get_from by (metis nth_mem)
qed

lemma timestampInvalid_rejected: "timestampInvalidDecision a = Inr d \<Longrightarrow> id_ingestion_status d = Rejected"
  by (auto simp: timestampInvalidDecision_def Let_def bindR_eq_Inr split: if_splits)

lemma decide_or_invalid_accepted:
  "decide_or_invalid D candidates a = Inr d \<Longrightarrow> id_ingestion_status d = Accepted \<Longrightarrow> decide D a candidates = Inr d"
  using timestampInvalid_rejected by (fastforce simp: decide_or_invalid_def split: sum.splits js_error.splits)

lemma accepted_unique_alone:
  assumes "candidate_source candidates all" and "mapR (decide_or_invalid D candidates) all = Inr dl" and "a \<in> set all"
    and "accepted_unique D (decisions_of D all dl) a = Inr True"
  shows "List.find (\<lambda>c. scopeKey c = scopeKey a) all = Some a \<and> filter (\<lambda>c. record_id c = record_id a) all = [a]"
proof -
  obtain b d where b: "b \<in> set all" "attemptDecisionKey D b = attemptDecisionKey D a" "decide_or_invalid D candidates b = Inr d"
    "map_get (decisions_of D all dl) (attemptDecisionKey D a) = Some d"
    using decisions_of_get [OF assms(2,3)] by blast
  have d: "id_ingestion_status d = Accepted" "id_duplicate_resolution d = Unique"
    using assms(4) b(4) by (auto simp: accepted_unique_def decisionFor_def is_accepted_unique_def bindR_eq_Inr)
  from decide_or_invalid_accepted [OF b(3) d(1)]
  obtain dup where dup: "duplicate_resolution_of D b candidates = Inr dup" "fst dup = Unique"
    using d(2) by (auto elim!: decide_Inr)
  note one = unique_first [OF assms(1) b(1) dup]
  have "a \<in> set (filter (\<lambda>c. record_id c = record_id b) all)" using assms(3) decisionKey_record(1) [OF b(2)] by simp
  with one show ?thesis by simp
qed

lemma distinct_map_length_filter:
  "(\<And>k. length (filter (\<lambda>c. f c = k) xs) \<le> 1) \<Longrightarrow> distinct (map f xs)"
proof (induction xs)
  case (Cons x xs)
  have "filter (\<lambda>c. f c = f x) xs = []" using Cons.prems [of "f x"] by simp
  then have "f x \<notin> f ` set xs" by (fastforce simp: filter_empty_conv)
  moreover have "length (filter (\<lambda>c. f c = k) xs) \<le> 1" for k using Cons.prems [of k] by (simp split: if_splits)
  ultimately show ?case using Cons.IH by simp
qed simp

lemma distinct_filter_singleton:
  assumes "\<And>a. a \<in> set (filter p xs) \<Longrightarrow> filter (\<lambda>c. f c = f a) xs = [a]"
  shows "distinct (map f (filter p xs))"
proof (rule distinct_map_length_filter)
  fix k
  show "length (filter (\<lambda>c. f c = k) (filter p xs)) \<le> 1"
  proof (cases "filter (\<lambda>c. f c = k) (filter p xs)")
    case (Cons a as)
    then have "a \<in> set (filter (\<lambda>c. f c = k) (filter p xs))" by simp
    then have a: "a \<in> set (filter p xs)" "f a = k" by simp_all
    have "filter (\<lambda>c. f c = k) (filter p xs) = filter p (filter (\<lambda>c. f c = k) xs)" by (simp add: conj_commute)
    with assms [OF a(1)] a(2) show ?thesis by simp
  qed simp
qed

lemma unique_distinct:
  assumes "candidate_source candidates all" and "mapR (decide_or_invalid D candidates) all = Inr dl"
    and "filterR (accepted_unique D (decisions_of D all dl)) all = Inr us"
  shows "distinct (map record_id us)" and "distinct (map scopeKey us)"
proof -
  have us: "us = filter (\<lambda>a. accepted_unique D (decisions_of D all dl) a = Inr True) all"
    using assms(3) by (simp add: filterR_eq_Inr)
  note alone = accepted_unique_alone [OF assms(1,2)]
  show d: "distinct (map record_id us)" unfolding us by (rule distinct_filter_singleton) (use alone in auto)
  have "inj_on scopeKey (set us)"
  proof (rule inj_onI)
    fix a b assume *: "a \<in> set us" "b \<in> set us" "scopeKey a = scopeKey b"
    have "List.find (\<lambda>c. scopeKey c = scopeKey x) all = Some x" if "x \<in> set us" for x
    proof -
      from that have "x \<in> set all" "accepted_unique D (decisions_of D all dl) x = Inr True" unfolding us set_filter by blast+
      then show ?thesis by (rule alone [THEN conjunct1])
    qed
    from this [OF *(1)] this [OF *(2)] have "Some a = Some b" unfolding *(3) by (rule trans [OF sym])
    then show "a = b" by (rule option.inject [THEN iffD1])
  qed
  with d show "distinct (map scopeKey us)" by (simp add: distinct_map)
qed

text \<open>C3. However often and in whatever order a logical event is delivered, the evaluation emits one logical event per
  scope of tenant, application, producer and event id, each for a record of its own.\<close>

theorem one_logical_event_per_scope:
  assumes "evaluate P IndexedCandidateProvider i = Inr out"
  shows "distinct (map (\<lambda>e. (le_tenant_id e, le_app_id e, le_producer e, le_event_id e)) (io_logical_events (eo_ingestion out)))
    \<and> distinct (map le_record_id (io_logical_events (eo_ingestion out)))"
proof -
  obtain dl us where dl: "mapR (decide_or_invalid (vp_digests P) (IndexedCandidateProvider (delivered P i))) (delivered P i) = Inr dl"
    and us: "filterR (accepted_unique (vp_digests P) (decisions_of (vp_digests P) (delivered P i) dl)) (delivered P i) = Inr us"
    and ing: "ingestionArtifacts (vp_digests P) (vp_artifact P) (delivered P i) (decisions_of (vp_digests P) (delivered P i) dl)
      (map preIngestionDecision (ei_pre_ingestion_rejections i)) us
      (privacyIndex (ei_privacy_requests i) (ei_retention_expirations i)) = Inr (eo_ingestion out)"
    by (rule evaluate_Inr [OF assms])
  note d = unique_distinct [OF indexed.candidate_source_axioms dl us]
  obtain kept where kept: "mset (io_logical_events (eo_ingestion out)) = mset (map logical_event_of (filter kept us))"
    by (rule ingestionArtifacts_Inr [OF ing]) blast
  have perm: "distinct (map f (io_logical_events (eo_ingestion out))) \<longleftrightarrow> distinct (map (f \<circ> logical_event_of) (filter kept us))" for f :: "logical_event \<Rightarrow> 'k"
    using mset_eq_imp_distinct_iff [of "map f (io_logical_events (eo_ingestion out))" "map f (map logical_event_of (filter kept us))"] kept
    by (simp add: multiset.map_comp)
  have scope: "distinct (map scopeKey (filter kept us))" "distinct (map record_id (filter kept us))"
    using d by (simp_all add: distinct_map inj_on_def)
  have "distinct (map (\<lambda>a. (tenant a, app a, r_producer (at_record a), r_event_id (at_record a))) (filter kept us))"
    using scope(1) by (auto simp: distinct_map inj_on_def scopeKey_eq)
  then show ?thesis using scope(2) by (simp add: perm comp_def logical_event_of_def)
qed

text \<open>C4. What privacy requests and retention remove is not in the output of an evaluation: no raw record and no logical
  event names a record of the lifecycle index.\<close>

theorem removed_records_absent:
  assumes "evaluate P factory i = Inr out"
    and "map_has (privacyIndex (ei_privacy_requests i) (ei_retention_expirations i)) (evidenceKey t a rid)"
  shows "\<not> (\<exists>r \<in> set (io_raw_records (eo_ingestion out)). rr_tenant_id r = t \<and> rr_app_id r = a \<and> rr_record_id r = rid)
    \<and> \<not> (\<exists>e \<in> set (io_logical_events (eo_ingestion out)). le_tenant_id e = t \<and> le_app_id e = a \<and> le_record_id e = rid)"
proof -
  obtain dl us where ing: "ingestionArtifacts (vp_digests P) (vp_artifact P) (delivered P i) (decisions_of (vp_digests P) (delivered P i) dl)
      (map preIngestionDecision (ei_pre_ingestion_rejections i)) us
      (privacyIndex (ei_privacy_requests i) (ei_retention_expirations i)) = Inr (eo_ingestion out)"
    by (rule evaluate_Inr [OF assms(1)])
  from removed_not_emitted [OF ing] assms(2) show ?thesis by auto
qed

section \<open>A concrete evaluation\<close>

definition sample_evaluation_params :: evaluation_params where
  "sample_evaluation_params = \<lparr> vp_metric = sample_params, vp_artifact = ex_digests, vp_fraud = fd_id,
     vp_matching_key = (\<lambda>a b c. a @ b @ c), vp_reconciliation = rx_id \<rparr>"

definition sample_click :: "string \<Rightarrow> event_record" where
  "sample_click rid = (blank_record ''t'' ''a'' rid ''click'' (blank_payload\<lparr>p_click_id := Some ''k''\<rparr>))\<lparr>r_event_id := ''e''\<rparr>"

definition sample_input :: "event_record list \<Rightarrow> retention_expiration list \<Rightarrow> evaluation_input" where
  "sample_input records expirations =
     \<lparr> ei_batches = None, ei_server = blank_server ''t'' ''a'', ei_records = records, ei_pre_ingestion_rejections = [],
       ei_privacy_requests = [], ei_corrections = [], ei_retention_expirations = expirations, ei_source_days = [],
       ei_metrics = (sample_metric_input [])\<lparr>mi_metric_evaluations := []\<rparr>, ei_reconciliations = [] \<rparr>"

lemma sample_evaluation_events:
  "(case evaluate sample_evaluation_params IndexedCandidateProvider (sample_input [sample_click ''c2'', sample_click ''c1''] []) of
     Inr out \<Rightarrow> map le_record_id (io_logical_events (eo_ingestion out)) | Inl m \<Rightarrow> []) = [''c1'']"
  by code_simp

lemma sample_expired_events:
  "case evaluate sample_evaluation_params IndexedCandidateProvider
      (sample_input [sample_click ''c1''] [\<lparr> re_tenant_id = ''t'', re_app_id = ''a'', re_record_id = ''c1'' \<rparr>]) of
     Inr out \<Rightarrow> io_logical_events (eo_ingestion out) = [] | Inl m \<Rightarrow> False"
  by code_simp

theorem evaluation_order_independent_witness:
  "evaluate sample_evaluation_params IndexedCandidateProvider (sample_input [sample_click ''c2'', sample_click ''c1''] [])
     = evaluate sample_evaluation_params IndexedCandidateProvider (sample_input [sample_click ''c1'', sample_click ''c2''] [])"
proof -
  have "evaluate sample_evaluation_params IndexedCandidateProvider ((sample_input [sample_click ''c1'', sample_click ''c2''] [])
        \<lparr>ei_batches := None, ei_server := blank_server ''t'' ''a'', ei_records := [sample_click ''c2'', sample_click ''c1'']\<rparr>)
      = evaluate sample_evaluation_params IndexedCandidateProvider (sample_input [sample_click ''c1'', sample_click ''c2''] [])"
    by (rule evaluation_order_independent)
      (simp_all add: attempts_def sample_input_def candidateAttemptSortKey_def sample_click_def blank_record_def add_mset_commute)
  then show ?thesis by (simp add: sample_input_def)
qed

theorem one_logical_event_per_scope_witness:
  "\<exists>out. evaluate sample_evaluation_params IndexedCandidateProvider (sample_input [sample_click ''c2'', sample_click ''c1''] []) = Inr out
    \<and> distinct (map le_event_id (io_logical_events (eo_ingestion out))) \<and> map le_record_id (io_logical_events (eo_ingestion out)) = [''c1'']"
proof -
  obtain out where out: "evaluate sample_evaluation_params IndexedCandidateProvider (sample_input [sample_click ''c2'', sample_click ''c1''] []) = Inr out"
    and one: "map le_record_id (io_logical_events (eo_ingestion out)) = [''c1'']"
    using sample_evaluation_events by (auto split: sum.splits)
  from one_logical_event_per_scope [OF out] one show ?thesis using out by auto
qed

theorem removed_records_absent_witness:
  "\<exists>out. evaluate sample_evaluation_params IndexedCandidateProvider
      (sample_input [sample_click ''c1''] [\<lparr> re_tenant_id = ''t'', re_app_id = ''a'', re_record_id = ''c1'' \<rparr>]) = Inr out
    \<and> (\<nexists>r. r \<in> set (io_raw_records (eo_ingestion out)) \<and> rr_tenant_id r = ''t'' \<and> rr_app_id r = ''a'' \<and> rr_record_id r = ''c1'')"
proof -
  let ?i = "sample_input [sample_click ''c1''] [\<lparr> re_tenant_id = ''t'', re_app_id = ''a'', re_record_id = ''c1'' \<rparr>]"
  obtain out where out: "evaluate sample_evaluation_params IndexedCandidateProvider ?i = Inr out"
    using sample_expired_events by (auto split: sum.splits)
  have "map_has (privacyIndex (ei_privacy_requests ?i) (ei_retention_expirations ?i)) (evidenceKey ''t'' ''a'' ''c1'')"
    by (simp add: sample_input_def privacyIndex_def map_has_iff Let_def)
  from removed_records_absent [OF out this] out show ?thesis by blast
qed

end
