(* ===== verification/Fraud_Preview.thy ===== *)
theory Fraud_Preview
  imports Evaluator
begin

text \<open>
  \<open>previewAcceptedFraudEvidence\<close> of \<open>packages/attribution-core/src/fraud-preview.ts\<close>: the fraud decisions,
  attributions and metric runs that already admitted evidence would have under a candidate fraud
  bundle. The theorems state that the candidate bundle alone decides: the fraud configuration the
  evidence was received under has no part in the preview, and a preview never mixes scopes or records.
\<close>

record preview_input =
  pv_attempts :: "attempt list"
  pv_initialAttributions :: "attribution list"
  pv_metricInput :: metric_input
  pv_source_days :: "source_day_aggregate list"
  pv_definition :: fraud_bundle

record preview_output =
  pw_fraud_decisions :: "fraud_decision list"
  pw_attributions :: "attribution list"
  pw_metric_runs :: "run_output list"

definition preview_server :: "digests \<Rightarrow> fraud_bundle \<Rightarrow> string \<Rightarrow> server \<Rightarrow> server" where
  "preview_server D b hash s = s\<lparr>
     sv_fraud_enabled := Some True, sv_fraud_actions_enabled := True, sv_click_injection_policy := None,
     sv_fraud_rule_bundle := Some (\<lparr> bb_id = fb_id b, bb_version = fb_version b, bb_hash = hash,
       bb_definition_digest = sha_fraud_definition D b \<rparr>, b)\<rparr>"

definition preview_attempt :: "digests \<Rightarrow> fraud_bundle \<Rightarrow> string \<Rightarrow> attempt \<Rightarrow> attempt" where
  "preview_attempt D b hash a = a\<lparr>
     at_server := preview_server D b hash (at_server a),
     at_history := Some \<lparr> hs_payload_sha256 = candidatePayloadDigest D a, hs_semantic_available = True,
       hs_ledger_position = ''preview'', hs_fraud_exclusion_id = None \<rparr>\<rparr>"

definition scope_text :: "attempt \<Rightarrow> string" where
  "scope_text a = tenant a @ [CHR 0x00] @ app a"

definition previewAcceptedFraudEvidence :: "evaluation_params \<Rightarrow> preview_input \<Rightarrow> preview_output res" where
  "previewAcceptedFraudEvidence P i =
     (let D = vp_digests P; b = pv_definition i in
      bindR (fraudBundleHash D b) (\<lambda>hash.
      guardR (length (remdups (map scope_text (pv_attempts i))) \<le> 1) ''fraud_preview_scope_mismatch''
      (guardR (length (remdups (map record_id (pv_attempts i))) = length (pv_attempts i)) ''fraud_preview_duplicate_evidence''
      (let evidence = sortCandidateAttempts D (map (preview_attempt D b hash) (pv_attempts i)) in
       bindR (fraudArtifacts D (xd_attribution (mp_x (vp_metric P))) (vp_fraud P) (pv_source_days i) evidence evidence
           (filter (\<lambda>a. event_name a = ''install'') evidence) (pv_initialAttributions i) \<lparr> bf_definition = b, bf_hash = hash \<rparr>) (\<lambda>fraud.
       bindR (metricRuns (vp_metric P) (pv_metricInput i) evidence [] [] (fo_attributions fraud) (fo_excludedInstallationIds fraud)) (\<lambda>runs.
         Inr \<lparr> pw_fraud_decisions = fo_fraud_decisions fraud, pw_attributions = fo_attributions fraud, pw_metric_runs = runs \<rparr>))))))"

text \<open>A fraud configuration of a server: enabled or not, acting or not, with its bundle and its injection policy.\<close>

definition configured :: "bool option \<Rightarrow> bool \<Rightarrow> (bound_bundle \<times> fraud_bundle) option \<Rightarrow> injection_policy option \<Rightarrow> attempt \<Rightarrow> attempt" where
  "configured enabled acting bundle policy a = a\<lparr>at_server := (at_server a)\<lparr>sv_fraud_enabled := enabled,
     sv_fraud_actions_enabled := acting, sv_fraud_rule_bundle := bundle, sv_click_injection_policy := policy\<rparr>\<rparr>"

lemma preview_attempt_configured:
  "preview_attempt D b hash (configured enabled acting bundle policy a) = preview_attempt D b hash a"
  by (cases "at_history a") (simp_all add: preview_attempt_def preview_server_def configured_def candidatePayloadDigest_def)

lemma configured_scope: "scope_text (configured enabled acting bundle policy a) = scope_text a"
  "record_id (configured enabled acting bundle policy a) = record_id a"
  by (simp_all add: scope_text_def configured_def)

text \<open>C35. The preview belongs to the candidate bundle: whatever fraud configuration each record was received under, the preview
  is the same.\<close>

theorem preview_ignores_received_configuration:
  "previewAcceptedFraudEvidence P (i\<lparr>pv_attempts := map (\<lambda>a. configured (enabled a) (acting a) (bundle a) (policy a) a) (pv_attempts i)\<rparr>)
     = previewAcceptedFraudEvidence P i"
  by (simp add: previewAcceptedFraudEvidence_def comp_def preview_attempt_configured configured_scope)

text \<open>A preview is of one tenant and application, counts no record twice, and is under a bundle that passes the validation of
  fraud bundles.\<close>

theorem preview_scoped:
  assumes "previewAcceptedFraudEvidence P i = Inr out"
  shows "(\<forall>a \<in> set (pv_attempts i). \<forall>b \<in> set (pv_attempts i). scope_text a = scope_text b)
    \<and> distinct (map record_id (pv_attempts i)) \<and> (\<exists>hash. fraudBundleHash (vp_digests P) (pv_definition i) = Inr hash)"
proof -
  from assms obtain hash where hash: "fraudBundleHash (vp_digests P) (pv_definition i) = Inr hash"
    and one: "length (remdups (map scope_text (pv_attempts i))) \<le> 1"
    and ids: "length (remdups (map record_id (pv_attempts i))) = length (map record_id (pv_attempts i))"
    by (auto simp: previewAcceptedFraudEvidence_def Let_def bindR_eq_Inr guardR_eq_Inr)
  have "card (scope_text ` set (pv_attempts i)) \<le> 1" using one by (simp add: length_remdups_card_conv)
  then have scopes: "\<forall>s \<in> scope_text ` set (pv_attempts i). \<forall>t \<in> scope_text ` set (pv_attempts i). s = t"
    unfolding One_nat_def by (rule card_le_Suc0_iff_eq [OF finite_imageI [OF finite_set], THEN iffD1])
  have "distinct (map record_id (pv_attempts i))" using ids by (metis length_remdups_eq remdups_id_iff_distinct)
  with scopes hash show ?thesis by blast
qed

section \<open>A concrete preview\<close>

definition sample_preview :: preview_input where
  "sample_preview = \<lparr> pv_attempts = [sample_install ''i''], pv_initialAttributions = [], pv_metricInput = (sample_metric_input [])
     \<lparr>mi_metric_evaluations := []\<rparr>, pv_source_days = [], pv_definition = DEFAULT_FRAUD_BUNDLE \<rparr>"

lemma sample_previewed: "case previewAcceptedFraudEvidence sample_evaluation_params sample_preview of Inr out \<Rightarrow> True | Inl m \<Rightarrow> False"
  by code_simp

theorem preview_scoped_witness: "\<exists>hash. fraudBundleHash sample_digests DEFAULT_FRAUD_BUNDLE = Inr hash"
proof -
  obtain out where "previewAcceptedFraudEvidence sample_evaluation_params sample_preview = Inr out"
    using sample_previewed by (auto split: sum.splits)
  from preview_scoped [OF this] show ?thesis by (simp add: sample_preview_def sample_evaluation_params_def sample_params_def)
qed

end
