(* ===== verification/Url_Params.thy ===== *)
theory Url_Params
  imports Prelude
begin

text \<open>
  \<open>URLSearchParams\<close> of the language's standard library as the program uses it: the
  \<open>application/x-www-form-urlencoded\<close> serializer and parser over the bytes of UTF-8 texts, \<open>get\<close> and
  \<open>set\<close>. A character of a text stands for one byte of its UTF-8 encoding. The main lemma is the round
  trip: parsing what was serialized gives the list back.
\<close>

type_synonym params = "(string \<times> string) list"

section \<open>Percent encoding\<close>

definition hex_char :: "nat \<Rightarrow> char" where
  "hex_char n = ''0123456789ABCDEF'' ! n"

definition hex_nibble :: "char \<Rightarrow> nat option" where
  "hex_nibble c = (let n = of_char c :: nat in
     if 48 \<le> n \<and> n \<le> 57 then Some (n - 48)
     else if 65 \<le> n \<and> n \<le> 70 then Some (n - 55)
     else if 97 \<le> n \<and> n \<le> 102 then Some (n - 87) else None)"

definition form_kept :: "char \<Rightarrow> bool" where
  "form_kept c \<longleftrightarrow> is_lower c \<or> is_upper c \<or> is_digit c \<or> c \<in> set ''*-._''"

definition percent_byte :: "char \<Rightarrow> string" where
  "percent_byte c = [CHR ''%'', hex_char (of_char c div 16), hex_char (of_char c mod 16)]"

definition encode_char :: "char \<Rightarrow> string" where
  "encode_char c = (if form_kept c then [c] else if c = CHR '' '' then ''+'' else percent_byte c)"

definition form_encode :: "string \<Rightarrow> string" where
  "form_encode s = concat (map encode_char s)"

fun percent_decode :: "string \<Rightarrow> string" where
  "percent_decode (c # h # l # s) =
     (if c = CHR ''%'' then
        (case (hex_nibble h, hex_nibble l) of
           (Some a, Some b) \<Rightarrow> char_of (16 * a + b) # percent_decode s
         | _ \<Rightarrow> c # percent_decode (h # l # s))
      else c # percent_decode (h # l # s))"
| "percent_decode (c # s) = c # percent_decode s"
| "percent_decode [] = []"

definition plus_to_space :: "string \<Rightarrow> string" where
  "plus_to_space s = map (\<lambda>c. if c = CHR ''+'' then CHR '' '' else c) s"

definition form_decode :: "string \<Rightarrow> string" where
  "form_decode s = percent_decode (plus_to_space s)"

section \<open>Lists of parameters\<close>

definition params_to_string :: "params \<Rightarrow> string" where
  "params_to_string ps = join ''&'' (map (\<lambda>(n, v). form_encode n @ ''='' @ form_encode v) ps)"

definition parse_pair :: "string \<Rightarrow> string \<times> string" where
  "parse_pair s = (form_decode (takeWhile (\<lambda>c. c \<noteq> CHR ''='') s), form_decode (drop 1 (dropWhile (\<lambda>c. c \<noteq> CHR ''='') s)))"

definition strip_query :: "string \<Rightarrow> string" where
  "strip_query s = (case s of [] \<Rightarrow> [] | c # cs \<Rightarrow> if c = CHR ''?'' then cs else s)"

definition parse_params :: "string \<Rightarrow> params" where
  "parse_params s = map parse_pair (filter (\<lambda>p. p \<noteq> []) (split_on (CHR ''&'') (strip_query s)))"

definition params_get :: "params \<Rightarrow> string \<Rightarrow> string option" where
  "params_get ps name = map_option snd (List.find (\<lambda>p. fst p = name) ps)"

text \<open>\<open>set\<close> overwrites the first pair of the name, drops its others, and appends when there is none.\<close>

fun params_set :: "params \<Rightarrow> string \<Rightarrow> string \<Rightarrow> params" where
  "params_set [] name v = [(name, v)]"
| "params_set (p # ps) name v = (if fst p = name then (name, v) # filter (\<lambda>q. fst q \<noteq> name) ps else p # params_set ps name v)"

section \<open>Round trip\<close>

lemma nibbles_hex: "list_all (\<lambda>n. hex_nibble (hex_char n) = Some n \<and> hex_char n \<notin> set ''+&=?'') [0..<16]"
  by code_simp

lemma nibbles: "of_char c div 16 < (16 :: nat)" "of_char c mod 16 < (16 :: nat)"
  using nat_of_char_less_256 [of c] by (simp_all add: less_mult_imp_div_less)

lemma hex_char_nibble: "n < 16 \<Longrightarrow> hex_nibble (hex_char n) = Some n"
  using nibbles_hex by (auto simp: list_all_iff)

lemma hex_char_plain: "n < 16 \<Longrightarrow> hex_char n \<notin> {CHR ''+'', CHR ''&'', CHR ''='', CHR ''?''}"
  using nibbles_hex by (auto simp: list_all_iff)

lemma special_not_kept: "\<not> form_kept (CHR ''+'')" "\<not> form_kept (CHR ''%'')" "\<not> form_kept (CHR ''&'')" "\<not> form_kept (CHR ''='')"
  "\<not> form_kept (CHR ''?'')"
  by code_simp+

lemma percent_decode_other: "c \<noteq> CHR ''%'' \<Longrightarrow> percent_decode (c # s) = c # percent_decode s"
  by (cases s; cases "tl s") auto

lemma percent_decode_byte: "percent_decode (percent_byte c @ s) = c # percent_decode s"
proof -
  have "char_of (16 * (of_char c div 16) + of_char c mod 16 :: nat) = c" by simp
  with hex_char_nibble nibbles show ?thesis by (simp add: percent_byte_def)
qed

lemma plus_to_space_append: "plus_to_space (s @ t) = plus_to_space s @ plus_to_space t"
  by (simp add: plus_to_space_def)

lemma plus_to_space_byte: "plus_to_space (percent_byte c) = percent_byte c"
  using hex_char_plain [OF nibbles(1)] hex_char_plain [OF nibbles(2)] by (simp add: plus_to_space_def percent_byte_def)

lemma decode_char: "percent_decode (plus_to_space (encode_char c) @ s) = c # percent_decode s"
proof (cases "form_kept c")
  case True
  then have "c \<noteq> CHR ''+''" "c \<noteq> CHR ''%''" using special_not_kept by auto
  with True show ?thesis by (simp add: encode_char_def plus_to_space_def percent_decode_other)
next
  case False
  then show ?thesis
    by (cases "c = CHR '' ''")
      (simp_all add: encode_char_def plus_to_space_byte percent_decode_byte plus_to_space_def [of "''+''"] percent_decode_other)
qed

lemma form_decode_encode [simp]: "form_decode (form_encode s) = s"
  unfolding form_decode_def form_encode_def
  by (induction s) (simp_all add: plus_to_space_append decode_char, simp add: plus_to_space_def)

lemma encode_char_safe: "x \<in> set (encode_char c) \<Longrightarrow> x \<noteq> CHR ''&'' \<and> x \<noteq> CHR ''='' \<and> x \<noteq> CHR ''?''"
  using hex_char_plain [OF nibbles(1)] hex_char_plain [OF nibbles(2)] special_not_kept
  by (auto simp: encode_char_def percent_byte_def split: if_splits)

lemma form_encode_safe: "CHR ''&'' \<notin> set (form_encode s)" "CHR ''='' \<notin> set (form_encode s)" "CHR ''?'' \<notin> set (form_encode s)"
  using encode_char_safe by (auto simp: form_encode_def)

lemma parse_pair_encoded: "parse_pair (form_encode n @ ''='' @ form_encode v) = (n, v)"
proof -
  have "\<forall>c \<in> set (form_encode n). c \<noteq> CHR ''=''" using form_encode_safe by metis
  then show ?thesis by (simp add: parse_pair_def takeWhile_append2 dropWhile_append2)
qed

lemma params_roundtrip: "parse_params (params_to_string ps) = ps"
proof (cases ps)
  case Nil
  then show ?thesis by (simp add: parse_params_def params_to_string_def strip_query_def)
next
  case (Cons p qs)
  let ?enc = "map (\<lambda>(n, v). form_encode n @ ''='' @ form_encode v) ps"
  have amp: "CHR ''&'' \<notin> set e" if "e \<in> set ?enc" for e using that form_encode_safe by (auto split: prod.splits)
  have "split_on (CHR ''&'') (join ''&'' ?enc) = ?enc" by (rule split_join) (use Cons amp in auto)
  moreover have "strip_query (join ''&'' ?enc) = join ''&'' ?enc"
  proof -
    have "form_encode n = [] \<or> hd (form_encode n) \<noteq> CHR ''?''" for n
      using form_encode_safe(3) [of n] by (cases "form_encode n") auto
    moreover obtain n v where "p = (n, v)" by (cases p)
    ultimately have "join ''&'' ?enc \<noteq> [] \<and> hd (join ''&'' ?enc) \<noteq> CHR ''?''"
      using Cons by (cases qs) (auto simp: hd_append)
    then show ?thesis by (auto simp: strip_query_def split: list.splits)
  qed
  moreover have "filter (\<lambda>e. e \<noteq> []) ?enc = ?enc" by (rule filter_True) auto
  ultimately show ?thesis
    by (simp add: parse_params_def params_to_string_def comp_def case_prod_unfold parse_pair_encoded [simplified])
qed

lemma params_get_set: "params_get (params_set ps name v) name = Some v"
  by (induction ps) (auto simp: params_get_def)

lemma params_set_once: "filter (\<lambda>p. fst p = name) (params_set ps name v) = [(name, v)]"
  by (induction ps) auto

lemma params_get_set_other: "other \<noteq> name \<Longrightarrow> params_get (params_set ps name v) other = params_get ps other"
proof (induction ps)
  case (Cons p ps)
  have "List.find (\<lambda>q. fst q = other) (filter (\<lambda>q. fst q \<noteq> name) ps) = List.find (\<lambda>q. fst q = other) ps"
    using Cons.prems by (induction ps) auto
  with Cons show ?case by (auto simp: params_get_def)
qed (simp add: params_get_def)

end
