(* ===== verification/Install_Referrer.thy ===== *)
theory Install_Referrer
  imports Url_Params
begin

text \<open>
  \<open>mapInstallReferrer\<close> of \<open>packages/attribution-core/src/install-referrer-mapping.ts\<close>: what a response of the
  store's referrer client means for the install event, and whether the SDK asks again.
\<close>

datatype client_response = Ok | Service_Unavailable | Feature_Not_Supported | Developer_Error | Service_Disconnected

datatype referrer_status = Referrer_Available | Referrer_None | Referrer_Unsupported | Referrer_Unavailable

datatype terminal_reason = Unknown_Click_Id | No_Referrer | Install_Referrer_Unsupported | Install_Referrer_Unavailable

record referrer_mapping =
  rm_referrer_status :: referrer_status
  rm_referrer_client_response :: client_response
  rm_bounded_retry :: bool
  rm_terminal_reason :: "terminal_reason option"
  rm_requires_window_evaluation :: bool
  rm_click_id :: "string option"
  rm_loud_integrator_error :: bool

definition plain_mapping :: "referrer_status \<Rightarrow> client_response \<Rightarrow> terminal_reason \<Rightarrow> referrer_mapping" where
  "plain_mapping status response reason =
     \<lparr> rm_referrer_status = status, rm_referrer_client_response = response, rm_bounded_retry = False,
       rm_terminal_reason = Some reason, rm_requires_window_evaluation = False, rm_click_id = None, rm_loud_integrator_error = False \<rparr>"

definition mapInstallReferrer :: "client_response \<Rightarrow> string option \<Rightarrow> referrer_mapping" where
  "mapInstallReferrer response referrer =
     (if response = Ok then
        (if \<not> truthy referrer then plain_mapping Referrer_None Ok No_Referrer
         else let clickId = params_get (parse_params (the_or [] referrer)) ''cid'' in
           if truthy clickId
           then (plain_mapping Referrer_Available Ok Unknown_Click_Id)
             \<lparr>rm_terminal_reason := None, rm_requires_window_evaluation := True, rm_click_id := clickId\<rparr>
           else plain_mapping Referrer_Available Ok Unknown_Click_Id)
      else if response = Feature_Not_Supported then plain_mapping Referrer_Unsupported response Install_Referrer_Unsupported
      else if response = Developer_Error
      then (plain_mapping Referrer_Unavailable response Install_Referrer_Unavailable)\<lparr>rm_loud_integrator_error := True\<rparr>
      else (plain_mapping Referrer_Unavailable response Install_Referrer_Unavailable)\<lparr>rm_bounded_retry := True\<rparr>)"

text \<open>A mapping either names a click to evaluate or gives a terminal reason, never both; it asks again only after a
  transient failure, and it names a click exactly when the referrer's own \<open>cid\<close> is not empty.\<close>

theorem referrer_mapping_exclusive:
  "(rm_click_id (mapInstallReferrer response referrer) = None \<longleftrightarrow> rm_terminal_reason (mapInstallReferrer response referrer) \<noteq> None)
   \<and> rm_requires_window_evaluation (mapInstallReferrer response referrer) = (rm_click_id (mapInstallReferrer response referrer) \<noteq> None)
   \<and> rm_bounded_retry (mapInstallReferrer response referrer) = (response \<in> {Service_Unavailable, Service_Disconnected})
   \<and> rm_click_id (mapInstallReferrer response referrer)
      = (let cid = params_get (parse_params (the_or [] referrer)) ''cid'' in if response = Ok \<and> truthy cid then cid else None)"
  by (cases response; cases referrer)
    (auto simp: mapInstallReferrer_def plain_mapping_def Let_def truthy_def the_or_def parse_params_def strip_query_def params_get_def
      split: option.splits if_splits list.splits)

end
