(* ===== verification/Redirector.thy ===== *)
theory Redirector
  imports Url_Params
begin

text \<open>
  \<open>packages/redirector-core/src/index.ts\<close> and \<open>client-class.ts\<close>: tracking links, the install referrer
  and its deferred deep link, allowed destinations, the redirect itself and the prefetch evidence.
  The parser and printer of \<open>URL\<close> are the arguments \<open>url_of\<close> and \<open>url_text\<close>; \<open>localeCompare\<close> is the
  order of the sort keys \<open>collation\<close>; random bytes are an argument. A theorem that needs something of
  them says so.
\<close>

datatype destination_kind = Play_Store | Custom_Https
datatype link_status = Active | Paused | Archived
datatype redirect_platform = Android | Ios | Other_Platform
datatype client_class = Mobile_App_Eligible | Bot | Other_Client

record tracking_link =
  tl_id :: string
  tl_tenant_id :: string
  tl_app_id :: string
  tl_slug :: string
  tl_destination_kind :: destination_kind
  tl_destination_url :: string
  tl_play_package_name :: "string option"
  tl_network :: "string option"
  tl_site_id :: "string option"
  tl_campaign_id :: "string option"
  tl_ad_group_id :: "string option"
  tl_creative_id :: "string option"
  tl_deep_link_value :: "string option"
  tl_deep_link_param_names :: "string list option"
  tl_deferred_deep_link_ttl_seconds :: "int option"
  tl_status :: link_status

record url =
  ur_protocol :: string
  ur_username :: string
  ur_password :: string
  ur_hostname :: string
  ur_pathname :: string
  ur_origin :: string
  ur_params :: params
  ur_hash :: string

datatype deferred_status = Carried | Omitted_Length | Not_Configured

record redirect_click =
  rk_click_id :: string
  rk_tracking_link_id :: string
  rk_tenant_id :: string
  rk_app_id :: string
  rk_destination_url :: string
  rk_referrer :: string
  rk_redirector_click_at :: string
  rk_campaign_id :: "string option"
  rk_ad_group_id :: "string option"
  rk_creative_id :: "string option"
  rk_network :: "string option"
  rk_site_id :: "string option"
  rk_remote_click_ref :: "string option"
  rk_source_rate_class :: "string option"
  rk_client_class :: "client_class option"
  rk_bot_prefetch :: bool
  rk_deep_link_value :: "string option"
  rk_deep_link_params :: "params option"
  rk_deferred_deep_link_status :: deferred_status

record redirect_prefetch =
  rp_tracking_link_id :: string
  rp_tenant_id :: string
  rp_app_id :: string
  rp_redirector_click_at :: string
  rp_campaign_id :: "string option"
  rp_ad_group_id :: "string option"
  rp_creative_id :: "string option"
  rp_network :: "string option"
  rp_site_id :: "string option"
  rp_remote_click_ref :: "string option"
  rp_source_rate_class :: "string option"
  rp_client_class :: client_class

text \<open>Every resolution is a 302 with an empty body and the same two headers beside its location.\<close>

record redirect_resolution =
  rz_status :: int
  rz_headers :: "(string \<times> string) list"
  rz_body :: string
  rz_click :: "redirect_click option"
  rz_prefetch :: "redirect_prefetch option"

section \<open>Identifiers\<close>

definition base64_symbol :: "nat \<Rightarrow> char" where
  "base64_symbol n = ''ABCDEFGHIJKLMNOPQRSTUVWXYZabcdefghijklmnopqrstuvwxyz0123456789-_'' ! n"

text \<open>\<open>Buffer.toString("base64url")\<close> of a list of bytes.\<close>

fun base64url :: "nat list \<Rightarrow> string" where
  "base64url (a # b # c # bytes) =
     [base64_symbol (a div 4), base64_symbol (a mod 4 * 16 + b div 16), base64_symbol (b mod 16 * 4 + c div 64), base64_symbol (c mod 64)]
       @ base64url bytes"
| "base64url [a, b] = [base64_symbol (a div 4), base64_symbol (a mod 4 * 16 + b div 16), base64_symbol (b mod 16 * 4)]"
| "base64url [a] = [base64_symbol (a div 4), base64_symbol (a mod 4 * 16)]"
| "base64url [] = []"

definition randomSlug :: "(nat \<Rightarrow> nat list) \<Rightarrow> string" where
  "randomSlug random = base64url (random 9)"

definition randomClickId :: "(nat \<Rightarrow> nat list) \<Rightarrow> string" where
  "randomClickId random = base64url (random 33)"

definition id_symbol :: "char \<Rightarrow> bool" where
  "id_symbol c \<longleftrightarrow> is_upper c \<or> is_lower c \<or> is_digit c \<or> c = CHR ''_'' \<or> c = CHR ''-''"

definition click_id_ok :: "string \<Rightarrow> bool" where
  "click_id_ok s \<longleftrightarrow> 22 \<le> length s \<and> length s \<le> 128 \<and> list_all id_symbol s"

section \<open>Install referrer\<close>

definition set_all :: "params \<Rightarrow> params \<Rightarrow> params" where
  "set_all entries m = fold (\<lambda>(k, v) m. map_set k v m) entries m"

definition encodeInstallReferrer :: "string \<Rightarrow> params \<Rightarrow> string res" where
  "encodeInstallReferrer clickId extras =
     guardR (click_id_ok clickId) ''click_id_invalid''
       (Inr (params_to_string (set_all extras (map_set ''cid'' clickId (map_set ''omv'' ''1'' [])))))"

definition decodeInstallReferrer :: "string \<Rightarrow> params" where
  "decodeInstallReferrer v = map_from (parse_params v)"

section \<open>Deep links\<close>

definition link_symbol :: "char \<Rightarrow> bool" where
  "link_symbol c \<longleftrightarrow> is_upper c \<or> is_lower c \<or> is_digit c \<or> c \<in> set ''._~-''"

definition link_segment :: "string \<Rightarrow> bool" where
  "link_segment s \<longleftrightarrow> 1 \<le> length s \<and> length s \<le> 64 \<and> list_all link_symbol s"

definition deep_link_ok :: "string \<Rightarrow> bool" where
  "deep_link_ok v \<longleftrightarrow>
     (case split_on (CHR ''/'') v of
        [] # segments \<Rightarrow> length v \<le> 256 \<and> \<not> list_ex (\<lambda>s. s = ''.'' \<or> s = ''..'') segments
          \<and> 1 \<le> length segments \<and> length segments \<le> 8 \<and> list_all link_segment segments
      | _ \<Rightarrow> False)"

definition assertDeepLinkValue :: "string \<Rightarrow> string res" where
  "assertDeepLinkValue v = guardR (deep_link_ok v) ''deep_link_value_invalid'' (Inr v)"

definition bind_parameter :: "string list \<Rightarrow> params \<times> nat \<Rightarrow> string \<times> string \<Rightarrow> params \<times> nat" where
  "bind_parameter declared acc p =
     (if \<not> starts_with (fst p) ''dlp_'' \<or> drop 4 (fst p) \<notin> set declared \<or> \<not> link_segment (snd p)
      then (fst acc, snd acc + 1)
      else (map_set (drop 4 (fst p)) (snd p) (fst acc), snd acc))"

definition bindDeepLinkParameters :: "params \<Rightarrow> string list \<Rightarrow> params \<times> nat" where
  "bindDeepLinkParameters source declared = foldl (bind_parameter declared) ([], 0) source"

definition deferred_extras :: "(string \<Rightarrow> string) \<Rightarrow> string \<Rightarrow> params \<Rightarrow> params" where
  "deferred_extras collation value entries =
     set_all (map (\<lambda>p. (''dlp_'' @ fst p, snd p)) (sort_key (\<lambda>p. collation (fst p)) entries)) [(''dl'', value)]"

definition buildDeferredReferrer :: "(string \<Rightarrow> string) \<Rightarrow> string \<Rightarrow> string option \<Rightarrow> params option \<Rightarrow> nat \<Rightarrow>
    (string \<times> deferred_status) res" where
  "buildDeferredReferrer collation clickId deepLinkValue deepLinkParams maximum =
     bindR (encodeInstallReferrer clickId []) (\<lambda>minimal.
     if \<not> truthy deepLinkValue then Inr (minimal, Not_Configured)
     else bindR (assertDeepLinkValue (the_or [] deepLinkValue)) (\<lambda>v.
          bindR (encodeInstallReferrer clickId (deferred_extras collation v (the_or [] deepLinkParams))) (\<lambda>expanded.
            Inr (if length expanded \<le> maximum then (expanded, Carried) else (minimal, Omitted_Length)))))"

section \<open>Destinations\<close>

definition parse_url :: "(string \<Rightarrow> url option) \<Rightarrow> string \<Rightarrow> url res" where
  "parse_url url_of s = (case url_of s of None \<Rightarrow> throw ''Invalid URL'' | Some u \<Rightarrow> Inr u)"

definition assertAllowedDestination :: "(string \<Rightarrow> url option) \<Rightarrow> string \<Rightarrow> string list \<Rightarrow> url res" where
  "assertAllowedDestination url_of destination allowedOrigins =
     (case url_of destination of
        None \<Rightarrow> throw ''destination_invalid''
      | Some u \<Rightarrow>
          if ur_username u \<noteq> [] \<or> ur_password u \<noteq> [] then throw ''destination_credentials_forbidden''
          else if ur_protocol u = ''market:'' \<and> ur_hostname u = ''details'' then Inr u
          else if ur_protocol u \<noteq> ''https:'' then throw ''destination_scheme_not_allowed''
          else if ur_hostname u = ''play.google.com'' \<and> ur_pathname u = ''/store/apps/details'' then Inr u
          else bindR (mapR (parse_url url_of) allowedOrigins) (\<lambda>origins.
            guardR (ur_origin u \<in> ur_origin ` set origins) ''destination_origin_not_allowed'' (Inr u)))"

definition play_url :: "tracking_link \<Rightarrow> string \<Rightarrow> url \<Rightarrow> url res" where
  "play_url link referrer u =
     (if tl_destination_kind link = Play_Store then
        guardR (truthy (tl_play_package_name link)) ''play_package_name_missing''
          (Inr (u\<lparr>ur_params := params_set (params_set (ur_params u) ''id'' (the_or [] (tl_play_package_name link))) ''referrer'' referrer\<rparr>))
      else Inr u)"

definition playDestination :: "(string \<Rightarrow> url option) \<Rightarrow> (url \<Rightarrow> string) \<Rightarrow> tracking_link \<Rightarrow> string \<Rightarrow> string res" where
  "playDestination url_of url_text link clickId =
     bindR (parse_url url_of (tl_destination_url link)) (\<lambda>u.
     bindR (if tl_destination_kind link = Play_Store
            then guardR (truthy (tl_play_package_name link)) ''play_package_name_missing'' (encodeInstallReferrer clickId [])
            else Inr []) (\<lambda>referrer.
     bindR (play_url link referrer u) (\<lambda>v. Inr (url_text v))))"

section \<open>The redirect\<close>

definition redirect_headers :: "string \<Rightarrow> (string \<times> string) list" where
  "redirect_headers location =
     [(''cache-control'', ''no-store''), (''location'', location), (''referrer-policy'', ''no-referrer'')]"

definition fallbackResponse :: "string \<Rightarrow> redirect_resolution" where
  "fallbackResponse fallback =
     \<lparr> rz_status = 302, rz_headers = redirect_headers fallback, rz_body = [], rz_click = None, rz_prefetch = None \<rparr>"

definition redirectFallbackReason :: "tracking_link option \<Rightarrow> redirect_platform option \<Rightarrow> string option" where
  "redirectFallbackReason link platform =
     (case link of
        None \<Rightarrow> Some ''link_not_found''
      | Some l \<Rightarrow>
          if tl_status l \<noteq> Active then Some (if tl_status l = Paused then ''link_paused'' else ''link_archived'')
          else if platform \<noteq> None \<and> tl_destination_kind l = Play_Store \<and> platform \<noteq> Some Android
          then Some ''platform_not_supported''
          else None)"

record redirect_options =
  ro_link :: "tracking_link option"
  ro_fallbackDestination :: string
  ro_now :: string
  ro_clickId :: "string option"
  ro_remoteClickRef :: "string option"
  ro_sourceRateClass :: "string option"
  ro_clientClass :: "client_class option"
  ro_deepLinkParams :: "params option"
  ro_referrerMaximumEncodedCharacters :: "nat option"
  ro_deepLinkValue :: "string option"
  ro_platform :: "redirect_platform option"

definition present :: "string option \<Rightarrow> string option" where
  "present s = (if truthy s then s else None)"

definition redirect_click_of :: "redirect_options \<Rightarrow> tracking_link \<Rightarrow> string \<Rightarrow> string \<Rightarrow> string \<times> deferred_status \<Rightarrow> redirect_click" where
  "redirect_click_of ro link clickId destination deferred =
     \<lparr> rk_click_id = clickId, rk_tracking_link_id = tl_id link, rk_tenant_id = tl_tenant_id link, rk_app_id = tl_app_id link,
       rk_destination_url = destination, rk_referrer = fst deferred, rk_redirector_click_at = ro_now ro,
       rk_campaign_id = present (tl_campaign_id link), rk_ad_group_id = present (tl_ad_group_id link),
       rk_creative_id = present (tl_creative_id link), rk_network = present (tl_network link), rk_site_id = present (tl_site_id link),
       rk_remote_click_ref = present (ro_remoteClickRef ro), rk_source_rate_class = present (ro_sourceRateClass ro),
       rk_client_class = ro_clientClass ro, rk_bot_prefetch = (ro_clientClass ro = Some Bot),
       rk_deep_link_value = present (or_else (ro_deepLinkValue ro) (tl_deep_link_value link)),
       rk_deep_link_params = (case ro_deepLinkParams ro of Some ps \<Rightarrow> if ps = [] then None else Some ps | None \<Rightarrow> None),
       rk_deferred_deep_link_status = snd deferred \<rparr>"

definition resolveRedirect :: "(string \<Rightarrow> url option) \<Rightarrow> (url \<Rightarrow> string) \<Rightarrow> (string \<Rightarrow> string) \<Rightarrow> (nat \<Rightarrow> nat list) \<Rightarrow>
    redirect_options \<Rightarrow> redirect_resolution res" where
  "resolveRedirect url_of url_text collation random ro =
     (case ro_link ro of
        None \<Rightarrow> Inr (fallbackResponse (ro_fallbackDestination ro))
      | Some link \<Rightarrow>
          if redirectFallbackReason (Some link) (ro_platform ro) \<noteq> None then Inr (fallbackResponse (ro_fallbackDestination ro))
          else
            let clickId = the_or (randomClickId random) (ro_clickId ro);
                maximum = the_or 512 (ro_referrerMaximumEncodedCharacters ro) in
            bindR (buildDeferredReferrer collation clickId (present (or_else (ro_deepLinkValue ro) (tl_deep_link_value link)))
                (ro_deepLinkParams ro) maximum) (\<lambda>deferred.
            guardR (length (fst deferred) \<le> maximum) ''referrer_too_long''
            (bindR (parse_url url_of (tl_destination_url link)) (\<lambda>u.
             bindR (play_url link (fst deferred) u) (\<lambda>v.
             let destination = url_text v in
             Inr \<lparr> rz_status = 302, rz_headers = redirect_headers destination, rz_body = [],
                   rz_click = Some (redirect_click_of ro link clickId destination deferred), rz_prefetch = None \<rparr>)))))"

definition prefetchEvidence :: "redirect_options \<Rightarrow> tracking_link \<Rightarrow> redirect_resolution" where
  "prefetchEvidence ro link =
     (fallbackResponse (ro_fallbackDestination ro))\<lparr>rz_prefetch := Some
       \<lparr> rp_tracking_link_id = tl_id link, rp_tenant_id = tl_tenant_id link, rp_app_id = tl_app_id link,
         rp_redirector_click_at = ro_now ro, rp_campaign_id = present (tl_campaign_id link),
         rp_ad_group_id = present (tl_ad_group_id link), rp_creative_id = present (tl_creative_id link),
         rp_network = present (tl_network link), rp_site_id = present (tl_site_id link),
         rp_remote_click_ref = present (ro_remoteClickRef ro), rp_source_rate_class = present (ro_sourceRateClass ro),
         rp_client_class = the_or Bot (ro_clientClass ro) \<rparr>\<rparr>"

section \<open>Client classes\<close>

text \<open>No letter outside ASCII has a lower case of the English locale that occurs in a token.\<close>

fun contains_text :: "string \<Rightarrow> string \<Rightarrow> bool" where
  "contains_text [] token = (token = [])"
| "contains_text (c # s) token = (starts_with (c # s) token \<or> contains_text s token)"

definition PUBLIC_BOT_TOKENS :: "string list" where
  "PUBLIC_BOT_TOKENS = [''bot'', ''crawler'', ''spider'', ''preview'']"

definition classifyClientClass :: "string \<Rightarrow> client_class" where
  "classifyClientClass userAgent =
     (let normalized = map lower_ascii userAgent in
      if list_ex (contains_text normalized) PUBLIC_BOT_TOKENS then Bot
      else if list_ex (contains_text normalized) [''android'', ''iphone'', ''ipad''] then Mobile_App_Eligible
      else Other_Client)"

section \<open>Referrers\<close>

lemma map_set_new: "k \<notin> fst ` set m \<Longrightarrow> map_set k v m = m @ [(k, v)]"
  unfolding map_set_def by (induction m) auto

lemma set_all_new: "distinct (map fst (m @ es)) \<Longrightarrow> set_all es m = m @ es"
proof (induction es arbitrary: m)
  case (Cons e es)
  then have "map_set (fst e) (snd e) m = m @ [e]" by (simp add: map_set_new)
  with Cons.IH [of "m @ [e]"] Cons.prems show ?case by (simp add: set_all_def case_prod_unfold)
qed (simp add: set_all_def)

lemma map_from_distinct: "distinct (map fst (m :: params)) \<Longrightarrow> map_from m = m"
  using set_all_new [of "[]" m] by (simp add: map_from_def set_all_def)

lemma set_all_distinct: "distinct (map fst m) \<Longrightarrow> distinct (map fst (set_all es m))"
  unfolding set_all_def by (induction es arbitrary: m) (auto simp: map_set_distinct)

lemma set_all_get: "map_get (set_all es m) k = (case map_of (rev es) k of Some v \<Rightarrow> Some v | None \<Rightarrow> map_get m k)"
  unfolding set_all_def by (induction es arbitrary: m) (auto simp: map_add_def split: option.splits)

lemma map_of_rev_distinct:
  assumes "distinct (map fst m)"
  shows "map_of (rev m) k = map_get m k"
proof -
  have "map_of (rev m) = map_of m" using assms by (subst map_of_inject_set) (simp_all add: rev_map [symmetric])
  then show ?thesis by (simp add: map_get_def)
qed

lemma encode_decode:
  assumes "encodeInstallReferrer clickId extras = Inr s"
  shows "decodeInstallReferrer s = set_all extras [(''omv'', ''1''), (''cid'', clickId)]"
proof -
  have base: "map_set ''cid'' clickId (map_set ''omv'' ''1'' []) = [(''omv'', ''1''), (''cid'', clickId)]" by (simp add: map_set_def)
  from assms have "s = params_to_string (set_all extras [(''omv'', ''1''), (''cid'', clickId)])"
    by (simp add: encodeInstallReferrer_def base guardR_eq_Inr)
  then show ?thesis
    by (simp add: decodeInstallReferrer_def params_roundtrip map_from_distinct set_all_distinct)
qed

lemma deferred_extras_get:
  "map_get (deferred_extras collation v entries) ''dl'' = Some v"
  "map_get (deferred_extras collation v entries) ''cid'' = None"
  "map_get (deferred_extras collation v entries) ''omv'' = None"
  "distinct (map fst (deferred_extras collation v entries))"
proof -
  let ?es = "map (\<lambda>p. (''dlp_'' @ fst p, snd p)) (sort_key (\<lambda>p. collation (fst p)) entries)"
  have none: "map_of (rev ?es) k = None" if "\<not> starts_with k ''dlp_''" for k
    using that by (auto simp: map_of_eq_None_iff starts_with_def)
  have "\<not> starts_with ''dl'' ''dlp_''" "\<not> starts_with ''cid'' ''dlp_''" "\<not> starts_with ''omv'' ''dlp_''" by (simp_all add: starts_with_def)
  moreover have "map_get (deferred_extras collation v entries) k = map_of [(''dl'', v)] k" if "\<not> starts_with k ''dlp_''" for k
    unfolding map_get_def [symmetric] by (simp only: deferred_extras_def set_all_get none [OF that] option.case)
  ultimately show "map_get (deferred_extras collation v entries) ''dl'' = Some v"
    "map_get (deferred_extras collation v entries) ''cid'' = None" "map_get (deferred_extras collation v entries) ''omv'' = None"
    by simp_all
  show "distinct (map fst (deferred_extras collation v entries))" by (simp add: deferred_extras_def set_all_distinct)
qed

lemma deferred_referrer:
  assumes "buildDeferredReferrer collation clickId v ps maximum = Inr (referrer, status)"
  shows "map_get (decodeInstallReferrer referrer) ''cid'' = Some clickId"
    and "map_get (decodeInstallReferrer referrer) ''dl'' = (if status = Carried then v else None)"
    and "status = Carried \<longleftrightarrow> truthy v \<and> status \<noteq> Omitted_Length"
    and "status = Carried \<Longrightarrow> deep_link_ok (the_or [] v) \<and> length referrer \<le> maximum"
    and "click_id_ok clickId"
proof -
  obtain minimal where m: "encodeInstallReferrer clickId [] = Inr minimal"
    using assms by (auto simp: buildDeferredReferrer_def bindR_eq_Inr)
  have dec: "map_get (decodeInstallReferrer minimal) ''cid'' = Some clickId" "map_get (decodeInstallReferrer minimal) ''dl'' = None"
    by (simp_all add: encode_decode [OF m] set_all_def map_get_def)
  show "click_id_ok clickId" using m by (simp add: encodeInstallReferrer_def guardR_eq_Inr)
  have *: "map_get (decodeInstallReferrer referrer) ''cid'' = Some clickId
    \<and> map_get (decodeInstallReferrer referrer) ''dl'' = (if status = Carried then v else None)
    \<and> (status = Carried \<longleftrightarrow> truthy v \<and> status \<noteq> Omitted_Length)
    \<and> (status = Carried \<longrightarrow> deep_link_ok (the_or [] v) \<and> length referrer \<le> maximum)"
  proof (cases "truthy v")
    case False
    then show ?thesis using assms dec by (auto simp: buildDeferredReferrer_def m)
  next
    case True
    then obtain x where v: "v = Some x" by (cases v) (auto simp: truthy_def)
    with True assms obtain e where ok: "deep_link_ok x"
      and e: "encodeInstallReferrer clickId (deferred_extras collation x (the_or [] ps)) = Inr e"
      and r: "(referrer, status) = (if length e \<le> maximum then (e, Carried) else (minimal, Omitted_Length))"
      by (auto simp: buildDeferredReferrer_def m bindR_eq_Inr assertDeepLinkValue_def guardR_eq_Inr the_or_def)
    have "map_get (decodeInstallReferrer e) ''cid'' = Some clickId" "map_get (decodeInstallReferrer e) ''dl'' = Some x"
      by (simp_all add: encode_decode [OF e] set_all_get map_of_rev_distinct deferred_extras_get, simp add: map_get_def)
    with r ok v True dec show ?thesis by (auto simp: the_or_def split: if_splits)
  qed
  then show "map_get (decodeInstallReferrer referrer) ''cid'' = Some clickId"
    "map_get (decodeInstallReferrer referrer) ''dl'' = (if status = Carried then v else None)"
    "status = Carried \<longleftrightarrow> truthy v \<and> status \<noteq> Omitted_Length" by blast+
  show "status = Carried \<Longrightarrow> deep_link_ok (the_or [] v) \<and> length referrer \<le> maximum" using * by blast
qed

text \<open>C36. Decoding an encoded install referrer gives back the click id and every extra parameter, whatever bytes they
  hold.\<close>

theorem referrer_roundtrip:
  assumes "encodeInstallReferrer clickId extras = Inr s"
  shows "decodeInstallReferrer s = set_all extras [(''omv'', ''1''), (''cid'', clickId)]"
  using assms by (rule encode_decode)

section \<open>Redirects\<close>

lemma resolveRedirect_click:
  assumes "resolveRedirect url_of url_text collation random ro = Inr r" and "rz_click r = Some c"
  obtains link u v deferred where "ro_link ro = Some link" and "redirectFallbackReason (Some link) (ro_platform ro) = None"
    and "buildDeferredReferrer collation (rk_click_id c) (rk_deep_link_value c) (ro_deepLinkParams ro)
      (the_or 512 (ro_referrerMaximumEncodedCharacters ro)) = Inr (rk_referrer c, rk_deferred_deep_link_status c)"
    and "length (rk_referrer c) \<le> the_or 512 (ro_referrerMaximumEncodedCharacters ro)"
    and "url_of (tl_destination_url link) = Some u" and "play_url link (rk_referrer c) u = Inr v"
    and "rk_destination_url c = url_text v" and "rz_headers r = redirect_headers (url_text v)"
    and "c = redirect_click_of ro link (rk_click_id c) (url_text v) (rk_referrer c, rk_deferred_deep_link_status c)"
proof -
  from assms obtain link where link: "ro_link ro = Some link" "redirectFallbackReason (Some link) (ro_platform ro) = None"
    by (auto simp: resolveRedirect_def fallbackResponse_def split: option.splits if_splits)
  with assms show thesis
    by (auto simp: resolveRedirect_def Let_def bindR_eq_Inr guardR_eq_Inr parse_url_def redirect_click_of_def
        split: option.splits intro!: that)
qed

text \<open>A redirect that records a click carries a referrer within the configured length that decodes to that click's id, and
  to its deep link exactly when the status says it was carried; the carried link is well formed.\<close>

theorem click_referrer_decodes:
  assumes "resolveRedirect url_of url_text collation random ro = Inr r" and "rz_click r = Some c"
  shows "length (rk_referrer c) \<le> the_or 512 (ro_referrerMaximumEncodedCharacters ro)
    \<and> map_get (decodeInstallReferrer (rk_referrer c)) ''cid'' = Some (rk_click_id c)
    \<and> map_get (decodeInstallReferrer (rk_referrer c)) ''dl'' = (if rk_deferred_deep_link_status c = Carried then rk_deep_link_value c else None)
    \<and> (rk_deferred_deep_link_status c = Carried \<longrightarrow> deep_link_ok (the_or [] (rk_deep_link_value c)))
    \<and> click_id_ok (rk_click_id c)"
proof -
  obtain link where d: "buildDeferredReferrer collation (rk_click_id c) (rk_deep_link_value c) (ro_deepLinkParams ro)
      (the_or 512 (ro_referrerMaximumEncodedCharacters ro)) = Inr (rk_referrer c, rk_deferred_deep_link_status c)"
    and l: "length (rk_referrer c) \<le> the_or 512 (ro_referrerMaximumEncodedCharacters ro)"
    by (rule resolveRedirect_click [OF assms])
  show ?thesis using l deferred_referrer [OF d] by blast
qed

text \<open>A redirect to the store names the application's package and the click's referrer once each and changes nothing else of the
  destination; any other destination is left as it is.\<close>

theorem store_destination_carries_referrer:
  assumes "resolveRedirect url_of url_text collation random ro = Inr r" and "rz_click r = Some c"
  shows "\<exists>link u ps. ro_link ro = Some link \<and> tl_status link = Active \<and> url_of (tl_destination_url link) = Some u
    \<and> rk_destination_url c = url_text (u\<lparr>ur_params := ps\<rparr>) \<and> rz_headers r = redirect_headers (rk_destination_url c)
    \<and> (if tl_destination_kind link = Play_Store
       then filter (\<lambda>p. fst p = ''referrer'') ps = [(''referrer'', rk_referrer c)] \<and> params_get ps ''id'' = tl_play_package_name link
         \<and> (\<forall>name. name \<notin> {''id'', ''referrer''} \<longrightarrow> params_get ps name = params_get (ur_params u) name)
       else ps = ur_params u)"
proof -
  obtain link u v where link: "ro_link ro = Some link" "redirectFallbackReason (Some link) (ro_platform ro) = None"
    and u: "url_of (tl_destination_url link) = Some u" "play_url link (rk_referrer c) u = Inr v"
    and v: "rk_destination_url c = url_text v" "rz_headers r = redirect_headers (url_text v)"
    by (rule resolveRedirect_click [OF assms])
  have "tl_status link = Active" using link(2) by (auto simp: redirectFallbackReason_def split: if_splits)
  moreover have "if tl_destination_kind link = Play_Store
       then filter (\<lambda>p. fst p = ''referrer'') (ur_params v) = [(''referrer'', rk_referrer c)]
         \<and> params_get (ur_params v) ''id'' = tl_play_package_name link
         \<and> (\<forall>name. name \<notin> {''id'', ''referrer''} \<longrightarrow> params_get (ur_params v) name = params_get (ur_params u) name)
       else ur_params v = ur_params u"
    using u(2) by (auto simp: play_url_def guardR_eq_Inr params_set_once params_get_set params_get_set_other the_or_def truthy_def
        split: if_splits option.splits)
  moreover have "v = u\<lparr>ur_params := ur_params v\<rparr>" using u(2) by (auto simp: play_url_def guardR_eq_Inr split: if_splits)
  ultimately show ?thesis using link(1) u(1) v by metis
qed

text \<open>A missing, paused, archived or unsupported link never records a click and goes to the fallback; every other resolution
  records one. Neither leaks the referrer header nor may be cached.\<close>

theorem click_exactly_when_active:
  assumes "resolveRedirect url_of url_text collation random ro = Inr r"
  shows "(rz_click r = None \<longleftrightarrow> redirectFallbackReason (ro_link ro) (ro_platform ro) \<noteq> None)
    \<and> (rz_click r = None \<longrightarrow> r = fallbackResponse (ro_fallbackDestination ro))
    \<and> rz_status r = 302 \<and> map_get (rz_headers r) ''cache-control'' = Some ''no-store''
    \<and> map_get (rz_headers r) ''referrer-policy'' = Some ''no-referrer''"
  using assms by (cases "ro_link ro")
    (auto simp: resolveRedirect_def fallbackResponse_def redirect_headers_def map_get_def redirectFallbackReason_def bindR_eq_Inr
      guardR_eq_Inr Let_def split: if_splits)

text \<open>An accepted destination carries no credentials and is the store, the store's application page, or \<open>https\<close> at an allowed
  origin.\<close>

theorem allowed_destination_safe:
  assumes "assertAllowedDestination url_of destination allowed = Inr u"
  shows "url_of destination = Some u \<and> ur_username u = [] \<and> ur_password u = []
    \<and> (ur_protocol u = ''market:'' \<and> ur_hostname u = ''details''
       \<or> ur_protocol u = ''https:'' \<and> (ur_hostname u = ''play.google.com'' \<and> ur_pathname u = ''/store/apps/details''
           \<or> (\<exists>origin \<in> set allowed. \<exists>w. url_of origin = Some w \<and> ur_origin w = ur_origin u)))"
proof -
  from assms obtain w where w: "url_of destination = Some w" by (auto simp: assertAllowedDestination_def split: option.splits)
  have "\<exists>origin \<in> set allowed. \<exists>x. url_of origin = Some x \<and> ur_origin x = ur_origin w"
    if "mapR (parse_url url_of) allowed = Inr origins" "ur_origin w \<in> ur_origin ` set origins" for origins
  proof -
    from that(2) obtain x where x: "x \<in> set origins" "ur_origin x = ur_origin w" by auto
    from mapR_mem [OF that(1) x(1)] x(2) show ?thesis by (auto simp: parse_url_def split: option.splits)
  qed
  with assms w show ?thesis
    by (auto simp: assertAllowedDestination_def bindR_eq_Inr guardR_eq_Inr split: if_splits)
qed

section \<open>Click identifiers\<close>

lemma base64_symbol_ok: "n < 64 \<Longrightarrow> id_symbol (base64_symbol n)"
proof -
  have "list_all id_symbol ''ABCDEFGHIJKLMNOPQRSTUVWXYZabcdefghijklmnopqrstuvwxyz0123456789-_''" by code_simp
  then show "n < 64 \<Longrightarrow> ?thesis" by (simp add: base64_symbol_def list_all_length)
qed

lemma base64url_ok: "\<forall>b \<in> set bytes. b < 256 \<Longrightarrow> list_all id_symbol (base64url bytes)"
  by (induction bytes rule: base64url.induct)
    (auto intro!: base64_symbol_ok simp: less_mult_imp_div_less)

lemma base64url_length: "length bytes = 3 * k \<Longrightarrow> length (base64url bytes) = 4 * k"
  by (induction bytes arbitrary: k rule: base64url.induct) (case_tac k; auto)+

text \<open>A generated click id has 44 symbols of the base64url alphabet, so the referrer encoder always accepts it.\<close>

theorem random_click_id_valid:
  assumes "length (random 33) = 33" and "\<forall>b \<in> set (random 33). b < 256"
  shows "length (randomClickId random) = 44 \<and> (\<exists>s. encodeInstallReferrer (randomClickId random) extras = Inr s)"
proof -
  have "length (randomClickId random) = 44" using base64url_length [of "random 33" 11] assms(1) by (simp add: randomClickId_def)
  moreover have "list_all id_symbol (randomClickId random)" using base64url_ok assms(2) by (simp add: randomClickId_def)
  ultimately show ?thesis by (simp add: encodeInstallReferrer_def click_id_ok_def guardR_def)
qed

section \<open>Declared parameters\<close>

definition bindable :: "string list \<Rightarrow> string \<times> string \<Rightarrow> bool" where
  "bindable declared p \<longleftrightarrow> starts_with (fst p) ''dlp_'' \<and> drop 4 (fst p) \<in> set declared \<and> link_segment (snd p)"

lemma bind_parameter_eq:
  "bind_parameter declared (values, dropped) p =
     (if bindable declared p then (map_set (drop 4 (fst p)) (snd p) values, dropped) else (values, dropped + 1))"
  by (simp add: bind_parameter_def bindable_def)

lemma bind_fold:
  "foldl (bind_parameter declared) (values, dropped) source =
     (set_all (map (\<lambda>p. (drop 4 (fst p), snd p)) (filter (bindable declared) source)) values,
      dropped + length (filter (\<lambda>p. \<not> bindable declared p) source))"
  by (induction source arbitrary: "values" dropped) (simp_all add: bind_parameter_eq set_all_def)

text \<open>Only declared, well-formed parameters are bound, the last of a name winning, and every other one is counted as dropped.\<close>

theorem bound_parameters_declared:
  "map_get (fst (bindDeepLinkParameters source declared)) name
     = map_of (rev (map (\<lambda>p. (drop 4 (fst p), snd p)) (filter (bindable declared) source))) name
   \<and> snd (bindDeepLinkParameters source declared) = length source - length (filter (bindable declared) source)"
proof -
  have "length source = length (filter (bindable declared) source) + length (filter (\<lambda>p. \<not> bindable declared p) source)"
    using sum_length_filter_compl [of "bindable declared" source] by simp
  then show ?thesis by (simp add: bindDeepLinkParameters_def bind_fold set_all_get split: option.splits)
qed

section \<open>Concrete redirects\<close>

definition sample_click_id :: string where "sample_click_id = ''AbCdEf0123456789_-abcd''"

definition sample_link :: tracking_link where
  "sample_link = \<lparr> tl_id = ''l'', tl_tenant_id = ''t'', tl_app_id = ''a'', tl_slug = ''s'', tl_destination_kind = Play_Store,
     tl_destination_url = ''u'', tl_play_package_name = Some ''p'', tl_network = None, tl_site_id = None, tl_campaign_id = None,
     tl_ad_group_id = None, tl_creative_id = None, tl_deep_link_value = Some ''/a/b'', tl_deep_link_param_names = None,
     tl_deferred_deep_link_ttl_seconds = None, tl_status = Active \<rparr>"

definition sample_url :: url where
  "sample_url = \<lparr> ur_protocol = ''https:'', ur_username = [], ur_password = [], ur_hostname = ''play.google.com'',
     ur_pathname = ''/store/apps/details'', ur_origin = ''https://play.google.com'', ur_params = [], ur_hash = [] \<rparr>"

definition sample_redirect :: "redirect_resolution res" where
  "sample_redirect = resolveRedirect (\<lambda>s. Some sample_url) (\<lambda>u. params_to_string (ur_params u)) id (\<lambda>n. replicate n 0)
     \<lparr> ro_link = Some sample_link, ro_fallbackDestination = ''f'', ro_now = ''n'', ro_clickId = Some sample_click_id,
       ro_remoteClickRef = None, ro_sourceRateClass = None, ro_clientClass = Some Mobile_App_Eligible, ro_deepLinkParams = Some [(''x'', ''1'')],
       ro_referrerMaximumEncodedCharacters = None, ro_deepLinkValue = None, ro_platform = Some Android \<rparr>"

lemma sample_redirect_click:
  "case sample_redirect of Inr r \<Rightarrow> (case rz_click r of
       Some c \<Rightarrow> rk_deferred_deep_link_status c = Carried \<and> rk_deep_link_value c = Some ''/a/b'' \<and> rk_click_id c = sample_click_id
         \<and> rk_referrer c = ''omv=1&cid=AbCdEf0123456789_-abcd&dl=%2Fa%2Fb&dlp_x=1''
     | None \<Rightarrow> False) | Inl m \<Rightarrow> False"
  by code_simp

lemma sample_redirected:
  obtains r c where "sample_redirect = Inr r" "rz_click r = Some c" "rk_deferred_deep_link_status c = Carried"
    "rk_deep_link_value c = Some ''/a/b''" "rk_click_id c = sample_click_id"
  using sample_redirect_click by (auto split: sum.splits option.splits)

lemma sample_click_id_ok: "click_id_ok sample_click_id"
  by code_simp

theorem referrer_roundtrip_witness:
  "\<exists>s. encodeInstallReferrer sample_click_id [(''dl'', ''/a b'')] = Inr s
    \<and> decodeInstallReferrer s = [(''omv'', ''1''), (''cid'', sample_click_id), (''dl'', ''/a b'')]"
proof -
  obtain s where s: "encodeInstallReferrer sample_click_id [(''dl'', ''/a b'')] = Inr s"
    using sample_click_id_ok by (simp add: encodeInstallReferrer_def guardR_def)
  from referrer_roundtrip [OF s] s show ?thesis by (simp add: set_all_def map_set_def)
qed

theorem click_referrer_decodes_witness:
  "\<exists>r c. sample_redirect = Inr r \<and> rz_click r = Some c \<and> map_get (decodeInstallReferrer (rk_referrer c)) ''dl'' = Some ''/a/b''"
proof -
  obtain r c where r: "sample_redirect = Inr r" "rz_click r = Some c" "rk_deferred_deep_link_status c = Carried"
    "rk_deep_link_value c = Some ''/a/b''" by (rule sample_redirected)
  from click_referrer_decodes [OF r(1) [unfolded sample_redirect_def] r(2)] r show ?thesis by auto
qed

theorem store_destination_carries_referrer_witness:
  "\<exists>r c ps. sample_redirect = Inr r \<and> rz_click r = Some c \<and> rk_destination_url c = params_to_string ps \<and> params_get ps ''id'' = Some ''p''"
proof -
  obtain r c where r: "sample_redirect = Inr r" "rz_click r = Some c" by (rule sample_redirected)
  from store_destination_carries_referrer [OF r(1) [unfolded sample_redirect_def] r(2)]
  have "\<exists>ps. rk_destination_url c = params_to_string ps \<and> params_get ps ''id'' = Some ''p''" by (auto simp: sample_link_def)
  with r show ?thesis by blast
qed

theorem click_exactly_when_active_witness: "\<exists>r. sample_redirect = Inr r \<and> rz_click r \<noteq> None \<and> rz_status r = 302"
proof -
  obtain r c where r: "sample_redirect = Inr r" "rz_click r = Some c" by (rule sample_redirected)
  from click_exactly_when_active [OF r(1) [unfolded sample_redirect_def]] r show ?thesis by blast
qed

theorem allowed_destination_safe_witness: "ur_username sample_url = [] \<and> ur_password sample_url = []"
proof -
  have "assertAllowedDestination (\<lambda>s. Some sample_url) ''u'' [] = Inr sample_url"
    by (simp add: assertAllowedDestination_def sample_url_def)
  from allowed_destination_safe [OF this] show ?thesis by blast
qed

theorem random_click_id_valid_witness: "length (randomClickId (\<lambda>n. replicate n 255)) = 44"
  using random_click_id_valid [of "\<lambda>n. replicate n 255"] by simp

end
