(* ===== verification/Js_Number.thy ===== *)
theory Js_Number
  imports Instants Doubles
begin

text \<open>
  \<open>Number(text)\<close> and \<open>String(number)\<close> of the language. A number is the rational that its double denotes.
  \<open>js_number\<close> reads every numeric text; \<open>None\<close> stands for NaN and the infinities. \<open>integer_text\<close> prints an
  integral double: up to \<open>2 ^ 53\<close> its digits, beyond that the shortest digits that read back as the same
  double, with an exponent from \<open>10 ^ 21\<close> on.
\<close>

section \<open>Reading\<close>

text \<open>The UTF-8 encodings of white space and line terminators.\<close>

definition white_space :: "string list" where
  "white_space =
     [[CHR 0x09], [CHR 0x0A], [CHR 0x0B], [CHR 0x0C], [CHR 0x0D], [CHR 0x20], [CHR 0xC2, CHR 0xA0], [CHR 0xEF, CHR 0xBB,
     CHR 0xBF], [CHR 0xE1, CHR 0x9A, CHR 0x80], [CHR 0xE2, CHR 0x80, CHR 0x80], [CHR 0xE2, CHR 0x80, CHR 0x81],
     [CHR 0xE2, CHR 0x80, CHR 0x82], [CHR 0xE2, CHR 0x80, CHR 0x83], [CHR 0xE2, CHR 0x80, CHR 0x84], [CHR 0xE2, CHR 0x80,
     CHR 0x85], [CHR 0xE2, CHR 0x80, CHR 0x86], [CHR 0xE2, CHR 0x80, CHR 0x87], [CHR 0xE2, CHR 0x80, CHR 0x88],
     [CHR 0xE2, CHR 0x80, CHR 0x89], [CHR 0xE2, CHR 0x80, CHR 0x8A], [CHR 0xE2, CHR 0x80, CHR 0xA8], [CHR 0xE2, CHR 0x80,
     CHR 0xA9], [CHR 0xE2, CHR 0x80, CHR 0xAF], [CHR 0xE2, CHR 0x81, CHR 0x9F], [CHR 0xE3, CHR 0x80, CHR 0x80]]"

function trim_left :: "string list \<Rightarrow> string \<Rightarrow> string" where
  "trim_left ws s = (case find (\<lambda>w. w \<noteq> [] \<and> take (length w) s = w) ws of None \<Rightarrow> s | Some w \<Rightarrow> trim_left ws (drop (length w) s))"
  by pat_completeness auto
termination
proof (relation "measure (length \<circ> snd)")
  fix ws s w
  assume "find (\<lambda>w. w \<noteq> [] \<and> take (length w) s = w) ws = Some w"
  then have "w \<noteq> []" "take (length w) s = w" by (auto simp: find_Some_iff)
  then have "0 < length w" "length w \<le> length s" by (simp, metis length_take min.absorb_iff2 min.commute)
  then show "((ws, drop (length w) s), ws, s) \<in> measure (length \<circ> snd)" by (cases s) auto
qed simp

declare trim_left.simps [simp del]

definition js_trim :: "string \<Rightarrow> string" where
  "js_trim s = rev (trim_left (map rev white_space) (rev (trim_left white_space s)))"

definition radix_digit :: "char \<Rightarrow> nat option" where
  "radix_digit c = (let n = of_char c :: nat in
     if 48 \<le> n \<and> n \<le> 57 then Some (n - 48) else if 65 \<le> n \<and> n \<le> 90 then Some (n - 55)
     else if 97 \<le> n \<and> n \<le> 122 then Some (n - 87) else None)"

fun radix_value :: "nat \<Rightarrow> nat \<Rightarrow> string \<Rightarrow> nat option" where
  "radix_value b acc [] = Some acc"
| "radix_value b acc (c # s) = (case radix_digit c of Some d \<Rightarrow> if d < b then radix_value b (b * acc + d) s else None | None \<Rightarrow> None)"

definition radix_text :: "nat \<Rightarrow> string \<Rightarrow> nat option" where
  "radix_text b s = (if s = [] then None else radix_value b 0 s)"

definition signed_text :: "(string \<Rightarrow> 'a option) \<Rightarrow> string \<Rightarrow> (int \<times> 'a) option" where
  "signed_text f s =
     (case s of
        CHR ''-'' # t \<Rightarrow> map_option (Pair (- 1)) (f t)
      | CHR ''+'' # t \<Rightarrow> map_option (Pair 1) (f t)
      | _ \<Rightarrow> map_option (Pair 1) (f s))"

text \<open>Digits with at most one point: their value without the point, and how many follow it.\<close>

definition unsigned_decimal :: "string \<Rightarrow> (nat \<times> nat) option" where
  "unsigned_decimal s =
     (case split_on (CHR ''.'') s of
        [whole] \<Rightarrow> map_option (\<lambda>n. (n, 0)) (dec_value whole)
      | [whole, part] \<Rightarrow> map_option (\<lambda>n. (n, length part)) (dec_value (whole @ part))
      | _ \<Rightarrow> None)"

text \<open>The same with an exponent after \<open>e\<close> or \<open>E\<close>.\<close>

definition decimal_text :: "string \<Rightarrow> rat option" where
  "decimal_text s =
     (let m = takeWhile (\<lambda>c. c \<notin> {CHR ''e'', CHR ''E''}) s; r = drop (length m) s in
      case (signed_text unsigned_decimal m, if r = [] then Some (1, 0) else signed_text dec_value (tl r)) of
        (Some (sign, n, j), Some (way, e)) \<Rightarrow>
          let k = way * int e - int j; x = sign * int n in
          Some (if 0 \<le> k then of_int x * 10 ^ nat k else of_int x / 10 ^ nat (- k))
      | _ \<Rightarrow> None)"

definition js_number :: "string \<Rightarrow> rat option" where
  "js_number text =
     (let s = js_trim text; prefix = take 2 s; digits = drop 2 s in
      map_option double_round
       (if s = [] then Some 0
        else if prefix \<in> {''0x'', ''0X''} then map_option of_nat (radix_text 16 digits)
        else if prefix \<in> {''0o'', ''0O''} then map_option of_nat (radix_text 8 digits)
        else if prefix \<in> {''0b'', ''0B''} then map_option of_nat (radix_text 2 digits)
        else decimal_text s))"

section \<open>Printing\<close>

definition MAX_SAFE_INTEGER :: int where "MAX_SAFE_INTEGER = 9007199254740991"

text \<open>The multiple of \<open>10 ^ j\<close> that reads back as \<open>n\<close>, the closest one when there are two.\<close>

definition rounded_at :: "int \<Rightarrow> nat \<Rightarrow> int option" where
  "rounded_at n j =
     (let lower = n div 10 ^ j; upper = lower + 1;
          ok = (\<lambda>m. 0 < m \<and> double_round (of_int (m * 10 ^ j)) = of_int n) in
      if ok lower \<and> (\<not> ok upper \<or> n - lower * 10 ^ j \<le> upper * 10 ^ j - n) then Some lower
      else if ok upper then Some upper else None)"

text \<open>The fewest digits: the largest power of ten with such a multiple.\<close>

fun shortest_digits :: "int \<Rightarrow> nat \<Rightarrow> int \<times> nat" where
  "shortest_digits n 0 = (n, 0)"
| "shortest_digits n (Suc j) = (case rounded_at n (Suc j) of Some m \<Rightarrow> (m, Suc j) | None \<Rightarrow> shortest_digits n j)"

definition large_text :: "int \<Rightarrow> string" where
  "large_text n =
     (let (m, j) = shortest_digits n (length (show_int n)); ds = show_int m; e = length ds + j - 1 in
      if e < 21 then ds @ replicate j (CHR ''0'')
      else hd ds # (if tl ds = [] then [] else CHR ''.'' # tl ds) @ ''e+'' @ show_nat e)"

definition integer_text :: "int \<Rightarrow> string" where
  "integer_text n =
     (if \<bar>n\<bar> \<le> MAX_SAFE_INTEGER then show_int n else if n < 0 then CHR ''-'' # large_text (- n) else large_text n)"

lemma js_number_examples: "js_number ''3'' = Some 3" "js_number ''.'' = None" by code_simp+

lemma decimal_text_example: "decimal_text ''-1.5e1'' = Some (- 15)" by code_simp

end
