(* ===== verification/Json.thy ===== *)
theory Json
  imports Js_Number
begin

text \<open>
  Parsed JSON values as the receivers of the stores' documents see them, and the tests they apply. A
  number is the exact value of its double; an absent member and \<open>undefined\<close> are \<open>None\<close>. Texts are the
  bytes of their UTF-8 encoding, so \<open>Buffer.byteLength\<close> is the length.
\<close>

datatype json = JNull | JBool bool | JNum rat | JStr string | JArr "json list" | JObj "(string \<times> json) list"

type_synonym json_object = "(string \<times> json) list"

definition member :: "json_object \<Rightarrow> string \<Rightarrow> json option" where
  "member obj name = map_of obj name"

text \<open>\<open>Number.isInteger\<close> and \<open>Number.isSafeInteger\<close>, with the integer.\<close>

definition integer_of :: "json \<Rightarrow> int option" where
  "integer_of v = (case v of JNum q \<Rightarrow> if of_int \<lfloor>q\<rfloor> = q then Some \<lfloor>q\<rfloor> else None | _ \<Rightarrow> None)"

definition safe_integer_of :: "json \<Rightarrow> int option" where
  "safe_integer_of v = (case integer_of v of Some n \<Rightarrow> if \<bar>n\<bar> \<le> MAX_SAFE_INTEGER then Some n else None | None \<Rightarrow> None)"

text \<open>
  \<open>String(v)\<close>, where the code compares it with words or digits: \<open>None\<close> stands for the text of a fraction, of
  several elements or of an object, which has a point, an exponent, a comma or a bracket and equals none of them.
\<close>

fun js_text :: "json \<Rightarrow> string option" where
  "js_text JNull = Some ''null''"
| "js_text (JBool b) = Some (if b then ''true'' else ''false'')"
| "js_text (JNum q) = map_option integer_text (integer_of (JNum q))"
| "js_text (JStr s) = Some s"
| "js_text (JArr []) = Some []"
| "js_text (JArr [v]) = (if v = JNull then Some [] else js_text v)"
| "js_text (JArr (v # w # vs)) = None"
| "js_text (JObj ms) = None"

definition currency_code :: "string \<Rightarrow> bool" where
  "currency_code s \<longleftrightarrow> length s = 3 \<and> list_all is_upper s"

lemma integer_of_int [simp]: "integer_of (JNum (of_int n)) = Some n"
  by (simp add: integer_of_def)

lemma integer_of_numeral [simp]: "integer_of (JNum (numeral k)) = Some (numeral k)" "integer_of (JNum 0) = Some 0" "integer_of (JNum 1) = Some 1"
  by (simp_all add: integer_of_def)

lemma safe_integer_Some:
  "safe_integer_of v = Some n \<longleftrightarrow> v = JNum (of_int n) \<and> \<bar>n\<bar> \<le> MAX_SAFE_INTEGER"
  by (auto simp: safe_integer_of_def integer_of_def split: json.splits option.splits if_splits)

end
