(* ===== verification/Apple_Transaction.thy ===== *)
theory Apple_Transaction
  imports Json
begin

text \<open>
  \<open>normalizeAppleTransaction\<close> of \<open>packages/commerce-lifecycle/src/apple-transaction.ts\<close>. The verifier of the
  signed text is an argument. The theorems bound the derived refund by the price and tie every monetary
  part to an owned purchase and a later revocation.
\<close>

record apple_money =
  am_amountUnscaled :: int
  am_amountScale :: nat
  am_currencyCode :: string

datatype refund_basis = Full_Transaction_Price | Prorated_Transaction_Price

record apple_refund =
  ar_money :: apple_money
  ar_basis :: refund_basis
  ar_percentage :: "int option"

record apple_transaction =
  ax_transactionId :: string
  ax_originalTransactionId :: string
  ax_bundleId :: string
  ax_productId :: string
  ax_environment :: string
  ax_appAccountToken :: "string option"
  ax_purchaseAt :: string
  ax_signedAt :: string
  ax_quantity :: "int option"
  ax_ownership :: "string option"
  ax_purchase :: "apple_money option"
  ax_purchaseExclusion :: "string option"
  ax_revocationAt :: "string option"
  ax_refund :: "apple_refund option"
  ax_refundExclusion :: "string option"

definition transaction_invalid :: "string \<Rightarrow> string" where
  "transaction_invalid label = ''apple_transaction_'' @ label @ ''_invalid''"

definition apple_text :: "json option \<Rightarrow> string \<Rightarrow> nat \<Rightarrow> string res" where
  "apple_text v label maximum =
     (case v of
        Some (JStr s) \<Rightarrow> guardR (1 \<le> length s \<and> length s \<le> maximum) (transaction_invalid label) (Inr s)
      | _ \<Rightarrow> throw (transaction_invalid label))"

text \<open>The last instant of the year 9999 is 253402300799999; every earlier one has a finite date.\<close>

definition apple_instant :: "json option \<Rightarrow> string \<Rightarrow> int res" where
  "apple_instant v label =
     (case v of
        None \<Rightarrow> throw (transaction_invalid label)
      | Some j \<Rightarrow> (case safe_integer_of j of
            None \<Rightarrow> throw (transaction_invalid label)
          | Some n \<Rightarrow> guardR (0 \<le> n \<and> n \<le> 253402300799999) (transaction_invalid label) (Inr n)))"

text \<open>An optional member that must pass a test when it is there.\<close>

definition optionalR :: "(json \<Rightarrow> 'a res) \<Rightarrow> json option \<Rightarrow> 'a option res" where
  "optionalR f v = (case v of None \<Rightarrow> Inr None | Some j \<Rightarrow> bindR (f j) (\<lambda>x. Inr (Some x)))"

definition hex_lower :: "char \<Rightarrow> bool" where
  "hex_lower c \<longleftrightarrow> is_digit c \<or> (CHR ''a'' \<le> c \<and> c \<le> CHR ''f'')"

definition account_token_ok :: "string \<Rightarrow> bool" where
  "account_token_ok s \<longleftrightarrow> map length (split_on (CHR ''-'') s) = [8, 4, 4, 4, 12] \<and> list_all (list_all hex_lower) (split_on (CHR ''-'') s)"

definition account_token :: "json \<Rightarrow> string res" where
  "account_token j = bindR (apple_text (Some j) ''token'' 36) (\<lambda>s.
     let token = map lower_ascii s in guardR (account_token_ok token) (transaction_invalid ''token'') (Inr token))"

definition bounded_integer :: "int \<Rightarrow> int \<Rightarrow> string \<Rightarrow> json \<Rightarrow> int res" where
  "bounded_integer low high label j =
     (case safe_integer_of j of
        None \<Rightarrow> throw (transaction_invalid label)
      | Some n \<Rightarrow> guardR (low \<le> n \<and> n \<le> high) (transaction_invalid label) (Inr n))"

definition transaction_currency :: "json \<Rightarrow> string res" where
  "transaction_currency j =
     (case j of JStr s \<Rightarrow> guardR (currency_code s) (transaction_invalid ''currency'') (Inr s)
      | _ \<Rightarrow> throw (transaction_invalid ''currency''))"

text \<open>The refund or the reason for having none. A percentage that is not a number in the last branch is a \<open>TypeError\<close>.\<close>

definition apple_refund_of :: "json_object \<Rightarrow> apple_money option \<Rightarrow> int option \<Rightarrow> int option \<Rightarrow>
    (apple_refund option \<times> string option) res" where
  "apple_refund_of value purchase revocationAt percentage =
     (let kind = member value ''revocationType'' in
      if revocationAt = None \<and> kind = None \<and> percentage = None then Inr (None, None)
      else if kind = None \<or> js_text (the_or JNull kind) \<notin> {Some ''REFUND_FULL'', Some ''REFUND_PRORATED''}
      then Inr (None, Some ''revocation_not_monetary'')
      else if purchase = None \<or> revocationAt = None \<or> (kind = Some (JStr ''REFUND_PRORATED'') \<and> percentage = None)
      then Inr (None, Some ''refund_basis_unavailable'')
      else if kind = Some (JStr ''REFUND_FULL'') then
        (if percentage \<noteq> None \<and> percentage \<noteq> Some 100000 then Inr (None, Some ''refund_basis_inconsistent'')
         else Inr (map_option (\<lambda>m. \<lparr> ar_money = m, ar_basis = Full_Transaction_Price, ar_percentage = None \<rparr>) purchase, None))
      else (case percentage of
          None \<Rightarrow> throw ''Cannot convert undefined to a BigInt''
        | Some p \<Rightarrow> Inr (map_option (\<lambda>m. \<lparr> ar_money = \<lparr> am_amountUnscaled = am_amountUnscaled m * p, am_amountScale = 8,
              am_currencyCode = am_currencyCode m \<rparr>, ar_basis = Prorated_Transaction_Price, ar_percentage = Some p \<rparr>) purchase, None)))"

record apple_fields =
  af_transactionId :: string
  af_originalTransactionId :: string
  af_productId :: string
  af_purchaseAt :: int
  af_signedAt :: int
  af_appAccountToken :: "string option"
  af_quantity :: "int option"
  af_ownership :: "string option"
  af_price :: "int option"
  af_currency :: "string option"

definition apple_fields_of :: "json_object \<Rightarrow> apple_fields res" where
  "apple_fields_of value =
     bindR (apple_text (member value ''transactionId'') ''id'' 128) (\<lambda>transactionId.
     bindR (apple_text (member value ''originalTransactionId'') ''original_id'' 128) (\<lambda>originalTransactionId.
     bindR (apple_text (member value ''productId'') ''product'' 255) (\<lambda>productId.
     bindR (apple_instant (member value ''purchaseDate'') ''purchase_date'') (\<lambda>purchaseAt.
     bindR (apple_instant (member value ''signedDate'') ''signed_date'') (\<lambda>signedAt.
     bindR (optionalR account_token (member value ''appAccountToken'')) (\<lambda>token.
     bindR (optionalR (bounded_integer 1 10000 ''quantity'') (member value ''quantity'')) (\<lambda>quantity.
     bindR (optionalR (\<lambda>j. apple_text (Some j) ''ownership'' 64) (member value ''inAppOwnershipType'')) (\<lambda>ownership.
     bindR (optionalR (bounded_integer 0 MAX_SAFE_INTEGER ''price'') (member value ''price'')) (\<lambda>price.
     bindR (optionalR transaction_currency (member value ''currency'')) (\<lambda>currency.
       Inr \<lparr> af_transactionId = transactionId, af_originalTransactionId = originalTransactionId, af_productId = productId,
         af_purchaseAt = purchaseAt, af_signedAt = signedAt, af_appAccountToken = token, af_quantity = quantity,
         af_ownership = ownership, af_price = price, af_currency = currency \<rparr>))))))))))"

text \<open>The price already includes the quantity.\<close>

definition fields_money :: "apple_fields \<Rightarrow> apple_money option" where
  "fields_money f =
     (case (af_price f, af_currency f) of
        (Some p, Some c) \<Rightarrow> Some \<lparr> am_amountUnscaled = p, am_amountScale = 3, am_currencyCode = c \<rparr>
      | _ \<Rightarrow> None)"

definition fields_purchase :: "apple_fields \<Rightarrow> apple_money option" where
  "fields_purchase f = (if af_ownership f = Some ''PURCHASED'' then fields_money f else None)"

definition purchase_exclusion :: "apple_fields \<Rightarrow> string option" where
  "purchase_exclusion f =
     (if af_ownership f \<noteq> Some ''PURCHASED'' then Some ''ownership_not_purchased''
      else if fields_money f = None then Some ''money_missing'' else None)"

definition revoked_before :: "int option \<Rightarrow> int \<Rightarrow> bool" where
  "revoked_before revocationAt purchaseAt \<longleftrightarrow>
     (case revocationAt of None \<Rightarrow> False | Some r \<Rightarrow> toISOString r < toISOString purchaseAt)"

definition normalizeAppleTransaction :: "(string \<Rightarrow> json_object res) \<Rightarrow> string \<Rightarrow> string \<Rightarrow> string \<Rightarrow> apple_transaction res" where
  "normalizeAppleTransaction verifySignedData signed bundleId environment =
     bindR (verifySignedData signed) (\<lambda>value.
     guardR (member value ''bundleId'' = Some (JStr bundleId) \<and> member value ''environment'' = Some (JStr environment))
       ''apple_transaction_scope_mismatch''
     (bindR (apple_fields_of value) (\<lambda>f.
      bindR (optionalR (\<lambda>j. apple_instant (Some j) ''revocation_date'') (member value ''revocationDate'')) (\<lambda>revocationAt.
      guardR (\<not> revoked_before revocationAt (af_purchaseAt f)) ''apple_transaction_revocation_date_invalid''
      (bindR (optionalR (bounded_integer 0 100000 ''revocation_percentage'') (member value ''revocationPercentage'')) (\<lambda>percentage.
      bindR (apple_refund_of value (fields_purchase f) revocationAt percentage) (\<lambda>refund.
        Inr \<lparr> ax_transactionId = af_transactionId f, ax_originalTransactionId = af_originalTransactionId f, ax_bundleId = bundleId,
          ax_productId = af_productId f, ax_environment = environment, ax_appAccountToken = af_appAccountToken f,
          ax_purchaseAt = toISOString (af_purchaseAt f), ax_signedAt = toISOString (af_signedAt f), ax_quantity = af_quantity f,
          ax_ownership = af_ownership f, ax_purchase = fields_purchase f,
          ax_purchaseExclusion = (if fields_purchase f = None then purchase_exclusion f else None),
          ax_revocationAt = map_option toISOString revocationAt, ax_refund = fst refund, ax_refundExclusion = snd refund \<rparr>)))))))"

section \<open>Money\<close>

definition apple_value :: "apple_money \<Rightarrow> rat" where
  "apple_value m = of_int (am_amountUnscaled m) / 10 ^ am_amountScale m"

lemma bounded_integer_Inr:
  "bounded_integer low high label j = Inr n \<longleftrightarrow> j = JNum (of_int n) \<and> \<bar>n\<bar> \<le> MAX_SAFE_INTEGER \<and> low \<le> n \<and> n \<le> high"
proof -
  have "bounded_integer low high label j = Inr n \<longleftrightarrow> safe_integer_of j = Some n \<and> low \<le> n \<and> n \<le> high"
    by (auto simp: bounded_integer_def guardR_eq_Inr split: option.splits)
  then show ?thesis by (auto simp: safe_integer_Some)
qed

lemma optionalR_Inr: "optionalR f v = Inr (Some x) \<longleftrightarrow> (\<exists>j. v = Some j \<and> f j = Inr x)"
  by (auto simp: optionalR_def bindR_eq_Inr split: option.splits)

lemma refund_of_bounds:
  assumes "apple_refund_of value purchase revocationAt percentage = Inr (Some r, e)"
    and "\<And>p. percentage = Some p \<Longrightarrow> 0 \<le> p \<and> p \<le> 100000" and "\<And>m. purchase = Some m \<Longrightarrow> 0 \<le> am_amountUnscaled m \<and> am_amountScale m = 3"
  obtains m t where "purchase = Some m" and "revocationAt = Some t" and "e = None"
    and "0 \<le> apple_value (ar_money r)" and "apple_value (ar_money r) \<le> apple_value m" and "am_currencyCode (ar_money r) = am_currencyCode m"
    and "ar_basis r = Full_Transaction_Price \<Longrightarrow> ar_money r = m"
proof -
  from assms(1) obtain m t where m: "purchase = Some m" "revocationAt = Some t" "e = None"
    by (auto simp: apple_refund_of_def Let_def split: if_splits option.splits)
  note m3 = assms(3) [OF m(1)]
  from assms(1) m consider "r = \<lparr> ar_money = m, ar_basis = Full_Transaction_Price, ar_percentage = None \<rparr>"
    | p where "percentage = Some p" "r = \<lparr> ar_money = \<lparr> am_amountUnscaled = am_amountUnscaled m * p, am_amountScale = 8,
        am_currencyCode = am_currencyCode m \<rparr>, ar_basis = Prorated_Transaction_Price, ar_percentage = Some p \<rparr>"
    by (auto simp: apple_refund_of_def Let_def split: if_splits option.splits)
  then show thesis
  proof cases
    case 1
    then show ?thesis using m m3 by (intro that [of m t]) (auto simp: apple_value_def)
  next
    case 2
    have p: "0 \<le> p" "p \<le> 100000" using assms(2) 2 by auto
    have "am_amountUnscaled m * p \<le> am_amountUnscaled m * 100000" using m3 p by (intro mult_left_mono) auto
    then have "(of_int (am_amountUnscaled m * p) :: rat) \<le> of_int (am_amountUnscaled m * 100000)" by (simp only: of_int_le_iff)
    then have "apple_value (ar_money r) \<le> apple_value m" using 2 m3 by (simp add: apple_value_def field_simps)
    moreover have "0 \<le> apple_value (ar_money r)" using 2 m3 p by (simp add: apple_value_def)
    ultimately show ?thesis using m 2 by (intro that [of m t]) auto
  qed
qed

lemma apple_instant_Inr: "apple_instant v label = Inr t \<Longrightarrow> 0 \<le> t \<and> t \<le> 253402300799999"
  by (auto simp: apple_instant_def guardR_eq_Inr split: option.splits)

lemma apple_fields_Inr:
  assumes "apple_fields_of value = Inr f"
  shows "0 \<le> af_purchaseAt f \<and> af_purchaseAt f \<le> 253402300799999"
    and "fields_purchase f = Some m \<Longrightarrow> af_ownership f = Some ''PURCHASED'' \<and> 0 \<le> am_amountUnscaled m \<and> am_amountScale m = 3"
proof -
  from assms have "apple_instant (member value ''purchaseDate'') ''purchase_date'' = Inr (af_purchaseAt f)"
    and p: "optionalR (bounded_integer 0 MAX_SAFE_INTEGER ''price'') (member value ''price'') = Inr (af_price f)"
    by (auto simp: apple_fields_of_def bindR_eq_Inr)
  then show "0 \<le> af_purchaseAt f \<and> af_purchaseAt f \<le> 253402300799999" by (blast dest: apple_instant_Inr)
  have "0 \<le> n" if "af_price f = Some n" for n using p that by (auto simp: optionalR_Inr bounded_integer_Inr)
  then show "fields_purchase f = Some m \<Longrightarrow> af_ownership f = Some ''PURCHASED'' \<and> 0 \<le> am_amountUnscaled m \<and> am_amountScale m = 3"
    by (auto simp: fields_purchase_def fields_money_def split: if_splits option.splits)
qed

lemma normalized_Inr:
  assumes "normalizeAppleTransaction verifySignedData signed bundleId environment = Inr x"
  obtains "value" f revocationAt percentage where "verifySignedData signed = Inr value"
    and "member value ''bundleId'' = Some (JStr bundleId)" and "member value ''environment'' = Some (JStr environment)"
    and "apple_fields_of value = Inr f" and "ax_purchase x = fields_purchase f" and "ax_ownership x = af_ownership f"
    and "ax_purchaseAt x = toISOString (af_purchaseAt f)" and "ax_revocationAt x = map_option toISOString revocationAt"
    and "\<forall>r. revocationAt = Some r \<longrightarrow> 0 \<le> r \<and> r \<le> 253402300799999 \<and> \<not> toISOString r < toISOString (af_purchaseAt f)"
    and "\<forall>p. percentage = Some p \<longrightarrow> 0 \<le> p \<and> p \<le> 100000"
    and "apple_refund_of value (fields_purchase f) revocationAt percentage = Inr (ax_refund x, ax_refundExclusion x)"
    and "ax_bundleId x = bundleId" and "ax_environment x = environment"
proof -
  from assms obtain "value" f revocationAt percentage refund where
    v: "verifySignedData signed = Inr value" "member value ''bundleId'' = Some (JStr bundleId)"
      "member value ''environment'' = Some (JStr environment)" "apple_fields_of value = Inr f"
    and r: "optionalR (\<lambda>j. apple_instant (Some j) ''revocation_date'') (member value ''revocationDate'') = Inr revocationAt"
      "\<not> revoked_before revocationAt (af_purchaseAt f)"
    and p: "optionalR (bounded_integer 0 100000 ''revocation_percentage'') (member value ''revocationPercentage'') = Inr percentage"
    and q: "apple_refund_of value (fields_purchase f) revocationAt percentage = Inr refund"
    and x: "ax_purchase x = fields_purchase f" "ax_ownership x = af_ownership f" "ax_purchaseAt x = toISOString (af_purchaseAt f)"
      "ax_revocationAt x = map_option toISOString revocationAt" "ax_refund x = fst refund" "ax_refundExclusion x = snd refund"
      "ax_bundleId x = bundleId" "ax_environment x = environment"
    by (auto simp: normalizeAppleTransaction_def bindR_eq_Inr guardR_eq_Inr)
  show thesis
  proof (rule that [OF v x(1-4)])
    show "\<forall>t. revocationAt = Some t \<longrightarrow> 0 \<le> t \<and> t \<le> 253402300799999 \<and> \<not> toISOString t < toISOString (af_purchaseAt f)"
      using r by (auto simp: optionalR_Inr revoked_before_def dest: apple_instant_Inr)
    show "\<forall>u. percentage = Some u \<longrightarrow> 0 \<le> u \<and> u \<le> 100000" using p by (auto simp: optionalR_Inr bounded_integer_Inr)
  qed (use q x in simp_all)
qed

text \<open>C37. A refund of a store transaction is at most the price paid: it exists only for an owned purchase with a revocation that is
  not before it, is in the purchase's currency, is the whole price when the store refunded in full, and is never negative.\<close>

theorem apple_refund_bounded:
  assumes "normalizeAppleTransaction verifySignedData signed bundleId environment = Inr x" and "ax_refund x = Some r"
  shows "\<exists>m t u. ax_purchase x = Some m \<and> ax_ownership x = Some ''PURCHASED'' \<and> am_currencyCode (ar_money r) = am_currencyCode m
    \<and> 0 \<le> apple_value (ar_money r) \<and> apple_value (ar_money r) \<le> apple_value m
    \<and> (ar_basis r = Full_Transaction_Price \<longrightarrow> ar_money r = m) \<and> ax_refundExclusion x = None
    \<and> ax_purchaseAt x = toISOString t \<and> ax_revocationAt x = Some (toISOString u) \<and> 0 \<le> t \<and> t \<le> u"
proof -
  obtain "value" f revocationAt percentage where f: "apple_fields_of value = Inr f" "ax_purchase x = fields_purchase f"
      "ax_ownership x = af_ownership f" "ax_purchaseAt x = toISOString (af_purchaseAt f)" "ax_revocationAt x = map_option toISOString revocationAt"
    and t: "\<forall>r. revocationAt = Some r \<longrightarrow> 0 \<le> r \<and> r \<le> 253402300799999 \<and> \<not> toISOString r < toISOString (af_purchaseAt f)"
    and p: "\<forall>p. percentage = Some p \<longrightarrow> 0 \<le> p \<and> p \<le> 100000"
    and q: "apple_refund_of value (fields_purchase f) revocationAt percentage = Inr (ax_refund x, ax_refundExclusion x)"
    by (rule normalized_Inr [OF assms(1)])
  obtain m u where m: "fields_purchase f = Some m" "revocationAt = Some u" "ax_refundExclusion x = None"
    "0 \<le> apple_value (ar_money r)" "apple_value (ar_money r) \<le> apple_value m" "am_currencyCode (ar_money r) = am_currencyCode m"
    "ar_basis r = Full_Transaction_Price \<Longrightarrow> ar_money r = m"
    by (rule refund_of_bounds [OF q [unfolded assms(2)]]) (use p apple_fields_Inr(2) [OF f(1)] in auto)
  have "four_digit_year s" if "0 \<le> s" "s \<le> 253402300799999" for s using that by (simp add: four_digit_year_def)
  with t m(2) apple_fields_Inr(1) [OF f(1)] have "af_purchaseAt f \<le> u"
    using toISOString_less_iff [of u "af_purchaseAt f"] by auto
  with m f apple_fields_Inr [OF f(1)] show ?thesis by auto
qed

section \<open>A concrete refund\<close>

definition sample_transaction :: json_object where
  "sample_transaction = [(''bundleId'', JStr ''b''), (''environment'', JStr ''Production''), (''transactionId'', JStr ''1''),
     (''originalTransactionId'', JStr ''1''), (''productId'', JStr ''p''), (''purchaseDate'', JNum (of_int 0)), (''signedDate'', JNum (of_int 5)),
     (''inAppOwnershipType'', JStr ''PURCHASED''), (''price'', JNum (of_int 1990)), (''currency'', JStr ''USD''),
     (''revocationDate'', JNum (of_int 5)), (''revocationType'', JStr ''REFUND_PRORATED''), (''revocationPercentage'', JNum (of_int 50000))]"

lemma sample_transaction_fields:
  "\<exists>f. apple_fields_of sample_transaction = Inr f \<and> af_purchaseAt f = 0
    \<and> fields_purchase f = Some \<lparr> am_amountUnscaled = 1990, am_amountScale = 3, am_currencyCode = ''USD'' \<rparr>"
proof -
  have "list_all is_upper ''USD''" by code_simp
  then show ?thesis
    by (simp add: apple_fields_of_def sample_transaction_def member_def apple_text_def apple_instant_def optionalR_def guardR_def
      bounded_integer_def safe_integer_of_def MAX_SAFE_INTEGER_def transaction_currency_def currency_code_def fields_purchase_def fields_money_def)
qed

lemma sample_transaction_refund:
  "\<exists>x r. normalizeAppleTransaction (\<lambda>s. Inr sample_transaction) [] ''b'' ''Production'' = Inr x \<and> ax_refund x = Some r"
proof -
  have years: "four_digit_year 0" "four_digit_year 5" by (simp_all add: four_digit_year_def)
  obtain f where f: "apple_fields_of sample_transaction = Inr f" "af_purchaseAt f = 0"
    "fields_purchase f = Some \<lparr> am_amountUnscaled = 1990, am_amountScale = 3, am_currencyCode = ''USD'' \<rparr>"
    using sample_transaction_fields by blast
  have "member sample_transaction ''bundleId'' = Some (JStr ''b'')" "member sample_transaction ''environment'' = Some (JStr ''Production'')"
    "member sample_transaction ''revocationDate'' = Some (JNum 5)" "member sample_transaction ''revocationPercentage'' = Some (JNum 50000)"
    "member sample_transaction ''revocationType'' = Some (JStr ''REFUND_PRORATED'')"
    by (simp_all add: sample_transaction_def member_def)
  with f show ?thesis
    by (simp add: normalizeAppleTransaction_def guardR_def apple_instant_def optionalR_def bounded_integer_def safe_integer_of_def
      MAX_SAFE_INTEGER_def revoked_before_def toISOString_less_iff years apple_refund_of_def the_or_def)
qed

theorem apple_refund_bounded_witness:
  "\<exists>x r m. normalizeAppleTransaction (\<lambda>s. Inr sample_transaction) [] ''b'' ''Production'' = Inr x \<and> ax_refund x = Some r
    \<and> ax_purchase x = Some m \<and> apple_value (ar_money r) \<le> apple_value m"
proof -
  obtain x r where x: "normalizeAppleTransaction (\<lambda>s. Inr sample_transaction) [] ''b'' ''Production'' = Inr x" "ax_refund x = Some r"
    using sample_transaction_refund by blast
  from apple_refund_bounded [OF x] x show ?thesis by blast
qed

end
