(* ===== verification/Decimal_Text.thy ===== *)
theory Decimal_Text
  imports Js_Number
begin

text \<open>
  Texts of decimal digits as the amounts of money use them: padding, leading zeros, and the unique text of a
  number. \<open>strip_zeros\<close> is the replacement of \<open>/^0+(?=\d)/\<close> by nothing.
\<close>

definition pad_start :: "nat \<Rightarrow> string \<Rightarrow> string" where
  "pad_start n s = replicate (n - length s) (CHR ''0'') @ s"

definition strip_zeros :: "string \<Rightarrow> string" where
  "strip_zeros s = (let t = dropWhile (\<lambda>c. c = CHR ''0'') s in if t = [] then ''0'' else t)"

definition all_digits :: "string \<Rightarrow> bool" where
  "all_digits s \<longleftrightarrow> s \<noteq> [] \<and> list_all is_digit s"

lemma digit_zero: "digit_char 0 = CHR ''0''" "digit_value (CHR ''0'') = Some 0"
  by code_simp+

lemma pad_zero: "pad k 0 = replicate k (CHR ''0'')"
  by (induction k) (simp_all add: digit_zero replicate_append_same)

lemma pad_start_show: "0 < k \<Longrightarrow> n < 10 ^ k \<Longrightarrow> pad_start k (show_nat n) = pad k n"
proof (induction k arbitrary: n)
  case (Suc k)
  show ?case
  proof (cases "n < 10")
    case True
    then show ?thesis by (simp add: show_nat.simps [of n] pad_start_def pad_zero)
  next
    case False
    with Suc.prems have k: "0 < k" "n div 10 < 10 ^ k" by (cases k; simp add: less_mult_imp_div_less mult.commute)+
    from Suc.IH [OF this] False show ?thesis by (simp add: show_nat.simps [of n] pad_start_def)
  qed
qed simp

lemma digit_value_digit: "is_digit c \<Longrightarrow> \<exists>d<10. c = digit_char d"
  by (rule exI [of _ "of_char c - 48"]) (auto simp: is_digit_def less_eq_char_def digit_char_def)

lemma dec_digits_all: "list_all is_digit s \<Longrightarrow> \<exists>v. dec_digits acc s = Some v \<and> acc * 10 ^ length s \<le> v"
proof (induction s arbitrary: acc)
  case (Cons c s)
  then obtain d where d: "d < 10" "c = digit_char d" using digit_value_digit by auto
  with Cons obtain v where v: "dec_digits (10 * acc + d) s = Some v" "(10 * acc + d) * 10 ^ length s \<le> v" by auto
  have "acc * 10 ^ length (c # s) \<le> (10 * acc + d) * 10 ^ length s" by (simp add: algebra_simps)
  with v(2) have "acc * 10 ^ length (c # s) \<le> v" by (rule le_trans [rotated])
  with v d show ?case by (simp add: digit_value_char)
qed simp

lemma dec_digits_strip: "dec_digits 0 (dropWhile (\<lambda>c. c = CHR ''0'') s) = dec_digits 0 s"
  by (induction s) (auto simp: digit_zero)

text \<open>The decimal text of a number is the only one without a leading zero.\<close>

lemma show_nat_unique:
  assumes "list_all is_digit s" "s \<noteq> []" "hd s \<noteq> CHR ''0'' \<or> length s = 1" "dec_digits 0 s = Some v"
  shows "s = show_nat v"
  using assms
proof (induction s arbitrary: v rule: rev_induct)
  case (snoc c t)
  then obtain d where d: "d < 10" "c = digit_char d" using digit_value_digit [of c] by auto
  show ?case
  proof (cases t)
    case Nil
    with snoc.prems d show ?thesis by (auto simp: digit_value_char show_nat.simps)
  next
    case (Cons a r)
    with snoc.prems obtain b where b: "b < 10" "a = digit_char b" using digit_value_digit [of a] by auto
    with Cons snoc.prems have "b \<noteq> 0" by (cases "b = 0") (auto simp: digit_zero)
    obtain u where u: "dec_digits 0 t = Some u" using dec_digits_all [of t 0] snoc.prems by auto
    have "b * 10 ^ length r \<le> u" using dec_digits_all [of r b] Cons snoc.prems b u by (auto simp: digit_value_char)
    with \<open>b \<noteq> 0\<close> have pos: "0 < u" by (cases u) auto
    from snoc.IH [OF _ _ _ u] Cons snoc.prems have "t = show_nat u" by auto
    moreover have "v = 10 * u + d" using snoc.prems u d by (simp add: dec_digits_append digit_value_char)
    ultimately show ?thesis using pos d by (simp add: show_nat.simps [of "10 * u + d"])
  qed
qed simp

lemma strip_show: "all_digits s \<Longrightarrow> dec_digits 0 s = Some v \<Longrightarrow> strip_zeros s = show_nat v"
proof (cases "dropWhile (\<lambda>c. c = CHR ''0'') s = []")
  case True
  assume s: "dec_digits 0 s = Some v"
  from dec_digits_strip [of s] s have "v = 0" unfolding True by simp
  with True show ?thesis by (simp add: strip_zeros_def show_nat.simps digit_zero)
next
  case False
  assume s: "all_digits s" "dec_digits 0 s = Some v"
  have "list_all is_digit (dropWhile (\<lambda>c. c = CHR ''0'') s)" using s by (auto simp: all_digits_def list_all_iff dest: set_dropWhileD)
  with False s show ?thesis
    using show_nat_unique [of "dropWhile (\<lambda>c. c = CHR ''0'') s" v] hd_dropWhile [OF False]
    by (auto simp: strip_zeros_def dec_digits_strip Let_def)
qed

lemma pad_all_digits: "list_all is_digit (pad k n)"
  by (induction k arbitrary: n) (auto simp: is_digit_def digit_char_def less_eq_char_def)

end
