(* ===== verification/Commerce_Lifecycle.thy ===== *)
theory Commerce_Lifecycle
  imports Decimal_Text Json Fraud_Rules
begin

text \<open>
  \<open>packages/commerce-lifecycle/src/index.ts\<close>: refunds of store orders, compact signatures and certificate
  chains, and the notifications of the other store. \<open>JSON.parse\<close>, \<open>Date.parse\<close>, base64, SHA-256, the
  order of \<open>localeCompare\<close> and the signature primitives of \<open>node:crypto\<close> are arguments, collected in the
  record \<open>commerce_host\<close>.
\<close>

record certificate =
  ce_publicKey :: string
  ce_fingerprint256 :: string
  ce_validFrom :: string
  ce_validTo :: string

record commerce_host =
  ch_json :: "string \<Rightarrow> json option"
  ch_date :: "string \<Rightarrow> int option"
  ch_base64url :: "string \<Rightarrow> string"
  ch_sha :: "string \<Rightarrow> string"
  ch_collation :: "string \<Rightarrow> string"
  ch_verify :: "string \<Rightarrow> string \<Rightarrow> string \<Rightarrow> bool"
  ch_certificate :: "string \<Rightarrow> certificate option"
  ch_issued :: "certificate \<Rightarrow> string \<Rightarrow> bool"

section \<open>Parsed members\<close>

definition object_of :: "json option \<Rightarrow> string \<Rightarrow> json_object res" where
  "object_of v label = (case v of Some (JObj ms) \<Rightarrow> Inr ms | _ \<Rightarrow> throw (label @ ''_invalid''))"

definition requiredString :: "json option \<Rightarrow> string \<Rightarrow> nat \<Rightarrow> string res" where
  "requiredString v label maximum =
     (case v of Some (JStr s) \<Rightarrow> guardR (1 \<le> length s \<and> length s \<le> maximum) (label @ ''_invalid'') (Inr s)
      | _ \<Rightarrow> throw (label @ ''_invalid''))"

text \<open>The date of a number is clipped to the range of dates and truncated.\<close>

definition clipped :: "rat \<Rightarrow> int option" where
  "clipped q = (if \<bar>q\<bar> \<le> of_int max_time then Some (if q < 0 then \<lceil>q\<rceil> else \<lfloor>q\<rfloor>) else None)"

definition timestamp :: "commerce_host \<Rightarrow> json option \<Rightarrow> string \<Rightarrow> string res" where
  "timestamp H v label =
     (case (case v of Some (JStr s) \<Rightarrow> ch_date H s | Some (JNum q) \<Rightarrow> clipped q | _ \<Rightarrow> None) of
        None \<Rightarrow> throw (label @ ''_invalid'') | Some t \<Rightarrow> Inr (toISOString t))"

section \<open>Subscription notifications\<close>

definition googleSubscriptionNotificationKinds :: "(int \<times> string) list" where
  "googleSubscriptionNotificationKinds =
     [(1, ''subscription_recovered''), (2, ''subscription_renewed''), (3, ''subscription_canceled''),
      (4, ''subscription_purchased''), (5, ''subscription_on_hold''), (6, ''subscription_in_grace_period''),
      (7, ''subscription_restarted''), (8, ''subscription_price_change_confirmed''), (9, ''subscription_deferred''),
      (10, ''subscription_paused''), (11, ''subscription_pause_schedule_changed''), (12, ''subscription_revoked''),
      (13, ''subscription_expired''), (17, ''subscription_items_changed''),
      (18, ''subscription_cancellation_scheduled''), (19, ''subscription_price_change_updated''),
      (20, ''subscription_pending_purchase_canceled''), (22, ''subscription_price_step_up_consent_updated'')]"

definition googleSubscriptionLifecycle :: "int \<Rightarrow> string res" where
  "googleSubscriptionLifecycle notificationType =
     (case map_of googleSubscriptionNotificationKinds notificationType of
        None \<Rightarrow> throw ''google_subscription_notification_type_unsupported'' | Some v \<Rightarrow> Inr v)"

section \<open>Order refunds\<close>

record google_money =
  gm_amountUnscaled :: string
  gm_amountScale :: nat
  gm_currency :: string

record google_refund =
  gr_eventDigest :: string
  gr_eventTime :: string
  gr_money :: google_money
  gr_full :: bool

definition money_units :: "json_object \<Rightarrow> string option" where
  "money_units money = (case member money ''units'' of None \<Rightarrow> Some ''0'' | Some u \<Rightarrow> js_text u)"

definition money_nanos :: "json_object \<Rightarrow> int option" where
  "money_nanos money = (case member money ''nanos'' of None \<Rightarrow> Some 0 | Some n \<Rightarrow> integer_of n)"

definition googleMoney :: "json option \<Rightarrow> google_money res" where
  "googleMoney v =
     bindR (object_of v ''google_order_refund_money'') (\<lambda>money.
     bindR (requiredString (member money ''currencyCode'') ''google_order_refund_currency'' 3) (\<lambda>currency.
     guardR (currency_code currency) ''google_order_refund_currency_invalid''
     (case (money_units money, money_nanos money) of
        (Some units, Some nanos) \<Rightarrow>
          guardR (all_digits units \<and> 0 \<le> nanos \<and> nanos \<le> 999999999) ''google_order_refund_money_invalid''
            (Inr \<lparr> gm_amountUnscaled = strip_zeros (units @ pad_start 9 (show_int nanos)), gm_amountScale = 9, gm_currency = currency \<rparr>)
      | _ \<Rightarrow> throw ''google_order_refund_money_invalid'')))"

definition google_refund_of :: "commerce_host \<Rightarrow> string \<Rightarrow> bool \<Rightarrow> string \<Rightarrow> string \<Rightarrow> string \<Rightarrow> json_object \<Rightarrow> google_refund res" where
  "google_refund_of H orderId full field label details refund =
     bindR (timestamp H (member refund field) label) (\<lambda>eventTime.
     bindR (object_of (member refund ''refundDetails'') details) (\<lambda>d.
     bindR (googleMoney (member d ''total'')) (\<lambda>money.
       Inr \<lparr> gr_eventDigest = ch_sha H (orderId @ [CHR 0x00] @ (if full then ''full'' else ''partial'') @ [CHR 0x00] @ eventTime @ [CHR 0x00]
               @ gm_amountUnscaled money),
             gr_eventTime = eventTime, gr_money = money, gr_full = full \<rparr>)))"

definition full_refund :: "commerce_host \<Rightarrow> string \<Rightarrow> json_object \<Rightarrow> google_refund list res" where
  "full_refund H orderId history =
     (case member history ''refundEvent'' of
        None \<Rightarrow> Inr []
      | Some v \<Rightarrow> bindR (object_of (Some v) ''google_order_refund_event'') (\<lambda>refund.
          bindR (google_refund_of H orderId True ''eventTime'' ''google_order_refund_time'' ''google_order_refund_details'' refund)
            (\<lambda>r. Inr [r])))"

definition partial_refund :: "commerce_host \<Rightarrow> string \<Rightarrow> json \<Rightarrow> google_refund list res" where
  "partial_refund H orderId v =
     bindR (object_of (Some v) ''google_order_partial_refund'') (\<lambda>refund.
     if member refund ''state'' \<noteq> Some (JStr ''PROCESSED_SUCCESSFULLY'') then Inr []
     else bindR (google_refund_of H orderId False ''processTime'' ''google_order_partial_refund_time'' ''google_order_partial_refund_details'' refund)
       (\<lambda>r. Inr [r]))"

definition partial_refunds :: "commerce_host \<Rightarrow> string \<Rightarrow> json_object \<Rightarrow> google_refund list res" where
  "partial_refunds H orderId history =
     (case member history ''partialRefundEvents'' of
        None \<Rightarrow> Inr []
      | Some (JArr vs) \<Rightarrow> bindR (mapR (partial_refund H orderId) vs) (\<lambda>rs. Inr (concat rs))
      | Some v \<Rightarrow> throw ''google_order_partial_refunds_invalid'')"

definition normalizeGoogleOrderRefunds :: "commerce_host \<Rightarrow> string \<Rightarrow> string \<Rightarrow> google_refund list res" where
  "normalizeGoogleOrderRefunds H body expectedOrderDigest =
     (case ch_json H body of
        None \<Rightarrow> throw ''SyntaxError''
      | Some parsed \<Rightarrow>
          bindR (object_of (Some parsed) ''google_order'') (\<lambda>order.
          bindR (requiredString (member order ''orderId'') ''google_order_id'' 255) (\<lambda>orderId.
          guardR (ch_sha H orderId = expectedOrderDigest) ''google_order_identity_mismatch''
          (bindR (object_of (member order ''orderHistory'') ''google_order_history'') (\<lambda>history.
           bindR (full_refund H orderId history) (\<lambda>whole.
           bindR (partial_refunds H orderId history) (\<lambda>parts.
             Inr (sort_key (\<lambda>r. [ch_collation H (gr_eventTime r), ch_collation H (gr_eventDigest r)]) (whole @ parts)))))))))"

section \<open>Compact signatures\<close>

definition jws_part_ok :: "string \<Rightarrow> bool" where
  "jws_part_ok s \<longleftrightarrow> s \<noteq> [] \<and> list_all (\<lambda>c. is_upper c \<or> is_lower c \<or> is_digit c \<or> c = CHR ''_'' \<or> c = CHR ''-'') s"

definition decodePart :: "commerce_host \<Rightarrow> string \<Rightarrow> string \<Rightarrow> json_object res" where
  "decodePart H v label =
     (let decoded = ch_base64url H v in
      if decoded = [] \<or> length decoded > 256 * 1024 then throw (label @ ''_invalid'')
      else object_of (ch_json H decoded) label)"

definition decodeCompactJwsPayloadUnverified :: "commerce_host \<Rightarrow> string \<Rightarrow> json_object res" where
  "decodeCompactJwsPayloadUnverified H signed =
     (case split_on (CHR ''.'') signed of
        [h, p, sig] \<Rightarrow> guardR (list_all jws_part_ok [h, p, sig]) ''jws_compact_invalid'' (decodePart H p ''jws_payload'')
      | _ \<Rightarrow> throw ''jws_compact_invalid'')"

definition verifyCompactJws :: "commerce_host \<Rightarrow> string \<Rightarrow> string \<Rightarrow> nat option \<Rightarrow> json_object res" where
  "verifyCompactJws H signed publicKey maximumBytes =
     guardR (length signed \<le> the_or (512 * 1024) maximumBytes) ''jws_too_large''
     (case split_on (CHR ''.'') signed of
        [h, p, sig] \<Rightarrow>
          guardR (list_all jws_part_ok [h, p, sig]) ''jws_compact_invalid''
          (bindR (decodePart H h ''jws_header'') (\<lambda>header.
           guardR (member header ''alg'' = Some (JStr ''ES256'')) ''jws_algorithm_invalid''
           (guardR (ch_verify H publicKey (h @ ''.'' @ p) (ch_base64url H sig)) ''jws_signature_invalid''
             (decodePart H p ''jws_payload''))))
      | _ \<Rightarrow> throw ''jws_compact_invalid'')"

section \<open>Certificate chains\<close>

definition chain_certificate :: "commerce_host \<Rightarrow> json \<Rightarrow> certificate res" where
  "chain_certificate H v =
     bindR (requiredString (Some v) ''apple_jws_certificate'' (16 * 1024)) (\<lambda>s.
       case ch_certificate H s of None \<Rightarrow> throw ''certificate'' | Some c \<Rightarrow> Inr c)"

definition certificate_current :: "commerce_host \<Rightarrow> int \<Rightarrow> certificate \<Rightarrow> bool" where
  "certificate_current H effectiveAt c \<longleftrightarrow>
     \<not> nan_test (>) (ch_date H (ce_validFrom c)) (Some effectiveAt) \<and> \<not> nan_test (<) (ch_date H (ce_validTo c)) (Some effectiveAt)"

definition root_fingerprint :: "certificate \<Rightarrow> string" where
  "root_fingerprint c = map lower_ascii (filter (\<lambda>x. x \<noteq> CHR '':'') (ce_fingerprint256 c))"

definition appleLeafKeyFromChain :: "commerce_host \<Rightarrow> string \<Rightarrow> string list \<Rightarrow> int \<Rightarrow> string res" where
  "appleLeafKeyFromChain H signed trusted effectiveAt =
     (case split_on (CHR ''.'') signed of
        [h, p, sig] \<Rightarrow>
          bindR (decodePart H h ''apple_jws_header'') (\<lambda>header.
          case (member header ''alg'', member header ''x5c'') of
            (Some alg, Some (JArr [a, b, c])) \<Rightarrow>
              guardR (alg = JStr ''ES256'') ''apple_jws_chain_invalid''
              (bindR (mapR (chain_certificate H) [a, b, c]) (\<lambda>certificates.
               let leaf = certificates ! 0; intermediate = certificates ! 1; root = certificates ! 2 in
               guardR (ch_issued H leaf (ce_publicKey intermediate) \<and> ch_issued H intermediate (ce_publicKey root)) ''apple_jws_chain_invalid''
               (guardR (root_fingerprint root \<in> set trusted) ''apple_jws_root_untrusted''
               (guardR (list_all (certificate_current H effectiveAt) certificates) ''apple_jws_certificate_expired''
                 (Inr (ce_publicKey leaf))))))
          | _ \<Rightarrow> throw ''apple_jws_chain_invalid'')
      | _ \<Rightarrow> throw ''apple_jws_compact_invalid'')"

text \<open>The verifier that the worker and the API bind to the receivers: the key of the chain, at the present time.\<close>

definition verifyAppleSignedData :: "commerce_host \<Rightarrow> string list \<Rightarrow> int \<Rightarrow> string \<Rightarrow> json_object res" where
  "verifyAppleSignedData H trusted now signed =
     bindR (appleLeafKeyFromChain H signed trusted now) (\<lambda>key. verifyCompactJws H signed key None)"

section \<open>Notifications\<close>

datatype financial_effect = Effect_None | Effect_Purchase | Effect_Refund | Effect_Refund_Reversal

record lifecycle_event =
  lf_eventKind :: string
  lf_financialEffect :: financial_effect
  lf_externalEventDigest :: string
  lf_transactionDigest :: "string option"
  lf_originalTransactionDigest :: "string option"
  lf_effectiveAt :: string
  lf_environment :: string

record apple_notification =
  no_event :: lifecycle_event
  no_notificationUuid :: string
  no_transaction :: "json_object option"
  no_renewal :: "json_object option"

record apple_expected =
  xp_bundleId :: string
  xp_appAppleId :: "int option"
  xp_environment :: string

definition appleFinancialEffects :: "(string \<times> financial_effect) list" where
  "appleFinancialEffects =
     [(''ONE_TIME_CHARGE'', Effect_Purchase), (''SUBSCRIBED'', Effect_Purchase), (''DID_RENEW'', Effect_Purchase),
      (''REFUND'', Effect_Refund), (''REVOKE'', Effect_Refund), (''REFUND_REVERSED'', Effect_Refund_Reversal)]"

text \<open>\<open>appAppleId\<close> is compared as \<open>undefined\<close> or a number.\<close>

definition notification_in_scope :: "json_object \<Rightarrow> apple_expected \<Rightarrow> bool" where
  "notification_in_scope data expected \<longleftrightarrow>
     member data ''bundleId'' = Some (JStr (xp_bundleId expected)) \<and> member data ''environment'' = Some (JStr (xp_environment expected))
     \<and> (xp_environment expected = ''Production'' \<longrightarrow>
          member data ''appAppleId'' = map_option (\<lambda>n. JNum (of_int n)) (xp_appAppleId expected))"

definition signed_part :: "(string \<Rightarrow> json_object res) \<Rightarrow> json option \<Rightarrow> json_object option res" where
  "signed_part verifySignedData v =
     (case v of Some (JStr s) \<Rightarrow> bindR (verifySignedData s) (\<lambda>x. Inr (Some x)) | _ \<Rightarrow> Inr None)"

definition transaction_in_scope :: "json_object option \<Rightarrow> apple_expected \<Rightarrow> bool" where
  "transaction_in_scope transaction expected \<longleftrightarrow>
     (case transaction of None \<Rightarrow> True
      | Some t \<Rightarrow> member t ''bundleId'' = Some (JStr (xp_bundleId expected)) \<and> member t ''environment'' = Some (JStr (xp_environment expected)))"

definition renewal_in_scope :: "json_object option \<Rightarrow> apple_expected \<Rightarrow> bool" where
  "renewal_in_scope renewal expected \<longleftrightarrow>
     (case renewal of None \<Rightarrow> True
      | Some r \<Rightarrow> member r ''environment'' = None \<or> member r ''environment'' = Some (JStr (xp_environment expected)))"

definition optional_member :: "json_object option \<Rightarrow> string \<Rightarrow> json option" where
  "optional_member t name = (case t of None \<Rightarrow> None | Some ms \<Rightarrow> member ms name)"

definition effective_at :: "commerce_host \<Rightarrow> string \<Rightarrow> string \<Rightarrow> json_object option \<Rightarrow> string res" where
  "effective_at H notificationType signedDate transaction =
     (if notificationType = ''REFUND_REVERSED'' then Inr signedDate
      else if optional_member transaction ''revocationDate'' \<noteq> None
      then timestamp H (optional_member transaction ''revocationDate'') ''apple_revocation_date''
      else if optional_member transaction ''purchaseDate'' \<noteq> None
      then timestamp H (optional_member transaction ''purchaseDate'') ''apple_purchase_date''
      else Inr signedDate)"

definition text_digest :: "commerce_host \<Rightarrow> json option \<Rightarrow> string option" where
  "text_digest H v = (case v of Some (JStr s) \<Rightarrow> Some (ch_sha H s) | _ \<Rightarrow> None)"

definition normalizeAppleNotification :: "commerce_host \<Rightarrow> (string \<Rightarrow> json_object res) \<Rightarrow> string \<Rightarrow> apple_expected \<Rightarrow>
    apple_notification res" where
  "normalizeAppleNotification H verifySignedData signed expected =
     bindR (verifySignedData signed) (\<lambda>outer.
     bindR (requiredString (member outer ''notificationType'') ''apple_notification_type'' 128) (\<lambda>notificationType.
     bindR (requiredString (member outer ''notificationUUID'') ''apple_notification_uuid'' 64) (\<lambda>notificationUuid.
     bindR (timestamp H (member outer ''signedDate'') ''apple_notification_signed_date'') (\<lambda>signedDate.
     bindR (object_of (member outer ''data'') ''apple_notification_data'') (\<lambda>data.
     guardR (notification_in_scope data expected) ''apple_notification_scope_mismatch''
     (bindR (signed_part verifySignedData (member data ''signedTransactionInfo'')) (\<lambda>transaction.
      guardR (transaction_in_scope transaction expected) ''apple_transaction_scope_mismatch''
     (bindR (signed_part verifySignedData (member data ''signedRenewalInfo'')) (\<lambda>renewal.
      guardR (renewal_in_scope renewal expected) ''apple_renewal_scope_mismatch''
     (bindR (effective_at H notificationType signedDate transaction) (\<lambda>effectiveAt.
       Inr \<lparr> no_event = \<lparr> lf_eventKind = map lower_ascii notificationType,
               lf_financialEffect = the_or Effect_None (map_of appleFinancialEffects notificationType),
               lf_externalEventDigest = ch_sha H notificationUuid,
               lf_transactionDigest = text_digest H (optional_member transaction ''transactionId''),
               lf_originalTransactionDigest = text_digest H (optional_member transaction ''originalTransactionId''),
               lf_effectiveAt = effectiveAt, lf_environment = xp_environment expected \<rparr>,
             no_notificationUuid = notificationUuid, no_transaction = transaction, no_renewal = renewal \<rparr>)))))))))))"

section \<open>Members that were read\<close>

lemma object_of_Inr [result_simps]: "object_of v label = Inr ms \<longleftrightarrow> v = Some (JObj ms)"
  by (auto simp: object_of_def throw_def split: option.splits json.splits)

lemma requiredString_Inr [result_simps]:
  "requiredString v label maximum = Inr s \<longleftrightarrow> v = Some (JStr s) \<and> 1 \<le> length s \<and> length s \<le> maximum"
  by (auto simp: requiredString_def throw_def guardR_def split: option.splits json.splits)

section \<open>Decimal texts of refunds\<close>

lemma googleMoney_Inr:
  assumes "googleMoney v = Inr g"
  obtains ms units nanos where "v = Some (JObj ms)" "money_units ms = Some units" "money_nanos ms = Some nanos" "all_digits units" "0 \<le> nanos" "nanos \<le> 999999999"
    "gm_amountUnscaled g = strip_zeros (units @ pad_start 9 (show_int nanos))" "gm_amountScale g = 9" "currency_code (gm_currency g)"
proof -
  from assms obtain ms where ms: "v = Some (JObj ms)"
    by (auto simp: googleMoney_def object_of_def throw_def split: option.splits json.splits)
  from assms ms that show thesis
    by (cases "money_units ms"; cases "money_nanos ms") (auto simp: googleMoney_def object_of_def throw_def result_simps)
qed

text \<open>A store refund is exact in billionths of its currency: the amount is the decimal text, without leading zeros,
  of the whole units times \<open>10 ^ 9\<close> plus the nanos, whatever zeros the store sends, and the nanos are below one unit.\<close>

theorem google_money_exact:
  assumes "googleMoney v = Inr g"
  shows "\<exists>ms units nanos u. v = Some (JObj ms) \<and> money_units ms = Some units \<and> money_nanos ms = Some nanos
    \<and> dec_value units = Some u \<and> 0 \<le> nanos \<and> nanos < 10 ^ 9
    \<and> gm_amountUnscaled g = show_nat (u * 10 ^ 9 + nat nanos) \<and> gm_amountScale g = 9"
proof -
  obtain ms units nanos where g: "v = Some (JObj ms)" "money_units ms = Some units" "money_nanos ms = Some nanos" "all_digits units" "0 \<le> nanos" "nanos \<le> 999999999"
    "gm_amountUnscaled g = strip_zeros (units @ pad_start 9 (show_int nanos))" "gm_amountScale g = 9"
    by (rule googleMoney_Inr [OF assms])
  obtain u where u: "dec_digits 0 units = Some u" using dec_digits_all [of units 0] g(4) by (auto simp: all_digits_def)
  have n: "nat nanos < 10 ^ 9" using g(5,6) by simp
  then have pad: "pad_start 9 (show_int nanos) = pad 9 (nat nanos)"
    using g(5) pad_start_show [of 9 "nat nanos"] by (simp add: show_int_def)
  have "dec_digits 0 (units @ pad 9 (nat nanos)) = Some (u * 10 ^ 9 + nat nanos)"
    by (simp add: dec_digits_append u dec_digits_pad [OF n])
  moreover have "all_digits (units @ pad 9 (nat nanos))" using g(4) pad_all_digits by (simp add: all_digits_def)
  ultimately have "gm_amountUnscaled g = show_nat (u * 10 ^ 9 + nat nanos)" using strip_show g(7) pad by metis
  moreover have "dec_value units = Some u" using u g(4) by (simp add: dec_value_def all_digits_def)
  ultimately show ?thesis using g n by auto
qed

section \<open>Order refunds\<close>

definition processed :: "json \<Rightarrow> bool" where
  "processed v = (case v of JObj ms \<Rightarrow> member ms ''state'' = Some (JStr ''PROCESSED_SUCCESSFULLY'') | _ \<Rightarrow> False)"

lemma google_refund_of_full: "google_refund_of H orderId full field label details refund = Inr r \<Longrightarrow> gr_full r = full"
  by (auto simp: google_refund_of_def result_simps)

lemma full_refund_Inr:
  assumes "full_refund H orderId history = Inr rs"
  shows "length rs = (if member history ''refundEvent'' = None then 0 else 1)" "list_all gr_full rs"
  using assms by (auto simp: full_refund_def result_simps dest: google_refund_of_full split: option.splits)

lemma partial_refund_Inr:
  assumes "partial_refund H orderId v = Inr rs"
  shows "length rs = (if processed v then 1 else 0)" "list_all (\<lambda>r. \<not> gr_full r) rs"
  using assms
  by (auto simp: partial_refund_def processed_def object_of_def throw_def result_simps dest: google_refund_of_full split: json.splits if_splits)

lemma partial_refund_list:
  assumes "list_all2 (\<lambda>v rs. partial_refund H orderId v = Inr rs) vs rss"
  shows "length (concat rss) = length (filter processed vs) \<and> list_all (\<lambda>r. \<not> gr_full r) (concat rss)"
  using assms by (induction rule: list_all2_induct) (auto dest: partial_refund_Inr)

lemma partial_refunds_Inr:
  assumes "partial_refunds H orderId history = Inr rs"
  shows "\<exists>parts. the_or (JArr []) (member history ''partialRefundEvents'') = JArr parts \<and> length rs = length (filter processed parts)
    \<and> list_all (\<lambda>r. \<not> gr_full r) rs"
  using assms partial_refund_list [of H orderId]
  by (auto simp: partial_refunds_def the_or_def throw_def result_simps split: option.splits json.splits)

lemma filter_all [simp]: "list_all P xs \<Longrightarrow> filter P xs = xs" "list_all (\<lambda>x. \<not> P x) xs \<Longrightarrow> filter P xs = []"
  by (induction xs) auto

text \<open>Every refund of a store order is accounted for once: the document is the order whose digest the caller expects, the
  full refund appears once if the order has one, the partial refunds are exactly those the store has processed, and the result is
  in the order of event time and digest.\<close>

theorem google_refunds_accounted:
  assumes "normalizeGoogleOrderRefunds H body expected = Inr rs"
  shows "\<exists>order orderId history parts. ch_json H body = Some (JObj order) \<and> member order ''orderId'' = Some (JStr orderId)
    \<and> ch_sha H orderId = expected \<and> member order ''orderHistory'' = Some (JObj history)
    \<and> the_or (JArr []) (member history ''partialRefundEvents'') = JArr parts
    \<and> length (filter gr_full rs) = (if member history ''refundEvent'' = None then 0 else 1)
    \<and> length (filter (\<lambda>r. \<not> gr_full r) rs) = length (filter processed parts)
    \<and> sorted (map (\<lambda>r. [ch_collation H (gr_eventTime r), ch_collation H (gr_eventDigest r)]) rs)"
proof -
  obtain order orderId history whole parts where o: "ch_json H body = Some (JObj order)" "member order ''orderId'' = Some (JStr orderId)"
      "ch_sha H orderId = expected" "member order ''orderHistory'' = Some (JObj history)"
    and r: "full_refund H orderId history = Inr whole" "partial_refunds H orderId history = Inr parts"
      "rs = sort_key (\<lambda>r. [ch_collation H (gr_eventTime r), ch_collation H (gr_eventDigest r)]) (whole @ parts)"
    using assms by (cases "ch_json H body") (auto simp: normalizeGoogleOrderRefunds_def throw_def result_simps)
  have len: "length (filter P rs) = length (filter P whole) + length (filter P parts)" for P :: "google_refund \<Rightarrow> bool"
    by (simp add: r(3) filter_sort)
  from full_refund_Inr [OF r(1)] partial_refunds_Inr [OF r(2)] o show ?thesis
    unfolding len by (auto simp: r(3))
qed

section \<open>Authenticity\<close>

text \<open>
  What a signed text of the store proves: its three parts, a chain of three current certificates from a trusted root to a
  leaf, and the leaf's signature over the header and the very payload that is returned.
\<close>

definition apple_authentic :: "commerce_host \<Rightarrow> string list \<Rightarrow> int \<Rightarrow> string \<Rightarrow> json_object \<Rightarrow> bool" where
  "apple_authentic H trusted now signed payload \<longleftrightarrow>
     (\<exists>h p sig leaf intermediate root. signed = h @ ''.'' @ p @ ''.'' @ sig
        \<and> ch_issued H leaf (ce_publicKey intermediate) \<and> ch_issued H intermediate (ce_publicKey root)
        \<and> root_fingerprint root \<in> set trusted \<and> list_all (certificate_current H now) [leaf, intermediate, root]
        \<and> ch_verify H (ce_publicKey leaf) (h @ ''.'' @ p) (ch_base64url H sig) \<and> decodePart H p ''jws_payload'' = Inr payload)"

lemma three_parts:
  "(case xs of [a, b, c] \<Rightarrow> f a b c | _ \<Rightarrow> throw e) = Inr r \<Longrightarrow> \<exists>a b c. xs = [a, b, c] \<and> f a b c = Inr r"
  by (auto simp: throw_def split: list.splits)

lemma chain_header:
  "(case x of None \<Rightarrow> throw e | Some alg \<Rightarrow> (case y of Some (JArr [a, b, c]) \<Rightarrow> f alg a b c | _ \<Rightarrow> throw e)) = Inr r \<Longrightarrow>
    \<exists>alg a b c. y = Some (JArr [a, b, c]) \<and> f alg a b c = Inr r"
  by (auto simp: throw_def split: option.splits json.splits list.splits)

lemma appleLeafKey_Inr:
  assumes "appleLeafKeyFromChain H signed trusted now = Inr key"
  shows "\<exists>leaf intermediate root. key = ce_publicKey leaf \<and> ch_issued H leaf (ce_publicKey intermediate)
    \<and> ch_issued H intermediate (ce_publicKey root) \<and> root_fingerprint root \<in> set trusted
    \<and> list_all (certificate_current H now) [leaf, intermediate, root]"
  using assms unfolding appleLeafKeyFromChain_def
  by (force simp: result_simps list_all2_Cons1 Let_def dest!: three_parts chain_header)

lemma verifyCompactJws_Inr:
  assumes "verifyCompactJws H signed key maximum = Inr payload"
  shows "\<exists>h p sig. split_on (CHR ''.'') signed = [h, p, sig] \<and> ch_verify H key (h @ ''.'' @ p) (ch_base64url H sig)
    \<and> decodePart H p ''jws_payload'' = Inr payload"
  using assms unfolding verifyCompactJws_def by (auto simp: result_simps dest!: three_parts)

lemma verified_authentic:
  assumes "verifyAppleSignedData H trusted now signed = Inr payload"
  shows "apple_authentic H trusted now signed payload"
proof -
  obtain key where k: "appleLeafKeyFromChain H signed trusted now = Inr key" "verifyCompactJws H signed key None = Inr payload"
    using assms by (auto simp: verifyAppleSignedData_def result_simps)
  obtain h p sig where s: "split_on (CHR ''.'') signed = [h, p, sig]" "ch_verify H key (h @ ''.'' @ p) (ch_base64url H sig)"
    "decodePart H p ''jws_payload'' = Inr payload" using verifyCompactJws_Inr [OF k(2)] by blast
  have "signed = h @ ''.'' @ p @ ''.'' @ sig" using join_split [of "CHR ''.''" signed] s(1) by simp
  with s appleLeafKey_Inr [OF k(1)] show ?thesis unfolding apple_authentic_def by metis
qed

text \<open>C38. No notification of the store is accepted unsigned: the notification, its transaction and its renewal, each where it
  is given, are the payloads of texts whose chains end at a trusted root and are current. The notification and the transaction
  are of the expected bundle and environment, in production the notification also of the expected application. The renewal is
  of the expected environment where it names one: its bundle is not checked, as in the code.\<close>

theorem apple_notification_authentic:
  assumes "normalizeAppleNotification H (verifyAppleSignedData H trusted now) signed expected = Inr n"
  shows "\<exists>outer data. apple_authentic H trusted now signed outer \<and> member outer ''data'' = Some (JObj data)
    \<and> member data ''bundleId'' = Some (JStr (xp_bundleId expected)) \<and> member data ''environment'' = Some (JStr (xp_environment expected))
    \<and> (xp_environment expected = ''Production'' \<longrightarrow> member data ''appAppleId'' = map_option (\<lambda>i. JNum (of_int i)) (xp_appAppleId expected))
    \<and> (\<forall>t. no_transaction n = Some t \<longrightarrow> member t ''bundleId'' = Some (JStr (xp_bundleId expected))
          \<and> member t ''environment'' = Some (JStr (xp_environment expected))
          \<and> (\<exists>s. member data ''signedTransactionInfo'' = Some (JStr s) \<and> apple_authentic H trusted now s t))
    \<and> (\<forall>r. no_renewal n = Some r \<longrightarrow> member r ''environment'' \<in> {None, Some (JStr (xp_environment expected))}
          \<and> (\<exists>s. member data ''signedRenewalInfo'' = Some (JStr s) \<and> apple_authentic H trusted now s r))"
proof -
  obtain outer data transaction renewal where o: "verifyAppleSignedData H trusted now signed = Inr outer"
      "member outer ''data'' = Some (JObj data)" "notification_in_scope data expected"
    and t: "signed_part (verifyAppleSignedData H trusted now) (member data ''signedTransactionInfo'') = Inr transaction"
      "transaction_in_scope transaction expected"
    and r: "signed_part (verifyAppleSignedData H trusted now) (member data ''signedRenewalInfo'') = Inr renewal"
      "renewal_in_scope renewal expected"
    and n: "no_transaction n = transaction" "no_renewal n = renewal"
    using assms by (auto simp: normalizeAppleNotification_def result_simps)
  have sound: "\<exists>s. v = Some (JStr s) \<and> apple_authentic H trusted now s x"
    if "signed_part (verifyAppleSignedData H trusted now) v = Inr (Some x)" for v x
    using that verified_authentic by (auto simp: signed_part_def result_simps split: option.splits json.splits)
  have "member x ''bundleId'' = Some (JStr (xp_bundleId expected)) \<and> member x ''environment'' = Some (JStr (xp_environment expected))
      \<and> (\<exists>s. member data ''signedTransactionInfo'' = Some (JStr s) \<and> apple_authentic H trusted now s x)"
    if "transaction = Some x" for x using t sound that by (simp add: transaction_in_scope_def)
  moreover have "member x ''environment'' \<in> {None, Some (JStr (xp_environment expected))}
      \<and> (\<exists>s. member data ''signedRenewalInfo'' = Some (JStr s) \<and> apple_authentic H trusted now s x)"
    if "renewal = Some x" for x using r sound that by (simp add: renewal_in_scope_def)
  ultimately show ?thesis
    using verified_authentic [OF o(1)] o(2,3) unfolding n notification_in_scope_def by blast
qed

section \<open>A concrete store\<close>

text \<open>A host whose base64 is the identity and whose JSON texts are names of documents; one key signs with the text \<open>sig\<close>.\<close>

definition sample_documents :: "(string \<times> json) list" where
  "sample_documents =
     [(''h'', JObj [(''alg'', JStr ''ES256''), (''x5c'', JArr [JStr ''leaf'', JStr ''mid'', JStr ''root''])]),
      (''n'', JObj [(''notificationType'', JStr ''SUBSCRIBED''), (''notificationUUID'', JStr ''u''), (''signedDate'', JStr ''d''),
         (''data'', JObj [(''bundleId'', JStr ''b''), (''environment'', JStr ''Sandbox''), (''signedTransactionInfo'', JStr ''h.t.sig''),
            (''signedRenewalInfo'', JStr ''h.r.sig'')])]),
      (''t'', JObj [(''bundleId'', JStr ''b''), (''environment'', JStr ''Sandbox''), (''transactionId'', JStr ''1'')]),
      (''r'', JObj [(''environment'', JStr ''Sandbox'')]),
      (''o'', JObj [(''orderId'', JStr ''GPA''), (''orderHistory'', JObj [
         (''refundEvent'', JObj [(''eventTime'', JStr ''d''), (''refundDetails'', JObj [(''total'', JObj [(''currencyCode'', JStr ''USD''),
            (''units'', JStr ''012'')])])]),
         (''partialRefundEvents'', JArr [JObj [(''state'', JStr ''PENDING'')]])])])]"

definition sample_host :: commerce_host where
  "sample_host = \<lparr> ch_json = map_of sample_documents, ch_date = (\<lambda>s. Some 0), ch_base64url = id, ch_sha = id, ch_collation = id,
     ch_verify = (\<lambda>key m s. key = ''leaf'' \<and> s = ''sig''),
     ch_certificate = (\<lambda>s. Some \<lparr> ce_publicKey = s, ce_fingerprint256 = ''AB:'' @ s, ce_validFrom = [], ce_validTo = [] \<rparr>),
     ch_issued = (\<lambda>c key. (ce_publicKey c, key) \<in> set [(''leaf'', ''mid''), (''mid'', ''root'')]) \<rparr>"

definition sample_expected :: apple_expected where
  "sample_expected = \<lparr> xp_bundleId = ''b'', xp_appAppleId = None, xp_environment = ''Sandbox'' \<rparr>"

lemma sample_parts: "list_all jws_part_ok [''h'', ''n'', ''t'', ''r'', ''sig'']"
  by code_simp

lemma sample_root:
  "root_fingerprint \<lparr> ce_publicKey = ''root'', ce_fingerprint256 = ''AB:root'', ce_validFrom = [], ce_validTo = [] \<rparr> = ''abroot''"
  by code_simp

lemma sample_verified:
  assumes "x \<in> {''n'', ''t'', ''r''}" and "map_of sample_documents x = Some (JObj ms)"
  shows "verifyAppleSignedData sample_host [''abroot''] 0 (''h.'' @ x @ ''.sig'') = Inr ms"
proof -
  have split: "split_on (CHR ''.'') (''h.'' @ x @ ''.sig'') = [''h'', x, ''sig'']" using assms(1) by auto
  have parts: "list_all jws_part_ok [''h'', x, ''sig'']" "length x = 1" "x \<noteq> []" using assms(1) sample_parts by auto
  have header: "decodePart sample_host ''h'' label = Inr [(''alg'', JStr ''ES256''), (''x5c'', JArr [JStr ''leaf'', JStr ''mid'', JStr ''root''])]" for label
    by (simp add: decodePart_def sample_host_def sample_documents_def object_of_def)
  have payload: "decodePart sample_host x label = Inr ms" for label
    using parts assms(2) by (simp add: decodePart_def sample_host_def object_of_def)
  show ?thesis
    unfolding verifyAppleSignedData_def appleLeafKeyFromChain_def verifyCompactJws_def split
    using parts header payload sample_root
    by (simp add: member_def chain_certificate_def requiredString_def guardR_def certificate_current_def nan_test_def the_or_def sample_host_def)
qed

lemma sample_accepted:
  "\<exists>n t. normalizeAppleNotification sample_host (verifyAppleSignedData sample_host [''abroot''] 0) ''h.n.sig'' sample_expected = Inr n
     \<and> no_transaction n = Some t"
  using sample_verified [of "''n''"] sample_verified [of "''t''"] sample_verified [of "''r''"]
  by (simp add: sample_documents_def normalizeAppleNotification_def member_def requiredString_def guardR_def timestamp_def object_of_def
    notification_in_scope_def sample_expected_def signed_part_def transaction_in_scope_def renewal_in_scope_def effective_at_def
    optional_member_def) (simp add: sample_host_def)

theorem apple_notification_authentic_witness:
  "\<exists>n t s. normalizeAppleNotification sample_host (verifyAppleSignedData sample_host [''abroot''] 0) ''h.n.sig'' sample_expected = Inr n
     \<and> no_transaction n = Some t \<and> apple_authentic sample_host [''abroot''] 0 s t"
proof -
  obtain n t where n: "normalizeAppleNotification sample_host (verifyAppleSignedData sample_host [''abroot''] 0) ''h.n.sig'' sample_expected = Inr n"
    "no_transaction n = Some t" using sample_accepted by blast
  from apple_notification_authentic [OF n(1)] n show ?thesis by blast
qed

theorem google_money_exact_witness:
  "\<exists>g u. googleMoney (Some (JObj [(''currencyCode'', JStr ''USD''), (''units'', JStr ''012'')])) = Inr g
     \<and> gm_amountUnscaled g = show_nat (u * 10 ^ 9) \<and> dec_value ''012'' = Some u"
proof -
  have "case googleMoney (Some (JObj [(''currencyCode'', JStr ''USD''), (''units'', JStr ''012'')])) of Inr g \<Rightarrow> True | Inl e \<Rightarrow> False"
    by code_simp
  then obtain g where g: "googleMoney (Some (JObj [(''currencyCode'', JStr ''USD''), (''units'', JStr ''012'')])) = Inr g"
    by (auto split: sum.splits)
  from google_money_exact [OF g] g show ?thesis by (auto simp: money_units_def money_nanos_def member_def)
qed

theorem google_refunds_accounted_witness:
  "\<exists>rs. normalizeGoogleOrderRefunds sample_host ''o'' ''GPA'' = Inr rs \<and> length (filter gr_full rs) = 1
     \<and> length (filter (\<lambda>r. \<not> gr_full r) rs) = 0"
proof -
  have "case normalizeGoogleOrderRefunds sample_host ''o'' ''GPA'' of Inr rs \<Rightarrow> True | Inl e \<Rightarrow> False" by code_simp
  then obtain rs where rs: "normalizeGoogleOrderRefunds sample_host ''o'' ''GPA'' = Inr rs" by (auto split: sum.splits)
  from google_refunds_accounted [OF rs] rs show ?thesis
    by (auto simp: sample_host_def sample_documents_def member_def the_or_def processed_def)
qed

end
