(* ===== verification/Rate_Limit.thy ===== *)
theory Rate_Limit
  imports Doubles
begin

text \<open>
  \<open>apps/api/src/rate-limit.ts\<close>: the token bucket and the bounded, expiring limiter per key that guard the
  public receivers. Times, rates and tokens are doubles, so every operation rounds. The theorems bound the
  memory of the limiter over every run and say exactly how many requests of one instant pass.
\<close>

definition dsub :: "rat \<Rightarrow> rat \<Rightarrow> rat" where "dsub x y = double_round (x - y)"

definition ddiv :: "rat \<Rightarrow> rat \<Rightarrow> rat" where "ddiv x y = double_round (x / y)"

section \<open>Token bucket\<close>

record token_bucket =
  tb_tokens :: rat
  tb_updatedAt :: rat

definition new_bucket :: "rat \<Rightarrow> rat \<Rightarrow> rat \<Rightarrow> token_bucket res" where
  "new_bucket ratePerSecond burst now =
     guardR (0 < ratePerSecond \<and> 1 \<le> burst) ''token bucket rate and burst must be positive''
       (Inr \<lparr> tb_tokens = burst, tb_updatedAt = now \<rparr>)"

definition refilled :: "rat \<Rightarrow> rat \<Rightarrow> rat \<Rightarrow> token_bucket \<Rightarrow> rat" where
  "refilled ratePerSecond burst now b =
     min burst (dadd (tb_tokens b) (dmul (ddiv (max 0 (dsub now (tb_updatedAt b))) 1000) ratePerSecond))"

definition bucket_allow :: "rat \<Rightarrow> rat \<Rightarrow> rat \<Rightarrow> token_bucket \<Rightarrow> bool \<times> token_bucket" where
  "bucket_allow ratePerSecond burst now b =
     (let tokens = refilled ratePerSecond burst now b in
      if tokens < 1 then (False, \<lparr> tb_tokens = tokens, tb_updatedAt = now \<rparr>)
      else (True, \<lparr> tb_tokens = dsub tokens 1, tb_updatedAt = now \<rparr>))"

section \<open>Limiter per key\<close>

record limiter_config =
  lc_ratePerSecond :: rat
  lc_burst :: rat
  lc_maximumKeys :: nat
  lc_idleTtlMs :: rat

type_synonym limiter = "(string, token_bucket \<times> rat) jsmap"

definition new_limiter :: "limiter_config \<Rightarrow> limiter res" where
  "new_limiter c = guardR (1 \<le> lc_maximumKeys c \<and> 0 < lc_idleTtlMs c) ''keyed token bucket bounds must be positive'' (Inr [])"

definition unexpired :: "limiter_config \<Rightarrow> rat \<Rightarrow> limiter \<Rightarrow> limiter" where
  "unexpired c now es = filter (\<lambda>e. \<not> lc_idleTtlMs c \<le> dsub now (snd (snd e))) es"

definition evict_oldest :: "limiter_config \<Rightarrow> limiter \<Rightarrow> limiter" where
  "evict_oldest c es =
     (if lc_maximumKeys c \<le> length es then
        (case sort_key (\<lambda>e. snd (snd e)) es of [] \<Rightarrow> es | oldest # _ \<Rightarrow> filter (\<lambda>e. fst e \<noteq> fst oldest) es)
      else es)"

definition limiter_allow :: "limiter_config \<Rightarrow> string \<Rightarrow> rat \<Rightarrow> limiter \<Rightarrow> (bool \<times> limiter) res" where
  "limiter_allow c key now es =
     (let alive = unexpired c now es in
      bindR (case map_get alive key of
          Some e \<Rightarrow> Inr (fst e, alive)
        | None \<Rightarrow> bindR (new_bucket (lc_ratePerSecond c) (lc_burst c) now) (\<lambda>b. Inr (b, evict_oldest c alive))) (\<lambda>found.
      let r = bucket_allow (lc_ratePerSecond c) (lc_burst c) now (fst found) in
      Inr (fst r, map_set key (snd r, now) (snd found))))"

text \<open>A run of requests, with the answer to each.\<close>

fun limiter_run :: "limiter_config \<Rightarrow> (string \<times> rat) list \<Rightarrow> limiter \<Rightarrow> (bool list \<times> limiter) res" where
  "limiter_run c [] es = Inr ([], es)"
| "limiter_run c (q # qs) es =
     bindR (limiter_allow c (fst q) (snd q) es) (\<lambda>r.
     bindR (limiter_run c qs (snd r)) (\<lambda>s. Inr (fst r # fst s, snd s)))"

section \<open>Bounds\<close>

definition limiter_ok :: "limiter_config \<Rightarrow> limiter \<Rightarrow> bool" where
  "limiter_ok c es \<longleftrightarrow> distinct (map fst es) \<and> length es \<le> lc_maximumKeys c \<and> (\<forall>e \<in> set es. 0 \<le> tb_tokens (fst (snd e)))"

lemma round_int_nonneg: "0 < d \<Longrightarrow> 0 \<le> n \<Longrightarrow> 0 \<le> round_int n d"
  using roundHalfEven_total [of d n] roundHalfEven_nonneg(2) [of d n] by (auto simp: round_int_def)

lemma double_round_nonneg:
  assumes "0 \<le> x"
  shows "0 \<le> double_round x"
proof (cases "quotient_of x")
  case (Pair n d)
  have d: "0 < d" using quotient_of_denom_pos [OF Pair] .
  have "x = of_int n / of_int d" using quotient_of_div [OF Pair] .
  with assms d have "0 \<le> n" by (simp add: zero_le_divide_iff)
  with d show ?thesis by (simp add: double_round_def Pair Let_def round_int_nonneg)
qed

lemma bucket_allow_nonneg: "0 \<le> tb_tokens b \<Longrightarrow> 1 \<le> burst \<Longrightarrow> 0 < ratePerSecond \<Longrightarrow> 0 \<le> tb_tokens (snd (bucket_allow ratePerSecond burst now b))"
  by (auto simp: bucket_allow_def refilled_def Let_def dadd_def dmul_def ddiv_def dsub_def min_def intro!: double_round_nonneg
      add_nonneg_nonneg mult_nonneg_nonneg divide_nonneg_nonneg)

lemma unexpired_ok: "limiter_ok c es \<Longrightarrow> limiter_ok c (unexpired c now es)"
  unfolding limiter_ok_def unexpired_def by (auto simp: distinct_map_filter intro: le_trans [OF length_filter_le])

lemma filter_key_length: "k \<in> fst ` set es \<Longrightarrow> length (filter (\<lambda>e. fst e \<noteq> k) es) < length es"
  by (induction es) (force simp: less_Suc_eq_le)+

lemma evict_ok:
  assumes "limiter_ok c es" "1 \<le> lc_maximumKeys c"
  shows "limiter_ok c (evict_oldest c es)" "length (evict_oldest c es) < lc_maximumKeys c"
    "set (evict_oldest c es) \<subseteq> set es"
proof -
  have "length (evict_oldest c es) < lc_maximumKeys c \<and> set (evict_oldest c es) \<subseteq> set es \<and> distinct (map fst (evict_oldest c es))"
  proof (cases "sort_key (\<lambda>e. snd (snd e)) es")
    case Nil
    then have "es = []" by (metis set_empty set_sort)
    with assms show ?thesis by (auto simp: evict_oldest_def)
  next
    case (Cons x xs)
    have "x \<in> set es" using Cons by (metis list.set_intros(1) set_sort)
    then show ?thesis using assms filter_key_length [of "fst x" es]
      by (auto simp: evict_oldest_def Cons limiter_ok_def distinct_map_filter)
  qed
  with assms show "limiter_ok c (evict_oldest c es)" "length (evict_oldest c es) < lc_maximumKeys c"
    "set (evict_oldest c es) \<subseteq> set es" by (auto simp: limiter_ok_def)
qed

lemma map_set_length: "length (map_set k v m) = (if k \<in> fst ` set m then length m else Suc (length m))"
  by (induction m) (auto simp: map_set_def)

lemma map_set_ok:
  assumes "limiter_ok c es" "map_get es key = None \<longrightarrow> length es < lc_maximumKeys c" "0 \<le> tb_tokens b"
  shows "limiter_ok c (map_set key (b, now) es)"
proof -
  have "length (map_set key (b, now) es) \<le> lc_maximumKeys c"
    using assms by (auto simp: map_set_length map_get_def map_of_eq_None_iff limiter_ok_def)
  moreover have "0 \<le> tb_tokens (fst (snd e))" if "e \<in> set (map_set key (b, now) es)" for e
    using that map_set_values [of key "(b, now)" es] assms(1,3) by (force simp: map_values_def limiter_ok_def)
  ultimately show ?thesis using assms(1) by (auto simp: limiter_ok_def map_set_distinct)
qed

lemma limiter_allow_ok:
  assumes ok: "limiter_ok c es" and r: "limiter_allow c key now es = Inr r" and c: "1 \<le> lc_maximumKeys c" "0 < lc_ratePerSecond c" "1 \<le> lc_burst c"
  shows "limiter_ok c (snd r)"
proof (cases "map_get (unexpired c now es) key")
  case None
  have e: "limiter_ok c (evict_oldest c (unexpired c now es))" "length (evict_oldest c (unexpired c now es)) < lc_maximumKeys c"
    using evict_ok [OF unexpired_ok [OF ok] c(1)] by auto
  from r None c show ?thesis
    by (auto simp: limiter_allow_def new_bucket_def guardR_def Let_def intro!: map_set_ok e bucket_allow_nonneg)
next
  case (Some x)
  then have "0 \<le> tb_tokens (fst x)"
    using unexpired_ok [OF ok] by (force simp: map_get_def limiter_ok_def dest: map_of_SomeD)
  with r Some c show ?thesis
    by (auto simp: limiter_allow_def Let_def intro!: map_set_ok unexpired_ok [OF ok] bucket_allow_nonneg)
qed

lemma limiter_run_ok:
  assumes "limiter_run c qs es = Inr r" "limiter_ok c es" "1 \<le> lc_maximumKeys c" "0 < lc_ratePerSecond c" "1 \<le> lc_burst c"
  shows "limiter_ok c (snd r)" "length (fst r) = length qs"
proof -
  have "limiter_ok c (snd r) \<and> length (fst r) = length qs"
    using assms(1,2)
  proof (induction qs arbitrary: es r)
    case (Cons q qs)
    from Cons.prems obtain a b where s: "limiter_allow c (fst q) (snd q) es = Inr a" "limiter_run c qs (snd a) = Inr b"
      "r = (fst a # fst b, snd b)" by (auto simp: result_simps)
    from Cons.IH [OF s(2) limiter_allow_ok [OF Cons.prems(2) s(1) assms(3-5)]] s(3) show ?case by simp
  qed simp
  then show "limiter_ok c (snd r)" "length (fst r) = length qs" by auto
qed

text \<open>The memory of the limiter is bounded for every sequence of requests, whatever keys and times they carry: it holds
  at most the configured number of keys, each once, with no negative balance.\<close>

theorem limiter_bounded:
  assumes "new_limiter c = Inr es" "limiter_run c qs es = Inr r" "0 < lc_ratePerSecond c" "1 \<le> lc_burst c"
  shows "length (snd r) \<le> lc_maximumKeys c \<and> distinct (map fst (snd r)) \<and> (\<forall>e \<in> set (snd r). 0 \<le> tb_tokens (fst (snd e)))"
proof -
  have "limiter_ok c es" "1 \<le> lc_maximumKeys c" using assms(1) by (auto simp: new_limiter_def result_simps limiter_ok_def)
  from limiter_run_ok(1) [OF assms(2) this assms(3,4)] show ?thesis by (simp add: limiter_ok_def)
qed

section \<open>Bursts\<close>

lemma double_round_nat:
  assumes "m < 2 ^ 53"
  shows "double_round (of_nat m) = of_nat m"
proof -
  have "int m < int (2 ^ 53)" using assms by (simp only: of_nat_less_iff)
  then have "\<bar>int m\<bar> < 2 ^ 53" by simp
  from double_round_int [OF this] show ?thesis by simp
qed

lemma bucket_allow_instant:
  assumes "m \<le> k" "k < 2 ^ 53"
  shows "bucket_allow rate (of_nat k) now \<lparr> tb_tokens = of_nat m, tb_updatedAt = now \<rparr> =
    (0 < m, \<lparr> tb_tokens = of_nat (m - 1), tb_updatedAt = now \<rparr>)"
proof -
  have "refilled rate (of_nat k) now \<lparr> tb_tokens = of_nat m, tb_updatedAt = now \<rparr> = of_nat m"
    using assms by (simp add: refilled_def dsub_def ddiv_def dmul_def dadd_def double_round_nat)
  then show ?thesis
    using assms double_round_nat [of "m - 1"] by (cases m) (auto simp: bucket_allow_def dsub_def)
qed

lemma burst_run:
  assumes c: "0 < lc_idleTtlMs c" "lc_burst c = of_nat k" "k < 2 ^ 53" and m: "m \<le> k"
  shows "\<exists>es. limiter_run c (replicate n (key, now)) [(key, (\<lparr> tb_tokens = of_nat m, tb_updatedAt = now \<rparr>, now))] =
    Inr (replicate (min n m) True @ replicate (n - m) False, es)"
  using m
proof (induction n arbitrary: m)
  case (Suc n)
  have alive: "unexpired c now [(key, (b, now))] = [(key, (b, now))]" for b
    using c(1) by (simp add: unexpired_def dsub_def)
  have step: "limiter_allow c key now [(key, (\<lparr> tb_tokens = of_nat m, tb_updatedAt = now \<rparr>, now))] =
      Inr (0 < m, [(key, (\<lparr> tb_tokens = of_nat (m - 1), tb_updatedAt = now \<rparr>, now))])"
    using bucket_allow_instant [OF Suc.prems c(3)] c(2)
    by (simp add: limiter_allow_def alive Let_def map_get_def map_set_def)
  from Suc.IH [of "m - 1"] Suc.prems step show ?case by (cases m) auto
qed simp

text \<open>Of any number of requests that one new key sends at one instant, exactly the first \<open>burst\<close> pass.\<close>

theorem burst_exact:
  assumes "0 < lc_ratePerSecond c" "lc_burst c = of_nat k" "1 \<le> k" "k < 2 ^ 53" "0 < lc_idleTtlMs c" "1 \<le> lc_maximumKeys c"
  shows "\<exists>es. limiter_run c (replicate n (key, now)) [] = Inr (replicate (min n k) True @ replicate (n - k) False, es)"
proof (cases n)
  case (Suc i)
  have "limiter_allow c key now [] = Inr (True, [(key, (\<lparr> tb_tokens = of_nat (k - 1), tb_updatedAt = now \<rparr>, now))])"
    using assms bucket_allow_instant [of k k "lc_ratePerSecond c" now]
    by (simp add: limiter_allow_def unexpired_def evict_oldest_def new_bucket_def guardR_def map_set_def)
  moreover obtain es where "limiter_run c (replicate i (key, now)) [(key, (\<lparr> tb_tokens = of_nat (k - 1), tb_updatedAt = now \<rparr>, now))] =
      Inr (replicate (min i (k - 1)) True @ replicate (i - (k - 1)) False, es)"
    using burst_run [OF assms(5,2,4), of "k - 1" i key now] by auto
  ultimately show ?thesis using assms(3) Suc by (cases k) auto
qed simp

lemma expired_absent:
  assumes "distinct (map fst es)" "\<forall>b seen. map_get es key = Some (b, seen) \<longrightarrow> lc_idleTtlMs c \<le> dsub now seen"
  shows "map_get (unexpired c now es) key = None"
proof -
  have "key \<notin> fst ` set (unexpired c now es)"
    using assms by (auto simp: unexpired_def map_get_def)
  then show ?thesis by (simp add: map_get_def map_of_eq_None_iff)
qed

text \<open>No key is locked out for ever: a request of a key that was never seen, or that has been idle for the configured time,
  passes, however often the key was refused before and however many other keys there are.\<close>

theorem idle_key_allowed:
  assumes "limiter_ok c es" "0 < lc_ratePerSecond c" "lc_burst c = of_nat k" "1 \<le> k" "k < 2 ^ 53"
    and "\<forall>b seen. map_get es key = Some (b, seen) \<longrightarrow> lc_idleTtlMs c \<le> dsub now seen"
  shows "\<exists>t. limiter_allow c key now es = Inr (True, t)"
proof -
  have "map_get (unexpired c now es) key = None" using expired_absent assms(1,6) by (auto simp: limiter_ok_def)
  moreover have "fst (bucket_allow (lc_ratePerSecond c) (of_nat k) now \<lparr> tb_tokens = of_nat k, tb_updatedAt = now \<rparr>)"
    using bucket_allow_instant [of k k] assms(4,5) by simp
  ultimately show ?thesis using assms(2-4) by (simp add: limiter_allow_def new_bucket_def guardR_def Let_def)
qed

section \<open>A concrete limiter\<close>

definition sample_limiter :: limiter_config where
  "sample_limiter = \<lparr> lc_ratePerSecond = 1, lc_burst = 2, lc_maximumKeys = 1, lc_idleTtlMs = 1000 \<rparr>"

theorem limiter_bounded_witness:
  "\<exists>r. limiter_run sample_limiter [(''a'', 0), (''b'', 5), (''b'', 6)] [] = Inr r \<and> length (snd r) \<le> 1 \<and> distinct (map fst (snd r))"
proof -
  have "case limiter_run sample_limiter [(''a'', 0), (''b'', 5), (''b'', 6)] [] of Inr r \<Rightarrow> True | Inl e \<Rightarrow> False" by code_simp
  then obtain r where r: "limiter_run sample_limiter [(''a'', 0), (''b'', 5), (''b'', 6)] [] = Inr r" by (auto split: sum.splits)
  have "new_limiter sample_limiter = Inr []" by (simp add: new_limiter_def sample_limiter_def guardR_def)
  from limiter_bounded [OF this r] r show ?thesis by (auto simp: sample_limiter_def)
qed

theorem burst_exact_witness: "\<exists>es. limiter_run sample_limiter (replicate 3 (''a'', 7)) [] = Inr ([True, True, False], es)"
proof -
  have "\<exists>es. limiter_run sample_limiter (replicate 3 (''a'', 7)) [] = Inr (replicate (min 3 2) True @ replicate (3 - 2) False, es)"
    by (rule burst_exact) (simp_all add: sample_limiter_def)
  moreover have "replicate (min 3 2) True @ replicate (3 - 2) False = [True, True, False]" by (simp add: numeral_2_eq_2 numeral_3_eq_3)
  ultimately show ?thesis by (simp only:)
qed

theorem idle_key_allowed_witness:
  "\<exists>t. limiter_allow sample_limiter ''a'' 2000 [(''a'', (\<lparr> tb_tokens = 0, tb_updatedAt = 0 \<rparr>, 0))] = Inr (True, t)"
proof (rule idle_key_allowed)
  show "limiter_ok sample_limiter [(''a'', (\<lparr> tb_tokens = 0, tb_updatedAt = 0 \<rparr>, 0))]" by (simp add: limiter_ok_def sample_limiter_def)
  show "lc_burst sample_limiter = of_nat 2" by (simp add: sample_limiter_def)
  show "\<forall>b seen. map_get [(''a'', (\<lparr> tb_tokens = 0, tb_updatedAt = 0 \<rparr>, 0))] ''a'' = Some (b, seen) \<longrightarrow>
      lc_idleTtlMs sample_limiter \<le> dsub 2000 seen"
    by (simp add: sample_limiter_def map_get_def dsub_def)
qed (simp_all add: sample_limiter_def)

end
