(* ===== verification/Apple_Postback.thy ===== *)
theory Apple_Postback
  imports Json
begin

text \<open>
  \<open>packages/apple-postback/src/index.ts\<close> and the key set of \<open>apple-keys.ts\<close>: which parts of an install
  postback of the platform are authenticated. \<open>JSON.parse\<close>, base64 and the two encodings of
  \<open>crypto.verify\<close> are arguments (\<open>None\<close> where the key or the call throws). A parsed object has each name once.
  The theorems say what a verified postback proves, and what the signed message determines.
\<close>

record postback_host =
  ph_json :: "string \<Rightarrow> json option"
  ph_base64 :: "string \<Rightarrow> string"
  ph_base64url :: "string \<Rightarrow> string"
  ph_verify_der :: "string \<Rightarrow> string \<Rightarrow> string \<Rightarrow> bool option"
  ph_verify_p1363 :: "string \<Rightarrow> string \<Rightarrow> string \<Rightarrow> bool option"

datatype key_environment = Production | Development

datatype failure_reason = Malformed | Signature_Invalid | Unknown_Key | Development_Postback_Rejected

text \<open>A result: the authenticated, unsigned and unverified objects and the environment of the key, where they are given.\<close>

datatype verification =
  Verified json_object json_object key_environment
| Unverified failure_reason json_object "key_environment option" "json_object option"

section \<open>The signed message\<close>

definition separator :: string where "separator = [CHR 0xE2, CHR 0x81, CHR 0xA3]"

definition named_string :: "json_object \<Rightarrow> string \<Rightarrow> string res" where
  "named_string body name =
     (case member body name of Some (JStr s) \<Rightarrow> guardR (s \<noteq> []) (''missing_'' @ name) (Inr s) | _ \<Rightarrow> throw (''missing_'' @ name))"

definition named_integer :: "json_object \<Rightarrow> string \<Rightarrow> string res" where
  "named_integer body name =
     (case member body name of
        None \<Rightarrow> throw (''invalid_'' @ name)
      | Some v \<Rightarrow> (case integer_of v of
            None \<Rightarrow> throw (''invalid_'' @ name)
          | Some n \<Rightarrow> guardR (0 \<le> n) (''invalid_'' @ name) (Inr (integer_text n))))"

definition named_boolean :: "json_object \<Rightarrow> string \<Rightarrow> string res" where
  "named_boolean body name =
     (case member body name of Some (JBool b) \<Rightarrow> Inr (if b then ''true'' else ''false'') | _ \<Rightarrow> throw (''invalid_'' @ name))"

definition optional_integer :: "json_object \<Rightarrow> string \<Rightarrow> string list res" where
  "optional_integer body name =
     (if member body name = None then Inr [] else bindR (named_integer body name) (\<lambda>t. Inr [t]))"

definition skan_major :: "string \<Rightarrow> rat option" where
  "skan_major version = js_number (hd (split_on (CHR ''.'') version))"

definition skan_texts_3 :: "json_object \<Rightarrow> string list res" where
  "skan_texts_3 body =
     bindR (named_integer body ''campaign-id'') (\<lambda>campaign.
     bindR (named_integer body ''app-id'') (\<lambda>app.
     bindR (named_string body ''transaction-id'') (\<lambda>transaction.
     bindR (named_boolean body ''redownload'') (\<lambda>redownload.
     bindR (optional_integer body ''source-app-id'') (\<lambda>source.
     bindR (named_integer body ''fidelity-type'') (\<lambda>fidelity.
     bindR (named_boolean body ''did-win'') (\<lambda>win.
       Inr ([campaign, app, transaction, redownload] @ source @ [fidelity, win]))))))))"

definition skan_texts_4 :: "json_object \<Rightarrow> string list res" where
  "skan_texts_4 body =
     bindR (if member body ''source-app-id'' \<noteq> None then named_integer body ''source-app-id''
            else named_string body ''source-domain'') (\<lambda>source.
     bindR (named_string body ''source-identifier'') (\<lambda>identifier.
     bindR (named_integer body ''app-id'') (\<lambda>app.
     bindR (named_string body ''transaction-id'') (\<lambda>transaction.
     bindR (named_boolean body ''redownload'') (\<lambda>redownload.
     bindR (named_integer body ''fidelity-type'') (\<lambda>fidelity.
     bindR (named_boolean body ''did-win'') (\<lambda>win.
     bindR (named_integer body ''postback-sequence-index'') (\<lambda>index.
       Inr [identifier, app, transaction, redownload, source, fidelity, win, index]))))))))"

definition skan_texts :: "json_object \<Rightarrow> string list res" where
  "skan_texts body =
     bindR (named_string body ''version'') (\<lambda>version.
     bindR (named_string body ''ad-network-id'') (\<lambda>network.
     bindR (if skan_major version = Some 3 then skan_texts_3 body
            else if skan_major version = Some 4 then skan_texts_4 body
            else throw ''unsupported_version'') (\<lambda>texts.
       Inr ([version, network] @ texts))))"

definition skanSignedMessage :: "json_object \<Rightarrow> string res" where
  "skanSignedMessage body = bindR (skan_texts body) (\<lambda>texts. Inr (join separator texts))"

section \<open>Verification\<close>

definition picked :: "string list \<Rightarrow> json_object \<Rightarrow> json_object" where
  "picked names body = concat (map (\<lambda>name. case member body name of None \<Rightarrow> [] | Some v \<Rightarrow> [(name, v)]) names)"

definition skanUnsignedFields :: "string list" where
  "skanUnsignedFields = [''conversion-value'', ''coarse-conversion-value'', ''country-code'']"

definition APPLE_SKAN_PUBLIC_KEY_BASE64 :: string where
  "APPLE_SKAN_PUBLIC_KEY_BASE64 = ''MFkwEwYHKoZIzj0CAQYIKoZIzj0DAQcDQgAEWdp8GPcGqmhgzEFj9Z2nSpQVddayaPe4FMzqM9wib1+aHaaIzoHoLN9zW4K8y4SPykE3YVK3sVqW6Af0lfx3gg==''"

definition APPLE_AAK_PUBLIC_KEYS :: "(string \<times> string) list" where
  "APPLE_AAK_PUBLIC_KEYS =
     [(''apple-cas-identifier/0'', APPLE_SKAN_PUBLIC_KEY_BASE64),
      (''apple-development-identifier/0'',
        ''MFkwEwYHKoZIzj0CAQYIKoZIzj0DAQcDQgAELeEDzpJEP+/qRSE5hJVC1p1J0ssUnQGMzBBbvnACBok8OVGGLgxL0myrKiy6lvRtSlLRsWit87i+vftD8AEqeQ==''),
      (''apple-development-identifier/1'',
        ''MFkwEwYHKoZIzj0CAQYIKoZIzj0DAQcDQgAE8YzdO7eM97s/IJ25kdW5CZ3A14USE5IJ5Ha/vhWxaI6UBI1ZxCEvjrKxVluVGe6qWwF1BDFq+QHqKfH5u+wxHQ=='')]"

definition thrown :: "'a option \<Rightarrow> 'a res" where
  "thrown v = (case v of None \<Rightarrow> throw ''thrown'' | Some x \<Rightarrow> Inr x)"

definition verifySkAdNetworkPostback :: "postback_host \<Rightarrow> string option \<Rightarrow> json_object \<Rightarrow> verification" where
  "verifySkAdNetworkPostback H publicKeyBase64 body =
     (let unsigned = picked skanUnsignedFields body in
      case bindR (named_string body ''attribution-signature'') (\<lambda>signature.
           bindR (skanSignedMessage body) (\<lambda>message.
             thrown (ph_verify_der H (the_or APPLE_SKAN_PUBLIC_KEY_BASE64 publicKeyBase64) message (ph_base64 H signature)))) of
        Inl e \<Rightarrow> Unverified Malformed unsigned None None
      | Inr valid \<Rightarrow>
          if \<not> valid then Unverified Signature_Invalid unsigned (Some Production) None
          else Verified (filter (\<lambda>p. fst p \<noteq> ''attribution-signature'' \<and> fst p \<notin> set skanUnsignedFields) body) unsigned Production)"

definition decodeBase64UrlJson :: "postback_host \<Rightarrow> string \<Rightarrow> json_object res" where
  "decodeBase64UrlJson H v =
     (case ph_json H (ph_base64url H v) of Some (JObj ms) \<Rightarrow> Inr ms | _ \<Rightarrow> throw ''invalid_json_object'')"

definition keyEnvironment :: "string \<Rightarrow> key_environment option" where
  "keyEnvironment kid =
     (if kid = ''apple-cas-identifier/0'' then Some Production
      else if kid = ''apple-development-identifier/0'' \<or> kid = ''apple-development-identifier/1'' then Some Development
      else None)"

definition aakUnsignedFields :: "string list" where
  "aakUnsignedFields = [''conversion-value'', ''coarse-conversion-value'', ''ad-interaction-type'', ''country-code'']"

text \<open>The checks of a decoded token, for the key set and the choice to accept development postbacks.\<close>

definition aak_checked :: "postback_host \<Rightarrow> bool \<Rightarrow> (string \<times> string) list \<Rightarrow> json_object \<Rightarrow> string list \<Rightarrow>
    json_object \<Rightarrow> json_object \<Rightarrow> string \<Rightarrow> verification res" where
  "aak_checked H acceptDevelopment keys unsigned parts header claims kid =
     (case keyEnvironment kid of
        None \<Rightarrow> Inr (Unverified Unknown_Key unsigned None (Some claims))
      | Some env \<Rightarrow>
          if env = Development \<and> \<not> acceptDevelopment
          then Inr (Unverified Development_Postback_Rejected unsigned (Some env) (Some claims))
          else if \<not> truthy (map_of keys kid) then Inr (Unverified Unknown_Key unsigned (Some env) (Some claims))
          else bindR (thrown (ph_verify_p1363 H (the_or [] (map_of keys kid)) (parts ! 0 @ ''.'' @ parts ! 1) (ph_base64url H (parts ! 2))))
            (\<lambda>valid. Inr (if \<not> valid then Unverified Signature_Invalid unsigned (Some env) (Some claims)
              else Verified claims unsigned env)))"

definition verifyAdAttributionKitPostback :: "postback_host \<Rightarrow> bool \<Rightarrow> (string \<times> string) list option \<Rightarrow> json_object \<Rightarrow> verification" where
  "verifyAdAttributionKitPostback H acceptDevelopment keySet body =
     (let unsigned = picked aakUnsignedFields body; malformed = Unverified Malformed unsigned None None in
      case bindR (named_string body ''jws-string'') (\<lambda>jws.
           let parts = split_on (CHR ''.'') jws in
           if length parts \<noteq> 3 \<or> [] \<in> set parts then Inr malformed
           else bindR (decodeBase64UrlJson H (parts ! 0)) (\<lambda>header.
                bindR (decodeBase64UrlJson H (parts ! 1)) (\<lambda>claims.
                if member header ''alg'' \<noteq> Some (JStr ''ES256'') then Inr malformed
                else (case member header ''kid'' of
                    Some (JStr kid) \<Rightarrow> aak_checked H acceptDevelopment (the_or APPLE_AAK_PUBLIC_KEYS keySet) unsigned parts header claims kid
                  | _ \<Rightarrow> Inr malformed)))) of
        Inl e \<Rightarrow> malformed | Inr v \<Rightarrow> v)"

section \<open>What a verified postback proves\<close>

lemma named_string_Inr [result_simps]: "named_string body name = Inr s \<longleftrightarrow> member body name = Some (JStr s) \<and> s \<noteq> []"
  by (auto simp: named_string_def throw_def guardR_def split: option.splits json.splits)

lemma named_integer_Inr [result_simps]:
  "named_integer body name = Inr t \<longleftrightarrow> (\<exists>v n. member body name = Some v \<and> integer_of v = Some n \<and> 0 \<le> n \<and> t = integer_text n)"
  by (auto simp: named_integer_def throw_def guardR_def split: option.splits)

lemma named_boolean_Inr [result_simps]:
  "named_boolean body name = Inr t \<longleftrightarrow> (\<exists>b. member body name = Some (JBool b) \<and> t = (if b then ''true'' else ''false''))"
  by (auto simp: named_boolean_def throw_def split: option.splits json.splits)

lemma thrown_Inr [result_simps]: "thrown v = Inr x \<longleftrightarrow> v = Some x"
  by (simp add: thrown_def throw_def split: option.splits)

lemma member_filter: "member (filter (\<lambda>p. P (fst p)) body) name = (if P name then member body name else None)"
  unfolding member_def by (induction body) auto

text \<open>A verified SKAdNetwork postback carries a signature of the platform key over exactly the message of its body, and no
  conversion value, coarse conversion value or country, nor the signature itself, is ever reported as authenticated.\<close>

theorem skan_verified_signed:
  assumes "verifySkAdNetworkPostback H key body = Verified authenticated unsigned environment"
  shows "\<exists>signature message. member body ''attribution-signature'' = Some (JStr signature) \<and> skanSignedMessage body = Inr message
      \<and> ph_verify_der H (the_or APPLE_SKAN_PUBLIC_KEY_BASE64 key) message (ph_base64 H signature) = Some True
      \<and> environment = Production
      \<and> (\<forall>name. member authenticated name = (if name \<in> set (''attribution-signature'' # skanUnsignedFields) then None else member body name))"
  using assms
  using member_filter [of "\<lambda>n. n \<noteq> ''attribution-signature'' \<and> n \<notin> set skanUnsignedFields" body]
  by (auto simp: verifySkAdNetworkPostback_def Let_def result_simps split: sum.splits if_splits)

lemma aak_checked_Verified:
  assumes "aak_checked H acceptDevelopment keys unsigned parts header claims kid = Inr (Verified authenticated u env)"
  shows "authenticated = claims \<and> u = unsigned \<and> keyEnvironment kid = Some env \<and> (env = Development \<longrightarrow> acceptDevelopment)
    \<and> (\<exists>key. map_of keys kid = Some key \<and> key \<noteq> []
        \<and> ph_verify_p1363 H key (parts ! 0 @ ''.'' @ parts ! 1) (ph_base64url H (parts ! 2)) = Some True)"
  using assms by (auto simp: aak_checked_def result_simps elim!: truthyE split: option.splits if_splits)

text \<open>A verified AdAttributionKit postback carries the claims of its own token and nothing else as authenticated: the token
  has three parts, its key id names a configured key of the reported environment, that key signed header and claims, and a
  development key is only accepted where that was asked for.\<close>

theorem aak_verified_signed:
  assumes "verifyAdAttributionKitPostback H acceptDevelopment keySet body = Verified authenticated unsigned environment"
  shows "\<exists>h p sig header kid key. member body ''jws-string'' = Some (JStr (h @ ''.'' @ p @ ''.'' @ sig))
      \<and> decodeBase64UrlJson H h = Inr header \<and> member header ''alg'' = Some (JStr ''ES256'') \<and> member header ''kid'' = Some (JStr kid)
      \<and> decodeBase64UrlJson H p = Inr authenticated
      \<and> keyEnvironment kid = Some environment \<and> (environment = Development \<longrightarrow> acceptDevelopment)
      \<and> map_of (the_or APPLE_AAK_PUBLIC_KEYS keySet) kid = Some key
      \<and> ph_verify_p1363 H key (h @ ''.'' @ p) (ph_base64url H sig) = Some True"
proof -
  obtain jws where j: "member body ''jws-string'' = Some (JStr jws)" "length (split_on (CHR ''.'') jws) = 3" "[] \<notin> set (split_on (CHR ''.'') jws)"
    and r: "bindR (decodeBase64UrlJson H (split_on (CHR ''.'') jws ! 0)) (\<lambda>header.
                bindR (decodeBase64UrlJson H (split_on (CHR ''.'') jws ! 1)) (\<lambda>claims.
                if member header ''alg'' \<noteq> Some (JStr ''ES256'') then Inr (Unverified Malformed (picked aakUnsignedFields body) None None)
                else (case member header ''kid'' of
                    Some (JStr kid) \<Rightarrow> aak_checked H acceptDevelopment (the_or APPLE_AAK_PUBLIC_KEYS keySet) (picked aakUnsignedFields body)
                      (split_on (CHR ''.'') jws) header claims kid
                  | _ \<Rightarrow> Inr (Unverified Malformed (picked aakUnsignedFields body) None None)))) = Inr (Verified authenticated unsigned environment)"
    using assms unfolding verifyAdAttributionKitPostback_def Let_def
    by (auto simp: result_simps split: sum.splits if_splits)
  obtain h p sig where parts: "split_on (CHR ''.'') jws = [h, p, sig]"
    using j(2) by (auto simp: numeral_3_eq_3 length_Suc_conv)
  have jws: "jws = h @ ''.'' @ p @ ''.'' @ sig" using join_split [of "CHR ''.''" jws] parts by simp
  from r obtain header claims kid where c: "decodeBase64UrlJson H h = Inr header" "decodeBase64UrlJson H p = Inr claims"
    "member header ''alg'' = Some (JStr ''ES256'')" "member header ''kid'' = Some (JStr kid)"
    "aak_checked H acceptDevelopment (the_or APPLE_AAK_PUBLIC_KEYS keySet) (picked aakUnsignedFields body) [h, p, sig] header claims kid
      = Inr (Verified authenticated unsigned environment)"
    by (auto simp: parts result_simps split: if_splits option.splits json.splits)
  obtain key where k: "authenticated = claims" "keyEnvironment kid = Some environment" "environment = Development \<longrightarrow> acceptDevelopment"
    "map_of (the_or APPLE_AAK_PUBLIC_KEYS keySet) kid = Some key"
    "ph_verify_p1363 H key (h @ ''.'' @ p) (ph_base64url H sig) = Some True" using aak_checked_Verified [OF c(5)] by auto
  show ?thesis
    by (rule exI [of _ h], rule exI [of _ p], rule exI [of _ sig], rule exI [of _ header], rule exI [of _ kid], rule exI [of _ key])
      (use c(1-4) k j(1) jws in auto)
qed

section \<open>What the signed message determines\<close>

lemma append_separator:
  assumes "c \<notin> set a" "c \<notin> set b" "a @ c # x = b @ c # y"
  shows "a = b \<and> x = y"
  using assms by (induction a arbitrary: b) (auto simp: Cons_eq_append_conv)

lemma join_more: "ps \<noteq> [] \<Longrightarrow> join sep (p # ps) = p @ sep @ join sep ps"
  by (cases ps) simp_all

lemma join_inject:
  assumes "join (c # cs) ps = join (c # cs) qs" "\<forall>p \<in> set (ps @ qs). c \<notin> set p" "ps \<noteq> []" "qs \<noteq> []"
  shows "ps = qs"
  using assms
proof (induction ps arbitrary: qs)
  case (Cons p ps)
  from Cons.prems obtain q qs' where qs: "qs = q # qs'" by (cases qs) auto
  have absent: "c \<notin> set p" "c \<notin> set q" using Cons.prems qs by auto
  show ?case
  proof (cases "ps = [] \<or> qs' = []")
    case True
    then have "ps = [] \<and> qs' = []"
      using Cons.prems(1) absent qs by (cases "ps = []"; cases "qs' = []") (auto simp: join_more)
    then show ?thesis using Cons.prems(1) qs by simp
  next
    case False
    then have "p @ c # (cs @ join (c # cs) ps) = q @ c # (cs @ join (c # cs) qs')" using Cons.prems(1) qs by (simp add: join_more)
    from append_separator [OF absent this] have "p = q" "join (c # cs) ps = join (c # cs) qs'" by auto
    with Cons.IH [of qs'] Cons.prems qs False show ?thesis by auto
  qed
qed simp

definition separated :: "json_object \<Rightarrow> bool" where
  "separated body = (case skan_texts body of Inr texts \<Rightarrow> list_all (\<lambda>t. CHR 0xE2 \<notin> set t) texts | Inl e \<Rightarrow> True)"

lemma skan_texts_eq:
  assumes "skanSignedMessage a = Inr m" "skanSignedMessage b = Inr m" "separated a" "separated b"
  obtains texts where "skan_texts a = Inr texts" "skan_texts b = Inr texts"
proof -
  obtain ta tb where t: "skan_texts a = Inr ta" "skan_texts b = Inr tb" "join separator ta = join separator tb"
    using assms(1,2) by (auto simp: skanSignedMessage_def result_simps)
  have "ta \<noteq> []" "tb \<noteq> []" using t(1,2) by (auto simp: skan_texts_def result_simps)
  moreover have "\<forall>p \<in> set (ta @ tb). CHR 0xE2 \<notin> set p" using assms(3,4) t(1,2) by (auto simp: separated_def list_all_iff)
  ultimately have "ta = tb" using join_inject t(3) unfolding separator_def by metis
  with t that show thesis by blast
qed

text \<open>The names whose texts the message of a version carries in places of their own.\<close>

definition skan_signed_names :: "rat option \<Rightarrow> string list" where
  "skan_signed_names major =
     [''version'', ''ad-network-id'', ''app-id'', ''transaction-id'', ''redownload'', ''fidelity-type'', ''did-win'']
       @ (if major = Some 3 then [''campaign-id'', ''source-app-id''] else [''source-identifier'', ''postback-sequence-index''])"

abbreviation text_of :: "json_object \<Rightarrow> string \<Rightarrow> string option" where
  "text_of body name \<equiv> Option.bind (member body name) js_text"

lemma integer_text_js: "integer_of v = Some n \<Longrightarrow> js_text v = Some (integer_text n)"
  by (auto simp: integer_of_def split: json.splits)

lemma text_of_string: "member body name = Some (JStr s) \<Longrightarrow> text_of body name = Some s"
  by simp

lemma text_of_boolean: "member body name = Some (JBool b) \<Longrightarrow> text_of body name = Some (if b then ''true'' else ''false'')"
  by simp

lemma named_text: "named_string body name = Inr t \<Longrightarrow> text_of body name = Some t"
  "named_integer body name = Inr t \<Longrightarrow> text_of body name = Some t" "named_boolean body name = Inr t \<Longrightarrow> text_of body name = Some t"
  by (auto simp: result_simps integer_text_js)

lemma optional_text: "optional_integer body name = Inr ts \<Longrightarrow> ts = (case text_of body name of None \<Rightarrow> [] | Some t \<Rightarrow> [t])"
  by (auto simp: optional_integer_def bindR_eq_Inr dest: named_text split: if_splits)

lemma skan_texts_3_Inr:
  assumes "skan_texts_3 body = Inr texts"
  shows "map Some texts = map (text_of body) [''campaign-id'', ''app-id'', ''transaction-id'', ''redownload'']
    @ (if text_of body ''source-app-id'' = None then [] else [text_of body ''source-app-id''])
    @ map (text_of body) [''fidelity-type'', ''did-win'']"
  using assms unfolding skan_texts_3_def
  by (auto simp: bindR_eq_Inr dest!: named_text optional_text split: option.splits)

lemma skan_texts_4_Inr:
  assumes "skan_texts_4 body = Inr texts"
  shows "\<exists>source. map Some texts = map (text_of body) [''source-identifier'', ''app-id'', ''transaction-id'', ''redownload'']
    @ [source] @ map (text_of body) [''fidelity-type'', ''did-win'', ''postback-sequence-index'']"
  using assms unfolding skan_texts_4_def
  by (auto simp: bindR_eq_Inr dest!: named_text split: if_splits)

lemma skan_texts_Inr:
  assumes "skan_texts body = Inr texts"
  obtains version rest where "texts = [version, the (text_of body ''ad-network-id'')] @ rest" "text_of body ''version'' = Some version"
    "text_of body ''ad-network-id'' \<noteq> None"
    "(skan_major version = Some 3 \<and> skan_texts_3 body = Inr rest) \<or> (skan_major version = Some 4 \<and> skan_texts_4 body = Inr rest)"
  using assms unfolding skan_texts_def by (force simp: result_simps throw_def split: if_splits)

text \<open>The signed message of an SKAdNetwork postback determines what it is about: two bodies with one message, whose texts do
  not contain the first byte of the separator, agree on the version and on every signed field of it, so no signature can be moved
  to a body with another application, transaction, campaign or source identifier, network, redownload, fidelity, win or
  sequence index.\<close>

theorem skan_message_binds:
  assumes "skanSignedMessage a = Inr m" "skanSignedMessage b = Inr m" "separated a" "separated b"
  shows "\<exists>version. text_of a ''version'' = Some version
    \<and> (\<forall>name \<in> set (skan_signed_names (skan_major version)). text_of a name = text_of b name)"
proof -
  obtain texts where t: "skan_texts a = Inr texts" "skan_texts b = Inr texts" using skan_texts_eq [OF assms] .
  obtain v r where a: "texts = [v, the (text_of a ''ad-network-id'')] @ r" "text_of a ''version'' = Some v" "text_of a ''ad-network-id'' \<noteq> None"
    "(skan_major v = Some 3 \<and> skan_texts_3 a = Inr r) \<or> (skan_major v = Some 4 \<and> skan_texts_4 a = Inr r)"
    using skan_texts_Inr [OF t(1)] .
  obtain w q where b: "texts = [w, the (text_of b ''ad-network-id'')] @ q" "text_of b ''version'' = Some w" "text_of b ''ad-network-id'' \<noteq> None"
    "(skan_major w = Some 3 \<and> skan_texts_3 b = Inr q) \<or> (skan_major w = Some 4 \<and> skan_texts_4 b = Inr q)"
    using skan_texts_Inr [OF t(2)] .
  have eq: "w = v" "q = r" "text_of a ''ad-network-id'' = text_of b ''ad-network-id''" using a(1,3) b(1,3) by auto
  show ?thesis
  proof (cases "skan_major v = Some 3")
    case True
    with a(4) b(4) eq have "skan_texts_3 a = Inr r" "skan_texts_3 b = Inr r" by auto
    from this [THEN skan_texts_3_Inr] True a(2) b(2) eq show ?thesis by (auto simp: skan_signed_names_def split: if_splits)
  next
    case False
    with a(4) b(4) eq have "skan_texts_4 a = Inr r" "skan_texts_4 b = Inr r" by auto
    from this [THEN skan_texts_4_Inr] False a(2) b(2) eq show ?thesis by (auto simp: skan_signed_names_def)
  qed
qed

section \<open>Fields outside the message\<close>

text \<open>
  The message of version 4 names a source application or a source domain. A domain beside an application is in no message, yet
  it is reported as authenticated: the signature of a postback stays valid when somebody adds one.
\<close>

lemma member_append: "member (body @ [(name, v)]) other = (case member body other of Some x \<Rightarrow> Some x | None \<Rightarrow> if other = name then Some v else None)"
  by (auto simp: member_def map_add_def split: option.splits)

lemma named_added:
  assumes "other \<noteq> name"
  shows "named_string (body @ [(name, v)]) other = named_string body other" "named_integer (body @ [(name, v)]) other = named_integer body other"
    "named_boolean (body @ [(name, v)]) other = named_boolean body other"
    "optional_integer (body @ [(name, v)]) other = optional_integer body other"
    "(member (body @ [(name, v)]) other = None) = (member body other = None)"
  using assms
  by (simp_all add: named_string_def named_integer_def named_boolean_def optional_integer_def member_append split: option.splits)

text \<open>C40. A source domain that is not in the signed message is reported as authenticated: added to any verified postback that
  names its source application, it keeps the postback verified and joins its authenticated fields.\<close>

theorem added_source_domain_authenticated:
  assumes "verifySkAdNetworkPostback H key body = Verified authenticated unsigned environment"
    and "member body ''source-app-id'' \<noteq> None" "member body ''source-domain'' = None"
  shows "verifySkAdNetworkPostback H key (body @ [(''source-domain'', domain)])
      = Verified (authenticated @ [(''source-domain'', domain)]) unsigned environment"
proof -
  have "skan_texts_3 (body @ [(''source-domain'', domain)]) = skan_texts_3 body" by (simp add: skan_texts_3_def named_added)
  moreover have "skan_texts_4 (body @ [(''source-domain'', domain)]) = skan_texts_4 body"
    using assms(2) by (simp add: skan_texts_4_def named_added)
  ultimately have texts: "skan_texts (body @ [(''source-domain'', domain)]) = skan_texts body"
    by (simp add: skan_texts_def named_added cong: if_cong)
  have "picked skanUnsignedFields (body @ [(''source-domain'', domain)]) = picked skanUnsignedFields body"
    by (simp add: picked_def skanUnsignedFields_def member_append split: option.splits)
  then show ?thesis
    using assms(1) by (auto simp: verifySkAdNetworkPostback_def skanSignedMessage_def texts named_added Let_def skanUnsignedFields_def
      split: sum.splits if_splits)
qed

section \<open>Concrete postbacks\<close>

definition sample_postback :: json_object where
  "sample_postback = [(''version'', JStr ''4.0''), (''ad-network-id'', JStr ''n''), (''source-identifier'', JStr ''52''),
     (''app-id'', JNum 7), (''transaction-id'', JStr ''t''), (''redownload'', JBool True), (''source-app-id'', JNum 9),
     (''fidelity-type'', JNum 1), (''did-win'', JBool True), (''postback-sequence-index'', JNum 0),
     (''attribution-signature'', JStr ''sig''), (''conversion-value'', JNum 20)]"

definition sample_postback_host :: postback_host where
  "sample_postback_host = \<lparr> ph_json = map_of [(''h'', JObj [(''alg'', JStr ''ES256''), (''kid'', JStr ''apple-cas-identifier/0'')]),
       (''p'', JObj [(''did-win'', JBool True)])],
     ph_base64 = id, ph_base64url = id, ph_verify_der = (\<lambda>key m s. Some (s = ''sig'')), ph_verify_p1363 = (\<lambda>key m s. Some (m = ''h.p'' \<and> s = ''sig'')) \<rparr>"

lemma sample_message: "\<exists>m. skanSignedMessage sample_postback = Inr m"
proof -
  have "js_number ''4'' = Some 4" by code_simp
  then show ?thesis
    by (simp add: skanSignedMessage_def skan_texts_def skan_texts_4_def skan_major_def sample_postback_def named_string_def
      named_integer_def named_boolean_def member_def guardR_def)
qed

lemma sample_skan: "\<exists>a u e. verifySkAdNetworkPostback sample_postback_host None sample_postback = Verified a u e"
proof -
  have "named_string sample_postback ''attribution-signature'' = Inr ''sig''"
    by (simp add: sample_postback_def named_string_def member_def guardR_def)
  with sample_message show ?thesis by (auto simp: verifySkAdNetworkPostback_def sample_postback_host_def thrown_def)
qed

theorem skan_verified_signed_witness:
  "\<exists>a u e. verifySkAdNetworkPostback sample_postback_host None sample_postback = Verified a u e \<and> member a ''conversion-value'' = None"
proof -
  obtain a u e where v: "verifySkAdNetworkPostback sample_postback_host None sample_postback = Verified a u e" using sample_skan by blast
  from skan_verified_signed [OF v] v show ?thesis by (auto simp: skanUnsignedFields_def)
qed

theorem added_source_domain_authenticated_witness:
  "\<exists>a u e. verifySkAdNetworkPostback sample_postback_host None (sample_postback @ [(''source-domain'', JStr ''evil.example'')])
      = Verified a u e \<and> member a ''source-domain'' = Some (JStr ''evil.example'')"
proof -
  obtain a u e where v: "verifySkAdNetworkPostback sample_postback_host None sample_postback = Verified a u e" using sample_skan by blast
  have s: "member sample_postback ''source-app-id'' \<noteq> None" "member sample_postback ''source-domain'' = None"
    by (simp_all add: sample_postback_def member_def)
  have "member a ''source-domain'' = None" using skan_verified_signed [OF v] s(2) by auto
  then have "member (a @ [(''source-domain'', JStr ''evil.example'')]) ''source-domain'' = Some (JStr ''evil.example'')"
    by (simp add: member_append)
  with added_source_domain_authenticated [OF v s] show ?thesis by blast
qed

theorem skan_message_binds_witness:
  "\<exists>m. skanSignedMessage sample_postback = Inr m \<and> text_of sample_postback ''version'' = Some ''4.0''
     \<and> text_of sample_postback ''app-id'' = Some (integer_text 7)"
proof -
  obtain m where m: "skanSignedMessage sample_postback = Inr m" using sample_message by blast
  have "js_number ''4'' = Some 4" by code_simp
  moreover have "list_all (\<lambda>t. CHR 0xE2 \<notin> set t) [''4.0'', ''n'', ''52'', integer_text 7, ''t'', ''true'', integer_text 9, integer_text 1, integer_text 0]"
    by code_simp
  ultimately have "separated sample_postback"
    by (simp add: separated_def skan_texts_def skan_texts_4_def skan_major_def sample_postback_def named_string_def
      named_integer_def named_boolean_def member_def guardR_def)
  from skan_message_binds [OF m m this this] m show ?thesis
    by (auto simp: sample_postback_def member_def integer_text_js)
qed

theorem aak_verified_signed_witness:
  "\<exists>a u e. verifyAdAttributionKitPostback sample_postback_host False None [(''jws-string'', JStr ''h.p.sig'')] = Verified a u e \<and> e = Production"
proof -
  have "truthy (map_of APPLE_AAK_PUBLIC_KEYS ''apple-cas-identifier/0'')"
    by (simp add: APPLE_AAK_PUBLIC_KEYS_def APPLE_SKAN_PUBLIC_KEY_BASE64_def)
  then obtain a u e where v: "verifyAdAttributionKitPostback sample_postback_host False None [(''jws-string'', JStr ''h.p.sig'')] = Verified a u e"
    by (simp add: verifyAdAttributionKitPostback_def aak_checked_def named_string_def member_def guardR_def decodeBase64UrlJson_def
      sample_postback_host_def keyEnvironment_def thrown_def)
  from aak_verified_signed [OF v] v show ?thesis by (cases e) auto
qed

end
