(* ===== verification/Apple_Receiver.thy ===== *)
theory Apple_Receiver
  imports Apple_Postback Rate_Limit
begin

text \<open>
  \<open>apps/api/src/apple-postback-receiver.ts\<close>: the public receiver of platform postbacks, from the request to
  the durable batch. Its state is the two limiters, the hourly quota of unverified postbacks and the effects
  it committed, in order; a request is one step. The registry of applications, SHA-256 and the failure of an
  effect are arguments. The theorems bound what unverified requests can write and tie what is stored to
  what was verified.
\<close>

section \<open>Hourly quota\<close>

text \<open>
  The key is the text of tenant and application with the hour; the hour is kept beside the text here and
  read back from its end there.
\<close>

type_synonym quota = "(string \<times> int, nat) jsmap"

definition quota_hour :: "int \<Rightarrow> int" where "quota_hour now = now div 3600000"

definition quota_key :: "string \<Rightarrow> string \<Rightarrow> int \<Rightarrow> string \<times> int" where
  "quota_key tenantId appId now = (tenantId @ [CHR 0x00] @ appId, quota_hour now)"

definition quota_count :: "string \<Rightarrow> string \<Rightarrow> int \<Rightarrow> quota \<Rightarrow> nat" where
  "quota_count tenantId appId now q = the_or 0 (map_get q (quota_key tenantId appId now))"

definition quota_record :: "nat \<Rightarrow> string \<Rightarrow> string \<Rightarrow> int \<Rightarrow> quota \<Rightarrow> (nat \<times> bool) \<times> quota" where
  "quota_record limit tenantId appId now q =
     (let hour = quota_hour now;
          count = quota_count tenantId appId now q + 1;
          counts = map_set (quota_key tenantId appId now) count q;
          kept = (if 4096 < length counts then filter (\<lambda>e. \<not> snd (fst e) < hour - 1) counts else counts)
      in ((count, count \<le> limit), kept))"

section \<open>Fields of a request\<close>

datatype postback_kind = SKAdNetwork | AdAttributionKit

text \<open>The number of UTF-16 units of a text from the bytes of its UTF-8 encoding.\<close>

definition utf16_length :: "string \<Rightarrow> nat" where
  "utf16_length s = sum_list (map (\<lambda>c. let n = of_char c :: nat in if n < 128 then 1 else if n < 192 then 0 else if n < 240 then 1 else 2) s)"

definition request_string :: "json option \<Rightarrow> string \<Rightarrow> string res" where
  "request_string v name =
     (case v of Some (JStr s) \<Rightarrow> guardR (1 \<le> utf16_length s \<and> utf16_length s \<le> 2048) (name @ ''_invalid'') (Inr s)
      | _ \<Rightarrow> throw (name @ ''_invalid''))"

definition patterned_string :: "(string \<Rightarrow> bool) \<Rightarrow> nat \<Rightarrow> json option \<Rightarrow> string \<Rightarrow> json res" where
  "patterned_string pattern maximumLength v name =
     bindR (request_string v name) (\<lambda>s.
       guardR (utf16_length s \<le> maximumLength \<and> pattern s) (name @ ''_invalid'') (Inr (JStr s)))"

definition request_integer :: "json option \<Rightarrow> string \<Rightarrow> int res" where
  "request_integer v name =
     (case Option.bind v safe_integer_of of
        Some n \<Rightarrow> guardR (0 \<le> n) (name @ ''_invalid'') (Inr n)
      | None \<Rightarrow> throw (name @ ''_invalid''))"

definition plain_integer :: "json option \<Rightarrow> string \<Rightarrow> json res" where
  "plain_integer v name = bindR (request_integer v name) (\<lambda>n. Inr (JNum (of_int n)))"

definition ranged_integer :: "int \<Rightarrow> int \<Rightarrow> json option \<Rightarrow> string \<Rightarrow> json res" where
  "ranged_integer minimum maximum v name =
     bindR (request_integer v name) (\<lambda>n. guardR (minimum \<le> n \<and> n \<le> maximum) (name @ ''_invalid'') (Inr (JNum (of_int n))))"

definition request_boolean :: "json option \<Rightarrow> string \<Rightarrow> json res" where
  "request_boolean v name = (case v of Some (JBool b) \<Rightarrow> Inr (JBool b) | _ \<Rightarrow> throw (name @ ''_invalid''))"

definition enumerated_string :: "string list \<Rightarrow> json option \<Rightarrow> string \<Rightarrow> json res" where
  "enumerated_string allowed v name =
     bindR (request_string v name) (\<lambda>s. guardR (s \<in> set allowed) (name @ ''_invalid'') (Inr (JStr s)))"

definition alphanumeric :: "char \<Rightarrow> bool" where
  "alphanumeric c \<longleftrightarrow> is_upper c \<or> is_lower c \<or> is_digit c"

definition host_text :: "string \<Rightarrow> bool" where
  "host_text s \<longleftrightarrow> s \<noteq> [] \<and> list_all (\<lambda>c. alphanumeric c \<or> c \<in> set ''.-'') s"

definition identifier_text :: "string \<Rightarrow> bool" where
  "identifier_text s \<longleftrightarrow> 1 \<le> length s \<and> length s \<le> 120 \<and> list_all (\<lambda>c. alphanumeric c \<or> c \<in> set ''._:-'') s"

definition source_identifier_text :: "string \<Rightarrow> bool" where
  "source_identifier_text s \<longleftrightarrow> 2 \<le> length s \<and> length s \<le> 4 \<and> list_all is_digit s"

definition country_text :: "string \<Rightarrow> bool" where
  "country_text s \<longleftrightarrow> length s = 2 \<and> list_all is_upper s"

definition version_text :: "string \<Rightarrow> bool" where
  "version_text s \<longleftrightarrow>
     (case split_on (CHR ''.'') s of [major, minor] \<Rightarrow> major \<in> {''3'', ''4''} \<and> minor \<noteq> [] \<and> list_all is_digit minor | _ \<Rightarrow> False)"

type_synonym field_parser = "json option \<Rightarrow> string \<Rightarrow> json res"

definition pick_optional :: "json_object \<Rightarrow> (string \<times> string \<times> field_parser) list \<Rightarrow> json_object \<Rightarrow> json_object res" where
  "pick_optional source pairs target =
     foldR (\<lambda>t p. case member source (fst p) of
         None \<Rightarrow> Inr t
       | Some v \<Rightarrow> bindR (snd (snd p) (Some v) (fst (snd p))) (\<lambda>x. Inr (t @ [(fst (snd p), x)]))) target pairs"

section \<open>Normalised payloads\<close>

fun failure_text :: "failure_reason \<Rightarrow> string" where
  "failure_text Malformed = ''malformed''"
| "failure_text Signature_Invalid = ''signature_invalid''"
| "failure_text Unknown_Key = ''unknown_key''"
| "failure_text Development_Postback_Rejected = ''development_postback_rejected''"

fun is_verified :: "verification \<Rightarrow> bool" where
  "is_verified (Verified a u e) = True" | "is_verified (Unverified r u e c) = False"

fun unsigned_of :: "verification \<Rightarrow> json_object" where
  "unsigned_of (Verified a u e) = u" | "unsigned_of (Unverified r u e c) = u"

fun resolvedEvidence :: "verification \<Rightarrow> json_object" where
  "resolvedEvidence (Verified a u e) = a"
| "resolvedEvidence (Unverified r u e c) = the_or [] c"

definition evidence_boundary :: "verification \<Rightarrow> json" where
  "evidence_boundary v = JObj
     [(''apple_signature_status'', JStr (if is_verified v then ''verified'' else ''unverified'')),
      (''apple_verification_reason'', JStr (case v of Verified a u e \<Rightarrow> ''verified'' | Unverified r u e c \<Rightarrow> failure_text r)),
      (''unsigned_observation_fields'', JArr (map JStr (sort (map fst (unsigned_of v)))))]"

definition skan_optional_fields :: "(string \<times> string \<times> field_parser) list" where
  "skan_optional_fields =
     [(''source-identifier'', ''source_identifier'', patterned_string source_identifier_text 128),
      (''campaign-id'', ''campaign_id'', ranged_integer 1 100),
      (''source-app-id'', ''source_app_id'', plain_integer),
      (''source-domain'', ''source_domain'', patterned_string host_text 253),
      (''conversion-value'', ''conversion_value'', ranged_integer 0 63),
      (''coarse-conversion-value'', ''coarse_conversion_value'', enumerated_string [''low'', ''medium'', ''high'']),
      (''postback-sequence-index'', ''postback_sequence_index'', ranged_integer 0 2),
      (''redownload'', ''redownload'', request_boolean),
      (''country-code'', ''country_code'', patterned_string country_text 2),
      (''fidelity-type'', ''fidelity_type'', ranged_integer 0 1)]"

definition has :: "json_object \<Rightarrow> string \<Rightarrow> bool" where
  "has payload name \<longleftrightarrow> member payload name \<noteq> None"

definition skan_payload_checks :: "rat option \<Rightarrow> json_object \<Rightarrow> json_object res" where
  "skan_payload_checks major payload =
     guardR (\<not> (has payload ''conversion_value'' \<and> has payload ''coarse_conversion_value'')) ''conversion_value_ambiguous''
     (guardR (\<not> (major = Some 3 \<and> (\<not> has payload ''campaign_id'' \<or> has payload ''source_identifier''
         \<or> has payload ''postback_sequence_index'' \<or> has payload ''coarse_conversion_value''))) ''skan_version_fields_invalid''
     (guardR (\<not> (major = Some 4 \<and> (\<not> has payload ''source_identifier'' \<or> \<not> has payload ''postback_sequence_index''
         \<or> has payload ''campaign_id''))) ''skan_version_fields_invalid''
     (guardR (\<not> (the_or 0 (Option.bind (member payload ''postback_sequence_index'') integer_of) > 0 \<and> has payload ''conversion_value''))
         ''skan_fine_value_window_invalid'' (Inr payload))))"

definition skan_payload :: "json_object \<Rightarrow> verification \<Rightarrow> json_object res" where
  "skan_payload body v =
     bindR (patterned_string version_text 16 (member body ''version'') ''version'') (\<lambda>version.
     bindR (patterned_string host_text 128 (member body ''ad-network-id'') ''ad_network_id'') (\<lambda>network.
     bindR (plain_integer (member body ''app-id'') ''app_id'') (\<lambda>app.
     bindR (patterned_string identifier_text 128 (member body ''transaction-id'') ''transaction_id'') (\<lambda>transaction.
     bindR (request_string (member body ''attribution-signature'') ''attribution_signature'') (\<lambda>signature.
     bindR (request_boolean (member body ''did-win'') ''did_win'') (\<lambda>win.
     bindR (pick_optional body skan_optional_fields
       [(''event_name'', JStr ''skan_postback''), (''version'', version), (''ad_network_id'', network), (''app_id'', app),
        (''transaction_id'', transaction), (''attribution_signature'', JStr signature), (''signature_verified'', JBool (is_verified v)),
        (''did_win'', win), (''extensions'', evidence_boundary v)]) (\<lambda>payload.
       skan_payload_checks (case version of JStr s \<Rightarrow> skan_major s | _ \<Rightarrow> None) payload)))))))"

definition aak_claim_fields :: "(string \<times> string \<times> field_parser) list" where
  "aak_claim_fields =
     [(''source-identifier'', ''source_identifier'', patterned_string source_identifier_text 128),
      (''publisher-item-identifier'', ''publisher_item_identifier'', plain_integer),
      (''marketplace-identifier'', ''marketplace_identifier'', patterned_string host_text 253)]"

definition aak_body_fields :: "(string \<times> string \<times> field_parser) list" where
  "aak_body_fields =
     [(''conversion-value'', ''conversion_value'', ranged_integer 0 63),
      (''coarse-conversion-value'', ''coarse_conversion_value'', enumerated_string [''low'', ''medium'', ''high'']),
      (''ad-interaction-type'', ''ad_interaction_type'', enumerated_string [''view'', ''click'']),
      (''country-code'', ''country_code'', patterned_string country_text 2)]"

definition aak_payload_checks :: "json_object \<Rightarrow> json_object res" where
  "aak_payload_checks payload =
     guardR (\<not> (has payload ''conversion_value'' \<and> has payload ''coarse_conversion_value'')) ''conversion_value_ambiguous''
     (guardR (\<not> (member payload ''conversion_type'' = Some (JStr ''re-engagement'')
         \<and> (member payload ''ad_interaction_type'' \<noteq> Some (JStr ''click'') \<or> member payload ''did_win'' \<noteq> Some (JBool True))))
       ''reengagement_postback_invalid'' (Inr payload))"

fun environment_field :: "verification \<Rightarrow> json_object" where
  "environment_field (Verified a u e) =
     [(''signing_key_environment'', JStr (if e = Production then ''production'' else ''development''))]"
| "environment_field (Unverified r u e c) = []"

definition aak_payload :: "json_object \<Rightarrow> verification \<Rightarrow> json_object res" where
  "aak_payload body v =
     (let claims = resolvedEvidence v in
      bindR (request_string (member body ''jws-string'') ''jws_string'') (\<lambda>jws.
      bindR (patterned_string identifier_text 128 (member claims ''postback-identifier'') ''postback_identifier'') (\<lambda>postback.
      bindR (plain_integer (member claims ''advertised-item-identifier'') ''advertised_item_identifier'') (\<lambda>item.
      bindR (enumerated_string [''download'', ''redownload'', ''re-engagement''] (member claims ''conversion-type'') ''conversion_type'') (\<lambda>type.
      bindR (patterned_string host_text 128 (member claims ''ad-network-identifier'') ''ad_network_identifier'') (\<lambda>network.
      bindR (enumerated_string [''app-impression''] (member claims ''impression-type'') ''impression_type'') (\<lambda>impression.
      bindR (ranged_integer 0 2 (member claims ''postback-sequence-index'') ''postback_sequence_index'') (\<lambda>index.
      bindR (request_boolean (member claims ''did-win'') ''did_win'') (\<lambda>win.
      bindR (pick_optional claims aak_claim_fields
        ([(''event_name'', JStr ''adattributionkit_postback''), (''jws_string'', JStr jws), (''signature_verified'', JBool (is_verified v)),
          (''postback_identifier'', postback), (''advertised_item_identifier'', item), (''conversion_type'', type),
          (''ad_network_identifier'', network), (''impression_type'', impression), (''postback_sequence_index'', index),
          (''did_win'', win), (''extensions'', evidence_boundary v)] @ environment_field v)) (\<lambda>claimed.
      bindR (pick_optional body aak_body_fields claimed) aak_payload_checks))))))))))"

definition normalizedPayload :: "postback_kind \<Rightarrow> json_object \<Rightarrow> verification \<Rightarrow> json_object res" where
  "normalizedPayload kind body v = (if kind = SKAdNetwork then skan_payload body v else aak_payload body v)"

section \<open>Records\<close>

record postback_record =
  pr_record_id :: string
  pr_delivery_id :: string
  pr_tenant_id :: string
  pr_app_id :: string
  pr_producer :: string
  pr_producer_version :: string
  pr_event_id :: string
  pr_event_name :: string
  pr_received_at :: string
  pr_payload :: json_object

definition payload_text :: "json_object \<Rightarrow> string \<Rightarrow> string" where
  "payload_text payload name = the_or ''undefined'' (Option.bind (member payload name) js_text)"

text \<open>The two identifiers are drawn from the clock and randomness.\<close>

definition normalizedRecord :: "string \<times> string \<Rightarrow> postback_kind \<Rightarrow> string \<times> string \<Rightarrow> json_object \<Rightarrow> verification \<Rightarrow> string \<Rightarrow>
    postback_record res" where
  "normalizedRecord uuids kind scope body v receivedAt =
     bindR (normalizedPayload kind body v) (\<lambda>payload. Inr
       \<lparr> pr_record_id = ''apple-postback:'' @ fst uuids, pr_delivery_id = ''delivery:'' @ snd uuids,
         pr_tenant_id = fst scope, pr_app_id = snd scope,
         pr_producer = (if kind = SKAdNetwork then ''postback:skadnetwork'' else ''postback:adattributionkit''),
         pr_producer_version = (if kind = SKAdNetwork then payload_text payload ''version'' else ''adattributionkit-jws-v1''),
         pr_event_id = (if kind = SKAdNetwork then ''skan:'' @ payload_text payload ''transaction_id''
                        else ''aak:'' @ payload_text payload ''postback_identifier''),
         pr_event_name = (if kind = SKAdNetwork then ''skan_postback'' else ''adattributionkit_postback''),
         pr_received_at = receivedAt, pr_payload = payload \<rparr>)"

section \<open>The receiver\<close>

datatype receiver_effect =
  Unregistered_Audit postback_kind string string int
| Invalid_Audit "string \<times> string" postback_kind string failure_reason nat int
| Durable_Batch "string \<times> string" postback_record int

record receiver_config =
  cf_maximumBytes :: nat
  cf_acceptDevelopmentPostbacks :: bool
  cf_sourceBucket :: limiter_config
  cf_appBucket :: limiter_config
  cf_invalidLedgerQuota :: nat
  cf_skanPublicKeyBase64 :: "string option"
  cf_aakKeySet :: "(string \<times> string) list option"
  cf_host :: postback_host
  cf_sha :: "string \<Rightarrow> string"
  cf_resolveScope :: "int \<Rightarrow> (string \<times> string) option res"
  cf_failure :: "receiver_effect \<Rightarrow> js_error option"

record postback_request =
  pq_remoteAddress :: "string option"
  pq_contentLength :: "rat option"
  pq_chunks :: "string list"
  pq_elapsed :: "rat \<times> rat"
  pq_now :: int
  pq_uuids :: "string \<times> string"

record receiver =
  rv_source :: limiter
  rv_app :: limiter
  rv_quota :: quota
  rv_effects :: "receiver_effect list"

definition readBody :: "nat \<Rightarrow> rat option \<Rightarrow> string list \<Rightarrow> string res" where
  "readBody maximumBytes contentLength chunks =
     guardR (\<not> (case contentLength of None \<Rightarrow> False | Some n \<Rightarrow> of_nat maximumBytes < n)) ''postback_body_too_large''
       (foldR (\<lambda>body chunk. guardR (length (body @ chunk) \<le> maximumBytes) ''postback_body_too_large'' (Inr (body @ chunk))) [] chunks)"

definition parseBody :: "postback_host \<Rightarrow> string \<Rightarrow> json_object res" where
  "parseBody H raw = (case ph_json H raw of Some (JObj ms) \<Rightarrow> Inr ms | _ \<Rightarrow> throw ''postback_json_malformed'')"

definition verifyPostback :: "receiver_config \<Rightarrow> postback_kind \<Rightarrow> json_object \<Rightarrow> verification" where
  "verifyPostback C kind body =
     (if kind = SKAdNetwork
      then verifySkAdNetworkPostback (cf_host C) (if truthy (cf_skanPublicKeyBase64 C) then cf_skanPublicKeyBase64 C else None) body
      else verifyAdAttributionKitPostback (cf_host C) (cf_acceptDevelopmentPostbacks C) (cf_aakKeySet C) body)"

fun is_malformed :: "verification \<Rightarrow> bool" where
  "is_malformed (Unverified r u e c) = (r = Malformed)" | "is_malformed (Verified a u e) = False"

definition appleAppAdamId :: "postback_kind \<Rightarrow> json_object \<Rightarrow> verification \<Rightarrow> int res" where
  "appleAppAdamId kind body v =
     bindR (if kind = SKAdNetwork then request_integer (member body ''app-id'') ''app_id''
            else request_integer (member (resolvedEvidence v) ''advertised-item-identifier'') ''advertised_item_identifier'')
       (\<lambda>n. guardR (1 \<le> n) ''apple_app_adam_id_invalid'' (Inr n))"

text \<open>The part of a request that only reads it; every error is answered with 400.\<close>

definition admitted_postback :: "receiver_config \<Rightarrow> postback_kind \<Rightarrow> postback_request \<Rightarrow> (string \<times> json_object \<times> verification \<times> int) res" where
  "admitted_postback C kind rq =
     bindR (readBody (cf_maximumBytes C) (pq_contentLength rq) (pq_chunks rq)) (\<lambda>raw.
     bindR (parseBody (cf_host C) raw) (\<lambda>body.
     let v = verifyPostback C kind body in
     guardR (\<not> is_malformed v) ''postback_signature_material_malformed''
     (bindR (appleAppAdamId kind body v) (\<lambda>adamId. Inr (raw, body, v, adamId)))))"

text \<open>An effect that fails leaves no trace; the error of an inactive privacy scope is answered with 200.\<close>

definition answered_error :: "js_error \<Rightarrow> js_error + int" where
  "answered_error e = (if e = Error_Msg ''privacy_scope_inactive'' then Inr 200 else Inl e)"

definition perform :: "receiver_config \<Rightarrow> receiver_effect \<Rightarrow> receiver \<Rightarrow> (js_error + int) \<times> receiver" where
  "perform C e s = (case cf_failure C e of Some err \<Rightarrow> (answered_error err, s) | None \<Rightarrow> (Inr 200, s\<lparr>rv_effects := rv_effects s @ [e]\<rparr>))"

definition store_postback :: "receiver_config \<Rightarrow> postback_kind \<Rightarrow> postback_request \<Rightarrow> string \<Rightarrow> verification \<Rightarrow> string \<times> string \<Rightarrow>
    postback_record \<Rightarrow> receiver \<Rightarrow> (js_error + int) \<times> receiver" where
  "store_postback C kind rq raw v scope r s =
     (case v of
        Verified a u e \<Rightarrow> perform C (Durable_Batch scope r (pq_now rq)) s
      | Unverified reason u e c \<Rightarrow>
          let quota = quota_record (cf_invalidLedgerQuota C) (fst scope) (snd scope) (pq_now rq) (rv_quota s);
              t = s\<lparr>rv_quota := snd quota\<rparr> in
          if \<not> snd (fst quota) then perform C (Invalid_Audit scope kind (cf_sha C raw) reason (fst (fst quota)) (pq_now rq)) t
          else perform C (Durable_Batch scope r (pq_now rq)) t)"

definition accept_postback :: "receiver_config \<Rightarrow> postback_kind \<Rightarrow> postback_request \<Rightarrow> string \<times> json_object \<times> verification \<times> int \<Rightarrow>
    receiver \<Rightarrow> (js_error + int) \<times> receiver" where
  "accept_postback C kind rq p s =
     (case p of (raw, body, v, adamId) \<Rightarrow>
       case cf_resolveScope C adamId of
         Inl e \<Rightarrow> (answered_error e, s)
       | Inr None \<Rightarrow> perform C (Unregistered_Audit kind (cf_sha C (show_int adamId)) (cf_sha C raw) (pq_now rq)) s
       | Inr (Some scope) \<Rightarrow>
           (case normalizedRecord (pq_uuids rq) kind scope body v (toISOString (pq_now rq)) of
              Inl e \<Rightarrow> (Inr 400, s)
            | Inr r \<Rightarrow> store_postback C kind rq raw v scope r s))"

text \<open>The answer is the status of the empty response, or the error that the caller of the handler sees.\<close>

definition receiveApplePostback :: "receiver_config \<Rightarrow> postback_kind \<Rightarrow> postback_request \<Rightarrow> receiver \<Rightarrow> (js_error + int) \<times> receiver" where
  "receiveApplePostback C kind rq s =
     (case limiter_allow (cf_sourceBucket C) (the_or ''unknown'' (pq_remoteAddress rq)) (fst (pq_elapsed rq)) (rv_source s) of
        Inl e \<Rightarrow> (Inl e, s)
      | Inr (sourceAllowed, source) \<Rightarrow>
          let s1 = s\<lparr>rv_source := source\<rparr> in
          if \<not> sourceAllowed then (Inr 429, s1)
          else (case admitted_postback C kind rq of
              Inl e \<Rightarrow> (Inr 400, s1)
            | Inr p \<Rightarrow>
                (case limiter_allow (cf_appBucket C) (''adam:'' @ show_int (snd (snd (snd p)))) (snd (pq_elapsed rq)) (rv_app s1) of
                   Inl e \<Rightarrow> (answered_error e, s1)
                 | Inr (appAllowed, app) \<Rightarrow>
                     let s2 = s1\<lparr>rv_app := app\<rparr> in
                     if \<not> appAllowed then (Inr 429, s2) else accept_postback C kind rq p s2)))"

fun receive_all :: "receiver_config \<Rightarrow> (postback_kind \<times> postback_request) list \<Rightarrow> receiver \<Rightarrow> receiver" where
  "receive_all C [] s = s"
| "receive_all C (q # qs) s = receive_all C qs (snd (receiveApplePostback C (fst q) (snd q) s))"

definition initial_receiver :: receiver where
  "initial_receiver = \<lparr> rv_source = [], rv_app = [], rv_quota = [], rv_effects = [] \<rparr>"

section \<open>One request\<close>

lemma member_of_append: "member (t @ u) name = (case member t name of Some x \<Rightarrow> Some x | None \<Rightarrow> member u name)"
  by (simp add: member_def map_add_def split: option.splits)

lemma pick_optional_keeps:
  assumes "pick_optional source pairs target = Inr payload" "member target name = Some x"
  shows "member payload name = Some x"
  using assms unfolding pick_optional_def
  by (rule foldR_invariant [where P = "\<lambda>t. member t name = Some x"])
    (auto simp: result_simps member_of_append split: option.splits)

lemma checks_keep: "skan_payload_checks major payload = Inr p \<Longrightarrow> p = payload" "aak_payload_checks payload = Inr p \<Longrightarrow> p = payload"
  by (auto simp: skan_payload_checks_def aak_payload_checks_def result_simps)

lemma payload_keeps_status:
  assumes "normalizedPayload kind body v = Inr payload"
  shows "member payload ''signature_verified'' = Some (JBool (is_verified v))" "member payload ''extensions'' = Some (evidence_boundary v)"
proof -
  have "member payload ''signature_verified'' = Some (JBool (is_verified v)) \<and> member payload ''extensions'' = Some (evidence_boundary v)"
  proof (cases "kind = SKAdNetwork")
    case True
    with assms show ?thesis unfolding normalizedPayload_def skan_payload_def
      by (auto simp: result_simps dest!: checks_keep(1)) (erule pick_optional_keeps; simp add: member_def)+
  next
    case False
    with assms show ?thesis unfolding normalizedPayload_def aak_payload_def Let_def
      by (auto simp: result_simps dest!: checks_keep(2)) (erule pick_optional_keeps, erule pick_optional_keeps; simp add: member_def)+
  qed
  then show "member payload ''signature_verified'' = Some (JBool (is_verified v))" "member payload ''extensions'' = Some (evidence_boundary v)"
    by auto
qed

lemma normalizedRecord_Inr:
  assumes "normalizedRecord uuids kind scope body v receivedAt = Inr r"
  shows "pr_tenant_id r = fst scope" "pr_app_id r = snd scope" "pr_received_at r = receivedAt"
    "member (pr_payload r) ''signature_verified'' = Some (JBool (is_verified v))" "member (pr_payload r) ''extensions'' = Some (evidence_boundary v)"
  using assms payload_keeps_status by (auto simp: normalizedRecord_def result_simps)

text \<open>What a request did: nothing durable, or one effect that says which request it was.\<close>

definition stored_for :: "receiver_config \<Rightarrow> postback_kind \<Rightarrow> postback_request \<Rightarrow> string \<times> string \<Rightarrow> postback_record \<Rightarrow> bool" where
  "stored_for C kind rq scope r \<longleftrightarrow>
     (\<exists>raw body v adamId. admitted_postback C kind rq = Inr (raw, body, v, adamId) \<and> cf_resolveScope C adamId = Inr (Some scope)
        \<and> normalizedRecord (pq_uuids rq) kind scope body v (toISOString (pq_now rq)) = Inr r)"

lemma perform_effects:
  assumes "perform C e s = (answer, t)"
  shows "rv_effects t = rv_effects s \<and> answer \<noteq> Inr 400 \<and> answer \<noteq> Inr 429 \<or> rv_effects t = rv_effects s @ [e] \<and> answer = Inr 200"
    "rv_quota t = rv_quota s" "\<forall>status. answer = Inr status \<longrightarrow> status = 200"
  using assms by (auto simp: perform_def answered_error_def split: option.splits if_splits)

definition batch_status :: "postback_record \<Rightarrow> json option" where
  "batch_status r = member (pr_payload r) ''signature_verified''"

definition is_batch :: "receiver_effect \<Rightarrow> bool" where
  "is_batch e = (case e of Durable_Batch scope r now \<Rightarrow> True | _ \<Rightarrow> False)"

text \<open>One step, seen from the effects and the quota.\<close>

inductive committed :: "receiver_config \<Rightarrow> postback_kind \<Rightarrow> postback_request \<Rightarrow> receiver \<Rightarrow> receiver \<Rightarrow> bool"
  for C kind rq where
  Nothing: "rv_effects t = rv_effects s \<Longrightarrow> rv_quota t = rv_quota s \<Longrightarrow> committed C kind rq s t"
| Audit: "rv_effects t = rv_effects s @ [e] \<Longrightarrow> \<not> is_batch e \<Longrightarrow> rv_quota t = rv_quota s \<Longrightarrow> committed C kind rq s t"
| Verified_Batch: "rv_effects t = rv_effects s @ [Durable_Batch scope r (pq_now rq)] \<Longrightarrow> rv_quota t = rv_quota s \<Longrightarrow>
    stored_for C kind rq scope r \<Longrightarrow> batch_status r = Some (JBool True) \<Longrightarrow> committed C kind rq s t"
| Counted: "rv_effects t = rv_effects s @ es \<Longrightarrow> es = [] \<or> (\<exists>e. es = [e] \<and> \<not> is_batch e) \<Longrightarrow>
    rv_quota t = snd (quota_record (cf_invalidLedgerQuota C) tenantId appId (pq_now rq) (rv_quota s)) \<Longrightarrow> committed C kind rq s t"
| Unverified_Batch: "rv_effects t = rv_effects s @ [Durable_Batch scope r (pq_now rq)] \<Longrightarrow>
    quota_record (cf_invalidLedgerQuota C) (fst scope) (snd scope) (pq_now rq) (rv_quota s) = ((used, True), rv_quota t) \<Longrightarrow>
    stored_for C kind rq scope r \<Longrightarrow> batch_status r = Some (JBool False) \<Longrightarrow> committed C kind rq s t"

inductive_cases committedE: "committed C kind rq s t"

lemma store_committed:
  assumes s: "stored_for C kind rq scope r" "batch_status r = Some (JBool (is_verified v))"
    and t: "store_postback C kind rq raw v scope r u = (answer, t)"
    and u: "rv_effects u = rv_effects s" "rv_quota u = rv_quota s"
  shows "committed C kind rq s t"
proof (cases v)
  case (Verified a un e)
  with t have p: "perform C (Durable_Batch scope r (pq_now rq)) u = (answer, t)" by (simp add: store_postback_def)
  from perform_effects [OF p] Verified s u show ?thesis by (auto intro: committed.intros)
next
  case (Unverified reason un e c)
  obtain used ok q where q: "quota_record (cf_invalidLedgerQuota C) (fst scope) (snd scope) (pq_now rq) (rv_quota s) = ((used, ok), q)"
    by (metis prod.exhaust)
  define w where "w = u\<lparr>rv_quota := q\<rparr>"
  have w: "rv_effects w = rv_effects s" "rv_quota w = q" using u by (simp_all add: w_def)
  show ?thesis
  proof (cases ok)
    case True
    with t Unverified q u have p: "perform C (Durable_Batch scope r (pq_now rq)) w = (answer, t)" by (simp add: store_postback_def w_def)
    from perform_effects [OF p] w True Unverified s q show ?thesis
      by (auto intro: committed.Unverified_Batch committed.Counted [where es = "[]" and tenantId = "fst scope" and appId = "snd scope"])
  next
    case False
    with t Unverified q u have p: "perform C (Invalid_Audit scope kind (cf_sha C raw) reason used (pq_now rq)) w = (answer, t)"
      by (simp add: store_postback_def w_def)
    from perform_effects [OF p] w q show ?thesis
      by (auto simp: is_batch_def intro!: committed.Counted [where tenantId = "fst scope" and appId = "snd scope"])
  qed
qed

lemma accept_committed:
  assumes p: "admitted_postback C kind rq = Inr p" and t: "accept_postback C kind rq p u = (answer, t)"
    and u: "rv_effects u = rv_effects s" "rv_quota u = rv_quota s"
  shows "committed C kind rq s t"
proof -
  obtain raw body v adamId where pe: "p = (raw, body, v, adamId)" by (cases p) auto
  show ?thesis
  proof (cases "cf_resolveScope C adamId")
    case (Inl e)
    with t pe u show ?thesis by (auto simp: accept_postback_def intro: committed.Nothing)
  next
    case (Inr found)
    show ?thesis
    proof (cases found)
      case None
      with t pe Inr have "perform C (Unregistered_Audit kind (cf_sha C (show_int adamId)) (cf_sha C raw) (pq_now rq)) u = (answer, t)"
        by (simp add: accept_postback_def)
      from perform_effects [OF this] u show ?thesis by (auto simp: is_batch_def intro: committed.Nothing committed.Audit)
    next
      case (Some scope)
      show ?thesis
      proof (cases "normalizedRecord (pq_uuids rq) kind scope body v (toISOString (pq_now rq))")
        case (Inl e)
        with t pe Inr Some u show ?thesis by (auto simp: accept_postback_def intro: committed.Nothing)
      next
        case r: (Inr r)
        with t pe Inr Some have st: "store_postback C kind rq raw v scope r u = (answer, t)" by (simp add: accept_postback_def)
        have "stored_for C kind rq scope r" unfolding stored_for_def using p pe Inr Some r by blast
        from store_committed [OF this _ st u] normalizedRecord_Inr(4) [OF r] show ?thesis by (simp add: batch_status_def)
      qed
    qed
  qed
qed

lemma receive_committed:
  assumes "receiveApplePostback C kind rq s = (answer, t)"
  shows "committed C kind rq s t"
proof (cases "limiter_allow (cf_sourceBucket C) (the_or ''unknown'' (pq_remoteAddress rq)) (fst (pq_elapsed rq)) (rv_source s)")
  case (Inl e)
  with assms show ?thesis by (auto simp: receiveApplePostback_def intro: committed.Nothing)
next
  case (Inr a)
  define s1 where "s1 = s\<lparr>rv_source := snd a\<rparr>"
  have s1: "rv_effects s1 = rv_effects s" "rv_quota s1 = rv_quota s" by (simp_all add: s1_def)
  show ?thesis
  proof (cases "fst a \<and> isl (admitted_postback C kind rq) = False")
    case False
    with assms Inr s1 show ?thesis
      by (cases a; cases "admitted_postback C kind rq") (auto simp: receiveApplePostback_def Let_def s1_def intro: committed.Nothing split: if_splits)
  next
    case True
    then obtain p where p: "admitted_postback C kind rq = Inr p" by (cases "admitted_postback C kind rq") auto
    show ?thesis
    proof (cases "limiter_allow (cf_appBucket C) (''adam:'' @ show_int (snd (snd (snd p)))) (snd (pq_elapsed rq)) (rv_app s1)")
      case (Inl e)
      with assms Inr True p s1 show ?thesis
        by (cases a) (auto simp: receiveApplePostback_def Let_def s1_def intro: committed.Nothing)
    next
      case b: (Inr b)
      define s2 where "s2 = s1\<lparr>rv_app := snd b\<rparr>"
      have s2: "rv_effects s2 = rv_effects s" "rv_quota s2 = rv_quota s" using s1 by (simp_all add: s2_def)
      have eq: "receiveApplePostback C kind rq s = (if \<not> fst b then (Inr 429, s2) else accept_postback C kind rq p s2)"
        using Inr True p b by (cases a; cases b) (auto simp: receiveApplePostback_def Let_def s1_def s2_def)
      show ?thesis
        using assms accept_committed [OF p _ s2, of answer t] s2 unfolding eq by (auto split: if_splits intro: committed.Nothing)
    qed
  qed
qed

section \<open>Runs\<close>

lemma map_get_filter: "map_get (filter (\<lambda>e. P (fst e)) m) k = (if P k then map_get m k else None)"
  unfolding map_get_def by (induction m) auto

text \<open>The unverified batches that were stored under a key of the quota.\<close>

definition counted :: "string \<times> int \<Rightarrow> receiver_effect \<Rightarrow> bool" where
  "counted k e = (case e of Durable_Batch scope r now \<Rightarrow> batch_status r = Some (JBool False) \<and> quota_key (fst scope) (snd scope) now = k
     | _ \<Rightarrow> False)"

lemma not_batch_counted: "\<not> is_batch e \<Longrightarrow> \<not> counted k e"
  by (cases e) (auto simp: is_batch_def counted_def)

definition unverified_batches :: "string \<times> int \<Rightarrow> receiver_effect list \<Rightarrow> nat" where
  "unverified_batches k es = length (filter (counted k) es)"

definition quota_ok :: "receiver_config \<Rightarrow> int \<Rightarrow> receiver \<Rightarrow> bool" where
  "quota_ok C now s \<longleftrightarrow> (\<forall>k. unverified_batches k (rv_effects s) \<le> cf_invalidLedgerQuota C
     \<and> (quota_hour now \<le> snd k \<longrightarrow> unverified_batches k (rv_effects s) \<le> the_or 0 (map_get (rv_quota s) k)))"

lemma quota_record_get:
  assumes "quota_record limit t a now q = ((used, ok), q')" "quota_hour now \<le> snd k"
  shows "the_or 0 (map_get q' k) = (if k = quota_key t a now then used else the_or 0 (map_get q k))"
    "used = the_or 0 (map_get q (quota_key t a now)) + 1" "ok \<longleftrightarrow> used \<le> limit"
proof -
  have kept: "map_get (filter (\<lambda>e. \<not> snd (fst e) < quota_hour now - 1) m) k = map_get m k" for m :: quota
    using assms(2) map_get_filter [of "\<lambda>k. \<not> snd k < quota_hour now - 1" m k] by simp
  have used: "used = the_or 0 (map_get q (quota_key t a now)) + 1" "ok \<longleftrightarrow> used \<le> limit"
    using assms(1) by (auto simp: quota_record_def quota_count_def Let_def)
  moreover have "map_get q' k = map_get (map_set (quota_key t a now) used q) k"
    using assms(1) kept by (auto simp: quota_record_def quota_count_def Let_def simp del: map_get_set split: if_splits)
  ultimately show "the_or 0 (map_get q' k) = (if k = quota_key t a now then used else the_or 0 (map_get q k))"
    "used = the_or 0 (map_get q (quota_key t a now)) + 1" "ok \<longleftrightarrow> used \<le> limit" by simp_all
qed

lemma quota_hour_mono: "a \<le> b \<Longrightarrow> quota_hour a \<le> quota_hour b"
  by (simp add: quota_hour_def zdiv_mono1)

lemma quota_ok_same:
  assumes "quota_ok C now s" "now \<le> later" "rv_quota t = rv_quota s"
    and "\<And>k. unverified_batches k (rv_effects t) = unverified_batches k (rv_effects s)"
  shows "quota_ok C later t"
  using assms(1) quota_hour_mono [OF assms(2)] unfolding quota_ok_def assms(3,4) by (meson order_trans)

lemma committed_quota:
  assumes "committed C kind rq s t" "quota_ok C now s" "now \<le> pq_now rq"
  shows "quota_ok C (pq_now rq) t"
  using assms(1)
proof cases
  case (Unverified_Batch scope r used)
  define K where "K = quota_key (fst scope) (snd scope) (pq_now rq)"
  have hour: "snd K = quota_hour (pq_now rq)" by (simp add: K_def quota_key_def)
  have eff: "unverified_batches k (rv_effects t) = unverified_batches k (rv_effects s) + (if k = K then 1 else 0)" for k
    using Unverified_Batch by (auto simp: unverified_batches_def counted_def K_def)
  have used: "used = the_or 0 (map_get (rv_quota s) K) + 1" "used \<le> cf_invalidLedgerQuota C"
    using quota_record_get [OF Unverified_Batch(2), of K] hour by (auto simp: K_def)
  have old: "unverified_batches K (rv_effects s) \<le> the_or 0 (map_get (rv_quota s) K)"
    using assms(2) quota_hour_mono [OF assms(3)] hour unfolding quota_ok_def by metis
  show ?thesis
    unfolding quota_ok_def
  proof
    fix k
    have "quota_hour (pq_now rq) \<le> snd k \<longrightarrow> unverified_batches k (rv_effects s) \<le> the_or 0 (map_get (rv_quota s) k)"
      using assms(2) quota_hour_mono [OF assms(3)] unfolding quota_ok_def by (meson order_trans)
    moreover have "unverified_batches k (rv_effects s) \<le> cf_invalidLedgerQuota C" using assms(2) unfolding quota_ok_def by blast
    ultimately show "unverified_batches k (rv_effects t) \<le> cf_invalidLedgerQuota C
      \<and> (quota_hour (pq_now rq) \<le> snd k \<longrightarrow> unverified_batches k (rv_effects t) \<le> the_or 0 (map_get (rv_quota t) k))"
      using used old quota_record_get(1) [OF Unverified_Batch(2), of k] by (auto simp: eff K_def)
  qed
next
  case (Counted es tenantId appId)
  obtain used ok where q: "quota_record (cf_invalidLedgerQuota C) tenantId appId (pq_now rq) (rv_quota s) = ((used, ok), rv_quota t)"
    using Counted(3) by (metis prod.exhaust snd_conv)
  have "unverified_batches k (rv_effects t) = unverified_batches k (rv_effects s)" for k
    using Counted by (auto simp: unverified_batches_def not_batch_counted)
  moreover have "the_or 0 (map_get (rv_quota s) k) \<le> the_or 0 (map_get (rv_quota t) k)" if "quota_hour (pq_now rq) \<le> snd k" for k
    using quota_record_get [OF q that] by auto
  moreover have "quota_ok C (pq_now rq) s" by (rule quota_ok_same [OF assms(2,3)]) simp_all
  ultimately show ?thesis unfolding quota_ok_def by (metis (no_types) order_trans)
next
  case Nothing
  then show ?thesis using quota_ok_same [OF assms(2,3)] by simp
next
  case (Audit e)
  then show ?thesis using quota_ok_same [OF assms(2,3)] by (simp add: unverified_batches_def not_batch_counted)
next
  case (Verified_Batch scope r)
  then show ?thesis using quota_ok_same [OF assms(2,3)] by (simp add: unverified_batches_def counted_def)
qed

lemma receive_all_quota:
  assumes "quota_ok C now s" "sorted (now # map (\<lambda>q. pq_now (snd q)) qs)"
  shows "\<exists>later. quota_ok C later (receive_all C qs s)"
  using assms
proof (induction qs arbitrary: now s)
  case (Cons q qs)
  obtain answer t where t: "receiveApplePostback C (fst q) (snd q) s = (answer, t)" by (metis prod.exhaust)
  from committed_quota [OF receive_committed [OF t] Cons.prems(1)] Cons.prems(2) have "quota_ok C (pq_now (snd q)) t" by simp
  from Cons.IH [OF this] Cons.prems(2) t show ?case by simp
qed auto

text \<open>Postbacks whose signature does not verify cannot flood the ledger: whatever requests arrive, as long as the clock does
  not run backwards, at most the configured number of unverified batches is stored per application and hour.\<close>

theorem unverified_batches_bounded:
  assumes "sorted (map (\<lambda>q. pq_now (snd q)) qs)"
  shows "unverified_batches (quota_key tenantId appId now) (rv_effects (receive_all C qs initial_receiver)) \<le> cf_invalidLedgerQuota C"
proof (cases qs)
  case Nil
  then show ?thesis by (simp add: initial_receiver_def unverified_batches_def)
next
  case (Cons q rest)
  have "quota_ok C (pq_now (snd q)) initial_receiver" by (simp add: quota_ok_def initial_receiver_def unverified_batches_def)
  moreover have "sorted (pq_now (snd q) # map (\<lambda>q. pq_now (snd q)) qs)" using assms Cons by auto
  ultimately obtain later where "quota_ok C later (receive_all C qs initial_receiver)" using receive_all_quota by blast
  then show ?thesis unfolding quota_ok_def by blast
qed

text \<open>Every stored batch comes from one of the requests: it is in the scope that the registry names for the application of
  that postback, says truthfully whether the postback was verified, and names the observations outside the signature.\<close>

theorem stored_batches_sound:
  assumes "Durable_Batch scope r now \<in> set (rv_effects (receive_all C qs initial_receiver))"
  shows "\<exists>kind rq raw body v adamId. (kind, rq) \<in> set qs \<and> admitted_postback C kind rq = Inr (raw, body, v, adamId)
    \<and> cf_resolveScope C adamId = Inr (Some scope) \<and> now = pq_now rq
    \<and> pr_tenant_id r = fst scope \<and> pr_app_id r = snd scope \<and> pr_received_at r = toISOString now
    \<and> batch_status r = Some (JBool (is_verified v)) \<and> member (pr_payload r) ''extensions'' = Some (evidence_boundary v)"
proof -
  have from_requests: "\<exists>kind rq. (kind, rq) \<in> set qs \<and> stored_for C kind rq scope r \<and> now = pq_now rq"
    if "Durable_Batch scope r now \<in> set (rv_effects (receive_all C qs s))" "Durable_Batch scope r now \<notin> set (rv_effects s)" for s
    using that
  proof (induction qs arbitrary: s)
    case (Cons q qs)
    obtain answer t where t: "receiveApplePostback C (fst q) (snd q) s = (answer, t)" by (metis prod.exhaust)
    show ?case
    proof (cases "Durable_Batch scope r now \<in> set (rv_effects t)")
      case True
      have "stored_for C (fst q) (snd q) scope r \<and> now = pq_now (snd q)"
        using receive_committed [OF t] True Cons.prems(2) by (auto simp: is_batch_def elim!: committedE)
      then show ?thesis by (metis list.set_intros(1) prod.collapse)
    next
      case False
      from Cons.IH [of t] Cons.prems(1) False t show ?thesis by auto
    qed
  qed simp
  from from_requests [OF assms] obtain kind rq where q: "(kind, rq) \<in> set qs" "stored_for C kind rq scope r" "now = pq_now rq"
    by (auto simp: initial_receiver_def)
  from q(2) obtain raw body v adamId where d: "admitted_postback C kind rq = Inr (raw, body, v, adamId)" "cf_resolveScope C adamId = Inr (Some scope)"
    "normalizedRecord (pq_uuids rq) kind scope body v (toISOString (pq_now rq)) = Inr r"
    unfolding stored_for_def by blast
  from normalizedRecord_Inr [OF d(3)] d q show ?thesis unfolding batch_status_def by blast
qed

section \<open>A concrete receiver\<close>

definition sample_receiver_config :: receiver_config where
  "sample_receiver_config = \<lparr> cf_maximumBytes = 100, cf_acceptDevelopmentPostbacks = False, cf_sourceBucket = sample_limiter,
     cf_appBucket = sample_limiter, cf_invalidLedgerQuota = 1, cf_skanPublicKeyBase64 = None, cf_aakKeySet = None,
     cf_host = sample_postback_host\<lparr>ph_json := (\<lambda>s. Some (JObj sample_postback))\<rparr>, cf_sha = id,
     cf_resolveScope = (\<lambda>adamId. Inr (Some (''tenant'', ''app''))), cf_failure = (\<lambda>e. None) \<rparr>"

definition sample_postback_request :: "int \<Rightarrow> postback_request" where
  "sample_postback_request now = \<lparr> pq_remoteAddress = None, pq_contentLength = None, pq_chunks = [''b''], pq_elapsed = (0, 0), pq_now = now,
     pq_uuids = (''1'', ''2'') \<rparr>"

lemma sample_patterns: "version_text ''4.0''" "host_text ''n''" "identifier_text ''t''" "source_identifier_text ''52''"
  by code_simp+

lemma sample_limiters: "\<exists>l. limiter_allow sample_limiter ''unknown'' 0 [] = Inr (True, l)" "\<exists>l. limiter_allow sample_limiter (''adam:'' @ t) 0 [] = Inr (True, l)"
  by (simp_all add: limiter_allow_def sample_limiter_def unexpired_def evict_oldest_def new_bucket_def guardR_def bucket_allow_def refilled_def
    dsub_def ddiv_def dmul_def dadd_def Let_def)

lemma sample_normalized:
  "\<exists>r. normalizedRecord (''1'', ''2'') SKAdNetwork (''tenant'', ''app'') sample_postback v received = Inr r"
proof -
  have "js_number ''4'' = Some 4" by code_simp
  then have major: "skan_major ''4.0'' = Some 4" by (simp add: skan_major_def)
  have short: "utf16_length ''4.0'' = 3" "utf16_length ''n'' = 1" "utf16_length ''t'' = 1" "utf16_length ''52'' = 2" "utf16_length ''sig'' = 3"
    by (simp_all add: utf16_length_def)
  show ?thesis
    using major sample_patterns short
    by (simp add: normalizedRecord_def normalizedPayload_def skan_payload_def patterned_string_def request_string_def guardR_def
      plain_integer_def request_integer_def safe_integer_of_def MAX_SAFE_INTEGER_def request_boolean_def pick_optional_def
      skan_optional_fields_def ranged_integer_def skan_payload_checks_def has_def member_def sample_postback_def)
qed

lemma sample_stored: "\<exists>r. Durable_Batch (''tenant'', ''app'') r 5
    \<in> set (rv_effects (receive_all sample_receiver_config [(SKAdNetwork, sample_postback_request 5)] initial_receiver))"
proof -
  obtain a u e where v: "verifySkAdNetworkPostback sample_postback_host None sample_postback = Verified a u e" using sample_skan by blast
  have v': "verifySkAdNetworkPostback (sample_postback_host\<lparr>ph_json := f\<rparr>) None sample_postback = Verified a u e" for f
    using v by (simp add: verifySkAdNetworkPostback_def)
  have id: "member sample_postback ''app-id'' = Some (JNum 7)" by (simp add: sample_postback_def member_def)
  obtain r where r: "normalizedRecord (''1'', ''2'') SKAdNetwork (''tenant'', ''app'') sample_postback (Verified a u e) (toISOString 5) = Inr r"
    using sample_normalized by blast
  obtain l m where l: "limiter_allow sample_limiter ''unknown'' 0 [] = Inr (True, l)" "limiter_allow sample_limiter (''adam:'' @ show_int 7) 0 [] = Inr (True, m)"
    using sample_limiters by blast
  have adam: "appleAppAdamId SKAdNetwork sample_postback (Verified a u e) = Inr 7"
    by (simp add: appleAppAdamId_def request_integer_def id safe_integer_of_def MAX_SAFE_INTEGER_def guardR_def)
  have "admitted_postback sample_receiver_config SKAdNetwork (sample_postback_request 5) = Inr (''b'', sample_postback, Verified a u e, 7)"
    by (simp add: admitted_postback_def readBody_def parseBody_def verifyPostback_def sample_receiver_config_def sample_postback_request_def
      guardR_def v' adam)
  moreover have "cf_sourceBucket sample_receiver_config = sample_limiter" "cf_appBucket sample_receiver_config = sample_limiter"
    "cf_resolveScope sample_receiver_config 7 = Inr (Some (''tenant'', ''app''))" "\<And>e'. cf_failure sample_receiver_config e' = None"
    by (simp_all add: sample_receiver_config_def)
  moreover have "pq_remoteAddress (sample_postback_request 5) = None" "pq_elapsed (sample_postback_request 5) = (0, 0)"
    "pq_now (sample_postback_request 5) = 5" "pq_uuids (sample_postback_request 5) = (''1'', ''2'')"
    by (simp_all add: sample_postback_request_def)
  ultimately have "rv_effects (snd (receiveApplePostback sample_receiver_config SKAdNetwork (sample_postback_request 5) initial_receiver))
      = [Durable_Batch (''tenant'', ''app'') r 5]"
    using l r by (simp add: receiveApplePostback_def initial_receiver_def accept_postback_def store_postback_def perform_def)
  then show ?thesis by auto
qed

theorem stored_batches_sound_witness:
  "\<exists>r. pr_tenant_id r = ''tenant'' \<and> pr_app_id r = ''app'' \<and> pr_received_at r = toISOString 5 \<and> batch_status r \<noteq> None"
proof -
  obtain r where r: "Durable_Batch (''tenant'', ''app'') r 5
    \<in> set (rv_effects (receive_all sample_receiver_config [(SKAdNetwork, sample_postback_request 5)] initial_receiver))" using sample_stored by blast
  from stored_batches_sound [OF r] show ?thesis by auto
qed

theorem unverified_batches_bounded_witness:
  "unverified_batches (quota_key ''tenant'' ''app'' 7) (rv_effects (receive_all sample_receiver_config
     [(SKAdNetwork, sample_postback_request 5), (SKAdNetwork, sample_postback_request 6), (AdAttributionKit, sample_postback_request 7)]
     initial_receiver)) \<le> 1"
proof -
  have "sorted (map (\<lambda>q. pq_now (snd q)) [(SKAdNetwork, sample_postback_request 5), (SKAdNetwork, sample_postback_request 6),
      (AdAttributionKit, sample_postback_request 7)])" by (simp add: sample_postback_request_def)
  from unverified_batches_bounded [OF this, of "''tenant''" "''app''" 7 sample_receiver_config] show ?thesis
    by (simp add: sample_receiver_config_def)
qed

end
