(* ===== verification/Payload_Store.thy ===== *)
theory Payload_Store
  imports Js_Number
begin

text \<open>
  \<open>apps/runtime/src/payload-store.ts\<close>: the store of encrypted payloads, one file with the sealed object and
  one with its wrapped data key, and the rotation of the wrapping key in batches that may be interrupted
  between any two file writes. An operation returns its result and the list of the stores after each of
  its writes, so an interruption is a prefix. AES-GCM, HMAC and SHA-256 are arguments; the base64 and JSON
  texts of the files stand for their values. The lease that serialises processes is not modelled.
\<close>

section \<open>Files\<close>

record cipher =
  ci_encrypt :: "string \<Rightarrow> string \<Rightarrow> string \<Rightarrow> string \<Rightarrow> string \<times> string"
  ci_decrypt :: "string \<Rightarrow> string \<Rightarrow> string \<times> string \<Rightarrow> string \<Rightarrow> string option"
  ci_hmac :: "string \<Rightarrow> string \<Rightarrow> string"
  ci_sha :: "string \<Rightarrow> string"

record sealed =
  se_nonce :: string
  se_box :: "string \<times> string"

record encrypted_object =
  eo_key_id :: string
  eo_tenant_id :: string
  eo_app_id :: string
  eo_sealed :: sealed

record wrapped_key =
  wk_version :: int
  wk_wrapping_key_id :: "string option"
  wk_sealed :: sealed

datatype rotation_phase = Rewrapping | Verifying

record pending_state =
  pd_phase :: rotation_phase
  pd_from_key_id :: string
  pd_from_check :: string
  pd_to_key_id :: string
  pd_to_check :: string
  pd_after :: "string option"
  pd_verified :: int

datatype key_state = Ready_State string string int | Pending_State pending_state

record payload_store =
  ps_objects :: "(string, encrypted_object) jsmap"
  ps_keys :: "(string, wrapped_key) jsmap"
  ps_state :: "key_state option"

definition file_symbol :: "char \<Rightarrow> bool" where
  "file_symbol c \<longleftrightarrow> is_upper c \<or> is_lower c \<or> is_digit c \<or> c \<in> set ''._-''"

definition key_ref :: "string \<Rightarrow> bool" where
  "key_ref s \<longleftrightarrow> 1 \<le> length s \<and> length s \<le> 128 \<and> list_all (\<lambda>c. file_symbol c \<or> c = CHR '':'') s"

definition check_value :: "string \<Rightarrow> bool" where
  "check_value s \<longleftrightarrow> length s = 64 \<and> list_all (\<lambda>c. is_digit c \<or> c \<in> set ''abcdef'') s"

fun has_dots :: "string \<Rightarrow> bool" where
  "has_dots (a # b # s) \<longleftrightarrow> a = CHR ''.'' \<and> b = CHR ''.'' \<or> has_dots (b # s)"
| "has_dots s = False"

definition entry_name_ok :: "string \<Rightarrow> bool" where
  "entry_name_ok n \<longleftrightarrow> 5 < length n \<and> drop (length n - 5) n = ''.json'' \<and> list_all file_symbol n \<and> \<not> has_dots n"

text \<open>\<open>name.slice(0, -5)\<close> and back.\<close>

definition entry_key :: "string \<Rightarrow> string" where
  "entry_key n = take (length n - 5) n"

definition entry_name :: "string \<Rightarrow> string" where
  "entry_name keyId = keyId @ ''.json''"

section \<open>Operations over the store\<close>

type_synonym 'a io = "payload_store \<Rightarrow> 'a res \<times> payload_store list"

definition final :: "payload_store \<Rightarrow> payload_store list \<Rightarrow> payload_store" where
  "final s ts = last (s # ts)"

definition pureIO :: "'a res \<Rightarrow> 'a io" where
  "pureIO r s = (r, [])"

definition bindIO :: "'a io \<Rightarrow> ('a \<Rightarrow> 'b io) \<Rightarrow> 'b io" where
  "bindIO m k s =
     (case fst (m s) of
        Inl e \<Rightarrow> (Inl e, snd (m s))
      | Inr x \<Rightarrow> (let r = k x (final s (snd (m s))) in (fst r, snd (m s) @ snd r)))"

definition catchIO :: "'a io \<Rightarrow> (js_error \<Rightarrow> 'a io) \<Rightarrow> 'a io" where
  "catchIO m h s =
     (case fst (m s) of
        Inl e \<Rightarrow> (let r = h e (final s (snd (m s))) in (fst r, snd (m s) @ snd r))
      | Inr x \<Rightarrow> m s)"

definition writeIO :: "(payload_store \<Rightarrow> payload_store) \<Rightarrow> unit io" where
  "writeIO f s = (Inr (), [f s])"

definition getIO :: "(payload_store \<Rightarrow> 'a io) \<Rightarrow> 'a io" where
  "getIO k s = k s s"

section \<open>Key state\<close>

definition keyCheck :: "cipher \<Rightarrow> string \<Rightarrow> string \<Rightarrow> string" where
  "keyCheck C key keyId = ci_hmac C key (''openmasu:payload-wrapping-key:'' @ keyId)"

definition after_ok :: "string option \<Rightarrow> bool" where
  "after_ok a \<longleftrightarrow> (case a of None \<Rightarrow> True | Some n \<Rightarrow> entry_name_ok n)"

definition key_state_ok :: "key_state \<Rightarrow> bool" where
  "key_state_ok st \<longleftrightarrow>
     (case st of
        Ready_State keyId check verified \<Rightarrow> 0 \<le> verified \<and> verified \<le> MAX_SAFE_INTEGER \<and> key_ref keyId \<and> check_value check
      | Pending_State p \<Rightarrow> 0 \<le> pd_verified p \<and> pd_verified p \<le> MAX_SAFE_INTEGER \<and> key_ref (pd_from_key_id p) \<and> key_ref (pd_to_key_id p)
          \<and> pd_from_key_id p \<noteq> pd_to_key_id p \<and> check_value (pd_from_check p) \<and> check_value (pd_to_check p) \<and> after_ok (pd_after p))"

definition readKeyState :: "payload_store \<Rightarrow> key_state option res" where
  "readKeyState s =
     (case ps_state s of None \<Rightarrow> Inr None | Some st \<Rightarrow> guardR (key_state_ok st) ''payload_key_state_invalid'' (Inr (Some st)))"

text \<open>The identifier of the current wrapping key, when the store has one.\<close>

definition currentKey :: "cipher \<Rightarrow> string \<Rightarrow> payload_store \<Rightarrow> string option res" where
  "currentKey C wrappingKey s =
     bindR (readKeyState s) (\<lambda>st.
       case st of
         None \<Rightarrow> Inr None
       | Some (Pending_State p) \<Rightarrow> throw ''payload_rewrap_in_progress''
       | Some (Ready_State keyId check verified) \<Rightarrow>
           guardR (keyCheck C wrappingKey keyId = check) ''payload_wrapping_key_mismatch'' (Inr (Some keyId)))"

section \<open>Envelopes\<close>

definition decrypt_box :: "cipher \<Rightarrow> string \<Rightarrow> sealed \<Rightarrow> string \<Rightarrow> string res" where
  "decrypt_box C key v aad =
     (case ci_decrypt C key (se_nonce v) (se_box v) aad of
        None \<Rightarrow> throw ''Unsupported state or unable to authenticate data'' | Some p \<Rightarrow> Inr p)"

definition encrypt_box :: "cipher \<Rightarrow> string \<Rightarrow> string \<Rightarrow> string \<Rightarrow> string \<Rightarrow> sealed" where
  "encrypt_box C nonce key plaintext aad = \<lparr> se_nonce = nonce, se_box = ci_encrypt C key nonce plaintext aad \<rparr>"

definition wrappedAad :: "string \<Rightarrow> int \<Rightarrow> string option \<Rightarrow> string res" where
  "wrappedAad keyId version wrappingId =
     (if version = 1 \<and> wrappingId = None then Inr keyId
      else case wrappingId of
        None \<Rightarrow> throw ''payload_wrapped_key_invalid''
      | Some w \<Rightarrow> guardR (version = 2 \<and> key_ref w) ''payload_wrapped_key_invalid''
          (Inr (''openmasu:wrapped-key:v2'' @ [CHR 0x00] @ keyId @ [CHR 0x00] @ w)))"

definition unwrap :: "cipher \<Rightarrow> string \<Rightarrow> string \<Rightarrow> wrapped_key \<Rightarrow> string res" where
  "unwrap C key keyId w =
     bindR (wrappedAad keyId (wk_version w) (wk_wrapping_key_id w)) (\<lambda>aad.
     bindR (decrypt_box C key (wk_sealed w) aad) (\<lambda>dataKey.
       guardR (length dataKey = 32) ''payload_wrapped_key_invalid'' (Inr dataKey)))"

definition wrap :: "cipher \<Rightarrow> string \<Rightarrow> string \<Rightarrow> string option \<Rightarrow> string \<Rightarrow> string \<Rightarrow> wrapped_key res" where
  "wrap C nonce key wrappingId keyId dataKey =
     (let version = (if wrappingId = None then 1 else 2) in
      bindR (wrappedAad keyId version wrappingId) (\<lambda>aad.
        Inr \<lparr> wk_version = version, wk_wrapping_key_id = wrappingId, wk_sealed = encrypt_box C nonce key dataKey aad \<rparr>))"

definition object_aad :: "string \<Rightarrow> string \<Rightarrow> string \<Rightarrow> string" where
  "object_aad tenantId appId keyId = tenantId @ [CHR 0x00] @ appId @ [CHR 0x00] @ keyId"

section \<open>Writing, reading and purging\<close>

record payload_scope =
  sc_tenantId :: string
  sc_appId :: string
  sc_objectId :: string

text \<open>What \<open>randomBytes\<close> yields in one write; the suffix is already its hexadecimal text.\<close>

record write_randomness =
  wr_suffix :: string
  wr_dataKey :: string
  wr_payloadNonce :: string
  wr_keyNonce :: string

datatype file_call = Key_Write | Object_Write | Key_Removal | Object_Removal

type_synonym file_faults = "file_call \<Rightarrow> js_error option"

text \<open>One underscore for each UTF-16 unit outside the alphabet, from the bytes of the UTF-8 encoding.\<close>

definition safe_unit :: "char \<Rightarrow> string" where
  "safe_unit c = (let n = of_char c :: nat in
     if file_symbol c then [c] else if n < 128 then ''_'' else if n < 192 then [] else if n < 240 then ''_'' else ''__'')"

definition payload_key_id :: "payload_scope \<Rightarrow> string \<Rightarrow> string" where
  "payload_key_id scope suffix =
     concat (map safe_unit (sc_tenantId scope @ ''-'' @ sc_appId scope @ ''-'' @ sc_objectId scope)) @ ''.'' @ suffix"

definition faulty :: "file_faults \<Rightarrow> file_call \<Rightarrow> 'a io \<Rightarrow> 'a io" where
  "faulty F call m = (case F call of Some e \<Rightarrow> pureIO (Inl e) | None \<Rightarrow> m)"

definition create_key :: "file_faults \<Rightarrow> string \<Rightarrow> wrapped_key \<Rightarrow> unit io" where
  "create_key F name w = faulty F Key_Write (getIO (\<lambda>s.
     if map_has (ps_keys s) name then pureIO (throw ''EEXIST'') else writeIO (\<lambda>s. s\<lparr>ps_keys := map_set name w (ps_keys s)\<rparr>)))"

definition create_object :: "file_faults \<Rightarrow> string \<Rightarrow> encrypted_object \<Rightarrow> unit io" where
  "create_object F name obj = faulty F Object_Write (getIO (\<lambda>s.
     if map_has (ps_objects s) name then pureIO (throw ''EEXIST'') else writeIO (\<lambda>s. s\<lparr>ps_objects := map_set name obj (ps_objects s)\<rparr>)))"

definition remove_key :: "file_faults \<Rightarrow> string \<Rightarrow> unit io" where
  "remove_key F name = faulty F Key_Removal (writeIO (\<lambda>s. s\<lparr>ps_keys := filter (\<lambda>e. fst e \<noteq> name) (ps_keys s)\<rparr>))"

definition remove_object :: "file_faults \<Rightarrow> string \<Rightarrow> unit io" where
  "remove_object F name = faulty F Object_Removal (writeIO (\<lambda>s. s\<lparr>ps_objects := filter (\<lambda>e. fst e \<noteq> name) (ps_objects s)\<rparr>))"

definition payload_write :: "cipher \<Rightarrow> string \<Rightarrow> file_faults \<Rightarrow> write_randomness \<Rightarrow> payload_scope \<Rightarrow> string \<Rightarrow> string io" where
  "payload_write C wrappingKey F rnd scope plaintext =
     getIO (\<lambda>s. bindIO (pureIO (currentKey C wrappingKey s)) (\<lambda>current.
     let keyId = payload_key_id scope (wr_suffix rnd);
         obj = \<lparr> eo_key_id = keyId, eo_tenant_id = sc_tenantId scope, eo_app_id = sc_appId scope,
                 eo_sealed = encrypt_box C (wr_payloadNonce rnd) (wr_dataKey rnd) plaintext
                   (object_aad (sc_tenantId scope) (sc_appId scope) keyId) \<rparr> in
     bindIO (pureIO (wrap C (wr_keyNonce rnd) wrappingKey current keyId (wr_dataKey rnd))) (\<lambda>w.
     bindIO (create_key F (entry_name keyId) w) (\<lambda>_.
     bindIO (catchIO (create_object F (entry_name keyId) obj)
               (\<lambda>e. bindIO (remove_key F (entry_name keyId)) (\<lambda>_. pureIO (Inl e)))) (\<lambda>_.
     pureIO (Inr (''encrypted:'' @ keyId)))))))"

definition referenceKeyId :: "string \<Rightarrow> string res" where
  "referenceKeyId reference =
     guardR (starts_with reference ''encrypted:'') ''unsupported payload reference''
       (let keyId = drop 10 reference in
        guardR (1 \<le> length keyId \<and> length keyId \<le> 512 \<and> list_all file_symbol keyId \<and> \<not> has_dots keyId)
          ''invalid payload reference'' (Inr keyId))"

definition payload_read :: "cipher \<Rightarrow> string \<Rightarrow> payload_store \<Rightarrow> string \<Rightarrow> string res" where
  "payload_read C wrappingKey s reference =
     bindR (referenceKeyId reference) (\<lambda>keyId.
     bindR (currentKey C wrappingKey s) (\<lambda>current.
     case (map_get (ps_objects s) (entry_name keyId), map_get (ps_keys s) (entry_name keyId)) of
       (Some obj, Some w) \<Rightarrow>
         guardR (case current of None \<Rightarrow> wk_version w = 1 | Some c \<Rightarrow> wk_version w = 2 \<and> wk_wrapping_key_id w = Some c)
           ''payload_wrapping_key_mismatch''
         (bindR (unwrap C wrappingKey keyId w) (\<lambda>dataKey.
            decrypt_box C dataKey (eo_sealed obj) (object_aad (eo_tenant_id obj) (eo_app_id obj) keyId)))
     | _ \<Rightarrow> throw ''payload_not_found''))"

definition payload_purge :: "file_faults \<Rightarrow> string \<Rightarrow> unit io" where
  "payload_purge F reference =
     bindIO (pureIO (referenceKeyId reference)) (\<lambda>keyId.
     bindIO (remove_object F (entry_name keyId)) (\<lambda>_. remove_key F (entry_name keyId)))"

definition verifyWrappedKeys :: "cipher \<Rightarrow> string \<Rightarrow> payload_store \<Rightarrow> unit res" where
  "verifyWrappedKeys C wrappingKey s =
     bindR (currentKey C wrappingKey s) (\<lambda>current.
     all_ok (\<lambda>(name, w).
       guardR (5 \<le> length name \<and> drop (length name - 5) name = ''.json'') ''payload_wrapped_key_invalid''
       (guardR (case current of None \<Rightarrow> wk_version w = 1 | Some c \<Rightarrow> wk_version w = 2 \<and> wk_wrapping_key_id w = Some c)
           ''payload_wrapping_key_mismatch''
         (bindR (unwrap C wrappingKey (entry_key name) w) (\<lambda>dataKey. Inr ())))) (ps_keys s))"

section \<open>A page of keys\<close>

function lower_bound :: "string list \<Rightarrow> string \<Rightarrow> nat \<Rightarrow> nat \<Rightarrow> nat" where
  "lower_bound page name low high =
     (if low < high then
        let middle = (low + high) div 2 in
        if page ! middle < name then lower_bound page name (middle + 1) high else lower_bound page name low middle
      else low)"
  by pat_completeness auto
termination by (relation "measure (\<lambda>(page, name, low, high). high - low)") auto

declare lower_bound.simps [simp del]

definition insert_entry :: "nat \<Rightarrow> string list \<Rightarrow> string \<Rightarrow> string list" where
  "insert_entry limit page name =
     (let low = lower_bound page name 0 (length page) in
      if low \<le> limit then
        let wider = take low page @ name # drop low page in if limit + 1 < length wider then butlast wider else wider
      else page)"

definition keyPage :: "string list \<Rightarrow> string option \<Rightarrow> nat \<Rightarrow> string list res" where
  "keyPage names after limit =
     foldR (\<lambda>page name. guardR (entry_name_ok name) ''payload_wrapped_key_invalid''
       (Inr (if (case after of None \<Rightarrow> False | Some a \<Rightarrow> name \<le> a) then page else insert_entry limit page name))) [] names"

section \<open>Rotation of the wrapping key\<close>

record rewrap_input =
  ri_fromKeyRef :: string
  ri_toKeyRef :: string
  ri_targetSecret :: string
  ri_limit :: nat
  ri_writersStopped :: bool

record rewrap_result =
  rr_phase :: "rotation_phase option"
  rr_processed :: nat
  rr_verified_key_checks :: int
  rr_cutover_ready :: bool

fun result_of :: "key_state \<Rightarrow> nat \<Rightarrow> rewrap_result" where
  "result_of (Ready_State keyId check verified) processed =
     \<lparr> rr_phase = None, rr_processed = processed, rr_verified_key_checks = verified, rr_cutover_ready = True \<rparr>"
| "result_of (Pending_State p) processed =
     \<lparr> rr_phase = Some (pd_phase p), rr_processed = processed, rr_verified_key_checks = pd_verified p, rr_cutover_ready = False \<rparr>"

definition save_state :: "key_state \<Rightarrow> unit io" where
  "save_state st = writeIO (\<lambda>s. s\<lparr>ps_state := Some st\<rparr>)"

text \<open>Possession of the old key is verified on the first key before a store without a state is blocked.\<close>

definition check_first_key :: "cipher \<Rightarrow> string \<Rightarrow> payload_store \<Rightarrow> unit res" where
  "check_first_key C wrappingKey s =
     bindR (keyPage (map fst (ps_keys s)) None 1) (\<lambda>page.
     case page of
       [] \<Rightarrow> Inr ()
     | first # _ \<Rightarrow>
         (case map_get (ps_keys s) first of
            None \<Rightarrow> throw ''ENOENT''
          | Some w \<Rightarrow> guardR (wk_version w = 1) ''payload_key_state_invalid''
              (bindR (unwrap C wrappingKey (entry_key first) w) (\<lambda>dataKey. Inr ()))))"

definition initial_pending :: "cipher \<Rightarrow> string \<Rightarrow> string \<Rightarrow> rewrap_input \<Rightarrow> pending_state" where
  "initial_pending C wrappingKey target i =
     \<lparr> pd_phase = Rewrapping, pd_from_key_id = ri_fromKeyRef i, pd_from_check = keyCheck C wrappingKey (ri_fromKeyRef i),
       pd_to_key_id = ri_toKeyRef i, pd_to_check = keyCheck C target (ri_toKeyRef i), pd_after = None, pd_verified = 0 \<rparr>"

definition start_rotation :: "cipher \<Rightarrow> string \<Rightarrow> string \<Rightarrow> rewrap_input \<Rightarrow> pending_state io" where
  "start_rotation C wrappingKey target i =
     (let p = initial_pending C wrappingKey target i in bindIO (save_state (Pending_State p)) (\<lambda>_. pureIO (Inr p)))"

definition pending_rotation :: "cipher \<Rightarrow> string \<Rightarrow> string \<Rightarrow> rewrap_input \<Rightarrow> key_state option \<Rightarrow> pending_state io" where
  "pending_rotation C wrappingKey target i st =
     (case st of
        Some (Pending_State p) \<Rightarrow> pureIO (Inr p)
      | Some (Ready_State keyId check verified) \<Rightarrow>
          bindIO (pureIO (guardR (keyId = ri_fromKeyRef i \<and> check = keyCheck C wrappingKey (ri_fromKeyRef i))
            ''payload_wrapping_key_mismatch'' (Inr ()))) (\<lambda>_. start_rotation C wrappingKey target i)
      | None \<Rightarrow> getIO (\<lambda>s. bindIO (pureIO (check_first_key C wrappingKey s)) (\<lambda>_. start_rotation C wrappingKey target i)))"

definition rewrapped_key :: "cipher \<Rightarrow> string \<Rightarrow> string \<Rightarrow> string \<Rightarrow> pending_state \<Rightarrow> string \<Rightarrow> wrapped_key \<Rightarrow> wrapped_key option res" where
  "rewrapped_key C wrappingKey target nonce p keyId w =
     (if wk_version w = 2 \<and> wk_wrapping_key_id w = Some (pd_to_key_id p) then
        bindR (unwrap C target keyId w) (\<lambda>dataKey. Inr None)
      else guardR (\<not> (pd_phase p = Verifying \<or> wk_version w = 2 \<and> wk_wrapping_key_id w \<noteq> Some (pd_from_key_id p)))
        ''payload_rewrap_verification_failed''
        (bindR (unwrap C wrappingKey keyId w) (\<lambda>dataKey.
         bindR (wrap C nonce target (Some (pd_to_key_id p)) keyId dataKey) (\<lambda>replacement.
         bindR (unwrap C target keyId replacement) (\<lambda>again. Inr (Some replacement))))))"

definition rewrap_name :: "cipher \<Rightarrow> string \<Rightarrow> string \<Rightarrow> (string \<Rightarrow> string) \<Rightarrow> pending_state \<Rightarrow> string \<Rightarrow> unit io" where
  "rewrap_name C wrappingKey target nonces p name =
     getIO (\<lambda>s.
       if \<not> map_has (ps_objects s) name then pureIO (throw ''ENOENT'')
       else case map_get (ps_keys s) name of
         None \<Rightarrow> pureIO (throw ''ENOENT'')
       | Some w \<Rightarrow> bindIO (pureIO (rewrapped_key C wrappingKey target (nonces name) p (entry_key name) w)) (\<lambda>replacement.
           case replacement of
             None \<Rightarrow> pureIO (Inr ())
           | Some v \<Rightarrow> writeIO (\<lambda>s. s\<lparr>ps_keys := map_set name v (ps_keys s)\<rparr>)))"

fun rewrap_names :: "cipher \<Rightarrow> string \<Rightarrow> string \<Rightarrow> (string \<Rightarrow> string) \<Rightarrow> pending_state \<Rightarrow> string list \<Rightarrow> unit io" where
  "rewrap_names C wrappingKey target nonces p [] = pureIO (Inr ())"
| "rewrap_names C wrappingKey target nonces p (name # names) =
     bindIO (rewrap_name C wrappingKey target nonces p name) (\<lambda>_. rewrap_names C wrappingKey target nonces p names)"

text \<open>The state after a page: the next page, the next phase, or the new key.\<close>

definition next_state :: "nat \<Rightarrow> string list \<Rightarrow> pending_state \<Rightarrow> key_state" where
  "next_state limit page p =
     (let selected = take limit page;
          q = (if pd_phase p = Verifying then p\<lparr>pd_verified := pd_verified p + int (length selected)\<rparr> else p) in
      if length page \<le> limit then
        (if pd_phase p = Rewrapping then Pending_State (q\<lparr>pd_phase := Verifying, pd_after := None\<rparr>)
         else Ready_State (pd_to_key_id p) (pd_to_check p) (pd_verified q))
      else Pending_State (q\<lparr>pd_after := Some (last selected)\<rparr>))"

definition rotate_page :: "cipher \<Rightarrow> string \<Rightarrow> string \<Rightarrow> (string \<Rightarrow> string) \<Rightarrow> rewrap_input \<Rightarrow> pending_state \<Rightarrow> rewrap_result io" where
  "rotate_page C wrappingKey target nonces i p =
     bindIO (pureIO (guardR (pd_from_key_id p = ri_fromKeyRef i \<and> pd_to_key_id p = ri_toKeyRef i
       \<and> pd_from_check p = keyCheck C wrappingKey (ri_fromKeyRef i) \<and> pd_to_check p = keyCheck C target (ri_toKeyRef i))
       ''payload_rewrap_identity_mismatch'' (Inr ()))) (\<lambda>_.
     getIO (\<lambda>s. bindIO (pureIO (keyPage (map fst (ps_keys s)) (pd_after p) (ri_limit i))) (\<lambda>page.
     bindIO (rewrap_names C wrappingKey target nonces p (take (ri_limit i) page)) (\<lambda>_.
     let st = next_state (ri_limit i) page p in
     bindIO (save_state st) (\<lambda>_. pureIO (Inr (result_of st (length (take (ri_limit i) page)))))))))"

definition rewrap_arguments_ok :: "rewrap_input \<Rightarrow> bool" where
  "rewrap_arguments_ok i \<longleftrightarrow> key_ref (ri_fromKeyRef i) \<and> key_ref (ri_toKeyRef i) \<and> ri_fromKeyRef i \<noteq> ri_toKeyRef i
     \<and> 1 \<le> ri_limit i \<and> ri_limit i \<le> 1000 \<and> 32 \<le> length (ri_targetSecret i)"

definition rewrapBatch :: "cipher \<Rightarrow> string \<Rightarrow> (string \<Rightarrow> string) \<Rightarrow> rewrap_input \<Rightarrow> rewrap_result io" where
  "rewrapBatch C wrappingKey nonces i =
     (let target = ci_sha C (ri_targetSecret i) in
      bindIO (pureIO (guardR (ri_writersStopped i) ''payload_writers_stopped_ack_required''
        (guardR (rewrap_arguments_ok i) ''payload_rewrap_arguments_invalid''
        (guardR (target \<noteq> wrappingKey) ''payload_rewrap_distinct_key_required'' (Inr ()))))) (\<lambda>_.
      getIO (\<lambda>s. bindIO (pureIO (readKeyState s)) (\<lambda>st.
      case st of
        Some (Ready_State keyId check verified) \<Rightarrow>
          if keyId = ri_toKeyRef i then
            pureIO (guardR (check = keyCheck C target (ri_toKeyRef i)) ''payload_wrapping_key_mismatch''
              (Inr (result_of (Ready_State keyId check verified) 0)))
          else bindIO (pending_rotation C wrappingKey target i st) (rotate_page C wrappingKey target nonces i)
      | _ \<Rightarrow> bindIO (pending_rotation C wrappingKey target i st) (rotate_page C wrappingKey target nonces i)))))"


section \<open>The page is the sorted prefix\<close>

lemma lower_bound_range: "low \<le> high \<Longrightarrow> lower_bound page name low high \<in> {low..high}"
proof (induction page name low high rule: lower_bound.induct)
  case (1 page name low high)
  then show ?case by (subst lower_bound.simps) (force simp: Let_def)
qed

lemma lower_bound_split:
  assumes "sorted page" "low \<le> high" "high \<le> length page" "\<forall>j < low. page ! j < name" "\<forall>j. high \<le> j \<and> j < length page \<longrightarrow> name \<le> page ! j"
  shows "(\<forall>j < lower_bound page name low high. page ! j < name)
    \<and> (\<forall>j. lower_bound page name low high \<le> j \<and> j < length page \<longrightarrow> name \<le> page ! j)"
  using assms
proof (induction page name low high rule: lower_bound.induct)
  case (1 page name low high)
  show ?case
  proof (cases "low < high")
    case True
    define middle where "middle = (low + high) div 2"
    have m: "low \<le> middle" "middle < high" using True by (auto simp: middle_def)
    have below: "page ! j < name" if "page ! middle < name" "j < middle + 1" for j
      using sorted_nth_mono [OF 1(3), of j middle] that m 1(5) by (metis less_Suc_eq_le Suc_eq_plus1 le_less_trans less_le_trans)
    have above: "name \<le> page ! j" if "\<not> page ! middle < name" "middle \<le> j" "j < length page" for j
      using sorted_nth_mono [OF 1(3), of middle j] that by (metis linorder_not_less order_trans)
    show ?thesis
    proof (cases "page ! middle < name")
      case below_name: True
      have "lower_bound page name low high = lower_bound page name (middle + 1) high"
        using True below_name by (subst lower_bound.simps) (simp add: middle_def Let_def)
      moreover note 1(1) [OF True middle_def below_name 1(3) _ 1(5) _ 1(7)]
      ultimately show ?thesis using m below [OF below_name] by simp
    next
      case above_name: False
      have "lower_bound page name low high = lower_bound page name low middle"
        using True above_name by (subst lower_bound.simps) (simp add: middle_def Let_def)
      moreover note 1(2) [OF True middle_def above_name 1(3) m(1) _ 1(6)]
      ultimately show ?thesis using m above [OF above_name] 1(5) by simp
    qed
  next
    case False
    then have "low = high" using 1(4) by simp
    then have "lower_bound page name low high = high" "low = high" by (simp_all add: lower_bound.simps)
    then show ?thesis using 1(6,7) by simp
  qed
qed

lemma insort_takeWhile: "insort x xs = takeWhile (\<lambda>y. y < x) xs @ x # dropWhile (\<lambda>y. y < x) xs"
  by (induction xs) auto

lemma takeWhile_split: "r \<le> length xs \<Longrightarrow> \<forall>j < r. P (xs ! j) \<Longrightarrow> (r < length xs \<Longrightarrow> \<not> P (xs ! r)) \<Longrightarrow> takeWhile P xs = take r xs"
  by (rule takeWhile_eq_take_P_nth) auto

lemma insert_entry_insort:
  assumes "sorted page" "length page \<le> limit + 1"
  shows "insert_entry limit page name = take (limit + 1) (insort name page)"
proof -
  let ?r = "lower_bound page name 0 (length page)"
  have "(\<forall>j < ?r. page ! j < name) \<and> (\<forall>j. ?r \<le> j \<and> j < length page \<longrightarrow> name \<le> page ! j)"
    by (rule lower_bound_split [OF assms(1)]) auto
  then have split: "\<forall>j < ?r. page ! j < name" "\<forall>j. ?r \<le> j \<and> j < length page \<longrightarrow> name \<le> page ! j" by auto
  have range: "?r \<le> length page" using lower_bound_range [of 0 "length page" page name] by simp
  have t: "takeWhile (\<lambda>y. y < name) page = take ?r page"
    by (rule takeWhile_split) (use split range in \<open>auto simp: not_less\<close>)
  then have "dropWhile (\<lambda>y. y < name) page = drop ?r page"
    by (metis append_take_drop_id same_append_eq takeWhile_dropWhile_id)
  with t have i: "insort name page = take ?r page @ name # drop ?r page" by (simp add: insort_takeWhile)
  show ?thesis
  proof (cases "?r \<le> limit")
    case True
    consider "length page \<le> limit" | "length page = Suc limit" using assms(2) by linarith
    then show ?thesis using True range by cases (auto simp: insert_entry_def Let_def i butlast_conv_take)
  next
    case False
    with assms(2) range have "?r = limit + 1" "length page = limit + 1" by auto
    then show ?thesis by (simp add: insert_entry_def Let_def i)
  qed
qed

lemma sort_snoc: "sort (xs @ [x]) = insort x (sort (xs :: string list))"
  by (rule properties_for_sort) (simp_all add: sorted_insort)

lemma take_insort: "sorted xs \<Longrightarrow> take m (insort x (take m xs)) = take m (insort x xs)"
proof (induction xs arbitrary: m)
  case (Cons y ys)
  have "take n (y # take n ys) = take n (y # ys)" for n by (cases n) (simp_all add: take_take)
  with Cons show ?case by (cases m) auto
qed simp

definition page_of :: "string list \<Rightarrow> string option \<Rightarrow> nat \<Rightarrow> string list" where
  "page_of names after limit = take (limit + 1) (sort (filter (\<lambda>n. case after of None \<Rightarrow> True | Some a \<Rightarrow> a < n) names))"

text \<open>The bounded page that binary insertion keeps is the prefix of the sorted names after the cursor.\<close>

theorem keyPage_reference:
  "keyPage names after limit =
     (if list_all entry_name_ok names then Inr (page_of names after limit) else throw ''payload_wrapped_key_invalid'')"
proof -
  let ?step = "\<lambda>page name. guardR (entry_name_ok name) ''payload_wrapped_key_invalid''
       (Inr (if (case after of None \<Rightarrow> False | Some a \<Rightarrow> name \<le> a) then page else insert_entry limit page name))"
  have step: "?step (page_of done after limit) n =
      (if entry_name_ok n then Inr (page_of (done @ [n]) after limit) else throw ''payload_wrapped_key_invalid'')" for "done" n
  proof -
    have "insert_entry limit (page_of done after limit) n = page_of (done @ [n]) after limit"
      if "(case after of None \<Rightarrow> True | Some a \<Rightarrow> a < n)"
      using that by (subst insert_entry_insort) (auto simp: page_of_def sort_snoc take_insort sorted_wrt_take)
    moreover have "page_of (done @ [n]) after limit = page_of done after limit" if "\<not> (case after of None \<Rightarrow> True | Some a \<Rightarrow> a < n)"
      using that by (simp add: page_of_def)
    ultimately show ?thesis by (auto simp: guardR_def not_less split: option.splits)
  qed
  have "foldR ?step (page_of done after limit) names =
      (if list_all entry_name_ok names then Inr (page_of (done @ names) after limit) else throw ''payload_wrapped_key_invalid'')" for "done"
  proof (induction names arbitrary: "done")
    case (Cons n names)
    show ?case unfolding foldR.simps step using Cons.IH [of "done @ [n]"] by (simp add: throw_def)
  qed simp
  from this [of "[]"] show ?thesis by (simp add: keyPage_def page_of_def)
qed


section \<open>Reasoning about interrupted operations\<close>

text \<open>
  From a store with \<open>P\<close>, every write leaves a store with \<open>I\<close>, and a result comes with \<open>Q\<close>.
\<close>

definition triple :: "(payload_store \<Rightarrow> bool) \<Rightarrow> 'a io \<Rightarrow> (payload_store \<Rightarrow> bool) \<Rightarrow> ('a \<Rightarrow> payload_store \<Rightarrow> bool) \<Rightarrow> bool" where
  "triple P m I Q \<longleftrightarrow> (\<forall>s. P s \<longrightarrow> (\<forall>t \<in> set (snd (m s)). I t) \<and> (\<forall>x. fst (m s) = Inr x \<longrightarrow> Q x (final s (snd (m s)))))"

lemma final_simps [simp]: "final s [] = s" "final s (t # ts) = final t ts" "final s (ts @ us) = final (final s ts) us"
  by (simp_all add: final_def last_append)

lemma final_in: "final s ts \<in> insert s (set ts)"
  by (auto simp: final_def)

lemma triple_pure: "(\<And>x s. r = Inr x \<Longrightarrow> P s \<Longrightarrow> Q x s) \<Longrightarrow> triple P (pureIO r) I Q"
  by (simp add: triple_def pureIO_def)

lemma triple_write: "(\<And>s. P s \<Longrightarrow> I (f s) \<and> Q () (f s)) \<Longrightarrow> triple P (writeIO f) I Q"
  by (simp add: triple_def writeIO_def)

lemma triple_bind: "triple P m I R \<Longrightarrow> (\<And>x. triple (R x) (k x) I Q) \<Longrightarrow> triple P (bindIO m k) I Q"
  unfolding triple_def bindIO_def Let_def by (fastforce split: sum.splits)

lemma triple_get: "(\<And>s. P s \<Longrightarrow> triple (\<lambda>t. t = s) (k s) I Q) \<Longrightarrow> triple P (getIO k) I Q"
  unfolding triple_def getIO_def by simp

lemma triple_conseq: "triple P m I Q \<Longrightarrow> (\<And>s. P' s \<Longrightarrow> P s) \<Longrightarrow> (\<And>s. I s \<Longrightarrow> I' s) \<Longrightarrow> (\<And>x s. Q x s \<Longrightarrow> Q' x s) \<Longrightarrow> triple P' m I' Q'"
  unfolding triple_def by blast

lemma triple_pure_bind: "(\<And>x. r = Inr x \<Longrightarrow> triple P (k x) I Q) \<Longrightarrow> triple P (bindIO (pureIO r) k) I Q"
  unfolding triple_def bindIO_def pureIO_def Let_def by (auto split: sum.splits)

section \<open>What a rotation keeps\<close>

text \<open>A rotation from the key \<open>rn_old\<close> to \<open>rn_new\<close>, called \<open>rn_to\<close>, that began at \<open>rn_origin\<close>.\<close>

record rotation =
  rn_cipher :: cipher
  rn_old :: string
  rn_new :: string
  rn_to :: string
  rn_origin :: payload_store

definition rotated :: "string \<Rightarrow> wrapped_key \<Rightarrow> bool" where
  "rotated to w \<longleftrightarrow> wk_version w = 2 \<and> wk_wrapping_key_id w = Some to"

definition covered :: "string option \<Rightarrow> string \<Rightarrow> bool" where
  "covered after name \<longleftrightarrow> (case after of None \<Rightarrow> False | Some a \<Rightarrow> name \<le> a)"

definition same_data_key :: "rotation \<Rightarrow> string \<Rightarrow> wrapped_key \<Rightarrow> bool" where
  "same_data_key R name w \<longleftrightarrow>
     (\<exists>w0 d. map_get (ps_keys (rn_origin R)) name = Some w0 \<and> unwrap (rn_cipher R) (rn_old R) (entry_key name) w0 = Inr d
       \<and> unwrap (rn_cipher R) (if rotated (rn_to R) w then rn_new R else rn_old R) (entry_key name) w = Inr d)"

definition all_rotated :: "string \<Rightarrow> (string \<Rightarrow> bool) \<Rightarrow> payload_store \<Rightarrow> bool" where
  "all_rotated to S s \<longleftrightarrow> (\<forall>name w. S name \<longrightarrow> map_get (ps_keys s) name = Some w \<longrightarrow> rotated to w)"

definition pending_ok :: "rotation \<Rightarrow> payload_store \<Rightarrow> pending_state \<Rightarrow> bool" where
  "pending_ok R s p \<longleftrightarrow> pd_to_key_id p = rn_to R \<and> pd_to_check p = keyCheck (rn_cipher R) (rn_new R) (rn_to R)
     \<and> all_rotated (rn_to R) (\<lambda>name. pd_phase p = Verifying \<or> covered (pd_after p) name) s
     \<and> pd_verified p + (if pd_phase p = Verifying then int (length (filter (\<lambda>n. \<not> covered (pd_after p) n) (map fst (ps_keys s)))) else 0)
         \<le> (if pd_phase p = Verifying then int (length (ps_keys (rn_origin R))) else 0)"

definition rotation_state_ok :: "rotation \<Rightarrow> payload_store \<Rightarrow> bool" where
  "rotation_state_ok R s \<longleftrightarrow>
     (case ps_state s of
        None \<Rightarrow> True
      | Some (Ready_State keyId check verified) \<Rightarrow> key_state_ok (Ready_State keyId check verified)
          \<and> (keyId = rn_to R \<longrightarrow> check = keyCheck (rn_cipher R) (rn_new R) (rn_to R) \<and> all_rotated (rn_to R) (\<lambda>name. True) s)
      | Some (Pending_State p) \<Rightarrow> key_state_ok (Pending_State p) \<and> pending_ok R s p)"

definition rotation_files_ok :: "rotation \<Rightarrow> payload_store \<Rightarrow> bool" where
  "rotation_files_ok R s \<longleftrightarrow> distinct (map fst (ps_keys s)) \<and> length (ps_keys s) \<le> length (ps_keys (rn_origin R))
     \<and> (\<forall>name w. map_get (ps_keys s) name = Some w \<longrightarrow> same_data_key R name w)
     \<and> (\<forall>name obj. map_get (ps_objects s) name = Some obj \<longrightarrow> map_get (ps_objects (rn_origin R)) name = Some obj)"

definition rotation_ok :: "rotation \<Rightarrow> payload_store \<Rightarrow> bool" where
  "rotation_ok R s \<longleftrightarrow> rotation_files_ok R s \<and> rotation_state_ok R s"

text \<open>What AES-GCM, HMAC and the size of the store are relied on for.\<close>

definition cipher_ok :: "cipher \<Rightarrow> bool" where
  "cipher_ok C \<longleftrightarrow> (\<forall>key nonce plaintext aad. ci_decrypt C key nonce (ci_encrypt C key nonce plaintext aad) aad = Some plaintext)
     \<and> (\<forall>key text. check_value (ci_hmac C key text))"

lemma unwrap_wrap:
  assumes "cipher_ok C" "wrap C nonce key wrappingId keyId dataKey = Inr w" "length dataKey = 32"
  shows "unwrap C key keyId w = Inr dataKey"
  using assms by (auto simp: wrap_def unwrap_def cipher_ok_def encrypt_box_def decrypt_box_def guardR_def Let_def bindR_eq_Inr)

lemma unwrap_length: "unwrap C key keyId w = Inr d \<Longrightarrow> length d = 32"
  by (auto simp: unwrap_def result_simps)

lemma map_set_keys: "map_has m k \<Longrightarrow> map fst (map_set k v m) = map fst m"
  unfolding map_has_def map_set_def by (induction m) auto

lemma map_set_length_same: "map_has m k \<Longrightarrow> length (map_set k v m) = length m"
  by (metis length_map map_set_keys)

lemma map_has_names: "map_has m k \<longleftrightarrow> k \<in> set (map fst m)"
  by (simp add: map_has_def)

text \<open>Replacing an entry by one that the new key opens to the same data key keeps everything.\<close>

lemma replaced_entry_ok:
  assumes s: "rotation_files_ok R s" "ps_state s = Some (Pending_State p)" "rotation_state_ok R s"
    and w: "map_get (ps_keys s) name = Some w" "\<not> rotated (rn_to R) w"
    and v: "rotated (rn_to R) v" "\<And>d. unwrap (rn_cipher R) (rn_old R) (entry_key name) w = Inr d \<Longrightarrow>
      unwrap (rn_cipher R) (rn_new R) (entry_key name) v = Inr d"
  shows "rotation_files_ok R (s\<lparr>ps_keys := map_set name v (ps_keys s)\<rparr>)" "rotation_state_ok R (s\<lparr>ps_keys := map_set name v (ps_keys s)\<rparr>)"
proof -
  have has: "map_has (ps_keys s) name" using w by (simp add: map_has_iff)
  have "same_data_key R name w" using s(1) w by (auto simp: rotation_files_ok_def)
  then have "same_data_key R name v" using w(2) v unfolding same_data_key_def by auto
  then show "rotation_files_ok R (s\<lparr>ps_keys := map_set name v (ps_keys s)\<rparr>)"
    using s(1) has by (simp add: rotation_files_ok_def map_set_distinct map_set_length_same)
  show "rotation_state_ok R (s\<lparr>ps_keys := map_set name v (ps_keys s)\<rparr>)"
    using s(2,3) v(1) has by (auto simp: rotation_state_ok_def pending_ok_def all_rotated_def map_set_keys split: if_splits)
qed

definition rotating :: "rotation \<Rightarrow> pending_state \<Rightarrow> (string \<Rightarrow> bool) \<Rightarrow> string list \<Rightarrow> payload_store \<Rightarrow> bool" where
  "rotating R p S names s \<longleftrightarrow> rotation_ok R s \<and> ps_state s = Some (Pending_State p) \<and> all_rotated (rn_to R) S s \<and> map fst (ps_keys s) = names"

lemma rewrapped_key_cases:
  assumes "rewrapped_key C K T nonce p keyId w = Inr r" "cipher_ok C"
  shows "case r of None \<Rightarrow> rotated (pd_to_key_id p) w
    | Some v \<Rightarrow> \<not> rotated (pd_to_key_id p) w \<and> rotated (pd_to_key_id p) v \<and> (\<forall>d. unwrap C K keyId w = Inr d \<longrightarrow> unwrap C T keyId v = Inr d)"
proof -
  have "rotated (pd_to_key_id p) v" if "wrap C nonce T (Some (pd_to_key_id p)) keyId d = Inr v" for v d
    using that by (auto simp: wrap_def rotated_def Let_def bindR_eq_Inr)
  with assms show ?thesis
    by (auto simp: rewrapped_key_def result_simps rotated_def [of _ w] split: if_splits option.splits
        intro: unwrap_wrap unwrap_length)
qed

lemma rewrap_name_triple:
  assumes "cipher_ok (rn_cipher R)" "pd_to_key_id p = rn_to R"
  shows "triple (rotating R p S names) (rewrap_name (rn_cipher R) (rn_old R) (rn_new R) nonces p name) (rotation_ok R)
    (\<lambda>_. rotating R p (\<lambda>n. S n \<or> n = name) names)"
proof -
  have "rotating R p (\<lambda>n. S n \<or> n = name) names s"
    if "rotating R p S names s" "map_get (ps_keys s) name = Some w" "rotated (rn_to R) w" for s w
    using that by (auto simp: rotating_def all_rotated_def)
  moreover have "rotating R p (\<lambda>n. S n \<or> n = name) names (s\<lparr>ps_keys := map_set name v (ps_keys s)\<rparr>)"
    if s: "rotating R p S names s" "map_get (ps_keys s) name = Some w" "\<not> rotated (rn_to R) w" "rotated (rn_to R) v"
      "\<forall>d. unwrap (rn_cipher R) (rn_old R) (entry_key name) w = Inr d \<longrightarrow> unwrap (rn_cipher R) (rn_new R) (entry_key name) v = Inr d" for s w v
    using replaced_entry_ok [of R s p name w v] s
    by (auto simp: rotating_def rotation_ok_def all_rotated_def map_set_keys map_has_iff)
  ultimately show ?thesis
    unfolding rewrap_name_def
    by (intro triple_get) (auto split: option.splits intro!: triple_pure triple_write triple_pure_bind
        dest!: rewrapped_key_cases [OF _ assms(1)] simp: assms(2) rotating_def)
qed


lemma rewrap_names_triple:
  assumes "cipher_ok (rn_cipher R)" "pd_to_key_id p = rn_to R"
  shows "triple (rotating R p S names) (rewrap_names (rn_cipher R) (rn_old R) (rn_new R) nonces p ns) (rotation_ok R)
    (\<lambda>_. rotating R p (\<lambda>n. S n \<or> n \<in> set ns) names)"
proof (induction ns arbitrary: S)
  case Nil
  then show ?case by (auto intro!: triple_pure)
next
  case (Cons n ns)
  show ?case unfolding rewrap_names.simps
    by (rule triple_bind [OF rewrap_name_triple [OF assms, of S names nonces n]])
      (rule triple_conseq [OF Cons.IH [of "\<lambda>m. S m \<or> m = n"]], auto simp: disj_assoc)
qed

section \<open>From page to page\<close>

lemma not_covered: "(\<not> covered after n) = (case after of None \<Rightarrow> True | Some a \<Rightarrow> a < n)"
  by (auto simp: covered_def split: option.splits)

lemma page_of_covered: "page_of names after limit = take (limit + 1) (sort (filter (\<lambda>n. \<not> covered after n) names))"
  by (simp only: page_of_def not_covered)

lemma sorted_cut:
  fixes S :: "string list"
  assumes "sorted S" "distinct S" "0 < limit" "limit < length S"
  shows "filter (\<lambda>n. S ! (limit - 1) < n) S = drop limit S"
proof -
  have strict: "sorted_wrt (<) S" using assms(1,2) by (simp add: strict_sorted_iff)
  have le: "S ! i \<le> S ! (limit - 1)" if "i < limit" for i
    using that assms(4) sorted_nth_mono [OF assms(1), of i "limit - 1"] by linarith
  have "filter (\<lambda>n. S ! (limit - 1) < n) (take limit S) = []"
    using le by (auto simp: filter_empty_conv in_set_conv_nth not_less)
  moreover have "S ! (limit - 1) < S ! (limit + i)" if "limit + i < length S" for i
    using that assms(3) sorted_wrt_nth_less [OF strict, of "limit - 1" "limit + i"] by simp
  then have "filter (\<lambda>n. S ! (limit - 1) < n) (drop limit S) = drop limit S"
    by (auto simp: filter_id_conv in_set_conv_nth)
  ultimately show ?thesis by (metis append_Nil append_take_drop_id filter_append)
qed

lemma page_advance:
  assumes "distinct names" "0 < limit" "limit < length (page_of names after limit)"
  defines "edge \<equiv> last (take limit (page_of names after limit))"
  shows "length (filter (\<lambda>n. \<not> covered after n) names) = limit + length (filter (\<lambda>n. \<not> covered (Some edge) n) names)"
    and "covered (Some edge) n \<Longrightarrow> n \<in> set names \<Longrightarrow> covered after n \<or> n \<in> set (take limit (page_of names after limit))"
    and "edge \<in> set names"
proof -
  define S where "S = sort (filter (\<lambda>n. \<not> covered after n) names)"
  have S: "sorted S" "distinct S" "set S = {n \<in> set names. \<not> covered after n}" using assms(1) by (auto simp: S_def)
  have len: "limit < length S" using assms(3) by (auto simp: page_of_covered S_def)
  have page: "take limit (page_of names after limit) = take limit S" by (simp add: page_of_covered S_def)
  have edge: "edge = S ! (limit - 1)" using len assms(2) last_conv_nth [of "take limit S"] by (cases "S = []") (auto simp: edge_def page min_def)
  then have inS: "edge \<in> set S" using len by simp
  then show "edge \<in> set names" using S(3) by simp
  have above: "\<not> covered after n" if "\<not> covered (Some edge) n" for n
  proof -
    have "\<not> covered after edge" using inS S(3) by blast
    with that show ?thesis by (cases after) (auto simp: covered_def not_le)
  qed
  have cutS: "filter (\<lambda>n. \<not> covered (Some edge) n) S = drop limit S"
    using sorted_cut [OF S(1,2) assms(2) len] by (simp add: covered_def edge not_le)
  have "filter (\<lambda>n. \<not> covered (Some edge) n) (filter (\<lambda>n. \<not> covered after n) names) = filter (\<lambda>n. \<not> covered (Some edge) n) names"
    unfolding filter_filter using above by (auto intro!: filter_cong)
  then have "mset (filter (\<lambda>n. \<not> covered (Some edge) n) S) = mset (filter (\<lambda>n. \<not> covered (Some edge) n) names)"
    by (metis S_def mset_filter mset_sort)
  then have "length (filter (\<lambda>n. \<not> covered (Some edge) n) names) = length S - limit"
    using cutS by (metis length_drop size_mset)
  then show "length (filter (\<lambda>n. \<not> covered after n) names) = limit + length (filter (\<lambda>n. \<not> covered (Some edge) n) names)"
    using len by (simp add: S_def)
  show "covered after n \<or> n \<in> set (take limit (page_of names after limit))" if "covered (Some edge) n" "n \<in> set names"
  proof (cases "covered after n")
    case False
    then have n: "n \<in> set S" using that S(3) by simp
    then have "n \<notin> set (drop limit S)" using that(1) unfolding cutS [symmetric] by simp
    then show ?thesis using n by (metis Un_iff append_take_drop_id page set_append)
  qed simp
qed

lemma page_last:
  assumes "length (page_of names after limit) \<le> limit"
  shows "set (page_of names after limit) = {n \<in> set names. \<not> covered after n}"
    and "take limit (page_of names after limit) = page_of names after limit"
    and "distinct names \<Longrightarrow> length (page_of names after limit) = length (filter (\<lambda>n. \<not> covered after n) names)"
  using assms by (auto simp: page_of_covered min_def split: if_splits)


lemma next_state_ok:
  assumes s: "rotating R p (\<lambda>n. n \<in> set (take limit page)) names s" and page: "page = page_of names (pd_after p) limit"
    and names: "list_all entry_name_ok names" and limit: "0 < limit" and bound: "int (length (ps_keys (rn_origin R))) \<le> MAX_SAFE_INTEGER"
  shows "rotation_state_ok R (s\<lparr>ps_state := Some (next_state limit page p)\<rparr>)"
proof -
  have st: "rotation_state_ok R s" "ps_state s = Some (Pending_State p)" "map fst (ps_keys s) = names"
    and dist: "distinct names" and few: "length names \<le> length (ps_keys (rn_origin R))"
    using s by (auto simp: rotating_def rotation_ok_def rotation_files_ok_def)
  have ok: "key_state_ok (Pending_State p)" "pending_ok R s p" using st by (simp_all add: rotation_state_ok_def)
  have rot: "rotated (rn_to R) w" if "pd_phase p = Verifying \<or> covered (pd_after p) n \<or> n \<in> set (take limit page)"
      "map_get (ps_keys s) n = Some w" for n w
    using that s ok(2) unfolding rotating_def pending_ok_def all_rotated_def by blast
  have known: "n \<in> set names" if "map_get (ps_keys s) n = Some w" for n w
    using that st(3) map_has_iff [of "ps_keys s" n] by (auto simp: map_has_names)
  let ?left = "\<lambda>a. length (filter (\<lambda>n. \<not> covered a n) names)"
  have left: "?left a \<le> length names" for a by simp
  show ?thesis
  proof (cases "length page \<le> limit")
    case True
    note last = page_last [OF True [unfolded page], folded page]
    have all: "rotated (rn_to R) w" if "map_get (ps_keys s) n = Some w" for n w
      using rot [OF _ that] known [OF that] last(1,2) by (cases "covered (pd_after p) n") auto
    show ?thesis
      using True ok all last(2,3) dist few bound left [of None] st(3)
      by (cases "pd_phase p")
        (auto simp: next_state_def rotation_state_ok_def pending_ok_def all_rotated_def key_state_ok_def after_ok_def Let_def covered_def)
  next
    case False
    then have more: "limit < length (page_of names (pd_after p) limit)" by (simp add: page)
    note adv = page_advance [OF dist limit more, folded page]
    have rot': "rotated (rn_to R) w" if "pd_phase p = Verifying \<or> covered (Some (last (take limit page))) n"
        "map_get (ps_keys s) n = Some w" for n w
      using rot [OF _ that(2)] adv(2) known [OF that(2)] that(1) by blast
    have name_ok: "entry_name_ok (last (take limit page))" using adv(3) names by (simp add: list_all_iff)
    show ?thesis
      using False ok rot' name_ok adv(1) bound few left [of "pd_after p"] st(3)
      by (cases "pd_phase p")
        (auto simp: next_state_def rotation_state_ok_def pending_ok_def all_rotated_def key_state_ok_def after_ok_def Let_def)
  qed
qed


definition rotation_result :: "rotation \<Rightarrow> rewrap_result \<Rightarrow> payload_store \<Rightarrow> bool" where
  "rotation_result R r s \<longleftrightarrow> rotation_ok R s \<and> (rr_cutover_ready r \<longrightarrow> (\<exists>check verified. ps_state s = Some (Ready_State (rn_to R) check verified)))"

definition rotation_fits :: "rotation \<Rightarrow> bool" where
  "rotation_fits R \<longleftrightarrow> cipher_ok (rn_cipher R) \<and> int (length (ps_keys (rn_origin R))) \<le> MAX_SAFE_INTEGER"

lemma save_state_triple:
  "(\<And>s. P s \<Longrightarrow> I (s\<lparr>ps_state := Some st\<rparr>) \<and> Q () (s\<lparr>ps_state := Some st\<rparr>)) \<Longrightarrow> triple P (save_state st) I Q"
  unfolding save_state_def by (rule triple_write)

lemma rotation_files_state [simp]: "rotation_files_ok R (s\<lparr>ps_state := st\<rparr>) = rotation_files_ok R s"
  by (simp add: rotation_files_ok_def)

lemma next_state_result:
  assumes "pd_to_key_id p = to"
  shows "rr_cutover_ready (result_of (next_state limit page p) n) \<Longrightarrow> \<exists>c v. next_state limit page p = Ready_State to c v"
  using assms by (auto simp: next_state_def Let_def split: if_splits)

lemma rotate_page_triple:
  assumes R: "rotation_fits R" and i: "0 < ri_limit i"
  shows "triple (\<lambda>s. rotation_ok R s \<and> ps_state s = Some (Pending_State p)) (rotate_page (rn_cipher R) (rn_old R) (rn_new R) nonces i p)
    (rotation_ok R) (rotation_result R)"
  unfolding rotate_page_def
proof (intro triple_pure_bind triple_get, goal_cases)
  case (1 x s page)
  let ?names = "map fst (ps_keys s)" and ?selected = "take (ri_limit i) page"
  have page: "list_all entry_name_ok ?names" "page = page_of ?names (pd_after p) (ri_limit i)"
    using 1(3) by (auto simp: keyPage_reference split: if_splits)
  have st: "rotation_state_ok R s" "ps_state s = Some (Pending_State p)" using 1(2) by (auto simp: rotation_ok_def)
  then have to: "pd_to_key_id p = rn_to R" by (simp add: rotation_state_ok_def pending_ok_def)
  have start: "rotating R p (\<lambda>n. False) ?names s" using 1(2) by (simp add: rotating_def all_rotated_def)
  have fin: "rotation_state_ok R (t\<lparr>ps_state := Some (next_state (ri_limit i) page p)\<rparr>)" "rotation_files_ok R t"
    if "rotating R p (\<lambda>n. n \<in> set ?selected) ?names t" for t
    using next_state_ok [OF that page(2,1) i] R that by (auto simp: rotation_fits_def rotating_def rotation_ok_def)
  have cipher: "cipher_ok (rn_cipher R)" using R by (simp add: rotation_fits_def)
  have names: "triple (\<lambda>t. t = s) (rewrap_names (rn_cipher R) (rn_old R) (rn_new R) nonces p ?selected) (rotation_ok R)
      (\<lambda>_. rotating R p (\<lambda>n. n \<in> set ?selected) ?names)"
    by (rule triple_conseq [OF rewrap_names_triple [OF cipher to, of "\<lambda>n. False" ?names nonces ?selected]]) (use start in auto)
  show ?case unfolding Let_def
    by (rule triple_bind [OF names], rule triple_bind, rule save_state_triple [where Q = "\<lambda>_ t. rotation_ok R t \<and> ps_state t = Some (next_state (ri_limit i) page p)"])
      (auto simp: rotation_ok_def rotation_result_def fin intro!: triple_pure dest!: next_state_result [OF to])
qed

lemma initial_pending_ok:
  assumes R: "rotation_fits R" and i: "rewrap_arguments_ok i" "ri_toKeyRef i = rn_to R"
  shows "rotation_state_ok R (s\<lparr>ps_state := Some (Pending_State (initial_pending (rn_cipher R) (rn_old R) (rn_new R) i))\<rparr>)"
  using assms by (auto simp: rotation_state_ok_def initial_pending_def key_state_ok_def pending_ok_def rewrap_arguments_ok_def
      rotation_fits_def cipher_ok_def keyCheck_def after_ok_def all_rotated_def covered_def MAX_SAFE_INTEGER_def)

lemma pending_rotation_triple:
  assumes R: "rotation_fits R" and i: "rewrap_arguments_ok i" "ri_toKeyRef i = rn_to R"
  shows "triple (\<lambda>s. rotation_ok R s \<and> ps_state s = st) (pending_rotation (rn_cipher R) (rn_old R) (rn_new R) i st)
    (rotation_ok R) (\<lambda>p s. rotation_ok R s \<and> ps_state s = Some (Pending_State p))"
proof -
  have start: "triple (rotation_ok R) (start_rotation (rn_cipher R) (rn_old R) (rn_new R) i)
      (rotation_ok R) (\<lambda>p s. rotation_ok R s \<and> ps_state s = Some (Pending_State p))"
    unfolding start_rotation_def Let_def
    by (rule triple_bind, rule save_state_triple [where Q = "\<lambda>_ t. rotation_ok R t
          \<and> ps_state t = Some (Pending_State (initial_pending (rn_cipher R) (rn_old R) (rn_new R) i))"])
      (auto simp: rotation_ok_def initial_pending_ok [OF R i] intro!: triple_pure)
  show ?thesis unfolding pending_rotation_def
    by (auto split: option.splits key_state.splits intro!: triple_pure triple_pure_bind triple_get triple_conseq [OF start])
qed

lemma rewrapBatch_triple:
  assumes R: "rotation_fits R" and i: "ri_toKeyRef i = rn_to R" "ci_sha (rn_cipher R) (ri_targetSecret i) = rn_new R"
  shows "triple (rotation_ok R) (rewrapBatch (rn_cipher R) (rn_old R) nonces i) (rotation_ok R) (rotation_result R)"
proof -
  have go: "triple (\<lambda>t. t = s) (bindIO (pending_rotation (rn_cipher R) (rn_old R) (rn_new R) i st)
      (rotate_page (rn_cipher R) (rn_old R) (rn_new R) nonces i)) (rotation_ok R) (rotation_result R)"
    if "rewrap_arguments_ok i" "rotation_ok R s" "ps_state s = st" for s st
  proof (rule triple_bind)
    show "triple (\<lambda>t. t = s) (pending_rotation (rn_cipher R) (rn_old R) (rn_new R) i st) (rotation_ok R)
        (\<lambda>p s. rotation_ok R s \<and> ps_state s = Some (Pending_State p))"
      using that by (intro triple_conseq [OF pending_rotation_triple [OF R that(1) i(1), of st]]) auto
    show "triple (\<lambda>s. rotation_ok R s \<and> ps_state s = Some (Pending_State p)) (rotate_page (rn_cipher R) (rn_old R) (rn_new R) nonces i p)
        (rotation_ok R) (rotation_result R)" for p
      using that(1) by (intro rotate_page_triple [OF R]) (simp add: rewrap_arguments_ok_def)
  qed
  show ?thesis
    unfolding rewrapBatch_def Let_def i(2)
    by (intro triple_pure_bind triple_get)
      (auto simp: result_simps readKeyState_def rotation_result_def i split: option.splits key_state.splits intro!: go triple_pure)
qed


section \<open>Interrupted rotations\<close>

text \<open>Every store that a rotation can leave behind, when any of its calls may stop after any write and payloads are purged meanwhile.\<close>

inductive rotation_reach :: "rotation \<Rightarrow> payload_store \<Rightarrow> bool" for R where
  origin: "rotation_reach R (rn_origin R)"
| batch: "rotation_reach R s \<Longrightarrow> ri_toKeyRef i = rn_to R \<Longrightarrow> ci_sha (rn_cipher R) (ri_targetSecret i) = rn_new R \<Longrightarrow>
    t \<in> set (snd (rewrapBatch (rn_cipher R) (rn_old R) nonces i s)) \<Longrightarrow> rotation_reach R t"
| purge: "rotation_reach R s \<Longrightarrow> t \<in> set (snd (payload_purge F reference s)) \<Longrightarrow> rotation_reach R t"

definition rotation_origin :: "rotation \<Rightarrow> bool" where
  "rotation_origin R \<longleftrightarrow> distinct (map fst (ps_keys (rn_origin R)))
     \<and> (\<forall>name w. map_get (ps_keys (rn_origin R)) name = Some w \<longrightarrow>
          wk_wrapping_key_id w \<noteq> Some (rn_to R) \<and> (\<exists>d. unwrap (rn_cipher R) (rn_old R) (entry_key name) w = Inr d))
     \<and> (case ps_state (rn_origin R) of
          None \<Rightarrow> True
        | Some (Ready_State keyId check verified) \<Rightarrow> keyId \<noteq> rn_to R \<and> key_state_ok (Ready_State keyId check verified)
        | Some (Pending_State p) \<Rightarrow> False)"

lemma origin_ok: "rotation_origin R \<Longrightarrow> rotation_ok R (rn_origin R)"
  by (auto simp: rotation_origin_def rotation_ok_def rotation_files_ok_def rotation_state_ok_def same_data_key_def rotated_def
      split: option.splits key_state.splits)

lemma map_get_remove: "map_get (filter (\<lambda>e. fst e \<noteq> k) m) j = (if j = k then None else map_get m j)"
  by (induction m) (auto simp: map_get_def)

lemma removed_key_ok:
  assumes "rotation_ok R s"
  shows "rotation_ok R (s\<lparr>ps_keys := filter (\<lambda>e. fst e \<noteq> name) (ps_keys s)\<rparr>)"
proof -
  have files: "rotation_files_ok R (s\<lparr>ps_keys := filter (\<lambda>e. fst e \<noteq> name) (ps_keys s)\<rparr>)"
    using assms length_filter_le [of "\<lambda>e. fst e \<noteq> name" "ps_keys s"]
    by (auto simp: rotation_ok_def rotation_files_ok_def map_get_remove distinct_map_filter simp del: length_filter_le)
  have fewer: "length (filter (\<lambda>n. \<not> covered a n) (map fst (filter (\<lambda>e. fst e \<noteq> name) m))) \<le> length (filter (\<lambda>n. \<not> covered a n) (map fst m))"
    for a and m :: "(string, wrapped_key) jsmap" by (induction m) auto
  have "rotation_state_ok R (s\<lparr>ps_keys := filter (\<lambda>e. fst e \<noteq> name) (ps_keys s)\<rparr>)"
  proof (cases "ps_state s")
    case (Some st)
    show ?thesis
    proof (cases st)
      case (Pending_State p)
      then show ?thesis using assms Some fewer [of "pd_after p" "ps_keys s"]
        by (auto simp: rotation_ok_def rotation_state_ok_def pending_ok_def all_rotated_def map_get_remove)
    qed (use assms Some in \<open>auto simp: rotation_ok_def rotation_state_ok_def all_rotated_def map_get_remove\<close>)
  qed (simp add: rotation_state_ok_def)
  with files show ?thesis by (simp add: rotation_ok_def)
qed

lemma removed_object_ok: "rotation_ok R s \<Longrightarrow> rotation_ok R (s\<lparr>ps_objects := filter (\<lambda>e. fst e \<noteq> name) (ps_objects s)\<rparr>)"
  by (auto simp: rotation_ok_def rotation_files_ok_def map_get_remove rotation_state_ok_def pending_ok_def all_rotated_def
      split: option.splits key_state.splits)

lemma faulty_triple: "triple P m I Q \<Longrightarrow> triple P (faulty F call m) I Q"
  by (auto simp: faulty_def split: option.splits intro!: triple_pure)

lemma purge_triple: "triple (rotation_ok R) (payload_purge F reference) (rotation_ok R) (\<lambda>_. rotation_ok R)"
  unfolding payload_purge_def remove_object_def remove_key_def
  by (intro triple_pure_bind triple_bind [where R = "\<lambda>_. rotation_ok R"] faulty_triple triple_write)
    (auto intro: removed_object_ok removed_key_ok)

lemma reach_ok:
  assumes "rotation_reach R s" "rotation_fits R" "rotation_origin R"
  shows "rotation_ok R s"
  using assms(1)
proof induction
  case origin
  show ?case by (rule origin_ok [OF assms(3)])
next
  case (batch s i t nonces)
  with rewrapBatch_triple [OF assms(2) batch(2,3), of nonces] show ?case by (auto simp: triple_def)
next
  case (purge s t F reference)
  with purge_triple [of R F reference] show ?case by (auto simp: triple_def)
qed

text \<open>C7. However the calls of a rotation are interrupted, no data key is lost: in every store it can leave, the old or the new key
  opens every remaining entry to the data key it held at the start, and no object has changed.\<close>

theorem rotation_keeps_data_keys:
  assumes "rotation_fits R" "rotation_origin R" "rotation_reach R s" "map_get (ps_keys s) name = Some w"
  shows "\<exists>w0 d. map_get (ps_keys (rn_origin R)) name = Some w0 \<and> unwrap (rn_cipher R) (rn_old R) (entry_key name) w0 = Inr d
    \<and> (unwrap (rn_cipher R) (rn_old R) (entry_key name) w = Inr d \<or> unwrap (rn_cipher R) (rn_new R) (entry_key name) w = Inr d)
    \<and> map_get (ps_objects s) name \<in> {None, map_get (ps_objects (rn_origin R)) name}"
proof -
  have ok: "rotation_files_ok R s" using reach_ok [OF assms(3,1,2)] by (simp add: rotation_ok_def)
  then have "same_data_key R name w" using assms(4) by (simp add: rotation_files_ok_def)
  moreover have "map_get (ps_objects s) name \<in> {None, map_get (ps_objects (rn_origin R)) name}"
    using ok by (cases "map_get (ps_objects s) name") (auto simp: rotation_files_ok_def)
  ultimately show ?thesis unfolding same_data_key_def by (auto split: if_splits)
qed

lemma entry_key_name [simp]: "entry_key (entry_name k) = k"
  by (simp add: entry_key_def entry_name_def)

lemma payload_read_InrE:
  assumes "payload_read C key s reference = Inr x"
  obtains obj w d where "referenceKeyId reference = Inr (drop 10 reference)"
    "map_get (ps_objects s) (entry_name (drop 10 reference)) = Some obj" "map_get (ps_keys s) (entry_name (drop 10 reference)) = Some w"
    "unwrap C key (drop 10 reference) w = Inr d"
    "decrypt_box C d (eo_sealed obj) (object_aad (eo_tenant_id obj) (eo_app_id obj) (drop 10 reference)) = Inr x"
proof -
  from assms have ref: "referenceKeyId reference = Inr (drop 10 reference)"
    by (auto simp: payload_read_def referenceKeyId_def result_simps Let_def)
  with assms show thesis
    by (cases "map_get (ps_objects s) (entry_name (drop 10 reference))"; cases "map_get (ps_keys s) (entry_name (drop 10 reference))")
      (auto simp: payload_read_def result_simps intro: that)
qed

text \<open>C6. Once the rotation is ready, the new key reads of every payload that was readable at the start what the old key read then,
  unless it has been purged; then it is reported as not found.\<close>

theorem cutover_readable:
  assumes "rotation_fits R" "rotation_origin R" "rotation_reach R s" "ps_state s = Some (Ready_State (rn_to R) check verified)"
    and "payload_read (rn_cipher R) (rn_old R) (rn_origin R) reference = Inr x"
  shows "payload_read (rn_cipher R) (rn_new R) s reference =
    (if map_has (ps_objects s) (entry_name (drop 10 reference)) \<and> map_has (ps_keys s) (entry_name (drop 10 reference))
     then Inr x else throw ''payload_not_found'')"
proof -
  let ?C = "rn_cipher R" and ?keyId = "drop 10 reference" and ?o = "rn_origin R"
  let ?name = "entry_name ?keyId"
  from assms(5) obtain obj w0 d where read: "referenceKeyId reference = Inr ?keyId"
    "map_get (ps_objects ?o) ?name = Some obj" "map_get (ps_keys ?o) ?name = Some w0" "unwrap ?C (rn_old R) ?keyId w0 = Inr d"
    "decrypt_box ?C d (eo_sealed obj) (object_aad (eo_tenant_id obj) (eo_app_id obj) ?keyId) = Inr x"
    by (rule payload_read_InrE)
  have ok: "rotation_files_ok R s" "rotation_state_ok R s" using reach_ok [OF assms(3,1,2)] by (simp_all add: rotation_ok_def)
  have current: "currentKey ?C (rn_new R) s = Inr (Some (rn_to R))"
    using ok(2) assms(4) by (auto simp: currentKey_def readKeyState_def rotation_state_ok_def guardR_def)
  show ?thesis
  proof (cases "map_has (ps_objects s) ?name \<and> map_has (ps_keys s) ?name")
    case True
    then obtain obj' w where files: "map_get (ps_objects s) ?name = Some obj'" "map_get (ps_keys s) ?name = Some w" by (auto simp: map_has_iff)
    have "obj' = obj" using ok(1) files(1) read(2) by (auto simp: rotation_files_ok_def)
    moreover have "rotated (rn_to R) w" using ok(2) assms(4) files(2) by (auto simp: rotation_state_ok_def all_rotated_def)
    moreover have "unwrap ?C (rn_new R) ?keyId w = Inr d"
    proof -
      have "same_data_key R ?name w" using ok(1) files(2) by (simp add: rotation_files_ok_def)
      then show ?thesis using read(3,4) \<open>rotated (rn_to R) w\<close> by (auto simp: same_data_key_def)
    qed
    ultimately show ?thesis using True files read(1,5) current by (simp add: payload_read_def rotated_def guardR_def)
  next
    case False
    then have "map_get (ps_objects s) ?name = None \<or> map_get (ps_keys s) ?name = None" by (auto simp: map_has_iff)
    then show ?thesis using False read(1) current by (auto simp: payload_read_def split: option.splits)
  qed
qed


section \<open>A rotation comes to its end\<close>

definition succeeds :: "(payload_store \<Rightarrow> bool) \<Rightarrow> 'a io \<Rightarrow> ('a \<Rightarrow> payload_store \<Rightarrow> bool) \<Rightarrow> bool" where
  "succeeds P m Q \<longleftrightarrow> (\<forall>s. P s \<longrightarrow> (\<exists>x. fst (m s) = Inr x \<and> Q x (final s (snd (m s)))))"

lemma succeeds_pure: "(\<And>s. P s \<Longrightarrow> \<exists>x. r = Inr x \<and> Q x s) \<Longrightarrow> succeeds P (pureIO r) Q"
  by (auto simp: succeeds_def pureIO_def)

lemma succeeds_write: "(\<And>s. P s \<Longrightarrow> Q () (f s)) \<Longrightarrow> succeeds P (writeIO f) Q"
  by (simp add: succeeds_def writeIO_def)

lemma succeeds_bind: "succeeds P m R \<Longrightarrow> (\<And>x. succeeds (R x) (k x) Q) \<Longrightarrow> succeeds P (bindIO m k) Q"
  unfolding succeeds_def bindIO_def Let_def by fastforce

lemma succeeds_get: "(\<And>s. P s \<Longrightarrow> succeeds (\<lambda>t. t = s) (k s) Q) \<Longrightarrow> succeeds P (getIO k) Q"
  unfolding succeeds_def getIO_def by simp

lemma succeeds_pure_bind: "r = Inr x \<Longrightarrow> succeeds P (k x) Q \<Longrightarrow> succeeds P (bindIO (pureIO r) k) Q"
  by (simp add: succeeds_def bindIO_def pureIO_def Let_def)

lemma succeeds_conseq: "succeeds P m Q \<Longrightarrow> (\<And>s. P' s \<Longrightarrow> P s) \<Longrightarrow> (\<And>x s. Q x s \<Longrightarrow> Q' x s) \<Longrightarrow> succeeds P' m Q'"
  unfolding succeeds_def by blast

lemma succeeds_triple: "succeeds P m Q \<Longrightarrow> triple P m I R \<Longrightarrow> succeeds P m (\<lambda>x s. Q x s \<and> R x s)"
  unfolding succeeds_def triple_def by blast

text \<open>Every file is in place and wrapped under the key the rotation starts from or ends with.\<close>

definition files_ready :: "rotation \<Rightarrow> rewrap_input \<Rightarrow> payload_store \<Rightarrow> bool" where
  "files_ready R i s \<longleftrightarrow> (\<forall>name w. map_get (ps_keys s) name = Some w \<longrightarrow>
     entry_name_ok name \<and> map_has (ps_objects s) name
     \<and> (wk_version w = 2 \<longrightarrow> wk_wrapping_key_id w \<in> {Some (ri_fromKeyRef i), Some (rn_to R)}))"

lemma unwrap_versions: "unwrap C key keyId w = Inr d \<Longrightarrow> wk_version w = 1 \<and> wk_wrapping_key_id w = None \<or> wk_version w = 2"
  by (auto simp: unwrap_def wrappedAad_def result_simps split: if_splits option.splits)

lemma rewrapped_key_runs:
  assumes "cipher_ok C" "key_ref (pd_to_key_id p)"
    and "unwrap C (if rotated (pd_to_key_id p) w then T else K) keyId w = Inr d"
    and "pd_phase p = Verifying \<longrightarrow> rotated (pd_to_key_id p) w"
    and "wk_version w = 2 \<longrightarrow> wk_wrapping_key_id w \<in> {Some (pd_from_key_id p), Some (pd_to_key_id p)}"
  shows "\<exists>r. rewrapped_key C K T nonce p keyId w = Inr r"
proof (cases "rotated (pd_to_key_id p) w")
  case True
  then show ?thesis using assms(3) by (simp add: rewrapped_key_def rotated_def)
next
  case False
  have "\<exists>v. wrap C nonce T (Some (pd_to_key_id p)) keyId d = Inr v"
    using assms(2) by (simp add: wrap_def wrappedAad_def guardR_def)
  then obtain v where v: "wrap C nonce T (Some (pd_to_key_id p)) keyId d = Inr v" by blast
  have "unwrap C K keyId w = Inr d" using assms(3) False by simp
  moreover from this v have "unwrap C T keyId v = Inr d" by (blast intro: unwrap_wrap assms(1) unwrap_length)
  ultimately show ?thesis using False assms(4,5) v by (auto simp: rewrapped_key_def rotated_def guardR_def)
qed

lemma rewrap_name_runs:
  assumes R: "rotation_fits R" and p: "pd_to_key_id p = rn_to R" "pd_from_key_id p = ri_fromKeyRef i" "key_ref (rn_to R)" and n: "name \<in> set names"
  shows "succeeds (\<lambda>s. rotating R p S names s \<and> files_ready R i s)
    (rewrap_name (rn_cipher R) (rn_old R) (rn_new R) nonces p name) (\<lambda>_. files_ready R i)"
  unfolding rewrap_name_def
proof (rule succeeds_get)
  fix s assume s: "rotating R p S names s \<and> files_ready R i s"
  then have "map_has (ps_keys s) name" using n by (auto simp: rotating_def map_has_def)
  then obtain w where w: "map_get (ps_keys s) name = Some w" by (auto simp: map_has_iff)
  have files: "rotation_files_ok R s" "rotation_state_ok R s" "ps_state s = Some (Pending_State p)"
    using s by (auto simp: rotating_def rotation_ok_def)
  obtain d where d: "unwrap (rn_cipher R) (if rotated (pd_to_key_id p) w then rn_new R else rn_old R) (entry_key name) w = Inr d"
  proof -
    have "same_data_key R name w" using files(1) w by (simp add: rotation_files_ok_def)
    then show ?thesis using that by (auto simp: same_data_key_def p(1))
  qed
  have ver: "pd_phase p = Verifying \<longrightarrow> rotated (pd_to_key_id p) w"
    using files(2,3) w p(1) by (auto simp: rotation_state_ok_def pending_ok_def all_rotated_def)
  have ids: "wk_version w = 2 \<longrightarrow> wk_wrapping_key_id w \<in> {Some (pd_from_key_id p), Some (pd_to_key_id p)}"
    and has: "entry_name_ok name" "map_has (ps_objects s) name"
    using s w p by (auto simp: files_ready_def)
  obtain r where r: "rewrapped_key (rn_cipher R) (rn_old R) (rn_new R) (nonces name) p (entry_key name) w = Inr r"
    using rewrapped_key_runs [OF _ _ d ver ids] R p by (auto simp: rotation_fits_def)
  have "case r of None \<Rightarrow> True | Some v \<Rightarrow> rotated (rn_to R) v"
    using rewrapped_key_cases [OF r] R p(1) by (auto simp: rotation_fits_def split: option.splits)
  then show "succeeds (\<lambda>t. t = s) (if \<not> map_has (ps_objects s) name then pureIO (throw ''ENOENT'')
       else case map_get (ps_keys s) name of
         None \<Rightarrow> pureIO (throw ''ENOENT'')
       | Some w \<Rightarrow> bindIO (pureIO (rewrapped_key (rn_cipher R) (rn_old R) (rn_new R) (nonces name) p (entry_key name) w)) (\<lambda>replacement.
           case replacement of
             None \<Rightarrow> pureIO (Inr ())
           | Some v \<Rightarrow> writeIO (\<lambda>s. s\<lparr>ps_keys := map_set name v (ps_keys s)\<rparr>))) (\<lambda>_. files_ready R i)"
    using s has w r by (cases r) (auto simp: files_ready_def rotated_def intro!: succeeds_pure_bind succeeds_pure succeeds_write)
qed

lemma rewrap_names_run:
  assumes R: "rotation_fits R" and p: "pd_to_key_id p = rn_to R" "pd_from_key_id p = ri_fromKeyRef i" "key_ref (rn_to R)"
  shows "set ns \<subseteq> set names \<Longrightarrow> succeeds (\<lambda>s. rotating R p S names s \<and> files_ready R i s)
    (rewrap_names (rn_cipher R) (rn_old R) (rn_new R) nonces p ns) (\<lambda>_. files_ready R i)"
proof (induction ns arbitrary: S)
  case Nil
  then show ?case by (auto intro!: succeeds_pure)
next
  case (Cons n ns)
  have c: "cipher_ok (rn_cipher R)" using R by (simp add: rotation_fits_def)
  have "triple (\<lambda>s. rotating R p S names s \<and> files_ready R i s) (rewrap_name (rn_cipher R) (rn_old R) (rn_new R) nonces p n) (rotation_ok R)
      (\<lambda>_. rotating R p (\<lambda>m. S m \<or> m = n) names)"
    by (rule triple_conseq [OF rewrap_name_triple [OF c p(1), of S names nonces n]]) auto
  from succeeds_triple [OF rewrap_name_runs [OF R p, of n names S nonces] this] Cons
  show ?case unfolding rewrap_names.simps by (auto elim!: succeeds_bind intro!: succeeds_conseq [OF Cons.IH])
qed


definition names_left :: "string list \<Rightarrow> string option \<Rightarrow> nat" where
  "names_left names after = length (filter (\<lambda>n. \<not> covered after n) names)"

text \<open>The calls that a rotation may still need, and the exact count of verified keys.\<close>

definition calls_left :: "string \<Rightarrow> string list \<Rightarrow> key_state option \<Rightarrow> nat" where
  "calls_left to names st =
     (case st of
        Some (Pending_State p) \<Rightarrow> (if pd_phase p = Rewrapping then length names + 2 else 1) + names_left names (pd_after p)
      | Some (Ready_State keyId check verified) \<Rightarrow> (if keyId = to then 0 else 2 * length names + 2)
      | None \<Rightarrow> 2 * length names + 2)"

definition pending_exact :: "rotation \<Rightarrow> rewrap_input \<Rightarrow> string list \<Rightarrow> pending_state \<Rightarrow> bool" where
  "pending_exact R i names p \<longleftrightarrow> pd_from_key_id p = ri_fromKeyRef i \<and> pd_from_check p = keyCheck (rn_cipher R) (rn_old R) (ri_fromKeyRef i)
     \<and> pd_to_key_id p = rn_to R
     \<and> pd_verified p + (if pd_phase p = Verifying then int (names_left names (pd_after p)) else 0)
         = (if pd_phase p = Verifying then int (length names) else 0)"

definition state_exact :: "rotation \<Rightarrow> rewrap_input \<Rightarrow> string list \<Rightarrow> key_state option \<Rightarrow> bool" where
  "state_exact R i names st \<longleftrightarrow>
     (case st of
        Some (Pending_State p) \<Rightarrow> pending_exact R i names p
      | Some (Ready_State keyId check verified) \<Rightarrow>
          (if keyId = rn_to R then verified = int (length names)
           else keyId = ri_fromKeyRef i \<and> check = keyCheck (rn_cipher R) (rn_old R) (ri_fromKeyRef i))
      | None \<Rightarrow> True)"

lemma names_left_le: "names_left names after \<le> length names"
  by (simp add: names_left_def)

lemma next_state_progress:
  assumes "distinct names" "0 < limit" "page = page_of names (pd_after p) limit" "pending_exact R i names p"
  shows "state_exact R i names (Some (next_state limit page p))"
    and "calls_left (rn_to R) names (Some (next_state limit page p)) < calls_left (rn_to R) names (Some (Pending_State p))"
proof -
  have "state_exact R i names (Some (next_state limit page p))
      \<and> calls_left (rn_to R) names (Some (next_state limit page p)) < calls_left (rn_to R) names (Some (Pending_State p))"
  proof (cases "length page \<le> limit")
    case True
    note last = page_last(2,3) [OF True [unfolded assms(3)], folded assms(3)]
    have none: "names_left names None = length names" by (simp add: names_left_def covered_def)
    show ?thesis
      using assms(4) True last(1) last(2) [OF assms(1)] none
      by (cases "pd_phase p") (auto simp: next_state_def state_exact_def pending_exact_def calls_left_def Let_def names_left_def)
  next
    case False
    then have more: "limit < length (page_of names (pd_after p) limit)" by (simp add: assms(3))
    show ?thesis
      using assms(2,4) False page_advance(1) [OF assms(1,2) more, folded assms(3)]
      by (cases "pd_phase p") (auto simp: next_state_def state_exact_def pending_exact_def calls_left_def Let_def names_left_def)
  qed
  then show "state_exact R i names (Some (next_state limit page p))"
    and "calls_left (rn_to R) names (Some (next_state limit page p)) < calls_left (rn_to R) names (Some (Pending_State p))" by auto
qed

definition rotation_input :: "rotation \<Rightarrow> rewrap_input \<Rightarrow> bool" where
  "rotation_input R i \<longleftrightarrow> ri_writersStopped i \<and> rewrap_arguments_ok i \<and> ri_toKeyRef i = rn_to R
     \<and> ci_sha (rn_cipher R) (ri_targetSecret i) = rn_new R \<and> rn_new R \<noteq> rn_old R"

definition rotation_live :: "rotation \<Rightarrow> rewrap_input \<Rightarrow> string list \<Rightarrow> payload_store \<Rightarrow> bool" where
  "rotation_live R i names s \<longleftrightarrow> rotation_ok R s \<and> files_ready R i s \<and> map fst (ps_keys s) = names \<and> state_exact R i names (ps_state s)
     \<and> (ps_state s = None \<longrightarrow> (\<forall>name w. map_get (ps_keys s) name = Some w \<longrightarrow> wk_version w = 1))"

lemma files_ready_state [simp]: "files_ready R i (s\<lparr>ps_state := st\<rparr>) = files_ready R i s"
  by (simp add: files_ready_def)

lemma live_names_ok:
  assumes "rotation_live R i names s"
  shows "list_all entry_name_ok names \<and> distinct names"
proof -
  have "entry_name_ok n" if "n \<in> set names" for n
  proof -
    have "map_has (ps_keys s) n" using assms that by (auto simp: rotation_live_def map_has_def)
    then show ?thesis using assms by (auto simp: rotation_live_def files_ready_def map_has_iff)
  qed
  then show ?thesis using assms by (auto simp: rotation_live_def rotation_ok_def rotation_files_ok_def list_all_iff)
qed

lemma rotate_page_runs:
  assumes R: "rotation_fits R" and i: "rotation_input R i" and s: "rotation_live R i names s" "ps_state s = Some (Pending_State p)"
  shows "succeeds (\<lambda>t. t = s) (rotate_page (rn_cipher R) (rn_old R) (rn_new R) nonces i p)
    (\<lambda>r t. rotation_live R i names t \<and> calls_left (rn_to R) names (ps_state t) < calls_left (rn_to R) names (ps_state s))"
proof -
  have limit: "0 < ri_limit i" using i by (simp add: rotation_input_def rewrap_arguments_ok_def)
  define page where "page = page_of names (pd_after p) (ri_limit i)"
  have p: "pending_exact R i names p" "pending_ok R s p" "key_state_ok (Pending_State p)"
    using s by (auto simp: rotation_live_def rotation_ok_def rotation_state_ok_def state_exact_def)
  have kp: "keyPage (map fst (ps_keys s)) (pd_after p) (ri_limit i) = Inr page"
    using s(1) live_names_ok [OF s(1)] by (simp add: keyPage_reference page_def rotation_live_def)
  have sel: "set (take (ri_limit i) page) \<subseteq> set names" by (auto simp: page_def page_of_def dest!: in_set_takeD)
  have start: "rotating R p (\<lambda>n. False) names s \<and> files_ready R i s"
    using s by (simp add: rotation_live_def rotating_def all_rotated_def)
  have ids: "pd_to_key_id p = rn_to R" "pd_from_key_id p = ri_fromKeyRef i" "key_ref (rn_to R)" "cipher_ok (rn_cipher R)"
    using p R by (auto simp: pending_exact_def key_state_ok_def rotation_fits_def)
  have names: "succeeds (\<lambda>t. t = s) (rewrap_names (rn_cipher R) (rn_old R) (rn_new R) nonces p (take (ri_limit i) page))
      (\<lambda>_ t. files_ready R i t \<and> rotating R p (\<lambda>n. n \<in> set (take (ri_limit i) page)) names t)"
    by (rule succeeds_triple [OF succeeds_conseq [OF rewrap_names_run [OF R ids(1-3) sel, of "\<lambda>n. False" nonces]]
          triple_conseq [OF rewrap_names_triple [OF ids(4,1), of "\<lambda>n. False" names nonces "take (ri_limit i) page"]]])
      (use start in auto)
  note progress = next_state_progress [OF _ limit page_def p(1)] and dist = live_names_ok [OF s(1)]
  have bound: "int (length (ps_keys (rn_origin R))) \<le> MAX_SAFE_INTEGER" using R by (simp add: rotation_fits_def)
  have fin: "rotation_live R i names (t\<lparr>ps_state := Some (next_state (ri_limit i) page p)\<rparr>)"
    if "files_ready R i t \<and> rotating R p (\<lambda>n. n \<in> set (take (ri_limit i) page)) names t" for t
    using that progress dist next_state_ok [OF _ page_def _ limit bound]
    by (auto simp: rotation_live_def rotating_def rotation_ok_def)
  show ?thesis
    unfolding rotate_page_def Let_def
  proof (rule succeeds_pure_bind)
    show "guardR (pd_from_key_id p = ri_fromKeyRef i \<and> pd_to_key_id p = ri_toKeyRef i
       \<and> pd_from_check p = keyCheck (rn_cipher R) (rn_old R) (ri_fromKeyRef i) \<and> pd_to_check p = keyCheck (rn_cipher R) (rn_new R) (ri_toKeyRef i))
       ''payload_rewrap_identity_mismatch'' (Inr ()) = Inr ()"
      using p i by (simp add: pending_exact_def pending_ok_def rotation_input_def guardR_def)
    show "succeeds (\<lambda>t. t = s) (getIO (\<lambda>s. bindIO (pureIO (keyPage (map fst (ps_keys s)) (pd_after p) (ri_limit i))) (\<lambda>page.
       bindIO (rewrap_names (rn_cipher R) (rn_old R) (rn_new R) nonces p (take (ri_limit i) page)) (\<lambda>_.
       bindIO (save_state (next_state (ri_limit i) page p)) (\<lambda>_.
         pureIO (Inr (result_of (next_state (ri_limit i) page p) (length (take (ri_limit i) page)))))))))
      (\<lambda>r t. rotation_live R i names t \<and> calls_left (rn_to R) names (ps_state t) < calls_left (rn_to R) names (ps_state s))"
      using kp progress dist s(2)
      by (auto intro!: succeeds_get succeeds_pure_bind succeeds_bind [OF names]
            succeeds_bind [OF succeeds_write [where Q = "\<lambda>_ t. rotation_live R i names t \<and> ps_state t = Some (next_state (ri_limit i) page p)"]]
            succeeds_pure fin simp: save_state_def)
  qed
qed


lemma triple_and: "triple P m I Q \<Longrightarrow> triple P m I' Q' \<Longrightarrow> triple P m (\<lambda>s. I s \<and> I' s) (\<lambda>x s. Q x s \<and> Q' x s)"
  unfolding triple_def by blast

lemma live_replaced:
  assumes s: "rotation_live R i names s" "ps_state s = Some (Pending_State p)"
    and w: "map_get (ps_keys s) name = Some w" "\<not> rotated (rn_to R) w" "rotated (rn_to R) v"
      "\<And>d. unwrap (rn_cipher R) (rn_old R) (entry_key name) w = Inr d \<Longrightarrow> unwrap (rn_cipher R) (rn_new R) (entry_key name) v = Inr d"
  shows "rotation_live R i names (s\<lparr>ps_keys := map_set name v (ps_keys s)\<rparr>)"
proof -
  have "rotation_ok R (s\<lparr>ps_keys := map_set name v (ps_keys s)\<rparr>)"
    using replaced_entry_ok [of R s p name w v] s w by (simp add: rotation_live_def rotation_ok_def)
  moreover have "files_ready R i (s\<lparr>ps_keys := map_set name v (ps_keys s)\<rparr>)"
    using s(1) w by (auto simp: rotation_live_def files_ready_def rotated_def)
  ultimately show ?thesis using s w(1) by (simp add: rotation_live_def map_set_keys map_has_iff)
qed

lemma rewrap_names_live:
  assumes c: "cipher_ok (rn_cipher R)" and p: "pd_to_key_id p = rn_to R"
  shows "triple (\<lambda>s. rotation_live R i names s \<and> ps_state s = Some (Pending_State p))
    (rewrap_names (rn_cipher R) (rn_old R) (rn_new R) nonces p ns) (rotation_live R i names)
    (\<lambda>_ s. rotation_live R i names s \<and> ps_state s = Some (Pending_State p))"
proof (induction ns)
  case (Cons n ns)
  have "triple (\<lambda>s. rotation_live R i names s \<and> ps_state s = Some (Pending_State p))
    (rewrap_name (rn_cipher R) (rn_old R) (rn_new R) nonces p n) (rotation_live R i names)
    (\<lambda>_ s. rotation_live R i names s \<and> ps_state s = Some (Pending_State p))"
    unfolding rewrap_name_def
    by (intro triple_get) (auto split: option.splits intro!: triple_pure triple_write triple_pure_bind live_replaced
        dest!: rewrapped_key_cases [OF _ c] simp: p)
  from triple_bind [OF this Cons.IH] show ?case by simp
qed (auto intro!: triple_pure)

lemma rotate_page_live:
  assumes R: "rotation_fits R" and i: "rotation_input R i" and s: "rotation_live R i names s" "ps_state s = Some (Pending_State p)"
  shows "\<forall>t \<in> set (snd (rotate_page (rn_cipher R) (rn_old R) (rn_new R) nonces i p s)). rotation_live R i names t"
proof -
  let ?page = "page_of names (pd_after p) (ri_limit i)"
  let ?m = "rewrap_names (rn_cipher R) (rn_old R) (rn_new R) nonces p (take (ri_limit i) ?page)"
  have p: "pd_to_key_id p = rn_to R" "cipher_ok (rn_cipher R)"
    using s R by (auto simp: rotation_live_def state_exact_def pending_exact_def rotation_fits_def)
  have kp: "keyPage (map fst (ps_keys s)) (pd_after p) (ri_limit i) = Inr ?page"
    using s(1) live_names_ok [OF s(1)] by (simp add: keyPage_reference rotation_live_def)
  have names: "\<forall>t \<in> set (snd (?m s)). rotation_live R i names t"
    using rewrap_names_live [OF p(2,1), of i names nonces "take (ri_limit i) ?page"] s by (simp add: triple_def)
  obtain x where run: "fst (rotate_page (rn_cipher R) (rn_old R) (rn_new R) nonces i p s) = Inr x"
    "rotation_live R i names (final s (snd (rotate_page (rn_cipher R) (rn_old R) (rn_new R) nonces i p s)))"
    using rotate_page_runs [OF assms, of nonces] by (auto simp: succeeds_def)
  have "\<exists>t. snd (rotate_page (rn_cipher R) (rn_old R) (rn_new R) nonces i p s) = snd (?m s) @ [t]"
    using run(1) kp by (auto simp: rotate_page_def bindIO_def pureIO_def getIO_def save_state_def writeIO_def Let_def guardR_def
        split: sum.splits if_splits)
  with names run(2) show ?thesis by (auto simp: final_def)
qed

lemma pending_rotation_runs:
  assumes R: "rotation_fits R" and i: "rotation_input R i" and s: "rotation_live R i names s"
    and st: "\<And>check verified. ps_state s \<noteq> Some (Ready_State (rn_to R) check verified)"
  shows "\<exists>p ts. pending_rotation (rn_cipher R) (rn_old R) (rn_new R) i (ps_state s) s = (Inr p, ts)
    \<and> (\<forall>t \<in> insert (final s ts) (set ts). rotation_live R i names t) \<and> ps_state (final s ts) = Some (Pending_State p)
    \<and> calls_left (rn_to R) names (ps_state (final s ts)) = calls_left (rn_to R) names (ps_state s)"
proof -
  let ?p = "initial_pending (rn_cipher R) (rn_old R) (rn_new R) i"
  have left: "names_left names None = length names" by (simp add: names_left_def covered_def)
  have live: "rotation_live R i names (s\<lparr>ps_state := Some (Pending_State ?p)\<rparr>)"
    using s i initial_pending_ok [OF R, of i s]
    by (auto simp: rotation_live_def rotation_input_def rotation_ok_def state_exact_def pending_exact_def initial_pending_def)
  have start: "start_rotation (rn_cipher R) (rn_old R) (rn_new R) i s = (Inr ?p, [s\<lparr>ps_state := Some (Pending_State ?p)\<rparr>])"
    by (simp add: start_rotation_def bindIO_def save_state_def writeIO_def pureIO_def Let_def)
  show ?thesis
  proof (cases "ps_state s")
    case None
    have "check_first_key (rn_cipher R) (rn_old R) s = Inr ()"
    proof (cases "page_of names None 1")
      case (Cons n ns)
      then have "n \<in> set (page_of names None 1)" by simp
      then have "n \<in> set names" by (auto simp: page_of_def dest!: in_set_takeD)
      then have "map_has (ps_keys s) n" using s by (auto simp: rotation_live_def map_has_def)
      then obtain w where w: "map_get (ps_keys s) n = Some w" by (auto simp: map_has_iff)
      then have "wk_version w = 1" "same_data_key R n w"
        using s None by (auto simp: rotation_live_def rotation_ok_def rotation_files_ok_def)
      then have "\<exists>d. unwrap (rn_cipher R) (rn_old R) (entry_key n) w = Inr d" by (auto simp: same_data_key_def rotated_def)
      with Cons w \<open>wk_version w = 1\<close> s live_names_ok [OF s] show ?thesis
        by (auto simp: check_first_key_def keyPage_reference rotation_live_def guardR_def)
    qed (use s live_names_ok [OF s] in \<open>simp add: check_first_key_def keyPage_reference rotation_live_def\<close>)
    with None start live left show ?thesis
      by (auto simp: pending_rotation_def getIO_def bindIO_def pureIO_def Let_def calls_left_def initial_pending_def)
  next
    case (Some st')
    show ?thesis
    proof (cases st')
      case (Ready_State k c v)
      with Some s st have "k = ri_fromKeyRef i" "c = keyCheck (rn_cipher R) (rn_old R) (ri_fromKeyRef i)" "k \<noteq> rn_to R"
        by (auto simp: rotation_live_def state_exact_def split: if_splits)
      with Some Ready_State start live left show ?thesis
        by (auto simp: pending_rotation_def getIO_def bindIO_def pureIO_def Let_def calls_left_def guardR_def initial_pending_def)
    next
      case (Pending_State p)
      with Some s show ?thesis by (simp add: pending_rotation_def pureIO_def)
    qed
  qed
qed


definition rewrap_step :: "rotation \<Rightarrow> (string \<Rightarrow> string) \<Rightarrow> rewrap_input \<Rightarrow> rewrap_result io" where
  "rewrap_step R nonces i = rewrapBatch (rn_cipher R) (rn_old R) nonces i"

lemma rewrap_step_eq:
  assumes R: "rotation_fits R" and i: "rotation_input R i" and s: "rotation_live R i names s"
  shows "rewrap_step R nonces i s =
    (case ps_state s of
       Some (Ready_State keyId check verified) \<Rightarrow>
         if keyId = rn_to R then (Inr (result_of (Ready_State keyId check verified) 0), [])
         else bindIO (pending_rotation (rn_cipher R) (rn_old R) (rn_new R) i (ps_state s)) (rotate_page (rn_cipher R) (rn_old R) (rn_new R) nonces i) s
     | _ \<Rightarrow> bindIO (pending_rotation (rn_cipher R) (rn_old R) (rn_new R) i (ps_state s)) (rotate_page (rn_cipher R) (rn_old R) (rn_new R) nonces i) s)"
proof -
  have "readKeyState s = Inr (ps_state s)"
    using s by (auto simp: readKeyState_def guardR_def rotation_live_def rotation_ok_def rotation_state_ok_def split: option.splits key_state.splits)
  then show ?thesis using i s
    by (auto simp: rewrap_step_def rewrapBatch_def rotation_input_def bindIO_def [of "pureIO _"] pureIO_def getIO_def guardR_def Let_def
        rotation_live_def rotation_ok_def rotation_state_ok_def split: option.splits key_state.splits)
qed

lemma rewrap_step_live:
  assumes R: "rotation_fits R" and i: "rotation_input R i" and s: "rotation_live R i names s"
  shows "\<exists>x ts. rewrap_step R nonces i s = (Inr x, ts) \<and> (\<forall>t \<in> insert (final s ts) (set ts). rotation_live R i names t)
    \<and> calls_left (rn_to R) names (ps_state (final s ts)) \<le> calls_left (rn_to R) names (ps_state s) - 1"
proof (cases "\<exists>check verified. ps_state s = Some (Ready_State (rn_to R) check verified)")
  case True
  then show ?thesis using s rewrap_step_eq [OF assms, of nonces] by (auto simp: calls_left_def)
next
  case False
  obtain p ts where p: "pending_rotation (rn_cipher R) (rn_old R) (rn_new R) i (ps_state s) s = (Inr p, ts)"
    "\<forall>t \<in> insert (final s ts) (set ts). rotation_live R i names t" "ps_state (final s ts) = Some (Pending_State p)"
    "calls_left (rn_to R) names (ps_state (final s ts)) = calls_left (rn_to R) names (ps_state s)"
    using pending_rotation_runs [OF assms] False by blast
  let ?m = "rotate_page (rn_cipher R) (rn_old R) (rn_new R) nonces i p (final s ts)"
  have live: "rotation_live R i names (final s ts)" using p(2) by simp
  obtain x where x: "fst ?m = Inr x" "rotation_live R i names (final (final s ts) (snd ?m))"
    "calls_left (rn_to R) names (ps_state (final (final s ts) (snd ?m))) < calls_left (rn_to R) names (ps_state (final s ts))"
    using rotate_page_runs [OF R i live p(3), of nonces] by (auto simp: succeeds_def)
  have "rewrap_step R nonces i s = (Inr x, ts @ snd ?m)"
    using False p(1) x(1) rewrap_step_eq [OF assms, of nonces]
    by (auto simp: bindIO_def Let_def split: option.splits key_state.splits)
  with x(2,3) p(2,4) rotate_page_live [OF R i live p(3), of nonces] show ?thesis by auto
qed

text \<open>Calls one after the other, each with its own nonces.\<close>

fun rewrap_calls :: "rotation \<Rightarrow> (nat \<Rightarrow> string \<Rightarrow> string) \<Rightarrow> rewrap_input \<Rightarrow> nat \<Rightarrow> payload_store \<Rightarrow> payload_store" where
  "rewrap_calls R nonces i 0 s = s"
| "rewrap_calls R nonces i (Suc n) s = rewrap_calls R nonces i n (final s (snd (rewrap_step R (nonces n) i s)))"

text \<open>The stores that interrupted calls with the same arguments leave.\<close>

inductive interrupted :: "rotation \<Rightarrow> rewrap_input \<Rightarrow> payload_store \<Rightarrow> bool" for R i where
  start: "interrupted R i (rn_origin R)"
| stop: "interrupted R i s \<Longrightarrow> t \<in> set (snd (rewrap_step R nonces i s)) \<Longrightarrow> interrupted R i t"

definition rotation_startable :: "rotation \<Rightarrow> rewrap_input \<Rightarrow> bool" where
  "rotation_startable R i \<longleftrightarrow> rotation_origin R \<and> files_ready R i (rn_origin R)
     \<and> (case ps_state (rn_origin R) of
          None \<Rightarrow> (\<forall>name w. map_get (ps_keys (rn_origin R)) name = Some w \<longrightarrow> wk_version w = 1)
        | Some (Ready_State keyId check verified) \<Rightarrow>
            keyId = ri_fromKeyRef i \<and> check = keyCheck (rn_cipher R) (rn_old R) (ri_fromKeyRef i)
        | Some (Pending_State p) \<Rightarrow> False)"

lemma interrupted_live:
  assumes "interrupted R i s" "rotation_fits R" "rotation_input R i" "rotation_startable R i"
  shows "rotation_live R i (map fst (ps_keys (rn_origin R))) s"
  using assms(1)
proof induction
  case start
  show ?case using assms(4) origin_ok [of R] unfolding rotation_startable_def
    by (auto simp: rotation_live_def state_exact_def rotation_origin_def split: option.splits key_state.splits)
next
  case (stop s t nonces)
  with rewrap_step_live [OF assms(2,3) stop.IH, of nonces] show ?case by auto
qed

lemma rewrap_calls_live:
  assumes "rotation_fits R" "rotation_input R i" "rotation_live R i names s"
  shows "rotation_live R i names (rewrap_calls R nonces i n s)
    \<and> calls_left (rn_to R) names (ps_state (rewrap_calls R nonces i n s)) \<le> calls_left (rn_to R) names (ps_state s) - n"
  using assms(3)
proof (induction n arbitrary: s)
  case (Suc n)
  from rewrap_step_live [OF assms(1,2) Suc.prems, of "nonces n"] Suc.IH
  show ?case by fastforce
qed simp

lemma calls_left_bound: "calls_left to names st \<le> 2 * length names + 2"
proof (cases st)
  case (Some x)
  show ?thesis
  proof (cases x)
    case (Pending_State p)
    with Some names_left_le [of names "pd_after p"] show ?thesis by (simp add: calls_left_def)
  qed (simp add: Some calls_left_def)
qed (simp add: calls_left_def)

lemma calls_left_done: "calls_left to names st = 0 \<Longrightarrow> \<exists>check verified. st = Some (Ready_State to check verified)"
  by (auto simp: calls_left_def split: option.splits key_state.splits if_splits)

text \<open>C5. From every store that interrupted calls leave, at most two calls for each key and two more complete the rotation: the store is
  ready under the new key, and the count of verified keys is the number of keys.\<close>

theorem rotation_completes:
  assumes "rotation_fits R" "rotation_input R i" "rotation_startable R i" "interrupted R i s"
    and "2 * length (ps_keys (rn_origin R)) + 2 \<le> calls"
  shows "ps_state (rewrap_calls R nonces i calls s) =
    Some (Ready_State (rn_to R) (keyCheck (rn_cipher R) (rn_new R) (rn_to R)) (int (length (ps_keys (rn_origin R)))))"
proof -
  let ?names = "map fst (ps_keys (rn_origin R))" and ?t = "rewrap_calls R nonces i calls s"
  have t: "rotation_live R i ?names ?t" "calls_left (rn_to R) ?names (ps_state ?t) \<le> calls_left (rn_to R) ?names (ps_state s) - calls"
    using rewrap_calls_live [OF assms(1,2) interrupted_live [OF assms(4,1-3)], of nonces calls] by auto
  have "calls_left (rn_to R) ?names (ps_state ?t) = 0"
    using t(2) calls_left_bound [of "rn_to R" ?names "ps_state s"] assms(5) by simp
  then obtain check verified where "ps_state ?t = Some (Ready_State (rn_to R) check verified)" using calls_left_done by blast
  with t(1) show ?thesis by (simp add: rotation_live_def state_exact_def rotation_ok_def rotation_state_ok_def)
qed

section \<open>Round trip and purge\<close>

text \<open>
  The key identifiers that a reference can carry. A write makes its identifier of the identifiers of tenant, application and
  object, with other symbols replaced and none shortened, so an identifier with two consecutive dots or one that is too long
  is written all the same.
\<close>

definition addressable :: "string \<Rightarrow> bool" where
  "addressable keyId \<longleftrightarrow> length keyId \<le> 512 \<and> \<not> has_dots keyId"

lemma key_id_symbols: "list_all file_symbol suffix \<Longrightarrow> list_all file_symbol (payload_key_id scope suffix)"
proof -
  have "list_all file_symbol (safe_unit c)" for c by (auto simp: safe_unit_def Let_def file_symbol_def)
  then show "list_all file_symbol suffix \<Longrightarrow> ?thesis" by (auto simp: payload_key_id_def list_all_iff file_symbol_def)
qed

lemma reference_of_key:
  assumes "list_all file_symbol suffix"
  shows "referenceKeyId (''encrypted:'' @ payload_key_id scope suffix)
    = (if addressable (payload_key_id scope suffix) then Inr (payload_key_id scope suffix) else throw ''invalid payload reference'')"
  using key_id_symbols [OF assms, of scope]
  by (auto simp: referenceKeyId_def starts_with_def guardR_def payload_key_id_def addressable_def)

lemma payload_write_Inr:
  assumes "payload_write C key F rnd scope plaintext s = (Inr reference, ts)"
  obtains current w where "currentKey C key s = Inr current"
    and "wrap C (wr_keyNonce rnd) key current (payload_key_id scope (wr_suffix rnd)) (wr_dataKey rnd) = Inr w"
    and "reference = ''encrypted:'' @ payload_key_id scope (wr_suffix rnd)"
    and "final s ts = s\<lparr>ps_keys := map_set (entry_name (payload_key_id scope (wr_suffix rnd))) w (ps_keys s),
       ps_objects := map_set (entry_name (payload_key_id scope (wr_suffix rnd)))
         \<lparr> eo_key_id = payload_key_id scope (wr_suffix rnd), eo_tenant_id = sc_tenantId scope, eo_app_id = sc_appId scope,
           eo_sealed = encrypt_box C (wr_payloadNonce rnd) (wr_dataKey rnd) plaintext
             (object_aad (sc_tenantId scope) (sc_appId scope) (payload_key_id scope (wr_suffix rnd))) \<rparr> (ps_objects s)\<rparr>"
  using assms
  by (auto simp: payload_write_def bindIO_def catchIO_def pureIO_def getIO_def create_key_def create_object_def faulty_def writeIO_def Let_def
      throw_def split: sum.splits option.splits if_splits)

lemma payload_reads_back:
  assumes "cipher_ok C" "length (wr_dataKey rnd) = 32" "list_all file_symbol (wr_suffix rnd)"
    and "payload_write C key F rnd scope plaintext s = (Inr reference, ts)"
  shows "payload_read C key (final s ts) reference =
    (if addressable (payload_key_id scope (wr_suffix rnd)) then Inr plaintext else throw ''invalid payload reference'')"
proof -
  let ?id = "payload_key_id scope (wr_suffix rnd)"
  from payload_write_Inr [OF assms(4)] obtain current w where w: "currentKey C key s = Inr current"
      "wrap C (wr_keyNonce rnd) key current ?id (wr_dataKey rnd) = Inr w"
    and r: "reference = ''encrypted:'' @ ?id"
    and t: "final s ts = s\<lparr>ps_keys := map_set (entry_name ?id) w (ps_keys s), ps_objects := map_set (entry_name ?id)
       \<lparr> eo_key_id = ?id, eo_tenant_id = sc_tenantId scope, eo_app_id = sc_appId scope,
         eo_sealed = encrypt_box C (wr_payloadNonce rnd) (wr_dataKey rnd) plaintext (object_aad (sc_tenantId scope) (sc_appId scope) ?id) \<rparr>
       (ps_objects s)\<rparr>" by metis
  note ref = reference_of_key [OF assms(3), of scope]
  have "currentKey C key (final s ts) = Inr current" using w(1) by (simp add: t currentKey_def readKeyState_def)
  moreover have "case current of None \<Rightarrow> wk_version w = 1 | Some c \<Rightarrow> wk_version w = 2 \<and> wk_wrapping_key_id w = Some c"
    using w(2) by (auto simp: wrap_def Let_def bindR_eq_Inr split: option.splits)
  moreover have "unwrap C key ?id w = Inr (wr_dataKey rnd)" by (rule unwrap_wrap [OF assms(1) w(2) assms(2)])
  ultimately have "payload_read C key (final s ts) reference = Inr plaintext" if "addressable ?id"
    unfolding payload_read_def r ref using assms(1) that by (auto simp: t guardR_def encrypt_box_def decrypt_box_def cipher_ok_def)
  moreover have "payload_read C key (final s ts) reference = throw ''invalid payload reference''" if "\<not> addressable ?id"
    unfolding payload_read_def r ref using that by (simp add: throw_def)
  ultimately show ?thesis by simp
qed


text \<open>A purged payload is not found again, whatever the key.\<close>

theorem purged_not_found:
  assumes "payload_purge F reference s = (Inr u, ts)" "currentKey C key (final s ts) = Inr current"
  shows "payload_read C key (final s ts) reference = throw ''payload_not_found''"
proof -
  from assms(1) obtain keyId where k: "referenceKeyId reference = Inr keyId"
    "final s ts = s\<lparr>ps_objects := filter (\<lambda>e. fst e \<noteq> entry_name keyId) (ps_objects s), ps_keys := filter (\<lambda>e. fst e \<noteq> entry_name keyId) (ps_keys s)\<rparr>"
    by (auto simp: payload_purge_def bindIO_def pureIO_def remove_object_def remove_key_def faulty_def writeIO_def Let_def
        split: sum.splits option.splits if_splits)
  then show ?thesis using assms(2) by (simp add: payload_read_def map_get_remove)
qed


text \<open>An identifier of tenant, application or object with two consecutive dots is accepted by the write, but the reference it returns
  can be neither read nor purged.\<close>

theorem dotted_scope_unreadable:
  assumes "payload_write C key F rnd scope plaintext s = (Inr reference, ts)" "has_dots (payload_key_id scope (wr_suffix rnd))"
  shows "payload_read C key t reference = throw ''invalid payload reference''
    \<and> payload_purge F reference t = (throw ''invalid payload reference'', [])"
proof -
  from assms(1) have "reference = ''encrypted:'' @ payload_key_id scope (wr_suffix rnd)"
    by (auto simp: payload_write_def bindIO_def pureIO_def getIO_def Let_def split: sum.splits)
  with assms(2) have "referenceKeyId reference = throw ''invalid payload reference''"
    by (simp add: referenceKeyId_def starts_with_def guardR_def)
  then show ?thesis by (simp add: payload_read_def payload_purge_def bindIO_def pureIO_def throw_def)
qed

section \<open>A concrete rotation\<close>

text \<open>A cipher that keeps key, plaintext and associated data in the open is enough to show that the hypotheses can hold.\<close>

definition sample_cipher :: cipher where
  "sample_cipher = \<lparr> ci_encrypt = \<lambda>key nonce plaintext aad. (plaintext, key @ [CHR 0x00] @ aad),
     ci_decrypt = \<lambda>key nonce box aad. (if snd box = key @ [CHR 0x00] @ aad then Some (fst box) else None),
     ci_hmac = \<lambda>key text. replicate 64 (CHR ''a''), ci_sha = id \<rparr>"

definition sample_entry :: wrapped_key where
  "sample_entry = \<lparr> wk_version = 1, wk_wrapping_key_id = None,
     wk_sealed = encrypt_box sample_cipher ''n'' (replicate 32 (CHR ''o'')) (replicate 32 (CHR ''d'')) ''a.1'' \<rparr>"

definition sample_store :: payload_store where
  "sample_store = \<lparr> ps_objects = [(''a.1.json'', \<lparr> eo_key_id = ''a.1'', eo_tenant_id = ''t'', eo_app_id = ''p'',
       eo_sealed = encrypt_box sample_cipher ''m'' (replicate 32 (CHR ''d'')) ''hello'' (object_aad ''t'' ''p'' ''a.1'') \<rparr>)],
     ps_keys = [(''a.1.json'', sample_entry)], ps_state = None \<rparr>"

definition sample_input :: rewrap_input where
  "sample_input = \<lparr> ri_fromKeyRef = ''old'', ri_toKeyRef = ''new'', ri_targetSecret = replicate 32 (CHR ''t''), ri_limit = 1,
     ri_writersStopped = True \<rparr>"

definition sample_rotation :: rotation where
  "sample_rotation = \<lparr> rn_cipher = sample_cipher, rn_old = replicate 32 (CHR ''o''), rn_new = replicate 32 (CHR ''t''), rn_to = ''new'',
     rn_origin = sample_store \<rparr>"

lemma sample_cipher_ok: "cipher_ok sample_cipher"
proof -
  have "check_value (replicate 64 (CHR ''a''))" by code_simp
  then show ?thesis by (simp add: cipher_ok_def sample_cipher_def)
qed

lemma sample_key: "map_get (ps_keys sample_store) name = Some w \<longleftrightarrow> name = ''a.1.json'' \<and> w = sample_entry"
  by (auto simp: sample_store_def map_get_def)

lemma sample_unwrap: "unwrap sample_cipher (replicate 32 (CHR ''o'')) (entry_key ''a.1.json'') sample_entry = Inr (replicate 32 (CHR ''d''))"
  by code_simp

lemma sample_fits: "rotation_fits sample_rotation"
  using sample_cipher_ok by (simp add: rotation_fits_def sample_rotation_def sample_store_def MAX_SAFE_INTEGER_def)

lemma sample_input_ok: "rotation_input sample_rotation sample_input"
proof -
  have "rewrap_arguments_ok sample_input" by code_simp
  moreover have "replicate 32 (CHR ''t'') \<noteq> replicate 32 (CHR ''o'')" by code_simp
  ultimately show ?thesis by (simp add: rotation_input_def sample_input_def sample_rotation_def sample_cipher_def)
qed

lemma sample_startable: "rotation_startable sample_rotation sample_input"
proof -
  have "entry_name_ok ''a.1.json''" by code_simp
  moreover have "wk_version sample_entry = 1" "wk_wrapping_key_id sample_entry = None" by (simp_all add: sample_entry_def)
  moreover have "ps_state sample_store = None" "distinct (map fst (ps_keys sample_store))" "map_has (ps_objects sample_store) ''a.1.json''"
    by (simp_all add: sample_store_def map_has_def)
  ultimately show ?thesis using sample_unwrap
    by (auto simp: rotation_startable_def rotation_origin_def files_ready_def sample_rotation_def sample_key)
qed

lemma sample_origin: "rotation_origin sample_rotation"
  using sample_startable by (simp add: rotation_startable_def)

definition sample_done :: payload_store where
  "sample_done = rewrap_calls sample_rotation (\<lambda>n name. ''k'') sample_input 2 sample_store"

lemma rewrap_calls_reach:
  assumes "ri_toKeyRef i = rn_to R" "ci_sha (rn_cipher R) (ri_targetSecret i) = rn_new R"
  shows "rotation_reach R s \<Longrightarrow> rotation_reach R (rewrap_calls R nonces i n s)"
proof (induction n arbitrary: s)
  case (Suc n)
  have "rotation_reach R (final s (snd (rewrap_step R (nonces n) i s)))"
    using final_in [of s] Suc.prems rotation_reach.batch [OF Suc.prems assms] by (force simp: rewrap_step_def)
  with Suc.IH show ?case by simp
qed simp

lemma sample_reach: "rotation_reach sample_rotation sample_done"
proof -
  have "rotation_reach sample_rotation sample_store"
    using rotation_reach.origin [of sample_rotation] by (simp add: sample_rotation_def)
  then show ?thesis unfolding sample_done_def
    by (intro rewrap_calls_reach) (use sample_input_ok in \<open>auto simp: rotation_input_def\<close>)
qed

lemma sample_done_key: "\<exists>w. map_get (ps_keys sample_done) ''a.1.json'' = Some w"
proof -
  have "(case map_get (ps_keys sample_done) ''a.1.json'' of Some w \<Rightarrow> True | None \<Rightarrow> False)" by code_simp
  then show ?thesis by (auto split: option.splits)
qed

theorem keyPage_example: "keyPage [''b.json'', ''a.json'', ''c.json''] None 1 = Inr [''a.json'', ''b.json'']"
  by code_simp

theorem rotation_keeps_data_keys_witness:
  "\<exists>w d. map_get (ps_keys sample_done) ''a.1.json'' = Some w
    \<and> (unwrap sample_cipher (rn_old sample_rotation) ''a.1'' w = Inr d \<or> unwrap sample_cipher (rn_new sample_rotation) ''a.1'' w = Inr d)"
proof -
  obtain w where w: "map_get (ps_keys sample_done) ''a.1.json'' = Some w" using sample_done_key by blast
  have "entry_key ''a.1.json'' = ''a.1''" by code_simp
  with rotation_keeps_data_keys [OF sample_fits sample_origin sample_reach w] w show ?thesis
    by (auto simp: sample_rotation_def)
qed

theorem cutover_readable_witness:
  "payload_read sample_cipher (rn_new sample_rotation) sample_done ''encrypted:a.1'' = Inr ''hello''"
proof -
  have st: "(case ps_state sample_done of Some (Ready_State k c v) \<Rightarrow> k = ''new'' | _ \<Rightarrow> False)" by code_simp
  then obtain c v where "ps_state sample_done = Some (Ready_State (rn_to sample_rotation) c v)"
    by (auto simp: sample_rotation_def split: option.splits key_state.splits)
  moreover have "payload_read (rn_cipher sample_rotation) (rn_old sample_rotation) (rn_origin sample_rotation) ''encrypted:a.1'' = Inr ''hello''"
    by code_simp
  moreover have "map_has (ps_objects sample_done) (entry_name (drop 10 ''encrypted:a.1''))
      \<and> map_has (ps_keys sample_done) (entry_name (drop 10 ''encrypted:a.1''))" by code_simp
  ultimately show ?thesis
    using cutover_readable [OF sample_fits sample_origin sample_reach] by (simp add: sample_rotation_def)
qed

theorem rotation_completes_witness:
  "ps_state (rewrap_calls sample_rotation (\<lambda>n name. ''k'') sample_input 4 sample_store) =
    Some (Ready_State ''new'' (replicate 64 (CHR ''a'')) 1)"
proof -
  have "interrupted sample_rotation sample_input sample_store"
    using interrupted.start [of sample_rotation sample_input] by (simp add: sample_rotation_def)
  from rotation_completes [OF sample_fits sample_input_ok sample_startable this, of 4 "\<lambda>n name. ''k''"]
  show ?thesis by (simp add: sample_rotation_def sample_store_def keyCheck_def sample_cipher_def)
qed



theorem dotted_scope_unreadable_witness:
  "\<exists>reference ts. payload_write sample_cipher ''key'' (\<lambda>c. None) \<lparr> wr_suffix = ''9'', wr_dataKey = replicate 32 (CHR ''e''), wr_payloadNonce = ''p'',
      wr_keyNonce = ''q'' \<rparr> \<lparr> sc_tenantId = ''t..u'', sc_appId = ''a'', sc_objectId = ''o'' \<rparr> ''body'' sample_store = (Inr reference, ts)
    \<and> key_ref ''t..u'' \<and> payload_read sample_cipher ''key'' (final sample_store ts) reference = throw ''invalid payload reference''"
proof -
  let ?rnd = "\<lparr> wr_suffix = ''9'', wr_dataKey = replicate 32 (CHR ''e''), wr_payloadNonce = ''p'', wr_keyNonce = ''q'' \<rparr>"
  let ?scope = "\<lparr> sc_tenantId = ''t..u'', sc_appId = ''a'', sc_objectId = ''o'' \<rparr>"
  have "case payload_write sample_cipher ''key'' (\<lambda>c. None) ?rnd ?scope ''body'' sample_store of (Inr r, ts) \<Rightarrow> True | _ \<Rightarrow> False" by code_simp
  then obtain reference ts where w: "payload_write sample_cipher ''key'' (\<lambda>c. None) ?rnd ?scope ''body'' sample_store = (Inr reference, ts)"
    by (auto split: prod.splits sum.splits)
  have "has_dots (payload_key_id ?scope ''9'')" "key_ref ''t..u''" by code_simp+
  with dotted_scope_unreadable [OF w] w show ?thesis by simp
qed

end
