(* ===== verification/Durable_Inbox.thy ===== *)
theory Durable_Inbox
  imports Payload_Store Json Composite_Key "HOL-Library.Word"
begin

unbundle bit_operations_syntax

text \<open>
  \<open>apps/runtime/src/ingest-batch.ts\<close>, \<open>inbox-admission.ts\<close>, \<open>measurement-diagnostics.ts\<close> and the parts of
  \<open>index.ts\<close> and \<open>privacy-fence.ts\<close> they call: identifiers ordered by time, capacity admission, the closed
  diagnostic classes, the tenant transaction and the append of a batch whose body goes to the payload
  store. The state is the payload store and the rows of the database; every call to the database may
  fail, and a failed commit may have been applied. What the database decides from other tables (capacity,
  privacy, credentials) is an argument.
\<close>

section \<open>Identifiers\<close>

fun time_loop :: "nat \<Rightarrow> int \<Rightarrow> 8 word list \<Rightarrow> 8 word list" where
  "time_loop 0 v bytes = bytes"
| "time_loop (Suc index) v bytes = time_loop index (drop_bit 8 v) (bytes[index := word_of_int (v AND 255)])"

definition uuid_bytes :: "int \<Rightarrow> 8 word list \<Rightarrow> 8 word list" where
  "uuid_bytes now random =
     (let bytes = time_loop 6 now random; versioned = bytes[6 := (bytes ! 6 AND 15) OR 112]
      in versioned[8 := (versioned ! 8 AND 63) OR 128])"

definition hex_byte :: "8 word \<Rightarrow> string" where
  "hex_byte w = [hex_digit (unat w div 16), hex_digit (unat w mod 16)]"

definition uuidV7 :: "int \<Rightarrow> 8 word list \<Rightarrow> string" where
  "uuidV7 now random =
     (let hex = concat (map hex_byte (uuid_bytes now random)) in
      take 8 hex @ ''-'' @ take 4 (drop 8 hex) @ ''-'' @ take 4 (drop 12 hex) @ ''-'' @ take 4 (drop 16 hex) @ ''-'' @ drop 20 hex)"

definition identifier_ok :: "string \<Rightarrow> bool" where
  "identifier_ok s \<longleftrightarrow> 1 \<le> length s \<and> length s \<le> 128 \<and> list_all (\<lambda>c. file_symbol c \<or> c = CHR '':'') s"

section \<open>Diagnostic classes\<close>

definition MEASUREMENT_PRODUCERS :: "string list" where
  "MEASUREMENT_PRODUCERS = [''sdk-android'', ''sdk-ios'', ''other'']"

definition MEASUREMENT_EVENTS :: "string list" where
  "MEASUREMENT_EVENTS = [''click'', ''install'', ''session_start'', ''ad_impression'', ''ad_view'', ''ad_revenue'', ''purchase'', ''refund'',
     ''consent_changed'', ''custom_event'', ''skan_postback'', ''adattributionkit_postback'', ''deep_link_open'', ''other'']"

definition MEASUREMENT_SDK_VERSIONS :: "string list" where
  "MEASUREMENT_SDK_VERSIONS = [''0.1.0'', ''0.2.0-rc.1'', ''0.2.0-rc.2'', ''0.2.0-rc.3'', ''0.2.0-rc.4'', ''0.2.0'', ''0.3.0-rc.1'', ''0.3.0-rc.2'',
     ''0.3.0-rc.3'', ''other'']"

record measurement_classes =
  me_producer :: string
  me_event_name :: string
  me_producer_version :: string

definition closed_text :: "json option \<Rightarrow> string list \<Rightarrow> string" where
  "closed_text v allowed = (case v of Some (JStr s) \<Rightarrow> if s \<in> set allowed then s else ''other'' | _ \<Rightarrow> ''other'')"

definition measurementClasses :: "json_object \<Rightarrow> string option \<Rightarrow> measurement_classes" where
  "measurementClasses header trustedProducer =
     (let producer = closed_text (case trustedProducer of Some p \<Rightarrow> Some (JStr p) | None \<Rightarrow> member header ''producer'') MEASUREMENT_PRODUCERS in
      \<lparr> me_producer = producer, me_event_name = closed_text (member header ''event_name'') MEASUREMENT_EVENTS,
        me_producer_version = (if producer = ''other'' then ''other''
          else closed_text (member header ''producer_version'') MEASUREMENT_SDK_VERSIONS) \<rparr>)"

definition classes_key :: "measurement_classes \<Rightarrow> string" where
  "classes_key m = ''{'' @ json_string ''producer'' @ '':'' @ json_string (me_producer m) @ '','' @ json_string ''event_name'' @ '':''
     @ json_string (me_event_name m) @ '','' @ json_string ''producer_version'' @ '':'' @ json_string (me_producer_version m) @ ''}''"

definition header_of :: "json \<Rightarrow> json_object" where
  "header_of v = (case v of JObj ms \<Rightarrow> ms | _ \<Rightarrow> [])"

definition count_classes :: "string \<Rightarrow> (string, measurement_classes \<times> int) jsmap \<Rightarrow> json \<Rightarrow> (string, measurement_classes \<times> int) jsmap" where
  "count_classes producer groups r =
     (let classes = measurementClasses (header_of r) (Some producer); key = classes_key classes in
      map_set key (case map_get groups key of Some (c, n) \<Rightarrow> (c, n + 1) | None \<Rightarrow> (classes, 1)) groups)"

definition submitted_records :: "(string \<Rightarrow> json option) \<Rightarrow> string \<Rightarrow> int \<Rightarrow> json list option" where
  "submitted_records parse body eventCount =
     (case parse body of
        Some (JObj ms) \<Rightarrow> (case member ms ''records'' of Some (JArr rs) \<Rightarrow> if int (length rs) = eventCount then Some rs else None | _ \<Rightarrow> None)
      | _ \<Rightarrow> None)"

definition batchDiagnosticGroups :: "(string \<Rightarrow> json option) \<Rightarrow> string \<Rightarrow> string \<Rightarrow> int \<Rightarrow> (measurement_classes \<times> int) list" where
  "batchDiagnosticGroups parse producer body eventCount =
     (case submitted_records parse body eventCount of
        None \<Rightarrow> [(measurementClasses [] (Some producer), eventCount)]
      | Some rs \<Rightarrow> map snd (sort_key fst (foldl (count_classes producer) [] rs)))"

section \<open>Capacity admission\<close>

datatype capacity_reason = App_Capacity | Global_Capacity | Capacity_Unknown

record capacity_error =
  ce_reason :: capacity_reason
  ce_retryAfterSeconds :: rat

definition capacity_status :: "capacity_error \<Rightarrow> int" where
  "capacity_status e = (if ce_reason e = App_Capacity then 429 else 503)"

text \<open>The six numbers of a policy; \<open>None\<close> is a value that is no finite number.\<close>

record admission_policy =
  ap_appCount :: "rat option"
  ap_appBytes :: "rat option"
  ap_globalCount :: "rat option"
  ap_globalBytes :: "rat option"
  ap_resumePercent :: "rat option"
  ap_retryAfterSeconds :: "rat option"

definition positive_safe :: "rat option \<Rightarrow> bool" where
  "positive_safe v \<longleftrightarrow> (case v of None \<Rightarrow> False | Some q \<Rightarrow> of_int \<lfloor>q\<rfloor> = q \<and> q \<le> of_int MAX_SAFE_INTEGER \<and> 1 \<le> q)"

definition validateInboxAdmissionPolicy :: "admission_policy \<Rightarrow> admission_policy res" where
  "validateInboxAdmissionPolicy p =
     guardR (list_all positive_safe [ap_appCount p, ap_appBytes p, ap_globalCount p, ap_globalBytes p, ap_resumePercent p, ap_retryAfterSeconds p]
       \<and> the_or 0 (ap_resumePercent p) \<le> 99 \<and> the_or 0 (ap_retryAfterSeconds p) \<le> 3600) ''inbox_admission_configuration_invalid'' (Inr p)"

definition readInboxAdmissionPolicy :: "(string \<Rightarrow> string option) \<Rightarrow> admission_policy option res" where
  "readInboxAdmissionPolicy env =
     (let enabled = the_or ''off'' (env ''OPENMASU_INBOX_ADMISSION_ENABLED'');
          number = \<lambda>name default. js_number (the_or default (env name)) in
      if enabled = ''off'' then Inr None
      else guardR (enabled = ''on'') ''inbox_admission_configuration_invalid''
        (bindR (validateInboxAdmissionPolicy
           \<lparr> ap_appCount = number ''OPENMASU_INBOX_APP_MAX_BATCHES'' ''10000'',
             ap_appBytes = number ''OPENMASU_INBOX_APP_MAX_BYTES'' ''268435456'',
             ap_globalCount = number ''OPENMASU_INBOX_GLOBAL_MAX_BATCHES'' ''100000'',
             ap_globalBytes = number ''OPENMASU_INBOX_GLOBAL_MAX_BYTES'' ''2147483648'',
             ap_resumePercent = number ''OPENMASU_INBOX_RESUME_PERCENT'' ''80'',
             ap_retryAfterSeconds = number ''OPENMASU_INBOX_RETRY_AFTER_SECONDS'' ''30'' \<rparr>) (\<lambda>p. Inr (Some p))))"

section \<open>Transactions\<close>

record durable_batch_input =
  di_tenantId :: string
  di_appId :: string
  di_producer :: string
  di_body :: string
  di_eventCount :: int
  di_receivedAt :: string
  di_sdkKeyId :: "string option"
  di_installationKeyId :: "string option"
  di_serverKeyId :: "string option"
  di_subjectDigest :: "string option"
  di_requestNonce :: "string option"
  di_requestTimestampMs :: "int option"

record inbox_batch =
  ba_id :: string
  ba_input :: durable_batch_input
  ba_body_ref :: "string option"
  ba_body_digest :: string
  ba_artifact :: json_object
  ba_diagnostic_groups :: "(measurement_classes \<times> int) list"

record inbox_db =
  db_apps :: "(string \<times> string) list"
  db_batches :: "inbox_batch list"
  db_pending :: "(string \<times> string) list"
  db_receipts :: "(string \<times> string) list"

record inbox =
  ix_payloads :: payload_store
  ix_db :: inbox_db

datatype inbox_call = Connection | Begin_Tx | Tenant_Setting | Privacy_Fence | Privacy_Query | Credential_Query | Admission_Query
  | App_Insert | Batch_Insert | State_Insert | Commit_Tx | Rollback_Tx

record projection_scope =
  pc_entryId :: string
  pc_tenantId :: string
  pc_appId :: string
  pc_subjectDigest :: "string option"
  pc_receivedAt :: string

record inbox_host =
  ih_fault :: "inbox_call \<Rightarrow> js_error option"
  ih_commit_applied :: bool
  ih_file_faults :: file_faults
  ih_cipher :: cipher
  ih_wrappingKey :: string
  ih_random :: write_randomness
  ih_uuid_random :: "8 word list"
  ih_instant :: "string \<Rightarrow> int option"
  ih_json :: "string \<Rightarrow> json option"
  ih_blocked :: "projection_scope \<Rightarrow> bool"
  ih_credentials :: "string \<Rightarrow> string \<Rightarrow> string \<Rightarrow> string \<Rightarrow> nat"
  ih_decision :: "string option"

text \<open>Inside a transaction: the payload store, the rows as the transaction sees them, and the variable \<open>bodyRef\<close>.\<close>

record tx_state =
  tx_payloads :: payload_store
  tx_db :: inbox_db
  tx_ref :: "string option"

type_synonym 'a tx = "tx_state \<Rightarrow> 'a res \<times> tx_state"

definition pureT :: "'a res \<Rightarrow> 'a tx" where
  "pureT r t = (r, t)"

definition bindT :: "'a tx \<Rightarrow> ('a \<Rightarrow> 'b tx) \<Rightarrow> 'b tx" where
  "bindT m k t = (case m t of (Inl e, u) \<Rightarrow> (Inl e, u) | (Inr x, u) \<Rightarrow> k x u)"

definition callT :: "inbox_host \<Rightarrow> inbox_call \<Rightarrow> 'a tx \<Rightarrow> 'a tx" where
  "callT H call m = (case ih_fault H call of Some e \<Rightarrow> pureT (Inl e) | None \<Rightarrow> m)"

definition modifyT :: "(inbox_db \<Rightarrow> inbox_db) \<Rightarrow> unit tx" where
  "modifyT f t = (Inr (), t\<lparr>tx_db := f (tx_db t)\<rparr>)"

definition assertIdentifier :: "string \<Rightarrow> string \<Rightarrow> unit res" where
  "assertIdentifier name v = guardR (identifier_ok v) (''invalid '' @ name @ '': '' @ v) (Inr ())"

text \<open>A failed commit leaves the old rows or the new ones; a failed rollback replaces the error.\<close>

definition rolled_back :: "inbox_host \<Rightarrow> js_error \<Rightarrow> js_error" where
  "rolled_back H e = the_or e (ih_fault H Rollback_Tx)"

definition withTenant :: "inbox_host \<Rightarrow> string \<Rightarrow> 'a tx \<Rightarrow> 'a tx" where
  "withTenant H tenantId callback t =
     (if \<not> identifier_ok tenantId then (throw (''invalid tenant identifier: '' @ tenantId), t)
      else case ih_fault H Connection of
        Some e \<Rightarrow> (Inl e, t)
      | None \<Rightarrow>
          (case callT H Begin_Tx (callT H Tenant_Setting callback) t of
             (Inl e, u) \<Rightarrow> (Inl (rolled_back H e), u\<lparr>tx_db := tx_db t\<rparr>)
           | (Inr x, u) \<Rightarrow>
               (case ih_fault H Commit_Tx of
                  None \<Rightarrow> (Inr x, u)
                | Some e \<Rightarrow> (Inl (rolled_back H e), if ih_commit_applied H then u else u\<lparr>tx_db := tx_db t\<rparr>))))"

definition acquirePrivacyTenantXactFence :: "inbox_host \<Rightarrow> string \<Rightarrow> unit tx" where
  "acquirePrivacyTenantXactFence H tenantId =
     bindT (pureT (assertIdentifier ''privacy fence tenant identifier'' tenantId)) (\<lambda>_. callT H Privacy_Fence (pureT (Inr ())))"

definition validateProjectionScope :: "inbox_host \<Rightarrow> projection_scope \<Rightarrow> unit res" where
  "validateProjectionScope H p =
     bindR (assertIdentifier ''privacy fence entry identifier'' (pc_entryId p)) (\<lambda>_.
     bindR (assertIdentifier ''privacy fence tenant identifier'' (pc_tenantId p)) (\<lambda>_.
     bindR (assertIdentifier ''privacy fence app identifier'' (pc_appId p)) (\<lambda>_.
     guardR (truthy (pc_subjectDigest p) \<longrightarrow> check_value (the_or [] (pc_subjectDigest p))) ''privacy fence subject digest is invalid''
     (guardR (ih_instant H (pc_receivedAt p) \<noteq> None) ''privacy fence received timestamp is invalid'' (Inr ())))))"

definition privacyProjectionIsBlocked :: "inbox_host \<Rightarrow> projection_scope \<Rightarrow> bool tx" where
  "privacyProjectionIsBlocked H p =
     bindT (pureT (validateProjectionScope H p)) (\<lambda>_. callT H Privacy_Query (pureT (Inr (ih_blocked H p))))"

definition admitInboxBatch :: "inbox_host \<Rightarrow> admission_policy \<Rightarrow> capacity_error option tx" where
  "admitInboxBatch H policy =
     bindT (pureT (validateInboxAdmissionPolicy policy)) (\<lambda>_.
     callT H Admission_Query (pureT
       (let refusal = \<lambda>reason. Inr (Some \<lparr> ce_reason = reason, ce_retryAfterSeconds = the_or 0 (ap_retryAfterSeconds policy) \<rparr>) in
        if ih_decision H = Some ''accepted'' then Inr None
        else if ih_decision H = Some ''inbox_app_capacity'' then refusal App_Capacity
        else if ih_decision H = Some ''inbox_global_capacity'' then refusal Global_Capacity
        else if ih_decision H = Some ''inbox_capacity_unknown'' then refusal Capacity_Unknown
        else throw ''inbox_admission_decision_invalid'')))"

section \<open>Appending a batch\<close>

definition write_body :: "inbox_host \<Rightarrow> durable_batch_input \<Rightarrow> string \<Rightarrow> unit tx" where
  "write_body H i batchId t =
     (let r = payload_write (ih_cipher H) (ih_wrappingKey H) (ih_file_faults H) (ih_random H)
          \<lparr> sc_tenantId = di_tenantId i, sc_appId = di_appId i, sc_objectId = ''ingest-batch-'' @ batchId \<rparr> (di_body i) (tx_payloads t);
          u = t\<lparr>tx_payloads := final (tx_payloads t) (snd r)\<rparr> in
      case fst r of Inl e \<Rightarrow> (Inl e, u) | Inr reference \<Rightarrow> (Inr (), u\<lparr>tx_ref := Some reference\<rparr>))"

definition artifact_member :: "string \<Rightarrow> string option \<Rightarrow> json_object" where
  "artifact_member name v = (if truthy v then [(name, JStr (the_or [] v))] else [])"

definition batch_artifact :: "durable_batch_input \<Rightarrow> string \<Rightarrow> string \<Rightarrow> json_object" where
  "batch_artifact i batchId bodyDigest =
     [(''ingest_batch_id'', JStr batchId), (''tenant_id'', JStr (di_tenantId i)), (''app_id'', JStr (di_appId i)), (''producer'', JStr (di_producer i)),
      (''received_at'', JStr (di_receivedAt i)), (''body_digest'', JStr bodyDigest), (''event_count'', JNum (of_int (di_eventCount i)))]
     @ artifact_member ''sdk_key_id'' (di_sdkKeyId i) @ artifact_member ''installation_key_id'' (di_installationKeyId i)
     @ artifact_member ''server_key_id'' (di_serverKeyId i) @ artifact_member ''subject_digest'' (di_subjectDigest i)"

definition inbox_batch_of :: "inbox_host \<Rightarrow> durable_batch_input \<Rightarrow> string \<Rightarrow> string option \<Rightarrow> inbox_batch" where
  "inbox_batch_of H i batchId reference =
     (let bodyDigest = ci_sha (ih_cipher H) (di_body i) in
      \<lparr> ba_id = batchId, ba_input = i, ba_body_ref = reference, ba_body_digest = bodyDigest, ba_artifact = batch_artifact i batchId bodyDigest,
        ba_diagnostic_groups = batchDiagnosticGroups (ih_json H) (di_producer i) (di_body i) (di_eventCount i) \<rparr>)"

definition insert_batch :: "inbox_host \<Rightarrow> durable_batch_input \<Rightarrow> string \<Rightarrow> unit tx" where
  "insert_batch H i batchId t =
     (if batchId \<in> ba_id ` set (db_batches (tx_db t)) then (throw ''duplicate key value violates unique constraint'', t)
      else modifyT (\<lambda>db. db\<lparr>db_batches := db_batches db @ [inbox_batch_of H i batchId (tx_ref t)]\<rparr>) t)"

type_synonym receipt_callback = "string \<Rightarrow> (string \<times> string) list \<Rightarrow> (string \<times> string) list res"

definition run_callback :: "receipt_callback option \<Rightarrow> string \<Rightarrow> unit tx" where
  "run_callback callback batchId t =
     (case callback of
        None \<Rightarrow> (Inr (), t)
      | Some f \<Rightarrow> (case f batchId (db_receipts (tx_db t)) of
          Inl e \<Rightarrow> (Inl e, t) | Inr receipts \<Rightarrow> modifyT (\<lambda>db. db\<lparr>db_receipts := receipts\<rparr>) t))"

definition insert_rows :: "inbox_host \<Rightarrow> receipt_callback option \<Rightarrow> durable_batch_input \<Rightarrow> string \<Rightarrow> unit tx" where
  "insert_rows H callback i batchId =
     bindT (callT H App_Insert (modifyT (\<lambda>db. db\<lparr>db_apps := set_add (di_tenantId i, di_appId i) (db_apps db)\<rparr>))) (\<lambda>_.
     bindT (callT H Batch_Insert (insert_batch H i batchId)) (\<lambda>_.
     bindT (callT H State_Insert (modifyT (\<lambda>db. db\<lparr>db_pending := db_pending db @ [(batchId, di_receivedAt i)]\<rparr>))) (\<lambda>_.
     run_callback callback batchId)))"

definition check_credential :: "inbox_host \<Rightarrow> durable_batch_input \<Rightarrow> unit tx" where
  "check_credential H i =
     (if truthy (di_installationKeyId i) \<and> truthy (di_subjectDigest i) then
        callT H Credential_Query (pureT (guardR (ih_credentials H (di_tenantId i) (di_appId i) (the_or [] (di_installationKeyId i))
          (the_or [] (di_subjectDigest i)) = 1) ''installation_credential_inactive'' (Inr ())))
      else pureT (Inr ()))"

definition append_transaction :: "inbox_host \<Rightarrow> admission_policy option \<Rightarrow> receipt_callback option \<Rightarrow> durable_batch_input \<Rightarrow> string \<Rightarrow>
    capacity_error option tx" where
  "append_transaction H policy callback i batchId =
     bindT (acquirePrivacyTenantXactFence H (di_tenantId i)) (\<lambda>_.
     bindT (privacyProjectionIsBlocked H \<lparr> pc_entryId = batchId, pc_tenantId = di_tenantId i, pc_appId = di_appId i,
         pc_subjectDigest = di_subjectDigest i, pc_receivedAt = di_receivedAt i \<rparr>) (\<lambda>blocked.
     bindT (pureT (guardR (\<not> blocked) (if truthy (di_subjectDigest i) then ''privacy_subject_inactive'' else ''privacy_scope_inactive'')
       (Inr ()))) (\<lambda>_.
     bindT (check_credential H i) (\<lambda>_.
     case policy of
       None \<Rightarrow> bindT (insert_rows H callback i batchId) (\<lambda>_. pureT (Inr None))
     | Some p \<Rightarrow> bindT (admitInboxBatch H p) (\<lambda>denied.
         case denied of
           Some e \<Rightarrow> pureT (Inr (Some e))
         | None \<Rightarrow> bindT (write_body H i batchId) (\<lambda>_. bindT (insert_rows H callback i batchId) (\<lambda>_. pureT (Inr None))))))))"

datatype append_error = Capacity_Error capacity_error | Plain_Error js_error

text \<open>The \<open>catch\<close> clause: the body that was written is purged, and an error of the purge replaces the first one.\<close>

definition discard_body :: "inbox_host \<Rightarrow> append_error \<Rightarrow> tx_state \<Rightarrow> (append_error + string) \<times> inbox" where
  "discard_body H e t =
     (case tx_ref t of
        None \<Rightarrow> (Inl e, \<lparr> ix_payloads = tx_payloads t, ix_db = tx_db t \<rparr>)
      | Some reference \<Rightarrow>
          (let r = payload_purge (ih_file_faults H) reference (tx_payloads t) in
           (Inl (case fst r of Inl e' \<Rightarrow> Plain_Error e' | Inr u \<Rightarrow> e), \<lparr> ix_payloads = final (tx_payloads t) (snd r), ix_db = tx_db t \<rparr>)))"

definition appendDurableBatch :: "inbox_host \<Rightarrow> admission_policy option \<Rightarrow> receipt_callback option \<Rightarrow> durable_batch_input \<Rightarrow> inbox \<Rightarrow>
    (append_error + string) \<times> inbox" where
  "appendDurableBatch H policy callback i s =
     (if di_eventCount i < 1 \<or> 100 < di_eventCount i then (Inl (Plain_Error (Error_Msg ''event_count_out_of_range'')), s)
      else case ih_instant H (di_receivedAt i) of
        None \<Rightarrow> (Inl (Plain_Error (Error_Msg ''RangeError'')), s)
      | Some ms \<Rightarrow>
          (let batchId = uuidV7 ms (ih_uuid_random H);
               start = \<lparr> tx_payloads = ix_payloads s, tx_db = ix_db s, tx_ref = None \<rparr> in
           case (if policy = None then write_body H i batchId start else (Inr (), start)) of
             (Inl e, t) \<Rightarrow> (Inl (Plain_Error e), \<lparr> ix_payloads = tx_payloads t, ix_db = tx_db t \<rparr>)
           | (Inr u, t) \<Rightarrow>
               (case withTenant H (di_tenantId i) (append_transaction H policy callback i batchId) t of
                  (Inl e, t') \<Rightarrow> discard_body H (Plain_Error e) t'
                | (Inr (Some e), t') \<Rightarrow> discard_body H (Capacity_Error e) t'
                | (Inr None, t') \<Rightarrow> (Inr batchId, \<lparr> ix_payloads = tx_payloads t', ix_db = tx_db t' \<rparr>))))"

section \<open>Identifiers sort by time\<close>

fun hexs :: "nat \<Rightarrow> int \<Rightarrow> string" where
  "hexs 0 v = []"
| "hexs (Suc k) v = hex_digit (nat (v div 16 ^ k mod 16)) # hexs k v"

lemma hex_digit_mono:
  assumes "a < b" "b < 16"
  shows "hex_digit a < hex_digit b"
proof -
  have "list_all (\<lambda>b. list_all (\<lambda>a. hex_digit a < hex_digit b) [0..<b]) [0..<16]" by code_simp
  with assms show ?thesis by (simp add: list_all_iff)
qed

lemma hexs_less: "a mod 16 ^ k < b mod 16 ^ k \<Longrightarrow> hexs k a < hexs k b"
proof (induction k)
  case (Suc k)
  let ?d = "\<lambda>v. v div 16 ^ k mod 16 :: int"
  have split: "v mod 16 ^ Suc k = 16 ^ k * ?d v + v mod 16 ^ k" for v :: int
    using zmod_zmult2_eq [of 16 v "16 ^ k"] by (simp add: mult.commute)
  have range: "0 \<le> ?d v" "?d v < 16" "0 \<le> v mod 16 ^ k" "v mod 16 ^ k < 16 ^ k" for v :: int by simp_all
  consider "?d a < ?d b" | "?d a = ?d b" | "?d b + 1 \<le> ?d a" by linarith
  then show ?case
  proof cases
    case 1
    then have "hex_digit (nat (?d a)) < hex_digit (nat (?d b))"
      using range [of a] range [of b] by (intro hex_digit_mono) auto
    then show ?thesis by simp
  next
    case 2
    with Suc.prems have "a mod 16 ^ k < b mod 16 ^ k" unfolding split by simp
    with Suc.IH 2 show ?thesis by simp
  next
    case 3
    then have "16 ^ k * (?d b + 1) \<le> 16 ^ k * ?d a" by (intro mult_left_mono) auto
    then have "16 ^ k * ?d b + 16 ^ k \<le> 16 ^ k * ?d a" by (simp only: distrib_left mult_1_right)
    moreover have "16 ^ k * ?d a + a mod 16 ^ k < 16 ^ k * ?d b + b mod 16 ^ k" using Suc.prems unfolding split .
    ultimately have False using range(3) [of a] range(4) [of b] by linarith
    then show ?thesis ..
  qed
qed simp

lemma less_insert: "length xs = length ys \<Longrightarrow> (xs :: string) < ys \<Longrightarrow> take n xs @ c # drop n xs @ u < take n ys @ c # drop n ys @ v"
proof (induction n arbitrary: xs ys)
  case 0
  then show ?case
  proof (induction xs arbitrary: ys)
    case (Cons x xs)
    then show ?case by (cases ys) auto
  qed simp
next
  case (Suc n)
  then show ?case by (cases xs; cases ys) auto
qed

lemma byte_and: "unat (word_of_int (v AND 255) :: 8 word) = nat (v mod 256)"
proof -
  have "v AND 255 = take_bit 8 v" by (simp add: take_bit_eq_mask mask_eq_exp_minus_1)
  then show ?thesis by (simp add: unat_eq_nat_uint uint_word_of_int take_bit_eq_mod)
qed

lemma hex_byte_time: "hex_byte (word_of_int (v AND 255)) = [hex_digit (nat (v div 16 mod 16)), hex_digit (nat (v mod 16))]"
proof -
  have "v mod 256 = 16 * (v div 16 mod 16) + v mod 16" using zmod_zmult2_eq [of 16 v 16] by simp
  then have "v mod 256 div 16 = v div 16 mod 16" "v mod 256 mod 16 = v mod 16" by simp_all
  then have "nat (v mod 256) div 16 = nat (v div 16 mod 16)" "nat (v mod 256) mod 16 = nat (v mod 16)"
    by (metis nat_div_distrib nat_numeral pos_mod_sign zero_less_numeral, metis nat_mod_distrib nat_numeral pos_mod_sign zero_less_numeral zero_le_numeral)
  then show ?thesis by (simp add: hex_byte_def byte_and)
qed

text \<open>The six bytes of the time, the most significant first.\<close>

lemma uuid_hex:
  assumes "length random = 16"
  shows "\<exists>rest. concat (map hex_byte (uuid_bytes now random)) = hexs 12 now @ rest \<and> length rest = 20"
proof -
  obtain b0 b1 b2 b3 b4 b5 b6 b7 b8 b9 b10 b11 b12 b13 b14 b15 where "random = [b0, b1, b2, b3, b4, b5, b6, b7, b8, b9, b10, b11, b12, b13, b14, b15]"
    using assms by (auto simp: length_Suc_conv eval_nat_numeral)
  then have bytes: "uuid_bytes now random = map (\<lambda>j. word_of_int (drop_bit (8 * j) now AND 255)) [5, 4, 3, 2, 1, 0]
      @ [(b6 AND 15) OR 112, b7, (b8 AND 63) OR 128, b9, b10, b11, b12, b13, b14, b15]"
    by (simp add: uuid_bytes_def eval_nat_numeral drop_bit_drop_bit)
  have time: "concat (map hex_byte (map (\<lambda>j. word_of_int (drop_bit (8 * j) now AND 255)) [5, 4, 3, 2, 1, 0])) = hexs 12 now"
    by (simp add: hex_byte_time drop_bit_eq_div eval_nat_numeral flip: zdiv_zmult2_eq)
  show ?thesis unfolding bytes map_append concat_append time by (rule exI, rule conjI, rule refl) (simp add: hex_byte_def)
qed

text \<open>Batch identifiers sort by the time of their receipt: an earlier instant gives a smaller identifier, whatever the random bytes.\<close>

theorem uuid_ordered:
  assumes "0 \<le> a" "a < b" "b < 2 ^ 48" "length r = 16" "length q = 16"
  shows "uuidV7 a r < uuidV7 b q"
proof -
  obtain u where u: "concat (map hex_byte (uuid_bytes a r)) = hexs 12 a @ u" using uuid_hex [OF assms(4)] by blast
  obtain v where v: "concat (map hex_byte (uuid_bytes b q)) = hexs 12 b @ v" using uuid_hex [OF assms(5)] by blast
  have len: "length (hexs k n) = k" for k n by (induction k) simp_all
  have "a mod 16 ^ 12 < b mod 16 ^ 12" using assms(1-3) by simp
  then have "hexs 12 a < hexs 12 b" by (rule hexs_less)
  from less_insert [OF _ this, of 8 "CHR ''-''"] show ?thesis unfolding uuidV7_def u v Let_def by (simp add: len)
qed

theorem uuid_ordered_witness: "uuidV7 1 (replicate 16 255) < uuidV7 2 (replicate 16 0)"
  by (rule uuid_ordered) simp_all

theorem uuid_example:
  "uuidV7 1700000000000 (replicate 16 255) = ''018bcfe5-6800-7fff-bfff-ffffffffffff''"
  by code_simp

section \<open>Diagnostics keep to the closed vocabularies\<close>

definition classes_closed :: "measurement_classes \<Rightarrow> bool" where
  "classes_closed m \<longleftrightarrow> me_producer m \<in> set MEASUREMENT_PRODUCERS \<and> me_event_name m \<in> set MEASUREMENT_EVENTS
     \<and> me_producer_version m \<in> set MEASUREMENT_SDK_VERSIONS"

definition groups_ok :: "(string, measurement_classes \<times> int) jsmap \<Rightarrow> int \<Rightarrow> bool" where
  "groups_ok groups total_events \<longleftrightarrow> distinct (map fst groups) \<and> (\<forall>(k, c, n) \<in> set groups. k = classes_key c \<and> classes_closed c \<and> 1 \<le> n)
     \<and> sum_list (map (snd \<circ> snd) groups) = total_events"

lemma closed_text_in: "''other'' \<in> set allowed \<Longrightarrow> closed_text v allowed \<in> set allowed"
  by (simp add: closed_text_def split: option.splits json.splits)

lemma measurement_classes_closed: "classes_closed (measurementClasses header trusted)"
  by (auto simp: classes_closed_def measurementClasses_def Let_def intro!: closed_text_in)
    (simp_all add: MEASUREMENT_PRODUCERS_def MEASUREMENT_EVENTS_def MEASUREMENT_SDK_VERSIONS_def)

lemma map_set_sum:
  fixes m :: "(string, 'c \<times> int) jsmap"
  assumes "distinct (map fst m)"
  shows "sum_list (map (snd \<circ> snd) (map_set k v m)) =
    sum_list (map (snd \<circ> snd) m) - (case map_get m k of None \<Rightarrow> 0 | Some w \<Rightarrow> snd w) + snd v"
  using assms by (induction m) (auto simp: map_set_def map_get_def)

lemma map_set_cases: "e \<in> set (map_set k v m) \<Longrightarrow> e = (k, v) \<or> e \<in> set m"
  unfolding map_set_def by (induction m) (auto split: if_splits)

lemma count_classes_ok:
  assumes "groups_ok groups n"
  shows "groups_ok (count_classes producer groups r) (n + 1)"
proof -
  let ?c = "measurementClasses (header_of r) (Some producer)"
  let ?old = "map_get groups (classes_key ?c)"
  let ?v = "case ?old of Some (c, n) \<Rightarrow> (c, n + 1) | None \<Rightarrow> (?c, 1)"
  obtain c m where v: "?v = (c, m)" by fastforce
  have "classes_key c = classes_key ?c \<and> classes_closed c \<and> 1 \<le> m \<and> m = (case ?old of None \<Rightarrow> 0 | Some w \<Rightarrow> snd w) + 1"
  proof (cases ?old)
    case None
    then show ?thesis using v measurement_classes_closed by auto
  next
    case (Some w)
    then have "w \<in> snd ` set groups" by (force simp: map_get_def dest: map_of_SomeD)
    moreover have "(classes_key ?c, w) \<in> set groups" using Some by (auto simp: map_get_def dest: map_of_SomeD)
    ultimately show ?thesis using assms v Some by (cases w) (auto simp: groups_ok_def)
  qed
  moreover have "count_classes producer groups r = map_set (classes_key ?c) (c, m) groups" using v by (simp add: count_classes_def Let_def)
  ultimately show ?thesis
    using assms by (auto simp: groups_ok_def map_set_distinct map_set_sum dest!: map_set_cases)
qed

lemma sum_list_sort: "sum_list (map f (sort_key g xs)) = (sum_list (map f xs) :: int)"
  by (metis mset_map mset_sort sum_mset_sum_list)

lemma distinct_sort_key: "distinct (map f (sort_key g xs)) = distinct (map f xs)"
  by (rule mset_eq_imp_distinct_iff) simp

text \<open>The diagnostics of a batch account for every event of it exactly once, by distinct classes, and repeat no text that is outside
  the closed vocabularies, whatever the submitted headers say.\<close>

theorem diagnostic_groups_closed:
  assumes "1 \<le> eventCount" and "groups = batchDiagnosticGroups parse producer body eventCount"
  shows "sum_list (map snd groups) = eventCount \<and> distinct (map fst groups) \<and> list_all (\<lambda>(m, n). classes_closed m \<and> 1 \<le> n) groups"
proof (cases "submitted_records parse body eventCount")
  case None
  with assms measurement_classes_closed show ?thesis by (simp add: batchDiagnosticGroups_def)
next
  case (Some rs)
  have "groups_ok (foldl (count_classes producer) gs rs) (n + int (length rs))" if "groups_ok gs n" for gs n
    using that
  proof (induction rs arbitrary: gs n)
    case (Cons r rs)
    from Cons.IH [OF count_classes_ok [OF Cons.prems]] show ?case by (simp add: algebra_simps)
  qed simp
  from this [of "[]" 0] have ok: "groups_ok (foldl (count_classes producer) [] rs) (int (length rs))" by (simp add: groups_ok_def)
  let ?sorted = "sort_key fst (foldl (count_classes producer) [] rs)"
  have g: "groups = map snd ?sorted" using assms(2) Some by (simp add: batchDiagnosticGroups_def)
  have len: "int (length rs) = eventCount" using Some by (auto simp: submitted_records_def split: option.splits json.splits if_splits)
  have total: "sum_list (map snd groups) = eventCount" using ok len by (simp add: g sum_list_sort groups_ok_def)
  have mem: "k = classes_key c \<and> classes_closed c \<and> 1 \<le> n" if "(k, c, n) \<in> set (foldl (count_classes producer) [] rs)" for k c n
    using that ok by (auto simp: groups_ok_def)
  have keys: "map fst ?sorted = map classes_key (map fst groups)" unfolding g map_map
    by (rule map_cong) (auto dest: mem)
  have "distinct (map fst ?sorted)" using ok by (simp only: distinct_sort_key groups_ok_def)
  then have "distinct (map classes_key (map fst groups))" by (simp only: keys)
  then have "distinct (map fst groups)" unfolding distinct_map by blast
  moreover have "list_all (\<lambda>(m, n). classes_closed m \<and> 1 \<le> n) groups" unfolding g list_all_iff by (auto dest: mem)
  ultimately show ?thesis using total by blast
qed


section \<open>What a transaction leaves of the payload store\<close>

definition leaves :: "(tx_state \<Rightarrow> bool) \<Rightarrow> 'a tx \<Rightarrow> (tx_state \<Rightarrow> bool) \<Rightarrow> bool" where
  "leaves P m Q \<longleftrightarrow> (\<forall>t. P t \<longrightarrow> Q (snd (m t)))"

text \<open>Predicates that the rows do not influence.\<close>

definition row_free :: "(tx_state \<Rightarrow> bool) \<Rightarrow> bool" where
  "row_free P \<longleftrightarrow> (\<forall>t db. P t \<longrightarrow> P (t\<lparr>tx_db := db\<rparr>))"

named_theorems leaves_rules "rules for what a transaction leaves"

lemma leaves_pure [leaves_rules]: "leaves P (pureT r) P"
  by (simp add: leaves_def pureT_def)

lemma leaves_bind: "leaves P m R \<Longrightarrow> (\<And>x. leaves R (k x) Q) \<Longrightarrow> (\<And>t. R t \<Longrightarrow> Q t) \<Longrightarrow> leaves P (bindT m k) Q"
  unfolding leaves_def bindT_def by (fastforce split: prod.splits sum.splits)

lemma leaves_bind_same [leaves_rules]: "leaves P m P \<Longrightarrow> (\<And>x. leaves P (k x) P) \<Longrightarrow> leaves P (bindT m k) P"
  by (rule leaves_bind)

lemma leaves_call [leaves_rules]: "leaves P m P \<Longrightarrow> leaves P (callT H c m) P"
  by (auto simp: callT_def leaves_def pureT_def split: option.splits)

lemma leaves_modify [leaves_rules]: "row_free P \<Longrightarrow> leaves P (modifyT f) P"
  by (simp add: leaves_def modifyT_def row_free_def)

lemma leaves_insert_batch [leaves_rules]: "row_free P \<Longrightarrow> leaves P (insert_batch H i batchId) P"
  by (simp add: leaves_def insert_batch_def modifyT_def row_free_def)

lemma leaves_callback [leaves_rules]: "row_free P \<Longrightarrow> leaves P (run_callback callback batchId) P"
  by (auto simp: leaves_def run_callback_def modifyT_def row_free_def split: option.splits sum.splits)

lemma leaves_insert_rows [leaves_rules]: "row_free P \<Longrightarrow> leaves P (insert_rows H callback i batchId) P"
  unfolding insert_rows_def by (intro leaves_rules)

lemma leaves_checks [leaves_rules]:
  "leaves P (acquirePrivacyTenantXactFence H tenantId) P" "leaves P (privacyProjectionIsBlocked H p) P"
  "leaves P (check_credential H i) P" "leaves P (admitInboxBatch H policy) P"
  unfolding acquirePrivacyTenantXactFence_def privacyProjectionIsBlocked_def check_credential_def admitInboxBatch_def
  by (auto intro!: leaves_rules)

text \<open>The write of the body, and the two situations a transaction can be in.\<close>

definition batch_scope :: "durable_batch_input \<Rightarrow> string \<Rightarrow> payload_scope" where
  "batch_scope i batchId = \<lparr> sc_tenantId = di_tenantId i, sc_appId = di_appId i, sc_objectId = ''ingest-batch-'' @ batchId \<rparr>"

definition body_write :: "inbox_host \<Rightarrow> durable_batch_input \<Rightarrow> string \<Rightarrow> payload_store \<Rightarrow> string res \<times> payload_store list" where
  "body_write H i batchId s =
     payload_write (ih_cipher H) (ih_wrappingKey H) (ih_file_faults H) (ih_random H) (batch_scope i batchId) (di_body i) s"

definition unwritten :: "payload_store \<Rightarrow> tx_state \<Rightarrow> bool" where
  "unwritten s t \<longleftrightarrow> tx_ref t = None \<and> tx_payloads t = s"

definition tracked :: "inbox_host \<Rightarrow> durable_batch_input \<Rightarrow> string \<Rightarrow> payload_store \<Rightarrow> tx_state \<Rightarrow> bool" where
  "tracked H i batchId s t \<longleftrightarrow> unwritten s t
     \<or> (\<exists>r ts. body_write H i batchId s = (r, ts) \<and> tx_payloads t = final s ts
          \<and> tx_ref t = (case r of Inl e \<Rightarrow> None | Inr reference \<Rightarrow> Some reference))"

lemma row_free_tracked [leaves_rules]: "row_free (tracked H i batchId s)" "row_free (unwritten s)"
  by (simp_all add: row_free_def tracked_def unwritten_def)

lemma leaves_write: "leaves (unwritten s) (write_body H i batchId) (tracked H i batchId s)"
  by (cases "body_write H i batchId s")
    (auto simp: leaves_def write_body_def unwritten_def tracked_def body_write_def batch_scope_def Let_def split: sum.splits)

lemma unwritten_tracked: "unwritten s t \<Longrightarrow> tracked H i batchId s t"
  by (simp add: tracked_def)

lemma leaves_weaken: "leaves P m Q \<Longrightarrow> (\<And>t. P' t \<Longrightarrow> P t) \<Longrightarrow> (\<And>t. Q t \<Longrightarrow> Q' t) \<Longrightarrow> leaves P' m Q'"
  unfolding leaves_def by blast

lemma append_transaction_leaves:
  "leaves (if policy = None then tracked H i batchId s else unwritten s) (append_transaction H policy callback i batchId) (tracked H i batchId s)"
proof (cases policy)
  case None
  then show ?thesis unfolding append_transaction_def by (auto intro!: leaves_rules)
next
  case (Some p)
  have rest: "leaves (unwritten s) (case denied of Some e \<Rightarrow> pureT (Inr (Some e))
       | None \<Rightarrow> bindT (write_body H i batchId) (\<lambda>_. bindT (insert_rows H callback i batchId) (\<lambda>_. pureT (Inr None)))) (tracked H i batchId s)"
    for denied :: "capacity_error option"
  proof (cases denied)
    case None
    have "leaves (unwritten s) (bindT (write_body H i batchId) (\<lambda>_. bindT (insert_rows H callback i batchId) (\<lambda>_. pureT (Inr None))))
        (tracked H i batchId s)"
      by (rule leaves_bind [OF leaves_write]) (auto intro!: leaves_rules)
    then show ?thesis using None by simp
  qed (auto intro: leaves_weaken [OF leaves_pure [of "unwritten s"]] unwritten_tracked)
  show ?thesis unfolding append_transaction_def Some
    by (auto intro!: leaves_bind [where R = "unwritten s"] rest unwritten_tracked leaves_checks leaves_pure)
qed

lemma withTenant_leaves: "leaves P m Q \<Longrightarrow> (\<And>t. P t \<Longrightarrow> Q t) \<Longrightarrow> row_free Q \<Longrightarrow> leaves P (withTenant H tenantId m) Q"
  unfolding leaves_def withTenant_def callT_def pureT_def row_free_def
  by (fastforce split: prod.splits sum.splits option.splits)

lemma withTenant_error:
  assumes "withTenant H tenantId m t = (Inl e, u)" "ih_fault H Commit_Tx = None \<or> \<not> ih_commit_applied H"
  shows "tx_db u = tx_db t"
  using assms by (auto simp: withTenant_def callT_def pureT_def split: prod.splits sum.splits option.splits if_splits)

section \<open>Writes and purges undo each other\<close>

lemma filter_map_set: "\<not> map_has m k \<Longrightarrow> filter (\<lambda>e. fst e \<noteq> k) (map_set k v m) = m"
  unfolding map_has_def map_set_def by (induction m) auto

lemma filter_absent: "\<not> map_has m k \<Longrightarrow> filter (\<lambda>e. fst e \<noteq> k) m = m"
  unfolding map_has_def by (induction m) auto

text \<open>A write either leaves the store, apart from its own key file, or adds one entry to both directories.\<close>

lemma payload_write_final:
  assumes "payload_write C key F rnd scope plaintext s = (r, ts)"
  defines "name \<equiv> entry_name (payload_key_id scope (wr_suffix rnd))"
  shows "case r of
      Inl e \<Rightarrow> final s ts = s \<or> F Key_Removal \<noteq> None \<and> \<not> map_has (ps_keys s) name \<and> (\<exists>w. final s ts = s\<lparr>ps_keys := map_set name w (ps_keys s)\<rparr>)
    | Inr reference \<Rightarrow> reference = ''encrypted:'' @ payload_key_id scope (wr_suffix rnd) \<and> \<not> map_has (ps_keys s) name \<and> \<not> map_has (ps_objects s) name
        \<and> (\<exists>w obj. final s ts = s\<lparr>ps_keys := map_set name w (ps_keys s), ps_objects := map_set name obj (ps_objects s)\<rparr>)"
  using assms(1)
  by (auto simp: payload_write_def bindIO_def catchIO_def pureIO_def getIO_def create_key_def create_object_def remove_key_def faulty_def
      writeIO_def Let_def name_def [symmetric] filter_map_set throw_def split: sum.splits option.splits if_splits)
    (intro exI, rule refl)+

section \<open>Outcomes of an append\<close>

lemma bindT_Inr: "bindT m k t = (Inr y, u) \<longleftrightarrow> (\<exists>x v. m t = (Inr x, v) \<and> k x v = (Inr y, u))"
  by (auto simp: bindT_def split: prod.splits sum.splits)

lemma callT_Inr: "callT H c m t = (Inr y, u) \<longleftrightarrow> ih_fault H c = None \<and> m t = (Inr y, u)"
  by (auto simp: callT_def pureT_def split: option.splits)

lemma pureT_Inr: "pureT r t = (Inr y, u) \<longleftrightarrow> r = Inr y \<and> u = t"
  by (auto simp: pureT_def)

lemma leaves_same: "leaves (\<lambda>x. x = t) m (\<lambda>x. x = t) \<Longrightarrow> m t = (r, u) \<Longrightarrow> u = t"
  by (force simp: leaves_def)

lemma insert_rows_Inr:
  assumes "insert_rows H callback i batchId t = (Inr (), u)"
  shows "batchId \<notin> ba_id ` set (db_batches (tx_db t)) \<and> (\<exists>receipts. u = t\<lparr>tx_db := (tx_db t)\<lparr>
      db_apps := set_add (di_tenantId i, di_appId i) (db_apps (tx_db t)),
      db_batches := db_batches (tx_db t) @ [inbox_batch_of H i batchId (tx_ref t)],
      db_pending := db_pending (tx_db t) @ [(batchId, di_receivedAt i)], db_receipts := receipts\<rparr>\<rparr>)"
  using assms
  by (cases callback; cases "tx_db t")
    (auto simp: insert_rows_def bindT_Inr callT_Inr modifyT_def insert_batch_def run_callback_def inbox_batch_of_def Let_def
      split: if_splits sum.splits)

lemma append_transaction_accepted:
  assumes "append_transaction H policy callback i batchId t = (Inr None, u)"
  shows "\<exists>v. (if policy = None then v = t else write_body H i batchId t = (Inr (), v)) \<and> insert_rows H callback i batchId v = (Inr (), u)"
proof -
  note same = leaves_checks [of "\<lambda>x. x = t", THEN leaves_same]
  from assms have "(case policy of
       None \<Rightarrow> bindT (insert_rows H callback i batchId) (\<lambda>_. pureT (Inr None))
     | Some p \<Rightarrow> bindT (admitInboxBatch H p) (\<lambda>denied.
         case denied of
           Some e \<Rightarrow> pureT (Inr (Some e))
         | None \<Rightarrow> bindT (write_body H i batchId) (\<lambda>_. bindT (insert_rows H callback i batchId) (\<lambda>_. pureT (Inr None))))) t = (Inr None, u)"
    unfolding append_transaction_def bindT_Inr pureT_Inr by (auto dest!: same)
  then show ?thesis
    by (cases policy) (auto simp: bindT_Inr pureT_Inr split: option.splits dest!: same(4))
qed

lemma append_transaction_refused:
  assumes "append_transaction H policy callback i batchId t = (Inr (Some e), u)"
  shows "u = t \<and> policy \<noteq> None"
proof -
  note same = leaves_checks [of "\<lambda>x. x = t", THEN leaves_same]
  from assms have "(case policy of
       None \<Rightarrow> bindT (insert_rows H callback i batchId) (\<lambda>_. pureT (Inr None))
     | Some p \<Rightarrow> bindT (admitInboxBatch H p) (\<lambda>denied.
         case denied of
           Some e \<Rightarrow> pureT (Inr (Some e))
         | None \<Rightarrow> bindT (write_body H i batchId) (\<lambda>_. bindT (insert_rows H callback i batchId) (\<lambda>_. pureT (Inr None))))) t = (Inr (Some e), u)"
    unfolding append_transaction_def bindT_Inr pureT_Inr by (auto dest!: same)
  then show ?thesis
    by (cases policy) (auto simp: bindT_Inr pureT_Inr split: option.splits dest!: same(4))
qed

lemma append_stored:
  assumes "appendDurableBatch H policy callback i s = (Inr batchId, s')"
  obtains ms reference ts receipts where "ih_instant H (di_receivedAt i) = Some ms" "batchId = uuidV7 ms (ih_uuid_random H)"
    "1 \<le> di_eventCount i" "di_eventCount i \<le> 100"
    "body_write H i batchId (ix_payloads s) = (Inr reference, ts)" "batchId \<notin> ba_id ` set (db_batches (ix_db s))"
    "s' = \<lparr> ix_payloads = final (ix_payloads s) ts, ix_db = (ix_db s)\<lparr> db_apps := set_add (di_tenantId i, di_appId i) (db_apps (ix_db s)),
       db_batches := db_batches (ix_db s) @ [inbox_batch_of H i batchId (Some reference)],
       db_pending := db_pending (ix_db s) @ [(batchId, di_receivedAt i)], db_receipts := receipts \<rparr> \<rparr>"
proof -
  let ?start = "\<lparr> tx_payloads = ix_payloads s, tx_db = ix_db s, tx_ref = None \<rparr>"
  from assms obtain ms t u where m: "ih_instant H (di_receivedAt i) = Some ms" "batchId = uuidV7 ms (ih_uuid_random H)"
    "1 \<le> di_eventCount i" "di_eventCount i \<le> 100"
    and t: "(if policy = None then write_body H i batchId ?start else (Inr (), ?start)) = (Inr (), t)"
    and u: "withTenant H (di_tenantId i) (append_transaction H policy callback i batchId) t = (Inr None, u)"
    and s': "s' = \<lparr> ix_payloads = tx_payloads u, ix_db = tx_db u \<rparr>"
    by (auto simp: appendDurableBatch_def discard_body_def Let_def split: if_splits option.splits prod.splits sum.splits)
  from u have "append_transaction H policy callback i batchId t = (Inr None, u)"
    by (auto simp: withTenant_def callT_def pureT_def split: if_splits option.splits prod.splits sum.splits)
  from append_transaction_accepted [OF this] t obtain v where v: "write_body H i batchId ?start = (Inr (), v)"
    "insert_rows H callback i batchId v = (Inr (), u)" by (auto split: if_splits)
  from v(1) obtain reference ts where w: "body_write H i batchId (ix_payloads s) = (Inr reference, ts)"
    "v = ?start\<lparr>tx_payloads := final (ix_payloads s) ts, tx_ref := Some reference\<rparr>"
    by (cases "body_write H i batchId (ix_payloads s)")
      (auto simp: write_body_def body_write_def batch_scope_def Let_def split: sum.splits)
  with insert_rows_Inr [OF v(2)] m s' show thesis by (auto intro: that)
qed

lemma append_failed:
  assumes "appendDurableBatch H policy callback i s = (Inl e, s')" "ih_fault H Commit_Tx = None \<or> \<not> ih_commit_applied H"
  shows "s' = s \<or> (\<exists>ms t. ih_instant H (di_receivedAt i) = Some ms \<and> tracked H i (uuidV7 ms (ih_uuid_random H)) (ix_payloads s) t
    \<and> tx_db t = ix_db s \<and> (\<exists>e0. (Inl e, s') = discard_body H e0 t))"
proof (cases "ih_instant H (di_receivedAt i)")
  case (Some ms)
  let ?id = "uuidV7 ms (ih_uuid_random H)"
  let ?start = "\<lparr> tx_payloads = ix_payloads s, tx_db = ix_db s, tx_ref = None \<rparr>"
  obtain r t where t: "(if policy = None then write_body H i ?id ?start else (Inr (), ?start)) = (r, t)" by fastforce
  have first: "tracked H i ?id (ix_payloads s) t" "tx_db t = ix_db s" "policy \<noteq> None \<longrightarrow> unwritten (ix_payloads s) t"
      "r = Inl x \<Longrightarrow> tx_ref t = None" for x
  proof -
    have "unwritten (ix_payloads s) ?start" by (simp add: unwritten_def)
    with leaves_write [of "ix_payloads s" H i ?id] t show "tracked H i ?id (ix_payloads s) t" "policy \<noteq> None \<longrightarrow> unwritten (ix_payloads s) t"
      by (auto simp: leaves_def unwritten_tracked split: if_splits)
    show "tx_db t = ix_db s" "r = Inl x \<Longrightarrow> tx_ref t = None" using t by (auto simp: write_body_def Let_def split: if_splits sum.splits)
  qed
  show ?thesis
  proof (cases r)
    case (Inl x)
    with assms(1) Some t first have "s' = s \<or> (Inl e, s') = discard_body H (Plain_Error x) t"
      by (auto simp: appendDurableBatch_def Let_def discard_body_def split: if_splits)
    with first(1,2) Some show ?thesis by blast
  next
    case (Inr x)
    obtain q u where u: "withTenant H (di_tenantId i) (append_transaction H policy callback i ?id) t = (q, u)" by fastforce
    have "leaves (if policy = None then tracked H i ?id (ix_payloads s) else unwritten (ix_payloads s))
        (withTenant H (di_tenantId i) (append_transaction H policy callback i ?id)) (tracked H i ?id (ix_payloads s))"
      by (rule withTenant_leaves [OF append_transaction_leaves]) (auto simp: row_free_tracked unwritten_tracked split: if_splits)
    then have tr: "tracked H i ?id (ix_payloads s) u" using first u by (auto simp: leaves_def split: if_splits)
    show ?thesis
    proof (cases q)
      case (Inl y)
      with assms(1) Some t u Inr have "s' = s \<or> (Inl e, s') = discard_body H (Plain_Error y) u"
        by (auto simp: appendDurableBatch_def Let_def split: if_splits)
      with tr Some first(2) withTenant_error [OF u [unfolded Inl] assms(2)] show ?thesis by auto
    next
      case (Inr y)
      then have c: "s' = s \<or> (\<exists>c. y = Some c \<and> (Inl e, s') = discard_body H (Capacity_Error c) u)"
        using assms(1) Some t u \<open>r = Inr x\<close> by (cases y) (auto simp: appendDurableBatch_def Let_def split: if_splits)
      have "tx_db u = tx_db t" if "y = Some c" for c
      proof -
        have "append_transaction H policy callback i ?id t = (Inr (Some c), u)" using u Inr that
          by (auto simp: withTenant_def callT_def pureT_def split: if_splits option.splits prod.splits sum.splits)
        from append_transaction_refused [OF this] show ?thesis by simp
      qed
      with tr Some first(2) c show ?thesis by auto
    qed
  qed
qed (use assms in \<open>auto simp: appendDurableBatch_def split: if_splits\<close>)


section \<open>Atomicity\<close>

definition batch_key_id :: "inbox_host \<Rightarrow> durable_batch_input \<Rightarrow> string \<Rightarrow> string" where
  "batch_key_id H i batchId = payload_key_id (batch_scope i batchId) (wr_suffix (ih_random H))"

text \<open>Randomness as the code draws it: a suffix of file symbols and a data key of 32 bytes.\<close>

definition random_drawn :: "inbox_host \<Rightarrow> bool" where
  "random_drawn H \<longleftrightarrow> list_all file_symbol (wr_suffix (ih_random H)) \<and> length (wr_dataKey (ih_random H)) = 32"

text \<open>A batch whose key identifier the references of the store can carry.\<close>

definition batch_named :: "inbox_host \<Rightarrow> durable_batch_input \<Rightarrow> bool" where
  "batch_named H i \<longleftrightarrow> random_drawn H
     \<and> (\<forall>ms. ih_instant H (di_receivedAt i) = Some ms \<longrightarrow> addressable (batch_key_id H i (uuidV7 ms (ih_uuid_random H))))"

lemma batch_reference:
  assumes "random_drawn H"
  shows "referenceKeyId (''encrypted:'' @ batch_key_id H i batchId)
    = (if addressable (batch_key_id H i batchId) then Inr (batch_key_id H i batchId) else throw ''invalid payload reference'')"
  using assms reference_of_key by (simp add: random_drawn_def batch_key_id_def)

lemma purge_unaddressed: "referenceKeyId reference = Inl e \<Longrightarrow> payload_purge F reference s = (Inl e, [])"
  by (simp add: payload_purge_def bindIO_def pureIO_def)

lemma purge_final:
  assumes "payload_purge F reference s = (r, ts)" "referenceKeyId reference = Inr keyId"
  shows "final s ts \<in> {s, s\<lparr>ps_objects := filter (\<lambda>e. fst e \<noteq> entry_name keyId) (ps_objects s)\<rparr>,
      s\<lparr>ps_objects := filter (\<lambda>e. fst e \<noteq> entry_name keyId) (ps_objects s), ps_keys := filter (\<lambda>e. fst e \<noteq> entry_name keyId) (ps_keys s)\<rparr>}"
    and "F Object_Removal = None \<Longrightarrow> F Key_Removal = None \<Longrightarrow>
      final s ts = s\<lparr>ps_objects := filter (\<lambda>e. fst e \<noteq> entry_name keyId) (ps_objects s), ps_keys := filter (\<lambda>e. fst e \<noteq> entry_name keyId) (ps_keys s)\<rparr>"
  using assms by (auto simp: payload_purge_def bindIO_def pureIO_def remove_object_def remove_key_def faulty_def writeIO_def Let_def
      split: sum.splits option.splits)

lemma tracked_cases:
  assumes "tracked H i batchId s t"
  defines "name \<equiv> entry_name (batch_key_id H i batchId)"
  obtains (unwritten) "tx_payloads t = s" "tx_ref t = None"
  | (key_left) w where "tx_ref t = None" "ih_file_faults H Key_Removal \<noteq> None" "\<not> map_has (ps_keys s) name"
      "tx_payloads t = s\<lparr>ps_keys := map_set name w (ps_keys s)\<rparr>"
  | (written) w obj where "tx_ref t = Some (''encrypted:'' @ batch_key_id H i batchId)" "\<not> map_has (ps_keys s) name" "\<not> map_has (ps_objects s) name"
      "tx_payloads t = s\<lparr>ps_keys := map_set name w (ps_keys s), ps_objects := map_set name obj (ps_objects s)\<rparr>"
proof (cases "unwritten s t")
  case False
  with assms(1) obtain r ts where r: "body_write H i batchId s = (r, ts)" "tx_payloads t = final s ts"
    "tx_ref t = (case r of Inl e \<Rightarrow> None | Inr reference \<Rightarrow> Some reference)" by (auto simp: tracked_def)
  show thesis
  proof (cases r)
    case (Inl e)
    with payload_write_final [OF r(1) [unfolded body_write_def]] r show thesis
      by (auto simp: batch_key_id_def name_def intro: that(1,2))
  next
    case (Inr reference)
    with payload_write_final [OF r(1) [unfolded body_write_def]] r show thesis
      by (auto simp: batch_key_id_def name_def intro: that(3))
  qed
qed (auto simp: unwritten_def intro: that(1))

text \<open>A failed append touches no file but those of its own key identifier.\<close>

lemma tracked_elsewhere:
  fixes e :: append_error
  assumes "tracked H i batchId s t" "random_drawn H"
  defines "p \<equiv> ix_payloads (snd (discard_body H e t))"
  shows "ps_state p = ps_state s"
    and "n \<noteq> entry_name (batch_key_id H i batchId) \<Longrightarrow>
      map_get (ps_keys p) n = map_get (ps_keys s) n \<and> map_get (ps_objects p) n = map_get (ps_objects s) n"
proof -
  have "ps_state p = ps_state s \<and> (n \<noteq> entry_name (batch_key_id H i batchId) \<longrightarrow>
      map_get (ps_keys p) n = map_get (ps_keys s) n \<and> map_get (ps_objects p) n = map_get (ps_objects s) n)"
    using assms(1)
  proof (cases rule: tracked_cases)
    case (written w obj)
    obtain r ts where purge: "payload_purge (ih_file_faults H) (''encrypted:'' @ batch_key_id H i batchId) (tx_payloads t) = (r, ts)" by fastforce
    then have p: "p = final (tx_payloads t) ts" using written(1) by (simp add: p_def discard_body_def)
    show ?thesis
    proof (cases "addressable (batch_key_id H i batchId)")
      case True
      with batch_reference [OF assms(2)] have "referenceKeyId (''encrypted:'' @ batch_key_id H i batchId) = Inr (batch_key_id H i batchId)" by simp
      from purge_final(1) [OF purge this] written(4) show ?thesis by (auto simp: p map_get_remove)
    next
      case False
      with batch_reference [OF assms(2)] purge have "ts = []" by (auto simp: throw_def purge_unaddressed)
      with written(4) show ?thesis by (simp add: p)
    qed
  qed (simp_all add: p_def discard_body_def)
  then show "ps_state p = ps_state s"
    and "n \<noteq> entry_name (batch_key_id H i batchId) \<Longrightarrow>
      map_get (ps_keys p) n = map_get (ps_keys s) n \<and> map_get (ps_objects p) n = map_get (ps_objects s) n" by simp_all
qed


lemma same_read:
  assumes "ps_state s' = ps_state s" "map_get (ps_keys s') n = map_get (ps_keys s) n" "map_get (ps_objects s') n = map_get (ps_objects s) n"
    and "n = entry_name (drop 10 reference)"
  shows "payload_read C key s' reference = payload_read C key s reference"
proof (cases "referenceKeyId reference")
  case (Inr k)
  then have "k = drop 10 reference" by (auto simp: referenceKeyId_def guardR_eq_Inr Let_def)
  moreover have "currentKey C key s' = currentKey C key s" by (simp add: currentKey_def readKeyState_def assms(1))
  ultimately show ?thesis using assms(2-4) by (simp only: payload_read_def Inr bindR_Inr)
qed (simp add: payload_read_def)

text \<open>Nothing that a store can read is lost when only an entry it does not have is touched.\<close>

definition reads_kept :: "cipher \<Rightarrow> string \<Rightarrow> payload_store \<Rightarrow> payload_store \<Rightarrow> bool" where
  "reads_kept C key s s' \<longleftrightarrow> (\<forall>reference x. payload_read C key s reference = Inr x \<longrightarrow> payload_read C key s' reference = Inr x)"

lemma reads_kept_fresh:
  assumes "\<not> map_has (ps_keys s) name" "ps_state s' = ps_state s"
    and "\<And>n. n \<noteq> name \<Longrightarrow> map_get (ps_keys s') n = map_get (ps_keys s) n \<and> map_get (ps_objects s') n = map_get (ps_objects s) n"
  shows "reads_kept C key s s'"
  unfolding reads_kept_def
proof (intro allI impI)
  fix reference x assume r: "payload_read C key s reference = Inr x"
  then obtain w where "map_get (ps_keys s) (entry_name (drop 10 reference)) = Some w" by (rule payload_read_InrE)
  with assms(1) have "entry_name (drop 10 reference) \<noteq> name" by (auto simp: map_has_iff)
  with same_read [OF assms(2) _ _ refl] assms(3) r show "payload_read C key s' reference = Inr x" by metis
qed

lemma tracked_reads:
  assumes "tracked H i batchId s t" "random_drawn H"
  shows "reads_kept C key s (tx_payloads t)" "reads_kept C key s (ix_payloads (snd (discard_body H e t)))"
proof -
  let ?name = "entry_name (batch_key_id H i batchId)"
  from assms(1) have "reads_kept C key s (tx_payloads t) \<and> reads_kept C key s (ix_payloads (snd (discard_body H e t)))"
  proof (cases rule: tracked_cases)
    case unwritten
    then show ?thesis by (simp add: reads_kept_def discard_body_def)
  next
    case (key_left w)
    then show ?thesis by (auto simp: discard_body_def intro!: reads_kept_fresh [where name = ?name])
  next
    case (written w obj)
    have "reads_kept C key s (ix_payloads (snd (discard_body H e t)))"
      by (rule reads_kept_fresh [where name = ?name]) (use written(2) tracked_elsewhere [OF assms, where e = e] in auto)
    with written show ?thesis by (auto intro!: reads_kept_fresh [where name = ?name])
  qed
  then show "reads_kept C key s (tx_payloads t)" "reads_kept C key s (ix_payloads (snd (discard_body H e t)))" by auto
qed


section \<open>Capacity\<close>

lemma admitted_refusal:
  assumes "admitInboxBatch H p t = (Inr (Some e), u)"
  shows "u = t" "1 \<le> ce_retryAfterSeconds e" "ce_retryAfterSeconds e \<le> 3600"
    "capacity_status e = (if ih_decision H = Some ''inbox_app_capacity'' then 429 else 503)"
  using assms
  by (auto simp: admitInboxBatch_def bindT_Inr callT_Inr pureT_Inr validateInboxAdmissionPolicy_def guardR_eq_Inr Let_def capacity_status_def
      positive_safe_def throw_def split: option.splits if_splits)

lemma append_transaction_refusal:
  assumes "append_transaction H policy callback i batchId t = (Inr (Some e), u)"
  obtains p where "policy = Some p" "admitInboxBatch H p t = (Inr (Some e), t)"
proof -
  note same = leaves_checks [of "\<lambda>x. x = t", THEN leaves_same]
  from assms have "(case policy of
       None \<Rightarrow> bindT (insert_rows H callback i batchId) (\<lambda>_. pureT (Inr None))
     | Some p \<Rightarrow> bindT (admitInboxBatch H p) (\<lambda>denied.
         case denied of
           Some e \<Rightarrow> pureT (Inr (Some e))
         | None \<Rightarrow> bindT (write_body H i batchId) (\<lambda>_. bindT (insert_rows H callback i batchId) (\<lambda>_. pureT (Inr None))))) t = (Inr (Some e), u)"
    unfolding append_transaction_def bindT_Inr pureT_Inr by (auto dest!: same)
  then obtain p where p: "policy = Some p" "admitInboxBatch H p t = (Inr (Some e), u)"
    by (cases policy) (auto simp: bindT_Inr pureT_Inr split: option.splits)
  with same(4) [OF p(2)] that show thesis by simp
qed


section \<open>Every stored batch has its body\<close>

inductive inbox_reach :: "cipher \<Rightarrow> string \<Rightarrow> inbox \<Rightarrow> bool" for C key where
  empty: "db_batches (ix_db s) = [] \<Longrightarrow> db_pending (ix_db s) = [] \<Longrightarrow> inbox_reach C key s"
| append: "inbox_reach C key s \<Longrightarrow> ih_cipher H = C \<Longrightarrow> ih_wrappingKey H = key \<Longrightarrow> random_drawn H \<Longrightarrow>
    ih_fault H Commit_Tx = None \<or> \<not> ih_commit_applied H \<Longrightarrow> inbox_reach C key (snd (appendDurableBatch H policy callback i s))"

text \<open>The body of a batch in the payload store: under the reference of its row, unless the key identifier in the reference is one
  that the store refuses.\<close>

definition batch_stored :: "cipher \<Rightarrow> string \<Rightarrow> payload_store \<Rightarrow> inbox_batch \<Rightarrow> bool" where
  "batch_stored C key payloads b \<longleftrightarrow> (\<exists>suffix. list_all file_symbol suffix
     \<and> (let keyId = payload_key_id (batch_scope (ba_input b) (ba_id b)) suffix in
         ba_body_ref b = Some (''encrypted:'' @ keyId)
       \<and> payload_read C key payloads (''encrypted:'' @ keyId)
           = (if addressable keyId then Inr (di_body (ba_input b)) else throw ''invalid payload reference''))
     \<and> ba_body_digest b = ci_sha C (di_body (ba_input b)))"

definition inbox_ok :: "cipher \<Rightarrow> string \<Rightarrow> inbox \<Rightarrow> bool" where
  "inbox_ok C key s \<longleftrightarrow> list_all (batch_stored C key (ix_payloads s)) (db_batches (ix_db s)) \<and> distinct (map ba_id (db_batches (ix_db s)))
     \<and> map fst (db_pending (ix_db s)) = map ba_id (db_batches (ix_db s))"

lemma batch_stored_kept:
  assumes "batch_stored C key p b" "reads_kept C key p q"
  shows "batch_stored C key q b"
proof -
  obtain suffix where b: "list_all file_symbol suffix"
    "ba_body_ref b = Some (''encrypted:'' @ payload_key_id (batch_scope (ba_input b) (ba_id b)) suffix)" "ba_body_digest b = ci_sha C (di_body (ba_input b))"
    and r: "payload_read C key p (''encrypted:'' @ payload_key_id (batch_scope (ba_input b) (ba_id b)) suffix)
      = (if addressable (payload_key_id (batch_scope (ba_input b) (ba_id b)) suffix) then Inr (di_body (ba_input b))
         else throw ''invalid payload reference'')"
    using assms(1) unfolding batch_stored_def Let_def by blast
  have "payload_read C key q (''encrypted:'' @ payload_key_id (batch_scope (ba_input b) (ba_id b)) suffix)
      = (if addressable (payload_key_id (batch_scope (ba_input b) (ba_id b)) suffix) then Inr (di_body (ba_input b))
         else throw ''invalid payload reference'')"
  proof (cases "addressable (payload_key_id (batch_scope (ba_input b) (ba_id b)) suffix)")
    case True
    with r assms(2) show ?thesis by (simp add: reads_kept_def)
  next
    case False
    then show ?thesis using reference_of_key [OF b(1)] by (simp add: payload_read_def throw_def)
  qed
  with b show ?thesis unfolding batch_stored_def Let_def by blast
qed

lemma inbox_append_ok:
  assumes ok: "inbox_ok C key s" and C: "cipher_ok C" and H: "ih_cipher H = C" "ih_wrappingKey H = key" "random_drawn H"
    and commit: "ih_fault H Commit_Tx = None \<or> \<not> ih_commit_applied H"
  shows "inbox_ok C key (snd (appendDurableBatch H policy callback i s))"
proof -
  obtain r s' where r: "appendDurableBatch H policy callback i s = (r, s')" by fastforce
  show ?thesis
  proof (cases r)
    case (Inl e)
    have "ix_db s' = ix_db s \<and> reads_kept C key (ix_payloads s) (ix_payloads s')"
    proof (cases "s' = s")
      case False
      with append_failed [OF r [unfolded Inl] commit] obtain ms t e0 where t: "ih_instant H (di_receivedAt i) = Some ms"
        "tracked H i (uuidV7 ms (ih_uuid_random H)) (ix_payloads s) t" "tx_db t = ix_db s" "(Inl e, s') = discard_body H e0 t" by blast
      have "ix_db (snd (discard_body H e0 t)) = tx_db t" by (simp add: discard_body_def Let_def split: option.splits)
      with tracked_reads(2) [OF t(2) H(3), of C key e0] t(3) show ?thesis by (simp add: t(4) [symmetric])
    qed (simp add: reads_kept_def)
    with ok show ?thesis unfolding r by (auto simp: inbox_ok_def list_all_iff intro: batch_stored_kept)
  next
    case (Inr batchId)
    obtain ms reference ts receipts where a: "ih_instant H (di_receivedAt i) = Some ms" "batchId = uuidV7 ms (ih_uuid_random H)"
      "body_write H i batchId (ix_payloads s) = (Inr reference, ts)" "batchId \<notin> ba_id ` set (db_batches (ix_db s))"
      "s' = \<lparr> ix_payloads = final (ix_payloads s) ts, ix_db = (ix_db s)\<lparr> db_apps := set_add (di_tenantId i, di_appId i) (db_apps (ix_db s)),
         db_batches := db_batches (ix_db s) @ [inbox_batch_of H i batchId (Some reference)],
         db_pending := db_pending (ix_db s) @ [(batchId, di_receivedAt i)], db_receipts := receipts \<rparr> \<rparr>"
      using append_stored [OF r [unfolded Inr]] by metis
    let ?b = "inbox_batch_of H i batchId (Some reference)"
    have ref: "reference = ''encrypted:'' @ batch_key_id H i batchId"
      using a(3) [unfolded body_write_def] by (rule payload_write_Inr) (simp add: batch_key_id_def)
    have read: "payload_read C key (final (ix_payloads s) ts) reference
        = (if addressable (batch_key_id H i batchId) then Inr (di_body i) else throw ''invalid payload reference'')"
      using payload_reads_back [OF C _ _ a(3) [unfolded body_write_def H(1,2)]] H(3) by (simp add: random_drawn_def batch_key_id_def)
    have "ba_input ?b = i" "ba_id ?b = batchId" "ba_body_ref ?b = Some reference" "ba_body_digest ?b = ci_sha C (di_body i)"
      using H(1) by (simp_all add: inbox_batch_of_def Let_def)
    with read ref H(3) have b: "batch_stored C key (final (ix_payloads s) ts) ?b"
      by (auto simp: batch_stored_def Let_def random_drawn_def batch_key_id_def)
    have "tracked H i batchId (ix_payloads s) \<lparr> tx_payloads = final (ix_payloads s) ts, tx_db = ix_db s, tx_ref = Some reference \<rparr>"
      using a(3) by (simp add: tracked_def)
    from tracked_reads(1) [OF this H(3)] have "reads_kept C key (ix_payloads s) (final (ix_payloads s) ts)" by simp
    moreover have "ba_id ?b = batchId" by (simp add: inbox_batch_of_def Let_def)
    ultimately show ?thesis using ok b a(4,5) unfolding r by (auto simp: inbox_ok_def list_all_iff intro: batch_stored_kept)
  qed
qed


section \<open>Concrete appends\<close>

definition sample_batch :: durable_batch_input where
  "sample_batch = \<lparr> di_tenantId = ''t'', di_appId = ''a'', di_producer = ''sdk-ios'', di_body = ''b'', di_eventCount = 2, di_receivedAt = ''r'',
     di_sdkKeyId = None, di_installationKeyId = None, di_serverKeyId = None, di_subjectDigest = None, di_requestNonce = None,
     di_requestTimestampMs = None \<rparr>"

definition sample_host :: "(inbox_call \<Rightarrow> js_error option) \<Rightarrow> string option \<Rightarrow> inbox_host" where
  "sample_host faults decision = \<lparr> ih_fault = faults, ih_commit_applied = True, ih_file_faults = (\<lambda>c. None), ih_cipher = sample_cipher,
     ih_wrappingKey = ''key'', ih_random = \<lparr> wr_suffix = ''9'', wr_dataKey = replicate 32 (CHR ''e''), wr_payloadNonce = ''p'', wr_keyNonce = ''q'' \<rparr>,
     ih_uuid_random = replicate 16 0, ih_instant = (\<lambda>s. Some 1), ih_json = (\<lambda>s. Some (JObj [(''records'', JArr [JNull,
       JObj [(''event_name'', JStr ''click''), (''producer_version'', JStr ''0.2.0'')]])])),
     ih_blocked = (\<lambda>p. False), ih_credentials = (\<lambda>t a k d. 0), ih_decision = decision \<rparr>"

definition empty_inbox :: inbox where
  "empty_inbox = \<lparr> ix_payloads = \<lparr> ps_objects = [], ps_keys = [], ps_state = None \<rparr>,
     ix_db = \<lparr> db_apps = [], db_batches = [], db_pending = [], db_receipts = [] \<rparr> \<rparr>"

definition sample_policy :: admission_policy where
  "sample_policy = \<lparr> ap_appCount = Some 1, ap_appBytes = Some 1, ap_globalCount = Some 1, ap_globalBytes = Some 1, ap_resumePercent = Some 80,
     ap_retryAfterSeconds = Some 30 \<rparr>"

lemma sample_random: "random_drawn (sample_host faults decision)"
proof -
  have "list_all file_symbol ''9''" by code_simp
  then show ?thesis by (simp add: random_drawn_def sample_host_def)
qed

lemma sample_named: "batch_named (sample_host faults decision) sample_batch"
proof -
  have "let k = batch_key_id (sample_host (\<lambda>c. None) None) sample_batch (uuidV7 1 (replicate 16 0)) in length k \<le> 512 \<and> \<not> has_dots k" by code_simp
  then show ?thesis using sample_random [of faults decision]
    by (simp add: batch_named_def sample_host_def batch_key_id_def Let_def addressable_def)
qed

theorem diagnostic_groups_closed_witness:
  "sum_list (map snd (batchDiagnosticGroups (ih_json (sample_host (\<lambda>c. None) None)) ''sdk-ios'' ''b'' 2)) = 2
    \<and> length (batchDiagnosticGroups (ih_json (sample_host (\<lambda>c. None) None)) ''sdk-ios'' ''b'' 2) = 2"
proof -
  have "length (batchDiagnosticGroups (ih_json (sample_host (\<lambda>c. None) None)) ''sdk-ios'' ''b'' 2) = 2" by code_simp
  with diagnostic_groups_closed [of 2 _ "ih_json (sample_host (\<lambda>c. None) None)" "''sdk-ios''" "''b''", OF _ refl] show ?thesis by simp
qed

lemma sample_appended:
  obtains s where "appendDurableBatch (sample_host (\<lambda>c. None) None) None None sample_batch empty_inbox =
    (Inr (uuidV7 1 (replicate 16 0)), s)" "db_batches (ix_db s) \<noteq> []"
proof -
  have "case appendDurableBatch (sample_host (\<lambda>c. None) None) None None sample_batch empty_inbox of
      (Inr k, s) \<Rightarrow> k = uuidV7 1 (replicate 16 0) \<and> db_batches (ix_db s) \<noteq> [] | _ \<Rightarrow> False" by code_simp
  then show thesis by (auto split: prod.splits sum.splits intro: that)
qed




text \<open>
  A commit that is applied although its acknowledgement is lost: the caller sees an error, the row stays, and the body it refers
  to has been purged.
\<close>

theorem lost_commit_loses_body:
  "\<exists>H i s' e b reference. appendDurableBatch H None None i empty_inbox = (Inl e, s') \<and> b \<in> set (db_batches (ix_db s'))
    \<and> ba_body_ref b = Some reference
    \<and> payload_read (ih_cipher H) (ih_wrappingKey H) (ix_payloads s') reference = throw ''payload_not_found''"
proof -
  let ?H = "sample_host (\<lambda>c. if c = Commit_Tx then Some (Error_Msg ''connection lost'') else None) None"
  have "case appendDurableBatch ?H None None sample_batch empty_inbox of
      (Inl e, s) \<Rightarrow> (case db_batches (ix_db s) of
         [b] \<Rightarrow> (case ba_body_ref b of
           Some r \<Rightarrow> payload_read (ih_cipher ?H) (ih_wrappingKey ?H) (ix_payloads s) r = throw ''payload_not_found'' | None \<Rightarrow> False)
       | _ \<Rightarrow> False)
    | _ \<Rightarrow> False" by code_simp
  then obtain e s b r where "appendDurableBatch ?H None None sample_batch empty_inbox = (Inl e, s)" "b \<in> set (db_batches (ix_db s))"
    "ba_body_ref b = Some r" "payload_read (ih_cipher ?H) (ih_wrappingKey ?H) (ix_payloads s) r = throw ''payload_not_found''"
    by (auto split: prod.splits sum.splits list.splits option.splits)
  then show ?thesis by blast
qed

end
