(* ===== verification/App_Association.thy ===== *)
theory App_Association
  imports Composite_Key Instants
begin

text \<open>
  \<open>packages/app-association/src/index.ts\<close>: the association documents of a tenant's applications. A member of
  an identity may be absent, \<open>null\<close> (a column of the database without a value) or a text; the three
  behave differently, because a regular expression tests the text of \<open>null\<close>. Documents and their JSON
  text are written out; \<open>localeCompare\<close> is the order of the keys \<open>collation\<close>.
\<close>

section \<open>Documents\<close>

datatype doc = DText string | DInt int | DBool bool | DArr "doc list" | DObj "(string \<times> doc) list"

fun doc_text :: "doc \<Rightarrow> string" and doc_texts :: "doc list \<Rightarrow> string list" and doc_members :: "(string \<times> doc) list \<Rightarrow> string list" where
  "doc_text (DText s) = json_string s"
| "doc_text (DInt n) = show_int n"
| "doc_text (DBool b) = (if b then ''true'' else ''false'')"
| "doc_text (DArr ds) = ''['' @ join '','' (doc_texts ds) @ '']''"
| "doc_text (DObj ms) = ''{'' @ join '','' (doc_members ms) @ ''}''"
| "doc_texts [] = []"
| "doc_texts (d # ds) = doc_text d # doc_texts ds"
| "doc_members [] = []"
| "doc_members (m # ms) = (json_string (fst m) @ '':'' @ doc_text (snd m)) # doc_members ms"

definition associationBytes :: "doc \<Rightarrow> string" where
  "associationBytes d = doc_text d @ [CHR 0x0A]"

section \<open>Identities\<close>

datatype js_field = Undefined | Null_Field | Field string

fun field_text :: "js_field \<Rightarrow> string" where
  "field_text Undefined = ''undefined''"
| "field_text Null_Field = ''null''"
| "field_text (Field s) = s"

fun field_truthy :: "js_field \<Rightarrow> bool" where
  "field_truthy (Field s) = (s \<noteq> [])"
| "field_truthy v = False"

record app_link_identity =
  al_app_id :: string
  al_android_package_name :: js_field
  al_android_sha256_fingerprints :: "string list option"
  al_apple_team_id :: js_field
  al_apple_bundle_id :: js_field

definition is_letter :: "char \<Rightarrow> bool" where
  "is_letter c \<longleftrightarrow> is_upper c \<or> is_lower c"

definition package_pattern :: "string \<Rightarrow> bool" where
  "package_pattern s \<longleftrightarrow> 3 \<le> length s \<and> length s \<le> 255 \<and> is_letter (hd s) \<and> list_all (\<lambda>c. is_letter c \<or> is_digit c \<or> c \<in> set ''_.'') (tl s)"

definition fingerprint_pattern :: "string \<Rightarrow> bool" where
  "fingerprint_pattern s \<longleftrightarrow> (let parts = split_on (CHR '':'') s in
     length parts = 32 \<and> list_all (\<lambda>p. length p = 2 \<and> list_all (\<lambda>c. is_digit c \<or> c \<in> set ''ABCDEF'') p) parts)"

definition team_pattern :: "string \<Rightarrow> bool" where
  "team_pattern s \<longleftrightarrow> length s = 10 \<and> list_all (\<lambda>c. is_upper c \<or> is_digit c) s"

definition bundle_pattern :: "string \<Rightarrow> bool" where
  "bundle_pattern s \<longleftrightarrow> 3 \<le> length s \<and> length s \<le> 255 \<and> (is_letter (hd s) \<or> is_digit (hd s))
     \<and> list_all (\<lambda>c. is_letter c \<or> is_digit c \<or> c \<in> set ''.-'') (tl s)"

definition fingerprints :: "app_link_identity \<Rightarrow> string list" where
  "fingerprints d = the_or [] (al_android_sha256_fingerprints d)"

definition validateAppLinkIdentity :: "app_link_identity \<Rightarrow> unit res" where
  "validateAppLinkIdentity d =
     guardR (\<not> (al_android_package_name d \<noteq> Undefined \<and> \<not> package_pattern (field_text (al_android_package_name d)))) ''android_package_name_invalid''
     (guardR (length (fingerprints d) \<le> 8) ''android_fingerprint_limit''
     (guardR (list_all fingerprint_pattern (fingerprints d)) ''android_fingerprint_invalid''
     (guardR ((al_apple_team_id d = Undefined) = (al_apple_bundle_id d = Undefined)) ''apple_identity_incomplete''
     (guardR (\<not> (al_apple_team_id d \<noteq> Undefined \<and> \<not> team_pattern (field_text (al_apple_team_id d)))) ''apple_team_id_invalid''
     (guardR (\<not> (al_apple_bundle_id d \<noteq> Undefined \<and> \<not> bundle_pattern (field_text (al_apple_bundle_id d)))) ''apple_bundle_id_invalid''
       (Inr ()))))))"

definition is_android :: "app_link_identity \<Rightarrow> bool" where
  "is_android d \<longleftrightarrow> field_truthy (al_android_package_name d) \<and> fingerprints d \<noteq> []"

definition is_apple :: "app_link_identity \<Rightarrow> bool" where
  "is_apple d \<longleftrightarrow> field_truthy (al_apple_team_id d) \<and> field_truthy (al_apple_bundle_id d)"

definition android_entry :: "app_link_identity \<Rightarrow> doc" where
  "android_entry d = DObj
     [(''relation'', DArr [DText ''delegate_permission/common.handle_all_urls'']),
      (''target'', DObj [(''namespace'', DText ''android_app''), (''package_name'', DText (field_text (al_android_package_name d))),
        (''sha256_cert_fingerprints'', DArr (map DText (sort (fingerprints d))))])]"

definition assetLinksDocument :: "(string \<Rightarrow> string) \<Rightarrow> app_link_identity list \<Rightarrow> doc res" where
  "assetLinksDocument collation identities =
     bindR (mapR (\<lambda>d. bindR (validateAppLinkIdentity d) (\<lambda>_. Inr (android_entry d)))
       (sort_key (\<lambda>d. collation (al_app_id d)) (filter is_android identities))) (\<lambda>entries. Inr (DArr entries))"

definition apple_entry :: "app_link_identity \<Rightarrow> doc" where
  "apple_entry d = DObj
     [(''appIDs'', DArr [DText (field_text (al_apple_team_id d) @ ''.'' @ field_text (al_apple_bundle_id d))]),
      (''components'', DArr [DObj [(''/'', DText ''/r/*'')]])]"

definition appleAssociationDocument :: "(string \<Rightarrow> string) \<Rightarrow> app_link_identity list \<Rightarrow> doc res" where
  "appleAssociationDocument collation identities =
     bindR (mapR (\<lambda>d. bindR (validateAppLinkIdentity d) (\<lambda>_. Inr (apple_entry d)))
       (sort_key (\<lambda>d. collation (al_app_id d)) (filter is_apple identities))) (\<lambda>entries.
       Inr (DObj [(''applinks'', DObj [(''details'', DArr entries)])]))"

section \<open>What is served\<close>

lemma validated_entries:
  assumes "mapR (\<lambda>d. bindR (validateAppLinkIdentity d) (\<lambda>_. Inr (f d))) xs = Inr ys"
  shows "ys = map f xs \<and> list_all (\<lambda>d. validateAppLinkIdentity d = Inr ()) xs"
  using assms by (induction xs arbitrary: ys) (auto simp: bindR_eq_Inr)

lemma validate_Inr: "validateAppLinkIdentity d = Inr () \<Longrightarrow>
    (al_android_package_name d = Undefined \<or> package_pattern (field_text (al_android_package_name d))) \<and> length (fingerprints d) \<le> 8
    \<and> list_all fingerprint_pattern (fingerprints d)
    \<and> (al_apple_team_id d = Undefined \<or> team_pattern (field_text (al_apple_team_id d)))
    \<and> (al_apple_bundle_id d = Undefined \<or> bundle_pattern (field_text (al_apple_bundle_id d)))"
  by (auto simp: validateAppLinkIdentity_def guardR_eq_Inr)

text \<open>The asset links list every application with an Android package and fingerprints exactly once, and each listed package and
  fingerprint has the form that the platform demands.\<close>

theorem asset_links_sound:
  assumes "assetLinksDocument collation identities = Inr d"
  shows "\<exists>served. d = DArr (map android_entry served) \<and> mset served = mset (filter is_android identities)
    \<and> sorted (map (\<lambda>i. collation (al_app_id i)) served)
    \<and> list_all (\<lambda>i. package_pattern (field_text (al_android_package_name i)) \<and> length (fingerprints i) \<le> 8
        \<and> list_all fingerprint_pattern (fingerprints i)) served"
proof -
  let ?served = "sort_key (\<lambda>d. collation (al_app_id d)) (filter is_android identities)"
  from assms obtain entries where e: "mapR (\<lambda>d. bindR (validateAppLinkIdentity d) (\<lambda>_. Inr (android_entry d))) ?served = Inr entries"
    "d = DArr entries" by (auto simp: assetLinksDocument_def bindR_eq_Inr)
  have named: "al_android_package_name i \<noteq> Undefined" if "i \<in> set ?served" for i
    using that by (cases "al_android_package_name i") (auto simp: is_android_def)
  have "list_all (\<lambda>d. validateAppLinkIdentity d = Inr ()) ?served" using validated_entries [OF e(1)] by blast
  then have "list_all (\<lambda>i. package_pattern (field_text (al_android_package_name i)) \<and> length (fingerprints i) \<le> 8
        \<and> list_all fingerprint_pattern (fingerprints i)) ?served"
    unfolding list_all_iff using named validate_Inr by (metis list_all_iff)
  then show ?thesis using e(2) validated_entries [OF e(1)] by (intro exI [of _ ?served]) (simp add: mset_filter)
qed

text \<open>A row of an application with an Android package only has no value in its Apple columns. The validation then tests the
  text of \<open>null\<close> as a team identifier, so no asset links are produced for the tenant at all.\<close>

theorem android_only_unserved:
  assumes "d \<in> set identities" "is_android d" "al_apple_team_id d = Null_Field"
  shows "\<exists>e. assetLinksDocument collation identities = Inl e"
proof (cases "assetLinksDocument collation identities")
  case (Inr doc)
  then obtain entries where e: "mapR (\<lambda>d. bindR (validateAppLinkIdentity d) (\<lambda>_. Inr (android_entry d)))
      (sort_key (\<lambda>d. collation (al_app_id d)) (filter is_android identities)) = Inr entries"
    by (auto simp: assetLinksDocument_def bindR_eq_Inr)
  have "validateAppLinkIdentity d = Inr ()" using validated_entries [OF e] assms(1,2) by (auto simp: list_all_iff)
  moreover have "\<not> team_pattern ''null''" by code_simp
  ultimately show ?thesis using validate_Inr [of d] assms(3) by simp
qed simp

section \<open>Concrete identities\<close>

definition sample_fingerprint :: string where
  "sample_fingerprint = join '':'' (replicate 32 ''0A'')"

definition sample_identity :: app_link_identity where
  "sample_identity = \<lparr> al_app_id = ''a'', al_android_package_name = Field ''dev.app'', al_android_sha256_fingerprints = Some [sample_fingerprint],
     al_apple_team_id = Field ''ABCDE12345'', al_apple_bundle_id = Field ''dev.app'' \<rparr>"

theorem asset_links_sound_witness:
  "\<exists>d. assetLinksDocument id [sample_identity] = Inr d \<and> d = DArr [android_entry sample_identity]"
proof -
  have "case assetLinksDocument id [sample_identity] of Inr d \<Rightarrow> True | _ \<Rightarrow> False" by code_simp
  then obtain d where d: "assetLinksDocument id [sample_identity] = Inr d" by (auto split: sum.splits)
  have "is_android sample_identity" by code_simp
  with asset_links_sound [OF d] d show ?thesis by auto
qed

theorem android_only_unserved_witness:
  "\<exists>e. assetLinksDocument id [sample_identity, sample_identity\<lparr>al_apple_team_id := Null_Field, al_apple_bundle_id := Null_Field\<rparr>] = Inl e"
proof -
  have "is_android (sample_identity\<lparr>al_apple_team_id := Null_Field, al_apple_bundle_id := Null_Field\<rparr>)" by code_simp
  then show ?thesis by (intro android_only_unserved) auto
qed

lemma association_example:
  "associationBytes (DObj [(''applinks'', DObj [(''details'', DArr [DBool True, DInt (-1)])])])
    = [CHR 0x7B, CHR 0x22] @ ''applinks'' @ [CHR 0x22] @ '':{'' @ [CHR 0x22] @ ''details'' @ [CHR 0x22] @ '':[true,-1]}}'' @ [CHR 0x0A]"
  by code_simp

end
