(* ===== verification/Redirector_Service.thy ===== *)
theory Redirector_Service
  imports Redirector App_Association Durable_Inbox Rate_Limit
begin

text \<open>
  \<open>apps/redirector/src/handler.ts\<close> and the address bucket of \<open>server.ts\<close>: one request of the redirector, from
  the health checks over the association documents to the redirect that is answered only after its click
  is in the durable inbox. The state is the two buckets and the inbox; a request either gets an answer or
  ends in an error that nobody handles. The URL parser, the tables of links, hosts and identities, the
  clock and random numbers are arguments.
\<close>

section \<open>Address buckets\<close>

record bucket_config =
  bc_rate :: rat
  bc_burst :: rat
  bc_maximum :: nat

type_synonym buckets = "(string, token_bucket) jsmap"

fun evict_front :: "nat \<Rightarrow> buckets \<Rightarrow> buckets" where
  "evict_front maximum [] = []"
| "evict_front maximum (e # es) = (if maximum < length (e # es) then evict_front maximum es else e # es)"

definition ip_tokens :: "bucket_config \<Rightarrow> rat \<Rightarrow> string \<Rightarrow> buckets \<Rightarrow> rat" where
  "ip_tokens c now key es = refilled (bc_rate c) (bc_burst c) now (the_or \<lparr> tb_tokens = bc_burst c, tb_updatedAt = now \<rparr> (map_get es key))"

definition ip_allow :: "bucket_config \<Rightarrow> rat \<Rightarrow> string \<Rightarrow> buckets \<Rightarrow> bool \<times> buckets" where
  "ip_allow c now key es =
     (let tokens = ip_tokens c now key es; allowed = 1 \<le> tokens;
          current = \<lparr> tb_tokens = (if allowed then dsub tokens 1 else tokens), tb_updatedAt = now \<rparr>
      in (allowed, evict_front (bc_maximum c) (filter (\<lambda>e. fst e \<noteq> key) es @ [(key, current)])))"

definition ip_classify :: "bucket_config \<Rightarrow> string \<Rightarrow> buckets \<Rightarrow> string" where
  "ip_classify c key es =
     (case map_get es key of
        None \<Rightarrow> ''normal''
      | Some b \<Rightarrow> if tb_tokens b < 1 then ''saturated''
          else if tb_tokens b < max 2 (ddiv (bc_burst c) 4) then ''elevated'' else ''normal'')"

section \<open>Requests and answers\<close>

record http_request =
  hq_method :: string
  hq_url :: "string option"
  hq_host :: "string option"
  hq_user_agent :: "string option"
  hq_purpose :: "string option"
  hq_sec_purpose :: "string option"
  hq_remoteAddress :: "string option"

record http_answer =
  ha_status :: int
  ha_headers :: "(string \<times> string) list"
  ha_body :: string

record redirector_dependencies =
  rd_readiness :: "bool res option"
  rd_tenantId :: string
  rd_fallbackUrl :: string
  rd_limiter :: bucket_config
  rd_wellKnownLimiter :: "bucket_config option"
  rd_fixedTenant :: bool
  rd_referrerMaximum :: "nat option"
  rd_wellKnownCacheSeconds :: "int option"
  rd_wellKnownMaximumBytes :: "nat option"
  rd_clientClassEnabled :: "bool option"
  rd_sharedProxy :: bool
  rd_remoteClickParameter :: "string option"
  rd_now :: string
  rd_monotonic :: rat
  rd_env :: "string \<Rightarrow> string option"
  rd_host :: inbox_host
  rd_target_of :: "string \<Rightarrow> url option"
  rd_url_of :: "string \<Rightarrow> url option"
  rd_url_text :: "url \<Rightarrow> string"
  rd_collation :: "string \<Rightarrow> string"
  rd_randomBytes :: "nat \<Rightarrow> nat list"
  rd_uuids :: "string \<times> string \<times> string"
  rd_resolveHost :: "string \<Rightarrow> string option res"
  rd_links :: "string \<Rightarrow> string \<Rightarrow> tracking_link option res"
  rd_domainRows :: "string \<Rightarrow> string \<Rightarrow> nat res"
  rd_identities :: "string \<Rightarrow> app_link_identity list res"

record redirector =
  rs_limiter :: buckets
  rs_wellKnown :: buckets
  rs_inbox :: inbox

definition empty_answer :: "int \<Rightarrow> (string \<times> string) list \<Rightarrow> http_answer" where
  "empty_answer status headers = \<lparr> ha_status = status, ha_headers = headers, ha_body = [] \<rparr>"

definition not_found :: http_answer where
  "not_found = empty_answer 404 []"

definition too_many :: http_answer where
  "too_many = empty_answer 429 [(''cache-control'', ''no-store''), (''retry-after'', ''1'')]"

definition send :: "redirect_resolution \<Rightarrow> http_answer" where
  "send r = \<lparr> ha_status = rz_status r, ha_headers = rz_headers r, ha_body = rz_body r \<rparr>"

text \<open>The whole seconds of the retry header; a policy admits no other.\<close>

definition capacity_answer :: "capacity_error \<Rightarrow> http_answer" where
  "capacity_answer e = empty_answer (capacity_status e)
     [(''retry-after'', integer_text \<lfloor>ce_retryAfterSeconds e\<rfloor>), (''cache-control'', ''no-store'')]"

definition error_answer :: "redirector_dependencies \<Rightarrow> append_error \<Rightarrow> http_answer" where
  "error_answer D e = (case e of Capacity_Error c \<Rightarrow> capacity_answer c | Plain_Error m \<Rightarrow> send (fallbackResponse (rd_fallbackUrl D)))"

section \<open>Health\<close>

definition url_path :: "string \<Rightarrow> string" where
  "url_path url = hd (split_on (CHR ''?'') url)"

definition serveRuntimeHealth :: "redirector_dependencies \<Rightarrow> http_request \<Rightarrow> http_answer option" where
  "serveRuntimeHealth D rq =
     (let path = map_option url_path (hq_url rq);
          reply = (\<lambda>ready. \<lparr> ha_status = (if ready then 200 else 503), ha_headers = [(''content-type'', ''application/json''), (''cache-control'', ''no-store'')],
            ha_body = doc_text (DObj [(''status'', DText (if path = Some ''/health'' then ''ok'' else if ready then ''ready'' else ''not_ready''))]) \<rparr>) in
      if hq_method rq \<noteq> ''GET'' \<or> path \<noteq> Some ''/health'' \<and> path \<noteq> Some ''/ready'' then None
      else if path = Some ''/health'' then Some (reply True)
      else Some (reply (case rd_readiness D of Some (Inr ready) \<Rightarrow> ready | _ \<Rightarrow> False)))"

section \<open>Hosts and tenants\<close>

definition host_symbol :: "char \<Rightarrow> bool" where
  "host_symbol c \<longleftrightarrow> is_lower c \<or> is_digit c \<or> c \<in> set ''.-''"

text \<open>A host with a letter outside ASCII is no host whatever its lower case, so only ASCII letters matter here.\<close>

definition normalizedHost :: "http_request \<Rightarrow> string option" where
  "normalizedHost rq =
     (let v = map lower_ascii (hd (split_on (CHR '':'') (the_or [] (hq_host rq))));
          host = (if v \<noteq> [] \<and> last v = CHR ''.'' then butlast v else v)
      in if 3 \<le> length host \<and> length host \<le> 253 \<and> list_all host_symbol host then Some host else None)"

definition tenantForRequest :: "redirector_dependencies \<Rightarrow> string option \<Rightarrow> string option res" where
  "tenantForRequest D host =
     (if rd_fixedTenant D then Inr (Some (rd_tenantId D))
      else case host of None \<Rightarrow> Inr None | Some h \<Rightarrow> rd_resolveHost D h)"

section \<open>Association documents\<close>

definition loadAssociation :: "redirector_dependencies \<Rightarrow> string \<Rightarrow> string \<Rightarrow> (string \<times> string) option res" where
  "loadAssociation D tenantId host =
     guardR (identifier_ok tenantId) (''invalid tenant identifier: '' @ tenantId)
     (bindR (rd_domainRows D tenantId host) (\<lambda>rows.
      if rows \<noteq> 1 then Inr None
      else bindR (rd_identities D tenantId) (\<lambda>identities.
           bindR (assetLinksDocument (rd_collation D) identities) (\<lambda>assetlinks.
           bindR (appleAssociationDocument (rd_collation D) identities) (\<lambda>aasa.
             Inr (Some (associationBytes assetlinks, associationBytes aasa)))))))"

definition association_answer :: "redirector_dependencies \<Rightarrow> string \<Rightarrow> string \<Rightarrow> string \<Rightarrow> http_answer" where
  "association_answer D path host tenantId =
     (case loadAssociation D tenantId host of
        Inr (Some documents) \<Rightarrow>
          (let body = (if path = ''/.well-known/assetlinks.json'' then fst documents else snd documents) in
           if the_or 65536 (rd_wellKnownMaximumBytes D) < length body
           then empty_answer 503 [(''cache-control'', ''no-store''), (''x-content-type-options'', ''nosniff'')]
           else \<lparr> ha_status = 200, ha_headers = [(''cache-control'', ''public, max-age='' @ integer_text (the_or 300 (rd_wellKnownCacheSeconds D))),
                   (''content-type'', ''application/json''), (''content-length'', show_nat (length body)), (''x-content-type-options'', ''nosniff'')],
                 ha_body = body \<rparr>)
      | _ \<Rightarrow> not_found)"

definition well_known_path :: "string \<Rightarrow> bool" where
  "well_known_path path \<longleftrightarrow> path = ''/.well-known/assetlinks.json'' \<or> path = ''/.well-known/apple-app-site-association''"

definition serve_well_known :: "redirector_dependencies \<Rightarrow> string \<Rightarrow> string option \<Rightarrow> string option \<Rightarrow> redirector \<Rightarrow> http_answer \<times> redirector" where
  "serve_well_known D path host tenant s =
     (let r = (case rd_wellKnownLimiter D of None \<Rightarrow> (True, rs_wellKnown s) | Some c \<Rightarrow> ip_allow c (rd_monotonic D) ''well-known'' (rs_wellKnown s));
          t = s\<lparr>rs_wellKnown := snd r\<rparr> in
      if \<not> fst r then (too_many, t)
      else case host of
        None \<Rightarrow> (not_found, t)
      | Some h \<Rightarrow> if truthy tenant then (association_answer D path h (the_or [] tenant), t) else (not_found, t))"

section \<open>Clicks\<close>

fun client_text :: "client_class \<Rightarrow> string" where
  "client_text Mobile_App_Eligible = ''mobile_app_eligible''" | "client_text Bot = ''bot''" | "client_text Other_Client = ''other''"

fun deferred_text :: "deferred_status \<Rightarrow> string" where
  "deferred_text Carried = ''carried''" | "deferred_text Omitted_Length = ''omitted_length''" | "deferred_text Not_Configured = ''not_configured''"

definition text_member :: "string \<Rightarrow> string option \<Rightarrow> (string \<times> doc) list" where
  "text_member name v = (if truthy v then [(name, DText (the_or [] v))] else [])"

text \<open>What the record of a click and of a prefetch share.\<close>

record click_fields =
  cl_tenant_id :: string
  cl_app_id :: string
  cl_tracking_link_id :: string
  cl_at :: string
  cl_campaign_id :: "string option"
  cl_ad_group_id :: "string option"
  cl_creative_id :: "string option"
  cl_network :: "string option"
  cl_site_id :: "string option"
  cl_remote_click_ref :: "string option"
  cl_source_rate_class :: "string option"
  cl_client_class :: "string option"
  cl_click_id :: "string option"
  cl_deep_link_value :: "string option"
  cl_deferred_status :: "string option"
  cl_bot_prefetch :: bool

definition fields_of_click :: "redirect_click \<Rightarrow> click_fields" where
  "fields_of_click c =
     \<lparr> cl_tenant_id = rk_tenant_id c, cl_app_id = rk_app_id c, cl_tracking_link_id = rk_tracking_link_id c, cl_at = rk_redirector_click_at c,
       cl_campaign_id = rk_campaign_id c, cl_ad_group_id = rk_ad_group_id c, cl_creative_id = rk_creative_id c, cl_network = rk_network c,
       cl_site_id = rk_site_id c, cl_remote_click_ref = rk_remote_click_ref c, cl_source_rate_class = rk_source_rate_class c,
       cl_client_class = map_option client_text (rk_client_class c), cl_click_id = Some (rk_click_id c), cl_deep_link_value = rk_deep_link_value c,
       cl_deferred_status = Some (deferred_text (rk_deferred_deep_link_status c)), cl_bot_prefetch = rk_bot_prefetch c \<rparr>"

definition fields_of_prefetch :: "redirect_prefetch \<Rightarrow> click_fields" where
  "fields_of_prefetch p =
     \<lparr> cl_tenant_id = rp_tenant_id p, cl_app_id = rp_app_id p, cl_tracking_link_id = rp_tracking_link_id p, cl_at = rp_redirector_click_at p,
       cl_campaign_id = rp_campaign_id p, cl_ad_group_id = rp_ad_group_id p, cl_creative_id = rp_creative_id p, cl_network = rp_network p,
       cl_site_id = rp_site_id p, cl_remote_click_ref = rp_remote_click_ref p, cl_source_rate_class = rp_source_rate_class p,
       cl_client_class = Some (client_text (rp_client_class p)), cl_click_id = None, cl_deep_link_value = None, cl_deferred_status = None,
       cl_bot_prefetch = True \<rparr>"

definition click_payload :: "click_fields \<Rightarrow> (string \<times> doc) list" where
  "click_payload c =
     (case cl_click_id c of None \<Rightarrow> [] | Some k \<Rightarrow> [(''click_id'', DText k)])
     @ [(''tracking_link_id'', DText (cl_tracking_link_id c)), (''redirector_click_at'', DText (cl_at c)),
        (''redirector_time_status'', DText ''available'')]
     @ text_member ''campaign_id'' (cl_campaign_id c) @ text_member ''ad_group_id'' (cl_ad_group_id c)
     @ text_member ''creative_id'' (cl_creative_id c) @ text_member ''network'' (cl_network c) @ text_member ''site_id'' (cl_site_id c)
     @ text_member ''remote_click_ref'' (cl_remote_click_ref c) @ text_member ''source_rate_class'' (cl_source_rate_class c)
     @ text_member ''client_class'' (cl_client_class c) @ text_member ''deep_link_value'' (cl_deep_link_value c)
     @ text_member ''deferred_deep_link_status'' (cl_deferred_status c)
     @ (if cl_bot_prefetch c then [(''bot_prefetch'', DBool True)] else [])"

definition click_record :: "string \<times> string \<times> string \<Rightarrow> click_fields \<Rightarrow> (string \<times> doc) list" where
  "click_record uuids c =
     [(''contract_version'', DText ''0.4.0''), (''record_id'', DText (''record:'' @ fst uuids)), (''delivery_id'', DText (''delivery:'' @ fst (snd uuids))),
      (''tenant_id'', DText (cl_tenant_id c)), (''app_id'', DText (cl_app_id c)), (''producer'', DText ''redirector''),
      (''producer_version'', DText ''0.1.0''),
      (''event_id'', DText (case cl_click_id c of Some k \<Rightarrow> ''event:click:'' @ k | None \<Rightarrow> ''event:prefetch:'' @ snd (snd uuids))),
      (''event_name'', DText ''click''), (''schema_version'', DText ''0.4.0''), (''occurred_at'', DText (cl_at c)), (''occurred_at_source'', DText ''server''),
      (''received_at'', DText (cl_at c)), (''processing_purpose_id'', DText ''analytics''), (''processing_sequence'', DInt 1),
      (''payload'', DObj (click_payload c))]"

definition click_fields_of :: "redirect_resolution \<Rightarrow> click_fields option" where
  "click_fields_of r =
     (case rz_click r of Some c \<Rightarrow> Some (fields_of_click c) | None \<Rightarrow> map_option fields_of_prefetch (rz_prefetch r))"

definition click_input :: "redirector_dependencies \<Rightarrow> click_fields \<Rightarrow> durable_batch_input" where
  "click_input D c =
     \<lparr> di_tenantId = cl_tenant_id c, di_appId = cl_app_id c, di_producer = ''redirector'',
       di_body = doc_text (DObj [(''records'', DArr [DObj (click_record (rd_uuids D) c)])]), di_eventCount = 1, di_receivedAt = cl_at c,
       di_sdkKeyId = None, di_installationKeyId = None, di_serverKeyId = None, di_subjectDigest = None, di_requestNonce = None,
       di_requestTimestampMs = None \<rparr>"

definition persistClick :: "redirector_dependencies \<Rightarrow> redirect_resolution \<Rightarrow> inbox \<Rightarrow> (append_error + unit) \<times> inbox" where
  "persistClick D r s =
     (case click_fields_of r of
        None \<Rightarrow> (Inr (), s)
      | Some c \<Rightarrow>
          (case readInboxAdmissionPolicy (rd_env D) of
             Inl e \<Rightarrow> (Inl (Plain_Error e), s)
           | Inr policy \<Rightarrow>
               (case appendDurableBatch (rd_host D) policy None (click_input D c) s of
                  (Inl e, t) \<Rightarrow> (Inl e, t) | (Inr k, t) \<Rightarrow> (Inr (), t))))"

text \<open>A resolution is answered only when its click is stored.\<close>

definition answer_resolution :: "redirector_dependencies \<Rightarrow> redirect_resolution res \<Rightarrow> redirector \<Rightarrow> http_answer \<times> redirector" where
  "answer_resolution D resolution s =
     (case resolution of
        Inl e \<Rightarrow> (error_answer D (Plain_Error e), s)
      | Inr r \<Rightarrow>
          (case persistClick D r (rs_inbox s) of
             (Inl e, i) \<Rightarrow> (error_answer D e, s\<lparr>rs_inbox := i\<rparr>)
           | (Inr u, i) \<Rightarrow> (send r, s\<lparr>rs_inbox := i\<rparr>)))"

section \<open>Redirects\<close>

text \<open>The path \<open>/r/\<close> with a slug, and the rest of the path when there is more.\<close>

definition redirect_path :: "string \<Rightarrow> (string \<times> string) option" where
  "redirect_path path =
     (if starts_with path ''/r/'' then
        (let slug = takeWhile id_symbol (drop 3 path); rest = dropWhile id_symbol (drop 3 path) in
         if 12 \<le> length slug \<and> length slug \<le> 64 \<and> (rest = [] \<or> hd rest = CHR ''/'') then Some (slug, rest) else None)
      else None)"

definition remote_ref_ok :: "string \<Rightarrow> bool" where
  "remote_ref_ok s \<longleftrightarrow> 1 \<le> length s \<and> length s \<le> 128 \<and> list_all (\<lambda>c. id_symbol c \<or> c \<in> set ''.~'') s"

definition prefetch_purpose :: "http_request \<Rightarrow> bool" where
  "prefetch_purpose rq \<longleftrightarrow> contains_text (map lower_ascii (the_or [] (hq_purpose rq) @ '' '' @ the_or [] (hq_sec_purpose rq))) ''prefetch''"

definition redirect_options_of :: "redirector_dependencies \<Rightarrow> http_request \<Rightarrow> url \<Rightarrow> tracking_link \<Rightarrow> string option \<Rightarrow> string option \<Rightarrow> buckets \<Rightarrow>
    redirect_options" where
  "redirect_options_of D rq target link directLink remoteRef limiter =
     \<lparr> ro_link = Some link, ro_fallbackDestination = rd_fallbackUrl D, ro_now = rd_now D, ro_clickId = None,
       ro_remoteClickRef = (if truthy remoteRef then remoteRef else None),
       ro_sourceRateClass = (if rd_sharedProxy D then None else Some (ip_classify (rd_limiter D) (the_or ''unknown'' (hq_remoteAddress rq)) limiter)),
       ro_clientClass = (if rd_clientClassEnabled D = Some False then None else Some (classifyClientClass (the_or [] (hq_user_agent rq)))),
       ro_deepLinkParams = Some (fst (bindDeepLinkParameters (ur_params target) (the_or [] (tl_deep_link_param_names link)))),
       ro_referrerMaximumEncodedCharacters = Some (the_or 512 (rd_referrerMaximum D)),
       ro_deepLinkValue = directLink,
       ro_platform = Some (if contains_text (map lower_ascii (the_or [] (hq_user_agent rq))) ''android'' then Android else Other_Platform) \<rparr>"

definition loadLink :: "redirector_dependencies \<Rightarrow> string \<Rightarrow> string \<Rightarrow> tracking_link option res" where
  "loadLink D tenantId slug =
     guardR (identifier_ok tenantId) (''invalid tenant identifier: '' @ tenantId) (rd_links D tenantId slug)"

definition serve_link :: "redirector_dependencies \<Rightarrow> http_request \<Rightarrow> url \<Rightarrow> string \<Rightarrow> string \<Rightarrow> string \<Rightarrow> redirector \<Rightarrow> http_answer \<times> redirector" where
  "serve_link D rq target tenantId slug rest s =
     (let fallback = send (fallbackResponse (rd_fallbackUrl D)) in
      case loadLink D tenantId slug of
        Inr (Some link) \<Rightarrow>
          if tl_status link \<noteq> Active then (fallback, s)
          else if rest \<noteq> [] \<and> \<not> deep_link_ok rest then (fallback, s)
          else
            let remoteRef = params_get (ur_params target) (the_or ''cid'' (rd_remoteClickParameter D));
                directLink = (if rest \<noteq> [] then Some rest else None);
                ro = redirect_options_of D rq target link directLink remoteRef (rs_limiter s) in
            if truthy remoteRef \<and> \<not> remote_ref_ok (the_or [] remoteRef) then (fallback, s)
            else if prefetch_purpose rq then answer_resolution D (Inr (prefetchEvidence ro link)) s
            else answer_resolution D (resolveRedirect (rd_url_of D) (rd_url_text D) (rd_collation D) (rd_randomBytes D) ro) s
      | _ \<Rightarrow> (fallback, s))"

definition serve_redirect :: "redirector_dependencies \<Rightarrow> http_request \<Rightarrow> url \<Rightarrow> string option \<Rightarrow> redirector \<Rightarrow> http_answer \<times> redirector" where
  "serve_redirect D rq target tenant s =
     (let fallback = send (fallbackResponse (rd_fallbackUrl D)) in
      case (if hq_method rq = ''GET'' then redirect_path (ur_pathname target) else None) of
        None \<Rightarrow> (fallback, s)
      | Some (slug, rest) \<Rightarrow>
          if \<not> truthy tenant then (fallback, s)
          else
            let r = ip_allow (rd_limiter D) (rd_monotonic D) (the_or ''unknown'' (hq_remoteAddress rq)) (rs_limiter s);
                t = s\<lparr>rs_limiter := snd r\<rparr> in
            if \<not> fst r then (too_many, t) else serve_link D rq target (the_or [] tenant) slug rest t)"

section \<open>The handler\<close>

text \<open>\<open>Inl\<close> is an error of the handler's promise, which nothing handles. \<open>rd_target_of\<close> parses relative to the service's own
  origin, \<open>rd_url_of\<close> without a base.\<close>

definition handle_request :: "redirector_dependencies \<Rightarrow> http_request \<Rightarrow> redirector \<Rightarrow> (js_error + http_answer) \<times> redirector" where
  "handle_request D rq s =
     (case serveRuntimeHealth D rq of
        Some a \<Rightarrow> (Inr a, s)
      | None \<Rightarrow>
          (case parse_url (rd_target_of D) (the_or ''/'' (hq_url rq)) of
             Inl e \<Rightarrow> (Inl e, s)
           | Inr target \<Rightarrow>
               let host = normalizedHost rq in
               (case tenantForRequest D host of
                  Inl e \<Rightarrow> (Inr not_found, s)
                | Inr tenant \<Rightarrow>
                    let r = (if hq_method rq = ''GET'' \<and> well_known_path (ur_pathname target) then serve_well_known D (ur_pathname target) host tenant s
                             else serve_redirect D rq target tenant s) in (Inr (fst r), snd r))))"

section \<open>Buckets stay bounded\<close>

lemma evict_front_drop: "evict_front maximum es = drop (length es - maximum) es"
  by (induction es) (auto simp: Suc_diff_le)

text \<open>After every request the bucket of its address is the newest of at most the configured number, each address once; the ones
  that were evicted are the ones used least recently.\<close>

theorem address_buckets_bounded:
  assumes "distinct (map fst es)" "1 \<le> bc_maximum c"
  shows "length (snd (ip_allow c now key es)) \<le> bc_maximum c \<and> distinct (map fst (snd (ip_allow c now key es)))
    \<and> fst (last (snd (ip_allow c now key es))) = key
    \<and> (\<exists>evicted. filter (\<lambda>e. fst e \<noteq> key) es = evicted @ butlast (snd (ip_allow c now key es)))"
proof -
  obtain b where r: "snd (ip_allow c now key es) = evict_front (bc_maximum c) (filter (\<lambda>e. fst e \<noteq> key) es @ [(key, b)])"
    by (simp add: ip_allow_def Let_def)
  let ?old = "filter (\<lambda>e. fst e \<noteq> key) es"
  have e: "evict_front (bc_maximum c) (?old @ [(key, b)]) = drop (Suc (length ?old) - bc_maximum c) ?old @ [(key, b)]"
    using assms(2) by (simp add: evict_front_drop)
  have "distinct (map fst ?old)" using assms(1) by (simp add: distinct_map_filter)
  then have "distinct (map fst (drop (Suc (length ?old) - bc_maximum c) ?old @ [(key, b)]))"
    by (auto simp: drop_map [symmetric] dest!: in_set_dropD)
  moreover have "?old = take (Suc (length ?old) - bc_maximum c) ?old @ drop (Suc (length ?old) - bc_maximum c) ?old" by simp
  ultimately show ?thesis unfolding r e using assms(2) by (auto simp del: append_take_drop_id)
qed

section \<open>Answers and clicks\<close>

text \<open>The inbox after a click that was stored.\<close>

definition click_stored :: "redirector_dependencies \<Rightarrow> click_fields \<Rightarrow> redirector \<Rightarrow> redirector \<Rightarrow> bool" where
  "click_stored D c s t \<longleftrightarrow> (\<exists>b. db_batches (ix_db (rs_inbox t)) = db_batches (ix_db (rs_inbox s)) @ [b] \<and> ba_input b = click_input D c)"

lemma persistClick_stored:
  assumes "persistClick D r i = (Inr u, j)" "click_fields_of r = Some c"
  shows "\<exists>b. db_batches (ix_db j) = db_batches (ix_db i) @ [b] \<and> ba_input b = click_input D c"
proof -
  from assms obtain policy k where a: "appendDurableBatch (rd_host D) policy None (click_input D c) i = (Inr k, j)"
    by (auto simp: persistClick_def split: sum.splits prod.splits)
  show ?thesis by (rule append_stored [OF a]) (simp add: inbox_batch_of_def Let_def)
qed

text \<open>The location of an answer, and a request that leaves the inbox as it was.\<close>

definition ha_location :: "http_answer \<Rightarrow> string option" where
  "ha_location a = map_get (ha_headers a) ''location''"

definition inbox_untouched :: "redirector \<Rightarrow> redirector \<Rightarrow> bool" where
  "inbox_untouched s t \<longleftrightarrow> rs_inbox t = rs_inbox s"

lemma ha_location_simps [simp]:
  "ha_location (send r) = map_get (rz_headers r) ''location''" "ha_location not_found = None" "ha_location too_many = None"
  "ha_location (capacity_answer e) = None"
  by (simp_all add: ha_location_def send_def not_found_def too_many_def capacity_answer_def empty_answer_def map_get_def)

lemma redirect_headers_location [simp]: "map_get (redirect_headers l) ''location'' = Some l"
  by (simp add: redirect_headers_def map_get_def)

lemma fallback_location [simp]: "map_get (rz_headers (fallbackResponse f)) ''location'' = Some f"
  by (simp add: fallbackResponse_def)

lemma error_answer_location: "ha_location (error_answer D e) \<in> {None, Some (rd_fallbackUrl D)}"
  by (cases e) (simp_all add: error_answer_def)

lemma prefetch_parts [simp]:
  "rz_click (prefetchEvidence ro link) = None" "map_get (rz_headers (prefetchEvidence ro link)) ''location'' = Some (ro_fallbackDestination ro)"
  by (simp_all add: prefetchEvidence_def fallbackResponse_def)

text \<open>Every way a link can be served: the fallback without a trace, or a resolution that is answered.\<close>

lemma serve_link_cases:
  obtains (fallback) "serve_link D rq target tenantId slug rest s = (send (fallbackResponse (rd_fallbackUrl D)), s)"
  | (prefetch) link ro where "prefetch_purpose rq" "tl_status link = Active" "ro_fallbackDestination ro = rd_fallbackUrl D" "rd_links D tenantId slug = Inr (Some link)"
      "serve_link D rq target tenantId slug rest s = answer_resolution D (Inr (prefetchEvidence ro link)) s"
  | (click) link ro where "\<not> prefetch_purpose rq" "tl_status link = Active" "ro_link ro = Some link" "ro_fallbackDestination ro = rd_fallbackUrl D"
      "rd_links D tenantId slug = Inr (Some link)"
      "serve_link D rq target tenantId slug rest s =
        answer_resolution D (resolveRedirect (rd_url_of D) (rd_url_text D) (rd_collation D) (rd_randomBytes D) ro) s"
proof (cases "loadLink D tenantId slug")
  case (Inr found)
  show thesis
  proof (cases found)
    case (Some link)
    have l: "rd_links D tenantId slug = Inr (Some link)" using Inr Some by (auto simp: loadLink_def guardR_eq_Inr)
    show thesis
    proof (cases "tl_status link \<noteq> Active \<or> rest \<noteq> [] \<and> \<not> deep_link_ok rest
        \<or> truthy (params_get (ur_params target) (the_or ''cid'' (rd_remoteClickParameter D)))
          \<and> \<not> remote_ref_ok (the_or [] (params_get (ur_params target) (the_or ''cid'' (rd_remoteClickParameter D))))")
      case True
      then show thesis using Inr Some by (intro fallback) (auto simp: serve_link_def Let_def)
    next
      case False
      define ro where "ro = redirect_options_of D rq target link (if rest \<noteq> [] then Some rest else None)
        (params_get (ur_params target) (the_or ''cid'' (rd_remoteClickParameter D))) (rs_limiter s)"
      have ro: "ro_link ro = Some link" "ro_fallbackDestination ro = rd_fallbackUrl D" by (simp_all add: ro_def redirect_options_of_def)
      have r: "serve_link D rq target tenantId slug rest s =
          (if prefetch_purpose rq then answer_resolution D (Inr (prefetchEvidence ro link)) s
           else answer_resolution D (resolveRedirect (rd_url_of D) (rd_url_text D) (rd_collation D) (rd_randomBytes D) ro) s)"
        unfolding serve_link_def Let_def using Inr Some False by (auto simp: ro_def [symmetric])
      show thesis
      proof (cases "prefetch_purpose rq")
        case True
        with r False ro l show thesis by (intro prefetch [of link ro]) auto
      next
        case not: False
        with r False ro l show thesis by (intro click [of link ro]) auto
      qed
    qed
  qed (use Inr in \<open>auto simp: serve_link_def Let_def intro: fallback\<close>)
qed (auto simp: serve_link_def Let_def intro: fallback)

lemma answer_resolution_cases:
  assumes "answer_resolution D resolution s = (a, t)"
  obtains (failed) e where "a = error_answer D e"
  | (sent) r where "resolution = Inr r" "a = send r" "click_fields_of r = None" "t = s"
  | (stored) r c where "resolution = Inr r" "a = send r" "click_fields_of r = Some c" "click_stored D c s t"
proof (cases resolution)
  case (Inr r)
  obtain p i where p: "persistClick D r (rs_inbox s) = (p, i)" by fastforce
  show thesis
  proof (cases p)
    case Inr': (Inr u)
    with assms Inr p have a: "a = send r" "t = s\<lparr>rs_inbox := i\<rparr>" by (simp_all add: answer_resolution_def)
    show thesis
    proof (cases "click_fields_of r")
      case None
      then have "i = rs_inbox s" using p by (simp add: persistClick_def)
      with a Inr None sent show thesis by simp
    next
      case (Some c)
      with persistClick_stored [OF p [unfolded Inr'] Some] a Inr stored show thesis by (auto simp: click_stored_def)
    qed
  qed (use assms Inr p in \<open>auto simp: answer_resolution_def intro: failed\<close>)
qed (use assms in \<open>auto simp: answer_resolution_def intro: failed\<close>)

text \<open>A request is a health check, an association document, or a redirect.\<close>

lemma handle_cases:
  assumes "handle_request D rq s = (Inr a, t)"
  obtains (health) "serveRuntimeHealth D rq = Some a" "t = s"
  | (not_found) "a = not_found" "t = s"
  | (well_known) target :: url and host tenant where "(a, t) = serve_well_known D (ur_pathname target) host tenant s"
  | (redirect) target :: url and tenant where "(a, t) = serve_redirect D rq target tenant s"
proof (cases "serveRuntimeHealth D rq")
  case None
  with assms obtain target where target: "parse_url (rd_target_of D) (the_or ''/'' (hq_url rq)) = Inr target"
    by (auto simp: handle_request_def split: sum.splits)
  show thesis
  proof (cases "tenantForRequest D (normalizedHost rq)")
    case (Inr tenant)
    with None target assms have e: "(a, t) = (if hq_method rq = ''GET'' \<and> well_known_path (ur_pathname target)
        then serve_well_known D (ur_pathname target) (normalizedHost rq) tenant s else serve_redirect D rq target tenant s)"
      by (simp add: handle_request_def Let_def prod_eq_iff)
    then show thesis
    proof (cases "hq_method rq = ''GET'' \<and> well_known_path (ur_pathname target)")
      case True
      from e [unfolded if_P [OF True]] have "(a, t) = serve_well_known D (ur_pathname target) (normalizedHost rq) tenant s" .
      then show thesis by (rule well_known)
    next
      case False
      from e [unfolded if_not_P [OF False]] have "(a, t) = serve_redirect D rq target tenant s" .
      then show thesis by (rule redirect)
    qed
  qed (use None target assms not_found in \<open>simp add: handle_request_def Let_def\<close>)
qed (use assms health in \<open>simp add: handle_request_def\<close>)


lemma serve_redirect_cases:
  assumes "(a, t) = serve_redirect D rq target tenant s"
  obtains (fallback) "a = send (fallbackResponse (rd_fallbackUrl D))" "inbox_untouched s t"
  | (limited) "a = too_many" "inbox_untouched s t"
  | (served) s' slug rest where "rs_inbox s' = rs_inbox s" "(a, t) = serve_link D rq target (the_or [] tenant) slug rest s'"
proof (cases "if hq_method rq = ''GET'' then redirect_path (ur_pathname target) else None")
  case (Some p)
  show thesis
  proof (cases "truthy tenant")
    case True
    let ?r = "ip_allow (rd_limiter D) (rd_monotonic D) (the_or ''unknown'' (hq_remoteAddress rq)) (rs_limiter s)"
    show thesis
    proof (cases "fst ?r")
      case ok: True
      with assms Some True have "(a, t) = serve_link D rq target (the_or [] tenant) (fst p) (snd p) (s\<lparr>rs_limiter := snd ?r\<rparr>)"
        by (cases p) (simp add: serve_redirect_def Let_def)
      then show thesis by (intro served [of "s\<lparr>rs_limiter := snd ?r\<rparr>"]) simp_all
    qed (use assms Some True in \<open>cases p, auto simp: serve_redirect_def Let_def inbox_untouched_def intro: limited\<close>)
  qed (use assms Some in \<open>cases p, auto simp: serve_redirect_def Let_def inbox_untouched_def intro: fallback\<close>)
qed (use assms in \<open>auto simp: serve_redirect_def Let_def inbox_untouched_def intro: fallback\<close>)

lemma health_location: "serveRuntimeHealth D rq = Some a \<Longrightarrow> ha_location a = None \<and> ha_status a \<in> {200, 503}"
  by (auto simp: serveRuntimeHealth_def Let_def ha_location_def map_get_def split: if_splits)

lemma association_answer_facts: "ha_location (association_answer D path h tenantId) = None \<and> ha_status (association_answer D path h tenantId) \<in> {200, 404, 503}"
  by (auto simp: association_answer_def Let_def ha_location_def not_found_def empty_answer_def map_get_def split: sum.splits option.splits)

lemma well_known_facts:
  assumes "(a, t) = serve_well_known D path host tenant s"
  shows "ha_location a = None \<and> ha_status a \<in> {200, 404, 429, 503} \<and> inbox_untouched s t"
  using assms association_answer_facts [of D path]
  by (auto simp: serve_well_known_def Let_def inbox_untouched_def not_found_def too_many_def empty_answer_def ha_location_def map_get_def
      split: if_splits option.splits)

lemma resolution_click_fields:
  assumes "resolveRedirect url_of url_text collation random ro = Inr r" "ro_link ro = Some link"
  shows "click_fields_of r = map_option fields_of_click (rz_click r)"
    and "rz_click r = None \<Longrightarrow> r = fallbackResponse (ro_fallbackDestination ro)"
    and "rz_click r = Some c \<Longrightarrow> rk_tracking_link_id c = tl_id link \<and> rk_tenant_id c = tl_tenant_id link \<and> rk_app_id c = tl_app_id link
      \<and> map_get (rz_headers r) ''location'' = Some (rk_destination_url c)"
proof -
  have "(rz_click r = None \<longrightarrow> r = fallbackResponse (ro_fallbackDestination ro)) \<and> rz_prefetch r = None
      \<and> (\<forall>c. rz_click r = Some c \<longrightarrow> rk_tracking_link_id c = tl_id link \<and> rk_tenant_id c = tl_tenant_id link \<and> rk_app_id c = tl_app_id link
      \<and> map_get (rz_headers r) ''location'' = Some (rk_destination_url c))"
    using assms by (auto simp: resolveRedirect_def fallbackResponse_def bindR_eq_Inr guardR_eq_Inr Let_def redirect_click_of_def split: if_splits)
  then show "click_fields_of r = map_option fields_of_click (rz_click r)"
    and "rz_click r = None \<Longrightarrow> r = fallbackResponse (ro_fallbackDestination ro)"
    and "rz_click r = Some c \<Longrightarrow> rk_tracking_link_id c = tl_id link \<and> rk_tenant_id c = tl_tenant_id link \<and> rk_app_id c = tl_app_id link
      \<and> map_get (rz_headers r) ''location'' = Some (rk_destination_url c)"
    by (auto simp: click_fields_of_def split: option.splits)
qed

text \<open>C8. A visitor is sent to any other destination than the fallback only after the click is stored: the batch of the inbox that the
  request added carries the record of this click, of an active link of the tables, to this destination.\<close>

theorem redirect_after_durable_click:
  assumes "handle_request D rq s = (Inr a, t)" "ha_location a = Some destination" "destination \<noteq> rd_fallbackUrl D"
  shows "\<exists>c link tenantId slug. rk_destination_url c = destination \<and> click_stored D (fields_of_click c) s t
    \<and> rd_links D tenantId slug = Inr (Some link) \<and> tl_status link = Active
    \<and> rk_tracking_link_id c = tl_id link \<and> rk_tenant_id c = tl_tenant_id link \<and> rk_app_id c = tl_app_id link"
  using assms(1)
proof (cases rule: handle_cases)
  case (redirect target tenant)
  from redirect show ?thesis
  proof (cases rule: serve_redirect_cases)
    case (served s' slug rest)
    show ?thesis
    proof (cases rule: serve_link_cases [of D rq target "the_or [] tenant" slug rest s'])
      case (prefetch link ro)
      from served(2) [unfolded prefetch(5), symmetric] show ?thesis
      proof (cases rule: answer_resolution_cases)
        case (failed e)
        then show ?thesis using assms(2,3) error_answer_location [of D e] by auto
      qed (use assms(2,3) prefetch(3) in auto)
    next
      case (click link ro)
      from served(2) [unfolded click(6), symmetric] show ?thesis
      proof (cases rule: answer_resolution_cases)
        case (stored r c)
        note f = resolution_click_fields [OF stored(1) click(3)]
        obtain k where k: "rz_click r = Some k" "c = fields_of_click k" using stored(3) f(1) by auto
        have "click_stored D (fields_of_click k) s t" using stored(4) served(1) k(2) by (simp add: click_stored_def)
        moreover have "rk_destination_url k = destination" using f(3) [OF k(1)] stored(2) assms(2) by simp
        ultimately show ?thesis using f(3) [OF k(1)] click(2,5) by blast
      next
        case (sent r)
        note f = resolution_click_fields [OF sent(1) click(3)]
        have "rz_click r = None" using sent(3) f(1) by simp
        with f(2) click(4) sent(2) assms(2,3) show ?thesis by simp
      next
        case (failed e)
        then show ?thesis using assms(2,3) error_answer_location [of D e] by auto
      qed
    qed (use served(2) assms(2,3) in simp)
  qed (use assms(2,3) in auto)
qed (use assms(2,3) health_location well_known_facts in fastforce)+


text \<open>What an answer of the redirect can be.\<close>

definition answer_status_ok :: "http_answer \<Rightarrow> bool" where
  "answer_status_ok a \<longleftrightarrow> ha_status a \<in> {200, 302, 404, 429, 503}"

lemma error_answer_status: "answer_status_ok (error_answer D e)"
  by (cases e) (auto simp: answer_status_ok_def error_answer_def capacity_answer_def empty_answer_def capacity_status_def send_def fallbackResponse_def)

lemma resolveRedirect_status:
  assumes "resolveRedirect url_of url_text collation random ro = Inr r"
  shows "rz_status r = 302"
  using assms by (auto simp: resolveRedirect_def fallbackResponse_def bindR_eq_Inr guardR_eq_Inr Let_def split: if_splits option.splits)

lemma answer_resolution_status:
  assumes "answer_resolution D resolution s = (a, t)" "\<And>r. resolution = Inr r \<Longrightarrow> rz_status r = 302"
  shows "answer_status_ok a"
  using assms(1) by (cases rule: answer_resolution_cases) (use assms(2) error_answer_status in \<open>auto simp: answer_status_ok_def send_def\<close>)

lemma serve_link_status:
  assumes "(a, t) = serve_link D rq target tenantId slug rest s"
  shows "answer_status_ok a"
proof (cases rule: serve_link_cases [of D rq target tenantId slug rest s])
  case (prefetch link ro)
  then show ?thesis using assms answer_resolution_status [of D "Inr (prefetchEvidence ro link)" s a t]
    by (auto simp: prefetchEvidence_def fallbackResponse_def)
next
  case (click link ro)
  then show ?thesis using assms answer_resolution_status [of D _ s a t] resolveRedirect_status by metis
qed (use assms in \<open>auto simp: answer_status_ok_def send_def fallbackResponse_def\<close>)

text \<open>Every request is answered, with one of five statuses, unless its target does not parse as a URL; then nothing answers it,
  nothing is stored and no bucket changes.\<close>

theorem unanswered_exactly_when_unparseable:
  "(isl (fst (handle_request D rq s)) \<longleftrightarrow> serveRuntimeHealth D rq = None \<and> rd_target_of D (the_or ''/'' (hq_url rq)) = None)
    \<and> (case fst (handle_request D rq s) of Inr a \<Rightarrow> answer_status_ok a | Inl e \<Rightarrow> snd (handle_request D rq s) = s)"
proof (cases "fst (handle_request D rq s)")
  case (Inr a)
  then obtain t where r: "handle_request D rq s = (Inr a, t)" by (metis prod.collapse)
  then have "answer_status_ok a"
  proof (cases rule: handle_cases)
    case (redirect target tenant)
    from redirect show ?thesis
    proof (cases rule: serve_redirect_cases)
      case (served s' slug rest)
      show ?thesis by (rule serve_link_status [OF served(2)])
    qed (auto simp: answer_status_ok_def send_def fallbackResponse_def too_many_def empty_answer_def)
  next
    case (well_known target host tenant)
    from well_known_facts [OF this] show ?thesis by (auto simp: answer_status_ok_def)
  next
    case health
    from health_location [OF this(1)] show ?thesis by (auto simp: answer_status_ok_def)
  qed (simp add: answer_status_ok_def not_found_def empty_answer_def)
  moreover have "serveRuntimeHealth D rq \<noteq> None \<or> rd_target_of D (the_or ''/'' (hq_url rq)) \<noteq> None"
    using r by (cases "serveRuntimeHealth D rq"; cases "rd_target_of D (the_or ''/'' (hq_url rq))") (auto simp: handle_request_def parse_url_def throw_def)
  ultimately show ?thesis using Inr by auto
qed (auto simp: handle_request_def parse_url_def throw_def Let_def split: option.splits sum.splits)

section \<open>A concrete request\<close>

definition sample_bucket :: bucket_config where
  "sample_bucket = \<lparr> bc_rate = 1, bc_burst = 2, bc_maximum = 1 \<rparr>"

definition sample_target :: url where
  "sample_target = sample_url\<lparr>ur_pathname := ''/r/AbCdEf012345''\<rparr>"

definition sample_dependencies :: redirector_dependencies where
  "sample_dependencies = \<lparr> rd_readiness = None, rd_tenantId = ''t'', rd_fallbackUrl = ''f'', rd_limiter = sample_bucket, rd_wellKnownLimiter = None,
     rd_fixedTenant = True, rd_referrerMaximum = None, rd_wellKnownCacheSeconds = None, rd_wellKnownMaximumBytes = None, rd_clientClassEnabled = None,
     rd_sharedProxy = False, rd_remoteClickParameter = None, rd_now = ''r'', rd_monotonic = 0, rd_env = (\<lambda>n. None),
     rd_host = sample_host (\<lambda>c. None) None, rd_target_of = (\<lambda>s. Some sample_target), rd_url_of = (\<lambda>s. Some sample_url),
     rd_url_text = (\<lambda>u. params_to_string (ur_params u)), rd_collation = id, rd_randomBytes = (\<lambda>n. replicate n 0),
     rd_uuids = (''1'', ''2'', ''3''), rd_resolveHost = (\<lambda>h. Inr None), rd_links = (\<lambda>t s. Inr (Some sample_link)), rd_domainRows = (\<lambda>t h. Inr 0),
     rd_identities = (\<lambda>t. Inr []) \<rparr>"

definition sample_request :: http_request where
  "sample_request = \<lparr> hq_method = ''GET'', hq_url = Some ''/r/AbCdEf012345'', hq_host = None, hq_user_agent = Some ''Android'', hq_purpose = None,
     hq_sec_purpose = None, hq_remoteAddress = Some ''a'' \<rparr>"

definition sample_redirector :: redirector where
  "sample_redirector = \<lparr> rs_limiter = [], rs_wellKnown = [], rs_inbox = empty_inbox \<rparr>"

theorem redirect_after_durable_click_witness:
  "\<exists>a t destination. handle_request sample_dependencies sample_request sample_redirector = (Inr a, t) \<and> ha_location a = Some destination
    \<and> destination \<noteq> ''f'' \<and> length (db_batches (ix_db (rs_inbox t))) = 1"
proof -
  have "case handle_request sample_dependencies sample_request sample_redirector of
      (Inr a, t) \<Rightarrow> (case ha_location a of Some d \<Rightarrow> d \<noteq> rd_fallbackUrl sample_dependencies | None \<Rightarrow> False) | _ \<Rightarrow> False" by code_simp
  then obtain a t d where r: "handle_request sample_dependencies sample_request sample_redirector = (Inr a, t)" "ha_location a = Some d"
    "d \<noteq> rd_fallbackUrl sample_dependencies"
    by (auto split: prod.splits sum.splits option.splits)
  from redirect_after_durable_click [OF r] have "length (db_batches (ix_db (rs_inbox t))) = 1"
    by (auto simp: click_stored_def sample_redirector_def empty_inbox_def)
  with r show ?thesis by (auto simp: sample_dependencies_def)
qed

theorem address_buckets_bounded_witness:
  "map fst (snd (ip_allow sample_bucket 0 ''b'' [(''a'', \<lparr> tb_tokens = 1, tb_updatedAt = 0 \<rparr>)])) = [''b'']"
proof -
  let ?es = "[(''a'', \<lparr> tb_tokens = 1, tb_updatedAt = 0 \<rparr>)]"
  have "length (snd (ip_allow sample_bucket 0 ''b'' ?es)) \<le> 1 \<and> fst (last (snd (ip_allow sample_bucket 0 ''b'' ?es))) = ''b''"
    using address_buckets_bounded [of ?es sample_bucket 0 "''b''"] by (simp add: sample_bucket_def)
  moreover have "snd (ip_allow sample_bucket 0 ''b'' ?es) \<noteq> []" by (simp add: ip_allow_def Let_def sample_bucket_def)
  ultimately show ?thesis by (cases "snd (ip_allow sample_bucket 0 ''b'' ?es)") auto
qed

end
