(* ===== verification/Import_Normalization.thy ===== *)
theory Import_Normalization
  imports Decimal_Text
begin

text \<open>
  \<open>apps/runtime/src/import-normalization.ts\<close>: the CSV reader of imports, strict and lenient, and the decimal
  amounts of cost reports. A text is the bytes of its UTF-8 encoding; every character the reader looks for is
  ASCII. A strict reading reports a defect with the row where it stands.
\<close>

section \<open>Reading cells\<close>

datatype csv_code = Quotes_Invalid | Header_Invalid | Width_Invalid

datatype csv_error = Csv_Format csv_code nat | Csv_Error string

abbreviation "quote \<equiv> CHR 0x22"
abbreviation "line_feed \<equiv> CHR 0x0A"
abbreviation "carriage \<equiv> CHR 0x0D"

record csv_state =
  cv_rows :: "string list list"
  cv_row :: "string list"
  cv_cell :: string
  cv_quoted :: bool
  cv_closed :: bool
  cv_present :: bool

definition csv_start :: csv_state where
  "csv_start = \<lparr> cv_rows = [], cv_row = [], cv_cell = [], cv_quoted = False, cv_closed = False, cv_present = False \<rparr>"

text \<open>A row of empty cells counts only in a strict reading, and there only when a field was written.\<close>

definition row_kept :: "bool \<Rightarrow> bool \<Rightarrow> string list \<Rightarrow> bool" where
  "row_kept strict present row \<longleftrightarrow> list_ex (\<lambda>v. v \<noteq> []) row \<or> strict \<and> present"

definition closed_rows :: "bool \<Rightarrow> csv_state \<Rightarrow> string list list" where
  "closed_rows strict st =
     (let row = cv_row st @ [cv_cell st] in cv_rows st @ (if row_kept strict (cv_present st) row then [row] else []))"

definition end_cell :: "csv_state \<Rightarrow> csv_state" where
  "end_cell st = st\<lparr>cv_row := cv_row st @ [cv_cell st], cv_cell := [], cv_closed := False, cv_present := True\<rparr>"

definition end_row :: "bool \<Rightarrow> csv_state \<Rightarrow> csv_state" where
  "end_row strict st = st\<lparr>cv_rows := closed_rows strict st, cv_row := [], cv_cell := [], cv_closed := False, cv_present := False\<rparr>"

definition quotes_invalid :: "csv_state \<Rightarrow> csv_error" where
  "quotes_invalid st = Csv_Format Quotes_Invalid (length (cv_rows st) + 1)"

text \<open>One character: what is left to read and the state after it.\<close>

definition quote_step :: "bool \<Rightarrow> string \<Rightarrow> csv_state \<Rightarrow> csv_error + string \<times> csv_state" where
  "quote_step strict cs st =
     (let present = st\<lparr>cv_present := True\<rparr> in
      if cv_quoted st \<and> cs \<noteq> [] \<and> hd cs = quote then Inr (tl cs, present\<lparr>cv_cell := cv_cell st @ [quote]\<rparr>)
      else if strict \<and> \<not> cv_quoted st \<and> (cv_cell st \<noteq> [] \<or> cv_closed st) then Inl (quotes_invalid st)
      else Inr (cs, present\<lparr>cv_closed := cv_closed st \<or> cv_quoted st, cv_quoted := \<not> cv_quoted st\<rparr>))"

definition csv_step :: "bool \<Rightarrow> char \<Rightarrow> string \<Rightarrow> csv_state \<Rightarrow> csv_error + string \<times> csv_state" where
  "csv_step strict c cs st =
     (if c = quote then quote_step strict cs st
      else if c = CHR '','' \<and> \<not> cv_quoted st then Inr (cs, end_cell st)
      else if (c = line_feed \<or> c = carriage) \<and> \<not> cv_quoted st
        then Inr (if c = carriage \<and> cs \<noteq> [] \<and> hd cs = line_feed then tl cs else cs, end_row strict st)
      else if strict \<and> cv_closed st \<and> \<not> cv_quoted st then Inl (quotes_invalid st)
      else Inr (cs, st\<lparr>cv_cell := cv_cell st @ [c], cv_present := True\<rparr>))"

lemma csv_step_shrinks: "csv_step strict c cs st = Inr (rest, t) \<Longrightarrow> length rest \<le> length cs"
  by (auto simp: csv_step_def quote_step_def Let_def split: if_splits)

function csv_loop :: "bool \<Rightarrow> string \<Rightarrow> csv_state \<Rightarrow> csv_error + csv_state" where
  "csv_loop strict [] st = Inr st"
| "csv_loop strict (c # cs) st = (case csv_step strict c cs st of Inl e \<Rightarrow> Inl e | Inr (rest, t) \<Rightarrow> csv_loop strict rest t)"
  by pat_completeness auto
termination by (relation "measure (\<lambda>(strict, s, st). length s)") (auto dest: csv_step_shrinks [OF sym] csv_step_shrinks)

definition csvCells :: "bool \<Rightarrow> string \<Rightarrow> csv_error + string list list" where
  "csvCells strict source =
     (case csv_loop strict source csv_start of
        Inl e \<Rightarrow> Inl e
      | Inr st \<Rightarrow>
          if cv_quoted st then Inl (if strict then quotes_invalid st else Csv_Error ''CSV contains an unterminated quoted field'')
          else Inr (closed_rows strict st))"

section \<open>Named rows\<close>

definition parsedCsv :: "bool \<Rightarrow> string \<Rightarrow> csv_error + string list \<times> string list list" where
  "parsedCsv strict source =
     (case csvCells strict source of
        Inl e \<Rightarrow> Inl e
      | Inr [] \<Rightarrow> Inr ([], [])
      | Inr (header # rows) \<Rightarrow>
          let names = map js_trim header in
          if \<not> distinct names \<or> strict \<and> [] \<in> set names
          then Inl (if strict then Csv_Format Header_Invalid 1 else Csv_Error ''CSV header names must be unique'')
          else (case find (\<lambda>(i, values). strict \<and> length values \<noteq> length names) (zip [0..<length rows] rows) of
             Some (i, values) \<Rightarrow> Inl (Csv_Format Width_Invalid (i + 2))
           | None \<Rightarrow> Inr (names, rows)))"

definition parseCsvHeader :: "string \<Rightarrow> csv_error + string list" where
  "parseCsvHeader source = (case parsedCsv True source of Inl e \<Rightarrow> Inl e | Inr (names, rows) \<Rightarrow> Inr names)"

definition named_row :: "string list \<Rightarrow> string list \<Rightarrow> (string \<times> string) list" where
  "named_row names values = map (\<lambda>i. (names ! i, if i < length values then values ! i else [])) [0..<length names]"

definition parseCsv :: "bool \<Rightarrow> string \<Rightarrow> csv_error + (string \<times> string) list list" where
  "parseCsv strict source = (case parsedCsv strict source of Inl e \<Rightarrow> Inl e | Inr (names, rows) \<Rightarrow> Inr (map (named_row names) rows))"

section \<open>Decimal amounts\<close>

text \<open>Digits with an optional fraction: the digits before the point and those behind it.\<close>

definition decimal_parts :: "string \<Rightarrow> (string \<times> string) option" where
  "decimal_parts s =
     (case split_on (CHR ''.'') s of
        [whole] \<Rightarrow> if all_digits whole then Some (whole, []) else None
      | [whole, part] \<Rightarrow> if all_digits whole \<and> all_digits part then Some (whole, part) else None
      | _ \<Rightarrow> None)"

definition decimalToUnscaled :: "string \<Rightarrow> nat \<Rightarrow> string res" where
  "decimalToUnscaled text scale =
     (case decimal_parts (js_trim text) of
        None \<Rightarrow> throw ''cost amount must be a non-negative decimal without exponent notation''
      | Some (whole, part) \<Rightarrow>
          guardR (length part \<le> scale) (''cost amount exceeds scale '' @ show_nat scale)
            (Inr (strip_zeros (whole @ part @ replicate (scale - length part) (CHR ''0'')))))"

section \<open>A strict reading is a lenient one\<close>

definition lenient :: "csv_state \<Rightarrow> csv_state" where
  "lenient st = st\<lparr>cv_rows := filter (list_ex (\<lambda>v. v \<noteq> [])) (cv_rows st)\<rparr>"

lemma lenient_simps [simp]:
  "cv_row (lenient st) = cv_row st" "cv_cell (lenient st) = cv_cell st" "cv_quoted (lenient st) = cv_quoted st"
  "cv_closed (lenient st) = cv_closed st" "cv_present (lenient st) = cv_present st"
  "lenient (st\<lparr>cv_cell := x\<rparr>) = lenient st\<lparr>cv_cell := x\<rparr>" "lenient (st\<lparr>cv_present := p\<rparr>) = lenient st\<lparr>cv_present := p\<rparr>"
  "lenient (st\<lparr>cv_closed := p\<rparr>) = lenient st\<lparr>cv_closed := p\<rparr>" "lenient (st\<lparr>cv_quoted := p\<rparr>) = lenient st\<lparr>cv_quoted := p\<rparr>"
  "end_cell (lenient st) = lenient (end_cell st)" "end_row False (lenient st) = lenient (end_row True st)"
  "closed_rows False (lenient st) = filter (list_ex (\<lambda>v. v \<noteq> [])) (closed_rows True st)"
  by (simp_all add: lenient_def end_cell_def end_row_def closed_rows_def row_kept_def Let_def)

lemma csv_step_lenient: "csv_step True c cs st = Inr (rest, t) \<Longrightarrow> csv_step False c cs (lenient st) = Inr (rest, lenient t)"
  by (auto simp: csv_step_def quote_step_def Let_def split: if_splits)

lemma csv_loop_lenient: "csv_loop True s st = Inr t \<Longrightarrow> csv_loop False s (lenient st) = Inr (lenient t)"
  by (induction True s st rule: csv_loop.induct) (auto dest: csv_step_lenient split: sum.splits prod.splits)

text \<open>What a strict reading accepts, a lenient reading accepts too, with the same rows apart from those whose cells are all empty.\<close>

theorem strict_refines_lenient:
  assumes "csvCells True source = Inr rows"
  shows "csvCells False source = Inr (filter (list_ex (\<lambda>v. v \<noteq> [])) rows)"
proof -
  from assms obtain st where "csv_loop True source csv_start = Inr st" "\<not> cv_quoted st" "rows = closed_rows True st"
    by (auto simp: csvCells_def split: sum.splits if_splits)
  moreover from this have "csv_loop False source csv_start = Inr (lenient st)"
    using csv_loop_lenient [of source csv_start st] by (simp add: lenient_def csv_start_def)
  ultimately show ?thesis by (simp add: csvCells_def)
qed

section \<open>What is printed reads back\<close>

text \<open>A field as RFC 4180 writes it, quoted or plain; a plain one holds no special character.\<close>

type_synonym csv_field = "bool \<times> string"

definition escaped :: "string \<Rightarrow> string" where
  "escaped s = concat (map (\<lambda>c. if c = quote then [quote, quote] else [c]) s)"

definition print_field :: "csv_field \<Rightarrow> string" where
  "print_field f = (if fst f then quote # escaped (snd f) @ [quote] else snd f)"

definition plain_text :: "string \<Rightarrow> bool" where
  "plain_text s \<longleftrightarrow> list_all (\<lambda>c. c \<noteq> quote \<and> c \<noteq> CHR '','' \<and> c \<noteq> line_feed \<and> c \<noteq> carriage) s"

definition field_ok :: "csv_field \<Rightarrow> bool" where
  "field_ok f \<longleftrightarrow> fst f \<or> plain_text (snd f)"

fun print_row :: "csv_field list \<Rightarrow> string" where
  "print_row [] = []"
| "print_row [f] = print_field f"
| "print_row (f # g # fs) = print_field f @ CHR '','' # print_row (g # fs)"

definition row_ok :: "csv_field list \<Rightarrow> bool" where
  "row_ok fs \<longleftrightarrow> fs \<noteq> [] \<and> fs \<noteq> [(False, [])] \<and> list_all field_ok fs"

definition line_end :: "string \<Rightarrow> bool" where
  "line_end e \<longleftrightarrow> e = [line_feed] \<or> e = [carriage, line_feed]"

definition print_csv :: "string \<Rightarrow> csv_field list list \<Rightarrow> string" where
  "print_csv e rows = concat (map (\<lambda>fs. print_row fs @ e) rows)"

lemma loop_plain:
  assumes "plain_text s" "\<not> cv_quoted st" "\<not> cv_closed st"
  shows "csv_loop strict (s @ rest) st = csv_loop strict rest (st\<lparr>cv_cell := cv_cell st @ s, cv_present := cv_present st \<or> s \<noteq> []\<rparr>)"
  using assms by (induction s arbitrary: st) (simp_all add: plain_text_def csv_step_def)

lemma loop_escaped:
  assumes "cv_quoted st" "rest = [] \<or> hd rest \<noteq> quote"
  shows "csv_loop strict (escaped s @ quote # rest) st =
    csv_loop strict rest (st\<lparr>cv_cell := cv_cell st @ s, cv_present := True, cv_quoted := False, cv_closed := True\<rparr>)"
  using assms
proof (induction s arbitrary: st)
  case Nil
  then show ?case by (cases st) (auto simp: escaped_def csv_step_def quote_step_def Let_def)
next
  case (Cons c s)
  have e: "escaped (c # s) = (if c = quote then [quote, quote] else [c]) @ escaped s" by (simp add: escaped_def)
  show ?case
    using Cons.IH [of "st\<lparr>cv_cell := cv_cell st @ [c], cv_present := True\<rparr>"] Cons.prems
    by (cases st) (auto simp: e csv_step_def quote_step_def Let_def)
qed

lemma loop_field:
  assumes "field_ok f" "\<not> cv_quoted st" "\<not> cv_closed st" "cv_cell st = []" "rest = [] \<or> hd rest \<noteq> quote"
  shows "csv_loop strict (print_field f @ rest) st =
    csv_loop strict rest (st\<lparr>cv_cell := snd f, cv_present := cv_present st \<or> f \<noteq> (False, []), cv_closed := fst f\<rparr>)"
proof (cases "fst f")
  case True
  let ?st = "st\<lparr>cv_present := True, cv_closed := False, cv_quoted := True\<rparr>"
  from True assms have "csv_loop strict (print_field f @ rest) st = csv_loop strict (escaped (snd f) @ quote # rest) ?st"
    by (simp add: print_field_def csv_step_def quote_step_def Let_def)
  also have "\<dots> = csv_loop strict rest (?st\<lparr>cv_cell := cv_cell ?st @ snd f, cv_present := True, cv_quoted := False, cv_closed := True\<rparr>)"
    using assms(5) by (intro loop_escaped) simp_all
  also have "?st\<lparr>cv_cell := cv_cell ?st @ snd f, cv_present := True, cv_quoted := False, cv_closed := True\<rparr>
      = st\<lparr>cv_cell := snd f, cv_present := cv_present st \<or> f \<noteq> (False, []), cv_closed := fst f\<rparr>"
    using True assms(2,4) by (cases st, cases f) simp
  finally show ?thesis .
next
  case False
  with assms loop_plain [of "snd f" st strict rest] show ?thesis
    by (cases f, cases st) (simp add: print_field_def field_ok_def)
qed

lemma line_end_parts: "line_end e \<Longrightarrow> e @ rest \<noteq> [] \<and> hd (e @ rest) \<noteq> quote"
  by (auto simp: line_end_def)

lemma loop_line_end:
  assumes "line_end e" "\<not> cv_quoted st"
  shows "csv_loop strict (e @ rest) st = csv_loop strict rest (end_row strict st)"
  using assms by (auto simp: line_end_def csv_step_def)

lemma loop_row:
  assumes "fs \<noteq> []" "list_all field_ok fs" "cv_present st \<or> fs \<noteq> [(False, [])]"
    and "\<not> cv_quoted st" "\<not> cv_closed st" "cv_cell st = []" "line_end e"
  shows "csv_loop True (print_row fs @ e @ rest) st =
    csv_loop True rest (st\<lparr>cv_rows := cv_rows st @ [cv_row st @ map snd fs], cv_row := [], cv_cell := [], cv_closed := False, cv_present := False\<rparr>)"
  using assms
proof (induction fs arbitrary: st rule: print_row.induct)
  case (2 f)
  let ?st = "st\<lparr>cv_cell := snd f, cv_present := cv_present st \<or> f \<noteq> (False, []), cv_closed := fst f\<rparr>"
  have "csv_loop True (print_field f @ e @ rest) st = csv_loop True (e @ rest) ?st"
    using 2 line_end_parts [of e rest] by (intro loop_field) auto
  also have "\<dots> = csv_loop True rest (end_row True ?st)" using 2 by (intro loop_line_end) simp_all
  finally show ?case using 2 by (simp add: end_row_def closed_rows_def row_kept_def Let_def)
next
  case (3 f g fs)
  let ?st = "st\<lparr>cv_cell := snd f, cv_present := cv_present st \<or> f \<noteq> (False, []), cv_closed := fst f\<rparr>"
  have "csv_loop True (print_field f @ CHR '','' # print_row (g # fs) @ e @ rest) st
      = csv_loop True (CHR '','' # print_row (g # fs) @ e @ rest) ?st"
    using 3 by (intro loop_field) auto
  also have "\<dots> = csv_loop True (print_row (g # fs) @ e @ rest) (end_cell ?st)" using 3 by (simp add: csv_step_def)
  also have "\<dots> = csv_loop True rest ((end_cell ?st)\<lparr>cv_rows := cv_rows (end_cell ?st) @ [cv_row (end_cell ?st) @ map snd (g # fs)], cv_row := [],
      cv_cell := [], cv_closed := False, cv_present := False\<rparr>)"
    using "3.prems" by (intro "3.IH") (simp_all add: end_cell_def)
  finally show ?case by (simp add: end_cell_def)
qed simp

lemma loop_rows:
  assumes "list_all row_ok rows" "line_end e"
  shows "csv_loop True (print_csv e rows) (csv_start\<lparr>cv_rows := done\<rparr>) = Inr (csv_start\<lparr>cv_rows := done @ map (map snd) rows\<rparr>)"
  using assms(1)
proof (induction rows arbitrary: "done")
  case (Cons fs rows)
  have "print_csv e (fs # rows) = print_row fs @ e @ print_csv e rows" by (simp add: print_csv_def)
  with Cons loop_row [of fs "csv_start\<lparr>cv_rows := done\<rparr>" e "print_csv e rows"] assms(2) show ?case
    by (simp add: row_ok_def csv_start_def)
qed (simp add: print_csv_def)

text \<open>C23. A strict reading returns exactly the rows that a CSV writer printed, whichever fields it quoted, with quotes, commas and
  line breaks inside quoted fields and with either line ending.\<close>

theorem csv_roundtrip:
  assumes "list_all row_ok rows" "line_end e"
  shows "csvCells True (print_csv e rows) = Inr (map (map snd) rows)"
  using loop_rows [OF assms, of "[]"] by (simp add: csvCells_def csv_start_def closed_rows_def row_kept_def Let_def)

section \<open>Amounts are exact\<close>

lemma decimal_parts_Some:
  assumes "decimal_parts s = Some (whole, part)"
  shows "all_digits whole \<and> list_all is_digit part \<and> s = (if part = [] then whole else whole @ CHR ''.'' # part)"
proof -
  have "join ''.'' (split_on (CHR ''.'') s) = s" by (rule join_split)
  with assms show ?thesis by (auto simp: decimal_parts_def all_digits_def split: list.splits if_splits)
qed

lemma dec_digits_zeros: "dec_digits acc (s @ replicate k (CHR ''0'')) = map_option (\<lambda>v. v * 10 ^ k) (dec_digits acc s)"
proof -
  have "dec_digits v (replicate k (CHR ''0'')) = Some (v * 10 ^ k)" for v
    by (induction k arbitrary: v) (simp_all add: digit_zero)
  then show ?thesis by (simp add: dec_digits_append split: option.splits)
qed

text \<open>An amount that is accepted is exact: the text is the canonical decimal of the amount times the power of ten of its scale, no
  digit is rounded away, and an amount with more decimals than the scale is refused.\<close>

theorem decimalToUnscaled_exact:
  "decimalToUnscaled text scale =
     (case decimal_parts (js_trim text) of
        None \<Rightarrow> throw ''cost amount must be a non-negative decimal without exponent notation''
      | Some (whole, part) \<Rightarrow>
          if length part \<le> scale then Inr (show_nat (the (dec_value (whole @ part)) * 10 ^ (scale - length part)))
          else throw (''cost amount exceeds scale '' @ show_nat scale))"
proof (cases "decimal_parts (js_trim text)")
  case (Some p)
  obtain whole part where p: "p = (whole, part)" by fastforce
  from decimal_parts_Some [OF Some [unfolded p]] have d: "all_digits whole" "list_all is_digit part" by auto
  obtain v where v: "dec_digits 0 (whole @ part) = Some v"
    using dec_digits_all [of "whole @ part" 0] d by (auto simp: all_digits_def)
  have "strip_zeros ((whole @ part) @ replicate k (CHR ''0'')) = show_nat (v * 10 ^ k)" for k
  proof (rule strip_show)
    show "dec_digits 0 ((whole @ part) @ replicate k (CHR ''0'')) = Some (v * 10 ^ k)" by (subst dec_digits_zeros) (simp add: v)
    show "all_digits ((whole @ part) @ replicate k (CHR ''0''))" using d by (auto simp: all_digits_def list_all_iff is_digit_def)
  qed
  moreover have "dec_value (whole @ part) = Some v" using v d by (simp add: dec_value_def all_digits_def)
  ultimately show ?thesis using Some p by (simp add: decimalToUnscaled_def guardR_def)
qed (simp add: decimalToUnscaled_def)

section \<open>Concrete texts\<close>

theorem strict_refines_lenient_witness:
  "csvCells True (''a'' @ [line_feed] @ '','') = Inr [[''a''], [[], []]] \<and> csvCells False (''a'' @ [line_feed] @ '','') = Inr [[''a'']]"
proof -
  have "csvCells True (''a'' @ [line_feed] @ '','') = Inr [[''a''], [[], []]]" by code_simp
  with strict_refines_lenient [OF this] show ?thesis by simp
qed

theorem csv_roundtrip_witness:
  "csvCells True (quote # ''a,'' @ [quote, quote, quote, line_feed]) = Inr [[''a,'' @ [quote]]]"
proof -
  have "list_all row_ok [[(True, ''a,'' @ [quote])]]" "line_end [line_feed]" by (simp_all add: row_ok_def field_ok_def line_end_def)
  from csv_roundtrip [OF this] show ?thesis by (simp add: print_csv_def print_field_def escaped_def)
qed

end
