(* ===== verification/Js_String.thy ===== *)
theory Js_String
  imports Json
begin

text \<open>
  \<open>String(v)\<close> of any parsed value. A fraction prints the shortest digits that read back as the same double,
  with an exponent from seven leading zeros on; an array prints its elements with commas between them.
\<close>

definition pow10 :: "int \<Rightarrow> rat" where
  "pow10 k = (if 0 \<le> k then 10 ^ nat k else 1 / 10 ^ nat (- k))"

text \<open>Leading zeros behind the point; the smallest positive double has 323.\<close>

fun leading_zeros :: "nat \<Rightarrow> rat \<Rightarrow> nat" where
  "leading_zeros 0 q = 0"
| "leading_zeros (Suc n) q = (if 1 \<le> 10 * q then 0 else Suc (leading_zeros n (10 * q)))"

definition decimal_exponent :: "rat \<Rightarrow> int" where
  "decimal_exponent q = (if 1 \<le> q then int (length (show_int \<lfloor>q\<rfloor>)) else - int (leading_zeros 330 q))"

text \<open>The \<open>k\<close> digits that read back as \<open>q\<close>, the closest ones when there are two.\<close>

definition digits_at :: "rat \<Rightarrow> int \<Rightarrow> int option" where
  "digits_at q k =
     (let e = decimal_exponent q; x = q * pow10 (k - e); lower = \<lfloor>x\<rfloor>; upper = lower + 1;
          ok = (\<lambda>m. 0 < m \<and> double_round (of_int m * pow10 (e - k)) = q) in
      if ok lower \<and> (\<not> ok upper \<or> x - of_int lower \<le> of_int upper - x) then Some lower
      else if ok upper then Some upper else None)"

text \<open>Seventeen digits determine a double.\<close>

fun fewest_digits :: "rat \<Rightarrow> nat \<Rightarrow> nat \<Rightarrow> int \<times> nat" where
  "fewest_digits q k 0 = (\<lfloor>q * pow10 (int k - decimal_exponent q)\<rfloor>, k)"
| "fewest_digits q k (Suc n) = (case digits_at q (int k) of Some m \<Rightarrow> (m, k) | None \<Rightarrow> fewest_digits q (Suc k) n)"

definition fraction_text :: "rat \<Rightarrow> string" where
  "fraction_text q =
     (let (m, k) = fewest_digits q 1 16; text = show_int m; n = decimal_exponent q + int (length text) - int k;
          ds = rev (dropWhile (\<lambda>c. c = CHR ''0'') (rev text)) in
      if 0 < n then take (nat n) ds @ ''.'' @ drop (nat n) ds
      else if - 6 < n then ''0.'' @ replicate (nat (- n)) (CHR ''0'') @ ds
      else hd ds # (if tl ds = [] then [] else ''.'' @ tl ds) @ ''e-'' @ show_int (1 - n))"

definition number_text :: "rat \<Rightarrow> string" where
  "number_text q =
     (case integer_of (JNum q) of
        Some n \<Rightarrow> integer_text n
      | None \<Rightarrow> if q < 0 then CHR ''-'' # fraction_text (- q) else fraction_text q)"

fun json_text :: "json \<Rightarrow> string" where
  "json_text JNull = ''null''"
| "json_text (JBool b) = (if b then ''true'' else ''false'')"
| "json_text (JNum q) = number_text q"
| "json_text (JStr s) = s"
| "json_text (JArr vs) = join '','' (map (\<lambda>v. if v = JNull then [] else json_text v) vs)"
| "json_text (JObj ms) = ''[object Object]''"

text \<open>Where \<open>js_text\<close> has a text, it is this one.\<close>

lemma js_text_json_text: "js_text v = Some t \<Longrightarrow> json_text v = t"
  by (induction v arbitrary: t rule: js_text.induct) (auto simp: number_text_def split: if_splits)

lemma fraction_examples: "number_text (3/2) = ''1.5''" "number_text (3602879701896397 / 36028797018963968) = ''0.1''"
  by code_simp+

end
