(* ===== verification/Import_Mapping.thy ===== *)
theory Import_Mapping
  imports Js_String Import_Normalization Durable_Inbox Redirector
begin

text \<open>
  \<open>packages/contracts/src/import-mapping.ts\<close> and the mapping of rows in \<open>apps/worker/src/import/runner.ts\<close>: a
  declarative mapping turns the rows of an import file into attempts. The code assigns into objects that the
  mapping, the row and earlier results share, so objects live in a store and a value is an atom or a
  reference; an array is never assigned into and stays an atom. The schema validator, the schemas of the
  events, \<open>Date.parse\<close>, the case tables of Unicode and SHA-256 are arguments. No source and no target names a
  member that every object inherits.
\<close>

section \<open>Objects in a store\<close>

datatype jsval = Atom json | Ref nat

type_synonym object = "(string \<times> jsval) list"
type_synonym store = "object list"

definition object_at :: "store \<Rightarrow> nat \<Rightarrow> object" where
  "object_at st l = (if l < length st then st ! l else [])"

text \<open>A parsed document in the store.\<close>

fun load_value :: "json \<Rightarrow> store \<Rightarrow> jsval \<times> store"
and load_fields :: "(string \<times> json) list \<Rightarrow> store \<Rightarrow> object \<times> store" where
  "load_value (JObj ms) st = (let (fs, t) = load_fields ms st in (Ref (length t), t @ [fs]))"
| "load_value v st = (Atom v, st)"
| "load_fields [] st = ([], st)"
| "load_fields ((n, v) # ms) st = (let (x, t) = load_value v st; (fs, u) = load_fields ms t in ((n, x) # fs, u))"

datatype import_error = Mapping_Error string "string list" | Import_Error string

text \<open>A computation on the store keeps what it changed also when it throws.\<close>

type_synonym 'a imp = "store \<Rightarrow> (import_error + 'a) \<times> store"

definition pureS :: "'a \<Rightarrow> 'a imp" where
  "pureS x = (\<lambda>st. (Inr x, st))"

definition failS :: "import_error \<Rightarrow> 'a imp" where
  "failS e = (\<lambda>st. (Inl e, st))"

definition bindS :: "'a imp \<Rightarrow> ('a \<Rightarrow> 'b imp) \<Rightarrow> 'b imp" where
  "bindS m k = (\<lambda>st. case m st of (Inl e, t) \<Rightarrow> (Inl e, t) | (Inr x, t) \<Rightarrow> k x t)"

definition readS :: "(store \<Rightarrow> 'a) \<Rightarrow> 'a imp" where
  "readS f = (\<lambda>st. (Inr (f st), st))"

definition liftS :: "import_error + 'a \<Rightarrow> 'a imp" where
  "liftS r = (\<lambda>st. (r, st))"

definition allocate :: "object \<Rightarrow> jsval imp" where
  "allocate fs = (\<lambda>st. (Inr (Ref (length st)), st @ [fs]))"

definition writeS :: "nat \<Rightarrow> object \<Rightarrow> unit imp" where
  "writeS l fs = (\<lambda>st. (Inr (), st[l := fs]))"

section \<open>Mappings\<close>

record boolean_config =
  bo_true_values :: "json list"
  bo_false_values :: "json list"
  bo_default :: "bool option"

record timestamp_config =
  tc_default_timezone :: string
  tc_timezone_source :: "string option"

datatype money_input = Integer_Input | Decimal_Input

record money_config =
  mc_input :: "money_input option"
  mc_scale :: nat
  mc_currency_source :: "string option"
  mc_currency_default :: "string option"

record expression_fields =
  me_source :: "string option"
  me_fallback_column :: "string option"
  me_prefix :: "string option"
  me_const :: "jsval option"
  me_default :: "jsval option"
  me_map :: "(string \<times> json) list option"
  me_map_default :: "json option"
  me_omit_if_empty :: bool
  me_boolean :: "boolean_config option"
  me_uppercase :: bool
  me_timestamp :: "timestamp_config option"
  me_money :: "money_config option"

datatype mapping_expression = Expression expression_fields "(string \<times> mapping_expression) list option"

fun expression_fields_of :: "mapping_expression \<Rightarrow> expression_fields" where
  "expression_fields_of (Expression e cs) = e"

datatype mapping_kind = Mmp_Raw | Manual_Cost

record import_mapping =
  im_kind :: mapping_kind
  im_source_id :: string
  im_tenant_id :: string
  im_app_id :: string
  im_provider :: "string option"
  im_version :: string
  im_row_filter :: "(string \<times> json) list option"
  im_rules :: "(string \<times> mapping_expression) list"

record import_env =
  ie_lower :: "string \<Rightarrow> string"
  ie_upper :: "string \<Rightarrow> string"
  ie_parse_date :: "string \<Rightarrow> int option"
  ie_collation :: "string \<Rightarrow> string"
  ie_event_schema :: "string \<Rightarrow> string list option"
  ie_digest :: "string list \<Rightarrow> string"

definition loadMappingScope :: "json \<Rightarrow> import_error + string \<times> string" where
  "loadMappingScope v =
     (case v of
        JObj ms \<Rightarrow>
          (let ok = (\<lambda>f. case map_of ms f of Some (JStr s) \<Rightarrow> identifier_ok s | _ \<Rightarrow> False);
               text = (\<lambda>f. case map_of ms f of Some (JStr s) \<Rightarrow> s | _ \<Rightarrow> []) in
           if \<not> ok ''tenant_id'' then Inl (Mapping_Error ''mapping scope is invalid'' [''tenant_id''])
           else if \<not> ok ''app_id'' then Inl (Mapping_Error ''mapping scope is invalid'' [''app_id''])
           else Inr (text ''tenant_id'', text ''app_id''))
      | _ \<Rightarrow> Inl (Mapping_Error ''mapping scope is missing'' [''tenant_id'', ''app_id'']))"

subsection \<open>Required targets\<close>

definition required_base :: "mapping_kind \<Rightarrow> string list" where
  "required_base kind =
     (case kind of Mmp_Raw \<Rightarrow> [''event_name'', ''event_id'', ''occurred_at'', ''payload'']
      | Manual_Cost \<Rightarrow> [''network'', ''date'', ''money'', ''as_of''])"

text \<open>The event that a mapping names by a constant.\<close>

definition event_const :: "import_mapping \<Rightarrow> string option" where
  "event_const m =
     (case find (\<lambda>r. fst r = ''event_name'') (im_rules m) of
        Some (t, x) \<Rightarrow> (case me_const (expression_fields_of x) of Some (Atom (JStr s)) \<Rightarrow> Some s | _ \<Rightarrow> None)
      | None \<Rightarrow> None)"

definition required_targets :: "import_env \<Rightarrow> import_mapping \<Rightarrow> import_error + string list" where
  "required_targets V m =
     (case (im_kind m, event_const m) of
        (Mmp_Raw, Some name) \<Rightarrow>
          (case ie_event_schema V (map (\<lambda>c. if c = CHR ''_'' then CHR ''-'' else c) name) of
             None \<Rightarrow> Inl (Import_Error ''event schema'')
           | Some required \<Rightarrow>
               Inr (remdups (required_base Mmp_Raw @ map (\<lambda>n. ''payload.'' @ n) (filter (\<lambda>n. n \<noteq> ''event_name'') required))))
      | _ \<Rightarrow> Inr (required_base (im_kind m)))"

fun inspect :: "string list \<Rightarrow> mapping_expression \<Rightarrow> string \<Rightarrow> string option"
and inspect_children :: "string list \<Rightarrow> (string \<times> mapping_expression) list \<Rightarrow> string \<Rightarrow> string option" where
  "inspect required (Expression e cs) target =
     (if me_omit_if_empty e \<and> target \<in> set required then Some target
      else case cs of None \<Rightarrow> None | Some children \<Rightarrow> inspect_children required children target)"
| "inspect_children required [] target = None"
| "inspect_children required ((n, x) # cs) target =
     (case inspect required x (target @ ''.'' @ n) of Some t \<Rightarrow> Some t | None \<Rightarrow> inspect_children required cs target)"

text \<open>What is checked after the schema.\<close>

definition parseMapping :: "import_env \<Rightarrow> (json \<Rightarrow> string list + import_mapping) \<Rightarrow> json \<Rightarrow> import_error + import_mapping" where
  "parseMapping V validate v =
     (case validate v of
        Inl wrong \<Rightarrow> Inl (Mapping_Error ''mapping schema validation failed'' (sort (remdups wrong)))
      | Inr m \<Rightarrow>
          if im_kind m = Mmp_Raw \<and> \<not> truthy (im_provider m) then Inl (Mapping_Error ''mmp_raw mappings require provider'' [''provider''])
          else (case required_targets V m of
             Inl e \<Rightarrow> Inl e
           | Inr required \<Rightarrow>
               let missing = filter (\<lambda>t. \<not> starts_with t ''payload.'' \<and> t \<notin> fst ` set (im_rules m)) required in
               if missing \<noteq> [] then Inl (Mapping_Error ''mapping is missing required targets'' missing)
               else (case List.map_filter (\<lambda>r. inspect required (snd r) (fst r)) (im_rules m) of
                  t # ts \<Rightarrow> Inl (Mapping_Error ''omit_if_empty cannot target a required field'' [t])
                | [] \<Rightarrow> Inr m)))"

subsection \<open>Reused event identifiers\<close>

record lint_warning =
  lw_provider :: string
  lw_source :: string
  lw_source_ids :: "string list"

definition event_id_expression :: "import_mapping \<Rightarrow> mapping_expression option" where
  "event_id_expression m = map_option snd (find (\<lambda>r. fst r = ''event_id'') (im_rules m))"

definition linted :: "import_mapping \<Rightarrow> (string list \<times> string) option" where
  "linted m =
     (if im_kind m \<noteq> Mmp_Raw \<or> \<not> truthy (im_provider m) then None
      else case event_id_expression m of
        None \<Rightarrow> None
      | Some x \<Rightarrow>
          let e = expression_fields_of x in
          if truthy (me_source e)
          then Some ([im_tenant_id m, im_app_id m, the_or [] (im_provider m), the_or [] (me_source e)], the_or [] (me_prefix e))
          else None)"

text \<open>The route of a mapping: its key with a separator that no part contains, its prefix and itself.\<close>

definition lint_key :: "string list \<Rightarrow> string" where
  "lint_key parts = join [CHR 0x00] parts"

definition lint_groups :: "import_mapping list \<Rightarrow> (string, (string \<times> import_mapping) list) jsmap" where
  "lint_groups ms =
     foldl (\<lambda>groups m. case linted m of
         None \<Rightarrow> groups
       | Some (parts, prefix) \<Rightarrow>
           map_set (lint_key parts) (the_or [] (map_get groups (lint_key parts)) @ [(prefix, m)]) groups) [] ms"

definition prefixes_separate :: "string list \<Rightarrow> bool" where
  "prefixes_separate ps \<longleftrightarrow> [] \<notin> set ps \<and> distinct ps"

definition group_warning :: "(string \<times> import_mapping) list \<Rightarrow> lint_warning" where
  "group_warning g =
     (let m = snd (hd g) in
      \<lparr> lw_provider = the_or [] (im_provider m),
        lw_source = (case event_id_expression m of Some x \<Rightarrow> the_or [] (me_source (expression_fields_of x)) | None \<Rightarrow> []),
        lw_source_ids = sort (map (im_source_id \<circ> snd) g) \<rparr>)"

definition lintMappings :: "import_env \<Rightarrow> import_mapping list \<Rightarrow> lint_warning list" where
  "lintMappings V ms =
     sort_key (\<lambda>w. [ie_collation V (lw_provider w), ie_collation V (lw_source w)])
       (map group_warning
         (filter (\<lambda>g. 2 \<le> length g \<and> \<not> prefixes_separate (map fst g)) (map_values (lint_groups ms))))"

section \<open>Values of a row\<close>

fun path_value :: "store \<Rightarrow> jsval option \<Rightarrow> string list \<Rightarrow> jsval option" where
  "path_value st v [] = v"
| "path_value st v (p # ps) = path_value st (case v of Some (Ref l) \<Rightarrow> map_get (object_at st l) p | _ \<Rightarrow> None) ps"

definition sourceValue :: "store \<Rightarrow> jsval \<Rightarrow> string option \<Rightarrow> jsval option" where
  "sourceValue st row name = (if truthy name then path_value st (Some row) (split_on (CHR ''.'') (the_or [] name)) else None)"

definition value_text :: "jsval option \<Rightarrow> string" where
  "value_text v = (case v of None \<Rightarrow> ''undefined'' | Some (Atom j) \<Rightarrow> json_text j | Some (Ref l) \<Rightarrow> ''[object Object]'')"

definition empty_value :: "jsval option \<Rightarrow> bool" where
  "empty_value v \<longleftrightarrow> v = None \<or> v = Some (Atom JNull) \<or> v = Some (Atom (JStr []))"

definition value_truthy :: "jsval option \<Rightarrow> bool" where
  "value_truthy v =
     (case v of
        None \<Rightarrow> False
      | Some (Ref l) \<Rightarrow> True
      | Some (Atom j) \<Rightarrow> (case j of JNull \<Rightarrow> False | JBool b \<Rightarrow> b | JNum q \<Rightarrow> q \<noteq> 0 | JStr s \<Rightarrow> s \<noteq> [] | _ \<Rightarrow> True))"

text \<open>The suffix \<open>Z\<close>, or an offset of hours and minutes.\<close>

definition has_zone :: "string \<Rightarrow> bool" where
  "has_zone s \<longleftrightarrow> s \<noteq> [] \<and> last s \<in> {CHR ''Z'', CHR ''z''}
     \<or> 6 \<le> length s \<and> (let t = drop (length s - 6) s in
          t ! 0 \<in> {CHR ''+'', CHR ''-''} \<and> is_digit (t ! 1) \<and> is_digit (t ! 2) \<and> t ! 3 = CHR '':'' \<and> is_digit (t ! 4) \<and> is_digit (t ! 5))"

definition normalizeTimestamp :: "import_env \<Rightarrow> store \<Rightarrow> jsval option \<Rightarrow> timestamp_config \<Rightarrow> jsval \<Rightarrow> import_error + string" where
  "normalizeTimestamp V st v cfg row =
     (case v of
        Some (Atom (JStr s)) \<Rightarrow>
          (let text = js_trim s;
               zone = (if truthy (tc_timezone_source cfg) then sourceValue st row (tc_timezone_source cfg)
                 else Some (Atom (JStr (tc_default_timezone cfg)))) in
           if text = [] then Inl (Mapping_Error ''timestamp source is empty'' [])
           else if \<not> has_zone text \<and> zone \<noteq> Some (Atom (JStr ''UTC''))
             then Inl (Mapping_Error ''only the verified UTC default timezone is supported'' [])
           else (case ie_parse_date V (if has_zone text then text else text @ ''Z'') of
               None \<Rightarrow> Inl (Mapping_Error ''timestamp source is invalid'' []) | Some t \<Rightarrow> Inr (toISOString t)))
      | _ \<Rightarrow> Inl (Mapping_Error ''timestamp source is empty'' []))"

definition booleanValue :: "import_env \<Rightarrow> jsval option \<Rightarrow> boolean_config \<Rightarrow> import_error + bool" where
  "booleanValue V v cfg =
     (let norm = (\<lambda>t. ie_lower V (js_trim t)); candidates = map (\<lambda>j. norm (json_text j)) in
      if norm (value_text v) \<in> set (candidates (bo_true_values cfg)) then Inr True
      else if norm (value_text v) \<in> set (candidates (bo_false_values cfg)) then Inr False
      else case bo_default cfg of
        Some b \<Rightarrow> Inr b | None \<Rightarrow> Inl (Mapping_Error ''boolean source is outside the declared vocabulary'' []))"

definition money_amount :: "jsval option \<Rightarrow> money_config \<Rightarrow> import_error + string" where
  "money_amount v cfg =
     (case the_or Integer_Input (mc_input cfg) of
        Decimal_Input \<Rightarrow>
          (case decimal_parts (case v of Some (Atom (JStr s)) \<Rightarrow> js_trim s | _ \<Rightarrow> []) of
             None \<Rightarrow> Inl (Mapping_Error ''money decimal source must be a non-negative base-10 decimal string without exponent notation'' [])
           | Some (whole, part) \<Rightarrow>
               if mc_scale cfg < length part
               then Inl (Mapping_Error ''money decimal source exceeds the declared scale; rounding is not permitted'' [])
               else Inr (whole @ part @ replicate (mc_scale cfg - length part) (CHR ''0'')))
      | Integer_Input \<Rightarrow>
          (let amount = (case v of
               Some (Atom (JNum q)) \<Rightarrow> (case safe_integer_of (JNum q) of Some n \<Rightarrow> if 0 \<le> n then show_int n else [] | None \<Rightarrow> [])
             | Some (Atom JNull) \<Rightarrow> []
             | None \<Rightarrow> []
             | _ \<Rightarrow> js_trim (value_text v)) in
           if all_digits amount then Inr amount
           else Inl (Mapping_Error ''money source must be a non-negative base-10 integer without exponent notation'' [])))"

definition money_currency :: "import_env \<Rightarrow> store \<Rightarrow> money_config \<Rightarrow> jsval \<Rightarrow> string" where
  "money_currency V st cfg row =
     (let v = (if truthy (mc_currency_source cfg) then sourceValue st row (mc_currency_source cfg) else None) in
      ie_upper V (if value_truthy v then value_text v else the_or [] (mc_currency_default cfg)))"

definition moneyValue :: "import_env \<Rightarrow> jsval option \<Rightarrow> money_config \<Rightarrow> jsval \<Rightarrow> jsval imp" where
  "moneyValue V v cfg row =
     bindS (liftS (money_amount v cfg)) (\<lambda>amount.
     bindS (readS (\<lambda>st. money_currency V st cfg row)) (\<lambda>currency.
       if currency_code currency
       then allocate [(''amount_unscaled'', Atom (JStr amount)), (''amount_scale'', Atom (JNum (of_nat (mc_scale cfg)))),
         (''currency'', Atom (JStr currency))]
       else failS (Mapping_Error ''money currency is missing or invalid'' [])))"

section \<open>Expressions\<close>

definition source_field :: "expression_fields \<Rightarrow> string list" where
  "source_field e = (if truthy (me_source e) then [the_or [] (me_source e)] else [])"

text \<open>The constant or the source, then the fallback column, then the default.\<close>

definition looked_up :: "expression_fields \<Rightarrow> jsval \<Rightarrow> store \<Rightarrow> jsval option" where
  "looked_up e row st =
     (let v = (case me_const e of Some c \<Rightarrow> Some c | None \<Rightarrow> sourceValue st row (me_source e));
          w = (if empty_value v \<and> truthy (me_fallback_column e) then sourceValue st row (me_fallback_column e) else v) in
      if empty_value w \<and> me_default e \<noteq> None then me_default e else w)"

definition table_value :: "expression_fields \<Rightarrow> jsval option \<Rightarrow> import_error + jsval option" where
  "table_value e v =
     (case me_map e of
        None \<Rightarrow> Inr v
      | Some table \<Rightarrow>
          (case (map_of table (value_text v), me_map_default e) of
             (Some j, d) \<Rightarrow> Inr (Some (Atom j))
           | (None, Some j) \<Rightarrow> Inr (Some (Atom j))
           | (None, None) \<Rightarrow> Inl (Mapping_Error ''enum source is outside the declared map'' (source_field e))))"

definition boolean_step :: "import_env \<Rightarrow> expression_fields \<Rightarrow> jsval option \<Rightarrow> import_error + jsval option" where
  "boolean_step V e v =
     (case me_boolean e of
        None \<Rightarrow> Inr v | Some cfg \<Rightarrow> (case booleanValue V v cfg of Inl x \<Rightarrow> Inl x | Inr b \<Rightarrow> Inr (Some (Atom (JBool b)))))"

definition uppercase_step :: "import_env \<Rightarrow> expression_fields \<Rightarrow> jsval option \<Rightarrow> jsval option" where
  "uppercase_step V e v = (case v of Some (Atom (JStr s)) \<Rightarrow> Some (Atom (JStr (if me_uppercase e then ie_upper V s else s))) | _ \<Rightarrow> v)"

definition timestamp_step :: "import_env \<Rightarrow> expression_fields \<Rightarrow> jsval \<Rightarrow> jsval option \<Rightarrow> jsval option imp" where
  "timestamp_step V e row v =
     (case me_timestamp e of
        None \<Rightarrow> pureS v
      | Some cfg \<Rightarrow>
          (\<lambda>st. (case normalizeTimestamp V st v cfg row of Inl x \<Rightarrow> Inl x | Inr s \<Rightarrow> Inr (Some (Atom (JStr s))), st)))"

definition money_step :: "import_env \<Rightarrow> expression_fields \<Rightarrow> jsval \<Rightarrow> jsval option \<Rightarrow> jsval option imp" where
  "money_step V e row v = (case me_money e of None \<Rightarrow> pureS v | Some cfg \<Rightarrow> bindS (moneyValue V v cfg row) (\<lambda>x. pureS (Some x)))"

definition prefix_step :: "expression_fields \<Rightarrow> jsval option \<Rightarrow> import_error + jsval" where
  "prefix_step e v =
     (case v of
        None \<Rightarrow> Inl (Mapping_Error ''required mapping source is missing'' (source_field e))
      | Some x \<Rightarrow>
          (case me_prefix e of
             None \<Rightarrow> Inr x
           | Some p \<Rightarrow>
               (case x of
                  Atom (JStr s) \<Rightarrow> Inr (Atom (JStr (p @ s)))
                | Atom (JNum q) \<Rightarrow> Inr (Atom (JStr (p @ number_text q)))
                | _ \<Rightarrow> Inl (Mapping_Error ''prefix requires a string or number source'' (source_field e)))))"

text \<open>An expression without members; \<open>None\<close> is the value that is omitted.\<close>

definition scalar_expression :: "import_env \<Rightarrow> jsval \<Rightarrow> expression_fields \<Rightarrow> jsval option imp" where
  "scalar_expression V row e =
     bindS (readS (looked_up e row)) (\<lambda>v.
     bindS (liftS (table_value e v)) (\<lambda>w.
       if me_omit_if_empty e \<and> empty_value w then pureS None
       else bindS (liftS (boolean_step V e w)) (\<lambda>b.
            bindS (timestamp_step V e row (uppercase_step V e b)) (\<lambda>t.
            bindS (money_step V e row t) (\<lambda>m.
            bindS (liftS (prefix_step e m)) (\<lambda>x. pureS (Some x)))))))"

fun evaluateExpression :: "import_env \<Rightarrow> jsval \<Rightarrow> mapping_expression \<Rightarrow> jsval option imp"
and evaluate_children :: "import_env \<Rightarrow> jsval \<Rightarrow> (string \<times> mapping_expression) list \<Rightarrow> object imp" where
  "evaluateExpression V row (Expression e None) = scalar_expression V row e"
| "evaluateExpression V row (Expression e (Some cs)) =
     bindS (evaluate_children V row cs) (\<lambda>fs. bindS (allocate fs) (\<lambda>x. pureS (Some x)))"
| "evaluate_children V row [] = pureS []"
| "evaluate_children V row ((n, x) # cs) =
     bindS (evaluateExpression V row x) (\<lambda>v. bindS (evaluate_children V row cs) (\<lambda>fs.
       pureS ((case v of None \<Rightarrow> [] | Some y \<Rightarrow> [(n, y)]) @ fs)))"

section \<open>Rows\<close>

text \<open>\<open>Object.assign\<close> into an object that is there already, else an assignment.\<close>

definition assign_fields :: "object \<Rightarrow> object \<Rightarrow> object" where
  "assign_fields target source = foldl (\<lambda>t (k, v). map_set k v t) target source"

definition mergeValue :: "nat \<Rightarrow> string \<Rightarrow> jsval \<Rightarrow> unit imp" where
  "mergeValue l key v =
     (\<lambda>st. case (map_get (object_at st l) key, v) of
        (Some (Ref m), Ref n) \<Rightarrow> writeS m (assign_fields (object_at st m) (object_at st n)) st
      | _ \<Rightarrow> writeS l (map_set key v (object_at st l)) st)"

fun set_target :: "string \<Rightarrow> nat \<Rightarrow> string list \<Rightarrow> jsval \<Rightarrow> unit imp" where
  "set_target path l [] v = pureS ()"
| "set_target path l [p] v = mergeValue l p v"
| "set_target path l (p # q # ps) v =
     (\<lambda>st. case map_get (object_at st l) p of
        None \<Rightarrow> bindS (allocate []) (\<lambda>x. bindS (readS (\<lambda>t. map_set p x (object_at t l))) (\<lambda>fs.
          bindS (writeS l fs) (\<lambda>u. set_target path (length st) (q # ps) v))) st
      | Some (Ref m) \<Rightarrow> set_target path m (q # ps) v st
      | Some (Atom a) \<Rightarrow> failS (Mapping_Error (''mapping target collides with a scalar: '' @ path) [path]) st)"

definition setTarget :: "nat \<Rightarrow> string \<Rightarrow> jsval \<Rightarrow> unit imp" where
  "setTarget l path v = set_target path l (split_on (CHR ''.'') path) v"

definition rowMatches :: "import_mapping \<Rightarrow> store \<Rightarrow> jsval \<Rightarrow> bool" where
  "rowMatches m st row \<longleftrightarrow>
     (case im_row_filter m of None \<Rightarrow> True | Some clauses \<Rightarrow> list_all (\<lambda>c. sourceValue st row (Some (fst c)) = Some (Atom (snd c))) clauses)"

fun apply_rules :: "import_env \<Rightarrow> jsval \<Rightarrow> nat \<Rightarrow> (string \<times> mapping_expression) list \<Rightarrow> unit imp" where
  "apply_rules V row out [] = pureS ()"
| "apply_rules V row out ((target, x) # rules) =
     bindS (evaluateExpression V row x) (\<lambda>v.
     bindS (case v of None \<Rightarrow> pureS () | Some y \<Rightarrow> setTarget out target y) (\<lambda>u. apply_rules V row out rules))"

text \<open>The location of the output.\<close>

definition mapRow :: "import_env \<Rightarrow> import_mapping \<Rightarrow> jsval \<Rightarrow> nat imp" where
  "mapRow V m row =
     bindS (readS length) (\<lambda>out. bindS (allocate []) (\<lambda>x. bindS (apply_rules V row out (im_rules m)) (\<lambda>u. pureS out)))"

section \<open>Attempts\<close>

record import_record =
  ir_record_id :: string
  ir_delivery_id :: string
  ir_event_id :: string
  ir_event_name :: string
  ir_occurred_at :: string
  ir_processing_purpose_id :: string
  ir_processing_sequence :: nat
  ir_payload :: nat

definition toAttempt :: "import_env \<Rightarrow> import_mapping \<Rightarrow> string \<Rightarrow> nat \<Rightarrow> nat \<Rightarrow> store \<Rightarrow> import_error + import_record" where
  "toAttempt V m fileDigest ordinal out st =
     (let got = map_get (object_at st out);
          text = (\<lambda>f default. case got f of None \<Rightarrow> default | Some (Atom JNull) \<Rightarrow> default | v \<Rightarrow> value_text v) in
      case got ''event_name'' of
        Some (Atom (JStr name)) \<Rightarrow>
          (case got ''payload'' of
             Some (Ref p) \<Rightarrow>
               if text ''event_id'' [] = [] then Inl (Mapping_Error ''mapped event_id is missing'' [''event_id''])
               else (case (text ''occurred_at'' [], ie_parse_date V (text ''occurred_at'' [])) of
                  (c # cs, Some t) \<Rightarrow>
                    Inr \<lparr> ir_record_id = ''record:'' @ take 48 (ie_digest V [im_source_id m, fileDigest, show_nat ordinal]),
                      ir_delivery_id = ''delivery:'' @ take 48 (ie_digest V [fileDigest, show_nat ordinal]),
                      ir_event_id = text ''event_id'' [], ir_event_name = name, ir_occurred_at = toISOString t,
                      ir_processing_purpose_id = text ''processing_purpose_id'' ''analytics'', ir_processing_sequence = ordinal + 1, ir_payload = p \<rparr>
                | _ \<Rightarrow> Inl (Mapping_Error ''mapped occurred_at is invalid'' [''occurred_at'']))
           | _ \<Rightarrow> Inl (Mapping_Error ''mapped payload is missing'' [''payload'']))
      | _ \<Rightarrow> Inl (Mapping_Error ''mapped event_name is missing'' [''event_name'']))"

record import_failure =
  if_ordinal :: nat
  if_reason :: string
  if_fields :: "string list"

text \<open>An error of another kind counts as a failed mapping without fields.\<close>

definition failure_of :: "nat \<Rightarrow> import_error \<Rightarrow> import_failure" where
  "failure_of ordinal e =
     (case e of
        Mapping_Error message wrong \<Rightarrow>
          \<lparr> if_ordinal = ordinal, if_reason = (if contains_text message ''timestamp'' then ''timestamp_invalid'' else ''mapping_validation_failed''),
            if_fields = wrong \<rparr>
      | Import_Error message \<Rightarrow> \<lparr> if_ordinal = ordinal, if_reason = ''mapping_validation_failed'', if_fields = [] \<rparr>)"

definition map_attempt :: "import_env \<Rightarrow> import_mapping \<Rightarrow> string \<Rightarrow> nat \<Rightarrow> jsval \<Rightarrow> import_record imp" where
  "map_attempt V m fileDigest ordinal row =
     bindS (mapRow V m row) (\<lambda>out. bindS (readS (toAttempt V m fileDigest ordinal out)) liftS)"

fun import_rows :: "import_env \<Rightarrow> import_mapping \<Rightarrow> string \<Rightarrow> nat \<Rightarrow> jsval list \<Rightarrow> store \<Rightarrow>
    (nat \<times> import_record) list \<times> import_failure list \<times> store" where
  "import_rows V m fileDigest ordinal [] st = ([], [], st)"
| "import_rows V m fileDigest ordinal (row # rows) st =
     (if \<not> rowMatches m st row then import_rows V m fileDigest (ordinal + 1) rows st
      else case map_attempt V m fileDigest ordinal row st of
        (Inr a, t) \<Rightarrow> (let (rs, fs, u) = import_rows V m fileDigest (ordinal + 1) rows t in ((ordinal, a) # rs, fs, u))
      | (Inl e, t) \<Rightarrow> (let (rs, fs, u) = import_rows V m fileDigest (ordinal + 1) rows t in (rs, failure_of ordinal e # fs, u)))"

section \<open>Stores only grow\<close>

subsection \<open>Rows and mappings without objects\<close>

definition is_atom :: "jsval \<Rightarrow> bool" where
  "is_atom v \<longleftrightarrow> (case v of Atom j \<Rightarrow> True | Ref m \<Rightarrow> False)"

text \<open>A row of a CSV file: an object of the base with atoms only.\<close>

definition flat_row :: "store \<Rightarrow> jsval \<Rightarrow> bool" where
  "flat_row base row \<longleftrightarrow> (case row of Ref r \<Rightarrow> r < length base \<and> list_all (\<lambda>f. is_atom (snd f)) (base ! r) | Atom j \<Rightarrow> False)"

definition flat_fields :: "expression_fields \<Rightarrow> bool" where
  "flat_fields e \<longleftrightarrow> pred_option is_atom (me_const e) \<and> pred_option is_atom (me_default e)"

fun flat_expression :: "mapping_expression \<Rightarrow> bool" and flat_children :: "(string \<times> mapping_expression) list \<Rightarrow> bool" where
  "flat_expression (Expression e cs) \<longleftrightarrow> flat_fields e \<and> (case cs of None \<Rightarrow> True | Some children \<Rightarrow> flat_children children)"
| "flat_children [] \<longleftrightarrow> True"
| "flat_children ((n, x) # cs) \<longleftrightarrow> flat_expression x \<and> flat_children cs"

definition flat_mapping :: "import_mapping \<Rightarrow> bool" where
  "flat_mapping m \<longleftrightarrow> list_all (\<lambda>r. flat_expression (snd r)) (im_rules m)"

text \<open>Nothing of the code removes a member of an object.\<close>

definition keys_of :: "object \<Rightarrow> string set" where
  "keys_of fs = fst ` set fs"

definition grows :: "store \<Rightarrow> store \<Rightarrow> bool" where
  "grows st t \<longleftrightarrow> length st \<le> length t \<and> (\<forall>l < length st. keys_of (st ! l) \<subseteq> keys_of (t ! l))"

definition growing :: "'a imp \<Rightarrow> bool" where
  "growing m \<longleftrightarrow> (\<forall>st. grows st (snd (m st)))"

lemma grows_refl [simp]: "grows st st"
  by (simp add: grows_def)

lemma grows_trans: "grows s t \<Longrightarrow> grows t u \<Longrightarrow> grows s u"
  unfolding grows_def by (meson less_le_trans order_trans)

lemma growing_simps [simp]: "growing (pureS x)" "growing (failS e)" "growing (liftS r)" "growing (readS f)" "growing (allocate fs)"
  by (auto simp: growing_def pureS_def failS_def liftS_def readS_def allocate_def grows_def nth_append)

lemma growing_bind [simp]: "growing m \<Longrightarrow> (\<And>x. growing (k x)) \<Longrightarrow> growing (bindS m k)"
  unfolding growing_def bindS_def by (auto split: prod.splits sum.splits intro: grows_trans)

lemma keys_of_set [simp]: "keys_of (map_set k v fs) = insert k (keys_of fs)"
  unfolding keys_of_def map_set_def by (induction fs) auto

lemma keys_of_assign: "keys_of fs \<subseteq> keys_of (assign_fields fs gs)"
proof (induction gs arbitrary: fs)
  case (Cons g gs)
  have "keys_of fs \<subseteq> keys_of (map_set (fst g) (snd g) fs)" by auto
  also have "\<dots> \<subseteq> keys_of (assign_fields (map_set (fst g) (snd g) fs) gs)" by (rule Cons.IH)
  finally show ?case by (simp add: assign_fields_def case_prod_beta)
qed (simp add: assign_fields_def)

lemma object_at_nth: "l < length st \<Longrightarrow> object_at st l = st ! l"
  by (simp add: object_at_def)

lemma grows_write: "(l < length st \<Longrightarrow> keys_of (st ! l) \<subseteq> keys_of fs) \<Longrightarrow> grows st (st[l := fs])"
  by (cases "l < length st") (auto simp: grows_def nth_list_update subset_iff)

lemma growing_merge [simp]: "growing (mergeValue l key v)"
  by (auto simp: growing_def mergeValue_def writeS_def object_at_nth keys_of_assign [THEN subsetD] intro!: grows_write
      split: option.splits jsval.splits)

lemma growing_set_target [simp]: "growing (set_target path l ps v)"
proof (induction path l ps v rule: set_target.induct)
  case (3 path l p q ps v)
  show ?case unfolding growing_def
  proof
    fix st
    have "growing (bindS (allocate []) (\<lambda>x. bindS (readS (\<lambda>t. map_set p x (object_at t l))) (\<lambda>fs.
        bindS (writeS l fs) (\<lambda>u. set_target path (length st) (q # ps) v))))" if n: "map_get (object_at st l) p = None"
      unfolding growing_def
    proof
      fix s :: store
      let ?s = "(s @ [[]])[l := map_set p (Ref (length s)) (object_at (s @ [[]]) l)]"
      have "grows s (s @ [[]])" by (auto simp: grows_def nth_append)
      moreover have "grows (s @ [[]]) ?s" by (rule grows_write) (auto simp: object_at_nth)
      moreover have "grows ?s (snd (set_target path (length st) (q # ps) v ?s))" using "3.IH"(1) [OF n] by (simp add: growing_def)
      ultimately show "grows s (snd (bindS (allocate []) (\<lambda>x. bindS (readS (\<lambda>t. map_set p x (object_at t l))) (\<lambda>fs.
          bindS (writeS l fs) (\<lambda>u. set_target path (length st) (q # ps) v))) s))"
        by (simp add: bindS_def allocate_def readS_def writeS_def) (blast intro: grows_trans)
    qed
    then show "grows st (snd (set_target path l (p # q # ps) v st))"
      using "3.IH"(2) by (auto simp: failS_def growing_def split: option.splits jsval.splits)
  qed
qed (simp_all add: growing_merge)

lemma growing_steps [simp]: "growing (timestamp_step V e row v)" "growing (money_step V e row v)"
proof -
  show "growing (timestamp_step V e row v)" by (auto simp: timestamp_step_def growing_def pureS_def split: option.splits)
  show "growing (money_step V e row v)" by (auto simp: money_step_def moneyValue_def split: option.splits)
qed

lemma growing_expression [simp]: "growing (evaluateExpression V row x)" "growing (evaluate_children V row cs)"
proof (induction x and cs rule: flat_expression_flat_children.induct)
  case (1 e cs)
  have "growing (scalar_expression V row e)"
    by (simp add: scalar_expression_def)
  with 1 show ?case by (cases cs) (auto intro!: growing_bind)
qed (auto intro!: growing_bind)

lemma growing_rules [simp]: "growing (apply_rules V row out rules)"
  by (induction rules) (auto intro!: growing_bind growing_expression simp: growing_set_target setTarget_def split: option.splits)

text \<open>The store never gets shorter.\<close>

definition lengthens :: "'a imp \<Rightarrow> bool" where
  "lengthens m \<longleftrightarrow> (\<forall>st. length st \<le> length (snd (m st)))"

lemma growing_lengthens: "growing m \<Longrightarrow> lengthens m"
  by (simp add: growing_def grows_def lengthens_def)

lemma lengthens_write [simp]: "lengthens (writeS l fs)"
  by (simp add: lengthens_def writeS_def)

lemma lengthens_bind [simp]: "lengthens m \<Longrightarrow> (\<And>x. lengthens (k x)) \<Longrightarrow> lengthens (bindS m k)"
  unfolding lengthens_def bindS_def by (auto split: prod.splits sum.splits intro: order_trans)

lemma lengthens_if [simp]: "lengthens m \<Longrightarrow> lengthens n \<Longrightarrow> lengthens (if b then m else n)"
  by simp

lemma lengthens_target [simp]: "lengthens (case v of None \<Rightarrow> pureS () | Some x \<Rightarrow> setTarget out target x)"
  by (cases v) (simp_all add: setTarget_def growing_lengthens)

lemmas lengthens_growing [simp] = growing_simps [THEN growing_lengthens] growing_steps [THEN growing_lengthens]
  growing_expression [THEN growing_lengthens] growing_set_target [THEN growing_lengthens] growing_rules [THEN growing_lengthens]
  growing_merge [THEN growing_lengthens]

section \<open>What a row can reach\<close>

text \<open>
  The store grew beyond a base that is untouched, and what is beyond the base refers only to what is beyond it and below a
  ceiling \<open>N\<close>, which is the length of the store at the end of the computation that is looked at.
\<close>

definition fresh_value :: "nat \<Rightarrow> nat \<Rightarrow> jsval \<Rightarrow> bool" where
  "fresh_value n N v \<longleftrightarrow> (case v of Atom j \<Rightarrow> True | Ref m \<Rightarrow> n \<le> m \<and> m < N)"

definition fresh_object :: "nat \<Rightarrow> nat \<Rightarrow> object \<Rightarrow> bool" where
  "fresh_object n N fs \<longleftrightarrow> list_all (\<lambda>f. fresh_value n N (snd f)) fs"

definition beyond :: "store \<Rightarrow> nat \<Rightarrow> store \<Rightarrow> bool" where
  "beyond base N st \<longleftrightarrow> (\<exists>new. st = base @ new \<and> list_all (fresh_object (length base) N) new)"

definition keeps :: "store \<Rightarrow> nat \<Rightarrow> 'a imp \<Rightarrow> ('a \<Rightarrow> bool) \<Rightarrow> bool" where
  "keeps base N m Q \<longleftrightarrow> (\<forall>st. beyond base N st \<and> length (snd (m st)) \<le> N \<longrightarrow> beyond base N (snd (m st)) \<and> (\<forall>x. fst (m st) = Inr x \<longrightarrow> Q x))"

lemma fresh_simps [simp]: "fresh_value n N (Atom j)" "fresh_value n N (Ref m) \<longleftrightarrow> n \<le> m \<and> m < N" "fresh_object n N []"
  "fresh_object n N (f # fs) \<longleftrightarrow> fresh_value n N (snd f) \<and> fresh_object n N fs"
  "fresh_object n N (fs @ gs) \<longleftrightarrow> fresh_object n N fs \<and> fresh_object n N gs"
  by (simp_all add: fresh_value_def fresh_object_def)

lemma keeps_pure: "Q x \<Longrightarrow> keeps base N (pureS x) Q"
  by (simp add: keeps_def pureS_def)

lemma keeps_fail: "keeps base N (failS e) Q"
  by (simp add: keeps_def failS_def)

lemma keeps_lift: "(\<And>x. r = Inr x \<Longrightarrow> Q x) \<Longrightarrow> keeps base N (liftS r) Q"
  by (simp add: keeps_def liftS_def)

lemma keeps_read: "(\<And>st. beyond base N st \<Longrightarrow> Q (f st)) \<Longrightarrow> keeps base N (readS f) Q"
  by (simp add: keeps_def readS_def)

lemma keeps_bind:
  assumes "keeps base N m Q" "\<And>x. Q x \<Longrightarrow> keeps base N (k x) R" "\<And>x. lengthens (k x)"
  shows "keeps base N (bindS m k) R"
  unfolding keeps_def
proof (intro allI impI)
  fix st
  assume st: "beyond base N st \<and> length (snd (bindS m k st)) \<le> N"
  obtain r t where t: "m st = (r, t)" by fastforce
  have "length t \<le> length (snd (bindS m k st))"
    using assms(3) by (cases r) (simp_all add: lengthens_def bindS_def t)
  with st assms(1) t have m: "beyond base N t" "\<And>x. r = Inr x \<Longrightarrow> Q x" unfolding keeps_def by fastforce+
  with st assms(2) t show "beyond base N (snd (bindS m k st)) \<and> (\<forall>x. fst (bindS m k st) = Inr x \<longrightarrow> R x)"
    unfolding keeps_def bindS_def by (cases r) auto
qed

lemma keeps_weaken: "keeps base N m Q \<Longrightarrow> (\<And>x. Q x \<Longrightarrow> R x) \<Longrightarrow> keeps base N m R"
  by (auto simp: keeps_def)

lemma beyond_length: "beyond base N st \<Longrightarrow> length base \<le> length st"
  by (auto simp: beyond_def)

lemma beyond_append: "beyond base N st \<Longrightarrow> fresh_object (length base) N fs \<Longrightarrow> beyond base N (st @ [fs])"
  by (auto simp: beyond_def)

lemma beyond_update:
  assumes "beyond base N st" "fresh_object (length base) N fs" "length base \<le> l"
  shows "beyond base N (st[l := fs])"
proof -
  from assms(1) obtain new where new: "st = base @ new" "list_all (fresh_object (length base) N) new" by (auto simp: beyond_def)
  have "st[l := fs] = base @ new[l - length base := fs]" using assms(3) by (simp add: new(1) list_update_append)
  moreover have "list_all (fresh_object (length base) N) (new[l - length base := fs])"
    using new(2) assms(2) by (auto simp: list_all_iff dest!: set_update_subset_insert [THEN subsetD])
  ultimately show ?thesis by (auto simp: beyond_def)
qed

lemma beyond_base: "beyond base N st \<Longrightarrow> l < length base \<Longrightarrow> object_at st l = base ! l"
  by (auto simp: beyond_def object_at_def nth_append)

lemma beyond_fresh: "beyond base N st \<Longrightarrow> length base \<le> l \<Longrightarrow> fresh_object (length base) N (object_at st l)"
  by (auto simp: beyond_def object_at_def nth_append list_all_length)

lemma fresh_get: "fresh_object n N fs \<Longrightarrow> map_get fs k = Some v \<Longrightarrow> fresh_value n N v"
  by (auto simp: fresh_object_def list_all_iff map_get_def dest!: map_of_SomeD)

lemma fresh_set: "fresh_object n N fs \<Longrightarrow> fresh_value n N v \<Longrightarrow> fresh_object n N (map_set k v fs)"
  unfolding map_set_def by (induction fs) auto

lemma fresh_assign: "fresh_object n N fs \<Longrightarrow> fresh_object n N gs \<Longrightarrow> fresh_object n N (assign_fields fs gs)"
  unfolding assign_fields_def by (induction gs arbitrary: fs) (auto simp: fresh_set)

lemma keeps_allocate: "fresh_object (length base) N fs \<Longrightarrow> keeps base N (allocate fs) (fresh_value (length base) N)"
  by (auto simp: keeps_def allocate_def intro: beyond_append dest: beyond_length)

lemma keeps_write: "fresh_object (length base) N fs \<Longrightarrow> length base \<le> l \<Longrightarrow> keeps base N (writeS l fs) (\<lambda>u. True)"
  by (auto simp: keeps_def writeS_def intro: beyond_update)

lemma path_value_atom: "pred_option is_atom v \<Longrightarrow> pred_option is_atom (path_value st v ps)"
  by (induction st v ps rule: path_value.induct) (auto simp: is_atom_def split: option.splits jsval.splits)

lemma sourceValue_atom:
  assumes "flat_row base row" "beyond base N st"
  shows "pred_option is_atom (sourceValue st row name)"
proof -
  obtain r where r: "row = Ref r" "r < length base" "list_all (\<lambda>f. is_atom (snd f)) (base ! r)"
    using assms(1) by (auto simp: flat_row_def split: jsval.splits)
  have "pred_option is_atom (map_get (object_at st r) p)" for p
    using r(3) beyond_base [OF assms(2) r(2)]
    by (cases "map_get (object_at st r) p") (auto simp: map_get_def list_all_iff dest!: map_of_SomeD)
  moreover have "split_on (CHR ''.'') s \<noteq> []" for s by (cases s) (auto split: list.splits)
  ultimately show ?thesis
    by (cases "split_on (CHR ''.'') (the_or [] name)") (auto simp: sourceValue_def r(1) intro: path_value_atom)
qed

lemma looked_up_atom:
  assumes "flat_row base row" "beyond base N st" "flat_fields e"
  shows "pred_option is_atom (looked_up e row st)"
  using assms sourceValue_atom [OF assms(1,2)]
  by (auto simp: looked_up_def flat_fields_def Let_def split: option.splits)

lemma atom_fresh: "is_atom v \<Longrightarrow> fresh_value n N v"
  by (auto simp: is_atom_def split: jsval.splits)

lemma keeps_scalar:
  assumes "flat_row base row" "flat_fields e"
  shows "keeps base N (scalar_expression V row e) (pred_option (fresh_value (length base) N))"
proof -
  have table: "table_value e v = Inr w \<Longrightarrow> pred_option is_atom v \<Longrightarrow> pred_option is_atom w" for v w
    by (auto simp: table_value_def is_atom_def split: option.splits prod.splits)
  have bool: "boolean_step V e v = Inr w \<Longrightarrow> pred_option is_atom v \<Longrightarrow> pred_option is_atom w" for v w
    by (auto simp: boolean_step_def is_atom_def split: option.splits sum.splits)
  have upper: "pred_option is_atom v \<Longrightarrow> pred_option is_atom (uppercase_step V e v)" for v
    by (auto simp: uppercase_step_def is_atom_def split: option.splits jsval.splits json.splits)
  have time: "pred_option is_atom v \<Longrightarrow> keeps base N (timestamp_step V e row v) (pred_option is_atom)" for v
    by (auto simp: timestamp_step_def keeps_def pureS_def is_atom_def split: option.splits sum.splits)
  have money: "keeps base N (money_step V e row v) (pred_option (fresh_value (length base) N))" if "pred_option is_atom v" for v
  proof (cases "me_money e")
    case None
    with that show ?thesis by (auto simp: money_step_def intro!: keeps_pure option.pred_mono_strong [OF that] atom_fresh)
  next
    case (Some cfg)
    show ?thesis unfolding money_step_def Some option.case moneyValue_def
      by (rule keeps_bind [where Q = "fresh_value (length base) N"])
        (auto intro!: keeps_bind [where Q = "\<lambda>x. True"] keeps_lift keeps_read keeps_allocate keeps_fail keeps_pure)
  qed
  have prefix: "prefix_step e v = Inr w \<Longrightarrow> pred_option (fresh_value (length base) N) v \<Longrightarrow> fresh_value (length base) N w" for v w
    by (auto simp: prefix_step_def split: option.splits jsval.splits json.splits)
  let ?atom = "pred_option is_atom" and ?fresh = "pred_option (fresh_value (length base) N)"
  have steps: "keeps base N (bindS (liftS (boolean_step V e w)) (\<lambda>b. bindS (timestamp_step V e row (uppercase_step V e b)) (\<lambda>t.
      bindS (money_step V e row t) (\<lambda>m. bindS (liftS (prefix_step e m)) (\<lambda>x. pureS (Some x)))))) ?fresh" if "?atom w" for w
    by (rule keeps_bind [where Q = ?atom], rule keeps_lift, erule bool, rule that,
        rule keeps_bind [where Q = ?atom], rule time, erule upper, rule keeps_bind [where Q = ?fresh], erule money,
        rule keeps_bind [where Q = "fresh_value (length base) N"], rule keeps_lift, erule (1) prefix, rule keeps_pure, simp_all)
  show ?thesis unfolding scalar_expression_def
  proof (rule keeps_bind [where Q = ?atom])
    show "keeps base N (readS (looked_up e row)) ?atom" by (rule keeps_read) (rule looked_up_atom [OF assms(1) _ assms(2)])
    fix v assume v: "?atom v"
    show "keeps base N (bindS (liftS (table_value e v)) (\<lambda>w. if me_omit_if_empty e \<and> empty_value w then pureS None
        else bindS (liftS (boolean_step V e w)) (\<lambda>b. bindS (timestamp_step V e row (uppercase_step V e b)) (\<lambda>t.
          bindS (money_step V e row t) (\<lambda>m. bindS (liftS (prefix_step e m)) (\<lambda>x. pureS (Some x))))))) ?fresh"
    proof (rule keeps_bind [where Q = ?atom])
      show "keeps base N (liftS (table_value e v)) ?atom" by (rule keeps_lift) (erule table, rule v)
    qed (auto intro: steps keeps_pure)
  qed simp
qed

lemma keeps_expression:
  assumes "flat_row base row"
  shows "flat_expression x \<Longrightarrow> keeps base N (evaluateExpression V row x) (pred_option (fresh_value (length base) N))"
    and "flat_children cs \<Longrightarrow> keeps base N (evaluate_children V row cs) (fresh_object (length base) N)"
proof (induction x and cs rule: flat_expression_flat_children.induct)
  case (1 e cs)
  show ?case
  proof (cases cs)
    case None
    with 1 assms show ?thesis by (auto intro: keeps_scalar)
  next
    case (Some children)
    with 1 show ?thesis
      by (auto intro!: keeps_bind [where Q = "fresh_object (length base) N"] keeps_bind [where Q = "fresh_value (length base) N"]
          keeps_allocate keeps_pure)
  qed
next
  case (3 n x cs)
  then show ?case
    by (auto intro!: keeps_bind [where Q = "pred_option (fresh_value (length base) N)"] keeps_bind [where Q = "fresh_object (length base) N"]
        keeps_pure split: option.splits)
qed (simp add: keeps_pure)

lemma keeps_merge:
  assumes "length base \<le> l" "fresh_value (length base) N v"
  shows "keeps base N (mergeValue l key v) (\<lambda>u. True)"
  unfolding keeps_def
proof (intro allI impI)
  fix st
  assume "beyond base N st \<and> length (snd (mergeValue l key v st)) \<le> N"
  then have st: "beyond base N st" by simp
  note l = beyond_fresh [OF st assms(1)]
  have set: "beyond base N (snd (writeS l (map_set key v (object_at st l)) st))"
    using beyond_update [OF st fresh_set [OF l assms(2)] assms(1)] by (simp add: writeS_def)
  have merge: "beyond base N (snd (writeS m (assign_fields (object_at st m) (object_at st n)) st))"
    if "map_get (object_at st l) key = Some (Ref m)" "v = Ref n" for m n
  proof -
    from fresh_get [OF l that(1)] have m: "length base \<le> m" by simp
    have "fresh_object (length base) N (assign_fields (object_at st m) (object_at st n))"
      using beyond_fresh [OF st m] beyond_fresh [OF st] assms(2) that(2) by (intro fresh_assign) auto
    from beyond_update [OF st this m] show ?thesis by (simp add: writeS_def)
  qed
  show "beyond base N (snd (mergeValue l key v st)) \<and> (\<forall>x. fst (mergeValue l key v st) = Inr x \<longrightarrow> True)"
    using set merge by (auto simp: mergeValue_def split: option.splits jsval.splits)
qed

lemma keeps_set_target:
  assumes "length base \<le> l" "fresh_value (length base) N v"
  shows "keeps base N (set_target path l ps v) (\<lambda>u. True)"
  using assms
proof (induction path l ps v rule: set_target.induct)
  case (1 path l v)
  then show ?case by (simp add: keeps_pure)
next
  case (2 path l p v)
  have "keeps base N (mergeValue l p v) (\<lambda>u. True)" by (rule keeps_merge [OF "2.prems"])
  then show ?case by simp
next
  case (3 path l p q ps v)
  show ?case unfolding keeps_def
  proof (intro allI impI)
    fix st
    assume run: "beyond base N st \<and> length (snd (set_target path l (p # q # ps) v st)) \<le> N"
    then have st: "beyond base N st" by simp
    note l = beyond_fresh [OF st "3.prems"(1)]
    let ?new = "bindS (allocate []) (\<lambda>x. bindS (readS (\<lambda>t. map_set p x (object_at t l))) (\<lambda>fs. bindS (writeS l fs) (\<lambda>u.
      set_target path (length st) (q # ps) v)))"
    have "keeps base N ?new (\<lambda>u. True)" if "map_get (object_at st l) p = None"
    proof (rule keeps_bind [OF keeps_allocate])
      fix x assume x: "fresh_value (length base) N x"
      show "keeps base N (bindS (readS (\<lambda>t. map_set p x (object_at t l))) (\<lambda>fs. bindS (writeS l fs) (\<lambda>u. set_target path (length st) (q # ps) v))) (\<lambda>u. True)"
      proof (rule keeps_bind [where Q = "fresh_object (length base) N"])
        show "keeps base N (readS (\<lambda>t. map_set p x (object_at t l))) (fresh_object (length base) N)"
          using "3.prems"(1) x by (intro keeps_read fresh_set beyond_fresh)
        fix fs assume "fresh_object (length base) N fs"
        then show "keeps base N (bindS (writeS l fs) (\<lambda>u. set_target path (length st) (q # ps) v)) (\<lambda>u. True)"
          using "3.IH"(1) [OF that] beyond_length [OF st] "3.prems" by (intro keeps_bind [OF keeps_write]) auto
      qed simp
    qed (auto intro!: lengthens_bind simp del: set_target.simps)
    moreover have "keeps base N (set_target path m (q # ps) v) (\<lambda>u. True)" if "map_get (object_at st l) p = Some (Ref m)" for m
      using fresh_get [OF l that] "3.IH"(2) [OF that refl] "3.prems"(2) by simp
    ultimately show "beyond base N (snd (set_target path l (p # q # ps) v st)) \<and> (\<forall>x. fst (set_target path l (p # q # ps) v st) = Inr x \<longrightarrow> True)"
      using run by (auto simp: keeps_def failS_def split: option.splits jsval.splits)
  qed
qed

lemma keeps_rules:
  assumes "flat_row base row" "list_all (\<lambda>r. flat_expression (snd r)) rules" "length base \<le> out"
  shows "keeps base N (apply_rules V row out rules) (\<lambda>u. True)"
  using assms(2)
proof (induction rules)
  case (Cons r rules)
  obtain target x where r: "r = (target, x)" by fastforce
  have target: "keeps base N (case v of None \<Rightarrow> pureS () | Some y \<Rightarrow> setTarget out target y) (\<lambda>u. True)"
    if "pred_option (fresh_value (length base) N) v" for v
    using that assms(3) by (cases v) (auto simp: setTarget_def intro: keeps_pure keeps_set_target)
  show ?case
    using Cons.prems Cons.IH unfolding r apply_rules.simps
    by (intro keeps_bind [OF keeps_expression(1) [OF assms(1)]] keeps_bind [OF target]) auto
qed (simp add: keeps_pure)

lemma keeps_mapRow:
  assumes "flat_mapping m" "flat_row base row"
  shows "keeps base N (mapRow V m row) (\<lambda>out. length base \<le> out)"
proof -
  have "keeps base N (bindS (allocate []) (\<lambda>x. bindS (apply_rules V row out (im_rules m)) (\<lambda>u. pureS out))) (\<lambda>out. length base \<le> out)"
    if "length base \<le> out" for out
    using assms that
    by (auto intro!: keeps_bind [OF keeps_allocate] keeps_bind [OF keeps_rules] keeps_pure simp: flat_mapping_def)
  then show ?thesis unfolding mapRow_def by (auto intro!: keeps_bind [where Q = "\<lambda>out. length base \<le> out"] keeps_read beyond_length)
qed

lemma path_value_none: "path_value st None ps = None"
  by (induction ps) simp_all

lemma path_value_plain: "path_value st (Some (Atom j)) ps = (if ps = [] then Some (Atom j) else None)"
  by (cases ps) (simp_all add: path_value_none)

lemma text_member_Inr:
  "(case v of Some (Atom (JStr x)) \<Rightarrow> f x | _ \<Rightarrow> Inl e) = Inr a \<longleftrightarrow> (\<exists>x. v = Some (Atom (JStr x)) \<and> f x = Inr a)"
  by (auto split: option.splits jsval.splits json.splits)

lemma object_member_Inr: "(case v of Some (Ref p) \<Rightarrow> f p | _ \<Rightarrow> Inl e) = Inr a \<longleftrightarrow> (\<exists>p. v = Some (Ref p) \<and> f p = Inr a)"
  by (auto split: option.splits jsval.splits)

lemma if_split_eq_Inr: "(if b then Inl e else r) = Inr a \<longleftrightarrow> \<not> b \<and> r = Inr a"
  by simp

lemma dated_Inr: "(case (t, d) of (c # cs, Some x) \<Rightarrow> Inr (f x) | _ \<Rightarrow> Inl e) = Inr a \<Longrightarrow> \<exists>x. a = f x"
  by (auto split: list.splits option.splits)

lemma toAttempt_payload:
  assumes "toAttempt V m fileDigest ordinal out st = Inr a"
  shows "map_get (object_at st out) ''payload'' = Some (Ref (ir_payload a))"
proof -
  from assms obtain p where p: "map_get (object_at st out) ''payload'' = Some (Ref p)" and "ir_payload a = p"
    unfolding toAttempt_def Let_def text_member_Inr object_member_Inr
    by (elim exE conjE) (simp only: if_split_eq_Inr, elim conjE, drule dated_Inr, auto)
  then show ?thesis by simp
qed

lemma toAttempt_fresh:
  assumes "beyond base N st" "length base \<le> out" "toAttempt V m fileDigest ordinal out st = Inr a"
  shows "length base \<le> ir_payload a \<and> ir_payload a < N"
  using fresh_get [OF beyond_fresh [OF assms(1,2)] toAttempt_payload [OF assms(3)]] by simp

lemma keeps_attempt:
  assumes "flat_mapping m" "flat_row base row"
  shows "keeps base N (map_attempt V m fileDigest ordinal row) (\<lambda>a. length base \<le> ir_payload a \<and> ir_payload a < N)"
  unfolding map_attempt_def
proof (rule keeps_bind [OF keeps_mapRow [OF assms]])
  fix out
  assume out: "length base \<le> out"
  show "keeps base N (bindS (readS (toAttempt V m fileDigest ordinal out)) liftS) (\<lambda>a. length base \<le> ir_payload a \<and> ir_payload a < N)"
    by (rule keeps_bind [where Q = "\<lambda>r. \<forall>a. r = Inr a \<longrightarrow> length base \<le> ir_payload a \<and> ir_payload a < N"])
      (use out toAttempt_fresh in \<open>auto intro!: keeps_read keeps_lift\<close>)
qed simp

text \<open>What a row may do to the store \<open>s\<close> of its turn: it changes nothing that was there, and its objects and its attempt
  refer only to objects that it created.\<close>

definition row_apart :: "store \<Rightarrow> store \<Rightarrow> bool" where
  "row_apart s u \<longleftrightarrow> take (length s) u = s \<and> list_all (fresh_object (length s) (length u)) (drop (length s) u)"

definition owns_payload :: "store \<Rightarrow> store \<Rightarrow> import_record \<Rightarrow> bool" where
  "owns_payload s u a \<longleftrightarrow> length s \<le> ir_payload a \<and> ir_payload a < length u"

lemma attempt_apart:
  assumes "flat_mapping m" "flat_row s row" "map_attempt V m fileDigest ordinal row s = (r, u)"
  shows "row_apart s u" and "r = Inr a \<Longrightarrow> owns_payload s u a"
proof -
  have "beyond s (length u) s" by (simp add: beyond_def)
  with keeps_attempt [OF assms(1,2), of "length u" V fileDigest ordinal] assms(3)
  have "beyond s (length u) u" "r = Inr a \<Longrightarrow> owns_payload s u a" unfolding keeps_def owns_payload_def by fastforce+
  then show "row_apart s u" "r = Inr a \<Longrightarrow> owns_payload s u a" by (auto simp: row_apart_def beyond_def)
qed

subsection \<open>All rows\<close>

definition extends :: "store \<Rightarrow> store \<Rightarrow> bool" where
  "extends s t \<longleftrightarrow> take (length s) t = s"

lemma extends_simps [simp]: "extends s s" "extends s (s @ new)"
  by (simp_all add: extends_def)

lemma extends_obtain:
  assumes "extends s t"
  obtains new where "t = s @ new"
  using assms unfolding extends_def by (metis append_take_drop_id)

lemma extends_trans: "extends s t \<Longrightarrow> extends t u \<Longrightarrow> extends s u"
  by (elim extends_obtain) simp

lemma extends_object: "extends base st \<Longrightarrow> l < length base \<Longrightarrow> object_at st l = object_at base l"
  by (elim extends_obtain) (simp add: object_at_def nth_append)

lemma flat_row_extends: "flat_row base row \<Longrightarrow> extends base st \<Longrightarrow> flat_row st row"
  by (elim extends_obtain) (auto simp: flat_row_def nth_append split: jsval.splits)

lemma sourceValue_extends:
  assumes "flat_row base row" "extends base st"
  shows "sourceValue st row name = sourceValue base row name"
proof -
  obtain r where r: "row = Ref r" "r < length base" "list_all (\<lambda>f. is_atom (snd f)) (base ! r)"
    using assms(1) by (auto simp: flat_row_def split: jsval.splits)
  have eq: "object_at st r = object_at base r" using extends_object [OF assms(2) r(2)] .
  have atom: "pred_option is_atom (map_get (object_at base r) p)" for p
    using r by (cases "map_get (object_at base r) p") (auto simp: map_get_def object_at_def list_all_iff dest!: map_of_SomeD)
  have "path_value st (Some (Ref r)) ps = path_value base (Some (Ref r)) ps" for ps
  proof (cases ps)
    case (Cons p qs)
    with eq atom [of p] show ?thesis
      by (cases "map_get (object_at base r) p") (auto simp: path_value_none path_value_plain is_atom_def split: jsval.splits)
  qed simp
  then show ?thesis by (simp add: sourceValue_def r(1))
qed

lemma rowMatches_extends:
  assumes "flat_row base row" "extends base st"
  shows "rowMatches m st row = rowMatches m base row"
  using sourceValue_extends [OF assms] by (auto simp: rowMatches_def split: option.split)

lemma import_rows_append:
  "import_rows V m fileDigest k (xs @ ys) st =
     (let (as, fs, s) = import_rows V m fileDigest k xs st; (bs, gs, t) = import_rows V m fileDigest (k + length xs) ys s in (as @ bs, fs @ gs, t))"
  by (induction xs arbitrary: k st) (auto simp: Let_def split: prod.splits sum.splits)

lemma import_row:
  assumes "flat_mapping m" "flat_row s row" "import_rows V m fileDigest k [row] s = (attempts, failures, u)"
  shows "row_apart s u" "list_all (\<lambda>(i, a). owns_payload s u a) attempts"
proof -
  have "row_apart s u \<and> list_all (\<lambda>(i, a). owns_payload s u a) attempts"
    using assms(3) attempt_apart [OF assms(1,2), of V fileDigest k]
    by (auto simp: row_apart_def split: if_splits prod.splits sum.splits)
  then show "row_apart s u" "list_all (\<lambda>(i, a). owns_payload s u a) attempts" by simp_all
qed

lemma import_extends:
  assumes "flat_mapping m" "list_all (flat_row st) rows" "import_rows V m fileDigest k rows st = (attempts, failures, t)"
  shows "extends st t"
  using assms(2,3)
proof (induction rows arbitrary: k st attempts failures)
  case (Cons row rows)
  obtain as fs u where u: "import_rows V m fileDigest k [row] st = (as, fs, u)" using prod_cases3 by blast
  obtain bs gs where r: "import_rows V m fileDigest (k + 1) rows u = (bs, gs, t)"
    using Cons.prems(2) import_rows_append [of V m fileDigest k "[row]" rows st] u by (auto split: prod.splits)
  have su: "extends st u" using import_row(1) [OF assms(1) _ u] Cons.prems(1) by (simp add: row_apart_def extends_def)
  then have "list_all (flat_row u) rows" using Cons.prems(1) flat_row_extends by (auto simp: list_all_iff)
  from extends_trans [OF su Cons.IH [OF this r]] show ?case .
qed simp

lemma import_ordinals:
  assumes "flat_mapping m" "list_all (flat_row base) rows" "extends base st"
    and "import_rows V m fileDigest k rows st = (attempts, failures, t)"
  shows "sorted (map fst attempts) \<and> sorted (map if_ordinal failures)
    \<and> mset (map fst attempts) + mset (map if_ordinal failures) = mset (map fst (filter (\<lambda>(i, row). rowMatches m base row) (enumerate k rows)))"
  using assms(2-4)
proof (induction rows arbitrary: k st attempts failures t)
  case (Cons row rows)
  have row: "flat_row base row" using Cons.prems(1) by simp
  let ?rest = "map fst (filter (\<lambda>(i, row). rowMatches m base row) (enumerate (Suc k) rows))"
  have split: "map fst (filter (\<lambda>(i, row). rowMatches m base row) (enumerate k (row # rows))) = (if rowMatches m base row then [k] else []) @ ?rest"
    by simp
  show ?case
  proof (cases "rowMatches m base row")
    case False
    then have r: "import_rows V m fileDigest (Suc k) rows st = (attempts, failures, t)"
      using Cons.prems(3) rowMatches_extends [OF row Cons.prems(2)] by simp
    have "list_all (flat_row base) rows" using Cons.prems(1) by simp
    from Cons.IH [OF this Cons.prems(2) r] show ?thesis unfolding split using False by simp
  next
    case True
    obtain a s where a: "map_attempt V m fileDigest k row st = (a, s)" by fastforce
    have s: "extends base s"
      using attempt_apart(1) [OF assms(1) flat_row_extends [OF row Cons.prems(2)] a] Cons.prems(2) extends_trans
      by (auto simp: row_apart_def extends_def [of st])
    obtain as fs where r: "import_rows V m fileDigest (Suc k) rows s = (as, fs, t)"
      and c: "attempts = (case a of Inr x \<Rightarrow> [(k, x)] | Inl e \<Rightarrow> []) @ as"
        "failures = (case a of Inr x \<Rightarrow> [] | Inl e \<Rightarrow> [failure_of k e]) @ fs"
      using Cons.prems(3) True rowMatches_extends [OF row Cons.prems(2)] a by (cases a) (auto split: prod.splits)
    have "list_all (flat_row base) rows" using Cons.prems(1) by simp
    note IH = Cons.IH [OF this s r]
    have "set_mset (mset (map fst as) + mset (map if_ordinal fs)) = set ?rest" using IH by simp
    then have later: "\<forall>i \<in> fst ` set as \<union> if_ordinal ` set fs. Suc k \<le> i" by (auto simp: in_set_enumerate_eq)
    have "if_ordinal (failure_of k e) = k" for e by (cases e) (simp_all add: failure_of_def)
    with IH later c show ?thesis unfolding split using True by (cases a) (auto simp: Suc_le_eq less_imp_le)
  qed
qed simp

text \<open>C20. With a mapping whose constants and defaults are no objects and the flat rows of a CSV file, the rows of an import are apart from
  each other, from the file and from the mapping: a row changes nothing that was in the store when its turn came, all that
  its objects refer to and the payload of its attempt are objects that it created itself, and no later row changes any of
  them. Each selected row is an attempt or a failure, in the order of the file.\<close>

theorem import_isolated:
  assumes "flat_mapping m" "list_all (flat_row base) rows" and "import_rows V m fileDigest k rows base = (attempts, failures, t)"
  shows "take (length base) t = base \<and> sorted (map fst attempts) \<and> sorted (map if_ordinal failures)
    \<and> mset (map fst attempts) + mset (map if_ordinal failures) = mset (map fst (filter (\<lambda>(i, row). rowMatches m base row) (enumerate k rows)))
    \<and> (\<forall>earlier row later. rows = earlier @ row # later \<longrightarrow> (\<exists>as1 fs1 s as2 fs2 u as3 fs3.
          import_rows V m fileDigest k earlier base = (as1, fs1, s)
        \<and> import_rows V m fileDigest (k + length earlier) [row] s = (as2, fs2, u)
        \<and> import_rows V m fileDigest (k + length earlier + 1) later u = (as3, fs3, t)
        \<and> attempts = as1 @ as2 @ as3 \<and> failures = fs1 @ fs2 @ fs3
        \<and> take (length s) u = s \<and> take (length u) t = u
        \<and> list_all (fresh_object (length s) (length u)) (drop (length s) u)
        \<and> list_all (\<lambda>(i, a). length s \<le> ir_payload a \<and> ir_payload a < length u) as2))"
proof -
  have apart: "\<exists>as1 fs1 s as2 fs2 u as3 fs3. import_rows V m fileDigest k earlier base = (as1, fs1, s)
        \<and> import_rows V m fileDigest (k + length earlier) [row] s = (as2, fs2, u)
        \<and> import_rows V m fileDigest (k + length earlier + 1) later u = (as3, fs3, t)
        \<and> attempts = as1 @ as2 @ as3 \<and> failures = fs1 @ fs2 @ fs3
        \<and> take (length s) u = s \<and> take (length u) t = u
        \<and> list_all (fresh_object (length s) (length u)) (drop (length s) u)
        \<and> list_all (\<lambda>(i, a). length s \<le> ir_payload a \<and> ir_payload a < length u) as2"
    if rows: "rows = earlier @ row # later" for earlier row later
  proof -
    obtain as1 fs1 s where s: "import_rows V m fileDigest k earlier base = (as1, fs1, s)" using prod_cases3 by blast
    obtain as2 fs2 u where u: "import_rows V m fileDigest (k + length earlier) [row] s = (as2, fs2, u)" using prod_cases3 by blast
    obtain as3 fs3 where t: "import_rows V m fileDigest (k + length earlier + 1) later u = (as3, fs3, t)"
      and parts: "attempts = as1 @ as2 @ as3" "failures = fs1 @ fs2 @ fs3"
      using assms(3) import_rows_append [of V m fileDigest k earlier "[row] @ later" base] s u
        import_rows_append [of V m fileDigest "k + length earlier" "[row]" later s]
      unfolding rows by (auto simp: Let_def split: prod.splits simp del: import_rows.simps)
    have flat: "list_all (flat_row base) earlier" "flat_row base row" "list_all (flat_row base) later" using assms(2) by (simp_all add: rows)
    have bs: "extends base s" by (rule import_extends [OF assms(1) flat(1) s])
    note own = import_row [OF assms(1) flat_row_extends [OF flat(2) bs] u]
    then have su: "extends s u" by (simp add: row_apart_def extends_def)
    have "list_all (flat_row u) later" using flat(3) flat_row_extends extends_trans [OF bs su] by (auto simp: list_all_iff)
    from import_extends [OF assms(1) this t] own s u t parts show ?thesis
      by (intro exI conjI) (assumption | simp add: row_apart_def extends_def owns_payload_def)+
  qed
  have "take (length base) t = base" using import_extends [OF assms] by (simp add: extends_def)
  with import_ordinals [OF assms(1,2) _ assms(3)] apart show ?thesis by simp
qed

section \<open>Required members\<close>

lemma evaluate_omitted:
  assumes "evaluateExpression V row x st = (Inr None, t)"
  shows "me_omit_if_empty (expression_fields_of x)"
proof (cases x)
  case (Expression e cs)
  with assms show ?thesis
    by (cases cs) (auto simp: scalar_expression_def bindS_def readS_def liftS_def pureS_def allocate_def split: prod.splits sum.splits if_splits)
qed

lemma merge_key:
  assumes "mergeValue l key v st = (Inr u, t)" "l < length st"
  shows "key \<in> keys_of (t ! l)"
proof (cases "map_get (object_at st l) key")
  case None
  with assms show ?thesis by (auto simp: mergeValue_def writeS_def object_at_nth)
next
  case (Some w)
  then have "key \<in> keys_of (st ! l)" using assms(2) by (auto simp: object_at_nth map_get_def keys_of_def dest!: map_of_SomeD intro: rev_image_eqI)
  moreover have "grows st t" using growing_merge [of l key v] assms(1) unfolding growing_def by (metis snd_conv)
  ultimately show ?thesis using assms(2) by (auto simp: grows_def)
qed

lemma rules_key:
  assumes "apply_rules V row out rules st = (Inr u, t)" "out < length st"
    and "(target, x) \<in> set rules" "\<not> me_omit_if_empty (expression_fields_of x)" "CHR ''.'' \<notin> set target"
  shows "target \<in> keys_of (t ! out)"
  using assms(1-3)
proof (induction rules arbitrary: st)
  case (Cons r rules)
  obtain name y where r: "r = (name, y)" by fastforce
  from Cons.prems(1) obtain v s1 s2 where s: "evaluateExpression V row y st = (Inr v, s1)"
    "(case v of None \<Rightarrow> pureS () | Some z \<Rightarrow> setTarget out name z) s1 = (Inr (), s2)" "apply_rules V row out rules s2 = (Inr u, t)"
    by (auto simp: r bindS_def split: prod.splits sum.splits)
  have "growing (case v of None \<Rightarrow> pureS () | Some z \<Rightarrow> setTarget out name z)"
    by (cases v) (simp_all add: setTarget_def growing_set_target)
  then have g: "grows st s1" "grows s1 s2" "grows s2 t"
    using s growing_expression(1) [of V row y] growing_rules [of V row out rules] unfolding growing_def by (metis snd_conv)+
  have out: "out < length s1" "out < length s2" using Cons.prems(2) g by (auto simp: grows_def)
  show ?case
  proof (cases "(target, x) = (name, y)")
    case True
    with s(1) assms(4) evaluate_omitted obtain z where "v = Some z" by (cases v) auto
    with s(2) True assms(5) have "mergeValue out target z s1 = (Inr (), s2)" by (simp add: setTarget_def split_on_absent)
    from merge_key [OF this out(1)] show ?thesis using g(3) out(2) by (auto simp: grows_def)
  next
    case False
    with Cons.prems(3) r have "(target, x) \<in> set rules" by auto
    from Cons.IH [OF s(3) out(2) this] show ?thesis .
  qed
qed simp

text \<open>C21. A row that a parsed mapping maps has every member that its kind of record requires, whatever the row holds: the checks of the
  mapping leave no way to omit one.\<close>

theorem required_members_present:
  assumes "parseMapping V validate doc = Inr m" "mapRow V m row st = (Inr out, t)"
  shows "list_all (\<lambda>k. map_get (object_at t out) k \<noteq> None) (required_base (im_kind m))"
proof -
  from assms(1) obtain required where m: "required_targets V m = Inr required"
    "filter (\<lambda>k. \<not> starts_with k ''payload.'' \<and> k \<notin> fst ` set (im_rules m)) required = []"
    "List.map_filter (\<lambda>r. inspect required (snd r) (fst r)) (im_rules m) = []"
    by (auto simp: parseMapping_def Let_def split: sum.splits if_splits list.splits)
  have base: "set (required_base (im_kind m)) \<subseteq> set required"
    using m(1) by (auto simp: required_targets_def split: mapping_kind.splits option.splits)
  from assms(2) obtain s where s: "apply_rules V row (length st) (im_rules m) (st @ [[]]) = (Inr (), t)" "out = length st"
    by (auto simp: mapRow_def bindS_def readS_def allocate_def pureS_def split: prod.splits sum.splits)
  have "grows (st @ [[]]) t" using growing_rules [of V row "length st" "im_rules m"] s(1) unfolding growing_def by (metis snd_conv)
  then have out: "out < length t" using s(2) by (simp add: grows_def)
  have "k \<in> keys_of (t ! out)" if "k \<in> set (required_base (im_kind m))" for k
  proof -
    have k: "\<not> starts_with k ''payload.''" "CHR ''.'' \<notin> set k"
      using that by (auto simp: required_base_def starts_with_def split: mapping_kind.splits)
    with base that m(2) obtain x where x: "(k, x) \<in> set (im_rules m)" by (auto simp: filter_empty_conv)
    with m(3) have "inspect required x k = None" by (fastforce simp: List.map_filter_def filter_empty_conv)
    then have "\<not> me_omit_if_empty (expression_fields_of x)" using base that by (cases x) (auto split: if_splits)
    from rules_key [OF s(1) _ x this k(2)] show ?thesis by (simp add: s(2))
  qed
  then show ?thesis using out by (auto simp: list_all_iff object_at_nth map_get_def keys_of_def map_of_eq_None_iff)
qed

section \<open>Amounts\<close>

text \<open>The decimal amounts of mapped rows and those of cost reports are read alike: the same texts are accepted at the same scale, and
  the amounts differ in leading zeros only.\<close>

theorem money_decimal_agrees:
  "map_sum (\<lambda>e. ()) strip_zeros (money_amount (Some (Atom (JStr s))) (cfg\<lparr>mc_input := Some Decimal_Input\<rparr>))
    = map_sum (\<lambda>e. ()) id (decimalToUnscaled s (mc_scale cfg))"
  by (auto simp: money_amount_def decimalToUnscaled_def throw_def guardR_def split: option.splits)

section \<open>Lint\<close>

definition apart :: "string \<Rightarrow> string \<Rightarrow> bool" where
  "apart p q \<longleftrightarrow> p \<noteq> [] \<and> q \<noteq> [] \<and> p \<noteq> q"

text \<open>Two mappings of one provider and application that read their event identifiers from the same column need prefixes.\<close>

definition routes_apart :: "import_mapping \<Rightarrow> import_mapping \<Rightarrow> bool" where
  "routes_apart m m' \<longleftrightarrow>
     (case (linted m, linted m') of (Some (parts, p), Some (parts', q)) \<Rightarrow> parts = parts' \<longrightarrow> apart p q | _ \<Rightarrow> True)"

text \<open>The schema admits no separator in a tenant, an application or a provider.\<close>

definition scoped :: "import_mapping \<Rightarrow> bool" where
  "scoped m \<longleftrightarrow> CHR 0x00 \<notin> set (im_tenant_id m @ im_app_id m @ the_or [] (im_provider m))"

definition route :: "string \<Rightarrow> import_mapping list \<Rightarrow> (string \<times> import_mapping) list" where
  "route k ms = List.map_filter (\<lambda>m. case linted m of
     None \<Rightarrow> None | Some (parts, p) \<Rightarrow> if lint_key parts = k then Some (p, m) else None) ms"

lemma lint_groups_get: "map_get (lint_groups ms) k = (if route k ms = [] then None else Some (route k ms))"
proof (induction ms arbitrary: k rule: rev_induct)
  case (snoc m ms)
  then show ?case
    by (auto simp: lint_groups_def route_def List.map_filter_def split: option.splits prod.splits)
qed (simp add: lint_groups_def route_def List.map_filter_def)

lemma lint_groups_distinct: "distinct (map fst (lint_groups ms))"
  by (induction ms rule: rev_induct)
    (auto simp: lint_groups_def map_set_def distinct_update split: option.splits prod.splits)

lemma lint_groups_values: "set (map_values (lint_groups ms)) = {g. g \<noteq> [] \<and> (\<exists>k. g = route k ms)}"
proof -
  have "g \<in> set (map_values (lint_groups ms)) \<longleftrightarrow> (\<exists>k. map_get (lint_groups ms) k = Some g)" for g
    using lint_groups_distinct [of ms] by (force simp: map_values_def map_get_def)
  then show ?thesis by (auto simp: lint_groups_get split: if_splits)
qed

lemma cut_unique: "c \<notin> set x \<Longrightarrow> c \<notin> set x' \<Longrightarrow> x @ c # y = x' @ c # y' \<Longrightarrow> x = x' \<and> y = y'"
proof (induction x arbitrary: x')
  case Nil
  then show ?case by (cases x') auto
next
  case (Cons a x)
  then show ?case by (cases x') auto
qed

lemma linted_parts: "linted m = Some (parts, p) \<Longrightarrow> \<exists>d. parts = [im_tenant_id m, im_app_id m, the_or [] (im_provider m), d]"
  by (auto simp: linted_def Let_def split: if_splits option.splits)

lemma lint_key_inj:
  assumes "linted m = Some (parts, p)" "linted m' = Some (parts', q)" "scoped m" "scoped m'" "lint_key parts = lint_key parts'"
  shows "parts = parts'"
proof -
  obtain d d' where d: "parts = [im_tenant_id m, im_app_id m, the_or [] (im_provider m), d]"
    "parts' = [im_tenant_id m', im_app_id m', the_or [] (im_provider m'), d']"
    using linted_parts [OF assms(1)] linted_parts [OF assms(2)] by auto
  with assms(3-5) show ?thesis by (auto simp: lint_key_def scoped_def dest!: cut_unique [rotated 2])
qed

lemma separate_pairs: "sorted_wrt apart ps \<longleftrightarrow> length ps < 2 \<or> prefixes_separate ps"
proof (induction ps)
  case (Cons p ps)
  show ?case
  proof (cases ps)
    case (Cons q qs)
    have "(\<forall>q \<in> set ps. apart p q) \<longleftrightarrow> p \<noteq> [] \<and> [] \<notin> set ps \<and> p \<notin> set ps" unfolding Cons apart_def by auto
    then have "sorted_wrt apart (p # ps) \<longleftrightarrow> p \<noteq> [] \<and> [] \<notin> set ps \<and> p \<notin> set ps \<and> (length ps < 2 \<or> distinct ps)"
      using Cons.IH by (auto simp: prefixes_separate_def)
    moreover have "length ps < 2 \<Longrightarrow> distinct ps" unfolding Cons by (cases qs) auto
    moreover have "\<not> length (p # ps) < 2" unfolding Cons by simp
    ultimately show ?thesis unfolding prefixes_separate_def by auto
  qed simp
qed simp

lemma route_member: "(p, m) \<in> set (route k ms) \<longleftrightarrow> m \<in> set ms \<and> (\<exists>parts. linted m = Some (parts, p) \<and> lint_key parts = k)"
  by (induction ms) (auto simp: route_def List.map_filter_def split: option.splits prod.splits if_splits)

lemma routes_pairs:
  assumes "list_all scoped ms"
  shows "(\<forall>k. sorted_wrt apart (map fst (route k ms))) \<longleftrightarrow> sorted_wrt routes_apart ms"
  using assms
proof (induction ms)
  case (Cons m ms)
  show ?case
  proof (cases "linted m")
    case None
    then have "route k (m # ms) = route k ms" for k by (simp add: route_def List.map_filter_def)
    with Cons None show ?thesis by (simp add: routes_apart_def)
  next
    case (Some r)
    obtain parts p where r: "linted m = Some (parts, p)" using Some by (cases r) auto
    have route: "route k (m # ms) = (if lint_key parts = k then [(p, m)] else []) @ route k ms" for k
      by (simp add: route_def List.map_filter_def r)
    have "(\<forall>q \<in> set (map fst (route (lint_key parts) ms)). apart p q) \<longleftrightarrow> (\<forall>m' \<in> set ms. routes_apart m m')"
    proof -
      have "routes_apart m m' \<longleftrightarrow> (\<forall>parts' q. linted m' = Some (parts', q) \<and> lint_key parts' = lint_key parts \<longrightarrow> apart p q)"
        if "m' \<in> set ms" for m'
        using that Cons.prems lint_key_inj [OF r, of m'] by (auto simp: routes_apart_def r list_all_iff split: option.splits prod.splits)
      moreover have "q \<in> set (map fst (route (lint_key parts) ms)) \<longleftrightarrow>
          (\<exists>m' \<in> set ms. \<exists>parts'. linted m' = Some (parts', q) \<and> lint_key parts' = lint_key parts)" for q
      proof
        assume "q \<in> set (map fst (route (lint_key parts) ms))"
        then show "\<exists>m' \<in> set ms. \<exists>parts'. linted m' = Some (parts', q) \<and> lint_key parts' = lint_key parts"
          by (auto simp: route_member) blast
      next
        assume "\<exists>m' \<in> set ms. \<exists>parts'. linted m' = Some (parts', q) \<and> lint_key parts' = lint_key parts"
        then obtain m' where "(q, m') \<in> set (route (lint_key parts) ms)" by (auto simp: route_member)
        then show "q \<in> set (map fst (route (lint_key parts) ms))" by force
      qed
      ultimately show ?thesis by blast
    qed
    moreover have "(\<forall>k. sorted_wrt apart (map fst (route k (m # ms)))) \<longleftrightarrow>
        (\<forall>q \<in> set (map fst (route (lint_key parts) ms)). apart p q) \<and> (\<forall>k. sorted_wrt apart (map fst (route k ms)))"
      unfolding route by auto
    ultimately show ?thesis using Cons by simp
  qed
qed (simp add: route_def List.map_filter_def)

text \<open>C22. The lint is exact: it is silent if and only if any two mappings of one tenant, application and provider that take their event
  identifiers from the same column have different prefixes.\<close>

theorem lint_exact:
  assumes "list_all scoped ms"
  shows "lintMappings V ms = [] \<longleftrightarrow> sorted_wrt routes_apart ms"
proof -
  have "lintMappings V ms = [] \<longleftrightarrow> (\<forall>g \<in> set (map_values (lint_groups ms)). \<not> (2 \<le> length g \<and> \<not> prefixes_separate (map fst g)))"
    by (auto simp: lintMappings_def filter_empty_conv simp flip: set_empty)
  also have "\<dots> \<longleftrightarrow> (\<forall>k. sorted_wrt apart (map fst (route k ms)))"
    unfolding lint_groups_values by (auto simp: separate_pairs not_le) (metis list.size(3) zero_less_numeral)
  finally show ?thesis using routes_pairs [OF assms] by simp
qed

section \<open>Concrete imports\<close>

definition sample_fields :: expression_fields where
  "sample_fields = \<lparr> me_source = None, me_fallback_column = None, me_prefix = None, me_const = None, me_default = None, me_map = None,
     me_map_default = None, me_omit_if_empty = False, me_boolean = None, me_uppercase = False, me_timestamp = None, me_money = None \<rparr>"

definition const_rule :: "string \<Rightarrow> jsval \<Rightarrow> string \<times> mapping_expression" where
  "const_rule target v = (target, Expression (sample_fields\<lparr>me_const := Some v\<rparr>) None)"

definition source_rule :: "string \<Rightarrow> string \<Rightarrow> string \<times> mapping_expression" where
  "source_rule target column = (target, Expression (sample_fields\<lparr>me_source := Some column\<rparr>) None)"

definition sample_mapping :: "jsval \<Rightarrow> import_mapping" where
  "sample_mapping payload = \<lparr> im_kind = Mmp_Raw, im_source_id = ''s'', im_tenant_id = ''t'', im_app_id = ''a'', im_provider = Some ''p'',
     im_version = ''1.0.0'', im_row_filter = None,
     im_rules = [const_rule ''event_name'' (Atom (JStr ''purchase'')), source_rule ''event_id'' ''id'',
       const_rule ''occurred_at'' (Atom (JStr ''now'')), const_rule ''payload'' payload, source_rule ''payload.transaction_id'' ''id''] \<rparr>"

definition sample_env :: import_env where
  "sample_env = \<lparr> ie_lower = id, ie_upper = id, ie_parse_date = (\<lambda>s. Some 0), ie_collation = id, ie_event_schema = (\<lambda>s. Some []),
     ie_digest = concat \<rparr>"

text \<open>The store holds the constant of the mapping and two rows.\<close>

definition sample_base :: store where
  "sample_base = [[(''financial_status'', Atom (JStr ''settled''))], [(''id'', Atom (JStr ''one''))], [(''id'', Atom (JStr ''two''))]]"

text \<open>An example of a constant that is an object. It is shared by every row: a later rule assigns into the mapping itself, and the payload of the first
  row holds the transaction of the second.\<close>

lemma constant_payload_shared:
  "let r = import_rows sample_env (sample_mapping (Ref 0)) ''d'' 0 [Ref 1, Ref 2] sample_base; a = snd (fst r ! 0); b = snd (fst r ! 1) in
     map fst (fst r) = [0, 1] \<and> fst (snd r) = [] \<and> ir_event_id a = ''one'' \<and> ir_payload a = ir_payload b
     \<and> map_get (object_at (snd (snd r)) (ir_payload a)) ''transaction_id'' = Some (Atom (JStr ''two''))"
  by code_simp

text \<open>The same mapping with an object expression in place of the constant.\<close>

definition flat_sample :: import_mapping where
  "flat_sample = (sample_mapping (Atom JNull))\<lparr>im_rules := [const_rule ''event_name'' (Atom (JStr ''purchase'')), source_rule ''event_id'' ''id'',
     const_rule ''occurred_at'' (Atom (JStr ''now'')),
     (''payload'', Expression sample_fields (Some [const_rule ''financial_status'' (Atom (JStr ''settled''))])),
     source_rule ''payload.transaction_id'' ''id'']\<rparr>"

theorem import_isolated_witness:
  "\<exists>attempts t. import_rows sample_env flat_sample ''d'' 0 [Ref 1, Ref 2] sample_base = (attempts, [], t) \<and> take 3 t = sample_base
    \<and> length attempts = 2"
proof -
  have r: "let r = import_rows sample_env flat_sample ''d'' 0 [Ref 1, Ref 2] sample_base in fst (snd r) = [] \<and> length (fst r) = 2" by code_simp
  obtain attempts failures t where s: "import_rows sample_env flat_sample ''d'' 0 [Ref 1, Ref 2] sample_base = (attempts, failures, t)"
    using prod_cases3 by blast
  have flat: "flat_mapping flat_sample" "list_all (flat_row sample_base) [Ref 1, Ref 2]"
    by (simp_all add: flat_mapping_def flat_sample_def flat_fields_def is_atom_def const_rule_def source_rule_def sample_fields_def
        flat_row_def sample_base_def)
  have "take (length sample_base) t = sample_base"
    using import_isolated [OF flat s] by simp
  moreover have "length sample_base = 3" by (simp add: sample_base_def)
  moreover have "failures = [] \<and> length attempts = 2" using r unfolding s by simp
  ultimately show ?thesis using s by (intro exI [of _ attempts] exI [of _ t]) simp
qed

theorem required_members_present_witness:
  "\<exists>out t. mapRow sample_env flat_sample (Ref 1) sample_base = (Inr out, t) \<and> map_get (object_at t out) ''payload'' \<noteq> None"
proof -
  have "isl (parseMapping sample_env (\<lambda>v. Inr flat_sample) JNull) = False" by code_simp
  then have m: "parseMapping sample_env (\<lambda>v. Inr flat_sample) JNull = Inr flat_sample"
    by (auto simp: parseMapping_def Let_def split: if_splits sum.splits list.splits)
  have "\<not> isl (fst (mapRow sample_env flat_sample (Ref 1) sample_base))" by code_simp
  then obtain out t where r: "mapRow sample_env flat_sample (Ref 1) sample_base = (Inr out, t)"
    by (cases "mapRow sample_env flat_sample (Ref 1) sample_base"; cases "fst (mapRow sample_env flat_sample (Ref 1) sample_base)") auto
  have "im_kind flat_sample = Mmp_Raw" by (simp add: flat_sample_def sample_mapping_def)
  with required_members_present [OF m r] r show ?thesis by (auto simp: required_base_def)
qed

theorem lint_exact_witness: "lintMappings sample_env [flat_sample, flat_sample] \<noteq> []"
proof -
  have "list_all scoped [flat_sample, flat_sample]" "\<not> sorted_wrt routes_apart [flat_sample, flat_sample]" by code_simp+
  with lint_exact show ?thesis by blast
qed

end
