(* ===== verification/Cost_Import.thy ===== *)
theory Cost_Import
  imports Durable_Inbox Import_Normalization Calendar
begin

text \<open>
  \<open>apps/worker/src/import/cost.ts\<close>: rows of reported cost, the key of the cell a row belongs to, the order and
  uniqueness of an import, the artifact of a row, and the statements of one import. RFC 8785 serialisation,
  SHA-256, the collation behind \<open>localeCompare\<close> and the row counts the database answers are arguments; texts
  compare under a collation as their sort keys do.
\<close>

section \<open>Rows and keys\<close>

record cost_input =
  cn_tenant_id :: string
  cn_app_id :: string
  cn_network :: string
  cn_campaign_id :: "string option"
  cn_ad_group_id :: "string option"
  cn_creative_id :: "string option"
  cn_coverage_scope :: "string option"
  cn_country :: "string option"
  cn_date :: string
  cn_reporting_time_zone :: "string option"
  cn_amount_unscaled :: string
  cn_amount_scale :: nat
  cn_currency :: string
  cn_source :: string
  cn_as_of :: string

record cost_env =
  cv_jcs :: "json \<Rightarrow> string"
  cv_sha256 :: "string \<Rightarrow> string"
  cv_collation :: "string \<Rightarrow> string"
  cv_report_digest :: "cost_input list \<Rightarrow> string"

definition text_or_null :: "string option \<Rightarrow> json" where
  "text_or_null v = (case v of None \<Rightarrow> JNull | Some s \<Rightarrow> JStr s)"

definition text_when :: "bool \<Rightarrow> string \<Rightarrow> string option \<Rightarrow> json_object" where
  "text_when present name v = (if present then [(name, text_or_null v)] else [])"

text \<open>The members stand in the order of their names.\<close>

definition dimensionObject :: "cost_input \<Rightarrow> json" where
  "dimensionObject row = JObj (
     [(''ad_group_id'', text_or_null (cn_ad_group_id row)), (''app_id'', JStr (cn_app_id row)),
      (''campaign_id'', text_or_null (cn_campaign_id row)), (''country'', text_or_null (cn_country row))]
     @ text_when (cn_creative_id row \<noteq> None) ''creative_id'' (cn_creative_id row)
     @ [(''date'', JStr (cn_date row)), (''network'', JStr (cn_network row))]
     @ text_when (truthy (cn_reporting_time_zone row)) ''reporting_time_zone'' (cn_reporting_time_zone row)
     @ [(''tenant_id'', JStr (cn_tenant_id row))])"

definition cost_key :: "cost_env \<Rightarrow> cost_input \<Rightarrow> string" where
  "cost_key E row = cv_jcs E (dimensionObject row)"

fun adjacent_duplicate :: "string list \<Rightarrow> bool" where
  "adjacent_duplicate (a # b # ks) \<longleftrightarrow> a = b \<or> adjacent_duplicate (b # ks)"
| "adjacent_duplicate ks \<longleftrightarrow> False"

definition prepareCostImportRows :: "cost_env \<Rightarrow> cost_input list \<Rightarrow> cost_input list res" where
  "prepareCostImportRows E rows =
     (let keyed = sort_key (\<lambda>p. cv_collation E (snd p)) (map (\<lambda>row. (row, cost_key E row)) rows) in
      guardR (\<not> adjacent_duplicate (map snd keyed)) ''cost import contains a duplicate retained dimension key''
        (Inr (map fst keyed)))"

section \<open>Artifacts\<close>

definition digest_of :: "cost_env \<Rightarrow> json \<Rightarrow> string" where
  "digest_of E v = cv_sha256 E (cv_jcs E v)"

definition coverage_ok :: "cost_input \<Rightarrow> bool" where
  "coverage_ok row \<longleftrightarrow>
     (case cn_coverage_scope row of
        None \<Rightarrow> True
      | Some scope \<Rightarrow> scope = ''matching_detail_only'' \<and> (case cn_ad_group_id row of Some s \<Rightarrow> identifier_ok s | None \<Rightarrow> False))"

definition cost_record_id :: "cost_env \<Rightarrow> cost_input \<Rightarrow> string" where
  "cost_record_id E row = ''cost:'' @ take 48 (digest_of E (JArr (
     [dimensionObject row, JStr (cn_as_of row), JStr (cn_amount_unscaled row), JStr (cn_currency row)]
     @ (if truthy (cn_coverage_scope row) then [text_or_null (cn_coverage_scope row)] else []))))"

definition upper_ascii :: "char \<Rightarrow> char" where
  "upper_ascii c = (if is_lower c then char_of (of_char c - 32 :: nat) else c)"

definition artifact_members :: "cost_env \<Rightarrow> cost_input \<Rightarrow> string \<Rightarrow> json_object" where
  "artifact_members E row report =
     [(''contract_version'', JStr ''0.4.0''), (''cost_record_id'', JStr (cost_record_id E row)), (''tenant_id'', JStr (cn_tenant_id row)),
      (''app_id'', JStr (cn_app_id row)), (''network'', JStr (cn_network row)), (''campaign_id'', text_or_null (cn_campaign_id row))]
     @ text_when (truthy (cn_ad_group_id row)) ''ad_group_id'' (cn_ad_group_id row)
     @ text_when (truthy (cn_creative_id row)) ''creative_id'' (cn_creative_id row)
     @ text_when (truthy (cn_coverage_scope row)) ''coverage_scope'' (cn_coverage_scope row)
     @ text_when (truthy (cn_country row)) ''country'' (cn_country row)
     @ [(''date'', JStr (cn_date row))]
     @ text_when (truthy (cn_reporting_time_zone row)) ''reporting_time_zone'' (cn_reporting_time_zone row)
     @ [(''amount_unscaled'', JStr (cn_amount_unscaled row)), (''amount_scale'', JNum (of_nat (cn_amount_scale row))),
        (''currency'', JStr (map upper_ascii (cn_currency row))), (''source'', JStr (cn_source row)), (''as_of'', JStr (cn_as_of row)),
        (''report_snapshot_digest'', JStr report)]"

definition public_dimensions :: "json_object \<Rightarrow> json" where
  "public_dimensions artifact = JObj (List.map_filter (\<lambda>f. map_option (Pair f) (member artifact f))
     [''network'', ''campaign_id'', ''ad_group_id'', ''creative_id'', ''country'', ''reporting_time_zone''])"

definition costArtifact :: "cost_env \<Rightarrow> cost_input \<Rightarrow> string \<Rightarrow> json_object res" where
  "costArtifact E row report =
     guardR (coverage_ok row) ''cost_coverage_scope_invalid''
       (let artifact = artifact_members E row report in
        Inr (artifact @ [(''dimension_digest'', JStr (digest_of E (public_dimensions artifact)))]))"

section \<open>One import\<close>

datatype cost_statement =
  Insert_App string string string
| Insert_Run string cost_input string string
| Insert_Cost json_object cost_input string string string

text \<open>How many rows a statement inserted, by its place in the import; a failed query throws.\<close>

type_synonym row_counts = "nat \<Rightarrow> json_object \<Rightarrow> nat res"

definition money_text_ok :: "cost_input \<Rightarrow> bool" where
  "money_text_ok row \<longleftrightarrow> currency_code (cn_currency row) \<and> all_digits (cn_amount_unscaled row)"

fun insert_costs :: "cost_env \<Rightarrow> row_counts \<Rightarrow> string \<Rightarrow> string \<Rightarrow> nat \<Rightarrow> cost_input list \<Rightarrow> (cost_statement list \<times> nat) res" where
  "insert_costs E answer run report k [] = Inr ([], 0)"
| "insert_costs E answer run report k (row # rows) =
     guardR (money_text_ok row) ''cost money representation is invalid''
       (bindR (costArtifact E row report) (\<lambda>artifact.
        bindR (answer k artifact) (\<lambda>n.
        bindR (insert_costs E answer run report (k + 1) rows) (\<lambda>(ss, inserted).
          Inr (Insert_Cost artifact row report (digest_of E (dimensionObject row)) run # ss, n + inserted)))))"

text \<open>
  The statements take effect only as a whole: \<open>withTenant\<close> rolls an error back. \<open>run_id\<close> is \<open>uuidV7\<close> at the
  instant that its argument names.
\<close>

definition persistCostImportWithClient ::
  "cost_env \<Rightarrow> row_counts \<Rightarrow> nat res \<Rightarrow> (string \<Rightarrow> string res) \<Rightarrow> string \<Rightarrow> cost_input list \<Rightarrow>
     (cost_statement list \<times> nat \<times> nat \<times> string) res" where
  "persistCostImportWithClient E answer count_current run_id sourceId rows =
     (case rows of
        [] \<Rightarrow> throw ''cost import requires at least one row''
      | scope # _ \<Rightarrow>
          guardR (list_all (\<lambda>row. cn_tenant_id row = cn_tenant_id scope \<and> cn_app_id row = cn_app_id scope) rows)
            ''a cost import cannot mix tenant or app scopes''
            (let report = cv_report_digest E rows in
             bindR (run_id (cn_as_of scope)) (\<lambda>run.
             bindR (insert_costs E answer run report 0 rows) (\<lambda>(ss, inserted).
             bindR count_current (\<lambda>current.
               Inr ([Insert_App (cn_tenant_id scope) (cn_app_id scope) (cn_as_of scope), Insert_Run run scope sourceId report] @ ss,
                    inserted, current, run))))))"

definition persistCostImport ::
  "cost_env \<Rightarrow> row_counts \<Rightarrow> nat res \<Rightarrow> (string \<Rightarrow> string res) \<Rightarrow> string \<Rightarrow> cost_input list \<Rightarrow>
     (cost_statement list \<times> nat \<times> nat \<times> string) res" where
  "persistCostImport E answer count_current run_id sourceId rows =
     guardR (rows \<noteq> []) ''cost import requires at least one row'' (persistCostImportWithClient E answer count_current run_id sourceId rows)"

section \<open>The cells of an import are distinct\<close>

text \<open>The cell a row reports on.\<close>

definition cost_cell :: "cost_input \<Rightarrow> string option list" where
  "cost_cell row =
     [Some (cn_tenant_id row), Some (cn_app_id row), Some (cn_network row), cn_campaign_id row, cn_ad_group_id row, cn_creative_id row,
      cn_country row, Some (cn_date row), if truthy (cn_reporting_time_zone row) then cn_reporting_time_zone row else None]"

lemma text_or_null_inj [simp]: "text_or_null v = text_or_null w \<longleftrightarrow> v = w"
  by (auto simp: text_or_null_def split: option.splits)

lemma dimensionObject_cell: "dimensionObject a = dimensionObject b \<longleftrightarrow> cost_cell a = cost_cell b"
  by (cases "cn_reporting_time_zone a"; cases "cn_reporting_time_zone b")
    (auto simp: dimensionObject_def cost_cell_def text_when_def split: if_splits)

lemma adjacent_sorted: "sorted (map f ks) \<Longrightarrow> inj_on f (set ks) \<Longrightarrow> adjacent_duplicate ks \<longleftrightarrow> \<not> distinct ks"
proof (induction ks rule: adjacent_duplicate.induct)
  case (1 a b ks)
  have "a \<notin> set (b # ks)" if "a \<noteq> b"
  proof
    assume m: "a \<in> set (b # ks)"
    then have "f b \<le> f a" "f a \<le> f b" using 1(2) by auto
    then have "f a = f b" by simp
    with 1(3) that show False by (auto simp: inj_on_def)
  qed
  moreover have "adjacent_duplicate (b # ks) \<longleftrightarrow> \<not> distinct (b # ks)" using 1 by (auto simp: inj_on_def)
  ultimately show ?case by auto
qed auto

definition prepared_order :: "cost_env \<Rightarrow> cost_input list \<Rightarrow> cost_input list" where
  "prepared_order E rows = sort_key (\<lambda>row. cv_collation E (cost_key E row)) rows"

lemma sort_key_map: "sort_key f (map g xs) = map g (sort_key (f \<circ> g) xs)"
proof (induction xs)
  case (Cons x xs)
  have "insort_key f (g x) (map g ys) = map g (insort_key (f \<circ> g) x ys)" for ys by (induction ys) auto
  with Cons show ?case by (simp add: o_def)
qed simp

lemma prepare_unfold:
  "prepareCostImportRows E rows =
     guardR (\<not> adjacent_duplicate (map (cost_key E) (prepared_order E rows))) ''cost import contains a duplicate retained dimension key''
       (Inr (prepared_order E rows))"
proof -
  have "sort_key (\<lambda>p. cv_collation E (snd p)) (map (\<lambda>row. (row, cost_key E row)) rows)
      = map (\<lambda>row. (row, cost_key E row)) (prepared_order E rows)" (is "?a = ?b")
    unfolding prepared_order_def by (simp add: sort_key_map o_def)
  then show ?thesis by (simp add: prepareCostImportRows_def o_def cong: map_cong)
qed

text \<open>C28. Where the canonical text (RFC 8785) and the collation that localeCompare sorts by both tell the keys of the import's
  rows apart, an import is accepted exactly when no two of its rows report on the same cell, and comes out in the order of the
  keys. The second condition is needed: the collation of a locale may call different keys equal.\<close>

theorem prepared_exact:
  assumes "inj_on (cv_jcs E) (dimensionObject ` set rows)" "inj_on (cv_collation E) (cost_key E ` set rows)"
  shows "prepareCostImportRows E rows =
     (if distinct (map cost_cell rows) then Inr (prepared_order E rows)
      else throw ''cost import contains a duplicate retained dimension key'')"
proof -
  let ?rs = "prepared_order E rows"
  have m: "mset ?rs = mset rows" by (simp add: prepared_order_def)
  then have s: "set ?rs = set rows" by (metis set_mset_mset)
  have "sorted (map (cv_collation E) (map (cost_key E) ?rs))" by (simp add: prepared_order_def o_def)
  then have "adjacent_duplicate (map (cost_key E) ?rs) \<longleftrightarrow> \<not> distinct (map (cost_key E) ?rs)"
    by (rule adjacent_sorted) (use assms(2) s in simp)
  also have "distinct (map (cost_key E) ?rs) \<longleftrightarrow> distinct (map (cost_key E) rows)"
    by (rule mset_eq_imp_distinct_iff) (simp add: m)
  also have "distinct (map (cost_key E) rows) \<longleftrightarrow> distinct (map cost_cell rows)"
  proof -
    have "cost_key E a = cost_key E b \<longleftrightarrow> cost_cell a = cost_cell b" if "a \<in> set rows" "b \<in> set rows" for a b
      using assms(1) that by (auto simp: cost_key_def inj_on_def simp flip: dimensionObject_cell)
    then have "inj_on (cost_key E) (set rows) \<longleftrightarrow> inj_on cost_cell (set rows)" by (auto simp: inj_on_def)
    then show ?thesis by (simp add: distinct_map)
  qed
  finally show ?thesis by (simp add: prepare_unfold guardR_def)
qed

text \<open>Where the collation does not tell two keys apart, as \<open>localeCompare\<close> does not for texts that Unicode calls
  equivalent, a repeated cell around them is accepted.\<close>

theorem equal_collation_hides_duplicates:
  assumes "cost_key E a \<noteq> cost_key E b" "cv_collation E (cost_key E a) = cv_collation E (cost_key E b)"
  shows "prepareCostImportRows E [a, b, a] = Inr [a, b, a]"
  using assms by (simp add: prepare_unfold prepared_order_def guardR_def)

text \<open>The identity of a cost record leaves the scale of its amount out.\<close>

lemma record_id_ignores_scale: "cost_record_id E (row\<lparr>cn_amount_scale := s\<rparr>) = cost_record_id E row"
  by (simp add: cost_record_id_def dimensionObject_def)

section \<open>What an import writes\<close>

fun statement_row :: "cost_statement \<Rightarrow> cost_input option" where
  "statement_row (Insert_Cost artifact row report key run) = Some row"
| "statement_row s = None"

lemma insert_costs_rows:
  "insert_costs E answer run report k rows = Inr (ss, n) \<Longrightarrow>
     map statement_row ss = map Some rows
     \<and> list_all2 (\<lambda>s row. \<exists>a. costArtifact E row report = Inr a \<and> s = Insert_Cost a row report (digest_of E (dimensionObject row)) run) ss rows
     \<and> list_all money_text_ok rows"
  by (induction rows arbitrary: k ss n) (auto simp: result_simps split: prod.splits)

lemma map_filter_rows: "map f ss = map Some rows \<Longrightarrow> List.map_filter f ss = rows"
  by (induction rows arbitrary: ss) (auto simp: map_filter_simps)

text \<open>A published import writes every row once, in order, under one run of the scope it belongs to, and no
  row of another scope or with malformed money.\<close>

theorem import_writes_every_row:
  assumes "persistCostImportWithClient E answer count_current run_id source rows = Inr (ss, inserted, current, run)"
  shows "List.map_filter statement_row ss = rows
    \<and> list_all (\<lambda>row. money_text_ok row \<and> coverage_ok row \<and> cn_tenant_id row = cn_tenant_id (hd rows) \<and> cn_app_id row = cn_app_id (hd rows)) rows"
proof -
  from assms obtain scope rest ts where rows: "rows = scope # rest"
    and scope: "list_all (\<lambda>row. cn_tenant_id row = cn_tenant_id scope \<and> cn_app_id row = cn_app_id scope) rows"
    and ts: "insert_costs E answer run (cv_report_digest E rows) 0 rows = Inr (ts, inserted)"
    and ss: "ss = [Insert_App (cn_tenant_id scope) (cn_app_id scope) (cn_as_of scope), Insert_Run run scope source (cv_report_digest E rows)] @ ts"
    by (cases rows) (auto simp: persistCostImportWithClient_def result_simps Let_def)
  note facts = insert_costs_rows [OF ts]
  have "List.map_filter statement_row ss = rows" using facts unfolding ss by (simp add: map_filter_simps map_filter_rows)
  moreover have "list_all coverage_ok rows"
    using facts by (auto simp: list_all2_conv_all_nth list_all_length costArtifact_def result_simps)
  ultimately show ?thesis using facts scope rows by (auto simp: list_all_iff)
qed

section \<open>Concrete imports\<close>

definition sample_row :: "string \<Rightarrow> string \<Rightarrow> cost_input" where
  "sample_row campaign amount = \<lparr> cn_tenant_id = ''t'', cn_app_id = ''a'', cn_network = ''meta'', cn_campaign_id = Some campaign,
     cn_ad_group_id = None, cn_creative_id = None, cn_coverage_scope = None, cn_country = Some ''JP'', cn_date = ''2026-01-02'',
     cn_reporting_time_zone = None, cn_amount_unscaled = amount, cn_amount_scale = 6, cn_currency = ''USD'', cn_source = ''imported_reported'',
     cn_as_of = ''now'' \<rparr>"

definition sample_cost_env :: "(string \<Rightarrow> string) \<Rightarrow> cost_env" where
  "sample_cost_env collation = \<lparr> cv_jcs = (\<lambda>v. case v of JObj ms \<Rightarrow> concat (map (\<lambda>m. case snd m of JStr s \<Rightarrow> s @ '','' | _ \<Rightarrow> '','') ms) | _ \<Rightarrow> []),
     cv_sha256 = id, cv_collation = collation, cv_report_digest = (\<lambda>rows. ''report'') \<rparr>"

theorem prepared_exact_witness:
  "prepareCostImportRows (sample_cost_env id) [sample_row ''2'' ''5'', sample_row ''1'' ''5''] = Inr [sample_row ''1'' ''5'', sample_row ''2'' ''5'']"
proof -
  let ?E = "sample_cost_env id" and ?rows = "[sample_row ''2'' ''5'', sample_row ''1'' ''5'']"
  have jcs: "inj_on (cv_jcs ?E) (dimensionObject ` set ?rows)"
    by (simp add: sample_cost_env_def dimensionObject_def sample_row_def text_when_def text_or_null_def)
  have collation: "inj_on (cv_collation ?E) (cost_key ?E ` set ?rows)" by (simp only: sample_cost_env_def cost_env.simps inj_on_id)
  have "distinct (map cost_cell ?rows)" by (simp add: cost_cell_def sample_row_def)
  then have "prepareCostImportRows ?E ?rows = Inr (prepared_order ?E ?rows)" by (simp only: prepared_exact [OF jcs collation] if_True)
  moreover have "prepared_order ?E ?rows = [sample_row ''1'' ''5'', sample_row ''2'' ''5'']"
    by (simp add: prepared_order_def cost_key_def sample_cost_env_def dimensionObject_def sample_row_def text_when_def text_or_null_def)
  ultimately show ?thesis by simp
qed

theorem equal_collation_hides_duplicates_witness:
  "prepareCostImportRows (sample_cost_env (\<lambda>k. [])) [sample_row ''1'' ''5'', sample_row ''2'' ''5'', sample_row ''1'' ''5'']
     = Inr [sample_row ''1'' ''5'', sample_row ''2'' ''5'', sample_row ''1'' ''5'']"
  by (rule equal_collation_hides_duplicates)
    (simp_all add: cost_key_def sample_cost_env_def dimensionObject_def sample_row_def text_when_def text_or_null_def)

theorem import_writes_every_row_witness:
  "\<exists>ss. persistCostImportWithClient (sample_cost_env id) (\<lambda>k a. Inr 1) (Inr 1) (\<lambda>t. Inr ''run'') ''s'' [sample_row ''1'' ''5''] = Inr (ss, 1, 1, ''run'')
     \<and> List.map_filter statement_row ss = [sample_row ''1'' ''5'']"
proof -
  obtain ss where "persistCostImportWithClient (sample_cost_env id) (\<lambda>k a. Inr 1) (Inr 1) (\<lambda>t. Inr ''run'') ''s'' [sample_row ''1'' ''5''] = Inr (ss, 1, 1, ''run'')"
    by (simp add: persistCostImportWithClient_def guardR_def costArtifact_def coverage_ok_def money_text_ok_def all_digits_def currency_code_def
        sample_row_def is_digit_def is_upper_def Let_def)
  with import_writes_every_row [OF this] show ?thesis by blast
qed

end
