(* ===== verification/Meta_Insights.thy ===== *)
theory Meta_Insights
  imports Cost_Import Url_Params
begin

text \<open>
  \<open>apps/worker/src/import/adapters.ts\<close>, the Meta part: the checks of reported days, identifiers and currencies,
  the normalisation of a page of insights and the paging loop. The network is a function from the ordinal of
  a request and its URL to an answer; secrets are a function that may throw.
\<close>

section \<open>Checks\<close>

definition day_pattern :: "string \<Rightarrow> bool" where
  "day_pattern s \<longleftrightarrow> length s = 10 \<and> list_all2 (\<lambda>c d. if d then is_digit c else c = CHR ''-'') s
     [True, True, True, True, False, True, True, False, True, True]"

text \<open>The pattern, a finite \<open>Date.parse\<close> of its midnight, and the same day when it is printed again.\<close>

definition calendar_day :: "string \<Rightarrow> bool" where
  "calendar_day s \<longleftrightarrow> day_pattern s \<and> canonical_instant (s @ ''T00:00:00.000Z'') \<noteq> None"

definition country_code :: "string \<Rightarrow> bool" where
  "country_code s \<longleftrightarrow> length s = 2 \<and> list_all is_upper s"

definition metaText :: "json option \<Rightarrow> string \<Rightarrow> string res" where
  "metaText v field =
     (case v of Some (JStr s) \<Rightarrow> guardR (s \<noteq> []) (''Meta Insights '' @ field @ '' is required'') (Inr s)
      | _ \<Rightarrow> throw (''Meta Insights '' @ field @ '' is required''))"

definition canonicalMetaDay :: "json option \<Rightarrow> string \<Rightarrow> string res" where
  "canonicalMetaDay v field =
     bindR (metaText v field) (\<lambda>day.
       guardR (calendar_day day) (''Meta Insights '' @ field @ '' must be a real YYYY-MM-DD calendar day'') (Inr day))"

definition validateMetaRange :: "string \<times> string \<Rightarrow> (string \<times> string) res" where
  "validateMetaRange period =
     bindR (canonicalMetaDay (Some (JStr (fst period))) ''since'') (\<lambda>since.
     bindR (canonicalMetaDay (Some (JStr (snd period))) ''until'') (\<lambda>until.
       guardR (\<not> until < since) ''Meta Insights since must not be after until'' (Inr (since, until))))"

definition metaIdentifier :: "json option \<Rightarrow> string \<Rightarrow> string res" where
  "metaIdentifier v field =
     (case v of
        Some (JStr s) \<Rightarrow> guardR (all_digits s \<and> length s \<le> 32) (''Meta Insights '' @ field @ '' must be a numeric identifier'') (Inr s)
      | _ \<Rightarrow> throw (''Meta Insights '' @ field @ '' must be a numeric identifier''))"

definition metaCurrency :: "json option \<Rightarrow> string \<Rightarrow> string res" where
  "metaCurrency v field =
     bindR (metaText v field) (\<lambda>currency.
       guardR (currency_code currency) (''Meta Insights '' @ field @ '' must be an uppercase ISO-4217 code'') (Inr currency))"

text \<open>\<open>response.error.code\<close>, when the error is an object.\<close>

definition error_code :: "json \<Rightarrow> string" where
  "error_code v =
     (case v of
        JObj ms \<Rightarrow> (case member ms ''code'' of
            Some c \<Rightarrow> (case safe_integer_of c of Some n \<Rightarrow> '' with code '' @ show_int n | None \<Rightarrow> [])
          | None \<Rightarrow> [])
      | _ \<Rightarrow> [])"

definition metaResponse :: "json \<Rightarrow> (json_object \<times> json list) res" where
  "metaResponse v =
     (case v of
        JObj ms \<Rightarrow>
          (case member ms ''error'' of
             Some e \<Rightarrow> throw (''Meta Insights response contained an error'' @ error_code e)
           | None \<Rightarrow> (case member ms ''data'' of
               Some (JArr rows) \<Rightarrow> Inr (ms, rows)
             | _ \<Rightarrow> throw ''Meta Insights response data must be an array''))
      | _ \<Rightarrow> throw ''Meta Insights response must be an object'')"

section \<open>Rows\<close>

record cost_scope =
  cs_tenant_id :: string
  cs_app_id :: string
  cs_currency :: string
  cs_as_of :: string

definition row_field :: "nat \<Rightarrow> string \<Rightarrow> string" where
  "row_field index name = ''row '' @ show_nat index @ '' '' @ name"

definition meta_row :: "cost_scope \<Rightarrow> string \<times> string \<Rightarrow> string \<Rightarrow> nat \<times> json \<Rightarrow> cost_input res" where
  "meta_row scope period expectedCurrency = (\<lambda>(index, v).
     case v of
       JObj row \<Rightarrow>
         bindR (canonicalMetaDay (member row ''date_start'') (row_field index ''date_start'')) (\<lambda>dateStart.
         bindR (canonicalMetaDay (member row ''date_stop'') (row_field index ''date_stop'')) (\<lambda>dateStop.
         guardR (dateStart = dateStop) (''Meta Insights row '' @ show_nat index @ '' is not a daily result'')
         (guardR (\<not> dateStart < fst period \<and> \<not> snd period < dateStart)
            (''Meta Insights row '' @ show_nat index @ '' is outside the requested range'')
         (bindR (metaCurrency (member row ''account_currency'') (row_field index ''account_currency'')) (\<lambda>currency.
         guardR (currency = expectedCurrency)
            (''Meta Insights row '' @ show_nat index @ '' account currency does not match --currency'')
         (bindR (metaText (member row ''country'') (row_field index ''country'')) (\<lambda>country.
         guardR (country_code country)
            (''Meta Insights row '' @ show_nat index @ '' country must be an uppercase ISO-3166-1 alpha-2 code'')
         (bindR (metaText (member row ''spend'') (row_field index ''spend'')) (\<lambda>spend.
         bindR (metaIdentifier (member row ''campaign_id'') (row_field index ''campaign_id'')) (\<lambda>campaign.
         bindR (metaIdentifier (member row ''adset_id'') (row_field index ''adset_id'')) (\<lambda>adset.
         bindR (decimalToUnscaled spend 6) (\<lambda>amount.
           Inr \<lparr> cn_tenant_id = cs_tenant_id scope, cn_app_id = cs_app_id scope, cn_network = ''meta'', cn_campaign_id = Some campaign,
             cn_ad_group_id = Some adset, cn_creative_id = None, cn_coverage_scope = None, cn_country = Some country, cn_date = dateStart,
             cn_reporting_time_zone = None, cn_amount_unscaled = amount, cn_amount_scale = 6, cn_currency = currency,
             cn_source = ''imported_reported'', cn_as_of = cs_as_of scope \<rparr>))))))))))))
     | _ \<Rightarrow> throw (''Meta Insights row '' @ show_nat index @ '' must be an object''))"

definition normalizeMetaInsights :: "cost_scope \<Rightarrow> json \<Rightarrow> string \<times> string \<Rightarrow> cost_input list res" where
  "normalizeMetaInsights scope v requested =
     bindR (metaResponse v) (\<lambda>(response, rows).
     bindR (validateMetaRange requested) (\<lambda>period.
     bindR (metaCurrency (Some (JStr (cs_currency scope))) ''configured currency'') (\<lambda>expected.
       mapR (meta_row scope period expected) (enumerate 0 rows))))"

section \<open>Pages\<close>

text \<open>A request that the network refuses, or a status with the parsed body.\<close>

datatype fetch_answer = Refused string | Responded nat "json option"

record fetch_request =
  fr_url :: string
  fr_authorization :: string

record meta_env =
  mt_fetch :: "nat \<Rightarrow> fetch_request \<Rightarrow> fetch_answer"
  mt_secret :: "string \<Rightarrow> string res"

definition metaPageSize :: nat where "metaPageSize = 500"

definition meta_url :: "string \<Rightarrow> string \<Rightarrow> string \<times> string \<Rightarrow> string option \<Rightarrow> string" where
  "meta_url version account period after =
     ''https://graph.facebook.com/'' @ version @ ''/act_'' @ account @ ''/insights?''
     @ params_to_string (
         [(''fields'', ''account_currency,campaign_id,adset_id,spend,date_start,date_stop''), (''level'', ''adset''), (''time_increment'', ''1''),
          (''breakdowns'', ''country''),
          (''time_range'', ''{'' @ json_string ''since'' @ '':'' @ json_string (fst period) @ '','' @ json_string ''until'' @ '':'' @ json_string (snd period) @ ''}''),
          (''limit'', show_nat metaPageSize)]
         @ (case after of None \<Rightarrow> [] | Some cursor \<Rightarrow> [(''after'', cursor)]))"

text \<open>\<open>body.paging\<close>: the cursor of the next page, if there is one.\<close>

definition next_cursor :: "json_object \<Rightarrow> string option res" where
  "next_cursor body =
     (case member body ''paging'' of
        None \<Rightarrow> Inr None
      | Some (JObj paging) \<Rightarrow>
          (case member paging ''next'' of
             None \<Rightarrow> Inr None
           | Some JNull \<Rightarrow> Inr None
           | Some (JStr (c # cs)) \<Rightarrow>
               (case member paging ''cursors'' of
                  Some (JObj cursors) \<Rightarrow> (case member cursors ''after'' of
                      Some (JStr (a # as)) \<Rightarrow> Inr (Some (a # as))
                    | _ \<Rightarrow> throw ''Meta Insights paging.next requires a non-empty after cursor'')
                | _ \<Rightarrow> throw ''Meta Insights paging.next requires a non-empty after cursor'')
           | _ \<Rightarrow> throw ''Meta Insights paging.next must be a non-empty string'')
      | _ \<Rightarrow> throw ''Meta Insights paging must be an object'')"

definition meta_page :: "cost_scope \<Rightarrow> string \<times> string \<Rightarrow> fetch_answer \<Rightarrow> (cost_input list \<times> string option) res" where
  "meta_page scope period answer =
     (case answer of
        Refused message \<Rightarrow> throw message
      | Responded status content \<Rightarrow>
          guardR (200 \<le> status \<and> status < 300) (''Meta Insights request failed with '' @ show_nat status)
            (case content of
               None \<Rightarrow> throw ''Meta Insights response was not valid JSON''
             | Some v \<Rightarrow>
                 bindR (metaResponse v) (\<lambda>(body, rows).
                 guardR (length rows \<le> metaPageSize) (''Meta Insights response exceeded the requested '' @ show_nat metaPageSize @ ''-row page size'')
                 (bindR (normalizeMetaInsights scope v period) (\<lambda>inputs.
                  bindR (next_cursor body) (\<lambda>cursor. Inr (inputs, cursor)))))))"

text \<open>The requests that were made, and the rows.\<close>

function meta_pages :: "meta_env \<Rightarrow> string \<Rightarrow> string \<Rightarrow> string \<Rightarrow> cost_scope \<Rightarrow> string \<times> string \<Rightarrow> nat \<Rightarrow> nat \<Rightarrow> string list \<Rightarrow> string option \<Rightarrow>
    cost_input list \<Rightarrow> fetch_request list \<times> cost_input list res" where
  "meta_pages M version account token scope period maxPages pages seen after rows =
     (let request = \<lparr> fr_url = meta_url version account period after, fr_authorization = ''Bearer '' @ token \<rparr> in
      case meta_page scope period (mt_fetch M pages request) of
        Inl e \<Rightarrow> ([request], Inl e)
      | Inr (inputs, None) \<Rightarrow> ([request], Inr (rows @ inputs))
      | Inr (inputs, Some cursor) \<Rightarrow>
          if cursor \<in> set seen then ([request], throw ''Meta Insights pagination repeated an after cursor'')
          else if maxPages \<le> pages + 1 then ([request], throw (''Meta Insights pagination exceeded '' @ show_nat maxPages @ '' pages''))
          else (case meta_pages M version account token scope period maxPages (pages + 1) (seen @ [cursor]) (Some cursor) (rows @ inputs) of
                  (requests, result) \<Rightarrow> (request # requests, result)))"
  by pat_completeness auto
termination by (relation "measure (\<lambda>(M, v, a, t, s, r, maxPages, pages, x). maxPages - pages)") auto

declare meta_pages.simps [simp del]

definition version_ok :: "string \<Rightarrow> bool" where
  "version_ok s \<longleftrightarrow> (case s of
     c # r \<Rightarrow> c = CHR ''v'' \<and> (case split_on (CHR ''.'') r of [major, minor] \<Rightarrow> all_digits major \<and> all_digits minor | _ \<Rightarrow> False)
   | [] \<Rightarrow> False)"

record meta_options =
  mo_accountId :: string
  mo_apiVersion :: "string option"
  mo_scope :: cost_scope
  mo_since :: string
  mo_until :: string
  mo_maxPages :: "rat option"

text \<open>What is settled before the first request: the period, the path, the bound and the token.\<close>

definition meta_plan :: "meta_env \<Rightarrow> meta_options \<Rightarrow> ((string \<times> string) \<times> string \<times> string \<times> nat \<times> string) res" where
  "meta_plan M opts =
     bindR (validateMetaRange (mo_since opts, mo_until opts)) (\<lambda>period.
     let version = the_or ''v26.0'' (mo_apiVersion opts) in
     guardR (version_ok version) ''Meta Insights apiVersion must use v<major>.<minor>''
       (bindR (metaIdentifier (Some (JStr (mo_accountId opts))) ''accountId'') (\<lambda>account.
        bindR (metaCurrency (Some (JStr (cs_currency (mo_scope opts)))) ''configured currency'') (\<lambda>currency.
        case safe_integer_of (JNum (the_or 1000 (mo_maxPages opts))) of
          None \<Rightarrow> throw ''Meta Insights maxPages must be a positive safe integer''
        | Some maxPages \<Rightarrow>
            guardR (1 \<le> maxPages) ''Meta Insights maxPages must be a positive safe integer''
              (bindR (mt_secret M ''OPENMASU_META_ACCESS_TOKEN'') (\<lambda>token. Inr (period, version, account, nat maxPages, token)))))))"

definition fetchMetaInsights :: "cost_env \<Rightarrow> meta_env \<Rightarrow> meta_options \<Rightarrow> fetch_request list \<times> cost_input list res" where
  "fetchMetaInsights E M opts =
     (case meta_plan M opts of
        Inl e \<Rightarrow> ([], Inl e)
      | Inr (period, version, account, maxPages, token) \<Rightarrow>
          (case meta_pages M version account token (mo_scope opts) period maxPages 0 [] None [] of
             (requests, result) \<Rightarrow> (requests, bindR result (prepareCostImportRows E))))"

section \<open>What is fetched\<close>

definition reported_row :: "cost_scope \<Rightarrow> string \<times> string \<Rightarrow> cost_input \<Rightarrow> bool" where
  "reported_row scope period row \<longleftrightarrow>
     cn_tenant_id row = cs_tenant_id scope \<and> cn_app_id row = cs_app_id scope \<and> cn_as_of row = cs_as_of scope
     \<and> cn_currency row = cs_currency scope \<and> money_text_ok row \<and> coverage_ok row
     \<and> calendar_day (cn_date row) \<and> fst period \<le> cn_date row \<and> cn_date row \<le> snd period
     \<and> (\<forall>c. cn_country row = Some c \<longrightarrow> country_code c)"

lemma strip_zeros_digits: "all_digits s \<Longrightarrow> all_digits (strip_zeros s)"
  unfolding strip_zeros_def all_digits_def Let_def
  by (auto simp: list_all_iff is_digit_def dest: set_dropWhileD)

lemma decimalToUnscaled_digits:
  assumes "decimalToUnscaled s scale = Inr amount"
  shows "all_digits amount"
proof -
  from assms obtain a b where parts: "decimal_parts (js_trim s) = Some (a, b)"
    and amount: "amount = strip_zeros (a @ b @ replicate (scale - length b) (CHR ''0''))"
    by (auto simp: decimalToUnscaled_def result_simps split: option.splits)
  have "is_digit (CHR ''0'')" by (simp add: is_digit_def)
  then have "all_digits (a @ b @ replicate (scale - length b) (CHR ''0''))"
    using decimal_parts_Some [OF parts] by (auto simp: all_digits_def list_all_iff)
  then show ?thesis unfolding amount by (rule strip_zeros_digits)
qed

lemma canonicalMetaDay_Some: "canonicalMetaDay v f = Inr d \<Longrightarrow> calendar_day d \<and> v = Some (JStr d)"
  by (auto simp: canonicalMetaDay_def metaText_def result_simps split: option.splits json.splits)

lemma metaCurrency_Some: "metaCurrency v f = Inr c \<Longrightarrow> currency_code c \<and> v = Some (JStr c)"
  by (auto simp: metaCurrency_def metaText_def result_simps split: option.splits json.splits)

lemma metaIdentifier_Some: "metaIdentifier v f = Inr c \<Longrightarrow> all_digits c \<and> v = Some (JStr c)"
  by (auto simp: metaIdentifier_def result_simps split: option.splits json.splits)

lemma meta_row_sound:
  assumes "meta_row scope period (cs_currency scope) p = Inr row"
  shows "reported_row scope period row \<and> cn_network row = ''meta''"
proof -
  obtain index v where p: "p = (index, v)" by fastforce
  show ?thesis using assms unfolding p meta_row_def reported_row_def money_text_ok_def coverage_ok_def
    by (auto simp: result_simps dest!: canonicalMetaDay_Some metaCurrency_Some decimalToUnscaled_digits split: json.splits)
qed

lemma normalize_sound:
  assumes "normalizeMetaInsights scope v period = Inr rows" "row \<in> set rows"
  shows "reported_row scope period row \<and> cn_network row = ''meta''"
proof -
  from assms(1) obtain vs where "list_all2 (\<lambda>x y. meta_row scope period (cs_currency scope) x = Inr y) (enumerate 0 vs) rows"
    by (auto simp: normalizeMetaInsights_def validateMetaRange_def result_simps dest!: canonicalMetaDay_Some metaCurrency_Some)
  with assms(2) obtain p where "meta_row scope period (cs_currency scope) p = Inr row"
    unfolding list_all2_conv_all_nth in_set_conv_nth by metis
  then show ?thesis by (rule meta_row_sound)
qed

text \<open>The pages behind a successful run, each asked for with the cursor of the one before it.\<close>

definition page_chain :: "meta_env \<Rightarrow> cost_scope \<Rightarrow> string \<times> string \<Rightarrow> nat \<Rightarrow> fetch_request list \<Rightarrow> (cost_input list \<times> string option) list \<Rightarrow> bool" where
  "page_chain M scope period k requests ps \<longleftrightarrow>
     ps \<noteq> [] \<and> length ps = length requests \<and> snd (last ps) = None
     \<and> list_all2 (\<lambda>(i, request) p. meta_page scope period (mt_fetch M i request) = Inr p) (enumerate k requests) ps"

lemma meta_pages_chain:
  "meta_pages M version account token scope period maxPages k seen after rows = (requests, Inr out) \<Longrightarrow>
     \<exists>ps. page_chain M scope period k requests ps \<and> out = rows @ concat (map fst ps)
       \<and> map fr_url requests = map (meta_url version account period) (after # butlast (map snd ps))"
proof (induction M version account token scope period maxPages k seen after rows arbitrary: requests rule: meta_pages.induct)
  case (1 M version account token scope period maxPages k seen after rows)
  let ?r = "\<lparr> fr_url = meta_url version account period after, fr_authorization = ''Bearer '' @ token \<rparr>"
  from 1(2) obtain inputs cursor where page: "meta_page scope period (mt_fetch M k ?r) = Inr (inputs, cursor)"
    by (subst (asm) meta_pages.simps) (auto simp: Let_def split: sum.splits)
  show ?case
  proof (cases cursor)
    case None
    with 1(2) page have "requests = [?r]" "out = rows @ inputs" by (auto simp: meta_pages.simps [of M] Let_def)
    with page None show ?thesis by (intro exI [of _ "[(inputs, None)]"]) (simp add: page_chain_def)
  next
    case (Some c)
    obtain rs result where rec: "meta_pages M version account token scope period maxPages (k + 1) (seen @ [c]) (Some c) (rows @ inputs) = (rs, result)"
      by fastforce
    from 1(2) page Some have go: "c \<notin> set seen" "\<not> maxPages \<le> k + 1"
      by (auto simp: meta_pages.simps [of M _ _ _ _ _ _ k] Let_def throw_def split: if_splits)
    with 1(2) page Some rec have req: "requests = ?r # rs" and res: "result = Inr out"
      by (auto simp: meta_pages.simps [of M _ _ _ _ _ _ k] Let_def)
    from 1(1) [OF refl page refl Some go] rec res obtain ps where ps: "page_chain M scope period (k + 1) rs ps"
      "out = (rows @ inputs) @ concat (map fst ps)" "map fr_url rs = map (meta_url version account period) (Some c # butlast (map snd ps))"
      by blast
    then show ?thesis using page Some unfolding req
      by (intro exI [of _ "(inputs, Some c) # ps"]) (auto simp: page_chain_def)
  qed
qed

lemma meta_url_inj: "meta_url version account period a = meta_url version account period b \<longleftrightarrow> a = b"
proof
  assume "meta_url version account period a = meta_url version account period b"
  then have "parse_params (params_to_string (ps @ (case a of None \<Rightarrow> [] | Some cursor \<Rightarrow> [(''after'', cursor)])))
      = parse_params (params_to_string (ps @ (case b of None \<Rightarrow> [] | Some cursor \<Rightarrow> [(''after'', cursor)])))"
    if "ps = [(''fields'', ''account_currency,campaign_id,adset_id,spend,date_start,date_stop''), (''level'', ''adset''), (''time_increment'', ''1''),
          (''breakdowns'', ''country''),
          (''time_range'', ''{'' @ json_string ''since'' @ '':'' @ json_string (fst period) @ '','' @ json_string ''until'' @ '':'' @ json_string (snd period) @ ''}''),
          (''limit'', show_nat metaPageSize)]" for ps
    unfolding that meta_url_def by simp
  then show "a = b" unfolding params_roundtrip by (cases a; cases b) auto
qed simp

lemma meta_pages_requests:
  "k < maxPages \<Longrightarrow> (after = None \<and> seen = [] \<or> (\<exists>c \<in> set seen. after = Some c)) \<Longrightarrow>
     \<exists>cs. map fr_url (fst (meta_pages M version account token scope period maxPages k seen after rows))
           = map (meta_url version account period) (after # map Some cs)
       \<and> distinct cs \<and> set cs \<inter> set seen = {} \<and> length cs < maxPages - k"
proof (induction M version account token scope period maxPages k seen after rows rule: meta_pages.induct)
  case (1 M version account token scope period maxPages k seen after rows)
  let ?r = "\<lparr> fr_url = meta_url version account period after, fr_authorization = ''Bearer '' @ token \<rparr>"
  let ?all = "meta_pages M version account token scope period maxPages k seen after rows"
  have stop: ?case if "fst ?all = [?r]" unfolding that using 1(2) by (intro exI [of _ "[]"]) simp
  show ?case
  proof (cases "\<exists>inputs c. meta_page scope period (mt_fetch M k ?r) = Inr (inputs, Some c) \<and> c \<notin> set seen \<and> \<not> maxPages \<le> k + 1")
    case False
    then show ?thesis
      by (intro stop, subst meta_pages.simps) (auto simp: Let_def split: sum.splits option.splits)
  next
    case True
    then obtain inputs c where page: "meta_page scope period (mt_fetch M k ?r) = Inr (inputs, Some c)" "c \<notin> set seen" "\<not> maxPages \<le> k + 1"
      by blast
    let ?rest = "meta_pages M version account token scope period maxPages (k + 1) (seen @ [c]) (Some c) (rows @ inputs)"
    have all: "fst ?all = ?r # fst ?rest" using page by (subst meta_pages.simps) (simp add: Let_def split: prod.splits)
    from 1(1) [OF refl page(1) refl refl page(2,3)] page obtain cs where cs: "map fr_url (fst ?rest) = map (meta_url version account period) (Some c # map Some cs)"
      "distinct cs" "set cs \<inter> set (seen @ [c]) = {}" "length cs < maxPages - (k + 1)"
      by fastforce
    then show ?thesis unfolding all using page(2) by (intro exI [of _ "c # cs"]) auto
  qed
qed

section \<open>Guarantees of a fetch\<close>

lemma validateMetaRange_Some: "validateMetaRange (a, b) = Inr period \<Longrightarrow> period = (a, b) \<and> calendar_day a \<and> calendar_day b \<and> a \<le> b"
  by (auto simp: validateMetaRange_def result_simps not_less dest!: canonicalMetaDay_Some)

lemma meta_plan_Some:
  "meta_plan M opts = Inr (period, version, account, maxPages, token) \<Longrightarrow>
     period = (mo_since opts, mo_until opts) \<and> version = the_or ''v26.0'' (mo_apiVersion opts) \<and> account = mo_accountId opts
     \<and> 0 < maxPages \<and> maxPages = nat \<lfloor>the_or 1000 (mo_maxPages opts)\<rfloor>"
  by (auto simp: meta_plan_def result_simps Let_def safe_integer_of_def integer_of_def split: option.splits if_splits
      dest!: validateMetaRange_Some metaIdentifier_Some)

lemma fetch_parts:
  assumes "fetchMetaInsights E M opts = (requests, Inr rows)"
  obtains token maxPages out where
    "meta_pages M (the_or ''v26.0'' (mo_apiVersion opts)) (mo_accountId opts) token (mo_scope opts) (mo_since opts, mo_until opts) maxPages 0 [] None []
       = (requests, Inr out)" "prepareCostImportRows E out = Inr rows"
  using assms unfolding fetchMetaInsights_def
  by (auto simp: result_simps split: sum.splits prod.splits dest!: meta_plan_Some)

lemma prepare_mset: "prepareCostImportRows E out = Inr rows \<Longrightarrow> mset rows = mset out"
  by (auto simp: prepare_unfold prepared_order_def result_simps)

text \<open>C27. A successful fetch has read every page: each request carries the cursor of the page before it, the last
  page names no next one, and the rows are the normalised rows of all pages.\<close>

theorem fetch_reads_every_page:
  assumes "fetchMetaInsights E M opts = (requests, Inr rows)"
  shows "\<exists>pages. page_chain M (mo_scope opts) (mo_since opts, mo_until opts) 0 requests pages
    \<and> mset rows = mset (concat (map fst pages))
    \<and> map fr_url requests = map (meta_url (the_or ''v26.0'' (mo_apiVersion opts)) (mo_accountId opts) (mo_since opts, mo_until opts))
        (None # butlast (map snd pages))"
proof -
  from fetch_parts [OF assms] obtain token maxPages out where
    run: "meta_pages M (the_or ''v26.0'' (mo_apiVersion opts)) (mo_accountId opts) token (mo_scope opts) (mo_since opts, mo_until opts) maxPages 0 [] None []
       = (requests, Inr out)" and rows: "prepareCostImportRows E out = Inr rows" by blast
  from meta_pages_chain [OF run] prepare_mset [OF rows] show ?thesis by auto
qed

text \<open>Whatever the network answers, a fetch makes at most as many requests as it may read pages, and never the
  same one twice.\<close>

theorem fetch_requests_bounded:
  "length (fst (fetchMetaInsights E M opts)) \<le> nat \<lfloor>the_or 1000 (mo_maxPages opts)\<rfloor>
   \<and> distinct (map fr_url (fst (fetchMetaInsights E M opts)))"
proof (cases "meta_plan M opts")
  case (Inr plan)
  obtain period version account maxPages token where plan: "meta_plan M opts = Inr (period, version, account, maxPages, token)"
    using Inr by (cases plan) auto
  note facts = meta_plan_Some [OF plan]
  from meta_pages_requests [of 0 maxPages None "[]" M version account token "mo_scope opts" period "[]"] facts
  obtain cs where cs: "map fr_url (fst (meta_pages M version account token (mo_scope opts) period maxPages 0 [] None []))
      = map (meta_url version account period) (None # map Some cs)" "distinct cs" "length cs < maxPages"
    by auto
  have run: "fst (fetchMetaInsights E M opts) = fst (meta_pages M version account token (mo_scope opts) period maxPages 0 [] None [])"
    by (simp add: fetchMetaInsights_def plan split: prod.splits)
  have "length (fst (fetchMetaInsights E M opts)) = Suc (length cs)" using arg_cong [OF cs(1), of length] run by simp
  moreover have "distinct (map (meta_url version account period) (None # map Some cs))"
    using cs(2) by (auto simp: distinct_map inj_on_def meta_url_inj)
  ultimately show ?thesis using cs facts run by simp
qed (simp add: fetchMetaInsights_def)

lemma chain_page:
  assumes "page_chain M scope period k requests ps" "p \<in> set ps"
  obtains i request where "meta_page scope period (mt_fetch M i request) = Inr p"
proof -
  from assms(2) obtain n where n: "n < length ps" "p = ps ! n" by (auto simp: in_set_conv_nth)
  have "(\<lambda>(i, request) p. meta_page scope period (mt_fetch M i request) = Inr p) (enumerate k requests ! n) (ps ! n)"
    by (rule list_all2_nthD2 [OF _ n(1)]) (use assms(1) in \<open>simp add: page_chain_def\<close>)
  with n(2) that show ?thesis by (cases "enumerate k requests ! n") simp
qed

lemma chain_rows:
  assumes "page_chain M scope period k requests ps" "row \<in> set (concat (map fst ps))"
  shows "reported_row scope period row \<and> cn_network row = ''meta''"
proof -
  from assms(2) obtain inputs cursor where p: "(inputs, cursor) \<in> set ps" "row \<in> set inputs" by fastforce
  obtain i request where "meta_page scope period (mt_fetch M i request) = Inr (inputs, cursor)"
    using chain_page [OF assms(1) p(1)] by blast
  then obtain v where "normalizeMetaInsights scope v period = Inr inputs"
    by (auto simp: meta_page_def result_simps split: fetch_answer.splits option.splits)
  with p(2) show ?thesis by (rule normalize_sound [rotated])
qed

text \<open>Every row of a fetch belongs to the scope, the currency and the days that were asked for, and passes every
  check of the import that writes it.\<close>

theorem fetched_rows_reported:
  assumes "fetchMetaInsights E M opts = (requests, Inr rows)"
  shows "list_all (reported_row (mo_scope opts) (mo_since opts, mo_until opts)) rows \<and> list_all (\<lambda>row. cn_network row = ''meta'') rows"
proof -
  from fetch_parts [OF assms] obtain token maxPages out where
    run: "meta_pages M (the_or ''v26.0'' (mo_apiVersion opts)) (mo_accountId opts) token (mo_scope opts) (mo_since opts, mo_until opts) maxPages 0 [] None []
       = (requests, Inr out)" and rows: "prepareCostImportRows E out = Inr rows" by blast
  have "set rows = set out" using prepare_mset [OF rows] by (metis set_mset_mset)
  moreover obtain ps where "page_chain M (mo_scope opts) (mo_since opts, mo_until opts) 0 requests ps" "out = concat (map fst ps)"
    using meta_pages_chain [OF run] by auto
  ultimately show ?thesis using chain_rows by (simp add: list_all_iff)
qed

section \<open>A concrete fetch\<close>

definition sample_scope :: cost_scope where
  "sample_scope = \<lparr> cs_tenant_id = ''t'', cs_app_id = ''a'', cs_currency = ''USD'', cs_as_of = ''now'' \<rparr>"

definition sample_insight :: json where
  "sample_insight = JObj [(''date_start'', JStr ''2026-02-28''), (''date_stop'', JStr ''2026-02-28''), (''account_currency'', JStr ''USD''),
     (''country'', JStr ''JP''), (''spend'', JStr ''1.5''), (''campaign_id'', JStr ''11''), (''adset_id'', JStr ''12'')]"

definition sample_answer :: "nat \<Rightarrow> fetch_answer" where
  "sample_answer k = Responded 200 (Some (JObj (
     if k = 0 then [(''data'', JArr [sample_insight]), (''paging'', JObj [(''next'', JStr ''n''), (''cursors'', JObj [(''after'', JStr ''x'')])])]
     else [(''data'', JArr [])])))"

definition sample_fetch :: meta_env where
  "sample_fetch = \<lparr> mt_fetch = (\<lambda>k r. sample_answer k), mt_secret = (\<lambda>n. Inr ''secret'') \<rparr>"

definition sample_options :: meta_options where
  "sample_options = \<lparr> mo_accountId = ''42'', mo_apiVersion = None, mo_scope = sample_scope, mo_since = ''2026-02-01'', mo_until = ''2026-02-28'',
     mo_maxPages = None \<rparr>"

lemma sample_days: "calendar_day ''2026-02-01''" "calendar_day ''2026-02-28''"
  by code_simp+

lemma sample_spend: "decimalToUnscaled ''1.5'' 6 = Inr ''1500000''"
  by code_simp

lemma sample_period: "validateMetaRange (''2026-02-01'', ''2026-02-28'') = Inr (''2026-02-01'', ''2026-02-28'')"
  using sample_days by (simp add: validateMetaRange_def canonicalMetaDay_def metaText_def guardR_def)

lemma sample_currency: "metaCurrency (Some (JStr ''USD'')) f = Inr ''USD''"
  by (simp add: metaCurrency_def metaText_def guardR_def currency_code_def is_upper_def)

lemma sample_page:
  "meta_page sample_scope (''2026-02-01'', ''2026-02-28'') (sample_answer (Suc k)) = Inr ([], None)"
  "\<exists>row. meta_page sample_scope (''2026-02-01'', ''2026-02-28'') (sample_answer 0) = Inr ([row], Some ''x'')"
  using sample_days
  by (simp_all add: meta_page_def sample_answer_def guardR_def metaResponse_def member_def normalizeMetaInsights_def sample_period sample_currency
      sample_scope_def metaPageSize_def next_cursor_def meta_row_def sample_insight_def canonicalMetaDay_def metaText_def sample_spend
      country_code_def is_upper_def metaIdentifier_def all_digits_def is_digit_def)

lemma sample_fetch_run:
  obtains requests rows where "fetchMetaInsights (sample_cost_env id) sample_fetch sample_options = (requests, Inr rows)"
    "length requests = 2" "length rows = 1"
proof -
  obtain row where page: "meta_page sample_scope (''2026-02-01'', ''2026-02-28'') (sample_answer 0) = Inr ([row], Some ''x'')"
    using sample_page(2) by blast
  have "meta_plan sample_fetch sample_options = Inr ((''2026-02-01'', ''2026-02-28''), ''v26.0'', ''42'', 1000, ''secret'')"
  proof -
    have "version_ok ''v26.0''" by code_simp
    moreover have "metaIdentifier (Some (JStr ''42'')) f = Inr ''42''" for f
      by (simp add: metaIdentifier_def guardR_def all_digits_def is_digit_def)
    moreover have "safe_integer_of (JNum 1000) = Some 1000" by (simp add: safe_integer_of_def MAX_SAFE_INTEGER_def)
    ultimately show ?thesis by (simp add: meta_plan_def guardR_def sample_period sample_currency sample_options_def sample_scope_def sample_fetch_def)
  qed
  then show ?thesis using that page sample_page(1) [of 0]
    by (simp add: fetchMetaInsights_def meta_pages.simps [of sample_fetch] sample_fetch_def [THEN arg_cong, of mt_fetch]
      prepare_unfold prepared_order_def guardR_def sample_options_def Let_def)
qed

theorem fetch_reads_every_page_witness:
  "\<exists>pages requests. page_chain sample_fetch sample_scope (''2026-02-01'', ''2026-02-28'') 0 requests pages \<and> length requests = 2"
proof -
  obtain requests rows where run: "fetchMetaInsights (sample_cost_env id) sample_fetch sample_options = (requests, Inr rows)"
    and n: "length requests = 2" by (rule sample_fetch_run)
  from fetch_reads_every_page [OF run] n show ?thesis by (auto simp: sample_options_def)
qed

theorem fetched_rows_reported_witness:
  "\<exists>requests rows. fetchMetaInsights (sample_cost_env id) sample_fetch sample_options = (requests, Inr rows) \<and> length rows = 1
     \<and> list_all (\<lambda>row. cn_currency row = ''USD'' \<and> ''2026-02-01'' \<le> cn_date row) rows"
proof -
  obtain requests rows where run: "fetchMetaInsights (sample_cost_env id) sample_fetch sample_options = (requests, Inr rows)"
    and n: "length rows = 1" by (rule sample_fetch_run)
  from fetched_rows_reported [OF run] have "list_all (reported_row sample_scope (''2026-02-01'', ''2026-02-28'')) rows"
    by (simp add: sample_options_def)
  then have "list_all (\<lambda>row. cn_currency row = ''USD'' \<and> ''2026-02-01'' \<le> cn_date row) rows"
    by (auto simp: list_all_iff reported_row_def sample_scope_def)
  with run n show ?thesis by blast
qed

end
