(* ===== verification/Google_Costs.thy ===== *)
theory Google_Costs
  imports Meta_Insights
begin

text \<open>
  \<open>apps/worker/src/import/adapters.ts\<close>, the rows of the Google Ads part, and
  \<open>apps/runtime/src/google-cost-detail.ts\<close>: checks, limits, batches of search results, the three partitions of
  campaigns and their normalisation, and the explicit selection of identifiers for a detailed report.
\<close>

section \<open>Checks\<close>

definition google_error :: "string \<Rightarrow> 'a res" where
  "google_error message = throw (''Google Ads '' @ message)"

definition google_guard :: "bool \<Rightarrow> string \<Rightarrow> 'a res \<Rightarrow> 'a res" where
  "google_guard b message k = (if b then k else google_error message)"

definition googleText :: "json option \<Rightarrow> string \<Rightarrow> string res" where
  "googleText v field =
     (case v of Some (JStr s) \<Rightarrow> google_guard (s \<noteq> []) (field @ '' is required'') (Inr s)
      | _ \<Rightarrow> google_error (field @ '' is required''))"

definition canonicalGoogleDay :: "json option \<Rightarrow> string \<Rightarrow> string res" where
  "canonicalGoogleDay v field =
     bindR (googleText v field) (\<lambda>day. google_guard (calendar_day day) (field @ '' must be a real YYYY-MM-DD calendar day'') (Inr day))"

definition validateGoogleRange :: "string \<times> string \<Rightarrow> (string \<times> string) res" where
  "validateGoogleRange period =
     bindR (canonicalGoogleDay (Some (JStr (fst period))) ''since'') (\<lambda>since.
     bindR (canonicalGoogleDay (Some (JStr (snd period))) ''until'') (\<lambda>until.
       google_guard (\<not> until < since) ''since must not be after until'' (Inr (since, until))))"

definition googleCustomerId :: "json option \<Rightarrow> string \<Rightarrow> string res" where
  "googleCustomerId v field =
     (case v of
        Some (JStr s) \<Rightarrow> google_guard (length s = 10 \<and> list_all is_digit s) (field @ '' must be a 10-digit customer ID without hyphens'') (Inr s)
      | _ \<Rightarrow> google_error (field @ '' must be a 10-digit customer ID without hyphens''))"

text \<open>Digits without a leading zero, and \<open>0\<close> itself where it is allowed.\<close>

definition positive_digits :: "string \<Rightarrow> bool" where
  "positive_digits s \<longleftrightarrow> all_digits s \<and> hd s \<noteq> CHR ''0''"

definition int64_text :: "string \<Rightarrow> bool" where
  "int64_text s \<longleftrightarrow> the_or 0 (dec_value s) \<le> 9223372036854775807"

definition googleInt64 :: "json option \<Rightarrow> string \<Rightarrow> bool \<Rightarrow> string res" where
  "googleInt64 v field allowZero =
     (case v of
        Some (JStr s) \<Rightarrow>
          google_guard (positive_digits s \<or> allowZero \<and> s = ''0'') (field @ '' must be a canonical non-negative INT64 string'')
            (google_guard (int64_text s) (field @ '' exceeds INT64'') (Inr s))
      | _ \<Rightarrow> google_error (field @ '' must be a canonical non-negative INT64 string''))"

definition googleCurrency :: "json option \<Rightarrow> string \<Rightarrow> string res" where
  "googleCurrency v field =
     bindR (googleText v field) (\<lambda>s. google_guard (currency_code s) (field @ '' must be an uppercase ISO-4217 code'') (Inr s))"

definition googleCountry :: "json option \<Rightarrow> string \<Rightarrow> string res" where
  "googleCountry v field =
     bindR (googleText v field) (\<lambda>s. google_guard (country_code s) (field @ '' must be an uppercase ISO-3166-1 alpha-2 code'') (Inr s))"

definition googleSubtype :: "json option \<Rightarrow> string \<Rightarrow> string res" where
  "googleSubtype v field =
     bindR (googleText v field) (\<lambda>s.
       google_guard (is_upper (hd s) \<and> length s \<le> 128 \<and> list_all (\<lambda>c. is_upper c \<or> is_digit c \<or> c = CHR ''_'') (tl s))
         (field @ '' is invalid'') (Inr s))"

definition googleObject :: "json option \<Rightarrow> string \<Rightarrow> json_object res" where
  "googleObject v field = (case v of Some (JObj ms) \<Rightarrow> Inr ms | _ \<Rightarrow> google_error (field @ '' must be an object''))"

section \<open>Limits\<close>

record google_limits =
  gl_maxRows :: nat
  gl_maxBatches :: nat
  gl_maxResponseBytes :: nat
  gl_maxGeoCriteria :: nat
  gl_lookupChunkSize :: nat
  gl_maxRequests :: nat

record configured_limits =
  gc_maxRows :: "rat option"
  gc_maxBatches :: "rat option"
  gc_maxResponseBytes :: "rat option"
  gc_maxGeoCriteria :: "rat option"
  gc_lookupChunkSize :: "rat option"
  gc_maxRequests :: "rat option"

definition googleLimit :: "rat \<Rightarrow> string \<Rightarrow> nat res" where
  "googleLimit v field =
     (case safe_integer_of (JNum v) of
        Some n \<Rightarrow> google_guard (1 \<le> n) (field @ '' must be a positive safe integer'') (Inr (nat n))
      | None \<Rightarrow> google_error (field @ '' must be a positive safe integer''))"

definition no_limits :: configured_limits where
  "no_limits = \<lparr> gc_maxRows = None, gc_maxBatches = None, gc_maxResponseBytes = None, gc_maxGeoCriteria = None, gc_lookupChunkSize = None,
     gc_maxRequests = None \<rparr>"

definition googleLimits :: "configured_limits option \<Rightarrow> google_limits res" where
  "googleLimits configured =
     (let c = the_or no_limits configured in
      bindR (googleLimit (the_or 100000 (gc_maxRows c)) ''maxRows'') (\<lambda>rows.
      bindR (googleLimit (the_or 1000 (gc_maxBatches c)) ''maxBatches'') (\<lambda>batches.
      bindR (googleLimit (the_or 33554432 (gc_maxResponseBytes c)) ''maxResponseBytes'') (\<lambda>bytes.
      bindR (googleLimit (the_or 1000 (gc_maxGeoCriteria c)) ''maxGeoCriteria'') (\<lambda>criteria.
      bindR (googleLimit (the_or 200 (gc_lookupChunkSize c)) ''lookupChunkSize'') (\<lambda>chunk.
      bindR (googleLimit (the_or 8 (gc_maxRequests c)) ''maxRequests'') (\<lambda>requests.
      google_guard (chunk \<le> criteria) ''lookupChunkSize must not exceed maxGeoCriteria''
        (google_guard (chunk \<le> 20000) ''lookupChunkSize must not exceed the provider IN-list limit''
          (google_guard (int rows \<noteq> MAX_SAFE_INTEGER) ''maxRows must leave room for a one-row overflow sentinel''
            (Inr \<lparr> gl_maxRows = rows, gl_maxBatches = batches, gl_maxResponseBytes = bytes, gl_maxGeoCriteria = criteria,
              gl_lookupChunkSize = chunk, gl_maxRequests = requests \<rparr>))))))))))"

section \<open>Batches of results\<close>

fun stream_batches :: "string \<Rightarrow> nat \<Rightarrow> json_object list \<Rightarrow> (nat \<times> json) list \<Rightarrow> json_object list res" where
  "stream_batches label maxRows rows [] = Inr rows"
| "stream_batches label maxRows rows ((k, v) # bs) =
     bindR (googleObject (Some v) (label @ '' batch '' @ show_nat k)) (\<lambda>batch.
     case the_or (JArr []) (member batch ''results'') of
       JArr results \<Rightarrow>
         google_guard (length rows + length results \<le> maxRows) (label @ '' response exceeded the row limit'')
           (bindR (mapR (\<lambda>(i, r). googleObject (Some r) (label @ '' batch '' @ show_nat k @ '' row '' @ show_nat i)) (enumerate 0 results)) (\<lambda>more.
            stream_batches label maxRows (rows @ more) bs))
     | _ \<Rightarrow> google_error (label @ '' batch '' @ show_nat k @ '' results must be an array''))"

definition googleSearchStreamResults :: "json option \<Rightarrow> string \<Rightarrow> nat \<Rightarrow> nat \<Rightarrow> json_object list res" where
  "googleSearchStreamResults v label maxBatches maxRows =
     (case v of
        Some (JArr batches) \<Rightarrow>
          google_guard (length batches \<le> maxBatches) (label @ '' response exceeded the batch limit'')
            (stream_batches label maxRows [] (enumerate 0 batches))
      | _ \<Rightarrow> google_error (label @ '' response must be an array''))"

section \<open>Cost rows\<close>

datatype google_mode = Ad_Group_Mode | App_Mode | Campaign_Only_Mode

record google_row =
  gr_date :: string
  gr_campaignId :: string
  gr_adGroupId :: "string option"
  gr_countryCriterionId :: string
  gr_costMicros :: string
  gr_currency :: string

definition googleAppCampaignSubtypes :: "string list" where
  "googleAppCampaignSubtypes = [''APP_CAMPAIGN'', ''APP_CAMPAIGN_FOR_ENGAGEMENT'', ''APP_CAMPAIGN_FOR_PRE_REGISTRATION'']"

definition googleAdGroupCampaignTypes :: "string list" where
  "googleAdGroupCampaignTypes = [''DEMAND_GEN'', ''DISPLAY'', ''HOTEL'', ''LOCAL'', ''SEARCH'', ''SHOPPING'', ''SMART'', ''TRAVEL'', ''VIDEO'']"

definition googleCampaignOnlyTypes :: "string list" where
  "googleCampaignOnlyTypes = [''LOCAL_SERVICES'', ''PERFORMANCE_MAX'']"

text \<open>\<open>v?.name\<close>\<close>

definition chained_member :: "json option \<Rightarrow> string \<Rightarrow> json option" where
  "chained_member v name = (case v of Some (JObj ms) \<Rightarrow> member ms name | _ \<Rightarrow> None)"

definition in_partition :: "google_mode \<Rightarrow> string \<Rightarrow> string \<Rightarrow> bool" where
  "in_partition mode subtype channelType \<longleftrightarrow>
     (mode = App_Mode \<longleftrightarrow> subtype \<in> set googleAppCampaignSubtypes)
     \<and> (mode = App_Mode \<longrightarrow> channelType = ''MULTI_CHANNEL'')
     \<and> (mode = Ad_Group_Mode \<longrightarrow> channelType \<in> set googleAdGroupCampaignTypes)
     \<and> (mode = Campaign_Only_Mode \<longrightarrow> channelType \<in> set googleCampaignOnlyTypes)"

definition subtype_of :: "google_mode \<Rightarrow> json_object \<Rightarrow> json option" where
  "subtype_of mode row =
     (let v = chained_member (member row ''campaign'') ''advertisingChannelSubType'' in
      if mode \<noteq> App_Mode \<and> v = None then Some (JStr ''UNSPECIFIED'') else v)"

definition google_cost_row :: "string \<times> string \<Rightarrow> google_mode \<Rightarrow> string \<Rightarrow> nat \<times> json_object \<Rightarrow> google_row res" where
  "google_cost_row period mode expected = (\<lambda>(index, row).
     let prefix = ''cost row '' @ show_nat index in
     bindR (canonicalGoogleDay (chained_member (member row ''segments'') ''date'') (prefix @ '' segments.date'')) (\<lambda>date.
     google_guard (\<not> date < fst period \<and> \<not> snd period < date) (prefix @ '' is outside the requested range'')
     (bindR (googleSubtype (subtype_of mode row) (prefix @ '' campaign.advertisingChannelSubType'')) (\<lambda>subtype.
     bindR (googleSubtype (chained_member (member row ''campaign'') ''advertisingChannelType'') (prefix @ '' campaign.advertisingChannelType''))
       (\<lambda>channelType.
     google_guard (in_partition mode subtype channelType) (prefix @ '' did not match the requested campaign subtype partition'')
     (bindR (if mode = Ad_Group_Mode
             then bindR (googleInt64 (chained_member (member row ''adGroup'') ''id'') (prefix @ '' adGroup.id'') False) (\<lambda>i. Inr (Some i))
             else Inr None) (\<lambda>adGroupId.
     bindR (googleCurrency (chained_member (member row ''customer'') ''currencyCode'') (prefix @ '' customer.currencyCode'')) (\<lambda>currency.
     google_guard (currency = expected) (prefix @ '' account currency does not match --currency'')
     (bindR (googleText (chained_member (member row ''geographicView'') ''locationType'') (prefix @ '' geographicView.locationType'')) (\<lambda>location.
     google_guard (location = ''LOCATION_OF_PRESENCE'') (prefix @ '' location type is not LOCATION_OF_PRESENCE'')
     (bindR (googleInt64 (chained_member (member row ''campaign'') ''id'') (prefix @ '' campaign.id'') False) (\<lambda>campaignId.
     bindR (googleInt64 (chained_member (member row ''geographicView'') ''countryCriterionId'') (prefix @ '' geographicView.countryCriterionId'') False)
       (\<lambda>criterion.
     bindR (googleInt64 (chained_member (member row ''metrics'') ''costMicros'') (prefix @ '' metrics.costMicros'') True) (\<lambda>micros.
       Inr \<lparr> gr_date = date, gr_campaignId = campaignId, gr_adGroupId = adGroupId, gr_countryCriterionId = criterion,
         gr_costMicros = micros, gr_currency = currency \<rparr>))))))))))))))"

definition googleCostRows :: "json option \<Rightarrow> string \<times> string \<Rightarrow> google_limits \<Rightarrow> google_mode \<Rightarrow> string \<Rightarrow> google_row list res" where
  "googleCostRows v requested limits mode expected =
     bindR (validateGoogleRange requested) (\<lambda>period.
     bindR (googleSearchStreamResults v ''cost'' (gl_maxBatches limits) (gl_maxRows limits)) (\<lambda>rows.
       mapR (google_cost_row period mode expected) (enumerate 0 rows)))"

definition google_cost_input :: "cost_scope \<Rightarrow> (string \<times> string) list \<Rightarrow> nat \<times> google_row \<Rightarrow> cost_input res" where
  "google_cost_input scope countries = (\<lambda>(index, row).
     case map_of countries (gr_countryCriterionId row) of
       None \<Rightarrow> google_error (''cost row '' @ show_nat index @ '' has an unmapped country criterion'')
     | Some country \<Rightarrow>
         bindR (googleCountry (Some (JStr country)) (''cost row '' @ show_nat index @ '' country'')) (\<lambda>code.
           Inr \<lparr> cn_tenant_id = cs_tenant_id scope, cn_app_id = cs_app_id scope, cn_network = ''google-ads'',
             cn_campaign_id = Some (gr_campaignId row), cn_ad_group_id = gr_adGroupId row, cn_creative_id = None, cn_coverage_scope = None,
             cn_country = Some code, cn_date = gr_date row, cn_reporting_time_zone = None, cn_amount_unscaled = gr_costMicros row,
             cn_amount_scale = 6, cn_currency = gr_currency row, cn_source = ''imported_reported'', cn_as_of = cs_as_of scope \<rparr>))"

definition googleCostInputs :: "cost_scope \<Rightarrow> google_row list \<Rightarrow> (string \<times> string) list \<Rightarrow> cost_input list res" where
  "googleCostInputs scope rows countries = mapR (google_cost_input scope countries) (enumerate 0 rows)"

definition normalizeGoogleAds :: "cost_env \<Rightarrow> cost_scope \<Rightarrow> json \<Rightarrow> (string \<times> string) list \<Rightarrow> string \<times> string \<Rightarrow>
    configured_limits option \<Rightarrow> cost_input list res" where
  "normalizeGoogleAds E scope v countries requested configured =
     bindR (googleLimits configured) (\<lambda>limits.
     bindR (googleCurrency (Some (JStr (cs_currency scope))) ''configured currency'') (\<lambda>currency.
     bindR (googleObject (Some v) ''normalized cost response'') (\<lambda>response.
     bindR (googleCostRows (member response ''app'') requested limits App_Mode currency) (\<lambda>app.
     let remaining = gl_maxRows limits - length app in
     bindR (googleCostRows (member response ''adGroup'') requested (limits\<lparr>gl_maxRows := remaining\<rparr>) Ad_Group_Mode currency) (\<lambda>adGroup.
     bindR (googleCostRows (member response ''campaignOnly'') requested (limits\<lparr>gl_maxRows := remaining - length adGroup\<rparr>) Campaign_Only_Mode currency)
       (\<lambda>campaignOnly.
     bindR (googleCostInputs scope (app @ adGroup @ campaignOnly) countries) (prepareCostImportRows E)))))))"

section \<open>The selection of a detailed report\<close>

record cost_selection =
  sl_campaign_id :: string
  sl_ad_group_id :: string
  sl_provider_ad_id :: "string option"
  sl_creative_id :: "string option"

text \<open>Grain and country scope keep the form they came in: only their \<open>String\<close> is compared with the known words.\<close>

record cost_detail =
  dt_grain :: json
  dt_country_scope :: json
  dt_selections :: "cost_selection list"

definition member_names :: "json_object \<Rightarrow> string" where
  "member_names ms = join '','' (sort (map fst ms))"

definition one_of_words :: "string list \<Rightarrow> json option \<Rightarrow> bool" where
  "one_of_words allowed v \<longleftrightarrow> (case v of Some j \<Rightarrow> (case js_text j of Some s \<Rightarrow> s \<in> set allowed | None \<Rightarrow> False) | None \<Rightarrow> False)"

definition provider_id :: "json option \<Rightarrow> string res" where
  "provider_id v =
     (case v of
        Some (JStr s) \<Rightarrow> guardR (positive_digits s \<and> length s \<le> 19 \<and> int64_text s) ''cost_detail_provider_id_invalid'' (Inr s)
      | _ \<Rightarrow> throw ''cost_detail_provider_id_invalid'')"

definition selection_key :: "cost_selection \<Rightarrow> string" where
  "selection_key s = compositeKey [Some (sl_campaign_id s), Some (sl_ad_group_id s), sl_provider_ad_id s]"

definition creative_key :: "cost_selection \<Rightarrow> string" where
  "creative_key s = compositeKey [Some (sl_campaign_id s), Some (sl_ad_group_id s), sl_creative_id s]"

definition parse_selection :: "bool \<Rightarrow> json \<Rightarrow> string list \<Rightarrow> string list \<Rightarrow> cost_selection res" where
  "parse_selection ad item seen bound =
     (case item of
        JObj row \<Rightarrow>
          guardR (member_names row = (if ad then ''ad_group_id,campaign_id,creative_id,provider_ad_id'' else ''ad_group_id,campaign_id''))
            ''cost_detail_mapping_invalid''
            (bindR (provider_id (member row ''campaign_id'')) (\<lambda>campaign.
             bindR (provider_id (member row ''ad_group_id'')) (\<lambda>adGroup.
             bindR (if ad then bindR (provider_id (member row ''provider_ad_id'')) (\<lambda>i. Inr (Some i)) else Inr None) (\<lambda>providerAd.
             guardR (compositeKey [Some campaign, Some adGroup, providerAd] \<notin> set seen) ''cost_detail_duplicate_provider_key''
               (if \<not> ad then Inr \<lparr> sl_campaign_id = campaign, sl_ad_group_id = adGroup, sl_provider_ad_id = None, sl_creative_id = None \<rparr>
                else case member row ''creative_id'' of
                  Some (JStr creative) \<Rightarrow>
                    guardR (identifier_ok creative) ''cost_detail_creative_binding_required''
                      (guardR (compositeKey [Some campaign, Some adGroup, Some creative] \<notin> set bound) ''cost_detail_ambiguous_creative_binding''
                        (Inr \<lparr> sl_campaign_id = campaign, sl_ad_group_id = adGroup, sl_provider_ad_id = providerAd, sl_creative_id = Some creative \<rparr>))
                | _ \<Rightarrow> throw ''cost_detail_creative_binding_required'')))))
      | _ \<Rightarrow> throw ''cost_detail_mapping_invalid'')"

fun parse_selections :: "bool \<Rightarrow> json list \<Rightarrow> string list \<Rightarrow> string list \<Rightarrow> cost_selection list res" where
  "parse_selections ad [] seen bound = Inr []"
| "parse_selections ad (item # items) seen bound =
     bindR (parse_selection ad item seen bound) (\<lambda>s.
     bindR (parse_selections ad items (seen @ [selection_key s]) (if ad then bound @ [creative_key s] else bound)) (\<lambda>ss. Inr (s # ss)))"

text \<open>\<open>JSON.stringify\<close> of a selection.\<close>

definition text_member_of :: "string \<Rightarrow> string option \<Rightarrow> string list" where
  "text_member_of name v = (case v of None \<Rightarrow> [] | Some s \<Rightarrow> [json_string name @ '':'' @ json_string s])"

definition selection_text :: "cost_selection \<Rightarrow> string" where
  "selection_text s = ''{'' @ join '','' (text_member_of ''campaign_id'' (Some (sl_campaign_id s)) @ text_member_of ''ad_group_id'' (Some (sl_ad_group_id s))
     @ text_member_of ''provider_ad_id'' (sl_provider_ad_id s) @ text_member_of ''creative_id'' (sl_creative_id s)) @ ''}''"

definition normalizeGoogleCostDetail :: "json \<Rightarrow> cost_detail res" where
  "normalizeGoogleCostDetail v =
     (case v of
        JObj input \<Rightarrow>
          (let grain = member input ''grain''; scope = member input ''country_scope''; ad = (grain = Some (JStr ''ad'')) in
           guardR (member_names input = ''country_scope,coverage,grain,selections,version''
               \<and> member input ''version'' = Some (JNum 1) \<and> one_of_words [''ad_group'', ''ad''] grain
               \<and> member input ''coverage'' = Some (JStr ''explicit_selection'') \<and> one_of_words [''all'', ''geo_country''] scope) ''cost_detail_unsupported''
             (guardR (\<not> (ad \<and> scope \<noteq> Some (JStr ''all''))) ''cost_detail_country_grain_unsupported''
               (case member input ''selections'' of
                  Some (JArr items) \<Rightarrow>
                    guardR (1 \<le> length items \<and> length items \<le> 100) ''cost_detail_selection_limit''
                      (bindR (parse_selections ad items [] []) (\<lambda>ss.
                        Inr \<lparr> dt_grain = the_or JNull grain, dt_country_scope = the_or JNull scope, dt_selections = sort_key selection_text ss \<rparr>))
                | _ \<Rightarrow> throw ''cost_detail_selection_limit'')))
      | _ \<Rightarrow> throw ''cost_detail_invalid'')"

end
