(* ===== verification/Google_Ads.thy ===== *)
theory Google_Ads
  imports Google_Costs
begin

text \<open>
  \<open>apps/worker/src/import/adapters.ts\<close>, the requests of the Google Ads part: the budget of requests and bytes of
  one fetch, the lookup of country criteria, the three cost queries and the detailed report. The network is a
  function from the ordinal of a request to an answer; decoding of UTF-8, \<open>JSON.parse\<close> and the secrets are
  arguments. The code counts its requests; the model keeps them.
\<close>

section \<open>Requests within a budget\<close>

record google_request =
  gq_url :: string
  gq_headers :: "(string \<times> string) list"
  gq_body :: string

datatype body_chunk = Chunk string | Unreadable

text \<open>A status, the declared length and the chunks of the body.\<close>

datatype google_answer = Unreachable | Answer nat "string option" "body_chunk list option"

record google_env =
  ga_answer :: "nat \<Rightarrow> google_request \<Rightarrow> google_answer"
  ga_decode :: "string \<Rightarrow> string option"
  ga_parse :: "string \<Rightarrow> json option"
  ga_secret :: "string \<Rightarrow> string res"

record google_context =
  gx_url :: string
  gx_headers :: "(string \<times> string) list"
  gx_limits :: google_limits
  gx_sent :: "google_request list"
  gx_responseBytes :: nat

type_synonym 'a google = "google_context \<Rightarrow> google_context \<times> 'a res"

definition bindG :: "'a google \<Rightarrow> ('a \<Rightarrow> 'b google) \<Rightarrow> 'b google" where
  "bindG m k = (\<lambda>cx. case m cx of (c, Inl e) \<Rightarrow> (c, Inl e) | (c, Inr x) \<Rightarrow> k x c)"

definition liftG :: "'a res \<Rightarrow> 'a google" where
  "liftG r = (\<lambda>cx. (cx, r))"

text \<open>The bytes that were read so far, and the body.\<close>

fun read_chunks :: "string \<Rightarrow> nat \<Rightarrow> body_chunk list \<Rightarrow> string \<Rightarrow> nat \<Rightarrow> nat \<times> string res" where
  "read_chunks label maxBytes [] body used = (used, Inr body)"
| "read_chunks label maxBytes (Unreadable # cs) body used = (used, google_error (label @ '' response body could not be read''))"
| "read_chunks label maxBytes (Chunk c # cs) body used =
     (if maxBytes < used + length c then (used + length c, google_error (label @ '' response exceeded the byte limit''))
      else read_chunks label maxBytes cs (body @ c) (used + length c))"

definition declared_too_long :: "string option \<Rightarrow> nat \<Rightarrow> bool" where
  "declared_too_long contentLength remaining \<longleftrightarrow>
     (case contentLength of Some s \<Rightarrow> all_digits s \<and> remaining < the_or 0 (dec_value s) | None \<Rightarrow> False)"

definition boundedGoogleJson :: "google_env \<Rightarrow> string option \<Rightarrow> body_chunk list option \<Rightarrow> string \<Rightarrow> json google" where
  "boundedGoogleJson G contentLength body label = (\<lambda>cx.
     if declared_too_long contentLength (gl_maxResponseBytes (gx_limits cx) - gx_responseBytes cx)
     then (cx, google_error (label @ '' response exceeded the byte limit''))
     else case body of
       None \<Rightarrow> (cx, google_error (label @ '' response body is required''))
     | Some chunks \<Rightarrow>
         (case read_chunks label (gl_maxResponseBytes (gx_limits cx)) chunks [] (gx_responseBytes cx) of
            (used, bytes) \<Rightarrow>
              (cx\<lparr>gx_responseBytes := used\<rparr>,
               bindR bytes (\<lambda>b. case ga_decode G b of
                   None \<Rightarrow> google_error (label @ '' response was not valid UTF-8'')
                 | Some text \<Rightarrow> (case ga_parse G text of
                       None \<Rightarrow> google_error (label @ '' response was not valid JSON'')
                     | Some v \<Rightarrow> Inr v)))))"

definition google_request_of :: "google_context \<Rightarrow> string \<Rightarrow> google_request" where
  "google_request_of cx query = \<lparr> gq_url = gx_url cx, gq_headers = gx_headers cx, gq_body = ''{'' @ json_string ''query'' @ '':'' @ json_string query @ ''}'' \<rparr>"

definition googleSearchStream :: "google_env \<Rightarrow> string \<Rightarrow> string \<Rightarrow> json google" where
  "googleSearchStream G query label = (\<lambda>cx.
     if gl_maxRequests (gx_limits cx) \<le> length (gx_sent cx) then (cx, google_error ''request limit exceeded'')
     else
       let request = google_request_of cx query; c = cx\<lparr>gx_sent := gx_sent cx @ [request]\<rparr> in
       case ga_answer G (length (gx_sent cx)) request of
         Unreachable \<Rightarrow> (c, google_error (label @ '' request failed''))
       | Answer status contentLength body \<Rightarrow>
           if 200 \<le> status \<and> status < 300 then boundedGoogleJson G contentLength body label c
           else (c, google_error (label @ '' request failed with '' @ show_nat status)))"

section \<open>Countries\<close>

definition add_country :: "string list \<Rightarrow> (string \<times> string) list \<Rightarrow> nat \<times> json_object \<Rightarrow> (string \<times> string) list res" where
  "add_country expected countries = (\<lambda>(index, row).
     let prefix = ''geo lookup row '' @ show_nat index; target = member row ''geoTargetConstant'' in
     bindR (googleInt64 (chained_member target ''id'') (prefix @ '' geoTargetConstant.id'') False) (\<lambda>i.
     google_guard (i \<in> set expected) (prefix @ '' returned an unexpected criterion'')
       (google_guard (map_of countries i = None) (prefix @ '' returned an ambiguous criterion'')
         (bindR (googleCountry (chained_member target ''countryCode'') (prefix @ '' geoTargetConstant.countryCode'')) (\<lambda>code.
           Inr (countries @ [(i, code)]))))))"

definition geo_query :: "string list \<Rightarrow> string" where
  "geo_query chunk = ''SELECT geo_target_constant.id, geo_target_constant.country_code ''
     @ ''FROM geo_target_constant WHERE geo_target_constant.id IN ('' @ join '', '' chunk @ '') '' @ ''LIMIT '' @ show_nat (length chunk + 1)"

definition lookup_chunk :: "google_env \<Rightarrow> string list \<Rightarrow> (string \<times> string) list \<Rightarrow> (string \<times> string) list google" where
  "lookup_chunk G chunk countries =
     bindG (googleSearchStream G (geo_query chunk) ''geo lookup'') (\<lambda>response cx.
       (cx, bindR (googleSearchStreamResults (Some response) ''geo lookup'' (gl_maxBatches (gx_limits cx)) (length chunk)) (\<lambda>results.
              foldR (add_country chunk) countries (enumerate 0 results))))"

text \<open>The chunk size is positive in every context; a loop over chunks of size zero is not entered.\<close>

function lookup_chunks :: "google_env \<Rightarrow> nat \<Rightarrow> string list \<Rightarrow> (string \<times> string) list \<Rightarrow> (string \<times> string) list google" where
  "lookup_chunks G width ids countries =
     (if ids = [] \<or> width = 0 then liftG (Inr countries)
      else bindG (lookup_chunk G (take width ids) countries) (lookup_chunks G width (drop width ids)))"
  by pat_completeness auto
termination by (relation "measure (\<lambda>(G, width, ids, c). length ids)") auto

declare lookup_chunks.simps [simp del]

definition requests_needed :: "nat \<Rightarrow> nat \<Rightarrow> nat" where
  "requests_needed n width = (n + width - 1) div width"

definition resolveGoogleCountries :: "google_env \<Rightarrow> string list \<Rightarrow> (string \<times> string) list google" where
  "resolveGoogleCountries G ids = (\<lambda>cx.
     if gl_maxGeoCriteria (gx_limits cx) < length ids then (cx, google_error ''cost response exceeded the country-criterion limit'')
     else if gl_maxRequests (gx_limits cx) < length (gx_sent cx) + requests_needed (length ids) (gl_lookupChunkSize (gx_limits cx))
     then (cx, google_error ''request limit exceeded'')
     else bindG (lookup_chunks G (gl_lookupChunkSize (gx_limits cx)) ids []) (\<lambda>countries.
       liftG (google_guard (list_all (\<lambda>i. map_of countries i \<noteq> None) ids) ''geo lookup did not resolve every country criterion'' (Inr countries))) cx)"

section \<open>The three cost queries\<close>

definition quoted :: "string list \<Rightarrow> string" where
  "quoted xs = join '', '' (map (\<lambda>x. [CHR 0x27] @ x @ [CHR 0x27]) xs)"

definition shared_fields :: string where
  "shared_fields = ''customer.currency_code, segments.date, campaign.id, campaign.advertising_channel_type, '' @ ''campaign.advertising_channel_sub_type, ''"

definition between_days :: "string \<times> string \<Rightarrow> string" where
  "between_days period = ''BETWEEN '' @ quoted [fst period] @ '' AND '' @ quoted [snd period]"

definition shared_tail :: "string \<times> string \<Rightarrow> string" where
  "shared_tail period = ''geographic_view.country_criterion_id, geographic_view.location_type, metrics.cost_micros ''
     @ ''FROM geographic_view '' @ ''WHERE geographic_view.location_type = '' @ quoted [''LOCATION_OF_PRESENCE''] @ '' ''
     @ ''AND segments.date '' @ between_days period @ '' ''"

definition app_query :: "string \<times> string \<Rightarrow> nat \<Rightarrow> string" where
  "app_query period maxRows = ''SELECT '' @ shared_fields @ shared_tail period
     @ ''AND campaign.advertising_channel_sub_type IN ('' @ quoted googleAppCampaignSubtypes @ '') '' @ ''LIMIT '' @ show_nat (maxRows + 1)"

definition ad_group_query :: "string \<times> string \<Rightarrow> nat \<Rightarrow> string" where
  "ad_group_query period maxRows = ''SELECT '' @ shared_fields @ ''ad_group.id, '' @ shared_tail period
     @ ''AND campaign.advertising_channel_type IN ('' @ quoted googleAdGroupCampaignTypes @ '') ''
     @ ''AND campaign.advertising_channel_sub_type NOT IN ('' @ quoted googleAppCampaignSubtypes @ '') '' @ ''LIMIT '' @ show_nat (maxRows + 1)"

definition campaign_only_query :: "string \<times> string \<Rightarrow> nat \<Rightarrow> string" where
  "campaign_only_query period maxRows = ''SELECT '' @ shared_fields @ shared_tail period
     @ ''AND campaign.advertising_channel_type NOT IN ('' @ quoted googleAdGroupCampaignTypes @ '') ''
     @ ''AND campaign.advertising_channel_sub_type NOT IN ('' @ quoted googleAppCampaignSubtypes @ '') '' @ ''LIMIT '' @ show_nat (maxRows + 1)"

definition distinct_sorted :: "string list \<Rightarrow> string list" where
  "distinct_sorted xs = sort (remdups xs)"

definition fetch_partition :: "google_env \<Rightarrow> string \<Rightarrow> string \<Rightarrow> string \<times> string \<Rightarrow> google_limits \<Rightarrow> google_mode \<Rightarrow> string \<Rightarrow> google_row list google" where
  "fetch_partition G query label period limits mode currency =
     bindG (googleSearchStream G query label) (\<lambda>response. liftG (googleCostRows (Some response) period limits mode currency))"

definition fetch_costs :: "cost_env \<Rightarrow> google_env \<Rightarrow> cost_scope \<Rightarrow> string \<times> string \<Rightarrow> google_limits \<Rightarrow> cost_input list google" where
  "fetch_costs E G scope period limits =
     bindG (fetch_partition G (app_query period (gl_maxRows limits)) ''App cost'' period limits App_Mode (cs_currency scope)) (\<lambda>app.
     let remaining = gl_maxRows limits - length app in
     bindG (fetch_partition G (ad_group_query period remaining) ''ad-group cost'' period (limits\<lparr>gl_maxRows := remaining\<rparr>) Ad_Group_Mode (cs_currency scope))
       (\<lambda>adGroup.
     let remaining_rows = remaining - length adGroup in
     bindG (fetch_partition G (campaign_only_query period remaining_rows) ''campaign-only cost'' period (limits\<lparr>gl_maxRows := remaining_rows\<rparr>)
         Campaign_Only_Mode (cs_currency scope)) (\<lambda>campaignOnly.
     let rows = app @ adGroup @ campaignOnly in
     bindG (resolveGoogleCountries G (distinct_sorted (map gr_countryCriterionId rows))) (\<lambda>countries.
       liftG (bindR (googleCostInputs scope rows countries) (prepareCostImportRows E))))))"

section \<open>The detailed report\<close>

definition json_true :: "json option \<Rightarrow> bool" where
  "json_true v \<longleftrightarrow> (case v of None \<Rightarrow> False | Some JNull \<Rightarrow> False | Some (JBool b) \<Rightarrow> b | Some (JNum q) \<Rightarrow> q \<noteq> 0 | Some (JStr s) \<Rightarrow> s \<noteq> [] | Some j \<Rightarrow> True)"

definition batch_incomplete :: "json \<Rightarrow> bool" where
  "batch_incomplete b \<longleftrightarrow> json_true (chained_member (Some b) ''error'') \<or> json_true (chained_member (Some b) ''nextPageToken'')
     \<or> json_true (chained_member (Some b) ''next_page_token'')"

definition selected_ids :: "cost_detail \<Rightarrow> (cost_selection \<Rightarrow> string) \<Rightarrow> string" where
  "selected_ids d f = join '','' (distinct_sorted (map f (dt_selections d)))"

definition is_ad :: "cost_detail \<Rightarrow> bool" where
  "is_ad d \<longleftrightarrow> dt_grain d = JStr ''ad''"

definition is_geo :: "cost_detail \<Rightarrow> bool" where
  "is_geo d \<longleftrightarrow> dt_country_scope d = JStr ''geo_country''"

definition detail_query :: "cost_detail \<Rightarrow> string \<times> string \<Rightarrow> nat \<Rightarrow> string" where
  "detail_query d period maxRows =
     ''SELECT customer.currency_code,segments.date,campaign.id,ad_group.id,metrics.cost_micros''
     @ (if is_ad d then '',ad_group_ad.ad.id'' else []) @ (if is_geo d then '',segments.geo_target_country'' else [])
     @ '' FROM '' @ (if is_ad d then ''ad_group_ad'' else ''ad_group'') @ '' WHERE segments.date '' @ between_days period
     @ '' AND campaign.id IN ('' @ selected_ids d sl_campaign_id @ '') AND ad_group.id IN ('' @ selected_ids d sl_ad_group_id @ '')''
     @ (if is_ad d then '' AND ad_group_ad.ad.id IN ('' @ selected_ids d (\<lambda>s. the_or [] (sl_provider_ad_id s)) @ '')'' else [])
     @ '' LIMIT '' @ show_nat (maxRows + 1)"

record detail_row =
  dr_day :: string
  dr_campaignId :: string
  dr_adGroupId :: string
  dr_countryId :: "string option"
  dr_creativeId :: "string option"
  dr_amount :: string
  dr_currency :: string

text \<open>\<open>/^geoTargetConstants\/([1-9]\d*)$/\<close> on the \<open>String\<close> of a member.\<close>

definition geo_constant :: "json option \<Rightarrow> string option" where
  "geo_constant v =
     (case v of
        None \<Rightarrow> None
      | Some j \<Rightarrow> (case js_text j of
          None \<Rightarrow> None
        | Some s \<Rightarrow>
            if starts_with s ''geoTargetConstants/'' \<and> positive_digits (drop 19 s) then Some (drop 19 s) else None))"

definition bindings_of :: "cost_detail \<Rightarrow> (string, cost_selection) jsmap" where
  "bindings_of d = map_from (map (\<lambda>s. (selection_key s, s)) (dt_selections d))"

definition detail_country :: "cost_detail \<Rightarrow> nat \<Rightarrow> json_object \<Rightarrow> string option res" where
  "detail_country d index row =
     (let country = chained_member (member row ''segments'') ''geoTargetCountry'' in
      if is_geo d then
        (case geo_constant country of
           None \<Rightarrow> google_error ''detail country criterion is invalid''
         | Some i \<Rightarrow> bindR (googleInt64 (Some (JStr i)) (''detail row '' @ show_nat index @ '' country criterion'') False) (\<lambda>i. Inr (Some i)))
      else google_guard (country = None \<and> member row ''geographicView'' = None) ''all-country detail unexpectedly contains a geographic slice'' (Inr None))"

definition detail_row_of :: "cost_detail \<Rightarrow> cost_scope \<Rightarrow> string \<times> string \<Rightarrow> string list \<Rightarrow> nat \<times> json_object \<Rightarrow> (string \<times> detail_row) res" where
  "detail_row_of d scope period seen = (\<lambda>(index, row).
     let prefix = ''detail row '' @ show_nat index in
     bindR (googleInt64 (chained_member (member row ''campaign'') ''id'') (prefix @ '' campaign.id'') False) (\<lambda>campaignId.
     bindR (googleInt64 (chained_member (member row ''adGroup'') ''id'') (prefix @ '' adGroup.id'') False) (\<lambda>adGroupId.
     bindR (if is_ad d
            then bindR (googleInt64 (chained_member (chained_member (member row ''adGroupAd'') ''ad'') ''id'') (prefix @ '' adGroupAd.ad.id'') False) (\<lambda>i. Inr (Some i))
            else Inr None) (\<lambda>adId.
     case map_get (bindings_of d) (compositeKey [Some campaignId, Some adGroupId, adId]) of
       None \<Rightarrow> google_error ''detail row has no explicit selected mapping''
     | Some binding \<Rightarrow>
         bindR (canonicalGoogleDay (chained_member (member row ''segments'') ''date'') (prefix @ '' date'')) (\<lambda>day.
         google_guard (\<not> day < fst period \<and> \<not> snd period < day) ''detail row is outside the requested range''
         (bindR (googleCurrency (chained_member (member row ''customer'') ''currencyCode'') (prefix @ '' currency'')) (\<lambda>currency.
         google_guard (currency = cs_currency scope) ''detail currency does not match configured currency''
         (bindR (detail_country d index row) (\<lambda>countryId.
         let key = compositeKey [Some day, Some campaignId, Some adGroupId, adId, countryId] in
         google_guard (key \<notin> set seen) ''detail response contains a duplicate selected key''
           (bindR (googleInt64 (chained_member (member row ''metrics'') ''costMicros'') (prefix @ '' costMicros'') True) (\<lambda>amount.
             Inr (key, \<lparr> dr_day = day, dr_campaignId = campaignId, dr_adGroupId = adGroupId, dr_countryId = countryId,
               dr_creativeId = sl_creative_id binding, dr_amount = amount, dr_currency = currency \<rparr>)))))))))))) "

fun detail_rows :: "cost_detail \<Rightarrow> cost_scope \<Rightarrow> string \<times> string \<Rightarrow> string list \<Rightarrow> (nat \<times> json_object) list \<Rightarrow> detail_row list res" where
  "detail_rows d scope period seen [] = Inr []"
| "detail_rows d scope period seen (r # rs) =
     bindR (detail_row_of d scope period seen r) (\<lambda>(key, row).
     bindR (detail_rows d scope period (seen @ [key]) rs) (\<lambda>rows. Inr (row # rows)))"

definition detail_input :: "cost_scope \<Rightarrow> (string \<times> string) list \<Rightarrow> detail_row \<Rightarrow> cost_input res" where
  "detail_input scope countries row =
     bindR (if truthy (dr_countryId row)
            then bindR (googleCountry (map_option JStr (map_of countries (the_or [] (dr_countryId row)))) ''selected detail resolved country'') (\<lambda>c. Inr (Some c))
            else Inr None) (\<lambda>country.
       Inr \<lparr> cn_tenant_id = cs_tenant_id scope, cn_app_id = cs_app_id scope, cn_network = ''google-ads'',
         cn_campaign_id = Some (dr_campaignId row), cn_ad_group_id = Some (dr_adGroupId row),
         cn_creative_id = (if truthy (dr_creativeId row) then dr_creativeId row else None), cn_coverage_scope = Some ''matching_detail_only'',
         cn_country = country, cn_date = dr_day row, cn_reporting_time_zone = None, cn_amount_unscaled = dr_amount row, cn_amount_scale = 6,
         cn_currency = dr_currency row, cn_source = ''imported_reported'', cn_as_of = cs_as_of scope \<rparr>)"

definition complete_response :: "json \<Rightarrow> bool" where
  "complete_response v \<longleftrightarrow> (case v of JArr bs \<Rightarrow> \<not> list_ex batch_incomplete bs | _ \<Rightarrow> False)"

definition fetchSelectedGoogleDetails :: "cost_env \<Rightarrow> google_env \<Rightarrow> cost_scope \<Rightarrow> string \<times> string \<Rightarrow> cost_detail \<Rightarrow> cost_input list google" where
  "fetchSelectedGoogleDetails E G scope period d = (\<lambda>cx.
     let limits = gx_limits cx in
     bindG (googleSearchStream G (detail_query d period (gl_maxRows limits)) ''selected detail cost'') (\<lambda>response.
     bindG (liftG (google_guard (complete_response response) ''detail acquisition was incomplete''
         (bindR (googleSearchStreamResults (Some response) ''selected detail cost'' (gl_maxBatches limits) (gl_maxRows limits)) (\<lambda>results.
           detail_rows d scope period [] (enumerate 0 results))))) (\<lambda>rows.
     bindG (resolveGoogleCountries G (distinct_sorted (List.map_filter dr_countryId rows))) (\<lambda>countries.
       liftG (bindR (mapR (detail_input scope countries) rows) (prepareCostImportRows E))))) cx)"

section \<open>A fetch\<close>

record google_options =
  go_customerId :: string
  go_loginCustomerId :: "string option"
  go_apiVersion :: "string option"
  go_scope :: cost_scope
  go_since :: string
  go_until :: string
  go_limits :: "configured_limits option"
  go_detail :: "json option"

definition googleCustomer :: "string \<Rightarrow> string \<Rightarrow> string res" where
  "googleCustomer s field = googleCustomerId (Some (JStr s)) field"

text \<open>What is settled before the first request.\<close>

definition google_plan :: "google_env \<Rightarrow> google_options \<Rightarrow> ((string \<times> string) \<times> cost_detail option \<times> google_context) res" where
  "google_plan G opts =
     bindR (validateGoogleRange (go_since opts, go_until opts)) (\<lambda>period.
     bindR (googleCustomer (go_customerId opts) ''customerId'') (\<lambda>customer.
     bindR (case go_loginCustomerId opts of None \<Rightarrow> Inr None | Some s \<Rightarrow> bindR (googleCustomer s ''loginCustomerId'') (\<lambda>c. Inr (Some c))) (\<lambda>login.
     let version = the_or ''v25'' (go_apiVersion opts) in
     google_guard (version = ''v25'') ''apiVersion must be v25 for this campaign partition''
     (bindR (googleCurrency (Some (JStr (cs_currency (go_scope opts)))) ''configured currency'') (\<lambda>currency.
     bindR (googleLimits (go_limits opts)) (\<lambda>limits.
     bindR (case go_detail opts of None \<Rightarrow> Inr None | Some v \<Rightarrow> bindR (normalizeGoogleCostDetail v) (\<lambda>d. Inr (Some d))) (\<lambda>detail.
     bindR (ga_secret G ''OPENMASU_GOOGLE_ADS_ACCESS_TOKEN'') (\<lambda>token.
     bindR (ga_secret G ''OPENMASU_GOOGLE_ADS_DEVELOPER_TOKEN'') (\<lambda>developer.
       Inr (period, detail,
         \<lparr> gx_url = ''https://googleads.googleapis.com/'' @ version @ ''/customers/'' @ customer @ ''/googleAds:searchStream'',
           gx_headers = [(''authorization'', ''Bearer '' @ token), (''developer-token'', developer), (''content-type'', ''application/json'')]
             @ (case login of None \<Rightarrow> [] | Some c \<Rightarrow> [(''login-customer-id'', c)]),
           gx_limits = limits, gx_sent = [], gx_responseBytes = 0 \<rparr>))))))))))"

definition fetchGoogleAds :: "cost_env \<Rightarrow> google_env \<Rightarrow> google_options \<Rightarrow> (google_context option) \<times> cost_input list res" where
  "fetchGoogleAds E G opts =
     (case google_plan G opts of
        Inl e \<Rightarrow> (None, Inl e)
      | Inr (period, detail, cx) \<Rightarrow>
          (case (case detail of
                   Some d \<Rightarrow> fetchSelectedGoogleDetails E G (go_scope opts) period d
                 | None \<Rightarrow> fetch_costs E G (go_scope opts) period (gx_limits cx)) cx of
             (c, result) \<Rightarrow> (Some c, result)))"


section \<open>Budgets\<close>

text \<open>What a step may do to the context: send requests within the limit, and, when it succeeds, read bytes within theirs.\<close>

definition spends :: "google_context \<Rightarrow> google_context \<Rightarrow> bool \<Rightarrow> bool" where
  "spends cx c ok \<longleftrightarrow>
     gx_url c = gx_url cx \<and> gx_headers c = gx_headers cx \<and> gx_limits c = gx_limits cx
     \<and> (\<exists>more. gx_sent c = gx_sent cx @ more \<and> list_all (\<lambda>q. gq_url q = gx_url cx \<and> gq_headers q = gx_headers cx) more)
     \<and> (length (gx_sent cx) \<le> gl_maxRequests (gx_limits cx) \<longrightarrow> length (gx_sent c) \<le> gl_maxRequests (gx_limits cx))
     \<and> (ok \<and> gx_responseBytes cx \<le> gl_maxResponseBytes (gx_limits cx) \<longrightarrow> gx_responseBytes c \<le> gl_maxResponseBytes (gx_limits cx))"

definition budgeted :: "'a google \<Rightarrow> bool" where
  "budgeted m \<longleftrightarrow> (\<forall>cx. spends cx (fst (m cx)) (\<not> isl (snd (m cx))))"

lemma spends_refl [simp]: "spends cx cx ok"
  by (auto simp: spends_def)

lemma spends_trans: "spends a b True \<Longrightarrow> spends b c ok \<Longrightarrow> spends a c ok"
  unfolding spends_def by auto

lemma spends_weaken: "spends a b ok \<Longrightarrow> spends a b False"
  by (auto simp: spends_def)

lemma budgeted_lift [intro!, simp]: "budgeted (liftG r)"
  by (simp add: budgeted_def liftG_def)

lemma budgeted_read [intro!, simp]: "budgeted (\<lambda>cx. (cx, f cx))"
  by (simp add: budgeted_def)

lemma budgeted_bind [intro]:
  assumes "budgeted m" "\<And>x. budgeted (k x)"
  shows "budgeted (bindG m k)"
  unfolding budgeted_def
proof
  fix cx
  obtain c r where m: "m cx = (c, r)" by fastforce
  have first: "spends cx c (\<not> isl r)" using assms(1) m unfolding budgeted_def by (metis fst_conv snd_conv)
  show "spends cx (fst (bindG m k cx)) (\<not> isl (snd (bindG m k cx)))"
  proof (cases r)
    case (Inl e)
    with first m show ?thesis by (simp add: bindG_def)
  next
    case (Inr x)
    have "spends c (fst (k x c)) (\<not> isl (snd (k x c)))" using assms(2) unfolding budgeted_def by blast
    with first m Inr show ?thesis by (auto simp: bindG_def intro: spends_trans)
  qed
qed

lemma read_chunks_bound: "used \<le> n \<Longrightarrow> read_chunks label n cs body used = (u, Inr b) \<Longrightarrow> u \<le> n"
  by (induction label n cs body used rule: read_chunks.induct) (auto simp: google_error_def split: if_splits)

lemma bounded_spends: "spends cx (fst (boundedGoogleJson G len body label cx)) (\<not> isl (snd (boundedGoogleJson G len body label cx)))"
proof (cases "declared_too_long len (gl_maxResponseBytes (gx_limits cx) - gx_responseBytes cx) \<or> body = None")
  case False
  then obtain chunks where body: "body = Some chunks" by auto
  obtain used bytes where r: "read_chunks label (gl_maxResponseBytes (gx_limits cx)) chunks [] (gx_responseBytes cx) = (used, bytes)"
    by fastforce
  then show ?thesis using False body
    by (cases bytes) (auto simp: boundedGoogleJson_def spends_def dest: read_chunks_bound)
qed (auto simp: boundedGoogleJson_def)

lemma spends_send:
  "length (gx_sent cx) < gl_maxRequests (gx_limits cx) \<Longrightarrow> spends cx (cx\<lparr>gx_sent := gx_sent cx @ [google_request_of cx query]\<rparr>) ok"
  by (auto simp: spends_def google_request_of_def)

lemma budgeted_stream [intro!, simp]: "budgeted (googleSearchStream G query label)"
  unfolding budgeted_def
proof
  fix cx
  let ?c = "cx\<lparr>gx_sent := gx_sent cx @ [google_request_of cx query]\<rparr>"
  show "spends cx (fst (googleSearchStream G query label cx)) (\<not> isl (snd (googleSearchStream G query label cx)))"
  proof (cases "gl_maxRequests (gx_limits cx) \<le> length (gx_sent cx)")
    case False
    then have send: "spends cx ?c ok" for ok by (intro spends_send) simp
    show ?thesis using False send spends_trans [OF send bounded_spends]
      by (auto simp: googleSearchStream_def Let_def split: google_answer.splits)
  qed (simp add: googleSearchStream_def)
qed

lemma budgeted_lookup [intro!, simp]: "budgeted (lookup_chunk G chunk countries)"
  unfolding lookup_chunk_def by (intro budgeted_bind budgeted_stream budgeted_read)

lemma budgeted_chunks [intro!, simp]: "budgeted (lookup_chunks G width ids countries)"
proof (induction G width ids countries rule: lookup_chunks.induct)
  case (1 G width ids countries)
  show ?case
  proof (cases "ids = [] \<or> width = 0")
    case False
    with 1 show ?thesis by (subst lookup_chunks.simps) auto
  qed (simp add: lookup_chunks.simps)
qed

lemma budgeted_resolve [intro!, simp]: "budgeted (resolveGoogleCountries G ids)"
proof -
  have "budgeted (bindG (lookup_chunks G width ids []) (\<lambda>countries. liftG (f countries)))" for width f
    by (intro budgeted_bind budgeted_chunks budgeted_lift)
  note r = this [unfolded budgeted_def, rule_format]
  show ?thesis unfolding budgeted_def resolveGoogleCountries_def by (simp add: r del: not_None_eq split: if_split)
qed

lemma budgeted_partition [intro!, simp]: "budgeted (fetch_partition G query label period limits mode currency)"
  unfolding fetch_partition_def by (intro budgeted_bind budgeted_stream budgeted_lift)

lemma budgeted_costs: "budgeted (fetch_costs E G scope period limits)"
  unfolding fetch_costs_def Let_def
  by (rule budgeted_bind, rule budgeted_partition)+ (rule budgeted_bind, rule budgeted_resolve, rule budgeted_lift)

lemma budgeted_details: "budgeted (fetchSelectedGoogleDetails E G scope period d)"
proof -
  have read: "budgeted (\<lambda>cx. f cx cx)" if "\<And>cx. budgeted (f cx)" for f :: "google_context \<Rightarrow> cost_input list google"
    using that unfolding budgeted_def by blast
  show ?thesis unfolding fetchSelectedGoogleDetails_def Let_def
    by (rule read, rule budgeted_bind, rule budgeted_stream, rule budgeted_bind, rule budgeted_lift, rule budgeted_bind, rule budgeted_resolve,
        rule budgeted_lift)
qed

lemma google_guard_Inr [result_simps]: "google_guard b message k = Inr y \<longleftrightarrow> b \<and> k = Inr y"
  by (simp add: google_guard_def google_error_def)

lemma google_guardE: "google_guard b message k = Inr y \<Longrightarrow> (b \<Longrightarrow> k = Inr y \<Longrightarrow> P) \<Longrightarrow> P"
  by (simp add: google_guard_Inr)

lemma google_error_Inr [result_simps, simp]: "google_error message \<noteq> Inr y"
  by (simp add: google_error_def)

lemma canonicalGoogleDay_Some: "canonicalGoogleDay v f = Inr d \<longleftrightarrow> v = Some (JStr d) \<and> d \<noteq> [] \<and> calendar_day d"
  by (auto simp: canonicalGoogleDay_def googleText_def result_simps split: option.splits json.splits)

lemma googleCurrency_Some: "googleCurrency v f = Inr c \<longleftrightarrow> v = Some (JStr c) \<and> c \<noteq> [] \<and> currency_code c"
  by (auto simp: googleCurrency_def googleText_def result_simps split: option.splits json.splits)

lemma googleCountry_Some: "googleCountry v f = Inr c \<longleftrightarrow> v = Some (JStr c) \<and> c \<noteq> [] \<and> country_code c"
  by (auto simp: googleCountry_def googleText_def result_simps split: option.splits json.splits)

lemma googleInt64_Some:
  "googleInt64 v f zero = Inr s \<longleftrightarrow> v = Some (JStr s) \<and> (positive_digits s \<or> zero \<and> s = ''0'') \<and> int64_text s"
  by (auto simp: googleInt64_def result_simps split: option.splits json.splits)

lemma validateGoogleRange_Some:
  "validateGoogleRange (a, b) = Inr p \<longleftrightarrow> p = (a, b) \<and> a \<noteq> [] \<and> b \<noteq> [] \<and> calendar_day a \<and> calendar_day b \<and> a \<le> b"
  by (auto simp: validateGoogleRange_def result_simps canonicalGoogleDay_Some not_less)

lemma google_plan_Some:
  assumes "google_plan G opts = Inr (period, detail, cx)"
  shows "period = (go_since opts, go_until opts)" "validateGoogleRange period = Inr period" "gx_sent cx = []" "gx_responseBytes cx = 0"
    "googleLimits (go_limits opts) = Inr (gx_limits cx)" "googleCurrency (Some (JStr (cs_currency (go_scope opts)))) f = Inr (cs_currency (go_scope opts))"
    "detail = None \<longleftrightarrow> go_detail opts = None" "detail = Some d \<Longrightarrow> normalizeGoogleCostDetail (the (go_detail opts)) = Inr d"
  using assms unfolding google_plan_def Let_def
  by (elim bindR_InrE google_guardE; simp add: validateGoogleRange_Some googleCurrency_Some google_context.simps; elim conjE; clarsimp split: option.splits)+

lemma googleLimit_pos: "googleLimit v f = Inr n \<Longrightarrow> 0 < n"
  by (auto simp: googleLimit_def result_simps split: option.splits)

lemma googleLimits_Some:
  assumes "googleLimits configured = Inr l"
  shows "0 < gl_lookupChunkSize l" "gl_lookupChunkSize l \<le> gl_maxGeoCriteria l" "0 < gl_maxRequests l"
  using assms unfolding googleLimits_def Let_def by (auto simp: result_simps dest!: googleLimit_pos)

text \<open>C25. Whatever the network answers, a fetch sends at most \<open>maxRequests\<close> requests, all of them to the one endpoint of
  the customer with the same headers, and succeeds only within its budget of bytes.\<close>

theorem google_fetch_bounded:
  "case fetchGoogleAds E G opts of (context, result) \<Rightarrow>
     (case context of
        None \<Rightarrow> isl result
      | Some cx \<Rightarrow> length (gx_sent cx) \<le> gl_maxRequests (gx_limits cx)
          \<and> list_all (\<lambda>q. gq_url q = gx_url cx \<and> gq_headers q = gx_headers cx) (gx_sent cx)
          \<and> (isl result \<or> gx_responseBytes cx \<le> gl_maxResponseBytes (gx_limits cx)))"
proof (cases "google_plan G opts")
  case (Inr plan)
  obtain period detail cx where plan: "google_plan G opts = Inr (period, detail, cx)" using Inr by (cases plan) auto
  define m where "m = (case detail of Some d \<Rightarrow> fetchSelectedGoogleDetails E G (go_scope opts) period d
      | None \<Rightarrow> fetch_costs E G (go_scope opts) period (gx_limits cx))"
  have "budgeted m" unfolding m_def by (simp add: budgeted_details budgeted_costs split: option.split)
  then have "spends cx (fst (m cx)) (\<not> isl (snd (m cx)))" by (simp add: budgeted_def)
  moreover have "fetchGoogleAds E G opts = (Some (fst (m cx)), snd (m cx))"
    by (simp add: fetchGoogleAds_def plan m_def split: prod.splits)
  ultimately show ?thesis using google_plan_Some [OF plan] by (auto simp: spends_def)
qed (simp add: fetchGoogleAds_def)

section \<open>Countries\<close>

definition country_map :: "string list \<Rightarrow> (string \<times> string) list \<Rightarrow> bool" where
  "country_map ids countries \<longleftrightarrow> distinct (map fst countries) \<and> set (map fst countries) \<subseteq> set ids \<and> list_all (\<lambda>p. country_code (snd p)) countries"

lemma add_country_map:
  assumes "add_country expected countries p = Inr extended" "country_map ids countries" "set expected \<subseteq> set ids"
  shows "country_map ids extended"
proof -
  obtain k row where p: "p = (k, row)" by fastforce
  from assms(1) obtain i code where "i \<in> set expected" "map_of countries i = None" "extended = countries @ [(i, code)]" "country_code code"
    by (auto simp: add_country_def p Let_def result_simps googleCountry_Some googleInt64_Some)
  with assms(2,3) show ?thesis by (auto simp: country_map_def map_of_eq_None_iff)
qed

lemma fold_country_map:
  "foldR (add_country expected) countries rs = Inr extended \<Longrightarrow> country_map ids countries \<Longrightarrow> set expected \<subseteq> set ids \<Longrightarrow> country_map ids extended"
  by (induction rs arbitrary: countries) (auto simp: result_simps intro: add_country_map)

lemma stream_sends:
  "googleSearchStream G query label cx = (c, Inr v) \<Longrightarrow> gx_limits c = gx_limits cx \<and> length (gx_sent c) = Suc (length (gx_sent cx))"
  using bounded_spends
  by (auto simp: googleSearchStream_def boundedGoogleJson_def Let_def split: if_splits google_answer.splits option.splits prod.splits)

lemma lookup_chunk_map:
  assumes "lookup_chunk G chunk countries cx = (c, Inr extended)" "country_map ids countries" "set chunk \<subseteq> set ids"
  shows "country_map ids extended \<and> gx_limits c = gx_limits cx \<and> length (gx_sent c) = Suc (length (gx_sent cx))"
  using assms by (auto simp: lookup_chunk_def bindG_def result_simps split: prod.splits sum.splits
      dest!: stream_sends intro: fold_country_map)

lemma requests_needed_Suc: "0 < width \<Longrightarrow> requests_needed (Suc m) width = Suc (m div width)"
  by (simp add: requests_needed_def)

lemma requests_needed_step:
  assumes "0 < n" "0 < width"
  shows "requests_needed n width = Suc (requests_needed (n - width) width)"
proof -
  obtain m where n: "n = Suc m" using assms(1) by (cases n) auto
  have "requests_needed (Suc m - width) width = m div width"
  proof (cases "m < width")
    case True
    with assms(2) show ?thesis by (simp add: requests_needed_def)
  next
    case False
    define r where "r = m - width"
    with False have m: "m = width + r" by simp
    have "requests_needed (Suc r) width = Suc (r div width)" by (rule requests_needed_Suc [OF assms(2)])
    with assms(2) show ?thesis by (simp add: m)
  qed
  with n assms(2) show ?thesis by (simp add: requests_needed_Suc)
qed

lemma lookup_chunks_map:
  "lookup_chunks G width rest countries cx = (c, Inr extended) \<Longrightarrow> country_map ids countries \<Longrightarrow> set rest \<subseteq> set ids \<Longrightarrow> 0 < width \<Longrightarrow>
     country_map ids extended \<and> length (gx_sent c) = length (gx_sent cx) + requests_needed (length rest) width"
proof (induction G width rest countries arbitrary: cx rule: lookup_chunks.induct)
  case (1 G width rest countries)
  show ?case
  proof (cases "rest = []")
    case True
    with 1 show ?thesis by (simp add: lookup_chunks.simps liftG_def requests_needed_def)
  next
    case False
    with 1(2,5) obtain d between where first: "lookup_chunk G (take width rest) countries cx = (d, Inr between)"
      and then_: "lookup_chunks G width (drop width rest) between d = (c, Inr extended)"
      by (auto simp: lookup_chunks.simps [of G width rest] bindG_def split: prod.splits sum.splits)
    have "country_map ids between" "length (gx_sent d) = Suc (length (gx_sent cx))"
      using lookup_chunk_map [OF first 1(3)] 1(4) by (auto dest: in_set_takeD)
    moreover have "set (drop width rest) \<subseteq> set ids" using 1(4) by (auto dest: in_set_dropD)
    moreover have "requests_needed (length rest) width = Suc (requests_needed (length rest - width) width)"
      using False 1(5) by (intro requests_needed_step) auto
    ultimately show ?thesis using 1(1) [OF _ then_] False 1(5) by simp
  qed
qed

text \<open>A successful lookup knows the country of exactly the criteria it was asked for, each once and each a
  country code, and has sent one request for every chunk.\<close>

theorem countries_resolved:
  assumes "resolveGoogleCountries G ids cx = (c, Inr countries)" "0 < gl_lookupChunkSize (gx_limits cx)"
  shows "set (map fst countries) = set ids \<and> distinct (map fst countries) \<and> list_all (\<lambda>p. country_code (snd p)) countries
    \<and> length (gx_sent c) = length (gx_sent cx) + requests_needed (length ids) (gl_lookupChunkSize (gx_limits cx))"
proof -
  from assms(1) have run: "lookup_chunks G (gl_lookupChunkSize (gx_limits cx)) ids [] cx = (c, Inr countries)"
    and all: "list_all (\<lambda>i. map_of countries i \<noteq> None) ids"
    by (auto simp: resolveGoogleCountries_def bindG_def liftG_def result_simps split: if_splits prod.splits sum.splits)
  from lookup_chunks_map [OF run _ subset_refl assms(2)]
  have "country_map ids countries" "length (gx_sent c) = length (gx_sent cx) + requests_needed (length ids) (gl_lookupChunkSize (gx_limits cx))"
    by (simp_all add: country_map_def)
  moreover have "set ids \<subseteq> set (map fst countries)" using all by (auto simp: list_all_iff map_of_eq_None_iff simp del: not_None_eq)
  ultimately show ?thesis by (auto simp: country_map_def)
qed

section \<open>Rows\<close>

lemma stream_batches_length:
  "stream_batches label maxRows rows bs = Inr out \<Longrightarrow> length rows \<le> maxRows \<Longrightarrow> length out \<le> maxRows"
proof (induction label maxRows rows bs rule: stream_batches.induct)
  case (2 label maxRows rows k v bs)
  from 2(2) obtain batch where o: "googleObject (Some v) (label @ '' batch '' @ show_nat k) = Inr batch" by (auto simp: bindR_eq_Inr)
  from 2(2) obtain results where r: "the_or (JArr []) (member batch ''results'') = JArr results"
    unfolding stream_batches.simps(2) o bindR_Inr by (cases "the_or (JArr []) (member batch ''results'')") auto
  from 2(2) obtain extended where b: "length rows + length results \<le> maxRows"
    "mapR (\<lambda>(i, r). googleObject (Some r) (label @ '' batch '' @ show_nat k @ '' row '' @ show_nat i)) (enumerate 0 results) = Inr extended"
    "stream_batches label maxRows (rows @ extended) bs = Inr out"
    unfolding stream_batches.simps(2) o bindR_Inr r json.case by (elim google_guardE bindR_InrE)
  have "length extended = length results" using mapR_length [OF b(2)] by simp
  with 2(1) [OF r b(3)] b(1) show ?case by simp
qed simp

lemma googleCostRows_length: "googleCostRows v period limits mode cur = Inr rows \<Longrightarrow> length rows \<le> gl_maxRows limits"
  by (auto simp: googleCostRows_def googleSearchStreamResults_def result_simps split: option.splits json.splits
      dest!: stream_batches_length dest: list_all2_lengthD)

definition priced_row :: "string \<times> string \<Rightarrow> string \<Rightarrow> google_row \<Rightarrow> bool" where
  "priced_row period cur row \<longleftrightarrow> calendar_day (gr_date row) \<and> fst period \<le> gr_date row \<and> gr_date row \<le> snd period
     \<and> gr_currency row = cur \<and> currency_code cur \<and> all_digits (gr_costMicros row)"

lemma google_cost_row_priced:
  assumes "google_cost_row period mode cur p = Inr row"
  shows "priced_row period cur row"
proof -
  obtain k v where p: "p = (k, v)" by fastforce
  have digits: "all_digits s" if "positive_digits s \<or> s = ''0''" for s
    using that by (auto simp: positive_digits_def all_digits_def is_digit_def)
  from assms show ?thesis
    unfolding google_cost_row_def p Let_def split
    by (elim bindR_InrE google_guardE) (auto simp: priced_row_def canonicalGoogleDay_Some googleCurrency_Some googleInt64_Some digits)
qed

lemma googleCostRows_priced:
  assumes "googleCostRows v (a, b) limits mode cur = Inr rows" "row \<in> set rows"
  shows "priced_row (a, b) cur row"
proof -
  from assms(1) obtain rs where "list_all2 (\<lambda>x y. google_cost_row (a, b) mode cur x = Inr y) (enumerate 0 rs) rows"
    by (auto simp: googleCostRows_def result_simps validateGoogleRange_Some)
  with assms(2) obtain p where "google_cost_row (a, b) mode cur p = Inr row" unfolding list_all2_conv_all_nth in_set_conv_nth by metis
  then show ?thesis by (rule google_cost_row_priced)
qed

lemma google_cost_input_reported:
  assumes "google_cost_input scope countries p = Inr row" "priced_row period (cs_currency scope) (snd p)"
  shows "reported_row scope period row \<and> cn_network row = ''google-ads''"
proof -
  obtain k r where p: "p = (k, r)" by fastforce
  from assms show ?thesis
    by (auto simp: google_cost_input_def p result_simps googleCountry_Some priced_row_def reported_row_def money_text_ok_def coverage_ok_def
        split: option.splits)
qed

lemma googleCostInputs_reported:
  assumes "googleCostInputs scope rows countries = Inr inputs" "\<And>r. r \<in> set rows \<Longrightarrow> priced_row period (cs_currency scope) r"
  shows "length inputs = length rows \<and> list_all (\<lambda>row. reported_row scope period row \<and> cn_network row = ''google-ads'') inputs"
proof -
  have all: "list_all2 (\<lambda>x y. google_cost_input scope countries x = Inr y) (enumerate 0 rows) inputs"
    using assms(1) by (simp add: googleCostInputs_def result_simps)
  have "reported_row scope period (inputs ! i) \<and> cn_network (inputs ! i) = ''google-ads''" if "i < length inputs" for i
  proof (rule google_cost_input_reported)
    show "google_cost_input scope countries (enumerate 0 rows ! i) = Inr (inputs ! i)" by (rule list_all2_nthD2 [OF all that])
    have "snd (enumerate 0 rows ! i) = rows ! i" using list_all2_lengthD [OF all] that by (simp add: nth_enumerate_eq)
    with list_all2_lengthD [OF all] that show "priced_row period (cs_currency scope) (snd (enumerate 0 rows ! i))" by (simp add: assms(2))
  qed
  with list_all2_lengthD [OF all] show ?thesis by (simp add: list_all_length)
qed

section \<open>The fetch and the normaliser\<close>

lemma partition_rows:
  "fetch_partition G query label period limits mode cur cx = (c, Inr rows) \<Longrightarrow> \<exists>v. googleCostRows (Some v) period limits mode cur = Inr rows"
  by (auto simp: fetch_partition_def bindG_def liftG_def split: prod.splits sum.splits)

lemma fetch_costs_parts:
  assumes "fetch_costs E G scope period limits cx = (c, Inr out)"
  obtains a b d app adGroup campaignOnly countries x y inputs where
    "googleCostRows (Some a) period limits App_Mode (cs_currency scope) = Inr app"
    "googleCostRows (Some b) period (limits\<lparr>gl_maxRows := gl_maxRows limits - length app\<rparr>) Ad_Group_Mode (cs_currency scope) = Inr adGroup"
    "googleCostRows (Some d) period (limits\<lparr>gl_maxRows := gl_maxRows limits - length app - length adGroup\<rparr>) Campaign_Only_Mode (cs_currency scope)
       = Inr campaignOnly"
    "resolveGoogleCountries G (distinct_sorted (map gr_countryCriterionId (app @ adGroup @ campaignOnly))) x = (y, Inr countries)"
    "googleCostInputs scope (app @ adGroup @ campaignOnly) countries = Inr inputs" "prepareCostImportRows E inputs = Inr out"
  using assms unfolding fetch_costs_def Let_def
  by (auto simp: bindG_def liftG_def result_simps split: prod.splits sum.splits dest!: partition_rows)

text \<open>A fetch without a detail selection is the normalisation of the three answers it received, with the countries
  that the lookup found for exactly the criteria of their rows.\<close>

theorem fetch_is_normalisation:
  assumes "fetchGoogleAds E G opts = (context, Inr out)" "go_detail opts = None"
  shows "\<exists>app adGroup campaignOnly countries.
    normalizeGoogleAds E (go_scope opts) (JObj [(''app'', app), (''adGroup'', adGroup), (''campaignOnly'', campaignOnly)]) countries
      (go_since opts, go_until opts) (go_limits opts) = Inr out"
proof -
  from assms(1) obtain period detail cx c where plan: "google_plan G opts = Inr (period, detail, cx)"
    and run: "(case detail of Some d \<Rightarrow> fetchSelectedGoogleDetails E G (go_scope opts) period d
      | None \<Rightarrow> fetch_costs E G (go_scope opts) period (gx_limits cx)) cx = (c, Inr out)"
    by (auto simp: fetchGoogleAds_def split: sum.splits prod.splits)
  note facts = google_plan_Some [OF plan]
  from run facts assms(2) have "fetch_costs E G (go_scope opts) (go_since opts, go_until opts) (gx_limits cx) cx = (c, Inr out)" by simp
  then obtain a b d countries app adGroup campaignOnly inputs where
    "googleCostRows (Some a) (go_since opts, go_until opts) (gx_limits cx) App_Mode (cs_currency (go_scope opts)) = Inr app"
    "googleCostRows (Some b) (go_since opts, go_until opts) ((gx_limits cx)\<lparr>gl_maxRows := gl_maxRows (gx_limits cx) - length app\<rparr>) Ad_Group_Mode
       (cs_currency (go_scope opts)) = Inr adGroup"
    "googleCostRows (Some d) (go_since opts, go_until opts) ((gx_limits cx)\<lparr>gl_maxRows := gl_maxRows (gx_limits cx) - length app - length adGroup\<rparr>)
       Campaign_Only_Mode (cs_currency (go_scope opts)) = Inr campaignOnly"
    "googleCostInputs (go_scope opts) (app @ adGroup @ campaignOnly) countries = Inr inputs" "prepareCostImportRows E inputs = Inr out"
    by (rule fetch_costs_parts)
  then have "normalizeGoogleAds E (go_scope opts) (JObj [(''app'', a), (''adGroup'', b), (''campaignOnly'', d)]) countries
      (go_since opts, go_until opts) (go_limits opts) = Inr out"
    using facts(5,6) by (simp add: normalizeGoogleAds_def googleObject_def member_def Let_def)
  then show ?thesis by blast
qed

section \<open>What is fetched\<close>

lemma fetch_costs_reported:
  assumes "fetch_costs E G scope (a, b) limits cx = (c, Inr out)"
  shows "list_all (\<lambda>row. reported_row scope (a, b) row \<and> cn_network row = ''google-ads'') out \<and> length out \<le> gl_maxRows limits"
proof -
  obtain x y z app adGroup campaignOnly countries inputs where rows:
    "googleCostRows (Some x) (a, b) limits App_Mode (cs_currency scope) = Inr app"
    "googleCostRows (Some y) (a, b) (limits\<lparr>gl_maxRows := gl_maxRows limits - length app\<rparr>) Ad_Group_Mode (cs_currency scope) = Inr adGroup"
    "googleCostRows (Some z) (a, b) (limits\<lparr>gl_maxRows := gl_maxRows limits - length app - length adGroup\<rparr>) Campaign_Only_Mode (cs_currency scope)
       = Inr campaignOnly"
    and inputs: "googleCostInputs scope (app @ adGroup @ campaignOnly) countries = Inr inputs" and out: "prepareCostImportRows E inputs = Inr out"
    using fetch_costs_parts [OF assms] by metis
  have "priced_row (a, b) (cs_currency scope) r" if "r \<in> set (app @ adGroup @ campaignOnly)" for r
    using that rows googleCostRows_priced by auto
  note reported = googleCostInputs_reported [OF inputs this]
  have "length app + length adGroup + length campaignOnly \<le> gl_maxRows limits"
    using rows [THEN googleCostRows_length] by simp
  moreover have "mset out = mset inputs" by (rule prepare_mset [OF out])
  then have "set out = set inputs" "length out = length inputs" by (metis set_mset_mset, metis size_mset)
  ultimately show ?thesis using reported by (simp add: list_all_iff)
qed

text \<open>An identifier of at most \<open>INT64\<close> is short.\<close>

lemma int64_short:
  assumes "positive_digits s" "int64_text s"
  shows "length s \<le> 19"
proof (rule ccontr)
  assume long: "\<not> length s \<le> 19"
  from assms(1) obtain c r where s: "s = c # r" "is_digit c" "c \<noteq> CHR ''0''" "list_all is_digit r"
    by (cases s) (auto simp: positive_digits_def all_digits_def)
  obtain d where d: "d < 10" "c = digit_char d" using digit_value_digit [OF s(2)] by blast
  with s(3) have "0 < d" by (cases d) (auto simp: digit_zero)
  have c: "digit_value c = Some d" using d by (simp add: digit_value_char)
  obtain v where v: "dec_digits d r = Some v" "d * 10 ^ length r \<le> v" using dec_digits_all [OF s(4)] by blast
  have "dec_value s = Some v" using v(1) c by (simp add: dec_value_def s(1))
  then have "v \<le> 9223372036854775807" using assms(2) by (simp add: int64_text_def)
  moreover have "(10 :: nat) ^ 19 \<le> 10 ^ length r" using long s(1) by (intro power_increasing) auto
  moreover have "10 ^ length r \<le> d * 10 ^ length r" using \<open>0 < d\<close> by simp
  ultimately show False using v(2) by simp
qed

lemma int64_identifier: "positive_digits s \<Longrightarrow> int64_text s \<Longrightarrow> identifier_ok s"
  using int64_short [of s]
  by (auto simp: identifier_ok_def positive_digits_def all_digits_def list_all_iff file_symbol_def Suc_le_eq)

definition selected_row :: "cost_detail \<Rightarrow> detail_row \<Rightarrow> bool" where
  "selected_row d row \<longleftrightarrow> (\<exists>s \<in> set (dt_selections d). dr_campaignId row = sl_campaign_id s \<and> dr_adGroupId row = sl_ad_group_id s
     \<and> dr_creativeId row = sl_creative_id s)"

definition detail_priced :: "cost_scope \<Rightarrow> string \<times> string \<Rightarrow> detail_row \<Rightarrow> bool" where
  "detail_priced scope period row \<longleftrightarrow> calendar_day (dr_day row) \<and> fst period \<le> dr_day row \<and> dr_day row \<le> snd period
     \<and> dr_currency row = cs_currency scope \<and> currency_code (dr_currency row) \<and> all_digits (dr_amount row) \<and> identifier_ok (dr_adGroupId row)"

lemma bindings_mem: "map_get (bindings_of d) k = Some s \<Longrightarrow> s \<in> set (dt_selections d) \<and> selection_key s = k"
  unfolding bindings_of_def map_get_from by (auto dest: map_of_SomeD)

lemma detail_row_sound:
  assumes "detail_row_of d scope period seen p = Inr (key, row)"
  shows "selected_row d row \<and> detail_priced scope period row \<and> key \<notin> set seen"
proof -
  obtain k v where p: "p = (k, v)" by fastforce
  have digits: "all_digits s" if "positive_digits s \<or> s = ''0''" for s
    using that by (auto simp: positive_digits_def all_digits_def is_digit_def)
  from assms show ?thesis
    unfolding detail_row_of_def p Let_def split
    by (elim bindR_InrE google_guardE)
      (auto simp: selected_row_def detail_priced_def selection_key_def canonicalGoogleDay_Some googleCurrency_Some googleInt64_Some digits int64_identifier
        elim!: bindR_InrE google_guardE dest!: bindings_mem split: option.splits)
qed

lemma detail_rows_sound:
  "detail_rows d scope period seen rs = Inr rows \<Longrightarrow>
     length rows = length rs \<and> list_all (\<lambda>row. selected_row d row \<and> detail_priced scope period row) rows"
  by (induction rs arbitrary: seen rows) (auto simp: bindR_eq_Inr dest!: detail_row_sound split: prod.splits)

lemma detail_input_sound:
  assumes "detail_input scope countries row = Inr out" "selected_row d row" "detail_priced scope period row"
  shows "reported_row scope period out \<and> cn_network out = ''google-ads'' \<and> (\<exists>s \<in> set (dt_selections d).
    cn_campaign_id out = Some (sl_campaign_id s) \<and> cn_ad_group_id out = Some (sl_ad_group_id s) \<and> (truthy (sl_creative_id s) \<longrightarrow> cn_creative_id out = sl_creative_id s))"
  using assms unfolding detail_input_def
  by (elim bindR_InrE)
    (auto simp: reported_row_def money_text_ok_def coverage_ok_def selected_row_def detail_priced_def bindR_eq_Inr googleCountry_Some split: if_splits)

lemma fetch_details_parts:
  assumes "fetchSelectedGoogleDetails E G scope period d cx = (c, Inr out)"
  obtains response results rows countries inputs where
    "googleSearchStreamResults (Some response) ''selected detail cost'' (gl_maxBatches (gx_limits cx)) (gl_maxRows (gx_limits cx)) = Inr results"
    "detail_rows d scope period [] (enumerate 0 results) = Inr rows" "mapR (detail_input scope countries) rows = Inr inputs"
    "prepareCostImportRows E inputs = Inr out"
  using assms unfolding fetchSelectedGoogleDetails_def Let_def
  by (auto simp: bindG_def liftG_def bindR_eq_Inr google_guard_Inr split: prod.splits sum.splits)

definition from_selection :: "cost_detail \<Rightarrow> cost_input \<Rightarrow> bool" where
  "from_selection d row \<longleftrightarrow> (\<exists>s \<in> set (dt_selections d). cn_campaign_id row = Some (sl_campaign_id s)
     \<and> cn_ad_group_id row = Some (sl_ad_group_id s) \<and> (truthy (sl_creative_id s) \<longrightarrow> cn_creative_id row = sl_creative_id s))"

lemma fetch_details_reported:
  assumes "fetchSelectedGoogleDetails E G scope period d cx = (c, Inr out)"
  shows "list_all (\<lambda>row. reported_row scope period row \<and> cn_network row = ''google-ads'' \<and> from_selection d row) out
    \<and> length out \<le> gl_maxRows (gx_limits cx)"
proof -
  obtain response results rows countries inputs where
    results: "googleSearchStreamResults (Some response) ''selected detail cost'' (gl_maxBatches (gx_limits cx)) (gl_maxRows (gx_limits cx)) = Inr results"
    and rows: "detail_rows d scope period [] (enumerate 0 results) = Inr rows" and inputs: "mapR (detail_input scope countries) rows = Inr inputs"
    and out: "prepareCostImportRows E inputs = Inr out"
    by (rule fetch_details_parts [OF assms])
  note sound = detail_rows_sound [OF rows]
  have all: "list_all2 (\<lambda>x y. detail_input scope countries x = Inr y) rows inputs" using inputs by (simp add: mapR_eq_Inr)
  have "reported_row scope period row \<and> cn_network row = ''google-ads'' \<and> from_selection d row" if in_out: "row \<in> set inputs" for row
  proof -
    from in_out all obtain r where r: "r \<in> set rows" "detail_input scope countries r = Inr row"
      unfolding list_all2_conv_all_nth in_set_conv_nth by metis
    with sound have "selected_row d r" "detail_priced scope period r" by (auto simp: list_all_iff)
    from detail_input_sound [OF r(2) this] show ?thesis by (simp add: from_selection_def)
  qed
  moreover have "length results \<le> gl_maxRows (gx_limits cx)"
    using results by (auto simp: googleSearchStreamResults_def google_guard_Inr dest!: stream_batches_length split: json.splits)
  moreover have "mset out = mset inputs" by (rule prepare_mset [OF out])
  then have "set out = set inputs" "length out = length inputs" by (metis set_mset_mset, metis size_mset)
  ultimately show ?thesis using sound list_all2_lengthD [OF all] by (simp add: list_all_iff)
qed

text \<open>C24. The rows of a fetch, of every partition and of a detailed report, belong to the scope, the currency and the
  days that were asked for, pass every check of the import that writes them, and are no more than the configured
  number; those of a detailed report all belong to the explicit selection.\<close>

theorem google_rows_reported:
  assumes "fetchGoogleAds E G opts = (Some cx, Inr rows)"
  shows "list_all (\<lambda>row. reported_row (go_scope opts) (go_since opts, go_until opts) row \<and> cn_network row = ''google-ads'') rows
    \<and> length rows \<le> gl_maxRows (gx_limits cx)
    \<and> (case go_detail opts of None \<Rightarrow> True
       | Some v \<Rightarrow> (case normalizeGoogleCostDetail v of Inl e \<Rightarrow> False | Inr d \<Rightarrow> list_all (from_selection d) rows))"
proof -
  from assms obtain period detail c where plan: "google_plan G opts = Inr (period, detail, c)"
    and run: "(case detail of Some d \<Rightarrow> fetchSelectedGoogleDetails E G (go_scope opts) period d
      | None \<Rightarrow> fetch_costs E G (go_scope opts) period (gx_limits c)) c = (cx, Inr rows)"
    by (auto simp: fetchGoogleAds_def split: sum.splits prod.splits)
  note facts = google_plan_Some [OF plan]
  have "budgeted (case detail of Some d \<Rightarrow> fetchSelectedGoogleDetails E G (go_scope opts) period d
      | None \<Rightarrow> fetch_costs E G (go_scope opts) period (gx_limits c))"
    by (simp add: budgeted_details budgeted_costs split: option.split)
  then have "gx_limits cx = gx_limits c" using run unfolding budgeted_def spends_def by (metis fst_conv)
  then show ?thesis
    using run facts fetch_costs_reported fetch_details_reported by (cases detail) (fastforce simp: list_all_iff)+
qed

section \<open>A selection has one normal form\<close>

definition selection_json :: "cost_selection \<Rightarrow> json" where
  "selection_json s = JObj ([(''campaign_id'', JStr (sl_campaign_id s)), (''ad_group_id'', JStr (sl_ad_group_id s))]
     @ (case sl_provider_ad_id s of None \<Rightarrow> [] | Some i \<Rightarrow> [(''provider_ad_id'', JStr i)])
     @ (case sl_creative_id s of None \<Rightarrow> [] | Some i \<Rightarrow> [(''creative_id'', JStr i)]))"

definition detail_json :: "cost_detail \<Rightarrow> json" where
  "detail_json d = JObj [(''version'', JNum 1), (''grain'', dt_grain d), (''coverage'', JStr ''explicit_selection''),
     (''country_scope'', dt_country_scope d), (''selections'', JArr (map selection_json (dt_selections d)))]"

definition provider_id_ok :: "string \<Rightarrow> bool" where
  "provider_id_ok s \<longleftrightarrow> positive_digits s \<and> length s \<le> 19 \<and> int64_text s"

definition valid_selection :: "bool \<Rightarrow> cost_selection \<Rightarrow> bool" where
  "valid_selection ad s \<longleftrightarrow> provider_id_ok (sl_campaign_id s) \<and> provider_id_ok (sl_ad_group_id s)
     \<and> (if ad then (\<exists>p c. sl_provider_ad_id s = Some p \<and> provider_id_ok p \<and> sl_creative_id s = Some c \<and> identifier_ok c)
        else sl_provider_ad_id s = None \<and> sl_creative_id s = None)"

lemma provider_id_Some: "provider_id v = Inr s \<longleftrightarrow> v = Some (JStr s) \<and> provider_id_ok s"
  by (auto simp: provider_id_def provider_id_ok_def guardR_eq_Inr split: option.splits json.splits)

lemma parse_selection_sound:
  assumes "parse_selection ad item seen bound = Inr s"
  shows "valid_selection ad s \<and> selection_key s \<notin> set seen \<and> (ad \<longrightarrow> creative_key s \<notin> set bound)"
proof -
  obtain row where item: "item = JObj row" using assms by (cases item) (auto simp: parse_selection_def)
  show ?thesis
  proof (cases "\<exists>c. member row ''creative_id'' = Some (JStr c)")
    case True
    with assms show ?thesis
      by (auto simp: parse_selection_def item bindR_eq_Inr guardR_eq_Inr provider_id_Some valid_selection_def selection_key_def creative_key_def
          split: if_splits)
  next
    case False
    then have "(case member row ''creative_id'' of Some (JStr c) \<Rightarrow> f c | _ \<Rightarrow> throw m) = throw m" for f :: "string \<Rightarrow> cost_selection res" and m
      by (auto split: option.splits json.splits)
    with assms show ?thesis
      by (auto simp: parse_selection_def item bindR_eq_Inr guardR_eq_Inr provider_id_Some valid_selection_def selection_key_def creative_key_def
          split: if_splits)
  qed
qed

lemma names_of_selection:
  "valid_selection ad s \<Longrightarrow> selection_json s = JObj row \<Longrightarrow>
     member_names row = (if ad then ''ad_group_id,campaign_id,creative_id,provider_ad_id'' else ''ad_group_id,campaign_id'')"
  by (auto simp: selection_json_def valid_selection_def member_names_def split: if_splits)

lemma parse_selection_complete:
  assumes "valid_selection ad s" "selection_key s \<notin> set seen" "ad \<Longrightarrow> creative_key s \<notin> set bound"
  shows "parse_selection ad (selection_json s) seen bound = Inr s"
proof -
  obtain row where row: "selection_json s = JObj row" by (simp add: selection_json_def)
  have "member row ''campaign_id'' = Some (JStr (sl_campaign_id s))" "member row ''ad_group_id'' = Some (JStr (sl_ad_group_id s))"
    "member row ''provider_ad_id'' = map_option JStr (sl_provider_ad_id s)" "member row ''creative_id'' = map_option JStr (sl_creative_id s)"
    using row by (auto simp: selection_json_def member_def split: option.splits)
  moreover have "provider_id (Some (JStr i)) = Inr i" if "provider_id_ok i" for i using that by (simp add: provider_id_Some)
  ultimately show ?thesis
    using assms names_of_selection [OF assms(1) row] unfolding parse_selection_def row json.case
    by (cases ad) (auto simp: guardR_def valid_selection_def selection_key_def creative_key_def intro!: cost_selection.equality)
qed

definition selections_ok :: "bool \<Rightarrow> string list \<Rightarrow> string list \<Rightarrow> cost_selection list \<Rightarrow> bool" where
  "selections_ok ad seen bound ss \<longleftrightarrow> list_all (valid_selection ad) ss
     \<and> distinct (map selection_key ss) \<and> set (map selection_key ss) \<inter> set seen = {}
     \<and> (ad \<longrightarrow> distinct (map creative_key ss) \<and> set (map creative_key ss) \<inter> set bound = {})"

lemma parse_selections_sound: "parse_selections ad items seen bound = Inr ss \<Longrightarrow> selections_ok ad seen bound ss \<and> length ss = length items"
proof (induction ad items seen bound arbitrary: ss rule: parse_selections.induct)
  case (2 ad item items seen bound)
  from 2(2) obtain s rest where s: "parse_selection ad item seen bound = Inr s" and ss: "ss = s # rest"
    and rest: "parse_selections ad items (seen @ [selection_key s]) (if ad then bound @ [creative_key s] else bound) = Inr rest"
    by (auto simp: bindR_eq_Inr)
  from 2(1) [OF rest] parse_selection_sound [OF s] show ?case unfolding ss selections_ok_def by auto
qed (simp add: selections_ok_def)

lemma parse_selections_complete: "selections_ok ad seen bound ss \<Longrightarrow> parse_selections ad (map selection_json ss) seen bound = Inr ss"
proof (induction ss arbitrary: seen bound)
  case (Cons s ss)
  have "parse_selection ad (selection_json s) seen bound = Inr s"
    using Cons.prems by (intro parse_selection_complete) (auto simp: selections_ok_def)
  moreover have "selections_ok ad (seen @ [selection_key s]) (if ad then bound @ [creative_key s] else bound) ss"
    using Cons.prems by (auto simp: selections_ok_def)
  ultimately show ?case using Cons.IH by simp
qed simp

lemma selections_ok_mset: "mset ss = mset ts \<Longrightarrow> selections_ok ad [] [] ss = selections_ok ad [] [] ts"
proof -
  assume m: "mset ss = mset ts"
  then have "mset (map f ss) = mset (map f ts)" for f :: "cost_selection \<Rightarrow> string" by simp
  then have "distinct (map f ss) = distinct (map f ts)" for f :: "cost_selection \<Rightarrow> string" by (rule mset_eq_imp_distinct_iff)
  moreover have "set ss = set ts" using m by (metis set_mset_mset)
  ultimately show ?thesis by (simp add: selections_ok_def list_all_iff)
qed

subsection \<open>The order of the selections\<close>

lemma parse_selection_apart:
  "parse_selection ad item seen bound = Inr s \<longleftrightarrow>
     parse_selection ad item [] [] = Inr s \<and> selection_key s \<notin> set seen \<and> (ad \<longrightarrow> creative_key s \<notin> set bound)"
proof (cases item)
  case (JObj row)
  show ?thesis
  proof (cases "\<exists>c. member row ''creative_id'' = Some (JStr c)")
    case True
    then show ?thesis
      by (auto simp: parse_selection_def JObj bindR_eq_Inr guardR_eq_Inr selection_key_def creative_key_def)
  next
    case False
    then have "(case member row ''creative_id'' of Some (JStr c) \<Rightarrow> f c | _ \<Rightarrow> throw m) = throw m" for f :: "string \<Rightarrow> cost_selection res" and m
      by (auto split: option.splits json.splits)
    then show ?thesis
      by (auto simp: parse_selection_def JObj bindR_eq_Inr guardR_eq_Inr selection_key_def creative_key_def throw_def)
  qed
qed (simp_all add: parse_selection_def throw_def)

lemma parse_selections_iff:
  "parse_selections ad items seen bound = Inr ss \<longleftrightarrow>
     list_all2 (\<lambda>item s. parse_selection ad item [] [] = Inr s) items ss \<and> selections_ok ad seen bound ss"
proof (induction items arbitrary: seen bound ss)
  case (Cons item items)
  have "parse_selections ad (item # items) seen bound = Inr ss \<longleftrightarrow> (\<exists>s rest. ss = s # rest \<and> parse_selection ad item seen bound = Inr s
      \<and> parse_selections ad items (seen @ [selection_key s]) (if ad then bound @ [creative_key s] else bound) = Inr rest)"
    by (auto simp: bindR_eq_Inr)
  also have "\<dots> \<longleftrightarrow> (\<exists>s rest. ss = s # rest \<and> parse_selection ad item [] [] = Inr s \<and> valid_selection ad s \<and> selection_key s \<notin> set seen
      \<and> (ad \<longrightarrow> creative_key s \<notin> set bound) \<and> list_all2 (\<lambda>item s. parse_selection ad item [] [] = Inr s) items rest
      \<and> selections_ok ad (seen @ [selection_key s]) (if ad then bound @ [creative_key s] else bound) rest)"
    unfolding Cons.IH using parse_selection_apart [of ad item seen bound] parse_selection_sound [of ad item "[]" "[]"] by blast
  also have "\<dots> \<longleftrightarrow> list_all2 (\<lambda>item s. parse_selection ad item [] [] = Inr s) (item # items) ss \<and> selections_ok ad seen bound ss"
    by (cases ss) (auto simp: selections_ok_def)
  finally show ?case .
qed (auto simp: selections_ok_def)

lemma parse_selections_mset:
  assumes "parse_selections ad items [] [] = Inr ss" "mset items' = mset items"
  obtains ss' where "parse_selections ad items' [] [] = Inr ss'" "mset ss' = mset ss"
proof -
  let ?f = "\<lambda>item. projr (parse_selection ad item [] [])"
  have all: "list_all2 (\<lambda>item s. parse_selection ad item [] [] = Inr s) items ss" "selections_ok ad [] [] ss"
    using assms(1) by (simp_all add: parse_selections_iff)
  have "ss = map ?f items" using all(1) by (induction rule: list_all2_induct) auto
  then have m: "mset (map ?f items') = mset ss" using assms(2) by simp
  have "\<forall>item \<in> set items. parse_selection ad item [] [] = Inr (?f item)" using all(1) by (induction rule: list_all2_induct) auto
  moreover have "set items' = set items" using assms(2) by (metis set_mset_mset)
  ultimately have "list_all2 (\<lambda>item s. parse_selection ad item [] [] = Inr s) items' (map ?f items')"
    by (auto simp: list_all2_conv_all_nth)
  with selections_ok_mset [OF m] all(2) have "parse_selections ad items' [] [] = Inr (map ?f items')" by (simp add: parse_selections_iff)
  with m that show thesis by blast
qed

lemma json_string_eq [simp]: "json_string s = json_string t \<longleftrightarrow> s = t"
  using json_string_inj [of s "[]" t "[]"] by auto

lemma selection_text_inj:
  assumes "valid_selection ad s" "valid_selection ad t" "selection_text s = selection_text t"
  shows "s = t"
proof (rule cost_selection.equality)
  have "sl_campaign_id s = sl_campaign_id t \<and> sl_ad_group_id s = sl_ad_group_id t
      \<and> sl_provider_ad_id s = sl_provider_ad_id t \<and> sl_creative_id s = sl_creative_id t"
    using assms by (cases ad) (auto simp: valid_selection_def selection_text_def text_member_of_def dest!: json_string_inj)
  then show "sl_campaign_id s = sl_campaign_id t" "sl_ad_group_id s = sl_ad_group_id t"
    "sl_provider_ad_id s = sl_provider_ad_id t" "sl_creative_id s = sl_creative_id t" by simp_all
qed simp

lemma sort_key_mset:
  assumes "mset xs = mset ys" "inj_on f (set xs)"
  shows "sort_key f xs = sort_key (f :: 'a \<Rightarrow> 'b :: linorder) ys"
proof -
  have "map f (sort_key f xs) = map f (sort_key f ys)"
    using sort_key_map [of id f xs] sort_key_map [of id f ys] sorted_list_of_multiset_mset [of "map f xs"]
      sorted_list_of_multiset_mset [of "map f ys"] assms(1) by (simp add: id_def o_def)
  moreover have "set (sort_key f xs) \<union> set (sort_key f ys) = set xs" using assms(1) by (auto dest: mset_eq_setD)
  ultimately show ?thesis using assms(2) by (simp add: inj_on_map_eq_map)
qed

text \<open>C26. A normalised selection is a normal form: written as JSON again it normalises to itself, and every document that lists
  the same selections in another order, or its members in another order, normalises to it as well.\<close>

theorem detail_normal_form:
  assumes "normalizeGoogleCostDetail (JObj ms) = Inr d"
  shows "normalizeGoogleCostDetail (detail_json d) = Inr d
    \<and> (\<forall>ms' items items'. member ms ''selections'' = Some (JArr items) \<and> member ms' ''selections'' = Some (JArr items')
        \<and> mset items' = mset items \<and> mset (map fst ms') = mset (map fst ms) \<and> (\<forall>k. k \<noteq> ''selections'' \<longrightarrow> member ms' k = member ms k)
        \<longrightarrow> normalizeGoogleCostDetail (JObj ms') = Inr d)"
proof -
  define ad where "ad \<longleftrightarrow> dt_grain d = JStr ''ad''"
  from assms obtain items ss where
    words: "one_of_words [''ad_group'', ''ad''] (Some (dt_grain d))" "one_of_words [''all'', ''geo_country''] (Some (dt_country_scope d))"
    "\<not> (ad \<and> dt_country_scope d \<noteq> JStr ''all'')"
    and items: "member ms ''selections'' = Some (JArr items)"
    and parsed: "parse_selections ad items [] [] = Inr ss" "1 \<le> length items" "length items \<le> 100"
    and ss: "dt_selections d = sort_key selection_text ss"
    and members: "member_names ms = ''country_scope,coverage,grain,selections,version''" "member ms ''version'' = Some (JNum 1)"
      "member ms ''coverage'' = Some (JStr ''explicit_selection'')" "member ms ''grain'' = Some (dt_grain d)"
      "member ms ''country_scope'' = Some (dt_country_scope d)"
    unfolding normalizeGoogleCostDetail_def Let_def ad_def
    by (auto simp: guardR_eq_Inr bindR_eq_Inr one_of_words_def split: json.splits option.splits)
  from parse_selections_sound [OF parsed(1)] have ok: "selections_ok ad [] [] (dt_selections d)" "length (dt_selections d) = length items"
    using selections_ok_mset [of "dt_selections d" ss] by (simp_all add: ss)
  have "sort_key selection_text (dt_selections d) = dt_selections d" by (simp add: ss sort_key_id_if_sorted)
  moreover have "member_names [(''version'', JNum 1), (''grain'', dt_grain d), (''coverage'', JStr ''explicit_selection''),
     (''country_scope'', dt_country_scope d), (''selections'', JArr (map selection_json (dt_selections d)))]
     = ''country_scope,coverage,grain,selections,version''"
    by (simp add: member_names_def)
  ultimately have fixed: "normalizeGoogleCostDetail (detail_json d) = Inr d"
    using words parsed(2,3) ok parse_selections_complete [OF ok(1)]
    by (cases d) (auto simp: normalizeGoogleCostDetail_def detail_json_def member_def guardR_def ad_def)
  have "normalizeGoogleCostDetail (JObj ms') = Inr d"
    if "member ms' ''selections'' = Some (JArr items')" "mset items' = mset items" "mset (map fst ms') = mset (map fst ms)"
      "\<And>k. k \<noteq> ''selections'' \<Longrightarrow> member ms' k = member ms k" for ms' items'
  proof -
    note same = that
    obtain ss' where ss': "parse_selections ad items' [] [] = Inr ss'" "mset ss' = mset ss" by (rule parse_selections_mset [OF parsed(1) same(2)])
    have "inj_on selection_text (set ss')"
      using parse_selections_sound [OF ss'(1)] selection_text_inj by (auto simp: inj_on_def selections_ok_def list_all_iff)
    from sort_key_mset [OF ss'(2) this] have "sort_key selection_text ss' = dt_selections d" by (simp add: ss)
    moreover have "member_names ms' = member_names ms"
      unfolding member_names_def using that(3) by (metis sorted_list_of_multiset_mset)
    moreover have "length items' = length items" using that(2) by (metis size_mset)
    ultimately show ?thesis
      using words members parsed(2,3) ss'(1) that(1,4)
      by (cases d) (auto simp: normalizeGoogleCostDetail_def guardR_def ad_def)
  qed
  with fixed items show ?thesis by auto
qed

section \<open>A concrete fetch\<close>

definition sample_google :: "(nat \<Rightarrow> json) \<Rightarrow> google_env" where
  "sample_google f = \<lparr> ga_answer = (\<lambda>k r. Answer 200 None (Some [Chunk [digit_char k]])), ga_decode = Some,
     ga_parse = (\<lambda>t. map_option f (dec_value t)), ga_secret = (\<lambda>n. Inr ''secret'') \<rparr>"

lemma sample_send:
  assumes "length (gx_sent cx) < 8" "gl_maxRequests (gx_limits cx) = 8" "gx_responseBytes cx < gl_maxResponseBytes (gx_limits cx)"
  shows "googleSearchStream (sample_google f) query label cx =
     (cx\<lparr>gx_sent := gx_sent cx @ [google_request_of cx query], gx_responseBytes := Suc (gx_responseBytes cx)\<rparr>, Inr (f (length (gx_sent cx))))"
proof -
  have "dec_value [digit_char k] = Some k" if "k < 8" for k using that by (simp add: dec_value_def digit_value_char)
  with assms show ?thesis
    by (simp add: googleSearchStream_def boundedGoogleJson_def declared_too_long_def sample_google_def Let_def)
qed

definition sample_google_row :: json_object where
  "sample_google_row = [(''segments'', JObj [(''date'', JStr ''2026-02-28'')]),
     (''campaign'', JObj [(''id'', JStr ''11''), (''advertisingChannelType'', JStr ''SEARCH'')]), (''adGroup'', JObj [(''id'', JStr ''12'')]),
     (''customer'', JObj [(''currencyCode'', JStr ''USD'')]),
     (''geographicView'', JObj [(''locationType'', JStr ''LOCATION_OF_PRESENCE''), (''countryCriterionId'', JStr ''2840'')]),
     (''metrics'', JObj [(''costMicros'', JStr ''7'')])]"

definition sample_country :: json_object where
  "sample_country = [(''geoTargetConstant'', JObj [(''id'', JStr ''2840''), (''countryCode'', JStr ''US'')])]"

definition batch_of :: "json_object \<Rightarrow> json" where
  "batch_of row = JArr [JObj [(''results'', JArr [JObj row])]]"

definition sample_reply :: "nat \<Rightarrow> json" where
  "sample_reply k = (if k = 1 then batch_of sample_google_row else if k = 3 then batch_of sample_country else JArr [])"

lemma sample_ids:
  "positive_digits ''11''" "positive_digits ''12''" "positive_digits ''2840''" "positive_digits ''7''"
  "int64_text ''11''" "int64_text ''12''" "int64_text ''2840''" "int64_text ''7''"
proof -
  have "dec_value ''11'' = Some 11" "dec_value ''12'' = Some 12" "dec_value ''2840'' = Some 2840" "dec_value ''7'' = Some 7" by code_simp+
  then show "int64_text ''11''" "int64_text ''12''" "int64_text ''2840''" "int64_text ''7''" by (simp_all add: int64_text_def)
qed (simp_all add: positive_digits_def all_digits_def is_digit_def)

lemma sample_batch: "0 < n \<Longrightarrow> 0 < m \<Longrightarrow> googleSearchStreamResults (Some (batch_of row)) label n m = Inr [row]"
  by (simp add: googleSearchStreamResults_def batch_of_def google_guard_def googleObject_def member_def)

lemma sample_empty: "googleSearchStreamResults (Some (JArr [])) label n m = Inr []"
  by (simp add: googleSearchStreamResults_def google_guard_def)

lemma sample_resolve:
  assumes "length (gx_sent cx) = 3" "gl_maxRequests (gx_limits cx) = 8" "gx_responseBytes cx < gl_maxResponseBytes (gx_limits cx)"
    "gl_lookupChunkSize (gx_limits cx) = 200" "gl_maxGeoCriteria (gx_limits cx) = 1000" "gl_maxBatches (gx_limits cx) = 1000"
  obtains c where "resolveGoogleCountries (sample_google sample_reply) [''2840''] cx = (c, Inr [(''2840'', ''US'')])"
proof -
  have "add_country [''2840''] [] (0, sample_country) = Inr [(''2840'', ''US'')]"
    by (simp add: add_country_def sample_country_def chained_member_def member_def googleInt64_def sample_ids google_guard_def googleCountry_def
        googleText_def country_code_def is_upper_def Let_def)
  then have "\<exists>c. lookup_chunk (sample_google sample_reply) [''2840''] [] cx = (c, Inr [(''2840'', ''US'')])"
    using assms by (simp add: lookup_chunk_def bindG_def sample_send sample_reply_def sample_batch)
  then have "\<exists>c. lookup_chunks (sample_google sample_reply) 200 [''2840''] [] cx = (c, Inr [(''2840'', ''US'')])"
    by (auto simp: lookup_chunks.simps bindG_def liftG_def)
  with assms that show ?thesis
    by (auto simp: resolveGoogleCountries_def requests_needed_def bindG_def liftG_def google_guard_def)
qed

definition google_sample :: google_options where
  "google_sample = \<lparr> go_customerId = ''0123456789'', go_loginCustomerId = None, go_apiVersion = None, go_scope = sample_scope,
     go_since = ''2026-02-01'', go_until = ''2026-02-28'', go_limits = None, go_detail = None \<rparr>"

definition default_limits :: google_limits where
  "default_limits = \<lparr> gl_maxRows = 100000, gl_maxBatches = 1000, gl_maxResponseBytes = 33554432, gl_maxGeoCriteria = 1000, gl_lookupChunkSize = 200,
     gl_maxRequests = 8 \<rparr>"

lemma default_limits: "googleLimits None = Inr default_limits"
  by (simp add: googleLimits_def googleLimit_def safe_integer_of_def MAX_SAFE_INTEGER_def no_limits_def google_guard_def default_limits_def)

lemma sample_google_period: "validateGoogleRange (''2026-02-01'', ''2026-02-28'') = Inr (''2026-02-01'', ''2026-02-28'')"
  using sample_days by (simp add: validateGoogleRange_Some)

lemma sample_cost_row:
  "google_cost_row (''2026-02-01'', ''2026-02-28'') Ad_Group_Mode ''USD'' (0, sample_google_row) =
     Inr \<lparr> gr_date = ''2026-02-28'', gr_campaignId = ''11'', gr_adGroupId = Some ''12'', gr_countryCriterionId = ''2840'', gr_costMicros = ''7'',
       gr_currency = ''USD'' \<rparr>"
  using sample_days
  by (simp add: google_cost_row_def sample_google_row_def chained_member_def member_def canonicalGoogleDay_def googleText_def google_guard_def
      subtype_of_def googleSubtype_def is_upper_def is_digit_def in_partition_def googleAppCampaignSubtypes_def googleAdGroupCampaignTypes_def
      googleInt64_def sample_ids googleCurrency_def currency_code_def Let_def)

lemma sample_partition:
  assumes "length (gx_sent cx) < 8" "gx_limits cx = default_limits" "gx_responseBytes cx < 8"
    and "googleCostRows (Some (f (length (gx_sent cx)))) period limits mode cur = Inr rows"
  obtains c where "fetch_partition (sample_google f) query label period limits mode cur cx = (c, Inr rows)"
    "gx_limits c = default_limits" "length (gx_sent c) = Suc (length (gx_sent cx))" "gx_responseBytes c = Suc (gx_responseBytes cx)"
  using assms by (simp add: fetch_partition_def bindG_def liftG_def sample_send default_limits_def)

lemma sample_rows:
  "googleCostRows (Some (JArr [])) (''2026-02-01'', ''2026-02-28'') limits mode cur = Inr []"
  "0 < gl_maxBatches limits \<Longrightarrow> 0 < gl_maxRows limits \<Longrightarrow> \<exists>row. gr_countryCriterionId row = ''2840''
     \<and> googleCostRows (Some (batch_of sample_google_row)) (''2026-02-01'', ''2026-02-28'') limits Ad_Group_Mode ''USD'' = Inr [row]"
proof -
  show "googleCostRows (Some (JArr [])) (''2026-02-01'', ''2026-02-28'') limits mode cur = Inr []"
    by (simp add: googleCostRows_def sample_google_period sample_empty)
  assume "0 < gl_maxBatches limits" "0 < gl_maxRows limits"
  then show "\<exists>row. gr_countryCriterionId row = ''2840''
     \<and> googleCostRows (Some (batch_of sample_google_row)) (''2026-02-01'', ''2026-02-28'') limits Ad_Group_Mode ''USD'' = Inr [row]"
    by (simp add: googleCostRows_def sample_google_period sample_batch sample_cost_row)
qed

lemma sample_google_run:
  obtains cx rows where "fetchGoogleAds (sample_cost_env id) (sample_google sample_reply) google_sample = (Some cx, Inr rows)" "length rows = 1"
proof -
  let ?G = "sample_google sample_reply" and ?p = "(''2026-02-01'', ''2026-02-28'')"
  obtain c0 where plan: "google_plan ?G google_sample = Inr (?p, None, c0)" and c0: "gx_limits c0 = default_limits" "gx_sent c0 = []" "gx_responseBytes c0 = 0"
    by (simp add: google_plan_def google_sample_def sample_google_period googleCustomer_def googleCustomerId_def is_digit_def google_guard_def sample_scope_def
        googleCurrency_def googleText_def currency_code_def is_upper_def default_limits sample_google_def Let_def)
  obtain row where row: "gr_countryCriterionId row = ''2840''"
    "googleCostRows (Some (batch_of sample_google_row)) ?p (default_limits\<lparr>gl_maxRows := 100000\<rparr>) Ad_Group_Mode ''USD'' = Inr [row]"
    using sample_rows(2) [of "default_limits\<lparr>gl_maxRows := 100000\<rparr>"] by (auto simp: default_limits_def)
  have limits: "gl_maxRows default_limits = 100000" by (simp add: default_limits_def)
  have empty: "googleCostRows (Some (sample_reply k)) ?p l m ''USD'' = Inr []" if "k \<noteq> 1" "k \<noteq> 3" for k l m
    using that by (simp add: sample_reply_def sample_rows(1))
  have one: "googleCostRows (Some (sample_reply 1)) ?p (default_limits\<lparr>gl_maxRows := 100000\<rparr>) Ad_Group_Mode ''USD'' = Inr [row]"
    using row(2) by (simp add: sample_reply_def)
  obtain c1 where c1: "fetch_partition ?G (app_query ?p 100000) ''App cost'' ?p default_limits App_Mode ''USD'' c0 = (c1, Inr [])"
    "gx_limits c1 = default_limits" "length (gx_sent c1) = Suc (length (gx_sent c0))" "gx_responseBytes c1 = Suc (gx_responseBytes c0)"
    by (rule sample_partition [of c0 sample_reply]) (simp_all add: c0, rule empty, simp_all)
  obtain c2 where c2: "fetch_partition ?G (ad_group_query ?p 100000) ''ad-group cost'' ?p (default_limits\<lparr>gl_maxRows := 100000\<rparr>) Ad_Group_Mode ''USD'' c1
      = (c2, Inr [row])" "gx_limits c2 = default_limits" "length (gx_sent c2) = Suc (length (gx_sent c1))" "gx_responseBytes c2 = Suc (gx_responseBytes c1)"
    by (rule sample_partition [of c1 sample_reply]) (simp_all add: c0 c1(2-4), rule one [unfolded One_nat_def])
  obtain c3 where c3: "fetch_partition ?G (campaign_only_query ?p 99999) ''campaign-only cost'' ?p (default_limits\<lparr>gl_maxRows := 99999\<rparr>)
      Campaign_Only_Mode ''USD'' c2 = (c3, Inr [])" "gx_limits c3 = default_limits" "length (gx_sent c3) = Suc (length (gx_sent c2))"
      "gx_responseBytes c3 = Suc (gx_responseBytes c2)"
    by (rule sample_partition [of c2 sample_reply]) (simp_all add: c0 c1(2-4) c2(2-4), rule empty, simp_all)
  obtain c4 where c4: "resolveGoogleCountries ?G [''2840''] c3 = (c4, Inr [(''2840'', ''US'')])"
    by (rule sample_resolve [of c3]) (simp_all add: c0 c1(2-4) c2(2-4) c3(2-4), simp_all add: default_limits_def)
  obtain input where input: "googleCostInputs sample_scope [row] [(''2840'', ''US'')] = Inr [input]"
    by (simp add: googleCostInputs_def google_cost_input_def row(1) googleCountry_def googleText_def google_guard_def country_code_def is_upper_def)
  have "fetch_costs (sample_cost_env id) ?G sample_scope ?p default_limits c0 = (c4, prepareCostImportRows (sample_cost_env id) [input])"
    using c1(1) c2(1) c3(1) c4 input row(1)
    by (simp add: fetch_costs_def bindG_def liftG_def limits Let_def distinct_sorted_def sample_scope_def)
  then show ?thesis using that plan c0(1)
    by (simp add: fetchGoogleAds_def google_sample_def prepare_unfold prepared_order_def guardR_def)
qed

theorem countries_resolved_witness:
  "\<exists>c. resolveGoogleCountries (sample_google (\<lambda>k. batch_of sample_country)) [''2840'']
      \<lparr> gx_url = [], gx_headers = [], gx_limits = default_limits, gx_sent = [], gx_responseBytes = 0 \<rparr> = (c, Inr [(''2840'', ''US'')])
     \<and> length (gx_sent c) = 1"
proof -
  let ?G = "sample_google (\<lambda>k. batch_of sample_country)"
  let ?cx = "\<lparr> gx_url = [], gx_headers = [], gx_limits = default_limits, gx_sent = [], gx_responseBytes = 0 \<rparr>"
  have "add_country [''2840''] [] (0, sample_country) = Inr [(''2840'', ''US'')]"
    by (simp add: add_country_def sample_country_def chained_member_def member_def googleInt64_def sample_ids google_guard_def googleCountry_def
        googleText_def country_code_def is_upper_def Let_def)
  then have "\<exists>c. lookup_chunk ?G [''2840''] [] ?cx = (c, Inr [(''2840'', ''US'')])"
    by (simp add: lookup_chunk_def bindG_def sample_send default_limits_def sample_batch)
  then have "\<exists>c. lookup_chunks ?G 200 [''2840''] [] ?cx = (c, Inr [(''2840'', ''US'')])"
    by (auto simp: lookup_chunks.simps bindG_def liftG_def)
  then obtain c where run: "resolveGoogleCountries ?G [''2840''] ?cx = (c, Inr [(''2840'', ''US'')])"
    by (auto simp: resolveGoogleCountries_def requests_needed_def bindG_def liftG_def google_guard_def default_limits_def)
  have "0 < gl_lookupChunkSize (gx_limits ?cx)" by (simp add: default_limits_def)
  from countries_resolved [OF run this] have "length (gx_sent c) = 1" by (simp add: requests_needed_def default_limits_def)
  with run show ?thesis by blast
qed

theorem fetch_is_normalisation_witness:
  "\<exists>app adGroup campaignOnly countries rows.
     normalizeGoogleAds (sample_cost_env id) sample_scope (JObj [(''app'', app), (''adGroup'', adGroup), (''campaignOnly'', campaignOnly)]) countries
       (''2026-02-01'', ''2026-02-28'') None = Inr rows \<and> length rows = 1"
proof -
  obtain cx rows where run: "fetchGoogleAds (sample_cost_env id) (sample_google sample_reply) google_sample = (Some cx, Inr rows)" and n: "length rows = 1"
    by (rule sample_google_run)
  have "go_detail google_sample = None" by (simp add: google_sample_def)
  from fetch_is_normalisation [OF run this] n show ?thesis unfolding google_sample_def google_options.simps by blast
qed

theorem google_rows_reported_witness:
  "\<exists>cx rows. fetchGoogleAds (sample_cost_env id) (sample_google sample_reply) google_sample = (Some cx, Inr rows) \<and> length rows = 1
     \<and> list_all (\<lambda>row. cn_network row = ''google-ads'' \<and> cn_currency row = ''USD'') rows"
proof -
  obtain cx rows where run: "fetchGoogleAds (sample_cost_env id) (sample_google sample_reply) google_sample = (Some cx, Inr rows)" and n: "length rows = 1"
    by (rule sample_google_run)
  from google_rows_reported [OF run] have "list_all (\<lambda>row. reported_row sample_scope (''2026-02-01'', ''2026-02-28'') row \<and> cn_network row = ''google-ads'') rows"
    by (simp add: google_sample_def)
  then have "list_all (\<lambda>row. cn_network row = ''google-ads'' \<and> cn_currency row = ''USD'') rows"
    by (auto simp: list_all_iff reported_row_def sample_scope_def)
  with run n show ?thesis by blast
qed

definition sample_detail :: cost_detail where
  "sample_detail = \<lparr> dt_grain = JStr ''ad_group'', dt_country_scope = JStr ''all'', dt_selections =
     [\<lparr> sl_campaign_id = ''11'', sl_ad_group_id = ''12'', sl_provider_ad_id = None, sl_creative_id = None \<rparr>,
      \<lparr> sl_campaign_id = ''12'', sl_ad_group_id = ''11'', sl_provider_ad_id = None, sl_creative_id = None \<rparr>] \<rparr>"

text \<open>A document that lists the same two selections the other way round.\<close>

theorem detail_normal_form_witness:
  "normalizeGoogleCostDetail (detail_json sample_detail) = Inr sample_detail
    \<and> normalizeGoogleCostDetail (JObj [(''version'', JNum 1), (''grain'', JStr ''ad_group''), (''coverage'', JStr ''explicit_selection''),
        (''country_scope'', JStr ''all''), (''selections'', JArr (rev (map selection_json (dt_selections sample_detail))))]) = Inr sample_detail"
proof -
  let ?items = "map selection_json (dt_selections sample_detail)"
  let ?head = "[(''version'', JNum 1), (''grain'', JStr ''ad_group''), (''coverage'', JStr ''explicit_selection''), (''country_scope'', JStr ''all'')]"
  let ?v = "?head @ [(''selections'', JArr ?items)]"
  have "provider_id (Some (JStr ''11'')) = Inr ''11''" "provider_id (Some (JStr ''12'')) = Inr ''12''"
    by (simp_all add: provider_id_Some provider_id_ok_def sample_ids)
  then have "parse_selections False ?items [] [] = Inr (dt_selections sample_detail)"
    by (intro parse_selections_complete)
      (simp add: selections_ok_def valid_selection_def sample_detail_def selection_key_def provider_id_Some)
  moreover have "sorted (map selection_text (dt_selections sample_detail))" by code_simp
  ultimately have v: "normalizeGoogleCostDetail (JObj ?v) = Inr sample_detail"
    by (simp add: normalizeGoogleCostDetail_def guardR_def member_names_def member_def one_of_words_def sort_key_id_if_sorted)
      (simp add: sample_detail_def)
  show ?thesis using detail_normal_form [OF v] by (auto simp: member_def)
qed

end
