(* ===== verification/Play_Responses.thy ===== *)
theory Play_Responses
  imports Apple_Receiver Decimal_Text
begin

text \<open>
  \<open>apps/worker/src/google-play-product-verifier.ts\<close>, what it reads out of the documents of the store: the
  product, subscription and order responses, the money of an order line, and the protected claim of a
  purchase batch. \<open>JSON.parse\<close>, \<open>Date.parse\<close> (\<open>None\<close> is NaN) and SHA-256 are arguments.
\<close>

section \<open>Documents\<close>

record play_env =
  py_parse :: "string \<Rightarrow> json option"
  py_date :: "string \<Rightarrow> int option"
  py_sha256 :: "string \<Rightarrow> string"

definition jsonObject :: "play_env \<Rightarrow> string \<Rightarrow> string \<Rightarrow> json_object res" where
  "jsonObject P body label =
     guardR (length body \<le> 256 * 1024) (label @ ''_too_large'')
       (case py_parse P body of
          None \<Rightarrow> throw ''SyntaxError''
        | Some (JObj ms) \<Rightarrow> Inr ms
        | Some v \<Rightarrow> throw (label @ ''_invalid''))"

definition object_member :: "json option \<Rightarrow> string \<Rightarrow> json option" where
  "object_member v name = (case v of Some (JObj ms) \<Rightarrow> member ms name | _ \<Rightarrow> None)"

text \<open>\<open>undefined\<close> or a text of 1 to 255 units.\<close>

definition order_id_of :: "json option \<Rightarrow> string option res" where
  "order_id_of v =
     (case v of
        None \<Rightarrow> Inr None
      | Some (JStr s) \<Rightarrow> guardR (1 \<le> utf16_length s \<and> utf16_length s \<le> 255) ''google_play_order_id_invalid'' (Inr (Some s))
      | Some j \<Rightarrow> throw ''google_play_order_id_invalid'')"

section \<open>Products and subscriptions\<close>

record normalized_product =
  np_purchaseState :: string
  np_completionTime :: "string option"
  np_orderId :: "string option"
  np_productMatched :: bool
  np_verified :: bool

definition names_product :: "string \<Rightarrow> json \<Rightarrow> bool" where
  "names_product productId line \<longleftrightarrow> object_member (Some line) ''productId'' = Some (JStr productId)"

definition normalizeGooglePlayProductResponse :: "play_env \<Rightarrow> string \<Rightarrow> string \<Rightarrow> normalized_product res" where
  "normalizeGooglePlayProductResponse P body productId =
     bindR (jsonObject P body ''google_play_product_response'') (\<lambda>v.
     case object_member (member v ''purchaseStateContext'') ''purchaseState'' of
       Some (JStr purchaseState) \<Rightarrow>
         (case member v ''productLineItem'' of
            Some (JArr lineItems) \<Rightarrow>
              (let productMatched = list_ex (names_product productId) lineItems in
               bindR (case member v ''purchaseCompletionTime'' of
                        None \<Rightarrow> Inr None
                      | Some (JStr s) \<Rightarrow> (case py_date P s of Some t \<Rightarrow> Inr (Some t) | None \<Rightarrow> throw ''google_play_completion_time_invalid'')
                      | Some j \<Rightarrow> throw ''google_play_completion_time_invalid'') (\<lambda>completion.
               bindR (order_id_of (member v ''orderId'')) (\<lambda>orderId.
                 Inr \<lparr> np_purchaseState = purchaseState, np_completionTime = map_option toISOString completion, np_orderId = orderId,
                   np_productMatched = productMatched,
                   np_verified = (purchaseState = ''PURCHASED'' \<and> productMatched \<and> completion \<noteq> None \<and> orderId \<noteq> None) \<rparr>)))
          | _ \<Rightarrow> throw ''google_play_product_lines_missing'')
     | _ \<Rightarrow> throw ''google_play_purchase_state_missing'')"

record normalized_subscription =
  ns_subscriptionState :: string
  ns_productMatched :: bool
  ns_verified :: bool
  ns_startTime :: string
  ns_orderId :: "string option"

definition settled_states :: "string list" where
  "settled_states = [''SUBSCRIPTION_STATE_ACTIVE'', ''SUBSCRIPTION_STATE_PAUSED'', ''SUBSCRIPTION_STATE_IN_GRACE_PERIOD'',
     ''SUBSCRIPTION_STATE_ON_HOLD'', ''SUBSCRIPTION_STATE_CANCELED'', ''SUBSCRIPTION_STATE_EXPIRED'']"

definition normalizeGooglePlaySubscriptionResponse :: "play_env \<Rightarrow> string \<Rightarrow> string \<Rightarrow> normalized_subscription res" where
  "normalizeGooglePlaySubscriptionResponse P body productId =
     bindR (jsonObject P body ''google_play_subscription_response'') (\<lambda>v.
     case member v ''subscriptionState'' of
       Some (JStr subscriptionState) \<Rightarrow>
         (case (case member v ''startTime'' of Some (JStr s) \<Rightarrow> py_date P s | _ \<Rightarrow> None) of
            None \<Rightarrow> throw ''google_play_subscription_start_time_invalid''
          | Some start \<Rightarrow>
              (case member v ''lineItems'' of
                 Some (JArr lineItems) \<Rightarrow>
                   (let matches = filter (names_product productId) lineItems; productMatched = (length matches = 1) in
                    bindR (order_id_of (if productMatched then object_member (Some (hd matches)) ''latestSuccessfulOrderId'' else None)) (\<lambda>orderId.
                      Inr \<lparr> ns_subscriptionState = subscriptionState, ns_productMatched = productMatched,
                        ns_verified = (subscriptionState \<in> set settled_states \<and> productMatched \<and> orderId \<noteq> None),
                        ns_startTime = toISOString start, ns_orderId = orderId \<rparr>))
               | _ \<Rightarrow> throw ''google_play_subscription_lines_missing''))
     | _ \<Rightarrow> throw ''google_play_subscription_state_missing'')"

section \<open>Orders\<close>

record order_money =
  om_amountUnscaled :: string
  om_amountScale :: nat
  om_currency :: string

text \<open>\<open>/^-?[0-9]+$/\<close> with its value.\<close>

definition signed_digits :: "string \<Rightarrow> int option" where
  "signed_digits s =
     (case s of
        c # r \<Rightarrow> if c = CHR ''-'' then (if all_digits r then map_option (\<lambda>n. - int n) (dec_value r) else None)
                 else if all_digits s then map_option int (dec_value s) else None
      | [] \<Rightarrow> None)"

definition money_nanos_of :: "json option \<Rightarrow> int option" where
  "money_nanos_of v =
     (case v of
        None \<Rightarrow> Some 0
      | Some j \<Rightarrow> (case integer_of j of Some n \<Rightarrow> if \<bar>n\<bar> \<le> 999999999 then Some n else None | None \<Rightarrow> None))"

definition money_units_of :: "json option \<Rightarrow> int option" where
  "money_units_of v = (case v of None \<Rightarrow> Some 0 | Some (JStr s) \<Rightarrow> signed_digits s | Some j \<Rightarrow> None)"

definition orderMoney :: "json option \<Rightarrow> order_money res" where
  "orderMoney v =
     (case v of
        Some (JObj money) \<Rightarrow>
          (case member money ''currencyCode'' of
             Some (JStr currency) \<Rightarrow>
               guardR (currency_code currency) ''google_play_order_currency_invalid''
                 (case (money_units_of (member money ''units''), money_nanos_of (member money ''nanos'')) of
                    (Some units, Some nanos) \<Rightarrow>
                      guardR (\<not> (0 < units \<and> nanos < 0 \<or> units < 0 \<and> 0 < nanos)) ''google_play_order_money_sign_invalid''
                        (let amount = units * 1000000000 + nanos in
                         guardR (0 \<le> amount) ''google_play_order_money_negative''
                           (Inr \<lparr> om_amountUnscaled = show_int amount, om_amountScale = 9, om_currency = currency \<rparr>))
                  | _ \<Rightarrow> throw ''google_play_order_money_invalid'')
           | _ \<Rightarrow> throw ''google_play_order_currency_invalid'')
      | _ \<Rightarrow> throw ''google_play_order_money_missing'')"

datatype play_kind = One_Time_Product | Subscription_Initial | Subscription_Renewal

record normalized_order =
  no_orderState :: string
  no_productMatched :: bool
  no_tokenMatched :: bool
  no_verified :: bool
  no_money :: "order_money option"
  no_servicePeriodStartTime :: "string option"

record expected_order =
  xo_orderId :: string
  xo_purchaseToken :: string
  xo_productId :: string
  xo_purchaseKind :: play_kind
  xo_subscriptionStartTime :: "string option"

text \<open>The service period of a line against the start of the subscription.\<close>

definition service_start_fits :: "play_env \<Rightarrow> expected_order \<Rightarrow> json option \<Rightarrow> bool" where
  "service_start_fits P x v =
     (case (xo_subscriptionStartTime x, case v of Some (JStr s) \<Rightarrow> py_date P s | _ \<Rightarrow> None) of
        (Some start, Some t) \<Rightarrow>
          if xo_purchaseKind x = Subscription_Initial then toISOString t = start
          else (case py_date P start of Some begin_at \<Rightarrow> begin_at < t | None \<Rightarrow> False)
      | _ \<Rightarrow> False)"

definition line_matches :: "play_env \<Rightarrow> expected_order \<Rightarrow> json \<Rightarrow> bool" where
  "line_matches P x line \<longleftrightarrow>
     names_product (xo_productId x) line
     \<and> (case xo_purchaseKind x of
          One_Time_Product \<Rightarrow> (case object_member (Some line) ''oneTimePurchaseDetails'' of Some (JObj d) \<Rightarrow> True | _ \<Rightarrow> False)
        | _ \<Rightarrow> (case object_member (Some line) ''subscriptionDetails'' of
            Some (JObj d) \<Rightarrow> service_start_fits P x (member d ''servicePeriodStartTime'')
          | _ \<Rightarrow> False))"

definition service_period :: "play_env \<Rightarrow> json \<Rightarrow> string option res" where
  "service_period P line =
     (case object_member (object_member (Some line) ''subscriptionDetails'') ''servicePeriodStartTime'' of
        Some (JStr s) \<Rightarrow> (case py_date P s of Some t \<Rightarrow> Inr (Some (toISOString t)) | None \<Rightarrow> throw ''Invalid time value'')
      | _ \<Rightarrow> Inr None)"

definition unverified_order :: "string \<Rightarrow> bool \<Rightarrow> bool \<Rightarrow> normalized_order" where
  "unverified_order state tokenMatched productMatched = \<lparr> no_orderState = state, no_productMatched = productMatched, no_tokenMatched = tokenMatched,
     no_verified = False, no_money = None, no_servicePeriodStartTime = None \<rparr>"

definition normalizeGooglePlayOrderResponse :: "play_env \<Rightarrow> string \<Rightarrow> expected_order \<Rightarrow> normalized_order res" where
  "normalizeGooglePlayOrderResponse P body x =
     bindR (jsonObject P body ''google_play_order_response'') (\<lambda>v.
     case member v ''state'' of
       Some (JStr orderState) \<Rightarrow>
         (let tokenMatched = (member v ''purchaseToken'' = Some (JStr (xo_purchaseToken x))) in
          if member v ''orderId'' \<noteq> Some (JStr (xo_orderId x)) then Inr (unverified_order orderState tokenMatched False)
          else (case member v ''lineItems'' of
             Some (JArr lineItems) \<Rightarrow>
               (let matches = filter (line_matches P x) lineItems; productMatched = (length matches = 1) in
                if orderState \<noteq> ''PROCESSED'' \<or> \<not> tokenMatched \<or> \<not> productMatched
                then Inr (unverified_order orderState tokenMatched productMatched)
                else bindR (orderMoney (object_member (Some (hd matches)) ''total'')) (\<lambda>money.
                     bindR (service_period P (hd matches)) (\<lambda>start.
                       Inr \<lparr> no_orderState = orderState, no_productMatched = productMatched, no_tokenMatched = tokenMatched, no_verified = True,
                         no_money = Some money, no_servicePeriodStartTime = start \<rparr>)))
           | _ \<Rightarrow> throw ''google_play_order_lines_missing''))
     | _ \<Rightarrow> throw ''google_play_order_state_missing'')"

section \<open>The claim of a purchase\<close>

record verification_row =
  vr_verification_id :: string
  vr_app_id :: string
  vr_subject_record_id :: string
  vr_token_ref :: string
  vr_token_digest :: string
  vr_product_id :: string
  vr_purchase_kind :: play_kind
  vr_verified_record_id :: string
  vr_attempts :: nat
  vr_next_attempt_at :: int
  vr_claim_token :: "string option"
  vr_claimed_until :: int

record purchase_claim =
  pm_token :: string
  pm_installationId :: string
  pm_amountUnscaled :: string
  pm_amountScale :: rat
  pm_currency :: string

definition kind_text :: "play_kind \<Rightarrow> string" where
  "kind_text k = (case k of One_Time_Product \<Rightarrow> ''one_time_product'' | Subscription_Initial \<Rightarrow> ''subscription_initial''
     | Subscription_Renewal \<Rightarrow> ''subscription_renewal'')"

definition renewal_claim :: "play_env \<Rightarrow> verification_row \<Rightarrow> json_object \<Rightarrow> purchase_claim res" where
  "renewal_claim P row body =
     (case (member body ''purchase_token'', member body ''installation_id'') of
        (Some (JStr token), Some (JStr installation)) \<Rightarrow>
          guardR (py_sha256 P token = vr_token_digest row \<and> installation \<noteq> []) ''google_play_renewal_claim_invalid''
            (Inr \<lparr> pm_token = token, pm_installationId = installation, pm_amountUnscaled = ''0'', pm_amountScale = 0, pm_currency = ''XXX'' \<rparr>)
      | _ \<Rightarrow> throw ''google_play_renewal_claim_invalid'')"

definition purchase_claim_of :: "play_env \<Rightarrow> verification_row \<Rightarrow> json_object \<Rightarrow> json_object \<Rightarrow> json_object \<Rightarrow> purchase_claim res" where
  "purchase_claim_of P row record purchase extensions =
     (let kind = (case member extensions ''google_play_purchase_kind'' of None \<Rightarrow> JStr ''one_time_product'' | Some JNull \<Rightarrow> JStr ''one_time_product''
                  | Some j \<Rightarrow> j) in
      case (member extensions ''google_play_purchase_token_protected'', member purchase ''installation_id'', member purchase ''amount_unscaled'',
            member purchase ''amount_scale'', member purchase ''currency'') of
        (Some (JStr token), Some (JStr installation), Some (JStr amount), Some (JNum scale), Some (JStr currency)) \<Rightarrow>
          guardR (member record ''event_name'' = Some (JStr ''purchase'') \<and> member purchase ''financial_status'' = Some (JStr ''pending'')
              \<and> py_sha256 P token = vr_token_digest row
              \<and> member extensions ''google_play_product_id_protected'' = Some (JStr (vr_product_id row))
              \<and> kind = JStr (kind_text (vr_purchase_kind row))) ''google_play_purchase_claim_invalid''
            (Inr \<lparr> pm_token = token, pm_installationId = installation, pm_amountUnscaled = amount, pm_amountScale = scale, pm_currency = currency \<rparr>)
      | _ \<Rightarrow> throw ''google_play_purchase_claim_invalid'')"

text \<open>The bytes of the batch are those that the payload store returned.\<close>

definition claimFor :: "play_env \<Rightarrow> string res \<Rightarrow> verification_row \<Rightarrow> purchase_claim res" where
  "claimFor P bytes row =
     bindR bytes (\<lambda>text. bindR (jsonObject P text ''google_play_purchase_batch'') (\<lambda>body.
     if vr_purchase_kind row = Subscription_Renewal then renewal_claim P row body
     else case member body ''records'' of
       Some (JArr records) \<Rightarrow>
         (case find (\<lambda>r. object_member (Some r) ''record_id'' = Some (JStr (vr_subject_record_id row))) records of
            Some (JObj record) \<Rightarrow>
              (case member record ''payload'' of
                 Some (JObj purchase) \<Rightarrow>
                   (case member purchase ''extensions'' of
                      Some (JObj extensions) \<Rightarrow> purchase_claim_of P row record purchase extensions
                    | _ \<Rightarrow> throw ''google_play_purchase_claim_missing'')
               | _ \<Rightarrow> throw ''google_play_purchase_claim_missing'')
          | _ \<Rightarrow> throw ''google_play_purchase_claim_missing'')
     | _ \<Rightarrow> throw ''google_play_purchase_batch_invalid''))"

section \<open>What a verified order says\<close>

text \<open>The store's own statement of the money: units and billionths, never negative, and exact.\<close>

definition states_money :: "json option \<Rightarrow> order_money \<Rightarrow> bool" where
  "states_money v m \<longleftrightarrow> (\<exists>ms units nanos. v = Some (JObj ms)
     \<and> member ms ''currencyCode'' = Some (JStr (om_currency m)) \<and> currency_code (om_currency m)
     \<and> money_units_of (member ms ''units'') = Some units \<and> money_nanos_of (member ms ''nanos'') = Some nanos
     \<and> \<bar>nanos\<bar> < 10 ^ 9 \<and> 0 \<le> units * 10 ^ 9 + nanos
     \<and> om_amountUnscaled m = show_nat (nat (units * 10 ^ 9 + nanos)) \<and> om_amountScale m = 9)"

lemma text_case_Inr [result_simps]:
  "(case v of Some (JStr s) \<Rightarrow> f s | _ \<Rightarrow> throw m) = Inr r \<longleftrightarrow> (\<exists>s. v = Some (JStr s) \<and> f s = Inr r)"
  by (auto split: option.splits json.splits)

lemma array_case_Inr [result_simps]:
  "(case v of Some (JArr xs) \<Rightarrow> f xs | _ \<Rightarrow> throw m) = Inr r \<longleftrightarrow> (\<exists>xs. v = Some (JArr xs) \<and> f xs = Inr r)"
  by (auto split: option.splits json.splits)

lemma object_case_Inr [result_simps]:
  "(case v of Some (JObj ms) \<Rightarrow> f ms | _ \<Rightarrow> throw m) = Inr r \<longleftrightarrow> (\<exists>ms. v = Some (JObj ms) \<and> f ms = Inr r)"
  by (auto split: option.splits json.splits)

lemma option_case_Inr [result_simps]: "(case v of None \<Rightarrow> throw m | Some x \<Rightarrow> f x) = Inr r \<longleftrightarrow> (\<exists>x. v = Some x \<and> f x = Inr r)"
  by (auto split: option.splits)

lemma jsonObject_Some: "jsonObject P body label = Inr v \<Longrightarrow> py_parse P body = Some (JObj v)"
  by (auto simp: jsonObject_def guardR_eq_Inr split: option.splits json.splits)

lemma money_nanos_bound: "money_nanos_of v = Some n \<Longrightarrow> \<bar>n\<bar> \<le> 999999999"
  by (auto simp: money_nanos_of_def split: option.splits if_splits)

lemma orderMoney_states:
  assumes "orderMoney v = Inr m"
  shows "states_money v m"
proof -
  from assms obtain ms currency where ms: "v = Some (JObj ms)" "member ms ''currencyCode'' = Some (JStr currency)" "currency_code currency"
    and run: "(case (money_units_of (member ms ''units''), money_nanos_of (member ms ''nanos'')) of
                    (Some units, Some nanos) \<Rightarrow>
                      guardR (\<not> (0 < units \<and> nanos < 0 \<or> units < 0 \<and> 0 < nanos)) ''google_play_order_money_sign_invalid''
                        (let amount = units * 1000000000 + nanos in
                         guardR (0 \<le> amount) ''google_play_order_money_negative''
                           (Inr \<lparr> om_amountUnscaled = show_int amount, om_amountScale = 9, om_currency = currency \<rparr>))
                  | _ \<Rightarrow> throw ''google_play_order_money_invalid'') = Inr m"
    unfolding orderMoney_def by (auto simp: object_case_Inr text_case_Inr guardR_eq_Inr)
  then obtain units nanos where n: "money_units_of (member ms ''units'') = Some units" "money_nanos_of (member ms ''nanos'') = Some nanos"
    by (auto split: option.splits)
  with run have "0 \<le> units * 1000000000 + nanos"
    "m = \<lparr> om_amountUnscaled = show_int (units * 1000000000 + nanos), om_amountScale = 9, om_currency = currency \<rparr>"
    by (auto simp: guardR_eq_Inr Let_def)
  with ms n money_nanos_bound [OF n(2)] show ?thesis
    unfolding states_money_def by (intro exI [of _ ms] exI [of _ units] exI [of _ nanos]) (simp add: show_int_def)
qed

text \<open>C14. An order is verified only when it is processed, has the expected identifier and token, and exactly one of its
  lines fits the product, its kind and its service period; its money is what that line states.\<close>

theorem verified_order_sound:
  assumes "normalizeGooglePlayOrderResponse P body x = Inr r" "no_verified r"
  shows "\<exists>v lines line money. py_parse P body = Some (JObj v) \<and> member v ''state'' = Some (JStr ''PROCESSED'')
    \<and> member v ''orderId'' = Some (JStr (xo_orderId x)) \<and> member v ''purchaseToken'' = Some (JStr (xo_purchaseToken x))
    \<and> member v ''lineItems'' = Some (JArr lines) \<and> filter (line_matches P x) lines = [line]
    \<and> no_money r = Some money \<and> states_money (object_member (Some line) ''total'') money"
proof -
  from assms(1) obtain v orderState where v: "jsonObject P body ''google_play_order_response'' = Inr v" and s: "member v ''state'' = Some (JStr orderState)"
    by (auto simp: normalizeGooglePlayOrderResponse_def bindR_eq_Inr text_case_Inr)
  note run = assms(1) [unfolded normalizeGooglePlayOrderResponse_def v bindR_Inr s Let_def, simplified]
  have o: "member v ''orderId'' = Some (JStr (xo_orderId x))"
    using run assms(2) by (auto simp: unverified_order_def split: if_splits)
  obtain lines where l: "member v ''lineItems'' = Some (JArr lines)" using run by (auto simp: o array_case_Inr)
  have ok: "orderState = ''PROCESSED''" "member v ''purchaseToken'' = Some (JStr (xo_purchaseToken x))"
    "length (filter (line_matches P x) lines) = 1"
    using run assms(2) by (auto simp: o l unverified_order_def split: if_splits)
  then obtain line where line: "filter (line_matches P x) lines = [line]" by (auto simp: length_Suc_conv)
  obtain money where money: "orderMoney (object_member (Some line) ''total'') = Inr money" "no_money r = Some money"
    using run by (auto simp: o l ok line bindR_eq_Inr)
  show ?thesis using jsonObject_Some [OF v] s o l ok line money(2) orderMoney_states [OF money(1)] by auto
qed

section \<open>A sample\<close>

definition play_sample_line :: json where
  "play_sample_line = JObj [(''productId'', JStr ''gems''), (''oneTimePurchaseDetails'', JObj []),
     (''total'', JObj [(''currencyCode'', JStr ''EUR''), (''nanos'', JNum 5)])]"

definition play_sample_parse :: "string \<Rightarrow> json option" where
  "play_sample_parse s =
     (if s = ''B'' then Some (JObj [(''records'', JArr [JObj [(''record_id'', JStr ''r''), (''event_name'', JStr ''purchase''),
         (''payload'', JObj [(''financial_status'', JStr ''pending''), (''installation_id'', JStr ''i''), (''amount_unscaled'', JStr ''1''),
           (''amount_scale'', JNum 0), (''currency'', JStr ''EUR''),
           (''extensions'', JObj [(''google_play_purchase_token_protected'', JStr ''t''), (''google_play_product_id_protected'', JStr ''gems'')])])]])])
      else if s = ''P'' then Some (JObj [(''purchaseStateContext'', JObj [(''purchaseState'', JStr ''PURCHASED'')]),
         (''productLineItem'', JArr [JObj [(''productId'', JStr ''gems'')]]), (''purchaseCompletionTime'', JStr ''c''), (''orderId'', JStr ''o'')])
      else if s = ''O'' then Some (JObj [(''state'', JStr ''PROCESSED''), (''purchaseToken'', JStr ''t''), (''orderId'', JStr ''o''),
         (''lineItems'', JArr [play_sample_line])])
      else None)"

definition play_sample_env :: play_env where
  "play_sample_env = \<lparr> py_parse = play_sample_parse, py_date = (\<lambda>s. Some 0), py_sha256 = (\<lambda>s. ''d'') \<rparr>"

definition play_sample_expected :: expected_order where
  "play_sample_expected = \<lparr> xo_orderId = ''o'', xo_purchaseToken = ''t'', xo_productId = ''gems'', xo_purchaseKind = One_Time_Product,
     xo_subscriptionStartTime = None \<rparr>"

lemma play_sample_money: "orderMoney (object_member (Some play_sample_line) ''total'') = Inr \<lparr> om_amountUnscaled = ''5'', om_amountScale = 9, om_currency = ''EUR'' \<rparr>"
  by code_simp

lemma play_sample_order:
  "normalizeGooglePlayOrderResponse play_sample_env ''O'' play_sample_expected
     = Inr \<lparr> no_orderState = ''PROCESSED'', no_productMatched = True, no_tokenMatched = True, no_verified = True,
         no_money = Some \<lparr> om_amountUnscaled = ''5'', om_amountScale = 9, om_currency = ''EUR'' \<rparr>, no_servicePeriodStartTime = None \<rparr>"
proof -
  have "line_matches play_sample_env play_sample_expected play_sample_line" by code_simp
  moreover have "service_period play_sample_env play_sample_line = Inr None" by code_simp
  ultimately show ?thesis using play_sample_money
    by (simp add: normalizeGooglePlayOrderResponse_def jsonObject_def play_sample_env_def play_sample_parse_def guardR_def member_def play_sample_expected_def)
qed

theorem verified_order_sound_witness:
  "\<exists>v lines line money. py_parse play_sample_env ''O'' = Some (JObj v) \<and> member v ''lineItems'' = Some (JArr lines)
    \<and> filter (line_matches play_sample_env play_sample_expected) lines = [line] \<and> states_money (object_member (Some line) ''total'') money"
  using verified_order_sound [OF play_sample_order] by auto

end
