(* ===== verification/Play_Verifier.thy ===== *)
theory Play_Verifier
  imports Play_Responses Composite_Key
begin

text \<open>
  \<open>apps/worker/src/google-play-product-verifier.ts\<close>, the worker that turns pending purchases into verified revenue:
  the tables it reads and writes as one record, each statement as a function on it, every transaction with the
  faults it may meet, and the loop over due verifications. Several workers, the API and the erasure of records
  interleave as steps of these operations. One tenant is modelled, as row level security shows it; the bytes of
  the payload store, the provider, the ingestion of a record, clocks, identifiers and SHA-256 are arguments.
\<close>

section \<open>Tables\<close>

datatype verdict = Verified | Failed | Unavailable

record play_result =
  rs_result_id :: string
  rs_verification_id :: string
  rs_app_id :: string
  rs_subject_record_id :: string
  rs_verified_record_id :: "string option"
  rs_token_digest :: string
  rs_verdict :: verdict
  rs_state :: "string option"
  rs_order_state :: "string option"
  rs_product_matched :: bool
  rs_evidence_ref :: "string option"
  rs_response_digest :: "string option"
  rs_decided_at :: string
  rs_purchase_kind :: play_kind

record order_claim =
  oc_order_digest :: string
  oc_app_id :: string
  oc_verification_id :: string
  oc_token_digest :: string
  oc_product_id :: string
  oc_verified :: bool
  oc_claimed_at :: string

record settled_purchase =
  sp_record_id :: string
  sp_delivery_id :: string
  sp_app_id :: string
  sp_producer_version :: string
  sp_event_id :: string
  sp_occurred_at :: string
  sp_received_at :: string
  sp_installation_id :: string
  sp_transaction_id :: string
  sp_money :: order_money
  sp_result_id :: string
  sp_purchase_kind :: play_kind

record purchase_binding =
  pd_transaction_digest :: string
  pd_app_id :: string
  pd_purchase_record_id :: string
  pd_installation_digest :: string
  pd_money :: order_money
  pd_bound_at :: string

record play_token =
  tk_token_digest :: string
  tk_app_id :: string
  tk_verification_id :: string
  tk_registered_at :: string
  tk_product_id :: string
  tk_purchase_kind :: play_kind

text \<open>\<open>pb_available\<close> holds the raw records whose payload is available, \<open>pb_facts\<close> the settled purchases of this producer.\<close>

record play_db =
  pb_queue :: "verification_row list"
  pb_tokens :: "play_token list"
  pb_results :: "play_result list"
  pb_orders :: "order_claim list"
  pb_facts :: "settled_purchase list"
  pb_bindings :: "purchase_binding list"
  pb_available :: "(string \<times> string) list"

record play_world =
  pw_db :: play_db
  pw_evidence :: "(string \<times> string) list"
  pw_tick :: nat

text \<open>A commit, a transaction that fails and is rolled back, and a commit whose acknowledgement is lost.\<close>

datatype tx_outcome = Tx_Ok | Tx_Fails | Tx_Unacknowledged

datatype play_operation = Product_Operation | Subscription_Operation | Order_Operation

record play_request =
  pq_operation :: play_operation
  pq_packageName :: string
  pq_productId :: string
  pq_purchaseToken :: string
  pq_orderId :: "string option"

record play_host =
  ph_env :: play_env
  ph_tenant :: string
  ph_clock :: "nat \<Rightarrow> int"
  ph_outcome :: "nat \<Rightarrow> tx_outcome"
  ph_read :: "nat \<Rightarrow> string \<Rightarrow> string res"
  ph_write :: "nat \<Rightarrow> string res"
  ph_package :: "nat \<Rightarrow> string \<Rightarrow> string option res"
  ph_client :: "nat \<Rightarrow> play_request \<Rightarrow> (nat \<times> string) option"
  ph_ingest :: "settled_purchase list \<Rightarrow> settled_purchase \<Rightarrow> bool res"
  ph_identifier :: "nat \<Rightarrow> string"
  ph_base64 :: "string \<Rightarrow> string"

type_synonym 'a play = "play_world \<Rightarrow> play_world \<times> 'a res"

definition tick :: "play_world \<Rightarrow> play_world" where
  "tick w = w\<lparr>pw_tick := Suc (pw_tick w)\<rparr>"

definition commit_play :: "play_host \<Rightarrow> nat \<Rightarrow> play_db \<Rightarrow> 'a \<Rightarrow> 'a play" where
  "commit_play H k db x = (\<lambda>w.
     case ph_outcome H k of
       Tx_Ok \<Rightarrow> (w\<lparr>pw_db := db\<rparr>, Inr x)
     | Tx_Fails \<Rightarrow> (w, throw ''database'')
     | Tx_Unacknowledged \<Rightarrow> (w\<lparr>pw_db := db\<rparr>, throw ''database''))"

text \<open>A transaction whose body is a function of the tables and of the clock of the database.\<close>

definition transact_play :: "play_host \<Rightarrow> (int \<Rightarrow> play_db \<Rightarrow> (play_db \<times> 'a) res) \<Rightarrow> 'a play" where
  "transact_play H body = (\<lambda>w.
     case body (ph_clock H (pw_tick w)) (pw_db w) of
       Inl e \<Rightarrow> (tick w, Inl e)
     | Inr (db, x) \<Rightarrow> commit_play H (pw_tick w) db x (tick w))"

section \<open>Queueing\<close>

definition known_subject :: "string \<Rightarrow> string \<Rightarrow> play_db \<Rightarrow> bool" where
  "known_subject app subject db \<longleftrightarrow>
     list_ex (\<lambda>r. vr_app_id r = app \<and> vr_subject_record_id r = subject) (pb_queue db)
     \<or> list_ex (\<lambda>r. rs_app_id r = app \<and> rs_subject_record_id r = subject) (pb_results db)"

definition product_record_id :: "string \<Rightarrow> string" where
  "product_record_id vid = ''record:google-play:'' @ vid"

definition renewal_record_id :: "string \<Rightarrow> string" where
  "renewal_record_id digest = ''record:google-play-renewal:'' @ take 48 digest"

record pending_verification =
  pn_appId :: string
  pn_subjectRecordId :: string
  pn_tokenRef :: string
  pn_purchaseToken :: string
  pn_productId :: string
  pn_purchaseKind :: "play_kind option"
  pn_requestedAt :: string

definition queued_row :: "play_env \<Rightarrow> pending_verification \<Rightarrow> string \<Rightarrow> int \<Rightarrow> verification_row" where
  "queued_row P i vid due =
     \<lparr> vr_verification_id = vid, vr_app_id = pn_appId i, vr_subject_record_id = pn_subjectRecordId i, vr_token_ref = pn_tokenRef i,
       vr_token_digest = py_sha256 P (pn_purchaseToken i), vr_product_id = pn_productId i,
       vr_purchase_kind = the_or One_Time_Product (pn_purchaseKind i), vr_verified_record_id = product_record_id vid, vr_attempts = 0,
       vr_next_attempt_at = due, vr_claim_token = None, vr_claimed_until = 0 \<rparr>"

text \<open>
  The token digest and the verification identifier are keys: a second registration of a token is the violation
  \<open>23505\<close>, which the code reports as a reused token.
\<close>

definition queue_body :: "play_env \<Rightarrow> pending_verification \<Rightarrow> string \<Rightarrow> int \<Rightarrow> int \<Rightarrow> play_db \<Rightarrow> (play_db \<times> unit) res" where
  "queue_body P i vid due clock db =
     (if known_subject (pn_appId i) (pn_subjectRecordId i) db then Inr (db, ())
      else guardR (\<not> list_ex (\<lambda>t. tk_token_digest t = py_sha256 P (pn_purchaseToken i) \<or> tk_verification_id t = vid) (pb_tokens db)
          \<and> \<not> list_ex (\<lambda>r. vr_verification_id r = vid) (pb_queue db)) ''google_play_purchase_token_reused''
        (Inr (db\<lparr>pb_tokens := pb_tokens db @ [\<lparr> tk_token_digest = py_sha256 P (pn_purchaseToken i), tk_app_id = pn_appId i,
            tk_verification_id = vid, tk_registered_at = pn_requestedAt i, tk_product_id = pn_productId i,
            tk_purchase_kind = the_or One_Time_Product (pn_purchaseKind i) \<rparr>],
          pb_queue := pb_queue db @ [queued_row P i vid due]\<rparr>, ())))"

definition queueGooglePlayProductVerification :: "play_host \<Rightarrow> pending_verification \<Rightarrow> unit play" where
  "queueGooglePlayProductVerification H i = (\<lambda>w.
     if \<not> (1 \<le> length (pn_purchaseToken i) \<and> length (pn_purchaseToken i) \<le> 64 * 1024) then (w, throw ''google_play_purchase_token_invalid'')
     else if \<not> (1 \<le> utf16_length (pn_productId i) \<and> utf16_length (pn_productId i) \<le> 255) then (w, throw ''google_play_product_id_invalid'')
     else case py_date (ph_env H) (pn_requestedAt i) of
       None \<Rightarrow> (w, throw ''RangeError'')
     | Some due \<Rightarrow> transact_play H (queue_body (ph_env H) i (ph_identifier H (pw_tick w)) due) w)"

section \<open>Claims\<close>

definition due_row :: "play_kind list \<Rightarrow> int \<Rightarrow> int \<Rightarrow> verification_row \<Rightarrow> bool" where
  "due_row kinds now clock r \<longleftrightarrow> vr_next_attempt_at r \<le> now \<and> vr_purchase_kind r \<in> set kinds
     \<and> (vr_claim_token r = None \<or> vr_claimed_until r \<le> clock)"

definition first_due :: "play_kind list \<Rightarrow> int \<Rightarrow> int \<Rightarrow> play_db \<Rightarrow> verification_row option" where
  "first_due kinds now clock db =
     (case sort_key vr_next_attempt_at (sort_key vr_verification_id (filter (due_row kinds now clock) (pb_queue db))) of
        [] \<Rightarrow> None | r # rs \<Rightarrow> Some r)"

definition claimed :: "string \<Rightarrow> int \<Rightarrow> verification_row \<Rightarrow> verification_row" where
  "claimed token until_at r = r\<lparr>vr_claim_token := Some token, vr_claimed_until := until_at\<rparr>"

definition claim_body :: "play_kind list \<Rightarrow> int \<Rightarrow> string \<Rightarrow> int \<Rightarrow> int \<Rightarrow> play_db \<Rightarrow> (play_db \<times> verification_row option) res" where
  "claim_body kinds now token leaseMs clock db =
     (case first_due kinds now clock db of
        None \<Rightarrow> Inr (db, None)
      | Some r \<Rightarrow>
          Inr (db\<lparr>pb_queue := map (\<lambda>q. if vr_verification_id q = vr_verification_id r then claimed token (clock + leaseMs) q else q) (pb_queue db)\<rparr>,
               Some (claimed token (clock + leaseMs) r)))"

definition claimGooglePlayProductVerification :: "play_host \<Rightarrow> play_kind list \<Rightarrow> int \<Rightarrow> string \<Rightarrow> int \<Rightarrow> verification_row option play" where
  "claimGooglePlayProductVerification H kinds now token leaseMs = transact_play H (claim_body kinds now token leaseMs)"

definition own_row :: "verification_row \<Rightarrow> verification_row \<Rightarrow> bool" where
  "own_row row q \<longleftrightarrow> vr_app_id q = vr_app_id row \<and> vr_verification_id q = vr_verification_id row \<and> vr_claim_token q = vr_claim_token row"

definition lockCurrentClaim :: "int \<Rightarrow> verification_row \<Rightarrow> play_db \<Rightarrow> bool" where
  "lockCurrentClaim clock row db \<longleftrightarrow> list_ex (\<lambda>q. own_row row q \<and> clock < vr_claimed_until q) (pb_queue db)"

definition sourceIsAvailable :: "verification_row \<Rightarrow> play_db \<Rightarrow> bool" where
  "sourceIsAvailable row db \<longleftrightarrow> (vr_app_id row, vr_subject_record_id row) \<in> set (pb_available db)"

definition remove_claimed :: "verification_row \<Rightarrow> play_db \<Rightarrow> play_db" where
  "remove_claimed row db = db\<lparr>pb_queue := filter (\<lambda>q. \<not> own_row row q) (pb_queue db)\<rparr>"

section \<open>Completion\<close>

record verification_outcome =
  vo_verdict :: verdict
  vo_state :: "string option"
  vo_orderState :: "string option"
  vo_productMatched :: bool
  vo_completionTime :: "string option"

text \<open>What the first half of a completion decides: nothing is left to do, or the outcome, the record and the order.\<close>

datatype completion = Dropped | Proceed verification_outcome string "string option"

definition claimRenewalOrder :: "play_env \<Rightarrow> verification_row \<Rightarrow> string \<Rightarrow> int \<Rightarrow> play_db \<Rightarrow> play_db \<times> bool" where
  "claimRenewalOrder P row orderId now db =
     (let digest = py_sha256 P orderId;
          taken = list_ex (\<lambda>c. oc_order_digest c = digest \<or> oc_verification_id c = vr_verification_id row) (pb_orders db);
          db1 = (if taken then db else db\<lparr>pb_orders := pb_orders db @ [\<lparr> oc_order_digest = digest, oc_app_id = vr_app_id row,
              oc_verification_id = vr_verification_id row, oc_token_digest = vr_token_digest row, oc_product_id = vr_product_id row,
              oc_verified = False, oc_claimed_at = toISOString now \<rparr>]\<rparr>)
      in (db1, case find (\<lambda>c. oc_app_id c = vr_app_id row \<and> oc_order_digest c = digest) (pb_orders db1) of
                 Some c \<Rightarrow> oc_verification_id c = vr_verification_id row | None \<Rightarrow> False))"

definition begin_completion :: "play_env \<Rightarrow> verification_row \<Rightarrow> verification_outcome \<Rightarrow> purchase_claim option \<Rightarrow> order_money option \<Rightarrow>
    int \<Rightarrow> string option \<Rightarrow> int \<Rightarrow> play_db \<Rightarrow> (play_db \<times> completion) res" where
  "begin_completion P row outcome claim money now orderId clock db =
     (if \<not> lockCurrentClaim clock row db then Inr (db, Dropped)
      else if \<not> sourceIsAvailable row db then Inr (remove_claimed row db, Dropped)
      else if list_ex (\<lambda>r. rs_app_id r = vr_app_id row \<and> rs_verification_id r = vr_verification_id row) (pb_results db)
      then Inr (remove_claimed row db, Dropped)
      else let digest = (if truthy orderId then map_option (py_sha256 P) orderId else None) in
        if vo_verdict outcome \<noteq> Verified then Inr (db, Proceed outcome (vr_verified_record_id row) digest)
        else guardR (claim \<noteq> None \<and> truthy (vo_completionTime outcome) \<and> money \<noteq> None \<and> truthy orderId) ''google_play_verified_claim_missing''
          (if vr_purchase_kind row \<noteq> Subscription_Renewal then Inr (db, Proceed outcome (vr_verified_record_id row) digest)
           else case claimRenewalOrder P row (the_or [] orderId) now db of (db1, owned) \<Rightarrow>
             if owned then Inr (db1, Proceed outcome (renewal_record_id (the_or [] digest)) digest)
             else Inr (db1, Proceed (outcome\<lparr>vo_verdict := Failed\<rparr>) (vr_verified_record_id row) digest)))"

definition producer_version :: "play_kind \<Rightarrow> string" where
  "producer_version k = (case k of One_Time_Product \<Rightarrow> ''products-v2-orders-2026-08-24''
     | Subscription_Initial \<Rightarrow> ''subscriptions-v2-orders-2026-08-24'' | Subscription_Renewal \<Rightarrow> ''rtdn-subscriptions-v2-orders-2026-08-24'')"

definition purchase_record :: "verification_row \<Rightarrow> string \<Rightarrow> purchase_claim \<Rightarrow> string \<Rightarrow> order_money \<Rightarrow> string \<Rightarrow> int \<Rightarrow> settled_purchase" where
  "purchase_record row record_id claim completionTime money resultId now =
     \<lparr> sp_record_id = record_id, sp_delivery_id = ''delivery:google-play:'' @ vr_verification_id row, sp_app_id = vr_app_id row,
       sp_producer_version = producer_version (vr_purchase_kind row), sp_event_id = ''event:google-play:'' @ vr_verification_id row,
       sp_occurred_at = completionTime, sp_received_at = toISOString now, sp_installation_id = pm_installationId claim,
       sp_transaction_id = ''transaction:google-play:'' @ vr_verification_id row, sp_money = money, sp_result_id = resultId,
       sp_purchase_kind = vr_purchase_kind row \<rparr>"

text \<open>The record is ingested as a logical event, or it is one that was persisted before.\<close>

definition appendVerifiedPurchase :: "play_host \<Rightarrow> settled_purchase \<Rightarrow> play_db \<Rightarrow> play_db res" where
  "appendVerifiedPurchase H p db =
     bindR (ph_ingest H (pb_facts db) p) (\<lambda>accepted.
       if accepted then Inr (db\<lparr>pb_facts := pb_facts db @ [p]\<rparr>)
       else guardR (list_ex (\<lambda>f. sp_app_id f = sp_app_id p \<and> sp_record_id f = sp_record_id p) (pb_facts db))
         ''google_play_verified_purchase_not_persisted'' (Inr db))"

definition result_of_completion :: "verification_row \<Rightarrow> verification_outcome \<Rightarrow> string \<Rightarrow> string option \<Rightarrow> string option \<Rightarrow> string \<Rightarrow> int \<Rightarrow> play_result" where
  "result_of_completion row outcome record_id evidence response_digest resultId now =
     \<lparr> rs_result_id = resultId, rs_verification_id = vr_verification_id row, rs_app_id = vr_app_id row,
       rs_subject_record_id = vr_subject_record_id row, rs_verified_record_id = (if vo_verdict outcome = Verified then Some record_id else None),
       rs_token_digest = vr_token_digest row, rs_verdict = vo_verdict outcome, rs_state = vo_state outcome, rs_order_state = vo_orderState outcome,
       rs_product_matched = vo_productMatched outcome, rs_evidence_ref = evidence, rs_response_digest = response_digest,
       rs_decided_at = toISOString now, rs_purchase_kind = vr_purchase_kind row \<rparr>"

definition insert_result :: "play_result \<Rightarrow> play_db \<Rightarrow> play_db res" where
  "insert_result r db =
     guardR (\<not> list_ex (\<lambda>q. rs_verification_id q = rs_verification_id r \<or> rs_result_id q = rs_result_id r) (pb_results db)) ''23505''
       (Inr (db\<lparr>pb_results := pb_results db @ [r]\<rparr>))"

definition renewal_pending :: "verification_row \<Rightarrow> string \<Rightarrow> order_claim \<Rightarrow> bool" where
  "renewal_pending row digest c \<longleftrightarrow> oc_app_id c = vr_app_id row \<and> oc_order_digest c = digest
     \<and> oc_verification_id c = vr_verification_id row \<and> \<not> oc_verified c"

definition mark_renewal :: "verification_row \<Rightarrow> string option \<Rightarrow> play_db \<Rightarrow> play_db res" where
  "mark_renewal row digest db =
     guardR (truthy digest) ''google_play_renewal_order_digest_missing''
       (guardR (length (filter (renewal_pending row (the_or [] digest)) (pb_orders db)) = 1) ''google_play_renewal_order_claim_lost''
         (Inr (db\<lparr>pb_orders := map (\<lambda>c. if renewal_pending row (the_or [] digest) c then c\<lparr>oc_verified := True\<rparr> else c) (pb_orders db)\<rparr>)))"

definition bind_purchase :: "play_env \<Rightarrow> string \<Rightarrow> verification_row \<Rightarrow> string \<Rightarrow> string option \<Rightarrow> purchase_claim \<Rightarrow> order_money \<Rightarrow> int \<Rightarrow> play_db \<Rightarrow> play_db" where
  "bind_purchase P tenant row record_id digest claim money now db =
     (if truthy digest \<and> \<not> list_ex (\<lambda>b. pd_transaction_digest b = the_or [] digest) (pb_bindings db)
      then db\<lparr>pb_bindings := pb_bindings db @ [\<lparr> pd_transaction_digest = the_or [] digest, pd_app_id = vr_app_id row,
          pd_purchase_record_id = record_id,
          pd_installation_digest = py_sha256 P (tenant @ [CHR 0x00] @ vr_app_id row @ [CHR 0x00] @ pm_installationId claim),
          pd_money = money, pd_bound_at = toISOString now \<rparr>]\<rparr>
      else db)"

definition remove_completed :: "verification_row \<Rightarrow> play_db \<Rightarrow> play_db res" where
  "remove_completed row db =
     guardR (length (filter (own_row row) (pb_queue db)) = 1) ''google_play_claim_lost_during_completion'' (Inr (remove_claimed row db))"

definition finish_completion :: "play_host \<Rightarrow> verification_row \<Rightarrow> verification_outcome \<Rightarrow> string \<Rightarrow> string option \<Rightarrow> purchase_claim option \<Rightarrow>
    order_money option \<Rightarrow> string \<Rightarrow> string option \<Rightarrow> string option \<Rightarrow> int \<Rightarrow> play_db \<Rightarrow> play_db res" where
  "finish_completion H row outcome record_id digest claim money resultId evidence response_digest now db =
     (let settled = (vo_verdict outcome = Verified) in
      bindR (case (settled, claim, money) of
               (True, Some c, Some m) \<Rightarrow>
                 appendVerifiedPurchase H (purchase_record row record_id c (the_or [] (vo_completionTime outcome)) m resultId now) db
             | _ \<Rightarrow> Inr db) (\<lambda>db1.
      bindR (insert_result (result_of_completion row outcome record_id evidence response_digest resultId now) db1) (\<lambda>db2.
      bindR (if vr_purchase_kind row = Subscription_Renewal \<and> settled then mark_renewal row digest db2 else Inr db2) (\<lambda>db3.
      remove_completed row
        (case (settled, claim, money) of
           (True, Some c, Some m) \<Rightarrow> bind_purchase (ph_env H) (ph_tenant H) row record_id digest c m now db3
         | _ \<Rightarrow> db3)))))"

text \<open>The evidence is written before the result and removed again when the transaction throws.\<close>

definition write_evidence :: "play_host \<Rightarrow> nat \<Rightarrow> string option \<Rightarrow> verification_outcome \<Rightarrow> string option res" where
  "write_evidence H k body outcome =
     (if body = None \<or> vo_verdict outcome = Unavailable then Inr None else bindR (ph_write H k) (\<lambda>r. Inr (Some r)))"

definition store_evidence :: "string option \<Rightarrow> string option \<Rightarrow> play_world \<Rightarrow> play_world" where
  "store_evidence ref body w = (case ref of None \<Rightarrow> w | Some r \<Rightarrow> w\<lparr>pw_evidence := pw_evidence w @ [(r, the_or [] body)]\<rparr>)"

definition purge_evidence :: "string option \<Rightarrow> play_world \<Rightarrow> play_world" where
  "purge_evidence ref w = (case ref of None \<Rightarrow> w | Some r \<Rightarrow> w\<lparr>pw_evidence := filter (\<lambda>e. fst e \<noteq> r) (pw_evidence w)\<rparr>)"

definition complete :: "play_host \<Rightarrow> verification_row \<Rightarrow> verification_outcome \<Rightarrow> string option \<Rightarrow> purchase_claim option \<Rightarrow> order_money option \<Rightarrow>
    int \<Rightarrow> string option \<Rightarrow> verdict option play" where
  "complete H row outcome body claim money now orderId = (\<lambda>w.
     if vr_claim_token row = None then (w, throw ''google_play_claim_missing'')
     else let k = pw_tick w; w1 = tick w in
       case begin_completion (ph_env H) row outcome claim money now orderId (ph_clock H k) (pw_db w) of
         Inl e \<Rightarrow> (w1, Inl e)
       | Inr (db1, Dropped) \<Rightarrow> commit_play H k db1 None w1
       | Inr (db1, Proceed effective record_id digest) \<Rightarrow>
           (case write_evidence H k body effective of
              Inl e \<Rightarrow> (w1, Inl e)
            | Inr ref \<Rightarrow>
                let w2 = store_evidence ref body w1;
                    response_digest = (if ref = None then None else map_option (py_sha256 (ph_env H)) body) in
                (case finish_completion H row effective record_id digest claim money (ph_identifier H k) ref response_digest now db1 of
                   Inl e \<Rightarrow> (purge_evidence ref w2, Inl e)
                 | Inr db2 \<Rightarrow>
                     (case commit_play H k db2 (Some (vo_verdict effective)) w2 of
                        (w3, Inl e) \<Rightarrow> (purge_evidence ref w3, Inl e)
                      | (w3, Inr v) \<Rightarrow> (w3, Inr v)))))"

section \<open>Deferral\<close>

definition delay_seconds :: "nat \<Rightarrow> int" where
  "delay_seconds attempts = min (60 * 2 ^ attempts) 900"

definition deferred :: "int \<Rightarrow> nat \<Rightarrow> verification_row \<Rightarrow> verification_row" where
  "deferred now attempts q = q\<lparr>vr_attempts := Suc (vr_attempts q), vr_next_attempt_at := now + 1000 * delay_seconds attempts,
     vr_claim_token := None, vr_claimed_until := 0\<rparr>"

definition defer_body :: "verification_row \<Rightarrow> int \<Rightarrow> int \<Rightarrow> play_db \<Rightarrow> (play_db \<times> bool) res" where
  "defer_body row now clock db =
     (let held = (\<lambda>q. own_row row q \<and> clock < vr_claimed_until q) in
      Inr (db\<lparr>pb_queue := map (\<lambda>q. if held q then deferred now (vr_attempts row) q else q) (pb_queue db)\<rparr>,
           length (filter held (pb_queue db)) = 1))"

definition defer_row :: "play_host \<Rightarrow> verification_row \<Rightarrow> int \<Rightarrow> bool play" where
  "defer_row H row now = (\<lambda>w.
     if vr_claim_token row = None then (w, throw ''google_play_claim_missing'') else transact_play H (defer_body row now) w)"

section \<open>One verification\<close>

text \<open>
  A request starts only under a current claim and with its source available. \<open>None\<close> is a request that was not
  started; whatever throws on the way counts as status 503 without a body.
\<close>

definition beginProviderRequest :: "play_host \<Rightarrow> verification_row \<Rightarrow> play_request \<Rightarrow> play_world \<Rightarrow> play_world \<times> (nat \<times> string) option" where
  "beginProviderRequest H row request w =
     (if vr_claim_token row = None then (w, Some (503, []))
      else case transact_play H (\<lambda>clock db. Inr (db, lockCurrentClaim clock row db \<and> sourceIsAvailable row db)) w of
        (w1, Inl e) \<Rightarrow> (w1, Some (503, []))
      | (w1, Inr started) \<Rightarrow>
          if \<not> started then (w1, None)
          else (w1, Some (case ph_client H (pw_tick w) request of Some r \<Rightarrow> r | None \<Rightarrow> (503, []))))"

datatype row_outcome = Settled "verdict option" | Deferred bool | Not_Started

definition settle :: "verdict option play \<Rightarrow> row_outcome play" where
  "settle m = (\<lambda>w. case m w of (w1, Inl e) \<Rightarrow> (w1, Inl e) | (w1, Inr v) \<Rightarrow> (w1, Inr (Settled v)))"

definition outcome_of :: "verdict \<Rightarrow> string option \<Rightarrow> string option \<Rightarrow> bool \<Rightarrow> string option \<Rightarrow> verification_outcome" where
  "outcome_of v state orderState matched completionTime = \<lparr> vo_verdict = v, vo_state = state, vo_orderState = orderState,
     vo_productMatched = matched, vo_completionTime = completionTime \<rparr>"

definition retry_row :: "play_host \<Rightarrow> nat \<Rightarrow> verification_row \<Rightarrow> verification_outcome \<Rightarrow> purchase_claim \<Rightarrow> int \<Rightarrow> row_outcome play" where
  "retry_row H maximumAttempts row unavailable claim now =
     (if vr_attempts row + 1 < maximumAttempts
      then (\<lambda>w. case defer_row H row now w of (w1, Inl e) \<Rightarrow> (w1, Inl e) | (w1, Inr b) \<Rightarrow> (w1, Inr (Deferred b)))
      else settle (complete H row unavailable None (Some claim) None now None))"

text \<open>What the two kinds of first response have in common.\<close>

record first_response =
  fi_state :: string
  fi_productMatched :: bool
  fi_verified :: bool
  fi_orderId :: "string option"
  fi_completionTime :: "string option"
  fi_startTime :: "string option"

definition normalize_first :: "play_env \<Rightarrow> verification_row \<Rightarrow> string \<Rightarrow> first_response res" where
  "normalize_first P row body =
     (if vr_purchase_kind row = One_Time_Product
      then bindR (normalizeGooglePlayProductResponse P body (vr_product_id row)) (\<lambda>n.
        Inr \<lparr> fi_state = np_purchaseState n, fi_productMatched = np_productMatched n, fi_verified = np_verified n, fi_orderId = np_orderId n,
          fi_completionTime = np_completionTime n, fi_startTime = None \<rparr>)
      else bindR (normalizeGooglePlaySubscriptionResponse P body (vr_product_id row)) (\<lambda>n.
        Inr \<lparr> fi_state = ns_subscriptionState n, fi_productMatched = ns_productMatched n, fi_verified = ns_verified n, fi_orderId = ns_orderId n,
          fi_completionTime = None, fi_startTime = Some (ns_startTime n) \<rparr>))"

definition transient_status :: "nat \<Rightarrow> bool" where
  "transient_status status \<longleftrightarrow> status = 429 \<or> 500 \<le> status"

definition evidence_text :: "play_host \<Rightarrow> string \<Rightarrow> string \<Rightarrow> string" where
  "evidence_text H first second = ''{'' @ json_string ''purchase_response_base64'' @ '':'' @ json_string (ph_base64 H first) @ '',''
     @ json_string ''order_response_base64'' @ '':'' @ json_string (ph_base64 H second) @ ''}''"

definition expected_of :: "verification_row \<Rightarrow> purchase_claim \<Rightarrow> first_response \<Rightarrow> expected_order" where
  "expected_of row claim n = \<lparr> xo_orderId = the_or [] (fi_orderId n), xo_purchaseToken = pm_token claim, xo_productId = vr_product_id row,
     xo_purchaseKind = vr_purchase_kind row, xo_subscriptionStartTime = (if vr_purchase_kind row = One_Time_Product then None else fi_startTime n) \<rparr>"

definition completion_time :: "verification_row \<Rightarrow> first_response \<Rightarrow> normalized_order \<Rightarrow> string option" where
  "completion_time row n r = (case vr_purchase_kind row of One_Time_Product \<Rightarrow> fi_completionTime n | Subscription_Initial \<Rightarrow> fi_startTime n
     | Subscription_Renewal \<Rightarrow> no_servicePeriodStartTime r)"

text \<open>From the response of the order on.\<close>

definition decide_order :: "play_host \<Rightarrow> nat \<Rightarrow> verification_row \<Rightarrow> purchase_claim \<Rightarrow> string \<Rightarrow> first_response \<Rightarrow> int \<Rightarrow> nat \<times> string \<Rightarrow> row_outcome play" where
  "decide_order H maximumAttempts row claim first n now = (\<lambda>(status, body).
     let state = Some (fi_state n); evidence = Some (if status = 200 then evidence_text H first body else body) in
     if transient_status status then retry_row H maximumAttempts row (outcome_of Unavailable state None True None) claim now
     else if status \<noteq> 200 then settle (complete H row (outcome_of Failed state None True None) evidence (Some claim) None now None)
     else case normalizeGooglePlayOrderResponse (ph_env H) body (expected_of row claim n) of
       Inl e \<Rightarrow> settle (complete H row (outcome_of Failed state None True None) evidence (Some claim) None now None)
     | Inr r \<Rightarrow>
         if \<not> no_verified r \<or> no_money r = None
         then settle (complete H row (outcome_of Failed state (Some (no_orderState r)) (no_productMatched r) None) evidence (Some claim) None now None)
         else settle (complete H row (outcome_of Verified state (Some (no_orderState r)) True (completion_time row n r)) evidence (Some claim)
                (no_money r) now (fi_orderId n)))"

text \<open>From the first response on.\<close>

definition decide_first :: "play_host \<Rightarrow> nat \<Rightarrow> verification_row \<Rightarrow> purchase_claim \<Rightarrow> string \<Rightarrow> int \<Rightarrow> nat \<times> string \<Rightarrow> row_outcome play" where
  "decide_first H maximumAttempts row claim packageName now = (\<lambda>(status, body).
     if transient_status status then retry_row H maximumAttempts row (outcome_of Unavailable None None False None) claim now
     else if status \<noteq> 200 then settle (complete H row (outcome_of Failed None None False None) (Some body) (Some claim) None now None)
     else case normalize_first (ph_env H) row body of
       Inl e \<Rightarrow> settle (complete H row (outcome_of Failed None None False None) (Some body) (Some claim) None now None)
     | Inr n \<Rightarrow>
         if fi_state n = ''PENDING'' \<or> fi_state n = ''SUBSCRIPTION_STATE_PENDING''
         then retry_row H maximumAttempts row (outcome_of Unavailable (Some (fi_state n)) None (fi_productMatched n) None) claim now
         else if \<not> fi_verified n
         then settle (complete H row (outcome_of Failed (Some (fi_state n)) None (fi_productMatched n) None) (Some body) (Some claim) None now None)
         else (\<lambda>w. case beginProviderRequest H row \<lparr> pq_operation = Order_Operation, pq_packageName = packageName, pq_productId = vr_product_id row,
                   pq_purchaseToken = pm_token claim, pq_orderId = fi_orderId n \<rparr> w of
                 (w1, None) \<Rightarrow> (w1, Inr Not_Started)
               | (w1, Some response) \<Rightarrow> decide_order H maximumAttempts row claim body n now response w1))"

text \<open>
  One turn of the loop. Whatever throws while the claim and the package name are read, a lost connection or an
  unavailable payload store as much as a claim that does not fit, is the failure of the verification.
\<close>

definition process_row :: "play_host \<Rightarrow> nat \<Rightarrow> int \<Rightarrow> verification_row \<Rightarrow> row_outcome play" where
  "process_row H maximumAttempts now row = (\<lambda>w.
     let k = pw_tick w; claim = claimFor (ph_env H) (ph_read H k (vr_token_ref row)) row;
         packageName = bindR claim (\<lambda>c. ph_package H k (vr_app_id row)) in
     case (claim, packageName) of
       (Inr c, Inr (Some (p # ps))) \<Rightarrow>
         (case beginProviderRequest H row \<lparr> pq_operation = (if vr_purchase_kind row = One_Time_Product then Product_Operation else Subscription_Operation),
               pq_packageName = p # ps, pq_productId = vr_product_id row, pq_purchaseToken = pm_token c, pq_orderId = None \<rparr> w of
            (w1, None) \<Rightarrow> (w1, Inr Not_Started)
          | (w1, Some response) \<Rightarrow> decide_first H maximumAttempts row c (p # ps) now response w1)
     | _ \<Rightarrow> settle (complete H row (outcome_of Failed None None False None) (Some ''{}'') None None now None) w)"

section \<open>The loop\<close>

record play_counts =
  pt_verified :: nat
  pt_failed :: nat
  pt_unavailable :: nat
  pt_deferred :: nat

definition no_counts :: play_counts where
  "no_counts = \<lparr> pt_verified = 0, pt_failed = 0, pt_unavailable = 0, pt_deferred = 0 \<rparr>"

fun count_outcome :: "row_outcome \<Rightarrow> play_counts \<Rightarrow> play_counts" where
  "count_outcome (Settled (Some Verified)) c = c\<lparr>pt_verified := Suc (pt_verified c)\<rparr>"
| "count_outcome (Settled (Some Failed)) c = c\<lparr>pt_failed := Suc (pt_failed c)\<rparr>"
| "count_outcome (Settled (Some Unavailable)) c = c\<lparr>pt_unavailable := Suc (pt_unavailable c)\<rparr>"
| "count_outcome (Deferred True) c = c\<lparr>pt_deferred := Suc (pt_deferred c)\<rparr>"
| "count_outcome x c = c"

fun process_rows :: "play_host \<Rightarrow> nat \<Rightarrow> play_kind list \<Rightarrow> int \<Rightarrow> int \<Rightarrow> nat \<Rightarrow> play_counts \<Rightarrow> play_counts play" where
  "process_rows H maximumAttempts kinds leaseMs now 0 counts = (\<lambda>w. (w, Inr counts))"
| "process_rows H maximumAttempts kinds leaseMs now (Suc n) counts = (\<lambda>w.
     case claimGooglePlayProductVerification H kinds now (ph_identifier H (pw_tick w)) leaseMs w of
       (w1, Inl e) \<Rightarrow> (w1, Inl e)
     | (w1, Inr None) \<Rightarrow> (w1, Inr counts)
     | (w1, Inr (Some row)) \<Rightarrow>
         (case process_row H maximumAttempts now row w1 of
            (w2, Inl e) \<Rightarrow> (w2, Inl e)
          | (w2, Inr x) \<Rightarrow> process_rows H maximumAttempts kinds leaseMs now n (count_outcome x counts) w2))"

definition boundedInteger :: "rat option \<Rightarrow> int \<Rightarrow> int \<Rightarrow> int \<Rightarrow> string \<Rightarrow> int res" where
  "boundedInteger v fallback minimum maximum reason =
     (case safe_integer_of (JNum (the_or (of_int fallback) v)) of
        Some n \<Rightarrow> guardR (minimum \<le> n \<and> n \<le> maximum) reason (Inr n)
      | None \<Rightarrow> throw reason)"

record play_options =
  pp_enabled :: bool
  pp_maximumAttempts :: "nat option"
  pp_enabledKinds :: "play_kind list option"
  pp_claimLeaseMs :: "rat option"
  pp_requestTimeoutMs :: "rat option"

definition processGooglePlayProductVerifications :: "play_host \<Rightarrow> play_options \<Rightarrow> int \<Rightarrow> play_counts play" where
  "processGooglePlayProductVerifications H opts now = (\<lambda>w.
     let kinds = the_or [One_Time_Product, Subscription_Initial, Subscription_Renewal] (pp_enabledKinds opts) in
     if \<not> pp_enabled opts \<or> kinds = [] then (w, Inr no_counts)
     else case bindR (boundedInteger (pp_claimLeaseMs opts) 300000 1000 900000 ''google_play_claim_lease_invalid'') (\<lambda>lease.
            bindR (boundedInteger (pp_requestTimeoutMs opts) 10000 10 120000 ''google_play_request_timeout_invalid'') (\<lambda>timeout.
              guardR (timeout < lease) ''google_play_request_timeout_must_be_shorter_than_claim_lease'' (Inr lease))) of
       Inl e \<Rightarrow> (w, Inl e)
     | Inr lease \<Rightarrow> process_rows H (the_or 96 (pp_maximumAttempts opts)) kinds lease now 100 no_counts w)"

section \<open>Revenue is recorded once\<close>

definition well_formed :: "verification_row \<Rightarrow> bool" where
  "well_formed row \<longleftrightarrow> (vr_purchase_kind row \<noteq> Subscription_Renewal \<longrightarrow> vr_verified_record_id row = product_record_id (vr_verification_id row))"

text \<open>The records and the results of the verified verifications, in the order of the table.\<close>

definition verified_ids :: "play_result list \<Rightarrow> (string \<times> string) list" where
  "verified_ids rs = List.map_filter (\<lambda>r. map_option (\<lambda>i. (i, rs_result_id r)) (rs_verified_record_id r)) rs"

text \<open>The record of a verified result is that of its verification or that of the renewal order it owns.\<close>

definition grounded :: "order_claim list \<Rightarrow> play_result \<Rightarrow> bool" where
  "grounded cs r \<longleftrightarrow> (rs_verdict r = Verified \<longleftrightarrow> rs_verified_record_id r \<noteq> None)
     \<and> (\<forall>i. rs_verified_record_id r = Some i \<longrightarrow>
          (if rs_purchase_kind r = Subscription_Renewal
           then \<exists>c \<in> set cs. oc_verification_id c = rs_verification_id r \<and> oc_verified c \<and> i = renewal_record_id (oc_order_digest c)
           else i = product_record_id (rs_verification_id r)))"

definition play_ok :: "play_env \<Rightarrow> play_db \<Rightarrow> bool" where
  "play_ok P db \<longleftrightarrow> list_all well_formed (pb_queue db) \<and> distinct (map rs_verification_id (pb_results db))
     \<and> distinct (map oc_order_digest (pb_orders db)) \<and> distinct (map oc_verification_id (pb_orders db))
     \<and> list_all (\<lambda>c. \<exists>s. oc_order_digest c = py_sha256 P s) (pb_orders db)
     \<and> map (\<lambda>f. (sp_record_id f, sp_result_id f)) (pb_facts db) = verified_ids (pb_results db)
     \<and> list_all (grounded (pb_orders db)) (pb_results db) \<and> distinct (map fst (verified_ids (pb_results db)))"

text \<open>No two texts are known whose digests agree in their first 48 digits.\<close>

definition collision_free :: "play_env \<Rightarrow> bool" where
  "collision_free P \<longleftrightarrow> (\<forall>s t. take 48 (py_sha256 P s) = take 48 (py_sha256 P t) \<longrightarrow> py_sha256 P s = py_sha256 P t)"

lemma play_okD:
  assumes "play_ok P db"
  shows "list_all well_formed (pb_queue db)" "distinct (map rs_verification_id (pb_results db))" "distinct (map oc_order_digest (pb_orders db))"
    "distinct (map oc_verification_id (pb_orders db))" "list_all (\<lambda>c. \<exists>s. oc_order_digest c = py_sha256 P s) (pb_orders db)"
    "map (\<lambda>f. (sp_record_id f, sp_result_id f)) (pb_facts db) = verified_ids (pb_results db)" "list_all (grounded (pb_orders db)) (pb_results db)"
    "distinct (map fst (verified_ids (pb_results db)))"
  using assms by (simp_all add: play_ok_def)

lemma play_ok_queue: "play_ok P db \<Longrightarrow> list_all well_formed q \<Longrightarrow> play_ok P (db\<lparr>pb_queue := q\<rparr>)"
  by (simp add: play_ok_def)

lemma play_ok_other [simp]:
  "play_ok P (db\<lparr>pb_tokens := ts\<rparr>) = play_ok P db" "play_ok P (db\<lparr>pb_bindings := bs\<rparr>) = play_ok P db" "play_ok P (db\<lparr>pb_available := a\<rparr>) = play_ok P db"
  by (simp_all add: play_ok_def)

lemma well_formed_simps [simp]:
  "well_formed (claimed token until_at r) = well_formed r" "well_formed (deferred now n r) = well_formed r" "well_formed (queued_row P i vid due)"
  by (simp_all add: well_formed_def claimed_def deferred_def queued_row_def)

lemma queue_ok: "queue_body P i vid due clock db = Inr (db', u) \<Longrightarrow> play_ok P db \<Longrightarrow> play_ok P db'"
  by (auto simp: queue_body_def guardR_eq_Inr play_ok_def split: if_splits)

lemma play_ok_rows: "play_ok P db \<Longrightarrow> q \<in> set (pb_queue db) \<Longrightarrow> well_formed q"
  by (simp add: play_ok_def list_all_iff)

lemma first_due_mem:
  assumes "first_due kinds now clock db = Some r"
  shows "r \<in> set (pb_queue db) \<and> due_row kinds now clock r"
proof -
  obtain rs where "sort_key vr_next_attempt_at (sort_key vr_verification_id (filter (due_row kinds now clock) (pb_queue db))) = r # rs"
    using assms by (auto simp: first_due_def split: list.splits)
  then have "r \<in> set (filter (due_row kinds now clock) (pb_queue db))" by (metis list.set_intros(1) set_sort)
  then show ?thesis by simp
qed

lemma claim_ok:
  assumes "claim_body kinds now token leaseMs clock db = Inr (db', r)" "play_ok P db"
  shows "play_ok P db' \<and> (\<forall>row. r = Some row \<longrightarrow> well_formed row)"
  using assms first_due_mem [of kinds now clock db]
  by (auto simp: claim_body_def list_all_iff play_ok_rows intro!: play_ok_queue split: option.splits)

lemma defer_ok: "defer_body row now clock db = Inr (db', b) \<Longrightarrow> play_ok P db \<Longrightarrow> play_ok P db'"
  by (auto simp: defer_body_def Let_def list_all_iff play_ok_rows intro!: play_ok_queue)

lemma remove_ok: "play_ok P db \<Longrightarrow> play_ok P (remove_claimed row db)"
  by (auto simp: remove_claimed_def list_all_iff play_ok_rows intro!: play_ok_queue)

lemma grounded_mono:
  "grounded cs r \<Longrightarrow> (\<And>c. c \<in> set cs \<Longrightarrow> oc_verified c \<Longrightarrow> \<exists>d \<in> set ds. oc_verification_id d = oc_verification_id c
     \<and> oc_verified d \<and> oc_order_digest d = oc_order_digest c) \<Longrightarrow> grounded ds r"
  unfolding grounded_def by (auto split: if_splits) (metis+)

subsection \<open>The renewal order of a verification\<close>

definition owns_order :: "play_env \<Rightarrow> verification_row \<Rightarrow> string \<Rightarrow> play_db \<Rightarrow> bool" where
  "owns_order P row orderId db \<longleftrightarrow> (\<exists>c \<in> set (pb_orders db). oc_app_id c = vr_app_id row \<and> oc_order_digest c = py_sha256 P orderId
     \<and> oc_verification_id c = vr_verification_id row)"

lemma claimRenewalOrder_ok:
  assumes "claimRenewalOrder P row orderId now db = (db1, owned)" "play_ok P db"
  shows "play_ok P db1 \<and> pb_results db1 = pb_results db \<and> pb_facts db1 = pb_facts db \<and> pb_queue db1 = pb_queue db
    \<and> (owned \<longrightarrow> owns_order P row orderId db1)"
proof -
  let ?d = "py_sha256 P orderId"
  let ?c = "\<lparr> oc_order_digest = ?d, oc_app_id = vr_app_id row, oc_verification_id = vr_verification_id row,
      oc_token_digest = vr_token_digest row, oc_product_id = vr_product_id row, oc_verified = False, oc_claimed_at = toISOString now \<rparr>"
  let ?taken = "list_ex (\<lambda>c. oc_order_digest c = ?d \<or> oc_verification_id c = vr_verification_id row) (pb_orders db)"
  from assms(1) have db1: "db1 = (if ?taken then db else db\<lparr>pb_orders := pb_orders db @ [?c]\<rparr>)"
    and owned: "owned = (case find (\<lambda>c. oc_app_id c = vr_app_id row \<and> oc_order_digest c = ?d) (pb_orders db1) of
                 Some c \<Rightarrow> oc_verification_id c = vr_verification_id row | None \<Rightarrow> False)"
    by (auto simp: claimRenewalOrder_def Let_def)
  have "play_ok P (db\<lparr>pb_orders := pb_orders db @ [?c]\<rparr>)" if "\<not> ?taken"
  proof -
    have "grounded (pb_orders db @ [?c]) r" if "grounded (pb_orders db) r" for r
      by (rule grounded_mono [OF that]) auto
    then show ?thesis using assms(2) that by (auto simp: play_ok_def list_all_iff list_ex_iff)
  qed
  moreover have "owns_order P row orderId db1" if owned
    using that unfolding owned owns_order_def by (auto split: option.splits dest!: find_Some_iff2)
  ultimately show ?thesis using assms(2) unfolding db1 by auto
qed

lemma begin_ok:
  assumes "begin_completion P row outcome claim money now orderId clock db = Inr (db1, what)" "play_ok P db"
  shows "play_ok P db1"
proof (cases "vo_verdict outcome = Verified \<and> vr_purchase_kind row = Subscription_Renewal \<and> what \<noteq> Dropped")
  case True
  obtain db2 owned where c: "claimRenewalOrder P row (the_or [] orderId) now db = (db2, owned)" by fastforce
  with True assms(1) have "db1 = db2" by (auto simp: begin_completion_def guardR_eq_Inr Let_def split: if_splits)
  with claimRenewalOrder_ok [OF c assms(2)] show ?thesis by simp
next
  case False
  with assms show ?thesis by (auto simp: begin_completion_def guardR_eq_Inr Let_def intro: remove_ok split: if_splits prod.splits)
qed

text \<open>What a completion that goes on knows.\<close>

lemma begin_proceeds:
  assumes "begin_completion P row outcome claim money now orderId clock db = Inr (db1, Proceed effective record_id digest)" "play_ok P db"
  shows "pb_facts db1 = pb_facts db \<and> pb_results db1 = pb_results db
    \<and> (vo_verdict effective = Verified \<longrightarrow> effective = outcome \<and> claim \<noteq> None \<and> money \<noteq> None
         \<and> (if vr_purchase_kind row = Subscription_Renewal
            then \<exists>s. orderId = Some s \<and> digest = Some (py_sha256 P s) \<and> record_id = renewal_record_id (py_sha256 P s) \<and> owns_order P row s db1
            else record_id = vr_verified_record_id row))"
proof (cases "vo_verdict outcome = Verified \<and> vr_purchase_kind row = Subscription_Renewal")
  case True
  obtain db2 owned where c: "claimRenewalOrder P row (the_or [] orderId) now db = (db2, owned)" by fastforce
  from claimRenewalOrder_ok [OF this assms(2)] True assms(1) c show ?thesis
    by (cases orderId) (auto simp: begin_completion_def guardR_eq_Inr Let_def split: if_splits)
next
  case False
  with assms(1) show ?thesis by (auto simp: begin_completion_def guardR_eq_Inr Let_def split: if_splits)
qed

subsection \<open>A completion adds at most one record\<close>

definition record_known :: "play_env \<Rightarrow> verification_row \<Rightarrow> string \<Rightarrow> string option \<Rightarrow> play_db \<Rightarrow> bool" where
  "record_known P row record_id digest db \<longleftrightarrow>
     (if vr_purchase_kind row = Subscription_Renewal
      then \<exists>s. digest = Some (py_sha256 P s) \<and> record_id = renewal_record_id (py_sha256 P s) \<and> owns_order P row s db
      else record_id = product_record_id (vr_verification_id row))"

lemma verified_ids_mem: "(i, x) \<in> set (verified_ids rs) \<longleftrightarrow> (\<exists>r \<in> set rs. rs_verified_record_id r = Some i \<and> rs_result_id r = x)"
  by (induction rs) (auto simp: verified_ids_def map_filter_simps split: option.splits)

lemma verified_ids_append: "verified_ids (rs @ [r]) = verified_ids rs @ (case rs_verified_record_id r of None \<Rightarrow> [] | Some i \<Rightarrow> [(i, rs_result_id r)])"
  by (induction rs) (auto simp: verified_ids_def map_filter_simps split: option.splits)

lemma record_ids_differ [simp]: "product_record_id a \<noteq> renewal_record_id b" "renewal_record_id b \<noteq> product_record_id a"
  by (simp_all add: product_record_id_def renewal_record_id_def)

lemma product_record_id_inj [simp]: "product_record_id a = product_record_id b \<longleftrightarrow> a = b"
  by (simp add: product_record_id_def)

lemma fresh_record:
  assumes "play_ok P db" "collision_free P" "record_known P row record_id digest db"
    "vr_verification_id row \<notin> rs_verification_id ` set (pb_results db)"
  shows "record_id \<notin> fst ` set (verified_ids (pb_results db))"
proof
  assume "record_id \<in> fst ` set (verified_ids (pb_results db))"
  then obtain r where r: "r \<in> set (pb_results db)" "rs_verified_record_id r = Some record_id" by (auto simp: verified_ids_mem)
  with play_okD(7) [OF assms(1)] have g: "grounded (pb_orders db) r" by (simp add: list_all_iff)
  show False
  proof (cases "rs_purchase_kind r = Subscription_Renewal")
    case False
    with g r(2) have i: "record_id = product_record_id (rs_verification_id r)" by (simp add: grounded_def)
    with assms(3) have "rs_verification_id r = vr_verification_id row" by (auto simp: record_known_def split: if_splits)
    with assms(4) r(1) show False by (metis imageI)
  next
    case True
    with g r(2) obtain c where c: "c \<in> set (pb_orders db)" "oc_verification_id c = rs_verification_id r"
      and i: "record_id = renewal_record_id (oc_order_digest c)" by (auto simp: grounded_def)
    with assms(3) obtain s d where d: "d \<in> set (pb_orders db)" "oc_order_digest d = py_sha256 P s" "oc_verification_id d = vr_verification_id row"
      and j: "record_id = renewal_record_id (py_sha256 P s)" by (auto simp: record_known_def owns_order_def split: if_splits)
    from c(1) play_okD(5) [OF assms(1)] obtain t where t: "oc_order_digest c = py_sha256 P t" by (auto simp: list_all_iff)
    have "oc_order_digest c = oc_order_digest d"
      using assms(2) i j t d(2) by (auto simp: renewal_record_id_def collision_free_def)
    with c(1) d(1) play_okD(3) [OF assms(1)] have "c = d" by (metis distinct_map inj_onD)
    with c(2) d(3) have "rs_verification_id r = vr_verification_id row" by simp
    with assms(4) r(1) show False by (metis imageI)
  qed
qed

lemma append_shape:
  assumes "appendVerifiedPurchase H p db = Inr db1" "play_ok P db" "sp_record_id p \<notin> fst ` set (verified_ids (pb_results db))"
  shows "db1 = db\<lparr>pb_facts := pb_facts db @ [p]\<rparr>"
proof -
  have "fst ` set (verified_ids (pb_results db)) = sp_record_id ` set (pb_facts db)"
    unfolding play_okD(6) [OF assms(2), symmetric] by (auto simp: image_image)
  with assms(1,3) show ?thesis by (auto simp: appendVerifiedPurchase_def bindR_eq_Inr guardR_eq_Inr list_ex_iff image_iff split: if_splits)
qed

lemma mark_shape:
  assumes "mark_renewal row digest db = Inr db1"
  obtains d where "digest = Some d"
    "db1 = db\<lparr>pb_orders := map (\<lambda>c. if renewal_pending row d c then c\<lparr>oc_verified := True\<rparr> else c) (pb_orders db)\<rparr>"
  using assms by (cases digest) (auto simp: mark_renewal_def guardR_eq_Inr)

lemma mark_keeps:
  "map oc_order_digest (map (\<lambda>c. if f c then c\<lparr>oc_verified := True\<rparr> else c) cs) = map oc_order_digest cs"
  "map oc_verification_id (map (\<lambda>c. if f c then c\<lparr>oc_verified := True\<rparr> else c) cs) = map oc_verification_id cs"
  by auto

lemma grounded_marked: "grounded cs r \<Longrightarrow> grounded (map (\<lambda>c. if f c then c\<lparr>oc_verified := True\<rparr> else c) cs) r"
proof (rule grounded_mono)
  fix c assume "c \<in> set cs" "oc_verified c"
  then show "\<exists>d \<in> set (map (\<lambda>c. if f c then c\<lparr>oc_verified := True\<rparr> else c) cs). oc_verification_id d = oc_verification_id c
      \<and> oc_verified d \<and> oc_order_digest d = oc_order_digest c"
    by (intro bexI [of _ "if f c then c\<lparr>oc_verified := True\<rparr> else c"]) auto
qed

lemma insert_result_Some:
  "insert_result r db = Inr db1 \<longleftrightarrow> rs_verification_id r \<notin> rs_verification_id ` set (pb_results db)
     \<and> rs_result_id r \<notin> rs_result_id ` set (pb_results db) \<and> db1 = db\<lparr>pb_results := pb_results db @ [r]\<rparr>"
  by (auto simp: insert_result_def guardR_eq_Inr list_ex_iff image_iff)

lemma remove_completed_Some: "remove_completed row db = Inr db1 \<Longrightarrow> db1 = remove_claimed row db"
  by (auto simp: remove_completed_def guardR_eq_Inr)

lemma bind_ok [simp]: "play_ok P (bind_purchase Q t row i d c m now db) = play_ok P db"
  by (simp add: bind_purchase_def)

lemma finish_unverified:
  assumes "finish_completion H row outcome record_id digest claim money resultId evidence rd now db = Inr db'" "vo_verdict outcome \<noteq> Verified"
    "play_ok P db"
  shows "play_ok P db' \<and> pb_facts db' = pb_facts db"
proof -
  let ?r = "result_of_completion row outcome record_id evidence rd resultId now"
  from assms(1,2) obtain db2 where "insert_result ?r db = Inr db2" and db': "db' = remove_claimed row db2"
    by (auto simp: finish_completion_def bindR_eq_Inr Let_def split: option.splits dest!: remove_completed_Some)
  then have v: "rs_verification_id ?r \<notin> rs_verification_id ` set (pb_results db)" and db2: "db2 = db\<lparr>pb_results := pb_results db @ [?r]\<rparr>"
    by (simp_all add: insert_result_Some)
  have "rs_verified_record_id ?r = None" "grounded cs ?r" for cs
    using assms(2) by (auto simp: result_of_completion_def grounded_def)
  with v assms(3) have "play_ok P db2" unfolding db2 by (auto simp: play_ok_def verified_ids_append)
  then have "play_ok P (remove_claimed row db2)" by (rule remove_ok)
  then show ?thesis unfolding db' by (simp add: db2 remove_claimed_def)
qed

lemma finish_verified:
  assumes "finish_completion H row outcome record_id digest claim money resultId evidence rd now db = Inr db'" "vo_verdict outcome = Verified"
    "play_ok P db" "collision_free P" "record_known P row record_id digest db" "claim \<noteq> None" "money \<noteq> None"
  shows "play_ok P db' \<and> pb_facts db' = pb_facts db
    @ [purchase_record row record_id (the claim) (the_or [] (vo_completionTime outcome)) (the money) resultId now]"
proof -
  let ?r = "result_of_completion row outcome record_id evidence rd resultId now"
  obtain c m where cm: "claim = Some c" "money = Some m" using assms(6,7) by auto
  let ?p = "purchase_record row record_id c (the_or [] (vo_completionTime outcome)) m resultId now"
  from assms(1,2) cm obtain db1 db2 db3 where db1: "appendVerifiedPurchase H ?p db = Inr db1" and ins: "insert_result ?r db1 = Inr db2"
    and db3: "(if vr_purchase_kind row = Subscription_Renewal then mark_renewal row digest db2 else Inr db2) = Inr db3"
    and db': "db' = remove_claimed row (bind_purchase (ph_env H) (ph_tenant H) row record_id digest c m now db3)"
    by (auto simp: finish_completion_def bindR_eq_Inr Let_def dest!: remove_completed_Some)
  from db1 have same: "pb_results db1 = pb_results db" "pb_orders db1 = pb_orders db" "pb_queue db1 = pb_queue db"
    by (auto simp: appendVerifiedPurchase_def bindR_eq_Inr guardR_eq_Inr split: if_splits)
  from ins have v: "vr_verification_id row \<notin> rs_verification_id ` set (pb_results db)" and db2: "db2 = db1\<lparr>pb_results := pb_results db1 @ [?r]\<rparr>"
    by (simp_all add: insert_result_Some same result_of_completion_def)
  have fresh: "record_id \<notin> fst ` set (verified_ids (pb_results db))" by (rule fresh_record [OF assms(3-5) v])
  have "db1 = db\<lparr>pb_facts := pb_facts db @ [?p]\<rparr>"
    by (rule append_shape [OF db1 assms(3)]) (use fresh in \<open>simp add: purchase_record_def\<close>)
  with db2 have shape: "db2 = db\<lparr>pb_facts := pb_facts db @ [?p], pb_results := pb_results db @ [?r]\<rparr>" by simp
  have r: "rs_verified_record_id ?r = Some record_id" "rs_result_id ?r = resultId" "rs_verification_id ?r = vr_verification_id row"
    "rs_purchase_kind ?r = vr_purchase_kind row" "rs_verdict ?r = Verified"
    using assms(2) by (simp_all add: result_of_completion_def)
  have p: "sp_record_id ?p = record_id" "sp_result_id ?p = resultId" by (simp_all add: purchase_record_def)
  have "play_ok P db3 \<and> pb_facts db3 = pb_facts db @ [?p]"
  proof (cases "vr_purchase_kind row = Subscription_Renewal")
    case False
    with assms(5) have "record_id = product_record_id (vr_verification_id row)" by (simp add: record_known_def)
    with False r have "grounded (pb_orders db) ?r" by (simp add: grounded_def)
    with False db3 assms(3) v r p fresh show ?thesis by (auto simp: shape play_ok_def verified_ids_append)
  next
    case True
    obtain d where d: "digest = Some d"
      and db3': "db3 = db2\<lparr>pb_orders := map (\<lambda>c. if renewal_pending row d c then c\<lparr>oc_verified := True\<rparr> else c) (pb_orders db2)\<rparr>"
      using db3 True by (auto elim: mark_shape)
    let ?os = "map (\<lambda>c. if renewal_pending row d c then c\<lparr>oc_verified := True\<rparr> else c) (pb_orders db)"
    from assms(5) True d obtain s q where s: "d = py_sha256 P s" "record_id = renewal_record_id d"
      and q: "q \<in> set (pb_orders db)" "oc_app_id q = vr_app_id row" "oc_order_digest q = d" "oc_verification_id q = vr_verification_id row"
      by (auto simp: record_known_def owns_order_def)
    let ?q = "if renewal_pending row d q then q\<lparr>oc_verified := True\<rparr> else q"
    have "?q \<in> set ?os" "oc_verified ?q" "oc_order_digest ?q = d" "oc_verification_id ?q = vr_verification_id row"
      using q by (auto simp: renewal_pending_def)
    then have "grounded ?os ?r" using True r s(2) by (auto simp: grounded_def)
    moreover have "list_all (grounded ?os) (pb_results db)" using play_okD(7) [OF assms(3)] by (auto simp: list_all_iff intro: grounded_marked)
    moreover have "list_all (\<lambda>c. \<exists>s. oc_order_digest c = py_sha256 P s) ?os" using play_okD(5) [OF assms(3)] by (auto simp: list_all_iff)
    ultimately show ?thesis using assms(3) v r p fresh
      unfolding db3' shape by (simp add: play_ok_def verified_ids_append mark_keeps del: map_map)
  qed
  moreover from this have "play_ok P (remove_claimed row (bind_purchase (ph_env H) (ph_tenant H) row record_id digest c m now db3))"
    by (intro remove_ok) simp
  ultimately show ?thesis unfolding db' cm by (simp add: remove_claimed_def bind_purchase_def)
qed

subsection \<open>Transactions\<close>

lemma commit_cases:
  assumes "commit_play H k db x w = (w', r)"
  shows "pw_evidence w' = pw_evidence w \<and> pw_tick w' = pw_tick w \<and> (pw_db w' = db \<or> pw_db w' = pw_db w \<and> isl r) \<and> (\<not> isl r \<longrightarrow> r = Inr x)"
  using assms by (auto simp: commit_play_def throw_def split: tx_outcome.splits)

lemma transact_cases:
  assumes "transact_play H body w = (w', r)"
  shows "pw_evidence w' = pw_evidence w \<and> pw_tick w' = Suc (pw_tick w)
    \<and> (pw_db w' = pw_db w \<or> (\<exists>x. body (ph_clock H (pw_tick w)) (pw_db w) = Inr (pw_db w', x)))
    \<and> (\<forall>x. r = Inr x \<longrightarrow> body (ph_clock H (pw_tick w)) (pw_db w) = Inr (pw_db w', x))"
  using assms by (auto simp: transact_play_def commit_play_def tick_def throw_def split: sum.splits tx_outcome.splits)

lemma evidence_db [simp]: "pw_db (purge_evidence ref w) = pw_db w" "pw_db (store_evidence ref body w) = pw_db w" "pw_db (tick w) = pw_db w"
  by (simp_all add: purge_evidence_def store_evidence_def tick_def split: option.splits)

text \<open>What a completion does to the revenue: nothing, or one settled purchase with the money it was given.\<close>

definition adds_purchase :: "verification_row \<Rightarrow> verification_outcome \<Rightarrow> purchase_claim option \<Rightarrow> order_money option \<Rightarrow> play_db \<Rightarrow> play_db \<Rightarrow> bool" where
  "adds_purchase row outcome claim money db db' \<longleftrightarrow> (\<exists>c m p. vo_verdict outcome = Verified \<and> claim = Some c \<and> money = Some m
     \<and> pb_facts db' = pb_facts db @ [p] \<and> sp_money p = m \<and> sp_installation_id p = pm_installationId c
     \<and> sp_delivery_id p = ''delivery:google-play:'' @ vr_verification_id row \<and> sp_purchase_kind p = vr_purchase_kind row
     \<and> sp_app_id p = vr_app_id row \<and> vo_completionTime outcome = Some (sp_occurred_at p))"

lemma begin_record_known:
  assumes "begin_completion P row outcome claim money now orderId clock db = Inr (db1, Proceed effective record_id digest)" "play_ok P db"
    "well_formed row" "vo_verdict effective = Verified"
  shows "effective = outcome \<and> claim \<noteq> None \<and> money \<noteq> None \<and> record_known P row record_id digest db1"
  using begin_proceeds [OF assms(1,2)] assms(3,4) by (auto simp: record_known_def well_formed_def split: if_splits)

lemma begin_time:
  assumes "begin_completion P row outcome claim money now orderId clock db = Inr (db1, Proceed effective record_id digest)" "vo_verdict effective = Verified"
  shows "truthy (vo_completionTime outcome)"
  using assms by (auto simp: begin_completion_def guardR_eq_Inr Let_def split: if_splits prod.splits)

lemma finish_ok:
  assumes "begin_completion (ph_env H) row outcome claim money now orderId clock db = Inr (db1, Proceed effective record_id digest)"
    "finish_completion H row effective record_id digest claim money resultId evidence rd now db1 = Inr db2"
    "play_ok (ph_env H) db" "collision_free (ph_env H)" "well_formed row"
  shows "play_ok (ph_env H) db2 \<and> (pb_facts db2 = pb_facts db \<or> adds_purchase row outcome claim money db db2)"
proof -
  have db1: "play_ok (ph_env H) db1" by (rule begin_ok [OF assms(1,3)])
  have facts: "pb_facts db1 = pb_facts db" using begin_proceeds [OF assms(1,3)] by simp
  show ?thesis
  proof (cases "vo_verdict effective = Verified")
    case False
    with finish_unverified [OF assms(2) _ db1] facts show ?thesis by simp
  next
    case True
    note known = begin_record_known [OF assms(1,3,5) True]
    then obtain c m where cm: "claim = Some c" "money = Some m" by auto
    from begin_time [OF assms(1) True] obtain t where t: "vo_completionTime outcome = Some t" by (cases "vo_completionTime outcome") auto
    from finish_verified [OF assms(2) True db1 assms(4)] known
    have "play_ok (ph_env H) db2" "pb_facts db2 = pb_facts db @ [purchase_record row record_id c t m resultId now]"
      using cm t facts by auto
    with True known cm t show ?thesis unfolding adds_purchase_def by (auto simp: purchase_record_def)
  qed
qed

lemma complete_ok:
  assumes "complete H row outcome body claim money now orderId w = (w', r)" "play_ok (ph_env H) (pw_db w)" "collision_free (ph_env H)" "well_formed row"
  shows "play_ok (ph_env H) (pw_db w')
    \<and> (pb_facts (pw_db w') = pb_facts (pw_db w) \<or> adds_purchase row outcome claim money (pw_db w) (pw_db w'))"
proof (cases "vr_claim_token row = None")
  case False
  then obtain token where token: "vr_claim_token row = Some token" by auto
  let ?clk = "ph_clock H (pw_tick w)"
  show ?thesis
  proof (cases "begin_completion (ph_env H) row outcome claim money now orderId ?clk (pw_db w)")
    case (Inl e)
    with assms(1,2) False show ?thesis by (auto simp: complete_def Let_def)
  next
    case (Inr bw)
    then obtain db1 what where b: "begin_completion (ph_env H) row outcome claim money now orderId ?clk (pw_db w) = Inr (db1, what)" by (cases bw) auto
    show ?thesis
    proof (cases what)
      case Dropped
      then have "pb_facts db1 = pb_facts (pw_db w)" using b
        by (auto simp: begin_completion_def remove_claimed_def guardR_eq_Inr Let_def split: if_splits prod.splits)
      with assms(1,2) False b Dropped begin_ok [OF b assms(2)] show ?thesis
        by (auto simp: complete_def Let_def dest!: commit_cases)
    next
      case (Proceed effective record_id digest)
      note b = b [unfolded Proceed]
      show ?thesis
      proof (cases "write_evidence H (pw_tick w) body effective")
        case (Inl e)
        with assms(1,2) False b show ?thesis by (auto simp: complete_def Let_def)
      next
        case (Inr ref)
        define rd where "rd = (if ref = None then None else map_option (py_sha256 (ph_env H)) body)"
        define w2 where "w2 = store_evidence ref body (tick w)"
        have run: "complete H row outcome body claim money now orderId w =
            (case finish_completion H row effective record_id digest claim money (ph_identifier H (pw_tick w)) ref rd now db1 of
               Inl e \<Rightarrow> (purge_evidence ref w2, Inl e)
             | Inr db2 \<Rightarrow> (case commit_play H (pw_tick w) db2 (Some (vo_verdict effective)) w2 of
                   (w3, Inl e) \<Rightarrow> (purge_evidence ref w3, Inl e) | (w3, Inr v) \<Rightarrow> (w3, Inr v)))"
          unfolding complete_def token Let_def b Inr sum.case prod.case completion.case rd_def w2_def by simp
        show ?thesis
        proof (cases "finish_completion H row effective record_id digest claim money (ph_identifier H (pw_tick w)) ref rd now db1")
          case (Inl e)
          with assms(1,2) run show ?thesis by (auto simp: w2_def)
        next
          case (Inr db2)
          have "pw_db w' = db2 \<or> pw_db w' = pw_db w"
            using assms(1) run Inr by (auto simp: w2_def split: prod.splits sum.splits dest!: commit_cases)
          with finish_ok [OF b Inr assms(2-4)] assms(2) show ?thesis by auto
        qed
      qed
    qed
  qed
qed (use assms(1,2) in \<open>auto simp: complete_def\<close>)

section \<open>Interleaved workers\<close>

text \<open>
  The operations of any number of workers, in any order, with any rows and outcomes they may hold; rows that
  another producer enters, as renewal notices do; rows that an erasure deletes; and the records whose payloads appear
  and are erased.
\<close>

inductive play_step :: "play_host \<Rightarrow> play_world \<Rightarrow> play_world \<Rightarrow> bool" for H where
  Queue: "play_step H w (fst (queueGooglePlayProductVerification H i w))"
| Enter: "well_formed row \<Longrightarrow> play_step H w (w\<lparr>pw_db := (pw_db w)\<lparr>pb_queue := pb_queue (pw_db w) @ [row]\<rparr>\<rparr>)"
| Erase: "play_step H w (w\<lparr>pw_db := (pw_db w)\<lparr>pb_queue := filter keep (pb_queue (pw_db w))\<rparr>\<rparr>)"
| Claim: "play_step H w (fst (claimGooglePlayProductVerification H kinds now token leaseMs w))"
| Look: "play_step H w (fst (beginProviderRequest H row request w))"
| Complete: "well_formed row \<Longrightarrow> play_step H w (fst (complete H row outcome body claim money now orderId w))"
| Defer: "play_step H w (fst (defer_row H row now w))"
| Sources: "play_step H w (w\<lparr>pw_db := (pw_db w)\<lparr>pb_available := available\<rparr>\<rparr>)"

definition empty_world :: play_world where
  "empty_world = \<lparr> pw_db = \<lparr> pb_queue = [], pb_tokens = [], pb_results = [], pb_orders = [], pb_facts = [], pb_bindings = [], pb_available = [] \<rparr>,
     pw_evidence = [], pw_tick = 0 \<rparr>"

inductive play_reaches :: "play_host \<Rightarrow> play_world \<Rightarrow> bool" for H where
  Empty: "play_reaches H empty_world"
| Step: "play_reaches H w \<Longrightarrow> play_step H w w' \<Longrightarrow> play_reaches H w'"

lemma look_db: "pw_db (fst (beginProviderRequest H row request w)) = pw_db w"
proof -
  obtain w1 r where t: "transact_play H (\<lambda>clock db. Inr (db, lockCurrentClaim clock row db \<and> sourceIsAvailable row db)) w = (w1, r)" by fastforce
  from transact_cases [OF t] t show ?thesis by (auto simp: beginProviderRequest_def split: sum.splits)
qed

lemma step_ok:
  assumes "play_step H w w'" "play_ok (ph_env H) (pw_db w)" "collision_free (ph_env H)"
  shows "play_ok (ph_env H) (pw_db w')"
  using assms(1)
proof cases
  case (Queue i)
  show ?thesis
  proof (cases "queueGooglePlayProductVerification H i w")
    case (Pair w1 r)
    with Queue have "w' = w1" by simp
    with Pair assms(2) show ?thesis unfolding queueGooglePlayProductVerification_def
      by (auto split: if_splits option.splits dest!: transact_cases dest: queue_ok)
  qed
next
  case (Enter row)
  with assms(2) play_okD(1) [OF assms(2)] show ?thesis by (simp add: play_ok_queue)
next
  case (Erase keep)
  with assms(2) play_okD(1) [OF assms(2)] show ?thesis by (auto simp: list_all_iff intro!: play_ok_queue)
next
  case (Claim kinds now token leaseMs)
  show ?thesis
  proof (cases "claimGooglePlayProductVerification H kinds now token leaseMs w")
    case (Pair w1 r)
    with Claim have "w' = w1" by simp
    with Pair assms(2) show ?thesis unfolding claimGooglePlayProductVerification_def by (auto dest!: transact_cases dest: claim_ok)
  qed
next
  case (Look row request)
  with assms(2) look_db show ?thesis by simp
next
  case (Complete row outcome body claim money now orderId)
  show ?thesis
  proof (cases "complete H row outcome body claim money now orderId w")
    case (Pair w1 r)
    with Complete complete_ok [OF Pair assms(2,3)] show ?thesis by simp
  qed
next
  case (Defer row now)
  show ?thesis
  proof (cases "defer_row H row now w")
    case (Pair w1 r)
    with Defer have "w' = w1" by simp
    with Pair assms(2) show ?thesis unfolding defer_row_def by (auto split: if_splits dest!: transact_cases dest: defer_ok)
  qed
next
  case (Sources available)
  with assms(2) show ?thesis by simp
qed

lemma reaches_ok: "play_reaches H w \<Longrightarrow> collision_free (ph_env H) \<Longrightarrow> play_ok (ph_env H) (pw_db w)"
proof (induction rule: play_reaches.induct)
  case Empty
  show ?case by (simp add: empty_world_def play_ok_def verified_ids_def map_filter_simps)
next
  case (Step w w')
  then show ?case by (blast intro: step_ok)
qed

text \<open>C12. However workers, claims that expire, retries, faults and erasures interleave, a verification has at most one
  result, the settled purchases are exactly the records of the verified results, and no record is settled twice.\<close>

theorem revenue_once:
  assumes "play_reaches H w" "collision_free (ph_env H)"
  shows "distinct (map rs_verification_id (pb_results (pw_db w)))
    \<and> map (\<lambda>f. (sp_record_id f, sp_result_id f)) (pb_facts (pw_db w)) = verified_ids (pb_results (pw_db w))
    \<and> distinct (map sp_record_id (pb_facts (pw_db w)))"
proof -
  note ok = reaches_ok [OF assms]
  have "map sp_record_id (pb_facts (pw_db w)) = map fst (verified_ids (pb_results (pw_db w)))"
    unfolding play_okD(6) [OF ok, symmetric] by (simp add: o_def)
  with play_okD [OF ok] show ?thesis by simp
qed

section \<open>A run is an interleaving, and its revenue is confirmed by the store\<close>

lemma fst_settle [simp]: "fst (settle m w) = fst (m w)"
  by (auto simp: settle_def split: prod.splits sum.splits)

subsection \<open>The rows of the queue\<close>

text \<open>A row without the fields that claims and retries change.\<close>

definition essence :: "verification_row \<Rightarrow> verification_row" where
  "essence row = row\<lparr>vr_attempts := 0, vr_next_attempt_at := 0, vr_claim_token := None, vr_claimed_until := 0\<rparr>"

lemma essence_simps [simp]: "essence (claimed token until_at row) = essence row" "essence (deferred now n row) = essence row"
  by (simp_all add: essence_def claimed_def deferred_def)

lemma essence_fields:
  assumes "essence a = essence b"
  shows "vr_verification_id a = vr_verification_id b" "vr_app_id a = vr_app_id b" "vr_subject_record_id a = vr_subject_record_id b"
    "vr_token_ref a = vr_token_ref b" "vr_token_digest a = vr_token_digest b" "vr_product_id a = vr_product_id b"
    "vr_purchase_kind a = vr_purchase_kind b"
  using arg_cong [OF assms, of vr_verification_id] arg_cong [OF assms, of vr_app_id] arg_cong [OF assms, of vr_subject_record_id]
    arg_cong [OF assms, of vr_token_ref] arg_cong [OF assms, of vr_token_digest] arg_cong [OF assms, of vr_product_id]
    arg_cong [OF assms, of vr_purchase_kind]
  by (simp_all add: essence_def)

definition rows_from :: "play_world \<Rightarrow> play_world \<Rightarrow> bool" where
  "rows_from w w' \<longleftrightarrow> essence ` set (pb_queue (pw_db w')) \<subseteq> essence ` set (pb_queue (pw_db w))"

lemma rows_from_simps [simp]: "rows_from w w" "rows_from w (tick w)"
  by (simp_all add: rows_from_def)

lemma rows_from_trans: "rows_from w w1 \<Longrightarrow> rows_from w1 w2 \<Longrightarrow> rows_from w w2"
  by (auto simp: rows_from_def)

lemma rows_from_subset: "set (pb_queue (pw_db w')) \<subseteq> set (pb_queue (pw_db w)) \<Longrightarrow> rows_from w w'"
  by (auto simp: rows_from_def)

lemma begin_rows:
  assumes "begin_completion P row outcome claim money now orderId clock db = Inr (db1, what)"
  shows "set (pb_queue db1) \<subseteq> set (pb_queue db)"
  using assms
  by (auto simp: begin_completion_def claimRenewalOrder_def remove_claimed_def guardR_eq_Inr Let_def split: if_splits prod.splits)

lemma finish_rows:
  assumes "finish_completion H row outcome record_id digest claim money resultId evidence rd now db = Inr db'"
  shows "set (pb_queue db') \<subseteq> set (pb_queue db)"
proof -
  obtain db1 db2 db3 db4 where a: "(case (vo_verdict outcome = Verified, claim, money) of
               (True, Some c, Some m) \<Rightarrow>
                 appendVerifiedPurchase H (purchase_record row record_id c (the_or [] (vo_completionTime outcome)) m resultId now) db
             | _ \<Rightarrow> Inr db) = Inr db1"
    and b: "insert_result (result_of_completion row outcome record_id evidence rd resultId now) db1 = Inr db2"
    and c: "(if vr_purchase_kind row = Subscription_Renewal \<and> vo_verdict outcome = Verified then mark_renewal row digest db2 else Inr db2) = Inr db3"
    and d: "db4 = (case (vo_verdict outcome = Verified, claim, money) of
           (True, Some c, Some m) \<Rightarrow> bind_purchase (ph_env H) (ph_tenant H) row record_id digest c m now db3 | _ \<Rightarrow> db3)"
    and e: "remove_completed row db4 = Inr db'"
    using assms unfolding finish_completion_def Let_def bindR_eq_Inr by blast
  have "pb_queue db1 = pb_queue db"
    using a by (auto simp: appendVerifiedPurchase_def bindR_eq_Inr guardR_eq_Inr split: bool.splits option.splits if_splits)
  moreover have "pb_queue db2 = pb_queue db1" using b by (simp add: insert_result_Some)
  moreover have "pb_queue db3 = pb_queue db2" using c by (auto split: if_splits elim: mark_shape)
  moreover have "pb_queue db4 = pb_queue db3" unfolding d by (auto simp: bind_purchase_def split: bool.splits option.splits)
  ultimately show ?thesis using remove_completed_Some [OF e] by (auto simp: remove_claimed_def)
qed

lemma commit_rows: "commit_play H k db x w = (w', r) \<Longrightarrow> pw_db w' \<in> {db, pw_db w}"
  by (auto dest: commit_cases)

lemma complete_rows: "rows_from w (fst (complete H row outcome body claim money now orderId w))"
proof (cases "vr_claim_token row = None")
  case False
  then obtain token where token: "vr_claim_token row = Some token" by auto
  let ?k = "pw_tick w" and ?w = "fst (complete H row outcome body claim money now orderId w)"
  show ?thesis
  proof (cases "begin_completion (ph_env H) row outcome claim money now orderId (ph_clock H ?k) (pw_db w)")
    case (Inl e)
    with token show ?thesis by (simp add: complete_def Let_def)
  next
    case (Inr bw)
    then obtain db1 what where b: "begin_completion (ph_env H) row outcome claim money now orderId (ph_clock H ?k) (pw_db w) = Inr (db1, what)"
      by (cases bw) auto
    have "pw_db ?w = pw_db w \<or> set (pb_queue (pw_db ?w)) \<subseteq> set (pb_queue db1)"
    proof (cases what)
      case Dropped
      obtain w1 r where c: "commit_play H ?k db1 None (tick w) = (w1, r :: verdict option res)" by fastforce
      from commit_rows [OF c] c token b Dropped show ?thesis by (auto simp: complete_def Let_def)
    next
      case (Proceed effective record_id digest)
      note step = complete_def Let_def b [unfolded Proceed]
      show ?thesis
      proof (cases "write_evidence H ?k body effective")
        case (Inl e)
        with token show ?thesis by (simp add: step)
      next
        case (Inr ref)
        let ?rd = "if ref = None then None else map_option (py_sha256 (ph_env H)) body"
        show ?thesis
        proof (cases "finish_completion H row effective record_id digest claim money (ph_identifier H ?k) ref ?rd now db1")
          case (Inl e)
          with token \<open>write_evidence H ?k body effective = Inr ref\<close> show ?thesis by (simp add: step del: if_split)
        next
          case (Inr db2)
          obtain w3 r where c: "commit_play H ?k db2 (Some (vo_verdict effective)) (store_evidence ref body (tick w)) = (w3, r)" by fastforce
          have "pw_db ?w = pw_db w3"
            using token \<open>write_evidence H ?k body effective = Inr ref\<close> Inr c by (cases r) (simp_all add: step del: if_split)
          with commit_rows [OF c] finish_rows [OF Inr] show ?thesis by auto
        qed
      qed
    qed
    with begin_rows [OF b] show ?thesis by (auto intro!: rows_from_subset)
  qed
qed (simp add: complete_def)

lemma defer_rows: "rows_from w (fst (defer_row H row now w))"
proof -
  obtain w1 r where w1: "defer_row H row now w = (w1, r)" by fastforce
  have "essence ` set (pb_queue db') \<subseteq> essence ` set (pb_queue db)" if "defer_body row now clock db = Inr (db', b)" for db db' clock b
    using that by (auto simp: defer_body_def Let_def image_image)
  moreover from w1 have "pw_db w1 = pw_db w \<or> (\<exists>x. defer_body row now (ph_clock H (pw_tick w)) (pw_db w) = Inr (pw_db w1, x))"
    using transact_cases [of H "defer_body row now" w w1 r] by (auto simp: defer_row_def split: if_splits)
  ultimately have "essence ` set (pb_queue (pw_db w1)) \<subseteq> essence ` set (pb_queue (pw_db w))" by (elim disjE exE) simp_all
  with w1 show ?thesis by (simp add: rows_from_def)
qed

subsection \<open>Confirmation\<close>

lemma claimFor_digest: "claimFor P bytes row = Inr claim \<Longrightarrow> py_sha256 P (pm_token claim) = vr_token_digest row"
proof -
  have renewal: "renewal_claim P row body = Inr claim \<Longrightarrow> ?thesis" for body
    by (auto simp: renewal_claim_def guardR_eq_Inr throw_def split: option.split_asm json.split_asm)
  have purchase: "purchase_claim_of P row fields purchase extensions = Inr claim \<Longrightarrow> ?thesis" for fields purchase extensions
    unfolding purchase_claim_of_def Let_def prod.case
    by (auto simp: guardR_eq_Inr throw_def split: option.split_asm json.split_asm)
  assume "claimFor P bytes row = Inr claim"
  then obtain body where "(if vr_purchase_kind row = Subscription_Renewal then renewal_claim P row body
     else case member body ''records'' of
       Some (JArr records) \<Rightarrow>
         (case find (\<lambda>r. object_member (Some r) ''record_id'' = Some (JStr (vr_subject_record_id row))) records of
            Some (JObj record) \<Rightarrow>
              (case member record ''payload'' of
                 Some (JObj purchase) \<Rightarrow>
                   (case member purchase ''extensions'' of
                      Some (JObj extensions) \<Rightarrow> purchase_claim_of P row record purchase extensions
                    | _ \<Rightarrow> throw ''google_play_purchase_claim_missing'')
               | _ \<Rightarrow> throw ''google_play_purchase_claim_missing'')
          | _ \<Rightarrow> throw ''google_play_purchase_claim_missing'')
     | _ \<Rightarrow> throw ''google_play_purchase_batch_invalid'') = Inr claim"
    unfolding claimFor_def bindR_eq_Inr by blast
  then show ?thesis
    by (auto simp only: throw_def sum.distinct dest: renewal purchase split: if_split_asm option.split_asm json.split_asm)
qed

definition first_request :: "verification_row \<Rightarrow> string \<Rightarrow> purchase_claim \<Rightarrow> play_request" where
  "first_request row packageName claim =
     \<lparr> pq_operation = (if vr_purchase_kind row = One_Time_Product then Product_Operation else Subscription_Operation),
       pq_packageName = packageName, pq_productId = vr_product_id row, pq_purchaseToken = pm_token claim, pq_orderId = None \<rparr>"

definition order_request :: "verification_row \<Rightarrow> string \<Rightarrow> purchase_claim \<Rightarrow> first_response \<Rightarrow> play_request" where
  "order_request row packageName claim n =
     \<lparr> pq_operation = Order_Operation, pq_packageName = packageName, pq_productId = vr_product_id row, pq_purchaseToken = pm_token claim,
       pq_orderId = fi_orderId n \<rparr>"

text \<open>
  The store confirmed the token of a row: the claim of the row was read and its token has the digest of the row, the
  store answered for this token and the package of the application with a verified purchase of the product of the
  row, and with an order, the one this answer names, that is verified with the money of the settled purchase. The
  settled purchase is that of the row.
\<close>

definition confirmed :: "play_host \<Rightarrow> verification_row \<Rightarrow> settled_purchase \<Rightarrow> bool" where
  "confirmed H row f \<longleftrightarrow> (\<exists>i j k claim pkg first n second r.
     claimFor (ph_env H) (ph_read H i (vr_token_ref row)) row = Inr claim \<and> py_sha256 (ph_env H) (pm_token claim) = vr_token_digest row
     \<and> ph_package H i (vr_app_id row) = Inr (Some pkg)
     \<and> ph_client H j (first_request row pkg claim) = Some (200, first)
     \<and> normalize_first (ph_env H) row first = Inr n \<and> fi_verified n
     \<and> ph_client H k (order_request row pkg claim n) = Some (200, second)
     \<and> normalizeGooglePlayOrderResponse (ph_env H) second (expected_of row claim n) = Inr r \<and> no_verified r
     \<and> no_money r = Some (sp_money f) \<and> sp_installation_id f = pm_installationId claim \<and> sp_app_id f = vr_app_id row
     \<and> sp_delivery_id f = ''delivery:google-play:'' @ vr_verification_id row \<and> sp_purchase_kind f = vr_purchase_kind row)"

lemma claimFor_essence:
  assumes "essence a = essence b"
  shows "claimFor P bytes a = claimFor P bytes b"
proof -
  have "renewal_claim P a = renewal_claim P b" "purchase_claim_of P a = purchase_claim_of P b"
    by (intro ext, simp only: renewal_claim_def essence_fields [OF assms]) (intro ext, simp only: purchase_claim_of_def essence_fields [OF assms])
  then show ?thesis by (simp only: claimFor_def essence_fields [OF assms])
qed

lemma confirmed_essence:
  assumes "essence a = essence b"
  shows "confirmed H a f = confirmed H b f"
  unfolding confirmed_def claimFor_essence [OF assms] normalize_first_def first_request_def order_request_def expected_of_def
    essence_fields [OF assms] ..

text \<open>
  A step of a worker that holds a row: reachable worlds stay reachable, at most a confirmed purchase is added, and no
  row enters the queue.
\<close>

definition sound_for :: "play_host \<Rightarrow> verification_row \<Rightarrow> play_world \<Rightarrow> play_world \<Rightarrow> bool" where
  "sound_for H row w w' \<longleftrightarrow> play_reaches H w' \<and> rows_from w w'
     \<and> (\<exists>fs. pb_facts (pw_db w') = pb_facts (pw_db w) @ fs \<and> list_all (confirmed H row) fs)"

lemma sound_complete:
  assumes "play_reaches H w" "collision_free (ph_env H)" "well_formed row"
    and "\<And>p. adds_purchase row outcome claim money (pw_db w) (pw_db (fst (complete H row outcome body claim money now orderId w)))
        \<Longrightarrow> pb_facts (pw_db (fst (complete H row outcome body claim money now orderId w))) = pb_facts (pw_db w) @ [p] \<Longrightarrow> confirmed H row p"
  shows "sound_for H row w (fst (complete H row outcome body claim money now orderId w))"
proof -
  let ?w = "fst (complete H row outcome body claim money now orderId w)"
  have "play_reaches H ?w" by (rule Step [OF assms(1) Complete [OF assms(3)]])
  moreover have "pb_facts (pw_db ?w) = pb_facts (pw_db w) \<or> adds_purchase row outcome claim money (pw_db w) (pw_db ?w)"
    using complete_ok [OF surjective_pairing reaches_ok [OF assms(1,2)] assms(2,3)] by blast
  moreover have "\<exists>p. pb_facts (pw_db ?w) = pb_facts (pw_db w) @ [p] \<and> confirmed H row p"
    if a: "adds_purchase row outcome claim money (pw_db w) (pw_db ?w)"
  proof -
    from a obtain p where p: "pb_facts (pw_db ?w) = pb_facts (pw_db w) @ [p]" unfolding adds_purchase_def by blast
    with assms(4) [OF a p] show ?thesis by blast
  qed
  ultimately show ?thesis unfolding sound_for_def using complete_rows by force
qed

lemma sound_unverified:
  assumes "play_reaches H w" "collision_free (ph_env H)" "well_formed row" "v \<noteq> Verified"
  shows "sound_for H row w (fst (settle (complete H row (outcome_of v s t m c) body claim money now orderId) w))"
  unfolding fst_settle
  by (rule sound_complete [OF assms(1-3)]) (use assms(4) in \<open>auto simp: adds_purchase_def outcome_of_def\<close>)

lemma sound_retry:
  assumes "play_reaches H w" "collision_free (ph_env H)" "well_formed row"
  shows "sound_for H row w (fst (retry_row H n row (outcome_of Unavailable s t m c) claim now w))"
proof (cases "vr_attempts row + 1 < n")
  case True
  obtain w1 r where d: "defer_row H row now w = (w1, r)" by fastforce
  have "pb_facts (pw_db w1) = pb_facts (pw_db w)"
    using d transact_cases [of H "defer_body row now" w w1 r] unfolding defer_row_def
    by (auto simp: defer_body_def Let_def split: if_splits dest: arg_cong [of _ _ pb_facts])
  moreover have "play_reaches H w1" using Step [OF assms(1) Defer, of row now] d by simp
  moreover have "rows_from w w1" using defer_rows [of w H row now] d by simp
  ultimately show ?thesis using True d by (auto simp: retry_row_def sound_for_def split: sum.splits)
next
  case False
  with sound_unverified [OF assms, of Unavailable] show ?thesis by (simp add: retry_row_def)
qed

lemma sound_trans:
  "sound_for H row w w1 \<Longrightarrow> sound_for H row w1 w2 \<Longrightarrow> sound_for H row w w2"
  by (auto simp: sound_for_def intro: rows_from_trans)

lemma sound_look:
  assumes "play_reaches H w"
  shows "sound_for H row w (fst (beginProviderRequest H row request w))"
  using Step [OF assms Look, of row request] look_db [of H row request w] by (simp add: sound_for_def rows_from_def)

lemma look_answer:
  "beginProviderRequest H row request w = (w1, Some (200, body)) \<Longrightarrow> \<exists>k. ph_client H k request = Some (200, body)"
  by (auto simp: beginProviderRequest_def split: if_splits prod.splits sum.splits option.splits)

lemma sound_order:
  assumes "play_reaches H w" "collision_free (ph_env H)" "well_formed row"
    and "claimFor (ph_env H) (ph_read H i (vr_token_ref row)) row = Inr claim" "ph_package H i (vr_app_id row) = Inr (Some pkg)"
    and "ph_client H j (first_request row pkg claim) = Some (200, first)" "normalize_first (ph_env H) row first = Inr n" "fi_verified n"
    and "fst response = 200 \<Longrightarrow> ph_client H k (order_request row pkg claim n) = Some response"
  shows "sound_for H row w (fst (decide_order H m row claim first n now response w))"
proof -
  obtain status body where r: "response = (status, body)" by fastforce
  show ?thesis
  proof (cases "transient_status status \<or> status \<noteq> 200")
    case True
    then show ?thesis unfolding r decide_order_def using sound_retry [OF assms(1-3)] sound_unverified [OF assms(1-3), of Failed]
      by (auto simp: Let_def)
  next
    case False
    then have ok: "status = 200" "\<not> transient_status 200" by auto
    show ?thesis
    proof (cases "normalizeGooglePlayOrderResponse (ph_env H) body (expected_of row claim n)")
      case (Inl e)
      with ok show ?thesis unfolding r decide_order_def using sound_unverified [OF assms(1-3), of Failed] by (simp add: Let_def)
    next
      case (Inr q)
      show ?thesis
      proof (cases "\<not> no_verified q \<or> no_money q = None")
        case True
        with ok Inr show ?thesis unfolding r decide_order_def using sound_unverified [OF assms(1-3), of Failed] by (auto simp: Let_def)
      next
        case False
        then obtain money where q: "no_verified q" "no_money q = Some money" by auto
        let ?o = "outcome_of Verified (Some (fi_state n)) (Some (no_orderState q)) True (completion_time row n q)"
        have "sound_for H row w (fst (complete H row ?o (Some (evidence_text H first body)) (Some claim) (no_money q) now (fi_orderId n) w))"
        proof (rule sound_complete [OF assms(1-3)])
          fix p
          let ?w = "fst (complete H row ?o (Some (evidence_text H first body)) (Some claim) (no_money q) now (fi_orderId n) w)"
          assume "adds_purchase row ?o (Some claim) (no_money q) (pw_db w) (pw_db ?w)" "pb_facts (pw_db ?w) = pb_facts (pw_db w) @ [p]"
          then have "no_money q = Some (sp_money p)" "sp_installation_id p = pm_installationId claim" "sp_app_id p = vr_app_id row"
            "sp_delivery_id p = ''delivery:google-play:'' @ vr_verification_id row" "sp_purchase_kind p = vr_purchase_kind row"
            by (auto simp: adds_purchase_def)
          with assms(4-9) claimFor_digest [OF assms(4)] Inr q ok r show "confirmed H row p" unfolding confirmed_def by (metis fst_conv)
        qed
        with ok Inr q show ?thesis unfolding r decide_order_def by (simp add: Let_def)
      qed
    qed
  qed
qed

lemma sound_first:
  assumes "play_reaches H w" "collision_free (ph_env H)" "well_formed row" "claimFor (ph_env H) (ph_read H i (vr_token_ref row)) row = Inr claim"
    and "ph_package H i (vr_app_id row) = Inr (Some pkg)" "fst response = 200 \<Longrightarrow> ph_client H j (first_request row pkg claim) = Some response"
  shows "sound_for H row w (fst (decide_first H m row claim pkg now response w))"
proof -
  obtain status body where r: "response = (status, body)" by fastforce
  show ?thesis
  proof (cases "transient_status status \<or> status \<noteq> 200")
    case True
    then show ?thesis unfolding r decide_first_def using sound_retry [OF assms(1-3)] sound_unverified [OF assms(1-3), of Failed] by auto
  next
    case False
    then have ok: "status = 200" "\<not> transient_status 200" by auto
    show ?thesis
    proof (cases "normalize_first (ph_env H) row body")
      case (Inl e)
      with ok show ?thesis unfolding r decide_first_def using sound_unverified [OF assms(1-3), of Failed] by simp
    next
      case (Inr n)
      show ?thesis
      proof (cases "fi_state n = ''PENDING'' \<or> fi_state n = ''SUBSCRIPTION_STATE_PENDING'' \<or> \<not> fi_verified n")
        case True
        with ok Inr show ?thesis unfolding r decide_first_def using sound_retry [OF assms(1-3)] sound_unverified [OF assms(1-3), of Failed]
          by auto
      next
        case False
        let ?q = "order_request row pkg claim n"
        obtain w1 a where look: "beginProviderRequest H row ?q w = (w1, a)" by fastforce
        have first: "sound_for H row w w1" using sound_look [OF assms(1), of row ?q] look by simp
        have next_: "sound_for H row w1 (fst (decide_order H m row claim body n now answer w1))" if "a = Some answer" for answer
        proof -
          have "\<exists>k. ph_client H k ?q = Some answer" if "fst answer = 200"
            using look_answer [of H row ?q w w1 "snd answer"] look \<open>a = Some answer\<close> that by (cases answer) simp
          then obtain k where "fst answer = 200 \<longrightarrow> ph_client H k ?q = Some answer" by (cases "fst answer = 200") auto
          then show ?thesis using sound_order [of H w1 row i claim pkg j body n answer k] first assms(2-6) ok r Inr False by (simp add: sound_for_def)
        qed
        show ?thesis using False ok Inr look [unfolded order_request_def] first next_ sound_trans [OF first]
          unfolding r decide_first_def by (cases a) auto
      qed
    qed
  qed
qed

lemma sound_row:
  assumes "play_reaches H w" "collision_free (ph_env H)" "well_formed row"
  shows "sound_for H row w (fst (process_row H m now row w))"
proof -
  let ?claim = "claimFor (ph_env H) (ph_read H (pw_tick w) (vr_token_ref row)) row"
  let ?pkg = "bindR ?claim (\<lambda>c. ph_package H (pw_tick w) (vr_app_id row))"
  show ?thesis
  proof (cases "\<exists>c p ps. ?claim = Inr c \<and> ?pkg = Inr (Some (p # ps))")
    case False
    then have "process_row H m now row w = settle (complete H row (outcome_of Failed None None False None) (Some ''{}'') None None now None) w"
      unfolding process_row_def Let_def by (auto split: sum.splits option.splits list.splits)
    with sound_unverified [OF assms, of Failed] show ?thesis by simp
  next
    case True
    then obtain c p ps where c: "?claim = Inr c" "ph_package H (pw_tick w) (vr_app_id row) = Inr (Some (p # ps))" by auto
    let ?q = "first_request row (p # ps) c"
    obtain w1 a where look: "beginProviderRequest H row ?q w = (w1, a)" by fastforce
    have first: "sound_for H row w w1" using sound_look [OF assms(1), of row ?q] look by simp
    then have "play_reaches H w1" by (simp add: sound_for_def)
    have next_: "sound_for H row w1 (fst (decide_first H m row c (p # ps) now answer w1))" if "a = Some answer" for answer
    proof -
      have "\<exists>j. ph_client H j ?q = Some answer" if "fst answer = 200"
        using look_answer [of H row ?q w w1 "snd answer"] look \<open>a = Some answer\<close> that by (cases answer) simp
      then obtain j where "fst answer = 200 \<longrightarrow> ph_client H j ?q = Some answer" by (cases "fst answer = 200") auto
      then show ?thesis using sound_first [OF \<open>play_reaches H w1\<close> assms(2,3) c, of answer j] by blast
    qed
    show ?thesis using first c look [unfolded first_request_def] next_
      unfolding process_row_def Let_def by (cases a) (auto intro: sound_trans)
  qed
qed

lemma claim_body_rows:
  assumes "claim_body kinds now token lease clock db = Inr (db', r)"
  shows "essence ` set (pb_queue db') \<subseteq> essence ` set (pb_queue db)"
    and "r = Some row \<Longrightarrow> essence row \<in> essence ` set (pb_queue db)"
  using assms first_due_mem [of kinds now clock db] by (auto simp: claim_body_def split: option.splits)

lemma claim_row:
  assumes "claimGooglePlayProductVerification H kinds now token lease w = (w1, r)" "play_reaches H w" "collision_free (ph_env H)"
  shows "play_reaches H w1" "pb_facts (pw_db w1) = pb_facts (pw_db w)" "rows_from w w1"
    and "r = Inr (Some row) \<Longrightarrow> well_formed row \<and> essence row \<in> essence ` set (pb_queue (pw_db w))"
proof -
  note t = transact_cases [OF assms(1) [unfolded claimGooglePlayProductVerification_def]]
  show "play_reaches H w1" using Step [OF assms(2) Claim, of kinds now token lease] assms(1) by simp
  show "pb_facts (pw_db w1) = pb_facts (pw_db w)"
    using t by (auto simp: claim_body_def split: option.splits dest: arg_cong [of _ _ pb_facts])
  have "pw_db w1 = pw_db w \<or> (\<exists>x. claim_body kinds now token lease (ph_clock H (pw_tick w)) (pw_db w) = Inr (pw_db w1, x))" using t by blast
  then show "rows_from w w1" unfolding rows_from_def using claim_body_rows(1) by (elim disjE exE) (simp, blast)
  assume "r = Inr (Some row)"
  with t have b: "claim_body kinds now token lease (ph_clock H (pw_tick w)) (pw_db w) = Inr (pw_db w1, Some row)" by blast
  from claim_ok [OF b reaches_ok [OF assms(2,3)]] claim_body_rows(2) [OF b refl]
  show "well_formed row \<and> essence row \<in> essence ` set (pb_queue (pw_db w))" by blast
qed

definition confirmed_in :: "play_host \<Rightarrow> play_world \<Rightarrow> settled_purchase \<Rightarrow> bool" where
  "confirmed_in H w f \<longleftrightarrow> (\<exists>row \<in> set (pb_queue (pw_db w)). confirmed H row f)"

lemma confirmed_in_essence:
  assumes "confirmed H row f" "essence row \<in> essence ` set (pb_queue (pw_db w))"
  shows "confirmed_in H w f"
proof -
  from assms(2) obtain q where "q \<in> set (pb_queue (pw_db w))" "essence row = essence q" by blast
  with assms(1) confirmed_essence [of row q H f] show ?thesis unfolding confirmed_in_def by blast
qed

lemma confirmed_in_mono: "confirmed_in H w1 f \<Longrightarrow> rows_from w w1 \<Longrightarrow> confirmed_in H w f"
  unfolding confirmed_in_def [of H w1] rows_from_def by (blast intro: confirmed_in_essence)

lemma sound_rows:
  "play_reaches H w \<Longrightarrow> collision_free (ph_env H) \<Longrightarrow> process_rows H m kinds lease now n counts w = (w', x) \<Longrightarrow>
     play_reaches H w' \<and> (\<exists>fs. pb_facts (pw_db w') = pb_facts (pw_db w) @ fs \<and> list_all (confirmed_in H w) fs)"
proof (induction n arbitrary: counts w)
  case (Suc n)
  obtain w1 r where c: "claimGooglePlayProductVerification H kinds now (ph_identifier H (pw_tick w)) lease w = (w1, r)" by fastforce
  note claim = claim_row [OF c Suc.prems(1,2)]
  show ?case
  proof (cases "\<exists>row. r = Inr (Some row)")
    case False
    with Suc.prems(3) c have "w' = w1" by (auto split: sum.splits option.splits)
    with claim(1,2) show ?thesis by simp
  next
    case True
    then obtain row where r: "r = Inr (Some row)" by blast
    note row = claim(4) [OF r]
    obtain w2 y where p: "process_row H m now row w1 = (w2, y)" by fastforce
    have s: "sound_for H row w1 w2" using sound_row [of H w1 row m now] claim(1) row Suc.prems(2) p by simp
    then obtain gs where gs: "pb_facts (pw_db w2) = pb_facts (pw_db w1) @ gs" "list_all (confirmed H row) gs" by (auto simp: sound_for_def)
    have gs_in: "list_all (confirmed_in H w) gs" using gs(2) row confirmed_in_essence by (auto simp: list_all_iff)
    show ?thesis
    proof (cases y)
      case (Inl e)
      with Suc.prems(3) c r p have "w' = w2" by simp
      with s claim(2) gs gs_in show ?thesis by (auto simp: sound_for_def)
    next
      case (Inr z)
      with Suc.prems(3) c r p have rest: "process_rows H m kinds lease now n (count_outcome z counts) w2 = (w', x)" by simp
      from s have "play_reaches H w2" by (simp add: sound_for_def)
      from Suc.IH [OF this Suc.prems(2) rest] obtain fs where fs: "play_reaches H w'" "pb_facts (pw_db w') = pb_facts (pw_db w2) @ fs"
        "list_all (confirmed_in H w2) fs" by blast
      have "rows_from w w2" using rows_from_trans [OF claim(3)] s by (simp add: sound_for_def)
      with fs(3) have "list_all (confirmed_in H w) fs" by (auto simp: list_all_iff intro: confirmed_in_mono)
      with fs gs(1) gs_in claim(2) show ?thesis by (intro conjI exI [of _ "gs @ fs"]) simp_all
    qed
  qed
qed simp

lemma process_sound:
  assumes "play_reaches H w" "collision_free (ph_env H)" "processGooglePlayProductVerifications H opts now w = (w', x)"
  shows "play_reaches H w' \<and> (\<exists>fs. pb_facts (pw_db w') = pb_facts (pw_db w) @ fs \<and> list_all (confirmed_in H w) fs)"
proof (cases "w' = w")
  case True
  with assms(1) show ?thesis by simp
next
  case False
  with assms(3) obtain m kinds lease where "process_rows H m kinds lease now 100 no_counts w = (w', x)"
    unfolding processGooglePlayProductVerifications_def Let_def by (auto split: if_splits sum.splits)
  from sound_rows [OF assms(1,2) this] show ?thesis .
qed

text \<open>C13. A run of the verifier is an interleaving of the modelled steps, and each purchase it settles belongs to a row that was
  in the queue when the run began and is confirmed by the store: the claim of the row carries a token whose digest is the one
  queued with the row, the store answered for that token with a verified purchase of the row's product, and the order that this
  answer names is verified with exactly the money of the settled purchase.\<close>

theorem settled_purchases_confirmed:
  assumes "play_reaches H w" "collision_free (ph_env H)" "processGooglePlayProductVerifications H opts now w = (w', x)"
  shows "play_reaches H w' \<and> (\<exists>fs. pb_facts (pw_db w') = pb_facts (pw_db w) @ fs
    \<and> list_all (\<lambda>f. \<exists>row \<in> set (pb_queue (pw_db w)). confirmed H row f) fs)"
  using process_sound [OF assms] unfolding confirmed_in_def .

section \<open>Failures\<close>

text \<open>A worker whose claim has expired or was taken over changes neither the tables nor the evidence.\<close>

lemma stale_worker:
  assumes "\<not> lockCurrentClaim (ph_clock H (pw_tick w)) row (pw_db w)"
  shows "pw_db (fst (complete H row outcome body claim money now orderId w)) = pw_db w"
    "pw_evidence (fst (complete H row outcome body claim money now orderId w)) = pw_evidence w"
  using assms by (auto simp: complete_def begin_completion_def commit_play_def tick_def Let_def split: tx_outcome.splits)

text \<open>C15. When the claim of a row or the package name of its application cannot be read, be it only because the payload store
  or the database is down for that moment, the verification fails for good: with a live claim on the row, its source
  available, no result of it yet, and the evidence and the result written without a fault, the row is gone from the queue, its
  result is failed and there is no revenue.\<close>

theorem unreadable_claim_fails_for_good:
  assumes "isl (claimFor (ph_env H) (ph_read H (pw_tick w) (vr_token_ref row)) row) \<or> isl (ph_package H (pw_tick w) (vr_app_id row))"
    and "lockCurrentClaim (ph_clock H (pw_tick w)) row (pw_db w)" "vr_claim_token row \<noteq> None"
    "sourceIsAvailable row (pw_db w)" "length (filter (own_row row) (pb_queue (pw_db w))) = 1"
    "\<forall>r \<in> set (pb_results (pw_db w)). rs_verification_id r \<noteq> vr_verification_id row \<and> rs_result_id r \<noteq> ph_identifier H (pw_tick w)"
    "ph_write H (pw_tick w) = Inr ref" "ph_outcome H (pw_tick w) = Tx_Ok"
  shows "\<exists>w' r. process_row H maximumAttempts now row w = (w', Inr (Settled (Some Failed))) \<and> \<not> list_ex (own_row row) (pb_queue (pw_db w'))
    \<and> pb_results (pw_db w') = pb_results (pw_db w) @ [r] \<and> rs_verification_id r = vr_verification_id row \<and> rs_verdict r = Failed
    \<and> pb_facts (pw_db w') = pb_facts (pw_db w)"
proof -
  let ?o = "outcome_of Failed None None False None"
  have first: "process_row H maximumAttempts now row w = settle (complete H row ?o (Some ''{}'') None None now None) w"
    using assms(1) by (auto simp: process_row_def Let_def isl_def split: sum.splits)
  have none: "\<not> list_ex (\<lambda>r. rs_app_id r = vr_app_id row \<and> rs_verification_id r = vr_verification_id row) (pb_results (pw_db w))"
    "\<not> list_ex (\<lambda>q. rs_verification_id q = vr_verification_id row \<or> rs_result_id q = ph_identifier H (pw_tick w)) (pb_results (pw_db w))"
    using assms(6) by (auto simp: list_ex_iff)
  have b: "begin_completion (ph_env H) row ?o None None now None (ph_clock H (pw_tick w)) (pw_db w)
      = Inr (pw_db w, Proceed ?o (vr_verified_record_id row) None)"
    using assms(2,4) none(1) by (simp add: begin_completion_def outcome_of_def)
  let ?r = "result_of_completion row ?o (vr_verified_record_id row) (Some ref) (Some (py_sha256 (ph_env H) ''{}'')) (ph_identifier H (pw_tick w)) now"
  let ?db = "(pw_db w)\<lparr>pb_results := pb_results (pw_db w) @ [?r]\<rparr>"
  have f: "finish_completion H row ?o (vr_verified_record_id row) None None None (ph_identifier H (pw_tick w)) (Some ref)
      (Some (py_sha256 (ph_env H) ''{}'')) now (pw_db w) = Inr (remove_claimed row ?db)"
    using assms(5) none(2) by (simp add: finish_completion_def insert_result_def remove_completed_def result_of_completion_def guardR_def
      outcome_of_def)
  have e: "write_evidence H (pw_tick w) (Some ''{}'') ?o = Inr (Some ref)"
    using assms(7) by (simp add: write_evidence_def outcome_of_def)
  have v: "vo_verdict ?o = Failed" by (simp add: outcome_of_def)
  obtain w' where w': "complete H row ?o (Some ''{}'') None None now None w = (w', Inr (Some Failed))" "pw_db w' = remove_claimed row ?db"
    using assms(3,8) b e f v by (simp add: complete_def commit_play_def Let_def)
  have "rs_verification_id ?r = vr_verification_id row" "rs_verdict ?r = Failed" by (simp_all add: result_of_completion_def v)
  then show ?thesis using w' first by (intro exI [of _ w'] exI [of _ ?r]) (simp add: settle_def remove_claimed_def list_ex_iff)
qed

section \<open>A sample\<close>

definition play_sample_host :: play_host where
  "play_sample_host = \<lparr> ph_env = play_sample_env, ph_tenant = ''acme'', ph_clock = int, ph_outcome = (\<lambda>k. Tx_Ok), ph_read = (\<lambda>k ref. Inr ''B''),
     ph_write = (\<lambda>k. Inr ''evidence''), ph_package = (\<lambda>k app. Inr (Some ''com.acme'')),
     ph_client = (\<lambda>k q. Some (200, if pq_operation q = Order_Operation then ''O'' else ''P'')), ph_ingest = (\<lambda>fs p. Inr True),
     ph_identifier = (\<lambda>k. ''u''), ph_base64 = (\<lambda>s. s) \<rparr>"

definition play_sample_row :: verification_row where
  "play_sample_row = \<lparr> vr_verification_id = ''v'', vr_app_id = ''app'', vr_subject_record_id = ''r'', vr_token_ref = ''ref'', vr_token_digest = ''d'',
     vr_product_id = ''gems'', vr_purchase_kind = One_Time_Product, vr_verified_record_id = product_record_id ''v'', vr_attempts = 0,
     vr_next_attempt_at = 0, vr_claim_token = None, vr_claimed_until = 0 \<rparr>"

definition play_sample_world :: play_world where
  "play_sample_world = \<lparr> pw_db = \<lparr> pb_queue = [play_sample_row], pb_tokens = [], pb_results = [], pb_orders = [], pb_facts = [], pb_bindings = [],
     pb_available = [(''app'', ''r'')] \<rparr>, pw_evidence = [], pw_tick = 0 \<rparr>"

definition play_sample_options :: play_options where
  "play_sample_options = \<lparr> pp_enabled = True, pp_maximumAttempts = None, pp_enabledKinds = None, pp_claimLeaseMs = None, pp_requestTimeoutMs = None \<rparr>"

lemma play_sample_reached: "play_reaches play_sample_host play_sample_world"
proof -
  have "play_step play_sample_host empty_world (empty_world\<lparr>pw_db := (pw_db empty_world)\<lparr>pb_queue := pb_queue (pw_db empty_world) @ [play_sample_row]\<rparr>\<rparr>)"
    by (rule Enter) (simp add: well_formed_def play_sample_row_def)
  from Step [OF Step [OF Empty this] Sources, of "[(''app'', ''r'')]"] show ?thesis
    by (simp add: empty_world_def play_sample_world_def)
qed

lemma play_sample_collision_free: "collision_free (ph_env play_sample_host)"
  by (simp add: collision_free_def play_sample_host_def play_sample_env_def)

lemma play_sample_product:
  "normalizeGooglePlayProductResponse play_sample_env ''P'' ''gems''
     = Inr \<lparr> np_purchaseState = ''PURCHASED'', np_completionTime = Some (toISOString 0), np_orderId = Some ''o'', np_productMatched = True, np_verified = True \<rparr>"
  by (simp add: normalizeGooglePlayProductResponse_def jsonObject_def play_sample_env_def play_sample_parse_def guardR_def object_member_def member_def
    names_product_def order_id_of_def utf16_length_def)

lemma play_sample_claim:
  "vr_token_digest row = ''d'' \<Longrightarrow> vr_product_id row = ''gems'' \<Longrightarrow> vr_purchase_kind row = One_Time_Product \<Longrightarrow> vr_subject_record_id row = ''r'' \<Longrightarrow>
     claimFor play_sample_env (Inr ''B'') row
       = Inr \<lparr> pm_token = ''t'', pm_installationId = ''i'', pm_amountUnscaled = ''1'', pm_amountScale = 0, pm_currency = ''EUR'' \<rparr>"
  by (simp add: claimFor_def jsonObject_def play_sample_env_def play_sample_parse_def guardR_def member_def object_member_def purchase_claim_of_def kind_text_def)


definition play_sample_claimed :: play_world where
  "play_sample_claimed = tick play_sample_world\<lparr>pw_db := (pw_db play_sample_world)\<lparr>pb_queue := [claimed ''u'' 300000 play_sample_row]\<rparr>\<rparr>"

lemma play_sample_settled:
  "\<exists>w. process_row play_sample_host 96 0 (claimed ''u'' 300000 play_sample_row) play_sample_claimed = (w, Inr (Settled (Some Verified)))
    \<and> pb_queue (pw_db w) = [] \<and> map sp_money (pb_facts (pw_db w)) = [\<lparr> om_amountUnscaled = ''5'', om_amountScale = 9, om_currency = ''EUR'' \<rparr>]"
  apply (simp add: process_row_def play_sample_host_def play_sample_claim claimed_def play_sample_row_def beginProviderRequest_def transact_play_def
    play_sample_claimed_def lockCurrentClaim_def sourceIsAvailable_def play_sample_world_def own_row_def tick_def commit_play_def Let_def)
  apply (simp add: decide_first_def transient_status_def normalize_first_def play_sample_product beginProviderRequest_def transact_play_def
    lockCurrentClaim_def sourceIsAvailable_def own_row_def tick_def commit_play_def Let_def decide_order_def expected_of_def
    play_sample_order [unfolded play_sample_expected_def] completion_time_def)
  apply (simp add: settle_def complete_def begin_completion_def outcome_of_def Let_def lockCurrentClaim_def sourceIsAvailable_def own_row_def
    tick_def guardR_def write_evidence_def store_evidence_def finish_completion_def appendVerifiedPurchase_def insert_result_def
    result_of_completion_def remove_completed_def bind_purchase_def commit_play_def purchase_record_def remove_claimed_def)
  done

lemma play_sample_claims:
  "claimGooglePlayProductVerification play_sample_host [One_Time_Product, Subscription_Initial, Subscription_Renewal] 0 ''u'' 300000 play_sample_world
     = (play_sample_claimed, Inr (Some (claimed ''u'' 300000 play_sample_row)))"
proof -
  have "due_row [One_Time_Product, Subscription_Initial, Subscription_Renewal] 0 0 play_sample_row" by code_simp
  then have "first_due [One_Time_Product, Subscription_Initial, Subscription_Renewal] 0 0 (pw_db play_sample_world) = Some play_sample_row"
    by (simp add: first_due_def play_sample_world_def)
  moreover have "pb_queue (pw_db play_sample_world) = [play_sample_row]" "pw_tick play_sample_world = 0" by (simp_all add: play_sample_world_def)
  moreover have "ph_clock play_sample_host 0 = 0" "ph_outcome play_sample_host 0 = Tx_Ok" by (simp_all add: play_sample_host_def)
  ultimately show ?thesis
    unfolding claimGooglePlayProductVerification_def transact_play_def claim_body_def play_sample_claimed_def commit_play_def tick_def
    by simp
qed

lemma empty_queue_claims:
  "pb_queue (pw_db w) = [] \<Longrightarrow> claimGooglePlayProductVerification play_sample_host kinds now token lease w = (tick w, Inr None)"
  by (simp add: claimGooglePlayProductVerification_def transact_play_def claim_body_def first_due_def play_sample_host_def commit_play_def tick_def)

lemma process_rows_once:
  assumes "claimGooglePlayProductVerification H kinds now (ph_identifier H (pw_tick w)) lease w = (w1, Inr (Some row))"
    "process_row H m now row w1 = (w2, Inr x)"
    "claimGooglePlayProductVerification H kinds now (ph_identifier H (pw_tick w2)) lease w2 = (w3, Inr None)"
  shows "process_rows H m kinds lease now (Suc (Suc n)) counts w = (w3, Inr (count_outcome x counts))"
  using assms by simp

lemma play_sample_run:
  "\<exists>w. processGooglePlayProductVerifications play_sample_host play_sample_options 0 play_sample_world = (w, Inr (no_counts\<lparr>pt_verified := 1\<rparr>))
    \<and> map sp_money (pb_facts (pw_db w)) = [\<lparr> om_amountUnscaled = ''5'', om_amountScale = 9, om_currency = ''EUR'' \<rparr>]"
proof -
  obtain w where w: "process_row play_sample_host 96 0 (claimed ''u'' 300000 play_sample_row) play_sample_claimed = (w, Inr (Settled (Some Verified)))"
    "pb_queue (pw_db w) = []" "map sp_money (pb_facts (pw_db w)) = [\<lparr> om_amountUnscaled = ''5'', om_amountScale = 9, om_currency = ''EUR'' \<rparr>]"
    using play_sample_settled by (elim exE conjE)
  have "process_rows play_sample_host 96 [One_Time_Product, Subscription_Initial, Subscription_Renewal] 300000 0 (Suc (Suc 98)) no_counts play_sample_world
      = (tick w, Inr (count_outcome (Settled (Some Verified)) no_counts))"
    by (rule process_rows_once [OF _ w(1) empty_queue_claims [OF w(2)]]) (simp add: play_sample_claims play_sample_host_def [THEN arg_cong, of ph_identifier])
  then have "process_rows play_sample_host 96 [One_Time_Product, Subscription_Initial, Subscription_Renewal] 300000 0 100 no_counts play_sample_world
      = (tick w, Inr (no_counts\<lparr>pt_verified := 1\<rparr>))"
    by (simp add: no_counts_def)
  moreover have "safe_integer_of (JNum 300000) = Some 300000" "safe_integer_of (JNum 10000) = Some 10000" by code_simp+
  ultimately have "processGooglePlayProductVerifications play_sample_host play_sample_options 0 play_sample_world
      = (tick w, Inr (no_counts\<lparr>pt_verified := 1\<rparr>))"
    by (simp add: processGooglePlayProductVerifications_def play_sample_options_def boundedInteger_def guardR_def)
  with w(3) show ?thesis by (auto simp: tick_def)
qed

text \<open>One purchase is queued, confirmed by the store and settled with the money of its order.\<close>

theorem settled_purchases_confirmed_witness:
  "\<exists>w. processGooglePlayProductVerifications play_sample_host play_sample_options 0 play_sample_world = (w, Inr (no_counts\<lparr>pt_verified := 1\<rparr>))
    \<and> play_reaches play_sample_host w \<and> length (pb_facts (pw_db w)) = 1 \<and> list_all (confirmed play_sample_host play_sample_row) (pb_facts (pw_db w))"
proof -
  obtain w where w: "processGooglePlayProductVerifications play_sample_host play_sample_options 0 play_sample_world = (w, Inr (no_counts\<lparr>pt_verified := 1\<rparr>))"
    "map sp_money (pb_facts (pw_db w)) = [\<lparr> om_amountUnscaled = ''5'', om_amountScale = 9, om_currency = ''EUR'' \<rparr>]"
    using play_sample_run by (elim exE conjE)
  from settled_purchases_confirmed [OF play_sample_reached play_sample_collision_free w(1)]
  have "play_reaches play_sample_host w \<and> list_all (confirmed play_sample_host play_sample_row) (pb_facts (pw_db w))"
    by (auto simp: play_sample_world_def)
  moreover from w(2) have "length (pb_facts (pw_db w)) = 1" by (metis length_map length_Cons list.size(3) One_nat_def)
  ultimately show ?thesis using w(1) by blast
qed

theorem revenue_once_witness:
  "\<exists>w. play_reaches play_sample_host w \<and> length (pb_facts (pw_db w)) = 1 \<and> distinct (map sp_record_id (pb_facts (pw_db w)))
    \<and> map (\<lambda>f. (sp_record_id f, sp_result_id f)) (pb_facts (pw_db w)) = verified_ids (pb_results (pw_db w))"
proof -
  obtain w where w: "processGooglePlayProductVerifications play_sample_host play_sample_options 0 play_sample_world = (w, Inr (no_counts\<lparr>pt_verified := 1\<rparr>))"
    "map sp_money (pb_facts (pw_db w)) = [\<lparr> om_amountUnscaled = ''5'', om_amountScale = 9, om_currency = ''EUR'' \<rparr>]"
    using play_sample_run by (elim exE conjE)
  from process_sound [OF play_sample_reached play_sample_collision_free w(1)] have r: "play_reaches play_sample_host w" by (rule conjunct1)
  moreover from w(2) have "length (pb_facts (pw_db w)) = 1" by (metis length_map length_Cons list.size(3) One_nat_def)
  ultimately show ?thesis using revenue_once [OF r play_sample_collision_free] by blast
qed

theorem unreadable_claim_fails_for_good_witness:
  "\<exists>w' r. process_row (play_sample_host\<lparr>ph_package := \<lambda>k app. throw ''ECONNRESET''\<rparr>) 96 0 (claimed ''u'' 300000 play_sample_row) play_sample_claimed
      = (w', Inr (Settled (Some Failed))) \<and> pb_results (pw_db w') = [r] \<and> rs_verdict r = Failed"
  using unreadable_claim_fails_for_good [of "play_sample_host\<lparr>ph_package := \<lambda>k app. throw ''ECONNRESET''\<rparr>" play_sample_claimed
    "claimed ''u'' 300000 play_sample_row" "''evidence''" 96 0]
  by (auto simp: play_sample_host_def play_sample_claimed_def play_sample_world_def play_sample_row_def claimed_def lockCurrentClaim_def own_row_def
    sourceIsAvailable_def tick_def throw_def)

end
