(* ===== verification/Tenant_Work.thy ===== *)
theory Tenant_Work
  imports Js_Number
begin

text \<open>
  \<open>apps/worker/src/tenant-work-coordinator.ts\<close>: the coordinator that runs the cycles of the tenants, at most one
  for each tenant and at most \<open>concurrency\<close> at a time, its shutdown, and the limits read from the environment.
  A task is an \<open>async\<close> function, as at its only call site, so it runs until an event settles it.
\<close>

section \<open>Limits\<close>

definition bounded_setting :: "nat \<Rightarrow> nat \<Rightarrow> nat \<Rightarrow> string \<Rightarrow> string option \<Rightarrow> nat res" where
  "bounded_setting fallback minimum maximum reason v =
     (case js_number (the_or (show_nat fallback) v) of
        Some q \<Rightarrow> guardR (of_int \<lfloor>q\<rfloor> = q \<and> \<bar>q\<bar> \<le> of_int MAX_SAFE_INTEGER \<and> of_nat minimum \<le> q \<and> q \<le> of_nat maximum) reason (Inr (nat \<lfloor>q\<rfloor>))
      | None \<Rightarrow> throw reason)"

definition parseWorkerConcurrency :: "string option \<Rightarrow> nat res" where
  "parseWorkerConcurrency = bounded_setting 4 1 16 ''OPENMASU_WORKER_CONCURRENCY must be an integer from 1 through 16''"

definition parseWorkerShutdownTimeout :: "string option \<Rightarrow> nat res" where
  "parseWorkerShutdownTimeout =
     bounded_setting 30000 1000 300000 ''OPENMASU_WORKER_SHUTDOWN_TIMEOUT_MS must be an integer from 1000 through 300000''"

definition parseWorkerInboxBatchLimit :: "string \<Rightarrow> string option \<Rightarrow> nat res" where
  "parseWorkerInboxBatchLimit name = bounded_setting 100 1 1000 (name @ '' must be an integer from 1 through 1000'')"

record pool_sizes =
  pz_jobs :: nat
  pz_scheduler :: nat
  pz_coordination :: nat

definition workerPoolSizes :: "nat \<Rightarrow> pool_sizes res" where
  "workerPoolSizes concurrency =
     bindR (parseWorkerConcurrency (Some (show_nat concurrency))) (\<lambda>bounded.
       Inr \<lparr> pz_jobs = bounded * 2, pz_scheduler = bounded, pz_coordination = bounded \<rparr>)"

section \<open>The coordinator\<close>

text \<open>A work is a tenant and the number of its task.\<close>

type_synonym tenant_work = "string \<times> nat"

text \<open>
  The private members of the class. \<open>wk_running\<close> holds the calls of \<open>#run\<close> that have not ended, \<open>wk_started\<close>,
  \<open>wk_failures\<close> and \<open>wk_resolved\<close> the tasks called, the failures reported and the waiters resolved so far.
\<close>

record coordinator =
  wk_concurrency :: nat
  wk_pending :: "string list"
  wk_queue :: "tenant_work list"
  wk_waiters :: "nat list"
  wk_active :: nat
  wk_closed :: bool
  wk_running :: "tenant_work list"
  wk_started :: "tenant_work list"
  wk_failures :: "tenant_work list"
  wk_resolved :: "nat list"

definition new_coordinator :: "nat \<Rightarrow> coordinator res" where
  "new_coordinator concurrency =
     bindR (parseWorkerConcurrency (Some (show_nat concurrency))) (\<lambda>n.
       Inr \<lparr> wk_concurrency = n, wk_pending = [], wk_queue = [], wk_waiters = [], wk_active = 0, wk_closed = False, wk_running = [],
         wk_started = [], wk_failures = [], wk_resolved = [] \<rparr>)"

definition resolve_idle :: "coordinator \<Rightarrow> coordinator" where
  "resolve_idle p = (if wk_active p \<noteq> 0 \<or> wk_queue p \<noteq> [] then p else p\<lparr>wk_resolved := wk_resolved p @ wk_waiters p, wk_waiters := []\<rparr>)"

definition start_work :: "tenant_work \<Rightarrow> coordinator \<Rightarrow> coordinator" where
  "start_work w p = p\<lparr>wk_active := wk_active p + 1, wk_running := wk_running p @ [w], wk_started := wk_started p @ [w]\<rparr>"

function pump :: "coordinator \<Rightarrow> coordinator" where
  "pump p = (case wk_queue p of
     [] \<Rightarrow> resolve_idle p
   | w # ws \<Rightarrow> if wk_active p < wk_concurrency p then pump (start_work w (p\<lparr>wk_queue := ws\<rparr>)) else resolve_idle p)"
  by pat_completeness auto
termination by (relation "measure (\<lambda>p. length (wk_queue p))") (auto simp: start_work_def)

declare pump.simps [simp del]

definition submit :: "string \<Rightarrow> nat \<Rightarrow> coordinator \<Rightarrow> coordinator \<times> bool" where
  "submit tenant task p =
     (if wk_closed p \<or> tenant \<in> set (wk_pending p) then (p, False)
      else (pump (p\<lparr>wk_pending := wk_pending p @ [tenant], wk_queue := wk_queue p @ [(tenant, task)]\<rparr>), True))"

definition close_coordinator :: "coordinator \<Rightarrow> coordinator" where
  "close_coordinator p = resolve_idle (p\<lparr>wk_closed := True\<rparr>)"

text \<open>A waiter is the number of a promise; it resolves at once when the coordinator is idle.\<close>

definition waitForIdle :: "nat \<Rightarrow> coordinator \<Rightarrow> coordinator" where
  "waitForIdle waiter p =
     (if wk_active p = 0 \<and> wk_queue p = [] then p\<lparr>wk_resolved := wk_resolved p @ [waiter]\<rparr> else p\<lparr>wk_waiters := wk_waiters p @ [waiter]\<rparr>)"

text \<open>The end of \<open>#run\<close>: a failure is reported, the tenant is free again, and the queue moves on.\<close>

definition end_run :: "tenant_work \<Rightarrow> bool \<Rightarrow> coordinator \<Rightarrow> coordinator" where
  "end_run w failed p =
     (let q = (if failed then p\<lparr>wk_failures := wk_failures p @ [w]\<rparr> else p) in
      pump (q\<lparr>wk_active := wk_active q - 1, wk_pending := removeAll (fst w) (wk_pending q), wk_running := remove1 w (wk_running q)\<rparr>))"

section \<open>What happens to a coordinator\<close>

datatype work_event = Submitted string nat | Ended tenant_work bool | Closed | Waited nat

fun work_apply :: "work_event \<Rightarrow> coordinator \<Rightarrow> coordinator" where
  "work_apply (Submitted tenant task) p = fst (submit tenant task p)"
| "work_apply (Ended w failed) p = (if w \<in> set (wk_running p) then end_run w failed p else p)"
| "work_apply Closed p = close_coordinator p"
| "work_apply (Waited waiter) p = waitForIdle waiter p"

fun work_run :: "work_event list \<Rightarrow> coordinator \<Rightarrow> coordinator" where
  "work_run [] p = p"
| "work_run (e # es) p = work_run es (work_apply e p)"

text \<open>The works that \<open>submit\<close> answered with \<open>true\<close>, in their order.\<close>

fun accepted_works :: "work_event list \<Rightarrow> coordinator \<Rightarrow> tenant_work list" where
  "accepted_works [] p = []"
| "accepted_works (Submitted tenant task # es) p =
     (if snd (submit tenant task p) then (tenant, task) # accepted_works es (fst (submit tenant task p)) else accepted_works es p)"
| "accepted_works (e # es) p = accepted_works es (work_apply e p)"

section \<open>Shutdown\<close>

text \<open>
  \<open>waitForWorkerDrain\<close>: the first of the deadline, the end of the poll with an idle coordinator, and a failed poll
  decides. \<open>dn_waiter\<close> is the promise of \<open>waitForIdle\<close>.
\<close>

record drain =
  dn_waiter :: nat
  dn_polled :: bool
  dn_result :: "bool option"

datatype drain_event = Deadline | Poll_Ended bool | Work work_event

definition finish_drain :: "bool \<Rightarrow> drain \<Rightarrow> drain" where
  "finish_drain drained d = (if dn_result d \<noteq> None then d else d\<lparr>dn_result := Some drained\<rparr>)"

definition check_drain :: "coordinator \<Rightarrow> drain \<Rightarrow> drain" where
  "check_drain p d = (if dn_polled d \<and> dn_waiter d \<in> set (wk_resolved p) then finish_drain True d else d)"

definition waitForWorkerDrain :: "nat \<Rightarrow> bool \<Rightarrow> bool \<Rightarrow> coordinator \<Rightarrow> coordinator \<times> drain" where
  "waitForWorkerDrain waiter polling aborted p =
     (if aborted then (p, \<lparr> dn_waiter = waiter, dn_polled = False, dn_result = Some False \<rparr>)
      else let q = waitForIdle waiter p in (q, check_drain q \<lparr> dn_waiter = waiter, dn_polled = \<not> polling, dn_result = None \<rparr>))"

fun drain_apply :: "drain_event \<Rightarrow> coordinator \<times> drain \<Rightarrow> coordinator \<times> drain" where
  "drain_apply Deadline (p, d) = (p, finish_drain False d)"
| "drain_apply (Poll_Ended ok) (p, d) = (p, if ok then check_drain p (d\<lparr>dn_polled := True\<rparr>) else finish_drain False d)"
| "drain_apply (Work e) (p, d) = (let q = work_apply e p in (q, check_drain q d))"

section \<open>The invariant\<close>

definition coordinated :: "coordinator \<Rightarrow> bool" where
  "coordinated p \<longleftrightarrow> 1 \<le> wk_concurrency p \<and> wk_concurrency p \<le> 16 \<and> wk_active p = length (wk_running p) \<and> wk_active p \<le> wk_concurrency p
     \<and> distinct (map fst (wk_running p @ wk_queue p)) \<and> set (wk_pending p) = set (map fst (wk_running p @ wk_queue p))"

text \<open>What holds between events and not while the queue moves.\<close>

definition settled_pool :: "coordinator \<Rightarrow> bool" where
  "settled_pool p \<longleftrightarrow> coordinated p \<and> (wk_queue p \<noteq> [] \<longrightarrow> wk_active p = wk_concurrency p)
     \<and> (wk_active p = 0 \<and> wk_queue p = [] \<longrightarrow> wk_waiters p = [])"

text \<open>Pumping only starts works from the head of the queue and resolves waiters.\<close>

lemma pump_effect:
  "coordinated p \<Longrightarrow> settled_pool (pump p) \<and> (\<exists>ws. wk_queue p = ws @ wk_queue (pump p) \<and> wk_started (pump p) = wk_started p @ ws
     \<and> wk_running (pump p) = wk_running p @ ws) \<and> wk_failures (pump p) = wk_failures p \<and> wk_closed (pump p) = wk_closed p
     \<and> wk_concurrency (pump p) = wk_concurrency p \<and> wk_pending (pump p) = wk_pending p
     \<and> wk_resolved (pump p) @ wk_waiters (pump p) = wk_resolved p @ wk_waiters p"
proof (induction p rule: pump.induct)
  case (1 p)
  show ?case
  proof (cases "\<exists>w ws. wk_queue p = w # ws \<and> wk_active p < wk_concurrency p")
    case False
    then have e: "pump p = resolve_idle p" by (subst pump.simps) (auto split: list.splits)
    from False 1(2) have "wk_queue p \<noteq> [] \<longrightarrow> wk_active p = wk_concurrency p" by (cases "wk_queue p") (auto simp: coordinated_def)
    with 1(2) show ?thesis unfolding e by (auto simp: resolve_idle_def settled_pool_def coordinated_def)
  next
    case True
    then obtain w ws where q: "wk_queue p = w # ws" "wk_active p < wk_concurrency p" by blast
    let ?p = "start_work w (p\<lparr>wk_queue := ws\<rparr>)"
    have e: "pump p = pump ?p" using q by (subst pump.simps) simp
    have "coordinated ?p" using 1(2) q by (auto simp: coordinated_def start_work_def)
    from 1(1) [OF q(1) q(2) this] obtain vs where "ws = vs @ wk_queue (pump ?p)" "wk_started (pump ?p) = wk_started p @ w # vs"
      "wk_running (pump ?p) = wk_running p @ w # vs" by (auto simp: start_work_def)
    with 1(1) [OF q(1) q(2) \<open>coordinated ?p\<close>] q show ?thesis unfolding e
      by (intro conjI exI [of _ "w # vs"]) (simp_all add: start_work_def)
  qed
qed

lemma new_settled: "new_coordinator n = Inr p \<Longrightarrow> settled_pool p \<and> wk_started p = [] \<and> wk_queue p = []"
  by (auto simp: new_coordinator_def parseWorkerConcurrency_def bounded_setting_def settled_pool_def coordinated_def bindR_eq_Inr guardR_eq_Inr
      le_nat_iff split: option.splits)

text \<open>The state that the queue moves on from, once a run has ended.\<close>

definition ended :: "tenant_work \<Rightarrow> bool \<Rightarrow> coordinator \<Rightarrow> coordinator" where
  "ended w failed p = p\<lparr>wk_pending := removeAll (fst w) (wk_pending p), wk_active := wk_active p - 1, wk_running := remove1 w (wk_running p),
     wk_failures := (if failed then wk_failures p @ [w] else wk_failures p)\<rparr>"

lemma end_run_pumps: "end_run w failed p = pump (ended w failed p)"
  by (auto simp: end_run_def ended_def Let_def intro!: arg_cong [of _ _ pump])

lemma removed_tenants:
  assumes "distinct (map fst xs)" "w \<in> set xs"
  shows "set (map fst (remove1 w xs)) = set (map fst xs) - {fst w}"
proof -
  from assms(1) have "distinct xs" by (simp add: distinct_map)
  with assms show ?thesis by (auto simp: distinct_map inj_on_def)
qed

lemma ended_coordinated:
  assumes "coordinated p" "w \<in> set (wk_running p)"
  shows "coordinated (ended w failed p)"
proof -
  have t: "distinct (map fst (wk_running p))" "distinct (map fst (wk_queue p))" "fst ` set (wk_running p) \<inter> fst ` set (wk_queue p) = {}"
    using assms(1) by (auto simp: coordinated_def)
  have r: "set (map fst (remove1 w (wk_running p))) = set (map fst (wk_running p)) - {fst w}" by (rule removed_tenants [OF t(1) assms(2)])
  have "distinct (map fst (remove1 w (wk_running p)))" using t(1) by (auto simp: distinct_map intro: inj_on_subset)
  moreover have "fst w \<notin> fst ` set (wk_queue p)" using t(3) assms(2) by blast
  moreover have "length (remove1 w (wk_running p)) = length (wk_running p) - 1" using assms(2) by (simp add: length_remove1)
  ultimately show ?thesis using assms(1) t r unfolding coordinated_def ended_def by auto
qed

lemma settled_apply: "settled_pool p \<Longrightarrow> settled_pool (work_apply e p)"
proof (cases e)
  case (Submitted tenant task)
  assume p: "settled_pool p"
  then have "coordinated (p\<lparr>wk_pending := wk_pending p @ [tenant], wk_queue := wk_queue p @ [(tenant, task)]\<rparr>)"
    if "tenant \<notin> set (wk_pending p)" using that by (auto simp: settled_pool_def coordinated_def)
  with p Submitted show ?thesis by (auto simp: submit_def dest!: pump_effect)
next
  case (Ended w failed)
  assume "settled_pool p"
  then have "settled_pool (pump (ended w failed p))" if "w \<in> set (wk_running p)"
    using ended_coordinated [THEN pump_effect] that by (simp add: settled_pool_def)
  with \<open>settled_pool p\<close> Ended show ?thesis by (simp add: end_run_pumps)
next
  case Closed
  assume "settled_pool p"
  with Closed show ?thesis by (auto simp: close_coordinator_def resolve_idle_def settled_pool_def coordinated_def)
next
  case (Waited waiter)
  assume "settled_pool p"
  with Waited show ?thesis by (auto simp: waitForIdle_def settled_pool_def coordinated_def)
qed

lemma settled_run: "settled_pool p \<Longrightarrow> settled_pool (work_run es p)"
  by (induction es arbitrary: p) (auto intro: settled_apply)

text \<open>C16. Whatever is submitted and however runs end, at most the configured number of tasks runs at once, no tenant has two works
  in the coordinator, no place is left free while a work waits, and no waiter is forgotten when it is idle.\<close>

theorem coordinator_invariant:
  assumes "new_coordinator n = Inr p" "work_run es p = q"
  shows "wk_active q = length (wk_running q) \<and> wk_active q \<le> wk_concurrency q \<and> distinct (map fst (wk_running q @ wk_queue q))
    \<and> (wk_queue q \<noteq> [] \<longrightarrow> wk_active q = wk_concurrency q) \<and> (wk_active q = 0 \<longrightarrow> wk_queue q = [] \<and> wk_waiters q = [])"
proof -
  have "settled_pool q" using settled_run [of p es] new_settled [OF assms(1)] assms(2) by blast
  then show ?thesis by (auto simp: settled_pool_def coordinated_def)
qed

section \<open>Order and progress\<close>

lemma queue_moves: "coordinated p \<Longrightarrow> wk_started (pump p) @ wk_queue (pump p) = wk_started p @ wk_queue p"
  using pump_effect [of p] by auto

lemma fifo_apply:
  assumes "settled_pool p"
  shows "wk_started (work_apply e p) @ wk_queue (work_apply e p) = (wk_started p @ wk_queue p)
    @ (case e of Submitted tenant task \<Rightarrow> if snd (submit tenant task p) then [(tenant, task)] else [] | _ \<Rightarrow> [])"
proof (cases e)
  case (Submitted tenant task)
  have "coordinated (p\<lparr>wk_pending := wk_pending p @ [tenant], wk_queue := wk_queue p @ [(tenant, task)]\<rparr>)" if "tenant \<notin> set (wk_pending p)"
    using assms that by (auto simp: settled_pool_def coordinated_def)
  with Submitted show ?thesis by (auto simp: submit_def queue_moves)
next
  case (Ended w failed)
  show ?thesis
  proof (cases "w \<in> set (wk_running p)")
    case True
    with assms have "coordinated (ended w failed p)" by (simp add: settled_pool_def ended_coordinated)
    from queue_moves [OF this] True Ended show ?thesis by (simp add: end_run_pumps) (simp add: ended_def)
  qed (simp add: Ended)
qed (auto simp: close_coordinator_def resolve_idle_def waitForIdle_def)

lemma fifo_run:
  "settled_pool p \<Longrightarrow> wk_started (work_run es p) @ wk_queue (work_run es p) = (wk_started p @ wk_queue p) @ accepted_works es p"
proof (induction es arbitrary: p)
  case (Cons e es)
  have "accepted_works (e # es) p = (case e of Submitted tenant task \<Rightarrow> if snd (submit tenant task p) then [(tenant, task)] else [] | _ \<Rightarrow> [])
      @ accepted_works es (work_apply e p)"
    by (cases e) (simp_all add: submit_def)
  with Cons.IH [OF settled_apply [OF Cons.prems, of e]] fifo_apply [OF Cons.prems, of e] show ?case by simp
qed simp

text \<open>Works start in the order in which they were accepted, each once: what was started, followed by what waits, is what was accepted.\<close>

theorem works_start_in_order:
  assumes "new_coordinator n = Inr p"
  shows "wk_started (work_run es p) @ wk_queue (work_run es p) = accepted_works es p"
  using fifo_run [of p es] new_settled [OF assms] by simp

text \<open>Events that only end runs, each of one that is running.\<close>

fun only_ends :: "work_event list \<Rightarrow> coordinator \<Rightarrow> bool" where
  "only_ends [] p \<longleftrightarrow> True"
| "only_ends (Ended w failed # es) p \<longleftrightarrow> w \<in> set (wk_running p) \<and> only_ends es (work_apply (Ended w failed) p)"
| "only_ends (e # es) p \<longleftrightarrow> False"

definition works_left :: "coordinator \<Rightarrow> nat" where
  "works_left p = length (wk_running p) + length (wk_queue p)"

lemma end_effect:
  assumes "settled_pool p" "w \<in> set (wk_running p)"
  shows "Suc (works_left (end_run w failed p)) = works_left p"
    "wk_started (end_run w failed p) @ wk_queue (end_run w failed p) = wk_started p @ wk_queue p"
    "wk_resolved (end_run w failed p) @ wk_waiters (end_run w failed p) = wk_resolved p @ wk_waiters p"
proof -
  have c: "coordinated (ended w failed p)" using assms by (simp add: settled_pool_def ended_coordinated)
  from pump_effect [OF this] obtain ws where "wk_queue (ended w failed p) = ws @ wk_queue (end_run w failed p)"
    "wk_running (end_run w failed p) = wk_running (ended w failed p) @ ws" unfolding end_run_pumps by blast
  moreover have "Suc (length (remove1 w (wk_running p))) = length (wk_running p)"
    using assms(2) length_pos_if_in_set [OF assms(2)] by (simp add: length_remove1)
  ultimately show "Suc (works_left (end_run w failed p)) = works_left p"
    by (simp add: works_left_def ended_def)
  show "wk_started (end_run w failed p) @ wk_queue (end_run w failed p) = wk_started p @ wk_queue p"
    using queue_moves [OF c] unfolding end_run_pumps by (simp add: ended_def)
  show "wk_resolved (end_run w failed p) @ wk_waiters (end_run w failed p) = wk_resolved p @ wk_waiters p"
    using pump_effect [OF c] unfolding end_run_pumps by (simp add: ended_def)
qed

lemma ends_progress:
  "settled_pool p \<Longrightarrow> only_ends es p \<Longrightarrow> works_left (work_run es p) + length es = works_left p
     \<and> wk_started (work_run es p) @ wk_queue (work_run es p) = wk_started p @ wk_queue p
     \<and> wk_resolved (work_run es p) @ wk_waiters (work_run es p) = wk_resolved p @ wk_waiters p"
proof (induction es arbitrary: p)
  case (Cons e es)
  from Cons.prems obtain w failed where e: "e = Ended w failed" "w \<in> set (wk_running p)" by (cases e) auto
  from Cons.IH [OF settled_apply [OF Cons.prems(1), of e]] Cons.prems(2) end_effect [OF Cons.prems(1) e(2), of failed] e show ?case by simp
qed simp

text \<open>C17. The queue drains: as long as a work is left, one is running whose end is awaited; each end leaves one work less; and once
  none is running every accepted work has been started and every waiter is resolved, whatever the order and outcome of the ends.\<close>

theorem queue_drains:
  assumes "new_coordinator n = Inr p0" "work_run before p0 = p" "only_ends es p" "work_run es p = q"
  shows "works_left q + length es = works_left p \<and> (wk_running q = [] \<longleftrightarrow> works_left q = 0)
    \<and> (wk_running q = [] \<longrightarrow> wk_started q = wk_started p @ wk_queue p \<and> wk_resolved q = wk_resolved p @ wk_waiters p)"
proof -
  have p: "settled_pool p" using settled_run [of p0 before] new_settled [OF assms(1)] assms(2) by blast
  then have q: "settled_pool q" using settled_run assms(4) by blast
  have "wk_queue q = [] \<and> wk_waiters q = []" if "wk_running q = []"
    using q that by (auto simp: settled_pool_def coordinated_def)
  with ends_progress [OF p assms(3)] assms(4) show ?thesis by (auto simp: works_left_def)
qed

section \<open>The end of a drain\<close>

definition idle_pool :: "coordinator \<Rightarrow> bool" where
  "idle_pool p \<longleftrightarrow> wk_active p = 0 \<and> wk_queue p = []"

lemma pump_resolves: "wk_resolved (pump p) = wk_resolved p \<or> idle_pool (pump p)"
proof (induction p rule: pump.induct)
  case (1 p)
  show ?case
    by (subst (1 2) pump.simps) (use 1 in \<open>auto simp: resolve_idle_def start_work_def idle_pool_def split: list.splits\<close>)
qed

lemma apply_resolves: "wk_resolved (work_apply e p) = wk_resolved p \<or> idle_pool (work_apply e p)"
proof (cases e)
  case (Submitted tenant task)
  then show ?thesis using pump_resolves [of "p\<lparr>wk_pending := wk_pending p @ [tenant], wk_queue := wk_queue p @ [(tenant, task)]\<rparr>"]
    by (auto simp: submit_def)
next
  case (Ended w failed)
  then show ?thesis using pump_resolves [of "ended w failed p"] by (auto simp: end_run_pumps ended_def)
qed (auto simp: close_coordinator_def resolve_idle_def waitForIdle_def idle_pool_def)

lemma closed_apply:
  assumes "settled_pool p" "wk_closed p"
  shows "wk_closed (work_apply e p)"
proof (cases e)
  case (Ended w failed)
  show ?thesis
  proof (cases "w \<in> set (wk_running p)")
    case True
    with assms(1) have "coordinated (ended w failed p)" by (simp add: settled_pool_def ended_coordinated)
    from pump_effect [OF this] True Ended assms(2) show ?thesis by (simp add: end_run_pumps) (simp add: ended_def)
  qed (use Ended assms in simp)
qed (use assms in \<open>auto simp: submit_def close_coordinator_def resolve_idle_def waitForIdle_def\<close>)

text \<open>A closed coordinator that is idle stays idle and starts nothing.\<close>

lemma idle_stays:
  assumes "settled_pool p" "wk_closed p" "idle_pool p"
  shows "idle_pool (work_apply e p) \<and> wk_started (work_apply e p) = wk_started p"
proof (cases e)
  case (Ended w failed)
  have "wk_running p = []" using assms by (simp add: settled_pool_def coordinated_def idle_pool_def)
  with Ended assms show ?thesis by simp
qed (use assms in \<open>auto simp: submit_def close_coordinator_def resolve_idle_def waitForIdle_def idle_pool_def\<close>)

lemma idle_run:
  "settled_pool p \<Longrightarrow> wk_closed p \<Longrightarrow> idle_pool p \<Longrightarrow> idle_pool (work_run es p) \<and> wk_started (work_run es p) = wk_started p"
proof (induction es arbitrary: p)
  case (Cons e es)
  from Cons.IH [OF settled_apply [OF Cons.prems(1), of e] closed_apply [OF Cons.prems(1,2)]] idle_stays [OF Cons.prems, of e]
  show ?case by simp
qed simp

definition draining :: "coordinator \<times> drain \<Rightarrow> bool" where
  "draining s \<longleftrightarrow> (case s of (p, d) \<Rightarrow> settled_pool p \<and> wk_closed p \<and> (dn_waiter d \<in> set (wk_resolved p) \<longrightarrow> idle_pool p)
     \<and> (dn_result d = Some True \<longrightarrow> dn_polled d \<and> dn_waiter d \<in> set (wk_resolved p)))"

lemma check_keeps: "draining (p, d) \<Longrightarrow> draining (p, check_drain p d)"
  by (auto simp: draining_def check_drain_def finish_drain_def)

lemma pump_keeps_resolved: "set (wk_resolved q) \<subseteq> set (wk_resolved (pump q))"
proof (induction q rule: pump.induct)
  case (1 q)
  then show ?case by (subst pump.simps) (auto simp: resolve_idle_def start_work_def split: list.splits)
qed

lemma apply_keeps_resolved: "settled_pool p \<Longrightarrow> set (wk_resolved p) \<subseteq> set (wk_resolved (work_apply e p))"
proof (cases e)
  case (Submitted tenant task)
  assume p: "settled_pool p"
  let ?q = "p\<lparr>wk_pending := wk_pending p @ [tenant], wk_queue := wk_queue p @ [(tenant, task)]\<rparr>"
  from pump_keeps_resolved [of ?q] Submitted show ?thesis by (auto simp: submit_def)
next
  case (Ended w failed)
  from pump_keeps_resolved [of "ended w failed p"] Ended show ?thesis by (auto simp: end_run_pumps ended_def)
qed (auto simp: close_coordinator_def resolve_idle_def waitForIdle_def)

lemma drain_step: "draining s \<Longrightarrow> draining (drain_apply e s)"
proof (cases e)
  case (Work x)
  assume s: "draining s"
  obtain p d where pd: "s = (p, d)" by (cases s)
  with s have p: "settled_pool p" "wk_closed p" by (auto simp: draining_def)
  have "draining (work_apply x p, d)"
    using s pd settled_apply [OF p(1), of x] closed_apply [OF p, of x] apply_resolves [of x p] idle_stays [OF p, of x] apply_keeps_resolved [OF p(1), of x]
    by (auto simp: draining_def)
  with Work pd check_keeps show ?thesis by (simp add: Let_def)
next
  case Deadline
  assume "draining s"
  with Deadline show ?thesis by (cases s) (auto simp: draining_def finish_drain_def)
next
  case (Poll_Ended ok)
  assume "draining s"
  moreover obtain p d where "s = (p, d)" by (cases s)
  ultimately show ?thesis using Poll_Ended check_keeps [of p "d\<lparr>dn_polled := True\<rparr>"] by (auto simp: draining_def finish_drain_def)
qed

lemma drain_fold: "draining s \<Longrightarrow> draining (fold drain_apply es s)"
  by (induction es arbitrary: s) (simp_all add: drain_step)

text \<open>C18. A shutdown that reports a drained worker has drained it: the poll has ended, every accepted work was started and has ended,
  and nothing starts any more, whatever happens afterwards.\<close>

theorem drained_means_done:
  assumes "new_coordinator n = Inr p0" "work_run before p0 = p" "wk_closed p" "waiter \<notin> set (wk_resolved p)"
    "fold drain_apply es (waitForWorkerDrain waiter polling aborted p) = (q, d)" "dn_result d = Some True"
  shows "dn_polled d \<and> wk_running q = [] \<and> wk_queue q = [] \<and> wk_started (work_run later q) = wk_started q"
proof -
  have "settled_pool p" using settled_run [of p0 before] new_settled [OF assms(1)] assms(2) by blast
  then have "draining (waitForWorkerDrain waiter polling aborted p)"
    using assms(3,4) settled_apply [of p "Waited waiter"] closed_apply [of p "Waited waiter"]
    by (auto simp: waitForWorkerDrain_def draining_def check_drain_def finish_drain_def Let_def waitForIdle_def idle_pool_def split: if_splits)
  from drain_fold [OF this, of es] assms(5) have "draining (q, d)" by simp
  with assms(6) have "settled_pool q" "wk_closed q" "idle_pool q" "dn_polled d" by (auto simp: draining_def)
  with idle_run [of q later] show ?thesis by (auto simp: settled_pool_def coordinated_def idle_pool_def)
qed

section \<open>A sample\<close>

text \<open>Two tenants share one place; the second submission of the first tenant is refused.\<close>

definition crowd_events :: "work_event list" where
  "crowd_events = [Submitted ''a'' 0, Submitted ''b'' 1, Submitted ''a'' 2, Waited 7]"

definition crowd_start :: coordinator where
  "crowd_start = \<lparr> wk_concurrency = 1, wk_pending = [], wk_queue = [], wk_waiters = [], wk_active = 0, wk_closed = False, wk_running = [],
     wk_started = [], wk_failures = [], wk_resolved = [] \<rparr>"

lemma crowd_new: "new_coordinator 1 = Inr crowd_start"
  by code_simp

definition crowd_busy :: coordinator where
  "crowd_busy = \<lparr> wk_concurrency = 1, wk_pending = [''a'', ''b''], wk_queue = [(''b'', 1)], wk_waiters = [7], wk_active = 1, wk_closed = False,
     wk_running = [(''a'', 0)], wk_started = [(''a'', 0)], wk_failures = [], wk_resolved = [] \<rparr>"

lemma crowd_run: "work_run crowd_events crowd_start = crowd_busy"
  by code_simp

theorem coordinator_invariant_witness: "wk_active crowd_busy \<le> wk_concurrency crowd_busy \<and> distinct (map fst (wk_running crowd_busy @ wk_queue crowd_busy))"
  using coordinator_invariant [OF crowd_new crowd_run] by simp

theorem works_start_in_order_witness:
  "wk_started crowd_busy @ wk_queue crowd_busy = accepted_works crowd_events crowd_start \<and> accepted_works crowd_events crowd_start = [(''a'', 0), (''b'', 1)]"
proof -
  have "accepted_works crowd_events crowd_start = [(''a'', 0), (''b'', 1)]" by code_simp
  with works_start_in_order [OF crowd_new, of crowd_events] crowd_run show ?thesis by simp
qed

definition crowd_ends :: "work_event list" where
  "crowd_ends = [Ended (''a'', 0) True, Ended (''b'', 1) False]"

theorem queue_drains_witness:
  "wk_started (work_run crowd_ends crowd_busy) = [(''a'', 0), (''b'', 1)] \<and> wk_resolved (work_run crowd_ends crowd_busy) = [7]"
proof -
  have "only_ends crowd_ends crowd_busy" by code_simp
  moreover have "wk_running (work_run crowd_ends crowd_busy) = []" by code_simp
  ultimately show ?thesis using queue_drains [OF crowd_new crowd_run, of crowd_ends] by (simp add: crowd_busy_def)
qed

theorem drained_means_done_witness:
  "\<exists>q d. fold drain_apply [Work (Ended (''a'', 0) True), Poll_Ended True, Work (Ended (''b'', 1) False)]
      (waitForWorkerDrain 8 True False (close_coordinator crowd_busy)) = (q, d)
    \<and> dn_result d = Some True \<and> wk_running q = [] \<and> wk_started (work_run [Submitted ''c'' 3] q) = wk_started q"
proof -
  let ?s = "fold drain_apply [Work (Ended (''a'', 0) True), Poll_Ended True, Work (Ended (''b'', 1) False)]
      (waitForWorkerDrain 8 True False (close_coordinator crowd_busy))"
  obtain q d where s: "?s = (q, d)" by (cases ?s)
  have "dn_result (snd ?s) = Some True" by code_simp
  then have d: "dn_result d = Some True" by (simp only: s snd_conv)
  have "work_run (crowd_events @ [Closed]) crowd_start = close_coordinator crowd_busy" by code_simp
  moreover have "wk_closed (close_coordinator crowd_busy)" "8 \<notin> set (wk_resolved (close_coordinator crowd_busy))" by code_simp+
  ultimately have "wk_running q = [] \<and> wk_started (work_run [Submitted ''c'' 3] q) = wk_started q"
    using drained_means_done [OF crowd_new _ _ _ s d, of "crowd_events @ [Closed]" "[Submitted ''c'' 3]"] by blast
  with s d show ?thesis by blast
qed

end
