(* ===== verification/Spec2Isabelle.thy ===== *)
theory Spec2Isabelle
  imports Prelude Composite_Key Clock Instants Eval_Utils Calendar Doubles Model Candidates
    Purpose_Consent Ingestion Refunds Decide Assertions Fraud_Rules Attribution Fraud_Artifacts
    Evidence_Artifacts Cost_Selection Reconciliation Platform_Acquisition Fx_Policy Metric_Model Engagement
    Metric_Cohorts Metric_Values Metric_Runs Evaluator Fraud_Preview Url_Params Install_Referrer Redirector
    Js_Number Json Apple_Transaction Commerce_Lifecycle Rate_Limit Apple_Postback Apple_Receiver
    Payload_Store Durable_Inbox App_Association Redirector_Service Decimal_Text Import_Normalization
    Js_String Import_Mapping Cost_Import Meta_Insights Google_Costs Google_Ads
    Play_Responses Play_Verifier Tenant_Work
begin

text \<open>
  A verification library of OpenMasu, a self-hosted mobile measurement platform. The program receives
  evidence (clicks, installs, purchases, refunds, postbacks of the stores), decides what of it is
  admitted, attributes installs, applies fraud rules, and computes metrics that can be reproduced.

  \<^bold>\<open>The parts and how they meet.\<close> The attribution core (\<open>packages/attribution-core\<close>) is one pure function,
  \<open>evaluate\<close>, over delivered batches; it calls the definitions of \<open>packages/contracts\<close> (consent, rates,
  calendars, metric definitions) and the rules of \<open>packages/fraud-rules\<close>. The redirector
  (\<open>packages/redirector-core\<close>, \<open>apps/redirector\<close>) turns visits of tracking links into click evidence. The
  receivers of \<open>apps/api\<close> turn signed postbacks and notifications of the stores into durable batches, using
  \<open>packages/apple-postback\<close> and \<open>packages/commerce-lifecycle\<close>, guarded by the limiters of \<open>rate-limit.ts\<close>.

  \<^bold>\<open>Theories.\<close>
  \<^item> Shared ground: \<open>Prelude\<close> (results, truthiness, maps in insertion order, texts), \<open>Composite_Key\<close>
    (\<open>JSON.stringify\<close> of keys is injective), \<open>Clock\<close> and \<open>Instants\<close> (days and ISO instants, order of texts is
    order of instants), \<open>Eval_Utils\<close> (\<open>compareText\<close>, \<open>sortByKey\<close>, \<open>roundHalfEven\<close>), \<open>Calendar\<close>
    (\<open>calendar-time.ts\<close>; a local midnight is always found), \<open>Doubles\<close> (IEEE arithmetic on rationals),
    \<open>Js_Number\<close> and \<open>Json\<close> (\<open>Number\<close>, \<open>String\<close>, parsed values).
  \<^item> Attribution core: \<open>Model\<close> (\<open>evaluation-model.ts\<close>), \<open>Candidates\<close> (\<open>candidates.ts\<close>, with the locale
    \<open>candidate_source\<close> for what the evaluator needs of a provider and an interpretation for each of the two
    implementations), \<open>Purpose_Consent\<close>, \<open>Ingestion\<close>, \<open>Refunds\<close>, \<open>Decide\<close> and \<open>Assertions\<close>
    (\<open>ingestion-decisions.ts\<close> and \<open>purpose-consent.ts\<close>), \<open>Fraud_Rules\<close>, \<open>Attribution\<close>, \<open>Fraud_Artifacts\<close>,
    \<open>Evidence_Artifacts\<close>, \<open>Cost_Selection\<close>, \<open>Reconciliation\<close>, \<open>Platform_Acquisition\<close>, \<open>Fx_Policy\<close>,
    \<open>Metric_Model\<close>, \<open>Engagement\<close>, \<open>Metric_Cohorts\<close>, \<open>Metric_Values\<close> and \<open>Metric_Runs\<close>
    (\<open>metric-runs.ts\<close>, \<open>engagement-metrics.ts\<close>), \<open>Evaluator\<close> (\<open>evaluator.ts\<close>), \<open>Fraud_Preview\<close>.
  \<^item> Links and stores: \<open>Url_Params\<close> (\<open>URLSearchParams\<close>), \<open>Install_Referrer\<close>, \<open>Redirector\<close>,
    \<open>Apple_Transaction\<close>, \<open>Commerce_Lifecycle\<close>, \<open>Rate_Limit\<close>, \<open>Apple_Postback\<close>, \<open>Apple_Receiver\<close>.
  \<^item> Storage and service: \<open>Payload_Store\<close> (\<open>payload-store.ts\<close>: a store of files whose every call may fail, and
    the resumable rotation of its wrapping key), \<open>Durable_Inbox\<close> (\<open>ingest-batch.ts\<close> with admission,
    diagnostics and the privacy fence: one transaction around the payload store), \<open>App_Association\<close>,
    \<open>Redirector_Service\<close> (\<open>handler.ts\<close>: one request from the health check to the answered click).
  \<^item> Imports: \<open>Decimal_Text\<close> (decimals without padding), \<open>Js_String\<close> (\<open>String\<close> of a number),
    \<open>Import_Normalization\<close> (\<open>import-normalization.ts\<close>: the CSV reader and amounts), \<open>Import_Mapping\<close>
    (\<open>import-mapping.ts\<close> and the row loop of \<open>import/runner.ts\<close>, over a store of objects, since constants of a
    mapping and nested values are shared and assigned into), \<open>Cost_Import\<close> (\<open>import/cost.ts\<close>),
    \<open>Meta_Insights\<close>, \<open>Google_Costs\<close> and \<open>Google_Ads\<close> (\<open>import/adapters.ts\<close> and \<open>google-cost-detail.ts\<close>:
    the network is a function from the ordinal of a request to its answer).
  \<^item> Purchases: \<open>Play_Responses\<close> and \<open>Play_Verifier\<close> (\<open>google-play-product-verifier.ts\<close>: the documents of the
    store, and the worker as operations on its tables whose every transaction may fail or lose its
    acknowledgement; workers, the API and erasures interleave as the step relation \<open>play_step\<close>).
  \<^item> Processes: \<open>Tenant_Work\<close> (\<open>tenant-work-coordinator.ts\<close>: the queue of tenant cycles, run over any sequence of
    submissions, ends of runs, waits and the close, and its shutdown).
  Each theory opens with what it holds. Names are those of the code; a record carries the fields that the
  modelled code reads, with a prefix; a function of the code that throws has a result \<open>js_error + 'a\<close>, where
  \<open>Timestamp_Invalid\<close> is the one exception that callers of the core tell apart.

  \<^bold>\<open>What the lemmas show.\<close> End to end: the index of candidates finds what a scan finds, and the evaluation does not
  depend on which of the two it is given nor on the order of delivery, emits one logical event per scope and nothing that privacy removed. Per component: an
  accepted record passed every check; refunds never exceed their purchase and reversals are exact; credit is
  given only inside the window that applies and only once; the cost index finds exactly the overlapping pairs; a metric
  run has a value or a reason and ignores late records and the decisions on them; rates lie between zero and one; a fraud preview
  ignores the configuration the evidence came with; referrers round-trip and fit their limit; store
  notifications are authentic and refunds exact; the limiters bound memory, bursts and unverified ledger
  writes and lock nobody out; a rotation of the payload key loses nothing, completes, and leaves every payload
  readable; an append to the inbox leaves all of a batch or no row, and no file where its key identifier is one that
  the store can address (\<open>addressable\<close>: at most 512 symbols, no two consecutive dots), which is also exactly when the
  body reads back; a redirect is answered after its click is durable; the rows of an import share no object with each
  other, the file or the mapping, unless the mapping holds a constant object, and the CSV reader inverts a printer; a
  detailed selection has a normal form; the cost adapters stay within their budgets, read every page, and produce only rows that the
  import accepts; revenue of the Play store is recorded once per verification and order, and only for a token
  that was queued, with the money of an order that the store itself confirms; the worker runs one cycle per tenant within its limit, in order, and its
  queue drains.

  \<^bold>\<open>Bounds and fuel.\<close> Every loop of the modelled code is a structural recursion or has a measure; the only
  bounded searches are those of \<open>Js_String\<close>: 330 leading zeros, where the smallest double has 323, and 17 digits,
  which identify a double. \<open>cohortDayStart\<close> tries four times, as the code does, and \<open>local_midnight_resolved\<close> shows that
  two suffice. Texts are the bytes of their UTF-8 encoding, compared as the code compares UTF-16 units only
  where both orders agree (ASCII keys, ISO instants); \<open>utf16_length\<close> counts units. Amounts are integers
  (\<open>BigInt\<close>); doubles are rationals rounded after every operation, and results beyond the largest double do
  not occur. A parsed JSON object has each name once.

  \<^bold>\<open>Arguments of the model.\<close> SHA-256 and JSON canonicalisation (\<open>digests\<close>), the ICU offsets of a time zone,
  \<open>Date.parse\<close> beyond ISO instants, the URL parser and printer, base64, signature and certificate
  primitives, \<open>localeCompare\<close>, random bytes and generated identifiers, the answers of the database and the
  failure of a durable effect. A theorem that needs something of them says so.

  \<^bold>\<open>Not modelled.\<close> SQL texts and PostgreSQL, queues and process bootstrap (the rest of \<open>apps/runtime\<close>,
  most of \<open>apps/worker\<close> and \<open>apps/api\<close>), the lease between processes of the payload store: I/O around the modelled core. The Ajv schema validator and generated
  types: a third-party library. Dashboards, command lines, developer tools and tests.
\<close>

end
